(* ===== verification/Prelude.thy ===== *)
theory Prelude
  imports Main "HOL-Library.Word"
begin

text \<open>
  What every component shares: the machine types the Rust sources use, the outcome of a
  fallible call, reading and writing big-endian fields of a byte buffer, and generic list
  lemmas.

  Conventions. A byte is an \<open>8 word\<close> and a buffer a list of bytes. Header fields are
  words of their width, so that masks and wrap-around are those of the code. Lengths,
  offsets and indices (\<open>usize\<close>) are \<open>nat\<close>: the code uses them on 64-bit targets where no
  such value in this program comes near \<open>2 ^ 64\<close>, and each place where one could exceed
  its type writes the bound out. A call that can fail returns \<open>result\<close>: \<open>Ok\<close>, \<open>Err\<close> with
  the error value of the source, or \<open>Panic\<close> where Rust would panic (an out-of-range slice
  or index, an exhausted cursor), so that absence of panics is a theorem and not a
  convention.
\<close>

section \<open>Types\<close>

type_synonym byte = "8 word"
type_synonym bytes = "byte list"
type_synonym u8 = "8 word"
type_synonym u16 = "16 word"
type_synonym u32 = "32 word"
type_synonym u64 = "64 word"
type_synonym i64 = "64 word"

text \<open>Points in time and spans of it, in nanoseconds.\<close>

type_synonym instant = nat
type_synonym duration = nat

unbundle bit_operations_syntax

named_theorems wire_simps \<open>field readers and writers on concrete layouts\<close>
named_theorems result_splits \<open>case splits of outcomes\<close>

datatype ('a, 'e) result = Ok (ok_value: 'a) | Err (err_value: 'e) | Panic

lemmas [result_splits] = result.split result.split_asm

text \<open>Slice and cursor reads are options; a \<open>None\<close> that the code does not test for is a panic.\<close>

definition or_panic :: "'a option \<Rightarrow> ('a \<Rightarrow> ('b, 'e) result) \<Rightarrow> ('b, 'e) result" where
  "or_panic x k = (case x of None \<Rightarrow> Panic | Some v \<Rightarrow> k v)"

text \<open>The \<open>?\<close> operator.\<close>

definition and_then :: "('a, 'e) result \<Rightarrow> ('a \<Rightarrow> ('b, 'e) result) \<Rightarrow> ('b, 'e) result" where
  "and_then r k = (case r of Ok v \<Rightarrow> k v | Err e \<Rightarrow> Err e | Panic \<Rightarrow> Panic)"

text \<open>The same for a call that also changes a state: an error keeps the state it left.\<close>

definition bind :: "('a, 'e) result \<times> 's \<Rightarrow> ('a \<Rightarrow> 's \<Rightarrow> ('b, 'e) result \<times> 's) \<Rightarrow> ('b, 'e) result \<times> 's" where
  "bind m k = (case m of (Ok v, s) \<Rightarrow> k v s | (Err e, s) \<Rightarrow> (Err e, s) | (Panic, s) \<Rightarrow> (Panic, s))"

lemma bind_simps [simp]:
  "bind (Ok v, s) k = k v s" "bind (Err e, s) k = (Err e, s)" "bind (Panic, s) k = (Panic, s)"
  by (simp_all add: bind_def)

section \<open>Big-endian fields\<close>

text \<open>The value of a byte string, most significant byte first.\<close>

definition be_nat :: "bytes \<Rightarrow> nat" where
  "be_nat bs = foldl (\<lambda>acc b. acc * 256 + unat b) 0 bs"

text \<open>The \<open>k\<close> low bytes of a number, most significant first (\<open>to_be_bytes\<close>).\<close>

primrec to_be :: "nat \<Rightarrow> nat \<Rightarrow> bytes" where
  "to_be 0 n = []"
| "to_be (Suc k) n = to_be k (n div 256) @ [word_of_nat n]"

definition be_word :: "bytes \<Rightarrow> 'w::len word" where
  "be_word bs = word_of_nat (be_nat bs)"

text \<open>\<open>&buf[a..b]\<close>: a slice, \<open>None\<close> where Rust panics.\<close>

definition subslice :: "nat \<Rightarrow> nat \<Rightarrow> 'a list \<Rightarrow> 'a list option" where
  "subslice a b xs =
     (if a \<le> b \<and> b \<le> length xs then Some (take (b - a) (drop a xs)) else None)"

text \<open>\<open>buf[i]\<close>.\<close>

definition index :: "nat \<Rightarrow> 'a list \<Rightarrow> 'a option" where
  "index i xs = (if i < length xs then Some (xs ! i) else None)"

text \<open>\<open>Buf::get_u16\<close> and its kin: read a field and advance; an exhausted cursor panics.\<close>

definition get_be :: "nat \<Rightarrow> bytes \<Rightarrow> ('w::len word \<times> bytes) option" where
  "get_be k c = (if k \<le> length c then Some (be_word (take k c), drop k c) else None)"

definition get_u16 :: "bytes \<Rightarrow> (u16 \<times> bytes) option" where
  "get_u16 = get_be 2"

definition get_u32 :: "bytes \<Rightarrow> (u32 \<times> bytes) option" where
  "get_u32 = get_be 4"

definition get_u64 :: "bytes \<Rightarrow> (u64 \<times> bytes) option" where
  "get_u64 = get_be 8"

definition put_u16 :: "u16 \<Rightarrow> bytes" where
  "put_u16 w = to_be 2 (unat w)"

definition put_u32 :: "u32 \<Rightarrow> bytes" where
  "put_u32 w = to_be 4 (unat w)"

definition put_u64 :: "u64 \<Rightarrow> bytes" where
  "put_u64 w = to_be 8 (unat w)"

text \<open>\<open>usize::div_ceil\<close> and \<open>Vec::resize\<close>.\<close>

definition div_ceil :: "nat \<Rightarrow> nat \<Rightarrow> nat" where
  "div_ceil a b = (a + b - 1) div b"

definition resize :: "nat \<Rightarrow> 'a \<Rightarrow> 'a list \<Rightarrow> 'a list" where
  "resize n x xs = take n xs @ replicate (n - length xs) x"

text \<open>\<open>Iterator::position\<close>: the index of the first element that satisfies the predicate.\<close>

fun position :: "('a \<Rightarrow> bool) \<Rightarrow> 'a list \<Rightarrow> nat option" where
  "position P [] = None"
| "position P (x # xs) = (if P x then Some 0 else map_option Suc (position P xs))"

section \<open>Outcomes\<close>

lemma or_panic_simps [simp]:
  "or_panic None k = Panic"
  "or_panic (Some v) k = k v"
  by (simp_all add: or_panic_def)

lemma and_then_simps [simp]:
  "and_then (Ok v) k = k v"
  "and_then (Err e) k = Err e"
  "and_then Panic k = Panic"
  by (simp_all add: and_then_def)

lemma and_then_eq_Ok:
  "and_then r k = Ok b \<longleftrightarrow> (\<exists>a. r = Ok a \<and> k a = Ok b)"
  by (cases r) auto

lemma and_then_eq_Panic:
  "and_then r k = Panic \<longleftrightarrow> r = Panic \<or> (\<exists>a. r = Ok a \<and> k a = Panic)"
  by (cases r) auto

section \<open>Reading back what was written\<close>

lemma be_nat_Nil [simp]: "be_nat [] = 0"
  by (simp add: be_nat_def)

lemma be_nat_snoc [simp]: "be_nat (bs @ [b]) = be_nat bs * 256 + unat b"
  by (simp add: be_nat_def)

lemma length_to_be [simp]: "length (to_be k n) = k"
  by (induction k arbitrary: n) auto

lemma unat_byte: "unat (word_of_nat n :: byte) = n mod 256"
  by (simp add: unat_of_nat)

lemma unat_byte_bound [simp]: "unat (b :: byte) < 256"
  using unsigned_less [of b, where ?'a = nat] by simp

lemma be_nat_to_be: "be_nat (to_be k n) = n mod 256 ^ k"
proof (induction k arbitrary: n)
  case (Suc k)
  have "n mod 256 ^ Suc k = (n div 256) mod 256 ^ k * 256 + n mod 256"
    by (simp add: mod_mult2_eq [of n 256 "256 ^ k"])
  then show ?case by (simp add: Suc unat_byte)
qed simp

lemma be_nat_bound: "be_nat bs < 256 ^ length bs"
proof (induction bs rule: rev_induct)
  case (snoc b bs)
  have "be_nat bs * 256 + unat b < (be_nat bs + 1) * 256" by simp
  also have "\<dots> \<le> 256 ^ length bs * 256" using snoc by (intro mult_right_mono) auto
  finally show ?case by simp
qed simp

lemma to_be_be_nat: "length bs = k \<Longrightarrow> to_be k (be_nat bs) = bs"
proof (induction bs arbitrary: k rule: rev_induct)
  case (snoc b bs)
  have "unat b < 256" by simp
  then have "(be_nat bs * 256 + unat b) div 256 = be_nat bs"
    by simp
  moreover have "(word_of_nat (be_nat bs * 256 + unat b) :: byte) = b"
    by (rule unsigned_word_eqI [where ?'a = nat]) (simp add: unat_byte del: of_nat_add of_nat_mult)
  ultimately show ?case using snoc by auto
qed simp

lemma unat_of_nat_small: "n < 2 ^ LENGTH('w::len) \<Longrightarrow> unat (word_of_nat n :: 'w word) = n"
  by (simp add: unat_of_nat)

lemma be_word_to_be:
  assumes "LENGTH('w::len) = 8 * k"
  shows "be_word (to_be k (unat w)) = (w :: 'w word)"
proof -
  have "unat w < 256 ^ k"
    using unsigned_less [of w, where ?'a = nat] assms by (simp add: power_mult)
  then show ?thesis by (simp add: be_word_def be_nat_to_be)
qed

lemma to_be_be_word:
  assumes "LENGTH('w::len) = 8 * k" and "length bs = k"
  shows "to_be k (unat (be_word bs :: 'w word)) = bs"
proof -
  have "be_nat bs < 2 ^ LENGTH('w)"
    using be_nat_bound [of bs] assms by (simp add: power_mult)
  then show ?thesis
    using assms by (simp add: be_word_def unat_of_nat_small to_be_be_nat)
qed

lemma length_put [simp]:
  "length (put_u16 w16) = 2" "length (put_u32 w32) = 4" "length (put_u64 w64) = 8"
  by (simp_all add: put_u16_def put_u32_def put_u64_def)

lemma be_word_put [simp]:
  "be_word (put_u16 w16) = w16" "be_word (put_u32 w32) = w32" "be_word (put_u64 w64) = w64"
  by (simp_all add: put_u16_def put_u32_def put_u64_def be_word_to_be)

lemma put_be_word [simp]:
  "length bs = 2 \<Longrightarrow> put_u16 (be_word bs) = bs"
  "length bs = 4 \<Longrightarrow> put_u32 (be_word bs) = bs"
  "length bs = 8 \<Longrightarrow> put_u64 (be_word bs) = bs"
  by (simp_all add: put_u16_def put_u32_def put_u64_def to_be_be_word)

lemma get_put [simp, wire_simps]:
  "get_u16 (put_u16 w16 @ rest) = Some (w16, rest)"
  "get_u32 (put_u32 w32 @ rest) = Some (w32, rest)"
  "get_u64 (put_u64 w64 @ rest) = Some (w64, rest)"
  by (simp_all add: get_u16_def get_u32_def get_u64_def get_be_def)

lemmas get_put_end [simp, wire_simps] = get_put [of _ "[]", simplified]

lemma get_eq_Some:
  "get_u16 c = Some (w16, r) \<longleftrightarrow> c = put_u16 w16 @ r"
  "get_u32 c = Some (w32, r) \<longleftrightarrow> c = put_u32 w32 @ r"
  "get_u64 c = Some (w64, r) \<longleftrightarrow> c = put_u64 w64 @ r"
  by (auto simp: get_u16_def get_u32_def get_u64_def get_be_def)

lemma get_eq_None:
  "get_u16 c = None \<longleftrightarrow> length c < 2"
  "get_u32 c = None \<longleftrightarrow> length c < 4"
  "get_u64 c = None \<longleftrightarrow> length c < 8"
  by (simp_all add: get_u16_def get_u32_def get_u64_def get_be_def not_le)

text \<open>A cursor long enough for a field splits into the field and the rest.\<close>

lemma get_ex:
  "2 \<le> length c \<Longrightarrow> \<exists>w r. c = put_u16 w @ r"
  "4 \<le> length c \<Longrightarrow> \<exists>w r. c = put_u32 w @ r"
  "8 \<le> length c \<Longrightarrow> \<exists>w r. c = put_u64 w @ r"
  using get_eq_None [of c] get_eq_Some [of c] by (metis not_le option.exhaust prod.exhaust)+

lemma subslice_eq_None: "subslice a b xs = None \<longleftrightarrow> \<not> (a \<le> b \<and> b \<le> length xs)"
  by (simp add: subslice_def)

lemma index_eq_None: "index i xs = None \<longleftrightarrow> length xs \<le> i"
  by (simp add: index_def not_less)

lemma length_subslice: "subslice a b xs = Some ys \<Longrightarrow> length ys = b - a"
  by (auto simp: subslice_def split: if_splits)

section \<open>Sizes\<close>

lemma length_resize [simp]: "length (resize n x xs) = n"
  by (simp add: resize_def)

lemma nth_resize:
  "i < n \<Longrightarrow> resize n x xs ! i = (if i < length xs then xs ! i else x)"
  by (auto simp: resize_def nth_append)

lemma div_ceil_le_iff: "0 < b \<Longrightarrow> div_ceil a b \<le> c \<longleftrightarrow> a \<le> c * b"
proof -
  assume b: "0 < b"
  have "div_ceil a b < Suc c \<longleftrightarrow> a + b - 1 < Suc c * b"
    unfolding div_ceil_def using b by (rule div_less_iff_less_mult)
  then show ?thesis using b by auto
qed

lemma le_div_ceil_mult: "0 < b \<Longrightarrow> a \<le> div_ceil a b * b"
  using div_ceil_le_iff [of b a "div_ceil a b"] by simp

lemma div_ceil_mono: "a \<le> a' \<Longrightarrow> div_ceil a b \<le> div_ceil a' b"
  by (simp add: div_ceil_def div_le_mono)

lemma less_div_ceil_iff: "0 < b \<Longrightarrow> c < div_ceil a b \<longleftrightarrow> c * b < a"
  using div_ceil_le_iff [of b a c] by linarith

section \<open>Positions\<close>

lemma position_eq_Some:
  "position P xs = Some i \<Longrightarrow> i < length xs \<and> P (xs ! i) \<and> (\<forall>j < i. \<not> P (xs ! j))"
proof (induction xs arbitrary: i)
  case (Cons x xs)
  show ?case
  proof (cases "P x")
    case False
    with Cons.prems obtain k where "position P xs = Some k" "i = Suc k" by auto
    with Cons.IH [of k] False show ?thesis by (auto simp: less_Suc_eq_0_disj)
  qed (use Cons.prems in auto)
qed simp

lemma position_eq_None: "position P xs = None \<longleftrightarrow> (\<forall>x \<in> set xs. \<not> P x)"
  by (induction xs) auto

end
