(* ===== verification/F64.thy ===== *)
theory F64
  imports Main
begin

text \<open>
  The part of Rust's \<open>f64\<close> that the modelled code uses: conversion from \<open>u64\<close>,
  multiplication, \<open>ceil\<close> and the saturating cast back, as IEEE 754 binary64 with rounding to
  nearest, ties to even. A finite value is \<open>m * 2 ^ e\<close>, kept as the pair; the sign of zero is
  not kept, since none of these operations lets it be observed.
\<close>

datatype f64 = Fin int int | PInf | NInf | NaN

fun bit_length :: "nat \<Rightarrow> nat" where
  "bit_length n = (if n = 0 then 0 else Suc (bit_length (n div 2)))"

declare bit_length.simps [simp del]

text \<open>Round the magnitude \<open>n\<close> after dropping \<open>k\<close> low bits, to nearest, ties to even.\<close>

definition round_shift :: "nat \<Rightarrow> nat \<Rightarrow> nat" where
  "round_shift n k =
     (let q = n div 2 ^ k; r = n mod 2 ^ k; half = 2 ^ (k - 1) in
      if r > half \<or> (r = half \<and> odd q) then q + 1 else q)"

definition f64_inf :: "int \<Rightarrow> f64" where
  "f64_inf s = (if s < 0 then NInf else PInf)"

text \<open>The double nearest to \<open>m * 2 ^ e\<close>: 53 bits of mantissa, exponent not below \<open>-1074\<close>.\<close>

definition f64_round :: "int \<Rightarrow> int \<Rightarrow> f64" where
  "f64_round m e =
     (let n = nat \<bar>m\<bar>; k = max (int (bit_length n) - 53) (- 1074 - e) in
      if n = 0 then Fin 0 0
      else
        let q = (if k \<le> 0 then n else round_shift n (nat k));
            e' = (if k \<le> 0 then e else e + k) in
        if int (bit_length q) + e' > 1024 then f64_inf m
        else Fin (sgn m * int q) e')"

definition f64_of_nat :: "nat \<Rightarrow> f64" where
  "f64_of_nat n = f64_round (int n) 0"

fun f64_mult :: "f64 \<Rightarrow> f64 \<Rightarrow> f64" where
  "f64_mult (Fin m e) (Fin m' e') = f64_round (m * m') (e + e')"
| "f64_mult NaN b = NaN"
| "f64_mult a NaN = NaN"
| "f64_mult (Fin m e) PInf = (if m = 0 then NaN else f64_inf m)"
| "f64_mult (Fin m e) NInf = (if m = 0 then NaN else f64_inf (- m))"
| "f64_mult PInf (Fin m e) = (if m = 0 then NaN else f64_inf m)"
| "f64_mult NInf (Fin m e) = (if m = 0 then NaN else f64_inf (- m))"
| "f64_mult PInf PInf = PInf"
| "f64_mult NInf NInf = PInf"
| "f64_mult PInf NInf = NInf"
| "f64_mult NInf PInf = NInf"

fun f64_ceil :: "f64 \<Rightarrow> f64" where
  "f64_ceil (Fin m e) = (if e \<ge> 0 then Fin m e else Fin (- ((- m) div 2 ^ nat (- e))) 0)"
| "f64_ceil PInf = PInf"
| "f64_ceil NInf = NInf"
| "f64_ceil NaN = NaN"

text \<open>\<open>x as u64\<close>: towards zero, saturating, and 0 for NaN.\<close>

fun f64_as_u64 :: "f64 \<Rightarrow> nat" where
  "f64_as_u64 (Fin m e) =
     (let v = (if e \<ge> 0 then m * 2 ^ nat e else sgn m * (\<bar>m\<bar> div 2 ^ nat (- e))) in
      if v < 0 then 0 else min (nat v) (2 ^ 64 - 1))"
| "f64_as_u64 PInf = 2 ^ 64 - 1"
| "f64_as_u64 NInf = 0"
| "f64_as_u64 NaN = 0"

lemma f64_as_u64_bound: "f64_as_u64 x < 2 ^ 64"
proof (cases x)
  case (Fin m e)
  then show ?thesis by (simp add: Let_def min_def)
qed auto

lemma bit_length_le: "bit_length n \<le> k \<longleftrightarrow> n < 2 ^ k"
proof (induction n arbitrary: k rule: bit_length.induct)
  case (1 n)
  show ?case
  proof (cases "n = 0")
    case True
    then show ?thesis by (subst bit_length.simps) simp
  next
    case False
    show ?thesis
    proof (cases k)
      case 0
      with False show ?thesis by (subst bit_length.simps) simp
    next
      case (Suc j)
      have "bit_length n \<le> k \<longleftrightarrow> bit_length (n div 2) \<le> j"
        using False Suc by (subst bit_length.simps) simp
      also have "\<dots> \<longleftrightarrow> n div 2 < 2 ^ j" using "1.IH" [OF False] .
      also have "\<dots> \<longleftrightarrow> n < 2 ^ k" using Suc by (simp add: div_less_iff_less_mult mult.commute)
      finally show ?thesis .
    qed
  qed
qed

text \<open>Small integers scaled by a power of two are exact.\<close>

lemma f64_round_exact:
  assumes "\<bar>m\<bar> < 2 ^ 53" and "- 1074 \<le> e" and "e \<le> 971" and "m \<noteq> 0"
  shows "f64_round m e = Fin m e"
proof -
  have "nat \<bar>m\<bar> < 2 ^ 53" using assms(1) by (simp add: nat_less_iff)
  then have b: "bit_length (nat \<bar>m\<bar>) \<le> 53" by (simp add: bit_length_le)
  then have "\<not> 0 < max (int (bit_length (nat \<bar>m\<bar>)) - 53) (- 1074 - e)" using assms(2) by simp
  moreover have "\<not> 1024 < int (bit_length (nat \<bar>m\<bar>)) + e" using b assms(3) by simp
  ultimately show ?thesis
    using assms(4) by (simp add: f64_round_def Let_def not_less sgn_mult_abs)
qed

end
