(* ===== verification/Resend.thy ===== *)
theory Resend
  imports Prelude F64
begin

text \<open>
  Which lost packets a block asks for again (\<^verbatim>\<open>crates/viva-genicam/src/stream/resend.rs\<close>):
  the gaps a block's packets leave, the requests that fall due, and the camera's refusals.

  Packet ids are \<open>u32\<close> in the source and \<open>nat\<close> here, with the saturating additions written
  out; \<open>resend_inv\<close> keeps every id below \<open>2 ^ 32\<close>, so no other operation on them can overflow.
  Instants and durations are nanoseconds.
\<close>

section \<open>Definitions\<close>

definition U32_MAX :: nat where
  "U32_MAX = 2 ^ 32 - 1"

definition succ_sat :: "nat \<Rightarrow> nat" where
  "succ_sat n = min (n + 1) U32_MAX"

record resend_config =
  rc_enabled :: bool
  rc_delay :: duration
  rc_retry_interval :: duration
  rc_max_requests :: nat
  rc_budget :: f64

text \<open>The defaults; the budget is the double 0.25.\<close>

definition resend_config_default :: resend_config where
  "resend_config_default =
     \<lparr>rc_enabled = False, rc_delay = 2000000, rc_retry_interval = 20000000,
      rc_max_requests = 3, rc_budget = Fin 1 (- 2)\<rparr>"

record resend_request =
  rq_block_id :: u64
  rq_first :: nat
  rq_last :: nat
  rq_extended_ids :: bool

record gap =
  gap_first :: nat
  gap_last :: nat
  gap_requests :: nat
  gap_due :: "instant option"

definition gap_len :: "gap \<Rightarrow> nat" where
  "gap_len g = (gap_last g - gap_first g) + 1"

definition gap_contains :: "gap \<Rightarrow> nat \<Rightarrow> bool" where
  "gap_contains g i \<longleftrightarrow> gap_first g \<le> i \<and> i \<le> gap_last g"

record resend_state =
  rs_frontier :: nat
  rs_gaps :: "gap list"
  rs_asked :: nat
  rs_spent :: bool

definition resend_default :: resend_state where
  "resend_default = \<lparr>rs_frontier = 0, rs_gaps = [], rs_asked = 0, rs_spent = False\<rparr>"

record due_report =
  newly_requested :: nat
  budget_spent :: bool

datatype answer = Gone | GoneWithPrevious

text \<open>
  The edit \<open>remove_packet\<close> makes to the gap list: the first gap that contains the id is
  shortened, split or removed. The gap it was found in is returned.
\<close>

fun remove_from :: "nat \<Rightarrow> gap list \<Rightarrow> gap option \<times> gap list" where
  "remove_from i [] = (None, [])"
| "remove_from i (g # gs) =
     (if gap_contains g i then
        (Some g,
         (case (i = gap_first g, i = gap_last g) of
            (True, True) \<Rightarrow> gs
          | (True, False) \<Rightarrow> g\<lparr>gap_first := i + 1\<rparr> # gs
          | (False, True) \<Rightarrow> g\<lparr>gap_last := i - 1\<rparr> # gs
          | (False, False) \<Rightarrow> g\<lparr>gap_last := i - 1\<rparr> # g\<lparr>gap_first := i + 1\<rparr> # gs))
      else let (found, gs') = remove_from i gs in (found, g # gs'))"

definition remove_packet :: "nat \<Rightarrow> resend_state \<Rightarrow> gap option \<times> resend_state" where
  "remove_packet i st =
     (let (found, gaps) = remove_from i (rs_gaps st) in (found, st\<lparr>rs_gaps := gaps\<rparr>))"

definition arrived :: "nat \<Rightarrow> instant \<Rightarrow> duration \<Rightarrow> resend_state \<Rightarrow> bool \<times> resend_state" where
  "arrived i now delay st =
     (if i \<ge> rs_frontier st then
        (False,
         (if i > rs_frontier st
          then st\<lparr>rs_gaps := rs_gaps st @
                   [\<lparr>gap_first = rs_frontier st, gap_last = i - 1, gap_requests = 0,
                     gap_due = Some (now + delay)\<rparr>]\<rparr>
          else st)\<lparr>rs_frontier := succ_sat i\<rparr>)
      else
        let (found, st') = remove_packet i st in
        ((case found of None \<Rightarrow> False | Some g \<Rightarrow> gap_requests g > 0), st'))"

fun clip_last :: "nat \<Rightarrow> gap list \<Rightarrow> gap list" where
  "clip_last n [] = []"
| "clip_last n [g] = [g\<lparr>gap_last := min (gap_last g) n\<rparr>]"
| "clip_last n (g # h # gs) = g # clip_last n (h # gs)"

definition resend_trailer :: "nat \<Rightarrow> resend_state \<Rightarrow> resend_state" where
  "resend_trailer i st =
     st\<lparr>rs_gaps := clip_last (i - 1) (filter (\<lambda>g. gap_first g < i) (rs_gaps st)),
        rs_frontier := min (rs_frontier st) (succ_sat i)\<rparr>"

text \<open>The \<open>retain_mut\<close> of \<open>unavailable\<close>: the gaps kept, and how many asked-for ids are gone.\<close>

fun retain_after :: "nat \<Rightarrow> gap list \<Rightarrow> nat \<times> gap list" where
  "retain_after i [] = (0, [])"
| "retain_after i (g # gs) =
     (let (gone, gs') = retain_after i gs in
      if gap_first g > i then (gone, g # gs')
      else
        let last_gone = min (gap_last g) i;
            here = (if gap_requests g > 0 then (last_gone - gap_first g) + 1 else 0) in
        if gap_last g \<le> i then (here + gone, gs')
        else (here + gone, g\<lparr>gap_first := i + 1\<rparr> # gs'))"

definition unavailable :: "nat \<Rightarrow> answer \<Rightarrow> resend_state \<Rightarrow> nat \<times> resend_state" where
  "unavailable i ans st =
     (if ans = Gone then
        if \<not> list_ex (\<lambda>g. gap_contains g i \<and> gap_requests g > 0) (rs_gaps st) then (0, st)
        else let (found, st') = remove_packet i st in ((if found = None then 0 else 1), st')
      else
        let (gone, gaps) = retain_after i (rs_gaps st) in (gone, st\<lparr>rs_gaps := gaps\<rparr>))"

text \<open>The loop of \<open>due\<close> over the gaps; it stops at the first request the budget refuses.\<close>

fun due_loop ::
  "instant \<Rightarrow> resend_config \<Rightarrow> nat \<Rightarrow> u64 \<times> bool \<Rightarrow> gap list \<Rightarrow> nat \<Rightarrow>
   gap list \<times> nat \<times> bool \<times> nat \<times> resend_request list" where
  "due_loop now config budget block [] asked = ([], asked, False, 0, [])"
| "due_loop now config budget block (g # gs) asked =
     (if \<not> (case gap_due g of None \<Rightarrow> False | Some due \<Rightarrow> due \<le> now) then
        let (gs', asked', spent, newly, out) = due_loop now config budget block gs asked in
        (g # gs', asked', spent, newly, out)
      else if asked + gap_len g > budget then (g # gs, asked, True, 0, [])
      else
        let g' = g\<lparr>gap_requests := gap_requests g + 1,
                   gap_due := (if gap_requests g + 1 < rc_max_requests config
                               then Some (now + rc_retry_interval config) else None)\<rparr>;
            request = \<lparr>rq_block_id = fst block, rq_first = gap_first g, rq_last = gap_last g,
                       rq_extended_ids = snd block\<rparr>;
            (gs', asked', spent, newly, out) =
              due_loop now config budget block gs (asked + gap_len g) in
        (g' # gs', asked', spent, (if gap_requests g = 0 then gap_len g else 0) + newly,
         request # out))"

definition resend_budget :: "resend_config \<Rightarrow> nat \<Rightarrow> nat" where
  "resend_budget config packets =
     f64_as_u64 (f64_ceil (f64_mult (f64_of_nat packets) (rc_budget config)))"

definition due ::
  "instant \<Rightarrow> resend_config \<Rightarrow> nat \<Rightarrow> u64 \<times> bool \<Rightarrow> resend_state \<Rightarrow>
   due_report \<times> resend_state \<times> resend_request list" where
  "due now config packets block st =
     (if rs_spent st then (\<lparr>newly_requested = 0, budget_spent = False\<rparr>, st, [])
      else
        let (gaps, asked, spent, newly, out) =
              due_loop now config (resend_budget config packets) block (rs_gaps st) (rs_asked st) in
        (\<lparr>newly_requested = newly, budget_spent = spent\<rparr>,
         st\<lparr>rs_gaps := gaps, rs_asked := asked, rs_spent := spent\<rparr>, out))"

section \<open>Missing packets\<close>

definition gap_ids :: "gap \<Rightarrow> nat set" where
  "gap_ids g = {gap_first g..gap_last g}"

text \<open>Ids below the frontier that have not arrived, and those of them that were asked for.\<close>

definition missing :: "gap list \<Rightarrow> nat set" where
  "missing gs = (\<Union>g \<in> set gs. gap_ids g)"

definition asked_for :: "gap list \<Rightarrow> nat set" where
  "asked_for gs = missing (filter (\<lambda>g. gap_requests g > 0) gs)"

definition gaps_ok :: "gap list \<Rightarrow> bool" where
  "gaps_ok gs \<longleftrightarrow> sorted_wrt (\<lambda>g h. gap_last g < gap_first h) gs \<and>
     (\<forall>g \<in> set gs. gap_first g \<le> gap_last g)"

definition resend_inv :: "resend_state \<Rightarrow> bool" where
  "resend_inv st \<longleftrightarrow> gaps_ok (rs_gaps st) \<and> (\<forall>i \<in> missing (rs_gaps st). i < rs_frontier st) \<and>
     rs_frontier st \<le> U32_MAX"

lemma missing_simps [simp]:
  "missing [] = {}" "missing (g # gs) = gap_ids g \<union> missing gs"
  "missing (gs @ hs) = missing gs \<union> missing hs"
  by (auto simp: missing_def)

lemma asked_for_simps [simp]:
  "asked_for [] = {}"
  "asked_for (g # gs) = (if gap_requests g > 0 then gap_ids g else {}) \<union> asked_for gs"
  "asked_for (gs @ hs) = asked_for gs \<union> asked_for hs"
  by (auto simp: asked_for_def)

lemma gaps_ok_simps [simp]:
  "gaps_ok []"
  "gaps_ok (g # gs) \<longleftrightarrow> gap_first g \<le> gap_last g \<and> (\<forall>h \<in> set gs. gap_last g < gap_first h) \<and> gaps_ok gs"
  by (auto simp: gaps_ok_def)

lemma finite_missing [simp]: "finite (missing gs)" "finite (asked_for gs)"
  by (auto simp: missing_def asked_for_def gap_ids_def)

lemma asked_for_subset: "asked_for gs \<subseteq> missing gs"
  by (induction gs) auto

lemma gap_contains_ids: "gap_contains g i \<longleftrightarrow> i \<in> gap_ids g"
  by (simp add: gap_contains_def gap_ids_def)

lemma card_gap_ids: "gap_first g \<le> gap_last g \<Longrightarrow> card (gap_ids g) = gap_len g"
  by (simp add: gap_ids_def gap_len_def)

lemma missing_above:
  "gaps_ok gs \<Longrightarrow> (\<forall>h \<in> set gs. n < gap_first h) \<longleftrightarrow> (\<forall>i \<in> missing gs. n < i)"
  by (induction gs) (auto simp: gap_ids_def)

lemma gaps_ok_tail:
  "gaps_ok (g # gs) \<Longrightarrow> i \<in> missing gs \<Longrightarrow> gap_last g < i"
  using missing_above [of gs "gap_last g"] by auto

lemma gaps_ok_append:
  "gaps_ok (gs @ [g]) \<longleftrightarrow> gaps_ok gs \<and> gap_first g \<le> gap_last g \<and> (\<forall>i \<in> missing gs. i < gap_first g)"
  by (induction gs) (auto simp: gap_ids_def)

section \<open>The gap list as a set\<close>

text \<open>What is left of a gap when one of its ids is taken out.\<close>

definition gap_cut :: "nat \<Rightarrow> gap \<Rightarrow> gap list" where
  "gap_cut i g =
     (if i = gap_first g then [] else [g\<lparr>gap_last := i - 1\<rparr>]) @
     (if i = gap_last g then [] else [g\<lparr>gap_first := i + 1\<rparr>])"

lemma remove_from_here: "gap_contains g i \<Longrightarrow> remove_from i (g # gs) = (Some g, gap_cut i g @ gs)"
  by (auto simp: gap_cut_def split: bool.splits)

lemma remove_from_later:
  "\<not> gap_contains g i \<Longrightarrow>
   remove_from i (g # gs) = (fst (remove_from i gs), g # snd (remove_from i gs))"
  by (simp add: case_prod_beta)

declare remove_from.simps(2) [simp del]

lemma gap_cut_ids:
  assumes "gap_contains g i"
  shows "missing (gap_cut i g) = gap_ids g - {i}"
    and "asked_for (gap_cut i g) = (if gap_requests g > 0 then gap_ids g - {i} else {})"
proof -
  have m: "j \<in> missing (gap_cut i g) \<longleftrightarrow> j \<in> gap_ids g - {i}" for j
    using assms by (cases "i = gap_first g"; cases "i = gap_last g")
      (auto simp: gap_cut_def gap_ids_def gap_contains_def)
  then show "missing (gap_cut i g) = gap_ids g - {i}" by blast
  have "asked_for (gap_cut i g) = (if gap_requests g > 0 then missing (gap_cut i g) else {})"
    by (simp add: gap_cut_def gap_ids_def)
  with m show "asked_for (gap_cut i g) = (if gap_requests g > 0 then gap_ids g - {i} else {})"
    by auto
qed

lemma gap_cut_ok: "gaps_ok (g # gs) \<Longrightarrow> gap_contains g i \<Longrightarrow> gaps_ok (gap_cut i g @ gs)"
  by (auto simp: gap_cut_def gap_contains_def)

lemma remove_here:
  assumes ok: "gaps_ok (g # gs)" and i: "gap_contains g i"
  shows "gaps_ok (snd (remove_from i (g # gs)))"
    and "missing (snd (remove_from i (g # gs))) = missing (g # gs) - {i}"
    and "asked_for (snd (remove_from i (g # gs))) = asked_for (g # gs) - {i}"
    and "gap_requests g > 0 \<longleftrightarrow> i \<in> asked_for (g # gs)"
proof -
  have out: "i \<notin> missing gs" using gaps_ok_tail [OF ok, of i] i by (auto simp: gap_contains_def)
  then have out': "i \<notin> asked_for gs" using asked_for_subset by blast
  show "gap_requests g > 0 \<longleftrightarrow> i \<in> asked_for (g # gs)"
    using i out' by (auto simp: gap_contains_ids)
  show "gaps_ok (snd (remove_from i (g # gs)))"
    using gap_cut_ok [OF ok i] unfolding remove_from_here [OF i] by simp
  show "missing (snd (remove_from i (g # gs))) = missing (g # gs) - {i}"
    using out gap_cut_ids [OF i] unfolding remove_from_here [OF i] by auto
  show "asked_for (snd (remove_from i (g # gs))) = asked_for (g # gs) - {i}"
    using out' gap_cut_ids [OF i] unfolding remove_from_here [OF i] by auto
qed

lemma remove_from_spec:
  assumes "gaps_ok gs"
  shows "gaps_ok (snd (remove_from i gs)) \<and> missing (snd (remove_from i gs)) = missing gs - {i} \<and>
    asked_for (snd (remove_from i gs)) = asked_for gs - {i} \<and>
    (fst (remove_from i gs) = None \<longleftrightarrow> i \<notin> missing gs) \<and>
    (\<forall>g. fst (remove_from i gs) = Some g \<longrightarrow> (gap_requests g > 0 \<longleftrightarrow> i \<in> asked_for gs))"
  using assms
proof (induction gs)
  case (Cons g gs)
  show ?case
  proof (cases "gap_contains g i")
    case True
    note here = remove_here [OF Cons.prems True]
    have "i \<in> missing (g # gs)" "fst (remove_from i (g # gs)) = Some g"
      using True by (auto simp: gap_contains_ids remove_from_here)
    then show ?thesis using here by (metis option.distinct(1) option.inject)
  next
    case False
    note eq = remove_from_later [OF False, of gs]
    have ok: "gaps_ok gs" using Cons.prems by simp
    note IH = Cons.IH [OF ok]
    have "\<forall>i \<in> missing (snd (remove_from i gs)). gap_last g < i"
      using IH gaps_ok_tail [OF Cons.prems] by blast
    then have "gaps_ok (g # snd (remove_from i gs))"
      using Cons.prems IH missing_above by simp
    then show ?thesis using IH False by (auto simp: eq gap_contains_ids)
  qed
qed simp

lemma retain_after_spec:
  assumes "gaps_ok gs"
  shows "gaps_ok (snd (retain_after i gs)) \<and> missing (snd (retain_after i gs)) = missing gs - {..i} \<and>
    asked_for (snd (retain_after i gs)) = asked_for gs - {..i} \<and>
    fst (retain_after i gs) = card (asked_for gs \<inter> {..i})"
  using assms
proof (induction gs)
  case (Cons g gs)
  have ok: "gaps_ok gs" using Cons.prems by simp
  obtain gone gs' where r: "retain_after i gs = (gone, gs')" by fastforce
  have IH: "gaps_ok gs'" "missing gs' = missing gs - {..i}" "asked_for gs' = asked_for gs - {..i}"
    "gone = card (asked_for gs \<inter> {..i})"
    using Cons.IH [OF ok] by (simp_all add: r)
  have above: "\<forall>j \<in> missing gs'. gap_last g < j"
    using IH(2) gaps_ok_tail [OF Cons.prems] by blast
  then have ok': "\<forall>h \<in> set gs'. gap_last g < gap_first h" using missing_above [OF IH(1)] by simp
  have disj: "gap_ids g \<inter> asked_for gs = {}"
    using gaps_ok_tail [OF Cons.prems] asked_for_subset by (fastforce simp: gap_ids_def)
  show ?case
  proof (cases "gap_first g > i")
    case True
    then have "asked_for (g # gs) \<inter> {..i} = asked_for gs \<inter> {..i}" by (auto simp: gap_ids_def)
    then show ?thesis
      using True Cons.prems IH ok' by (auto simp: r gap_ids_def)
  next
    case False
    let ?here = "if gap_requests g > 0 then (min (gap_last g) i - gap_first g) + 1 else 0"
    have "card (gap_ids g \<inter> {..i}) = (min (gap_last g) i - gap_first g) + 1"
    proof -
      have "gap_ids g \<inter> {..i} = {gap_first g..min (gap_last g) i}" by (auto simp: gap_ids_def)
      then show ?thesis using False Cons.prems by (simp add: Suc_diff_le)
    qed
    then have here: "card ((if gap_requests g > 0 then gap_ids g else {}) \<inter> {..i}) = ?here" by simp
    have "asked_for (g # gs) \<inter> {..i} =
        ((if gap_requests g > 0 then gap_ids g else {}) \<inter> {..i}) \<union> (asked_for gs \<inter> {..i})" by auto
    also have "card \<dots> = ?here + gone"
      using disj by (subst card_Un_disjoint) (auto simp: here IH(4) gap_ids_def)
    finally have card: "card (asked_for (g # gs) \<inter> {..i}) = ?here + gone" .
    have eq: "retain_after i (g # gs) =
        (?here + gone, (if gap_last g \<le> i then gs' else g\<lparr>gap_first := i + 1\<rparr> # gs'))"
      using False by (simp add: r Let_def)
    show ?thesis
      using False Cons.prems IH ok' card unfolding eq
      by (auto simp: gap_ids_def)
  qed
qed simp

lemma clip_last_spec:
  assumes "gaps_ok gs" and "\<forall>g \<in> set gs. gap_first g \<le> n"
  shows "gaps_ok (clip_last n gs) \<and> (\<forall>j. j \<in> missing (clip_last n gs) \<longleftrightarrow> j \<in> missing gs \<and> j \<le> n) \<and>
    (\<forall>j. j \<in> asked_for (clip_last n gs) \<longleftrightarrow> j \<in> asked_for gs \<and> j \<le> n)"
  using assms
proof (induction n gs rule: clip_last.induct)
  case (3 n g h gs)
  then have IH: "gaps_ok (clip_last n (h # gs))"
    "\<And>j. j \<in> missing (clip_last n (h # gs)) \<longleftrightarrow> j \<in> missing (h # gs) \<and> j \<le> n"
    "\<And>j. j \<in> asked_for (clip_last n (h # gs)) \<longleftrightarrow> j \<in> asked_for (h # gs) \<and> j \<le> n" by simp_all
  have "gap_last g < gap_first h" "gap_first h \<le> n" using "3.prems" by auto
  then have g: "gap_last g \<le> n" by simp
  have "\<forall>j \<in> missing (clip_last n (h # gs)). gap_last g < j"
    using IH(2) gaps_ok_tail [OF "3.prems"(1)] by blast
  then have "gaps_ok (g # clip_last n (h # gs))"
    using "3.prems" IH(1) missing_above [OF IH(1)] by simp
  moreover have "j \<in> gap_ids g \<Longrightarrow> j \<le> n" for j using g by (simp add: gap_ids_def)
  ultimately show ?case using IH(2,3) by (simp only: clip_last.simps missing_simps asked_for_simps) auto
qed (auto simp: gap_ids_def)

lemma filter_missing:
  assumes "gaps_ok gs"
  shows "gaps_ok (filter (\<lambda>g. gap_first g < i) gs)"
    and "j < i \<Longrightarrow> j \<in> missing (filter (\<lambda>g. gap_first g < i) gs) \<longleftrightarrow> j \<in> missing gs"
    and "j < i \<Longrightarrow> j \<in> asked_for (filter (\<lambda>g. gap_first g < i) gs) \<longleftrightarrow> j \<in> asked_for gs"
proof -
  show "gaps_ok (filter (\<lambda>g. gap_first g < i) gs)"
    using assms by (auto simp: gaps_ok_def intro: sorted_wrt_filter)
  show "j < i \<Longrightarrow> j \<in> missing (filter (\<lambda>g. gap_first g < i) gs) \<longleftrightarrow> j \<in> missing gs"
    by (induction gs) (auto simp: gap_ids_def)
  show "j < i \<Longrightarrow> j \<in> asked_for (filter (\<lambda>g. gap_first g < i) gs) \<longleftrightarrow> j \<in> asked_for gs"
    by (induction gs) (auto simp: gap_ids_def)
qed

section \<open>Each operation on the state\<close>

lemma asked_in_gap:
  "list_ex (\<lambda>g. gap_contains g i \<and> gap_requests g > 0) gs \<longleftrightarrow> i \<in> asked_for gs"
  by (induction gs) (auto simp: gap_contains_ids)

lemma remove_packet_spec:
  assumes "resend_inv st"
  shows "resend_inv (snd (remove_packet i st))"
    and "missing (rs_gaps (snd (remove_packet i st))) = missing (rs_gaps st) - {i}"
    and "asked_for (rs_gaps (snd (remove_packet i st))) = asked_for (rs_gaps st) - {i}"
    and "rs_frontier (snd (remove_packet i st)) = rs_frontier st"
    and "(case fst (remove_packet i st) of None \<Rightarrow> False | Some g \<Rightarrow> gap_requests g > 0) \<longleftrightarrow>
      i \<in> asked_for (rs_gaps st)"
    and "fst (remove_packet i st) = None \<longleftrightarrow> i \<notin> missing (rs_gaps st)"
proof -
  have ok: "gaps_ok (rs_gaps st)" using assms by (simp add: resend_inv_def)
  have eq: "remove_packet i st =
      (fst (remove_from i (rs_gaps st)), st\<lparr>rs_gaps := snd (remove_from i (rs_gaps st))\<rparr>)"
    by (simp add: remove_packet_def case_prod_beta)
  note spec = remove_from_spec [OF ok, of i]
  show "missing (rs_gaps (snd (remove_packet i st))) = missing (rs_gaps st) - {i}"
    "asked_for (rs_gaps (snd (remove_packet i st))) = asked_for (rs_gaps st) - {i}"
    "rs_frontier (snd (remove_packet i st)) = rs_frontier st"
    "fst (remove_packet i st) = None \<longleftrightarrow> i \<notin> missing (rs_gaps st)"
    using spec by (simp_all add: eq)
  show "resend_inv (snd (remove_packet i st))" using assms spec by (simp add: eq resend_inv_def)
  show "(case fst (remove_packet i st) of None \<Rightarrow> False | Some g \<Rightarrow> gap_requests g > 0) \<longleftrightarrow>
      i \<in> asked_for (rs_gaps st)"
    using spec asked_for_subset by (fastforce simp: eq split: option.split)
qed

lemma arrived_spec:
  assumes inv: "resend_inv st" and i: "i \<le> U32_MAX"
  shows "resend_inv (snd (arrived i now delay st))"
    and "missing (rs_gaps (snd (arrived i now delay st))) =
      (if i \<ge> rs_frontier st then missing (rs_gaps st) \<union> {rs_frontier st..<i}
       else missing (rs_gaps st) - {i})"
    and "asked_for (rs_gaps (snd (arrived i now delay st))) = asked_for (rs_gaps st) - {i}"
    and "fst (arrived i now delay st) \<longleftrightarrow> i \<in> asked_for (rs_gaps st)"
    and "rs_frontier (snd (arrived i now delay st)) =
      (if i \<ge> rs_frontier st then succ_sat i else rs_frontier st)"
proof -
  have below: "j \<in> missing (rs_gaps st) \<Longrightarrow> j < rs_frontier st" for j
    using inv by (simp add: resend_inv_def)
  have asked: "j \<in> asked_for (rs_gaps st) \<Longrightarrow> j < rs_frontier st" for j
    using below asked_for_subset by blast
  have sat: "j < i \<Longrightarrow> j < succ_sat i" "succ_sat i \<le> U32_MAX" for j
    using i by (auto simp: succ_sat_def)
  consider (new) "i > rs_frontier st" | (next_id) "i = rs_frontier st" | (old) "i < rs_frontier st"
    by linarith
  then have "resend_inv (snd (arrived i now delay st)) \<and>
    missing (rs_gaps (snd (arrived i now delay st))) =
      (if i \<ge> rs_frontier st then missing (rs_gaps st) \<union> {rs_frontier st..<i}
       else missing (rs_gaps st) - {i}) \<and>
    asked_for (rs_gaps (snd (arrived i now delay st))) = asked_for (rs_gaps st) - {i} \<and>
    (fst (arrived i now delay st) \<longleftrightarrow> i \<in> asked_for (rs_gaps st)) \<and>
    rs_frontier (snd (arrived i now delay st)) =
      (if i \<ge> rs_frontier st then succ_sat i else rs_frontier st)"
  proof cases
    case new
    let ?g = "\<lparr>gap_first = rs_frontier st, gap_last = i - 1, gap_requests = 0, gap_due = Some (now + delay)\<rparr>"
    have "gaps_ok (rs_gaps st @ [?g])"
      using inv new below by (simp add: gaps_ok_append resend_inv_def)
    moreover have "gap_ids ?g = {rs_frontier st..<i}" using new by (auto simp: gap_ids_def)
    moreover have "i \<notin> asked_for (rs_gaps st)" using asked new by fastforce
    moreover have "j < succ_sat i" if "j \<in> missing (rs_gaps st)" for j
      using below [OF that] new sat(1) by simp
    ultimately show ?thesis using new sat by (auto simp: arrived_def resend_inv_def)
  next
    case next_id
    moreover have "i \<notin> asked_for (rs_gaps st)" using asked next_id by fastforce
    ultimately show ?thesis using inv below sat by (auto simp: arrived_def resend_inv_def)
  next
    case old
    then have "arrived i now delay st =
        ((case fst (remove_packet i st) of None \<Rightarrow> False | Some g \<Rightarrow> gap_requests g > 0),
         snd (remove_packet i st))"
      by (simp add: arrived_def case_prod_beta Let_def)
    then show ?thesis using old remove_packet_spec [OF inv, of i] by simp
  qed
  then show "resend_inv (snd (arrived i now delay st))"
    "missing (rs_gaps (snd (arrived i now delay st))) =
      (if i \<ge> rs_frontier st then missing (rs_gaps st) \<union> {rs_frontier st..<i}
       else missing (rs_gaps st) - {i})"
    "asked_for (rs_gaps (snd (arrived i now delay st))) = asked_for (rs_gaps st) - {i}"
    "fst (arrived i now delay st) \<longleftrightarrow> i \<in> asked_for (rs_gaps st)"
    "rs_frontier (snd (arrived i now delay st)) =
      (if i \<ge> rs_frontier st then succ_sat i else rs_frontier st)"
    by blast+
qed

lemma resend_trailer_spec:
  assumes inv: "resend_inv st" and i: "i \<le> U32_MAX"
  shows "resend_inv (resend_trailer i st)"
    and "missing (rs_gaps (resend_trailer i st)) = missing (rs_gaps st) \<inter> {..<i}"
    and "asked_for (rs_gaps (resend_trailer i st)) = asked_for (rs_gaps st) \<inter> {..<i}"
proof -
  let ?f = "filter (\<lambda>g. gap_first g < i) (rs_gaps st)"
  have ok: "gaps_ok (rs_gaps st)" using inv by (simp add: resend_inv_def)
  have le: "\<forall>g \<in> set ?f. gap_first g \<le> i - 1" by auto
  note clip = clip_last_spec [OF filter_missing(1) [OF ok] le]
  have zero: "?f = []" if "i = 0" using that by simp
  have m: "j \<in> missing (clip_last (i - 1) ?f) \<longleftrightarrow> j \<in> missing (rs_gaps st) \<and> j < i" for j
    using clip filter_missing(2) [OF ok, of j i] zero by (cases "i = 0") auto
  have a: "j \<in> asked_for (clip_last (i - 1) ?f) \<longleftrightarrow> j \<in> asked_for (rs_gaps st) \<and> j < i" for j
    using clip filter_missing(3) [OF ok, of j i] zero by (cases "i = 0") auto
  show "missing (rs_gaps (resend_trailer i st)) = missing (rs_gaps st) \<inter> {..<i}"
    using m by (auto simp: resend_trailer_def)
  show "asked_for (rs_gaps (resend_trailer i st)) = asked_for (rs_gaps st) \<inter> {..<i}"
    using a by (auto simp: resend_trailer_def)
  show "resend_inv (resend_trailer i st)"
    using inv clip m i by (auto simp: resend_inv_def resend_trailer_def succ_sat_def)
qed

lemma unavailable_spec:
  assumes inv: "resend_inv st"
  shows "resend_inv (snd (unavailable i ans st))"
    and "asked_for (rs_gaps (snd (unavailable i ans st))) =
      asked_for (rs_gaps st) - (if ans = Gone then {i} else {..i})"
    and "fst (unavailable i ans st) =
      card (asked_for (rs_gaps st) \<inter> (if ans = Gone then {i} else {..i}))"
    and "missing (rs_gaps (snd (unavailable i ans st))) =
      missing (rs_gaps st) -
        (if ans = GoneWithPrevious then {..i} else if i \<in> asked_for (rs_gaps st) then {i} else {})"
proof -
  have ok: "gaps_ok (rs_gaps st)" using inv by (simp add: resend_inv_def)
  note rem = remove_packet_spec [OF inv, of i]
  have gone: "unavailable i Gone st =
      (if i \<in> asked_for (rs_gaps st) then (1, snd (remove_packet i st)) else (0, st))"
    using rem(6) asked_for_subset
    by (auto simp: unavailable_def asked_in_gap case_prod_beta Let_def)
  have prev: "unavailable i GoneWithPrevious st =
      (fst (retain_after i (rs_gaps st)), st\<lparr>rs_gaps := snd (retain_after i (rs_gaps st))\<rparr>)"
    by (simp add: unavailable_def case_prod_beta)
  note ret = retain_after_spec [OF ok, of i]
  show "resend_inv (snd (unavailable i ans st))"
    "asked_for (rs_gaps (snd (unavailable i ans st))) =
      asked_for (rs_gaps st) - (if ans = Gone then {i} else {..i})"
    "fst (unavailable i ans st) =
      card (asked_for (rs_gaps st) \<inter> (if ans = Gone then {i} else {..i}))"
    "missing (rs_gaps (snd (unavailable i ans st))) =
      missing (rs_gaps st) -
        (if ans = GoneWithPrevious then {..i} else if i \<in> asked_for (rs_gaps st) then {i} else {})"
    using inv rem ret by (cases ans; auto simp: gone prev resend_inv_def)+
qed

section \<open>Requests that fall due\<close>

definition is_due :: "instant \<Rightarrow> gap \<Rightarrow> bool" where
  "is_due now g \<longleftrightarrow> (case gap_due g of None \<Rightarrow> False | Some t \<Rightarrow> t \<le> now)"

definition ask :: "instant \<Rightarrow> resend_config \<Rightarrow> gap \<Rightarrow> gap" where
  "ask now config g = g\<lparr>gap_requests := gap_requests g + 1,
     gap_due := (if gap_requests g + 1 < rc_max_requests config
                 then Some (now + rc_retry_interval config) else None)\<rparr>"

definition request_for :: "u64 \<times> bool \<Rightarrow> gap \<Rightarrow> resend_request" where
  "request_for block g = \<lparr>rq_block_id = fst block, rq_first = gap_first g, rq_last = gap_last g,
     rq_extended_ids = snd block\<rparr>"

lemma ask_simps [simp]:
  "gap_first (ask now config g) = gap_first g" "gap_last (ask now config g) = gap_last g"
  "gap_requests (ask now config g) = Suc (gap_requests g)" "gap_ids (ask now config g) = gap_ids g"
  by (simp_all add: ask_def gap_ids_def)

text \<open>
  What the loop does, in one line: of the gaps that are due, it asks for as long a prefix as the
  budget allows.
\<close>

fun due_prefix :: "instant \<Rightarrow> nat \<Rightarrow> gap list \<Rightarrow> nat \<Rightarrow> nat" where
  "due_prefix now budget [] asked = 0"
| "due_prefix now budget (g # gs) asked =
     (if \<not> is_due now g then Suc (due_prefix now budget gs asked)
      else if asked + gap_len g > budget then 0
      else Suc (due_prefix now budget gs (asked + gap_len g)))"

lemma due_loop_eq:
  "due_loop now config budget block gs asked =
     (let n = due_prefix now budget gs asked; due_gaps = filter (is_due now) (take n gs) in
      (map (\<lambda>g. if is_due now g then ask now config g else g) (take n gs) @ drop n gs,
       asked + sum_list (map gap_len due_gaps),
       n < length gs,
       sum_list (map gap_len (filter (\<lambda>g. gap_requests g = 0) due_gaps)),
       map (request_for block) due_gaps))"
  by (induction gs arbitrary: asked)
    (simp_all add: Let_def case_prod_beta is_due_def [symmetric] ask_def request_for_def)

lemma due_prefix_budget:
  "due_prefix now budget gs asked = n \<Longrightarrow> filter (is_due now) (take n gs) \<noteq> [] \<Longrightarrow>
   asked + sum_list (map gap_len (filter (is_due now) (take n gs))) \<le> budget"
proof (induction gs arbitrary: asked n)
  case (Cons g gs)
  show ?case
  proof (cases "is_due now g")
    case True
    let ?m = "due_prefix now budget gs (asked + gap_len g)"
    from Cons.prems True have ok: "asked + gap_len g \<le> budget" and n: "n = Suc ?m"
      by (auto split: if_splits)
    show ?thesis
    proof (cases "filter (is_due now) (take ?m gs) = []")
      case False
      with Cons.IH [of "asked + gap_len g" ?m] True n show ?thesis by simp
    qed (use True n ok in simp)
  qed (use Cons in \<open>auto split: if_splits\<close>)
qed simp

lemma map_ask_same_ids:
  "map (\<lambda>g. (gap_first g, gap_last g)) hs = map (\<lambda>g. (gap_first g, gap_last g)) gs \<Longrightarrow>
   missing hs = missing gs \<and> (gaps_ok hs \<longleftrightarrow> gaps_ok gs)"
proof (induction hs arbitrary: gs)
  case (Cons h hs)
  then obtain g gs' where gs: "gs = g # gs'" and hd: "gap_first h = gap_first g" "gap_last h = gap_last g"
    and tl: "map (\<lambda>g. (gap_first g, gap_last g)) hs = map (\<lambda>g. (gap_first g, gap_last g)) gs'" by auto
  have "map gap_first hs = map gap_first gs'"
    using arg_cong [OF tl, of "map fst"] by (simp add: comp_def)
  then have "set (map gap_first hs) = set (map gap_first gs')" by (rule arg_cong)
  then have "(\<forall>x \<in> set hs. n < gap_first x) \<longleftrightarrow> (\<forall>x \<in> set gs'. n < gap_first x)" for n
    by (metis (no_types, lifting) imageE imageI list.set_map)
  then show ?case using Cons.IH [OF tl] hd by (simp add: gs gap_ids_def)
qed simp

lemma asked_after_due:
  assumes "gaps_ok gs"
  shows "asked_for (map (\<lambda>g. if d g then ask now config g else g) gs) =
      asked_for gs \<union> missing (filter d gs)"
    and "card (asked_for (map (\<lambda>g. if d g then ask now config g else g) gs)) =
      card (asked_for gs) + sum_list (map gap_len (filter (\<lambda>g. gap_requests g = 0) (filter d gs)))"
  using assms
proof (induction gs)
  case (Cons g gs)
  let ?new = "map (\<lambda>g. if d g then ask now config g else g) gs"
  { case 1
    then show ?case using Cons.IH(1) by auto }
  { case 2
    then have ok: "gaps_ok gs" by simp
    have "missing ?new = missing gs"
      using map_ask_same_ids [of ?new gs] by (simp add: comp_def if_distrib cong: if_cong)
    then have disj: "gap_ids g \<inter> asked_for ?new = {}" "gap_ids g \<inter> asked_for gs = {}"
      using gaps_ok_tail [OF 2] asked_for_subset by (fastforce simp: gap_ids_def)+
    have fin: "finite (gap_ids g)" by (simp add: gap_ids_def)
    have len: "card (gap_ids g) = gap_len g" using 2 by (simp add: card_gap_ids)
    show ?case
      using Cons.IH(2) [OF ok] disj fin len
      by (auto simp: card_Un_disjoint) }
qed simp_all

definition rq_len :: "resend_request \<Rightarrow> nat" where
  "rq_len r = (rq_last r - rq_first r) + 1"

definition rq_ids :: "resend_request \<Rightarrow> nat set" where
  "rq_ids r = {rq_first r..rq_last r}"

lemma request_for_simps [simp]:
  "rq_len (request_for block g) = gap_len g" "rq_ids (request_for block g) = gap_ids g"
  "rq_block_id (request_for block g) = fst block" "rq_extended_ids (request_for block g) = snd block"
  by (simp_all add: rq_len_def rq_ids_def request_for_def gap_len_def gap_ids_def)

lemma due_gaps_spec:
  fixes now config budget asked gs n
  defines "n \<equiv> due_prefix now budget gs asked"
  defines "gs' \<equiv> map (\<lambda>g. if is_due now g then ask now config g else g) (take n gs) @ drop n gs"
  assumes ok: "gaps_ok gs"
  shows "gaps_ok gs'" "missing gs' = missing gs"
    "asked_for gs' = asked_for gs \<union> missing (filter (is_due now) (take n gs))"
    "card (asked_for gs') = card (asked_for gs) +
       sum_list (map gap_len (filter (\<lambda>g. gap_requests g = 0) (filter (is_due now) (take n gs))))"
proof -
  have "map (\<lambda>g. (gap_first g, gap_last g)) gs' = map (\<lambda>g. (gap_first g, gap_last g)) (take n gs @ drop n gs)"
    unfolding gs'_def by (simp add: comp_def if_distrib cong: if_cong del: append_take_drop_id)
  then have same: "map (\<lambda>g. (gap_first g, gap_last g)) gs' = map (\<lambda>g. (gap_first g, gap_last g)) gs" by simp
  then show "gaps_ok gs'" "missing gs' = missing gs" using map_ask_same_ids ok by blast+
  have okt: "gaps_ok (take n gs)" using ok by (auto simp: gaps_ok_def sorted_wrt_take dest: in_set_takeD)
  note after = asked_after_due [OF okt, where d = "is_due now" and now = now and config = config]
  have whole: "asked_for gs = asked_for (take n gs) \<union> asked_for (drop n gs)"
    using asked_for_simps(3) [of "take n gs" "drop n gs"] by simp
  show "asked_for gs' = asked_for gs \<union> missing (filter (is_due now) (take n gs))"
    using after(1) whole by (auto simp: gs'_def)
  let ?a = "asked_for (map (\<lambda>g. if is_due now g then ask now config g else g) (take n gs))"
  have "missing (take n gs) \<inter> missing (drop n gs) = {}"
  proof -
    have "sorted_wrt (\<lambda>g h. gap_last g < gap_first h) (take n gs @ drop n gs)"
      using ok by (simp add: gaps_ok_def)
    then have "gap_last g < gap_first h" if "g \<in> set (take n gs)" "h \<in> set (drop n gs)" for g h
      using that unfolding sorted_wrt_append by blast
    then have "j \<notin> missing (drop n gs)" if "j \<in> missing (take n gs)" for j
      using that unfolding missing_def gap_ids_def by fastforce
    then show ?thesis by blast
  qed
  moreover have "?a \<subseteq> missing (take n gs)"
    unfolding after(1) using asked_for_subset by (fastforce simp: missing_def)
  ultimately have d: "?a \<inter> asked_for (drop n gs) = {}" "asked_for (take n gs) \<inter> asked_for (drop n gs) = {}"
    using asked_for_subset by blast+
  show "card (asked_for gs') = card (asked_for gs) +
     sum_list (map gap_len (filter (\<lambda>g. gap_requests g = 0) (filter (is_due now) (take n gs))))"
  proof -
    have "card (asked_for gs') = card ?a + card (asked_for (drop n gs))"
      using d(1) unfolding gs'_def asked_for_simps(3) by (intro card_Un_disjoint) auto
    moreover have "card (asked_for gs) = card (asked_for (take n gs)) + card (asked_for (drop n gs))"
      using d(2) unfolding whole by (intro card_Un_disjoint) auto
    ultimately show ?thesis using after(2) by simp
  qed
qed

lemma due_spec:
  assumes inv: "resend_inv st" and res: "due now config packets block st = (report, st', out)"
  shows "resend_inv st'" "missing (rs_gaps st') = missing (rs_gaps st)" "rs_frontier st' = rs_frontier st"
    "asked_for (rs_gaps st') = asked_for (rs_gaps st) \<union> (\<Union>r \<in> set out. rq_ids r)"
    "card (asked_for (rs_gaps st')) = card (asked_for (rs_gaps st)) + newly_requested report"
    "rs_asked st' = rs_asked st + sum_list (map rq_len out)"
    "out \<noteq> [] \<longrightarrow> rs_asked st' \<le> resend_budget config packets"
    "\<forall>r \<in> set out. rq_ids r \<subseteq> missing (rs_gaps st) \<and> rq_ids r \<noteq> {} \<and>
       rq_block_id r = fst block \<and> rq_extended_ids r = snd block"
proof -
  have "resend_inv st' \<and> missing (rs_gaps st') = missing (rs_gaps st) \<and> rs_frontier st' = rs_frontier st \<and>
    asked_for (rs_gaps st') = asked_for (rs_gaps st) \<union> (\<Union>r \<in> set out. rq_ids r) \<and>
    card (asked_for (rs_gaps st')) = card (asked_for (rs_gaps st)) + newly_requested report \<and>
    rs_asked st' = rs_asked st + sum_list (map rq_len out) \<and>
    (out \<noteq> [] \<longrightarrow> rs_asked st' \<le> resend_budget config packets) \<and>
    (\<forall>r \<in> set out. rq_ids r \<subseteq> missing (rs_gaps st) \<and> rq_ids r \<noteq> {} \<and>
       rq_block_id r = fst block \<and> rq_extended_ids r = snd block)"
  proof (cases "rs_spent st")
    case True
    with res inv show ?thesis by (auto simp: due_def)
  next
    case False
    let ?gs = "rs_gaps st" and ?b = "resend_budget config packets"
    let ?n = "due_prefix now ?b ?gs (rs_asked st)"
    let ?due = "filter (is_due now) (take ?n ?gs)"
    have ok: "gaps_ok ?gs" using inv by (simp add: resend_inv_def)
    note gaps = due_gaps_spec [OF ok, of now config ?b "rs_asked st"]
    have out: "out = map (request_for block) ?due"
      and st': "st' = st\<lparr>rs_gaps := map (\<lambda>g. if is_due now g then ask now config g else g) (take ?n ?gs) @ drop ?n ?gs,
        rs_asked := rs_asked st + sum_list (map gap_len ?due), rs_spent := ?n < length ?gs\<rparr>"
      and rep: "newly_requested report = sum_list (map gap_len (filter (\<lambda>g. gap_requests g = 0) ?due))"
      using res False by (auto simp: due_def due_loop_eq Let_def)
    have "gap_ids g \<subseteq> missing ?gs \<and> gap_ids g \<noteq> {}" if "g \<in> set ?due" for g
    proof -
      from that have "g \<in> set ?gs" by (auto dest: in_set_takeD)
      then show ?thesis using ok by (auto simp: missing_def gaps_ok_def gap_ids_def)
    qed
    then have "\<forall>r \<in> set out. rq_ids r \<subseteq> missing ?gs \<and> rq_ids r \<noteq> {} \<and>
        rq_block_id r = fst block \<and> rq_extended_ids r = snd block"
      unfolding out by simp
    moreover have "sum_list (map rq_len out) = sum_list (map gap_len ?due)"
      by (simp add: out comp_def)
    moreover have "(\<Union>r \<in> set out. rq_ids r) = missing ?due" by (simp add: out missing_def)
    moreover have "out \<noteq> [] \<longrightarrow> rs_asked st' \<le> ?b"
      using due_prefix_budget [where now = now and budget = ?b and gs = ?gs and asked = "rs_asked st", OF refl] by (auto simp: out st')
    ultimately show ?thesis
      using inv gaps by (simp add: st' rep resend_inv_def)
  qed
  then show "resend_inv st'" "missing (rs_gaps st') = missing (rs_gaps st)" "rs_frontier st' = rs_frontier st"
    "asked_for (rs_gaps st') = asked_for (rs_gaps st) \<union> (\<Union>r \<in> set out. rq_ids r)"
    "card (asked_for (rs_gaps st')) = card (asked_for (rs_gaps st)) + newly_requested report"
    "rs_asked st' = rs_asked st + sum_list (map rq_len out)"
    "out \<noteq> [] \<longrightarrow> rs_asked st' \<le> resend_budget config packets"
    "\<forall>r \<in> set out. rq_ids r \<subseteq> missing (rs_gaps st) \<and> rq_ids r \<noteq> {} \<and>
       rq_block_id r = fst block \<and> rq_extended_ids r = snd block"
    by blast+
qed

section \<open>The life of a block\<close>

text \<open>
  What happens to a block's resend state: packets arrive, the receive thread asks what is due,
  the camera refuses, the trailer arrives. The books are the stream's resend counters, kept as
  the assembler keeps them.
\<close>

datatype resend_event =
    Arrival nat instant
  | Tick instant nat
  | Refusal nat answer
  | TrailerAt nat

record resend_books =
  bk_state :: resend_state
  bk_requested :: nat
  bk_recovered :: nat
  bk_unavailable :: nat
  bk_sent :: "resend_request list"

definition books_new :: resend_books where
  "books_new = \<lparr>bk_state = resend_default, bk_requested = 0, bk_recovered = 0, bk_unavailable = 0,
     bk_sent = []\<rparr>"

fun resend_step :: "resend_config \<Rightarrow> u64 \<times> bool \<Rightarrow> resend_books \<Rightarrow> resend_event \<Rightarrow> resend_books" where
  "resend_step config block b (Arrival i now) =
     (let (recovered, st) = arrived i now (rc_delay config) (bk_state b) in
      b\<lparr>bk_state := st, bk_recovered := bk_recovered b + (if recovered then 1 else 0)\<rparr>)"
| "resend_step config block b (Tick now packets) =
     (let (report, st, out) = due now config packets block (bk_state b) in
      b\<lparr>bk_state := st, bk_requested := bk_requested b + newly_requested report,
        bk_sent := bk_sent b @ out\<rparr>)"
| "resend_step config block b (Refusal i ans) =
     (let (gone, st) = unavailable i ans (bk_state b) in
      b\<lparr>bk_state := st, bk_unavailable := bk_unavailable b + gone\<rparr>)"
| "resend_step config block b (TrailerAt i) = b\<lparr>bk_state := resend_trailer i (bk_state b)\<rparr>"

definition resend_run :: "resend_config \<Rightarrow> u64 \<times> bool \<Rightarrow> resend_event list \<Rightarrow> resend_books" where
  "resend_run config block evs = foldl (resend_step config block) books_new evs"

fun event_ok :: "resend_event \<Rightarrow> bool" where
  "event_ok (Arrival i now) = (i \<le> U32_MAX)"
| "event_ok (TrailerAt i) = (i \<le> U32_MAX)"
| "event_ok _ = True"

fun is_trailer :: "resend_event \<Rightarrow> bool" where
  "is_trailer (TrailerAt i) = True"
| "is_trailer _ = False"

definition open_requests :: "resend_books \<Rightarrow> nat" where
  "open_requests b = card (asked_for (rs_gaps (bk_state b)))"

definition books_total :: "resend_books \<Rightarrow> nat" where
  "books_total b = bk_recovered b + bk_unavailable b + open_requests b"

lemma card_Diff_single: "finite A \<Longrightarrow> card (A - {i}) + (if i \<in> A then 1 else 0) = card A"
  using card_Suc_Diff1 [of A i] by (cases "i \<in> A") (simp_all del: card_Diff_insert)

lemma card_split: "finite A \<Longrightarrow> card (A - B) + card (A \<inter> B) = card A"
  by (metis card_Un_disjoint Un_Diff_Int Diff_disjoint finite_Diff finite_Int Int_commute Int_assoc Int_empty_right)

lemma resend_step_balance:
  fixes b ev config block
  defines "b' \<equiv> resend_step config block b ev"
  assumes inv: "resend_inv (bk_state b)" and ok: "event_ok ev"
  shows "resend_inv (bk_state b') \<and>
    (if is_trailer ev then bk_requested b' = bk_requested b \<and> books_total b' \<le> books_total b
     else bk_requested b' + books_total b = bk_requested b + books_total b')"
proof -
  let ?A = "asked_for (rs_gaps (bk_state b))"
  show ?thesis
  proof (cases ev)
    case (Arrival i now)
    with ok have i: "i \<le> U32_MAX" by simp
    show ?thesis
      using arrived_spec [OF inv i, of now "rc_delay config"] card_Diff_single [of ?A i]
      by (simp add: b'_def Arrival case_prod_beta Let_def open_requests_def books_total_def)
  next
    case (Tick now packets)
    obtain report st out where d: "due now config packets block (bk_state b) = (report, st, out)"
      by (metis prod_cases3)
    show ?thesis using due_spec(1,5) [OF inv d]
      by (simp add: b'_def Tick d open_requests_def books_total_def)
  next
    case (Refusal i ans)
    show ?thesis
      using unavailable_spec(1-3) [OF inv, of i ans] card_split [of ?A "if ans = Gone then {i} else {..i}"]
      by (simp add: b'_def Refusal case_prod_beta Let_def open_requests_def books_total_def)
  next
    case (TrailerAt i)
    with ok have i: "i \<le> U32_MAX" by simp
    show ?thesis
      using resend_trailer_spec [OF inv i]
      by (simp add: b'_def TrailerAt open_requests_def books_total_def card_mono)
  qed
qed

lemma books_new_ok [simp]:
  "resend_inv (bk_state books_new)" "books_total books_new = 0" "bk_requested books_new = 0"
  by (simp_all add: books_new_def resend_default_def resend_inv_def books_total_def open_requests_def U32_MAX_def)

end
