(* ===== verification/Resend_Props.thy ===== *)
theory Resend_Props
  imports Resend
begin

text \<open>
  What the resend policy of \<^verbatim>\<open>stream/resend.rs\<close> promises over the whole life of a block: the gap
  list is exactly the set of packets not seen, the stream's resend counters balance, no packet is
  asked for more often than the configuration allows, and the requests stay within the budget.
\<close>

section \<open>How often a packet is asked for\<close>

definition times_asked :: "nat \<Rightarrow> resend_request list \<Rightarrow> nat" where
  "times_asked i rs = length (filter (\<lambda>r. i \<in> rq_ids r) rs)"

definition in_gap :: "gap list \<Rightarrow> nat \<Rightarrow> nat \<Rightarrow> instant option \<Rightarrow> bool" where
  "in_gap gs i n d \<longleftrightarrow> (\<exists>g \<in> set gs. i \<in> gap_ids g \<and> gap_requests g = n \<and> gap_due g = d)"

lemma times_asked_append [simp]: "times_asked i (rs @ ss) = times_asked i rs + times_asked i ss"
  by (simp add: times_asked_def)

lemma times_asked_Nil [simp]: "times_asked i [] = 0"
  by (simp add: times_asked_def)

lemma in_gap_missing: "in_gap gs i n d \<Longrightarrow> i \<in> missing gs"
  by (auto simp: in_gap_def missing_def)

lemma in_gap_Cons: "in_gap (g # gs) i n d \<longleftrightarrow>
    i \<in> gap_ids g \<and> gap_requests g = n \<and> gap_due g = d \<or> in_gap gs i n d"
  by (auto simp: in_gap_def)

lemma in_gap_append: "in_gap (gs @ hs) i n d \<longleftrightarrow> in_gap gs i n d \<or> in_gap hs i n d"
  by (auto simp: in_gap_def)

lemma in_gap_Nil [simp]: "\<not> in_gap [] i n d"
  by (simp add: in_gap_def)

lemma remove_from_in_gap: "in_gap (snd (remove_from i gs)) j n d \<Longrightarrow> in_gap gs j n d"
proof (induction gs)
  case (Cons g gs)
  show ?case
  proof (cases "gap_contains g i")
    case True
    have "in_gap (gap_cut i g) j n d \<Longrightarrow> in_gap [g] j n d"
      using True by (auto simp: gap_cut_def in_gap_Cons in_gap_append gap_ids_def gap_contains_def split: if_splits)
    then show ?thesis using Cons.prems True by (auto simp: remove_from_here in_gap_Cons in_gap_append)
  next
    case False
    then show ?thesis using Cons by (auto simp: remove_from_later in_gap_Cons)
  qed
qed simp

lemma retain_after_in_gap: "in_gap (snd (retain_after i gs)) j n d \<Longrightarrow> in_gap gs j n d"
  by (induction gs) (auto simp: in_gap_Cons gap_ids_def case_prod_beta Let_def split: if_splits)

text \<open>A packet lies in one gap, so one round of requests asks for it at most once.\<close>

lemma only_gap:
  assumes "gaps_ok gs" "g \<in> set gs" "i \<in> gap_ids g"
  shows "filter (\<lambda>g. i \<in> gap_ids g) gs = [g]"
  using assms
proof (induction gs)
  case (Cons h gs)
  note tail = gaps_ok_tail [OF Cons.prems(1), of i]
  show ?case
  proof (cases "i \<in> gap_ids h")
    case True
    then have "i \<notin> missing gs" using tail by (auto simp: gap_ids_def)
    then have "filter (\<lambda>g. i \<in> gap_ids g) gs = []" "g \<notin> set gs"
      using Cons.prems(3) by (auto simp: filter_empty_conv missing_def)
    then show ?thesis using True Cons.prems(2) by simp
  qed (use Cons in auto)
qed simp

lemma filter_swap: "filter P (filter Q xs) = filter Q (filter P xs)"
  by (induction xs) auto

lemma times_asked_requests:
  "times_asked i (map (request_for block) gs) = length (filter (\<lambda>g. i \<in> gap_ids g) gs)"
  by (simp add: times_asked_def filter_map comp_def)

definition request_limit :: "resend_config \<Rightarrow> nat" where
  "request_limit config = max 1 (rc_max_requests config)"

text \<open>
  The invariant, for one packet \<open>i\<close>: a gap that holds it knows how often it was asked for, and has
  requests left while it is still due; a packet not yet passed by the frontier was never asked for.
\<close>

definition asked_inv :: "resend_config \<Rightarrow> nat \<Rightarrow> resend_state \<Rightarrow> resend_request list \<Rightarrow> bool" where
  "asked_inv config i st sent \<longleftrightarrow>
     (\<forall>n d. in_gap (rs_gaps st) i n d \<longrightarrow>
        times_asked i sent = n \<and> (d \<noteq> None \<longrightarrow> n < request_limit config)) \<and>
     times_asked i sent \<le> request_limit config \<and>
     (rs_frontier st \<le> i \<longrightarrow> times_asked i sent = 0)"

lemma asked_inv_shrink:
  assumes "asked_inv config i st sent" and "\<And>n d. in_gap (rs_gaps st') i n d \<Longrightarrow> in_gap (rs_gaps st) i n d"
    and "rs_frontier st' \<le> i \<Longrightarrow> rs_frontier st \<le> i"
  shows "asked_inv config i st' sent"
  using assms unfolding asked_inv_def by blast

lemma due_asked_inv:
  assumes inv: "resend_inv st" and asked: "asked_inv config i st sent"
    and res: "due now config packets block st = (report, st', out)"
  shows "asked_inv config i st' (sent @ out)"
proof (cases "rs_spent st")
  case True
  with res asked show ?thesis by (auto simp: due_def)
next
  case False
  let ?gs = "rs_gaps st" and ?b = "resend_budget config packets"
  let ?n = "due_prefix now ?b ?gs (rs_asked st)"
  let ?A = "take ?n ?gs" and ?B = "drop ?n ?gs"
  have ok: "gaps_ok (?A @ ?B)" using inv by (simp add: resend_inv_def)
  have out: "out = map (request_for block) (filter (is_due now) ?A)"
    and st': "rs_gaps st' = map (\<lambda>g. if is_due now g then ask now config g else g) ?A @ ?B"
      "rs_frontier st' = rs_frontier st"
    using res False by (auto simp: due_def due_loop_eq Let_def)
  have okA: "gaps_ok ?A"
    using ok by (auto simp: gaps_ok_def sorted_wrt_take dest: in_set_takeD)
  have old: "times_asked i sent = gap_requests g \<and> (gap_due g \<noteq> None \<longrightarrow> gap_requests g < request_limit config)"
    if "g \<in> set ?A \<or> g \<in> set ?B" "i \<in> gap_ids g" for g
  proof -
    have "g \<in> set ?gs" using that(1) by (auto dest: in_set_takeD in_set_dropD)
    then show ?thesis using asked that(2) unfolding asked_inv_def in_gap_def by blast
  qed
  have hit: "times_asked i out = (if is_due now g then 1 else 0)"
    if "g \<in> set ?A" "i \<in> gap_ids g" for g
    unfolding out times_asked_requests filter_swap [where Q = "is_due now"] only_gap [OF okA that]
    by simp
  have miss: "times_asked i out = 0" if "i \<notin> missing ?A"
    using that by (auto simp: out times_asked_requests filter_empty_conv missing_def)
  have due_some: "gap_due g \<noteq> None" if "is_due now g" for g
    using that by (auto simp: is_due_def split: option.splits)
  have B: "i \<notin> missing ?A" if "i \<in> missing ?B"
  proof
    assume "i \<in> missing ?A"
    then obtain g where "g \<in> set ?A" "i \<in> gap_ids g" by (auto simp: missing_def)
    moreover from that obtain h where "h \<in> set ?B" "i \<in> gap_ids h" by (auto simp: missing_def)
    moreover have "gap_last g < gap_first h" if "g \<in> set ?A" "h \<in> set ?B" for g h
      using ok that unfolding gaps_ok_def sorted_wrt_append by blast
    ultimately show False by (fastforce simp: gap_ids_def)
  qed
  have lim: "times_asked i (sent @ out) \<le> request_limit config"
  proof (cases "i \<in> missing ?A")
    case True
    then obtain g where g: "g \<in> set ?A" "i \<in> gap_ids g" by (auto simp: missing_def)
    moreover have "times_asked i sent \<le> request_limit config" using asked by (simp add: asked_inv_def)
    ultimately show ?thesis using hit [OF g] old [of g] due_some [of g]
      by (cases "is_due now g") auto
  qed (use miss asked in \<open>auto simp: asked_inv_def\<close>)
  have gap: "times_asked i (sent @ out) = n \<and> (d \<noteq> None \<longrightarrow> n < request_limit config)"
    if "in_gap (rs_gaps st') i n d" for n d
  proof -
    from that consider (a) g where "g \<in> set ?A" "i \<in> gap_ids g"
        "n = gap_requests (if is_due now g then ask now config g else g)"
        "d = gap_due (if is_due now g then ask now config g else g)"
      | (b) g where "g \<in> set ?B" "i \<in> gap_ids g" "n = gap_requests g" "d = gap_due g"
      unfolding st' in_gap_append in_gap_def set_map by (auto split: if_splits)
    then show ?thesis
    proof cases
      case a
      then have "times_asked i sent = gap_requests g" "gap_due g \<noteq> None \<longrightarrow> gap_requests g < request_limit config"
        using old [of g] by simp_all
      then show ?thesis using a hit [of g] by (cases "is_due now g") (auto simp: ask_def request_limit_def)
    next
      case b
      then show ?thesis using old [of g] miss [OF B] by (auto simp: missing_def)
    qed
  qed
  have "times_asked i out = 0" if "rs_frontier st \<le> i"
  proof (rule miss)
    show "i \<notin> missing ?A"
      using inv that unfolding resend_inv_def missing_def by (force dest: in_set_takeD)
  qed
  then show ?thesis using gap lim asked by (auto simp: asked_inv_def st')
qed

lemma arrived_asked_inv:
  assumes "resend_inv st" "asked_inv config j st sent" "i \<le> U32_MAX"
  shows "asked_inv config j (snd (arrived i now delay st)) sent"
proof (cases "i < rs_frontier st")
  case True
  then show ?thesis
    using remove_from_in_gap
    by (auto simp: arrived_def remove_packet_def case_prod_beta Let_def intro!: asked_inv_shrink [OF assms(2)])
next
  case False
  let ?new = "rs_gaps (snd (arrived i now delay st))"
  have new: "in_gap ?new j n d \<Longrightarrow> in_gap (rs_gaps st) j n d \<or> (j \<ge> rs_frontier st \<and> n = 0)" for n d
    using False by (auto simp: arrived_def in_gap_append in_gap_Cons gap_ids_def split: if_splits)
  have fr: "rs_frontier (snd (arrived i now delay st)) = succ_sat i" "rs_frontier st \<le> succ_sat i"
    using False assms(1) by (auto simp: arrived_def succ_sat_def resend_inv_def)
  have pos: "0 < request_limit config" by (simp add: request_limit_def)
  show ?thesis
    unfolding asked_inv_def fr(1)
  proof (intro conjI allI impI)
    fix n d assume "in_gap ?new j n d"
    from new [OF this] show "times_asked j sent = n" using assms(2) by (auto simp: asked_inv_def)
  next
    fix n d assume "in_gap ?new j n d" "d \<noteq> None"
    with new [OF this(1)] show "n < request_limit config" using assms(2) pos by (auto simp: asked_inv_def)
  qed (use assms(2) fr in \<open>auto simp: asked_inv_def\<close>)
qed

lemma unavailable_asked_inv:
  assumes "asked_inv config j st sent"
  shows "asked_inv config j (snd (unavailable i ans st)) sent"
proof -
  have gone: "snd (unavailable i Gone st) = st \<or>
      snd (unavailable i Gone st) = st\<lparr>rs_gaps := snd (remove_from i (rs_gaps st))\<rparr>"
    by (simp add: unavailable_def remove_packet_def case_prod_beta Let_def)
  have prev: "snd (unavailable i GoneWithPrevious st) = st\<lparr>rs_gaps := snd (retain_after i (rs_gaps st))\<rparr>"
    by (simp add: unavailable_def case_prod_beta)
  have "asked_inv config j (st\<lparr>rs_gaps := snd (remove_from i (rs_gaps st))\<rparr>) sent"
    by (rule asked_inv_shrink [OF assms]) (simp_all add: remove_from_in_gap)
  moreover have "asked_inv config j (st\<lparr>rs_gaps := snd (retain_after i (rs_gaps st))\<rparr>) sent"
    by (rule asked_inv_shrink [OF assms]) (simp_all add: retain_after_in_gap)
  ultimately show ?thesis using gone assms by (cases ans) (auto simp: prev)
qed

lemma clip_last_in_gap: "in_gap (clip_last m gs) j n d \<Longrightarrow> in_gap gs j n d"
  by (induction m gs rule: clip_last.induct) (auto simp: in_gap_Cons gap_ids_def)

lemma trailer_asked_inv:
  assumes "resend_inv st" "asked_inv config j st sent" "j \<le> i"
  shows "asked_inv config j (resend_trailer i st) sent"
proof (rule asked_inv_shrink [OF assms(2)])
  show "in_gap (rs_gaps (resend_trailer i st)) j n d \<Longrightarrow> in_gap (rs_gaps st) j n d" for n d
    by (auto simp: resend_trailer_def in_gap_def dest!: clip_last_in_gap [unfolded in_gap_def])
  show "rs_frontier (resend_trailer i st) \<le> j \<Longrightarrow> rs_frontier st \<le> j"
    using assms(1,3) by (auto simp: resend_trailer_def resend_inv_def succ_sat_def min_def split: if_splits)
qed

lemma step_asked_inv:
  assumes inv: "resend_inv (bk_state b)" and asked: "asked_inv config j (bk_state b) (bk_sent b)"
    and ok: "event_ok ev" "\<And>i. ev = TrailerAt i \<Longrightarrow> j \<le> i"
  shows "asked_inv config j (bk_state (resend_step config block b ev)) (bk_sent (resend_step config block b ev))"
proof (cases ev)
  case (Arrival i now)
  then show ?thesis
    using arrived_asked_inv [OF inv asked] ok by (simp add: case_prod_beta Let_def)
next
  case (Tick now packets)
  obtain report st out where d: "due now config packets block (bk_state b) = (report, st, out)"
    by (metis prod_cases3)
  show ?thesis using due_asked_inv [OF inv asked d] by (simp add: Tick d)
next
  case (Refusal i ans)
  then show ?thesis using unavailable_asked_inv [OF asked] by (simp add: case_prod_beta Let_def)
next
  case (TrailerAt i)
  then show ?thesis using trailer_asked_inv [OF inv asked] ok by simp
qed

lemma run_asked_inv:
  assumes "list_all event_ok evs" "\<And>i. TrailerAt i \<in> set evs \<Longrightarrow> j \<le> i"
    and "resend_inv (bk_state b)" "asked_inv config j (bk_state b) (bk_sent b)"
  shows "asked_inv config j (bk_state (foldl (resend_step config block) b evs))
    (bk_sent (foldl (resend_step config block) b evs))"
  using assms
proof (induction evs arbitrary: b)
  case (Cons ev evs)
  then have "resend_inv (bk_state (resend_step config block b ev))"
    using resend_step_balance by simp
  then show ?case
    using Cons step_asked_inv [of b config j ev block] by simp
qed simp

section \<open>The gaps are the packets not seen\<close>

definition arrivals :: "duration \<Rightarrow> (nat \<times> instant) list \<Rightarrow> resend_state" where
  "arrivals delay ps = foldl (\<lambda>st (i, now). snd (arrived i now delay st)) resend_default ps"

lemma arrivals_step:
  assumes inv: "resend_inv st" and i: "i < U32_MAX"
    and gaps: "missing (rs_gaps st) = {j. j < rs_frontier st} - seen" and up: "\<forall>j \<in> seen. j < rs_frontier st"
    and r: "st' = snd (arrived i now delay st)"
  shows "resend_inv st' \<and> missing (rs_gaps st') = {j. j < rs_frontier st'} - insert i seen \<and>
    (\<forall>j \<in> insert i seen. j < rs_frontier st') \<and> rs_frontier st' = max (rs_frontier st) (Suc i)"
proof -
  have i': "i \<le> U32_MAX" using i by simp
  note spec = arrived_spec [OF inv i', of now delay, folded r]
  have sat: "succ_sat i = Suc i" using i by (simp add: succ_sat_def)
  show ?thesis
  proof (cases "i \<ge> rs_frontier st")
    case True
    then have "j \<in> missing (rs_gaps st') \<longleftrightarrow> j < rs_frontier st' \<and> j \<notin> insert i seen" for j
      using spec(2,5) sat gaps up by fastforce
    then show ?thesis using spec(1,5) sat True up by (auto simp: max_def)
  next
    case False
    then show ?thesis using spec(1,2,5) gaps up by (auto simp: max_def)
  qed
qed

lemma arrivals_inv:
  assumes "\<forall>(i, now) \<in> set ps. i < U32_MAX"
  shows "resend_inv (arrivals delay ps) \<and>
    missing (rs_gaps (arrivals delay ps)) = {j. j < rs_frontier (arrivals delay ps)} - fst ` set ps \<and>
    (\<forall>j \<in> fst ` set ps. j < rs_frontier (arrivals delay ps)) \<and>
    rs_frontier (arrivals delay ps) = Max (insert 0 (Suc ` fst ` set ps))"
  using assms
proof (induction ps rule: rev_induct)
  case Nil
  then show ?case by (simp add: arrivals_def resend_default_def resend_inv_def U32_MAX_def)
next
  case (snoc p ps)
  obtain i now where p: "p = (i, now)" by fastforce
  have IH: "resend_inv (arrivals delay ps)"
    "missing (rs_gaps (arrivals delay ps)) = {j. j < rs_frontier (arrivals delay ps)} - fst ` set ps"
    "\<forall>j \<in> fst ` set ps. j < rs_frontier (arrivals delay ps)"
    "rs_frontier (arrivals delay ps) = Max (insert 0 (Suc ` fst ` set ps))"
    using snoc by auto
  have i: "i < U32_MAX" using snoc.prems by (simp add: p)
  have "arrivals delay (ps @ [p]) = snd (arrived i now delay (arrivals delay ps))"
    by (simp add: arrivals_def p)
  note step = arrivals_step [OF IH(1) i IH(2,3) this]
  have "Max (insert 0 (Suc ` fst ` set (ps @ [p]))) = max (Max (insert 0 (Suc ` fst ` set ps))) (Suc i)"
  proof -
    have "insert 0 (Suc ` fst ` set (ps @ [p])) = insert (Suc i) (insert 0 (Suc ` fst ` set ps))"
      by (auto simp: p)
    then show ?thesis by (simp only: Max_insert finite_insert finite_imageI finite_set insert_not_empty max.commute simp_thms)
  qed
  moreover have "fst ` set (ps @ [p]) = insert i (fst ` set ps)" by (simp add: p)
  ultimately show ?case using step IH(4) by metis
qed

lemma times_as_gap_limit: "asked_inv config i resend_default []"
  by (simp add: asked_inv_def resend_default_def request_limit_def)

section \<open>The default budget\<close>

lemma resend_budget_quarter:
  assumes "packets < 2 ^ 53" and "rc_budget config = Fin 1 (- 2)"
  shows "resend_budget config packets = div_ceil packets 4"
proof (cases "packets = 0")
  case True
  then show ?thesis using assms(2) by (simp add: resend_budget_def f64_of_nat_def f64_round_def div_ceil_def)
next
  case False
  have b: "\<bar>int packets\<bar> < 2 ^ 53" using assms(1) by (simp flip: of_nat_less_iff)
  have r: "f64_round (int packets) e = Fin (int packets) e" if "- 1074 \<le> e" "e \<le> 971" for e
    using f64_round_exact [OF b that] False by simp
  have "- ((- int packets) div 4) = int (div_ceil packets 4)" unfolding div_ceil_def by linarith
  moreover have "div_ceil packets 4 \<le> 2 ^ 64 - 1" using assms(1) by (simp add: div_ceil_le_iff)
  ultimately show ?thesis
    using assms(2) by (simp add: resend_budget_def f64_of_nat_def r Let_def min_def)
qed

section \<open>Properties\<close>

text \<open>
  The gap list is exactly the packets not seen: after any packets, in any order and at any
  times, a packet id belongs to a gap if and only if it lies below the highest id seen and did not
  arrive. The gaps stay sorted, disjoint and non-empty.
\<close>
theorem resend_gaps_exact:
  assumes "\<forall>(i, now) \<in> set ps. i < U32_MAX"
  shows "gaps_ok (rs_gaps (arrivals delay ps)) \<and>
    (\<forall>j. j \<in> missing (rs_gaps (arrivals delay ps)) \<longleftrightarrow>
      j \<notin> fst ` set ps \<and> (\<exists>k \<in> fst ` set ps. j < k))"
proof -
  note inv = arrivals_inv [OF assms, of delay]
  have "(\<exists>k \<in> fst ` set ps. j < k) \<longleftrightarrow> j < rs_frontier (arrivals delay ps)"
    if "j \<notin> fst ` set ps" for j
  proof
    assume "j < rs_frontier (arrivals delay ps)"
    then have "\<exists>k \<in> fst ` set ps. j < Suc k" using inv by (auto simp: Max_gr_iff)
    then obtain k where "k \<in> fst ` set ps" "j < Suc k" by blast
    moreover from this that have "j \<noteq> k" by blast
    ultimately show "\<exists>k \<in> fst ` set ps. j < k" by (intro bexI [of _ k]) auto
  qed (use inv in force)
  then show ?thesis using inv by (auto simp: resend_inv_def)
qed

lemma resend_gaps_exact_witness:
  "gaps_ok (rs_gaps (arrivals 2000000 [(0, 0), (4, 10), (2, 20)])) \<and>
   1 \<in> missing (rs_gaps (arrivals 2000000 [(0, 0), (4, 10), (2, 20)])) \<and>
   2 \<notin> missing (rs_gaps (arrivals 2000000 [(0, 0), (4, 10), (2, 20)]))"
  using resend_gaps_exact [of "[(0, 0), (4, 10), (2, 20)]" 2000000] by (simp add: U32_MAX_def)

text \<open>
  What a trailer takes out of the books: requests still open for ids from the trailer's on, which no
  packet of the block has.
\<close>

fun dropped_by_trailers :: "resend_config \<Rightarrow> u64 \<times> bool \<Rightarrow> resend_books \<Rightarrow> resend_event list \<Rightarrow> nat" where
  "dropped_by_trailers config block b [] = 0"
| "dropped_by_trailers config block b (ev # evs) =
     (case ev of TrailerAt i \<Rightarrow> card {j \<in> asked_for (rs_gaps (bk_state b)). i \<le> j} | _ \<Rightarrow> 0) +
     dropped_by_trailers config block (resend_step config block b ev) evs"

lemma resend_run_accounts:
  assumes "list_all event_ok evs" and "resend_inv (bk_state b)"
  shows "books_total (foldl (resend_step config block) b evs) + dropped_by_trailers config block b evs + bk_requested b =
    bk_requested (foldl (resend_step config block) b evs) + books_total b"
  using assms
proof (induction evs arbitrary: b)
  case (Cons ev evs)
  let ?b = "resend_step config block b ev"
  have ok: "event_ok ev" "list_all event_ok evs" using Cons.prems by auto
  note step = resend_step_balance [OF Cons.prems(2) ok(1), of config block]
  have IH: "books_total (foldl (resend_step config block) ?b evs) + dropped_by_trailers config block ?b evs + bk_requested ?b =
      bk_requested (foldl (resend_step config block) ?b evs) + books_total ?b"
    using Cons.IH [OF ok(2)] step by blast
  show ?case
  proof (cases ev)
    case (TrailerAt i)
    let ?A = "asked_for (rs_gaps (bk_state b))"
    have "card {j \<in> ?A. i \<le> j} + card (?A \<inter> {..<i}) = card ?A"
      using card_split [of ?A "{..<i}"] by (simp add: set_diff_eq not_less)
    then have "books_total ?b + card {j \<in> ?A. i \<le> j} = books_total b" "bk_requested ?b = bk_requested b"
      using resend_trailer_spec [OF Cons.prems(2), of i] ok
      by (simp_all add: TrailerAt open_requests_def books_total_def)
    then show ?thesis using IH by (simp add: TrailerAt)
  next
    case (Arrival i now)
    then show ?thesis using IH step by simp
  next
    case (Tick now packets)
    then show ?thesis using IH step by simp
  next
    case (Refusal i ans)
    then show ?thesis using IH step by simp
  qed
qed simp

text \<open>
  C6. The resend counters balance. Whatever a block goes through (packets, ticks that send
  requests, refusals by the camera, trailers), a packet is counted as requested once however
  often it is asked for, and every requested packet is counted once: as recovered, as unavailable,
  as still open, or among the open ones a trailer dropped because they are not below its own id.
\<close>
theorem resend_counters_balance:
  assumes "list_all event_ok evs"
  shows "(let b = resend_run config block evs in
    bk_recovered b + bk_unavailable b + open_requests b + dropped_by_trailers config block books_new evs =
    bk_requested b)"
  using resend_run_accounts [OF assms books_new_ok(1), of config block]
  by (simp add: resend_run_def Let_def books_total_def [symmetric])

definition example_life :: "resend_event list" where
  "example_life = [Arrival 0 0, Arrival 4 1000, Tick 2001000 20, Arrival 2 2002000,
     Refusal 1 Gone, Arrival 7 2003000, Tick 4004000 20, TrailerAt 6]"

lemma example_life_ok: "list_all event_ok example_life"
  by (simp add: example_life_def U32_MAX_def)

lemma resend_counters_balance_witness:
  "(let b = resend_run resend_config_default (7, False) example_life in
    bk_requested b = 5 \<and> bk_recovered b = 1 \<and> bk_unavailable b = 1 \<and> open_requests b = 2 \<and>
    dropped_by_trailers resend_config_default (7, False) books_new example_life = 1)"
proof -
  note p = resend_counters_balance [OF example_life_ok, of resend_config_default "(7, False)"]
  have "resend_budget resend_config_default 20 = 5"
    using resend_budget_quarter [of 20 resend_config_default] by (simp add: resend_config_default_def div_ceil_def)
  then have "bk_requested (resend_run resend_config_default (7, False) example_life) = 5 \<and>
      bk_recovered (resend_run resend_config_default (7, False) example_life) = 1 \<and>
      bk_unavailable (resend_run resend_config_default (7, False) example_life) = 1 \<and>
      open_requests (resend_run resend_config_default (7, False) example_life) = 2"
    by (simp add: example_life_def Let_def resend_run_def books_new_def arrived_def resend_default_def
      succ_sat_def U32_MAX_def due_def remove_packet_def remove_from.simps gap_contains_def unavailable_def
      gap_len_def resend_config_default_def resend_trailer_def open_requests_def asked_for_def missing_def gap_ids_def)
  then show ?thesis using p by (simp add: Let_def)
qed

text \<open>
  C7. No packet is asked for more often than the configuration allows: the requests sent over the
  life of a block name a packet at most \<open>max_requests\<close> times (once if the limit is 0), although gaps
  are split and shortened in between. The packets are those of the block: a trailer says that the
  block has no packet beyond its own id.
\<close>
theorem resend_request_limit:
  assumes "list_all event_ok evs" and "\<And>t. TrailerAt t \<in> set evs \<Longrightarrow> i \<le> t"
  shows "times_asked i (bk_sent (resend_run config block evs)) \<le> max 1 (rc_max_requests config)"
proof -
  have "asked_inv config i (bk_state books_new) (bk_sent books_new)"
    using times_as_gap_limit [of config i] by (simp add: books_new_def)
  from run_asked_inv [OF assms books_new_ok(1) this] show ?thesis
    unfolding resend_run_def asked_inv_def request_limit_def by blast
qed

lemma resend_request_limit_witness:
  "times_asked 2 (bk_sent (resend_run resend_config_default (7, False) example_life)) \<le> 3"
  using resend_request_limit [OF example_life_ok, of 2 resend_config_default "(7, False)"]
  by (simp add: example_life_def resend_config_default_def)

text \<open>
  One round of requests is safe: it asks only for packets that are missing, names the block it
  was asked for, leaves the missing packets as they are, and when it asks for anything the ids
  asked for over the block's life stay within the budget, which by default is a quarter of the
  block's packets, rounded up.
\<close>
theorem due_requests_safe:
  assumes "resend_inv st" and "due now config packets block st = (report, st', out)"
  shows "resend_inv st' \<and> missing (rs_gaps st') = missing (rs_gaps st) \<and>
    (\<forall>r \<in> set out. {rq_first r..rq_last r} \<subseteq> missing (rs_gaps st) \<and> rq_first r \<le> rq_last r \<and>
      (rq_block_id r, rq_extended_ids r) = block) \<and>
    rs_asked st' = rs_asked st + (\<Sum>r \<leftarrow> out. rq_last r - rq_first r + 1) \<and>
    (out \<noteq> [] \<longrightarrow> rs_asked st' \<le> resend_budget config packets) \<and>
    (out \<noteq> [] \<and> packets < 2 ^ 53 \<and> rc_budget config = rc_budget resend_config_default \<longrightarrow>
     rs_asked st' \<le> div_ceil packets 4)"
proof -
  note s = due_spec [OF assms]
  have "rc_budget resend_config_default = Fin 1 (- 2)" by (simp add: resend_config_default_def)
  then have quarter: "out \<noteq> [] \<and> packets < 2 ^ 53 \<and> rc_budget config = rc_budget resend_config_default \<longrightarrow>
     rs_asked st' \<le> div_ceil packets 4"
    using s(7) resend_budget_quarter [of packets config] by auto
  have len: "map (\<lambda>r. rq_last r - rq_first r + 1) out = map rq_len out" by (simp add: rq_len_def)
  have "rq_ids r \<subseteq> missing (rs_gaps st) \<and> rq_ids r \<noteq> {} \<and> (rq_block_id r, rq_extended_ids r) = block"
    if "r \<in> set out" for r using bspec [OF s(8) that] by (auto simp: prod_eq_iff)
  then have "\<forall>r \<in> set out. {rq_first r..rq_last r} \<subseteq> missing (rs_gaps st) \<and> rq_first r \<le> rq_last r \<and>
      (rq_block_id r, rq_extended_ids r) = block"
    by (fastforce simp: rq_ids_def)
  then show ?thesis unfolding len using s(1,2,6,7) quarter by blast
qed

lemma due_requests_safe_witness:
  "(let st = arrivals 2000000 [(0, 0), (4, 10)];
        r = due 3000000 resend_config_default 20 (7, False) st in
     map rq_first (snd (snd r)) = [1] \<and> rs_asked (fst (snd r)) \<le> 5)"
proof -
  let ?st = "arrivals 2000000 [(0, 0), (4, 10)]"
  obtain report st' out where d: "due 3000000 resend_config_default 20 (7, False) ?st = (report, st', out)"
    by (metis prod_cases3)
  have "resend_inv ?st" using arrivals_inv [of "[(0, 0), (4, 10)]" 2000000] by (simp add: U32_MAX_def)
  note p = due_requests_safe [OF this d]
  have "resend_budget resend_config_default 20 = 5"
    using resend_budget_quarter [of 20 resend_config_default] by (simp add: resend_config_default_def div_ceil_def)
  then have "map rq_first (snd (snd (due 3000000 resend_config_default 20 (7, False) ?st))) = [1]"
    by (simp add: arrivals_def resend_default_def arrived_def succ_sat_def U32_MAX_def due_def gap_len_def)
  then show ?thesis using p by (auto simp: d div_ceil_def Let_def)
qed

end
