(* ===== verification/Gvsp_Packet.thy ===== *)
theory Gvsp_Packet
  imports Prelude
begin

text \<open>
  GVSP packets as \<^verbatim>\<open>crates/viva-gige/src/gvsp.rs\<close> reads them: the header in its two layouts,
  the data leader, the data trailer, the packet, and the chunk payload, which is read from its
  end. Every slice, index and cursor read of the source is a read that can panic here; that
  none does, on any datagram, is proved.
\<close>

section \<open>Payload types\<close>

definition PAYLOAD_TYPE_IMAGE :: u16 where "PAYLOAD_TYPE_IMAGE = 0x0001"
definition PAYLOAD_TYPE_EXTENDED_CHUNK :: u16 where "PAYLOAD_TYPE_EXTENDED_CHUNK = 0x4000"
definition PAYLOAD_TYPE_CHUNK_DATA :: u16 where "PAYLOAD_TYPE_CHUNK_DATA = 0x0004"
definition PAYLOAD_TYPE_EXTENDED_CHUNK_DATA :: u16 where "PAYLOAD_TYPE_EXTENDED_CHUNK_DATA = 0x0005"
definition PAYLOAD_TYPE_MASK :: u16 where "PAYLOAD_TYPE_MASK = 0x3FFF"

lemmas payload_type_defs = PAYLOAD_TYPE_IMAGE_def PAYLOAD_TYPE_EXTENDED_CHUNK_def
  PAYLOAD_TYPE_CHUNK_DATA_def PAYLOAD_TYPE_EXTENDED_CHUNK_DATA_def PAYLOAD_TYPE_MASK_def

definition is_image_payload :: "u16 \<Rightarrow> bool" where
  "is_image_payload payload_type \<longleftrightarrow>
     payload_type AND PAYLOAD_TYPE_MASK = PAYLOAD_TYPE_IMAGE \<or>
     payload_type AND PAYLOAD_TYPE_MASK = PAYLOAD_TYPE_EXTENDED_CHUNK_DATA"

definition is_chunk_data_payload :: "u16 \<Rightarrow> bool" where
  "is_chunk_data_payload payload_type \<longleftrightarrow>
     payload_type AND PAYLOAD_TYPE_MASK = PAYLOAD_TYPE_CHUNK_DATA"

definition has_extended_chunks :: "u16 \<Rightarrow> bool" where
  "has_extended_chunks payload_type \<longleftrightarrow>
     payload_type AND PAYLOAD_TYPE_EXTENDED_CHUNK \<noteq> 0 \<or>
     payload_type AND PAYLOAD_TYPE_MASK = PAYLOAD_TYPE_EXTENDED_CHUNK_DATA"

section \<open>Headers, leaders, trailers\<close>

definition GVSP_HEADER_SIZE :: nat where "GVSP_HEADER_SIZE = 8"
definition GVSP_EXTENDED_HEADER_SIZE :: nat where "GVSP_EXTENDED_HEADER_SIZE = 20"
definition EXTENDED_ID_FLAG :: u8 where "EXTENDED_ID_FLAG = 0x80"
definition FORMAT_LEADER :: u8 where "FORMAT_LEADER = 0x01"
definition FORMAT_TRAILER :: u8 where "FORMAT_TRAILER = 0x02"
definition FORMAT_PAYLOAD :: u8 where "FORMAT_PAYLOAD = 0x03"

lemmas gvsp_consts = GVSP_HEADER_SIZE_def GVSP_EXTENDED_HEADER_SIZE_def EXTENDED_ID_FLAG_def
  FORMAT_LEADER_def FORMAT_TRAILER_def FORMAT_PAYLOAD_def

datatype gvsp_error = GvspUnsupported string | GvspInvalid string

record gvsp_header =
  hdr_status :: u16
  hdr_block_id :: u64
  hdr_packet_id :: u32
  hdr_extended_ids :: bool
  hdr_header_len :: nat

record image_leader =
  img_pixel_format :: u32
  img_width :: u32
  img_height :: u32
  img_offset_x :: u32
  img_offset_y :: u32
  img_padding_x :: u16
  img_padding_y :: u16

record gvsp_leader =
  ldr_payload_type :: u16
  ldr_timestamp :: u64
  ldr_image :: "image_leader option"

record gvsp_trailer =
  trl_payload_type :: u16
  trl_size_y :: u32
  trl_chunk_payload_length :: "u32 option"
  trl_chunk_layout_id :: "u32 option"

datatype gvsp_content =
    Leader gvsp_leader
  | Payload bytes
  | Trailer gvsp_trailer
  | Unsupported u8

record gvsp_packet =
  pkt_header :: gvsp_header
  pkt_content :: gvsp_content

text \<open>A big-endian field at fixed offsets, as \<open>from_be_bytes([d[a], ..., d[b - 1]])\<close>.\<close>

definition field :: "nat \<Rightarrow> nat \<Rightarrow> bytes \<Rightarrow> 'w::len word option" where
  "field a b d = map_option be_word (subslice a b d)"

definition parse_header :: "bytes \<Rightarrow> (gvsp_header, gvsp_error) result" where
  "parse_header datagram =
     (if length datagram < GVSP_HEADER_SIZE then Err (GvspInvalid ''GVSP header truncated'')
      else
        or_panic (field 0 2 datagram) (\<lambda>status.
        or_panic (index 4 datagram) (\<lambda>format_byte.
        let extended_ids = (format_byte AND EXTENDED_ID_FLAG \<noteq> 0) in
        if extended_ids then
          if length datagram < GVSP_EXTENDED_HEADER_SIZE
          then Err (GvspInvalid ''extended GVSP header truncated'')
          else
            or_panic (field 8 16 datagram) (\<lambda>block_id.
            or_panic (field 16 20 datagram) (\<lambda>packet_id.
            Ok \<lparr>hdr_status = status, hdr_block_id = block_id, hdr_packet_id = packet_id,
                hdr_extended_ids = extended_ids, hdr_header_len = GVSP_EXTENDED_HEADER_SIZE\<rparr>))
        else
          or_panic (field 2 4 datagram) (\<lambda>block_id :: u16.
          or_panic (subslice 5 8 datagram) (\<lambda>id_bytes.
          Ok \<lparr>hdr_status = status, hdr_block_id = ucast block_id,
              hdr_packet_id = be_word (0 # id_bytes),
              hdr_extended_ids = extended_ids, hdr_header_len = GVSP_HEADER_SIZE\<rparr>)))))"

definition parse_leader :: "bytes \<Rightarrow> (gvsp_leader, gvsp_error) result" where
  "parse_leader body =
     (if length body < 12 then Err (GvspInvalid ''leader payload truncated'')
      else
        or_panic (get_u16 body) (\<lambda>(reserved, c).
        or_panic (get_u16 c) (\<lambda>(payload_type, c).
        or_panic (get_u64 c) (\<lambda>(timestamp, c).
        if is_image_payload payload_type then
          if length c < 12 then Err (GvspInvalid ''image leader truncated'')
          else
            or_panic (get_u32 c) (\<lambda>(pixel_format, c).
            or_panic (get_u32 c) (\<lambda>(width, c).
            or_panic (get_u32 c) (\<lambda>(height, c).
            or_panic (if length c \<ge> 8
                      then Option.bind (get_u32 c) (\<lambda>(x, c). Option.bind (get_u32 c) (\<lambda>(y, c).
                             Some (x, y, c)))
                      else Some (0, 0, c)) (\<lambda>(offset_x, offset_y, c).
            or_panic (if length c \<ge> 4
                      then Option.bind (get_u16 c) (\<lambda>(x, c). Option.bind (get_u16 c) (\<lambda>(y, c).
                             Some (x, y)))
                      else Some (0, 0)) (\<lambda>(padding_x, padding_y).
            Ok \<lparr>ldr_payload_type = payload_type, ldr_timestamp = timestamp,
                ldr_image = Some \<lparr>img_pixel_format = pixel_format, img_width = width,
                  img_height = height, img_offset_x = offset_x, img_offset_y = offset_y,
                  img_padding_x = padding_x, img_padding_y = padding_y\<rparr>\<rparr>)))))
        else Ok \<lparr>ldr_payload_type = payload_type, ldr_timestamp = timestamp, ldr_image = None\<rparr>))))"

definition parse_trailer :: "bytes \<Rightarrow> (gvsp_trailer, gvsp_error) result" where
  "parse_trailer body =
     (if length body < 2 then Err (GvspInvalid ''trailer truncated'')
      else if length body < 8
      then Ok \<lparr>trl_payload_type = 0, trl_size_y = 0, trl_chunk_payload_length = None,
               trl_chunk_layout_id = None\<rparr>
      else
        or_panic (subslice 2 (length body) body) (\<lambda>c.
        or_panic (get_u16 c) (\<lambda>(payload_type, c).
        if payload_type AND PAYLOAD_TYPE_MASK = PAYLOAD_TYPE_EXTENDED_CHUNK_DATA \<and> length c \<ge> 12
        then
          or_panic (get_u32 c) (\<lambda>(len, c).
          or_panic (get_u32 c) (\<lambda>(size_y, c).
          or_panic (get_u32 c) (\<lambda>(layout, c).
          Ok \<lparr>trl_payload_type = payload_type, trl_size_y = size_y,
              trl_chunk_payload_length = Some len, trl_chunk_layout_id = Some layout\<rparr>)))
        else
          or_panic (get_u32 c) (\<lambda>(size_y, c).
          or_panic (if has_extended_chunks payload_type \<and> length c \<ge> 8
                    then Option.bind (get_u32 c) (\<lambda>(len, c). Option.bind (get_u32 c) (\<lambda>(layout, c).
                           Some (Some len, Some layout)))
                    else Some (None, None)) (\<lambda>(chunk_payload_length, chunk_layout_id).
          Ok \<lparr>trl_payload_type = payload_type, trl_size_y = size_y,
              trl_chunk_payload_length = chunk_payload_length,
              trl_chunk_layout_id = chunk_layout_id\<rparr>)))))"

definition parse_packet_ref :: "bytes \<Rightarrow> (gvsp_packet, gvsp_error) result" where
  "parse_packet_ref datagram =
     and_then (parse_header datagram) (\<lambda>header.
     or_panic (index 4 datagram) (\<lambda>format_byte.
     let packet_format = format_byte AND 0x0F in
     or_panic (subslice (hdr_header_len header) (length datagram) datagram) (\<lambda>body.
     and_then
       (if packet_format = FORMAT_LEADER then and_then (parse_leader body) (\<lambda>l. Ok (Leader l))
        else if packet_format = FORMAT_PAYLOAD then Ok (Payload body)
        else if packet_format = FORMAT_TRAILER then and_then (parse_trailer body) (\<lambda>t. Ok (Trailer t))
        else Ok (Unsupported packet_format))
       (\<lambda>content. Ok \<lparr>pkt_header = header, pkt_content = content\<rparr>))))"

section \<open>Chunk payloads\<close>

definition CHUNK_TAG_LEN :: nat where "CHUNK_TAG_LEN = 8"

record chunk_raw =
  chunk_id :: u32
  chunk_offset :: nat
  chunk_data :: bytes

datatype chunk_error =
    TruncatedTag (remaining: nat)
  | LengthPastStart (past_id: u32) (past_tag_offset: nat) (past_length: u32)

text \<open>
  The scan of \<open>parse_chunks\<close>, from \<open>end_at\<close> down. The source pushes each chunk and reverses at
  the end; the accumulator holds the chunks in payload order.
\<close>

function (sequential) chunks_from ::
  "bytes \<Rightarrow> nat \<Rightarrow> chunk_raw list \<Rightarrow> (chunk_raw list, chunk_error) result" where
  "chunks_from payload end_at chunks =
     (if end_at > 0 then
        if end_at < CHUNK_TAG_LEN then Err (TruncatedTag end_at)
        else let tag_offset = end_at - CHUNK_TAG_LEN in
          (case subslice tag_offset end_at payload of
             None \<Rightarrow> Panic
           | Some tag \<Rightarrow>
               let cid = be_word (take 4 tag); len = be_word (drop 4 tag) :: u32 in
               if tag_offset < unat len then Err (LengthPastStart cid tag_offset len)
               else let start = tag_offset - unat len in
                 (case subslice start tag_offset payload of
                    None \<Rightarrow> Panic
                  | Some data \<Rightarrow>
                      chunks_from payload start
                        (\<lparr>chunk_id = cid, chunk_offset = start, chunk_data = data\<rparr> # chunks)))
      else Ok chunks)"
  by pat_completeness auto
termination
  by (relation "measure (\<lambda>(payload, end_at, chunks). end_at)") (auto simp: CHUNK_TAG_LEN_def)

declare chunks_from.simps [simp del]

definition parse_chunks :: "bytes \<Rightarrow> (chunk_raw list, chunk_error) result" where
  "parse_chunks payload = chunks_from payload (length payload) []"

section \<open>No datagram makes the parser panic\<close>

text \<open>
  The parsers on a body written as its fields. A body long enough for the fixed fields is of
  this form (\<open>get_ex\<close>), so these equations say everything about them.
\<close>

lemma parse_trailer_fields:
  "parse_trailer (put_u16 reserved @ put_u16 pt @ put_u32 a @ rest) =
     (if pt AND PAYLOAD_TYPE_MASK = PAYLOAD_TYPE_EXTENDED_CHUNK_DATA \<and> 8 \<le> length rest
      then Ok \<lparr>trl_payload_type = pt, trl_size_y = be_word (take 4 rest),
             trl_chunk_payload_length = Some a,
             trl_chunk_layout_id = Some (be_word (take 4 (drop 4 rest)))\<rparr>
      else if has_extended_chunks pt \<and> 8 \<le> length rest
      then Ok \<lparr>trl_payload_type = pt, trl_size_y = a,
             trl_chunk_payload_length = Some (be_word (take 4 rest)),
             trl_chunk_layout_id = Some (be_word (take 4 (drop 4 rest)))\<rparr>
      else Ok \<lparr>trl_payload_type = pt, trl_size_y = a, trl_chunk_payload_length = None,
             trl_chunk_layout_id = None\<rparr>)"
proof -
  have s: "subslice 2 (8 + length rest) (put_u16 reserved @ put_u16 pt @ put_u32 a @ rest) =
      Some (put_u16 pt @ put_u32 a @ rest)"
    by (simp add: subslice_def)
  show ?thesis
  proof (cases "8 \<le> length rest")
    case True
    then obtain x r1 where r1: "rest = put_u32 x @ r1" using get_ex(2) [of rest] by auto
    with True have "4 \<le> length r1" by simp
    then obtain y r2 where r2: "r1 = put_u32 y @ r2" using get_ex(2) [of r1] by auto
    show ?thesis using s by (simp add: parse_trailer_def r1 r2)
  qed (use s in \<open>simp add: parse_trailer_def\<close>)
qed

lemma parse_leader_fields:
  "parse_leader (put_u16 reserved @ put_u16 pt @ put_u64 ts @ rest) =
     (if \<not> is_image_payload pt
      then Ok \<lparr>ldr_payload_type = pt, ldr_timestamp = ts, ldr_image = None\<rparr>
      else if length rest < 12 then Err (GvspInvalid ''image leader truncated'')
      else parse_leader (put_u16 reserved @ put_u16 pt @ put_u64 ts @ rest))"
  by (simp add: parse_leader_def)

lemma parse_image_leader_fields:
  assumes "is_image_payload pt"
  shows "parse_leader (put_u16 reserved @ put_u16 pt @ put_u64 ts @ put_u32 pf @ put_u32 w @ put_u32 h @ rest) =
    Ok \<lparr>ldr_payload_type = pt, ldr_timestamp = ts,
       ldr_image = Some \<lparr>img_pixel_format = pf, img_width = w, img_height = h,
         img_offset_x = (if 8 \<le> length rest then be_word (take 4 rest) else 0),
         img_offset_y = (if 8 \<le> length rest then be_word (take 4 (drop 4 rest)) else 0),
         img_padding_x = (let c = (if 8 \<le> length rest then drop 8 rest else rest) in
           if 4 \<le> length c then be_word (take 2 c) else 0),
         img_padding_y = (let c = (if 8 \<le> length rest then drop 8 rest else rest) in
           if 4 \<le> length c then be_word (take 2 (drop 2 c)) else 0)\<rparr>\<rparr>"
proof -
  have four: "Option.bind (get_u16 c) (\<lambda>(x, c). Option.bind (get_u16 c) (\<lambda>(y, c). Some (x, y))) =
      Some (be_word (take 2 c), be_word (take 2 (drop 2 c)))" if c: "4 \<le> length c" for c
  proof -
    from c obtain x c1 where c1: "c = put_u16 x @ c1" using get_ex(1) [of c] by auto
    with c have "2 \<le> length c1" by simp
    then obtain y c2 where "c1 = put_u16 y @ c2" using get_ex(1) [of c1] by auto
    with c1 show ?thesis by simp
  qed
  show ?thesis
  proof (cases "8 \<le> length rest")
    case True
    then obtain x r1 where r1: "rest = put_u32 x @ r1" using get_ex(2) [of rest] by auto
    with True have "4 \<le> length r1" by simp
    then obtain y r2 where r2: "r1 = put_u32 y @ r2" using get_ex(2) [of r1] by auto
    show ?thesis using assms by (simp add: parse_leader_def r1 r2 four Let_def)
  qed (use assms in \<open>simp add: parse_leader_def four Let_def\<close>)
qed

lemma split_leader:
  assumes "12 \<le> length body"
  obtains r pt ts rest where "body = put_u16 r @ put_u16 pt @ put_u64 ts @ rest"
proof -
  from assms obtain r b1 where b: "body = put_u16 r @ b1" using get_ex(1) [of body] by auto
  with assms have "10 \<le> length b1" by simp
  then obtain pt b2 where b1: "b1 = put_u16 pt @ b2" using get_ex(1) [of b1] by auto
  with \<open>10 \<le> length b1\<close> have "8 \<le> length b2" by simp
  then obtain ts rest where "b2 = put_u64 ts @ rest" using get_ex(3) [of b2] by auto
  with b b1 that show thesis by simp
qed

lemma split_image:
  assumes "12 \<le> length rest"
  obtains pf w h more where "rest = put_u32 pf @ put_u32 w @ put_u32 h @ more"
proof -
  from assms obtain r b1 where b: "rest = put_u32 r @ b1" using get_ex(2) [of rest] by auto
  with assms have "8 \<le> length b1" by simp
  then obtain pt b2 where b1: "b1 = put_u32 pt @ b2" using get_ex(2) [of b1] by auto
  with \<open>8 \<le> length b1\<close> have "4 \<le> length b2" by simp
  then obtain ts more where "b2 = put_u32 ts @ more" using get_ex(2) [of b2] by auto
  with b b1 that show thesis by simp
qed

lemma split_trailer:
  assumes "8 \<le> length body"
  obtains r pt a rest where "body = put_u16 r @ put_u16 pt @ put_u32 a @ rest"
proof -
  from assms obtain r b1 where b: "body = put_u16 r @ b1" using get_ex(1) [of body] by auto
  with assms have "6 \<le> length b1" by simp
  then obtain pt b2 where b1: "b1 = put_u16 pt @ b2" using get_ex(1) [of b1] by auto
  with \<open>6 \<le> length b1\<close> have "4 \<le> length b2" by simp
  then obtain a rest where "b2 = put_u32 a @ rest" using get_ex(2) [of b2] by auto
  with b b1 that show thesis by simp
qed

lemma parse_leader_no_panic: "parse_leader body \<noteq> Panic"
proof (cases "length body < 12")
  case False
  then obtain r pt ts rest where b: "body = put_u16 r @ put_u16 pt @ put_u64 ts @ rest"
    using split_leader [of body] by (metis not_less)
  show ?thesis
  proof (cases "is_image_payload pt \<and> 12 \<le> length rest")
    case True
    then obtain pf w h more where "rest = put_u32 pf @ put_u32 w @ put_u32 h @ more"
      using split_image [of rest] by metis
    then show ?thesis using True by (simp add: b parse_image_leader_fields)
  next
    case False
    then show ?thesis unfolding b by (subst parse_leader_fields) auto
  qed
qed (simp add: parse_leader_def)

lemma parse_trailer_ok: "2 \<le> length body \<Longrightarrow> \<exists>t. parse_trailer body = Ok t"
proof (cases "length body < 8")
  case False
  then obtain r pt a rest where "body = put_u16 r @ put_u16 pt @ put_u32 a @ rest"
    using split_trailer [of body] by (metis not_less)
  then show ?thesis by (simp add: parse_trailer_fields)
qed (simp add: parse_trailer_def)

lemma parse_trailer_no_panic: "parse_trailer body \<noteq> Panic"
  using parse_trailer_ok [of body] by (cases "length body < 2") (auto simp: parse_trailer_def)

lemma parse_header_cases:
  "length d < 8 \<Longrightarrow> parse_header d = Err (GvspInvalid ''GVSP header truncated'')"
  "8 \<le> length d \<Longrightarrow> d ! 4 AND 0x80 \<noteq> 0 \<Longrightarrow> length d < 20 \<Longrightarrow>
     parse_header d = Err (GvspInvalid ''extended GVSP header truncated'')"
  "20 \<le> length d \<Longrightarrow> d ! 4 AND 0x80 \<noteq> 0 \<Longrightarrow>
     parse_header d = Ok \<lparr>hdr_status = be_word (take 2 d), hdr_block_id = be_word (take 8 (drop 8 d)),
       hdr_packet_id = be_word (take 4 (drop 16 d)), hdr_extended_ids = True, hdr_header_len = 20\<rparr>"
  "8 \<le> length d \<Longrightarrow> d ! 4 AND 0x80 = 0 \<Longrightarrow>
     parse_header d = Ok \<lparr>hdr_status = be_word (take 2 d),
       hdr_block_id = ucast (be_word (take 2 (drop 2 d)) :: u16),
       hdr_packet_id = be_word (0 # take 3 (drop 5 d)), hdr_extended_ids = False, hdr_header_len = 8\<rparr>"
  by (simp_all add: parse_header_def gvsp_consts field_def subslice_def index_def)

lemma parse_header_no_panic: "parse_header d \<noteq> Panic"
  using parse_header_cases [of d]
  by (cases "length d < 8"; cases "d ! 4 AND 0x80 = 0"; cases "length d < 20") auto

lemma parse_header_len:
  assumes "parse_header d = Ok h"
  shows "hdr_header_len h \<le> length d \<and> 8 \<le> length d \<and>
    hdr_header_len h = (if hdr_extended_ids h then 20 else 8)"
  using assms parse_header_cases [of d]
  by (cases "length d < 8"; cases "d ! 4 AND 0x80 = 0"; cases "length d < 20") auto

text \<open>
  C8. No datagram, of any length and content, makes the GVSP parser panic: every slice, index
  and cursor read it makes is within the datagram. GVSP arrives over UDP from the network, so
  this is the parser's safety against remote input.
\<close>

theorem parse_packet_ref_never_panics: "parse_packet_ref d \<noteq> Panic"
proof (cases "parse_header d")
  case (Ok h)
  then have "8 \<le> length d" "hdr_header_len h \<le> length d" using parse_header_len [OF Ok] by auto
  then have "index 4 d = Some (d ! 4)" "\<exists>body. subslice (hdr_header_len h) (length d) d = Some body"
    by (auto simp: index_def subslice_def)
  then show ?thesis
    by (auto simp: parse_packet_ref_def Ok Let_def and_then_eq_Panic parse_leader_no_panic
        parse_trailer_no_panic split: if_splits)
qed (auto simp: parse_packet_ref_def parse_header_no_panic)

section \<open>Chunk payloads tile\<close>

text \<open>A chunk on the wire: its data, then its tag.\<close>

definition chunk_wire :: "chunk_raw \<Rightarrow> bytes" where
  "chunk_wire c = chunk_data c @ put_u32 (chunk_id c) @ put_u32 (word_of_nat (length (chunk_data c)))"

definition chunks_wire :: "chunk_raw list \<Rightarrow> bytes" where
  "chunks_wire cs = concat (map chunk_wire cs)"

text \<open>Chunks laid out one after another from \<open>off\<close>, each of a length its tag can hold.\<close>

fun tiles :: "nat \<Rightarrow> chunk_raw list \<Rightarrow> bool" where
  "tiles off [] = True"
| "tiles off (c # cs) =
     (chunk_offset c = off \<and> length (chunk_data c) < 2 ^ 32 \<and>
      tiles (off + length (chunk_data c) + 8) cs)"

lemma length_chunk_wire [simp]: "length (chunk_wire c) = length (chunk_data c) + 8"
  by (simp add: chunk_wire_def)

lemma chunks_wire_simps [simp]:
  "chunks_wire [] = []"
  "chunks_wire (c # cs) = chunk_wire c @ chunks_wire cs"
  "chunks_wire (cs @ ds) = chunks_wire cs @ chunks_wire ds"
  by (simp_all add: chunks_wire_def)

lemma tiles_append [simp]:
  "tiles off (cs @ ds) \<longleftrightarrow> tiles off cs \<and> tiles (off + length (chunks_wire cs)) ds"
  by (induction cs arbitrary: off) (auto simp: algebra_simps)

lemma subslice_middle:
  "a = length xs \<Longrightarrow> b = length xs + length ys \<Longrightarrow> subslice a b (xs @ ys @ zs) = Some ys"
  by (simp add: subslice_def)

lemma chunks_from_complete:
  "tiles 0 cs \<Longrightarrow> chunks_from (chunks_wire cs @ rest) (length (chunks_wire cs)) acc = Ok (cs @ acc)"
proof (induction cs arbitrary: rest acc rule: rev_induct)
  case Nil
  then show ?case by (simp add: chunks_from.simps)
next
  case (snoc c cs)
  let ?w = "chunks_wire cs" and ?d = "chunk_data c"
  let ?tag = "put_u32 (chunk_id c) @ put_u32 (word_of_nat (length ?d))"
  define q where "q = ?w @ ?d @ ?tag @ rest"
  have p: "chunks_wire (cs @ [c]) @ rest = q" "length (chunks_wire (cs @ [c])) = length ?w + length ?d + 8"
    by (simp_all add: chunk_wire_def q_def)
  have len: "unat (word_of_nat (length ?d) :: u32) = length ?d"
    using snoc.prems by (simp add: unat_of_nat)
  have tag: "subslice (length ?w + length ?d) (length ?w + length ?d + 8) q = Some ?tag"
    using subslice_middle [of "length ?w + length ?d" "?w @ ?d" _ ?tag rest] by (simp add: q_def)
  have data: "subslice (length ?w) (length ?w + length ?d) q = Some ?d"
    using subslice_middle [of "length ?w" ?w _ ?d "?tag @ rest"] by (simp add: q_def)
  have c: "\<lparr>chunk_id = chunk_id c, chunk_offset = length ?w, chunk_data = ?d\<rparr> = c"
    using snoc.prems by (cases c) simp
  have "chunks_from q (length ?w + length ?d + 8) acc = chunks_from q (length ?w) (c # acc)"
    by (subst chunks_from.simps) (simp add: CHUNK_TAG_LEN_def tag data len c)
  also have "\<dots> = Ok (cs @ c # acc)"
    using snoc.IH [of "?d @ ?tag @ rest" "c # acc"] snoc.prems by (simp add: q_def)
  finally show ?case unfolding p by simp
qed

lemma take_split3:
  "a \<le> b \<Longrightarrow> b \<le> n \<Longrightarrow> n \<le> length p \<Longrightarrow> subslice a b p = Some d \<Longrightarrow> subslice b n p = Some t \<Longrightarrow>
   take n p = take a p @ d @ t"
  by (simp add: subslice_def)
    (metis append.assoc le_add_diff_inverse take_add)

lemma tag_split:
  assumes "length t = 8"
  shows "t = put_u32 (be_word (take 4 t)) @ put_u32 (be_word (drop 4 t))"
proof -
  have "put_u32 (be_word (take 4 t)) = take 4 t" "put_u32 (be_word (drop 4 t)) = drop 4 t"
    using assms by (auto intro!: put_be_word)
  then show ?thesis by simp
qed

lemma chunks_from_sound:
  assumes "chunks_from p e acc = Ok r" and "e \<le> length p"
  shows "\<exists>cs. r = cs @ acc \<and> take e p = chunks_wire cs \<and> tiles 0 cs"
  using assms
proof (induction e arbitrary: acc rule: less_induct)
  case (less e)
  show ?case
  proof (cases "e = 0")
    case True
    with less.prems show ?thesis by (simp add: chunks_from.simps)
  next
    case False
    note eq = less.prems(1) [unfolded chunks_from.simps [of p e acc]]
    have e8: "8 \<le> e" using eq False by (auto simp: CHUNK_TAG_LEN_def split: if_splits)
    let ?tag = "take 8 (drop (e - 8) p)"
    have tag: "subslice (e - 8) e p = Some ?tag" using e8 less.prems(2) by (simp add: subslice_def)
    define len where "len = (be_word (drop 4 ?tag) :: u32)"
    define start where "start = e - 8 - unat len"
    let ?d = "take (unat len) (drop start p)"
    let ?c = "\<lparr>chunk_id = be_word (take 4 ?tag), chunk_offset = start, chunk_data = ?d\<rparr>"
    have le: "unat len \<le> e - 8"
      using eq False e8 by (auto simp: CHUNK_TAG_LEN_def tag len_def Let_def split: if_splits)
    have d: "subslice start (e - 8) p = Some ?d"
    proof -
      have "e - 8 - start = unat len" "start \<le> e - 8" using le by (auto simp: start_def)
      with less.prems(2) show ?thesis by (simp add: subslice_def)
    qed
    have rec: "chunks_from p start (?c # acc) = Ok r"
      using eq False e8 le d
      by (simp add: CHUNK_TAG_LEN_def tag Let_def start_def flip: len_def)
    have "\<exists>cs. r = cs @ ?c # acc \<and> take start p = chunks_wire cs \<and> tiles 0 cs"
      using less.prems(2) False e8 rec by (intro less.IH) (auto simp: start_def)
    then obtain cs where cs: "r = cs @ ?c # acc" "take start p = chunks_wire cs" "tiles 0 cs" by auto
    have ld: "length ?d = unat len" using le less.prems(2) by (simp add: start_def)
    have lt: "length ?tag = 8" using e8 less.prems(2) by simp
    have "take e p = take start p @ ?d @ ?tag"
      using take_split3 [of start "e - 8" e p ?d ?tag] tag d e8 less.prems(2)
      by (simp add: start_def)
    also have "?tag = put_u32 (be_word (take 4 ?tag)) @ put_u32 len"
      using tag_split [OF lt] unfolding len_def .
    finally have "take e p = chunks_wire (cs @ [?c])"
      using ld by (simp add: cs(2) chunk_wire_def)
    moreover have "tiles 0 (cs @ [?c])"
      using cs(3) ld unsigned_less [of len, where ?'a = nat] less.prems(2) le
      by (simp flip: cs(2)) (simp add: start_def)
    ultimately show ?thesis using cs(1) by (intro exI [of _ "cs @ [?c]"] conjI) auto
  qed
qed

text \<open>
  Splitting a chunk payload is exact: it succeeds with the chunks \<open>cs\<close> if and only if the
  payload is precisely those chunks laid end to end, each its data followed by its tag, with
  \<open>cs\<close> in payload order at the offsets where they lie. In particular the split is unique and
  no byte of an accepted payload is skipped.
\<close>

theorem parse_chunks_iff:
  "parse_chunks payload = Ok cs \<longleftrightarrow> payload = chunks_wire cs \<and> tiles 0 cs"
proof
  assume "parse_chunks payload = Ok cs"
  then show "payload = chunks_wire cs \<and> tiles 0 cs"
    using chunks_from_sound [of payload "length payload" "[]" cs] by (simp add: parse_chunks_def)
next
  assume "payload = chunks_wire cs \<and> tiles 0 cs"
  then show "parse_chunks payload = Ok cs"
    using chunks_from_complete [of cs "[]" "[]"] by (simp add: parse_chunks_def)
qed

end
