(* ===== verification/Gencp.thy ===== *)
theory Gencp
  imports Prelude
begin

text \<open>
  The crate \<^verbatim>\<open>viva-gencp\<close> (\<^verbatim>\<open>crates/viva-gencp/src/lib.rs\<close>): the operation codes GVCP carries,
  the status codes both transports share, the macro \<^verbatim>\<open>transport_status!\<close> that builds a
  transport's status type over them, and the decoder of acknowledgements.

  The macro is modelled once, with its table as an argument; the two transports instantiate
  it (theories \<open>Gige_Status\<close> and \<open>U3v_Status\<close>), and the laws of the generated type are proved
  once in the locale \<open>status_table\<close>, whose assumptions say what a table must satisfy.
\<close>

section \<open>Definitions\<close>

definition HEADER_SIZE :: nat where
  "HEADER_SIZE = 8"

datatype op_code = ReadRegister | WriteRegister | ReadMem | WriteMem

datatype gencp_error = InvalidPacket string | UnknownOpcode u16

fun command_code :: "op_code \<Rightarrow> u16" where
  "command_code ReadRegister = 0x0080"
| "command_code WriteRegister = 0x0082"
| "command_code ReadMem = 0x0084"
| "command_code WriteMem = 0x0086"

definition ack_code :: "op_code \<Rightarrow> u16" where
  "ack_code op = command_code op + 1"

definition from_command :: "u16 \<Rightarrow> (op_code, gencp_error) result" where
  "from_command code =
     (if code = 0x0080 then Ok ReadRegister
      else if code = 0x0082 then Ok WriteRegister
      else if code = 0x0084 then Ok ReadMem
      else if code = 0x0086 then Ok WriteMem
      else Err (UnknownOpcode code))"

definition from_ack :: "u16 \<Rightarrow> (op_code, gencp_error) result" where
  "from_ack code =
     (if code = 0x0081 then Ok ReadRegister
      else if code = 0x0083 then Ok WriteRegister
      else if code = 0x0085 then Ok ReadMem
      else if code = 0x0087 then Ok WriteMem
      else Err (UnknownOpcode code))"

datatype status_code =
    Success | NotImplemented | InvalidParameter | InvalidAddress | WriteProtect | BadAlignment
  | AccessDenied | Busy | InvalidHeader | WrongConfig | GenericError

definition status_from_raw :: "u16 \<Rightarrow> status_code option" where
  "status_from_raw raw =
     (if raw = 0x0000 then Some Success
      else if raw = 0x8001 then Some NotImplemented
      else if raw = 0x8002 then Some InvalidParameter
      else if raw = 0x8003 then Some InvalidAddress
      else if raw = 0x8004 then Some WriteProtect
      else if raw = 0x8005 then Some BadAlignment
      else if raw = 0x8006 then Some AccessDenied
      else if raw = 0x8007 then Some Busy
      else if raw = 0x800E then Some InvalidHeader
      else if raw = 0x800F then Some WrongConfig
      else if raw = 0x8FFF then Some GenericError
      else None)"

fun status_to_raw :: "status_code \<Rightarrow> u16" where
  "status_to_raw Success = 0x0000"
| "status_to_raw NotImplemented = 0x8001"
| "status_to_raw InvalidParameter = 0x8002"
| "status_to_raw InvalidAddress = 0x8003"
| "status_to_raw WriteProtect = 0x8004"
| "status_to_raw BadAlignment = 0x8005"
| "status_to_raw AccessDenied = 0x8006"
| "status_to_raw Busy = 0x8007"
| "status_to_raw InvalidHeader = 0x800E"
| "status_to_raw WrongConfig = 0x800F"
| "status_to_raw GenericError = 0x8FFF"

fun status_name :: "status_code \<Rightarrow> string" where
  "status_name Success = ''SUCCESS''"
| "status_name NotImplemented = ''NOT_IMPLEMENTED''"
| "status_name InvalidParameter = ''INVALID_PARAMETER''"
| "status_name InvalidAddress = ''INVALID_ADDRESS''"
| "status_name WriteProtect = ''WRITE_PROTECT''"
| "status_name BadAlignment = ''BAD_ALIGNMENT''"
| "status_name AccessDenied = ''ACCESS_DENIED''"
| "status_name Busy = ''BUSY''"
| "status_name InvalidHeader = ''INVALID_HEADER''"
| "status_name WrongConfig = ''WRONG_CONFIG''"
| "status_name GenericError = ''ERROR''"

definition status_is_retryable :: "status_code \<Rightarrow> bool" where
  "status_is_retryable s = (s = Busy)"

text \<open>
  \<^verbatim>\<open>transport_status!\<close>. The enum it generates has a wrapper for the shared codes, one
  constructor per row of the table (the type \<open>'v\<close> of rows) and \<open>Unknown\<close>. The table is the
  list of rows in the order of the macro call, with each row's raw value.
\<close>

datatype 'v transport_status = Common status_code | Own 'v | Unknown u16

definition ts_from_raw :: "'v list \<Rightarrow> ('v \<Rightarrow> u16) \<Rightarrow> u16 \<Rightarrow> 'v transport_status" where
  "ts_from_raw rows raw_of raw =
     (case find (\<lambda>v. raw_of v = raw) rows of
        Some v \<Rightarrow> Own v
      | None \<Rightarrow>
          (case status_from_raw raw of Some common \<Rightarrow> Common common | None \<Rightarrow> Unknown raw))"

fun ts_to_raw :: "('v \<Rightarrow> u16) \<Rightarrow> 'v transport_status \<Rightarrow> u16" where
  "ts_to_raw raw_of (Common common) = status_to_raw common"
| "ts_to_raw raw_of (Own v) = raw_of v"
| "ts_to_raw raw_of (Unknown raw) = raw"

fun ts_name :: "('v \<Rightarrow> string) \<Rightarrow> 'v transport_status \<Rightarrow> string" where
  "ts_name spec_of (Common common) = status_name common"
| "ts_name spec_of (Own v) = spec_of v"
| "ts_name spec_of (Unknown _) = ''unknown status''"

fun ts_common :: "'v transport_status \<Rightarrow> status_code option" where
  "ts_common (Common common) = Some common"
| "ts_common (Own _) = None"
| "ts_common (Unknown _) = None"

fun ts_is_success :: "'v transport_status \<Rightarrow> bool" where
  "ts_is_success (Common common) = (common = Success)"
| "ts_is_success (Own _) = False"
| "ts_is_success (Unknown _) = False"

fun ts_is_retryable :: "'v transport_status \<Rightarrow> bool" where
  "ts_is_retryable (Common common) = (common = Busy)"
| "ts_is_retryable (Own _) = False"
| "ts_is_retryable (Unknown _) = False"

record ack_header =
  ack_status :: u16
  ack_opcode :: op_code
  ack_length :: u16
  ack_request_id :: u16

record gencp_ack =
  ack_head :: ack_header
  ack_payload :: bytes

definition decode_ack :: "bytes \<Rightarrow> (gencp_ack, gencp_error) result" where
  "decode_ack buf =
     (if length buf < HEADER_SIZE then Err (InvalidPacket ''too short'')
      else
        or_panic (get_u16 buf) (\<lambda>(status_raw, c).
        or_panic (get_u16 c) (\<lambda>(opcode_raw, c).
        or_panic (get_u16 c) (\<lambda>(len, c).
        or_panic (get_u16 c) (\<lambda>(request_id, c).
        let expected = HEADER_SIZE + unat len in
        if length buf \<noteq> expected then Err (InvalidPacket ''length mismatch'')
        else and_then (from_ack opcode_raw) (\<lambda>opcode.
             or_panic (subslice HEADER_SIZE (length buf) buf) (\<lambda>payload.
             Ok \<lparr>ack_head = \<lparr>ack_status = status_raw, ack_opcode = opcode,
                             ack_length = len, ack_request_id = request_id\<rparr>,
                 ack_payload = payload\<rparr>)))))))"

section \<open>Operation codes\<close>

lemma from_ack_eq_Ok: "from_ack code = Ok op \<longleftrightarrow> code = ack_code op"
  by (cases op) (auto simp: from_ack_def ack_code_def)

lemma from_command_eq_Ok: "from_command code = Ok op \<longleftrightarrow> code = command_code op"
  by (cases op) (auto simp: from_command_def)

lemma from_ack_no_panic: "from_ack code \<noteq> Panic"
  by (simp add: from_ack_def)

section \<open>The shared status codes\<close>

lemma status_from_to_raw [simp]: "status_from_raw (status_to_raw s) = Some s"
  by (cases s) (simp_all add: status_from_raw_def)

lemma status_from_raw_eq: "status_from_raw raw = Some s \<longleftrightarrow> raw = status_to_raw s"
  by (cases s) (auto simp: status_from_raw_def)

lemma ts_is_success_iff: "ts_is_success t \<longleftrightarrow> t = Common Success"
  by (cases t) auto

lemma ts_is_retryable_iff: "ts_is_retryable t \<longleftrightarrow> t = Common Busy"
  by (cases t) auto

section \<open>The laws of a transport's status type\<close>

locale status_table =
  fixes rows :: "'v list" and raw_of :: "'v \<Rightarrow> u16"
  assumes every_row: "v \<in> set rows"
    and one_row_per_code: "raw_of v = raw_of w \<Longrightarrow> v = w"
    and apart_from_the_core: "status_from_raw (raw_of v) = None"
begin

lemma find_row: "find (\<lambda>v. raw_of v = raw) rows = Some v \<longleftrightarrow> raw_of v = raw"
proof
  assume "find (\<lambda>v. raw_of v = raw) rows = Some v"
  then show "raw_of v = raw" by (auto simp: find_Some_iff)
next
  assume v: "raw_of v = raw"
  then have "find (\<lambda>v. raw_of v = raw) rows \<noteq> None"
    using every_row by (auto simp: find_None_iff)
  then obtain w where w: "find (\<lambda>v. raw_of v = raw) rows = Some w" by auto
  then have "raw_of w = raw" by (auto simp: find_Some_iff)
  with v w show "find (\<lambda>v. raw_of v = raw) rows = Some v"
    using one_row_per_code by metis
qed

lemma to_from_raw: "ts_to_raw raw_of (ts_from_raw rows raw_of raw) = raw"
  by (auto simp: ts_from_raw_def find_row status_from_raw_eq split: option.splits)

lemma from_raw_own: "ts_from_raw rows raw_of raw = Own v \<longleftrightarrow> raw = raw_of v"
proof
  assume "raw = raw_of v"
  then show "ts_from_raw rows raw_of raw = Own v"
    using find_row [of raw v] by (simp add: ts_from_raw_def)
qed (auto simp: ts_from_raw_def find_row split: option.splits)

lemma from_raw_common: "ts_from_raw rows raw_of raw = Common s \<longleftrightarrow> raw = status_to_raw s"
proof
  assume "ts_from_raw rows raw_of raw = Common s"
  then show "raw = status_to_raw s"
    by (auto simp: ts_from_raw_def status_from_raw_eq split: option.splits)
next
  assume raw: "raw = status_to_raw s"
  have "raw_of v \<noteq> raw" for v
    using apart_from_the_core [of v] raw by auto
  then have "find (\<lambda>v. raw_of v = raw) rows = None"
    by (auto simp: find_None_iff)
  with raw show "ts_from_raw rows raw_of raw = Common s"
    by (simp add: ts_from_raw_def)
qed

lemma from_raw_unknown:
  "ts_from_raw rows raw_of raw = Unknown r \<longleftrightarrow>
     r = raw \<and> status_from_raw raw = None \<and> (\<forall>v. raw_of v \<noteq> raw)"
  by (auto simp: ts_from_raw_def find_row find_None_iff every_row split: option.splits)

lemma success_iff: "ts_is_success (ts_from_raw rows raw_of raw) \<longleftrightarrow> raw = 0"
  using from_raw_common [of raw Success] by (simp add: ts_is_success_iff)

lemma retryable_iff: "ts_is_retryable (ts_from_raw rows raw_of raw) \<longleftrightarrow> raw = 0x8007"
  using from_raw_common [of raw Busy] by (simp add: ts_is_retryable_iff)

end

section \<open>Acknowledgements\<close>

text \<open>The layout of an acknowledgement on the wire: the header's four 16-bit fields, then the payload.\<close>

definition ack_wire :: "gencp_ack \<Rightarrow> bytes" where
  "ack_wire a = put_u16 (ack_status (ack_head a)) @ put_u16 (ack_code (ack_opcode (ack_head a)))
     @ put_u16 (ack_length (ack_head a)) @ put_u16 (ack_request_id (ack_head a)) @ ack_payload a"

definition ack_length_ok :: "gencp_ack \<Rightarrow> bool" where
  "ack_length_ok a \<longleftrightarrow> unat (ack_length (ack_head a)) = length (ack_payload a)"

lemma split_header:
  assumes "8 \<le> length buf"
  obtains s c l r p where "buf = put_u16 s @ put_u16 c @ put_u16 l @ put_u16 r @ p"
proof -
  from assms obtain s b1 where b: "buf = put_u16 s @ b1" using get_ex(1) [of buf] by auto
  with assms have "6 \<le> length b1" by simp
  then obtain c b2 where b1: "b1 = put_u16 c @ b2" using get_ex(1) [of b1] by auto
  with \<open>6 \<le> length b1\<close> have "4 \<le> length b2" by simp
  then obtain l b3 where b2: "b2 = put_u16 l @ b3" using get_ex(1) [of b2] by auto
  with \<open>4 \<le> length b2\<close> have "2 \<le> length b3" by simp
  then obtain r p where "b3 = put_u16 r @ p" using get_ex(1) [of b3] by auto
  with b b1 b2 show thesis using that by simp
qed

lemma decode_ack_short: "length buf < 8 \<Longrightarrow> decode_ack buf = Err (InvalidPacket ''too short'')"
  by (simp add: decode_ack_def HEADER_SIZE_def)

lemma decode_ack_fields:
  "decode_ack (put_u16 s @ put_u16 c @ put_u16 l @ put_u16 r @ p) =
     (if length p \<noteq> unat l then Err (InvalidPacket ''length mismatch'')
      else and_then (from_ack c) (\<lambda>op.
        Ok \<lparr>ack_head = \<lparr>ack_status = s, ack_opcode = op, ack_length = l, ack_request_id = r\<rparr>,
           ack_payload = p\<rparr>))"
  by (auto simp: decode_ack_def HEADER_SIZE_def subslice_def)

lemma decode_ack_never_panics: "decode_ack buf \<noteq> Panic"
proof (cases "length buf < 8")
  case False
  then obtain s c l r p where "buf = put_u16 s @ put_u16 c @ put_u16 l @ put_u16 r @ p"
    using split_header [of buf] by (metis not_less)
  then show ?thesis
    by (auto simp: decode_ack_fields and_then_eq_Panic from_ack_no_panic)
qed (simp add: decode_ack_short)

text \<open>
  The acknowledgement decoder accepts exactly the well-formed acknowledgements: a buffer
  decodes to an acknowledgement if and only if it is that acknowledgement's wire layout and
  the length field is the payload's length. Nothing else is accepted, whatever a device sends.
\<close>

theorem decode_ack_iff:
  "decode_ack buf = Ok a \<longleftrightarrow> buf = ack_wire a \<and> ack_length_ok a"
proof (cases "length buf < 8")
  case True
  then have "buf \<noteq> ack_wire a" by (auto simp: ack_wire_def)
  with True show ?thesis by (simp add: decode_ack_short)
next
  case False
  then obtain s c l r p where buf: "buf = put_u16 s @ put_u16 c @ put_u16 l @ put_u16 r @ p"
    using split_header [of buf] by (metis not_less)
  obtain s' op l' r' p' where a: "a = \<lparr>ack_head = \<lparr>ack_status = s', ack_opcode = op,
      ack_length = l', ack_request_id = r'\<rparr>, ack_payload = p'\<rparr>"
    by (metis ack_header.surjective gencp_ack.surjective old.unit.exhaust)
  have inj: "put_u16 x @ xs = put_u16 y @ ys \<longleftrightarrow> x = y \<and> xs = ys" for x y xs ys
    by (metis get_put(1) option.inject prod.inject)
  show ?thesis
    by (auto simp: buf a decode_ack_fields ack_wire_def ack_length_ok_def inj and_then_eq_Ok
        from_ack_eq_Ok)
qed

end
