(* ===== verification/Gige_Status.thy ===== *)
theory Gige_Status
  imports Gencp
begin

text \<open>
  GigE Vision's status type (\<^verbatim>\<open>crates/viva-gige/src/status.rs\<close>): the rows of its
  \<^verbatim>\<open>transport_status!\<close> table, the generated conversions, and \<open>is_error\<close>.
\<close>

datatype gige_row =
    PacketResend | LocalProblem | MsgMismatch | InvalidProtocol | NoMsg | PacketUnavailable
  | DataOverrun | PacketNotYetAvailable | PacketAndPreviousRemovedFromMemory
  | PacketRemovedFromMemory | NoRefTime | PacketTemporarilyUnavailable | Overflow | ActionLate
  | LeaderTrailerOverflow

definition gige_rows :: "gige_row list" where
  "gige_rows =
     [PacketResend, LocalProblem, MsgMismatch, InvalidProtocol, NoMsg, PacketUnavailable,
      DataOverrun, PacketNotYetAvailable, PacketAndPreviousRemovedFromMemory,
      PacketRemovedFromMemory, NoRefTime, PacketTemporarilyUnavailable, Overflow, ActionLate,
      LeaderTrailerOverflow]"

fun gige_raw :: "gige_row \<Rightarrow> u16" where
  "gige_raw PacketResend = 0x0100"
| "gige_raw LocalProblem = 0x8008"
| "gige_raw MsgMismatch = 0x8009"
| "gige_raw InvalidProtocol = 0x800A"
| "gige_raw NoMsg = 0x800B"
| "gige_raw PacketUnavailable = 0x800C"
| "gige_raw DataOverrun = 0x800D"
| "gige_raw PacketNotYetAvailable = 0x8010"
| "gige_raw PacketAndPreviousRemovedFromMemory = 0x8011"
| "gige_raw PacketRemovedFromMemory = 0x8012"
| "gige_raw NoRefTime = 0x8013"
| "gige_raw PacketTemporarilyUnavailable = 0x8014"
| "gige_raw Overflow = 0x8015"
| "gige_raw ActionLate = 0x8016"
| "gige_raw LeaderTrailerOverflow = 0x8017"

type_synonym gige_status = "gige_row transport_status"

definition gige_from_raw :: "u16 \<Rightarrow> gige_status" where
  "gige_from_raw = ts_from_raw gige_rows gige_raw"

definition gige_to_raw :: "gige_status \<Rightarrow> u16" where
  "gige_to_raw = ts_to_raw gige_raw"

definition gige_is_error :: "gige_status \<Rightarrow> bool" where
  "gige_is_error s \<longleftrightarrow> gige_to_raw s AND 0x8000 \<noteq> 0"

interpretation gige: status_table gige_rows gige_raw
proof
  fix v w :: gige_row
  show "v \<in> set gige_rows" by (cases v) (simp_all add: gige_rows_def)
  show "status_from_raw (gige_raw v) = None" by (cases v) (simp_all add: status_from_raw_def)
  show "gige_raw v = gige_raw w \<Longrightarrow> v = w" by (cases v; cases w) simp_all
qed

lemmas gige_status_raw = gige.to_from_raw [folded gige_from_raw_def gige_to_raw_def]
lemmas gige_from_raw_own = gige.from_raw_own [folded gige_from_raw_def]
lemmas gige_from_raw_common = gige.from_raw_common [folded gige_from_raw_def]
lemmas gige_from_raw_unknown = gige.from_raw_unknown [folded gige_from_raw_def]

end
