(* ===== verification/U3v_Status.thy ===== *)
theory U3v_Status
  imports Gencp
begin

text \<open>
  USB3 Vision's status type (\<^verbatim>\<open>crates/viva-u3v/src/status.rs\<close>), the other instance of
  \<^verbatim>\<open>transport_status!\<close>.
\<close>

datatype u3v_row =
    MsgTimeout | ResendNotSupported | DsiEndpointHalted | SiPayloadSizeNotAligned
  | SiRegistersInconsistent | U3vDataDiscarded | U3vDataOverrun

definition u3v_rows :: "u3v_row list" where
  "u3v_rows =
     [MsgTimeout, ResendNotSupported, DsiEndpointHalted, SiPayloadSizeNotAligned,
      SiRegistersInconsistent, U3vDataDiscarded, U3vDataOverrun]"

fun u3v_raw :: "u3v_row \<Rightarrow> u16" where
  "u3v_raw MsgTimeout = 0x800B"
| "u3v_raw ResendNotSupported = 0xA001"
| "u3v_raw DsiEndpointHalted = 0xA002"
| "u3v_raw SiPayloadSizeNotAligned = 0xA003"
| "u3v_raw SiRegistersInconsistent = 0xA004"
| "u3v_raw U3vDataDiscarded = 0xA100"
| "u3v_raw U3vDataOverrun = 0xA101"

type_synonym u3v_status = "u3v_row transport_status"

definition u3v_from_raw :: "u16 \<Rightarrow> u3v_status" where
  "u3v_from_raw = ts_from_raw u3v_rows u3v_raw"

definition u3v_to_raw :: "u3v_status \<Rightarrow> u16" where
  "u3v_to_raw = ts_to_raw u3v_raw"

interpretation u3v: status_table u3v_rows u3v_raw
proof
  fix v w :: u3v_row
  show "v \<in> set u3v_rows" by (cases v) (simp_all add: u3v_rows_def)
  show "status_from_raw (u3v_raw v) = None" by (cases v) (simp_all add: status_from_raw_def)
  show "u3v_raw v = u3v_raw w \<Longrightarrow> v = w" by (cases v; cases w) simp_all
qed

lemmas u3v_status_raw = u3v.to_from_raw [folded u3v_from_raw_def u3v_to_raw_def]
lemmas u3v_from_raw_own = u3v.from_raw_own [folded u3v_from_raw_def]
lemmas u3v_from_raw_common = u3v.from_raw_common [folded u3v_from_raw_def]

end
