(* ===== verification/Packet_Bitmap.thy ===== *)
theory Packet_Bitmap
  imports Prelude
begin

text \<open>
  The packet bitmap of \<^verbatim>\<open>crates/viva-gige/src/gvsp.rs\<close>: which data packets of a block have
  arrived, as 64-bit words. The abstraction \<open>marked\<close> is the set of packet indices; every
  operation is shown to act on that set as its documentation says, and the locale
  \<open>packet_set\<close> states the interface the block assembler relies on.

  The fields are private in the source, so a bitmap is always one that \<open>bitmap_inv\<close>
  describes: the invariant holds of \<open>bitmap_new\<close> and every operation keeps it, and it puts
  every word index below the length of the word list.
\<close>

section \<open>Definitions\<close>

record packet_bitmap =
  bm_words :: "u64 list"
  bm_received :: nat
  bm_total :: nat

definition bitmap_new :: "nat \<Rightarrow> packet_bitmap" where
  "bitmap_new n = \<lparr>bm_words = replicate (div_ceil n 64) 0, bm_received = 0, bm_total = n\<rparr>"

definition bitmap_default :: packet_bitmap where
  "bitmap_default = \<lparr>bm_words = [], bm_received = 0, bm_total = 0\<rparr>"

definition bitmap_reset :: "nat \<Rightarrow> packet_bitmap \<Rightarrow> packet_bitmap" where
  "bitmap_reset n b =
     b\<lparr>bm_words := resize (div_ceil n 64) 0 [], bm_received := 0, bm_total := n\<rparr>"

definition bitmap_grow :: "nat \<Rightarrow> packet_bitmap \<Rightarrow> packet_bitmap" where
  "bitmap_grow n b =
     (if n > bm_total b
      then b\<lparr>bm_words := resize (div_ceil n 64) 0 (bm_words b), bm_total := n\<rparr>
      else b)"

definition bitmap_len :: "packet_bitmap \<Rightarrow> nat" where
  "bitmap_len b = bm_total b"

definition bitmap_is_empty :: "packet_bitmap \<Rightarrow> bool" where
  "bitmap_is_empty b = (bm_total b = 0)"

definition mask_for :: "nat \<Rightarrow> nat \<times> u64" where
  "mask_for packet_id = (packet_id div 64, push_bit (packet_id mod 64) 1)"

definition bitmap_contains :: "packet_bitmap \<Rightarrow> nat \<Rightarrow> bool" where
  "bitmap_contains b packet_id =
     (if packet_id \<ge> bm_total b then False
      else let (word, mask) = mask_for packet_id in bm_words b ! word AND mask \<noteq> 0)"

definition bitmap_set :: "nat \<Rightarrow> packet_bitmap \<Rightarrow> bool \<times> packet_bitmap" where
  "bitmap_set packet_id b =
     (if packet_id \<ge> bm_total b then (False, b)
      else let (word, mask) = mask_for packet_id; entry = bm_words b ! word in
        if entry AND mask = 0
        then (True, b\<lparr>bm_words := (bm_words b)[word := entry OR mask],
                      bm_received := bm_received b + 1\<rparr>)
        else (False, b))"

definition bitmap_clear :: "nat \<Rightarrow> packet_bitmap \<Rightarrow> bool \<times> packet_bitmap" where
  "bitmap_clear packet_id b =
     (if \<not> bitmap_contains b packet_id then (False, b)
      else let (word, mask) = mask_for packet_id in
        (True, b\<lparr>bm_words := (bm_words b)[word := bm_words b ! word AND NOT mask],
                 bm_received := bm_received b - 1\<rparr>))"

definition first_n_complete :: "packet_bitmap \<Rightarrow> nat \<Rightarrow> bool" where
  "first_n_complete b count =
     (if count > bm_total b then False
      else let full = count div 64 in
        if list_ex (\<lambda>w. w \<noteq> - 1) (take full (bm_words b)) then False
        else let rest = count mod 64 in
          rest = 0 \<or>
          bm_words b ! full AND (push_bit rest 1 - 1) = push_bit rest 1 - 1)"

definition bitmap_is_complete :: "packet_bitmap \<Rightarrow> bool" where
  "bitmap_is_complete b = (bm_received b = bm_total b)"

text \<open>
  The loop of \<open>missing_ranges\<close>, from index \<open>idx\<close> with the open range \<open>current\<close>; \<open>n\<close> counts
  the indices left. An index is cast to \<open>u32\<close>, as in the source.
\<close>

fun missing_loop ::
  "packet_bitmap \<Rightarrow> nat \<Rightarrow> nat \<Rightarrow> (u32 \<times> u32) option \<Rightarrow> (u32 \<times> u32) list" where
  "missing_loop b idx 0 current = (case current of None \<Rightarrow> [] | Some r \<Rightarrow> [r])"
| "missing_loop b idx (Suc n) current =
     (let (word, mask) = mask_for idx; present = (bm_words b ! word AND mask \<noteq> 0) in
      case current of
        None \<Rightarrow>
          if present then missing_loop b (Suc idx) n None
          else missing_loop b (Suc idx) n (Some (word_of_nat idx, word_of_nat idx))
      | Some (start, last_idx) \<Rightarrow>
          if present then (start, last_idx) # missing_loop b (Suc idx) n None
          else missing_loop b (Suc idx) n (Some (start, word_of_nat idx)))"

definition missing_ranges :: "packet_bitmap \<Rightarrow> (u32 \<times> u32) list" where
  "missing_ranges b = missing_loop b 0 (bm_total b) None"

section \<open>Abstraction and invariant\<close>

definition bit_at :: "packet_bitmap \<Rightarrow> nat \<Rightarrow> bool" where
  "bit_at b i \<longleftrightarrow> bit (bm_words b ! (i div 64)) (i mod 64)"

definition marked :: "packet_bitmap \<Rightarrow> nat set" where
  "marked b = {i. i < bm_total b \<and> bit_at b i}"

definition bitmap_inv :: "packet_bitmap \<Rightarrow> bool" where
  "bitmap_inv b \<longleftrightarrow>
     length (bm_words b) = div_ceil (bm_total b) 64 \<and>
     (\<forall>i. bm_total b \<le> i \<and> i div 64 < length (bm_words b) \<longrightarrow> \<not> bit_at b i) \<and>
     bm_received b = card (marked b)"

text \<open>The interface the assembler uses, over the set of marked indices.\<close>

locale packet_set =
  fixes inv :: "'b \<Rightarrow> bool" and abs :: "'b \<Rightarrow> nat set"
    and reset :: "nat \<Rightarrow> 'b \<Rightarrow> 'b" and grow :: "nat \<Rightarrow> 'b \<Rightarrow> 'b" and size_of :: "'b \<Rightarrow> nat"
    and contains :: "'b \<Rightarrow> nat \<Rightarrow> bool" and set_at :: "nat \<Rightarrow> 'b \<Rightarrow> bool \<times> 'b"
    and clear_at :: "nat \<Rightarrow> 'b \<Rightarrow> bool \<times> 'b" and first_n :: "'b \<Rightarrow> nat \<Rightarrow> bool"
  assumes abs_bounded: "inv b \<Longrightarrow> abs b \<subseteq> {..<size_of b}"
    and abs_reset: "inv (reset n b) \<and> abs (reset n b) = {} \<and> size_of (reset n b) = n"
    and abs_grow: "inv b \<Longrightarrow> inv (grow n b) \<and> abs (grow n b) = abs b \<and> size_of (grow n b) = max n (size_of b)"
    and contains_iff: "inv b \<Longrightarrow> contains b i \<longleftrightarrow> i \<in> abs b"
    and abs_set: "inv b \<Longrightarrow> i < size_of b \<Longrightarrow>
      inv (snd (set_at i b)) \<and> abs (snd (set_at i b)) = insert i (abs b) \<and>
      size_of (snd (set_at i b)) = size_of b"
    and abs_clear: "inv b \<Longrightarrow>
      inv (snd (clear_at i b)) \<and> abs (snd (clear_at i b)) = abs b - {i} \<and>
      size_of (snd (clear_at i b)) = size_of b \<and> (fst (clear_at i b) \<longleftrightarrow> i \<in> abs b)"
    and first_n_iff: "inv b \<Longrightarrow> first_n b n \<longleftrightarrow> {..<n} \<subseteq> abs b"
begin

text \<open>Recording a packet the way \<open>on_payload\<close> does: grow to its slot, then set it.\<close>

lemma record_slot:
  assumes "inv b"
  shows "inv (snd (set_at s (grow (Suc s) b)))"
    and "abs (snd (set_at s (grow (Suc s) b))) = insert s (abs b)"
    and "size_of (snd (set_at s (grow (Suc s) b))) = max (Suc s) (size_of b)"
  using abs_grow [OF assms, of "Suc s"] abs_set [of "grow (Suc s) b" s] by auto

text \<open>How many of the first \<open>n\<close> are missing, counted the way the assembler counts holes.\<close>

lemma holes_count:
  assumes "inv b"
  shows "length (filter (\<lambda>i. \<not> contains b i) [0..<n]) = card ({..<n} - abs b)"
proof -
  have "length (filter (\<lambda>i. \<not> contains b i) [0..<n]) = card (set (filter (\<lambda>i. \<not> contains b i) [0..<n]))"
    by (rule distinct_card [symmetric]) simp
  also have "set (filter (\<lambda>i. \<not> contains b i) [0..<n]) = {..<n} - abs b"
    using contains_iff [OF assms] by auto
  finally show ?thesis .
qed

lemma complete_iff_no_holes:
  assumes "inv b"
  shows "first_n b n \<longleftrightarrow> length (filter (\<lambda>i. \<not> contains b i) [0..<n]) = 0"
  using holes_count [OF assms, of n] first_n_iff [OF assms, of n] by auto

end

section \<open>Bits of a word\<close>

lemma and_mask_zero_iff: "(w :: u64) AND 2 ^ k = 0 \<longleftrightarrow> \<not> bit w k"
  using bit_iff_and_push_bit_not_eq_0 [of w k] by simp

lemma word_bits_eqI: "(\<And>k. k < 64 \<Longrightarrow> bit v k \<longleftrightarrow> bit w k) \<Longrightarrow> v = (w :: u64)"
  by (rule bit_word_eqI) simp

lemma all_ones_iff: "(w :: u64) = - 1 \<longleftrightarrow> (\<forall>k < 64. bit w k)"
  by (auto intro!: word_bits_eqI)

lemma low_ones_iff:
  assumes "r < 64"
  shows "(w :: u64) AND (push_bit r 1 - 1) = push_bit r 1 - 1 \<longleftrightarrow> (\<forall>k < r. bit w k)"
proof -
  have m: "push_bit r 1 - 1 = (mask r :: u64)"
    by (simp add: mask_eq_exp_minus_1 push_bit_eq_mult)
  have b: "bit (mask r :: u64) k \<longleftrightarrow> k < r" if "k < 64" for k
    using that assms by (simp add: bit_mask_iff)
  show ?thesis
  proof
    assume "w AND (push_bit r 1 - 1) = push_bit r 1 - 1"
    then have "bit (w AND mask r) k \<longleftrightarrow> bit (mask r :: u64) k" for k by (simp only: m)
    then show "\<forall>k < r. bit w k" using assms b by (metis bit_and_iff order_less_trans)
  next
    assume "\<forall>k < r. bit w k"
    then have "w AND mask r = mask r" using b by (auto intro!: word_bits_eqI simp: bit_and_iff)
    then show "w AND (push_bit r 1 - 1) = push_bit r 1 - 1" by (simp only: m)
  qed
qed

lemma mask_for_apart: "i div 64 = j div 64 \<Longrightarrow> i mod 64 = j mod 64 \<Longrightarrow> i = (j :: nat)"
  by (metis div_mult_mod_eq)

section \<open>The operations act on the set\<close>

lemma word_index_ok: "bitmap_inv b \<Longrightarrow> i < bm_total b \<Longrightarrow> i div 64 < length (bm_words b)"
  using div_times_less_eq_dividend [of i 64] by (simp add: bitmap_inv_def less_div_ceil_iff)

lemma finite_marked [simp]: "finite (marked b)"
  by (rule finite_subset [of _ "{..<bm_total b}"]) (auto simp: marked_def)

lemma marked_bounded: "marked b \<subseteq> {..<bm_total b}"
  by (auto simp: marked_def)

lemma contains_marked: "bitmap_contains b i \<longleftrightarrow> i \<in> marked b"
  by (auto simp: bitmap_contains_def marked_def bit_at_def mask_for_def and_mask_zero_iff)

lemma bit_at_fresh: "bit_at \<lparr>bm_words = replicate n 0, bm_received = r, bm_total = t\<rparr> i = False"
  if "i div 64 < n"
  using that by (simp add: bit_at_def)

lemma reset_eq_new: "bitmap_reset n b = bitmap_new n"
  by (cases b) (simp add: bitmap_reset_def bitmap_new_def resize_def)

lemma new_marked: "bitmap_inv (bitmap_new n)" "marked (bitmap_new n) = {}"
proof -
  have "i div 64 < div_ceil n 64" if "i < n" for i
    using that less_div_ceil_iff [of 64 "i div 64" n] div_times_less_eq_dividend [of i 64] by linarith
  then show m: "marked (bitmap_new n) = {}"
    by (auto simp: marked_def bitmap_new_def bit_at_fresh)
  show "bitmap_inv (bitmap_new n)"
    unfolding bitmap_inv_def m by (auto simp: bitmap_new_def bit_at_fresh)
qed

lemma default_eq_new: "bitmap_default = bitmap_new 0"
  by (simp add: bitmap_default_def bitmap_new_def div_ceil_def)

lemma grow_marked:
  assumes inv: "bitmap_inv b"
  shows "bitmap_inv (bitmap_grow n b)" "marked (bitmap_grow n b) = marked b"
    "bm_total (bitmap_grow n b) = max n (bm_total b)"
proof -
  show "bm_total (bitmap_grow n b) = max n (bm_total b)"
    by (simp add: bitmap_grow_def)
  show m: "marked (bitmap_grow n b) = marked b"
  proof (cases "n > bm_total b")
    case True
    have old: "i div 64 < length (bm_words b)" if "i < bm_total b" for i
      using word_index_ok [OF inv that] .
    have fresh: "i div 64 < div_ceil n 64" if "i < n" for i
      using that less_div_ceil_iff [of 64 "i div 64" n] div_times_less_eq_dividend [of i 64]
      by linarith
    have "i < n \<and> bit_at (bitmap_grow n b) i \<longleftrightarrow> i < bm_total b \<and> bit_at b i" for i
    proof (cases "i < n")
      case i: True
      then have "bit_at (bitmap_grow n b) i \<longleftrightarrow> i div 64 < length (bm_words b) \<and> bit_at b i"
        using True fresh [OF i] by (simp add: bit_at_def bitmap_grow_def nth_resize)
      then show ?thesis using i inv old by (auto simp: bitmap_inv_def not_less)
    qed (use True in simp)
    then show ?thesis using True by (auto simp: marked_def bitmap_grow_def)
  qed (simp add: bitmap_grow_def)
  show "bitmap_inv (bitmap_grow n b)"
  proof (cases "n > bm_total b")
    case True
    have le: "length (bm_words b) \<le> div_ceil n 64"
      using inv True div_ceil_mono [of "bm_total b" n 64] by (simp add: bitmap_inv_def)
    have "\<not> bit_at (bitmap_grow n b) i" if "n \<le> i" "i div 64 < div_ceil n 64" for i
      using that True inv by (auto simp: bit_at_def bitmap_grow_def nth_resize bitmap_inv_def)
    with True show ?thesis
      using inv m by (auto simp: bitmap_inv_def) (auto simp: bitmap_grow_def)
  qed (simp add: bitmap_grow_def inv)
qed

lemma bit_at_update:
  assumes "i div 64 < length (bm_words b)" and "j div 64 < length (bm_words b)"
  shows "bit_at (b\<lparr>bm_words := (bm_words b)[i div 64 := bm_words b ! (i div 64) OR 2 ^ (i mod 64)],
            bm_received := r\<rparr>) j \<longleftrightarrow> j = i \<or> bit_at b j"
    and "bit_at (b\<lparr>bm_words := (bm_words b)[i div 64 := bm_words b ! (i div 64) AND NOT (2 ^ (i mod 64))],
            bm_received := r\<rparr>) j \<longleftrightarrow> j \<noteq> i \<and> bit_at b j"
proof -
  have apart: "i div 64 = j div 64 \<Longrightarrow> i mod 64 = j mod 64 \<longleftrightarrow> j = i"
    using mask_for_apart [of i j] by auto
  have ex: "bit (2 ^ (i mod 64) :: u64) (j mod 64) \<longleftrightarrow> i mod 64 = j mod 64"
    by (auto simp: bit_exp_iff)
  show "bit_at (b\<lparr>bm_words := (bm_words b)[i div 64 := bm_words b ! (i div 64) OR 2 ^ (i mod 64)],
            bm_received := r\<rparr>) j \<longleftrightarrow> j = i \<or> bit_at b j"
    using assms apart by (cases "i div 64 = j div 64") (auto simp: bit_at_def bit_or_iff ex)
  show "bit_at (b\<lparr>bm_words := (bm_words b)[i div 64 := bm_words b ! (i div 64) AND NOT (2 ^ (i mod 64))],
            bm_received := r\<rparr>) j \<longleftrightarrow> j \<noteq> i \<and> bit_at b j"
    using assms apart by (cases "i div 64 = j div 64") (auto simp: bit_at_def bit_and_iff bit_not_iff ex)
qed

lemma set_marked:
  assumes inv: "bitmap_inv b" and i: "i < bm_total b"
  shows "bitmap_inv (snd (bitmap_set i b))" "marked (snd (bitmap_set i b)) = insert i (marked b)"
    "bm_total (snd (bitmap_set i b)) = bm_total b" "fst (bitmap_set i b) \<longleftrightarrow> i \<notin> marked b"
proof -
  note idx = word_index_ok [OF inv]
  have new: "bitmap_set i b =
    (if i \<in> marked b then (False, b)
     else (True, b\<lparr>bm_words := (bm_words b)[i div 64 := bm_words b ! (i div 64) OR 2 ^ (i mod 64)],
                   bm_received := bm_received b + 1\<rparr>))"
    using i by (auto simp: bitmap_set_def mask_for_def and_mask_zero_iff marked_def bit_at_def Let_def)
  show m: "marked (snd (bitmap_set i b)) = insert i (marked b)"
    using i idx by (auto simp: new) (auto simp: marked_def bit_at_update)
  show "bm_total (snd (bitmap_set i b)) = bm_total b" "fst (bitmap_set i b) \<longleftrightarrow> i \<notin> marked b"
    by (simp_all add: new)
  show "bitmap_inv (snd (bitmap_set i b))"
  proof (cases "i \<in> marked b")
    case False
    have "\<not> bit_at (snd (bitmap_set i b)) j"
      if "bm_total b \<le> j" "j div 64 < length (bm_words b)" for j
      using that i False inv idx [OF i] by (auto simp: new bit_at_update bitmap_inv_def)
    moreover have "bm_received (snd (bitmap_set i b)) = card (marked (snd (bitmap_set i b)))"
      unfolding m using False inv by (simp add: new bitmap_inv_def)
    ultimately show ?thesis using False inv by (auto simp: bitmap_inv_def new)
  qed (simp add: new inv)
qed

lemma clear_marked:
  assumes inv: "bitmap_inv b"
  shows "bitmap_inv (snd (bitmap_clear i b))" "marked (snd (bitmap_clear i b)) = marked b - {i}"
    "bm_total (snd (bitmap_clear i b)) = bm_total b" "fst (bitmap_clear i b) \<longleftrightarrow> i \<in> marked b"
proof -
  note idx = word_index_ok [OF inv]
  have new: "bitmap_clear i b =
    (if i \<notin> marked b then (False, b)
     else (True, b\<lparr>bm_words := (bm_words b)[i div 64 := bm_words b ! (i div 64) AND NOT (2 ^ (i mod 64))],
                   bm_received := bm_received b - 1\<rparr>))"
    by (auto simp: bitmap_clear_def mask_for_def contains_marked)
  have i: "i < bm_total b" if "i \<in> marked b" using that by (simp add: marked_def)
  show m: "marked (snd (bitmap_clear i b)) = marked b - {i}"
    using i idx by (auto simp: new) (auto simp: marked_def bit_at_update)
  show "bm_total (snd (bitmap_clear i b)) = bm_total b" "fst (bitmap_clear i b) \<longleftrightarrow> i \<in> marked b"
    by (simp_all add: new)
  show "bitmap_inv (snd (bitmap_clear i b))"
  proof (cases "i \<in> marked b")
    case True
    have "\<not> bit_at (snd (bitmap_clear i b)) j"
      if "bm_total b \<le> j" "j div 64 < length (bm_words b)" for j
      using that True inv idx [OF i [OF True]] by (auto simp: new bit_at_update bitmap_inv_def)
    moreover have "bm_received (snd (bitmap_clear i b)) = card (marked (snd (bitmap_clear i b)))"
      unfolding m using True inv by (simp add: new bitmap_inv_def)
    ultimately show ?thesis using True inv by (auto simp: bitmap_inv_def new)
  qed (simp add: new inv)
qed

lemma full_words_iff:
  assumes "n \<le> length (bm_words b)"
  shows "\<not> list_ex (\<lambda>w. w \<noteq> - 1) (take n (bm_words b)) \<longleftrightarrow> (\<forall>i < n * 64. bit_at b i)"
proof -
  have "\<not> list_ex (\<lambda>w. w \<noteq> - 1) (take n (bm_words b)) \<longleftrightarrow>
      (\<forall>q < n. \<forall>k < 64. bit (bm_words b ! q) k)"
    using assms by (auto simp: list_ex_iff in_set_conv_nth all_ones_iff Bex_def)
  also have "\<dots> \<longleftrightarrow> (\<forall>i < n * 64. bit_at b i)"
  proof (intro iffI allI impI)
    fix i assume "\<forall>q < n. \<forall>k < 64. bit (bm_words b ! q) k" "i < n * 64"
    then show "bit_at b i" by (simp add: bit_at_def less_mult_imp_div_less)
  next
    fix q k assume all: "\<forall>i < n * 64. bit_at b i" and q: "q < n" and k: "k < (64 :: nat)"
    from q have "Suc q * 64 \<le> n * 64" by (intro mult_le_mono1) simp
    with k have "q * 64 + k < n * 64" by simp
    with all have "bit_at b (q * 64 + k)" by blast
    with k show "bit (bm_words b ! q) k" by (simp add: bit_at_def)
  qed
  finally show ?thesis .
qed

lemma first_n_marked:
  assumes inv: "bitmap_inv b"
  shows "first_n_complete b n \<longleftrightarrow> {..<n} \<subseteq> marked b"
proof (cases "n > bm_total b")
  case True
  then show ?thesis using marked_bounded [of b] by (auto simp: first_n_complete_def)
next
  case False
  let ?q = "n div 64" and ?r = "n mod 64"
  have split: "n = ?q * 64 + ?r" by simp
  have "?q \<le> length (bm_words b)"
    using inv False by (simp add: bitmap_inv_def div_ceil_def div_le_mono)
  from full_words_iff [OF this] have "first_n_complete b n \<longleftrightarrow>
      (\<forall>i < ?q * 64. bit_at b i) \<and> (?r = 0 \<or> (\<forall>k < ?r. bit (bm_words b ! ?q) k))"
    using False by (auto simp: first_n_complete_def Let_def low_ones_iff simp del: push_bit_of_1)
  also have "\<dots> \<longleftrightarrow> (\<forall>i < n. bit_at b i)"
  proof (intro iffI allI impI conjI)
    fix i assume h: "(\<forall>i < ?q * 64. bit_at b i) \<and> (?r = 0 \<or> (\<forall>k < ?r. bit (bm_words b ! ?q) k))"
      and i: "i < n"
    show "bit_at b i"
    proof (cases "i < ?q * 64")
      case False
      then have "?q \<le> i div 64" by (simp add: less_eq_div_iff_mult_less_eq)
      moreover have "i div 64 \<le> ?q" using i by (simp add: div_le_mono)
      ultimately have "i div 64 = ?q" by simp
      moreover from this have "i mod 64 < ?r"
        using i split div_mult_mod_eq [of i 64] by (metis nat_add_left_cancel_less)
      ultimately have "i div 64 = ?q" "i mod 64 < ?r" by auto
      with h show ?thesis by (auto simp: bit_at_def)
    qed (use h in blast)
  next
    assume all: "\<forall>i < n. bit_at b i"
    show "bit_at b i" if "i < ?q * 64" for i using all that split by (metis trans_less_add1)
    show "?r = 0 \<or> (\<forall>k < ?r. bit (bm_words b ! ?q) k)"
    proof (intro disjI2 allI impI)
      fix k assume k: "k < ?r"
      with split have "?q * 64 + k < n" by linarith
      with all have "bit_at b (?q * 64 + k)" by blast
      moreover have "k < 64" using k by (meson mod_less_divisor order_less_trans zero_less_numeral)
      ultimately show "bit (bm_words b ! ?q) k" by (simp add: bit_at_def)
    qed
  qed
  also have "\<dots> \<longleftrightarrow> {..<n} \<subseteq> marked b" using False by (auto simp: marked_def)
  finally show ?thesis .
qed

interpretation bitmap: packet_set bitmap_inv marked bitmap_reset bitmap_grow bitmap_len
  bitmap_contains bitmap_set bitmap_clear first_n_complete
proof
  fix b :: packet_bitmap and n i
  show "bitmap_inv (bitmap_reset n b) \<and> marked (bitmap_reset n b) = {} \<and>
      bitmap_len (bitmap_reset n b) = n"
    by (simp add: reset_eq_new new_marked bitmap_len_def) (simp add: bitmap_new_def)
  assume inv: "bitmap_inv b"
  show "marked b \<subseteq> {..<bitmap_len b}" by (simp add: marked_bounded bitmap_len_def)
  show "bitmap_inv (bitmap_grow n b) \<and> marked (bitmap_grow n b) = marked b \<and>
      bitmap_len (bitmap_grow n b) = max n (bitmap_len b)"
    using grow_marked [OF inv] by (simp add: bitmap_len_def)
  show "bitmap_contains b i \<longleftrightarrow> i \<in> marked b" by (rule contains_marked)
  show "bitmap_inv (snd (bitmap_clear i b)) \<and> marked (snd (bitmap_clear i b)) = marked b - {i} \<and>
      bitmap_len (snd (bitmap_clear i b)) = bitmap_len b \<and> (fst (bitmap_clear i b) \<longleftrightarrow> i \<in> marked b)"
    using clear_marked [OF inv] by (simp add: bitmap_len_def)
  show "first_n_complete b n \<longleftrightarrow> {..<n} \<subseteq> marked b" by (rule first_n_marked [OF inv])
  show "bitmap_inv (snd (bitmap_set i b)) \<and> marked (snd (bitmap_set i b)) = insert i (marked b) \<and>
      bitmap_len (snd (bitmap_set i b)) = bitmap_len b" if "i < bitmap_len b"
    using set_marked [OF inv] that by (simp add: bitmap_len_def)
qed

section \<open>Missing ranges\<close>

definition range_ids :: "u32 \<times> u32 \<Rightarrow> nat set" where
  "range_ids r = {unat (fst r)..unat (snd r)}"

text \<open>Ranges in ascending order with at least one index between neighbours.\<close>

definition apart :: "(u32 \<times> u32) list \<Rightarrow> bool" where
  "apart rs \<longleftrightarrow> sorted_wrt (\<lambda>r s. unat (snd r) + 1 < unat (fst s)) rs \<and>
     (\<forall>r \<in> set rs. unat (fst r) \<le> unat (snd r))"

lemma unat_u32: "i < 2 ^ 32 \<Longrightarrow> unat (word_of_nat i :: u32) = i"
  by (simp add: unat_of_nat)

lemma missing_loop_spec:
  assumes "idx + n \<le> 2 ^ 32"
    and "current = None \<or> (\<exists>s e. current = Some (s, e) \<and> unat s \<le> unat e \<and> unat e + 1 = idx)"
  shows "(\<Union>r \<in> set (missing_loop b idx n current). range_ids r) =
      (case current of None \<Rightarrow> {} | Some r \<Rightarrow> range_ids r) \<union> {i \<in> {idx..<idx + n}. \<not> bit_at b i} \<and>
    apart (missing_loop b idx n current) \<and>
    (\<forall>r \<in> set (missing_loop b idx n current).
      (case current of None \<Rightarrow> idx \<le> unat (fst r) | Some c \<Rightarrow> unat (fst c) \<le> unat (fst r)))"
    (is "?P b idx n current")
  using assms
proof (induction n arbitrary: idx current)
  case 0
  then show ?case by (auto simp: apart_def)
next
  case (Suc n)
  have idx: "unat (word_of_nat idx :: u32) = idx"
    using Suc.prems(1) by (intro unat_u32) simp
  have step: "{i \<in> {idx..<idx + Suc n}. \<not> bit_at b i} =
      (if bit_at b idx then {} else {idx}) \<union> {i \<in> {Suc idx..<Suc idx + n}. \<not> bit_at b i}"
    by (auto simp: less_Suc_eq_le Suc_le_eq le_less)
  have next_None: "?P b (Suc idx) n None"
    using Suc.prems(1) by (intro Suc.IH) auto
  have next_Some: "?P b (Suc idx) n (Some (s, word_of_nat idx))" if "unat s \<le> idx" for s
    using Suc.prems(1) that by (intro Suc.IH) (auto simp: idx)
  have unfold: "missing_loop b idx (Suc n) current =
      (case current of
         None \<Rightarrow> if bit_at b idx then missing_loop b (Suc idx) n None
                 else missing_loop b (Suc idx) n (Some (word_of_nat idx, word_of_nat idx))
       | Some (s, e) \<Rightarrow> if bit_at b idx then (s, e) # missing_loop b (Suc idx) n None
                 else missing_loop b (Suc idx) n (Some (s, word_of_nat idx)))"
    by (simp add: mask_for_def and_mask_zero_iff bit_at_def split: option.split)
  show ?case
  proof (cases current)
    case None
    show ?thesis
    proof (cases "bit_at b idx")
      case True
      with None next_None show ?thesis unfolding unfold step by (auto simp: Suc_le_eq)
    next
      case False
      with None next_Some [of "word_of_nat idx"] show ?thesis
        unfolding unfold step by (auto simp: idx range_ids_def)
    qed
  next
    case (Some c)
    then obtain s e where c: "current = Some (s, e)" "unat s \<le> unat e" "unat e + 1 = idx"
      using Suc.prems(2) by auto
    show ?thesis
    proof (cases "bit_at b idx")
      case True
      with c next_None show ?thesis
        unfolding unfold step by (auto simp: apart_def Suc_le_eq)
    next
      case False
      have "{unat s..idx} = {unat s..unat e} \<union> {idx}" using c by auto
      with False c next_Some [of s] show ?thesis
        unfolding unfold step by (auto simp: range_ids_def idx)
    qed
  qed
qed

text \<open>
  The missing ranges are exactly the maximal runs of indices not received: their union is
  the complement of the set below the packet count, they ascend, no range is empty, and at
  least one received index lies between two neighbours. (A packet count above \<open>2 ^ 32\<close> does
  not fit the \<open>u32\<close> indices the function returns.)
\<close>

theorem missing_ranges_exact:
  assumes "bm_total b \<le> 2 ^ 32"
  shows "(\<Union>r \<in> set (missing_ranges b). range_ids r) = {..<bm_total b} - marked b \<and>
    apart (missing_ranges b)"
proof -
  have "{i \<in> {0..<0 + bm_total b}. \<not> bit_at b i} = {..<bm_total b} - marked b"
    by (auto simp: marked_def)
  then show ?thesis
    using missing_loop_spec [of 0 "bm_total b" None b] assms by (simp add: missing_ranges_def)
qed

theorem missing_ranges_exact_witness:
  "missing_ranges (snd (bitmap_set 2 (bitmap_new 5))) = [(0, 1), (3, 4)] \<and>
   (\<Union>r \<in> {(0, 1), (3, 4)}. range_ids r) = {..<5} - marked (snd (bitmap_set 2 (bitmap_new 5)))"
proof -
  have m: "missing_ranges (snd (bitmap_set 2 (bitmap_new 5))) = [(0, 1), (3, 4)]"
    by code_simp
  have t: "bm_total (snd (bitmap_set 2 (bitmap_new 5))) = 5"
    by code_simp
  show ?thesis
    using missing_ranges_exact [of "snd (bitmap_set 2 (bitmap_new 5))"] m t by simp
qed

text \<open>
  C10. The bitmap implements a set of packet indices below a length: a new, default or reset bitmap
  is the empty set of its length; growing keeps the set and raises the length; setting adds an index
  below the length and reports whether it was new; clearing removes an index and reports whether it
  was there; membership, completeness of the first \<open>n\<close> and of the whole are those of the set; and
  the missing ranges are the maximal runs of indices below the length that are not in it. Every
  operation keeps the invariant, under which every word index is in range and \<open>received\<close> is the
  size of the set. (A packet count above \<open>2 ^ 32\<close> does not fit the \<open>u32\<close> ranges.)
\<close>

theorem bitmap_refines_set:
  assumes "bitmap_inv b"
  shows "(bitmap_inv (bitmap_new n) \<and> marked (bitmap_new n) = {} \<and> bitmap_len (bitmap_new n) = n) \<and>
    (bitmap_inv bitmap_default \<and> marked bitmap_default = {} \<and> bitmap_len bitmap_default = 0) \<and>
    (bitmap_inv (bitmap_reset n b) \<and> marked (bitmap_reset n b) = {} \<and> bitmap_len (bitmap_reset n b) = n) \<and>
    (bitmap_inv (bitmap_grow n b) \<and> marked (bitmap_grow n b) = marked b \<and>
     bitmap_len (bitmap_grow n b) = max n (bitmap_len b)) \<and>
    (bitmap_inv (snd (bitmap_set i b)) \<and> bitmap_len (snd (bitmap_set i b)) = bitmap_len b \<and>
     marked (snd (bitmap_set i b)) = (if i < bitmap_len b then insert i (marked b) else marked b) \<and>
     (fst (bitmap_set i b) \<longleftrightarrow> i < bitmap_len b \<and> i \<notin> marked b)) \<and>
    (bitmap_inv (snd (bitmap_clear i b)) \<and> bitmap_len (snd (bitmap_clear i b)) = bitmap_len b \<and>
     marked (snd (bitmap_clear i b)) = marked b - {i} \<and> (fst (bitmap_clear i b) \<longleftrightarrow> i \<in> marked b)) \<and>
    (bitmap_contains b i \<longleftrightarrow> i \<in> marked b) \<and> (bitmap_is_empty b \<longleftrightarrow> bitmap_len b = 0) \<and>
    marked b \<subseteq> {..<bitmap_len b} \<and> bm_received b = card (marked b) \<and>
    (first_n_complete b n \<longleftrightarrow> {..<n} \<subseteq> marked b) \<and>
    (bitmap_is_complete b \<longleftrightarrow> marked b = {..<bitmap_len b}) \<and>
    (bitmap_len b \<le> 2 ^ 32 \<longrightarrow>
       (\<Union>r \<in> set (missing_ranges b). range_ids r) = {..<bitmap_len b} - marked b \<and> apart (missing_ranges b))"
proof -
  have new: "bitmap_inv (bitmap_new m) \<and> marked (bitmap_new m) = {} \<and> bitmap_len (bitmap_new m) = m" for m
    using new_marked [of m] by (simp add: bitmap_len_def) (simp add: bitmap_new_def)
  have beyond: "bitmap_set i b = (False, b)" if "\<not> i < bitmap_len b"
    using that by (simp add: bitmap_set_def bitmap_len_def)
  have at: "bitmap_inv (snd (bitmap_set i b)) \<and> bitmap_len (snd (bitmap_set i b)) = bitmap_len b \<and>
    marked (snd (bitmap_set i b)) = (if i < bitmap_len b then insert i (marked b) else marked b) \<and>
    (fst (bitmap_set i b) \<longleftrightarrow> i < bitmap_len b \<and> i \<notin> marked b)"
  proof (cases "i < bitmap_len b")
    case True
    with set_marked [OF assms, of i] show ?thesis by (simp add: bitmap_len_def)
  qed (simp add: beyond assms)
  have "card (marked b) = bm_total b \<longleftrightarrow> marked b = {..<bm_total b}"
    using marked_bounded [of b] card_subset_eq [of "{..<bm_total b}" "marked b"]
    by (metis card_lessThan finite_lessThan)
  then have whole: "bitmap_is_complete b \<longleftrightarrow> marked b = {..<bitmap_len b}"
    using assms by (simp add: bitmap_is_complete_def bitmap_inv_def bitmap_len_def)
  have count: "bm_received b = card (marked b)" using assms by (simp add: bitmap_inv_def)
  show ?thesis
    using new at whole count grow_marked [OF assms, of n] clear_marked [OF assms, of i]
      first_n_marked [OF assms, of n] marked_bounded [of b] impI [OF missing_ranges_exact [of b]]
    by (simp only: reset_eq_new default_eq_new contains_marked bitmap_len_def bitmap_is_empty_def
        simp_thms if_True)
qed

theorem bitmap_refines_set_witness:
  "marked (bitmap_new 70) = {} \<and> marked (snd (bitmap_set 65 (bitmap_new 70))) = {65} \<and>
   bitmap_len (bitmap_grow 100 (bitmap_new 70)) = 100 \<and>
   (\<Union>r \<in> set (missing_ranges (bitmap_new 70)). range_ids r) = {..<70}"
proof -
  have "bitmap_len (bitmap_new 70) = 70" by (simp add: bitmap_len_def bitmap_new_def)
  then show ?thesis
    using bitmap_refines_set [where b = "bitmap_new 70" and i = 65 and n = 100, OF new_marked(1)]
    by (simp add: new_marked)
qed

end
