(* ===== verification/Stream_Stats.thy ===== *)
theory Stream_Stats
  imports Prelude
begin

text \<open>
  The counters of one stream (\<^verbatim>\<open>crates/viva-genicam/src/stream/stats.rs\<close>). Each counter is an
  \<open>AtomicU64\<close> written by one thread with \<open>fetch_add\<close>, which wraps, so each is a 64-bit word
  here. The smoothed rates (\<open>f64\<close> divisions by elapsed time) are not modelled.
\<close>

record stream_stats =
  st_frames_complete :: u64
  st_frames_incomplete :: u64
  st_frames_missed :: u64
  st_frames_backpressure :: u64
  st_frames_unsupported :: u64
  st_packets_received :: u64
  st_packets_duplicate :: u64
  st_packets_missing :: u64
  st_ignored_malformed :: u64
  st_ignored_unsupported :: u64
  st_ignored_out_of_range :: u64
  st_ignored_late :: u64
  st_ignored_error_status :: u64
  st_ignored_foreign :: u64
  st_packets_size_mismatch :: u64
  st_resend_requested :: u64
  st_resend_recovered :: u64
  st_resend_unavailable :: u64
  st_transfer_errors :: u64
  st_bytes :: u64

definition stats_new :: stream_stats where
  "stats_new =
     \<lparr>st_frames_complete = 0, st_frames_incomplete = 0, st_frames_missed = 0,
      st_frames_backpressure = 0, st_frames_unsupported = 0, st_packets_received = 0,
      st_packets_duplicate = 0, st_packets_missing = 0, st_ignored_malformed = 0,
      st_ignored_unsupported = 0, st_ignored_out_of_range = 0, st_ignored_late = 0,
      st_ignored_error_status = 0, st_ignored_foreign = 0, st_packets_size_mismatch = 0,
      st_resend_requested = 0, st_resend_recovered = 0, st_resend_unavailable = 0,
      st_transfer_errors = 0, st_bytes = 0\<rparr>"

datatype ignored_packet =
  IgnMalformed | IgnUnsupported | IgnOutOfRange | IgnLate | IgnErrorStatus | IgnForeign

definition record_packet_received :: "stream_stats \<Rightarrow> stream_stats" where
  "record_packet_received s = s\<lparr>st_packets_received := st_packets_received s + 1\<rparr>"

definition record_packets_received :: "u64 \<Rightarrow> stream_stats \<Rightarrow> stream_stats" where
  "record_packets_received n s = s\<lparr>st_packets_received := st_packets_received s + n\<rparr>"

definition record_malformed_packets :: "u64 \<Rightarrow> stream_stats \<Rightarrow> stream_stats" where
  "record_malformed_packets n s = s\<lparr>st_ignored_malformed := st_ignored_malformed s + n\<rparr>"

definition record_transfer_errors :: "u64 \<Rightarrow> stream_stats \<Rightarrow> stream_stats" where
  "record_transfer_errors n s = s\<lparr>st_transfer_errors := st_transfer_errors s + n\<rparr>"

definition record_duplicate_packet :: "stream_stats \<Rightarrow> stream_stats" where
  "record_duplicate_packet s = s\<lparr>st_packets_duplicate := st_packets_duplicate s + 1\<rparr>"

fun record_ignored_packet :: "ignored_packet \<Rightarrow> stream_stats \<Rightarrow> stream_stats" where
  "record_ignored_packet IgnMalformed s = s\<lparr>st_ignored_malformed := st_ignored_malformed s + 1\<rparr>"
| "record_ignored_packet IgnUnsupported s = s\<lparr>st_ignored_unsupported := st_ignored_unsupported s + 1\<rparr>"
| "record_ignored_packet IgnOutOfRange s = s\<lparr>st_ignored_out_of_range := st_ignored_out_of_range s + 1\<rparr>"
| "record_ignored_packet IgnLate s = s\<lparr>st_ignored_late := st_ignored_late s + 1\<rparr>"
| "record_ignored_packet IgnErrorStatus s = s\<lparr>st_ignored_error_status := st_ignored_error_status s + 1\<rparr>"
| "record_ignored_packet IgnForeign s = s\<lparr>st_ignored_foreign := st_ignored_foreign s + 1\<rparr>"

definition record_size_mismatch :: "stream_stats \<Rightarrow> stream_stats" where
  "record_size_mismatch s = s\<lparr>st_packets_size_mismatch := st_packets_size_mismatch s + 1\<rparr>"

definition record_resend_requested :: "u64 \<Rightarrow> stream_stats \<Rightarrow> stream_stats" where
  "record_resend_requested n s = s\<lparr>st_resend_requested := st_resend_requested s + n\<rparr>"

definition record_resend_recovered :: "stream_stats \<Rightarrow> stream_stats" where
  "record_resend_recovered s = s\<lparr>st_resend_recovered := st_resend_recovered s + 1\<rparr>"

definition record_resend_unavailable :: "u64 \<Rightarrow> stream_stats \<Rightarrow> stream_stats" where
  "record_resend_unavailable n s = s\<lparr>st_resend_unavailable := st_resend_unavailable s + n\<rparr>"

definition record_missing_packets :: "u64 \<Rightarrow> stream_stats \<Rightarrow> stream_stats" where
  "record_missing_packets n s = s\<lparr>st_packets_missing := st_packets_missing s + n\<rparr>"

text \<open>The counters of \<open>record_frame\<close>; its rates are left out.\<close>

definition record_frame :: "nat \<Rightarrow> stream_stats \<Rightarrow> stream_stats" where
  "record_frame n s = s\<lparr>st_frames_complete := st_frames_complete s + 1, st_bytes := st_bytes s + word_of_nat n\<rparr>"

definition record_incomplete_frame :: "stream_stats \<Rightarrow> stream_stats" where
  "record_incomplete_frame s = s\<lparr>st_frames_incomplete := st_frames_incomplete s + 1\<rparr>"

definition record_missed_frames :: "u64 \<Rightarrow> stream_stats \<Rightarrow> stream_stats" where
  "record_missed_frames n s = s\<lparr>st_frames_missed := st_frames_missed s + n\<rparr>"

definition record_backpressure_drop :: "stream_stats \<Rightarrow> stream_stats" where
  "record_backpressure_drop s = s\<lparr>st_frames_backpressure := st_frames_backpressure s + 1\<rparr>"

definition record_unsupported_block :: "stream_stats \<Rightarrow> stream_stats" where
  "record_unsupported_block s = s\<lparr>st_frames_unsupported := st_frames_unsupported s + 1\<rparr>"

definition frames_lost :: "stream_stats \<Rightarrow> u64" where
  "frames_lost s = st_frames_incomplete s + st_frames_missed s + st_frames_backpressure s"

definition packets_ignored :: "stream_stats \<Rightarrow> u64" where
  "packets_ignored s =
     st_ignored_malformed s + st_ignored_unsupported s + st_ignored_out_of_range s +
     st_ignored_late s + st_ignored_error_status s + st_ignored_foreign s"

lemmas stats_defs = record_packet_received_def record_packets_received_def record_malformed_packets_def
  record_transfer_errors_def record_duplicate_packet_def record_size_mismatch_def
  record_resend_requested_def record_resend_recovered_def record_resend_unavailable_def
  record_missing_packets_def record_frame_def record_incomplete_frame_def record_missed_frames_def
  record_backpressure_drop_def record_unsupported_block_def

text \<open>Every ignored packet is counted once, whatever the reason.\<close>

lemma packets_ignored_step: "packets_ignored (record_ignored_packet r s) = packets_ignored s + 1"
  by (cases r) (simp_all add: packets_ignored_def)

end
