(* ===== verification/Assembly.thy ===== *)
theory Assembly
  imports Gvsp_Packet Gige_Status U3v_Status Packet_Bitmap Resend Stream_Stats
begin

text \<open>
  The block assembler (\<^verbatim>\<open>crates/viva-genicam/src/stream/assembly.rs\<close>): it takes one datagram at
  a time with the instant it arrived, keeps up to three blocks in flight, and hands out finished
  blocks in the order they started.

  The state is explicit: a method on \<open>&mut self\<close> is a function from assembler to assembler, and a
  method that appends to \<open>out\<close> returns the list it appends. Packet ids are read as \<open>nat\<close> from
  their 32-bit words and instants are nanoseconds. The buffer source is the default one, which
  allocates zeroed bytes. Log messages are not modelled; the flags that make a warning appear
  once are.
\<close>

section \<open>Constants and geometry\<close>

definition IPV4_HEADER_LEN :: nat where "IPV4_HEADER_LEN = 20"
definition UDP_HEADER_LEN :: nat where "UDP_HEADER_LEN = 8"
definition MAX_IN_FLIGHT :: nat where "MAX_IN_FLIGHT = 3"
definition DEFAULT_BLOCK_TIMEOUT :: duration where "DEFAULT_BLOCK_TIMEOUT = 100000000"
definition LATE_WINDOW :: nat where "LATE_WINDOW = 100"
definition ESTIMATE_CAP :: nat where "ESTIMATE_CAP = 256 * 2 ^ 20"
definition STATUS_ERROR :: u16 where "STATUS_ERROR = 0x8000"
definition U64_MAX :: nat where "U64_MAX = 2 ^ 64 - 1"

definition payload_stride :: "u32 \<Rightarrow> nat \<Rightarrow> nat" where
  "payload_stride packet_size header_len =
     unat packet_size - (IPV4_HEADER_LEN + UDP_HEADER_LEN + header_len)"

text \<open>The products below \<open>2 ^ 64\<close> are exact; the last two steps saturate, as in the source.\<close>

definition geometry_size :: "image_leader \<Rightarrow> nat" where
  "geometry_size img =
     (let bits = unat (drop_bit 16 (img_pixel_format img) AND 0xFF);
          bits = (if bits = 0 then 8 else bits);
          line = div_ceil (unat (img_width img) * bits) 8 + unat (img_padding_x img) in
      min (min (line * unat (img_height img)) U64_MAX + unat (img_padding_y img)) U64_MAX)"

definition acquire :: "nat \<Rightarrow> bytes" where
  "acquire len = replicate len 0"

section \<open>State\<close>

record assembly_config =
  ac_packet_size :: u32
  ac_payload_size :: "nat option"
  ac_block_timeout :: duration
  ac_resend :: resend_config

definition assembly_config_new :: "u32 \<Rightarrow> assembly_config" where
  "assembly_config_new packet_size =
     \<lparr>ac_packet_size = packet_size, ac_payload_size = None,
      ac_block_timeout = DEFAULT_BLOCK_TIMEOUT, ac_resend = resend_config_default\<rparr>"

record leader_info =
  li_timestamp :: u64
  li_pixel_format :: u32
  li_width :: u32
  li_height :: u32
  li_padding_x :: u16

datatype frame_status =
    Complete
  | Incomplete (missing_packets: nat)
  | DeviceStatus gige_status
  | U3vDeviceStatus u3v_status
  | TrailerMissing

definition is_complete :: "frame_status \<Rightarrow> bool" where
  "is_complete s \<longleftrightarrow> s = Complete"

record assembled_block =
  ab_block_id :: u64
  ab_status :: frame_status
  ab_leader :: "leader_info option"
  ab_payload_type :: u16
  ab_payload :: bytes
  ab_trailer_size_y :: "u32 option"
  ab_expected_size :: "nat option"
  ab_last_packet :: instant

record trailer_info =
  ti_last_payload_id :: nat
  ti_size_y :: u32
  ti_payload_type :: u16

datatype resolution = RFrame frame_status | RUnsupported

record block_in_flight =
  bf_block_id :: u64
  bf_extended_ids :: bool
  bf_resend :: "resend_state option"
  bf_last_packet :: instant
  bf_leader :: "leader_info option"
  bf_leader_payload_type :: "u16 option"
  bf_unsupported :: bool
  bf_trailer :: "trailer_info option"
  bf_buffer :: bytes
  bf_planned :: nat
  bf_extent :: nat
  bf_bitmap :: packet_bitmap
  bf_highest_payload_id :: nat
  bf_any_payload :: bool
  bf_short_packet :: "(nat \<times> nat \<times> nat) option"
  bf_resolved :: "resolution option"

record warned =
  wn_size_mismatch :: bool
  wn_out_of_range :: bool
  wn_unsupported :: bool

record assembler =
  as_config :: assembly_config
  as_stats :: stream_stats
  as_in_flight :: "block_in_flight list"
  as_last_block_id :: "u64 option"
  as_spare_bitmaps :: "packet_bitmap list"
  as_largest_estimate :: nat
  as_warned :: warned

definition assembler_new :: "assembly_config \<Rightarrow> stream_stats \<Rightarrow> assembler" where
  "assembler_new config stats =
     \<lparr>as_config = config, as_stats = stats, as_in_flight = [], as_last_block_id = None,
      as_spare_bitmaps = [], as_largest_estimate = 0,
      as_warned = \<lparr>wn_size_mismatch = False, wn_out_of_range = False, wn_unsupported = False\<rparr>\<rparr>"

definition set_config :: "assembly_config \<Rightarrow> assembler \<Rightarrow> assembler" where
  "set_config config a = a\<lparr>as_config := config\<rparr>"

definition frame_size_hint :: "assembler \<Rightarrow> nat option" where
  "frame_size_hint a =
     (case ac_payload_size (as_config a) of
        Some sz \<Rightarrow> Some (max sz (as_largest_estimate a))
      | None \<Rightarrow> if as_largest_estimate a > 0 then Some (as_largest_estimate a) else None)"

text \<open>\<open>let block = &mut self.in_flight[index]\<close>, and a call on \<open>self.stats\<close>.\<close>

definition set_block :: "nat \<Rightarrow> block_in_flight \<Rightarrow> assembler \<Rightarrow> assembler" where
  "set_block idx block a = a\<lparr>as_in_flight := (as_in_flight a)[idx := block]\<rparr>"

definition count :: "(stream_stats \<Rightarrow> stream_stats) \<Rightarrow> assembler \<Rightarrow> assembler" where
  "count f a = a\<lparr>as_stats := f (as_stats a)\<rparr>"

section \<open>Block order\<close>

datatype order = Unordered | Next (missed: u64) | Late | Restart

text \<open>\<open>rem_euclid\<close> of a positive modulus is HOL's \<open>mod\<close> on \<open>int\<close>. Ids here are 16-bit, so the
  cast to \<open>i64\<close> is exact.\<close>

definition distance16 :: "u64 \<Rightarrow> u64 \<Rightarrow> int" where
  "distance16 last_id next_id =
     (let pos = (\<lambda>b :: u64. (sint b - 1) mod 65535);
          d = (pos next_id - pos last_id) mod 65535 in
      if d > 65535 div 2 then d - 65535 else d)"

definition classify :: "u64 option \<Rightarrow> u64 \<Rightarrow> bool \<Rightarrow> bool \<Rightarrow> order" where
  "classify last_id next_id extended_ids is_leader =
     (case last_id of
        None \<Rightarrow> Unordered
      | Some l \<Rightarrow>
          if next_id = 0 \<and> \<not> extended_ids then Unordered
          else
            let d = (if extended_ids then sint (next_id - l) else distance16 l next_id) in
            if next_id = 1 \<and> is_leader \<and> d \<noteq> 1 \<and> d \<noteq> 0 then Restart
            else if d > 0 then Next (word_of_int d - 1)
            else if \<bar>d\<bar> \<le> int LATE_WINDOW then Late
            else Restart)"

definition resend_answer :: "u16 \<Rightarrow> answer option option" where
  "resend_answer status =
     (case gige_from_raw status of
        Own PacketUnavailable \<Rightarrow> Some (Some Gone)
      | Own PacketRemovedFromMemory \<Rightarrow> Some (Some Gone)
      | Own PacketAndPreviousRemovedFromMemory \<Rightarrow> Some (Some GoneWithPrevious)
      | Own PacketNotYetAvailable \<Rightarrow> Some None
      | Own PacketTemporarilyUnavailable \<Rightarrow> Some None
      | _ \<Rightarrow> None)"

section \<open>Counting and warning\<close>

definition ignore_unsupported :: "assembler \<Rightarrow> assembler" where
  "ignore_unsupported a =
     count (record_ignored_packet IgnUnsupported)
       (a\<lparr>as_warned := (as_warned a)\<lparr>wn_unsupported := True\<rparr>\<rparr>)"

definition out_of_range :: "assembler \<Rightarrow> assembler" where
  "out_of_range a =
     count (record_ignored_packet IgnOutOfRange)
       (a\<lparr>as_warned := (as_warned a)\<lparr>wn_out_of_range := True\<rparr>\<rparr>)"

definition size_mismatch :: "assembler \<Rightarrow> assembler" where
  "size_mismatch a =
     count record_size_mismatch (a\<lparr>as_warned := (as_warned a)\<lparr>wn_size_mismatch := True\<rparr>\<rparr>)"

definition touch :: "u64 \<Rightarrow> instant \<Rightarrow> assembler \<Rightarrow> assembler" where
  "touch block_id now a =
     (case position (\<lambda>b. bf_block_id b = block_id) (as_in_flight a) of
        Some idx \<Rightarrow> set_block idx ((as_in_flight a ! idx)\<lparr>bf_last_packet := now\<rparr>) a
      | None \<Rightarrow> a)"

section \<open>Closing and handing out blocks\<close>

definition missing_with_trailer :: "block_in_flight \<Rightarrow> nat" where
  "missing_with_trailer block =
     (let last_id = (case bf_trailer block of None \<Rightarrow> 0 | Some t \<Rightarrow> ti_last_payload_id t);
          tracked = min last_id (bitmap_len (bf_bitmap block));
          holes = length (filter (\<lambda>slot. \<not> bitmap_contains (bf_bitmap block) slot) [0..<tracked])
                  + (last_id - tracked);
          missing = holes + (if bf_leader_payload_type block = None then 1 else 0) in
      min missing U32_MAX)"

definition expected_size :: "block_in_flight \<Rightarrow> frame_status \<Rightarrow> u32 \<Rightarrow> nat option" where
  "expected_size block status packet_size =
     (if is_complete status then Some (bf_extent block)
      else
        let header_len = (if bf_extended_ids block then GVSP_EXTENDED_HEADER_SIZE else GVSP_HEADER_SIZE);
            stride = max (payload_stride packet_size header_len) 1;
            trailer_bound =
              map_option (\<lambda>t. (ti_last_payload_id t, min (ti_last_payload_id t * stride) U64_MAX))
                (bf_trailer block) in
        if (case trailer_bound of
              Some (last_id, _) \<Rightarrow> last_id > 0 \<and> bitmap_contains (bf_bitmap block) (last_id - 1)
            | None \<Rightarrow> False)
        then Some (bf_extent block)
        else if bf_planned block = 0 then None
        else
          let planned = (case trailer_bound of
                Some (_, bound) \<Rightarrow> if bound > 0 then min (bf_planned block) bound else bf_planned block
              | None \<Rightarrow> bf_planned block) in
          Some (max planned (bf_extent block)))"

definition close :: "nat \<Rightarrow> assembler \<Rightarrow> assembler" where
  "close idx a =
     (let block = as_in_flight a ! idx in
      if bf_unsupported block then set_block idx (block\<lparr>bf_resolved := Some RUnsupported\<rparr>) a
      else if bf_trailer block \<noteq> None then
        let missing = missing_with_trailer block in
        set_block idx (block\<lparr>bf_resolved := Some (RFrame (Incomplete missing))\<rparr>)
          (count (record_missing_packets (word_of_nat missing)) a)
      else
        let holes = length (filter (\<lambda>slot. \<not> bitmap_contains (bf_bitmap block) slot)
                      [0..<bf_highest_payload_id block]);
            lost_leader = (if bf_leader_payload_type block = None then 1 else 0) in
        set_block idx (block\<lparr>bf_resolved := Some (RFrame TrailerMissing)\<rparr>)
          (count (record_missing_packets (word_of_nat (holes + 1 + lost_leader))) a))"

text \<open>The block \<open>emit\<close> pushes, and its loop over the resolved blocks at the front.\<close>

definition assembled :: "u32 \<Rightarrow> block_in_flight \<Rightarrow> frame_status \<Rightarrow> assembled_block" where
  "assembled packet_size block status =
     \<lparr>ab_block_id = bf_block_id block, ab_status = status, ab_leader = bf_leader block,
      ab_payload_type =
        (case bf_leader_payload_type block of
           Some p \<Rightarrow> p
         | None \<Rightarrow> (case bf_trailer block of Some t \<Rightarrow> ti_payload_type t | None \<Rightarrow> 0)),
      ab_payload = take (bf_extent block) (bf_buffer block),
      ab_trailer_size_y = map_option ti_size_y (bf_trailer block),
      ab_expected_size = expected_size block status packet_size,
      ab_last_packet = bf_last_packet block\<rparr>"

fun emit_loop :: "u32 \<Rightarrow> block_in_flight list \<Rightarrow> packet_bitmap list \<Rightarrow> stream_stats \<Rightarrow>
    block_in_flight list \<times> packet_bitmap list \<times> stream_stats \<times> assembled_block list" where
  "emit_loop packet_size [] spare stats = ([], spare, stats, [])"
| "emit_loop packet_size (block # blocks) spare stats =
     (case bf_resolved block of
        None \<Rightarrow> (block # blocks, spare, stats, [])
      | Some RUnsupported \<Rightarrow>
          emit_loop packet_size blocks (bf_bitmap block # spare) (record_unsupported_block stats)
      | Some (RFrame status) \<Rightarrow>
          (let (blocks', spare', stats', out) = emit_loop packet_size blocks (bf_bitmap block # spare) stats in
           (blocks', spare', stats', assembled packet_size block status # out)))"

definition emit :: "assembler \<Rightarrow> assembler \<times> assembled_block list" where
  "emit a =
     (let (blocks, spare, stats, out) =
            emit_loop (ac_packet_size (as_config a)) (as_in_flight a) (as_spare_bitmaps a) (as_stats a) in
      (a\<lparr>as_in_flight := blocks, as_spare_bitmaps := spare, as_stats := stats\<rparr>, out))"

section \<open>Starting a block\<close>

text \<open>The in-flight limit of \<open>admit\<close>. Each round closes and hands out the oldest block.\<close>

lemma emit_loop_shorter:
  "emit_loop ps bs sp st = (bs', r) \<Longrightarrow> length bs' \<le> length bs \<and>
     (bs \<noteq> [] \<and> bf_resolved (hd bs) \<noteq> None \<longrightarrow> length bs' < length bs)"
  by (induction ps bs sp st arbitrary: bs' r rule: emit_loop.induct)
    (fastforce split: option.splits resolution.splits prod.splits)+

lemma length_close [simp]: "length (as_in_flight (close idx a)) = length (as_in_flight a)"
  by (simp add: close_def set_block_def count_def Let_def)

lemma close_resolved:
  "idx < length (as_in_flight a) \<Longrightarrow> bf_resolved (as_in_flight (close idx a) ! idx) \<noteq> None"
  by (simp add: close_def set_block_def count_def Let_def)

definition close_oldest :: "assembler \<Rightarrow> assembler" where
  "close_oldest a = (if bf_resolved (as_in_flight a ! 0) = None then close 0 a else a)"

lemma emit_oldest_shorter:
  assumes "as_in_flight a \<noteq> []"
  shows "length (as_in_flight (fst (emit (close_oldest a)))) < length (as_in_flight a)"
proof -
  let ?a = "close_oldest a"
  have len: "length (as_in_flight ?a) = length (as_in_flight a)" by (simp add: close_oldest_def)
  then have ne: "as_in_flight ?a \<noteq> []" using assms by auto
  have "bf_resolved (as_in_flight ?a ! 0) \<noteq> None"
    using assms close_resolved [of 0 a] by (simp add: close_oldest_def)
  then have "bf_resolved (hd (as_in_flight ?a)) \<noteq> None" using ne by (simp add: hd_conv_nth)
  then show ?thesis
    using ne emit_loop_shorter [of _ "as_in_flight ?a"] len
    by (auto simp: emit_def Let_def split: prod.splits)
qed

function make_room :: "assembler \<Rightarrow> assembler \<times> assembled_block list" where
  "make_room a =
     (if length (as_in_flight a) \<ge> MAX_IN_FLIGHT then
        let (a', out) = emit (close_oldest a); (a'', out') = make_room a' in (a'', out @ out')
      else (a, []))"
  by pat_completeness auto
termination
proof (relation "measure (\<lambda>a. length (as_in_flight a))")
  fix a x a' out
  assume "MAX_IN_FLIGHT \<le> length (as_in_flight a)" and x: "x = emit (close_oldest a)" "(a', out) = x"
  then have "as_in_flight a \<noteq> []" by (auto simp: MAX_IN_FLIGHT_def)
  from emit_oldest_shorter [OF this] x show "(a', a) \<in> measure (\<lambda>a. length (as_in_flight a))"
    by (metis fst_conv in_measure)
qed simp

declare make_room.simps [simp del]

definition block_new :: "gvsp_header \<Rightarrow> instant \<Rightarrow> bool \<Rightarrow> bytes \<Rightarrow> packet_bitmap \<Rightarrow> block_in_flight" where
  "block_new header now resend_enabled buffer bitmap =
     \<lparr>bf_block_id = hdr_block_id header, bf_extended_ids = hdr_extended_ids header,
      bf_resend = (if resend_enabled then Some resend_default else None),
      bf_last_packet = now, bf_leader = None, bf_leader_payload_type = None,
      bf_unsupported = False, bf_trailer = None, bf_buffer = buffer,
      bf_planned = length buffer, bf_extent = 0, bf_bitmap = bitmap,
      bf_highest_payload_id = 0, bf_any_payload = False, bf_short_packet = None,
      bf_resolved = None\<rparr>"

text \<open>What \<open>admit\<close> does with the order of a block it has not seen: count, and move the newest id.\<close>

definition note_order :: "gvsp_header \<Rightarrow> order \<Rightarrow> assembler \<Rightarrow> assembler" where
  "note_order header ord a =
     (case ord of
        Late \<Rightarrow> a
      | Next m \<Rightarrow>
          (if m > 0 then count (record_missed_frames m) a else a)
            \<lparr>as_last_block_id := Some (hdr_block_id header)\<rparr>
      | Restart \<Rightarrow> a\<lparr>as_last_block_id := Some (hdr_block_id header)\<rparr>
      | Unordered \<Rightarrow>
          if hdr_block_id header \<noteq> 0 \<or> hdr_extended_ids header
          then a\<lparr>as_last_block_id := Some (hdr_block_id header)\<rparr> else a)"

definition push_block :: "gvsp_header \<Rightarrow> instant \<Rightarrow> assembler \<Rightarrow> assembler" where
  "push_block header now a =
     (let config = as_config a;
          stride = max (payload_stride (ac_packet_size config) (hdr_header_len header)) 1;
          (buffer, packets) = (case ac_payload_size config of
             Some sz \<Rightarrow> (acquire sz, div_ceil sz stride)
           | None \<Rightarrow> ([], 0));
          (spare, spares) = (case as_spare_bitmaps a of
             [] \<Rightarrow> (bitmap_default, [])
           | b # bs \<Rightarrow> (b, bs));
          block = block_new header now (rc_enabled (ac_resend config)) buffer (bitmap_reset packets spare) in
      a\<lparr>as_spare_bitmaps := spares, as_in_flight := as_in_flight a @ [block]\<rparr>)"

definition admit :: "gvsp_header \<Rightarrow> bool \<Rightarrow> instant \<Rightarrow> assembler \<Rightarrow>
    nat option \<times> assembler \<times> assembled_block list" where
  "admit header is_leader now a =
     (case position (\<lambda>b. bf_block_id b = hdr_block_id header) (as_in_flight a) of
        Some idx \<Rightarrow> (Some idx, a, [])
      | None \<Rightarrow>
          let ord = classify (as_last_block_id a) (hdr_block_id header) (hdr_extended_ids header) is_leader in
          if ord = Late then (None, a, [])
          else
            let (a, out) = make_room (note_order header ord a);
                a = push_block header now a in
            (Some (length (as_in_flight a) - 1), a, out))"

section \<open>Leader, data and trailer\<close>

definition on_leader :: "nat \<Rightarrow> gvsp_leader \<Rightarrow> assembler \<Rightarrow> assembler" where
  "on_leader idx ldr a =
     (let block = as_in_flight a ! idx; payload_type = ldr_payload_type ldr in
      if bf_leader_payload_type block \<noteq> None then count record_duplicate_packet a
      else let block = block\<lparr>bf_leader_payload_type := Some payload_type\<rparr> in
      if is_chunk_data_payload payload_type then
        set_block idx (block\<lparr>bf_leader := Some \<lparr>li_timestamp = ldr_timestamp ldr, li_pixel_format = 0,
          li_width = 0, li_height = 0, li_padding_x = 0\<rparr>\<rparr>) a
      else
        (case (if is_image_payload payload_type then ldr_image ldr else None) of
           None \<Rightarrow>
             ignore_unsupported
               (set_block idx (block\<lparr>bf_unsupported := True, bf_resend := None, bf_buffer := []\<rparr>) a)
         | Some img \<Rightarrow>
             let estimate = min (geometry_size img) ESTIMATE_CAP;
                 block = block\<lparr>bf_leader := Some \<lparr>li_timestamp = ldr_timestamp ldr,
                     li_pixel_format = img_pixel_format img, li_width = img_width img,
                     li_height = img_height img, li_padding_x = img_padding_x img\<rparr>,
                   bf_planned := max (bf_planned block) estimate,
                   bf_buffer :=
                     (if length (bf_buffer block) < estimate then
                        if bf_buffer block = [] then acquire estimate
                        else resize estimate 0 (bf_buffer block)
                      else bf_buffer block)\<rparr> in
             (set_block idx block a)\<lparr>as_largest_estimate := max (as_largest_estimate a) estimate\<rparr>))"

definition buffer_limit :: "assembly_config \<Rightarrow> nat" where
  "buffer_limit config =
     max ESTIMATE_CAP (case ac_payload_size config of None \<Rightarrow> 0 | Some sz \<Rightarrow> sz)"

text \<open>\<open>buffer[offset..end].copy_from_slice(data)\<close>, with \<open>end = offset + data.len()\<close>.\<close>

definition write_at :: "nat \<Rightarrow> 'a list \<Rightarrow> 'a list \<Rightarrow> 'a list" where
  "write_at offset data buffer =
     take offset buffer @ data @ drop (offset + length data) buffer"

text \<open>The writes of \<open>on_payload\<close> to its block.\<close>

definition place_data :: "nat \<Rightarrow> nat \<Rightarrow> bytes \<Rightarrow> block_in_flight \<Rightarrow> block_in_flight" where
  "place_data packet_id stride data block =
     (let slot = packet_id - 1; offset = slot * stride; end_at = offset + length data;
          buffer = (if end_at > length (bf_buffer block) then resize end_at 0 (bf_buffer block)
                    else bf_buffer block) in
      block\<lparr>bf_buffer := write_at offset data buffer, bf_extent := max (bf_extent block) end_at,
            bf_bitmap := snd (bitmap_set slot (bitmap_grow (slot + 1) (bf_bitmap block))),
            bf_any_payload := True,
            bf_highest_payload_id := max (bf_highest_payload_id block) packet_id\<rparr>)"

text \<open>Its treatment of short packets: the pending one afterwards, and the ones refused.\<close>

definition judge_short :: "nat \<Rightarrow> nat \<Rightarrow> nat \<Rightarrow> block_in_flight \<Rightarrow>
    (nat \<times> nat \<times> nat) option \<times> (nat \<times> nat \<times> nat) list" where
  "judge_short packet_id len stride block =
     (let this = (packet_id, len, stride);
          (short, mismatches) =
            (if len < stride then
               (case bf_short_packet block of
                  Some pending \<Rightarrow>
                    if fst pending < packet_id then (Some this, [pending]) else (Some pending, [this])
                | None \<Rightarrow> (Some this, []))
             else (bf_short_packet block, []));
          known_last = map_option ti_last_payload_id (bf_trailer block) in
      case short of
        Some pending \<Rightarrow>
          if fst pending < bf_highest_payload_id block \<or>
             (case known_last of None \<Rightarrow> False | Some l \<Rightarrow> fst pending < l)
          then (None, mismatches @ [pending]) else (short, mismatches)
      | None \<Rightarrow> (short, mismatches))"

text \<open>\<open>refuse_short\<close> on its block: the bit cleared and the bytes zeroed.\<close>

definition take_out :: "nat \<Rightarrow> nat \<Rightarrow> nat \<Rightarrow> block_in_flight \<Rightarrow> block_in_flight" where
  "take_out packet_id len stride block =
     (let slot = packet_id - 1; (was_set, bitmap) = bitmap_clear slot (bf_bitmap block) in
      if was_set then
        let offset = slot * stride; end_at = min (offset + len) (length (bf_buffer block)) in
        block\<lparr>bf_bitmap := bitmap,
              bf_buffer := write_at (min offset end_at) (replicate (end_at - min offset end_at) 0)
                             (bf_buffer block)\<rparr>
      else block\<lparr>bf_bitmap := bitmap\<rparr>)"

definition refuse_short :: "nat \<Rightarrow> nat \<times> nat \<times> nat \<Rightarrow> assembler \<Rightarrow> assembler" where
  "refuse_short idx m a =
     (case m of (packet_id, len, stride) \<Rightarrow>
        size_mismatch (set_block idx (take_out packet_id len stride (as_in_flight a ! idx)) a))"

definition on_payload :: "nat \<Rightarrow> gvsp_header \<Rightarrow> bytes \<Rightarrow> assembler \<Rightarrow> bool \<times> assembler" where
  "on_payload idx header data a =
     (let block = as_in_flight a ! idx; packet_id = unat (hdr_packet_id header);
          stride = payload_stride (ac_packet_size (as_config a)) (hdr_header_len header) in
      if bf_unsupported block then (False, count (record_ignored_packet IgnUnsupported) a)
      else if packet_id = 0 \<or> stride = 0 then (False, count (record_ignored_packet IgnMalformed) a)
      else if (case bf_trailer block of None \<Rightarrow> False | Some t \<Rightarrow> packet_id > ti_last_payload_id t)
      then (False, out_of_range a)
      else if bitmap_contains (bf_bitmap block) (packet_id - 1)
      then (True, count record_duplicate_packet a)
      else if length data > stride then (True, size_mismatch a)
      else if (packet_id - 1) * stride + length data > buffer_limit (as_config a)
      then (False, out_of_range a)
      else
        let block = place_data packet_id stride data block;
            (short, mismatches) = judge_short packet_id (length data) stride block;
            a = set_block idx (block\<lparr>bf_short_packet := short\<rparr>) a in
        (True, fold (refuse_short idx) mismatches a))"

definition on_trailer :: "nat \<Rightarrow> gvsp_header \<Rightarrow> gvsp_trailer \<Rightarrow> assembler \<Rightarrow> assembler" where
  "on_trailer idx header tr a =
     (let block = as_in_flight a ! idx in
      if bf_trailer block \<noteq> None then count record_duplicate_packet a
      else
        let last_payload_id = unat (hdr_packet_id header) - 1;
            block = block\<lparr>bf_trailer := Some \<lparr>ti_last_payload_id = last_payload_id,
              ti_size_y = trl_size_y tr, ti_payload_type = trl_payload_type tr\<rparr>\<rparr> in
        if bf_unsupported block then set_block idx (block\<lparr>bf_resolved := Some RUnsupported\<rparr>) a
        else if hdr_status header AND STATUS_ERROR \<noteq> 0 then
          count (record_missing_packets (word_of_nat (missing_with_trailer block)))
            (set_block idx
              (block\<lparr>bf_resolved := Some (RFrame (DeviceStatus (gige_from_raw (hdr_status header))))\<rparr>) a)
        else
          let stride = max (payload_stride (ac_packet_size (as_config a)) (hdr_header_len header)) 1;
              block = block\<lparr>bf_bitmap := bitmap_grow
                (min last_payload_id (div_ceil (buffer_limit (as_config a)) stride)) (bf_bitmap block)\<rparr> in
          (case bf_short_packet block of
             Some short \<Rightarrow>
               if fst short < last_payload_id
               then refuse_short idx short (set_block idx (block\<lparr>bf_short_packet := None\<rparr>) a)
               else set_block idx block a
           | None \<Rightarrow> set_block idx block a))"

definition try_complete :: "nat \<Rightarrow> assembler \<Rightarrow> assembler" where
  "try_complete idx a =
     (let block = as_in_flight a ! idx in
      if bf_resolved block \<noteq> None \<or> bf_unsupported block \<or> bf_leader block = None then a
      else
        (case bf_trailer block of
           Some t \<Rightarrow>
             if first_n_complete (bf_bitmap block) (ti_last_payload_id t)
             then set_block idx (block\<lparr>bf_resolved := Some (RFrame Complete)\<rparr>) a else a
         | None \<Rightarrow> a))"

section \<open>Resend\<close>

definition track_arrival :: "nat \<Rightarrow> nat \<Rightarrow> bool \<Rightarrow> instant \<Rightarrow> assembler \<Rightarrow> assembler" where
  "track_arrival idx packet_id is_trl now a =
     (let block = as_in_flight a ! idx in
      case bf_resend block of
        None \<Rightarrow> a
      | Some st \<Rightarrow>
          let (recovered, st) = arrived packet_id now (rc_delay (ac_resend (as_config a))) st;
              a = (if recovered then count record_resend_recovered a else a);
              st = (if is_trl then resend_trailer packet_id st else st) in
          set_block idx (block\<lparr>bf_resend := Some st\<rparr>) a)"

definition on_resend_answer :: "gvsp_header \<Rightarrow> answer option \<Rightarrow> assembler \<Rightarrow> assembler" where
  "on_resend_answer header ans a =
     (case (position (\<lambda>b. bf_block_id b = hdr_block_id header \<and> bf_resolved b = None) (as_in_flight a), ans) of
        (Some idx, Some ans) \<Rightarrow>
          (let block = as_in_flight a ! idx in
           case bf_resend block of
             None \<Rightarrow> a
           | Some st \<Rightarrow>
               let (gone, st) = unavailable (unat (hdr_packet_id header)) ans st;
                   a = set_block idx (block\<lparr>bf_resend := Some st\<rparr>) a in
               if gone > 0 then count (record_resend_unavailable (word_of_nat gone)) a else a)
      | _ \<Rightarrow> a)"

text \<open>The packets a block is taken to have, for its resend budget.\<close>

definition block_packets :: "u32 \<Rightarrow> block_in_flight \<Rightarrow> resend_state \<Rightarrow> nat" where
  "block_packets packet_size block st =
     (let header_len = (if bf_extended_ids block then GVSP_EXTENDED_HEADER_SIZE else GVSP_HEADER_SIZE);
          stride = max (payload_stride packet_size header_len) 1 in
      case bf_trailer block of
        Some t \<Rightarrow> ti_last_payload_id t + 2
      | None \<Rightarrow> if bf_buffer block \<noteq> [] then div_ceil (length (bf_buffer block)) stride + 2
                else rs_frontier st + 1)"

fun resend_loop :: "instant \<Rightarrow> assembly_config \<Rightarrow> block_in_flight list \<Rightarrow> stream_stats \<Rightarrow>
    block_in_flight list \<times> stream_stats \<times> resend_request list" where
  "resend_loop now config [] stats = ([], stats, [])"
| "resend_loop now config (block # blocks) stats =
     (case (bf_resolved block, bf_resend block) of
        (None, Some st) \<Rightarrow>
          (let (report, st', out) = due now (ac_resend config) (block_packets (ac_packet_size config) block st)
                 (bf_block_id block, bf_extended_ids block) st;
               stats = (if newly_requested report > 0
                        then record_resend_requested (word_of_nat (newly_requested report)) stats else stats);
               (blocks', stats', out') = resend_loop now config blocks stats in
           (block\<lparr>bf_resend := Some st'\<rparr> # blocks', stats', out @ out'))
      | _ \<Rightarrow>
          (let (blocks', stats', out') = resend_loop now config blocks stats in
           (block # blocks', stats', out')))"

definition resend_due :: "instant \<Rightarrow> assembler \<Rightarrow> assembler \<times> resend_request list" where
  "resend_due now a =
     (if \<not> rc_enabled (ac_resend (as_config a)) then (a, [])
      else
        let (blocks, stats, out) = resend_loop now (as_config a) (as_in_flight a) (as_stats a) in
        (a\<lparr>as_in_flight := blocks, as_stats := stats\<rparr>, out))"

section \<open>One datagram, one tick\<close>

definition ingest :: "bytes \<Rightarrow> instant \<Rightarrow> assembler \<Rightarrow> assembler \<times> assembled_block list" where
  "ingest datagram now a =
     (case (case parse_header datagram of
              Ok header \<Rightarrow> map_option (\<lambda>ans. (header, ans)) (resend_answer (hdr_status header))
            | _ \<Rightarrow> None) of
        Some (header, ans) \<Rightarrow>
          (on_resend_answer header ans
             (count (record_ignored_packet IgnErrorStatus) (touch (hdr_block_id header) now a)), [])
      | None \<Rightarrow>
          (case parse_packet_ref datagram of
             Ok packet \<Rightarrow>
               let header = pkt_header packet in
               (case pkt_content packet of
                  Unsupported format \<Rightarrow> (ignore_unsupported (touch (hdr_block_id header) now a), [])
                | content \<Rightarrow>
                    let is_trl = (case content of Trailer _ \<Rightarrow> True | _ \<Rightarrow> False);
                        is_ldr = (case content of Leader _ \<Rightarrow> True | _ \<Rightarrow> False) in
                    if \<not> is_trl \<and> hdr_status header AND STATUS_ERROR \<noteq> 0 then
                      (count (record_ignored_packet IgnErrorStatus) (touch (hdr_block_id header) now a), [])
                    else
                      (case admit header is_ldr now a of
                         (None, a, out) \<Rightarrow> (count (record_ignored_packet IgnLate) a, out)
                       | (Some idx, a, out) \<Rightarrow>
                           let block = (as_in_flight a ! idx)\<lparr>bf_last_packet := now\<rparr>;
                               a = set_block idx block a in
                           (case bf_resolved block of
                              Some (RFrame Complete) \<Rightarrow> (count record_duplicate_packet a, out)
                            | Some _ \<Rightarrow> (count (record_ignored_packet IgnLate) a, out)
                            | None \<Rightarrow>
                                let (has_arrived, a) =
                                      (case content of
                                         Leader l \<Rightarrow> (True, on_leader idx l a)
                                       | Payload data \<Rightarrow> on_payload idx header data a
                                       | Trailer t \<Rightarrow> (True, on_trailer idx header t a)
                                       | Unsupported _ \<Rightarrow> (False, a));
                                    a = (if has_arrived
                                         then track_arrival idx (unat (hdr_packet_id header)) is_trl now a
                                         else a);
                                    (a, out') = emit (try_complete idx a) in
                                (a, out @ out'))))
           | _ \<Rightarrow> (count (record_ignored_packet IgnMalformed) a, [])))"

definition poll_block :: "instant \<Rightarrow> nat \<Rightarrow> nat \<Rightarrow> assembler \<Rightarrow> assembler" where
  "poll_block now newest idx a =
     (let block = as_in_flight a ! idx in
      if bf_resolved block \<noteq> None \<or>
         now - bf_last_packet block < ac_block_timeout (as_config a) then a
      else if idx = newest \<and> bf_leader block \<noteq> None \<and> \<not> bf_any_payload block \<and> bf_trailer block = None
      then a
      else close idx a)"

definition poll :: "instant \<Rightarrow> assembler \<Rightarrow> assembler \<times> assembled_block list" where
  "poll now a =
     (let newest = length (as_in_flight a) - 1 in
      emit (fold (poll_block now newest) [0..<length (as_in_flight a)] a))"

end
