(* ===== verification/Assembly_Inv.thy ===== *)
theory Assembly_Inv
  imports Assembly "HOL-Library.Sublist"
begin

text \<open>
  The invariant of the block assembler, and that every operation keeps it: at most three blocks
  in flight with distinct ids, none of them resolved at the front, every buffer and bitmap within
  the stream's limit whatever the packets claim, and a block marked complete only when its leader,
  its trailer and every data packet the trailer accounts for are in.
\<close>

section \<open>The invariant\<close>

definition block_inv :: "nat \<Rightarrow> block_in_flight \<Rightarrow> bool" where
  "block_inv limit b \<longleftrightarrow>
     bitmap_inv (bf_bitmap b) \<and> bitmap_len (bf_bitmap b) \<le> limit + 1 \<and>
     length (bf_buffer b) \<le> limit \<and>
     (bf_unsupported b \<or> bf_extent b \<le> length (bf_buffer b)) \<and>
     (\<forall>p l s. bf_short_packet b = Some (p, l, s) \<longrightarrow> 0 < p) \<and>
     (\<forall>st. bf_resend b = Some st \<longrightarrow> resend_inv st) \<and>
     (bf_resolved b = Some (RFrame Complete) \<longrightarrow>
        \<not> bf_unsupported b \<and> bf_leader b \<noteq> None \<and>
        (\<exists>t. bf_trailer b = Some t \<and> {..<ti_last_payload_id t} \<subseteq> marked (bf_bitmap b)))"

definition front_open :: "block_in_flight list \<Rightarrow> bool" where
  "front_open bs \<longleftrightarrow> (bs = [] \<or> bf_resolved (hd bs) = None)"

definition blocks_inv :: "assembly_config \<Rightarrow> block_in_flight list \<Rightarrow> bool" where
  "blocks_inv config bs \<longleftrightarrow>
     distinct (map bf_block_id bs) \<and> (\<forall>b \<in> set bs. block_inv (buffer_limit config) b)"

definition assembler_inv :: "assembler \<Rightarrow> bool" where
  "assembler_inv a \<longleftrightarrow>
     length (as_in_flight a) \<le> MAX_IN_FLIGHT \<and> front_open (as_in_flight a) \<and>
     blocks_inv (as_config a) (as_in_flight a)"

section \<open>Operations on one block\<close>

text \<open>
  An operation at an index leaves the other blocks, the configuration and the newest id alone,
  keeps the block's id and keeps the invariant of the block it works on.
\<close>

definition step_at :: "nat \<Rightarrow> assembler \<Rightarrow> assembler \<Rightarrow> bool" where
  "step_at idx a a' \<longleftrightarrow>
     as_config a' = as_config a \<and> as_last_block_id a' = as_last_block_id a \<and>
     (\<exists>b. as_in_flight a' = (as_in_flight a)[idx := b] \<and>
        bf_block_id b = bf_block_id (as_in_flight a ! idx) \<and>
        (block_inv (buffer_limit (as_config a)) (as_in_flight a ! idx) \<longrightarrow>
         block_inv (buffer_limit (as_config a)) b))"

lemma step_at_refl [simp]: "step_at idx a a"
  unfolding step_at_def by (intro conjI refl exI [of _ "as_in_flight a ! idx"]) auto

lemma step_at_trans [trans]:
  assumes "step_at idx a b" "step_at idx b c" shows "step_at idx a c"
proof (cases "idx < length (as_in_flight a)")
  case True
  obtain x where x: "as_in_flight b = (as_in_flight a)[idx := x]" "bf_block_id x = bf_block_id (as_in_flight a ! idx)"
    "block_inv (buffer_limit (as_config a)) (as_in_flight a ! idx) \<longrightarrow> block_inv (buffer_limit (as_config a)) x"
    "as_config b = as_config a" "as_last_block_id b = as_last_block_id a"
    using assms(1) by (auto simp: step_at_def)
  with True have bx: "as_in_flight b ! idx = x" by simp
  obtain y where y: "as_in_flight c = (as_in_flight b)[idx := y]" "bf_block_id y = bf_block_id x"
    "block_inv (buffer_limit (as_config a)) x \<longrightarrow> block_inv (buffer_limit (as_config a)) y"
    "as_config c = as_config b" "as_last_block_id c = as_last_block_id b"
    using assms(2) x(4) bx by (auto simp: step_at_def)
  show ?thesis unfolding step_at_def using x y by (intro conjI exI [of _ y]) auto
next
  case False
  then have same: "(as_in_flight a)[idx := x] = as_in_flight a" for x by (simp add: list_update_beyond)
  have "as_in_flight b = as_in_flight a" "as_in_flight c = as_in_flight a"
    using assms same by (auto simp: step_at_def)
  then show ?thesis using assms same by (auto simp: step_at_def)
qed

lemma count_simps [simp]:
  "as_in_flight (count f a) = as_in_flight a" "as_config (count f a) = as_config a"
  "as_last_block_id (count f a) = as_last_block_id a" "as_spare_bitmaps (count f a) = as_spare_bitmaps a"
  "as_largest_estimate (count f a) = as_largest_estimate a" "as_stats (count f a) = f (as_stats a)"
  by (simp_all add: count_def)

lemma set_block_simps [simp]:
  "as_in_flight (set_block idx b a) = (as_in_flight a)[idx := b]" "as_config (set_block idx b a) = as_config a"
  "as_last_block_id (set_block idx b a) = as_last_block_id a"
  "as_spare_bitmaps (set_block idx b a) = as_spare_bitmaps a" "as_stats (set_block idx b a) = as_stats a"
  "as_largest_estimate (set_block idx b a) = as_largest_estimate a"
  by (simp_all add: set_block_def)

lemma warn_simps [simp]:
  "as_in_flight (out_of_range a) = as_in_flight a" "as_config (out_of_range a) = as_config a"
  "as_last_block_id (out_of_range a) = as_last_block_id a"
  "as_in_flight (size_mismatch a) = as_in_flight a" "as_config (size_mismatch a) = as_config a"
  "as_last_block_id (size_mismatch a) = as_last_block_id a"
  "as_in_flight (ignore_unsupported a) = as_in_flight a" "as_config (ignore_unsupported a) = as_config a"
  "as_last_block_id (ignore_unsupported a) = as_last_block_id a"
  by (simp_all add: out_of_range_def size_mismatch_def ignore_unsupported_def)

lemma step_at_same:
  "as_in_flight a' = as_in_flight a \<Longrightarrow> as_config a' = as_config a \<Longrightarrow>
   as_last_block_id a' = as_last_block_id a \<Longrightarrow> step_at idx a a'"
  unfolding step_at_def by (intro conjI exI [of _ "as_in_flight a ! idx"]) auto

lemma step_at_set:
  assumes "bf_block_id b = bf_block_id (as_in_flight a ! idx)"
    and "block_inv (buffer_limit (as_config a)) (as_in_flight a ! idx) \<Longrightarrow>
      block_inv (buffer_limit (as_config a)) b"
  shows "step_at idx a (set_block idx b a)"
  unfolding step_at_def using assms by (intro conjI exI [of _ b]) auto

lemma step_at_simps [simp]:
  "step_at idx a (count f a') = step_at idx a a'"
  "step_at idx a (a'\<lparr>as_largest_estimate := x\<rparr>) = step_at idx a a'"
  "step_at idx a (ignore_unsupported a') = step_at idx a a'"
  "step_at idx a (out_of_range a') = step_at idx a a'"
  "step_at idx a (size_mismatch a') = step_at idx a a'"
  by (simp_all add: step_at_def)

lemma set_block_count [simp]: "set_block idx b (count f a) = count f (set_block idx b a)"
  by (simp add: set_block_def count_def)

lemma touch_step: "\<exists>idx. step_at idx a (touch block_id now a)"
proof (cases "position (\<lambda>b. bf_block_id b = block_id) (as_in_flight a)")
  case (Some idx)
  have "step_at idx a (touch block_id now a)"
    by (auto simp: touch_def Some block_inv_def intro!: step_at_set)
  then show ?thesis ..
qed (auto simp: touch_def)

lemma length_write_at: "off + length data \<le> length buf \<Longrightarrow> length (write_at off data buf) = length buf"
  by (simp add: write_at_def)

lemma length_zeroed [simp]:
  "length (write_at (min off (min x (length buf))) (replicate (min x (length buf) - min off (min x (length buf))) z) buf) =
   length buf"
  by (rule length_write_at) simp

lemma take_out_inv: "block_inv limit b \<Longrightarrow> bf_resolved b = None \<Longrightarrow> block_inv limit (take_out p l s b)"
  using bitmap.abs_clear [of "bf_bitmap b" "p - 1"]
  by (auto simp: block_inv_def take_out_def Let_def case_prod_beta)

lemma take_out_same [simp]:
  "bf_block_id (take_out p l s b) = bf_block_id b" "bf_resolved (take_out p l s b) = bf_resolved b"
  by (simp_all add: take_out_def Let_def case_prod_beta)

lemma refuse_short_step:
  assumes "bf_resolved (as_in_flight a ! idx) = None" "idx < length (as_in_flight a)"
  shows "step_at idx a (refuse_short idx m a)"
    and "bf_resolved (as_in_flight (refuse_short idx m a) ! idx) = None"
    and "length (as_in_flight (refuse_short idx m a)) = length (as_in_flight a)"
proof -
  obtain p l s where m: "m = (p, l, s)" by (cases m)
  show "step_at idx a (refuse_short idx m a)"
    using assms by (auto simp: refuse_short_def m take_out_inv intro: step_at_set)
  show "bf_resolved (as_in_flight (refuse_short idx m a) ! idx) = None"
    "length (as_in_flight (refuse_short idx m a)) = length (as_in_flight a)"
    using assms by (simp_all add: refuse_short_def m)
qed

lemma refuse_all_step:
  assumes "bf_resolved (as_in_flight a ! idx) = None" "idx < length (as_in_flight a)"
  shows "step_at idx a (fold (refuse_short idx) ms a)"
  using assms
proof (induction ms arbitrary: a)
  case (Cons m ms)
  note r = refuse_short_step [OF Cons.prems, of m]
  have "step_at idx (refuse_short idx m a) (fold (refuse_short idx) ms (refuse_short idx m a))"
    using Cons.IH r Cons.prems by simp
  with r(1) show ?case by (auto intro: step_at_trans)
qed simp

lemma place_data_inv:
  assumes inv: "block_inv limit b" and open_: "bf_resolved b = None" "\<not> bf_unsupported b"
    and p: "0 < p" "0 < stride" and fits: "(p - 1) * stride + length data \<le> limit"
  shows "block_inv limit (place_data p stride data b)"
proof -
  have bm: "bitmap_inv (bf_bitmap b)" using inv by (simp add: block_inv_def)
  have "(p - 1) \<le> (p - 1) * stride" using p by simp
  then have "p - 1 \<le> limit" using fits by linarith
  moreover have "Suc (p - 1) = p" using p by simp
  moreover note bitmap.record_slot [OF bm, of "p - 1"]
  ultimately show ?thesis
    using inv open_ fits by (auto simp: block_inv_def place_data_def Let_def length_write_at)
qed

lemma judge_short_pos:
  assumes "judge_short p len stride b = (Some (p', l', s'), ms)" and "0 < p"
    and "\<And>p l s. bf_short_packet b = Some (p, l, s) \<Longrightarrow> 0 < p"
  shows "0 < p'"
proof -
  have "(p', l', s') = (p, len, stride) \<or> bf_short_packet b = Some (p', l', s')"
    using assms(1) by (auto simp: judge_short_def Let_def split: if_splits option.splits prod.splits)
  then show ?thesis using assms(2,3) by auto
qed

lemma place_data_same [simp]:
  "bf_block_id (place_data p s d b) = bf_block_id b" "bf_resolved (place_data p s d b) = bf_resolved b"
  "bf_short_packet (place_data p s d b) = bf_short_packet b" "bf_trailer (place_data p s d b) = bf_trailer b"
  by (simp_all add: place_data_def Let_def)

lemma on_payload_step:
  assumes open_: "bf_resolved (as_in_flight a ! idx) = None" and idx: "idx < length (as_in_flight a)"
  shows "step_at idx a (snd (on_payload idx header data a))"
proof -
  let ?b = "as_in_flight a ! idx" and ?p = "unat (hdr_packet_id header)"
  let ?s = "payload_stride (ac_packet_size (as_config a)) (hdr_header_len header)"
  let ?new = "place_data ?p ?s data ?b"
  obtain short ms where j: "judge_short ?p (length data) ?s ?new = (short, ms)" by fastforce
  let ?a = "set_block idx (?new\<lparr>bf_short_packet := short\<rparr>) a"
  have placed: "step_at idx a (fold (refuse_short idx) ms ?a)"
    if "\<not> bf_unsupported ?b" "0 < ?p" "0 < ?s" "(?p - 1) * ?s + length data \<le> buffer_limit (as_config a)"
  proof -
    have "step_at idx a ?a"
    proof (rule step_at_set)
      assume inv: "block_inv (buffer_limit (as_config a)) ?b"
      have "0 < p'" if "short = Some (p', l', s')" for p' l' s'
        using judge_short_pos [of ?p "length data" ?s ?new p' l' s' ms] j that \<open>0 < ?p\<close> inv
        by (auto simp: block_inv_def)
      then show "block_inv (buffer_limit (as_config a)) (?new\<lparr>bf_short_packet := short\<rparr>)"
        using place_data_inv [OF inv open_ that] by (simp add: block_inv_def)
    qed simp
    also have "step_at idx ?a (fold (refuse_short idx) ms ?a)"
      using open_ idx by (intro refuse_all_step) simp_all
    finally show ?thesis .
  qed
  show ?thesis
    using placed by (auto simp: on_payload_def Let_def j not_less intro: step_at_same)
qed

lemma on_leader_step:
  assumes open_: "bf_resolved (as_in_flight a ! idx) = None"
  shows "step_at idx a (on_leader idx ldr a)"
proof -
  let ?b = "as_in_flight a ! idx" and ?pt = "ldr_payload_type ldr"
  have cap: "min x ESTIMATE_CAP \<le> buffer_limit (as_config a)" for x by (simp add: buffer_limit_def)
  consider (dup) "bf_leader_payload_type ?b \<noteq> None"
    | (chunk) "bf_leader_payload_type ?b = None" "is_chunk_data_payload ?pt"
    | (none) "bf_leader_payload_type ?b = None" "\<not> is_chunk_data_payload ?pt"
        "(if is_image_payload ?pt then ldr_image ldr else None) = None"
    | (img) img where "bf_leader_payload_type ?b = None" "\<not> is_chunk_data_payload ?pt"
        "(if is_image_payload ?pt then ldr_image ldr else None) = Some img"
    by (cases "(if is_image_payload ?pt then ldr_image ldr else None)") auto
  then show ?thesis
  proof cases
    case dup
    then show ?thesis by (simp add: on_leader_def Let_def)
  next
    case chunk
    then show ?thesis using open_
      by (auto simp: on_leader_def Let_def block_inv_def intro!: step_at_set)
  next
    case none
    then show ?thesis using open_
      by (auto simp: on_leader_def Let_def block_inv_def intro!: step_at_set)
  next
    case img
    then show ?thesis using open_ cap
      by (auto simp: on_leader_def Let_def block_inv_def acquire_def intro!: step_at_set)
  qed
qed

lemma on_trailer_step:
  assumes open_: "bf_resolved (as_in_flight a ! idx) = None" and idx: "idx < length (as_in_flight a)"
  shows "step_at idx a (on_trailer idx header tr a)"
proof -
  let ?L = "buffer_limit (as_config a)"
  let ?b = "as_in_flight a ! idx" and ?last = "unat (hdr_packet_id header) - 1"
  let ?s = "max (payload_stride (ac_packet_size (as_config a)) (hdr_header_len header)) 1"
  let ?b1 = "?b\<lparr>bf_trailer := Some \<lparr>ti_last_payload_id = ?last, ti_size_y = trl_size_y tr,
    ti_payload_type = trl_payload_type tr\<rparr>\<rparr>"
  let ?b2 = "?b1\<lparr>bf_bitmap := bitmap_grow (min ?last (div_ceil ?L ?s)) (bf_bitmap ?b)\<rparr>"
  have "div_ceil ?L ?s \<le> ?L" by (subst div_ceil_le_iff) auto
  then have grown: "block_inv ?L ?b2" if "block_inv ?L ?b"
    using that open_ bitmap.abs_grow [of "bf_bitmap ?b"] by (auto simp: block_inv_def)
  have s2: "step_at idx a (set_block idx (?b2\<lparr>bf_short_packet := None\<rparr>) a)"
    using grown open_ by (intro step_at_set) (simp_all add: block_inv_def)
  have "step_at idx a (refuse_short idx m (set_block idx (?b2\<lparr>bf_short_packet := None\<rparr>) a))" for m
    by (rule step_at_trans [OF s2], rule refuse_short_step) (use open_ idx in auto)
  moreover have "step_at idx a (set_block idx ?b2 a)"
    using grown by (intro step_at_set) auto
  moreover have "step_at idx a (set_block idx (?b1\<lparr>bf_resolved := Some r\<rparr>) a)"
    if "r \<noteq> RFrame Complete" for r
    using that by (intro step_at_set) (auto simp: block_inv_def)
  ultimately show ?thesis
    unfolding on_trailer_def Let_def
    by (auto split: option.splits)
qed

lemma track_arrival_step: "step_at idx a (track_arrival idx (unat (k :: u32)) t now a)"
proof (cases "bf_resend (as_in_flight a ! idx)")
  case (Some st)
  have k: "unat k \<le> U32_MAX" using unsigned_less [of k, where ?'a = nat] by (simp add: U32_MAX_def)
  have "resend_inv st'" if "resend_inv st"
    "st' = (if t then resend_trailer (unat k) (snd (arrived (unat k) now d st)) else snd (arrived (unat k) now d st))"
    for st' d
    using that arrived_spec(1) [OF that(1) k] resend_trailer_spec(1) [OF _ k] by auto
  then show ?thesis
    by (auto simp: track_arrival_def Some Let_def case_prod_beta block_inv_def intro!: step_at_set)
qed (simp add: track_arrival_def)

lemma try_complete_step: "step_at idx a (try_complete idx a)"
proof -
  let ?b = "as_in_flight a ! idx"
  have "step_at idx a (set_block idx (?b\<lparr>bf_resolved := Some (RFrame Complete)\<rparr>) a)"
    if "\<not> bf_unsupported ?b" "bf_leader ?b \<noteq> None" "bf_trailer ?b = Some t"
      "first_n_complete (bf_bitmap ?b) (ti_last_payload_id t)" for t
    using that first_n_marked [of "bf_bitmap ?b"] by (intro step_at_set) (auto simp: block_inv_def)
  then show ?thesis by (auto simp: try_complete_def Let_def split: option.splits)
qed

lemma close_step: "step_at idx a (close idx a)"
  by (auto simp: close_def Let_def block_inv_def intro!: step_at_set)

section \<open>Blocks in flight as a queue\<close>

abbreviation ids :: "assembler \<Rightarrow> u64 list" where
  "ids a \<equiv> map bf_block_id (as_in_flight a)"

lemma step_at_keeps:
  assumes "step_at idx a a'"
  shows "ids a' = ids a" "as_config a' = as_config a" "as_last_block_id a' = as_last_block_id a"
    "length (as_in_flight a') = length (as_in_flight a)"
    "blocks_inv (as_config a) (as_in_flight a) \<Longrightarrow> blocks_inv (as_config a') (as_in_flight a')"
proof -
  obtain b where b: "as_in_flight a' = (as_in_flight a)[idx := b]" "bf_block_id b = bf_block_id (as_in_flight a ! idx)"
    "block_inv (buffer_limit (as_config a)) (as_in_flight a ! idx) \<longrightarrow> block_inv (buffer_limit (as_config a)) b"
    and c: "as_config a' = as_config a" "as_last_block_id a' = as_last_block_id a"
    using assms by (auto simp: step_at_def)
  show "as_config a' = as_config a" "as_last_block_id a' = as_last_block_id a" by (rule c)+
  have same: "(as_in_flight a)[idx := b] = as_in_flight a" if "\<not> idx < length (as_in_flight a)"
    using that by (simp add: list_update_beyond)
  show i: "ids a' = ids a"
    using b(1,2) same list_update_id [of "ids a" idx]
    by (cases "idx < length (as_in_flight a)") (simp_all add: map_update)
  show "length (as_in_flight a') = length (as_in_flight a)" by (simp add: b)
  assume inv: "blocks_inv (as_config a) (as_in_flight a)"
  have "block_inv (buffer_limit (as_config a)) x" if "x \<in> set (as_in_flight a')" for x
    using that inv b same set_update_subset_insert [of "as_in_flight a" idx b]
    by (cases "idx < length (as_in_flight a)") (auto simp: blocks_inv_def)
  then show "blocks_inv (as_config a') (as_in_flight a')" using inv i by (simp add: blocks_inv_def c)
qed

fun delivered :: "u32 \<Rightarrow> block_in_flight list \<Rightarrow> assembled_block list" where
  "delivered ps [] = []"
| "delivered ps (b # bs) =
     (case bf_resolved b of Some (RFrame st) \<Rightarrow> [assembled ps b st] | _ \<Rightarrow> []) @ delivered ps bs"

lemma emit_eq:
  fixes a
  defines "gone \<equiv> takeWhile (\<lambda>b. bf_resolved b \<noteq> None) (as_in_flight a)"
  shows "as_in_flight (fst (emit a)) = dropWhile (\<lambda>b. bf_resolved b \<noteq> None) (as_in_flight a)"
    "snd (emit a) = delivered (ac_packet_size (as_config a)) gone"
    "as_config (fst (emit a)) = as_config a" "as_last_block_id (fst (emit a)) = as_last_block_id a"
    "as_spare_bitmaps (fst (emit a)) = rev (map bf_bitmap gone) @ as_spare_bitmaps a"
proof -
  have loop: "fst (emit_loop ps bs sp st) = dropWhile (\<lambda>b. bf_resolved b \<noteq> None) bs \<and>
      fst (snd (emit_loop ps bs sp st)) = rev (map bf_bitmap (takeWhile (\<lambda>b. bf_resolved b \<noteq> None) bs)) @ sp \<and>
      snd (snd (snd (emit_loop ps bs sp st))) = delivered ps (takeWhile (\<lambda>b. bf_resolved b \<noteq> None) bs)"
    for ps bs sp st
    by (induction ps bs sp st rule: emit_loop.induct)
      (auto simp: case_prod_beta split: option.splits resolution.splits)
  show "as_in_flight (fst (emit a)) = dropWhile (\<lambda>b. bf_resolved b \<noteq> None) (as_in_flight a)"
    "snd (emit a) = delivered (ac_packet_size (as_config a)) gone"
    "as_config (fst (emit a)) = as_config a" "as_last_block_id (fst (emit a)) = as_last_block_id a"
    "as_spare_bitmaps (fst (emit a)) = rev (map bf_bitmap gone) @ as_spare_bitmaps a"
    using loop by (simp_all add: emit_def gone_def case_prod_beta)
qed

text \<open>
  How blocks move through the assembler in one step: ids enter at the back, a prefix leaves at the
  front, and what is handed out is that prefix in its order, less the unsupported blocks.
\<close>

definition flow :: "assembler \<Rightarrow> u64 list \<Rightarrow> assembler \<Rightarrow> assembled_block list \<Rightarrow> bool" where
  "flow a new a' out \<longleftrightarrow> (\<exists>gone. ids a @ new = gone @ ids a' \<and> subseq (map ab_block_id out) gone)"

lemma flow_same: "ids a' = ids a @ new \<Longrightarrow> flow a new a' []"
  by (auto simp: flow_def)

lemma flow_trans:
  assumes "flow a n1 b o1" "flow b n2 c o2" shows "flow a (n1 @ n2) c (o1 @ o2)"
proof -
  obtain g1 g2 where "ids a @ n1 = g1 @ ids b" "subseq (map ab_block_id o1) g1"
    "ids b @ n2 = g2 @ ids c" "subseq (map ab_block_id o2) g2"
    using assms by (auto simp: flow_def)
  then show ?thesis unfolding flow_def
    by (intro exI [of _ "g1 @ g2"]) (simp add: list_emb_append_mono, metis append_assoc)
qed

lemma delivered_ids: "subseq (map ab_block_id (delivered ps bs)) (map bf_block_id bs)"
  by (induction bs) (auto simp: assembled_def split: option.split resolution.split)

lemma emit_flow: "flow a [] (fst (emit a)) (snd (emit a))"
proof -
  let ?R = "\<lambda>b. bf_resolved b \<noteq> None"
  have "map bf_block_id (takeWhile ?R (as_in_flight a)) @ map bf_block_id (dropWhile ?R (as_in_flight a)) = ids a"
    by (metis map_append takeWhile_dropWhile_id)
  then show ?thesis unfolding flow_def emit_eq using delivered_ids by (metis append_Nil2)
qed

lemma emit_keeps:
  shows "length (as_in_flight (fst (emit a))) \<le> length (as_in_flight a)"
    "front_open (as_in_flight (fst (emit a)))"
    "blocks_inv (as_config a) (as_in_flight a) \<Longrightarrow> blocks_inv (as_config (fst (emit a))) (as_in_flight (fst (emit a)))"
proof -
  let ?R = "\<lambda>b. bf_resolved b \<noteq> None"
  show "length (as_in_flight (fst (emit a))) \<le> length (as_in_flight a)"
    by (simp add: emit_eq length_dropWhile_le)
  show "front_open (as_in_flight (fst (emit a)))"
    using hd_dropWhile [of ?R "as_in_flight a"] unfolding front_open_def emit_eq(1) by blast
  have "ids a = map bf_block_id (takeWhile ?R (as_in_flight a)) @ map bf_block_id (dropWhile ?R (as_in_flight a))"
    by (metis map_append takeWhile_dropWhile_id)
  then show "blocks_inv (as_config a) (as_in_flight a) \<Longrightarrow>
      blocks_inv (as_config (fst (emit a))) (as_in_flight (fst (emit a)))"
    by (auto simp: blocks_inv_def emit_eq dest: set_dropWhileD)
qed

lemma make_room_keeps:
  assumes "blocks_inv (as_config a) (as_in_flight a)" "front_open (as_in_flight a)"
  shows "length (as_in_flight (fst (make_room a))) < MAX_IN_FLIGHT \<and> front_open (as_in_flight (fst (make_room a))) \<and>
    blocks_inv (as_config a) (as_in_flight (fst (make_room a))) \<and> as_config (fst (make_room a)) = as_config a \<and>
    as_last_block_id (fst (make_room a)) = as_last_block_id a \<and>
    flow a [] (fst (make_room a)) (snd (make_room a)) \<and> set (ids (fst (make_room a))) \<subseteq> set (ids a)"
  using assms
proof (induction a rule: make_room.induct)
  case (1 a)
  show ?case
  proof (cases "MAX_IN_FLIGHT \<le> length (as_in_flight a)")
    case True
    let ?c = "close_oldest a"
    obtain b out where e: "emit ?c = (b, out)" by fastforce
    obtain c out' where m: "make_room b = (c, out')" by fastforce
    have s: "step_at 0 a ?c" using close_step [of 0 a] by (simp add: close_oldest_def)
    note sk = step_at_keeps [OF s]
    note ek = emit_keeps [of ?c, unfolded e fst_conv] and f1 = emit_flow [of ?c, unfolded e fst_conv snd_conv]
    have cfg: "as_config b = as_config a" "as_last_block_id b = as_last_block_id a"
      using emit_eq(3,4) [of ?c] sk e by auto
    have binv: "blocks_inv (as_config b) (as_in_flight b)" using ek(3) sk "1.prems" by simp
    have IH: "length (as_in_flight c) < MAX_IN_FLIGHT \<and> front_open (as_in_flight c) \<and>
        blocks_inv (as_config b) (as_in_flight c) \<and> as_config c = as_config b \<and>
        as_last_block_id c = as_last_block_id b \<and> flow b [] c out' \<and> set (ids c) \<subseteq> set (ids b)"
      using "1.IH" [OF True _ refl _ ] e binv ek(2) m by (metis fst_conv snd_conv)
    have fl: "flow a [] b out" using f1 sk(1) by (simp add: flow_def)
    then obtain gone where "ids a = gone @ ids b" by (auto simp: flow_def)
    then have "set (ids b) \<subseteq> set (ids a)" by (metis set_append Un_upper2)
    moreover have "flow a [] c (out @ out')" using flow_trans [OF fl] IH by fastforce
    moreover have "make_room a = (c, out @ out')"
      using True e m by (subst make_room.simps) simp
    moreover have "set (ids c) \<subseteq> set (ids a)" using IH calculation(1) by blast
    ultimately show ?thesis using IH cfg by simp
  next
    case False
    then have "make_room a = (a, [])" by (subst make_room.simps) simp
    then show ?thesis using False "1.prems" by (simp add: flow_same)
  qed
qed

lemma push_block_ex:
  obtains buf n spare spares where
    "push_block header now a = a\<lparr>as_spare_bitmaps := spares, as_in_flight := as_in_flight a @
       [block_new header now (rc_enabled (ac_resend (as_config a))) buf (bitmap_reset n spare)]\<rparr>"
    "length buf \<le> buffer_limit (as_config a)" "n \<le> buffer_limit (as_config a)"
proof -
  let ?s = "max (payload_stride (ac_packet_size (as_config a)) (hdr_header_len header)) 1"
  obtain buf n where bn: "(case ac_payload_size (as_config a) of
      Some sz \<Rightarrow> (acquire sz, div_ceil sz ?s) | None \<Rightarrow> ([], 0)) = (buf, n)" by fastforce
  obtain spare spares where sp: "(case as_spare_bitmaps a of
      [] \<Rightarrow> (bitmap_default, []) | b # bs \<Rightarrow> (b, bs)) = (spare, spares)" by fastforce
  have push: "push_block header now a = a\<lparr>as_spare_bitmaps := spares, as_in_flight := as_in_flight a @
      [block_new header now (rc_enabled (ac_resend (as_config a))) buf (bitmap_reset n spare)]\<rparr>"
    unfolding push_block_def Let_def bn sp by simp
  have "div_ceil sz ?s \<le> max ESTIMATE_CAP sz" for sz
  proof (subst div_ceil_le_iff)
    have "sz * 1 \<le> max ESTIMATE_CAP sz * ?s" by (rule mult_le_mono) auto
    then show "sz \<le> max ESTIMATE_CAP sz * ?s" by simp
  qed simp
  then have "length buf \<le> buffer_limit (as_config a)" "n \<le> buffer_limit (as_config a)"
    using bn by (auto simp: acquire_def buffer_limit_def split: option.splits)
  with push that show thesis by blast
qed

lemma push_block_keeps:
  assumes "blocks_inv (as_config a) (as_in_flight a)" "hdr_block_id header \<notin> set (ids a)"
  shows "blocks_inv (as_config a) (as_in_flight (push_block header now a))"
    "as_config (push_block header now a) = as_config a"
    "as_last_block_id (push_block header now a) = as_last_block_id a"
    "\<exists>b. as_in_flight (push_block header now a) = as_in_flight a @ [b] \<and>
      bf_block_id b = hdr_block_id header \<and> bf_resolved b = None"
proof -
  let ?L = "buffer_limit (as_config a)"
  obtain buf n spare spares where push: "push_block header now a =
      a\<lparr>as_spare_bitmaps := spares, as_in_flight := as_in_flight a @
        [block_new header now (rc_enabled (ac_resend (as_config a))) buf (bitmap_reset n spare)]\<rparr>"
    and lim: "length buf \<le> ?L" "n \<le> ?L" by (rule push_block_ex)
  let ?b = "block_new header now (rc_enabled (ac_resend (as_config a))) buf (bitmap_reset n spare)"
  have "resend_inv resend_default" by (simp add: resend_inv_def resend_default_def U32_MAX_def)
  with lim have "block_inv ?L ?b" using bitmap.abs_reset [of n spare] by (simp add: block_inv_def block_new_def)
  then show "blocks_inv (as_config a) (as_in_flight (push_block header now a))"
    using assms by (auto simp: blocks_inv_def push block_new_def)
  show "as_config (push_block header now a) = as_config a"
    "as_last_block_id (push_block header now a) = as_last_block_id a" by (simp_all add: push)
  show "\<exists>b. as_in_flight (push_block header now a) = as_in_flight a @ [b] \<and>
      bf_block_id b = hdr_block_id header \<and> bf_resolved b = None"
    by (simp add: push block_new_def)
qed

lemma note_order_simps [simp]:
  "as_in_flight (note_order header ord a) = as_in_flight a" "as_config (note_order header ord a) = as_config a"
  by (auto simp: note_order_def split: order.split)

lemma admit_keeps:
  assumes inv: "assembler_inv a" and r: "admit header is_leader now a = (r, a', out)"
  shows "assembler_inv a'" "as_config a' = as_config a"
    "r = None \<Longrightarrow> a' = a \<and> out = []"
    "r = Some idx \<Longrightarrow> idx < length (as_in_flight a') \<and> bf_block_id (as_in_flight a' ! idx) = hdr_block_id header"
    "flow a (if hdr_block_id header \<in> set (ids a) \<or> r = None then [] else [hdr_block_id header]) a' out"
proof -
  let ?P = "\<lambda>b. bf_block_id b = hdr_block_id header"
  let ?ord = "classify (as_last_block_id a) (hdr_block_id header) (hdr_extended_ids header) is_leader"
  have "assembler_inv a' \<and> as_config a' = as_config a \<and> (r = None \<longrightarrow> a' = a \<and> out = []) \<and>
    (\<forall>idx. r = Some idx \<longrightarrow> idx < length (as_in_flight a') \<and> bf_block_id (as_in_flight a' ! idx) = hdr_block_id header) \<and>
    flow a (if hdr_block_id header \<in> set (ids a) \<or> r = None then [] else [hdr_block_id header]) a' out"
  proof (cases "position ?P (as_in_flight a)")
    case (Some idx)
    note p = position_eq_Some [OF Some]
    then have "hdr_block_id header \<in> set (ids a)" by (metis length_map nth_map nth_mem)
    then show ?thesis using r inv p Some by (auto simp: admit_def flow_same)
  next
    case None
    then have new: "hdr_block_id header \<notin> set (ids a)" by (auto simp: position_eq_None)
    show ?thesis
    proof (cases "?ord = Late")
      case True
      then show ?thesis using r inv None by (auto simp: admit_def flow_same)
    next
      case False
      let ?n = "note_order header ?ord a"
      obtain m mout where m: "make_room ?n = (m, mout)" by fastforce
      have "blocks_inv (as_config ?n) (as_in_flight ?n)" "front_open (as_in_flight ?n)"
        using inv by (simp_all add: assembler_inv_def)
      note mk = make_room_keeps [OF this, unfolded m fst_conv snd_conv]
      have mi: "blocks_inv (as_config m) (as_in_flight m)" "hdr_block_id header \<notin> set (ids m)"
        using mk new by auto
      note pk = push_block_keeps [OF mi, of now]
      obtain b where b: "as_in_flight (push_block header now m) = as_in_flight m @ [b]"
        "bf_block_id b = hdr_block_id header" "bf_resolved b = None" using pk(4) by blast
      have res: "r = Some (length (as_in_flight m))" "a' = push_block header now m" "out = mout"
        using r None False m b(1) by (auto simp: admit_def Let_def)
      have "flow a [] m mout" using mk by (simp add: flow_def)
      from flow_trans [OF this flow_same, of "push_block header now m" "[hdr_block_id header]"]
      have "flow a [hdr_block_id header] (push_block header now m) mout" using b by simp
      moreover have "front_open (as_in_flight m @ [b])"
        using mk b(3) by (cases "as_in_flight m") (auto simp: front_open_def)
      ultimately show ?thesis
        using res mk pk b new by (auto simp: assembler_inv_def)
    qed
  qed
  then show "assembler_inv a'" "as_config a' = as_config a" "r = None \<Longrightarrow> a' = a \<and> out = []"
    "r = Some idx \<Longrightarrow> idx < length (as_in_flight a') \<and> bf_block_id (as_in_flight a' ! idx) = hdr_block_id header"
    "flow a (if hdr_block_id header \<in> set (ids a) \<or> r = None then [] else [hdr_block_id header]) a' out"
    by auto
qed

section \<open>One datagram\<close>

text \<open>What \<open>ingest\<close> does once a packet's block is found, in the open block at \<open>idx\<close>.\<close>

definition apply_content :: "nat \<Rightarrow> gvsp_header \<Rightarrow> gvsp_content \<Rightarrow> assembler \<Rightarrow> bool \<times> assembler" where
  "apply_content idx header content a =
     (case content of
        Leader l \<Rightarrow> (True, on_leader idx l a)
      | Payload data \<Rightarrow> on_payload idx header data a
      | Trailer t \<Rightarrow> (True, on_trailer idx header t a)
      | Unsupported _ \<Rightarrow> (False, a))"

definition take_packet :: "nat \<Rightarrow> gvsp_header \<Rightarrow> gvsp_content \<Rightarrow> instant \<Rightarrow> assembler \<Rightarrow> assembler" where
  "take_packet idx header content now a =
     (let (has_arrived, a) = apply_content idx header content a in
      try_complete idx
        (if has_arrived
         then track_arrival idx (unat (hdr_packet_id header))
                (case content of Trailer _ \<Rightarrow> True | _ \<Rightarrow> False) now a
         else a))"

lemma take_packet_step:
  assumes "bf_resolved (as_in_flight a ! idx) = None" "idx < length (as_in_flight a)"
  shows "step_at idx a (take_packet idx header content now a)"
proof -
  have 1: "step_at idx a (snd (apply_content idx header content a))"
    using assms on_leader_step on_payload_step on_trailer_step
    by (auto simp: apply_content_def split: gvsp_content.split)
  let ?a = "snd (apply_content idx header content a)"
  let ?t = "case content of Trailer _ \<Rightarrow> True | _ \<Rightarrow> False"
  have "step_at idx a (if fst (apply_content idx header content a)
      then track_arrival idx (unat (hdr_packet_id header)) ?t now ?a else ?a)"
    using step_at_trans [OF 1 track_arrival_step] 1 by simp
  from step_at_trans [OF this try_complete_step] show ?thesis
    by (simp add: take_packet_def case_prod_beta)
qed

definition deliver :: "nat \<Rightarrow> gvsp_header \<Rightarrow> gvsp_content \<Rightarrow> instant \<Rightarrow> assembler \<Rightarrow>
    assembler \<times> assembled_block list" where
  "deliver idx header content now a =
     (let block = (as_in_flight a ! idx)\<lparr>bf_last_packet := now\<rparr>; a = set_block idx block a in
      case bf_resolved block of
        Some (RFrame Complete) \<Rightarrow> (count record_duplicate_packet a, [])
      | Some _ \<Rightarrow> (count (record_ignored_packet IgnLate) a, [])
      | None \<Rightarrow> emit (take_packet idx header content now a))"

text \<open>The branches of \<open>ingest\<close>, as equations.\<close>

lemma ingest_answer:
  "parse_header d = Ok h \<Longrightarrow> resend_answer (hdr_status h) = Some ans \<Longrightarrow>
   ingest d now a =
     (on_resend_answer h ans (count (record_ignored_packet IgnErrorStatus) (touch (hdr_block_id h) now a)), [])"
  by (simp add: ingest_def)

lemma ingest_malformed:
  "(\<And>h. parse_header d = Ok h \<Longrightarrow> resend_answer (hdr_status h) = None) \<Longrightarrow>
   (\<And>p. parse_packet_ref d \<noteq> Ok p) \<Longrightarrow>
   ingest d now a = (count (record_ignored_packet IgnMalformed) a, [])"
  by (cases "parse_header d"; cases "parse_packet_ref d") (auto simp: ingest_def)

lemma packet_header: "parse_packet_ref d = Ok p \<Longrightarrow> parse_header d = Ok (pkt_header p)"
  by (cases "parse_header d") (auto simp: parse_packet_ref_def and_then_eq_Ok or_panic_def Let_def split: option.splits)

lemma ingest_packet:
  assumes "parse_packet_ref d = Ok p" "resend_answer (hdr_status (pkt_header p)) = None"
  defines "h \<equiv> pkt_header p" and "c \<equiv> pkt_content p"
  shows "ingest d now a =
    (case c of
       Unsupported f \<Rightarrow> (ignore_unsupported (touch (hdr_block_id h) now a), [])
     | _ \<Rightarrow>
       if (case c of Trailer _ \<Rightarrow> False | _ \<Rightarrow> True) \<and> hdr_status h AND STATUS_ERROR \<noteq> 0
       then (count (record_ignored_packet IgnErrorStatus) (touch (hdr_block_id h) now a), [])
       else
         (case admit h (case c of Leader _ \<Rightarrow> True | _ \<Rightarrow> False) now a of
            (None, a, out) \<Rightarrow> (count (record_ignored_packet IgnLate) a, out)
          | (Some idx, a, out) \<Rightarrow> (case deliver idx h c now a of (a, out') \<Rightarrow> (a, out @ out'))))"
  using packet_header [OF assms(1)] assms(1,2)
  by (auto simp: ingest_def h_def c_def deliver_def take_packet_def apply_content_def Let_def case_prod_beta
      split: gvsp_content.splits option.splits resolution.splits frame_status.splits)

lemma step_at_inv:
  assumes "step_at idx a a'" "assembler_inv a" "map bf_resolved (as_in_flight a') = map bf_resolved (as_in_flight a)"
  shows "assembler_inv a'"
proof -
  note k = step_at_keeps [OF assms(1)]
  have "front_open (as_in_flight a')"
    using assms(2,3) by (cases "as_in_flight a"; cases "as_in_flight a'") (auto simp: assembler_inv_def front_open_def)
  then show ?thesis using k assms(2) by (simp add: assembler_inv_def)
qed

lemma same_resolved: "bf_resolved b = bf_resolved (bs ! i) \<Longrightarrow> map bf_resolved (bs[i := b]) = map bf_resolved bs"
proof (cases "i < length bs")
  case True
  moreover assume "bf_resolved b = bf_resolved (bs ! i)"
  ultimately show ?thesis using list_update_id [of "map bf_resolved bs" i] by (simp add: map_update)
qed (simp add: list_update_beyond)

lemma touch_keeps:
  assumes "assembler_inv a"
  shows "assembler_inv (touch b now a)" "ids (touch b now a) = ids a" "as_config (touch b now a) = as_config a"
    "map bf_resolved (as_in_flight (touch b now a)) = map bf_resolved (as_in_flight a)"
proof -
  obtain idx where s: "step_at idx a (touch b now a)" using touch_step by blast
  show r: "map bf_resolved (as_in_flight (touch b now a)) = map bf_resolved (as_in_flight a)"
    by (auto simp: touch_def same_resolved split: option.split)
  show "assembler_inv (touch b now a)" by (rule step_at_inv [OF s assms r])
  show "ids (touch b now a) = ids a" "as_config (touch b now a) = as_config a" using step_at_keeps [OF s] by auto
qed

lemma on_resend_answer_keeps:
  assumes "assembler_inv a"
  shows "assembler_inv (on_resend_answer h ans a) \<and> ids (on_resend_answer h ans a) = ids a \<and>
    as_config (on_resend_answer h ans a) = as_config a"
proof -
  let ?p = "position (\<lambda>b. bf_block_id b = hdr_block_id h \<and> bf_resolved b = None) (as_in_flight a)"
  have "\<exists>idx. step_at idx a (on_resend_answer h ans a) \<and>
      map bf_resolved (as_in_flight (on_resend_answer h ans a)) = map bf_resolved (as_in_flight a)"
  proof (cases "\<exists>idx answer st. ?p = Some idx \<and> ans = Some answer \<and> bf_resend (as_in_flight a ! idx) = Some st")
    case True
    then obtain idx an st where c: "?p = Some idx" "ans = Some an" "bf_resend (as_in_flight a ! idx) = Some st"
      by blast
    have "step_at idx a (on_resend_answer h ans a)"
      using c unavailable_spec(1) [of st]
      by (auto simp: on_resend_answer_def Let_def case_prod_beta block_inv_def intro!: step_at_set)
    moreover have "map bf_resolved (as_in_flight (on_resend_answer h ans a)) = map bf_resolved (as_in_flight a)"
      using c by (simp add: on_resend_answer_def Let_def case_prod_beta same_resolved)
    ultimately show ?thesis by blast
  next
    case False
    then have "on_resend_answer h ans a = a"
      by (auto simp: on_resend_answer_def Let_def split: option.splits)
    then show ?thesis by (auto intro: step_at_refl)
  qed
  then show ?thesis using step_at_inv assms step_at_keeps by blast
qed

lemma deliver_keeps:
  assumes inv: "assembler_inv a" and idx: "idx < length (as_in_flight a)"
    and r: "deliver idx h c now a = (a', out)"
  shows "assembler_inv a' \<and> as_config a' = as_config a \<and> flow a [] a' out"
proof -
  let ?b = "(as_in_flight a ! idx)\<lparr>bf_last_packet := now\<rparr>"
  let ?a = "set_block idx ?b a"
  have s: "step_at idx a ?a" by (rule step_at_set) (simp_all add: block_inv_def)
  have "map bf_resolved (as_in_flight ?a) = map bf_resolved (as_in_flight a)" by (simp add: same_resolved)
  note inv' = step_at_inv [OF s inv this] and k = step_at_keeps [OF s]
  show ?thesis
  proof (cases "bf_resolved ?b")
    case None
    then have e: "deliver idx h c now a = emit (take_packet idx h c now ?a)" by (simp add: deliver_def)
    have open_: "bf_resolved (as_in_flight ?a ! idx) = None" "idx < length (as_in_flight ?a)"
      using None idx by simp_all
    from step_at_trans [OF s take_packet_step [OF this]]
    have t: "step_at idx a (take_packet idx h c now ?a)" .
    note tk = step_at_keeps [OF t] and ek = emit_keeps [of "take_packet idx h c now ?a"]
    show ?thesis
      using r tk ek emit_flow [of "take_packet idx h c now ?a"] emit_eq(3) [of "take_packet idx h c now ?a"] inv
      by (auto simp: e assembler_inv_def flow_def)
  next
    case (Some res)
    then have "\<exists>f. a' = count f ?a \<and> out = []"
      using r by (auto simp: deliver_def Let_def split: resolution.splits frame_status.splits)
    then show ?thesis using inv' k by (auto simp: assembler_inv_def flow_same)
  qed
qed

lemma assembler_inv_same:
  "as_in_flight a' = as_in_flight a \<Longrightarrow> as_config a' = as_config a \<Longrightarrow> assembler_inv a' = assembler_inv a"
  by (simp add: assembler_inv_def)

lemma ingest_cases:
  obtains (answer) h ans where "parse_header d = Ok h" "resend_answer (hdr_status h) = Some ans"
  | (malformed) "\<And>h. parse_header d = Ok h \<Longrightarrow> resend_answer (hdr_status h) = None" "\<And>p. parse_packet_ref d \<noteq> Ok p"
  | (packet) p where "parse_packet_ref d = Ok p" "resend_answer (hdr_status (pkt_header p)) = None"
proof (cases "parse_packet_ref d")
  case (Ok p)
  then show thesis using answer packet packet_header [OF Ok] by (cases "resend_answer (hdr_status (pkt_header p))") auto
next
  case (Err e)
  then show thesis using answer malformed
    by (cases "\<exists>h ans. parse_header d = Ok h \<and> resend_answer (hdr_status h) = Some ans") auto
next
  case Panic
  then show thesis using answer malformed
    by (cases "\<exists>h ans. parse_header d = Ok h \<and> resend_answer (hdr_status h) = Some ans") auto
qed

text \<open>When a datagram opens a block: it parses as a usable packet of a block that is not in flight
  and not behind the newest one.\<close>

definition opens :: "bytes \<Rightarrow> assembler \<Rightarrow> bool" where
  "opens d a \<longleftrightarrow>
     (case parse_packet_ref d of
        Ok p \<Rightarrow>
          resend_answer (hdr_status (pkt_header p)) = None \<and>
          (case pkt_content p of
             Unsupported _ \<Rightarrow> False
           | Trailer _ \<Rightarrow> True
           | _ \<Rightarrow> hdr_status (pkt_header p) AND STATUS_ERROR = 0) \<and>
          hdr_block_id (pkt_header p) \<notin> bf_block_id ` set (as_in_flight a) \<and>
          classify (as_last_block_id a) (hdr_block_id (pkt_header p)) (hdr_extended_ids (pkt_header p))
            (case pkt_content p of Leader _ \<Rightarrow> True | _ \<Rightarrow> False) \<noteq> Late
      | _ \<Rightarrow> False)"

lemma ingest_keeps:
  assumes inv: "assembler_inv a" and r: "ingest d now a = (a', out)"
  shows "assembler_inv a' \<and> as_config a' = as_config a \<and>
    (\<exists>new. flow a new a' out \<and> (opens d a \<longleftrightarrow> new \<noteq> []) \<and>
      (new = [] \<or> (\<exists>h. parse_header d = Ok h \<and> new = [hdr_block_id h] \<and> hdr_block_id h \<notin> set (ids a))))"
proof (cases d rule: ingest_cases)
  case (answer h ans)
  let ?t = "count (record_ignored_packet IgnErrorStatus) (touch (hdr_block_id h) now a)"
  have t: "assembler_inv ?t" "ids ?t = ids a" "as_config ?t = as_config a"
    using touch_keeps [OF inv, of "hdr_block_id h" now] assembler_inv_same [of ?t "touch (hdr_block_id h) now a"]
    by simp_all
  have "\<not> opens d a" using answer packet_header [of d] by (auto simp: opens_def split: result.split)
  then show ?thesis using on_resend_answer_keeps [OF t(1), of h ans] t r ingest_answer [OF answer, of now a]
    by (auto intro: exI [of _ "[]"] simp: flow_same)
next
  case malformed
  have "a' = count (record_ignored_packet IgnMalformed) a" "out = []"
    using r ingest_malformed [OF malformed, of now a] by simp_all
  moreover have "\<not> opens d a" using malformed by (auto simp: opens_def split: result.split)
  ultimately show ?thesis using inv flow_same [of a' a "[]"] assembler_inv_same [of a' a] by auto
next
  case (packet p)
  let ?h = "pkt_header p" and ?c = "pkt_content p"
  have t: "assembler_inv (touch (hdr_block_id ?h) now a)" "ids (touch (hdr_block_id ?h) now a) = ids a"
    "as_config (touch (hdr_block_id ?h) now a) = as_config a"
    using touch_keeps [OF inv] by simp_all
  have touched: ?thesis if "a' = f (touch (hdr_block_id ?h) now a)" "out = []"
    "as_in_flight (f (touch (hdr_block_id ?h) now a)) = as_in_flight (touch (hdr_block_id ?h) now a)"
    "as_config (f (touch (hdr_block_id ?h) now a)) = as_config (touch (hdr_block_id ?h) now a)" 
    "\<not> opens d a" for f
    using that t assembler_inv_same [of a' "touch (hdr_block_id ?h) now a"]
    by (auto simp: flow_same intro!: exI [of _ "[]"])
  let ?l = "case ?c of Leader _ \<Rightarrow> True | _ \<Rightarrow> False"
  let ?fresh = "hdr_block_id ?h \<notin> set (ids a) \<and> classify (as_last_block_id a) (hdr_block_id ?h) (hdr_extended_ids ?h) ?l \<noteq> Late"
  have admitted: ?thesis if o: "opens d a \<longleftrightarrow> ?fresh" and i: "ingest d now a = (case admit ?h ?l now a of
            (None, a, out) \<Rightarrow> (count (record_ignored_packet IgnLate) a, out)
          | (Some idx, a, out) \<Rightarrow> (case deliver idx ?h ?c now a of (a, out') \<Rightarrow> (a, out @ out')))"
  proof -
    obtain x m mout where ad: "admit ?h ?l now a = (x, m, mout)" by (metis prod_cases3)
    note ak = admit_keeps [OF inv ad]
    have xn: "x = None \<longleftrightarrow> hdr_block_id ?h \<notin> set (ids a) \<and> \<not> ?fresh"
    proof (cases "position (\<lambda>b. bf_block_id b = hdr_block_id ?h) (as_in_flight a)")
      case None
      then have "hdr_block_id ?h \<notin> set (ids a)" by (auto simp: position_eq_None)
      moreover have "x = None \<longleftrightarrow>
          classify (as_last_block_id a) (hdr_block_id ?h) (hdr_extended_ids ?h) ?l = Late"
        using arg_cong [OF ad, of fst] by (auto simp: admit_def None Let_def case_prod_beta split: if_splits)
      ultimately show ?thesis by simp
    next
      case (Some i)
      then have "hdr_block_id ?h \<in> set (ids a)" using position_eq_Some [OF Some] by (metis length_map nth_map nth_mem)
      moreover have "x = Some i" using ad Some by (simp add: admit_def)
      ultimately show ?thesis by simp
    qed
    have new: "(if hdr_block_id ?h \<in> set (ids a) \<or> x = None then [] else [hdr_block_id ?h]) = [] \<or>
        (\<exists>h. parse_header d = Ok h \<and> (if hdr_block_id ?h \<in> set (ids a) \<or> x = None then [] else [hdr_block_id ?h]) =
           [hdr_block_id h] \<and> hdr_block_id h \<notin> set (ids a))"
      using packet_header [OF packet(1)] by auto
    show ?thesis
    proof (cases x)
      case None
      then have "a' = count (record_ignored_packet IgnLate) a" "out = []" using r i ad ak(3) by auto
      moreover have "\<not> opens d a" using o xn None by auto
      ultimately show ?thesis using inv flow_same [of a' a "[]"] assembler_inv_same [of a' a] by auto
    next
      case (Some idx)
      obtain a2 o2 where dl: "deliver idx ?h ?c now m = (a2, o2)" by fastforce
      have res: "a' = a2" "out = mout @ o2" using r i ad Some dl by auto
      have "idx < length (as_in_flight m)" using ak(4) [OF Some] by simp
      note dk = deliver_keeps [OF ak(1) this dl]
      from flow_trans [OF ak(5)] dk have "flow a ((if hdr_block_id ?h \<in> set (ids a) \<or> x = None then [] else [hdr_block_id ?h]) @ []) a2 (mout @ o2)"
        by blast
      moreover have "opens d a \<longleftrightarrow> (if hdr_block_id ?h \<in> set (ids a) \<or> x = None then [] else [hdr_block_id ?h]) \<noteq> []"
        using o xn Some by auto
      ultimately show ?thesis using dk ak(2) new res by auto
    qed
  qed
  note step = ingest_packet [OF packet, of now a]
  show ?thesis
  proof (cases "\<exists>f. ?c = Unsupported f")
    case True
    then obtain f where c: "?c = Unsupported f" ..
    have "ingest d now a = (ignore_unsupported (touch (hdr_block_id ?h) now a), [])"
      by (rule trans [OF step]) (simp add: c)
    with r have "a' = ignore_unsupported (touch (hdr_block_id ?h) now a)" "out = []" by simp_all
    then show ?thesis by (rule touched) (use packet c in \<open>simp_all add: opens_def\<close>)
  next
    case False
    show ?thesis
    proof (cases "(case ?c of Trailer _ \<Rightarrow> False | _ \<Rightarrow> True) \<and> hdr_status ?h AND STATUS_ERROR \<noteq> 0")
      case True
      then have "ingest d now a = (count (record_ignored_packet IgnErrorStatus) (touch (hdr_block_id ?h) now a), [])"
        by (intro trans [OF step]) (use False in \<open>cases ?c; simp\<close>)
      with r have c: "a' = count (record_ignored_packet IgnErrorStatus) (touch (hdr_block_id ?h) now a)" "out = []"
        by simp_all
      have n: "\<not> opens d a" using packet True by (cases ?c) (simp_all add: opens_def)
      show ?thesis by (rule touched [of "count (record_ignored_packet IgnErrorStatus)"]) (use c n in simp_all)
    next
      case ok: False
      show ?thesis
      proof (rule admitted)
        show "opens d a \<longleftrightarrow> ?fresh" using packet ok False by (cases ?c) (simp_all add: opens_def)
      qed (rule trans [OF step], use False ok in \<open>cases ?c; simp\<close>)
    qed
  qed
qed

section \<open>Ticks\<close>

lemma poll_block_step: "step_at idx a (poll_block now newest idx a)"
  using close_step [of idx a] by (simp add: poll_block_def Let_def)

lemma poll_blocks_keeps:
  "ids (fold (poll_block now newest) is a) = ids a \<and>
   as_config (fold (poll_block now newest) is a) = as_config a \<and>
   as_last_block_id (fold (poll_block now newest) is a) = as_last_block_id a \<and>
   (blocks_inv (as_config a) (as_in_flight a) \<longrightarrow>
    blocks_inv (as_config a) (as_in_flight (fold (poll_block now newest) is a)))"
proof (induction "is" arbitrary: a)
  case (Cons i "is")
  note k = step_at_keeps [OF poll_block_step [of i a now newest]]
  show ?case using Cons.IH [of "poll_block now newest i a"] k by simp
qed simp

lemma poll_keeps:
  assumes inv: "assembler_inv a"
  shows "assembler_inv (fst (poll now a))" "as_config (fst (poll now a)) = as_config a"
    "as_last_block_id (fst (poll now a)) = as_last_block_id a" "flow a [] (fst (poll now a)) (snd (poll now a))"
proof -
  let ?a = "fold (poll_block now (length (as_in_flight a) - 1)) [0..<length (as_in_flight a)] a"
  have p: "poll now a = emit ?a" by (simp add: poll_def)
  note k = poll_blocks_keeps [of now "length (as_in_flight a) - 1" "[0..<length (as_in_flight a)]" a]
  then have len: "length (as_in_flight ?a) = length (as_in_flight a)" by (metis length_map)
  show "assembler_inv (fst (poll now a))"
    using emit_keeps [of ?a] emit_eq(3) [of ?a] k len inv by (simp add: p assembler_inv_def)
  show "as_config (fst (poll now a)) = as_config a" "as_last_block_id (fst (poll now a)) = as_last_block_id a"
    using emit_eq(3,4) [of ?a] k by (simp_all add: p)
  show "flow a [] (fst (poll now a)) (snd (poll now a))" using emit_flow [of ?a] k by (simp add: p flow_def)
qed

text \<open>Asking for lost packets changes nothing but the resend state of the blocks.\<close>

lemma resend_loop_keeps:
  assumes "resend_loop now config bs stats = (bs', stats', out)"
  shows "map (\<lambda>b. b\<lparr>bf_resend := None\<rparr>) bs' = map (\<lambda>b. b\<lparr>bf_resend := None\<rparr>) bs \<and>
    ((\<forall>b \<in> set bs. block_inv L b) \<longrightarrow> (\<forall>b \<in> set bs'. block_inv L b))"
  using assms
proof (induction bs arbitrary: bs' stats stats' out)
  case (Cons b bs)
  show ?case
  proof (cases "\<exists>st. bf_resolved b = None \<and> bf_resend b = Some st")
    case True
    then obtain st where st: "bf_resolved b = None" "bf_resend b = Some st" by blast
    obtain report st' o1 where d: "due now (ac_resend config) (block_packets (ac_packet_size config) b st)
        (bf_block_id b, bf_extended_ids b) st = (report, st', o1)" by (metis prod_cases3)
    let ?stats = "if newly_requested report > 0 then record_resend_requested (word_of_nat (newly_requested report)) stats else stats"
    obtain bs2 s2 o2 where l: "resend_loop now config bs ?stats = (bs2, s2, o2)" by (metis prod_cases3)
    have "bs' = b\<lparr>bf_resend := Some st'\<rparr> # bs2" using Cons.prems st d l by simp
    moreover have "map (\<lambda>b. b\<lparr>bf_resend := None\<rparr>) bs2 = map (\<lambda>b. b\<lparr>bf_resend := None\<rparr>) bs \<and>
      ((\<forall>b \<in> set bs. block_inv L b) \<longrightarrow> (\<forall>b \<in> set bs2. block_inv L b))"
      by (rule Cons.IH [OF l])
    moreover have "block_inv L b \<Longrightarrow> block_inv L (b\<lparr>bf_resend := Some st'\<rparr>)"
      using due_spec(1) [OF _ d] st by (simp add: block_inv_def)
    ultimately show ?thesis by simp
  next
    case False
    obtain bs2 s2 o2 where l: "resend_loop now config bs stats = (bs2, s2, o2)" by (metis prod_cases3)
    have "bs' = b # bs2"
      using Cons.prems False l by (cases "bf_resolved b"; cases "bf_resend b") auto
    then show ?thesis using Cons.IH [OF l] by auto
  qed
qed simp

end
