(* ===== verification/Assembly_Props.thy ===== *)
theory Assembly_Props
  imports Assembly_Inv
begin

text \<open>
  What the block assembler promises for every stream of datagrams and ticks: bounded state
  whatever the network sends, blocks handed out in the order they started, timeouts that fire and
  fire only when due, and the classification of block ids across the wrap of the 16-bit cycle.
\<close>

section \<open>Reachable states\<close>

inductive reachable :: "assembly_config \<Rightarrow> assembler \<Rightarrow> assembled_block list \<Rightarrow> bool" for config where
  start: "reachable config (assembler_new config stats) []"
| datagram: "reachable config a out \<Longrightarrow> ingest d now a = (a', new) \<Longrightarrow> reachable config a' (out @ new)"
| tick: "reachable config a out \<Longrightarrow> poll now a = (a', new) \<Longrightarrow> reachable config a' (out @ new)"
| ask: "reachable config a out \<Longrightarrow> resend_due now a = (a', requests) \<Longrightarrow> reachable config a' out"

lemma resend_due_keeps:
  assumes inv: "assembler_inv a" and r: "resend_due now a = (a', requests)"
  shows "assembler_inv a' \<and> as_config a' = as_config a"
proof (cases "rc_enabled (ac_resend (as_config a))")
  case True
  obtain bs stats out where l: "resend_loop now (as_config a) (as_in_flight a) (as_stats a) = (bs, stats, out)"
    by (metis prod_cases3)
  have a': "as_in_flight a' = bs" "as_config a' = as_config a" using r True l by (auto simp: resend_due_def)
  note k = resend_loop_keeps [OF l, of "buffer_limit (as_config a)"]
  then have same: "map (\<lambda>b. b\<lparr>bf_resend := None\<rparr>) bs = map (\<lambda>b. b\<lparr>bf_resend := None\<rparr>) (as_in_flight a)" by simp
  have i: "map bf_block_id bs = ids a" using arg_cong [OF same, of "map bf_block_id"] by (simp add: comp_def)
  have res: "map bf_resolved bs = map bf_resolved (as_in_flight a)"
    using arg_cong [OF same, of "map bf_resolved"] by (simp add: comp_def)
  have len: "length bs = length (as_in_flight a)" using map_eq_imp_length_eq [OF same] by simp
  have "front_open bs"
    using res inv by (cases bs; cases "as_in_flight a") (auto simp: front_open_def assembler_inv_def)
  then show ?thesis using inv k i len a' by (simp add: assembler_inv_def blocks_inv_def)
qed (use assms in \<open>auto simp: resend_due_def\<close>)

lemma new_inv: "assembler_inv (assembler_new config stats)"
  by (simp add: assembler_inv_def assembler_new_def front_open_def blocks_inv_def)

lemma reachable_inv:
  "reachable config a out \<Longrightarrow> assembler_inv a \<and> as_config a = config"
proof (induction rule: reachable.induct)
  case (start stats)
  then show ?case using new_inv by (simp add: assembler_new_def)
next
  case (datagram a out d now a' new)
  then show ?case using ingest_keeps by blast
next
  case (tick a out now a' new)
  then show ?case using poll_keeps [of a now] by auto
next
  case (ask a out now a' requests)
  then show ?case using resend_due_keeps by auto
qed

section \<open>Delivered blocks\<close>

definition block_sound :: "nat \<Rightarrow> assembled_block \<Rightarrow> bool" where
  "block_sound limit b \<longleftrightarrow> length (ab_payload b) \<le> limit \<and>
     (ab_status b = Complete \<longrightarrow>
        ab_leader b \<noteq> None \<and> ab_trailer_size_y b \<noteq> None \<and> ab_expected_size b = Some (length (ab_payload b)))"

lemma delivered_sound:
  "\<forall>b \<in> set bs. block_inv limit b \<Longrightarrow> \<forall>b \<in> set (delivered ps bs). block_sound limit b"
proof (induction bs)
  case (Cons b bs)
  have "block_sound limit (assembled ps b st)" if "bf_resolved b = Some (RFrame st)" for st
    using Cons.prems that
    by (auto simp: block_sound_def assembled_def block_inv_def expected_size_def is_complete_def)
  then show ?case using Cons by (auto split: option.splits resolution.splits)
qed simp

lemma emit_sound:
  assumes "blocks_inv (as_config a) (as_in_flight a)"
  shows "\<forall>b \<in> set (snd (emit a)). block_sound (buffer_limit (as_config a)) b"
  unfolding emit_eq
  by (rule delivered_sound) (use assms in \<open>auto simp: blocks_inv_def dest: set_takeWhileD\<close>)

lemma make_room_sound:
  assumes "blocks_inv (as_config a) (as_in_flight a)"
  shows "\<forall>b \<in> set (snd (make_room a)). block_sound (buffer_limit (as_config a)) b"
  using assms
proof (induction a rule: make_room.induct)
  case (1 a)
  show ?case
  proof (cases "MAX_IN_FLIGHT \<le> length (as_in_flight a)")
    case True
    let ?c = "close_oldest a"
    obtain b out where e: "emit ?c = (b, out)" by fastforce
    have "step_at 0 a ?c" using close_step [of 0 a] by (simp add: close_oldest_def)
    note k = step_at_keeps [OF this]
    have inv: "blocks_inv (as_config ?c) (as_in_flight ?c)" using k "1.prems" by simp
    have b: "as_config b = as_config a" "blocks_inv (as_config b) (as_in_flight b)"
      using emit_keeps(3) [OF inv] emit_eq(3) [of ?c] k by (simp_all add: e)
    have "make_room a = (fst (make_room b), out @ snd (make_room b))"
      using True e by (subst make_room.simps) (simp add: case_prod_beta)
    moreover have "\<forall>x \<in> set (snd (make_room b)). block_sound (buffer_limit (as_config b)) x"
      using "1.IH" [OF True] e b(2) by (metis fst_conv)
    ultimately show ?thesis using emit_sound [OF inv] b k by (auto simp: e)
  next
    case False
    then have "make_room a = (a, [])" by (subst make_room.simps) simp
    then show ?thesis by simp
  qed
qed

lemma admit_sound:
  assumes inv: "assembler_inv a" and r: "admit header is_leader now a = (x, a', out)"
  shows "\<forall>b \<in> set out. block_sound (buffer_limit (as_config a)) b"
proof -
  let ?n = "note_order header (classify (as_last_block_id a) (hdr_block_id header) (hdr_extended_ids header) is_leader) a"
  have "out = [] \<or> out = snd (make_room ?n)"
    using r by (auto simp: admit_def Let_def split: option.splits if_splits prod.splits)
  moreover have "blocks_inv (as_config ?n) (as_in_flight ?n)" using inv by (simp add: assembler_inv_def)
  ultimately show ?thesis using make_room_sound [of ?n] by auto
qed

lemma deliver_sound:
  assumes inv: "assembler_inv a" and idx: "idx < length (as_in_flight a)"
  shows "\<forall>b \<in> set (snd (deliver idx h c now a)). block_sound (buffer_limit (as_config a)) b"
proof -
  let ?b = "(as_in_flight a ! idx)\<lparr>bf_last_packet := now\<rparr>"
  let ?a = "set_block idx ?b a"
  have s: "step_at idx a ?a" by (rule step_at_set) (simp_all add: block_inv_def)
  show ?thesis
  proof (cases "bf_resolved ?b")
    case None
    then have e: "deliver idx h c now a = emit (take_packet idx h c now ?a)" by (simp add: deliver_def)
    have "bf_resolved (as_in_flight ?a ! idx) = None" "idx < length (as_in_flight ?a)"
      using None idx by simp_all
    note k = step_at_keeps [OF step_at_trans [OF s take_packet_step [OF this]]]
    have "blocks_inv (as_config (take_packet idx h c now ?a)) (as_in_flight (take_packet idx h c now ?a))"
      using k inv by (simp add: assembler_inv_def)
    from emit_sound [OF this] k(2) show ?thesis unfolding e by simp
  next
    case (Some res)
    then have "snd (deliver idx h c now a) = []"
      by (auto simp: deliver_def Let_def split: resolution.splits frame_status.splits)
    then show ?thesis by simp
  qed
qed

lemma ingest_sound:
  assumes inv: "assembler_inv a"
  shows "\<forall>b \<in> set (snd (ingest d now a)). block_sound (buffer_limit (as_config a)) b"
proof (cases d rule: ingest_cases)
  case (packet p)
  let ?h = "pkt_header p" and ?c = "pkt_content p"
  obtain x m mout where ad: "admit ?h (case ?c of Leader _ \<Rightarrow> True | _ \<Rightarrow> False) now a = (x, m, mout)"
    by (metis prod_cases3)
  note ak = admit_keeps [OF inv ad]
  have dl: "\<forall>b \<in> set (snd (deliver idx ?h ?c now m)). block_sound (buffer_limit (as_config a)) b"
    if "x = Some idx" for idx
    using deliver_sound [OF ak(1), of idx] ak(2,4) that by simp
  have "snd (ingest d now a) = [] \<or> (case x of None \<Rightarrow> snd (ingest d now a) = mout
      | Some idx \<Rightarrow> snd (ingest d now a) = mout @ snd (deliver idx ?h ?c now m))"
    unfolding ingest_packet [OF packet, of now a] using ad
    by (cases ?c) (auto split: option.splits prod.splits)
  then show ?thesis using admit_sound [OF inv ad] dl by (cases x) auto
qed (simp_all add: ingest_answer ingest_malformed)

lemma poll_sound:
  assumes inv: "assembler_inv a"
  shows "\<forall>b \<in> set (snd (poll now a)). block_sound (buffer_limit (as_config a)) b"
proof -
  let ?a = "fold (poll_block now (length (as_in_flight a) - 1)) [0..<length (as_in_flight a)] a"
  have p: "poll now a = emit ?a" by (simp add: poll_def)
  note k = poll_blocks_keeps [of now "length (as_in_flight a) - 1" "[0..<length (as_in_flight a)]" a]
  then show ?thesis using emit_sound [of ?a] inv by (simp add: p assembler_inv_def)
qed

lemma reachable_sound:
  "reachable config a out \<Longrightarrow> \<forall>b \<in> set out. block_sound (buffer_limit config) b"
proof (induction rule: reachable.induct)
  case (datagram a out d now a' new)
  then show ?case using ingest_sound [of a d now] reachable_inv [OF datagram.hyps(1)] by auto
next
  case (tick a out now a' new)
  then show ?case using poll_sound [of a now] reachable_inv [OF tick.hyps(1)] by auto
qed auto

section \<open>Timeouts\<close>

text \<open>Whether the block timeout closes the block at index \<open>i\<close>.\<close>

definition timed_out :: "instant \<Rightarrow> assembler \<Rightarrow> nat \<Rightarrow> bool" where
  "timed_out now a i \<longleftrightarrow>
     (let b = as_in_flight a ! i in
      ac_block_timeout (as_config a) \<le> now - bf_last_packet b \<and>
      \<not> (i = length (as_in_flight a) - 1 \<and> bf_leader b \<noteq> None \<and> \<not> bf_any_payload b \<and> bf_trailer b = None))"

text \<open>
  How a block ends that the timeout closes or that is resolved already: nothing is handed out for
  an unsupported one, a frame with the given status for any other.
\<close>

definition ending :: "block_in_flight \<Rightarrow> resolution" where
  "ending b =
     (case bf_resolved b of
        Some r \<Rightarrow> r
      | None \<Rightarrow>
          if bf_unsupported b then RUnsupported
          else RFrame (if bf_trailer b = None then TrailerMissing else Incomplete (missing_with_trailer b)))"

definition frame_of :: "block_in_flight \<Rightarrow> (u64 \<times> frame_status \<times> bytes) option" where
  "frame_of b =
     (case ending b of
        RUnsupported \<Rightarrow> None
      | RFrame st \<Rightarrow> Some (bf_block_id b, st, take (bf_extent b) (bf_buffer b)))"

lemma frame_of_ended [simp]: "bf_resolved b = None \<Longrightarrow> frame_of (b\<lparr>bf_resolved := Some (ending b)\<rparr>) = frame_of b"
  by (simp add: frame_of_def ending_def)

lemma close_other [simp]: "j \<noteq> i \<Longrightarrow> as_in_flight (close i a) ! j = as_in_flight a ! j"
  by (simp add: close_def Let_def set_block_def count_def)

lemma close_this:
  "i < length (as_in_flight a) \<Longrightarrow> bf_resolved (as_in_flight a ! i) = None \<Longrightarrow>
   as_in_flight (close i a) ! i = (as_in_flight a ! i)\<lparr>bf_resolved := Some (ending (as_in_flight a ! i))\<rparr>"
  by (simp add: close_def ending_def Let_def set_block_def count_def)

lemma poll_blocks_each:
  fixes a now
  defines "new n \<equiv> fold (poll_block now (length (as_in_flight a) - 1)) [0..<n] a"
  assumes "n \<le> length (as_in_flight a)"
  shows "length (as_in_flight (new n)) = length (as_in_flight a) \<and>
    as_config (new n) = as_config a \<and>
    (\<forall>i < length (as_in_flight a).
      as_in_flight (new n) ! i =
        (if i < n \<and> bf_resolved (as_in_flight a ! i) = None \<and> timed_out now a i
         then (as_in_flight a ! i)\<lparr>bf_resolved := Some (ending (as_in_flight a ! i))\<rparr>
         else as_in_flight a ! i))"
  using assms(2)
proof (induction n)
  case 0
  then show ?case by (simp add: new_def)
next
  case (Suc n)
  let ?closed = "\<lambda>b. b\<lparr>bf_resolved := Some (ending b)\<rparr>"
  have eq: "new (Suc n) = poll_block now (length (as_in_flight a) - 1) n (new n)" by (simp add: new_def)
  have IH: "length (as_in_flight (new n)) = length (as_in_flight a)" "as_config (new n) = as_config a"
    and each: "\<And>i. i < length (as_in_flight a) \<Longrightarrow> as_in_flight (new n) ! i =
      (if i < n \<and> bf_resolved (as_in_flight a ! i) = None \<and> timed_out now a i
       then ?closed (as_in_flight a ! i) else as_in_flight a ! i)"
    using Suc by auto
  have here: "as_in_flight (new n) ! n = as_in_flight a ! n" using each [of n] Suc.prems by simp
  have pb: "new (Suc n) = (if bf_resolved (as_in_flight a ! n) = None \<and> timed_out now a n then close n (new n) else new n)"
    unfolding eq poll_block_def timed_out_def Let_def here IH(2) by (auto simp: not_less)
  have cfg: "as_config (new (Suc n)) = as_config a" "length (as_in_flight (new (Suc n))) = length (as_in_flight a)"
    using step_at_keeps [OF close_step [of n "new n"]] IH by (simp_all add: pb)
  have "as_in_flight (new (Suc n)) ! i = (if i < Suc n \<and> bf_resolved (as_in_flight a ! i) = None \<and> timed_out now a i
      then ?closed (as_in_flight a ! i) else as_in_flight a ! i)" if i: "i < length (as_in_flight a)" for i
  proof (cases "i = n")
    case True
    then show ?thesis using here i close_this [of n "new n"] IH(1) by (simp add: pb)
  next
    case False
    then have "as_in_flight (new (Suc n)) ! i = as_in_flight (new n) ! i" by (simp add: pb)
    then show ?thesis using each [OF i] False by (simp add: less_Suc_eq)
  qed
  with cfg show ?case by blast
qed

lemma map_filter_via_map: "List.map_filter f xs = map the (filter (\<lambda>r. r \<noteq> None) (map f xs))"
  by (simp add: List.map_filter_def filter_map comp_def)

lemma map_filter_cong_map: "map f xs = map g ys \<Longrightarrow> List.map_filter f xs = List.map_filter g ys"
  by (simp add: map_filter_via_map)

lemma delivered_endings:
  assumes "\<forall>b \<in> set bs. bf_resolved b \<noteq> None"
  shows "map (\<lambda>b. (ab_block_id b, ab_status b, ab_payload b)) (delivered ps bs) =
    List.map_filter frame_of bs"
  using assms
  by (induction bs) (auto simp: frame_of_def ending_def assembled_def List.map_filter_def split: resolution.splits)

section \<open>Block ids on the 16-bit cycle\<close>

text \<open>The id at position \<open>p\<close> of the cycle \<open>1..=65535\<close>.\<close>

definition cycle_id :: "nat \<Rightarrow> u64" where
  "cycle_id p = word_of_nat (p mod 65535 + 1)"

lemma sint_cycle_id: "sint (cycle_id p) = int (p mod 65535) + 1"
proof -
  have b: "p mod 65535 < 65535" by simp
  then have u: "uint (cycle_id p) = int (p mod 65535 + 1)"
    unfolding cycle_id_def by (subst uint_nat, subst unat_of_nat_small) auto
  have "uint (cycle_id p) < 65536" unfolding u using b by linarith
  then have "sint (cycle_id p) = uint (cycle_id p)"
    by (subst sint_uint, intro signed_take_bit_int_eq_self) (simp_all add: u)
  then show ?thesis using u by simp
qed

lemma distance16_cycle:
  assumes "k \<le> 32767"
  shows "distance16 (cycle_id p) (cycle_id (p + k)) = int k"
    and "distance16 (cycle_id (p + k)) (cycle_id p) = - int k"
proof -
  have pos: "(sint (cycle_id q) - 1) mod 65535 = int q mod 65535" for q
    by (simp add: sint_cycle_id zmod_int)
  have "(int (p + k) mod 65535 - int p mod 65535) mod 65535 = int k"
    using assms by (simp add: mod_diff_eq)
  then show "distance16 (cycle_id p) (cycle_id (p + k)) = int k"
    unfolding distance16_def Let_def pos using assms by simp
  have "(int p mod 65535 - int (p + k) mod 65535) mod 65535 = (- int k) mod 65535"
    by (simp add: mod_diff_eq)
  also have "\<dots> = (if k = 0 then 0 else 65535 - int k)" using assms by (simp add: zmod_zminus1_eq_if)
  finally show "distance16 (cycle_id (p + k)) (cycle_id p) = - int k"
    unfolding distance16_def Let_def pos using assms by (auto split: if_splits)
qed

lemma cycle_id_nonzero: "cycle_id p \<noteq> 0"
  using sint_cycle_id [of p] by auto

section \<open>Properties\<close>

text \<open>
  C2. Whatever datagrams arrive, in whatever order and at whatever times, the assembler's state
  stays bounded: at most three blocks in flight, with distinct ids, the oldest of them still open,
  and no buffer beyond 256 MiB or \<open>PayloadSize\<close> (whichever is larger) and no packet bitmap beyond
  one bit more than that, although leaders, packet ids and trailers are remote input.
\<close>
theorem assembler_bounded:
  assumes "reachable config a out"
  shows "length (as_in_flight a) \<le> 3 \<and> distinct (map bf_block_id (as_in_flight a)) \<and>
    (as_in_flight a \<noteq> [] \<longrightarrow> bf_resolved (hd (as_in_flight a)) = None) \<and>
    (\<forall>b \<in> set (as_in_flight a).
       length (bf_buffer b) \<le> max ESTIMATE_CAP (case ac_payload_size config of None \<Rightarrow> 0 | Some n \<Rightarrow> n) \<and>
       bitmap_len (bf_bitmap b) \<le> max ESTIMATE_CAP (case ac_payload_size config of None \<Rightarrow> 0 | Some n \<Rightarrow> n) + 1)"
  using reachable_inv [OF assms]
  by (auto simp: assembler_inv_def blocks_inv_def front_open_def MAX_IN_FLIGHT_def buffer_limit_def [symmetric]
      block_inv_def)

lemma assembler_bounded_witness:
  "length (as_in_flight (fst (ingest [1, 2] 5 (assembler_new (assembly_config_new 1500) stats_new)))) \<le> 3"
proof -
  let ?c = "assembly_config_new 1500"
  let ?r = "ingest [1, 2] 5 (assembler_new ?c stats_new)"
  have "reachable ?c (fst ?r) ([] @ snd ?r)"
    by (rule reachable.datagram [OF reachable.start [of ?c stats_new], of "[1, 2]" 5]) simp
  from assembler_bounded [OF this] show ?thesis by simp
qed

lemma delivered_prefix:
  assumes "length blocks = length old" and "\<And>i. i < length old \<Longrightarrow> frame_of (blocks ! i) = frame_of (old ! i)"
  shows "map (\<lambda>b. (ab_block_id b, ab_status b, ab_payload b)) (delivered p (takeWhile (\<lambda>b. bf_resolved b \<noteq> None) blocks)) =
    List.map_filter frame_of (take (length (takeWhile (\<lambda>b. bf_resolved b \<noteq> None) blocks)) old)"
proof -
  let ?gone = "takeWhile (\<lambda>b. bf_resolved b \<noteq> None) blocks"
  have k: "length ?gone \<le> length old" using length_takeWhile_le [of _ blocks] assms(1) by simp
  have "map frame_of ?gone = map frame_of (take (length ?gone) old)"
    using k assms(2) by (intro nth_equalityI) (simp_all add: takeWhile_nth)
  then have "List.map_filter frame_of ?gone = List.map_filter frame_of (take (length ?gone) old)"
    by (rule map_filter_cong_map)
  moreover have "\<forall>b \<in> set ?gone. bf_resolved b \<noteq> None" by (blast dest: set_takeWhileD)
  ultimately show ?thesis by (simp only: delivered_endings)
qed

text \<open>
  C5. A tick closes exactly the blocks that timed out: nothing arrived for them for the block
  timeout, and they are not the newest with only its leader in. The oldest blocks, up to the first
  that is still open, leave; every one of them that is not unsupported is handed out, in order, with
  its id, the bytes received so far and its status (incomplete when its trailer came, without a
  trailer otherwise, or as it was resolved before). Behind that first open block a timed-out block
  is resolved and waits, and every other block stays as it is.
\<close>
theorem poll_timeouts:
  fixes a now
  defines "n \<equiv> length (as_in_flight a)"
  assumes "poll now a = (a', out)"
  shows "\<exists>k \<le> n. length (as_in_flight a') = n - k \<and>
    (\<forall>i < k. bf_resolved (as_in_flight a ! i) \<noteq> None \<or> timed_out now a i) \<and>
    (k < n \<longrightarrow> bf_resolved (as_in_flight a ! k) = None \<and> \<not> timed_out now a k) \<and>
    map (\<lambda>b. (ab_block_id b, ab_status b, ab_payload b)) out =
      List.map_filter frame_of (take k (as_in_flight a)) \<and>
    (\<forall>i. k \<le> i \<and> i < n \<longrightarrow>
       as_in_flight a' ! (i - k) =
         (if bf_resolved (as_in_flight a ! i) = None \<and> timed_out now a i
          then (as_in_flight a ! i)\<lparr>bf_resolved := Some (ending (as_in_flight a ! i))\<rparr>
          else as_in_flight a ! i))"
proof -
  let ?R = "\<lambda>b. bf_resolved b \<noteq> None" and ?closed = "\<lambda>b. b\<lparr>bf_resolved := Some (ending b)\<rparr>"
  let ?a = "fold (poll_block now (n - 1)) [0..<n] a" and ?k = "length (takeWhile ?R
    (as_in_flight (fold (poll_block now (n - 1)) [0..<n] a)))"
  have e: "as_in_flight a' = drop ?k (as_in_flight ?a)"
    "out = delivered (ac_packet_size (as_config ?a)) (takeWhile ?R (as_in_flight ?a))"
    using emit_eq(1,2) [of ?a] assms(2) by (simp_all add: poll_def n_def dropWhile_eq_drop)
  have len: "length (as_in_flight ?a) = n"
    and each: "\<And>i. i < n \<Longrightarrow> as_in_flight ?a ! i = (if bf_resolved (as_in_flight a ! i) = None \<and> timed_out now a i
       then ?closed (as_in_flight a ! i) else as_in_flight a ! i)"
    using poll_blocks_each [of n a now] by (auto simp: n_def)
  have k: "?k \<le> n" using length_takeWhile_le [of ?R "as_in_flight ?a"] len by simp
  have before: "?R (as_in_flight ?a ! i)" if "i < ?k" for i
    using set_takeWhileD [OF nth_mem [OF that]] takeWhile_nth [OF that] by simp
  have at_k: "\<not> ?R (as_in_flight ?a ! ?k)" if "?k < n"
    using nth_length_takeWhile [of ?R "as_in_flight ?a"] that len by simp
  have "frame_of (as_in_flight ?a ! i) = frame_of (as_in_flight a ! i)" if "i < n" for i
    using each [OF that] by simp
  then have out: "map (\<lambda>b. (ab_block_id b, ab_status b, ab_payload b)) out =
      List.map_filter frame_of (take ?k (as_in_flight a))"
    unfolding e(2) using len by (intro delivered_prefix) (simp_all add: n_def)
  show ?thesis
  proof (intro exI [of _ ?k] conjI allI impI)
    fix i assume "i < ?k"
    then show "?R (as_in_flight a ! i) \<or> timed_out now a i"
      using before [of i] each [of i] k by (auto split: if_splits)
  next
    assume "?k < n"
    then show "bf_resolved (as_in_flight a ! ?k) = None" "\<not> timed_out now a ?k"
      using at_k each [of ?k] by (auto split: if_splits)
  next
    fix i assume i: "?k \<le> i \<and> i < n"
    then have "as_in_flight a' ! (i - ?k) = as_in_flight ?a ! i" using len by (simp add: e)
    then show "as_in_flight a' ! (i - ?k) = (if bf_resolved (as_in_flight a ! i) = None \<and> timed_out now a i
        then ?closed (as_in_flight a ! i) else as_in_flight a ! i)"
      using each [OF conjunct2 [OF i]] by (simp only:)
  qed (use k e len out in auto)
qed

lemma poll_timeouts_witness:
  "\<exists>a' b. poll 200000000 (push_block
     \<lparr>hdr_status = 0, hdr_block_id = 9, hdr_packet_id = 1, hdr_extended_ids = False, hdr_header_len = 8\<rparr> 5
     (assembler_new (assembly_config_new 1500) stats_new)) = (a', [b]) \<and>
     as_in_flight a' = [] \<and> ab_block_id b = 9 \<and> ab_status b = TrailerMissing \<and> ab_payload b = []"
proof -
  let ?a = "push_block \<lparr>hdr_status = 0, hdr_block_id = 9, hdr_packet_id = 1, hdr_extended_ids = False,
    hdr_header_len = 8\<rparr> 5 (assembler_new (assembly_config_new 1500) stats_new)"
  have one: "as_in_flight ?a = [as_in_flight ?a ! 0]" and t: "timed_out 200000000 ?a 0"
    and b: "ending (as_in_flight ?a ! 0) = RFrame TrailerMissing" "bf_block_id (as_in_flight ?a ! 0) = 9"
      "bf_extent (as_in_flight ?a ! 0) = 0" "bf_resolved (as_in_flight ?a ! 0) = None"
    by (simp_all add: push_block_def assembler_new_def assembly_config_new_def Let_def timed_out_def block_new_def
        DEFAULT_BLOCK_TIMEOUT_def ending_def)
  then have n: "length (as_in_flight ?a) = 1" by (metis length_Cons list.size(3) One_nat_def)
  obtain a' out where p: "poll 200000000 ?a = (a', out)" by fastforce
  from poll_timeouts [OF p] obtain k where k: "k \<le> 1" "length (as_in_flight a') = 1 - k"
    "k < 1 \<longrightarrow> \<not> timed_out 200000000 ?a k"
    "map (\<lambda>b. (ab_block_id b, ab_status b, ab_payload b)) out =
      List.map_filter frame_of (take k (as_in_flight ?a))"
    unfolding n by blast
  then have k1: "k = 1" using t by (cases k) auto
  have "map (\<lambda>b. (ab_block_id b, ab_status b, ab_payload b)) out = [(9, TrailerMissing, [])]"
    using k(4) unfolding k1 by (subst (asm) one) (simp add: frame_of_def b)
  then show ?thesis using p k(2) k1 by auto
qed

text \<open>
  Sixteen-bit block ids run from 1 to 65535 and skip 0. A block \<open>k\<close> ids ahead of the newest
  (up to half the cycle) is new with \<open>k - 1\<close> missed, also across the wrap; one up to 100 behind
  is late and one further behind is a restart; a leader of block 1 from anywhere but its
  predecessor is a restart.
\<close>
theorem classify_16bit:
  assumes "1 \<le> k" and "k \<le> 32767"
  shows "classify (Some (cycle_id p)) (cycle_id (p + k)) False is_leader =
      (if cycle_id (p + k) = 1 \<and> is_leader \<and> k \<noteq> 1 then Restart else Next (word_of_nat (k - 1))) \<and>
    classify (Some (cycle_id (p + k))) (cycle_id p) False is_leader =
      (if cycle_id p = 1 \<and> is_leader then Restart else if k \<le> 100 then Late else Restart)"
proof -
  have "word_of_int (int k) - 1 = (word_of_nat (k - 1) :: u64)" using assms(1) by (simp add: of_nat_diff)
  then show ?thesis
    using assms by (auto simp: classify_def Let_def cycle_id_nonzero distance16_cycle LATE_WINDOW_def)
qed

lemma classify_16bit_witness: "classify (Some 65535) 2 False True = Next 1"
  using classify_16bit [of 2 65534 True] by (simp add: cycle_id_def)

end
