(* ===== verification/Gvsp_Encode.thy ===== *)
theory Gvsp_Encode
  imports Gvsp_Packet
begin

text \<open>
  GVSP datagrams as the in-process camera sends them
  (\<^verbatim>\<open>crates/viva-fake-gige/src/gvsp.rs\<close>): the block description, the header in its two
  layouts, leader, data and trailer packets, the datagrams of a whole block, and the chunk
  payload. The encoder shares no code with the parser of theory \<open>Gvsp_Packet\<close>; that the parser
  reads back what it writes is proved here.
\<close>

section \<open>Definitions\<close>

record block_spec =
  bs_block_id :: u64
  bs_packet_size :: u32
  bs_extended_ids :: bool
  bs_payload_type :: u16
  bs_pixel_format :: u32
  bs_width :: u32
  bs_height :: u32
  bs_timestamp :: u64
  bs_trailer_status :: u16
  bs_size_y :: u32
  bs_chunk_layout_id :: u32
  bs_padding_x :: u16

definition spec_image :: "u64 \<Rightarrow> u32 \<Rightarrow> u32 \<Rightarrow> u32 \<Rightarrow> u32 \<Rightarrow> block_spec" where
  "spec_image block_id width height pixel_format packet_size =
     \<lparr>bs_block_id = block_id, bs_packet_size = packet_size, bs_extended_ids = False,
      bs_payload_type = PAYLOAD_TYPE_IMAGE, bs_pixel_format = pixel_format, bs_width = width,
      bs_height = height, bs_timestamp = 0, bs_trailer_status = 0, bs_size_y = height,
      bs_chunk_layout_id = 0, bs_padding_x = 0\<rparr>"

definition spec_chunk_data :: "u64 \<Rightarrow> u32 \<Rightarrow> block_spec" where
  "spec_chunk_data block_id packet_size =
     (spec_image block_id 0 0 0 packet_size)
       \<lparr>bs_payload_type := PAYLOAD_TYPE_CHUNK_DATA, bs_pixel_format := 0, bs_width := 0,
        bs_height := 0, bs_size_y := 0\<rparr>"

definition spec_is_image :: "block_spec \<Rightarrow> bool" where
  "spec_is_image spec \<longleftrightarrow>
     bs_payload_type spec AND PAYLOAD_TYPE_MASK = PAYLOAD_TYPE_IMAGE \<or>
     bs_payload_type spec AND PAYLOAD_TYPE_MASK = PAYLOAD_TYPE_EXTENDED_CHUNK_DATA"

definition spec_header_len :: "block_spec \<Rightarrow> nat" where
  "spec_header_len spec =
     (if bs_extended_ids spec then GVSP_EXTENDED_HEADER_SIZE else GVSP_HEADER_SIZE)"

definition spec_payload_stride :: "block_spec \<Rightarrow> nat" where
  "spec_payload_stride spec = unat (bs_packet_size spec) - (20 + 8 + spec_header_len spec)"

datatype packet_kind = KLeader | KPayload | KTrailer

record datagram =
  dg_block_id :: u64
  dg_packet_id :: u32
  dg_kind :: packet_kind
  dg_bytes :: bytes

definition put_header :: "block_spec \<Rightarrow> u16 \<Rightarrow> u8 \<Rightarrow> u32 \<Rightarrow> bytes" where
  "put_header spec status format packet_id =
     put_u16 status @
     (if bs_extended_ids spec
      then put_u16 0 @ [EXTENDED_ID_FLAG OR format] @ [0, 0, 0] @
           put_u64 (bs_block_id spec) @ put_u32 packet_id
      else put_u16 (ucast (bs_block_id spec)) @ [format] @ drop 1 (put_u32 packet_id))"

definition leader :: "block_spec \<Rightarrow> bytes" where
  "leader spec =
     put_header spec 0 FORMAT_LEADER 0 @ put_u16 0 @ put_u16 (bs_payload_type spec) @
     put_u64 (bs_timestamp spec) @
     (if \<not> spec_is_image spec then []
      else put_u32 (bs_pixel_format spec) @ put_u32 (bs_width spec) @ put_u32 (bs_height spec) @
           put_u32 0 @ put_u32 0 @ put_u16 (bs_padding_x spec) @ put_u16 0)"

definition payload :: "block_spec \<Rightarrow> u32 \<Rightarrow> bytes \<Rightarrow> bytes" where
  "payload spec packet_id data = put_header spec 0 FORMAT_PAYLOAD packet_id @ data"

definition trailer :: "block_spec \<Rightarrow> u32 \<Rightarrow> nat \<Rightarrow> bytes" where
  "trailer spec packet_id payload_len =
     put_header spec (bs_trailer_status spec) FORMAT_TRAILER packet_id @
     put_u16 0 @ put_u16 (bs_payload_type spec) @
     (if bs_payload_type spec AND PAYLOAD_TYPE_MASK = PAYLOAD_TYPE_EXTENDED_CHUNK_DATA
      then put_u32 (word_of_nat payload_len) @ put_u32 (bs_size_y spec) @
           put_u32 (bs_chunk_layout_id spec)
      else
        put_u32 (if bs_payload_type spec AND PAYLOAD_TYPE_MASK = PAYLOAD_TYPE_CHUNK_DATA
                 then word_of_nat payload_len else bs_size_y spec) @
        (if bs_payload_type spec AND PAYLOAD_TYPE_EXTENDED_CHUNK \<noteq> 0
         then put_u32 (word_of_nat payload_len) @ put_u32 (bs_chunk_layout_id spec)
         else []))"

definition header_only :: "u64 \<Rightarrow> bool \<Rightarrow> u32 \<Rightarrow> u16 \<Rightarrow> bytes" where
  "header_only block_id extended_ids packet_id status =
     put_header ((spec_image block_id 0 0 0 0)\<lparr>bs_extended_ids := extended_ids\<rparr>)
       status FORMAT_PAYLOAD packet_id"

definition chunk_payload :: "(u32 \<times> bytes) list \<Rightarrow> bytes" where
  "chunk_payload chunks =
     concat (map (\<lambda>(cid, data). data @ put_u32 cid @ put_u32 (word_of_nat (length data))) chunks)"

text \<open>\<open>slice::chunks\<close>: pieces of \<open>n\<close> elements, the last one shorter; \<open>n = 0\<close> panics in Rust and is
  never used (the caller takes the maximum with 1).\<close>

function chunks_of :: "nat \<Rightarrow> 'a list \<Rightarrow> 'a list list" where
  "chunks_of n xs = (if xs = [] \<or> n = 0 then [] else take n xs # chunks_of n (drop n xs))"
  by pat_completeness auto
termination by (relation "measure (\<lambda>(n, xs). length xs)") auto

declare chunks_of.simps [simp del]

fun payload_datagrams :: "block_spec \<Rightarrow> u32 \<Rightarrow> bytes list \<Rightarrow> datagram list \<times> u32" where
  "payload_datagrams spec packet_id [] = ([], packet_id)"
| "payload_datagrams spec packet_id (piece # pieces) =
     (let (rest, next_id) = payload_datagrams spec (packet_id + 1) pieces in
      (\<lparr>dg_block_id = bs_block_id spec, dg_packet_id = packet_id, dg_kind = KPayload,
        dg_bytes = payload spec packet_id piece\<rparr> # rest, next_id))"

definition block_datagrams :: "block_spec \<Rightarrow> bytes \<Rightarrow> datagram list" where
  "block_datagrams spec data =
     (let stride = max (spec_payload_stride spec) 1;
          (pieces, packet_id) = payload_datagrams spec 1 (chunks_of stride data) in
      [\<lparr>dg_block_id = bs_block_id spec, dg_packet_id = 0, dg_kind = KLeader,
        dg_bytes = leader spec\<rparr>] @ pieces @
      [\<lparr>dg_block_id = bs_block_id spec, dg_packet_id = packet_id, dg_kind = KTrailer,
        dg_bytes = trailer spec packet_id (length data)\<rparr>])"

section \<open>The parser reads back what the camera writes\<close>

text \<open>What survives of the ids: 16-bit block ids and 24-bit packet ids without extended ids.\<close>

definition wire_block_id :: "block_spec \<Rightarrow> u64" where
  "wire_block_id spec =
     (if bs_extended_ids spec then bs_block_id spec else ucast (ucast (bs_block_id spec) :: u16))"

definition packet_id_fits :: "block_spec \<Rightarrow> u32 \<Rightarrow> bool" where
  "packet_id_fits spec packet_id \<longleftrightarrow> bs_extended_ids spec \<or> unat packet_id < 2 ^ 24"

definition wire_header :: "block_spec \<Rightarrow> u16 \<Rightarrow> u32 \<Rightarrow> gvsp_header" where
  "wire_header spec status packet_id =
     \<lparr>hdr_status = status, hdr_block_id = wire_block_id spec, hdr_packet_id = packet_id,
      hdr_extended_ids = bs_extended_ids spec, hdr_header_len = spec_header_len spec\<rparr>"

lemma be_nat_zero_Cons: "be_nat (0 # bs) = be_nat bs"
  by (simp add: be_nat_def)

lemma drop_to_be: "drop 1 (to_be (Suc k) n) = to_be k n"
proof (induction k arbitrary: n)
  case (Suc k)
  have "drop 1 (to_be (Suc (Suc k)) n) = drop 1 (to_be (Suc k) (n div 256)) @ [word_of_nat n]"
    by (subst to_be.simps(2)) (simp del: to_be.simps)
  then show ?case by (simp only: Suc.IH to_be.simps(2) [of k n])
qed simp

lemma low_24_bits:
  assumes "unat packet_id < 2 ^ 24"
  shows "be_word (0 # drop 1 (put_u32 packet_id)) = packet_id"
proof -
  have four: "Suc 3 = 4" by simp
  have "drop 1 (put_u32 packet_id) = to_be 3 (unat packet_id)"
    unfolding put_u32_def using drop_to_be [of 3 "unat packet_id"]
    by (simp only: four)
  then have "be_nat (0 # drop 1 (put_u32 packet_id)) = unat packet_id"
    using assms by (simp add: be_nat_zero_Cons be_nat_to_be)
  then show ?thesis by (simp add: be_word_def)
qed

lemma length_put_header [simp]: "length (put_header spec st f k) = spec_header_len spec"
  by (simp add: put_header_def spec_header_len_def gvsp_consts)

lemma put_header_format: "(put_header spec st f k @ body) ! 4 = (if bs_extended_ids spec then 0x80 OR f else f)"
  by (simp add: put_header_def nth_append gvsp_consts)

lemma or_flag: "(0x80 OR f :: u8) AND 0x80 \<noteq> 0"
proof -
  have "bit ((0x80 OR f :: u8) AND 0x80) 7" by (simp add: bit_simps)
  then show ?thesis by (metis bit_0_eq bot_apply bot_bool_def)
qed

lemma parse_put_header:
  assumes "f AND 0x80 = 0" and "packet_id_fits spec packet_id"
  shows "parse_header (put_header spec status f packet_id @ body) = Ok (wire_header spec status packet_id)"
proof (cases "bs_extended_ids spec")
  case True
  let ?d = "put_header spec status f packet_id @ body"
  have d: "?d = put_u16 status @ (put_u16 0 @ [EXTENDED_ID_FLAG OR f] @ [0, 0, 0]) @
      put_u64 (bs_block_id spec) @ put_u32 packet_id @ body"
    using True by (simp add: put_header_def)
  have "?d ! 4 AND 0x80 \<noteq> 0" using True or_flag [of f] by (simp add: put_header_format)
  moreover have "20 \<le> length ?d" using True by (simp add: spec_header_len_def gvsp_consts)
  moreover have "take 8 (drop 8 ?d) = put_u64 (bs_block_id spec)" "take 4 (drop 16 ?d) = put_u32 packet_id"
    "take 2 ?d = put_u16 status"
    unfolding d by simp_all
  ultimately show ?thesis
    using True by (simp add: parse_header_cases(3) wire_header_def wire_block_id_def spec_header_len_def
        gvsp_consts)
next
  case False
  let ?d = "put_header spec status f packet_id @ body"
  have d: "?d = put_u16 status @ put_u16 (ucast (bs_block_id spec)) @ [f] @ drop 1 (put_u32 packet_id) @ body"
    using False by (simp add: put_header_def)
  have "?d ! 4 AND 0x80 = 0" using False assms by (simp add: put_header_format)
  moreover have "8 \<le> length ?d" using False by (simp add: spec_header_len_def gvsp_consts)
  moreover have "take 2 (drop 2 ?d) = put_u16 (ucast (bs_block_id spec))"
    "take 3 (drop 5 ?d) = drop 1 (put_u32 packet_id)" "take 2 ?d = put_u16 status"
    unfolding d by simp_all
  ultimately show ?thesis
    using False assms(2) low_24_bits [of packet_id]
    by (simp add: parse_header_cases(4) wire_header_def wire_block_id_def spec_header_len_def
        gvsp_consts packet_id_fits_def)
qed

lemma parse_packet_encoded:
  assumes "f AND 0x80 = 0" and "f AND 0x0F = f" and "packet_id_fits spec packet_id"
  shows "parse_packet_ref (put_header spec status f packet_id @ body) =
    and_then
      (if f = FORMAT_LEADER then and_then (parse_leader body) (\<lambda>l. Ok (Leader l))
       else if f = FORMAT_PAYLOAD then Ok (Payload body)
       else if f = FORMAT_TRAILER then and_then (parse_trailer body) (\<lambda>t. Ok (Trailer t))
       else Ok (Unsupported f))
      (\<lambda>content. Ok \<lparr>pkt_header = wire_header spec status packet_id, pkt_content = content\<rparr>)"
proof -
  let ?d = "put_header spec status f packet_id @ body"
  have "index 4 ?d = Some (if bs_extended_ids spec then 0x80 OR f else f)"
    unfolding index_def put_header_format by (simp add: spec_header_len_def gvsp_consts)
  moreover have "(if bs_extended_ids spec then 0x80 OR f else f) AND 0x0F = f"
    using assms(2) by (simp add: bit.conj_disj_distrib2)
  moreover have "subslice (spec_header_len spec) (length ?d) ?d = Some body"
    by (simp add: subslice_def)
  ultimately show ?thesis
    using parse_put_header [OF assms(1,3), of status body]
    by (simp add: parse_packet_ref_def wire_header_def)
qed

lemma formats_ok:
  "FORMAT_LEADER AND 0x80 = 0" "FORMAT_LEADER AND 0x0F = FORMAT_LEADER"
  "FORMAT_PAYLOAD AND 0x80 = 0" "FORMAT_PAYLOAD AND 0x0F = FORMAT_PAYLOAD"
  "FORMAT_TRAILER AND 0x80 = 0" "FORMAT_TRAILER AND 0x0F = FORMAT_TRAILER"
  "FORMAT_TRAILER \<noteq> FORMAT_LEADER" "FORMAT_TRAILER \<noteq> FORMAT_PAYLOAD"
  "FORMAT_PAYLOAD \<noteq> FORMAT_LEADER"
  by (simp_all add: gvsp_consts)

definition wire_leader :: "block_spec \<Rightarrow> gvsp_leader" where
  "wire_leader spec =
     \<lparr>ldr_payload_type = bs_payload_type spec, ldr_timestamp = bs_timestamp spec,
      ldr_image = (if is_image_payload (bs_payload_type spec) then
        Some \<lparr>img_pixel_format = bs_pixel_format spec, img_width = bs_width spec,
              img_height = bs_height spec, img_offset_x = 0, img_offset_y = 0,
              img_padding_x = bs_padding_x spec, img_padding_y = 0\<rparr>
        else None)\<rparr>"

definition wire_trailer :: "block_spec \<Rightarrow> nat \<Rightarrow> gvsp_trailer" where
  "wire_trailer spec payload_len =
     \<lparr>trl_payload_type = bs_payload_type spec,
      trl_size_y = (if is_chunk_data_payload (bs_payload_type spec) then word_of_nat payload_len
                    else bs_size_y spec),
      trl_chunk_payload_length =
        (if has_extended_chunks (bs_payload_type spec) then Some (word_of_nat payload_len) else None),
      trl_chunk_layout_id =
        (if has_extended_chunks (bs_payload_type spec) then Some (bs_chunk_layout_id spec) else None)\<rparr>"

lemma parse_leader_encoded:
  "parse_packet_ref (leader spec) = Ok \<lparr>pkt_header = wire_header spec 0 0, pkt_content = Leader (wire_leader spec)\<rparr>"
proof -
  have fits: "packet_id_fits spec 0" by (simp add: packet_id_fits_def)
  show ?thesis
  proof (cases "is_image_payload (bs_payload_type spec)")
    case True
    then have "spec_is_image spec" by (simp add: spec_is_image_def is_image_payload_def)
    then show ?thesis
      using True unfolding leader_def
      by (simp add: parse_packet_encoded [OF formats_ok(1,2) fits] parse_image_leader_fields wire_leader_def)
  next
    case False
    then have "\<not> spec_is_image spec" by (simp add: spec_is_image_def is_image_payload_def)
    then show ?thesis
      using False unfolding leader_def
      by (simp add: parse_packet_encoded [OF formats_ok(1,2) fits] parse_leader_def wire_leader_def)
  qed
qed

lemma parse_payload_encoded:
  "packet_id_fits spec k \<Longrightarrow> parse_packet_ref (payload spec k data) =
     Ok \<lparr>pkt_header = wire_header spec 0 k, pkt_content = Payload data\<rparr>"
  by (simp add: payload_def parse_packet_encoded [OF formats_ok(3,4)] formats_ok)

lemma payload_types_differ:
  "PAYLOAD_TYPE_CHUNK_DATA \<noteq> PAYLOAD_TYPE_EXTENDED_CHUNK_DATA"
  "PAYLOAD_TYPE_EXTENDED_CHUNK_DATA \<noteq> PAYLOAD_TYPE_CHUNK_DATA"
  by (simp_all add: payload_type_defs)

lemma parse_trailer_encoded:
  assumes "packet_id_fits spec k"
  shows "parse_packet_ref (trailer spec k n) =
     Ok \<lparr>pkt_header = wire_header spec (bs_trailer_status spec) k, pkt_content = Trailer (wire_trailer spec n)\<rparr>"
  unfolding trailer_def
  by (auto simp: parse_packet_encoded [OF formats_ok(5,6) assms] formats_ok parse_trailer_fields
      parse_trailer_fields [of _ _ _ "[]", simplified] wire_trailer_def has_extended_chunks_def is_chunk_data_payload_def payload_types_differ)

text \<open>
  C9. The client's parser reads back every datagram the camera simulator writes, in both header
  layouts and for every payload type: the leader with its geometry, a data packet with its
  bytes, and the trailer with the fields its payload type gives it. Without extended ids the
  block id is read modulo \<open>2 ^ 16\<close> and the packet id must fit its 24 bits.
\<close>

theorem gvsp_roundtrip:
  assumes "packet_id_fits spec k"
  shows "parse_packet_ref (leader spec) =
      Ok \<lparr>pkt_header = wire_header spec 0 0, pkt_content = Leader (wire_leader spec)\<rparr> \<and>
    parse_packet_ref (payload spec k data) =
      Ok \<lparr>pkt_header = wire_header spec 0 k, pkt_content = Payload data\<rparr> \<and>
    parse_packet_ref (trailer spec k n) =
      Ok \<lparr>pkt_header = wire_header spec (bs_trailer_status spec) k,
         pkt_content = Trailer (wire_trailer spec n)\<rparr>"
  using parse_leader_encoded parse_payload_encoded [OF assms] parse_trailer_encoded [OF assms] by blast

theorem gvsp_roundtrip_witness:
  "parse_packet_ref (payload (spec_image 7 640 480 0x01080001 1500) 3 [1, 2, 3]) =
     Ok \<lparr>pkt_header = \<lparr>hdr_status = 0, hdr_block_id = 7, hdr_packet_id = 3,
                      hdr_extended_ids = False, hdr_header_len = 8\<rparr>,
        pkt_content = Payload [1, 2, 3]\<rparr>"
  using gvsp_roundtrip [of "spec_image 7 640 480 0x01080001 1500" 3 "[1, 2, 3]" 0]
  by (simp add: packet_id_fits_def spec_image_def wire_header_def wire_block_id_def spec_header_len_def
      gvsp_consts)

fun layout_chunks :: "nat \<Rightarrow> (u32 \<times> bytes) list \<Rightarrow> chunk_raw list" where
  "layout_chunks off [] = []"
| "layout_chunks off ((cid, data) # cs) =
     \<lparr>chunk_id = cid, chunk_offset = off, chunk_data = data\<rparr> # layout_chunks (off + length data + 8) cs"

lemma layout_wire: "chunks_wire (layout_chunks off cs) = chunk_payload cs"
  by (induction off cs rule: layout_chunks.induct) (auto simp: chunk_payload_def chunk_wire_def)

lemma layout_tiles:
  "(\<forall>c \<in> set cs. length (snd c) < 2 ^ 32) \<Longrightarrow> tiles off (layout_chunks off cs)"
  by (induction off cs rule: layout_chunks.induct) auto

lemma parse_chunks_layout:
  "\<forall>c \<in> set cs. length (snd c) < 2 ^ 32 \<Longrightarrow> parse_chunks (chunk_payload cs) = Ok (layout_chunks 0 cs)"
  using layout_wire [of 0 cs] layout_tiles [of cs 0] chunks_from_complete [of "layout_chunks 0 cs" "[]" "[]"]
  by (simp add: parse_chunks_def)

text \<open>
  Chunk payloads survive the trip: splitting the payload the camera lays out gives back
  every chunk, with its id and its data, in order and at the offset where it lies, provided
  each chunk's length fits the 32-bit length of its tag.
\<close>

theorem chunk_payload_roundtrip:
  assumes "\<forall>c \<in> set cs. length (snd c) < 2 ^ 32"
  shows "parse_chunks (chunk_payload cs) = Ok (layout_chunks 0 cs)"
  using assms by (rule parse_chunks_layout)

theorem chunk_payload_roundtrip_witness:
  "parse_chunks (chunk_payload [(1, [10, 20]), (2, [])]) =
     Ok [\<lparr>chunk_id = 1, chunk_offset = 0, chunk_data = [10, 20]\<rparr>,
         \<lparr>chunk_id = 2, chunk_offset = 10, chunk_data = []\<rparr>]"
  using chunk_payload_roundtrip [of "[(1, [10, 20]), (2, [])]"] by simp

end
