(* ===== verification/Assembly_Complete.thy ===== *)
theory Assembly_Complete
  imports Assembly_Inv Gvsp_Encode
begin

text \<open>
  From the camera's encoder to the host's assembler. The datagrams of one block, as
  \<^verbatim>\<open>viva-fake-gige\<close> writes them, reach \<^verbatim>\<open>Assembler::ingest\<close> in any order and any number of
  times: the block is handed out once, complete and with the payload the camera sent, as soon as
  every datagram has arrived and not before.
\<close>

section \<open>The datagrams of a block\<close>

definition packet_count :: "block_spec \<Rightarrow> bytes \<Rightarrow> nat" where
  "packet_count spec data = div_ceil (length data) (spec_payload_stride spec)"

definition piece :: "block_spec \<Rightarrow> bytes \<Rightarrow> nat \<Rightarrow> bytes" where
  "piece spec data k = take (spec_payload_stride spec) (drop ((k - 1) * spec_payload_stride spec) data)"

definition packet_bytes :: "block_spec \<Rightarrow> bytes \<Rightarrow> nat \<Rightarrow> bytes" where
  "packet_bytes spec data k =
     (if k = 0 then leader spec
      else if k \<le> packet_count spec data then payload spec (word_of_nat k) (piece spec data k)
      else trailer spec (word_of_nat (packet_count spec data + 1)) (length data))"

lemma chunks_of_eq:
  "0 < s \<Longrightarrow> chunks_of s xs = map (\<lambda>i. take s (drop (i * s) xs)) [0..<div_ceil (length xs) s]"
proof (induction s xs rule: chunks_of.induct)
  case (1 s xs)
  show ?case
  proof (cases "xs = []")
    case True
    then show ?thesis using "1.prems" by (subst chunks_of.simps) (simp add: div_ceil_def)
  next
    case False
    have "div_ceil (length xs) s = Suc (div_ceil (length xs - s) s)"
    proof (cases "length xs \<le> s")
      case True
      have "0 < length xs" using False by simp
      then have "length xs + s - 1 = s + (length xs - 1)" "length xs - 1 < s"
        using True by linarith+
      then have "length xs + s - 1 = s + (length xs - 1)" "(length xs - 1) div s = 0"
        by simp_all
      then have "(length xs + s - 1) div s = 1" using "1.prems" by (simp only: div_add_self1)
      then show ?thesis using True "1.prems" by (simp add: div_ceil_def)
    next
      case False
      then obtain m where m: "length xs = m + s" by (metis le_add_diff_inverse2 nat_le_linear)
      have "m + s + s - 1 = (m + s - 1) + s" using "1.prems" by linarith
      then have "(m + s + s - 1) div s = Suc ((m + s - 1) div s)" using "1.prems" by (simp only: div_add_self2)
      then show ?thesis by (simp add: div_ceil_def m)
    qed
    moreover have "chunks_of s xs = take s xs # chunks_of s (drop s xs)"
      using False "1.prems" by (subst chunks_of.simps) simp
    ultimately show ?thesis
      using "1.IH" False "1.prems"
      by (simp add: upt_conv_Cons map_Suc_upt [symmetric] comp_def add.commute del: upt_Suc)
  qed
qed

lemma payload_datagrams_eq:
  "map dg_bytes (fst (payload_datagrams spec k ps)) =
     map (\<lambda>i. payload spec (k + word_of_nat i) (ps ! i)) [0..<length ps] \<and>
   snd (payload_datagrams spec k ps) = k + word_of_nat (length ps)"
proof (induction ps arbitrary: k)
  case (Cons p ps)
  have shift: "map f [0..<Suc n] = f 0 # map (\<lambda>i. f (Suc i)) [0..<n]" for f :: "nat \<Rightarrow> bytes" and n
    by (simp add: upt_conv_Cons map_Suc_upt [symmetric] comp_def del: upt_Suc)
  show ?case using Cons.IH [of "k + 1"] by (simp add: case_prod_beta shift algebra_simps del: upt_Suc)
qed simp

lemma block_datagrams_bytes:
  assumes "0 < spec_payload_stride spec"
  shows "map dg_bytes (block_datagrams spec data) = map (packet_bytes spec data) [0..<packet_count spec data + 2]"
proof -
  let ?s = "spec_payload_stride spec" and ?n = "packet_count spec data"
  have m: "max ?s 1 = ?s" using assms by simp
  note c = chunks_of_eq [OF assms, of data] and p = payload_datagrams_eq [of spec 1 "chunks_of ?s data"]
  have len: "length (chunks_of ?s data) = ?n" by (simp add: c packet_count_def)
  have ids: "1 + word_of_nat i = (word_of_nat (Suc i) :: u32)" for i by simp
  have pieces: "map (\<lambda>i. payload spec (1 + word_of_nat i) (chunks_of ?s data ! i)) [0..<?n] =
      map (\<lambda>i. packet_bytes spec data (Suc i)) [0..<?n]"
    by (rule map_cong) (auto simp: packet_bytes_def piece_def c packet_count_def)
  have split: "[0..<?n + 2] = 0 # map Suc [0..<?n] @ [?n + 1]"
    by (simp add: upt_conv_Cons map_Suc_upt del: upt_Suc) (simp add: upt_conv_Cons)
  have "map dg_bytes (block_datagrams spec data) = leader spec #
      map dg_bytes (fst (payload_datagrams spec 1 (chunks_of ?s data))) @
      [trailer spec (snd (payload_datagrams spec 1 (chunks_of ?s data))) (length data)]"
    unfolding block_datagrams_def Let_def m by (simp add: case_prod_beta)
  also have "\<dots> = map (packet_bytes spec data) [0..<?n + 2]"
    unfolding split using p pieces len by (simp add: packet_bytes_def)
  finally show ?thesis .
qed

section \<open>What the assembler reads\<close>

definition packet_content :: "block_spec \<Rightarrow> bytes \<Rightarrow> nat \<Rightarrow> gvsp_content" where
  "packet_content spec data k =
     (if k = 0 then Leader (wire_leader spec)
      else if k \<le> packet_count spec data then Payload (piece spec data k)
      else Trailer (wire_trailer spec (length data)))"

definition packet_status :: "block_spec \<Rightarrow> bytes \<Rightarrow> nat \<Rightarrow> u16" where
  "packet_status spec data k = (if k \<le> packet_count spec data then 0 else bs_trailer_status spec)"

lemma resend_answer_error: "resend_answer s \<noteq> None \<Longrightarrow> s AND 0x8000 \<noteq> 0"
proof -
  assume a: "resend_answer s \<noteq> None"
  then obtain v where v: "gige_from_raw s = Own v"
    by (auto simp: resend_answer_def split: transport_status.splits)
  then have s: "s = gige_raw v" using gige_status_raw [of s] by (simp add: gige_to_raw_def ts_to_raw.simps)
  show ?thesis using a unfolding resend_answer_def v by (cases v) (simp_all add: s)
qed

text \<open>The conditions under which the host and the camera agree on the stream.\<close>

definition stream_agrees :: "assembly_config \<Rightarrow> block_spec \<Rightarrow> bytes \<Rightarrow> bool" where
  "stream_agrees config spec data \<longleftrightarrow>
     ac_packet_size config = bs_packet_size spec \<and> 0 < spec_payload_stride spec \<and>
     (is_image_payload (bs_payload_type spec) \<or> is_chunk_data_payload (bs_payload_type spec)) \<and>
     bs_trailer_status spec AND 0x8000 = 0 \<and>
     (bs_extended_ids spec \<or> wire_block_id spec \<noteq> 0) \<and>
     packet_count spec data + 1 < (if bs_extended_ids spec then 2 ^ 32 else 2 ^ 24) \<and>
     length data \<le> buffer_limit config"

lemma parse_packet_bytes:
  assumes "stream_agrees config spec data" and "k \<le> packet_count spec data + 1"
  shows "parse_packet_ref (packet_bytes spec data k) =
    Ok \<lparr>pkt_header = wire_header spec (packet_status spec data k) (word_of_nat k),
       pkt_content = packet_content spec data k\<rparr>"
    and "resend_answer (packet_status spec data k) = None"
    and "packet_status spec data k AND STATUS_ERROR = 0"
    and "unat (word_of_nat k :: u32) = k"
proof -
  have b: "k < (if bs_extended_ids spec then 2 ^ 32 else 2 ^ 24)"
    using assms by (simp add: stream_agrees_def)
  then show u: "unat (word_of_nat k :: u32) = k"
    by (intro unat_of_nat_small) (auto split: if_splits)
  have fits: "packet_id_fits spec (word_of_nat k)" using u b by (cases "bs_extended_ids spec") (simp_all add: packet_id_fits_def)
  show s: "packet_status spec data k AND STATUS_ERROR = 0"
    using assms by (simp add: packet_status_def stream_agrees_def STATUS_ERROR_def)
  then show "resend_answer (packet_status spec data k) = None"
    using resend_answer_error by (force simp: STATUS_ERROR_def)
  consider (l) "k = 0" | (p) "0 < k" "k \<le> packet_count spec data" | (t) "k = packet_count spec data + 1"
    using assms(2) by linarith
  then show "parse_packet_ref (packet_bytes spec data k) =
    Ok \<lparr>pkt_header = wire_header spec (packet_status spec data k) (word_of_nat k),
       pkt_content = packet_content spec data k\<rparr>"
  proof cases
    case l
    then show ?thesis by (simp add: packet_bytes_def packet_content_def packet_status_def parse_leader_encoded)
  next
    case p
    then show ?thesis
      using parse_payload_encoded [OF fits] by (simp add: packet_bytes_def packet_content_def packet_status_def)
  next
    case t
    then show ?thesis
      using parse_trailer_encoded [OF fits] by (simp add: packet_bytes_def packet_content_def packet_status_def)
  qed
qed

section \<open>A block of which some packets have arrived\<close>

definition leader_info_of :: "block_spec \<Rightarrow> leader_info" where
  "leader_info_of spec =
     (if is_chunk_data_payload (bs_payload_type spec)
      then \<lparr>li_timestamp = bs_timestamp spec, li_pixel_format = 0, li_width = 0, li_height = 0, li_padding_x = 0\<rparr>
      else \<lparr>li_timestamp = bs_timestamp spec, li_pixel_format = bs_pixel_format spec,
            li_width = bs_width spec, li_height = bs_height spec, li_padding_x = bs_padding_x spec\<rparr>)"

definition piece_end :: "block_spec \<Rightarrow> bytes \<Rightarrow> nat \<Rightarrow> nat" where
  "piece_end spec data k = min (k * spec_payload_stride spec) (length data)"

text \<open>The block in flight once the packets \<open>S\<close> have arrived.\<close>

definition holds :: "block_spec \<Rightarrow> bytes \<Rightarrow> nat set \<Rightarrow> block_in_flight \<Rightarrow> bool" where
  "holds spec data S b \<longleftrightarrow>
     bf_block_id b = wire_block_id spec \<and> bf_extended_ids b = bs_extended_ids spec \<and> \<not> bf_unsupported b \<and>
     bf_leader b = (if 0 \<in> S then Some (leader_info_of spec) else None) \<and>
     bf_leader_payload_type b = (if 0 \<in> S then Some (bs_payload_type spec) else None) \<and>
     bf_trailer b = (if packet_count spec data + 1 \<in> S
       then Some \<lparr>ti_last_payload_id = packet_count spec data,
                  ti_size_y = trl_size_y (wire_trailer spec (length data)), ti_payload_type = bs_payload_type spec\<rparr>
       else None) \<and>
     bitmap_inv (bf_bitmap b) \<and>
     (\<forall>i. i \<in> marked (bf_bitmap b) \<longleftrightarrow> i < packet_count spec data \<and> Suc i \<in> S) \<and>
     bf_extent b \<le> length data \<and> bf_extent b \<le> length (bf_buffer b) \<and>
     (\<forall>k \<in> S. 0 < k \<and> k \<le> packet_count spec data \<longrightarrow> piece_end spec data k \<le> bf_extent b \<and>
        (\<forall>j. (k - 1) * spec_payload_stride spec \<le> j \<and> j < piece_end spec data k \<longrightarrow>
           bf_buffer b ! j = data ! j)) \<and>
     bf_highest_payload_id b \<le> packet_count spec data \<and>
     (\<forall>p l s. bf_short_packet b = Some (p, l, s) \<longrightarrow> p = packet_count spec data \<and> p \<in> S)"

lemma piece_facts:
  assumes "stream_agrees config spec data" "0 < k" "k \<le> packet_count spec data"
  defines "s \<equiv> spec_payload_stride spec"
  shows "(k - 1) * s < length data" "length (piece spec data k) = piece_end spec data k - (k - 1) * s"
    "(k - 1) * s + length (piece spec data k) = piece_end spec data k"
    "length (piece spec data k) \<le> s" "k < packet_count spec data \<Longrightarrow> length (piece spec data k) = s"
    "j < length (piece spec data k) \<Longrightarrow> piece spec data k ! j = data ! ((k - 1) * s + j)"
proof -
  have s: "0 < s" using assms(1) by (simp add: stream_agrees_def s_def)
  have "k - 1 < packet_count spec data" using assms by simp
  then show lt: "(k - 1) * s < length data"
    unfolding packet_count_def using less_div_ceil_iff [of s "k - 1" "length data"] s by (simp add: s_def)
  have ks: "k * s = (k - 1) * s + s" using assms(2) by (cases k) auto
  show len: "length (piece spec data k) = piece_end spec data k - (k - 1) * s"
    unfolding piece_def piece_end_def s_def [symmetric] ks by auto
  show e: "(k - 1) * s + length (piece spec data k) = piece_end spec data k"
    unfolding len using lt ks by (auto simp: piece_end_def s_def [symmetric])
  show "length (piece spec data k) \<le> s" by (simp add: piece_def s_def)
  show "length (piece spec data k) = s" if "k < packet_count spec data"
  proof -
    have "k * s < length data"
      using that s less_div_ceil_iff [of s k "length data"] by (simp add: packet_count_def s_def)
    then show ?thesis unfolding len piece_end_def s_def [symmetric] using ks by simp
  qed
  show "j < length (piece spec data k) \<Longrightarrow> piece spec data k ! j = data ! ((k - 1) * s + j)"
    using lt by (simp add: piece_def s_def)
qed

lemma nth_write_at:
  assumes "off + length d \<le> length buf"
  shows "write_at off d buf ! j = (if off \<le> j \<and> j < off + length d then d ! (j - off) else buf ! j)"
  using assms by (auto simp: write_at_def nth_append not_less)

lemma stride_eq:
  "stream_agrees config spec data \<Longrightarrow>
   payload_stride (ac_packet_size config) (hdr_header_len (wire_header spec st k)) = spec_payload_stride spec"
  by (simp add: stream_agrees_def payload_stride_def spec_payload_stride_def wire_header_def
      IPV4_HEADER_LEN_def UDP_HEADER_LEN_def)

lemma wire_header_simps [simp]:
  "hdr_block_id (wire_header spec st k) = wire_block_id spec" "hdr_packet_id (wire_header spec st k) = k"
  "hdr_status (wire_header spec st k) = st" "hdr_extended_ids (wire_header spec st k) = bs_extended_ids spec"
  by (simp_all add: wire_header_def)

lemma place_holds:
  assumes ok: "stream_agrees config spec data" and h: "holds spec data S b"
    and k: "0 < k" "k \<le> packet_count spec data" "k \<notin> S"
  defines "s \<equiv> spec_payload_stride spec" and "b' \<equiv> place_data k (spec_payload_stride spec) (piece spec data k) b"
  shows "judge_short k (length (piece spec data k)) s b' = (bf_short_packet b, []) \<or>
      k = packet_count spec data \<and>
      judge_short k (length (piece spec data k)) s b' = (Some (k, length (piece spec data k), s), [])"
    and "holds spec data (insert k S) b'"
proof -
  let ?n = "packet_count spec data" and ?p = "piece spec data k"
  note pf = piece_facts [OF ok k(1,2), folded s_def]
  have hi: "bf_highest_payload_id b' \<le> ?n" using h k by (simp add: b'_def place_data_def Let_def holds_def)
  have same: "bf_short_packet b' = bf_short_packet b" "bf_trailer b' = bf_trailer b" by (simp_all add: b'_def)
  have tr: "bf_trailer b = Some t \<Longrightarrow> ti_last_payload_id t = ?n" for t
    using h by (auto simp: holds_def split: if_splits)
  have pend: "bf_short_packet b = Some (p, l, st) \<Longrightarrow> p = ?n \<and> p \<in> S" for p l st
    using h unfolding holds_def by blast
  show "judge_short k (length ?p) s b' = (bf_short_packet b, []) \<or>
      k = ?n \<and> judge_short k (length ?p) s b' = (Some (k, length ?p, s), [])"
  proof (cases "length ?p < s")
    case True
    then have "k = ?n" using pf(5) k(2) by fastforce
    moreover from this have "bf_short_packet b = None" using pend k(3) by (cases "bf_short_packet b") auto
    ultimately show ?thesis
      using True hi tr by (cases "bf_trailer b") (simp_all add: judge_short_def same Let_def)
  next
    case False
    have "judge_short k (length ?p) s b' = (bf_short_packet b, [])"
    proof (cases "bf_short_packet b")
      case (Some x)
      obtain p l st where x: "x = (p, l, st)" by (cases x)
      with pend Some have "p = ?n" by blast
      then show ?thesis using False hi tr Some x by (auto simp: judge_short_def same split: option.split)
    qed (use False in \<open>simp add: judge_short_def same\<close>)
    then show ?thesis by blast
  qed
  let ?buf = "if (k - 1) * s + length ?p > length (bf_buffer b) then resize ((k - 1) * s + length ?p) 0 (bf_buffer b)
    else bf_buffer b"
  have buf: "bf_buffer b' = write_at ((k - 1) * s) ?p ?buf" by (simp add: b'_def place_data_def Let_def s_def)
  have fit: "(k - 1) * s + length ?p \<le> length ?buf" by simp
  have ext: "bf_extent b' = max (bf_extent b) (piece_end spec data k)"
    using pf(3) by (simp add: b'_def place_data_def Let_def s_def)
  have bl: "length (bf_buffer b') = length ?buf" unfolding buf by (rule length_write_at [OF fit])
  have old: "bf_buffer b' ! j = bf_buffer b ! j" if "j < length (bf_buffer b)" "j < (k - 1) * s \<or> piece_end spec data k \<le> j" for j
    using that pf(3) unfolding buf nth_write_at [OF fit] by (auto simp: nth_resize)
  have new: "bf_buffer b' ! j = data ! j" if "(k - 1) * s \<le> j" "j < piece_end spec data k" for j
    using that pf(3) pf(6) [of "j - (k - 1) * s"] unfolding buf nth_write_at [OF fit] by auto
  have data_at: "bf_buffer b' ! j = data ! j"
    if "k' \<in> S" "0 < k'" "k' \<le> ?n" "(k' - 1) * s \<le> j" "j < piece_end spec data k'" for k' j
  proof -
    have o: "piece_end spec data k' \<le> bf_extent b" "bf_buffer b ! j = data ! j"
      using h that unfolding holds_def s_def [symmetric] by blast+
    have "j < length (bf_buffer b)" using o(1) that(5) h by (simp add: holds_def)
    moreover have "bf_buffer b' ! j = data ! j" if "\<not> (j < (k - 1) * s \<or> piece_end spec data k \<le> j)"
      using new [of j] that by simp
    ultimately show ?thesis using old [of j] o(2) by fastforce
  qed
  have bm: "bitmap_inv (bf_bitmap b)" using h by (simp add: holds_def)
  have "Suc (k - 1) = k" using k(1) by simp
  note rs = bitmap.record_slot [OF bm, of "k - 1", unfolded this]
  have mk: "bf_bitmap b' = snd (bitmap_set (k - 1) (bitmap_grow k (bf_bitmap b)))"
    using k(1) by (simp add: b'_def place_data_def Let_def)
  have marks: "i \<in> marked (bf_bitmap b') \<longleftrightarrow> i < ?n \<and> Suc i \<in> insert k S" for i
    unfolding mk rs(2) using h k by (auto simp: holds_def)
  have exts: "bf_extent b' \<le> length data" "bf_extent b' \<le> length (bf_buffer b')"
    using h pf(3) ext bl by (auto simp: holds_def piece_end_def)
  have pieces: "piece_end spec data k' \<le> bf_extent b' \<and>
      (\<forall>j. (k' - 1) * s \<le> j \<and> j < piece_end spec data k' \<longrightarrow> bf_buffer b' ! j = data ! j)"
    if "k' \<in> insert k S" "0 < k'" "k' \<le> ?n" for k'
  proof (cases "k' = k")
    case True
    then show ?thesis using new ext by simp
  next
    case False
    with that have "k' \<in> S" by simp
    moreover from this that h have "piece_end spec data k' \<le> bf_extent b" by (simp add: holds_def)
    ultimately show ?thesis using data_at that ext by auto
  qed
  have rest: "bf_block_id b' = bf_block_id b" "bf_extended_ids b' = bf_extended_ids b" "bf_unsupported b' = bf_unsupported b"
    "bf_leader b' = bf_leader b" "bf_leader_payload_type b' = bf_leader_payload_type b" "bf_trailer b' = bf_trailer b"
    "bf_short_packet b' = bf_short_packet b"
    by (simp_all add: b'_def place_data_def Let_def)
  show "holds spec data (insert k S) b'"
    unfolding holds_def rest s_def [symmetric]
    using h marks exts pieces hi rs(1) k by (simp add: holds_def mk)
qed

section \<open>One packet of the block\<close>

lemma holds_update [simp]:
  "holds spec data S (b\<lparr>bf_resend := r\<rparr>) = holds spec data S b"
  "holds spec data S (b\<lparr>bf_last_packet := t\<rparr>) = holds spec data S b"
  "holds spec data S (b\<lparr>bf_resolved := x\<rparr>) = holds spec data S b"
  "holds spec data S (b\<lparr>bf_planned := m\<rparr>) = holds spec data S b"
  by (simp_all add: holds_def)

lemma holds_buffer:
  assumes "holds spec data S b" "length (bf_buffer b) \<le> length buf" "\<And>j. j < length (bf_buffer b) \<Longrightarrow> buf ! j = bf_buffer b ! j"
  shows "holds spec data S (b\<lparr>bf_buffer := buf\<rparr>)"
  using assms unfolding holds_def by (auto simp: subset_eq)

lemma holds_short:
  assumes "holds spec data S b" "\<And>p l s. x = Some (p, l, s) \<Longrightarrow> p = packet_count spec data \<and> p \<in> S"
  shows "holds spec data S (b\<lparr>bf_short_packet := x\<rparr>)"
  using assms by (simp add: holds_def)

lemma holds_leader:
  assumes "holds spec data S b"
  shows "holds spec data (insert 0 S)
    (b\<lparr>bf_leader_payload_type := Some (bs_payload_type spec), bf_leader := Some (leader_info_of spec)\<rparr>)"
  using assms by (auto simp: holds_def)

lemma holds_trailer:
  assumes "holds spec data S b"
  shows "holds spec data (insert (packet_count spec data + 1) S)
    (b\<lparr>bf_trailer := Some \<lparr>ti_last_payload_id = packet_count spec data,
         ti_size_y = trl_size_y (wire_trailer spec (length data)), ti_payload_type = bs_payload_type spec\<rparr>,
       bf_bitmap := bitmap_grow m (bf_bitmap b)\<rparr>)"
proof -
  have "bitmap_inv (bf_bitmap b)" using assms by (simp add: holds_def)
  from bitmap.abs_grow [OF this, of m] show ?thesis using assms by (auto simp: holds_def)
qed

definition one_block :: "assembly_config \<Rightarrow> block_spec \<Rightarrow> assembler \<Rightarrow> block_in_flight \<Rightarrow> bool" where
  "one_block config spec a b \<longleftrightarrow>
     as_in_flight a = [b] \<and> as_config a = config \<and> as_last_block_id a = Some (wire_block_id spec)"

lemma one_block_count [simp]:
  "one_block config spec (count f a) b = one_block config spec a b"
  "one_block config spec (a\<lparr>as_largest_estimate := x\<rparr>) b = one_block config spec a b"
  by (simp_all add: one_block_def)

lemma one_block_set: "one_block config spec a b \<Longrightarrow> one_block config spec (set_block 0 b' a) b'"
  by (simp add: one_block_def)

lemma one_block_ex:
  "one_block config spec a b \<Longrightarrow> holds spec data S b' \<Longrightarrow> bf_resolved b' = None \<Longrightarrow>
   \<exists>x. one_block config spec (set_block 0 b' a) x \<and> holds spec data S x \<and> bf_resolved x = None"
  by (blast intro: one_block_set)

lemma on_leader_holds:
  assumes ok: "stream_agrees config spec data" and o: "one_block config spec a b" and h: "holds spec data S b"
    and r: "bf_resolved b = None"
  shows "\<exists>b'. one_block config spec (on_leader 0 (wire_leader spec) a) b' \<and> holds spec data (insert 0 S) b' \<and>
    bf_resolved b' = None"
proof (cases "0 \<in> S")
  case True
  then have "bf_leader_payload_type b \<noteq> None" using h by (simp add: holds_def)
  then have "on_leader 0 (wire_leader spec) a = count record_duplicate_packet a"
    using o by (simp add: on_leader_def one_block_def)
  then show ?thesis using o h r True by (auto simp: insert_absorb)
next
  case False
  have nb: "as_in_flight a ! 0 = b" using o by (simp add: one_block_def)
  have new: "bf_leader_payload_type b = None" using h False by (simp add: holds_def)
  let ?b = "b\<lparr>bf_leader_payload_type := Some (bs_payload_type spec), bf_leader := Some (leader_info_of spec)\<rparr>"
  note hl = holds_leader [OF h]
  show ?thesis
  proof (cases "is_chunk_data_payload (bs_payload_type spec)")
    case True
    then have "on_leader 0 (wire_leader spec) a = set_block 0 ?b a"
      by (simp add: on_leader_def nb new wire_leader_def leader_info_of_def)
    then show ?thesis using one_block_set [OF o, of ?b] hl r by (intro exI [of _ ?b]) simp
  next
    case False
    then have is_image: "is_image_payload (bs_payload_type spec)" using ok by (simp add: stream_agrees_def)
    define img where "img = \<lparr>img_pixel_format = bs_pixel_format spec, img_width = bs_width spec,
      img_height = bs_height spec, img_offset_x = 0, img_offset_y = 0, img_padding_x = bs_padding_x spec,
      img_padding_y = 0\<rparr>"
    define x where "x = min (geometry_size img) ESTIMATE_CAP"
    define m where "m = max (bf_planned b) x"
    have li: "ldr_image (wire_leader spec) = Some img" "ldr_payload_type (wire_leader spec) = bs_payload_type spec"
      "ldr_timestamp (wire_leader spec) = bs_timestamp spec"
      using is_image by (simp_all add: wire_leader_def img_def)
    have e: "on_leader 0 (wire_leader spec) a =
      (set_block 0 (?b\<lparr>bf_planned := m, bf_buffer := (if length (bf_buffer b) < x then
         if bf_buffer b = [] then acquire x else resize x 0 (bf_buffer b) else bf_buffer b)\<rparr>) a)
        \<lparr>as_largest_estimate := max (as_largest_estimate a) x\<rparr>"
      using False is_image unfolding on_leader_def Let_def nb li
      by (simp add: new leader_info_of_def x_def m_def) (simp add: img_def)
    let ?buf = "if length (bf_buffer b) < x then
         if bf_buffer b = [] then acquire x else resize x 0 (bf_buffer b) else bf_buffer b"
    have "holds spec data (insert 0 S) (?b\<lparr>bf_planned := m\<rparr>\<lparr>bf_buffer := ?buf\<rparr>)"
      by (rule holds_buffer) (use hl in \<open>auto simp: acquire_def nth_resize\<close>)
    from one_block_ex [OF o this] r show ?thesis unfolding e one_block_count by simp
  qed
qed

lemma on_trailer_holds:
  assumes ok: "stream_agrees config spec data" and o: "one_block config spec a b" and h: "holds spec data S b"
    and r: "bf_resolved b = None"
  defines "n \<equiv> packet_count spec data"
  shows "\<exists>b'. one_block config spec (on_trailer 0 (wire_header spec (bs_trailer_status spec) (word_of_nat (n + 1)))
      (wire_trailer spec (length data)) a) b' \<and> holds spec data (insert (n + 1) S) b' \<and> bf_resolved b' = None"
proof (cases "n + 1 \<in> S")
  case True
  then have "bf_trailer b \<noteq> None" using h by (simp add: holds_def n_def)
  then have "on_trailer 0 (wire_header spec (bs_trailer_status spec) (word_of_nat (n + 1)))
      (wire_trailer spec (length data)) a = count record_duplicate_packet a"
    using o by (simp add: on_trailer_def one_block_def)
  then show ?thesis using o h r True by (auto simp: insert_absorb)
next
  case False
  have nb: "as_in_flight a ! 0 = b" using o by (simp add: one_block_def)
  have new: "bf_trailer b = None" "\<not> bf_unsupported b" using h False by (simp_all add: holds_def n_def)
  have last_id: "unat (word_of_nat (n + 1) :: u32) - 1 = n"
    using parse_packet_bytes(4) [OF ok, of "n + 1"] by (simp add: n_def)
  have ne: "bs_trailer_status spec AND STATUS_ERROR = 0" using ok by (simp add: stream_agrees_def STATUS_ERROR_def)
  have short: "case bf_short_packet b of Some x \<Rightarrow> \<not> fst x < n | None \<Rightarrow> True"
    using h by (auto simp: holds_def n_def split: option.split)
  obtain m where "on_trailer 0 (wire_header spec (bs_trailer_status spec) (word_of_nat (n + 1)))
      (wire_trailer spec (length data)) a = set_block 0
        (b\<lparr>bf_trailer := Some \<lparr>ti_last_payload_id = n, ti_size_y = trl_size_y (wire_trailer spec (length data)),
           ti_payload_type = bs_payload_type spec\<rparr>, bf_bitmap := bitmap_grow m (bf_bitmap b)\<rparr>) a"
    using short unfolding on_trailer_def Let_def nb wire_header_simps last_id
    by (cases "bf_short_packet b") (simp_all add: new ne, simp_all add: wire_trailer_def)
  moreover note one_block_ex [OF o holds_trailer [OF h, of m, folded n_def]] r
  ultimately show ?thesis by simp
qed

lemma on_payload_holds:
  assumes ok: "stream_agrees config spec data" and o: "one_block config spec a b" and h: "holds spec data S b"
    and r: "bf_resolved b = None" and k: "0 < k" "k \<le> packet_count spec data"
  shows "\<exists>b' x. on_payload 0 (wire_header spec 0 (word_of_nat k)) (piece spec data k) a = (True, x) \<and>
    one_block config spec x b' \<and> holds spec data (insert k S) b' \<and> bf_resolved b' = None"
proof -
  let ?n = "packet_count spec data" and ?s = "spec_payload_stride spec" and ?p = "piece spec data k"
  have nb: "as_in_flight a ! 0 = b" and cfg: "as_config a = config" using o by (simp_all add: one_block_def)
  have id: "unat (word_of_nat k :: u32) = k" using parse_packet_bytes(4) [OF ok, of k] k by simp
  have s: "0 < ?s" using ok by (simp add: stream_agrees_def)
  have supp: "\<not> bf_unsupported b" using h by (simp add: holds_def)
  have tr: "\<not> (case bf_trailer b of None \<Rightarrow> False | Some t \<Rightarrow> k > ti_last_payload_id t)"
    using h k by (auto simp: holds_def)
  have mk: "bitmap_contains (bf_bitmap b) (k - 1) \<longleftrightarrow> k \<in> S"
    using h k by (auto simp: contains_marked holds_def)
  note pf = piece_facts [OF ok k]
  have lim: "\<not> (k - 1) * ?s + length ?p > buffer_limit config"
    using pf(3) ok by (auto simp: piece_end_def stream_agrees_def)
  note simps = on_payload_def Let_def nb cfg wire_header_simps id stride_eq [OF ok]
  show ?thesis
  proof (cases "k \<in> S")
    case True
    then have "on_payload 0 (wire_header spec 0 (word_of_nat k)) ?p a = (True, count record_duplicate_packet a)"
      unfolding simps using supp k s tr mk by simp
    then show ?thesis using o h r True by (auto simp: insert_absorb)
  next
    case False
    let ?b = "place_data k ?s ?p b"
    note pl = place_holds [OF ok h k False]
    obtain short where j: "judge_short k (length ?p) ?s ?b = (short, [])"
      and sh: "short = bf_short_packet b \<or> k = ?n \<and> short = Some (k, length ?p, ?s)"
      using pl(1) by auto
    have e: "on_payload 0 (wire_header spec 0 (word_of_nat k)) ?p a = (True, set_block 0 (?b\<lparr>bf_short_packet := short\<rparr>) a)"
      unfolding simps using supp k s tr mk False pf(4) lim j by simp
    have "p = ?n \<and> p \<in> insert k S" if "short = Some (p, l, st)" for p l st
      using sh that h unfolding holds_def by blast
    then have "holds spec data (insert k S) (?b\<lparr>bf_short_packet := short\<rparr>)"
      using pl(2) by (intro holds_short) blast+
    from one_block_ex [OF o this] r e show ?thesis by simp
  qed
qed

definition all_packets :: "block_spec \<Rightarrow> bytes \<Rightarrow> nat set" where
  "all_packets spec data = {..packet_count spec data + 1}"

lemma apply_content_holds:
  assumes ok: "stream_agrees config spec data" and o: "one_block config spec a b" and h: "holds spec data S b"
    and r: "bf_resolved b = None" and k: "k \<in> all_packets spec data"
  shows "\<exists>b' x. apply_content 0 (wire_header spec (packet_status spec data k) (word_of_nat k))
      (packet_content spec data k) a = (True, x) \<and>
    one_block config spec x b' \<and> holds spec data (insert k S) b' \<and> bf_resolved b' = None"
proof -
  consider (l) "k = 0" | (p) "0 < k" "k \<le> packet_count spec data" | (t) "k = packet_count spec data + 1"
    using k by (fastforce simp: all_packets_def)
  then show ?thesis
  proof cases
    case l
    then show ?thesis
      using on_leader_holds [OF ok o h r] by (simp add: apply_content_def packet_content_def packet_status_def)
  next
    case p
    then show ?thesis
      using on_payload_holds [OF ok o h r p] by (simp add: apply_content_def packet_content_def packet_status_def)
  next
    case t
    then show ?thesis
      using on_trailer_holds [OF ok o h r] by (simp add: apply_content_def packet_content_def packet_status_def)
  qed
qed

lemma track_arrival_holds:
  assumes "one_block config spec a b" "holds spec data S b" "bf_resolved b = None"
  shows "\<exists>b'. one_block config spec (track_arrival 0 k t now a) b' \<and> holds spec data S b' \<and> bf_resolved b' = None"
proof (cases "bf_resend b")
  case None
  then have "track_arrival 0 k t now a = a" using assms(1) by (simp add: track_arrival_def one_block_def)
  then show ?thesis using assms by auto
next
  case (Some st)
  obtain f st' where "track_arrival 0 k t now a = set_block 0 (b\<lparr>bf_resend := Some st'\<rparr>) (f a)"
    "f a = a \<or> f a = count record_resend_recovered a"
  proof -
    obtain c st1 where ar: "arrived k now (rc_delay (ac_resend (as_config a))) st = (c, st1)" by fastforce
    show thesis
      by (rule that [where f = "if c then count record_resend_recovered else id"
            and st' = "if t then resend_trailer k st1 else st1"])
        (use assms(1) Some ar in \<open>simp_all add: track_arrival_def one_block_def Let_def\<close>)
  qed
  moreover have "holds spec data S (b\<lparr>bf_resend := Some st'\<rparr>)" "bf_resolved (b\<lparr>bf_resend := Some st'\<rparr>) = None"
    using assms by simp_all
  moreover from calculation(2) have "one_block config spec (f a) b" using assms(1) by auto
  ultimately show ?thesis using one_block_ex by metis
qed

lemma try_complete_holds:
  assumes o: "one_block config spec a b" and h: "holds spec data S b" and r: "bf_resolved b = None"
  shows "\<exists>b'. one_block config spec (try_complete 0 a) b' \<and> holds spec data S b' \<and>
    bf_resolved b' = (if all_packets spec data \<subseteq> S then Some (RFrame Complete) else None)"
proof -
  let ?n = "packet_count spec data"
  have nb: "as_in_flight a ! 0 = b" using o by (simp add: one_block_def)
  have bm: "first_n_complete (bf_bitmap b) ?n \<longleftrightarrow> (\<forall>i < ?n. Suc i \<in> S)"
    using h first_n_marked [of "bf_bitmap b" ?n] by (auto simp: holds_def)
  have all: "all_packets spec data \<subseteq> S \<longleftrightarrow> 0 \<in> S \<and> ?n + 1 \<in> S \<and> (\<forall>i < ?n. Suc i \<in> S)"
  proof (intro iffI subsetI)
    fix k assume "0 \<in> S \<and> ?n + 1 \<in> S \<and> (\<forall>i < ?n. Suc i \<in> S)" "k \<in> all_packets spec data"
    then show "k \<in> S" by (cases k) (auto simp: all_packets_def le_less)
  qed (auto simp: all_packets_def)
  have "try_complete 0 a = (if all_packets spec data \<subseteq> S
      then set_block 0 (b\<lparr>bf_resolved := Some (RFrame Complete)\<rparr>) a else a)"
    using h r unfolding try_complete_def Let_def nb all bm [symmetric] by (simp add: holds_def)
  then show ?thesis
    using one_block_set [OF o, of "b\<lparr>bf_resolved := Some (RFrame Complete)\<rparr>"] o h r
    by (cases "all_packets spec data \<subseteq> S")
      (auto intro: exI [of _ b] exI [of _ "b\<lparr>bf_resolved := Some (RFrame Complete)\<rparr>"])
qed

lemma take_packet_holds:
  assumes ok: "stream_agrees config spec data" and o: "one_block config spec a b" and h: "holds spec data S b"
    and r: "bf_resolved b = None" and k: "k \<in> all_packets spec data"
  shows "\<exists>b'. one_block config spec (take_packet 0 (wire_header spec (packet_status spec data k) (word_of_nat k))
      (packet_content spec data k) now a) b' \<and> holds spec data (insert k S) b' \<and>
    bf_resolved b' = (if all_packets spec data \<subseteq> insert k S then Some (RFrame Complete) else None)"
proof -
  obtain b1 x where 1: "apply_content 0 (wire_header spec (packet_status spec data k) (word_of_nat k))
      (packet_content spec data k) a = (True, x)"
    "one_block config spec x b1" "holds spec data (insert k S) b1" "bf_resolved b1 = None"
    using apply_content_holds [OF assms] by blast
  let ?t = "case packet_content spec data k of Trailer _ \<Rightarrow> True | _ \<Rightarrow> False"
  obtain b2 where 2: "one_block config spec (track_arrival 0 (unat (word_of_nat k :: u32)) ?t now x) b2"
    "holds spec data (insert k S) b2" "bf_resolved b2 = None"
    using track_arrival_holds [OF 1(2-4)] by blast
  from try_complete_holds [OF 2] show ?thesis unfolding take_packet_def 1(1) by simp
qed

section \<open>The whole block\<close>

definition sent_block :: "block_spec \<Rightarrow> bytes \<Rightarrow> assembled_block \<Rightarrow> bool" where
  "sent_block spec data b \<longleftrightarrow>
     ab_block_id b = wire_block_id spec \<and> ab_status b = Complete \<and> ab_payload b = data \<and>
     ab_leader b = Some (leader_info_of spec) \<and> ab_payload_type b = bs_payload_type spec \<and>
     ab_trailer_size_y b = Some (trl_size_y (wire_trailer spec (length data))) \<and>
     ab_expected_size b = Some (length data)"

lemma holds_all:
  assumes ok: "stream_agrees config spec data" and h: "holds spec data S b" and all: "all_packets spec data \<subseteq> S"
  shows "sent_block spec data (assembled ps b Complete)"
proof -
  let ?n = "packet_count spec data" and ?s = "spec_payload_stride spec"
  have s: "0 < ?s" using ok by (simp add: stream_agrees_def)
  have cover: "\<exists>k \<in> S. 0 < k \<and> k \<le> ?n \<and> (k - 1) * ?s \<le> j \<and> j < piece_end spec data k" if j: "j < length data" for j
  proof -
    have lt: "j div ?s < ?n"
      using j s by (simp add: packet_count_def less_div_ceil_iff) (metis div_times_less_eq_dividend le_less_trans)
    have "j < Suc (j div ?s) * ?s" using s by (metis dividend_less_times_div mult.commute mult_Suc_right add.commute times_nat.simps(2))
    then have "j < piece_end spec data (Suc (j div ?s))" using j by (simp add: piece_end_def)
    moreover have "Suc (j div ?s) \<in> S" using all lt by (auto simp: all_packets_def)
    ultimately show ?thesis using lt by (intro bexI [of _ "Suc (j div ?s)"]) auto
  qed
  have pieces: "piece_end spec data k \<le> bf_extent b"
    "(k - 1) * ?s \<le> j \<Longrightarrow> j < piece_end spec data k \<Longrightarrow> bf_buffer b ! j = data ! j"
    if "k \<in> S" "0 < k" "k \<le> ?n" for k j using h that unfolding holds_def by blast+
  have ext: "bf_extent b = length data"
  proof (cases "length data = 0")
    case True
    then show ?thesis using h by (simp add: holds_def)
  next
    case False
    then have "length data - 1 < length data" by simp
    from cover [OF this] obtain k where "k \<in> S" "0 < k" "k \<le> ?n" "length data - 1 < piece_end spec data k" by blast
    with pieces(1) [of k] have "length data \<le> bf_extent b" by linarith
    moreover have "bf_extent b \<le> length data" using h by (simp add: holds_def)
    ultimately show ?thesis by simp
  qed
  have "take (bf_extent b) (bf_buffer b) = data"
  proof (rule nth_equalityI)
    show "length (take (bf_extent b) (bf_buffer b)) = length data" using h by (simp add: holds_def ext [symmetric])
    fix j assume "j < length (take (bf_extent b) (bf_buffer b))"
    then have j: "j < length data" by (simp add: ext)
    from cover [OF j] obtain k where "k \<in> S" "0 < k" "k \<le> ?n" "(k - 1) * ?s \<le> j" "j < piece_end spec data k" by blast
    with pieces(2) [of k j] j show "take (bf_extent b) (bf_buffer b) ! j = data ! j" by (simp add: ext)
  qed
  moreover have "0 \<in> S" "?n + 1 \<in> S" using all by (auto simp: all_packets_def)
  ultimately show ?thesis
    using h by (simp add: sent_block_def assembled_def expected_size_def is_complete_def ext holds_def)
qed

text \<open>Where the assembler stands once the packets \<open>S\<close> have arrived.\<close>

definition progress :: "assembly_config \<Rightarrow> block_spec \<Rightarrow> bytes \<Rightarrow> nat set \<Rightarrow> assembler \<Rightarrow> bool" where
  "progress config spec data S a \<longleftrightarrow> as_config a = config \<and>
     (if S = {} then as_in_flight a = [] \<and> as_last_block_id a = None
      else if all_packets spec data \<subseteq> S
      then as_in_flight a = [] \<and> as_last_block_id a = Some (wire_block_id spec)
      else \<exists>b. one_block config spec a b \<and> holds spec data S b \<and> bf_resolved b = None)"

lemma holds_new:
  assumes "stream_agrees config spec data" "as_config a = config" "as_in_flight a = []"
    and "as_last_block_id a = Some (wire_block_id spec)"
  shows "\<exists>b. one_block config spec (push_block (wire_header spec st k) now a) b \<and> holds spec data {} b \<and>
    bf_resolved b = None"
proof -
  obtain buf n spare spares where "push_block (wire_header spec st k) now a =
      a\<lparr>as_spare_bitmaps := spares, as_in_flight := as_in_flight a @ [block_new (wire_header spec st k) now
        (rc_enabled (ac_resend (as_config a))) buf (bitmap_reset n spare)]\<rparr>" by (rule push_block_ex)
  note p = this [unfolded assms(2,3) append_Nil]
  have "holds spec data {} (block_new (wire_header spec st k) now e buf (bitmap_reset n spare))" for e
    using bitmap.abs_reset [of n spare] by (auto simp: holds_def block_new_def)
  then show ?thesis using assms p by (auto simp: one_block_def block_new_def)
qed

lemma ingest_admitted:
  assumes ok: "stream_agrees config spec data" and k: "k \<in> all_packets spec data"
    and adm: "admit (wire_header spec (packet_status spec data k) (word_of_nat k))
      (case packet_content spec data k of Leader _ \<Rightarrow> True | _ \<Rightarrow> False) now a = (Some 0, m, [])"
    and m: "one_block config spec m b" "holds spec data S b" "bf_resolved b = None"
  shows "\<exists>a' out. ingest (packet_bytes spec data k) now a = (a', out) \<and> progress config spec data (insert k S) a' \<and>
    (if all_packets spec data \<subseteq> insert k S then \<exists>blk. out = [blk] \<and> sent_block spec data blk else out = [])"
proof -
  let ?h = "wire_header spec (packet_status spec data k) (word_of_nat k)" and ?c = "packet_content spec data k"
  have k': "k \<le> packet_count spec data + 1" using k by (simp add: all_packets_def)
  note pp = parse_packet_bytes [OF ok k']
  let ?b = "b\<lparr>bf_last_packet := now\<rparr>" and ?m = "set_block 0 (b\<lparr>bf_last_packet := now\<rparr>) m"
  have b0: "as_in_flight m ! 0 = b" using m(1) by (simp add: one_block_def)
  have del: "deliver 0 ?h ?c now m = emit (take_packet 0 ?h ?c now ?m)"
    unfolding deliver_def Let_def b0 using m(3) by simp
  have "ingest (packet_bytes spec data k) now a = deliver 0 ?h ?c now m"
    using ingest_packet [OF pp(1), of now a] pp(2,3) adm
    by (auto simp: packet_content_def case_prod_beta split: if_splits)
  with del have ing: "ingest (packet_bytes spec data k) now a = emit (take_packet 0 ?h ?c now ?m)" by simp
  obtain b' where b': "one_block config spec (take_packet 0 ?h ?c now ?m) b'" "holds spec data (insert k S) b'"
    "bf_resolved b' = (if all_packets spec data \<subseteq> insert k S then Some (RFrame Complete) else None)"
    using take_packet_holds [OF ok one_block_set [OF m(1), of ?b] _ _ k, of S now] m(2,3) by auto
  let ?t = "take_packet 0 ?h ?c now ?m"
  obtain a' out where e: "emit ?t = (a', out)" by fastforce
  note em = emit_eq [of ?t, unfolded e fst_conv snd_conv]
  show ?thesis
  proof (cases "all_packets spec data \<subseteq> insert k S")
    case True
    with b' have "as_in_flight a' = []" "as_last_block_id a' = Some (wire_block_id spec)"
      "as_config a' = config" "out = [assembled (ac_packet_size config) b' Complete]"
      using em by (simp_all add: one_block_def)
    then show ?thesis using True holds_all [OF ok b'(2) True] by (simp add: ing e progress_def)
  next
    case False
    with b' have "one_block config spec a' b'" "out = []"
      using em by (simp_all add: one_block_def)
    then show ?thesis using False b' by (auto simp: ing e progress_def one_block_def)
  qed
qed

lemma ingest_progress:
  assumes ok: "stream_agrees config spec data" and k: "k \<in> all_packets spec data"
    and p: "progress config spec data S a"
  shows "\<exists>a' out. ingest (packet_bytes spec data k) now a = (a', out) \<and> progress config spec data (insert k S) a' \<and>
    (if all_packets spec data \<subseteq> insert k S \<and> \<not> all_packets spec data \<subseteq> S
     then \<exists>blk. out = [blk] \<and> sent_block spec data blk else out = [])"
proof -
  let ?h = "wire_header spec (packet_status spec data k) (word_of_nat k)" and ?c = "packet_content spec data k"
  let ?l = "case ?c of Leader _ \<Rightarrow> True | _ \<Rightarrow> False"
  have ne: "all_packets spec data \<noteq> {}" by (simp add: all_packets_def)
  have id: "wire_block_id spec \<noteq> 0 \<or> bs_extended_ids spec" using ok by (auto simp: stream_agrees_def)
  consider (fresh) "S = {}" | (part) "S \<noteq> {}" "\<not> all_packets spec data \<subseteq> S" | (whole) "S \<noteq> {}" "all_packets spec data \<subseteq> S"
    by blast
  then show ?thesis
  proof cases
    case fresh
    then have a: "as_in_flight a = []" "as_last_block_id a = None" "as_config a = config"
      using p by (simp_all add: progress_def)
    let ?a = "a\<lparr>as_last_block_id := Some (wire_block_id spec)\<rparr>"
    have "make_room ?a = (?a, [])" by (subst make_room.simps) (simp add: a MAX_IN_FLIGHT_def)
    then have adm: "admit ?h ?l now a = (Some (length (as_in_flight (push_block ?h now ?a)) - 1), push_block ?h now ?a, [])"
      using id by (simp add: admit_def a classify_def note_order_def Let_def)
    obtain b where b: "one_block config spec (push_block ?h now ?a) b" "holds spec data {} b" "bf_resolved b = None"
    proof -
      have "as_config ?a = config" "as_in_flight ?a = []" "as_last_block_id ?a = Some (wire_block_id spec)"
        using a by simp_all
      from holds_new [OF ok this, of "packet_status spec data k" "word_of_nat k" now] that show thesis by blast
    qed
    have "admit ?h ?l now a = (Some 0, push_block ?h now ?a, [])" using adm b(1) by (simp add: one_block_def)
    from ingest_admitted [OF ok k this b] show ?thesis using ne fresh by simp
  next
    case part
    then obtain b where b: "one_block config spec a b" "holds spec data S b" "bf_resolved b = None"
      using p by (auto simp: progress_def)
    then have "admit ?h ?l now a = (Some 0, a, [])" by (simp add: admit_def one_block_def holds_def)
    from ingest_admitted [OF ok k this b] show ?thesis using part by simp
  next
    case whole
    then have a: "as_in_flight a = []" "as_last_block_id a = Some (wire_block_id spec)" "as_config a = config"
      using p by (simp_all add: progress_def)
    have k': "k \<le> packet_count spec data + 1" using k by (simp add: all_packets_def)
    note pp = parse_packet_bytes [OF ok k']
    have "classify (Some (wire_block_id spec)) (wire_block_id spec) (bs_extended_ids spec) ?l = Late"
      using id by (auto simp: classify_def Let_def distance16_def LATE_WINDOW_def)
    then have adm: "admit ?h ?l now a = (None, a, [])" using a by (simp add: admit_def Let_def)
    have "ingest (packet_bytes spec data k) now a = (count (record_ignored_packet IgnLate) a, [])"
      using ingest_packet [OF pp(1), of now a] pp(2,3) adm
      by (auto simp: packet_content_def split: if_splits)
    moreover have "all_packets spec data \<subseteq> insert k S" using whole by blast
    ultimately show ?thesis using whole a by (simp add: progress_def)
  qed
qed

fun ingest_all :: "assembler \<Rightarrow> (bytes \<times> instant) list \<Rightarrow> assembler \<times> assembled_block list" where
  "ingest_all a [] = (a, [])"
| "ingest_all a ((d, now) # ds) =
     (let (a', out) = ingest d now a; (a'', out') = ingest_all a' ds in (a'', out @ out'))"

lemma ingest_all_progress:
  assumes ok: "stream_agrees config spec data" and p: "progress config spec data S a"
    and ds: "\<forall>d \<in> set ds. \<exists>k \<in> all_packets spec data. fst d = packet_bytes spec data k"
  shows "\<exists>a' out T. ingest_all a ds = (a', out) \<and> progress config spec data (S \<union> T) a' \<and>
    T \<subseteq> all_packets spec data \<and> fst ` set ds = packet_bytes spec data ` T \<and>
    (if all_packets spec data \<subseteq> S \<union> T \<and> \<not> all_packets spec data \<subseteq> S
     then \<exists>blk. out = [blk] \<and> sent_block spec data blk else out = [])"
  using p ds
proof (induction ds arbitrary: S a)
  case Nil
  then show ?case by (intro exI [of _ a] exI [of _ "[]"] exI [of _ "{}"]) simp
next
  case (Cons d ds)
  obtain b now where d: "d = (b, now)" by fastforce
  with Cons.prems obtain k where k: "k \<in> all_packets spec data" "b = packet_bytes spec data k" by auto
  obtain a1 o1 where 1: "ingest b now a = (a1, o1)" "progress config spec data (insert k S) a1"
    "if all_packets spec data \<subseteq> insert k S \<and> \<not> all_packets spec data \<subseteq> S
     then \<exists>blk. o1 = [blk] \<and> sent_block spec data blk else o1 = []"
    using ingest_progress [OF ok k(1) Cons.prems(1), of now] k(2) by blast
  obtain a2 o2 T where 2: "ingest_all a1 ds = (a2, o2)" "progress config spec data (insert k S \<union> T) a2"
    "T \<subseteq> all_packets spec data" "fst ` set ds = packet_bytes spec data ` T"
    "if all_packets spec data \<subseteq> insert k S \<union> T \<and> \<not> all_packets spec data \<subseteq> insert k S
     then \<exists>blk. o2 = [blk] \<and> sent_block spec data blk else o2 = []"
    using Cons.IH [OF 1(2)] Cons.prems(2) by auto
  have T: "S \<union> insert k T = insert k S \<union> T" by blast
  have "ingest_all a (d # ds) = (a2, o1 @ o2)" using 1(1) 2(1) by (simp add: d)
  moreover have "if all_packets spec data \<subseteq> S \<union> insert k T \<and> \<not> all_packets spec data \<subseteq> S
     then \<exists>blk. o1 @ o2 = [blk] \<and> sent_block spec data blk else o1 @ o2 = []"
    using 1(3) 2(5) unfolding T
    by (cases "all_packets spec data \<subseteq> S"; cases "all_packets spec data \<subseteq> insert k S") auto
  moreover have "progress config spec data (S \<union> insert k T) a2" using 2(2) T by simp
  moreover have "fst ` set (d # ds) = packet_bytes spec data ` insert k T" using 2(4) k(2) by (simp add: d)
  ultimately show ?case using 2(3) k(1) by (intro exI [of _ a2] exI [of _ "o1 @ o2"] exI [of _ "insert k T"]) simp
qed

lemma packet_bytes_inj:
  assumes "stream_agrees config spec data"
  shows "inj_on (packet_bytes spec data) (all_packets spec data)"
proof (rule inj_onI)
  fix k l assume k: "k \<in> all_packets spec data" and l: "l \<in> all_packets spec data"
    and eq: "packet_bytes spec data k = packet_bytes spec data l"
  note pk = parse_packet_bytes [OF assms, of k] and pl = parse_packet_bytes [OF assms, of l]
  have le: "k \<le> packet_count spec data + 1" "l \<le> packet_count spec data + 1"
    using k l by (simp_all add: all_packets_def)
  have "wire_header spec (packet_status spec data k) (word_of_nat k) =
      wire_header spec (packet_status spec data l) (word_of_nat l)"
    using pk(1) [OF le(1)] pl(1) [OF le(2)] unfolding eq by simp
  from arg_cong [OF this, of hdr_packet_id] have "(word_of_nat k :: u32) = word_of_nat l"
    unfolding wire_header_simps .
  then show "k = l" using pk(4) [OF le(1)] pl(4) [OF le(2)] by metis
qed

lemma new_progress: "progress config spec data {} (assembler_new config stats)"
  by (simp add: progress_def assembler_new_def)

lemma ingest_all_block:
  assumes "stream_agrees config spec data"
    and "set (map fst ds) \<subseteq> set (map dg_bytes (block_datagrams spec data))"
  shows "\<exists>a out. ingest_all (assembler_new config stats) ds = (a, out) \<and>
    (if set (map fst ds) = set (map dg_bytes (block_datagrams spec data))
     then as_in_flight a = [] \<and> (\<exists>b. out = [b] \<and> sent_block spec data b)
     else out = [])"
proof -
  let ?all = "all_packets spec data" and ?f = "packet_bytes spec data"
  have "0 < spec_payload_stride spec" using assms(1) by (simp add: stream_agrees_def)
  note bytes = block_datagrams_bytes [OF this, of data]
  have img: "set (map dg_bytes (block_datagrams spec data)) = ?f ` ?all"
  proof -
    have "?all = set [0..<packet_count spec data + 2]" by (auto simp: all_packets_def)
    then show ?thesis unfolding bytes set_map by simp
  qed
  have "\<exists>k \<in> ?all. fst d = ?f k" if "d \<in> set ds" for d
    using assms(2) that unfolding img by auto
  then obtain a out T where r: "ingest_all (assembler_new config stats) ds = (a, out)"
    "progress config spec data T a" "T \<subseteq> ?all" "fst ` set ds = ?f ` T"
    "if ?all \<subseteq> T then \<exists>blk. out = [blk] \<and> sent_block spec data blk else out = []"
    using ingest_all_progress [OF assms(1) new_progress, of ds stats] by (auto simp: all_packets_def)
  have "set (map fst ds) = ?f ` ?all \<longleftrightarrow> ?all \<subseteq> T"
  proof -
    have "set (map fst ds) = ?f ` T" using r(4) by simp
    then show ?thesis
      using inj_on_image_eq_iff [OF packet_bytes_inj [OF assms(1)] r(3), of ?all] r(3) by auto
  qed
  moreover have "as_in_flight a = []" if "?all \<subseteq> T"
    using r(2) that by (auto simp: progress_def all_packets_def split: if_splits)
  ultimately show ?thesis using r(1,5) unfolding img by auto
qed

definition example_spec :: block_spec where
  "example_spec = spec_image 7 4 2 0x01080001 40"

lemma example_agrees: "stream_agrees (assembly_config_new 40) example_spec [1, 2, 3, 4, 5, 6, 7]"
  by (simp add: stream_agrees_def example_spec_def spec_image_def assembly_config_new_def spec_payload_stride_def
      spec_header_len_def gvsp_consts is_image_payload_def payload_type_defs wire_block_id_def packet_count_def
      div_ceil_def buffer_limit_def ESTIMATE_CAP_def)

definition example_packets :: "(bytes \<times> instant) list" where
  "example_packets = map (\<lambda>d. (dg_bytes d, 5)) (rev (block_datagrams example_spec [1, 2, 3, 4, 5, 6, 7]))"

lemma example_all:
  "set (map fst example_packets) = set (map dg_bytes (block_datagrams example_spec [1, 2, 3, 4, 5, 6, 7]))"
  by (simp add: example_packets_def comp_def image_comp)

section \<open>Properties\<close>

text \<open>
  C1. A block survives the network. Take a fresh assembler and the datagrams the camera sends for
  one block, delivered in any order, any number of times and at any instants. If every datagram
  arrived at least once, exactly one block is handed out, it is complete, its payload is the bytes
  the camera sent, its leader, payload type, lines and expected size are the camera's, and nothing
  is left in flight. If any datagram is still missing, nothing is handed out. It holds in both
  header layouts, with or without \<open>PayloadSize\<close> and with or without resend, for image and
  chunk-data blocks, provided camera and host agree on the packet size, the packet ids fit their
  field and the payload fits the buffer limit.
\<close>
theorem block_reassembled:
  assumes "stream_agrees config spec data"
    and "set (map fst ds) \<subseteq> set (map dg_bytes (block_datagrams spec data))"
  shows "\<exists>a out. ingest_all (assembler_new config stats) ds = (a, out) \<and>
    (if set (map fst ds) = set (map dg_bytes (block_datagrams spec data))
     then as_in_flight a = [] \<and>
       (\<exists>b. out = [b] \<and> ab_status b = Complete \<and> ab_payload b = data \<and>
          ab_block_id b = wire_block_id spec \<and> ab_leader b = Some (leader_info_of spec) \<and>
          ab_payload_type b = bs_payload_type spec \<and>
          ab_trailer_size_y b = Some (trl_size_y (wire_trailer spec (length data))) \<and>
          ab_expected_size b = Some (length data))
     else out = [])"
proof -
  obtain a out where r: "ingest_all (assembler_new config stats) ds = (a, out)"
    and o: "if set (map fst ds) = set (map dg_bytes (block_datagrams spec data))
      then as_in_flight a = [] \<and> (\<exists>b. out = [b] \<and> sent_block spec data b) else out = []"
    using ingest_all_block [OF assms, of stats] by blast
  show ?thesis
    by (intro exI conjI, rule r)
      (use o in \<open>cases "set (map fst ds) = set (map dg_bytes (block_datagrams spec data))"; auto simp: sent_block_def\<close>)
qed

theorem block_reassembled_witness:
  "\<exists>a b. ingest_all (assembler_new (assembly_config_new 40) stats_new) example_packets = (a, [b]) \<and>
     ab_status b = Complete \<and> ab_payload b = [1, 2, 3, 4, 5, 6, 7] \<and> as_in_flight a = []"
  using block_reassembled [OF example_agrees, of example_packets stats_new] example_all by fastforce

end
