(* ===== verification/Receiver.thy ===== *)
theory Receiver
  imports Assembly_Inv
begin

text \<open>
  From assembled blocks to the application: chunk splitting
  (\<^verbatim>\<open>crates/viva-genicam/src/chunks.rs\<close>), the application's view of a block and the consumer
  side of a stream (\<^verbatim>\<open>stream/mod.rs\<close>), and the receive thread with its delivery queue
  (\<^verbatim>\<open>stream/receiver.rs\<close>).

  One iteration of the receive loop is a function of what the socket read returned and of the
  settings it loads; the thread is the sequence of those iterations, interleaved with what the
  application takes out of the queue. Each queue operation runs under the queue's lock, so it is
  one step. The counters are shared by both sides and live in the assembler. Pixel formats are
  kept as their PFNC codes, budgets as doubles rather than their bits, and log output is left
  out except for the flags that make it appear once.
\<close>

section \<open>Chunks of a payload\<close>

type_synonym chunk_map = "(u64 \<times> bytes) list"

definition chunk_data_of :: "bytes \<Rightarrow> (chunk_map, chunk_error) result" where
  "chunk_data_of payload =
     and_then (parse_chunks payload) (\<lambda>chunks.
       Ok (map (\<lambda>c. (ucast (chunk_id c),
             take (length (chunk_data c)) (drop (chunk_offset c) payload))) chunks))"

text \<open>\<open>ChunkData::get\<close>: the first chunk with the id.\<close>

definition chunk_get :: "u64 \<Rightarrow> chunk_map \<Rightarrow> bytes option" where
  "chunk_get cid chunks = map_option snd (find (\<lambda>c. fst c = cid) chunks)"

definition carries_chunks :: "u16 \<Rightarrow> bool" where
  "carries_chunks payload_type \<longleftrightarrow>
     has_extended_chunks payload_type \<or> payload_type AND 0x3FFF = PAYLOAD_TYPE_CHUNK_DATA"

definition split_chunks :: "bytes \<Rightarrow> u16 \<Rightarrow> bytes \<times> (chunk_map, chunk_error) result option" where
  "split_chunks payload payload_type =
     (if \<not> carries_chunks payload_type then (payload, None)
      else
        (case chunk_data_of payload of
           Ok data \<Rightarrow>
             ((case data of
                 (cid, first_data) # rest \<Rightarrow> if is_image_payload payload_type then first_data else payload
               | [] \<Rightarrow> payload), Some (Ok data))
         | Err e \<Rightarrow> (payload, Some (Err e))
         | Panic \<Rightarrow> (payload, Some Panic)))"

section \<open>The application's view of a block\<close>

record frame =
  fr_payload :: bytes
  fr_width :: u32
  fr_height :: u32
  fr_pixel_format :: u32
  fr_chunks :: "chunk_map option"
  fr_ts_dev :: "u64 option"
  fr_block_id :: u64
  fr_payload_type :: u16
  fr_status :: frame_status
  fr_padding_x :: u16
  fr_raw_payload :: bytes
  fr_delivered_height :: "u32 option"
  fr_expected_size :: "nat option"

definition frame_new :: "bytes \<Rightarrow> u32 \<Rightarrow> u32 \<Rightarrow> u32 \<Rightarrow> frame" where
  "frame_new payload width height pixel_format =
     \<lparr>fr_payload = payload, fr_width = width, fr_height = height, fr_pixel_format = pixel_format,
      fr_chunks = None, fr_ts_dev = None, fr_block_id = 0, fr_payload_type = 0x0001,
      fr_status = Complete, fr_padding_x = 0, fr_raw_payload = payload,
      fr_delivered_height = None, fr_expected_size = None\<rparr>"

datatype evs_format = Evt30 | Evt21

record evs_block =
  ev_payload :: bytes
  ev_format :: evs_format
  ev_ts_dev :: "u64 option"
  ev_leader_size_x :: u32
  ev_leader_size_y :: u32
  ev_trailer_size_y :: u32
  ev_chunks :: "chunk_map option"
  ev_block_id :: u64
  ev_status :: frame_status

datatype stream_block = Image frame | Evs evs_block

record generic_block =
  gb_inner :: stream_block
  gb_completed :: "instant option"

definition gb_payload :: "generic_block \<Rightarrow> bytes" where
  "gb_payload g = (case gb_inner g of Image f \<Rightarrow> fr_payload f | Evs e \<Rightarrow> ev_payload e)"

definition gb_block_id :: "generic_block \<Rightarrow> u64" where
  "gb_block_id g = (case gb_inner g of Image f \<Rightarrow> fr_block_id f | Evs e \<Rightarrow> ev_block_id e)"

definition gb_status :: "generic_block \<Rightarrow> frame_status" where
  "gb_status g = (case gb_inner g of Image f \<Rightarrow> fr_status f | Evs e \<Rightarrow> ev_status e)"

definition evs_format_of :: "u32 \<Rightarrow> evs_format option" where
  "evs_format_of code =
     (if code = 0x81100E30 then Some Evt30 else if code = 0x81400E21 then Some Evt21 else None)"

definition classify_completed_block :: "assembled_block \<Rightarrow> generic_block \<times> chunk_error option" where
  "classify_completed_block block =
     (let raw_payload = ab_payload block;
          (payload, chunks) =
            (if is_complete (ab_status block) then split_chunks (ab_payload block) (ab_payload_type block)
             else (ab_payload block, None));
          (chunks, chunk_error) =
            (case chunks of Some (Ok c) \<Rightarrow> (Some c, None) | Some (Err e) \<Rightarrow> (None, Some e) | _ \<Rightarrow> (None, None));
          (width, height, pixel_format, ts_dev, padding_x) =
            (case ab_leader block of
               Some l \<Rightarrow> (li_width l, li_height l, li_pixel_format l, Some (li_timestamp l), li_padding_x l)
             | None \<Rightarrow> (0, 0, 0, None, 0));
          inner =
            (case evs_format_of pixel_format of
               Some format \<Rightarrow>
                 Evs \<lparr>ev_payload = payload, ev_format = format, ev_ts_dev = ts_dev, ev_leader_size_x = width,
                      ev_leader_size_y = height,
                      ev_trailer_size_y = (case ab_trailer_size_y block of Some y \<Rightarrow> y | None \<Rightarrow> 0),
                      ev_chunks = chunks, ev_block_id = ab_block_id block, ev_status = ab_status block\<rparr>
             | None \<Rightarrow>
                 Image ((frame_new payload width height pixel_format)
                   \<lparr>fr_raw_payload := raw_payload, fr_padding_x := padding_x, fr_chunks := chunks,
                    fr_ts_dev := ts_dev, fr_block_id := ab_block_id block,
                    fr_payload_type := ab_payload_type block, fr_status := ab_status block,
                    fr_delivered_height :=
                      (if is_image_payload (ab_payload_type block) then ab_trailer_size_y block else None),
                    fr_expected_size := ab_expected_size block\<rparr>)) in
      (\<lparr>gb_inner = inner, gb_completed = Some (ab_last_packet block)\<rparr>, chunk_error))"

section \<open>The delivery queue\<close>

definition DELIVERY_CAPACITY :: nat where "DELIVERY_CAPACITY = 16"

datatype 'e ending = Failed string 'e | Finished

datatype ('t, 'e) popped = Item 't | PoppedFailed string 'e | PoppedFinished | PoppedEmpty

record ('t, 'e) delivery_queue =
  dq_items :: "'t list"
  dq_end :: "'e ending option"
  dq_capacity :: nat

definition queue_new :: "nat \<Rightarrow> ('t, 'e) delivery_queue" where
  "queue_new capacity = \<lparr>dq_items = [], dq_end = None, dq_capacity = max capacity 1\<rparr>"

definition queue_push :: "'t \<Rightarrow> ('t, 'e) delivery_queue \<Rightarrow> 't option \<times> ('t, 'e) delivery_queue" where
  "queue_push item q =
     (if length (dq_items q) \<ge> dq_capacity q then
        (case dq_items q of
           [] \<Rightarrow> (None, q\<lparr>dq_items := [item]\<rparr>)
         | oldest # rest \<Rightarrow> (Some oldest, q\<lparr>dq_items := rest @ [item]\<rparr>))
      else (None, q\<lparr>dq_items := dq_items q @ [item]\<rparr>))"

definition queue_fail :: "string \<Rightarrow> 'e \<Rightarrow> ('t, 'e) delivery_queue \<Rightarrow> ('t, 'e) delivery_queue" where
  "queue_fail during err q = (if dq_end q = None then q\<lparr>dq_end := Some (Failed during err)\<rparr> else q)"

definition queue_finish :: "('t, 'e) delivery_queue \<Rightarrow> ('t, 'e) delivery_queue" where
  "queue_finish q = (if dq_end q = None then q\<lparr>dq_end := Some Finished\<rparr> else q)"

definition try_pop :: "('t, 'e) delivery_queue \<Rightarrow> ('t, 'e) popped \<times> ('t, 'e) delivery_queue" where
  "try_pop q =
     (case dq_items q of
        item # rest \<Rightarrow> (Item item, q\<lparr>dq_items := rest\<rparr>)
      | [] \<Rightarrow>
          (case dq_end q of
             Some (Failed during err) \<Rightarrow> (PoppedFailed during err, q\<lparr>dq_end := Some Finished\<rparr>)
           | Some Finished \<Rightarrow> (PoppedFinished, q)
           | None \<Rightarrow> (PoppedEmpty, q)))"

section \<open>Settings shared with the receive thread\<close>

definition pack_target :: "u32 \<times> u16 \<Rightarrow> u16 \<Rightarrow> u64" where
  "pack_target camera channel =
     push_bit 32 (ucast (fst camera)) OR push_bit 16 (ucast (snd camera)) OR ucast channel"

definition unpack_target :: "u64 \<Rightarrow> ((u32 \<times> u16) \<times> u16) option" where
  "unpack_target packed =
     (if packed \<noteq> 0
      then Some ((ucast (drop_bit 32 packed), ucast (drop_bit 16 packed)), ucast packed)
      else None)"

definition nanos :: "duration \<Rightarrow> u64" where
  "nanos d = (if d \<le> U64_MAX then word_of_nat d else - 1)"

record shared =
  sh_block_timeout_ns :: u64
  sh_payload_size :: u64
  sh_deliver_incomplete :: bool
  sh_source_filter :: u32
  sh_resend_target :: u64
  sh_resend_delay_ns :: u64
  sh_resend_retry_ns :: u64
  sh_resend_max_requests :: u32
  sh_resend_budget :: f64

definition shared_new :: shared where
  "shared_new =
     \<lparr>sh_block_timeout_ns = word_of_nat DEFAULT_BLOCK_TIMEOUT, sh_payload_size = 0,
      sh_deliver_incomplete = False, sh_source_filter = 0, sh_resend_target = 0,
      sh_resend_delay_ns = nanos (rc_delay resend_config_default),
      sh_resend_retry_ns = nanos (rc_retry_interval resend_config_default),
      sh_resend_max_requests = word_of_nat (rc_max_requests resend_config_default),
      sh_resend_budget = rc_budget resend_config_default\<rparr>"

definition set_source_filter :: "u32 option \<Rightarrow> shared \<Rightarrow> shared" where
  "set_source_filter camera sh = sh\<lparr>sh_source_filter := (case camera of None \<Rightarrow> 0 | Some ip \<Rightarrow> ip)\<rparr>"

definition source_filter :: "shared \<Rightarrow> u32 option" where
  "source_filter sh = (if sh_source_filter sh = 0 then None else Some (sh_source_filter sh))"

definition set_resend_target :: "((u32 \<times> u16) \<times> u16) option \<Rightarrow> shared \<Rightarrow> shared" where
  "set_resend_target target sh =
     sh\<lparr>sh_resend_target := (case target of None \<Rightarrow> 0 | Some (camera, channel) \<Rightarrow> pack_target camera channel)\<rparr>"

definition resend_target :: "shared \<Rightarrow> ((u32 \<times> u16) \<times> u16) option" where
  "resend_target sh = unpack_target (sh_resend_target sh)"

definition shared_resend_config :: "shared \<Rightarrow> resend_config" where
  "shared_resend_config sh =
     \<lparr>rc_enabled = (sh_resend_target sh \<noteq> 0), rc_delay = unat (sh_resend_delay_ns sh),
      rc_retry_interval = unat (sh_resend_retry_ns sh), rc_max_requests = unat (sh_resend_max_requests sh),
      rc_budget = sh_resend_budget sh\<rparr>"

definition set_payload_size :: "nat option \<Rightarrow> shared \<Rightarrow> shared" where
  "set_payload_size sz sh = sh\<lparr>sh_payload_size := (case sz of None \<Rightarrow> 0 | Some n \<Rightarrow> word_of_nat n)\<rparr>"

definition shared_payload_size :: "shared \<Rightarrow> nat option" where
  "shared_payload_size sh = (if sh_payload_size sh = 0 then None else Some (unat (sh_payload_size sh)))"

definition set_block_timeout :: "duration \<Rightarrow> shared \<Rightarrow> shared" where
  "set_block_timeout d sh = sh\<lparr>sh_block_timeout_ns := nanos d\<rparr>"

definition block_timeout :: "shared \<Rightarrow> duration" where
  "block_timeout sh = unat (sh_block_timeout_ns sh)"

definition set_deliver_incomplete :: "bool \<Rightarrow> shared \<Rightarrow> shared" where
  "set_deliver_incomplete b sh = sh\<lparr>sh_deliver_incomplete := b\<rparr>"

definition set_resend_delay :: "duration \<Rightarrow> shared \<Rightarrow> shared" where
  "set_resend_delay d sh = sh\<lparr>sh_resend_delay_ns := nanos d\<rparr>"

definition set_resend_retry_interval :: "duration \<Rightarrow> shared \<Rightarrow> shared" where
  "set_resend_retry_interval d sh = sh\<lparr>sh_resend_retry_ns := nanos d\<rparr>"

definition set_resend_max_requests :: "u32 \<Rightarrow> shared \<Rightarrow> shared" where
  "set_resend_max_requests n sh = sh\<lparr>sh_resend_max_requests := n\<rparr>"

definition set_resend_budget :: "f64 \<Rightarrow> shared \<Rightarrow> shared" where
  "set_resend_budget b sh = sh\<lparr>sh_resend_budget := b\<rparr>"

text \<open>The configuration the loop asks for on every round.\<close>

definition wanted_config :: "u32 \<Rightarrow> shared \<Rightarrow> assembly_config" where
  "wanted_config packet_size sh =
     \<lparr>ac_packet_size = packet_size, ac_payload_size = shared_payload_size sh,
      ac_block_timeout = block_timeout sh, ac_resend = shared_resend_config sh\<rparr>"

section \<open>Diagnosing a silent stream\<close>

definition SILENCE_GRACE :: duration where "SILENCE_GRACE = 3000000000"

datatype silence = Quiet | NoPacket | NoFrame | OnlyForeign "u32 \<times> u16"

record silence_watch =
  sw_saw_packet :: bool
  sw_saw_frame :: bool
  sw_saw_foreign :: "(u32 \<times> u16) option"
  sw_warned :: bool

definition silence_new :: silence_watch where
  "silence_new = \<lparr>sw_saw_packet = False, sw_saw_frame = False, sw_saw_foreign = None, sw_warned = False\<rparr>"

definition silence_packet :: "silence_watch \<Rightarrow> silence_watch" where
  "silence_packet w = w\<lparr>sw_saw_packet := True\<rparr>"

definition silence_foreign :: "u32 \<times> u16 \<Rightarrow> silence_watch \<Rightarrow> silence_watch" where
  "silence_foreign from_addr w =
     (if sw_saw_foreign w = None then w\<lparr>sw_saw_foreign := Some from_addr\<rparr> else w)"

definition silence_frame :: "silence_watch \<Rightarrow> silence_watch" where
  "silence_frame w = w\<lparr>sw_saw_frame := True\<rparr>"

definition assess :: "duration \<Rightarrow> silence_watch \<Rightarrow> silence \<times> silence_watch" where
  "assess elapsed w =
     (if sw_warned w \<or> sw_saw_frame w \<or> elapsed < SILENCE_GRACE then (Quiet, w)
      else
        ((if sw_saw_packet w then NoFrame
          else (case sw_saw_foreign w of Some a \<Rightarrow> OnlyForeign a | None \<Rightarrow> NoPacket)),
         w\<lparr>sw_warned := True\<rparr>))"

section \<open>The receive loop\<close>

text \<open>The request id of \<open>ResendSender\<close>: 1 first, and 0 is never used.\<close>

definition resend_request_id :: "u16 \<Rightarrow> u16" where
  "resend_request_id r = (if r = - 1 then 1 else r + 1)"

record 'e receiver =
  rx_assembler :: assembler
  rx_queue :: "(generic_block, 'e) delivery_queue"
  rx_silence :: silence_watch
  rx_request_id :: u16
  rx_chunk_warned :: bool
  rx_ended :: bool

definition receiver_new :: "u32 \<Rightarrow> shared \<Rightarrow> stream_stats \<Rightarrow> 'e receiver" where
  "receiver_new packet_size sh stats =
     \<lparr>rx_assembler = assembler_new ((assembly_config_new packet_size)
        \<lparr>ac_block_timeout := block_timeout sh, ac_payload_size := shared_payload_size sh\<rparr>) stats,
      rx_queue = queue_new DELIVERY_CAPACITY, rx_silence = silence_new, rx_request_id = 1,
      rx_chunk_warned = False, rx_ended = False\<rparr>"

definition rx_count :: "(stream_stats \<Rightarrow> stream_stats) \<Rightarrow> 'e receiver \<Rightarrow> 'e receiver" where
  "rx_count f r = r\<lparr>rx_assembler := count f (rx_assembler r)\<rparr>"

definition hand_over :: "bool \<Rightarrow> assembled_block \<Rightarrow> 'e receiver \<Rightarrow> 'e receiver" where
  "hand_over deliver_incomplete block r =
     (let complete = is_complete (ab_status block);
          r = (if complete then r\<lparr>rx_silence := silence_frame (rx_silence r)\<rparr> else r) in
      if \<not> complete \<and> \<not> deliver_incomplete then rx_count record_incomplete_frame r
      else
        let (item, chunk_error) = classify_completed_block block;
            r = (if chunk_error \<noteq> None then r\<lparr>rx_chunk_warned := True\<rparr> else r);
            (evicted, queue) = queue_push item (rx_queue r);
            r = r\<lparr>rx_queue := queue\<rparr> in
        if evicted \<noteq> None then rx_count record_backpressure_drop r else r)"

text \<open>What one read of the socket gave: a datagram and its source, nothing (a timeout, an
  interrupt or a connection reset), or an error that ends the stream.\<close>

datatype 'e received = Datagram bytes "u32 \<times> u16" | NothingRead | ReadFailed 'e

definition receive_step ::
  "shared \<Rightarrow> u32 \<Rightarrow> 'e received \<Rightarrow> instant \<Rightarrow> instant \<Rightarrow> duration \<Rightarrow> 'e receiver \<Rightarrow>
   'e receiver \<times> (u16 \<times> resend_request) list" where
  "receive_step sh packet_size received read_at now elapsed r =
     (let a = set_config (wanted_config packet_size sh) (rx_assembler r) in
      case received of
        ReadFailed err \<Rightarrow>
          (r\<lparr>rx_assembler := a,
             rx_queue := queue_finish (queue_fail ''receive from the stream socket'' err (rx_queue r)),
             rx_ended := True\<rparr>, [])
      | _ \<Rightarrow>
          let (a, done1, watch) =
                (case received of
                   Datagram d from_addr \<Rightarrow>
                     let a = count record_packet_received a in
                     if (case source_filter sh of None \<Rightarrow> False | Some ip \<Rightarrow> fst from_addr \<noteq> ip)
                     then (count (record_ignored_packet IgnForeign) a, [],
                           silence_foreign from_addr (rx_silence r))
                     else let (a, out) = ingest d read_at a in (a, out, silence_packet (rx_silence r))
                 | _ \<Rightarrow> (a, [], rx_silence r));
              (a, done2) = poll now a;
              (a, requests) = (if resend_target sh \<noteq> None then resend_due now a else (a, []));
              (request_id, sent) =
                foldl (\<lambda>(rid, sent) req. (resend_request_id rid, sent @ [(rid, req)]))
                  (rx_request_id r, []) requests;
              r = r\<lparr>rx_assembler := a, rx_silence := watch, rx_request_id := request_id\<rparr>;
              r = fold (hand_over (sh_deliver_incomplete sh)) (done1 @ done2) r;
              r = r\<lparr>rx_silence := snd (assess elapsed (rx_silence r))\<rparr> in
          (r, sent))"

text \<open>The loop sees the stop flag: \<open>FinishOnExit\<close> marks the queue finished.\<close>

definition receive_stop :: "'e receiver \<Rightarrow> 'e receiver" where
  "receive_stop r = r\<lparr>rx_queue := queue_finish (rx_queue r), rx_ended := True\<rparr>"

text \<open>\<open>RecvBufferSizer::ensure\<close>: the size to ask the kernel for, if any, and the size asked for so far.\<close>

definition DEFAULT_RCVBUF_BYTES :: nat where "DEFAULT_RCVBUF_BYTES = 4 * 1024 * 1024"

definition rcvbuf_ensure :: "nat option \<Rightarrow> nat option \<Rightarrow> nat \<Rightarrow> nat option \<times> nat" where
  "rcvbuf_ensure explicit frame_size requested =
     (let target = (case explicit of
            Some e \<Rightarrow> e
          | None \<Rightarrow> max DEFAULT_RCVBUF_BYTES
              (min ((case frame_size of None \<Rightarrow> 0 | Some f \<Rightarrow> f) * 2) U64_MAX)) in
      if target \<le> requested then (None, requested) else (Some target, target))"

text \<open>\<open>FrameStream::take\<close> on what \<open>try_pop\<close> found: the block leaves the queue and is counted.\<close>

definition take_block :: "'e receiver \<Rightarrow> (generic_block, 'e) popped \<times> 'e receiver" where
  "take_block r =
     (let (popped, queue) = try_pop (rx_queue r); r = r\<lparr>rx_queue := queue\<rparr> in
      case popped of
        Item g \<Rightarrow>
          (popped,
           if is_complete (gb_status g) then rx_count (record_frame (length (gb_payload g))) r
           else rx_count record_incomplete_frame r)
      | _ \<Rightarrow> (popped, r))"

end
