(* ===== verification/Accounting.thy ===== *)
theory Accounting
  imports Receiver
begin

text \<open>
  Where every block goes. The module documentation of
  \<^verbatim>\<open>crates/viva-genicam/src/stream/stats.rs\<close> promises that each block the stream starts is
  counted exactly once: complete, incomplete, dropped by backpressure or unsupported. This theory
  proves the assembler's share of it: between two states, the blocks opened are the blocks handed
  out, the unsupported ones counted, and the ones still in flight, and no other counter of frames
  moves. Counters are 64-bit words, so the balance is stated modulo \<open>2 ^ 64\<close>.
\<close>

section \<open>The balance of an assembler step\<close>

type_synonym frame_counters = "u64 \<times> u64 \<times> u64 \<times> u64"

definition frame_counters :: "stream_stats \<Rightarrow> frame_counters" where
  "frame_counters s =
     (st_frames_complete s, st_frames_incomplete s, st_frames_backpressure s, st_frames_unsupported s)"

definition quiet :: "assembler \<Rightarrow> assembler \<Rightarrow> bool" where
  "quiet a a' \<longleftrightarrow> frame_counters (as_stats a') = frame_counters (as_stats a) \<and>
     length (as_in_flight a') = length (as_in_flight a)"

text \<open>\<open>n\<close> blocks were opened and \<open>out\<close> was handed out between two states.\<close>

definition books :: "nat \<Rightarrow> assembler \<Rightarrow> assembled_block list \<Rightarrow> assembler \<Rightarrow> bool" where
  "books n a out a' \<longleftrightarrow>
     st_frames_complete (as_stats a') = st_frames_complete (as_stats a) \<and>
     st_frames_incomplete (as_stats a') = st_frames_incomplete (as_stats a) \<and>
     st_frames_backpressure (as_stats a') = st_frames_backpressure (as_stats a) \<and>
     st_frames_unsupported (as_stats a') + word_of_nat (length (as_in_flight a') + length out) =
     st_frames_unsupported (as_stats a) + word_of_nat (length (as_in_flight a) + n)"

lemma quiet_refl [simp]: "quiet a a"
  by (simp add: quiet_def)

lemma quiet_trans [trans]: "quiet a b \<Longrightarrow> quiet b c \<Longrightarrow> quiet a c"
  by (simp add: quiet_def)

lemma quiet_books: "quiet a a' \<Longrightarrow> books 0 a [] a'"
  by (simp add: quiet_def books_def frame_counters_def)

lemma books_trans:
  assumes "books m a out b" "books n b out' c" shows "books (m + n) a (out @ out') c"
proof -
  have "st_frames_unsupported (as_stats c) + word_of_nat (length (as_in_flight c) + (length out + length out')) =
      (st_frames_unsupported (as_stats c) + word_of_nat (length (as_in_flight c) + length out')) + word_of_nat (length out)"
    by simp
  also have "\<dots> = st_frames_unsupported (as_stats b) + word_of_nat (length (as_in_flight b) + length out) + word_of_nat n"
    using assms(2) by (simp add: books_def)
  also have "\<dots> = st_frames_unsupported (as_stats a) + word_of_nat (length (as_in_flight a) + (m + n))"
    using assms(1) by (simp add: books_def)
  finally show ?thesis using assms by (simp add: books_def)
qed

lemma counters_same [simp]:
  "frame_counters (record_ignored_packet i s) = frame_counters s"
  "frame_counters (record_packet_received s) = frame_counters s"
  "frame_counters (record_duplicate_packet s) = frame_counters s"
  "frame_counters (record_size_mismatch s) = frame_counters s"
  "frame_counters (record_resend_requested n s) = frame_counters s"
  "frame_counters (record_resend_recovered s) = frame_counters s"
  "frame_counters (record_resend_unavailable n s) = frame_counters s"
  "frame_counters (record_missing_packets n s) = frame_counters s"
  "frame_counters (record_missed_frames n s) = frame_counters s"
  by (cases i; simp add: frame_counters_def stats_defs)+

lemma quiet_count: "(\<And>s. frame_counters (f s) = frame_counters s) \<Longrightarrow> quiet a (count f a) "
  by (simp add: quiet_def)

lemma quiet_simps [simp]:
  "quiet a (set_block idx b a') \<longleftrightarrow> quiet a a'"
  "quiet a (a'\<lparr>as_largest_estimate := e\<rparr>) \<longleftrightarrow> quiet a a'"
  "quiet a (a'\<lparr>as_last_block_id := l\<rparr>) \<longleftrightarrow> quiet a a'"
  "quiet a (a'\<lparr>as_config := c\<rparr>) \<longleftrightarrow> quiet a a'"
  "quiet a (size_mismatch a') \<longleftrightarrow> quiet a a'"
  "quiet a (out_of_range a') \<longleftrightarrow> quiet a a'"
  "quiet a (ignore_unsupported a') \<longleftrightarrow> quiet a a'"
  "quiet a (count (record_ignored_packet i) a') \<longleftrightarrow> quiet a a'"
  "quiet a (count record_packet_received a') \<longleftrightarrow> quiet a a'"
  "quiet a (count record_duplicate_packet a') \<longleftrightarrow> quiet a a'"
  "quiet a (count record_resend_recovered a') \<longleftrightarrow> quiet a a'"
  "quiet a (count (record_resend_unavailable n) a') \<longleftrightarrow> quiet a a'"
  "quiet a (count (record_missing_packets n) a') \<longleftrightarrow> quiet a a'"
  "quiet a (count (record_missed_frames n) a') \<longleftrightarrow> quiet a a'"
  by (simp_all add: quiet_def size_mismatch_def out_of_range_def ignore_unsupported_def
      del: record_ignored_packet.simps)

lemma quiet_refuse [simp]: "quiet a (fold (refuse_short idx) ms a') \<longleftrightarrow> quiet a a'"
  by (induction ms arbitrary: a') (auto simp: refuse_short_def split: prod.split)

lemma quiet_refuse1 [simp]: "quiet a (refuse_short idx m a') \<longleftrightarrow> quiet a a'"
  by (simp add: refuse_short_def split: prod.split)

section \<open>The operations of the assembler\<close>

lemma quiet_touch [simp]: "quiet a (touch b now a)"
  by (simp add: touch_def split: option.split)

lemma quiet_leader: "quiet a (on_leader idx l a)"
  by (simp add: on_leader_def Let_def split: option.split)

lemma quiet_payload: "quiet a (snd (on_payload idx h d a))"
  by (simp add: on_payload_def Let_def case_prod_beta)

lemma quiet_trailer: "quiet a (on_trailer idx h t a)"
  by (simp add: on_trailer_def Let_def del: set_block_count split: option.split)

lemma quiet_track [simp]: "quiet a (track_arrival idx p t now a') \<longleftrightarrow> quiet a a'"
  by (simp add: track_arrival_def Let_def case_prod_beta split: option.split)

lemma quiet_try_complete [simp]: "quiet a (try_complete idx a') \<longleftrightarrow> quiet a a'"
  by (simp add: try_complete_def Let_def split: option.split)

lemma quiet_close [simp]: "quiet a (close idx a') \<longleftrightarrow> quiet a a'"
  by (simp add: close_def Let_def)

lemma quiet_answer: "quiet a (on_resend_answer h ans a') \<longleftrightarrow> quiet a a'"
  by (simp add: on_resend_answer_def Let_def case_prod_beta split: option.split prod.split)

lemma quiet_note_order: "quiet a (note_order h ord a)"
  by (simp add: note_order_def split: order.split)

lemma quiet_take_packet: "quiet a (take_packet idx h c now a)"
  using quiet_leader [of a idx] quiet_payload [of a idx h] quiet_trailer [of a idx h]
  by (simp add: take_packet_def apply_content_def case_prod_beta split: gvsp_content.split)

lemma emit_loop_books:
  assumes "emit_loop ps bs sp st = (bs', sp', st', out)"
  shows "st_frames_complete st' = st_frames_complete st \<and> st_frames_incomplete st' = st_frames_incomplete st \<and>
    st_frames_backpressure st' = st_frames_backpressure st \<and>
    st_frames_unsupported st' + word_of_nat (length bs' + length out) = st_frames_unsupported st + word_of_nat (length bs)"
  using assms
proof (induction ps bs sp st arbitrary: bs' sp' st' out rule: emit_loop.induct)
  case (2 ps b bs sp st)
  show ?case
  proof (cases "bf_resolved b")
    case (Some r)
    then show ?thesis
    proof (cases r)
      case (RFrame s)
      obtain x y z w where e: "emit_loop ps bs (bf_bitmap b # sp) st = (x, y, z, w)" by (metis prod_cases4)
      note IH = "2.IH"(1) [OF Some RFrame e]
      have r: "bs' = x" "st' = z" "out = assembled ps b s # w" using "2.prems" by (simp_all add: Some RFrame e)
      have "st_frames_unsupported z + word_of_nat (length x + length (assembled ps b s # w)) =
          (st_frames_unsupported z + word_of_nat (length x + length w)) + 1" by simp
      also have "\<dots> = st_frames_unsupported st + word_of_nat (length (b # bs))" using IH by simp
      finally show ?thesis using IH unfolding r by blast
    next
      case RUnsupported
      from "2.IH"(2) [OF Some RUnsupported, of bs' sp' st' out] "2.prems" show ?thesis
        by (simp add: Some RUnsupported record_unsupported_block_def)
    qed
  qed (use "2.prems" in simp)
qed simp

lemma emit_books: "books 0 a (snd (emit a)) (fst (emit a))"
proof -
  obtain bs sp st out where
    e: "emit_loop (ac_packet_size (as_config a)) (as_in_flight a) (as_spare_bitmaps a) (as_stats a) = (bs, sp, st, out)"
    by (metis prod_cases4)
  show ?thesis using emit_loop_books [OF e] by (simp add: books_def emit_def e)
qed

lemma quiet_emit: "quiet a a' \<Longrightarrow> emit a' = (b, out) \<Longrightarrow> books 0 a out b"
  using books_trans [OF quiet_books emit_books, of a a'] by simp

lemma make_room_books: "books 0 a (snd (make_room a)) (fst (make_room a))"
proof (induction a rule: make_room.induct)
  case (1 a)
  show ?case
  proof (cases "MAX_IN_FLIGHT \<le> length (as_in_flight a)")
    case True
    obtain b out where e: "emit (close_oldest a) = (b, out)" by fastforce
    obtain c out' where m: "make_room b = (c, out')" by fastforce
    have "quiet a (close_oldest a)" by (simp add: close_oldest_def)
    from books_trans [OF quiet_emit [OF this e] "1.IH" [OF True e [symmetric] refl]] show ?thesis
      by (simp add: make_room.simps [of a] True e m)
  qed (simp add: make_room.simps quiet_books)
qed

lemma push_block_books: "books 1 a [] (push_block h now a)"
  by (simp add: books_def push_block_def Let_def case_prod_beta)

lemma admit_books:
  assumes "admit h l now a = (x, a', out)"
  shows "books (of_bool (hdr_block_id h \<notin> bf_block_id ` set (as_in_flight a) \<and>
      classify (as_last_block_id a) (hdr_block_id h) (hdr_extended_ids h) l \<noteq> Late)) a out a'"
proof (cases "position (\<lambda>b. bf_block_id b = hdr_block_id h) (as_in_flight a)")
  case None
  then have new: "hdr_block_id h \<notin> bf_block_id ` set (as_in_flight a)" by (auto simp: position_eq_None)
  let ?ord = "classify (as_last_block_id a) (hdr_block_id h) (hdr_extended_ids h) l"
  show ?thesis
  proof (cases "?ord = Late")
    case True
    then show ?thesis using assms by (auto simp: admit_def None quiet_books)
  next
    case False
    obtain b out' where m: "make_room (note_order h ?ord a) = (b, out')" by fastforce
    have "books 0 a out' b"
      using books_trans [OF quiet_books [OF quiet_note_order] make_room_books, of a h ?ord] by (simp add: m)
    from books_trans [OF this push_block_books, of h now] show ?thesis
      using assms False new by (simp add: admit_def None m Let_def)
  qed
next
  case (Some idx)
  from position_eq_Some [OF this] have "hdr_block_id h \<in> bf_block_id ` set (as_in_flight a)"
    by (metis imageI nth_mem)
  then show ?thesis using assms by (auto simp: admit_def Some quiet_books)
qed

lemma deliver_books: "books 0 a (snd (deliver idx h c now a)) (fst (deliver idx h c now a))"
proof -
  let ?a = "set_block idx ((as_in_flight a ! idx)\<lparr>bf_last_packet := now\<rparr>) a"
  obtain b out where e: "emit (take_packet idx h c now ?a) = (b, out)" by fastforce
  have "quiet a (take_packet idx h c now ?a)" by (rule quiet_trans [OF _ quiet_take_packet]) simp
  from quiet_emit [OF this e] show ?thesis
    by (simp add: deliver_def Let_def e quiet_books split: option.split resolution.split frame_status.split)
qed

lemma ingest_books:
  assumes "ingest d now a = (a', out)" shows "books (of_bool (opens d a)) a out a'"
proof (cases d rule: ingest_cases)
  case (answer h ans)
  have "\<not> opens d a"
    using answer packet_header [of d] by (auto simp: opens_def split: result.split)
  then show ?thesis using assms ingest_answer [OF answer, of now a]
    by (auto simp: quiet_answer intro!: quiet_books)
next
  case malformed
  then have "\<not> opens d a" by (auto simp: opens_def split: result.split)
  then show ?thesis using assms ingest_malformed [OF malformed, of now a] by (auto intro!: quiet_books)
next
  case (packet p)
  let ?h = "pkt_header p" and ?c = "pkt_content p"
  let ?l = "case ?c of Leader _ \<Rightarrow> True | _ \<Rightarrow> False"
  note eq = ingest_packet [OF packet, of now a]
  consider (skip) "\<not> opens d a" "quiet a a'" "out = []"
    | (admitted) x b o1 where "admit ?h ?l now a = (x, b, o1)"
      "opens d a \<longleftrightarrow> hdr_block_id ?h \<notin> bf_block_id ` set (as_in_flight a) \<and>
         classify (as_last_block_id a) (hdr_block_id ?h) (hdr_extended_ids ?h) ?l \<noteq> Late"
      "(a', out) = (case x of None \<Rightarrow> (count (record_ignored_packet IgnLate) b, o1)
         | Some idx \<Rightarrow> (case deliver idx ?h ?c now b of (a, out') \<Rightarrow> (a, o1 @ out')))"
  proof (cases "admit ?h ?l now a")
    case (fields x b o1)
    show thesis
    proof (cases "(case ?c of Unsupported _ \<Rightarrow> False | Trailer _ \<Rightarrow> True | _ \<Rightarrow> hdr_status ?h AND STATUS_ERROR = 0)")
      case True
      then show thesis using admitted [OF fields] eq assms fields packet
        by (cases ?c; cases x) (simp_all add: opens_def case_prod_beta)
    next
      case False
      then show thesis using skip eq assms packet by (cases ?c) (auto simp: opens_def)
    qed
  qed
  then show ?thesis
  proof cases
    case skip
    then show ?thesis by (simp add: quiet_books)
  next
    case admitted
    note b = admit_books [OF admitted(1), folded admitted(2)]
    show ?thesis
    proof (cases x)
      case None
      then show ?thesis using admitted(3) books_trans [OF b quiet_books, of "count (record_ignored_packet IgnLate) b"]
        by simp
    next
      case (Some idx)
      then show ?thesis using admitted(3) books_trans [OF b deliver_books, of idx ?h ?c now]
        by (simp add: case_prod_beta)
    qed
  qed
qed

lemma poll_books: "poll now a = (a', out) \<Longrightarrow> books 0 a out a'"
proof -
  have "quiet a (fold (poll_block now n) is a')" if "quiet a a'" for n "is" a'
    using that by (induction "is" arbitrary: a') (auto simp: poll_block_def Let_def)
  from quiet_emit [OF this [OF quiet_refl]] show "poll now a = (a', out) \<Longrightarrow> books 0 a out a'"
    by (simp add: poll_def Let_def)
qed

lemma resend_loop_quiet:
  "resend_loop now cfg bs st = (bs', st', out) \<Longrightarrow>
   frame_counters st' = frame_counters st \<and> length bs' = length bs"
proof (induction now cfg bs st arbitrary: bs' st' out rule: resend_loop.induct)
  case (2 now cfg b bs st)
  then show ?case
    by (fastforce simp: Let_def split: option.splits prod.splits if_splits)
qed simp

lemma resend_due_quiet: "resend_due now a = (a', out) \<Longrightarrow> quiet a a'"
  using resend_loop_quiet [of now "as_config a" "as_in_flight a" "as_stats a"]
  by (auto simp: resend_due_def quiet_def Let_def split: if_splits prod.splits)

end
