(* ===== verification/Assembly_Order.thy ===== *)
theory Assembly_Order
  imports Assembly_Props Assembly_Complete Accounting
begin

text \<open>
  The order of blocks through the assembler, and that none of them leaves silently: what enters the
  queue of blocks in flight, what leaves it, what is handed out and what is only counted, over one
  datagram in any reachable state.
\<close>

lemma books_gone:
  assumes b: "books (length new) a out a'" and i: "ids a @ new = gone @ ids a'" and s: "length out \<le> length gone"
  shows "st_frames_unsupported (as_stats a') =
    st_frames_unsupported (as_stats a) + word_of_nat (length gone - length out)"
proof -
  let ?u = "st_frames_unsupported (as_stats a)" and ?u' = "st_frames_unsupported (as_stats a')"
  have len: "length (as_in_flight a) + length new = length gone + length (as_in_flight a')"
    using arg_cong [OF i, of length] by simp
  have "?u' + word_of_nat (length (as_in_flight a') + length out) =
      ?u + word_of_nat (length (as_in_flight a) + length new)" using b by (simp add: books_def)
  also have "length (as_in_flight a) + length new =
      (length gone - length out) + (length (as_in_flight a') + length out)" using len s by simp
  also have "?u + word_of_nat \<dots> =
      ?u + word_of_nat (length gone - length out) + word_of_nat (length (as_in_flight a') + length out)"
    by (simp only: of_nat_add add.assoc)
  finally show ?thesis by (rule add_right_imp_eq)
qed

lemma reachable_ingest_all:
  "reachable config a out \<Longrightarrow> reachable config (fst (ingest_all a ds)) (out @ snd (ingest_all a ds))"
proof (induction ds arbitrary: a out)
  case (Cons d ds)
  obtain b now where d: "d = (b, now)" by fastforce
  obtain a' new where i: "ingest b now a = (a', new)" by fastforce
  from Cons.IH [OF reachable.datagram [OF Cons.prems i]] show ?case by (simp add: d i case_prod_beta)
qed simp

text \<open>
  C3. Blocks leave in the order they started and none is lost. A datagram starts a block exactly
  when it is a usable packet of a block that is neither in flight nor behind the newest one; that
  block has the datagram's id and joins the back. The blocks that leave are a prefix of those in
  flight, what is handed out is that prefix in its order, and every block of the prefix that is not
  handed out is counted as a frame of an unsupported payload type.
\<close>
theorem ingest_in_order:
  assumes "reachable config a hist" and "ingest d now a = (a', out)"
  shows "\<exists>gone new.
    map bf_block_id (as_in_flight a) @ new = gone @ map bf_block_id (as_in_flight a') \<and>
    (if opens d a
     then \<exists>h. parse_header d = Ok h \<and> new = [hdr_block_id h] \<and>
            hdr_block_id h \<notin> set (map bf_block_id (as_in_flight a))
     else new = []) \<and>
    subseq (map ab_block_id out) gone \<and>
    st_frames_unsupported (as_stats a') =
      st_frames_unsupported (as_stats a) + word_of_nat (length gone - length out)"
proof -
  obtain new gone where f: "ids a @ new = gone @ ids a'" "subseq (map ab_block_id out) gone"
    "opens d a \<longleftrightarrow> new \<noteq> []"
    "new = [] \<or> (\<exists>h. parse_header d = Ok h \<and> new = [hdr_block_id h] \<and> hdr_block_id h \<notin> set (ids a))"
    using ingest_keeps [of a d now a' out] reachable_inv [OF assms(1)] assms(2) unfolding flow_def by blast
  have "length new = of_bool (opens d a)" using f(3,4) by auto
  then have b: "books (length new) a out a'" using ingest_books [OF assms(2)] by simp
  have "length out \<le> length gone" using list_emb_length [OF f(2)] by simp
  from books_gone [OF b f(1) this] f show ?thesis by (intro exI [of _ gone] exI [of _ new]) auto
qed

text \<open>The last datagram of the example block: the block leaves and is handed out.\<close>

lemma ingest_in_order_witness:
  "\<exists>a a' b. reachable (assembly_config_new 40) a [] \<and> map bf_block_id (as_in_flight a) = [7] \<and>
     ingest (packet_bytes example_spec [1, 2, 3, 4, 5, 6, 7] 3) 6 a = (a', [b]) \<and>
     as_in_flight a' = [] \<and> ab_block_id b = 7 \<and> \<not> opens (packet_bytes example_spec [1, 2, 3, 4, 5, 6, 7] 3) a \<and>
     st_frames_unsupported (as_stats a') = st_frames_unsupported (as_stats a)"
proof -
  let ?c = "assembly_config_new 40" and ?d = "[1, 2, 3, 4, 5, 6, 7] :: bytes"
  let ?f = "packet_bytes example_spec ?d" and ?all = "all_packets example_spec ?d"
  let ?ds = "map (\<lambda>k. (?f k, 5)) [0, 1, 2 :: nat]"
  have all: "?all = {0, 1, 2, 3}"
    by (auto simp: all_packets_def packet_count_def example_spec_def spec_image_def spec_payload_stride_def
        spec_header_len_def gvsp_consts div_ceil_def)
  have id: "wire_block_id example_spec = 7" by (simp add: example_spec_def spec_image_def wire_block_id_def)
  obtain a out T where r: "ingest_all (assembler_new ?c stats_new) ?ds = (a, out)"
    "progress ?c example_spec ?d T a" "T \<subseteq> ?all" "fst ` set ?ds = ?f ` T"
    "if ?all \<subseteq> T then \<exists>blk. out = [blk] \<and> sent_block example_spec ?d blk else out = []"
    using ingest_all_progress [OF example_agrees new_progress, of ?ds stats_new] by (auto simp: all)
  have "?f ` {0, 1, 2} = ?f ` T" using r(4) by simp
  then have T: "T = {0, 1, 2}"
    using inj_on_image_eq_iff [OF packet_bytes_inj [OF example_agrees], of "{0, 1, 2}" T] r(3) by (simp add: all)
  have part: "\<not> ?all \<subseteq> T" by (simp add: all T)
  then have out: "out = []" using r(5) by simp
  obtain b0 where "one_block ?c example_spec a b0" "holds example_spec ?d T b0"
    using r(2) part T by (auto simp: progress_def)
  then have ids: "map bf_block_id (as_in_flight a) = [7]" by (simp add: one_block_def holds_def id)
  obtain a' b where i: "ingest (?f 3) 6 a = (a', [b])" "progress ?c example_spec ?d (insert 3 T) a'"
    "sent_block example_spec ?d b"
    using ingest_progress [OF example_agrees _ r(2), of 3 6] part by (auto simp: all T)
  then have gone: "as_in_flight a' = []" by (simp add: progress_def all T)
  have b: "ab_block_id b = 7" using i(3) by (simp add: sent_block_def id)
  have re: "reachable ?c a []"
    using reachable_ingest_all [OF reachable.start [of ?c stats_new], of ?ds] by (simp only: r(1) fst_conv snd_conv out append_Nil)
  have "3 \<in> ?all" unfolding all by simp
  then have k3: "3 \<le> packet_count example_spec ?d + 1" unfolding all_packets_def atMost_iff .
  have "parse_packet_ref (?f 3) = Ok \<lparr>pkt_header = wire_header example_spec (packet_status example_spec ?d 3) (word_of_nat 3),
      pkt_content = packet_content example_spec ?d 3\<rparr>"
    by (rule parse_packet_bytes(1) [OF example_agrees k3])
  moreover have "7 \<in> bf_block_id ` set (as_in_flight a)" unfolding set_map [symmetric] ids by simp
  ultimately have "\<not> opens (?f 3) a" by (simp add: opens_def id)
  moreover obtain g where
    "map bf_block_id (as_in_flight a) = g @ map bf_block_id (as_in_flight a')"
    "st_frames_unsupported (as_stats a') = st_frames_unsupported (as_stats a) + word_of_nat (length g - length [b])"
    using ingest_in_order [OF re i(1)] calculation by auto
  ultimately show ?thesis using re ids i(1) gone b by auto
qed

end
