(* ===== verification/Receiver_Props.thy ===== *)
theory Receiver_Props
  imports Accounting Gvsp_Encode
begin

text \<open>
  Properties of the receive thread and its queue: the queue is a bounded first-in first-out
  hand-off that loses only the oldest items and says which, an ended stream reports its failure
  once and after every item, and every block the stream started is in exactly one place.
\<close>

section \<open>A bounded drop-oldest hand-off\<close>

datatype 't hand_off = Push 't | Pop

text \<open>A sequence of operations on a queue, with the items that left it: \<open>True\<close> to the consumer,
  \<open>False\<close> evicted.\<close>

fun queue_run :: "('t \<Rightarrow> 'q \<Rightarrow> 't option \<times> 'q) \<Rightarrow> ('q \<Rightarrow> 't option \<times> 'q) \<Rightarrow> 't hand_off list \<Rightarrow> 'q \<Rightarrow>
    (bool \<times> 't) list \<times> 'q" where
  "queue_run push pop [] q = ([], q)"
| "queue_run push pop (Push x # ops) q =
     (let (evicted, q) = push x q; (log, q) = queue_run push pop ops q in
      ((case evicted of None \<Rightarrow> [] | Some y \<Rightarrow> [(False, y)]) @ log, q))"
| "queue_run push pop (Pop # ops) q =
     (let (taken, q) = pop q; (log, q) = queue_run push pop ops q in
      ((case taken of None \<Rightarrow> [] | Some y \<Rightarrow> [(True, y)]) @ log, q))"

fun pushed :: "'t hand_off list \<Rightarrow> 't list" where
  "pushed [] = []"
| "pushed (Push x # ops) = x # pushed ops"
| "pushed (Pop # ops) = pushed ops"

locale drop_oldest =
  fixes items :: "'q \<Rightarrow> 't list" and capacity :: "'q \<Rightarrow> nat"
    and push :: "'t \<Rightarrow> 'q \<Rightarrow> 't option \<times> 'q" and pop :: "'q \<Rightarrow> 't option \<times> 'q"
  assumes push_room: "length (items q) < capacity q \<Longrightarrow>
      push x q = (e, q') \<Longrightarrow> e = None \<and> items q' = items q @ [x] \<and> capacity q' = capacity q"
    and push_full: "0 < capacity q \<Longrightarrow> length (items q) = capacity q \<Longrightarrow>
      push x q = (e, q') \<Longrightarrow> e = Some (hd (items q)) \<and> items q' = tl (items q) @ [x] \<and> capacity q' = capacity q"
    and pop_item: "items q = y # ys \<Longrightarrow> pop q = (e, q') \<Longrightarrow> e = Some y \<and> items q' = ys \<and> capacity q' = capacity q"
    and pop_none: "items q = [] \<Longrightarrow> pop q = (e, q') \<Longrightarrow> e = None \<and> items q' = [] \<and> capacity q' = capacity q"
begin

lemma push_step:
  assumes "0 < capacity q" "length (items q) \<le> capacity q" "push x q = (e, q')"
  shows "(case e of None \<Rightarrow> [] | Some y \<Rightarrow> [y]) @ items q' = items q @ [x] \<and>
    length (items q') \<le> capacity q \<and> capacity q' = capacity q"
proof (cases "length (items q) < capacity q")
  case True
  then show ?thesis using push_room [OF True assms(3)] by simp
next
  case False
  then have full: "length (items q) = capacity q" using assms(2) by simp
  then obtain y ys where "items q = y # ys" using assms(1) by (cases "items q") auto
  then show ?thesis using push_full [OF assms(1) full assms(3)] full by simp
qed

lemma pop_step:
  assumes "pop q = (e, q')"
  shows "(case e of None \<Rightarrow> [] | Some y \<Rightarrow> [y]) @ items q' = items q \<and>
    length (items q') \<le> length (items q) \<and> capacity q' = capacity q"
proof (cases "items q")
  case Nil
  then show ?thesis using pop_none [OF Nil assms] by simp
next
  case (Cons y ys)
  then show ?thesis using pop_item [OF Cons assms] by simp
qed

lemma run_conserves:
  assumes "0 < capacity q" "length (items q) \<le> capacity q" "queue_run push pop ops q = (log, q')"
  shows "map snd log @ items q' = items q @ pushed ops \<and> length (items q') \<le> capacity q' \<and> capacity q' = capacity q"
  using assms
proof (induction ops arbitrary: q log)
  case (Cons op ops)
  show ?case
  proof (cases op)
    case (Push x)
    obtain e r where p: "push x q = (e, r)" by fastforce
    obtain l where l: "queue_run push pop ops r = (l, q')" "log = (case e of None \<Rightarrow> [] | Some y \<Rightarrow> [(False, y)]) @ l"
      using Cons.prems(3) by (auto simp: Push p split: prod.splits)
    note s = push_step [OF Cons.prems(1,2) p]
    from Cons.IH [OF _ _ l(1)] s Cons.prems(1) have "map snd l @ items q' = items r @ pushed ops" "length (items q') \<le> capacity q'"
      "capacity q' = capacity q" by auto
    then show ?thesis using s by (cases e) (auto simp: l(2) Push)
  next
    case Pop
    obtain e r where p: "pop q = (e, r)" by fastforce
    obtain l where l: "queue_run push pop ops r = (l, q')" "log = (case e of None \<Rightarrow> [] | Some y \<Rightarrow> [(True, y)]) @ l"
      using Cons.prems(3) by (auto simp: Pop p split: prod.splits)
    note s = pop_step [OF p]
    from Cons.IH [OF _ _ l(1)] s Cons.prems(1,2) have "map snd l @ items q' = items r @ pushed ops"
      "length (items q') \<le> capacity q'" "capacity q' = capacity q" by auto
    then show ?thesis using s by (cases e) (auto simp: l(2) Pop)
  qed
qed simp

end

text \<open>The consumer's side: \<open>try_pop\<close>, with only the items kept.\<close>

definition queue_take :: "('t, 'e) delivery_queue \<Rightarrow> 't option \<times> ('t, 'e) delivery_queue" where
  "queue_take q = (case try_pop q of (Item x, q') \<Rightarrow> (Some x, q') | (_, q') \<Rightarrow> (None, q'))"

interpretation delivery: drop_oldest dq_items dq_capacity queue_push queue_take
proof
  fix q q' :: "('t, 'e) delivery_queue" and x :: 't and e
  show "length (dq_items q) < dq_capacity q \<Longrightarrow> queue_push x q = (e, q') \<Longrightarrow>
      e = None \<and> dq_items q' = dq_items q @ [x] \<and> dq_capacity q' = dq_capacity q"
    by (auto simp: queue_push_def)
  show "0 < dq_capacity q \<Longrightarrow> length (dq_items q) = dq_capacity q \<Longrightarrow> queue_push x q = (e, q') \<Longrightarrow>
      e = Some (hd (dq_items q)) \<and> dq_items q' = tl (dq_items q) @ [x] \<and> dq_capacity q' = dq_capacity q"
    by (auto simp: queue_push_def split: list.splits)
  show "dq_items q = y # ys \<Longrightarrow> queue_take q = (e, q') \<Longrightarrow> e = Some y \<and> dq_items q' = ys \<and> dq_capacity q' = dq_capacity q"
    for y ys by (auto simp: queue_take_def try_pop_def)
  show "dq_items q = [] \<Longrightarrow> queue_take q = (e, q') \<Longrightarrow> e = None \<and> dq_items q' = [] \<and> dq_capacity q' = dq_capacity q"
    by (auto simp: queue_take_def try_pop_def split: option.splits ending.splits)
qed

text \<open>
  The delivery queue is a bounded first-in first-out hand-off: whatever sequence of pushes and
  pops it sees, the items that left it, to the consumer or evicted, followed by the items still
  waiting are exactly the items pushed, in order and each once, and never more than the capacity
  wait.
\<close>
theorem delivery_queue_fifo:
  assumes "queue_run queue_push queue_take ops (queue_new capacity :: ('t, 'e) delivery_queue) = (log, q)"
  shows "map snd log @ dq_items q = pushed ops \<and> length (dq_items q) \<le> max capacity 1"
proof -
  have "0 < max capacity 1" by (simp add: less_max_iff_disj)
  then show ?thesis using delivery.run_conserves [OF _ _ assms] by (auto simp: queue_new_def)
qed

lemma delivery_queue_fifo_witness:
  "(case queue_run queue_push queue_take [Push 1, Push 2, Push 3, Pop]
       (queue_new 2 :: (nat, unit) delivery_queue) of
     (log, q) \<Rightarrow> map snd log @ dq_items q = [1, 2, 3] \<and> length (dq_items q) \<le> 2)"
proof (cases "queue_run queue_push queue_take [Push 1, Push 2, Push 3, Pop]
    (queue_new 2 :: (nat, unit) delivery_queue)")
  case (Pair log q)
  from delivery_queue_fifo [OF this] show ?thesis unfolding Pair by simp
qed

section \<open>The end of a stream\<close>

primrec pops :: "nat \<Rightarrow> ('t, 'e) delivery_queue \<Rightarrow> ('t, 'e) popped list \<times> ('t, 'e) delivery_queue" where
  "pops 0 q = ([], q)"
| "pops (Suc n) q = (let (p, q) = try_pop q; (ps, q) = pops n q in (p # ps, q))"

lemma pops_items:
  "fst (pops (length (dq_items q) + n) q) = map Item (dq_items q) @ fst (pops n (q\<lparr>dq_items := []\<rparr>))"
proof (induction "dq_items q" arbitrary: q)
  case Nil
  from Nil have n: "dq_items q = []" by simp
  then have e: "q\<lparr>dq_items := []\<rparr> = q" by (cases q) simp
  show ?case by (simp only: n e list.size add_0 list.map append_Nil)
next
  case (Cons x xs)
  have t: "try_pop q = (Item x, q\<lparr>dq_items := xs\<rparr>)" using Cons(2) [symmetric] by (simp add: try_pop_def)
  from Cons(1) [of "q\<lparr>dq_items := xs\<rparr>"] show ?case using Cons(2) [symmetric]
    by (simp add: t case_prod_beta)
qed

lemma pops_finished:
  "dq_items q = [] \<Longrightarrow> dq_end q = Some Finished \<Longrightarrow> fst (pops n q) = replicate n PoppedFinished"
  by (induction n) (simp_all add: try_pop_def case_prod_beta)

text \<open>
  C12. When the receive thread fails, the consumer still gets every waiting item in order, then
  the failure exactly once, then the end of the stream for ever, although the thread's exit marks
  the queue finished as well.
\<close>
theorem failure_reported_once:
  assumes "dq_end q = None"
  shows "fst (pops (length (dq_items q) + Suc n) (queue_finish (queue_fail during err q))) =
    map Item (dq_items q) @ PoppedFailed during err # replicate n PoppedFinished"
proof -
  let ?q = "q\<lparr>dq_end := Some (Failed during err)\<rparr>"
  have q: "queue_finish (queue_fail during err q) = ?q" using assms by (simp add: queue_fail_def queue_finish_def)
  have "fst (pops (Suc n) (?q\<lparr>dq_items := []\<rparr>)) = PoppedFailed during err # replicate n PoppedFinished"
    by (simp add: try_pop_def case_prod_beta pops_finished)
  then show ?thesis using pops_items [of ?q "Suc n"] unfolding q by simp
qed

lemma failure_reported_once_witness:
  "fst (pops 3 (queue_finish (queue_fail ''read'' () (queue_new 4\<lparr>dq_items := [7 :: nat]\<rparr>)))) =
     [Item 7, PoppedFailed ''read'' (), PoppedFinished]"
  using failure_reported_once [of "queue_new 4\<lparr>dq_items := [7]\<rparr>" 1 "''read''" "()"]
  by (simp add: queue_new_def numeral_3_eq_3)

section \<open>Every block is counted once\<close>

text \<open>The frames of a stream: the ones counted, waiting in the queue and in flight.\<close>

definition frames_held :: "'e receiver \<Rightarrow> u64" where
  "frames_held r =
     (let s = as_stats (rx_assembler r) in
      st_frames_complete s + st_frames_incomplete s + st_frames_backpressure s + st_frames_unsupported s +
      word_of_nat (length (dq_items (rx_queue r))) + word_of_nat (length (as_in_flight (rx_assembler r))))"

lemma frames_held_books:
  assumes "books n (rx_assembler r) out a"
  shows "frames_held (r\<lparr>rx_assembler := a\<rparr>) + word_of_nat (length out) = frames_held r + word_of_nat n"
proof -
  let ?s = "as_stats (rx_assembler r)" and ?t = "as_stats a"
  let ?c = "st_frames_complete ?s + st_frames_incomplete ?s + st_frames_backpressure ?s + word_of_nat (length (dq_items (rx_queue r)))"
  have "frames_held (r\<lparr>rx_assembler := a\<rparr>) + word_of_nat (length out) =
      ?c + (st_frames_unsupported ?t + word_of_nat (length (as_in_flight a) + length out))"
    using assms by (simp add: frames_held_def books_def Let_def)
  also have "\<dots> = ?c + (st_frames_unsupported ?s + word_of_nat (length (as_in_flight (rx_assembler r)) + n))"
    using assms by (simp add: books_def)
  also have "\<dots> = frames_held r + word_of_nat n" by (simp add: frames_held_def Let_def)
  finally show ?thesis .
qed

lemma frames_held_simps [simp]:
  "frames_held (r\<lparr>rx_silence := w\<rparr>) = frames_held r"
  "frames_held (r\<lparr>rx_request_id := i\<rparr>) = frames_held r"
  "frames_held (r\<lparr>rx_chunk_warned := b\<rparr>) = frames_held r"
  "frames_held (r\<lparr>rx_ended := b\<rparr>) = frames_held r"
  "frames_held (rx_count record_incomplete_frame r) = frames_held r + 1"
  "frames_held (rx_count (record_frame k) r) = frames_held r + 1"
  "frames_held (rx_count record_backpressure_drop r) = frames_held r + 1"
  by (simp_all add: frames_held_def rx_count_def stats_defs Let_def)

lemma frames_held_queue:
  assumes "word_of_nat (length (dq_items q)) = (word_of_nat (length (dq_items (rx_queue r))) + d :: u64)"
  shows "frames_held (r\<lparr>rx_queue := q\<rparr>) = frames_held r + d"
  using assms by (simp add: frames_held_def Let_def)

lemma push_length:
  assumes "queue_push x q = (e, q')"
  shows "length (dq_items q') = length (dq_items q) + of_bool (e = None)"
  using assms by (auto simp: queue_push_def split: if_splits list.splits)

lemma hand_over_held: "frames_held (hand_over deliver_incomplete b r) = frames_held r + 1"
proof -
  obtain item err where c: "classify_completed_block b = (item, err)" by fastforce
  have "frames_held (if e \<noteq> None then rx_count record_backpressure_drop (x\<lparr>rx_queue := q\<rparr>) else x\<lparr>rx_queue := q\<rparr>) =
      frames_held x + 1" if "queue_push item (rx_queue x) = (e, q)" for x :: "'a receiver" and e q
  proof (cases e)
    case None
    then show ?thesis using push_length [OF that] frames_held_queue [of q x 1] by simp
  next
    case (Some y)
    then show ?thesis using push_length [OF that] frames_held_queue [of q x 0] by simp
  qed
  note push = this
  let ?x = "if is_complete (ab_status b) then r\<lparr>rx_silence := silence_frame (rx_silence r)\<rparr> else r"
  let ?y = "if err \<noteq> None then ?x\<lparr>rx_chunk_warned := True\<rparr> else ?x"
  obtain e q where p: "queue_push item (rx_queue ?y) = (e, q)" by fastforce
  have xy: "frames_held ?x = frames_held r" "frames_held ?y = frames_held ?x" by simp_all
  show ?thesis
  proof (cases "\<not> is_complete (ab_status b) \<and> \<not> deliver_incomplete")
    case True
    then show ?thesis by (simp add: hand_over_def)
  next
    case False
    then have "hand_over deliver_incomplete b r =
        (if e \<noteq> None then rx_count record_backpressure_drop (?y\<lparr>rx_queue := q\<rparr>) else ?y\<lparr>rx_queue := q\<rparr>)"
      unfolding hand_over_def Let_def c p case_prod_conv by (simp only: if_False simp_thms p case_prod_conv)
    then show ?thesis using push [OF p] xy by simp
  qed
qed

lemma hand_over_all_held:
  "frames_held (fold (hand_over di) bs r) = frames_held r + word_of_nat (length bs)"
  by (induction bs arbitrary: r) (simp_all add: hand_over_held)

lemma take_block_held: "frames_held (snd (take_block r)) = frames_held r"
proof (cases "dq_items (rx_queue r)")
  case (Cons x xs)
  let ?q = "(rx_queue r)\<lparr>dq_items := xs\<rparr>"
  have "frames_held (r\<lparr>rx_queue := ?q\<rparr>) = frames_held r - 1"
    using frames_held_queue [of ?q r "- 1"] Cons by simp
  then show ?thesis using Cons by (simp add: take_block_def try_pop_def Let_def)
next
  case Nil
  have "frames_held (r\<lparr>rx_queue := (rx_queue r)\<lparr>dq_end := e\<rparr>\<rparr>) = frames_held r" for e
    by (simp add: frames_held_def)
  then show ?thesis using Nil by (simp add: take_block_def try_pop_def Let_def split: option.split ending.split)
qed

section \<open>Runs of the receiver\<close>

text \<open>What happens to a stream: one round of the receive loop, the application taking a block, and
  the stop flag. The settings a round loads are its own, so they may change between rounds.\<close>

datatype 'e rx_event = Round shared "'e received" instant instant duration | Take | Stop

fun rx_step :: "u32 \<Rightarrow> 'e rx_event \<Rightarrow> 'e receiver \<Rightarrow> 'e receiver" where
  "rx_step packet_size (Round sh received read_at now elapsed) r =
     (if rx_ended r then r else fst (receive_step sh packet_size received read_at now elapsed r))"
| "rx_step packet_size Take r = snd (take_block r)"
| "rx_step packet_size Stop r = receive_stop r"

text \<open>Whether an event opens a block: an accepted datagram of a block that is new to the assembler.\<close>

fun rx_opens :: "'e rx_event \<Rightarrow> 'e receiver \<Rightarrow> bool" where
  "rx_opens (Round sh (Datagram d from_addr) read_at now elapsed) r \<longleftrightarrow>
     \<not> rx_ended r \<and> (case source_filter sh of None \<Rightarrow> True | Some ip \<Rightarrow> fst from_addr = ip) \<and>
     opens d (rx_assembler r)"
| "rx_opens _ r \<longleftrightarrow> False"

fun rx_run :: "u32 \<Rightarrow> 'e rx_event list \<Rightarrow> 'e receiver \<Rightarrow> nat \<times> 'e receiver" where
  "rx_run packet_size [] r = (0, r)"
| "rx_run packet_size (ev # evs) r =
     (let (n, r') = rx_run packet_size evs (rx_step packet_size ev r) in (n + of_bool (rx_opens ev r), r'))"

lemma opens_same [simp]:
  "opens d (count f a) = opens d a" "opens d (set_config c a) = opens d a"
  by (simp_all add: opens_def set_config_def split: result.split)

lemma held_assembler [simp]:
  "frames_held (r\<lparr>rx_assembler := a, rx_silence := w, rx_request_id := i\<rparr>) = frames_held (r\<lparr>rx_assembler := a\<rparr>)"
  by (simp add: frames_held_def)

text \<open>A round that does not end the stream, as the four things it does.\<close>

definition accept :: "shared \<Rightarrow> 'e received \<Rightarrow> instant \<Rightarrow> silence_watch \<Rightarrow> assembler \<Rightarrow>
    assembler \<times> assembled_block list \<times> silence_watch" where
  "accept sh received read_at w a =
     (case received of
        Datagram d from_addr \<Rightarrow>
          let a = count record_packet_received a in
          if (case source_filter sh of None \<Rightarrow> False | Some ip \<Rightarrow> fst from_addr \<noteq> ip)
          then (count (record_ignored_packet IgnForeign) a, [], silence_foreign from_addr w)
          else let (a, out) = ingest d read_at a in (a, out, silence_packet w)
      | _ \<Rightarrow> (a, [], w))"

lemma accept_books:
  assumes "accept sh received read_at w a = (a', out, w')" "\<not> rx_ended r"
    "\<And>d. opens d (rx_assembler r) = opens d a"
  shows "books (of_bool (rx_opens (Round sh received read_at now elapsed) r)) a out a'"
proof (cases received)
  case (Datagram d from_addr)
  let ?a = "count record_packet_received a"
  show ?thesis
  proof (cases "case source_filter sh of None \<Rightarrow> False | Some ip \<Rightarrow> fst from_addr \<noteq> ip")
    case True
    then have "a' = count (record_ignored_packet IgnForeign) ?a" "out = []"
      using assms(1) by (simp_all add: accept_def Datagram)
    then show ?thesis using True by (auto simp: Datagram intro!: quiet_books split: option.splits)
  next
    case False
    obtain b o1 where i: "ingest d read_at ?a = (b, o1)" by fastforce
    have "books (of_bool (opens d a)) a out a'"
      using books_trans [OF quiet_books ingest_books [OF i], of a] assms(1) False by (simp add: accept_def Datagram i)
    then show ?thesis using False assms(2,3) by (auto simp: Datagram split: option.splits)
  qed
qed (use assms(1) in \<open>auto simp: accept_def quiet_books\<close>)

lemma receive_step_eq:
  assumes "\<And>e. received \<noteq> ReadFailed e"
    and "accept sh received read_at (rx_silence r) (set_config (wanted_config packet_size sh) (rx_assembler r)) = (a1, o1, w)"
    and "poll now a1 = (a2, o2)"
    and "(if resend_target sh \<noteq> None then resend_due now a2 else (a2, [])) = (a3, requests)"
  shows "\<exists>i w'. fst (receive_step sh packet_size received read_at now elapsed r) =
    (fold (hand_over (sh_deliver_incomplete sh)) (o1 @ o2)
      (r\<lparr>rx_assembler := a3, rx_silence := w, rx_request_id := i\<rparr>))\<lparr>rx_silence := w'\<rparr>"
proof -
  obtain i sent where f: "foldl (\<lambda>(rid, sent) req. (resend_request_id rid, sent @ [(rid, req)]))
      (rx_request_id r, []) requests = (i, sent)" by fastforce
  have "fst (receive_step sh packet_size received read_at now elapsed r) =
     (let r' = fold (hand_over (sh_deliver_incomplete sh)) (o1 @ o2)
        (r\<lparr>rx_assembler := a3, rx_silence := w, rx_request_id := i\<rparr>) in
      r'\<lparr>rx_silence := snd (assess elapsed (rx_silence r'))\<rparr>)"
  proof (cases received)
    case (ReadFailed e)
    with assms(1) show ?thesis by blast
  qed (use assms f in \<open>simp_all add: receive_step_def accept_def Let_def split: if_splits prod.splits\<close>)
  then show ?thesis by (auto simp: Let_def)
qed

lemma receive_step_held:
  assumes "\<not> rx_ended r"
  shows "frames_held (fst (receive_step sh packet_size received read_at now elapsed r)) =
    frames_held r + of_bool (rx_opens (Round sh received read_at now elapsed) r)"
proof (cases "\<exists>e. received = ReadFailed e")
  case True
  then show ?thesis
    by (auto simp: receive_step_def frames_held_def Let_def set_config_def queue_finish_def queue_fail_def)
next
  case False
  let ?a = "set_config (wanted_config packet_size sh) (rx_assembler r)"
  obtain a1 o1 w where a1: "accept sh received read_at (rx_silence r) ?a = (a1, o1, w)" by (metis prod_cases3)
  obtain a2 o2 where a2: "poll now a1 = (a2, o2)" by fastforce
  obtain a3 q where a3: "(if resend_target sh \<noteq> None then resend_due now a2 else (a2, [])) = (a3, q)" by fastforce
  let ?n = "of_bool (rx_opens (Round sh received read_at now elapsed) r) :: nat"
  have "books ?n ?a o1 a1" by (rule accept_books [OF a1 assms]) simp_all
  moreover have "quiet (rx_assembler r) ?a" by (simp add: set_config_def)
  moreover have "quiet a2 a3" using a3 resend_due_quiet by (auto split: if_splits)
  ultimately have b: "books ?n (rx_assembler r) (o1 @ o2) a3"
    using books_trans [OF books_trans [OF books_trans [OF quiet_books] poll_books [OF a2]] quiet_books] by simp
  from receive_step_eq [OF _ a1 a2 a3, of elapsed] False obtain i w' where
    "fst (receive_step sh packet_size received read_at now elapsed r) =
      (fold (hand_over (sh_deliver_incomplete sh)) (o1 @ o2)
        (r\<lparr>rx_assembler := a3, rx_silence := w, rx_request_id := i\<rparr>))\<lparr>rx_silence := w'\<rparr>" by blast
  then have "frames_held (fst (receive_step sh packet_size received read_at now elapsed r)) =
      frames_held (r\<lparr>rx_assembler := a3\<rparr>) + word_of_nat (length (o1 @ o2))"
    by (simp only: frames_held_simps held_assembler hand_over_all_held)
  then show ?thesis unfolding frames_held_books [OF b] by simp
qed

lemma rx_step_held: "frames_held (rx_step packet_size ev r) = frames_held r + of_bool (rx_opens ev r)"
proof (cases ev)
  case (Round sh received read_at now elapsed)
  then show ?thesis
    using receive_step_held [of r sh packet_size received read_at now elapsed] by (cases received) auto
next
  case Stop
  then show ?thesis by (simp add: frames_held_def receive_stop_def queue_finish_def)
qed (simp add: take_block_held)

lemma rx_run_held:
  "rx_run packet_size evs r = (n, r') \<Longrightarrow> frames_held r' = frames_held r + word_of_nat n"
proof (induction evs arbitrary: r n)
  case (Cons ev evs)
  obtain m r2 where "rx_run packet_size evs (rx_step packet_size ev r) = (m, r2)" by fastforce
  with Cons show ?case by (auto simp: rx_step_held)
qed simp

text \<open>
  C11. Every block is counted exactly once. Whatever datagrams arrive, whatever the settings are
  changed to, whenever timers fire and the application takes blocks, the frames counted complete,
  incomplete, dropped by backpressure and unsupported, plus those waiting in the queue and those
  still in flight, are together the blocks the stream has opened (in 64-bit arithmetic).
\<close>
theorem frames_accounted:
  assumes "rx_run packet_size evs (receiver_new packet_size sh stats_new) = (n, r)"
  defines "s \<equiv> as_stats (rx_assembler r)"
  shows "st_frames_complete s + st_frames_incomplete s + st_frames_backpressure s + st_frames_unsupported s +
    word_of_nat (length (dq_items (rx_queue r))) + word_of_nat (length (as_in_flight (rx_assembler r))) = word_of_nat n"
  using rx_run_held [OF assms(1)]
  by (simp add: frames_held_def Let_def receiver_new_def assembler_new_def stats_new_def queue_new_def s_def)

lemma frames_accounted_witness:
  "\<exists>n r. rx_run 1500 [Round shared_new (Datagram [1, 2] (9, 9)) 5 6 7, Take, Stop]
       (receiver_new 1500 shared_new stats_new :: unit receiver) = (n, r) \<and>
     frames_held r = word_of_nat n"
proof -
  obtain n r where "rx_run 1500 [Round shared_new (Datagram [1, 2] (9, 9)) 5 6 7, Take, Stop]
      (receiver_new 1500 shared_new stats_new :: unit receiver) = (n, r)" by fastforce
  from frames_accounted [OF this] this show ?thesis by (auto simp: frames_held_def Let_def)
qed

section \<open>Chunks and settings\<close>

lemma layout_slices:
  "map (\<lambda>c. (ucast (chunk_id c) :: u64,
       take (length (chunk_data c)) (drop (chunk_offset c) (pre @ chunk_payload cs))))
     (layout_chunks (length pre) cs) = map (\<lambda>(cid, data). (ucast cid, data)) cs"
proof (induction cs arbitrary: pre)
  case (Cons c cs)
  obtain cid data where c: "c = (cid, data)" by fastforce
  let ?tag = "put_u32 cid @ put_u32 (word_of_nat (length data))"
  have len: "length (pre @ data @ ?tag) = length pre + length data + 8" by (simp add: put_u32_def)
  have w: "pre @ chunk_payload (c # cs) = (pre @ data @ ?tag) @ chunk_payload cs" by (simp add: chunk_payload_def c)
  from Cons [of "pre @ data @ ?tag"] show ?case unfolding w by (simp add: c len [simplified] add.assoc)
qed (simp add: chunk_payload_def)

text \<open>
  A frame with chunks is split where the camera joined it: from the payload the camera lays out
  for an image followed by further chunks (payload type \<open>0x4001\<close>), the application gets exactly the
  image bytes and every chunk by its id, in order, the image among them.
\<close>
theorem sent_chunks_split:
  assumes "\<forall>c \<in> set ((iid, img) # cs). length (snd c) < 2 ^ 32"
  shows "split_chunks (chunk_payload ((iid, img) # cs)) 0x4001 =
    (img, Some (Ok ((ucast iid, img) # map (\<lambda>(cid, data). (ucast cid, data)) cs)))"
proof -
  have "chunk_data_of (chunk_payload ((iid, img) # cs)) =
      Ok ((ucast iid, img) # map (\<lambda>(cid, data). (ucast cid, data)) cs)"
    using parse_chunks_layout [OF assms] layout_slices [of "[]" "(iid, img) # cs"] by (simp add: chunk_data_of_def)
  moreover have "carries_chunks 0x4001" "is_image_payload 0x4001"
    by (simp_all add: carries_chunks_def has_extended_chunks_def is_image_payload_def PAYLOAD_TYPE_EXTENDED_CHUNK_def
        PAYLOAD_TYPE_MASK_def PAYLOAD_TYPE_IMAGE_def PAYLOAD_TYPE_CHUNK_DATA_def)
  ultimately show ?thesis by (simp add: split_chunks_def)
qed

lemma sent_chunks_split_witness:
  "split_chunks (chunk_payload [(1, [10, 20]), (7, [5])]) 0x4001 =
     ([10, 20], Some (Ok [(1, [10, 20]), (7, [5])]))"
  using sent_chunks_split [of 1 "[10, 20]" "[(7, [5])]"] by simp

lemma pack_fields:
  "ucast (drop_bit 32 (pack_target (ip, port) channel)) = ip"
  "ucast (drop_bit 16 (pack_target (ip, port) channel)) = port"
  "ucast (pack_target (ip, port) channel) = channel"
  by (rule bit_word_eqI; auto simp: pack_target_def bit_simps dest: bit_imp_le_length)+

lemma pack_nonzero: "ip \<noteq> 0 \<Longrightarrow> pack_target (ip, port) channel \<noteq> 0"
  using pack_fields(1) [of ip port channel] by auto

text \<open>
  The settings the application stores are the settings the receive thread loads: a camera
  address other than 0.0.0.0 and its channel come back from the packed resend target and turn
  resending on, a source filter and a payload size come back unless they are the value 0 that
  stands for none, and block timeouts come back up to the largest number of nanoseconds that fits.
\<close>
theorem settings_read_back:
  fixes n d :: nat
  assumes "ip \<noteq> 0" and "0 < n" and "n \<le> U64_MAX" and "d \<le> U64_MAX"
  shows "resend_target (set_resend_target (Some ((ip, port), channel)) sh) = Some ((ip, port), channel) \<and>
    rc_enabled (shared_resend_config (set_resend_target (Some ((ip, port), channel)) sh)) \<and>
    resend_target (set_resend_target None sh) = None \<and>
    source_filter (set_source_filter (Some ip) sh) = Some ip \<and>
    shared_payload_size (set_payload_size (Some n) sh) = Some n \<and>
    block_timeout (set_block_timeout d sh) = d"
proof -
  have n: "unat (word_of_nat n :: u64) = n" and d: "unat (word_of_nat d :: u64) = d"
    using assms(3,4) by (simp_all add: U64_MAX_def unat_of_nat)
  then have "(word_of_nat n :: u64) \<noteq> 0" using assms(2) by (metis neq0_conv unat_0)
  then show ?thesis using assms n d pack_nonzero [OF assms(1), of port channel] pack_fields [of ip port channel]
    by (simp add: resend_target_def set_resend_target_def unpack_target_def shared_resend_config_def
        source_filter_def set_source_filter_def shared_payload_size_def set_payload_size_def
        block_timeout_def set_block_timeout_def nanos_def)
qed

lemma settings_read_back_witness:
  "resend_target (set_resend_target (Some ((0xC0A80102, 3956), 0)) shared_new) = Some ((0xC0A80102, 3956), 0) \<and>
   shared_payload_size (set_payload_size (Some 307200) shared_new) = Some 307200"
  using settings_read_back [where ip = "0xC0A80102" and n = 307200 and d = 5 and port = 3956 and channel = 0 and sh = shared_new] by (simp add: U64_MAX_def)

end
