(* ===== verification/Swissknife.thy ===== *)
theory Swissknife
  imports Prelude "HOL-Library.Signed_Division"
begin

text \<open>
  The formula language of GenApi's \<open>SwissKnife\<close> and \<open>Converter\<close> nodes: values, syntax trees and
  the evaluator (\<^verbatim>\<open>crates/viva-genapi/src/swissknife.rs\<close>, first half).

  An \<open>i64\<close> is a 64-bit word read with \<open>sint\<close>. The precision of most \<open>f64\<close> functions (\<open>sin\<close>,
  \<open>powf\<close>, \<open>ln\<close>, ...) is not specified by the language, so the float operations are a parameter:
  a record of the operations the code calls, over any type \<open>'f\<close> of floats. The variable resolver
  is a closure with state of its own, which is threaded through the evaluation.
\<close>

section \<open>Floats and values\<close>

datatype float_fn =
  FSin | FCos | FTan | FAsin | FAcos | FAtan | FSqrt | FExp | FLn | FLog10 | FLog2 |
  FTrunc | FFloor | FCeil | FRound | FAbs

record 'f float_ops =
  fo_of_i64 :: "i64 \<Rightarrow> 'f"
  fo_to_i64 :: "'f \<Rightarrow> i64"
  fo_add :: "'f \<Rightarrow> 'f \<Rightarrow> 'f"
  fo_sub :: "'f \<Rightarrow> 'f \<Rightarrow> 'f"
  fo_mul :: "'f \<Rightarrow> 'f \<Rightarrow> 'f"
  fo_div :: "'f \<Rightarrow> 'f \<Rightarrow> 'f"
  fo_powf :: "'f \<Rightarrow> 'f \<Rightarrow> 'f"
  fo_atan2 :: "'f \<Rightarrow> 'f \<Rightarrow> 'f"
  fo_neg :: "'f \<Rightarrow> 'f"
  fo_fn :: "float_fn \<Rightarrow> 'f \<Rightarrow> 'f"
  fo_lt :: "'f \<Rightarrow> 'f \<Rightarrow> bool"
  fo_le :: "'f \<Rightarrow> 'f \<Rightarrow> bool"
  fo_eq :: "'f \<Rightarrow> 'f \<Rightarrow> bool"
  fo_zero :: 'f
  fo_one :: 'f
  fo_e :: 'f
  fo_pi :: 'f
  fo_parse :: "string \<Rightarrow> 'f option"

datatype 'f fvalue = VInt i64 | VFloat 'f

definition as_i64 :: "'f float_ops \<Rightarrow> 'f fvalue \<Rightarrow> i64" where
  "as_i64 F v = (case v of VInt i \<Rightarrow> i | VFloat f \<Rightarrow> fo_to_i64 F f)"

definition as_f64 :: "'f float_ops \<Rightarrow> 'f fvalue \<Rightarrow> 'f" where
  "as_f64 F v = (case v of VInt i \<Rightarrow> fo_of_i64 F i | VFloat f \<Rightarrow> f)"

definition is_int :: "'f fvalue \<Rightarrow> bool" where
  "is_int v = (case v of VInt _ \<Rightarrow> True | VFloat _ \<Rightarrow> False)"

definition is_truthy :: "'f float_ops \<Rightarrow> 'f fvalue \<Rightarrow> bool" where
  "is_truthy F v = (case v of VInt i \<Rightarrow> i \<noteq> 0 | VFloat f \<Rightarrow> \<not> fo_eq F f (fo_zero F))"

definition from_bool :: "bool \<Rightarrow> 'f fvalue" where
  "from_bool b = VInt (if b then 1 else 0)"

section \<open>Syntax trees\<close>

datatype eval_mode = Integer | Floating

datatype binary_op =
  Add | Sub | Mul | Div | Mod | Pow | Lt | Le | Gt | Ge | Eq | Ne | And | Or |
  BitAnd | BitOr | BitXor | Shl | Shr

datatype unary_op = Plus | Minus | Not | BitNot

datatype 'f ast =
    Literal "'f fvalue"
  | Variable string
  | Unary unary_op "'f ast"
  | Binary binary_op "'f ast" "'f ast"
  | Ternary "'f ast" "'f ast" "'f ast"
  | FnCall string "'f ast list"

datatype 'f eval_error =
    UnknownVariable string
  | DivisionByZero
  | UnknownFunction string
  | ArityMismatch string nat nat
  | NotAnInteger 'f
  | Cycle string
  | NoLimit string string string

section \<open>Names\<close>

definition ascii_lower :: "char \<Rightarrow> char" where
  "ascii_lower c = (let n = of_char c :: nat in if 65 \<le> n \<and> n \<le> 90 then char_of (n + 32) else c)"

definition to_ascii_lowercase :: "string \<Rightarrow> string" where
  "to_ascii_lowercase = map ascii_lower"

definition builtin_constant :: "'f float_ops \<Rightarrow> string \<Rightarrow> 'f fvalue option" where
  "builtin_constant F name =
     (let n = to_ascii_lowercase name in
      if n = ''e'' then Some (VFloat (fo_e F))
      else if n = ''pi'' then Some (VFloat (fo_pi F))
      else None)"

definition is_builtin_constant :: "'f float_ops \<Rightarrow> string \<Rightarrow> bool" where
  "is_builtin_constant F name \<longleftrightarrow> builtin_constant F name \<noteq> None"

text \<open>\<open>str::split_once\<close>.\<close>

fun split_once :: "'a \<Rightarrow> 'a list \<Rightarrow> ('a list \<times> 'a list) option" where
  "split_once c [] = None"
| "split_once c (x # xs) =
     (if x = c then Some ([], xs) else map_option (\<lambda>(a, b). (x # a, b)) (split_once c xs))"

datatype var_attr = AValue | AMin | AMax | AInc | AEntry string

definition var_attr_parse :: "string \<Rightarrow> var_attr option" where
  "var_attr_parse extension =
     (let (keyword, rest) =
            (case split_once (CHR ''.'') extension of
               Some (k, r) \<Rightarrow> (k, Some r)
             | None \<Rightarrow> (extension, None));
          k = to_ascii_lowercase keyword in
      case rest of
        None \<Rightarrow>
          if k = ''value'' then Some AValue
          else if k = ''min'' then Some AMin
          else if k = ''max'' then Some AMax
          else if k = ''inc'' then Some AInc
          else None
      | Some entry \<Rightarrow>
          if k = ''entry'' \<and> entry \<noteq> [] \<and> CHR ''.'' \<notin> set entry then Some (AEntry entry) else None)"

definition split_qualified :: "string \<Rightarrow> (string \<times> string) option" where
  "split_qualified ident = split_once (CHR ''.'') ident"

section \<open>Operators\<close>

definition eval_unary :: "'f float_ops \<Rightarrow> unary_op \<Rightarrow> 'f fvalue \<Rightarrow> eval_mode \<Rightarrow> 'f fvalue" where
  "eval_unary F op v mode =
     (case op of
        Plus \<Rightarrow> v
      | Minus \<Rightarrow>
          if mode = Integer \<or> is_int v then VInt (- as_i64 F v) else VFloat (fo_neg F (as_f64 F v))
      | Not \<Rightarrow> from_bool (\<not> is_truthy F v)
      | BitNot \<Rightarrow> VInt (NOT (as_i64 F v)))"

definition integral :: "eval_mode \<Rightarrow> 'f fvalue \<Rightarrow> 'f fvalue \<Rightarrow> bool" where
  "integral mode lhs rhs \<longleftrightarrow> mode = Integer \<or> (is_int lhs \<and> is_int rhs)"

definition shift_amount :: "'f float_ops \<Rightarrow> 'f fvalue \<Rightarrow> nat" where
  "shift_amount F v = unat (as_i64 F v AND 63)"

definition compare :: "'f float_ops \<Rightarrow> 'f fvalue \<Rightarrow> 'f fvalue \<Rightarrow> eval_mode \<Rightarrow>
    (int \<Rightarrow> int \<Rightarrow> bool) \<Rightarrow> ('f \<Rightarrow> 'f \<Rightarrow> bool) \<Rightarrow> 'f fvalue" where
  "compare F lhs rhs mode int_cmp float_cmp =
     (if integral mode lhs rhs
      then from_bool (int_cmp (sint (as_i64 F lhs)) (sint (as_i64 F rhs)))
      else from_bool (float_cmp (as_f64 F lhs) (as_f64 F rhs)))"

text \<open>
  \<open>i64::wrapping_div\<close> and \<open>wrapping_rem\<close>: truncating, wrapping on \<open>i64::MIN / -1\<close>, and a panic when
  the divisor is zero.
\<close>

definition wrapping_div :: "i64 \<Rightarrow> i64 \<Rightarrow> (i64, 'e) result" where
  "wrapping_div a b = (if b = 0 then Panic else Ok (word_of_int (sint a sdiv sint b)))"

definition wrapping_rem :: "i64 \<Rightarrow> i64 \<Rightarrow> (i64, 'e) result" where
  "wrapping_rem a b = (if b = 0 then Panic else Ok (word_of_int (sint a smod sint b)))"

text \<open>\<open>&&\<close> and \<open>||\<close> never get here.\<close>

definition eval_binary :: "'f float_ops \<Rightarrow> binary_op \<Rightarrow> 'f fvalue \<Rightarrow> 'f fvalue \<Rightarrow> eval_mode \<Rightarrow>
    ('f fvalue, 'f eval_error) result" where
  "eval_binary F op lhs rhs mode =
     (let i = as_i64 F; f = as_f64 F in
      case op of
        Add \<Rightarrow> Ok (if integral mode lhs rhs then VInt (i lhs + i rhs) else VFloat (fo_add F (f lhs) (f rhs)))
      | Sub \<Rightarrow> Ok (if integral mode lhs rhs then VInt (i lhs - i rhs) else VFloat (fo_sub F (f lhs) (f rhs)))
      | Mul \<Rightarrow> Ok (if integral mode lhs rhs then VInt (i lhs * i rhs) else VFloat (fo_mul F (f lhs) (f rhs)))
      | Div \<Rightarrow>
          if mode = Integer then
            if i rhs = 0 then Err DivisionByZero
            else and_then (wrapping_div (i lhs) (i rhs)) (\<lambda>q. Ok (VInt q))
          else
            if fo_eq F (f rhs) (fo_zero F) then Err DivisionByZero
            else Ok (VFloat (fo_div F (f lhs) (f rhs)))
      | Mod \<Rightarrow>
          if i rhs = 0 then Err DivisionByZero
          else and_then (wrapping_rem (i lhs) (i rhs)) (\<lambda>q. Ok (VInt q))
      | Pow \<Rightarrow>
          let r = fo_powf F (f lhs) (f rhs) in
          Ok (if mode = Integer then VInt (fo_to_i64 F r) else VFloat r)
      | Lt \<Rightarrow> Ok (compare F lhs rhs mode (<) (fo_lt F))
      | Le \<Rightarrow> Ok (compare F lhs rhs mode (\<le>) (fo_le F))
      | Gt \<Rightarrow> Ok (compare F lhs rhs mode (>) (\<lambda>a b. fo_lt F b a))
      | Ge \<Rightarrow> Ok (compare F lhs rhs mode (\<ge>) (\<lambda>a b. fo_le F b a))
      | Eq \<Rightarrow> Ok (compare F lhs rhs mode (=) (fo_eq F))
      | Ne \<Rightarrow> Ok (compare F lhs rhs mode (\<noteq>) (\<lambda>a b. \<not> fo_eq F a b))
      | And \<Rightarrow> Panic
      | Or \<Rightarrow> Panic
      | BitAnd \<Rightarrow> Ok (VInt (i lhs AND i rhs))
      | BitOr \<Rightarrow> Ok (VInt (i lhs OR i rhs))
      | BitXor \<Rightarrow> Ok (VInt (i lhs XOR i rhs))
      | Shl \<Rightarrow> Ok (VInt (push_bit (shift_amount F rhs) (i lhs)))
      | Shr \<Rightarrow> Ok (VInt (signed_drop_bit (shift_amount F rhs) (i lhs))))"

section \<open>Functions\<close>

definition expect_args :: "string \<Rightarrow> 'f fvalue list \<Rightarrow> nat \<Rightarrow> ('f fvalue list, 'f eval_error) result" where
  "expect_args name args expected =
     (if length args \<noteq> expected then Err (ArityMismatch name expected (length args)) else Ok args)"

text \<open>Indexing the arguments, \<open>a[i]\<close>, which panics out of range.\<close>

definition nth_arg :: "'a list \<Rightarrow> nat \<Rightarrow> ('a \<Rightarrow> ('b, 'e) result) \<Rightarrow> ('b, 'e) result" where
  "nth_arg a i k = (if i < length a then k (a ! i) else Panic)"

definition pick :: "'f float_ops \<Rightarrow> 'f fvalue \<Rightarrow> 'f fvalue \<Rightarrow> eval_mode \<Rightarrow> bool \<Rightarrow> 'f fvalue" where
  "pick F lhs rhs mode want_min =
     (let take_lhs =
            (if integral mode lhs rhs then (sint (as_i64 F lhs) \<le> sint (as_i64 F rhs)) = want_min
             else fo_le F (as_f64 F lhs) (as_f64 F rhs) = want_min) in
      if take_lhs then lhs else rhs)"

definition apply_float_fn :: "'f float_ops \<Rightarrow> string \<Rightarrow> 'f fvalue list \<Rightarrow> float_fn \<Rightarrow> ('f fvalue, 'f eval_error) result" where
  "apply_float_fn F name args fn =
     and_then (expect_args name args 1) (\<lambda>a. nth_arg a 0 (\<lambda>x. Ok (VFloat (fo_fn F fn (as_f64 F x)))))"

definition apply_rounding_fn :: "'f float_ops \<Rightarrow> string \<Rightarrow> 'f fvalue list \<Rightarrow> eval_mode \<Rightarrow> float_fn \<Rightarrow>
    ('f fvalue, 'f eval_error) result" where
  "apply_rounding_fn F name args mode fn =
     and_then (expect_args name args 1) (\<lambda>a. nth_arg a 0 (\<lambda>x.
       Ok (if mode = Integer \<or> is_int x then VInt (as_i64 F x)
           else VFloat (fo_fn F fn (as_f64 F x)))))"

text \<open>The names of \<open>float_fn\<close> and \<open>rounding_fn\<close> in the match of \<open>eval_function\<close>.\<close>

definition float_fn_names :: "(string \<times> float_fn) list" where
  "float_fn_names =
     [(''sin'', FSin), (''cos'', FCos), (''tan'', FTan), (''asin'', FAsin), (''acos'', FAcos),
      (''atan'', FAtan), (''sqrt'', FSqrt), (''exp'', FExp), (''ln'', FLn), (''lg'', FLog10),
      (''log'', FLog10), (''log10'', FLog10), (''log2'', FLog2)]"

definition rounding_fn_names :: "(string \<times> float_fn) list" where
  "rounding_fn_names = [(''trunc'', FTrunc), (''floor'', FFloor), (''ceil'', FCeil), (''round'', FRound)]"

definition eval_function :: "'f float_ops \<Rightarrow> string \<Rightarrow> 'f fvalue list \<Rightarrow> eval_mode \<Rightarrow>
    ('f fvalue, 'f eval_error) result" where
  "eval_function F name args mode =
     (let n = to_ascii_lowercase name in
      case map_of float_fn_names n of
        Some fn \<Rightarrow> apply_float_fn F name args fn
      | None \<Rightarrow>
      (case map_of rounding_fn_names n of
        Some fn \<Rightarrow> apply_rounding_fn F name args mode fn
      | None \<Rightarrow>
      if n = ''abs'' then
        and_then (expect_args name args 1) (\<lambda>a. nth_arg a 0 (\<lambda>x.
          Ok (if mode = Integer \<or> is_int x then VInt (word_of_int \<bar>sint (as_i64 F x)\<bar>)
              else VFloat (fo_fn F FAbs (as_f64 F x)))))
      else if n = ''neg'' then
        and_then (expect_args name args 1) (\<lambda>a. nth_arg a 0 (\<lambda>x. Ok (eval_unary F Minus x mode)))
      else if n = ''sgn'' \<or> n = ''sign'' then
        and_then (expect_args name args 1) (\<lambda>a. nth_arg a 0 (\<lambda>x.
          Ok (if mode = Integer \<or> is_int x then VInt (word_of_int (sgn (sint (as_i64 F x))))
              else
                let v = as_f64 F x in
                VFloat (if fo_lt F (fo_zero F) v then fo_one F
                        else if fo_lt F v (fo_zero F) then fo_neg F (fo_one F)
                        else fo_zero F))))
      else if n = ''e'' then and_then (expect_args name args 0) (\<lambda>_. Ok (VFloat (fo_e F)))
      else if n = ''pi'' then and_then (expect_args name args 0) (\<lambda>_. Ok (VFloat (fo_pi F)))
      else if n = ''atan2'' then
        and_then (expect_args name args 2) (\<lambda>a. nth_arg a 0 (\<lambda>y. nth_arg a 1 (\<lambda>x.
          Ok (VFloat (fo_atan2 F (as_f64 F y) (as_f64 F x))))))
      else if n = ''pow'' then and_then (expect_args name args 2) (\<lambda>a.
          nth_arg a 0 (\<lambda>l. nth_arg a 1 (\<lambda>r. eval_binary F Pow l r mode)))
      else if n = ''fmod'' then and_then (expect_args name args 2) (\<lambda>a.
          nth_arg a 0 (\<lambda>l. nth_arg a 1 (\<lambda>r. eval_binary F Mod l r mode)))
      else if n = ''min'' then and_then (expect_args name args 2) (\<lambda>a.
          nth_arg a 0 (\<lambda>l. nth_arg a 1 (\<lambda>r. Ok (pick F l r mode True))))
      else if n = ''max'' then and_then (expect_args name args 2) (\<lambda>a.
          nth_arg a 0 (\<lambda>l. nth_arg a 1 (\<lambda>r. Ok (pick F l r mode False))))
      else Err (UnknownFunction name)))"

section \<open>Evaluation\<close>

type_synonym ('f, 's) vars = "string \<Rightarrow> 's \<Rightarrow> ('f fvalue, 'f eval_error) result \<times> 's"

definition resolve :: "'f float_ops \<Rightarrow> ('f, 's) vars \<Rightarrow> ('f, 's) vars" where
  "resolve F vars name s =
     (case vars name s of
        (Err (UnknownVariable _), s') \<Rightarrow>
          ((case builtin_constant F name of Some v \<Rightarrow> Ok v | None \<Rightarrow> Err (UnknownVariable name)), s')
      | r \<Rightarrow> r)"

fun evaluate :: "'f float_ops \<Rightarrow> ('f, 's) vars \<Rightarrow> eval_mode \<Rightarrow> 'f ast \<Rightarrow> 's \<Rightarrow>
      ('f fvalue, 'f eval_error) result \<times> 's"
  and evaluate_all :: "'f float_ops \<Rightarrow> ('f, 's) vars \<Rightarrow> eval_mode \<Rightarrow> 'f ast list \<Rightarrow> 's \<Rightarrow>
      ('f fvalue list, 'f eval_error) result \<times> 's" where
  "evaluate F vars mode (Literal v) s = (Ok v, s)"
| "evaluate F vars mode (Variable name) s = resolve F vars name s"
| "evaluate F vars mode (Unary op e) s =
     bind (evaluate F vars mode e s) (\<lambda>v s. (Ok (eval_unary F op v mode), s))"
| "evaluate F vars mode (Binary op l r) s =
     bind (evaluate F vars mode l s) (\<lambda>lhs s.
       if op = And \<and> \<not> is_truthy F lhs then (Ok (from_bool False), s)
       else if op = Or \<and> is_truthy F lhs then (Ok (from_bool True), s)
       else bind (evaluate F vars mode r s) (\<lambda>rhs s.
         if op = And \<or> op = Or then (Ok (from_bool (is_truthy F rhs)), s)
         else (eval_binary F op lhs rhs mode, s)))"
| "evaluate F vars mode (Ternary c t e) s =
     bind (evaluate F vars mode c s) (\<lambda>v s.
       if is_truthy F v then evaluate F vars mode t s else evaluate F vars mode e s)"
| "evaluate F vars mode (FnCall name args) s =
     bind (evaluate_all F vars mode args s) (\<lambda>vs s. (eval_function F name vs mode, s))"
| "evaluate_all F vars mode [] s = (Ok [], s)"
| "evaluate_all F vars mode (a # as) s =
     bind (evaluate F vars mode a s) (\<lambda>v s.
       bind (evaluate_all F vars mode as s) (\<lambda>vs s. (Ok (v # vs), s)))"

fun substitute :: "(string \<rightharpoonup> 'f ast) \<Rightarrow> 'f ast \<Rightarrow> 'f ast" where
  "substitute b (Literal v) = Literal v"
| "substitute b (Variable name) = (case b name of Some r \<Rightarrow> r | None \<Rightarrow> Variable name)"
| "substitute b (Unary op e) = Unary op (substitute b e)"
| "substitute b (Binary op l r) = Binary op (substitute b l) (substitute b r)"
| "substitute b (Ternary c t e) = Ternary (substitute b c) (substitute b t) (substitute b e)"
| "substitute b (FnCall name args) = FnCall name (map (substitute b) args)"

fun collect_identifiers :: "'f ast \<Rightarrow> string set \<Rightarrow> string set" where
  "collect_identifiers (Literal v) out = out"
| "collect_identifiers (Variable name) out = insert name out"
| "collect_identifiers (Unary op e) out = collect_identifiers e out"
| "collect_identifiers (Binary op l r) out = collect_identifiers r (collect_identifiers l out)"
| "collect_identifiers (Ternary c t e) out =
     collect_identifiers e (collect_identifiers t (collect_identifiers c out))"
| "collect_identifiers (FnCall name args) out = fold collect_identifiers args out"

section \<open>A concrete float system\<close>

text \<open>Whole numbers in place of floats, to run the definitions on examples.\<close>

definition whole_floats :: "int float_ops" where
  "whole_floats =
     \<lparr>fo_of_i64 = sint, fo_to_i64 = word_of_int, fo_add = (+), fo_sub = (-), fo_mul = (*), fo_div = (div),
      fo_powf = (\<lambda>a b. a ^ nat b), fo_atan2 = (\<lambda>a b. 0), fo_neg = uminus, fo_fn = (\<lambda>_ a. a), fo_lt = (<),
      fo_le = (\<le>), fo_eq = (=), fo_zero = 0, fo_one = 1, fo_e = 3, fo_pi = 3, fo_parse = (\<lambda>_. None)\<rparr>"

end
