(* ===== verification/Formula_Parser.thy ===== *)
theory Formula_Parser
  imports Swissknife
begin

text \<open>
  The lexer and the parser of GenApi formulas (\<^verbatim>\<open>crates/viva-genapi/src/swissknife.rs\<close>,
  second half).

  The input is its bytes; everything a token can be made of is ASCII, so the UTF-8 checks on
  slices of it always succeed and are left out. Error messages are constructors, with the offset
  they report. The ten binary levels of the parser are one function with the level as an argument
  and the table of the operators of each level; \<open>parse_or\<close> and its kin name its instances. The
  recursion carries fuel, and \<open>parse_expression\<close> gives it enough for every input (theory
  \<open>Formula_Props\<close>); the depth of the host's call stack is not modelled.
\<close>

section \<open>Tokens\<close>

datatype 'f token =
    TInt i64 | TFloat 'f | TIdent string
  | TPlus | TMinus | TStar | TSlash | TPercent | TStarStar
  | TLt | TLe | TGt | TGe | TEq | TNe
  | TAmpAmp | TPipePipe | TBang
  | TAmp | TPipe | TCaret | TTilde | TLtLt | TGtGt
  | TQuestion | TColon | TLParen | TRParen | TComma | TEnd

datatype 'f parse_msg =
    UnexpectedCharacter char
  | HexWithoutDigits
  | InvalidHex string
  | InvalidNumber
  | FailedNumber string
  | ExpectedColon
  | ExpectedCloseArgs
  | MissingClose
  | UnexpectedEnd
  | UnexpectedToken "'f token"
  | TrailingTokens

datatype 'f parse_error = ParseError (msg: "'f parse_msg") (offset: nat)

section \<open>The lexer\<close>

definition code :: "char \<Rightarrow> nat" where "code c = of_char c"

definition is_ws :: "char \<Rightarrow> bool" where
  "is_ws c \<longleftrightarrow> code c = 32 \<or> code c = 9 \<or> code c = 10 \<or> code c = 12 \<or> code c = 13"

definition is_digit :: "char \<Rightarrow> bool" where
  "is_digit c \<longleftrightarrow> 48 \<le> code c \<and> code c \<le> 57"

definition is_alpha :: "char \<Rightarrow> bool" where
  "is_alpha c \<longleftrightarrow> 97 \<le> code c \<and> code c \<le> 122 \<or> 65 \<le> code c \<and> code c \<le> 90"

definition is_hex :: "char \<Rightarrow> bool" where
  "is_hex c \<longleftrightarrow> is_digit c \<or> 97 \<le> code c \<and> code c \<le> 102 \<or> 65 \<le> code c \<and> code c \<le> 70"

definition is_ident_char :: "char \<Rightarrow> bool" where
  "is_ident_char c \<longleftrightarrow> is_alpha c \<or> is_digit c \<or> c = CHR ''_'' \<or> c = CHR ''.''"

text \<open>\<open>while let Some(byte) = self.peek() { if P(byte) { self.pos += 1 } else { break } }\<close>\<close>

definition skip_while :: "(char \<Rightarrow> bool) \<Rightarrow> string \<Rightarrow> nat \<Rightarrow> nat" where
  "skip_while P input pos = pos + length (takeWhile P (drop pos input))"

definition skip_ws :: "string \<Rightarrow> nat \<Rightarrow> nat" where
  "skip_ws = skip_while is_ws"

definition hex_digit :: "char \<Rightarrow> nat" where
  "hex_digit c = (if is_digit c then code c - 48 else if 97 \<le> code c then code c - 87 else code c - 55)"

text \<open>\<open>u64::from_str_radix(_, 16)\<close> and \<open>str::parse::<i64>\<close> on a non-empty run of digits: an error
  when the number does not fit.\<close>

definition digits_value :: "nat \<Rightarrow> string \<Rightarrow> nat" where
  "digits_value radix ds = foldl (\<lambda>n c. n * radix + hex_digit c) 0 ds"

definition from_str_radix16 :: "string \<Rightarrow> u64 option" where
  "from_str_radix16 ds = (let n = digits_value 16 ds in if n < 2 ^ 64 then Some (word_of_nat n) else None)"

definition parse_i64 :: "string \<Rightarrow> i64 option" where
  "parse_i64 ds = (let n = digits_value 10 ds in if n < 2 ^ 63 then Some (word_of_nat n) else None)"

text \<open>The loop of \<open>lex_number\<close>: how many bytes it takes, and its flags afterwards.\<close>

function scan_number :: "string \<Rightarrow> bool \<Rightarrow> bool \<Rightarrow> bool \<Rightarrow> nat \<times> bool \<times> bool \<times> bool" where
  "scan_number cs seen_digit seen_dot seen_exp =
     (case cs of
        [] \<Rightarrow> (0, seen_digit, seen_dot, seen_exp)
      | c # rest \<Rightarrow>
          if is_digit c then map_prod Suc id (scan_number rest True seen_dot seen_exp)
          else if c = CHR ''.'' \<and> \<not> seen_dot \<and> \<not> seen_exp
          then map_prod Suc id (scan_number rest seen_digit True seen_exp)
          else if (c = CHR ''e'' \<or> c = CHR ''E'') \<and> \<not> seen_exp \<and> seen_digit then
            (case rest of
               d # _ \<Rightarrow>
                 if d = CHR ''+'' \<or> d = CHR ''-''
                 then map_prod (\<lambda>n. n + 2) id (scan_number (drop 1 rest) seen_digit seen_dot True)
                 else if is_digit d then map_prod Suc id (scan_number rest seen_digit seen_dot True)
                 else (0, seen_digit, seen_dot, seen_exp)
             | [] \<Rightarrow> (0, seen_digit, seen_dot, seen_exp))
          else (0, seen_digit, seen_dot, seen_exp))"
  by pat_completeness auto
termination by (relation "measure (\<lambda>(cs, _). length cs)") auto

declare scan_number.simps [simp del]

definition lex_number :: "'f float_ops \<Rightarrow> string \<Rightarrow> nat \<Rightarrow> 'f parse_error + 'f token \<times> nat" where
  "lex_number F input start =
     (if index start input = Some (CHR ''0'') \<and>
         (index (start + 1) input = Some (CHR ''x'') \<or> index (start + 1) input = Some (CHR ''X'')) then
        let hex_start = start + 2; pos = skip_while is_hex input hex_start in
        if pos = hex_start then Inl (ParseError HexWithoutDigits start)
        else
          let hex_text = take (pos - hex_start) (drop hex_start input) in
          (case from_str_radix16 hex_text of
             None \<Rightarrow> Inl (ParseError (InvalidHex hex_text) start)
           | Some v \<Rightarrow> Inr (TInt v, pos))
      else
        let (n, seen_digit, seen_dot, seen_exp) = scan_number (drop start input) False False False in
        if \<not> seen_digit then Inl (ParseError InvalidNumber start)
        else
          let text = take n (drop start input) in
          (case (if \<not> seen_dot \<and> \<not> seen_exp then parse_i64 text else None) of
             Some v \<Rightarrow> Inr (TInt v, start + n)
           | None \<Rightarrow>
               (case fo_parse F text of
                  None \<Rightarrow> Inl (ParseError (FailedNumber text) start)
                | Some f \<Rightarrow> Inr (TFloat f, start + n))))"

definition lex_ident :: "string \<Rightarrow> nat \<Rightarrow> 'f parse_error + 'f token \<times> nat" where
  "lex_ident input start =
     (let pos = skip_while is_ident_char input (start + 1) in
      Inr (TIdent (take (pos - start) (drop start input)), pos))"

definition next_token :: "'f float_ops \<Rightarrow> string \<Rightarrow> nat \<Rightarrow> 'f parse_error + 'f token \<times> nat" where
  "next_token F input pos0 =
     (let pos = skip_ws input pos0; nxt = index (pos + 1) input;
          one = (\<lambda>t. Inr (t, pos + 1)); two = (\<lambda>t. Inr (t, pos + 2)) in
      case index pos input of
        None \<Rightarrow> Inr (TEnd, pos)
      | Some c \<Rightarrow>
          if is_digit c \<or> c = CHR ''.'' then lex_number F input pos
          else if is_alpha c \<or> c = CHR ''_'' then lex_ident input pos
          else if c = CHR ''+'' then one TPlus
          else if c = CHR ''-'' then one TMinus
          else if c = CHR ''*'' then (if nxt = Some (CHR ''*'') then two TStarStar else one TStar)
          else if c = CHR ''/'' then one TSlash
          else if c = CHR ''%'' then one TPercent
          else if c = CHR ''<'' then
            (if nxt = Some (CHR ''='') then two TLe
             else if nxt = Some (CHR ''<'') then two TLtLt
             else if nxt = Some (CHR ''>'') then two TNe
             else one TLt)
          else if c = CHR ''>'' then
            (if nxt = Some (CHR ''='') then two TGe
             else if nxt = Some (CHR ''>'') then two TGtGt
             else one TGt)
          else if c = CHR ''='' then (if nxt = Some (CHR ''='') then two TEq else one TEq)
          else if c = CHR ''!'' then (if nxt = Some (CHR ''='') then two TNe else one TBang)
          else if c = CHR ''&'' then (if nxt = Some (CHR ''&'') then two TAmpAmp else one TAmp)
          else if c = CHR ''|'' then (if nxt = Some (CHR ''|'') then two TPipePipe else one TPipe)
          else if c = CHR ''^'' then one TCaret
          else if c = CHR ''~'' then one TTilde
          else if c = CHR ''?'' then one TQuestion
          else if c = CHR '':'' then one TColon
          else if c = CHR ''('' then one TLParen
          else if c = CHR '')'' then one TRParen
          else if c = CHR '','' then one TComma
          else Inl (ParseError (UnexpectedCharacter c) pos))"

section \<open>The parser\<close>

record 'f parser =
  ps_lookahead :: "'f token"
  ps_lexer :: nat
  ps_pos :: nat

definition parser_at :: "'f float_ops \<Rightarrow> string \<Rightarrow> nat \<Rightarrow> 'f parse_error + 'f parser" where
  "parser_at F input pos =
     (case next_token F input pos of
        Inl e \<Rightarrow> Inl e
      | Inr (t, q) \<Rightarrow> Inr \<lparr>ps_lookahead = t, ps_lexer = q, ps_pos = q\<rparr>)"

definition parser_new :: "'f float_ops \<Rightarrow> string \<Rightarrow> 'f parse_error + 'f parser" where
  "parser_new F input = parser_at F input 0"

definition advance :: "'f float_ops \<Rightarrow> string \<Rightarrow> 'f parser \<Rightarrow> 'f parse_error + 'f parser" where
  "advance F input p = parser_at F input (ps_lexer p)"

datatype ('a, 'f) parsed = Parsed 'a "'f parser" | Failed "'f parse_error" | OutOfFuel

definition pbind :: "('a, 'f) parsed \<Rightarrow> ('a \<Rightarrow> 'f parser \<Rightarrow> ('b, 'f) parsed) \<Rightarrow> ('b, 'f) parsed" where
  "pbind m k = (case m of Parsed a p \<Rightarrow> k a p | Failed e \<Rightarrow> Failed e | OutOfFuel \<Rightarrow> OutOfFuel)"

definition after :: "'f float_ops \<Rightarrow> string \<Rightarrow> 'f parser \<Rightarrow> ('f parser \<Rightarrow> ('b, 'f) parsed) \<Rightarrow> ('b, 'f) parsed" where
  "after F input p k = (case advance F input p of Inl e \<Rightarrow> Failed e | Inr p' \<Rightarrow> k p')"

text \<open>The operators of the binary levels, numbered as in the comment above the parser.\<close>

definition binary_at :: "nat \<Rightarrow> 'f token \<Rightarrow> binary_op option" where
  "binary_at level t =
     (if level = 2 then (case t of TPipePipe \<Rightarrow> Some Or | _ \<Rightarrow> None)
      else if level = 3 then (case t of TAmpAmp \<Rightarrow> Some And | _ \<Rightarrow> None)
      else if level = 4 then (case t of TPipe \<Rightarrow> Some BitOr | _ \<Rightarrow> None)
      else if level = 5 then (case t of TCaret \<Rightarrow> Some BitXor | _ \<Rightarrow> None)
      else if level = 6 then (case t of TAmp \<Rightarrow> Some BitAnd | _ \<Rightarrow> None)
      else if level = 7 then (case t of TEq \<Rightarrow> Some Eq | TNe \<Rightarrow> Some Ne | _ \<Rightarrow> None)
      else if level = 8 then
        (case t of TLt \<Rightarrow> Some Lt | TLe \<Rightarrow> Some Le | TGt \<Rightarrow> Some Gt | TGe \<Rightarrow> Some Ge | _ \<Rightarrow> None)
      else if level = 9 then (case t of TLtLt \<Rightarrow> Some Shl | TGtGt \<Rightarrow> Some Shr | _ \<Rightarrow> None)
      else if level = 10 then (case t of TPlus \<Rightarrow> Some Add | TMinus \<Rightarrow> Some Sub | _ \<Rightarrow> None)
      else if level = 11 then
        (case t of TStar \<Rightarrow> Some Mul | TSlash \<Rightarrow> Some Div | TPercent \<Rightarrow> Some Mod | _ \<Rightarrow> None)
      else None)"

definition unary_at :: "'f token \<Rightarrow> unary_op option" where
  "unary_at t =
     (case t of
        TPlus \<Rightarrow> Some Plus | TMinus \<Rightarrow> Some Minus | TBang \<Rightarrow> Some Not | TTilde \<Rightarrow> Some BitNot | _ \<Rightarrow> None)"

text \<open>The methods of the parser, each with the methods it calls as a parameter: the fuel ties the
  knot below.\<close>

record 'f methods =
  m_ternary :: "'f parser \<Rightarrow> ('f ast, 'f) parsed"
  m_level :: "nat \<Rightarrow> 'f parser \<Rightarrow> ('f ast, 'f) parsed"
  m_loop :: "nat \<Rightarrow> 'f ast \<Rightarrow> 'f parser \<Rightarrow> ('f ast, 'f) parsed"
  m_power :: "'f parser \<Rightarrow> ('f ast, 'f) parsed"
  m_unary :: "'f parser \<Rightarrow> ('f ast, 'f) parsed"
  m_primary :: "'f parser \<Rightarrow> ('f ast, 'f) parsed"
  m_args :: "'f ast list \<Rightarrow> 'f parser \<Rightarrow> ('f ast list, 'f) parsed"

definition ternary_body :: "'f float_ops \<Rightarrow> string \<Rightarrow> 'f methods \<Rightarrow> 'f parser \<Rightarrow> ('f ast, 'f) parsed" where
  "ternary_body F input M p =
     pbind (m_level M 2 p) (\<lambda>c p.
       if ps_lookahead p = TQuestion then
         after F input p (\<lambda>p.
           pbind (m_ternary M p) (\<lambda>t p.
             if ps_lookahead p \<noteq> TColon then Failed (ParseError ExpectedColon (ps_pos p))
             else after F input p (\<lambda>p.
               pbind (m_ternary M p) (\<lambda>e p. Parsed (Ternary c t e) p))))
       else Parsed c p)"

definition level_body :: "'f methods \<Rightarrow> nat \<Rightarrow> 'f parser \<Rightarrow> ('f ast, 'f) parsed" where
  "level_body M level p =
     (if level \<ge> 12 then m_power M p
      else pbind (m_level M (level + 1) p) (\<lambda>node p. m_loop M level node p))"

definition loop_body :: "'f float_ops \<Rightarrow> string \<Rightarrow> 'f methods \<Rightarrow> nat \<Rightarrow> 'f ast \<Rightarrow> 'f parser \<Rightarrow> ('f ast, 'f) parsed" where
  "loop_body F input M level node p =
     (case binary_at level (ps_lookahead p) of
        None \<Rightarrow> Parsed node p
      | Some op \<Rightarrow>
          after F input p (\<lambda>p.
            pbind (m_level M (level + 1) p) (\<lambda>rhs p. m_loop M level (Binary op node rhs) p)))"

definition power_body :: "'f float_ops \<Rightarrow> string \<Rightarrow> 'f methods \<Rightarrow> 'f parser \<Rightarrow> ('f ast, 'f) parsed" where
  "power_body F input M p =
     pbind (m_unary M p) (\<lambda>base p.
       if ps_lookahead p = TStarStar then
         after F input p (\<lambda>p.
           pbind (m_power M p) (\<lambda>ex p. Parsed (Binary Pow base ex) p))
       else Parsed base p)"

definition unary_body :: "'f float_ops \<Rightarrow> string \<Rightarrow> 'f methods \<Rightarrow> 'f parser \<Rightarrow> ('f ast, 'f) parsed" where
  "unary_body F input M p =
     (case unary_at (ps_lookahead p) of
        None \<Rightarrow> m_primary M p
      | Some op \<Rightarrow>
          after F input p (\<lambda>p.
            pbind (m_unary M p) (\<lambda>e p. Parsed (Unary op e) p)))"

definition primary_body :: "'f float_ops \<Rightarrow> string \<Rightarrow> 'f methods \<Rightarrow> 'f parser \<Rightarrow> ('f ast, 'f) parsed" where
  "primary_body F input M p =
     (case ps_lookahead p of
        TInt v \<Rightarrow> after F input p (\<lambda>p. Parsed (Literal (VInt v)) p)
      | TFloat v \<Rightarrow> after F input p (\<lambda>p. Parsed (Literal (VFloat v)) p)
      | TIdent name \<Rightarrow>
          after F input p (\<lambda>p.
            if ps_lookahead p = TLParen then
              after F input p (\<lambda>p.
                pbind (if ps_lookahead p \<noteq> TRParen
                       then pbind (m_ternary M p) (\<lambda>a p. m_args M [a] p)
                       else Parsed [] p) (\<lambda>args p.
                  if ps_lookahead p \<noteq> TRParen then Failed (ParseError ExpectedCloseArgs (ps_pos p))
                  else after F input p (\<lambda>p. Parsed (FnCall name args) p)))
            else Parsed (Variable name) p)
      | TLParen \<Rightarrow>
          after F input p (\<lambda>p.
            pbind (m_ternary M p) (\<lambda>e p.
              if ps_lookahead p \<noteq> TRParen then Failed (ParseError MissingClose (ps_pos p))
              else after F input p (\<lambda>p. Parsed e p)))
      | TEnd \<Rightarrow> Failed (ParseError UnexpectedEnd (ps_pos p))
      | other \<Rightarrow> Failed (ParseError (UnexpectedToken other) (ps_pos p)))"

definition args_body :: "'f float_ops \<Rightarrow> string \<Rightarrow> 'f methods \<Rightarrow> 'f ast list \<Rightarrow> 'f parser \<Rightarrow> ('f ast list, 'f) parsed" where
  "args_body F input M args p =
     (if ps_lookahead p = TComma then
        after F input p (\<lambda>p.
          pbind (m_ternary M p) (\<lambda>a p. m_args M (args @ [a]) p))
      else Parsed args p)"

primrec methods_at :: "nat \<Rightarrow> 'f float_ops \<Rightarrow> string \<Rightarrow> 'f methods" where
  "methods_at 0 F input =
     \<lparr>m_ternary = (\<lambda>_. OutOfFuel), m_level = (\<lambda>_ _. OutOfFuel), m_loop = (\<lambda>_ _ _. OutOfFuel),
      m_power = (\<lambda>_. OutOfFuel), m_unary = (\<lambda>_. OutOfFuel), m_primary = (\<lambda>_. OutOfFuel),
      m_args = (\<lambda>_ _. OutOfFuel)\<rparr>"
| "methods_at (Suc n) F input =
     (let M = methods_at n F input in
      \<lparr>m_ternary = ternary_body F input M, m_level = level_body M, m_loop = loop_body F input M,
       m_power = power_body F input M, m_unary = unary_body F input M, m_primary = primary_body F input M,
       m_args = args_body F input M\<rparr>)"

definition parse_ternary :: "nat \<Rightarrow> 'f float_ops \<Rightarrow> string \<Rightarrow> 'f parser \<Rightarrow> ('f ast, 'f) parsed" where
  "parse_ternary n F input = m_ternary (methods_at n F input)"

definition parse_level :: "nat \<Rightarrow> 'f float_ops \<Rightarrow> string \<Rightarrow> nat \<Rightarrow> 'f parser \<Rightarrow> ('f ast, 'f) parsed" where
  "parse_level n F input = m_level (methods_at n F input)"

definition parse_power :: "nat \<Rightarrow> 'f float_ops \<Rightarrow> string \<Rightarrow> 'f parser \<Rightarrow> ('f ast, 'f) parsed" where
  "parse_power n F input = m_power (methods_at n F input)"

definition parse_unary :: "nat \<Rightarrow> 'f float_ops \<Rightarrow> string \<Rightarrow> 'f parser \<Rightarrow> ('f ast, 'f) parsed" where
  "parse_unary n F input = m_unary (methods_at n F input)"

definition parse_primary :: "nat \<Rightarrow> 'f float_ops \<Rightarrow> string \<Rightarrow> 'f parser \<Rightarrow> ('f ast, 'f) parsed" where
  "parse_primary n F input = m_primary (methods_at n F input)"

text \<open>The levels by the names of the code.\<close>

definition parse_or :: "nat \<Rightarrow> 'f float_ops \<Rightarrow> string \<Rightarrow> 'f parser \<Rightarrow> ('f ast, 'f) parsed" where
  "parse_or n F input = parse_level n F input 2"

definition parse_and :: "nat \<Rightarrow> 'f float_ops \<Rightarrow> string \<Rightarrow> 'f parser \<Rightarrow> ('f ast, 'f) parsed" where
  "parse_and n F input = parse_level n F input 3"

definition parse_bitor :: "nat \<Rightarrow> 'f float_ops \<Rightarrow> string \<Rightarrow> 'f parser \<Rightarrow> ('f ast, 'f) parsed" where
  "parse_bitor n F input = parse_level n F input 4"

definition parse_bitxor :: "nat \<Rightarrow> 'f float_ops \<Rightarrow> string \<Rightarrow> 'f parser \<Rightarrow> ('f ast, 'f) parsed" where
  "parse_bitxor n F input = parse_level n F input 5"

definition parse_bitand :: "nat \<Rightarrow> 'f float_ops \<Rightarrow> string \<Rightarrow> 'f parser \<Rightarrow> ('f ast, 'f) parsed" where
  "parse_bitand n F input = parse_level n F input 6"

definition parse_equality :: "nat \<Rightarrow> 'f float_ops \<Rightarrow> string \<Rightarrow> 'f parser \<Rightarrow> ('f ast, 'f) parsed" where
  "parse_equality n F input = parse_level n F input 7"

definition parse_comparison :: "nat \<Rightarrow> 'f float_ops \<Rightarrow> string \<Rightarrow> 'f parser \<Rightarrow> ('f ast, 'f) parsed" where
  "parse_comparison n F input = parse_level n F input 8"

definition parse_shift :: "nat \<Rightarrow> 'f float_ops \<Rightarrow> string \<Rightarrow> 'f parser \<Rightarrow> ('f ast, 'f) parsed" where
  "parse_shift n F input = parse_level n F input 9"

definition parse_additive :: "nat \<Rightarrow> 'f float_ops \<Rightarrow> string \<Rightarrow> 'f parser \<Rightarrow> ('f ast, 'f) parsed" where
  "parse_additive n F input = parse_level n F input 10"

definition parse_multiplicative :: "nat \<Rightarrow> 'f float_ops \<Rightarrow> string \<Rightarrow> 'f parser \<Rightarrow> ('f ast, 'f) parsed" where
  "parse_multiplicative n F input = parse_level n F input 11"

definition parse_fuel :: "string \<Rightarrow> nat" where
  "parse_fuel input = 20 * (length input + 1) + 20"

definition parse_expression_with :: "nat \<Rightarrow> 'f float_ops \<Rightarrow> string \<Rightarrow> ('f ast, 'f) parsed" where
  "parse_expression_with n F input =
     (case parser_new F input of
        Inl e \<Rightarrow> Failed e
      | Inr p \<Rightarrow>
          pbind (parse_ternary n F input p) (\<lambda>e p.
            if ps_lookahead p \<noteq> TEnd then Failed (ParseError TrailingTokens (ps_pos p)) else Parsed e p))"

definition parse_expression :: "'f float_ops \<Rightarrow> string \<Rightarrow> ('f ast, 'f) parsed" where
  "parse_expression F input = parse_expression_with (parse_fuel input) F input"

end
