(* ===== verification/Formula_Total.thy ===== *)
theory Formula_Total
  imports Formula_Parser
begin

text \<open>
  The formula parser returns on every input: each token the lexer returns moves it forward, each
  method of the parser consumes a token before it recurs at its own level, so fuel linear in the
  length of the input is enough, and more fuel never changes the outcome.
\<close>

section \<open>The lexer moves forward\<close>

lemma skip_while_bounds: "pos \<le> skip_while P input pos" "pos \<le> length input \<Longrightarrow> skip_while P input pos \<le> length input"
proof -
  have "length (takeWhile P (drop pos input)) \<le> length (drop pos input)" by (rule length_takeWhile_le)
  then show "pos \<le> length input \<Longrightarrow> skip_while P input pos \<le> length input" by (simp add: skip_while_def)
qed (simp add: skip_while_def)

lemmas scan_Cons = scan_number.simps [of "c # rest" for c rest, unfolded list.case]

lemma scan_number_bounds:
  assumes "scan_number cs d dot ex = (n, d', dot', ex')"
  shows "n \<le> length cs \<and> (d' \<and> \<not> d \<longrightarrow> 0 < n)"
  using assms
proof (induction cs d dot ex arbitrary: n d' dot' ex' rule: scan_number.induct)
  case (1 cs d dot ex)
  show ?case
  proof (cases cs)
    case Nil
    then show ?thesis using "1.prems" by (simp add: scan_number.simps)
  next
    case (Cons c rest)
    note IH = "1.IH" [OF Cons]
    show ?thesis
    proof (cases "is_digit c")
      case True
      obtain n1 a b c' where e: "scan_number rest True dot ex = (n1, a, b, c')" by (metis prod_cases4)
      show ?thesis using "1.prems" IH(1) [OF True e] True
        by (simp add: scan_Cons Cons e)
    next
      case nd: False
      show ?thesis
      proof (cases "c = CHR ''.'' \<and> \<not> dot \<and> \<not> ex")
        case True
        obtain n1 a b c' where e: "scan_number rest d True ex = (n1, a, b, c')" by (metis prod_cases4)
        show ?thesis using "1.prems" IH(2) [OF nd True e] nd True e
          by (auto simp: scan_Cons Cons)
      next
        case ndot: False
        show ?thesis
        proof (cases "(c = CHR ''e'' \<or> c = CHR ''E'') \<and> \<not> ex \<and> d")
          case False
          then show ?thesis using "1.prems" nd ndot by (auto simp: scan_Cons Cons)
        next
          case True
          show ?thesis
          proof (cases rest)
            case Nil
            then show ?thesis using "1.prems" nd ndot True by (auto simp: scan_Cons Cons)
          next
            case c2: (Cons x xs)
            obtain n1 a b c' where e1: "scan_number xs d dot True = (n1, a, b, c')" by (metis prod_cases4)
            obtain n2 a2 b2 c2' where e2: "scan_number rest d dot True = (n2, a2, b2, c2')" by (metis prod_cases4)
            show ?thesis
              using "1.prems" nd ndot True IH(3) [OF nd ndot True c2, of n1 a b c']
                IH(4) [OF nd ndot True c2, of n2 a2 b2 c2'] e1 e2
              by (auto simp: scan_Cons Cons c2 split: if_splits)
          qed
        qed
      qed
    qed
  qed
qed

lemma lex_number_forward:
  assumes "lex_number F input q = Inr (t, q')" "q < length input"
  shows "q < q' \<and> q' \<le> length input"
proof (cases "index q input = Some (CHR ''0'') \<and>
    (index (q + 1) input = Some (CHR ''x'') \<or> index (q + 1) input = Some (CHR ''X''))")
  case True
  then have "q + 1 < length input" by (auto simp: index_def split: if_splits)
  then show ?thesis
    using assms(1) True skip_while_bounds(1) [of "q + 2" is_hex input] skip_while_bounds(2) [of "q + 2" input is_hex]
    by (auto simp: lex_number_def Let_def split: if_splits option.splits)
next
  case False
  obtain n d dot ex where s: "scan_number (drop q input) False False False = (n, d, dot, ex)" by (metis prod_cases4)
  from assms(1) False s have "d" "q' = q + n"
    by (auto simp: lex_number_def Let_def split: if_splits option.splits)
  then show ?thesis using scan_number_bounds [OF s] assms(2) by auto
qed

lemma next_token_forward:
  assumes "next_token F input q = Inr (t, q')" "q \<le> length input"
  shows "q \<le> q' \<and> q' \<le> length input \<and> (t \<noteq> TEnd \<longrightarrow> q < q')"
proof -
  let ?p = "skip_ws input q"
  have b: "q \<le> ?p" "?p \<le> length input" using skip_while_bounds assms(2) by (auto simp: skip_ws_def)
  show ?thesis
  proof (cases "index ?p input")
    case None
    then show ?thesis using assms(1) b by (simp add: next_token_def)
  next
    case (Some c)
    then have p: "?p < length input" by (simp add: index_def split: if_splits)
    have two: "?p + 2 \<le> length input" if "index (Suc ?p) input = Some x" for x
      using that by (simp add: index_def split: if_splits)
    show ?thesis
    proof (cases "is_digit c \<or> c = CHR ''.''")
      case True
      then show ?thesis using assms(1) Some b lex_number_forward [OF _ p, of F t q'] by (simp add: next_token_def)
    next
      case nd: False
      show ?thesis
      proof (cases "is_alpha c \<or> c = CHR ''_''")
        case True
        then show ?thesis using assms(1) Some b nd p skip_while_bounds(1) [of "Suc ?p" is_ident_char input]
            skip_while_bounds(2) [of "Suc ?p" input is_ident_char]
          by (auto simp: next_token_def lex_ident_def Let_def)
      next
        case False
        then have "q' = ?p + 1 \<or> (q' = ?p + 2 \<and> index (Suc ?p) input \<noteq> None)"
          using assms(1) Some nd by (auto simp: next_token_def Let_def split: if_splits)
        then show ?thesis using b p two by auto
      qed
    qed
  qed
qed

section \<open>Enough fuel\<close>

definition parser_ok :: "string \<Rightarrow> 'f parser \<Rightarrow> bool" where
  "parser_ok input p \<longleftrightarrow> ps_lexer p \<le> length input"

text \<open>An upper bound of the tokens left, the lookahead included.\<close>

definition tokens_left :: "string \<Rightarrow> 'f parser \<Rightarrow> nat" where
  "tokens_left input p = (if ps_lookahead p = TEnd then 0 else Suc (length input - ps_lexer p))"

definition returns :: "string \<Rightarrow> nat \<Rightarrow> ('a, 'f) parsed \<Rightarrow> bool" where
  "returns input m r =
     (case r of Parsed a p \<Rightarrow> parser_ok input p \<and> tokens_left input p < m | Failed _ \<Rightarrow> True | OutOfFuel \<Rightarrow> False)"

lemma returns_simps [simp]:
  "returns input m (Parsed a p) \<longleftrightarrow> parser_ok input p \<and> tokens_left input p < m"
  "returns input m (Failed e)" "\<not> returns input m OutOfFuel"
  by (simp_all add: returns_def)

lemma returns_mono: "returns input m r \<Longrightarrow> m \<le> m' \<Longrightarrow> returns input m' r"
  by (auto simp: returns_def split: parsed.splits)

lemma returns_pbind:
  assumes "returns input m r"
    and "\<And>a p. parser_ok input p \<Longrightarrow> tokens_left input p < m \<Longrightarrow> returns input m' (k a p)"
  shows "returns input m' (pbind r k)"
  using assms by (cases r) (auto simp: pbind_def)

lemma returns_after:
  assumes "parser_ok input p" "ps_lookahead p \<noteq> TEnd"
    and "\<And>p'. parser_ok input p' \<Longrightarrow> tokens_left input p' < tokens_left input p \<Longrightarrow> returns input m (k p')"
  shows "returns input m (after F input p k)"
proof (cases "next_token F input (ps_lexer p)")
  case (Inl e)
  then show ?thesis by (simp add: after_def advance_def parser_at_def)
next
  case (Inr tq)
  obtain t q where t: "tq = (t, q)" by fastforce
  let ?p = "\<lparr>ps_lookahead = t, ps_lexer = q, ps_pos = q\<rparr>"
  from next_token_forward [OF Inr [unfolded t]] assms(1)
  have "q \<le> length input" "t \<noteq> TEnd \<longrightarrow> ps_lexer p < q" by (simp_all add: parser_ok_def)
  then have "parser_ok input ?p" "tokens_left input ?p < tokens_left input p"
    using assms(2) by (auto simp: parser_ok_def tokens_left_def)
  from assms(3) [OF this] show ?thesis by (simp add: after_def advance_def parser_at_def Inr t)
qed

text \<open>The fuel with which each method returns.\<close>

definition ample :: "string \<Rightarrow> nat \<Rightarrow> 'f methods \<Rightarrow> bool" where
  "ample input n M \<longleftrightarrow> (\<forall>p. parser_ok input p \<longrightarrow>
     (20 * tokens_left input p + 17 \<le> n \<longrightarrow> returns input (tokens_left input p) (m_ternary M p)) \<and>
     (\<forall>l. 20 * tokens_left input p + (18 - min l 12) \<le> n \<longrightarrow> returns input (tokens_left input p) (m_level M l p)) \<and>
     (\<forall>l node. 20 * tokens_left input p + 1 \<le> n \<longrightarrow> returns input (Suc (tokens_left input p)) (m_loop M l node p)) \<and>
     (20 * tokens_left input p + 5 \<le> n \<longrightarrow> returns input (tokens_left input p) (m_power M p)) \<and>
     (20 * tokens_left input p + 4 \<le> n \<longrightarrow> returns input (tokens_left input p) (m_unary M p)) \<and>
     (20 * tokens_left input p + 3 \<le> n \<longrightarrow> returns input (tokens_left input p) (m_primary M p)) \<and>
     (\<forall>args. 20 * tokens_left input p + 1 \<le> n \<longrightarrow> returns input (Suc (tokens_left input p)) (m_args M args p)))"

lemma ampleD:
  assumes "ample input n M" "parser_ok input p"
  shows "20 * tokens_left input p + 17 \<le> n \<Longrightarrow> returns input (tokens_left input p) (m_ternary M p)"
    "20 * tokens_left input p + (18 - min l 12) \<le> n \<Longrightarrow> returns input (tokens_left input p) (m_level M l p)"
    "20 * tokens_left input p + 1 \<le> n \<Longrightarrow> returns input (Suc (tokens_left input p)) (m_loop M l node p)"
    "20 * tokens_left input p + 5 \<le> n \<Longrightarrow> returns input (tokens_left input p) (m_power M p)"
    "20 * tokens_left input p + 4 \<le> n \<Longrightarrow> returns input (tokens_left input p) (m_unary M p)"
    "20 * tokens_left input p + 3 \<le> n \<Longrightarrow> returns input (tokens_left input p) (m_primary M p)"
    "20 * tokens_left input p + 1 \<le> n \<Longrightarrow> returns input (Suc (tokens_left input p)) (m_args M args p)"
  using assms unfolding ample_def by blast+

lemma ternary_returns:
  fixes M :: "'f methods"
  assumes M: "ample input n M" and p: "parser_ok input p" "20 * tokens_left input p + 17 \<le> Suc n"
  shows "returns input (tokens_left input p) (ternary_body F input M p)"
  unfolding ternary_body_def
proof (rule returns_pbind [OF ampleD(2) [OF M p(1)]])
  show "20 * tokens_left input p + (18 - min 2 12) \<le> n" using p(2) by simp
  fix c and p1 :: "'f parser" assume p1: "parser_ok input p1" "tokens_left input p1 < tokens_left input p"
  have sub: "returns input (tokens_left input q) (m_ternary M q)"
    if "parser_ok input q" "tokens_left input q < tokens_left input p" for q :: "'f parser"
    using ampleD(1) [OF M that(1)] that(2) p(2) by simp
  have else_part: "returns input (tokens_left input p)
      (pbind (m_ternary M q) (\<lambda>t q. if ps_lookahead q \<noteq> TColon then Failed (ParseError ExpectedColon (ps_pos q))
         else after F input q (\<lambda>q. pbind (m_ternary M q) (\<lambda>e q. Parsed (Ternary c t e) q))))"
    if q: "parser_ok input q" "tokens_left input q < tokens_left input p1" for q :: "'f parser"
  proof (rule returns_pbind [OF sub])
    show "parser_ok input q" "tokens_left input q < tokens_left input p" using q p1 by simp_all
    fix t and r :: "'f parser" assume r: "parser_ok input r" "tokens_left input r < tokens_left input q"
    show "returns input (tokens_left input p) (if ps_lookahead r \<noteq> TColon then Failed (ParseError ExpectedColon (ps_pos r))
         else after F input r (\<lambda>q. pbind (m_ternary M q) (\<lambda>e q. Parsed (Ternary c t e) q)))"
      using r q p1 by (auto intro!: returns_after returns_pbind [OF sub])
  qed
  show "returns input (tokens_left input p) (if ps_lookahead p1 = TQuestion then
         after F input p1 (\<lambda>p. pbind (m_ternary M p) (\<lambda>t p.
             if ps_lookahead p \<noteq> TColon then Failed (ParseError ExpectedColon (ps_pos p))
             else after F input p (\<lambda>p. pbind (m_ternary M p) (\<lambda>e p. Parsed (Ternary c t e) p))))
       else Parsed c p1)"
    using p1 else_part by (auto intro!: returns_after)
qed

lemma level_returns:
  fixes M :: "'f methods"
  assumes M: "ample input n M" and p: "parser_ok input p" "20 * tokens_left input p + (18 - min l 12) \<le> Suc n"
  shows "returns input (tokens_left input p) (level_body M l p)"
proof (cases "12 \<le> l")
  case True
  then show ?thesis using ampleD(4) [OF M p(1)] p(2) by (simp add: level_body_def)
next
  case False
  have "returns input (tokens_left input p) (pbind (m_level M (l + 1) p) (\<lambda>node p. m_loop M l node p))"
  proof (rule returns_pbind [OF ampleD(2) [OF M p(1)]])
    show "20 * tokens_left input p + (18 - min (l + 1) 12) \<le> n" using p(2) False by auto
    fix node and p1 :: "'f parser" assume p1: "parser_ok input p1" "tokens_left input p1 < tokens_left input p"
    show "returns input (tokens_left input p) (m_loop M l node p1)"
      by (rule returns_mono [OF ampleD(3) [OF M p1(1)]]) (use p p1 in auto)
  qed
  then show ?thesis using False by (simp add: level_body_def)
qed

lemma loop_returns:
  fixes M :: "'f methods"
  assumes M: "ample input n M" and p: "parser_ok input p" "20 * tokens_left input p + 1 \<le> Suc n"
  shows "returns input (Suc (tokens_left input p)) (loop_body F input M l node p)"
proof (cases "binary_at l (ps_lookahead p)")
  case None
  then show ?thesis using p by (simp add: loop_body_def)
next
  case (Some op)
  then have "ps_lookahead p \<noteq> TEnd" by (auto simp: binary_at_def split: if_splits)
  have "returns input (Suc (tokens_left input p)) (pbind (m_level M (l + 1) q) (\<lambda>rhs. m_loop M l (Binary op node rhs)))"
    if q: "parser_ok input q" "tokens_left input q < tokens_left input p" for q :: "'f parser"
  proof (rule returns_pbind [OF ampleD(2) [OF M q(1)]])
    show "20 * tokens_left input q + (18 - min (l + 1) 12) \<le> n" using p q by linarith
    fix rhs and r :: "'f parser" assume r: "parser_ok input r" "tokens_left input r < tokens_left input q"
    show "returns input (Suc (tokens_left input p)) (m_loop M l (Binary op node rhs) r)"
      by (rule returns_mono [OF ampleD(3) [OF M r(1)]]) (use p q r in auto)
  qed
  then show ?thesis
    unfolding loop_body_def Some option.case
    by (intro returns_after [OF p(1) \<open>ps_lookahead p \<noteq> TEnd\<close>]) blast
qed

lemma power_returns:
  fixes M :: "'f methods"
  assumes M: "ample input n M" and p: "parser_ok input p" "20 * tokens_left input p + 5 \<le> Suc n"
  shows "returns input (tokens_left input p) (power_body F input M p)"
  unfolding power_body_def
proof (rule returns_pbind [OF ampleD(5) [OF M p(1)]])
  show "20 * tokens_left input p + 4 \<le> n" using p by simp
  fix b and p1 :: "'f parser" assume p1: "parser_ok input p1" "tokens_left input p1 < tokens_left input p"
  have "returns input (tokens_left input p) (pbind (m_power M q) (\<lambda>ex p. Parsed (Binary Pow b ex) p))"
    if q: "parser_ok input q" "tokens_left input q < tokens_left input p1" for q :: "'f parser"
    by (rule returns_pbind [OF ampleD(4) [OF M q(1)]]) (use p p1 q in auto)
  then show "returns input (tokens_left input p) (if ps_lookahead p1 = TStarStar then
      after F input p1 (\<lambda>p. pbind (m_power M p) (\<lambda>ex p. Parsed (Binary Pow b ex) p)) else Parsed b p1)"
    using p1 by (auto intro!: returns_after)
qed

lemma unary_returns:
  fixes M :: "'f methods"
  assumes M: "ample input n M" and p: "parser_ok input p" "20 * tokens_left input p + 4 \<le> Suc n"
  shows "returns input (tokens_left input p) (unary_body F input M p)"
proof (cases "unary_at (ps_lookahead p)")
  case None
  then show ?thesis using ampleD(6) [OF M p(1)] p by (simp add: unary_body_def)
next
  case (Some op)
  then have "ps_lookahead p \<noteq> TEnd" by (auto simp: unary_at_def)
  have "returns input (tokens_left input p) (pbind (m_unary M q) (\<lambda>e p. Parsed (Unary op e) p))"
    if q: "parser_ok input q" "tokens_left input q < tokens_left input p" for q :: "'f parser"
    by (rule returns_pbind [OF ampleD(5) [OF M q(1)]]) (use p q in auto)
  then show ?thesis
    unfolding unary_body_def Some option.case
    by (intro returns_after [OF p(1) \<open>ps_lookahead p \<noteq> TEnd\<close>]) blast
qed

lemma args_returns:
  fixes M :: "'f methods"
  assumes M: "ample input n M" and p: "parser_ok input p" "20 * tokens_left input p + 1 \<le> Suc n"
  shows "returns input (Suc (tokens_left input p)) (args_body F input M args p)"
proof (cases "ps_lookahead p = TComma")
  case True
  have "returns input (Suc (tokens_left input p)) (pbind (m_ternary M q) (\<lambda>a. m_args M (args @ [a])))"
    if q: "parser_ok input q" "tokens_left input q < tokens_left input p" for q :: "'f parser"
  proof (rule returns_pbind [OF ampleD(1) [OF M q(1)]])
    show "20 * tokens_left input q + 17 \<le> n" using p q by linarith
    fix a and r :: "'f parser" assume r: "parser_ok input r" "tokens_left input r < tokens_left input q"
    show "returns input (Suc (tokens_left input p)) (m_args M (args @ [a]) r)"
      by (rule returns_mono [OF ampleD(7) [OF M r(1)]]) (use p q r in auto)
  qed
  then show ?thesis using True p by (auto simp: args_body_def intro!: returns_after)
qed (use p in \<open>simp add: args_body_def\<close>)

lemma primary_call_returns:
  fixes M :: "'f methods"
  assumes M: "ample input n M" and q: "parser_ok input q" "tokens_left input q < m" and n: "20 * m + 3 \<le> Suc n"
  shows "returns input m (pbind (if ps_lookahead q \<noteq> TRParen
       then pbind (m_ternary M q) (\<lambda>a. m_args M [a]) else Parsed [] q) (\<lambda>args p.
         if ps_lookahead p \<noteq> TRParen then Failed (ParseError ExpectedCloseArgs (ps_pos p))
         else after F input p (\<lambda>p. Parsed (FnCall name args) p)))"
proof (rule returns_pbind)
  have "returns input m (pbind (m_ternary M q) (\<lambda>a. m_args M [a]))"
  proof (rule returns_pbind [OF ampleD(1) [OF M q(1)]])
    show "20 * tokens_left input q + 17 \<le> n" using q n by linarith
    fix a and r :: "'f parser" assume r: "parser_ok input r" "tokens_left input r < tokens_left input q"
    show "returns input m (m_args M [a] r)"
      by (rule returns_mono [OF ampleD(7) [OF M r(1)]]) (use q n r in auto)
  qed
  then show "returns input m (if ps_lookahead q \<noteq> TRParen
       then pbind (m_ternary M q) (\<lambda>a. m_args M [a]) else Parsed [] q)" using q by simp
qed (auto intro!: returns_after)

lemma primary_returns:
  fixes M :: "'f methods"
  assumes M: "ample input n M" and p: "parser_ok input p" "20 * tokens_left input p + 3 \<le> Suc n"
  shows "returns input (tokens_left input p) (primary_body F input M p)"
proof -
  have paren: "returns input (tokens_left input p) (pbind (m_ternary M q) (\<lambda>e p.
      if ps_lookahead p \<noteq> TRParen then Failed (ParseError MissingClose (ps_pos p)) else after F input p (\<lambda>p. Parsed e p)))"
    if q: "parser_ok input q" "tokens_left input q < tokens_left input p" for q :: "'f parser"
    by (rule returns_pbind [OF ampleD(1) [OF M q(1)]]) (use p q in \<open>auto intro!: returns_after\<close>)
  show ?thesis
    using p paren primary_call_returns [OF M _ _ p(2)]
    by (auto simp: primary_body_def intro!: returns_after split: token.splits)
qed

lemma methods_ample: "ample input n (methods_at n F input)"
proof (induction n)
  case (Suc n)
  show ?case
    unfolding ample_def methods_at.simps Let_def
    by (simp add: ternary_returns [OF Suc] level_returns [OF Suc] loop_returns [OF Suc, simplified] power_returns [OF Suc]
        unary_returns [OF Suc] primary_returns [OF Suc] args_returns [OF Suc, simplified])
qed (simp add: ample_def)

section \<open>More fuel changes nothing\<close>

definition extends :: "('a, 'f) parsed \<Rightarrow> ('a, 'f) parsed \<Rightarrow> bool" where
  "extends r r' \<longleftrightarrow> r = OutOfFuel \<or> r' = r"

lemma extends_refl [simp, intro]: "extends r r"
  by (simp add: extends_def)

lemma extends_trans: "extends a b \<Longrightarrow> extends b c \<Longrightarrow> extends a c"
  by (auto simp: extends_def)

lemma extends_pbind:
  "extends r r' \<Longrightarrow> (\<And>a p. extends (k a p) (k' a p)) \<Longrightarrow> extends (pbind r k) (pbind r' k')"
  by (cases r) (auto simp: extends_def pbind_def)

lemma extends_after: "(\<And>p. extends (k p) (k' p)) \<Longrightarrow> extends (after F input p k) (after F input p k')"
  by (simp add: after_def split: sum.split)

definition methods_extend :: "'f methods \<Rightarrow> 'f methods \<Rightarrow> bool" where
  "methods_extend M N \<longleftrightarrow>
     (\<forall>p. extends (m_ternary M p) (m_ternary N p)) \<and> (\<forall>l p. extends (m_level M l p) (m_level N l p)) \<and>
     (\<forall>l e p. extends (m_loop M l e p) (m_loop N l e p)) \<and> (\<forall>p. extends (m_power M p) (m_power N p)) \<and>
     (\<forall>p. extends (m_unary M p) (m_unary N p)) \<and> (\<forall>p. extends (m_primary M p) (m_primary N p)) \<and>
     (\<forall>as p. extends (m_args M as p) (m_args N as p))"

lemma bodies_extend:
  assumes "methods_extend M N"
  shows "extends (ternary_body F input M p) (ternary_body F input N p)"
    "extends (level_body M l p) (level_body N l p)"
    "extends (loop_body F input M l e p) (loop_body F input N l e p)"
    "extends (power_body F input M p) (power_body F input N p)"
    "extends (unary_body F input M p) (unary_body F input N p)"
    "extends (primary_body F input M p) (primary_body F input N p)"
    "extends (args_body F input M as p) (args_body F input N as p)"
proof -
  note m = assms [unfolded methods_extend_def]
  show "extends (ternary_body F input M p) (ternary_body F input N p)"
    unfolding ternary_body_def using m by (intro extends_pbind) (auto intro!: extends_pbind extends_after)
  show "extends (level_body M l p) (level_body N l p)"
    unfolding level_body_def using m by (auto intro!: extends_pbind)
  show "extends (loop_body F input M l e p) (loop_body F input N l e p)"
    unfolding loop_body_def using m by (auto intro!: extends_pbind extends_after split: option.split)
  show "extends (power_body F input M p) (power_body F input N p)"
    unfolding power_body_def using m by (intro extends_pbind) (auto intro!: extends_pbind extends_after)
  show "extends (unary_body F input M p) (unary_body F input N p)"
    unfolding unary_body_def using m by (auto intro!: extends_pbind extends_after split: option.split)
  show "extends (primary_body F input M p) (primary_body F input N p)"
    unfolding primary_body_def using m by (auto intro!: extends_pbind extends_after split: token.split)
  show "extends (args_body F input M as p) (args_body F input N as p)"
    unfolding args_body_def using m by (auto intro!: extends_pbind extends_after)
qed

lemma methods_extend_step:
  "methods_extend M N \<Longrightarrow>
   methods_extend
     \<lparr>m_ternary = ternary_body F input M, m_level = level_body M, m_loop = loop_body F input M,
      m_power = power_body F input M, m_unary = unary_body F input M, m_primary = primary_body F input M,
      m_args = args_body F input M\<rparr>
     \<lparr>m_ternary = ternary_body F input N, m_level = level_body N, m_loop = loop_body F input N,
      m_power = power_body F input N, m_unary = unary_body F input N, m_primary = primary_body F input N,
      m_args = args_body F input N\<rparr>"
  by (subst methods_extend_def) (simp add: bodies_extend)

lemma methods_at_extend: "methods_extend (methods_at n F input) (methods_at (Suc n) F input)"
proof (induction n)
  case 0
  show ?case by (simp add: methods_extend_def extends_def)
next
  case (Suc n)
  from methods_extend_step [OF this] show ?case by (simp add: Let_def)
qed

lemma parse_ternary_extend:
  assumes "n \<le> k" shows "extends (parse_ternary n F input p) (parse_ternary k F input p)"
  using assms
proof (induction k rule: dec_induct)
  case (step k)
  from methods_at_extend [of k F input]
  have "extends (parse_ternary k F input p) (parse_ternary (Suc k) F input p)"
    unfolding methods_extend_def parse_ternary_def by blast
  with step.IH show ?case by (rule extends_trans)
qed simp

section \<open>Every formula is parsed or refused\<close>

lemma parser_new_ok: "parser_new F input = Inr p \<Longrightarrow> parser_ok input p"
  using next_token_forward [of F input 0]
  by (auto simp: parser_new_def parser_at_def parser_ok_def split: sum.splits)

lemma parse_ternary_returns:
  assumes "parser_ok input p" "parse_fuel input \<le> n"
  shows "parse_ternary n F input p \<noteq> OutOfFuel"
proof -
  have "tokens_left input p \<le> length input + 1" by (simp add: tokens_left_def)
  then have "20 * tokens_left input p + 17 \<le> n" using assms(2) by (simp add: parse_fuel_def)
  from ampleD(1) [OF methods_ample assms(1) this, of F] show ?thesis
    by (auto simp: parse_ternary_def returns_def split: parsed.splits)
qed

text \<open>
  C13. Parsing always terminates: for every input the parser returns a syntax tree or an error with
  fuel linear in the length of the input, and the outcome is the same with any larger amount.
\<close>
theorem parse_expression_terminates:
  "parse_expression F input \<noteq> OutOfFuel \<and>
   (\<forall>n. parse_fuel input \<le> n \<longrightarrow> parse_expression_with n F input = parse_expression F input)"
proof (cases "parser_new F input")
  case (Inl e)
  then show ?thesis by (simp add: parse_expression_def parse_expression_with_def)
next
  case (Inr p)
  let ?r = "parse_ternary (parse_fuel input) F input p"
  have "?r \<noteq> OutOfFuel" by (rule parse_ternary_returns [OF parser_new_ok [OF Inr]]) simp
  moreover have "parse_ternary n F input p = ?r" if "parse_fuel input \<le> n" for n
    using parse_ternary_extend [OF that, of F input p] \<open>?r \<noteq> OutOfFuel\<close> by (simp add: extends_def)
  ultimately show ?thesis
    by (cases ?r) (simp_all add: parse_expression_def parse_expression_with_def Inr pbind_def)
qed

lemma parse_expression_terminates_witness:
  "parse_expression_with 1000 whole_floats ''x'' = parse_expression whole_floats ''x''"
  using parse_expression_terminates [of whole_floats "''x''"] by (simp add: parse_fuel_def)

text \<open>The offset the parser reports errors at is the end of its lookahead token, not its start.\<close>

lemma parser_pos_is_end: "parser_at F input q = Inr p \<Longrightarrow> ps_pos p = ps_lexer p"
  by (auto simp: parser_at_def split: sum.splits)

lemma lookahead_offset_past_token:
  "parser_new whole_floats ''12'' = Inr \<lparr>ps_lookahead = TInt 12, ps_lexer = 2, ps_pos = 2\<rparr>"
  by (simp add: parser_new_def parser_at_def next_token_def skip_ws_def skip_while_def index_def is_ws_def is_digit_def
      code_def lex_number_def scan_number.simps parse_i64_def digits_value_def hex_digit_def)

end
