(* ===== verification/Formula_Grammar.thy ===== *)
theory Formula_Grammar
  imports Formula_Total
begin

text \<open>
  The grammar of GenApi formulas as the comment above the parser states it, and that the parser
  implements it. The grammar is a relation between token lists: \<open>g_level l ts e ts'\<close> says that at
  precedence level \<open>l\<close> the tokens \<open>ts\<close> begin with an expression whose tree is \<open>e\<close> and that
  \<open>ts'\<close> is what follows it. Levels 2 to 11 are the binary operators from \<open>||\<close> to \<open>*\<close>, left
  associative; a level has to end at a token that is none of its operators.
\<close>

section \<open>The grammar\<close>

text \<open>
  The binary operators with their priority, as the comment above the parser of
  \<^verbatim>\<open>crates/viva-genapi/src/swissknife.rs\<close> tabulates them (a higher number binds tighter), and the
  prefix operators. They are written down here on their own and not taken from the parser's code.
\<close>

definition operators :: "('f token \<times> nat \<times> binary_op) list" where
  "operators =
     [(TPipePipe, 2, Or), (TAmpAmp, 3, And), (TPipe, 4, BitOr), (TCaret, 5, BitXor), (TAmp, 6, BitAnd),
      (TEq, 7, Eq), (TNe, 7, Ne),
      (TLt, 8, Lt), (TLe, 8, Le), (TGt, 8, Gt), (TGe, 8, Ge),
      (TLtLt, 9, Shl), (TGtGt, 9, Shr),
      (TPlus, 10, Add), (TMinus, 10, Sub),
      (TStar, 11, Mul), (TSlash, 11, Div), (TPercent, 11, Mod)]"

definition prefix_operators :: "('f token \<times> unary_op) list" where
  "prefix_operators = [(TPlus, Plus), (TMinus, Minus), (TBang, Not), (TTilde, BitNot)]"

lemma binary_at_operators: "binary_at l t = Some op \<longleftrightarrow> (t, l, op) \<in> set operators"
  unfolding binary_at_def operators_def by (cases t) auto

lemma unary_at_operators: "unary_at t = Some op \<longleftrightarrow> (t, op) \<in> set prefix_operators"
  unfolding unary_at_def prefix_operators_def by (cases t) auto

lemma no_binary_at: "binary_at l t = None \<longleftrightarrow> (\<forall>op. (t, l, op) \<notin> set operators)"
  by (simp add: not_Some_eq [symmetric] binary_at_operators)

lemma no_unary_at: "unary_at t = None \<longleftrightarrow> (\<forall>op. (t, op) \<notin> set prefix_operators)"
  by (simp add: not_Some_eq [symmetric] unary_at_operators)

inductive g_ternary :: "'f token list \<Rightarrow> 'f ast \<Rightarrow> 'f token list \<Rightarrow> bool"
  and g_level :: "nat \<Rightarrow> 'f token list \<Rightarrow> 'f ast \<Rightarrow> 'f token list \<Rightarrow> bool"
  and g_loop :: "nat \<Rightarrow> 'f ast \<Rightarrow> 'f token list \<Rightarrow> 'f ast \<Rightarrow> 'f token list \<Rightarrow> bool"
  and g_power :: "'f token list \<Rightarrow> 'f ast \<Rightarrow> 'f token list \<Rightarrow> bool"
  and g_unary :: "'f token list \<Rightarrow> 'f ast \<Rightarrow> 'f token list \<Rightarrow> bool"
  and g_primary :: "'f token list \<Rightarrow> 'f ast \<Rightarrow> 'f token list \<Rightarrow> bool"
  and g_args :: "'f ast list \<Rightarrow> 'f token list \<Rightarrow> 'f ast list \<Rightarrow> 'f token list \<Rightarrow> bool"
where
  plain: "g_level 2 ts e (t # ts') \<Longrightarrow> t \<noteq> TQuestion \<Longrightarrow> g_ternary ts e (t # ts')"
| conditional: "g_level 2 ts c (TQuestion # ts1) \<Longrightarrow> g_ternary ts1 a (TColon # ts2) \<Longrightarrow> g_ternary ts2 b ts3 \<Longrightarrow>
    g_ternary ts (Ternary c a b) ts3"
| tightest: "12 \<le> l \<Longrightarrow> g_power ts e ts' \<Longrightarrow> g_level l ts e ts'"
| chain: "l < 12 \<Longrightarrow> g_level (l + 1) ts a ts1 \<Longrightarrow> g_loop l a ts1 e ts2 \<Longrightarrow> g_level l ts e ts2"
| chain_end: "\<forall>op. (t, l, op) \<notin> set operators \<Longrightarrow> g_loop l a (t # ts) a (t # ts)"
| chain_op: "(t, l, op) \<in> set operators \<Longrightarrow> g_level (l + 1) ts b ts1 \<Longrightarrow> g_loop l (Binary op a b) ts1 e ts2 \<Longrightarrow>
    g_loop l a (t # ts) e ts2"
| base: "g_unary ts e (t # ts') \<Longrightarrow> t \<noteq> TStarStar \<Longrightarrow> g_power ts e (t # ts')"
| power: "g_unary ts b (TStarStar # ts1) \<Longrightarrow> g_power ts1 x ts2 \<Longrightarrow> g_power ts (Binary Pow b x) ts2"
| primary: "\<forall>op. (t, op) \<notin> set prefix_operators \<Longrightarrow> g_primary (t # ts) e ts' \<Longrightarrow> g_unary (t # ts) e ts'"
| unary: "(t, op) \<in> set prefix_operators \<Longrightarrow> g_unary ts e ts' \<Longrightarrow> g_unary (t # ts) (Unary op e) ts'"
| int_literal: "g_primary (TInt v # t # ts) (Literal (VInt v)) (t # ts)"
| float_literal: "g_primary (TFloat v # t # ts) (Literal (VFloat v)) (t # ts)"
| variable: "t \<noteq> TLParen \<Longrightarrow> g_primary (TIdent x # t # ts) (Variable x) (t # ts)"
| call_none: "g_primary (TIdent f # TLParen # TRParen # t # ts) (FnCall f []) (t # ts)"
| call: "t \<noteq> TRParen \<Longrightarrow> g_ternary (t # ts) a ts1 \<Longrightarrow> g_args [a] ts1 as (TRParen # t' # ts2) \<Longrightarrow>
    g_primary (TIdent f # TLParen # t # ts) (FnCall f as) (t' # ts2)"
| paren: "g_ternary ts e (TRParen # t # ts') \<Longrightarrow> g_primary (TLParen # ts) e (t # ts')"
| args_end: "t \<noteq> TComma \<Longrightarrow> g_args as (t # ts) as (t # ts)"
| args_more: "g_ternary ts a ts1 \<Longrightarrow> g_args (as @ [a]) ts1 as' ts2 \<Longrightarrow> g_args as (TComma # ts) as' ts2"

text \<open>The tokens the lexer returns from a position on, and a parser in front of them.\<close>

fun stream :: "'f float_ops \<Rightarrow> string \<Rightarrow> nat \<Rightarrow> 'f token list \<Rightarrow> bool" where
  "stream F input q [] \<longleftrightarrow> True"
| "stream F input q (t # ts) \<longleftrightarrow>
     (case next_token F input q of Inl e \<Rightarrow> False | Inr (t', q') \<Rightarrow> t' = t \<and> stream F input q' ts)"

fun ahead :: "'f float_ops \<Rightarrow> string \<Rightarrow> 'f parser \<Rightarrow> 'f token list \<Rightarrow> bool" where
  "ahead F input p [] \<longleftrightarrow> False"
| "ahead F input p (t # ts) \<longleftrightarrow> ps_lookahead p = t \<and> stream F input (ps_lexer p) ts"

lemma aheadE: "ahead F input p ts \<Longrightarrow> \<exists>rest. ts = ps_lookahead p # rest"
  by (cases ts) auto

lemma after_ahead:
  assumes "ahead F input p (t # t' # ts)"
  obtains p' where "ahead F input p' (t' # ts)" "\<And>k. after F input p k = k p'"
proof (cases "next_token F input (ps_lexer p)")
  case (Inl e)
  then show ?thesis using assms by simp
next
  case (Inr tq)
  then show ?thesis using assms that [of "\<lparr>ps_lookahead = fst tq, ps_lexer = snd tq, ps_pos = snd tq\<rparr>"]
    by (auto simp: after_def advance_def parser_at_def split: prod.splits)
qed

lemma after_eq_Parsed:
  assumes "after F input p k = Parsed e p'"
  obtains p1 where "k p1 = Parsed e p'" "\<And>ts. ahead F input p1 ts \<Longrightarrow> ahead F input p (ps_lookahead p # ts)"
proof (cases "next_token F input (ps_lexer p)")
  case (Inl e)
  then show ?thesis using assms by (simp add: after_def advance_def parser_at_def)
next
  case (Inr tq)
  let ?p = "\<lparr>ps_lookahead = fst tq, ps_lexer = snd tq, ps_pos = snd tq\<rparr>"
  have "k ?p = Parsed e p'" using assms Inr by (simp add: after_def advance_def parser_at_def case_prod_beta)
  moreover have "ahead F input p (ps_lookahead p # ts)" if "ahead F input ?p ts" for ts
    using that Inr by (cases ts) (auto simp: case_prod_beta)
  ultimately show ?thesis by (rule that)
qed

lemma pbind_eq_Parsed:
  "pbind r k = Parsed b p' \<longleftrightarrow> (\<exists>a p. r = Parsed a p \<and> k a p = Parsed b p')"
  by (cases r) (auto simp: pbind_def)

section \<open>The parser accepts what the grammar derives\<close>

text \<open>A method accepts: given enough fuel it returns the tree and stops in front of the rest.\<close>

definition accepts :: "'f float_ops \<Rightarrow> string \<Rightarrow> ('f methods \<Rightarrow> 'f parser \<Rightarrow> ('a, 'f) parsed) \<Rightarrow>
    'f token list \<Rightarrow> 'a \<Rightarrow> 'f token list \<Rightarrow> bool" where
  "accepts F input m ts e ts' \<longleftrightarrow>
     (\<forall>p. ahead F input p ts \<longrightarrow>
        (\<exists>p'. ahead F input p' ts' \<and> (\<exists>n. \<forall>k \<ge> n. m (methods_at k F input) p = Parsed e p')))"

lemma acceptsD:
  assumes "accepts F input m ts e ts'" "ahead F input p ts"
  shows "\<exists>p' n. ahead F input p' ts' \<and> (\<forall>k \<ge> n. m (methods_at k F input) p = Parsed e p')"
  using assms unfolding accepts_def by blast

lemma accepts_body:
  assumes "\<And>k. m (methods_at (Suc k) F input) = b (methods_at k F input)"
    and "\<And>p. ahead F input p ts \<Longrightarrow>
      \<exists>p' n. ahead F input p' ts' \<and> (\<forall>k \<ge> n. b (methods_at k F input) p = Parsed e p')"
  shows "accepts F input m ts e ts'"
  unfolding accepts_def
proof (intro allI impI)
  fix p assume "ahead F input p ts"
  from assms(2) [OF this] obtain p' n where r: "ahead F input p' ts'" "\<forall>k \<ge> n. b (methods_at k F input) p = Parsed e p'"
    by blast
  have "m (methods_at k F input) p = Parsed e p'" if "Suc n \<le> k" for k
    using that r(2) assms(1) [of "k - 1"] by (cases k) auto
  with r(1) show "\<exists>p'. ahead F input p' ts' \<and> (\<exists>n. \<forall>k \<ge> n. m (methods_at k F input) p = Parsed e p')" by blast
qed

lemmas method_eqs = methods_at.simps(2) Let_def methods.simps

lemma accepts_ternary:
  assumes "accepts F input (\<lambda>M. m_level M 2) ts e (t # ts')" "t \<noteq> TQuestion"
  shows "accepts F input m_ternary ts e (t # ts')"
proof (rule accepts_body [of _ _ _ "ternary_body F input"])
  fix p assume "ahead F input p ts"
  from acceptsD [OF assms(1) this] obtain p' n where p': "ahead F input p' (t # ts')"
    "\<forall>k \<ge> n. m_level (methods_at k F input) 2 p = Parsed e p'" by blast
  then have "\<forall>k \<ge> n. ternary_body F input (methods_at k F input) p = Parsed e p'"
    using assms(2) by (auto simp: ternary_body_def pbind_def)
  with p'(1) show "\<exists>p' n. ahead F input p' (t # ts') \<and>
      (\<forall>k \<ge> n. ternary_body F input (methods_at k F input) p = Parsed e p')" by blast
qed (simp add: method_eqs)

text \<open>A token is consumed and a method applied to the rest.\<close>

lemma accepts_after:
  assumes "accepts F input m ts e ts'" "ahead F input p (t # ts)" "ts \<noteq> []"
  shows "\<exists>q p' n. (\<forall>k :: 'f parser \<Rightarrow> ('b, 'f) parsed. after F input p k = k q) \<and> ahead F input q ts \<and>
    ahead F input p' ts' \<and> (\<forall>k \<ge> n. m (methods_at k F input) q = Parsed e p')"
proof -
  obtain t' rest where ts: "ts = t' # rest" using assms(3) by (cases ts) auto
  obtain q where q: "ahead F input q ts" "\<And>k :: 'f parser \<Rightarrow> ('b, 'f) parsed. after F input p k = k q"
    using assms(2) unfolding ts by (rule after_ahead) blast
  from acceptsD [OF assms(1) q(1)] show ?thesis using q by blast
qed

lemma accepts_conditional:
  assumes "accepts F input (\<lambda>M. m_level M 2) ts c (TQuestion # ts1)" "accepts F input m_ternary ts1 a (TColon # ts2)"
    "accepts F input m_ternary ts2 b ts3" "ts1 \<noteq> []" "ts2 \<noteq> []"
  shows "accepts F input m_ternary ts (Ternary c a b) ts3"
proof (rule accepts_body [of _ _ _ "ternary_body F input"])
  fix p :: "'a parser" assume "ahead F input p ts"
  from acceptsD [OF assms(1) this] obtain p1 n1 where p1: "ahead F input p1 (TQuestion # ts1)"
    "\<forall>k \<ge> n1. m_level (methods_at k F input) 2 p = Parsed c p1" by blast
  obtain q1 p2 n2 where p2: "\<forall>k :: 'a parser \<Rightarrow> ('a ast, 'a) parsed. after F input p1 k = k q1"
    "ahead F input p2 (TColon # ts2)" "\<forall>k \<ge> n2. m_ternary (methods_at k F input) q1 = Parsed a p2"
    using accepts_after [OF assms(2) p1(1) assms(4)] by blast
  obtain q2 p3 n3 where p3: "\<forall>k :: 'a parser \<Rightarrow> ('a ast, 'a) parsed. after F input p2 k = k q2"
    "ahead F input p3 ts3" "\<forall>k \<ge> n3. m_ternary (methods_at k F input) q2 = Parsed b p3"
    using accepts_after [OF assms(3) p2(2) assms(5)] by blast
  have "ternary_body F input (methods_at k F input) p = Parsed (Ternary c a b) p3" if "max n1 (max n2 n3) \<le> k" for k
    using that p1 p2 p3 by (simp add: ternary_body_def pbind_def)
  with p3(2) show "\<exists>p' n. ahead F input p' ts3 \<and>
      (\<forall>k \<ge> n. ternary_body F input (methods_at k F input) p = Parsed (Ternary c a b) p')" by blast
qed (simp add: method_eqs)

lemma accepts_level_power:
  assumes "12 \<le> l" "accepts F input m_power ts e ts'"
  shows "accepts F input (\<lambda>M. m_level M l) ts e ts'"
proof (rule accepts_body [of _ _ _ "\<lambda>M. level_body M l"])
  fix p assume "ahead F input p ts"
  from acceptsD [OF assms(2) this] assms(1)
  show "\<exists>p' n. ahead F input p' ts' \<and> (\<forall>k \<ge> n. level_body (methods_at k F input) l p = Parsed e p')"
    by (simp add: level_body_def)
qed (simp add: method_eqs)

lemma accepts_level_chain:
  assumes "l < 12" "accepts F input (\<lambda>M. m_level M (l + 1)) ts a ts1" "accepts F input (\<lambda>M. m_loop M l a) ts1 e ts2"
  shows "accepts F input (\<lambda>M. m_level M l) ts e ts2"
proof (rule accepts_body [of _ _ _ "\<lambda>M. level_body M l"])
  fix p assume "ahead F input p ts"
  from acceptsD [OF assms(2) this] obtain p1 n1 where p1: "ahead F input p1 ts1"
    "\<forall>k \<ge> n1. m_level (methods_at k F input) (l + 1) p = Parsed a p1" by blast
  from acceptsD [OF assms(3) p1(1)] obtain p2 n2 where p2: "ahead F input p2 ts2"
    "\<forall>k \<ge> n2. m_loop (methods_at k F input) l a p1 = Parsed e p2" by blast
  have "level_body (methods_at k F input) l p = Parsed e p2" if "max n1 n2 \<le> k" for k
    using that p1 p2 assms(1) by (simp add: level_body_def pbind_def)
  with p2(1) show "\<exists>p' n. ahead F input p' ts2 \<and> (\<forall>k \<ge> n. level_body (methods_at k F input) l p = Parsed e p')"
    by blast
qed (simp add: method_eqs)

lemma accepts_loop_end:
  assumes "\<forall>op. (t, l, op) \<notin> set operators" shows "accepts F input (\<lambda>M. m_loop M l a) (t # ts) a (t # ts)"
  by (rule accepts_body [of _ _ _ "\<lambda>M. loop_body F input M l a"]) (use assms in \<open>auto simp: method_eqs loop_body_def no_binary_at [symmetric]\<close>)

lemma accepts_loop_op:
  assumes "(t, l, op) \<in> set operators" "accepts F input (\<lambda>M. m_level M (l + 1)) ts b ts1"
    "accepts F input (\<lambda>M. m_loop M l (Binary op a b)) ts1 e ts2" "ts \<noteq> []"
  shows "accepts F input (\<lambda>M. m_loop M l a) (t # ts) e ts2"
proof (rule accepts_body [of _ _ _ "\<lambda>M. loop_body F input M l a"])
  fix p :: "'a parser" assume p: "ahead F input p (t # ts)"
  obtain q p1 n1 where p1: "\<forall>k :: 'a parser \<Rightarrow> ('a ast, 'a) parsed. after F input p k = k q"
    "ahead F input p1 ts1" "\<forall>k \<ge> n1. m_level (methods_at k F input) (l + 1) q = Parsed b p1"
    using accepts_after [OF assms(2) p assms(4)] by blast
  from acceptsD [OF assms(3) p1(2)] obtain p2 n2 where p2: "ahead F input p2 ts2"
    "\<forall>k \<ge> n2. m_loop (methods_at k F input) l (Binary op a b) p1 = Parsed e p2" by blast
  have "loop_body F input (methods_at k F input) l a p = Parsed e p2" if "max n1 n2 \<le> k" for k
    using that p p1 p2 assms(1) by (simp add: loop_body_def pbind_def binary_at_operators [symmetric])
  with p2(1) show "\<exists>p' n. ahead F input p' ts2 \<and> (\<forall>k \<ge> n. loop_body F input (methods_at k F input) l a p = Parsed e p')"
    by blast
qed (simp add: method_eqs)

lemma accepts_power_base:
  assumes "accepts F input m_unary ts e (t # ts')" "t \<noteq> TStarStar"
  shows "accepts F input m_power ts e (t # ts')"
proof (rule accepts_body [of _ _ _ "power_body F input"])
  fix p assume "ahead F input p ts"
  from acceptsD [OF assms(1) this] obtain p' n where p': "ahead F input p' (t # ts')"
    "\<forall>k \<ge> n. m_unary (methods_at k F input) p = Parsed e p'" by blast
  then have "\<forall>k \<ge> n. power_body F input (methods_at k F input) p = Parsed e p'"
    using assms(2) by (auto simp: power_body_def pbind_def)
  with p'(1) show "\<exists>p' n. ahead F input p' (t # ts') \<and>
      (\<forall>k \<ge> n. power_body F input (methods_at k F input) p = Parsed e p')" by blast
qed (simp add: method_eqs)

lemma accepts_power:
  assumes "accepts F input m_unary ts b (TStarStar # ts1)" "accepts F input m_power ts1 x ts2" "ts1 \<noteq> []"
  shows "accepts F input m_power ts (Binary Pow b x) ts2"
proof (rule accepts_body [of _ _ _ "power_body F input"])
  fix p :: "'a parser" assume "ahead F input p ts"
  from acceptsD [OF assms(1) this] obtain p1 n1 where p1: "ahead F input p1 (TStarStar # ts1)"
    "\<forall>k \<ge> n1. m_unary (methods_at k F input) p = Parsed b p1" by blast
  obtain q p2 n2 where p2: "\<forall>k :: 'a parser \<Rightarrow> ('a ast, 'a) parsed. after F input p1 k = k q"
    "ahead F input p2 ts2" "\<forall>k \<ge> n2. m_power (methods_at k F input) q = Parsed x p2"
    using accepts_after [OF assms(2) p1(1) assms(3)] by blast
  have "power_body F input (methods_at k F input) p = Parsed (Binary Pow b x) p2" if "max n1 n2 \<le> k" for k
    using that p1 p2 by (simp add: power_body_def pbind_def)
  with p2(2) show "\<exists>p' n. ahead F input p' ts2 \<and>
      (\<forall>k \<ge> n. power_body F input (methods_at k F input) p = Parsed (Binary Pow b x) p')" by blast
qed (simp add: method_eqs)

lemma accepts_unary_primary:
  assumes "\<forall>op. (t, op) \<notin> set prefix_operators" "accepts F input m_primary (t # ts) e ts'"
  shows "accepts F input m_unary (t # ts) e ts'"
proof (rule accepts_body [of _ _ _ "unary_body F input"])
  fix p assume p: "ahead F input p (t # ts)"
  from acceptsD [OF assms(2) this] p assms(1) [folded no_unary_at]
  show "\<exists>p' n. ahead F input p' ts' \<and> (\<forall>k \<ge> n. unary_body F input (methods_at k F input) p = Parsed e p')"
    by (simp add: unary_body_def)
qed (simp add: method_eqs)

lemma accepts_unary:
  assumes "(t, op) \<in> set prefix_operators" "accepts F input m_unary ts e ts'" "ts \<noteq> []"
  shows "accepts F input m_unary (t # ts) (Unary op e) ts'"
proof (rule accepts_body [of _ _ _ "unary_body F input"])
  fix p :: "'a parser" assume p: "ahead F input p (t # ts)"
  obtain q p1 n1 where p1: "\<forall>k :: 'a parser \<Rightarrow> ('a ast, 'a) parsed. after F input p k = k q"
    "ahead F input p1 ts'" "\<forall>k \<ge> n1. m_unary (methods_at k F input) q = Parsed e p1"
    using accepts_after [OF assms(2) p assms(3)] by blast
  then show "\<exists>p' n. ahead F input p' ts' \<and>
      (\<forall>k \<ge> n. unary_body F input (methods_at k F input) p = Parsed (Unary op e) p')"
    using p assms(1) [folded unary_at_operators] by (intro exI [of _ p1] exI [of _ n1]) (simp add: unary_body_def pbind_def)
qed (simp add: method_eqs)

lemma accepts_atoms:
  "accepts F input m_primary (TInt v # t # ts) (Literal (VInt v)) (t # ts)"
  "accepts F input m_primary (TFloat f # t # ts) (Literal (VFloat f)) (t # ts)"
  "t \<noteq> TLParen \<Longrightarrow> accepts F input m_primary (TIdent x # t # ts) (Variable x) (t # ts)"
  "accepts F input m_primary (TIdent g # TLParen # TRParen # t # ts) (FnCall g []) (t # ts)"
proof -
  have atom: "\<exists>p' n. ahead F input p' (t # ts) \<and> (\<forall>k \<ge> n. primary_body F input (methods_at k F input) p = Parsed e p')"
    if p: "ahead F input p (s # t # ts)"
      and e: "\<And>q M. ps_lookahead p = s \<Longrightarrow> ahead F input q (t # ts) \<Longrightarrow> (\<And>k :: 'a parser \<Rightarrow> ('a ast, 'a) parsed. after F input p k = k q) \<Longrightarrow>
        primary_body F input M p = Parsed e q" for p :: "'a parser" and s e
  proof -
    obtain q where "ahead F input q (t # ts)" "\<And>k :: 'a parser \<Rightarrow> ('a ast, 'a) parsed. after F input p k = k q"
      using p by (rule after_ahead) blast
    then show ?thesis using e p by auto
  qed
  note body = accepts_body [of _ _ _ "primary_body F input"]
  show "accepts F input m_primary (TInt v # t # ts) (Literal (VInt v)) (t # ts)"
    by (rule body) (simp_all only: method_eqs, erule atom, simp add: primary_body_def)
  show "accepts F input m_primary (TFloat f # t # ts) (Literal (VFloat f)) (t # ts)"
    by (rule body) (simp_all only: method_eqs, erule atom, simp add: primary_body_def)
  show "t \<noteq> TLParen \<Longrightarrow> accepts F input m_primary (TIdent x # t # ts) (Variable x) (t # ts)"
    by (rule body) (simp_all only: method_eqs, erule atom, simp add: primary_body_def)
  show "accepts F input m_primary (TIdent g # TLParen # TRParen # t # ts) (FnCall g []) (t # ts)"
  proof (rule body)
    fix p :: "'a parser" assume p: "ahead F input p (TIdent g # TLParen # TRParen # t # ts)"
    obtain p1 where p1: "ahead F input p1 (TLParen # TRParen # t # ts)"
      "\<And>k :: 'a parser \<Rightarrow> ('a ast, 'a) parsed. after F input p k = k p1" using p by (rule after_ahead) blast
    obtain p2 where p2: "ahead F input p2 (TRParen # t # ts)"
      "\<And>k :: 'a parser \<Rightarrow> ('a ast, 'a) parsed. after F input p1 k = k p2" using p1(1) by (rule after_ahead) blast
    obtain p3 where p3: "ahead F input p3 (t # ts)"
      "\<And>k :: 'a parser \<Rightarrow> ('a ast, 'a) parsed. after F input p2 k = k p3" using p2(1) by (rule after_ahead) blast
    have "primary_body F input M p = Parsed (FnCall g []) p3" for M
      using p p1 p2 p3 by (simp add: primary_body_def pbind_def)
    with p3(1) show "\<exists>p' n. ahead F input p' (t # ts) \<and>
        (\<forall>k \<ge> n. primary_body F input (methods_at k F input) p = Parsed (FnCall g []) p')" by blast
  qed (simp add: method_eqs)
qed

lemma accepts_call:
  assumes "t \<noteq> TRParen" "accepts F input m_ternary (t # ts) a ts1"
    "accepts F input (\<lambda>M. m_args M [a]) ts1 as (TRParen # t' # ts2)"
  shows "accepts F input m_primary (TIdent f # TLParen # t # ts) (FnCall f as) (t' # ts2)"
proof (rule accepts_body [of _ _ _ "primary_body F input"])
  fix p :: "'a parser" assume p: "ahead F input p (TIdent f # TLParen # t # ts)"
  obtain p1 where p1: "ahead F input p1 (TLParen # t # ts)"
    "\<And>k :: 'a parser \<Rightarrow> ('a ast, 'a) parsed. after F input p k = k p1" using p by (rule after_ahead) blast
  obtain q p2 n2 where p2: "\<forall>k :: 'a parser \<Rightarrow> ('a ast, 'a) parsed. after F input p1 k = k q" "ahead F input q (t # ts)"
    "ahead F input p2 ts1" "\<forall>k \<ge> n2. m_ternary (methods_at k F input) q = Parsed a p2"
    using accepts_after [OF assms(2) p1(1)] by auto
  from acceptsD [OF assms(3) p2(3)] obtain p3 n3 where p3: "ahead F input p3 (TRParen # t' # ts2)"
    "\<forall>k \<ge> n3. m_args (methods_at k F input) [a] p2 = Parsed as p3" by blast
  obtain p4 where p4: "ahead F input p4 (t' # ts2)"
    "\<And>k :: 'a parser \<Rightarrow> ('a ast, 'a) parsed. after F input p3 k = k p4" using p3(1) by (rule after_ahead) blast
  have "primary_body F input (methods_at k F input) p = Parsed (FnCall f as) p4" if "max n2 n3 \<le> k" for k
    using that p p1 p2 p3 p4 assms(1) by (simp add: primary_body_def pbind_def)
  with p4(1) show "\<exists>p' n. ahead F input p' (t' # ts2) \<and>
      (\<forall>k \<ge> n. primary_body F input (methods_at k F input) p = Parsed (FnCall f as) p')" by blast
qed (simp add: method_eqs)

lemma accepts_paren:
  assumes "accepts F input m_ternary ts e (TRParen # t # ts')" "ts \<noteq> []"
  shows "accepts F input m_primary (TLParen # ts) e (t # ts')"
proof (rule accepts_body [of _ _ _ "primary_body F input"])
  fix p :: "'a parser" assume p: "ahead F input p (TLParen # ts)"
  obtain q p1 n1 where p1: "\<forall>k :: 'a parser \<Rightarrow> ('a ast, 'a) parsed. after F input p k = k q"
    "ahead F input p1 (TRParen # t # ts')" "\<forall>k \<ge> n1. m_ternary (methods_at k F input) q = Parsed e p1"
    using accepts_after [OF assms(1) p assms(2)] by blast
  obtain p2 where p2: "ahead F input p2 (t # ts')"
    "\<And>k :: 'a parser \<Rightarrow> ('a ast, 'a) parsed. after F input p1 k = k p2" using p1(2) by (rule after_ahead) blast
  have "primary_body F input (methods_at k F input) p = Parsed e p2" if "n1 \<le> k" for k
    using that p p1 p2 by (simp add: primary_body_def pbind_def)
  with p2(1) show "\<exists>p' n. ahead F input p' (t # ts') \<and>
      (\<forall>k \<ge> n. primary_body F input (methods_at k F input) p = Parsed e p')" by blast
qed (simp add: method_eqs)

lemma accepts_args_end:
  assumes "t \<noteq> TComma" shows "accepts F input (\<lambda>M. m_args M as) (t # ts) as (t # ts)"
  by (rule accepts_body [of _ _ _ "\<lambda>M. args_body F input M as"]) (use assms in \<open>auto simp: method_eqs args_body_def\<close>)

lemma accepts_args_more:
  assumes "accepts F input m_ternary ts a ts1" "accepts F input (\<lambda>M. m_args M (as @ [a])) ts1 as' ts2" "ts \<noteq> []"
  shows "accepts F input (\<lambda>M. m_args M as) (TComma # ts) as' ts2"
proof (rule accepts_body [of _ _ _ "\<lambda>M. args_body F input M as"])
  fix p :: "'a parser" assume p: "ahead F input p (TComma # ts)"
  obtain q p1 n1 where p1: "\<forall>k :: 'a parser \<Rightarrow> ('a ast list, 'a) parsed. after F input p k = k q"
    "ahead F input p1 ts1" "\<forall>k \<ge> n1. m_ternary (methods_at k F input) q = Parsed a p1"
    using accepts_after [OF assms(1) p assms(3)] by blast
  from acceptsD [OF assms(2) p1(2)] obtain p2 n2 where p2: "ahead F input p2 ts2"
    "\<forall>k \<ge> n2. m_args (methods_at k F input) (as @ [a]) p1 = Parsed as' p2" by blast
  have "args_body F input (methods_at k F input) as p = Parsed as' p2" if "max n1 n2 \<le> k" for k
    using that p p1 p2 by (simp add: args_body_def pbind_def)
  with p2(1) show "\<exists>p' n. ahead F input p' ts2 \<and> (\<forall>k \<ge> n. args_body F input (methods_at k F input) as p = Parsed as' p')"
    by blast
qed (simp add: method_eqs)

lemmas grammar_inducts = g_ternary_g_level_g_loop_g_power_g_unary_g_primary_g_args.inducts

lemma grammar_nonempty:
  "g_ternary ts e ts' \<Longrightarrow> ts \<noteq> []" "g_level l ts e ts' \<Longrightarrow> ts \<noteq> []" "g_loop l a ts e ts' \<Longrightarrow> ts \<noteq> []"
  "g_power ts e ts' \<Longrightarrow> ts \<noteq> []" "g_unary ts e ts' \<Longrightarrow> ts \<noteq> []" "g_primary ts e ts' \<Longrightarrow> ts \<noteq> []"
  "g_args as ts as' ts' \<Longrightarrow> ts \<noteq> []"
  by (induction rule: grammar_inducts) auto

lemma grammar_accepted:
  "g_ternary ts e ts' \<Longrightarrow> accepts F input m_ternary ts e ts'"
  "g_level l ts e ts' \<Longrightarrow> accepts F input (\<lambda>M. m_level M l) ts e ts'"
  "g_loop l a ts e ts' \<Longrightarrow> accepts F input (\<lambda>M. m_loop M l a) ts e ts'"
  "g_power ts e ts' \<Longrightarrow> accepts F input m_power ts e ts'"
  "g_unary ts e ts' \<Longrightarrow> accepts F input m_unary ts e ts'"
  "g_primary ts e ts' \<Longrightarrow> accepts F input m_primary ts e ts'"
  "g_args as ts as' ts' \<Longrightarrow> accepts F input (\<lambda>M. m_args M as) ts as' ts'"
  by (induction rule: grammar_inducts)
    (blast intro: accepts_ternary accepts_conditional accepts_level_power accepts_level_chain accepts_loop_end
      accepts_loop_op accepts_power_base accepts_power accepts_unary_primary accepts_unary accepts_atoms
      accepts_call accepts_paren accepts_args_end accepts_args_more dest: grammar_nonempty)+

section \<open>The grammar derives what the parser accepts\<close>

definition derived :: "'f float_ops \<Rightarrow> string \<Rightarrow> ('f token list \<Rightarrow> 'a \<Rightarrow> 'f token list \<Rightarrow> bool) \<Rightarrow>
    ('f parser \<Rightarrow> ('a, 'f) parsed) \<Rightarrow> bool" where
  "derived F input G m \<longleftrightarrow>
     (\<forall>p e p' ts'. m p = Parsed e p' \<longrightarrow> ahead F input p' ts' \<longrightarrow> (\<exists>ts. ahead F input p ts \<and> G ts e ts'))"

lemma derivedD:
  "derived F input G m \<Longrightarrow> m p = Parsed e p' \<Longrightarrow> ahead F input p' ts' \<Longrightarrow> \<exists>ts. ahead F input p ts \<and> G ts e ts'"
  unfolding derived_def by blast

lemma derivedI:
  "(\<And>p e p' ts'. m p = Parsed e p' \<Longrightarrow> ahead F input p' ts' \<Longrightarrow> \<exists>ts. ahead F input p ts \<and> G ts e ts') \<Longrightarrow>
   derived F input G m"
  unfolding derived_def by blast

definition methods_derived :: "'f float_ops \<Rightarrow> string \<Rightarrow> 'f methods \<Rightarrow> bool" where
  "methods_derived F input M \<longleftrightarrow>
     derived F input g_ternary (m_ternary M) \<and> (\<forall>l. derived F input (g_level l) (m_level M l)) \<and>
     (\<forall>l a. derived F input (g_loop l a) (m_loop M l a)) \<and> derived F input g_power (m_power M) \<and>
     derived F input g_unary (m_unary M) \<and> derived F input g_primary (m_primary M) \<and>
     (\<forall>as. derived F input (g_args as) (m_args M as))"

lemma methods_derivedD:
  assumes "methods_derived F input M"
  shows "derived F input g_ternary (m_ternary M)" "derived F input (g_level l) (m_level M l)"
    "derived F input (g_loop l a) (m_loop M l a)" "derived F input g_power (m_power M)"
    "derived F input g_unary (m_unary M)" "derived F input g_primary (m_primary M)"
    "derived F input (g_args as) (m_args M as)"
  using assms unfolding methods_derived_def by blast+

lemma ternary_derived:
  assumes M: "methods_derived F input M" shows "derived F input g_ternary (ternary_body F input M)"
proof (rule derivedI)
  fix p e p' ts' assume r: "ternary_body F input M p = Parsed e p'" and ts': "ahead F input p' ts'"
  note d = derivedD [OF methods_derivedD(1) [OF M]] and dl = derivedD [OF methods_derivedD(2) [OF M]]
  obtain c p1 where p1: "m_level M 2 p = Parsed c p1" using r by (auto simp: ternary_body_def pbind_eq_Parsed)
  show "\<exists>ts. ahead F input p ts \<and> g_ternary ts e ts'"
  proof (cases "ps_lookahead p1 = TQuestion")
    case False
    then have "e = c" "p' = p1" using r p1 by (simp_all add: ternary_body_def pbind_def)
    moreover obtain rest where "ts' = ps_lookahead p1 # rest" using aheadE [OF ts'] \<open>p' = p1\<close> by blast
    ultimately show ?thesis using dl [OF p1, of ts'] ts' False by (auto intro: plain)
  next
    case True
    then obtain q1 where q1: "pbind (m_ternary M q1) (\<lambda>t p. if ps_lookahead p \<noteq> TColon then Failed (ParseError ExpectedColon (ps_pos p))
        else after F input p (\<lambda>p. pbind (m_ternary M p) (\<lambda>e p. Parsed (Ternary c t e) p))) = Parsed e p'"
      "\<And>ts. ahead F input q1 ts \<Longrightarrow> ahead F input p1 (ps_lookahead p1 # ts)"
      using r p1 by (auto simp: ternary_body_def pbind_def elim: after_eq_Parsed)
    then obtain a p2 where p2: "m_ternary M q1 = Parsed a p2" "ps_lookahead p2 = TColon"
      "after F input p2 (\<lambda>p. pbind (m_ternary M p) (\<lambda>e p. Parsed (Ternary c a e) p)) = Parsed e p'"
      by (auto simp: pbind_eq_Parsed split: if_splits)
    from p2(3) obtain q2 where "pbind (m_ternary M q2) (\<lambda>e p. Parsed (Ternary c a e) p) = Parsed e p'"
      and q2: "\<And>ts. ahead F input q2 ts \<Longrightarrow> ahead F input p2 (ps_lookahead p2 # ts)" by (rule after_eq_Parsed) blast
    then obtain b where b: "m_ternary M q2 = Parsed b p'" "e = Ternary c a b" by (auto simp: pbind_eq_Parsed)
    from d [OF b(1) ts'] obtain ts3 where ts3: "ahead F input q2 ts3" "g_ternary ts3 b ts'" by blast
    from d [OF p2(1) q2 [OF ts3(1)]] p2(2) obtain ts2 where ts2: "ahead F input q1 ts2" "g_ternary ts2 a (TColon # ts3)"
      by auto
    from dl [OF p1 q1(2) [OF ts2(1)]] True obtain ts1 where "ahead F input p ts1" "g_level 2 ts1 c (TQuestion # ts2)" by auto
    then show ?thesis using conditional ts2(2) ts3(2) b(2) by blast
  qed
qed

lemma level_derived:
  assumes M: "methods_derived F input M" shows "derived F input (g_level l) (level_body M l)"
proof (rule derivedI)
  fix p e p' ts' assume r: "level_body M l p = Parsed e p'" and ts': "ahead F input p' ts'"
  show "\<exists>ts. ahead F input p ts \<and> g_level l ts e ts'"
  proof (cases "12 \<le> l")
    case True
    then show ?thesis using derivedD [OF methods_derivedD(4) [OF M] _ ts', of p e] r
      by (auto simp: level_body_def intro: tightest)
  next
    case False
    then obtain a p1 where p1: "m_level M (l + 1) p = Parsed a p1" "m_loop M l a p1 = Parsed e p'"
      using r by (auto simp: level_body_def pbind_eq_Parsed)
    from derivedD [OF methods_derivedD(3) [OF M] p1(2) ts'] obtain ts1 where ts1: "ahead F input p1 ts1" "g_loop l a ts1 e ts'"
      by blast
    from derivedD [OF methods_derivedD(2) [OF M] p1(1) ts1(1)] show ?thesis using chain ts1(2) False by (metis not_le)
  qed
qed

lemma loop_derived:
  assumes M: "methods_derived F input M" shows "derived F input (g_loop l a) (loop_body F input M l a)"
proof (rule derivedI)
  fix p e p' ts' assume r: "loop_body F input M l a p = Parsed e p'" and ts': "ahead F input p' ts'"
  show "\<exists>ts. ahead F input p ts \<and> g_loop l a ts e ts'"
  proof (cases "binary_at l (ps_lookahead p)")
    case None
    note chain_end [OF None [unfolded no_binary_at]]
    then show ?thesis using r ts' aheadE [OF ts'] by (auto simp: loop_body_def None)
  next
    case (Some op)
    then have "after F input p (\<lambda>p. pbind (m_level M (l + 1) p) (\<lambda>rhs p. m_loop M l (Binary op a rhs) p)) = Parsed e p'"
      using r by (simp add: loop_body_def)
    then obtain q where "pbind (m_level M (l + 1) q) (\<lambda>rhs p. m_loop M l (Binary op a rhs) p) = Parsed e p'"
      and q: "\<And>ts. ahead F input q ts \<Longrightarrow> ahead F input p (ps_lookahead p # ts)" by (rule after_eq_Parsed) blast
    then obtain b p1 where p1: "m_level M (l + 1) q = Parsed b p1" "m_loop M l (Binary op a b) p1 = Parsed e p'"
      by (auto simp: pbind_eq_Parsed)
    from derivedD [OF methods_derivedD(3) [OF M] p1(2) ts'] obtain ts1 where
      ts1: "ahead F input p1 ts1" "g_loop l (Binary op a b) ts1 e ts'" by blast
    from derivedD [OF methods_derivedD(2) [OF M] p1(1) ts1(1)] obtain ts where
      "ahead F input q ts" "g_level (l + 1) ts b ts1" by blast
    then show ?thesis using q chain_op [OF Some [unfolded binary_at_operators]] ts1(2) by blast
  qed
qed

lemma power_derived:
  assumes M: "methods_derived F input M" shows "derived F input g_power (power_body F input M)"
proof (rule derivedI)
  fix p e p' ts' assume r: "power_body F input M p = Parsed e p'" and ts': "ahead F input p' ts'"
  obtain b p1 where p1: "m_unary M p = Parsed b p1" using r by (auto simp: power_body_def pbind_eq_Parsed)
  note du = derivedD [OF methods_derivedD(5) [OF M] p1]
  show "\<exists>ts. ahead F input p ts \<and> g_power ts e ts'"
  proof (cases "ps_lookahead p1 = TStarStar")
    case False
    then have e: "e = b" "p' = p1" using r p1 by (simp_all add: power_body_def pbind_def)
    moreover obtain rest where "ts' = ps_lookahead p1 # rest" using aheadE [OF ts'] e by blast
    ultimately show ?thesis using du [of ts'] ts' False by (auto intro: base)
  next
    case True
    then have "after F input p1 (\<lambda>p. pbind (m_power M p) (\<lambda>ex p. Parsed (Binary Pow b ex) p)) = Parsed e p'"
      using r p1 by (simp add: power_body_def pbind_def)
    then obtain q where "pbind (m_power M q) (\<lambda>ex p. Parsed (Binary Pow b ex) p) = Parsed e p'"
      and q: "\<And>ts. ahead F input q ts \<Longrightarrow> ahead F input p1 (ps_lookahead p1 # ts)" by (rule after_eq_Parsed) blast
    then obtain x where x: "m_power M q = Parsed x p'" "e = Binary Pow b x" by (auto simp: pbind_eq_Parsed)
    from derivedD [OF methods_derivedD(4) [OF M] x(1) ts'] obtain ts1 where ts1: "ahead F input q ts1" "g_power ts1 x ts'"
      by blast
    from du [OF q [OF ts1(1)]] True ts1(2) x(2) show ?thesis by (auto intro: power)
  qed
qed

lemma unary_derived:
  assumes M: "methods_derived F input M" shows "derived F input g_unary (unary_body F input M)"
proof (rule derivedI)
  fix p e p' ts' assume r: "unary_body F input M p = Parsed e p'" and ts': "ahead F input p' ts'"
  show "\<exists>ts. ahead F input p ts \<and> g_unary ts e ts'"
  proof (cases "unary_at (ps_lookahead p)")
    case None
    then obtain ts where ts: "ahead F input p ts" "g_primary ts e ts'"
      using r derivedD [OF methods_derivedD(6) [OF M] _ ts', of p e] by (auto simp: unary_body_def)
    moreover obtain rest where "ts = ps_lookahead p # rest" using aheadE [OF ts(1)] by blast
    ultimately show ?thesis using primary None [unfolded no_unary_at] by blast
  next
    case (Some op)
    then have "after F input p (\<lambda>p. pbind (m_unary M p) (\<lambda>e p. Parsed (Unary op e) p)) = Parsed e p'"
      using r by (simp add: unary_body_def)
    then obtain q where "pbind (m_unary M q) (\<lambda>e p. Parsed (Unary op e) p) = Parsed e p'"
      and q: "\<And>ts. ahead F input q ts \<Longrightarrow> ahead F input p (ps_lookahead p # ts)" by (rule after_eq_Parsed) blast
    then obtain x where x: "m_unary M q = Parsed x p'" "e = Unary op x" by (auto simp: pbind_eq_Parsed)
    from derivedD [OF methods_derivedD(5) [OF M] x(1) ts'] q unary [OF Some [unfolded unary_at_operators]] x(2) show ?thesis by blast
  qed
qed

lemma args_derived:
  assumes M: "methods_derived F input M" shows "derived F input (g_args as) (args_body F input M as)"
proof (rule derivedI)
  fix p e p' ts' assume r: "args_body F input M as p = Parsed e p'" and ts': "ahead F input p' ts'"
  show "\<exists>ts. ahead F input p ts \<and> g_args as ts e ts'"
  proof (cases "ps_lookahead p = TComma")
    case False
    then show ?thesis using r ts' aheadE [OF ts'] by (auto simp: args_body_def intro!: args_end)
  next
    case True
    then have "after F input p (\<lambda>p. pbind (m_ternary M p) (\<lambda>a p. m_args M (as @ [a]) p)) = Parsed e p'"
      using r by (simp add: args_body_def)
    then obtain q where "pbind (m_ternary M q) (\<lambda>a p. m_args M (as @ [a]) p) = Parsed e p'"
      and q: "\<And>ts. ahead F input q ts \<Longrightarrow> ahead F input p (ps_lookahead p # ts)" by (rule after_eq_Parsed) blast
    then obtain a p1 where p1: "m_ternary M q = Parsed a p1" "m_args M (as @ [a]) p1 = Parsed e p'"
      by (auto simp: pbind_eq_Parsed)
    from derivedD [OF methods_derivedD(7) [OF M] p1(2) ts'] obtain ts1 where
      ts1: "ahead F input p1 ts1" "g_args (as @ [a]) ts1 e ts'" by blast
    from derivedD [OF methods_derivedD(1) [OF M] p1(1) ts1(1)] obtain ts where
      "ahead F input q ts" "g_ternary ts a ts1" by blast
    then show ?thesis using q [of ts] True ts1(2) args_more [of ts a ts1 as e ts'] by (metis True)
  qed
qed

lemma call_derived:
  assumes M: "methods_derived F input M"
    and r: "pbind (if ps_lookahead q \<noteq> TRParen then pbind (m_ternary M q) (\<lambda>a p. m_args M [a] p) else Parsed [] q)
      (\<lambda>args p. if ps_lookahead p \<noteq> TRParen then Failed (ParseError ExpectedCloseArgs (ps_pos p))
        else after F input p (\<lambda>p. Parsed (FnCall f args) p)) = Parsed e p'"
    and ts': "ahead F input p' ts'"
  shows "\<exists>ts. ahead F input q ts \<and> g_primary (TIdent f # TLParen # ts) e ts'"
proof -
  obtain args p1 where p1: "(if ps_lookahead q \<noteq> TRParen then pbind (m_ternary M q) (\<lambda>a p. m_args M [a] p) else Parsed [] q) = Parsed args p1"
    "ps_lookahead p1 = TRParen" "after F input p1 (\<lambda>p. Parsed (FnCall f args) p) = Parsed e p'"
    using r unfolding pbind_eq_Parsed by (auto split: if_splits)
  from p1(3) have e: "e = FnCall f args" "ahead F input p1 (TRParen # ts')"
    using p1(2) ts' by (auto elim!: after_eq_Parsed)
  obtain t rest where t: "ts' = t # rest" using aheadE [OF ts'] by blast
  show ?thesis
  proof (cases "ps_lookahead q = TRParen")
    case True
    then have "args = []" "p1 = q" using p1(1) by simp_all
    then show ?thesis using e t call_none by blast
  next
    case False
    then obtain a p2 where p2: "m_ternary M q = Parsed a p2" "m_args M [a] p2 = Parsed args p1"
      using p1(1) by (auto simp: pbind_eq_Parsed)
    from derivedD [OF methods_derivedD(7) [OF M] p2(2) e(2)] obtain ts1 where
      ts1: "ahead F input p2 ts1" "g_args [a] ts1 args (TRParen # ts')" by blast
    from derivedD [OF methods_derivedD(1) [OF M] p2(1) ts1(1)] obtain ts where
      ts: "ahead F input q ts" "g_ternary ts a ts1" by blast
    obtain s where "ts = ps_lookahead q # s" using aheadE [OF ts(1)] by blast
    then show ?thesis using call [OF False] ts ts1(2) e(1) t by blast
  qed
qed

lemma primary_derived:
  assumes M: "methods_derived F input M" shows "derived F input g_primary (primary_body F input M)"
proof (rule derivedI)
  fix p e p' ts' assume r: "primary_body F input M p = Parsed e p'" and ts': "ahead F input p' ts'"
  obtain t rest where t: "ts' = t # rest" "ps_lookahead p' = t" using aheadE [OF ts'] by blast
  have atom: "ahead F input p (ps_lookahead p # ts') \<and> e = x"
    if "after F input p (\<lambda>p. Parsed x p) = Parsed e p'" for x
    using that ts' by (auto elim!: after_eq_Parsed)
  consider (int) v where "ps_lookahead p = TInt v" | (float) v where "ps_lookahead p = TFloat v"
    | (ident) f where "ps_lookahead p = TIdent f" | (paren) "ps_lookahead p = TLParen"
    using r by (auto simp: primary_body_def split: token.splits)
  then show "\<exists>ts. ahead F input p ts \<and> g_primary ts e ts'"
  proof cases
    case int
    then have "after F input p (\<lambda>p. Parsed (Literal (VInt v)) p) = Parsed e p'" using r by (simp add: primary_body_def)
    from atom [OF this] show ?thesis using int t(1) int_literal by metis
  next
    case float
    then have "after F input p (\<lambda>p. Parsed (Literal (VFloat v)) p) = Parsed e p'" using r by (simp add: primary_body_def)
    from atom [OF this] show ?thesis using float t(1) float_literal by metis
  next
    case ident
    then obtain p1 where p1: "(if ps_lookahead p1 = TLParen then after F input p1 (\<lambda>p.
        pbind (if ps_lookahead p \<noteq> TRParen then pbind (m_ternary M p) (\<lambda>a p. m_args M [a] p) else Parsed [] p) (\<lambda>args p.
          if ps_lookahead p \<noteq> TRParen then Failed (ParseError ExpectedCloseArgs (ps_pos p))
          else after F input p (\<lambda>p. Parsed (FnCall f args) p))) else Parsed (Variable f) p1) = Parsed e p'"
      "\<And>ts. ahead F input p1 ts \<Longrightarrow> ahead F input p (TIdent f # ts)"
      using r by (auto simp: primary_body_def elim: after_eq_Parsed)
    show ?thesis
    proof (cases "ps_lookahead p1 = TLParen")
      case False
      then have "e = Variable f" "p' = p1" using p1(1) by simp_all
      then show ?thesis using p1(2) [OF ts' [unfolded \<open>p' = p1\<close>]] variable t False by blast
    next
      case True
      then obtain q where q: "pbind (if ps_lookahead q \<noteq> TRParen then pbind (m_ternary M q) (\<lambda>a p. m_args M [a] p) else Parsed [] q)
          (\<lambda>args p. if ps_lookahead p \<noteq> TRParen then Failed (ParseError ExpectedCloseArgs (ps_pos p))
            else after F input p (\<lambda>p. Parsed (FnCall f args) p)) = Parsed e p'"
        "\<And>ts. ahead F input q ts \<Longrightarrow> ahead F input p1 (TLParen # ts)"
        using p1(1) by (auto elim: after_eq_Parsed)
      from call_derived [OF M q(1) ts'] show ?thesis using q(2) p1(2) by blast
    qed
  next
    case paren
    then obtain q where "pbind (m_ternary M q) (\<lambda>e p. if ps_lookahead p \<noteq> TRParen then Failed (ParseError MissingClose (ps_pos p))
        else after F input p (\<lambda>p. Parsed e p)) = Parsed e p'"
      and q: "\<And>ts. ahead F input q ts \<Longrightarrow> ahead F input p (TLParen # ts)"
      using r by (auto simp: primary_body_def elim: after_eq_Parsed)
    then obtain p1 where p1: "m_ternary M q = Parsed e p1" "ahead F input p1 (TRParen # ts')"
      using ts' by (auto simp: pbind_eq_Parsed elim!: after_eq_Parsed split: if_splits)
    from derivedD [OF methods_derivedD(1) [OF M] p1] show ?thesis using q g_ternary_g_level_g_loop_g_power_g_unary_g_primary_g_args.paren t(1) by blast
  qed
qed

lemma methods_at_derived: "methods_derived F input (methods_at n F input)"
proof (induction n)
  case 0
  show ?case by (simp add: methods_derived_def derived_def)
next
  case (Suc n)
  then show ?case
    unfolding methods_at.simps Let_def
    by (subst methods_derived_def) (simp add: ternary_derived level_derived loop_derived power_derived unary_derived
        primary_derived args_derived)
qed

section \<open>The parser implements the grammar\<close>

lemma parser_new_ahead:
  assumes "stream F input 0 ts" "ts \<noteq> []"
  obtains p where "parser_new F input = Inr p" "ahead F input p ts"
proof -
  obtain t rest where ts: "ts = t # rest" using assms(2) by (cases ts) auto
  obtain q where n: "next_token F input 0 = Inr (t, q)" "stream F input q rest"
    using assms(1) by (auto simp: ts split: sum.splits prod.splits)
  let ?p = "\<lparr>ps_lookahead = t, ps_lexer = q, ps_pos = q\<rparr>"
  show thesis using that [of ?p] n by (simp add: parser_new_def parser_at_def ts)
qed

lemma new_ahead_stream:
  "parser_new F input = Inr p \<Longrightarrow> ahead F input p ts \<Longrightarrow> stream F input 0 ts"
  by (cases ts) (auto simp: parser_new_def parser_at_def split: sum.splits prod.splits)

lemma parse_accepts:
  assumes "stream F input 0 ts" "g_ternary ts e [TEnd]"
  obtains p where "parse_expression F input = Parsed e p"
proof -
  obtain p where p: "parser_new F input = Inr p" "ahead F input p ts"
    using parser_new_ahead [OF assms(1)] grammar_nonempty(1) [OF assms(2)] by blast
  from acceptsD [OF grammar_accepted(1) [OF assms(2)] p(2)] obtain p' n where
    p': "ahead F input p' [TEnd]" "\<forall>k \<ge> n. m_ternary (methods_at k F input) p = Parsed e p'" by blast
  have "parse_ternary (parse_fuel input) F input p \<noteq> OutOfFuel"
    by (rule parse_ternary_returns [OF parser_new_ok [OF p(1)]]) simp
  then have "parse_ternary (parse_fuel input) F input p = parse_ternary (max n (parse_fuel input)) F input p"
    using parse_ternary_extend [of "parse_fuel input" "max n (parse_fuel input)" F input p] by (simp add: extends_def)
  also have "\<dots> = Parsed e p'" using p'(2) by (simp add: parse_ternary_def)
  finally show thesis using that p p'(1)
    by (simp add: parse_expression_def parse_expression_with_def pbind_def)
qed

text \<open>
  C14. The parser implements the grammar: \<open>parse_expression\<close> returns the tree \<open>e\<close> if and only if the
  lexer splits the whole input into tokens that the grammar derives as \<open>e\<close>. The grammar has its own
  tables of the operators: the documented priority of each binary operator (left associative, the
  conditional loosest, the power right associative and tighter than all of them) and the prefix
  operators above the power.
\<close>
theorem parse_expression_iff_grammar:
  "(\<exists>p. parse_expression F input = Parsed e p) =
   (\<exists>ts. stream F input 0 ts \<and> g_ternary ts e [TEnd])"
proof
  assume "\<exists>p. parse_expression F input = Parsed e p"
  then obtain p p' where p: "parser_new F input = Inr p" "parse_ternary (parse_fuel input) F input p = Parsed e p'"
    "ps_lookahead p' = TEnd"
    by (auto simp: parse_expression_def parse_expression_with_def pbind_eq_Parsed split: sum.splits if_splits)
  have "ahead F input p' [TEnd]" using p(3) by simp
  from derivedD [OF methods_derivedD(1) [OF methods_at_derived] p(2) [unfolded parse_ternary_def] this]
  show "\<exists>ts. stream F input 0 ts \<and> g_ternary ts e [TEnd]" using new_ahead_stream [OF p(1)] by blast
next
  assume "\<exists>ts. stream F input 0 ts \<and> g_ternary ts e [TEnd]"
  then show "\<exists>p. parse_expression F input = Parsed e p" using parse_accepts by metis
qed

end
