(* ===== verification/Formula_Eval.thy ===== *)
theory Formula_Eval
  imports Formula_Grammar
begin

text \<open>
  Properties of formula evaluation: it never panics, an integer formula stays integral, the
  \<open>Constant\<close> and \<open>Expression\<close> elements mean what they stand for, and only the collected identifiers
  are read.
\<close>

section \<open>Outcomes\<close>

lemma eval_binary_no_panic: "op \<noteq> And \<Longrightarrow> op \<noteq> Or \<Longrightarrow> eval_binary F op l r mode \<noteq> Panic"
  by (cases op) (simp_all add: eval_binary_def Let_def wrapping_div_def wrapping_rem_def)

lemma expect_args_then: "(\<And>a. length a = n \<Longrightarrow> k a \<noteq> Panic) \<Longrightarrow> and_then (expect_args name args n) k \<noteq> Panic"
  by (simp add: expect_args_def)

lemma nth_arg_no_panic: "i < length a \<Longrightarrow> (\<And>v. k v \<noteq> Panic) \<Longrightarrow> nth_arg a i k \<noteq> Panic"
  by (simp add: nth_arg_def)

lemma no_panic_intros:
  "a \<noteq> Panic \<Longrightarrow> b \<noteq> Panic \<Longrightarrow> (if c then a else b) \<noteq> Panic"
  "d \<noteq> Panic \<Longrightarrow> (\<And>v. f v \<noteq> Panic) \<Longrightarrow> (case x of None \<Rightarrow> d | Some v \<Rightarrow> f v) \<noteq> Panic"
  by (auto split: option.split)

lemma eval_function_no_panic: "eval_function F name args mode \<noteq> Panic"
  unfolding eval_function_def Let_def apply_float_fn_def apply_rounding_fn_def
  by (intro no_panic_intros expect_args_then nth_arg_no_panic eval_binary_no_panic; simp)

lemma fst_bind_Panic: "fst (bind m k) = Panic \<longleftrightarrow> fst m = Panic \<or> (\<exists>v. fst m = Ok v \<and> fst (k v (snd m)) = Panic)"
  by (cases m; cases "fst m") (auto simp: bind_def)

lemma resolve_no_panic: "(\<And>x s. fst (vars x s) \<noteq> Panic) \<Longrightarrow> fst (resolve F vars x s) \<noteq> Panic"
proof -
  assume n: "\<And>x s. fst (vars x s) \<noteq> Panic"
  obtain r s' where r: "vars x s = (r, s')" by fastforce
  then have "r \<noteq> Panic" using n [of x s] by auto
  then show ?thesis by (cases r) (auto simp: resolve_def r split: eval_error.split option.split)
qed

text \<open>
  C15. Evaluation never panics: whatever the formula, its arguments and the values of its variables,
  the outcome is a value or an error, as long as reading a variable does not panic itself. Dividing
  by zero and indexing an argument that is not there panic in the model as they do in the code, so
  the checks before them are what keeps evaluation from panicking.
\<close>
theorem evaluate_never_panics:
  assumes "\<And>x s. fst (vars x s) \<noteq> Panic"
  shows "fst (evaluate F vars mode e s) \<noteq> Panic"
proof -
  have "fst (evaluate F vars mode e s) \<noteq> Panic" and "fst (evaluate_all F vars mode es s) \<noteq> Panic" for es
    using assms
  proof (induction F vars mode e s and F vars mode es s rule: evaluate_evaluate_all.induct)
    case (2 F vars mode name s)
    then show ?case using resolve_no_panic [of vars F name s] by simp
  next
    case (4 F vars mode op l r s)
    then show ?case by (auto simp: fst_bind_Panic eval_binary_no_panic split: if_splits)
  qed (auto simp: fst_bind_Panic eval_function_no_panic split: if_splits)
  then show ?thesis by blast
qed

lemma evaluate_never_panics_witness:
  "fst (evaluate whole_floats (\<lambda>x s. (Err (UnknownVariable x), s)) Integer
     (Binary Div (Literal (VInt 7)) (Literal (VInt 0))) ()) \<noteq> Panic"
  by (rule evaluate_never_panics) simp

section \<open>Integer formulas\<close>

text \<open>The functions whose result is a float in every mode.\<close>

definition float_valued :: "string \<Rightarrow> bool" where
  "float_valued f \<longleftrightarrow>
     (let n = to_ascii_lowercase f in n \<in> fst ` set float_fn_names \<or> n = ''e'' \<or> n = ''pi'' \<or> n = ''atan2'')"

fun int_formula :: "'f ast \<Rightarrow> bool" where
  "int_formula (Literal v) \<longleftrightarrow> is_int v"
| "int_formula (Variable x) \<longleftrightarrow> True"
| "int_formula (Unary op e) \<longleftrightarrow> int_formula e"
| "int_formula (Binary op l r) \<longleftrightarrow> int_formula l \<and> int_formula r"
| "int_formula (Ternary c t e) \<longleftrightarrow> int_formula c \<and> int_formula t \<and> int_formula e"
| "int_formula (FnCall f args) \<longleftrightarrow> \<not> float_valued f \<and> list_all int_formula args"

lemma is_int_simps [simp]: "is_int (VInt i)" "\<not> is_int (VFloat f)" "is_int (from_bool b)"
  by (simp_all add: is_int_def from_bool_def)

lemma unary_int: "is_int v \<Longrightarrow> is_int (eval_unary F op v Integer)"
  by (simp add: eval_unary_def split: unary_op.split)

lemma binary_int: "eval_binary F op l r Integer = Ok v \<Longrightarrow> is_int v"
  by (cases op) (auto simp: eval_binary_def Let_def integral_def compare_def and_then_eq_Ok split: if_splits)

lemma function_int:
  assumes "eval_function F name args Integer = Ok v" "\<not> float_valued name" "list_all is_int args"
  shows "is_int v"
proof -
  let ?n = "to_ascii_lowercase name"
  have f: "map_of float_fn_names ?n = None" "?n \<noteq> ''e''" "?n \<noteq> ''pi''" "?n \<noteq> ''atan2''"
    using assms(2) by (auto simp: float_valued_def Let_def map_of_eq_None_iff)
  have a: "is_int (xs ! i)" if "expect_args name args n = Ok xs" "i < n" for xs n i
    using that assms(3) by (auto simp: expect_args_def list_all_length split: if_splits)
  show ?thesis
    using assms(1) f a [of 1] a [of 2] unfolding eval_function_def Let_def
    by (auto simp: apply_rounding_fn_def and_then_eq_Ok nth_arg_def pick_def integral_def Let_def unary_int
        intro: binary_int split: option.splits if_splits)
qed

definition int_vars :: "'f float_ops \<Rightarrow> ('f, 's) vars \<Rightarrow> bool" where
  "int_vars F vars \<longleftrightarrow> (\<forall>x s. case fst (resolve F vars x s) of Ok v \<Rightarrow> is_int v | _ \<Rightarrow> True)"

lemma fst_bind_Ok: "fst (bind m k) = Ok v \<longleftrightarrow> (\<exists>a. fst m = Ok a \<and> fst (k a (snd m)) = Ok v)"
  by (cases m; cases "fst m") (auto simp: bind_def)

text \<open>
  C16. Integer formulas are typed: an \<open>IntSwissKnife\<close> formula whose literals are integers, that calls
  no function with a float result and whose variables resolve to integers evaluates to an integer or
  an error, never to a float.
\<close>
theorem integer_mode_int:
  assumes "int_vars F vars" and "int_formula e" and "fst (evaluate F vars Integer e s) = Ok v"
  shows "is_int v"
proof -
  have "int_formula e \<Longrightarrow> mode = Integer \<Longrightarrow> int_vars F vars \<Longrightarrow> fst (evaluate F vars mode e s) = Ok v \<Longrightarrow> is_int v"
    and "list_all int_formula es \<Longrightarrow> mode = Integer \<Longrightarrow> int_vars F vars \<Longrightarrow>
      fst (evaluate_all F vars mode es s) = Ok vs \<Longrightarrow> list_all is_int vs"
    for es mode vs
  proof (induction F vars mode e s and F vars mode es s arbitrary: v and vs rule: evaluate_evaluate_all.induct)
    case (2 F vars mode name s)
    then show ?case using int_vars_def [of F vars] by (auto split: result.splits)
  next
    case (3 F vars mode op e s)
    then show ?case by (auto simp: fst_bind_Ok unary_int)
  next
    case (4 F vars mode op l r s)
    then show ?case by (auto simp: fst_bind_Ok split: if_splits intro: binary_int)
  next
    case (5 F vars mode c t e s)
    from "5.prems" obtain a where a: "fst (evaluate F vars mode c s) = Ok a"
      and r: "fst (if is_truthy F a then evaluate F vars mode t (snd (evaluate F vars mode c s))
        else evaluate F vars mode e (snd (evaluate F vars mode c s))) = Ok v" by (auto simp: fst_bind_Ok)
    show ?case
    proof (cases "is_truthy F a")
      case True
      then show ?thesis using "5.IH"(2) [OF True] "5.prems" r by auto
    next
      case False
      then show ?thesis using "5.IH"(3) [OF False] "5.prems" r by auto
    qed
  next
    case (6 F vars mode name args s)
    then show ?case by (auto simp: fst_bind_Ok intro: function_int)
  next
    case (8 F vars mode a as s)
    then show ?case by (auto simp: fst_bind_Ok)
  qed auto
  then show ?thesis using assms by blast
qed

lemma integer_mode_int_witness:
  "is_int (ok_value (fst (evaluate whole_floats (\<lambda>x s. (Ok (VInt 9), s)) Integer
     (Binary Div (Variable ''X'') (Literal (VInt 2))) ())))"
proof -
  let ?r = "fst (evaluate whole_floats (\<lambda>x s. (Ok (VInt 9), s)) Integer (Binary Div (Variable ''X'') (Literal (VInt 2))) ())"
  have r: "?r = Ok (VInt (word_of_int (sint (9 :: i64) sdiv sint (2 :: i64))))"
    by (simp add: resolve_def eval_binary_def wrapping_div_def as_i64_def whole_floats_def)
  have "int_vars whole_floats (\<lambda>x s. (Ok (VInt 9), s :: unit))" by (simp add: int_vars_def resolve_def)
  from integer_mode_int [OF this _ r] show ?thesis unfolding r by simp
qed

section \<open>Constants and named expressions\<close>

text \<open>A resolver extended with bindings: what the nodes' \<open>Constant\<close> and \<open>Expression\<close> elements mean.\<close>

definition with_bindings :: "'f float_ops \<Rightarrow> eval_mode \<Rightarrow> (string \<rightharpoonup> 'f ast) \<Rightarrow> ('f, 's) vars \<Rightarrow> ('f, 's) vars" where
  "with_bindings F mode b vars x s = (case b x of Some e \<Rightarrow> evaluate F vars mode e s | None \<Rightarrow> vars x s)"

lemma evaluate_all_map:
  assumes "\<And>a s. a \<in> set args \<Longrightarrow> evaluate F vars mode (f a) s = evaluate F vars' mode a s"
  shows "evaluate_all F vars mode (map f args) s = evaluate_all F vars' mode args s"
  using assms by (induction args arbitrary: s) auto

text \<open>
  Substitution is evaluation under bindings: replacing named constants and sub-formulas by their
  trees before evaluating gives, for every variable resolver and every state of it, the same outcome
  and the same reads as evaluating the original formula with each bound name resolved by evaluating
  what it stands for. The bound trees must not themselves fail with an unknown variable.
\<close>
theorem substitute_evaluates:
  assumes "\<And>x e s y. b x = Some e \<Longrightarrow> fst (evaluate F vars mode e s) \<noteq> Err (UnknownVariable y)"
  shows "evaluate F vars mode (substitute b e) s = evaluate F (with_bindings F mode b vars) mode e s"
proof (induction e arbitrary: s)
  case (Variable x)
  show ?case
  proof (cases "b x")
    case None
    then show ?thesis by (simp add: resolve_def with_bindings_def)
  next
    case (Some r)
    have "fst (evaluate F vars mode r s) \<noteq> Err (UnknownVariable y)" for y by (rule assms [OF Some])
    then show ?thesis
      by (cases "evaluate F vars mode r s")
        (auto simp: Some resolve_def with_bindings_def split: result.split eval_error.split)
  qed
next
  case (FnCall f args)
  then show ?case by (simp add: evaluate_all_map)
qed (simp_all cong: if_cong)

lemma substitute_evaluates_witness:
  "fst (evaluate whole_floats (\<lambda>x s. (Ok (VInt 5), s)) Integer
     (substitute [''TEN'' \<mapsto> Literal (VInt 10)] (Binary Mul (Variable ''TEN'') (Variable ''X''))) ()) = Ok (VInt 50)"
proof -
  have "evaluate whole_floats (\<lambda>x s. (Ok (VInt 5), s)) Integer
      (substitute [''TEN'' \<mapsto> Literal (VInt 10)] (Binary Mul (Variable ''TEN'') (Variable ''X''))) () =
    evaluate whole_floats (with_bindings whole_floats Integer [''TEN'' \<mapsto> Literal (VInt 10)] (\<lambda>x s. (Ok (VInt 5), s)))
      Integer (Binary Mul (Variable ''TEN'') (Variable ''X'')) ()"
    by (rule substitute_evaluates) (auto split: if_splits)
  then show ?thesis
    by (simp add: with_bindings_def resolve_def eval_binary_def integral_def as_i64_def)
qed

section \<open>Identifiers\<close>

fun idents :: "'f ast \<Rightarrow> string set" where
  "idents (Literal v) = {}"
| "idents (Variable x) = {x}"
| "idents (Unary op e) = idents e"
| "idents (Binary op l r) = idents l \<union> idents r"
| "idents (Ternary c t e) = idents c \<union> idents t \<union> idents e"
| "idents (FnCall f args) = \<Union> (idents ` set args)"

lemma collect_identifiers_eq: "collect_identifiers e out = idents e \<union> out"
proof (induction e arbitrary: out)
  case (FnCall f args)
  then show ?case by (induction args arbitrary: out) auto
qed auto

text \<open>
  \<open>collect_identifiers\<close> finds every variable a formula can read: two resolvers that agree on the
  identifiers it collects give the same outcome and leave the same state.
\<close>
theorem evaluate_reads_identifiers:
  assumes "\<And>x s. x \<in> collect_identifiers e {} \<Longrightarrow> vars x s = vars' x s"
  shows "evaluate F vars mode e s = evaluate F vars' mode e s"
proof -
  have "(\<And>x s. x \<in> idents e \<Longrightarrow> vars x s = vars' x s) \<Longrightarrow> evaluate F vars mode e s = evaluate F vars' mode e s"
  proof (induction e arbitrary: s)
    case (FnCall f args)
    have "evaluate F vars mode a s = evaluate F vars' mode a s" if "a \<in> set args" for a s
      by (rule FnCall.IH [OF that]) (use FnCall.prems that in auto)
    then show ?case using evaluate_all_map [of args F vars mode id vars' s] by simp
  next
    case (Variable x)
    then show ?case by (simp add: resolve_def)
  qed (simp_all cong: if_cong)
  then show ?thesis using assms by (simp add: collect_identifiers_eq)
qed

lemma evaluate_reads_identifiers_witness:
  "evaluate whole_floats (\<lambda>x s. (Ok (VInt 1), s)) Integer (Literal (VInt 4)) () =
   evaluate whole_floats (\<lambda>x s. (Err DivisionByZero, s)) Integer (Literal (VInt 4)) ()"
  by (rule evaluate_reads_identifiers) simp

end
