(* ===== verification/Bitops.thy ===== *)
theory Bitops
  imports Prelude
begin

text \<open>
  Bit fields of device registers (\<^verbatim>\<open>crates/viva-genapi/src/bitops.rs\<close>): GenApi's masked
  integers and enumerations read and write part of a register of up to eight bytes, in either byte
  order. The register is loaded into a \<open>u128\<close>, as in the code; a bit field's offset counts from
  the least significant bit of a little-endian register and from the most significant bit of a
  big-endian one.
\<close>

type_synonym u128 = "128 word"

datatype byte_order = Little | Big

record bit_field =
  bit_offset :: u16
  bit_length :: u16
  byte_order :: byte_order

datatype bitops_error =
    UnsupportedWidth nat
  | UnsupportedLength u16
  | OutOfRange nat u16 u16
  | ValueTooWide u16 u64

definition validate_range :: "bytes \<Rightarrow> bit_field \<Rightarrow> (unit, bitops_error) result" where
  "validate_range bits bf =
     (if bits = [] \<or> length bits > 8 then Err (UnsupportedWidth (length bits))
      else if bit_length bf = 0 \<or> bit_length bf > 64 then Err (UnsupportedLength (bit_length bf))
      else if unat (bit_offset bf) + unat (bit_length bf) > length bits * 8
      then Err (OutOfRange (length bits) (bit_offset bf) (bit_length bf))
      else Ok ())"

definition field_mask :: "u16 \<Rightarrow> u128" where
  "field_mask n = (if n = 64 then ucast (- 1 :: u64) else push_bit (unat n) 1 - 1)"

text \<open>The loops that load a register, shared by reading and writing.\<close>

definition load_register :: "byte_order \<Rightarrow> bytes \<Rightarrow> u128" where
  "load_register order bits =
     (case order of
        Little \<Rightarrow> fold (\<lambda>(i, b) v. v OR push_bit (i * 8) (ucast b)) (List.enumerate 0 bits) 0
      | Big \<Rightarrow> foldl (\<lambda>v b. push_bit 8 v OR ucast b) 0 bits)"

text \<open>How far the field lies above the least significant bit of the loaded register.\<close>

definition field_shift :: "nat \<Rightarrow> bit_field \<Rightarrow> nat" where
  "field_shift len bf =
     (case byte_order bf of
        Little \<Rightarrow> unat (bit_offset bf)
      | Big \<Rightarrow> len * 8 - unat (bit_offset bf) - unat (bit_length bf))"

definition extract_field :: "bytes \<Rightarrow> bit_field \<Rightarrow> (u64, bitops_error) result" where
  "extract_field bits bf =
     and_then (validate_range bits bf) (\<lambda>_.
       Ok (ucast (drop_bit (field_shift (length bits) bf) (load_register (byte_order bf) bits)
                  AND field_mask (bit_length bf))))"

definition store_register :: "byte_order \<Rightarrow> nat \<Rightarrow> u128 \<Rightarrow> bytes" where
  "store_register order len full =
     (case order of
        Little \<Rightarrow> map (\<lambda>i. ucast (drop_bit (i * 8) full AND 0xFF)) [0..<len]
      | Big \<Rightarrow> map (\<lambda>i. ucast (drop_bit ((len - 1 - i) * 8) full AND 0xFF)) [0..<len])"

definition insert_field :: "bytes \<Rightarrow> bit_field \<Rightarrow> u64 \<Rightarrow> (bytes, bitops_error) result" where
  "insert_field dst bf v =
     and_then (validate_range dst bf) (\<lambda>_.
       let mask = field_mask (bit_length bf) in
       if ucast v > mask then Err (ValueTooWide (bit_length bf) v)
       else
         let shift = field_shift (length dst) bf;
             full = (load_register (byte_order bf) dst AND NOT (push_bit shift mask)) OR push_bit shift (ucast v) in
         Ok (store_register (byte_order bf) (length dst) full))"

section \<open>Registers bit by bit\<close>

text \<open>The byte that holds bit \<open>n\<close>, counted from the least significant bit of the register.\<close>

definition byte_at :: "byte_order \<Rightarrow> nat \<Rightarrow> nat \<Rightarrow> nat" where
  "byte_at order len n = (case order of Little \<Rightarrow> n div 8 | Big \<Rightarrow> len - 1 - n div 8)"

lemma bit_load_big:
  "n < 128 \<Longrightarrow> bit (load_register Big bits) n \<longleftrightarrow>
     n < 8 * length bits \<and> bit (bits ! (length bits - 1 - n div 8)) (n mod 8)"
proof (induction bits arbitrary: n rule: rev_induct)
  case Nil
  then show ?case by (simp add: load_register_def)
next
  case (snoc b bs)
  have l: "load_register Big (bs @ [b]) = push_bit 8 (load_register Big bs) OR ucast b"
    by (simp add: load_register_def)
  show ?case
  proof (cases "n < 8")
    case True
    then show ?thesis using snoc.prems by (simp add: l bit_simps nth_append)
  next
    case False
    then have d: "n div 8 = Suc ((n - 8) div 8)" "n mod 8 = (n - 8) mod 8" by (auto simp: le_div_geq le_mod_geq)
    have "bit (load_register Big (bs @ [b])) n = bit (load_register Big bs) (n - 8)"
      using False snoc.prems by (auto simp: l bit_simps dest: bit_imp_le_length)
    also have "\<dots> \<longleftrightarrow> n - 8 < 8 * length bs \<and> bit (bs ! (length bs - 1 - (n - 8) div 8)) ((n - 8) mod 8)"
      using snoc by simp
    also have "\<dots> \<longleftrightarrow> n < 8 * length (bs @ [b]) \<and> bit ((bs @ [b]) ! (length (bs @ [b]) - 1 - n div 8)) (n mod 8)"
      using False by (auto simp: d nth_append)
    finally show ?thesis .
  qed
qed

lemma bit_load_little:
  "n < 128 \<Longrightarrow> bit (load_register Little bits) n \<longleftrightarrow> n < 8 * length bits \<and> bit (bits ! (n div 8)) (n mod 8)"
proof (induction bits rule: rev_induct)
  case (snoc b bs)
  have l: "load_register Little (bs @ [b]) = load_register Little bs OR push_bit (length bs * 8) (ucast b)"
    by (simp add: load_register_def enumerate_append_eq)
  have p: "bit (push_bit (length bs * 8) (ucast b) :: u128) n \<longleftrightarrow> length bs * 8 \<le> n \<and> bit b (n - length bs * 8)"
    using snoc.prems by (auto simp: bit_simps)
  consider "n < 8 * length bs" | "8 * length bs \<le> n" "n < 8 * length bs + 8" | "8 * length bs + 8 \<le> n" by linarith
  then show ?case
  proof cases
    case 1
    then show ?thesis using snoc by (auto simp: l bit_or_iff p nth_append)
  next
    case 2
    then have "n div 8 = length bs" "n mod 8 = n - length bs * 8" by (auto simp: div_nat_eqI modulo_nat_def)
    then show ?thesis using snoc 2 by (auto simp: l bit_or_iff p)
  next
    case 3
    then have "\<not> bit b (n - length bs * 8)" using bit_imp_le_length [of b] by fastforce
    then show ?thesis using snoc 3 by (auto simp: l bit_or_iff p)
  qed
qed (simp add: load_register_def)

lemma bit_load:
  "n < 128 \<Longrightarrow> bit (load_register order bits) n \<longleftrightarrow>
     n < 8 * length bits \<and> bit (bits ! byte_at order (length bits) n) (n mod 8)"
  by (cases order) (simp_all add: bit_load_big bit_load_little byte_at_def)

lemma length_store [simp]: "length (store_register order len full) = len"
  by (simp add: store_register_def split: byte_order.split)

lemma bit_byte_of: "k < 8 \<Longrightarrow> bit (ucast (w AND 0xFF :: u128) :: byte) k \<longleftrightarrow> bit w k"
proof -
  have m: "(0xFF :: u128) = mask 8" by (simp add: mask_eq_exp_minus_1)
  show "k < 8 \<Longrightarrow> ?thesis" unfolding m by (simp add: bit_simps)
qed

lemma load_store:
  assumes "len \<le> 8" "n < 128"
  shows "bit (load_register order (store_register order len full)) n \<longleftrightarrow> n < 8 * len \<and> bit full n"
proof (cases "n < 8 * len")
  case True
  then have d: "n div 8 < len" by auto
  have "n div 8 * 8 + n mod 8 = n" by simp
  then show ?thesis
    using True d assms by (cases order) (simp_all add: bit_load byte_at_def store_register_def bit_byte_of bit_drop_bit_eq)
qed (simp add: bit_load assms)

section \<open>Fields\<close>

text \<open>When a field and a register fit together, and the bits of the register it covers.\<close>

definition field_fits :: "bytes \<Rightarrow> bit_field \<Rightarrow> bool" where
  "field_fits bits bf \<longleftrightarrow>
     1 \<le> length bits \<and> length bits \<le> 8 \<and> 1 \<le> unat (bit_length bf) \<and> unat (bit_length bf) \<le> 64 \<and>
     unat (bit_offset bf) + unat (bit_length bf) \<le> length bits * 8"

lemma validate_range_iff: "validate_range bits bf = Ok () \<longleftrightarrow> field_fits bits bf"
proof -
  have "bit_length bf = 0 \<longleftrightarrow> unat (bit_length bf) = 0" by (simp add: unat_eq_0)
  moreover have "bit_length bf > 64 \<longleftrightarrow> unat (bit_length bf) > 64" by (simp add: word_less_nat_alt)
  ultimately show ?thesis by (auto simp: validate_range_def field_fits_def Suc_le_eq)
qed

lemma field_mask_eq: "1 \<le> unat n \<Longrightarrow> unat n \<le> 64 \<Longrightarrow> field_mask n = mask (unat n)"
proof (cases "n = 64")
  case True
  have "ucast (- 1 :: u64) = (mask 64 :: u128)" by (rule bit_word_eqI) (simp add: bit_simps)
  then show ?thesis using True by (simp add: field_mask_def)
next
  case False
  then show ?thesis by (simp add: field_mask_def mask_eq_exp_minus_1 push_bit_eq_mult)
qed

lemma too_wide:
  fixes v :: u64
  assumes "k \<le> 64" shows "(ucast v :: u128) > mask k \<longleftrightarrow> 2 ^ k \<le> unat v"
proof -
  have "(2 :: nat) ^ k \<le> 2 ^ 64" using assms by (rule power_increasing) simp
  then have "2 ^ k - 1 < (2 :: nat) ^ 128" by simp
  moreover have "(mask k :: u128) = word_of_nat (2 ^ k - 1)"
    using of_nat_mask_eq [of k, where ?'a = u128] by (simp add: mask_eq_exp_minus_1)
  ultimately have "unat (mask k :: u128) = 2 ^ k - 1" by (simp only: unat_of_nat) simp
  moreover have "unat (ucast v :: u128) = unat v"
    using unsigned_less [of v, where ?'a = nat] by (simp add: unsigned_ucast_eq take_bit_nat_eq_self)
  moreover have "(2 :: nat) ^ k \<noteq> 0" by simp
  ultimately show ?thesis unfolding word_less_nat_alt by linarith
qed

lemma bit_of_fitting:
  fixes v :: u64
  assumes "unat v < 2 ^ k" "k \<le> j" shows "\<not> bit v j"
proof -
  have "(2 :: nat) ^ k \<le> 2 ^ j" using assms(2) by (rule power_increasing) simp
  with assms(1) have "unat v < 2 ^ j" by (rule less_le_trans)
  then have "unat v div 2 ^ j = 0" by simp
  then have "\<not> bit (unat v) j" by (simp add: bit_iff_odd)
  then show ?thesis by (simp add: bit_unsigned_iff bit_imp_le_length)
qed

lemma bit_extract:
  assumes "field_fits bits bf"
  obtains v where "extract_field bits bf = Ok v"
    "\<And>k. bit v k \<longleftrightarrow> k < unat (bit_length bf) \<and>
       bit (load_register (byte_order bf) bits) (field_shift (length bits) bf + k)"
proof
  let ?v = "ucast (drop_bit (field_shift (length bits) bf) (load_register (byte_order bf) bits)
      AND field_mask (bit_length bf)) :: u64"
  from assms have l: "1 \<le> unat (bit_length bf)" "unat (bit_length bf) \<le> 64" by (simp_all add: field_fits_def)
  show "extract_field bits bf = Ok ?v" using validate_range_iff [of bits bf] assms by (simp add: extract_field_def)
  show "bit ?v k \<longleftrightarrow> k < unat (bit_length bf) \<and>
      bit (load_register (byte_order bf) bits) (field_shift (length bits) bf + k)" for k
    unfolding field_mask_eq [OF l] using l by (auto simp: bit_simps)
qed

lemma bit_insert:
  assumes "field_fits dst bf" "insert_field dst bf v = Ok dst'"
  shows "length dst' = length dst" "unat v < 2 ^ unat (bit_length bf)"
    "n < 128 \<Longrightarrow> bit (load_register (byte_order bf) dst') n \<longleftrightarrow>
      (if field_shift (length dst) bf \<le> n \<and> n < field_shift (length dst) bf + unat (bit_length bf)
       then bit v (n - field_shift (length dst) bf) else bit (load_register (byte_order bf) dst) n)"
proof -
  let ?s = "field_shift (length dst) bf" and ?o = "byte_order bf" and ?k = "unat (bit_length bf)"
  let ?full = "(load_register ?o dst AND NOT (push_bit ?s (mask ?k))) OR push_bit ?s (ucast v)"
  from assms(1) have l: "1 \<le> ?k" "?k \<le> 64" "length dst \<le> 8" by (simp_all add: field_fits_def)
  have s: "?s + ?k \<le> 8 * length dst" using assms(1)
    by (cases "byte_order bf") (auto simp: field_shift_def field_fits_def)
  from assms have fit: "\<not> (ucast v :: u128) > mask ?k" and eq: "dst' = store_register ?o (length dst) ?full"
    using validate_range_iff [of dst bf] by (auto simp: insert_field_def field_mask_eq [OF l(1,2)] Let_def split: if_splits)
  show "length dst' = length dst" by (simp add: eq)
  show v: "unat v < 2 ^ ?k" using fit too_wide [OF l(2)] by (simp add: not_le)
  assume n: "n < 128"
  have inside: "?s \<le> n \<Longrightarrow> bit (push_bit ?s (ucast v) :: u128) n \<longleftrightarrow> bit v (n - ?s)"
    using n by (auto simp: bit_simps)
  have outside: "bit (push_bit ?s (ucast v) :: u128) n \<Longrightarrow> ?s \<le> n \<and> n < ?s + ?k"
    using bit_of_fitting [OF v, of "n - ?s"] by (cases "n < ?s + ?k") (auto simp: bit_simps)
  have hole: "bit (push_bit ?s (mask ?k) :: u128) n \<longleftrightarrow> ?s \<le> n \<and> n < ?s + ?k" using n by (auto simp: bit_simps)
  show "bit (load_register ?o dst') n \<longleftrightarrow>
      (if ?s \<le> n \<and> n < ?s + ?k then bit v (n - ?s) else bit (load_register ?o dst) n)"
  proof (cases "?s \<le> n \<and> n < ?s + ?k")
    case True
    then have "n < 8 * length dst" using s by linarith
    then show ?thesis unfolding eq load_store [OF l(3) n]
      using True inside hole n by (simp add: bit_or_iff bit_and_iff bit_not_iff)
  next
    case False
    then have "bit ?full n = bit (load_register ?o dst) n"
      using outside hole n by (auto simp: bit_or_iff bit_and_iff bit_not_iff)
    then show ?thesis unfolding eq load_store [OF l(3) n] using False bit_load [OF n, of ?o dst] by auto
  qed
qed

section \<open>Properties\<close>

text \<open>Two fields of one register that share no bit.\<close>

definition fields_apart :: "bit_field \<Rightarrow> bit_field \<Rightarrow> bool" where
  "fields_apart f g \<longleftrightarrow> byte_order f = byte_order g \<and>
     (unat (bit_offset f) + unat (bit_length f) \<le> unat (bit_offset g) \<or>
      unat (bit_offset g) + unat (bit_length g) \<le> unat (bit_offset f))"

lemma shift_apart:
  assumes "field_fits bits f" "field_fits bits g" "fields_apart f g"
  shows "field_shift (length bits) f + unat (bit_length f) \<le> field_shift (length bits) g \<or>
    field_shift (length bits) g + unat (bit_length g) \<le> field_shift (length bits) f"
  using assms by (cases "byte_order g") (auto simp: field_shift_def field_fits_def fields_apart_def)

lemma fits_shift: "field_fits bits f \<Longrightarrow> field_shift (length bits) f + unat (bit_length f) \<le> 64"
  by (cases "byte_order f") (auto simp: field_shift_def field_fits_def)

text \<open>
  Writing a bit field and reading it back gives the value written, in either byte order, the
  register keeps its length, and every other field of the register that shares no bit with it
  reads as before.
\<close>
theorem bit_field_roundtrip:
  assumes "insert_field dst f v = Ok dst'"
  shows "length dst' = length dst \<and> extract_field dst' f = Ok v \<and>
    (\<forall>g. field_fits dst g \<longrightarrow> fields_apart f g \<longrightarrow> extract_field dst' g = extract_field dst g)"
proof -
  have fits: "field_fits dst f"
    using assms validate_range_iff [of dst f] by (auto simp: insert_field_def and_then_eq_Ok)
  note b = bit_insert [OF fits assms]
  have len: "length dst' = length dst" by (rule b(1))
  then have fits': "field_fits dst' g" if "field_fits dst g" for g using that by (auto simp: field_fits_def)
  obtain w where w: "extract_field dst' f = Ok w" "\<And>k. bit w k \<longleftrightarrow> k < unat (bit_length f) \<and>
      bit (load_register (byte_order f) dst') (field_shift (length dst') f + k)"
    using bit_extract [OF fits' [OF fits]] by blast
  have "w = v"
  proof (rule bit_word_eqI)
    fix k
    show "bit w k = bit v k"
      using w(2) [of k] b(3) [of "field_shift (length dst) f + k"] bit_of_fitting [OF b(2), of k] fits_shift [OF fits]
      by (cases "k < unat (bit_length f)") (auto simp: len)
  qed
  moreover have "extract_field dst' g = extract_field dst g" if g: "field_fits dst g" "fields_apart f g" for g
  proof -
    obtain x where x: "extract_field dst' g = Ok x" "\<And>k. bit x k \<longleftrightarrow> k < unat (bit_length g) \<and>
        bit (load_register (byte_order g) dst') (field_shift (length dst') g + k)"
      using bit_extract [OF fits' [OF g(1)]] by blast
    obtain y where y: "extract_field dst g = Ok y" "\<And>k. bit y k \<longleftrightarrow> k < unat (bit_length g) \<and>
        bit (load_register (byte_order g) dst) (field_shift (length dst) g + k)"
      using bit_extract [OF g(1)] by blast
    have o: "byte_order g = byte_order f" using g(2) by (simp add: fields_apart_def)
    have "x = y"
    proof (rule bit_word_eqI)
      fix k
      show "bit x k = bit y k"
        using x(2) [of k] y(2) [of k] b(3) [of "field_shift (length dst) g + k"]
          shift_apart [OF fits g] fits_shift [OF g(1)] by (auto simp: len o)
    qed
    then show ?thesis using x(1) y(1) by simp
  qed
  ultimately show ?thesis using w(1) len by blast
qed

lemma bit_field_roundtrip_witness:
  "extract_field [0x40, 0x00] \<lparr>bit_offset = 0, bit_length = 3, byte_order = Big\<rparr> = Ok 2"
proof -
  have "insert_field [0x80, 0x00] \<lparr>bit_offset = 0, bit_length = 3, byte_order = Big\<rparr> 2 = Ok [0x40, 0x00]"
    by code_simp
  from bit_field_roundtrip [OF this] show ?thesis by blast
qed

text \<open>
  The errors of bit field access are exactly the documented ones and there is no panic: reading
  succeeds if and only if the register has one to eight bytes, the field one to sixty-four bits,
  and the field lies within the register; writing needs in addition a value that fits the field,
  and otherwise reports it as too wide.
\<close>
theorem bit_field_errors:
  "(\<exists>v. extract_field bits f = Ok v) = field_fits bits f \<and> extract_field bits f \<noteq> Panic \<and>
   (\<exists>d. insert_field bits f v = Ok d) = (field_fits bits f \<and> unat v < 2 ^ unat (bit_length f)) \<and>
   insert_field bits f v \<noteq> Panic \<and>
   (insert_field bits f v = Err (ValueTooWide (bit_length f) v)) =
     (field_fits bits f \<and> 2 ^ unat (bit_length f) \<le> unat v)"
proof (cases "field_fits bits f")
  case True
  then have l: "1 \<le> unat (bit_length f)" "unat (bit_length f) \<le> 64" by (simp_all add: field_fits_def)
  have "validate_range bits f = Ok ()" using True validate_range_iff by blast
  then show ?thesis using True too_wide [OF l(2), of v]
    by (auto simp: extract_field_def insert_field_def field_mask_eq [OF l] Let_def)
next
  case False
  then have "validate_range bits f \<noteq> Ok ()" using validate_range_iff by blast
  then obtain e where "validate_range bits f = Err e" "\<forall>k w. e \<noteq> ValueTooWide k w"
    by (auto simp: validate_range_def split: if_splits)
  then show ?thesis using False by (auto simp: extract_field_def insert_field_def)
qed

end
