(* ===== verification/Conversions.thy ===== *)
theory Conversions
  imports Bitops
begin

text \<open>
  Conversions between register payloads, bit fields and GenApi's \<open>i64\<close> integers
  (\<^verbatim>\<open>crates/viva-genapi/src/conversions.rs\<close>). The name of the node only labels errors and is
  left out of them; log output is left out. Shifts of an \<open>i128\<close> are exact here, so the signed
  range is computed on \<open>int\<close>.
\<close>

datatype sign = Unsigned | Signed

definition is_signed :: "sign \<Rightarrow> bool" where
  "is_signed s \<longleftrightarrow> s = Signed"

datatype conversion_error =
    RegisterEncoding nat string
  | Unrepresentable i64
  | BitsTooWide i64 u16

section \<open>Whole registers\<close>

definition bytes_to_i64 :: "bytes \<Rightarrow> sign \<Rightarrow> byte_order \<Rightarrow> (i64, conversion_error) result" where
  "bytes_to_i64 bytes sg order =
     (if bytes = [] then Err (RegisterEncoding 0 ''the register returned no bytes'')
      else if length bytes > 8
      then Err (RegisterEncoding (length bytes) ''an integer register is at most 8 bytes'')
      else
        let big = (case order of Big \<Rightarrow> bytes | Little \<Rightarrow> rev bytes);
            fill = (if is_signed sg \<and> hd big AND 0x80 \<noteq> 0 then 0xFF else 0) in
        Ok (be_word (replicate (8 - length bytes) fill @ big)))"

definition i64_to_bytes :: "i64 \<Rightarrow> nat \<Rightarrow> sign \<Rightarrow> byte_order \<Rightarrow> (bytes, conversion_error) result" where
  "i64_to_bytes v width sg order =
     (if width = 0 \<or> width > 8 then Err (RegisterEncoding width ''an integer register is 1 to 8 bytes'')
      else
        let low = drop (8 - width) (to_be 8 (unat v));
            data = (case order of Little \<Rightarrow> rev low | Big \<Rightarrow> low) in
        and_then (bytes_to_i64 data sg order) (\<lambda>roundtrip.
          if roundtrip \<noteq> v then Err (Unrepresentable v) else Ok data))"

section \<open>Bit fields\<close>

definition sign_extend :: "u64 \<Rightarrow> u16 \<Rightarrow> i64" where
  "sign_extend v bits = (let shift = 64 - unat bits in signed_drop_bit shift (push_bit shift v))"

definition interpret_bitfield_value :: "u64 \<Rightarrow> u16 \<Rightarrow> bool \<Rightarrow> (i64, conversion_error) result" where
  "interpret_bitfield_value raw bits sn =
     (if sn then Ok (sign_extend raw bits)
      else if unat raw < 2 ^ 63 then Ok raw
      else Err (RegisterEncoding (unat bits) ''an unsigned bit field this wide exceeds i64''))"

definition encode_bitfield_value :: "i64 \<Rightarrow> u16 \<Rightarrow> bool \<Rightarrow> (u64, conversion_error) result" where
  "encode_bitfield_value v bits sn =
     (if bits = 0 \<or> bits > 64 then Err (RegisterEncoding (unat bits) ''a bit field is 1 to 64 bits'')
      else if sn then
        if sint v < - (2 ^ (unat bits - 1)) \<or> sint v > 2 ^ (unat bits - 1) - 1 then Err (BitsTooWide v bits)
        else Ok (ucast ((scast v :: u128) AND field_mask bits))
      else if sint v < 0 then Err (BitsTooWide v bits)
      else if (ucast v :: u128) > field_mask bits then Err (BitsTooWide v bits)
      else Ok v)"

section \<open>Registers as numbers\<close>

text \<open>The number a register of \<open>w\<close> bytes with the unsigned content \<open>n\<close> stands for.\<close>

definition register_value :: "sign \<Rightarrow> nat \<Rightarrow> nat \<Rightarrow> int" where
  "register_value sg w n =
     (if (is_signed sg \<or> w = 8) \<and> 2 ^ (8 * w - 1) \<le> n then int n - 2 ^ (8 * w) else int n)"

text \<open>The numbers such a register can hold.\<close>

definition register_holds :: "sign \<Rightarrow> nat \<Rightarrow> int \<Rightarrow> bool" where
  "register_holds sg w x \<longleftrightarrow>
     (if is_signed sg \<or> w = 8 then - (2 ^ (8 * w - 1)) \<le> x \<and> x < 2 ^ (8 * w - 1) else 0 \<le> x \<and> x < 2 ^ (8 * w))"

definition big_endian :: "byte_order \<Rightarrow> bytes \<Rightarrow> bytes" where
  "big_endian order bs = (case order of Big \<Rightarrow> bs | Little \<Rightarrow> rev bs)"

lemma be_nat_append: "be_nat (xs @ ys) = be_nat xs * 256 ^ length ys + be_nat ys"
proof (induction ys rule: rev_induct)
  case (snoc y ys)
  then show ?case by (simp add: algebra_simps flip: append_assoc)
qed simp

lemma be_nat_Cons: "be_nat (x # xs) = unat x * 256 ^ length xs + be_nat xs"
  using be_nat_append [of "[x]" xs] be_nat_snoc [of "[]" x] by simp

lemma be_nat_zeros: "be_nat (replicate k 0) = 0"
  by (induction k) (simp_all add: be_nat_Cons)

lemma be_nat_ones: "be_nat (replicate k 0xFF) = 256 ^ k - 1"
proof (induction k)
  case (Suc k)
  have "(1 :: nat) \<le> 256 ^ k" by simp
  then show ?case by (simp add: be_nat_Cons Suc)
qed simp

lemma pow_byte: "(256 :: 'a :: comm_semiring_1) ^ k = 2 ^ (8 * k)"
  by (simp add: power_mult)

lemma top_bit: "(b :: byte) AND 0x80 \<noteq> 0 \<longleftrightarrow> 128 \<le> unat b"
proof -
  have "b AND 0x80 \<noteq> 0 \<longleftrightarrow> bit b 7" using and_exp_eq_0_iff_not_bit [of b 7] by simp
  also have "\<dots> \<longleftrightarrow> bit (unat b) 7" by (simp add: bit_unsigned_iff)
  also have "\<dots> \<longleftrightarrow> odd (unat b div 2 ^ 7)" by (simp only: bit_iff_odd)
  also have "\<dots> \<longleftrightarrow> 128 \<le> unat b"
  proof -
    have "unat b < 256" by simp
    then have "unat b div 128 < 2" by (simp add: div_less_iff_less_mult)
    then show ?thesis by (cases "unat b div 128 = 0") (auto simp: div_eq_0_iff)
  qed
  finally show ?thesis .
qed

lemma top_bit_number:
  assumes "bs \<noteq> []"
  shows "hd bs AND 0x80 \<noteq> 0 \<longleftrightarrow> 2 ^ (8 * length bs - 1) \<le> be_nat bs"
proof -
  obtain x xs where bs: "bs = x # xs" using assms by (cases bs) auto
  let ?m = "256 ^ length xs :: nat"
  have "8 * length bs - 1 = 7 + 8 * length xs" by (simp add: bs)
  then have p: "(2 :: nat) ^ (8 * length bs - 1) = 128 * ?m" by (simp only: power_add pow_byte) simp
  have b: "be_nat xs < ?m" by (rule be_nat_bound)
  have "128 * ?m \<le> unat x * ?m + be_nat xs \<longleftrightarrow> 128 \<le> unat x"
  proof
    assume "128 \<le> unat x"
    then have "128 * ?m \<le> unat x * ?m" by (rule mult_le_mono1)
    then show "128 * ?m \<le> unat x * ?m + be_nat xs" by (rule trans_le_add1)
  next
    assume l: "128 * ?m \<le> unat x * ?m + be_nat xs"
    also have "\<dots> < unat x * ?m + ?m" using b by simp
    also have "\<dots> = (unat x + 1) * ?m" by simp
    finally have "128 < unat x + 1" by (simp only: mult_less_cancel2)
    then show "128 \<le> unat x" by simp
  qed
  then show ?thesis unfolding top_bit p by (simp add: bs be_nat_Cons)
qed

text \<open>What \<open>bytes_to_i64\<close> reads, as a number.\<close>

lemma sint_of_nat:
  fixes x :: nat assumes "x < 2 ^ 64"
  shows "sint (word_of_nat x :: i64) = (if x < 2 ^ 63 then int x else int x - 2 ^ 64)"
proof -
  have u: "uint (word_of_nat x :: i64) = int x" using assms by (simp add: unsigned_of_nat take_bit_nat_eq_self)
  have s: "sint (word_of_nat x :: i64) = (int x + 2 ^ 63) mod 2 ^ 64 - 2 ^ 63"
    by (simp add: sint_uint u signed_take_bit_eq_take_bit_shift take_bit_eq_mod)
  show ?thesis
  proof (cases "x < 2 ^ 63")
    case True
    then have "(int x + 2 ^ 63) mod 2 ^ 64 = int x + 2 ^ 63" by (intro mod_pos_pos_trivial) auto
    then show ?thesis using True s by simp
  next
    case False
    have "(int x + 2 ^ 63) mod 2 ^ 64 = (int x - 2 ^ 63 + 2 ^ 64) mod 2 ^ 64" by (simp add: add.commute)
    also have "\<dots> = (int x - 2 ^ 63) mod 2 ^ 64" by (rule mod_add_self2)
    also have "\<dots> = int x - 2 ^ 63" using False assms by (intro mod_pos_pos_trivial) auto
    finally show ?thesis using False s by simp
  qed
qed

lemma sint_unat: "sint (v :: i64) = (if unat v < 2 ^ 63 then int (unat v) else int (unat v) - 2 ^ 64)"
proof -
  have "unat v < 2 ^ 64" using unsigned_less [of v, where ?'a = nat] by simp
  moreover have "(word_of_nat (unat v) :: i64) = v" by simp
  ultimately show ?thesis using sint_of_nat [of "unat v"] by argo
qed

lemma bytes_to_i64_value:
  assumes "1 \<le> length bs" "length bs \<le> 8"
  obtains x where "bytes_to_i64 bs sg order = Ok x"
    "sint x = register_value sg (length bs) (be_nat (big_endian order bs))"
proof -
  let ?b = "big_endian order bs" and ?w = "length bs"
  let ?n = "be_nat ?b"
  have bs: "bs \<noteq> []" using assms(1) by auto
  have len: "length ?b = ?w" "?b \<noteq> []" using bs by (auto simp: big_endian_def split: byte_order.split)
  have bound: "?n < 256 ^ ?w" using be_nat_bound [of ?b] len by simp
  let ?neg = "is_signed sg \<and> 2 ^ (8 * ?w - 1) \<le> ?n"
  let ?m = "be_nat (replicate (8 - ?w) (if ?neg then 0xFF else 0) @ ?b)"
  have ok: "bytes_to_i64 bs sg order = Ok (word_of_nat ?m)"
    using assms(2) bs top_bit_number [OF len(2)] len(1)
    by (simp add: bytes_to_i64_def be_word_def Let_def flip: big_endian_def)
  have p: "(256 :: nat) ^ (8 - ?w) * 256 ^ ?w = 2 ^ 64" using assms(2) by (simp flip: power_add)
  have m: "?m = (if ?neg then 2 ^ 64 - 256 ^ ?w + ?n else ?n)"
    unfolding be_nat_append len(1) using p by (simp add: be_nat_zeros be_nat_ones diff_mult_distrib)
  have le: "(256 :: nat) ^ ?w \<le> 2 ^ 64" using power_increasing [of ?w 8 "256 :: nat"] assms(2) by simp
  then have small: "?m < 2 ^ 64" using bound unfolding m by (auto simp del: power_numeral)
  have "Suc (8 * ?w - 1) = 8 * ?w" using assms(1) by linarith
  then have top: "(2 :: nat) ^ (8 * ?w - 1) * 2 = 256 ^ ?w" by (metis pow_byte power_Suc2)
  show thesis
  proof (rule that [OF ok])
    show "sint (word_of_nat ?m :: i64) = register_value sg ?w ?n"
    proof (cases ?neg)
      case True
      have "256 ^ ?w - ?n \<le> (2 :: nat) ^ (8 * ?w - 1)" using True top by linarith
      also have "\<dots> \<le> 2 ^ 63" using assms(2) by (intro power_increasing) auto
      finally have "\<not> ?m < 2 ^ 63" using m True le bound by auto
      then have "sint (word_of_nat ?m :: i64) = int ?m - 2 ^ 64" using sint_of_nat [OF small] by simp
      also have "int ?m = 2 ^ 64 - 2 ^ (8 * ?w) + int ?n" using m True le by (simp add: of_nat_diff pow_byte)
      finally show ?thesis using True by (simp add: register_value_def)
    next
      case False
      then have m': "?m = ?n" using m by auto
      show ?thesis
      proof (cases "?w = 8")
        case True
        then show ?thesis using sint_of_nat [OF small] m' False by (auto simp: register_value_def)
      next
        case w: False
        then have "(256 :: nat) ^ ?w \<le> 256 ^ 7" using assms(2) by (intro power_increasing) auto
        then have "?n < 2 ^ 63" using bound by simp
        then show ?thesis using sint_of_nat [OF small] m' False w by (auto simp: register_value_def)
      qed
    qed
  qed
qed

section \<open>Round trips\<close>

lemma congruent_eq:
  fixes a b lo m :: int
  assumes "a mod m = b mod m" "lo \<le> a" "a < lo + m" "lo \<le> b" "b < lo + m"
  shows "a = b"
proof -
  have "(a - lo) mod m = (b - lo) mod m" using assms(1) by (rule mod_diff_cong) simp
  moreover have "(a - lo) mod m = a - lo" "(b - lo) mod m = b - lo"
    using assms by (auto intro!: mod_pos_pos_trivial)
  ultimately show ?thesis by simp
qed

lemma register_value_holds:
  assumes "1 \<le> w" "n < 256 ^ w"
  shows "register_holds sg w (register_value sg w n)" "register_value sg w n mod 2 ^ (8 * w) = int n"
proof -
  have "Suc (8 * w - 1) = 8 * w" using assms(1) by linarith
  then have two: "(2 :: nat) ^ (8 * w) = 2 * 2 ^ (8 * w - 1)" by (metis power_Suc)
  then have two': "(2 :: int) ^ (8 * w) = 2 * 2 ^ (8 * w - 1)" by (metis of_nat_numeral of_nat_power of_nat_mult)
  have n: "int n < 2 ^ (8 * w)" using assms(2) by (simp add: pow_byte)
  have half: "2 ^ (8 * w - 1) \<le> n \<longleftrightarrow> 2 ^ (8 * w - 1) \<le> int n"
    by (metis of_nat_le_iff of_nat_numeral of_nat_power)
  show "register_holds sg w (register_value sg w n)"
    using n two' half by (auto simp: register_holds_def register_value_def)
  show "register_value sg w n mod 2 ^ (8 * w) = int n"
    using n by (auto simp: register_value_def mod_pos_pos_trivial)
qed

lemma register_holds_unique:
  assumes "1 \<le> w" "register_holds sg w a" "register_holds sg w b" "a mod 2 ^ (8 * w) = b mod 2 ^ (8 * w)"
  shows "a = b"
proof -
  have "Suc (8 * w - 1) = 8 * w" using assms(1) by linarith
  then have "(2 :: int) ^ (8 * w) = 2 * 2 ^ (8 * w - 1)" by (metis power_Suc)
  then show ?thesis
    using assms(2-4) congruent_eq [of a "2 ^ (8 * w)" b "if is_signed sg \<or> w = 8 then - (2 ^ (8 * w - 1)) else 0"]
    by (auto simp: register_holds_def split: if_splits)
qed

lemma low_bytes:
  assumes "w \<le> 8" shows "be_nat (drop (8 - w) (to_be 8 (unat v))) = unat (v :: i64) mod 256 ^ w"
proof -
  let ?l = "drop (8 - w) (to_be 8 (unat v))" and ?h = "take (8 - w) (to_be 8 (unat v))"
  have len: "length ?l = w" using assms by simp
  have "unat v < 256 ^ 8" using unsigned_less [of v, where ?'a = nat] by simp
  then have "unat v = be_nat (?h @ ?l)" by (simp add: be_nat_to_be)
  also have "\<dots> = be_nat ?h * 256 ^ w + be_nat ?l" unfolding be_nat_append len ..
  finally have "unat v = be_nat ?h * 256 ^ w + be_nat ?l" .
  from arg_cong [OF this, of "\<lambda>x. x mod 256 ^ w"] have "unat v mod 256 ^ w = be_nat ?l mod 256 ^ w"
    by (simp only: mod_mult_self3)
  also have "\<dots> = be_nat ?l" using be_nat_bound [of ?l] len by simp
  finally show ?thesis by simp
qed

lemma unat_mod_register: "w \<le> 8 \<Longrightarrow> int (unat (v :: i64) mod 256 ^ w) = sint v mod 2 ^ (8 * w)"
proof -
  assume w: "w \<le> 8"
  have "int (unat v) mod 2 ^ 64 = sint v mod 2 ^ 64"
    using sint_of_nat [of "unat v"] unsigned_less [of v, where ?'a = nat] by (auto split: if_splits)
  moreover have "(2 :: int) ^ (8 * w) dvd 2 ^ 64" using w by (intro le_imp_power_dvd) simp
  ultimately have "int (unat v) mod 2 ^ (8 * w) = sint v mod 2 ^ (8 * w)"
    using mod_mod_cancel [of "2 ^ (8 * w)" "2 ^ 64" "int (unat v)"] mod_mod_cancel [of "2 ^ (8 * w)" "2 ^ 64" "sint v"]
    by argo
  then show ?thesis by (simp only: of_nat_mod of_nat_power of_nat_numeral pow_byte)
qed

lemma i64_to_bytes_reads:
  fixes v :: i64 and order :: byte_order
  assumes "1 \<le> w" "w \<le> 8"
  defines "low \<equiv> drop (8 - w) (to_be 8 (unat v))"
  defines "data \<equiv> (case order of Little \<Rightarrow> rev low | Big \<Rightarrow> low)"
  obtains x where "bytes_to_i64 data sg order = Ok x" "x = v \<longleftrightarrow> register_holds sg w (sint v)" "length data = w"
    "i64_to_bytes v w sg order = (if x = v then Ok data else Err (Unrepresentable v))"
proof -
  have len: "length data = w" "big_endian order data = low"
    using assms(2) by (auto simp: data_def low_def big_endian_def split: byte_order.split)
  have n: "be_nat low = unat v mod 256 ^ w" unfolding low_def by (rule low_bytes [OF assms(2)])
  obtain x where x: "bytes_to_i64 data sg order = Ok x" "sint x = register_value sg w (be_nat low)"
    using bytes_to_i64_value [of data sg order] assms(1,2) len by metis
  have b: "be_nat low < 256 ^ w" unfolding n by simp
  note r = register_value_holds [OF assms(1) b, of sg]
  have "sint x mod 2 ^ (8 * w) = sint v mod 2 ^ (8 * w)" using r(2) x(2) n unat_mod_register [OF assms(2), of v] by simp
  then have "sint x = sint v \<longleftrightarrow> register_holds sg w (sint v)"
    using register_holds_unique [OF assms(1), of sg "sint x" "sint v"] r(1) x(2) by auto
  then have "x = v \<longleftrightarrow> register_holds sg w (sint v)" by (metis signed_word_eqI)
  moreover have "i64_to_bytes v w sg order = (if x = v then Ok data else Err (Unrepresentable v))"
    using assms(1,2) x(1) unfolding data_def low_def by (simp add: i64_to_bytes_def Let_def)
  ultimately show thesis using that x(1) len(1) by blast
qed

text \<open>
  Integer registers round trip: writing a value to a register of one to eight bytes succeeds
  exactly when the register can hold it (two's complement range if signed, the unsigned range
  otherwise, and every \<open>i64\<close> for eight bytes), the bytes written have the register's width, reading
  them back gives the value, and conversely writing what was read from any payload gives the payload
  back, in either byte order.
\<close>
theorem register_roundtrip:
  assumes "1 \<le> w" and "w \<le> 8"
  shows "(\<exists>d. i64_to_bytes v w sg order = Ok d) = register_holds sg w (sint v) \<and>
    (\<forall>d. i64_to_bytes v w sg order = Ok d \<longrightarrow> length d = w \<and> bytes_to_i64 d sg order = Ok v) \<and>
    (\<forall>d x. length d = w \<longrightarrow> bytes_to_i64 d sg order = Ok x \<longrightarrow> i64_to_bytes x w sg order = Ok d)"
proof (intro conjI allI impI)
  show "(\<exists>d. i64_to_bytes v w sg order = Ok d) = register_holds sg w (sint v)"
    by (rule i64_to_bytes_reads [OF assms, where order = order and v = v and sg = sg]) auto
next
  fix d assume d: "i64_to_bytes v w sg order = Ok d"
  then show "length d = w" by - (rule i64_to_bytes_reads [OF assms, where order = order and v = v and sg = sg], auto split: if_splits)
  from d show "bytes_to_i64 d sg order = Ok v"
    by - (rule i64_to_bytes_reads [OF assms, where order = order and v = v and sg = sg], auto split: if_splits)
next
  fix d x assume d: "length d = w" "bytes_to_i64 d sg order = Ok x"
  let ?b = "big_endian order d"
  have len: "length ?b = w" using d(1) by (simp add: big_endian_def split: byte_order.split)
  have s: "sint x = register_value sg w (be_nat ?b)"
    using bytes_to_i64_value [of d sg order] d assms by (metis result.inject(1))
  have b: "be_nat ?b < 256 ^ w" using be_nat_bound [of ?b] len by simp
  note r = register_value_holds [OF assms(1) b, of sg]
  have "be_nat (drop (8 - w) (to_be 8 (unat x))) = be_nat ?b"
    using low_bytes [OF assms(2), of x] unat_mod_register [OF assms(2), of x] r(2) s by simp
  then have "drop (8 - w) (to_be 8 (unat x)) = ?b"
    using to_be_be_nat [of ?b w] to_be_be_nat [of "drop (8 - w) (to_be 8 (unat x))" w] len assms(2) by simp
  then have "(case order of Little \<Rightarrow> rev (drop (8 - w) (to_be 8 (unat x))) | Big \<Rightarrow> drop (8 - w) (to_be 8 (unat x))) = d"
    by (auto simp: big_endian_def split: byte_order.splits)
  then show "i64_to_bytes x w sg order = Ok d"
    using assms d(2) by (simp add: i64_to_bytes_def Let_def)
qed

lemma register_roundtrip_witness:
  "bytes_to_i64 [0xFE] Signed Big = Ok (- 2) \<and> i64_to_bytes (- 2) 1 Signed Big = Ok [0xFE]"
proof -
  have r: "replicate 7 x = [x, x, x, x, x, x, x]" for x :: byte by (simp add: eval_nat_numeral)
  have b: "bytes_to_i64 [0xFE] Signed Big = Ok (- 2)"
    by (simp add: bytes_to_i64_def is_signed_def be_word_def be_nat_def r)
  from register_roundtrip [of 1 0 Signed Big, THEN conjunct2, THEN conjunct2]
  have "i64_to_bytes (- 2) 1 Signed Big = Ok [0xFE]" using b by simp
  with b show ?thesis by blast
qed

section \<open>Values of bit fields\<close>

lemma bit_sint: "bit (sint (v :: i64)) k \<longleftrightarrow> bit v (min 63 k)"
  by (simp add: bit_signed_iff)

lemma bit_sign_extend:
  assumes "1 \<le> unat b" "unat b \<le> 64" "k < 64"
  shows "bit (sign_extend raw b) k \<longleftrightarrow> bit raw (min (unat b - 1) k)"
proof -
  have "bit (sign_extend raw b) k \<longleftrightarrow>
      bit (push_bit (64 - unat b) raw) (if unat b \<le> k then 63 else 64 - unat b + k)"
    using assms by (auto simp: sign_extend_def Let_def bit_signed_drop_bit_iff)
  also have "\<dots> \<longleftrightarrow> bit raw (min (unat b - 1) k)"
  proof (cases "unat b \<le> k")
    case True
    have "63 - (64 - unat b) = unat b - 1" "64 - unat b \<le> 63" "min (unat b - 1) k = unat b - 1"
      using assms True by linarith+
    then show ?thesis using True by (simp add: bit_push_bit_iff)
  next
    case False
    then have "min (unat b - 1) k = k" "64 - unat b \<le> 64 - unat b + k" "64 - unat b + k < 64"
      "64 - unat b + k - (64 - unat b) = k" using assms(2) by simp_all
    then show ?thesis using False by (simp add: bit_push_bit_iff)
  qed
  finally show ?thesis .
qed

text \<open>All bits from \<open>n - 1\<close> on are the sign.\<close>

definition steady :: "nat \<Rightarrow> int \<Rightarrow> bool" where
  "steady n x \<longleftrightarrow> (\<forall>k \<ge> n - 1. bit x k = bit x (n - 1))"

lemma steadyD: "steady n x \<Longrightarrow> n - 1 \<le> k \<Longrightarrow> bit x k = bit x (n - 1)"
  unfolding steady_def by blast

lemma range_bits: "- (2 ^ (n - 1)) \<le> x \<and> x \<le> 2 ^ (n - 1) - 1 \<longleftrightarrow> steady n x"
proof
  assume "- (2 ^ (n - 1)) \<le> x \<and> x \<le> 2 ^ (n - 1) - 1"
  then have "signed_take_bit (n - 1) x = x" by (intro signed_take_bit_int_eq_self) auto
  moreover have "bit (signed_take_bit (n - 1) x) k = bit x (min (n - 1) k)" for k
    by (simp add: bit_signed_take_bit_iff)
  ultimately have "bit x k = bit x (min (n - 1) k)" for k by metis
  then show "steady n x" unfolding steady_def by (metis min.absorb1)
next
  assume b: "steady n x"
  have "signed_take_bit (n - 1) x = x"
  proof (rule bit_eqI)
    fix k
    show "bit (signed_take_bit (n - 1) x) k = bit x k"
      using steadyD [OF b, of k] by (cases "n - 1 \<le> k") (simp_all add: bit_signed_take_bit_iff min_def)
  qed
  then show "- (2 ^ (n - 1)) \<le> x \<and> x \<le> 2 ^ (n - 1) - 1"
    using signed_take_bit_int_greater_eq_minus_exp [of "n - 1" x]
      signed_take_bit_int_less_exp [of "n - 1" x] by auto
qed

text \<open>The values a field of \<open>b\<close> bits can hold.\<close>

definition field_holds :: "nat \<Rightarrow> bool \<Rightarrow> int \<Rightarrow> bool" where
  "field_holds b sn x \<longleftrightarrow>
     (if sn then - (2 ^ (b - 1)) \<le> x \<and> x \<le> 2 ^ (b - 1) - 1 else 0 \<le> x \<and> x < 2 ^ b)"

lemma encode_signed:
  assumes "1 \<le> unat b" "unat b \<le> 64" "field_holds (unat b) True (sint v)"
  shows "\<exists>raw. encode_bitfield_value v b True = Ok raw \<and> (\<forall>k. bit raw k \<longleftrightarrow> k < unat b \<and> bit v k)"
proof (intro exI conjI allI)
  have b: "b \<noteq> 0" "\<not> b > 64" using assms by (auto simp: word_less_nat_alt)
  show "encode_bitfield_value v b True = Ok (ucast ((scast v :: u128) AND mask (unat b)))"
    using b assms by (auto simp: encode_bitfield_value_def field_holds_def field_mask_eq)
  fix k
  have "k < unat b \<Longrightarrow> min 63 k = k" using assms(2) by simp
  then show "bit (ucast ((scast v :: u128) AND mask (unat b)) :: u64) k \<longleftrightarrow> k < unat b \<and> bit v k"
    using assms(2) by (cases "k < unat b") (simp_all add: bit_simps)
qed

lemma sign_extend_encoded:
  assumes b: "1 \<le> unat b" "unat b \<le> 64" and "field_holds (unat b) True (sint v)"
    and raw: "\<And>k. bit raw k \<longleftrightarrow> k < unat b \<and> bit v k"
  shows "sign_extend raw b = v"
proof (rule bit_word_eqI)
  fix k assume k: "k < LENGTH(64)"
  have all: "steady (unat b) (sint v)" using range_bits [of "unat b" "sint v"] assms(3) by (simp add: field_holds_def)
  have m: "min 63 k = k" "min 63 (unat b - 1) = unat b - 1" using k b by simp_all
  have high: "bit v k = bit v (unat b - 1)" if "unat b - 1 \<le> k"
  proof -
    from steadyD [OF all that] show ?thesis unfolding bit_sint m .
  qed
  have "bit (sign_extend raw b) k = bit raw (min (unat b - 1) k)" using bit_sign_extend [OF b, of k raw] k by simp
  also have "\<dots> = bit v (min (unat b - 1) k)"
  proof -
    have "min (unat b - 1) k < unat b" using b(1) by linarith
    then show ?thesis unfolding raw by blast
  qed
  also have "\<dots> = bit v k" using high by (cases "unat b - 1 \<le> k") (simp_all add: min_def)
  finally show "bit (sign_extend raw b) k = bit v k" .
qed

lemma sign_extend_range:
  assumes b: "1 \<le> unat b" "unat b \<le> 64" shows "field_holds (unat b) True (sint (sign_extend raw b))"
proof -
  have "bit (sint (sign_extend raw b)) k = bit (sint (sign_extend raw b)) (unat b - 1)" if "unat b - 1 \<le> k" for k
  proof -
    have "min (unat b - 1) (min 63 k) = unat b - 1" "min (unat b - 1) (min 63 (unat b - 1)) = unat b - 1"
      using that b by simp_all
    moreover have "min 63 k < 64" "min 63 (unat b - 1) < 64" by simp_all
    note bit_sign_extend [OF b this(1), of raw] bit_sign_extend [OF b this(2), of raw]
    ultimately show ?thesis unfolding bit_sint by argo
  qed
  then have "steady (unat b) (sint (sign_extend raw b))" unfolding steady_def by blast
  then show ?thesis using range_bits [of "unat b" "sint (sign_extend raw b)"] by (simp add: field_holds_def)
qed

lemma unsigned_fits:
  fixes v :: i64 assumes "1 \<le> unat b" "unat b \<le> 64" "0 \<le> sint v"
  shows "(ucast v :: u128) > field_mask b \<longleftrightarrow> \<not> sint v < 2 ^ unat b" "int (unat v) = sint v" "unat v < 2 ^ 63"
proof -
  have "unat v < 2 ^ 64" using unsigned_less [of v, where ?'a = nat] by simp
  then have "int (unat v) < 2 ^ 64" by (metis of_nat_less_iff of_nat_numeral of_nat_power)
  then show small: "unat v < 2 ^ 63" using sint_unat [of v] assms(3) by (simp only: split: if_splits)
  then show v: "int (unat v) = sint v" using sint_unat [of v] by argo
  have "2 ^ unat b \<le> unat v \<longleftrightarrow> \<not> sint v < 2 ^ unat b"
    unfolding v [symmetric] not_less by (metis of_nat_le_iff of_nat_numeral of_nat_power)
  then show "(ucast v :: u128) > field_mask b \<longleftrightarrow> \<not> sint v < 2 ^ unat b"
    using too_wide [OF assms(2), of v] by (simp add: field_mask_eq [OF assms(1,2)])
qed

text \<open>
  Bit field values round trip: a value is encoded into a field of one to sixty-four bits exactly
  when the field can hold it, the encoded bits fit the field and decode to the value, and any field
  content that decodes encodes back to the same bits.
\<close>
theorem bitfield_value_roundtrip:
  assumes "1 \<le> unat b" and "unat b \<le> 64"
  shows "(\<exists>raw. encode_bitfield_value v b sn = Ok raw) = field_holds (unat b) sn (sint v) \<and>
    (\<forall>raw. encode_bitfield_value v b sn = Ok raw \<longrightarrow>
       unat raw < 2 ^ unat b \<and> interpret_bitfield_value raw b sn = Ok v) \<and>
    (\<forall>raw x. unat raw < 2 ^ unat b \<longrightarrow> interpret_bitfield_value raw b sn = Ok x \<longrightarrow>
       encode_bitfield_value x b sn = Ok raw)"
proof -
  have b: "b \<noteq> 0" "\<not> b > 64" using assms by (auto simp: word_less_nat_alt)
  have small: "unat raw < 2 ^ unat b" if "\<And>k. bit raw k \<Longrightarrow> k < unat b" for raw :: u64
  proof -
    have "take_bit (unat b) raw = raw" by (rule bit_word_eqI) (use that in \<open>auto simp: bit_take_bit_iff\<close>)
    then have "take_bit (unat b) (unat raw) = unat raw" by (metis unsigned_take_bit_eq)
    then show ?thesis by (metis take_bit_nat_less_exp)
  qed
  show ?thesis
  proof (cases sn)
    case True
    then have sn: "sn = True" by simp
    have enc: "(\<exists>raw. encode_bitfield_value v b True = Ok raw) = field_holds (unat b) True (sint v)" for v
      using b by (auto simp: encode_bitfield_value_def field_holds_def)
    have fwd: "unat raw < 2 ^ unat b \<and> interpret_bitfield_value raw b True = Ok v"
      if e: "encode_bitfield_value v b True = Ok raw" for v raw
    proof -
      have h: "field_holds (unat b) True (sint v)" using e enc [of v] by blast
      from encode_signed [OF assms h] have r: "\<And>k. bit raw k \<longleftrightarrow> k < unat b \<and> bit v k" using e by auto
      show ?thesis using small [of raw] r sign_extend_encoded [OF assms h r] by (simp add: interpret_bitfield_value_def)
    qed
    have bwd: "encode_bitfield_value x b True = Ok raw"
      if r: "unat raw < 2 ^ unat b" "interpret_bitfield_value raw b True = Ok x" for raw x
    proof -
      have x: "x = sign_extend raw b" using r(2) by (simp add: interpret_bitfield_value_def)
      from encode_signed [OF assms sign_extend_range [OF assms, of raw]] x obtain r' where
        r': "encode_bitfield_value x b True = Ok r'" "\<forall>k. bit r' k \<longleftrightarrow> k < unat b \<and> bit x k" by blast
      have "r' = raw"
      proof (rule bit_word_eqI)
        fix k assume "k < LENGTH(64)"
        then show "bit r' k = bit raw k"
          using spec [OF r'(2), of k] bit_sign_extend [OF assms, of k raw] bit_of_fitting [OF r(1), of k] assms
          by (cases "k < unat b") (simp_all add: x min_absorb2)
      qed
      then show ?thesis using r'(1) by simp
    qed
    show ?thesis unfolding sn
      by (intro conjI allI impI enc [of v] bwd) (use fwd [of v] in \<open>blast+\<close>)
  next
    case False
    then have sn: "sn = False" by simp
    have u: "encode_bitfield_value v b False =
        (if sint v < 0 \<or> \<not> sint v < 2 ^ unat b then Err (BitsTooWide v b) else Ok v)" for v
      using b unsigned_fits(1) [OF assms, of v] by (auto simp: encode_bitfield_value_def)
    have down: "unat v < 2 ^ unat b" "unat v < 2 ^ 63" if "0 \<le> sint v" "sint v < 2 ^ unat b" for v :: i64
      using that(2) unsigned_fits(3) [OF assms that(1)] unfolding unsigned_fits(2) [OF assms that(1), symmetric]
      by (metis of_nat_less_iff of_nat_numeral of_nat_power, blast)
    have up: "0 \<le> sint x" "sint x < 2 ^ unat b" if "unat x < 2 ^ unat b" "unat x < 2 ^ 63" for x :: i64
    proof -
      have "sint x = int (unat x)" using sint_unat [of x] that(2) by argo
      then show "0 \<le> sint x" "sint x < 2 ^ unat b"
        using that(1) by (metis of_nat_0_le_iff, metis of_nat_less_iff of_nat_numeral of_nat_power)
    qed
    have i: "interpret_bitfield_value raw b False = Ok x \<longleftrightarrow> unat raw < 2 ^ 63 \<and> x = raw" for raw x
      by (auto simp: interpret_bitfield_value_def)
    have e: "encode_bitfield_value v b False = Ok raw \<longleftrightarrow> field_holds (unat b) False (sint v) \<and> raw = v" for v raw
      by (auto simp: u field_holds_def not_less)
    have h: "field_holds (unat b) False (sint v) \<longleftrightarrow> unat v < 2 ^ unat b \<and> unat v < 2 ^ 63" for v :: i64
    proof
      assume "field_holds (unat b) False (sint v)"
      then have "0 \<le> sint v" "sint v < 2 ^ unat b" unfolding field_holds_def by simp_all
      from down [OF this] show "unat v < 2 ^ unat b \<and> unat v < 2 ^ 63" by (rule conjI)
    next
      assume a: "unat v < 2 ^ unat b \<and> unat v < 2 ^ 63"
      from up [OF conjunct1 [OF a] conjunct2 [OF a]] show "field_holds (unat b) False (sint v)"
        unfolding field_holds_def by simp
    qed
    have "(\<exists>raw. encode_bitfield_value v b False = Ok raw) = field_holds (unat b) False (sint v)"
      using e [of v] by metis
    moreover have "unat raw < 2 ^ unat b \<and> interpret_bitfield_value raw b False = Ok v"
      if "encode_bitfield_value v b False = Ok raw" for raw
      using iffD1 [OF e that] h [of v] i [of raw v] by (elim conjE) simp
    moreover have "encode_bitfield_value x b False = Ok raw"
      if "unat raw < 2 ^ unat b" "interpret_bitfield_value raw b False = Ok x" for raw x
      using iffD1 [OF i that(2)] that(1) h [of x] e [of x raw] by (elim conjE) simp
    ultimately show ?thesis unfolding sn by (intro conjI allI impI) blast+
  qed
qed

lemma bitfield_value_roundtrip_witness:
  "encode_bitfield_value (- 2) 4 True = Ok 14 \<and> interpret_bitfield_value 14 4 True = Ok (- 2)"
proof -
  have i: "interpret_bitfield_value 14 4 True = Ok (- 2)"
    by (simp add: interpret_bitfield_value_def sign_extend_def)
  have "unat (4 :: u16) = 4" "unat (14 :: u64) = 14" by simp_all
  then have "encode_bitfield_value (- 2) 4 True = Ok 14"
    using bitfield_value_roundtrip [of 4 0 True, THEN conjunct2, THEN conjunct2, rule_format, OF _ _ _ i] by simp
  then show ?thesis using i by (rule conjI)
qed

end
