(* ===== verification/Gvcp.thy ===== *)
theory Gvcp
  imports Gencp Gige_Status
begin

text \<open>
  GVCP, the control protocol of GigE Vision cameras, as the host speaks it
  (\<^verbatim>\<open>crates/viva-gige/src/gvcp.rs\<close>): command headers, packet resend requests, and the
  transaction that sends a command, waits for its acknowledgement and retries.

  The socket is a state of its own inside \<open>control\<close>: the outcomes of the next sends, what the
  socket and the timers will yield while the code waits (datagrams, receive errors, the heartbeat
  timer, the deadline), and a record of what was sent and how long was waited. The camera at the
  other end is an argument \<open>peer\<close>: it answers a datagram with datagrams and changes its own
  state. Any behaviour of camera and network up to the end of a transaction is a script of such
  events, so a statement for every script is a statement for every camera and network. An
  exhausted script is silence: the deadline passes. Log output is left out.
\<close>

section \<open>Wire format\<close>

definition GVCP_CMD_KEY :: u8 where "GVCP_CMD_KEY = 0x42"
definition PACKET_RESEND_COMMAND :: u16 where "PACKET_RESEND_COMMAND = 0x0040"
definition PACKET_RESEND_EXTENDED_IDS :: u8 where "PACKET_RESEND_EXTENDED_IDS = 0x10"
definition PENDING_ACK :: u16 where "PENDING_ACK = 0x0089"
definition DISCOVERY_COMMAND :: u16 where "DISCOVERY_COMMAND = 0x0002"
definition DISCOVERY_ACK :: u16 where "DISCOVERY_ACK = 0x0003"
definition FORCEIP_COMMAND :: u16 where "FORCEIP_COMMAND = 0x0004"
definition FORCEIP_ACK :: u16 where "FORCEIP_ACK = 0x0005"
definition ACTION_COMMAND :: u16 where "ACTION_COMMAND = 0x0100"
definition ACTION_ACK :: u16 where "ACTION_ACK = 0x0101"
definition GENCP_MAX_BLOCK :: nat where "GENCP_MAX_BLOCK = 512"
definition GENCP_WRITE_OVERHEAD :: nat where "GENCP_WRITE_OVERHEAD = 8"
definition MAX_RETRIES :: nat where "MAX_RETRIES = 4"
definition MAX_PENDING_ACKS :: nat where "MAX_PENDING_ACKS = 100"
definition CONTROL_TIMEOUT :: duration where "CONTROL_TIMEOUT = 500 * 1000000"
definition MAX_PENDING_ACK_WAIT :: duration where "MAX_PENDING_ACK_WAIT = 10 * 1000000000"
definition RETRY_BASE_DELAY_MS :: nat where "RETRY_BASE_DELAY_MS = 20"
definition RETRY_JITTER_MS :: nat where "RETRY_JITTER_MS = 10"
definition CONTROL_CHANNEL_PRIVILEGE :: nat where "CONTROL_CHANNEL_PRIVILEGE = 0x0a00"

record command_flags =
  fl_ack_required :: bool
  fl_broadcast :: bool
  fl_scheduled_action :: bool

definition ACK_REQUIRED :: command_flags where
  "ACK_REQUIRED = \<lparr>fl_ack_required = True, fl_broadcast = False, fl_scheduled_action = False\<rparr>"

record gvcp_request_header =
  rh_flags :: command_flags
  rh_command :: u16
  rh_length :: u16
  rh_request_id :: u16

definition gvcp_flags_byte :: "command_flags \<Rightarrow> u8" where
  "gvcp_flags_byte f =
     (if fl_ack_required f then 0x01 else 0) OR (if fl_broadcast f then 0x10 else 0) OR
     (if fl_scheduled_action f then 0x80 else 0)"

definition encode_request :: "gvcp_request_header \<Rightarrow> bytes \<Rightarrow> bytes" where
  "encode_request h payload =
     [GVCP_CMD_KEY, gvcp_flags_byte (rh_flags h)] @ put_u16 (rh_command h) @ put_u16 (rh_length h) @
     put_u16 (rh_request_id h) @ payload"

definition PACKET_ID_24 :: u32 where "PACKET_ID_24 = 0x00FFFFFF"

definition encode_packet_resend :: "u16 \<Rightarrow> u16 \<Rightarrow> u64 \<Rightarrow> u32 \<Rightarrow> u32 \<Rightarrow> bool \<Rightarrow> bytes" where
  "encode_packet_resend request_id channel block_id first_packet last_packet extended_ids =
     [GVCP_CMD_KEY, (if extended_ids then PACKET_RESEND_EXTENDED_IDS else 0)] @
     put_u16 PACKET_RESEND_COMMAND @ put_u16 (if extended_ids then 20 else 12) @ put_u16 request_id @
     put_u16 channel @
     (if extended_ids
      then put_u16 0 @ put_u32 first_packet @ put_u32 last_packet @ put_u64 block_id
      else put_u16 (ucast block_id) @ put_u32 (first_packet AND PACKET_ID_24) @
           put_u32 (last_packet AND PACKET_ID_24))"

text \<open>The request id a PENDING\_ACK names and the time it asks for.\<close>

definition parse_pending_ack :: "bytes \<Rightarrow> (u16 \<times> duration) option" where
  "parse_pending_ack buf =
     (if length buf < HEADER_SIZE then None
      else if be_word (take 2 (drop 2 buf)) \<noteq> PENDING_ACK then None
      else
        let request_id = be_word (take 2 (drop 6 buf)); payload = drop HEADER_SIZE buf in
        if length payload < 4 then Some (request_id, CONTROL_TIMEOUT)
        else Some (request_id, unat (be_word (take 2 (drop 2 payload)) :: u16) * 1000000))"

section \<open>Errors\<close>

text \<open>The kinds of socket errors the code tells apart.\<close>

datatype io_error = ConnectionRefused | ConnectionReset | AddrNotAvailable | OtherIo string

definition is_icmp_error :: "io_error \<Rightarrow> bool" where
  "is_icmp_error e \<longleftrightarrow> e = ConnectionRefused \<or> e = ConnectionReset"

datatype gige_error =
    Io io_error
  | Timeout
  | GenCp gencp_error
  | Status gige_status
  | MalformedAck string string
  | AckLength string nat nat
  | NotIpv4 string
  | PacketSize u32

fun command_name :: "op_code \<Rightarrow> string" where
  "command_name ReadRegister = ''READREG''"
| "command_name WriteRegister = ''WRITEREG''"
| "command_name ReadMem = ''READMEM''"
| "command_name WriteMem = ''WRITEMEM''"

section \<open>A device and its socket\<close>

datatype wait_event = Arrived bytes | RecvError io_error | HeartbeatDue | DeadlineReached

datatype ack_recv = Received bytes | RecvIo io_error | TimedOut

record 'd control =
  gd_control_timeout :: duration
  gd_keepalive_period :: "duration option"
  gd_request_id :: u16
  gd_memory_access_only :: bool
  gd_names_primary_application :: "bool option"
  gd_exclusive_access :: bool
  sk_sends :: "io_error option list"
  sk_connects :: "io_error option list"
  sk_events :: "wait_event list"
  sk_jitter_ms :: "nat list"
  sk_sent :: "bytes list"
  sk_waits :: "duration list"
  sk_sleeps :: "duration list"
  sk_peer :: 'd

type_synonym 'd peer = "bytes \<Rightarrow> 'd \<Rightarrow> bytes list \<times> 'd"

text \<open>A device just opened: the defaults of \<open>GigeDevice::open\<close>, with the memory-access
  override of the environment variable.\<close>

definition open_device :: "bool \<Rightarrow> 'd \<Rightarrow> 'd control" where
  "open_device force_readmem p =
     \<lparr>gd_control_timeout = CONTROL_TIMEOUT, gd_keepalive_period = None, gd_request_id = 1,
      gd_memory_access_only = force_readmem, gd_names_primary_application = None,
      gd_exclusive_access = False, sk_sends = [], sk_connects = [], sk_events = [],
      sk_jitter_ms = [], sk_sent = [], sk_waits = [], sk_sleeps = [], sk_peer = p\<rparr>"

definition next_request_id :: "'d control \<Rightarrow> u16 \<times> 'd control" where
  "next_request_id c =
     (let succ = gd_request_id c + 1 in
      (gd_request_id c, c\<lparr>gd_request_id := (if succ = 0 then 1 else succ)\<rparr>))"

text \<open>\<open>socket.send\<close>: the next scripted outcome; a datagram that leaves reaches the peer, whose
  answers wait at the socket.\<close>

definition send :: "'d peer \<Rightarrow> bytes \<Rightarrow> 'd control \<Rightarrow> io_error option \<times> 'd control" where
  "send peer b c =
     (case sk_sends c of
        Some e # rest \<Rightarrow> (Some e, c\<lparr>sk_sends := rest\<rparr>)
      | sends \<Rightarrow>
          let (answers, p) = peer b (sk_peer c) in
          (None, c\<lparr>sk_sends := tl sends, sk_sent := sk_sent c @ [b],
                   sk_events := sk_events c @ map Arrived answers, sk_peer := p\<rparr>))"

definition connect :: "'d control \<Rightarrow> io_error option \<times> 'd control" where
  "connect c =
     (case sk_connects c of
        [] \<Rightarrow> (None, c)
      | r # rest \<Rightarrow> (r, c\<lparr>sk_connects := rest\<rparr>))"

definition refresh_route_after_send_error :: "io_error \<Rightarrow> 'd control \<Rightarrow> io_error option \<times> 'd control" where
  "refresh_route_after_send_error e c = (if e = AddrNotAvailable then connect c else (None, c))"

definition keepalive_payload :: "'d control \<Rightarrow> bytes" where
  "keepalive_payload c =
     put_u32 (word_of_nat CONTROL_CHANNEL_PRIVILEGE) @
     (if gd_memory_access_only c then put_u16 0 @ put_u16 4 else [])"

definition send_inflight_keepalive :: "'d peer \<Rightarrow> u16 \<Rightarrow> 'd control \<Rightarrow> io_error option \<times> 'd control" where
  "send_inflight_keepalive peer active_request_id c =
     (let (id1, c1) = next_request_id c;
          (request_id, c2) = (if id1 = active_request_id then next_request_id c1 else (id1, c1));
          payload = keepalive_payload c2;
          opcode = (if gd_memory_access_only c2 then ReadMem else ReadRegister) in
      send peer (encode_request \<lparr>rh_flags = ACK_REQUIRED, rh_command = command_code opcode,
        rh_length = word_of_nat (length payload), rh_request_id = request_id\<rparr> payload) c2)"

section \<open>Waiting for an acknowledgement\<close>

definition RECV_BUFFER :: nat where
  "RECV_BUFFER = HEADER_SIZE + GENCP_MAX_BLOCK + GENCP_WRITE_OVERHEAD"

text \<open>The request id at bytes 6 and 7, if the datagram has them.\<close>

definition ack_id :: "bytes \<Rightarrow> u16 option" where
  "ack_id b = (if 8 \<le> length b then Some (be_word (take 2 (drop 6 b))) else None)"

definition heartbeats :: "wait_event list \<Rightarrow> nat" where
  "heartbeats es = length (filter (\<lambda>e. e = HeartbeatDue) es)"

lemma heartbeats_simps [simp]:
  "heartbeats [] = 0" "heartbeats (e # es) = (if e = HeartbeatDue then 1 else 0) + heartbeats es"
  "heartbeats (xs @ ys) = heartbeats xs + heartbeats ys" "heartbeats (map Arrived bs) = 0"
  by (auto simp: heartbeats_def filter_empty_conv)

lemma heartbeats_keepalive:
  "heartbeats (sk_events (snd (send_inflight_keepalive peer rid c))) = heartbeats (sk_events c)"
  by (simp add: send_inflight_keepalive_def send_def next_request_id_def Let_def
      split: prod.split list.split option.split if_split)

text \<open>One wait: a datagram cut to the receive buffer, and drained when it answers another request.
  The heartbeat timer only exists while a period is set.\<close>

function recv_for_request :: "'d peer \<Rightarrow> u16 \<Rightarrow> bool \<Rightarrow> 'd control \<Rightarrow> ack_recv \<times> 'd control" where
  "recv_for_request peer request_id tolerate_icmp c =
     (case sk_events c of
        [] \<Rightarrow> (TimedOut, c)
      | DeadlineReached # es \<Rightarrow> (TimedOut, c\<lparr>sk_events := es\<rparr>)
      | HeartbeatDue # es \<Rightarrow>
          if gd_keepalive_period c = None
          then recv_for_request peer request_id tolerate_icmp (c\<lparr>sk_events := es\<rparr>)
          else recv_for_request peer request_id True
                 (snd (send_inflight_keepalive peer request_id (c\<lparr>sk_events := es\<rparr>)))
      | RecvError e # es \<Rightarrow>
          if tolerate_icmp \<and> is_icmp_error e
          then recv_for_request peer request_id tolerate_icmp (c\<lparr>sk_events := es\<rparr>)
          else (RecvIo e, c\<lparr>sk_events := es\<rparr>)
      | Arrived d # es \<Rightarrow>
          let b = take RECV_BUFFER d in
          if ack_id b \<noteq> None \<and> ack_id b \<noteq> Some request_id
          then recv_for_request peer request_id tolerate_icmp (c\<lparr>sk_events := es\<rparr>)
          else (Received b, c\<lparr>sk_events := es\<rparr>))"
  by pat_completeness auto
termination
  by (relation "inv_image (less_than <*lex*> less_than)
        (\<lambda>(peer, rid, tol, c). (heartbeats (sk_events c), length (sk_events c)))")
     (auto simp: heartbeats_keepalive)

declare recv_for_request.simps [simp del]

text \<open>The wait a PENDING\_ACK is granted.\<close>

definition pending_wait :: "duration \<Rightarrow> duration \<Rightarrow> duration" where
  "pending_wait requested control_timeout =
     max (min (max requested CONTROL_TIMEOUT) MAX_PENDING_ACK_WAIT) control_timeout"

function absorb_pending :: "'d peer \<Rightarrow> u16 \<Rightarrow> duration \<Rightarrow> nat \<Rightarrow> 'd control \<Rightarrow> ack_recv \<times> 'd control" where
  "absorb_pending peer request_id wait pending_seen c =
     (case recv_for_request peer request_id (pending_seen > 0) (c\<lparr>sk_waits := sk_waits c @ [wait]\<rparr>) of
        (Received b, c') \<Rightarrow>
          (case parse_pending_ack b of
             None \<Rightarrow> (Received b, c')
           | Some (_, requested) \<Rightarrow>
               if pending_seen + 1 > MAX_PENDING_ACKS then (TimedOut, c')
               else absorb_pending peer request_id (pending_wait requested (gd_control_timeout c'))
                      (pending_seen + 1) c')
      | other \<Rightarrow> other)"
  by pat_completeness auto
termination by (relation "measure (\<lambda>(peer, rid, wait, seen, c). MAX_PENDING_ACKS - seen)") auto

declare absorb_pending.simps [simp del]

definition recv_absorbing_pending :: "'d peer \<Rightarrow> u16 \<Rightarrow> 'd control \<Rightarrow> ack_recv \<times> 'd control" where
  "recv_absorbing_pending peer request_id c = absorb_pending peer request_id (gd_control_timeout c) 0 c"

section \<open>The transaction\<close>

definition backoff_ms :: "nat \<Rightarrow> nat \<Rightarrow> nat" where
  "backoff_ms attempt jitter = max (RETRY_BASE_DELAY_MS * 2 ^ min (attempt - 1) 3) RETRY_BASE_DELAY_MS + jitter"

definition backoff :: "nat \<Rightarrow> 'd control \<Rightarrow> 'd control" where
  "backoff attempt c =
     (let jitter = (case sk_jitter_ms c of [] \<Rightarrow> 0 | j # _ \<Rightarrow> j mod (RETRY_JITTER_MS + 1)) in
      c\<lparr>sk_jitter_ms := tl (sk_jitter_ms c),
        sk_sleeps := sk_sleeps c @ [backoff_ms attempt jitter * 1000000]\<rparr>)"

text \<open>What the received acknowledgement decides: the result, or another attempt.\<close>

datatype verdict = Return "(gencp_ack, gige_error) result" | Again

definition judge_ack :: "op_code \<Rightarrow> nat \<Rightarrow> bytes \<Rightarrow> verdict" where
  "judge_ack opcode attempt b =
     (case decode_ack b of
        Panic \<Rightarrow> Return Panic
      | Err e \<Rightarrow> Return (Err (GenCp e))
      | Ok ack \<Rightarrow>
          if ack_opcode (ack_head ack) \<noteq> opcode
          then Return (Err (MalformedAck (command_name opcode) ''answers another command''))
          else
            let status = gige_from_raw (ack_status (ack_head ack)) in
            if ts_is_success status then Return (Ok ack)
            else if ts_is_retryable status \<and> attempt < MAX_RETRIES then Again
            else Return (Err (Status status)))"

lemma judge_ack_Again: "judge_ack opcode attempt b = Again \<Longrightarrow> attempt < MAX_RETRIES"
  by (auto simp: judge_ack_def Let_def split: result.splits if_splits)

function attempts :: "'d peer \<Rightarrow> op_code \<Rightarrow> u16 \<Rightarrow> bytes \<Rightarrow> nat \<Rightarrow> 'd control \<Rightarrow>
    (gencp_ack, gige_error) result \<times> 'd control" where
  "attempts peer opcode request_id encoded attempt c =
     (case send peer encoded c of
        (Some e, c1) \<Rightarrow>
          if attempt \<ge> MAX_RETRIES then (Err (Io e), c1)
          else
            (case refresh_route_after_send_error e c1 of
               (Some e', c2) \<Rightarrow> (Err (Io e'), c2)
             | (None, c2) \<Rightarrow> attempts peer opcode request_id encoded (attempt + 1) (backoff attempt c2))
      | (None, c1) \<Rightarrow>
          (case recv_absorbing_pending peer request_id c1 of
             (Received b, c2) \<Rightarrow>
               (case judge_ack opcode attempt b of
                  Return r \<Rightarrow> (r, c2)
                | Again \<Rightarrow> attempts peer opcode request_id encoded (attempt + 1) (backoff attempt c2))
           | (RecvIo e, c2) \<Rightarrow>
               if attempt \<ge> MAX_RETRIES then (Err (Io e), c2)
               else attempts peer opcode request_id encoded (attempt + 1) (backoff attempt c2)
           | (TimedOut, c2) \<Rightarrow>
               if attempt \<ge> MAX_RETRIES then (Err Timeout, c2)
               else attempts peer opcode request_id encoded (attempt + 1) (backoff attempt c2)))"
  by pat_completeness auto
termination
  by (relation "measure (\<lambda>(peer, op, rid, enc, n, c). MAX_RETRIES - n)") (auto dest: judge_ack_Again)

declare attempts.simps [simp del]

definition command_of :: "op_code \<Rightarrow> u16 \<Rightarrow> bytes \<Rightarrow> bytes" where
  "command_of opcode request_id payload =
     encode_request \<lparr>rh_flags = ACK_REQUIRED, rh_command = command_code opcode,
       rh_length = word_of_nat (length payload), rh_request_id = request_id\<rparr> payload"

definition transact_with_retry :: "'d peer \<Rightarrow> op_code \<Rightarrow> bytes \<Rightarrow> 'd control \<Rightarrow>
    (gencp_ack, gige_error) result \<times> 'd control" where
  "transact_with_retry peer opcode payload c =
     (let (request_id, c1) = next_request_id c in
      attempts peer opcode request_id (command_of opcode request_id payload) 1 c1)"

end
