(* ===== verification/Fake_Resend.thy ===== *)
theory Fake_Resend
  imports Gvsp_Encode Gvcp
begin

text \<open>
  Packet resend on the camera's side (\<^verbatim>\<open>crates/viva-fake-gige/src/resend.rs\<close>): reading a request,
  the packets of the last blocks kept for resending, and the answer to a request. The counters are
  left out; the socket the packets leave from is reduced to the ceiling of its path.
\<close>

section \<open>Definitions\<close>

definition EXTENDED_IDS_FLAG :: u8 where "EXTENDED_IDS_FLAG = PACKET_RESEND_EXTENDED_IDS"

definition STATUS_PACKET_UNAVAILABLE :: u16 where
  "STATUS_PACKET_UNAVAILABLE = gige_to_raw (Own PacketUnavailable)"

record fake_request =
  fr_channel :: u16
  fr_block_id :: u64
  fr_first :: u32
  fr_last :: u32
  fr_extended_ids :: bool

definition parse_request :: "u8 \<Rightarrow> bytes \<Rightarrow> fake_request option" where
  "parse_request flags body =
     (if flags AND EXTENDED_IDS_FLAG \<noteq> 0 then
        if length body < 20 then None
        else Some \<lparr>fr_channel = be_word (take 2 body), fr_block_id = be_word (take 8 (drop 12 body)),
          fr_first = be_word (take 4 (drop 4 body)), fr_last = be_word (take 4 (drop 8 body)),
          fr_extended_ids = True\<rparr>
      else
        if length body < 12 then None
        else Some \<lparr>fr_channel = be_word (take 2 body), fr_block_id = ucast (be_word (take 2 (drop 2 body)) :: u16),
          fr_first = be_word (take 4 (drop 4 body)) AND 0x00FFFFFF,
          fr_last = be_word (take 4 (drop 8 body)) AND 0x00FFFFFF, fr_extended_ids = False\<rparr>)"

text \<open>Where the stream goes: \<open>None\<close> before the first acquisition, else the ceiling of the path.\<close>

record retention =
  rt_capacity :: nat
  rt_blocks :: "(u64 \<times> bytes list) list"
  rt_path :: "u32 option option"

definition retention_new :: "nat \<Rightarrow> retention" where
  "retention_new capacity = \<lparr>rt_capacity = capacity, rt_blocks = [], rt_path = None\<rparr>"

definition set_path :: "u32 option \<Rightarrow> retention \<Rightarrow> retention" where
  "set_path path rt = rt\<lparr>rt_path := Some path\<rparr>"

text \<open>The loop that indexes datagrams by packet id, an empty list standing for a hole.\<close>

definition place_by_id :: "bytes list \<Rightarrow> datagram \<Rightarrow> bytes list" where
  "place_by_id by_id d =
     (let at = unat (dg_packet_id d);
          by_id = (if length by_id \<le> at then resize (at + 1) [] by_id else by_id) in
      by_id[at := dg_bytes d])"

text \<open>\<open>while len >= capacity { pop_front }\<close>.\<close>

definition evict :: "nat \<Rightarrow> 'a list \<Rightarrow> 'a list" where
  "evict capacity xs = drop (length xs + 1 - capacity) xs"

definition retain :: "u64 \<Rightarrow> datagram list \<Rightarrow> retention \<Rightarrow> retention" where
  "retain block_id datagrams rt =
     (if rt_capacity rt = 0 then rt
      else
        let by_id = foldl place_by_id [] datagrams;
            blocks = filter (\<lambda>(i, _). i \<noteq> block_id) (rt_blocks rt) in
        rt\<lparr>rt_blocks := evict (rt_capacity rt) blocks @ [(block_id, by_id)]\<rparr>)"

record fake_answer =
  fa_resend :: "bytes list"
  fa_unavailable :: "bytes list"

definition held_packet :: "bytes list option \<Rightarrow> nat \<Rightarrow> bytes option" where
  "held_packet held i =
     (case held of
        None \<Rightarrow> None
      | Some packets \<Rightarrow> if i < length packets \<and> packets ! i \<noteq> [] then Some (packets ! i) else None)"

definition answer_request :: "retention \<Rightarrow> fake_request \<Rightarrow> fake_answer" where
  "answer_request rt request =
     (if fr_first request > fr_last request then \<lparr>fa_resend = [], fa_unavailable = []\<rparr>
      else
        let held = map_option snd (find (\<lambda>(i, _). i = fr_block_id request) (rt_blocks rt));
            ids = [unat (fr_first request)..<unat (fr_last request) + 1] in
        \<lparr>fa_resend = List.map_filter (held_packet held) ids,
         fa_unavailable =
           map (\<lambda>i. header_only (fr_block_id request) (fr_extended_ids request) (word_of_nat i) STATUS_PACKET_UNAVAILABLE)
             (filter (\<lambda>i. held_packet held i = None) ids)\<rparr>)"

text \<open>\<open>serve\<close>: the packets that leave on the stream channel. A packet above the ceiling of the path
  is not sent again.\<close>

definition serve :: "bool \<Rightarrow> retention \<Rightarrow> u8 \<Rightarrow> bytes \<Rightarrow> bytes list" where
  "serve supported rt flags body =
     (if \<not> supported then []
      else
        (case parse_request flags body of
           None \<Rightarrow> []
         | Some request \<Rightarrow>
             (case rt_path rt of
                None \<Rightarrow> []
              | Some max_on_wire \<Rightarrow>
                  let a = answer_request rt request in
                  filter (\<lambda>p. case max_on_wire of None \<Rightarrow> True | Some m \<Rightarrow> length p + 28 \<le> unat m) (fa_resend a)
                  @ fa_unavailable a)))"

section \<open>The camera reads what the host wrote\<close>

text \<open>What a request of the host means: without extended ids, 16 bits of the block id and 24 bits of
  the packet ids.\<close>

definition request_of :: "u16 \<Rightarrow> u64 \<Rightarrow> u32 \<Rightarrow> u32 \<Rightarrow> bool \<Rightarrow> fake_request" where
  "request_of channel block_id first_packet last_packet extended_ids =
     \<lparr>fr_channel = channel,
      fr_block_id = (if extended_ids then block_id else ucast (ucast block_id :: u16)),
      fr_first = (if extended_ids then first_packet else first_packet AND 0x00FFFFFF),
      fr_last = (if extended_ids then last_packet else last_packet AND 0x00FFFFFF),
      fr_extended_ids = extended_ids\<rparr>"

lemma drop_put:
  "drop 2 (put_u16 a @ r) = r" "drop 4 (put_u16 a @ put_u16 b @ r) = r"
  "drop 8 (put_u16 a @ put_u16 b @ put_u32 c @ r) = r" "drop 12 (put_u16 a @ put_u16 b @ put_u32 c @ put_u32 d @ r) = r"
  by simp_all

lemma parse_encoded_request:
  "parse_request (encode_packet_resend rid channel block_id f l ext ! 1)
     (drop 8 (encode_packet_resend rid channel block_id f l ext)) =
   Some (request_of channel block_id f l ext)"
proof -
  let ?body = "put_u16 channel @ (if ext then put_u16 0 @ put_u32 f @ put_u32 l @ put_u64 block_id
      else put_u16 (ucast block_id) @ put_u32 (f AND PACKET_ID_24) @ put_u32 (l AND PACKET_ID_24))"
  have b: "drop 8 (encode_packet_resend rid channel block_id f l ext) = ?body"
    by (simp add: encode_packet_resend_def)
  have fl: "encode_packet_resend rid channel block_id f l ext ! 1 = (if ext then PACKET_RESEND_EXTENDED_IDS else 0)"
    by (simp add: encode_packet_resend_def)
  show ?thesis unfolding b fl
    by (cases ext) (simp_all add: parse_request_def request_of_def EXTENDED_IDS_FLAG_def
        PACKET_RESEND_EXTENDED_IDS_def PACKET_ID_24_def and.assoc)
qed

section \<open>What is kept\<close>

lemma foldl_place_consecutive:
  assumes "\<And>i. i < length ds \<Longrightarrow> unat (dg_packet_id (ds ! i)) = length acc + i"
  shows "foldl place_by_id acc ds = acc @ map dg_bytes ds"
  using assms
proof (induction ds arbitrary: acc)
  case (Cons d ds)
  have "unat (dg_packet_id d) = length acc" using Cons.prems [of 0] by simp
  then have "place_by_id acc d = acc @ [dg_bytes d]"
    by (simp add: place_by_id_def resize_def list_update_append)
  moreover have "unat (dg_packet_id (ds ! i)) = length (acc @ [dg_bytes d]) + i" if "i < length ds" for i
    using Cons.prems [of "Suc i"] that by simp
  ultimately show ?case using Cons.IH [of "acc @ [dg_bytes d]"] by simp
qed simp

lemma find_snoc: "find P xs = None \<Longrightarrow> P y \<Longrightarrow> find P (xs @ [y]) = Some y"
  by (induction xs) (auto split: if_splits)

lemma find_retained:
  assumes "0 < rt_capacity rt"
  shows "map_option snd (find (\<lambda>(i, _). i = b) (rt_blocks (retain b ds rt))) = Some (foldl place_by_id [] ds)"
proof -
  let ?old = "evict (rt_capacity rt) (filter (\<lambda>(i, _). i \<noteq> b) (rt_blocks rt))"
  have "find (\<lambda>(i, _). i = b) ?old = None"
    by (auto simp: find_None_iff evict_def dest!: in_set_dropD)
  then have "find (\<lambda>(i, _). i = b) (?old @ [(b, x)]) = Some (b, x)" for x :: "bytes list"
    by (rule find_snoc) simp
  then show ?thesis using assms by (simp add: retain_def Let_def)
qed

end
