(* ===== verification/Resend_Roundtrip.thy ===== *)
theory Resend_Roundtrip
  imports Fake_Resend Assembly_Complete
begin

text \<open>
  Packet resend from end to end: the request the host encodes (\<open>Gvcp\<close>), the camera that keeps the
  packets of its last blocks and answers it (\<open>Fake_Resend\<close>), and the assembler that completes the
  block from the packets that come again (\<open>Assembly\<close>).
\<close>

section \<open>The packets of a retained block\<close>

lemma payload_datagram_ids:
  "i < length (fst (payload_datagrams spec k ps)) \<Longrightarrow>
     dg_packet_id (fst (payload_datagrams spec k ps) ! i) = k + word_of_nat i"
proof (induction ps arbitrary: k i)
  case (Cons p ps)
  then show ?case by (cases i) (auto simp: case_prod_beta algebra_simps)
qed simp

lemma length_payload_datagrams: "length (fst (payload_datagrams spec k ps)) = length ps"
  by (induction ps arbitrary: k) (simp_all add: case_prod_beta)

lemma block_datagram_ids:
  assumes "stream_agrees config spec data" "i < length (block_datagrams spec data)"
  shows "unat (dg_packet_id (block_datagrams spec data ! i)) = i"
proof -
  let ?s = "spec_payload_stride spec" and ?n = "packet_count spec data"
  have pos: "0 < ?s" using assms(1) by (simp add: stream_agrees_def)
  then have m: "max ?s 1 = ?s" by simp
  let ?c = "chunks_of ?s data" let ?p = "payload_datagrams spec 1 ?c"
  have n: "length ?c = ?n" by (simp add: chunks_of_eq [OF pos] packet_count_def)
  have len: "length (fst ?p) = ?n" "snd ?p = 1 + word_of_nat ?n"
    using payload_datagrams_eq [of spec 1 ?c] by (simp_all add: length_payload_datagrams n)
  have total: "i \<le> ?n + 1"
    using assms(2) len unfolding block_datagrams_def Let_def m by (simp add: case_prod_beta)
  have u: "unat (word_of_nat k :: u32) = k" if "k \<le> ?n + 1" for k
    using parse_packet_bytes(4) [OF assms(1) that] .
  consider "i = 0" | j where "i = Suc j" "j < ?n" | "i = ?n + 1" using total by (cases i) force+
  then show ?thesis
  proof cases
    case 2
    have "(1 :: u32) + word_of_nat j = word_of_nat (Suc j)" by simp
    then show ?thesis
      using 2 payload_datagram_ids [of j spec 1 ?c] u [of "Suc j"] len unfolding block_datagrams_def Let_def m
      by (simp add: case_prod_beta nth_append)
  next
    case 3
    have "(1 :: u32) + word_of_nat ?n = word_of_nat (?n + 1)" by simp
    then show ?thesis
      using 3 u [of "?n + 1"] len unfolding block_datagrams_def Let_def m by (simp add: case_prod_beta nth_append)
  qed (simp add: block_datagrams_def case_prod_beta Let_def)
qed

lemma retained_packets:
  assumes "stream_agrees config spec data" "k \<le> packet_count spec data + 1"
  shows "held_packet (Some (foldl place_by_id [] (block_datagrams spec data))) k = Some (packet_bytes spec data k)"
proof -
  have pos: "0 < spec_payload_stride spec" using assms(1) by (simp add: stream_agrees_def)
  have f: "foldl place_by_id [] (block_datagrams spec data) = map (packet_bytes spec data) [0..<packet_count spec data + 2]"
    using foldl_place_consecutive [of "block_datagrams spec data" "[]"] block_datagram_ids [OF assms(1)]
    by (simp add: block_datagrams_bytes [OF pos] del: upt_Suc)
  have "packet_bytes spec data k \<noteq> []"
    using parse_packet_bytes(1) [OF assms]
    by (auto simp: parse_packet_ref_def parse_header_def gvsp_consts and_then_def)
  then show ?thesis using assms(2) by (simp add: held_packet_def f del: upt_Suc)
qed

section \<open>A request is answered with the packets it asks for\<close>

definition request_bytes :: "block_spec \<Rightarrow> u16 \<Rightarrow> u16 \<Rightarrow> nat \<Rightarrow> nat \<Rightarrow> bytes" where
  "request_bytes spec rid channel f l =
     encode_packet_resend rid channel (wire_block_id spec) (word_of_nat f) (word_of_nat l) (bs_extended_ids spec)"

lemma low24_id: "unat w < 2 ^ 24 \<Longrightarrow> (w :: u32) AND 0x00FFFFFF = w"
proof -
  assume "unat w < 2 ^ 24"
  then have "take_bit 24 w = w" by (simp add: word_unat_eq_iff unsigned_take_bit_eq take_bit_nat_eq_self)
  moreover have "(0x00FFFFFF :: u32) = mask 24" by (simp add: mask_eq_exp_minus_1)
  ultimately show ?thesis by (simp add: take_bit_eq_mask)
qed

lemma serve_retained:
  assumes "stream_agrees config spec data" "bs_block_id spec = wire_block_id spec"
    and "0 < rt_capacity rt" "rt_path rt = Some None"
    and "f \<le> l" "l \<le> packet_count spec data + 1"
  shows "serve True (retain (bs_block_id spec) (block_datagrams spec data) rt)
      (request_bytes spec rid channel f l ! 1) (drop 8 (request_bytes spec rid channel f l)) =
    map (packet_bytes spec data) [f..<l + 1]"
proof -
  let ?kept = "retain (bs_block_id spec) (block_datagrams spec data) rt"
  have fit: "packet_count spec data + 1 < (if bs_extended_ids spec then 2 ^ 32 else 2 ^ 24)"
    using assms(1) by (simp add: stream_agrees_def)
  have u: "unat (word_of_nat f :: u32) = f" "unat (word_of_nat l :: u32) = l"
    using parse_packet_bytes(4) [OF assms(1)] assms(5,6) by auto
  have ids: "fr_first (request_of channel (wire_block_id spec) (word_of_nat f) (word_of_nat l) (bs_extended_ids spec)) = word_of_nat f"
    "fr_last (request_of channel (wire_block_id spec) (word_of_nat f) (word_of_nat l) (bs_extended_ids spec)) = word_of_nat l"
    using fit assms(5,6) u low24_id [of "word_of_nat f"] low24_id [of "word_of_nat l"] by (auto simp: request_of_def)
  have blk: "fr_block_id (request_of channel (wire_block_id spec) (word_of_nat f) (word_of_nat l) (bs_extended_ids spec)) = bs_block_id spec"
  proof -
    have "ucast (ucast w :: u64) = w" for w :: u16 by (rule bit_word_eqI) (simp add: bit_simps)
    then show ?thesis unfolding assms(2) by (simp add: request_of_def wire_block_id_def)
  qed
  have held: "held_packet (map_option snd (find (\<lambda>(i, _). i = bs_block_id spec) (rt_blocks ?kept))) k = Some (packet_bytes spec data k)"
    if "k \<in> set [f..<l + 1]" for k
  proof -
    have "k < l + 1" using that by (simp del: upt_Suc)
    then have "k \<le> packet_count spec data + 1" using assms(6) by linarith
    then show ?thesis unfolding find_retained [OF assms(3)] by (rule retained_packets [OF assms(1)])
  qed
  then have "List.map_filter (held_packet (map_option snd (find (\<lambda>(i, _). i = bs_block_id spec) (rt_blocks ?kept)))) [f..<l + 1] =
      map (packet_bytes spec data) [f..<l + 1]"
    by (simp add: List.map_filter_def filter_True del: upt_Suc)
  moreover have "filter (\<lambda>i. held_packet (map_option snd (find (\<lambda>(i, _). i = bs_block_id spec) (rt_blocks ?kept))) i = None) [f..<l + 1] = []"
    using held by (simp add: filter_empty_conv del: upt_Suc)
  moreover have "\<not> (word_of_nat l :: u32) < word_of_nat f" using u assms(5) by (simp add: word_less_nat_alt)
  moreover have "rt_path ?kept = Some None" using assms(4) by (simp add: retain_def Let_def)
  ultimately show ?thesis
    unfolding serve_def request_bytes_def parse_encoded_request
    by (simp add: answer_request_def ids blk u Let_def del: upt_Suc)
qed

text \<open>A request as its id, channel, first and last packet: the packets it asks for, and what comes
  back.\<close>

type_synonym packet_range = "u16 \<times> u16 \<times> nat \<times> nat"

definition asked_packets :: "packet_range \<Rightarrow> nat set" where
  "asked_packets r = (case r of (rid, channel, f, l) \<Rightarrow> {f..l})"

definition served :: "block_spec \<Rightarrow> retention \<Rightarrow> packet_range \<Rightarrow> bytes list" where
  "served spec kept r =
     (case r of (rid, channel, f, l) \<Rightarrow>
        let m = request_bytes spec rid channel f l in serve True kept (m ! 1) (drop 8 m))"

lemma served_packets:
  assumes "stream_agrees config spec data" "bs_block_id spec = wire_block_id spec"
    and "0 < rt_capacity rt" "rt_path rt = Some None"
    and "asked_packets r \<noteq> {}" "asked_packets r \<subseteq> {..packet_count spec data + 1}"
  shows "set (served spec (retain (bs_block_id spec) (block_datagrams spec data) rt) r) =
    packet_bytes spec data ` asked_packets r"
proof -
  obtain rid channel f l where r: "r = (rid, channel, f, l)" by (cases r)
  have fl: "f \<le> l" "l \<le> packet_count spec data + 1" using assms(5,6) by (simp_all add: r asked_packets_def)
  have "set [f..<l + 1] = {f..l}" using fl by auto
  then show ?thesis
    using serve_retained [OF assms(1-4) fl, of rid channel] by (simp add: r served_def asked_packets_def Let_def del: upt_Suc)
qed

text \<open>
  C19. Lost packets come again and complete the block. Let some datagrams of a block reach the host,
  in any order and at any times, and let the host ask the camera, which still keeps the block, for
  ranges of packets that cover the missing ones (and possibly more). With the camera's answers the
  assembler hands out exactly one block, complete, with the bytes the camera sent. It holds in both
  header layouts and for every request id and channel.
\<close>
theorem lost_packets_recovered:
  assumes "stream_agrees config spec data" and "bs_block_id spec = wire_block_id spec"
    and "0 < rt_capacity rt" and "rt_path rt = Some None"
    and "set (map fst ds) \<subseteq> set (map dg_bytes (block_datagrams spec data))"
    and "\<forall>r \<in> set requests. asked_packets r \<noteq> {} \<and> asked_packets r \<subseteq> {..packet_count spec data + 1}"
    and "\<forall>k \<le> packet_count spec data + 1. packet_bytes spec data k \<in> fst ` set ds \<or>
      (\<exists>r \<in> set requests. k \<in> asked_packets r)"
    and "answers = concat (map (served spec (retain (bs_block_id spec) (block_datagrams spec data) rt)) requests)"
  shows "\<exists>a b. ingest_all (assembler_new config stats) (ds @ map (\<lambda>p. (p, now)) answers) = (a, [b]) \<and>
    ab_status b = Complete \<and> ab_payload b = data \<and> ab_block_id b = wire_block_id spec"
proof -
  let ?f = "packet_bytes spec data" and ?all = "{..packet_count spec data + 1}"
  have pos: "0 < spec_payload_stride spec" using assms(1) by (simp add: stream_agrees_def)
  have "{0..<packet_count spec data + 2} = ?all" by auto
  then have block: "set (map dg_bytes (block_datagrams spec data)) = ?f ` ?all"
    unfolding block_datagrams_bytes [OF pos] set_map set_upt by simp
  have "set (served spec (retain (bs_block_id spec) (block_datagrams spec data) rt) r) = ?f ` asked_packets r"
    if "r \<in> set requests" for r
    using bspec [OF assms(6) that] by (intro served_packets [OF assms(1-4)]) simp_all
  then have ans: "set answers = (\<Union>r \<in> set requests. ?f ` asked_packets r)" unfolding assms(8) by simp
  have sub: "set answers \<subseteq> ?f ` ?all"
  proof
    fix p assume "p \<in> set answers"
    then obtain r where r: "r \<in> set requests" "p \<in> ?f ` asked_packets r" unfolding ans by blast
    have "asked_packets r \<subseteq> ?all" using bspec [OF assms(6) r(1)] by (rule conjunct2)
    then show "p \<in> ?f ` ?all" using r(2) by (rule subsetD [OF image_mono])
  qed
  have sup: "?f ` ?all \<subseteq> fst ` set ds \<union> set answers"
  proof
    fix p assume "p \<in> ?f ` ?all"
    then obtain k where k: "p = ?f k" "k \<le> packet_count spec data + 1" by blast
    consider "?f k \<in> fst ` set ds" | r where "r \<in> set requests" "k \<in> asked_packets r"
      using spec [OF assms(7), of k] k(2) by blast
    then show "p \<in> fst ` set ds \<union> set answers"
      unfolding k(1) ans by cases (erule UnI1, rule UnI2, erule UN_I, erule imageI)
  qed
  have fed: "set (map fst (ds @ map (\<lambda>p. (p, now)) answers)) = fst ` set ds \<union> set answers"
    by (simp add: image_Un image_image)
  have "fst ` set ds \<subseteq> ?f ` ?all" using assms(5) unfolding block by simp
  then have all: "set (map fst (ds @ map (\<lambda>p. (p, now)) answers)) = set (map dg_bytes (block_datagrams spec data))"
    unfolding block fed by (intro subset_antisym Un_least sub sup)
  then have within: "set (map fst (ds @ map (\<lambda>p. (p, now)) answers)) \<subseteq> set (map dg_bytes (block_datagrams spec data))"
    by simp
  obtain a out where run: "ingest_all (assembler_new config stats) (ds @ map (\<lambda>p. (p, now)) answers) = (a, out)"
    and "if set (map fst (ds @ map (\<lambda>p. (p, now)) answers)) = set (map dg_bytes (block_datagrams spec data))
      then as_in_flight a = [] \<and> (\<exists>b. out = [b] \<and> sent_block spec data b) else out = []"
    using ingest_all_block [OF assms(1) within, of stats] by blast
  then obtain b where "out = [b]" "sent_block spec data b" unfolding if_P [OF all] by blast
  then show ?thesis using run by (simp add: sent_block_def)
qed

text \<open>The block of seven bytes in two data packets, of which the first data packet was lost.\<close>

lemma lost_packets_recovered_witness:
  "\<exists>a b. ingest_all (assembler_new (assembly_config_new 40) stats_new)
      (map (\<lambda>k. (packet_bytes example_spec [1, 2, 3, 4, 5, 6, 7] k, 5)) [0, 2, 3] @
       map (\<lambda>p. (p, 9)) (served example_spec
         (retain 7 (block_datagrams example_spec [1, 2, 3, 4, 5, 6, 7]) (set_path None (retention_new 4))) (3, 0, 1, 1))) =
      (a, [b]) \<and> ab_status b = Complete \<and> ab_payload b = [1, 2, 3, 4, 5, 6, 7]"
proof -
  let ?d = "[1, 2, 3, 4, 5, 6, 7] :: bytes"
  have n: "packet_count example_spec ?d = 2" and b: "bs_block_id example_spec = 7"
    and w: "wire_block_id example_spec = 7"
    by (simp_all add: example_spec_def spec_image_def packet_count_def spec_payload_stride_def spec_header_len_def
        gvsp_consts div_ceil_def wire_block_id_def)
  have pos: "0 < spec_payload_stride example_spec" using example_agrees by (simp add: stream_agrees_def)
  have sub: "set (map fst (map (\<lambda>k. (packet_bytes example_spec ?d k, 5 :: instant)) [0, 2, 3])) \<subseteq>
      set (map dg_bytes (block_datagrams example_spec ?d))"
    unfolding block_datagrams_bytes [OF pos] by (auto simp: n simp del: upt_Suc)
  have cover: "\<forall>k \<le> packet_count example_spec ?d + 1.
      packet_bytes example_spec ?d k \<in> fst ` set (map (\<lambda>k. (packet_bytes example_spec ?d k, 5 :: instant)) [0, 2, 3]) \<or>
      (\<exists>r \<in> set [(3, 0, 1, 1)]. k \<in> asked_packets r)"
  proof (intro allI impI)
    fix k assume "k \<le> packet_count example_spec ?d + 1"
    then have "k = 0 \<or> k = 1 \<or> k = 2 \<or> k = 3" unfolding n by linarith
    then show "packet_bytes example_spec ?d k \<in> fst ` set (map (\<lambda>k. (packet_bytes example_spec ?d k, 5 :: instant)) [0, 2, 3]) \<or>
      (\<exists>r \<in> set [(3, 0, 1, 1)]. k \<in> asked_packets r)"
      by (auto simp: asked_packets_def)
  qed
  have ask: "\<forall>r \<in> set [(3, 0, 1, 1)]. asked_packets r \<noteq> {} \<and> asked_packets r \<subseteq> {..packet_count example_spec ?d + 1}"
    by (simp add: asked_packets_def n)
  have same: "bs_block_id example_spec = wire_block_id example_spec" by (simp add: b w)
  have rt: "0 < rt_capacity (set_path None (retention_new 4))" "rt_path (set_path None (retention_new 4)) = Some None"
    by (simp_all add: set_path_def retention_new_def)
  from lost_packets_recovered [OF example_agrees same rt sub ask cover refl, of stats_new 9]
  show ?thesis by (simp add: b) blast
qed

end
