(* ===== verification/Gvcp_Device.thy ===== *)
theory Gvcp_Device
  imports Gvcp
begin

text \<open>
  The register and memory operations of a GigE Vision device and what the library does with them
  (\<^verbatim>\<open>crates/viva-gige/src/gvcp.rs\<close>, \<open>GigeDevice\<close>): control privilege, stream channels,
  capabilities, persistent addresses. Every operation is a sequence of transactions with the peer.

  Addresses are \<open>u64\<close> in the code and \<open>nat\<close> here; where an addition could leave 64 bits the
  model panics, as a checked addition does.
\<close>

section \<open>Constants\<close>

definition PERSISTENT_IP_ADDRESS :: nat where "PERSISTENT_IP_ADDRESS = 0x064C"
definition PERSISTENT_SUBNET_MASK :: nat where "PERSISTENT_SUBNET_MASK = 0x065C"
definition PERSISTENT_DEFAULT_GATEWAY :: nat where "PERSISTENT_DEFAULT_GATEWAY = 0x066C"
definition CURRENT_IP_CONFIG :: nat where "CURRENT_IP_CONFIG = 0x0014"
definition CCP_CONTROL :: u32 where "CCP_CONTROL = 2"
definition CCP_EXCLUSIVE :: u32 where "CCP_EXCLUSIVE = 1"
definition CCP_CONTROLLER_BITS :: u32 where "CCP_CONTROLLER_BITS = CCP_CONTROL OR CCP_EXCLUSIVE"
definition PRIMARY_APPLICATION_PORT :: nat where "PRIMARY_APPLICATION_PORT = 0x0a04"
definition PRIMARY_APPLICATION_IP :: nat where "PRIMARY_APPLICATION_IP = 0x0a14"
definition HEARTBEAT_TIMEOUT :: nat where "HEARTBEAT_TIMEOUT = 0x0938"
definition NUMBER_OF_STREAM_CHANNELS :: nat where "NUMBER_OF_STREAM_CHANNELS = 0x0904"
definition GVCP_CAPABILITY :: nat where "GVCP_CAPABILITY = 0x0934"
definition CAPABILITY_PACKET_RESEND :: u32 where "CAPABILITY_PACKET_RESEND = 0x00000004"
definition CAPABILITY_PENDING_ACK :: u32 where "CAPABILITY_PENDING_ACK = 0x00000020"
definition CAPABILITY_CCP_APPLICATION_PORT_IP :: u32 where "CAPABILITY_CCP_APPLICATION_PORT_IP = 0x08000000"
definition GVCP_CONFIGURATION :: nat where "GVCP_CONFIGURATION = 0x0954"
definition CONFIGURATION_PENDING_ACK_ENABLE :: u32 where "CONFIGURATION_PENDING_ACK_ENABLE = 0x00000002"
definition TIMESTAMP_TICK_FREQUENCY_HIGH :: nat where "TIMESTAMP_TICK_FREQUENCY_HIGH = 0x093C"
definition TIMESTAMP_TICK_FREQUENCY_LOW :: nat where "TIMESTAMP_TICK_FREQUENCY_LOW = 0x0940"
definition MESSAGE_DESTINATION_PORT :: nat where "MESSAGE_DESTINATION_PORT = 0x0B00"
definition MESSAGE_DESTINATION_ADDRESS :: nat where "MESSAGE_DESTINATION_ADDRESS = 0x0B10"
definition STREAM_CHANNEL_BASE :: nat where "STREAM_CHANNEL_BASE = 0x0d00"
definition STREAM_CHANNEL_STRIDE :: nat where "STREAM_CHANNEL_STRIDE = 0x40"
definition STREAM_DESTINATION_PORT :: nat where "STREAM_DESTINATION_PORT = 0x00"
definition STREAM_PACKET_SIZE :: nat where "STREAM_PACKET_SIZE = 0x04"
definition STREAM_PACKET_DELAY :: nat where "STREAM_PACKET_DELAY = 0x08"
definition STREAM_DESTINATION_ADDRESS :: nat where "STREAM_DESTINATION_ADDRESS = 0x18"
definition STREAM_PACKET_SIZE_MASK :: u32 where "STREAM_PACKET_SIZE_MASK = 0xFFFF"
definition SCPS_FIRE_TEST_PACKET :: u32 where "SCPS_FIRE_TEST_PACKET = 0x80000000"
definition SCPS_DO_NOT_FRAGMENT :: u32 where "SCPS_DO_NOT_FRAGMENT = 0x40000000"

section \<open>Registers and memory\<close>

definition single_register_address :: "nat \<Rightarrow> nat \<Rightarrow> u32 option" where
  "single_register_address addr len =
     (if len \<noteq> 4 \<or> addr mod 4 \<noteq> 0 then None
      else if addr < 2 ^ 32 then Some (word_of_nat addr) else None)"

definition read_register :: "'d peer \<Rightarrow> u32 \<Rightarrow> 'd control \<Rightarrow> (u32, gige_error) result \<times> 'd control" where
  "read_register peer addr c =
     bind (transact_with_retry peer ReadRegister (put_u32 addr) c) (\<lambda>ack c.
       if length (ack_payload ack) \<noteq> 4 then (Err (AckLength ''READREG'' 4 (length (ack_payload ack))), c)
       else (or_panic (get_u32 (ack_payload ack)) (\<lambda>(v, _). Ok v), c))"

definition write_register :: "'d peer \<Rightarrow> u32 \<Rightarrow> u32 \<Rightarrow> 'd control \<Rightarrow> (unit, gige_error) result \<times> 'd control" where
  "write_register peer addr v c =
     bind (transact_with_retry peer WriteRegister (put_u32 addr @ put_u32 v) c) (\<lambda>ack c.
       if length (ack_payload ack) \<noteq> 4 then (Err (AckLength ''WRITEREG'' 4 (length (ack_payload ack))), c)
       else (Ok (), c))"

text \<open>\<open>next_multiple_of(4)\<close>.\<close>

definition up4 :: "nat \<Rightarrow> nat" where
  "up4 n = (n + 3) div 4 * 4"

text \<open>One READMEM of \<open>read_mem\<close>, and its loop.\<close>

definition read_mem_chunk :: "'d peer \<Rightarrow> nat \<Rightarrow> nat \<Rightarrow> 'd control \<Rightarrow> (bytes, gige_error) result \<times> 'd control" where
  "read_mem_chunk peer at chunk c =
     (if at \<ge> 2 ^ 64 then (Panic, c)
      else
        let request = up4 chunk;
            payload = put_u32 (word_of_nat at) @ put_u16 0 @ put_u16 (word_of_nat request) in
        bind (transact_with_retry peer ReadMem payload c) (\<lambda>ack c.
          let p = ack_payload ack in
          if length p \<ge> 4 + request then (Ok (take chunk (drop 4 p)), c)
          else if length p = request then (Ok (take chunk p), c)
          else (Err (AckLength ''READMEM'' request (length p)), c)))"

function read_mem_loop :: "'d peer \<Rightarrow> nat \<Rightarrow> nat \<Rightarrow> nat \<Rightarrow> bytes \<Rightarrow> 'd control \<Rightarrow>
    (bytes, gige_error) result \<times> 'd control" where
  "read_mem_loop peer addr offset remaining data c =
     (if remaining = 0 then (Ok data, c)
      else
        bind (read_mem_chunk peer (addr + offset) (min remaining GENCP_MAX_BLOCK) c) (\<lambda>chunk c'.
          read_mem_loop peer addr (offset + min remaining GENCP_MAX_BLOCK)
            (remaining - min remaining GENCP_MAX_BLOCK) (data @ chunk) c'))"
  by pat_completeness auto
termination
  by (relation "measure (\<lambda>(peer, addr, offset, remaining, data, c). remaining)") (auto simp: GENCP_MAX_BLOCK_def)

declare read_mem_loop.simps [simp del]

definition read_mem :: "'d peer \<Rightarrow> nat \<Rightarrow> nat \<Rightarrow> 'd control \<Rightarrow> (bytes, gige_error) result \<times> 'd control" where
  "read_mem peer addr len c = read_mem_loop peer addr 0 len [] c"

definition GVCP_WRITE_OVERHEAD :: nat where "GVCP_WRITE_OVERHEAD = 4"

definition WRITE_CHUNK :: nat where "WRITE_CHUNK = GENCP_MAX_BLOCK - GVCP_WRITE_OVERHEAD"

text \<open>One WRITEMEM of \<open>write_mem_words\<close>, and its loop.\<close>

definition write_mem_chunk :: "'d peer \<Rightarrow> nat \<Rightarrow> bytes \<Rightarrow> 'd control \<Rightarrow> (unit, gige_error) result \<times> 'd control" where
  "write_mem_chunk peer at chunk c =
     (if at \<ge> 2 ^ 64 then (Panic, c)
      else
        bind (transact_with_retry peer WriteMem (put_u32 (word_of_nat at) @ chunk) c) (\<lambda>ack c.
          if length (ack_payload ack) > 4 then (Err (AckLength ''WRITEMEM'' 4 (length (ack_payload ack))), c)
          else (Ok (), c)))"

function write_words_loop :: "'d peer \<Rightarrow> nat \<Rightarrow> bytes \<Rightarrow> nat \<Rightarrow> 'd control \<Rightarrow>
    (unit, gige_error) result \<times> 'd control" where
  "write_words_loop peer addr data offset c =
     (if offset \<ge> length data then (Ok (), c)
      else
        bind (write_mem_chunk peer (addr + offset) (take WRITE_CHUNK (drop offset data)) c) (\<lambda>_ c'.
          write_words_loop peer addr data (offset + min (length data - offset) WRITE_CHUNK) c'))"
  by pat_completeness auto
termination
  by (relation "measure (\<lambda>(peer, addr, data, offset, c). length data - offset)")
     (auto simp: WRITE_CHUNK_def GENCP_MAX_BLOCK_def GVCP_WRITE_OVERHEAD_def)

declare write_words_loop.simps [simp del]

definition write_mem_words :: "'d peer \<Rightarrow> nat \<Rightarrow> bytes \<Rightarrow> 'd control \<Rightarrow> (unit, gige_error) result \<times> 'd control" where
  "write_mem_words peer addr data c = write_words_loop peer addr data 0 c"

definition write_mem :: "'d peer \<Rightarrow> nat \<Rightarrow> bytes \<Rightarrow> 'd control \<Rightarrow> (unit, gige_error) result \<times> 'd control" where
  "write_mem peer addr data c =
     (let start = addr - addr mod 4; stop = up4 (addr + length data) in
      if stop \<ge> 2 ^ 64 then (Panic, c)
      else if data = [] \<or> (start = addr \<and> stop = addr + length data) then write_mem_words peer addr data c
      else
        (case read_mem peer start (stop - start) c of
           (Panic, c) \<Rightarrow> (Panic, c)
         | (Err _, c) \<Rightarrow> write_mem_words peer addr data c
         | (Ok words, c) \<Rightarrow>
             let offset = addr - start in
             if offset + length data > length words then (Panic, c)
             else write_mem_words peer start
                    (take offset words @ data @ drop (offset + length data) words) c))"

definition latch_memory_access :: "'d control \<Rightarrow> 'd control" where
  "latch_memory_access c = c\<lparr>gd_memory_access_only := True\<rparr>"

definition read_register_or_mem :: "'d peer \<Rightarrow> nat \<Rightarrow> nat \<Rightarrow> 'd control \<Rightarrow>
    (bytes, gige_error) result \<times> 'd control" where
  "read_register_or_mem peer addr len c =
     (case single_register_address addr len of
        Some register \<Rightarrow>
          if gd_memory_access_only c then read_mem peer addr len c
          else
            (case read_register peer register c of
               (Ok v, c) \<Rightarrow> (Ok (put_u32 v), c)
             | (Err e, c) \<Rightarrow>
                 if e = Status (Common NotImplemented) then read_mem peer addr len (latch_memory_access c)
                 else if e = Timeout then
                   bind (read_mem peer addr len c) (\<lambda>data c. (Ok data, latch_memory_access c))
                 else (Err e, c)
             | (Panic, c) \<Rightarrow> (Panic, c))
      | None \<Rightarrow> read_mem peer addr len c)"

definition write_register_or_mem :: "'d peer \<Rightarrow> nat \<Rightarrow> bytes \<Rightarrow> 'd control \<Rightarrow>
    (unit, gige_error) result \<times> 'd control" where
  "write_register_or_mem peer addr data c =
     (case single_register_address addr (length data) of
        Some register \<Rightarrow>
          if gd_memory_access_only c then write_mem peer addr data c
          else
            (case write_register peer register (be_word data) c of
               (Ok _, c) \<Rightarrow> (Ok (), c)
             | (Err e, c) \<Rightarrow>
                 if e = Status (Common NotImplemented) then write_mem peer addr data (latch_memory_access c)
                 else if e = Timeout then
                   bind (write_mem peer addr data c) (\<lambda>_ c. (Ok (), latch_memory_access c))
                 else (Err e, c)
             | (Panic, c) \<Rightarrow> (Panic, c))
      | None \<Rightarrow> write_mem peer addr data c)"

definition read_u32 :: "'d peer \<Rightarrow> nat \<Rightarrow> 'd control \<Rightarrow> (u32, gige_error) result \<times> 'd control" where
  "read_u32 peer addr c =
     bind (read_register_or_mem peer addr 4 c) (\<lambda>data c.
       if length data \<noteq> 4 then (Err (AckLength ''READREG'' 4 (length data)), c) else (Ok (be_word data), c))"

definition write_u32 :: "'d peer \<Rightarrow> nat \<Rightarrow> u32 \<Rightarrow> 'd control \<Rightarrow> (unit, gige_error) result \<times> 'd control" where
  "write_u32 peer addr v c = write_register_or_mem peer addr (put_u32 v) c"

section \<open>Control privilege\<close>

definition claim_control :: "'d peer \<Rightarrow> 'd control \<Rightarrow> (unit, gige_error) result \<times> 'd control" where
  "claim_control peer c =
     write_u32 peer CONTROL_CHANNEL_PRIVILEGE (if gd_exclusive_access c then CCP_EXCLUSIVE else CCP_CONTROL) c"

definition release_control :: "'d peer \<Rightarrow> 'd control \<Rightarrow> (unit, gige_error) result \<times> 'd control" where
  "release_control peer c = write_u32 peer CONTROL_CHANNEL_PRIVILEGE 0 c"

definition try_send_release :: "'d peer \<Rightarrow> 'd control \<Rightarrow> io_error option \<times> 'd control" where
  "try_send_release peer c =
     (let (request_id, c) = next_request_id c;
          opcode = (if gd_memory_access_only c then WriteMem else WriteRegister) in
      send peer (command_of opcode request_id (put_u32 (word_of_nat CONTROL_CHANNEL_PRIVILEGE) @ put_u32 0)) c)"

definition heartbeat_timeout_ms :: "'d peer \<Rightarrow> 'd control \<Rightarrow> (u32, gige_error) result \<times> 'd control" where
  "heartbeat_timeout_ms peer c = read_u32 peer HEARTBEAT_TIMEOUT c"

definition gvcp_capability :: "'d peer \<Rightarrow> 'd control \<Rightarrow> (u32, gige_error) result \<times> 'd control" where
  "gvcp_capability peer c = read_u32 peer GVCP_CAPABILITY c"

definition primary_application_is_us :: "'d peer \<Rightarrow> u32 \<times> u16 \<Rightarrow> 'd control \<Rightarrow>
    (bool, gige_error) result \<times> 'd control" where
  "primary_application_is_us peer us c =
     (let (known, c) =
            (case gd_names_primary_application c of
               Some known \<Rightarrow> (Ok known, c)
             | None \<Rightarrow>
                 (case gvcp_capability peer c of
                    (Panic, c) \<Rightarrow> (Panic, c)
                  | (Ok caps, c) \<Rightarrow>
                      let known = (caps AND CAPABILITY_CCP_APPLICATION_PORT_IP \<noteq> 0) in
                      (Ok known, c\<lparr>gd_names_primary_application := Some known\<rparr>)
                  | (Err _, c) \<Rightarrow> (Ok False, c\<lparr>gd_names_primary_application := Some False\<rparr>))) in
      bind (known, c) (\<lambda>names_owner c.
        if \<not> names_owner then (Ok True, c)
        else
          bind (read_u32 peer PRIMARY_APPLICATION_PORT c) (\<lambda>port_register c.
          bind (read_u32 peer PRIMARY_APPLICATION_IP c) (\<lambda>ip_register c.
            let our_port = ucast (snd us); our_ip = fst us;
                standard = (port_register AND 0xFFFF = our_port \<and> ip_register = our_ip);
                swapped = (port_register = our_ip \<and> ip_register = our_port) in
            (Ok (standard \<or> swapped), c)))))"

definition ping_control_channel :: "'d peer \<Rightarrow> u32 \<times> u16 \<Rightarrow> 'd control \<Rightarrow>
    (bool, gige_error) result \<times> 'd control" where
  "ping_control_channel peer us c =
     bind (read_u32 peer CONTROL_CHANNEL_PRIVILEGE c) (\<lambda>privilege c.
       if privilege AND CCP_CONTROLLER_BITS = 0 then (Ok False, c) else primary_application_is_us peer us c)"

definition holds_control :: "'d peer \<Rightarrow> u32 \<times> u16 \<Rightarrow> 'd control \<Rightarrow> (bool, gige_error) result \<times> 'd control" where
  "holds_control peer us c =
     bind (ping_control_channel peer us c) (\<lambda>held c.
       if \<not> held then (Ok False, c)
       else if gd_names_primary_application c = Some True then (Ok True, c)
       else
         (case claim_control peer c of
            (Ok _, c) \<Rightarrow> (Ok True, c)
          | (Err e, c) \<Rightarrow> if e = Status (Common AccessDenied) then (Ok False, c) else (Err e, c)
          | (Panic, c) \<Rightarrow> (Panic, c)))"

section \<open>Stream channels and the rest of the bootstrap registers\<close>

definition set_message_destination :: "'d peer \<Rightarrow> u32 \<Rightarrow> u16 \<Rightarrow> 'd control \<Rightarrow>
    (unit, gige_error) result \<times> 'd control" where
  "set_message_destination peer ip port c =
     bind (write_u32 peer MESSAGE_DESTINATION_ADDRESS ip c) (\<lambda>_ c.
       write_u32 peer MESSAGE_DESTINATION_PORT (ucast port) c)"

definition stream_reg :: "u32 \<Rightarrow> nat \<Rightarrow> nat" where
  "stream_reg channel off = STREAM_CHANNEL_BASE + unat channel * STREAM_CHANNEL_STRIDE + off"

definition set_stream_destination :: "'d peer \<Rightarrow> u32 \<Rightarrow> u32 \<Rightarrow> u16 \<Rightarrow> 'd control \<Rightarrow>
    (unit, gige_error) result \<times> 'd control" where
  "set_stream_destination peer channel ip port c =
     bind (write_u32 peer (stream_reg channel STREAM_DESTINATION_ADDRESS) ip c) (\<lambda>_ c.
       write_u32 peer (stream_reg channel STREAM_DESTINATION_PORT) (ucast port) c)"

definition stream_destination :: "'d peer \<Rightarrow> u32 \<Rightarrow> 'd control \<Rightarrow>
    (u32 \<times> u16, gige_error) result \<times> 'd control" where
  "stream_destination peer channel c =
     bind (read_u32 peer (stream_reg channel STREAM_DESTINATION_ADDRESS) c) (\<lambda>ip c.
     bind (read_u32 peer (stream_reg channel STREAM_DESTINATION_PORT) c) (\<lambda>port c.
       (Ok (ip, ucast (port AND 0xFFFF)), c)))"

definition set_stream_packet_size :: "'d peer \<Rightarrow> u32 \<Rightarrow> u32 \<Rightarrow> 'd control \<Rightarrow>
    (unit, gige_error) result \<times> 'd control" where
  "set_stream_packet_size peer channel packet_size c =
     (if packet_size > STREAM_PACKET_SIZE_MASK then (Err (PacketSize packet_size), c)
      else
        let addr = stream_reg channel STREAM_PACKET_SIZE in
        (case read_u32 peer addr c of
           (Ok raw, c) \<Rightarrow>
             write_u32 peer addr ((raw AND NOT (STREAM_PACKET_SIZE_MASK OR SCPS_FIRE_TEST_PACKET)) OR packet_size) c
         | (Err _, c) \<Rightarrow> write_u32 peer addr (0 OR packet_size) c
         | (Panic, c) \<Rightarrow> (Panic, c)))"

definition stream_do_not_fragment :: "'d peer \<Rightarrow> u32 \<Rightarrow> 'd control \<Rightarrow> (bool, gige_error) result \<times> 'd control" where
  "stream_do_not_fragment peer channel c =
     bind (read_u32 peer (stream_reg channel STREAM_PACKET_SIZE) c) (\<lambda>raw c.
       (Ok (raw AND SCPS_DO_NOT_FRAGMENT \<noteq> 0), c))"

definition set_stream_do_not_fragment :: "'d peer \<Rightarrow> u32 \<Rightarrow> bool \<Rightarrow> 'd control \<Rightarrow>
    (unit, gige_error) result \<times> 'd control" where
  "set_stream_do_not_fragment peer channel on c =
     (let addr = stream_reg channel STREAM_PACKET_SIZE in
      bind (read_u32 peer addr c) (\<lambda>read c.
        let raw = read AND NOT SCPS_FIRE_TEST_PACKET;
            word = (if on then raw OR SCPS_DO_NOT_FRAGMENT else raw AND NOT SCPS_DO_NOT_FRAGMENT) in
        if word \<noteq> raw then write_u32 peer addr word c else (Ok (), c)))"

definition request_test_packet :: "'d peer \<Rightarrow> u32 \<Rightarrow> u32 \<Rightarrow> 'd control \<Rightarrow>
    (unit, gige_error) result \<times> 'd control" where
  "request_test_packet peer channel packet_size c =
     (if packet_size > STREAM_PACKET_SIZE_MASK then (Err (PacketSize packet_size), c)
      else write_u32 peer (stream_reg channel STREAM_PACKET_SIZE)
             (packet_size OR SCPS_FIRE_TEST_PACKET OR SCPS_DO_NOT_FRAGMENT) c)"

definition get_stream_packet_size :: "'d peer \<Rightarrow> u32 \<Rightarrow> 'd control \<Rightarrow> (u32, gige_error) result \<times> 'd control" where
  "get_stream_packet_size peer channel c =
     bind (read_u32 peer (stream_reg channel STREAM_PACKET_SIZE) c) (\<lambda>raw c.
       (Ok (raw AND STREAM_PACKET_SIZE_MASK), c))"

definition enable_pending_ack :: "'d peer \<Rightarrow> 'd control \<Rightarrow> (bool, gige_error) result \<times> 'd control" where
  "enable_pending_ack peer c =
     bind (gvcp_capability peer c) (\<lambda>caps c.
       if caps AND CAPABILITY_PENDING_ACK = 0 then (Ok False, c)
       else
         bind (read_u32 peer GVCP_CONFIGURATION c) (\<lambda>config c.
           if config AND CONFIGURATION_PENDING_ACK_ENABLE = 0 then
             bind (write_u32 peer GVCP_CONFIGURATION (config OR CONFIGURATION_PENDING_ACK_ENABLE) c)
               (\<lambda>_ c. (Ok True, c))
           else (Ok True, c)))"

definition stream_channel_count :: "'d peer \<Rightarrow> 'd control \<Rightarrow> (u32, gige_error) result \<times> 'd control" where
  "stream_channel_count peer c = read_u32 peer NUMBER_OF_STREAM_CHANNELS c"

definition timestamp_tick_frequency :: "'d peer \<Rightarrow> 'd control \<Rightarrow> (u64, gige_error) result \<times> 'd control" where
  "timestamp_tick_frequency peer c =
     bind (read_u32 peer TIMESTAMP_TICK_FREQUENCY_HIGH c) (\<lambda>high c.
     bind (read_u32 peer TIMESTAMP_TICK_FREQUENCY_LOW c) (\<lambda>low c.
       (Ok (push_bit 32 (ucast high) OR ucast low), c)))"

definition set_stream_packet_delay :: "'d peer \<Rightarrow> u32 \<Rightarrow> u32 \<Rightarrow> 'd control \<Rightarrow>
    (unit, gige_error) result \<times> 'd control" where
  "set_stream_packet_delay peer channel packet_delay c =
     write_u32 peer (stream_reg channel STREAM_PACKET_DELAY) packet_delay c"

definition read_persistent_ip :: "'d peer \<Rightarrow> 'd control \<Rightarrow> (u32 \<times> u32 \<times> u32, gige_error) result \<times> 'd control" where
  "read_persistent_ip peer c =
     bind (read_u32 peer PERSISTENT_IP_ADDRESS c) (\<lambda>ip c.
     bind (read_u32 peer PERSISTENT_SUBNET_MASK c) (\<lambda>subnet c.
     bind (read_u32 peer PERSISTENT_DEFAULT_GATEWAY c) (\<lambda>gateway c. (Ok (ip, subnet, gateway), c))))"

definition write_persistent_ip :: "'d peer \<Rightarrow> u32 \<Rightarrow> u32 \<Rightarrow> u32 \<Rightarrow> 'd control \<Rightarrow>
    (unit, gige_error) result \<times> 'd control" where
  "write_persistent_ip peer ip subnet gateway c =
     bind (write_u32 peer PERSISTENT_IP_ADDRESS ip c) (\<lambda>_ c.
     bind (write_u32 peer PERSISTENT_SUBNET_MASK subnet c) (\<lambda>_ c.
       write_u32 peer PERSISTENT_DEFAULT_GATEWAY gateway c))"

definition enable_persistent_ip :: "'d peer \<Rightarrow> 'd control \<Rightarrow> (unit, gige_error) result \<times> 'd control" where
  "enable_persistent_ip peer c =
     bind (read_u32 peer CURRENT_IP_CONFIG c) (\<lambda>current c. write_u32 peer CURRENT_IP_CONFIG (current OR 0x02) c)"

end
