(* ===== verification/Fake_Registers.thy ===== *)
theory Fake_Registers
  imports Gvcp_Device "HOL-Library.AList"
begin

text \<open>
  The register store of the in-process camera (\<^verbatim>\<open>crates/viva-fake-gige/src/registers.rs\<close>,
  \<open>RegisterMap\<close>): which bytes a read returns, what a write changes, who may access the device, and
  the side effects of the special registers.

  The hash map of registers is an association list with distinct keys; the code iterates over it
  only to find the one register an address falls into. The clock is an argument. The initial
  content, and the setters tests use, are not modelled.
\<close>

section \<open>Constants\<close>

definition XML_BLOB_BASE :: nat where "XML_BLOB_BASE = 0x10000"
definition REG_WIDTH :: nat where "REG_WIDTH = 0x20000"
definition REG_HEIGHT :: nat where "REG_HEIGHT = 0x20004"
definition REG_PIXEL_FORMAT :: nat where "REG_PIXEL_FORMAT = 0x20008"
definition REG_OFFSET_X :: nat where "REG_OFFSET_X = 0x2000c"
definition REG_OFFSET_Y :: nat where "REG_OFFSET_Y = 0x20010"
definition REG_SENSOR_WIDTH :: nat where "REG_SENSOR_WIDTH = 0x20014"
definition REG_SENSOR_HEIGHT :: nat where "REG_SENSOR_HEIGHT = 0x20018"
definition REG_ACQ_START :: nat where "REG_ACQ_START = 0x20024"
definition REG_ACQ_STOP :: nat where "REG_ACQ_STOP = 0x20028"
definition REG_EXPOSURE_TIME :: nat where "REG_EXPOSURE_TIME = 0x20030"
definition REG_EXPOSURE_AUTO :: nat where "REG_EXPOSURE_AUTO = 0x20038"
definition REG_GAIN :: nat where "REG_GAIN = 0x20040"
definition REG_GAIN_AUTO :: nat where "REG_GAIN_AUTO = 0x20048"
definition REG_TIMESTAMP_VALUE :: nat where "REG_TIMESTAMP_VALUE = 0x20068"
definition REG_TIMESTAMP_LATCH :: nat where "REG_TIMESTAMP_LATCH = 0x20070"
definition REG_CHUNK_MODE_ACTIVE :: nat where "REG_CHUNK_MODE_ACTIVE = 0x20080"
definition REG_CHUNK_SELECTOR :: nat where "REG_CHUNK_SELECTOR = 0x20084"
definition REG_CHUNK_ENABLE :: nat where "REG_CHUNK_ENABLE = 0x20088"
definition REG_EVENT_SELECTOR :: nat where "REG_EVENT_SELECTOR = 0x200a0"
definition REG_EVENT_NOTIFICATION :: nat where "REG_EVENT_NOTIFICATION = 0x200a4"
definition REG_USER_SET_LOAD :: nat where "REG_USER_SET_LOAD = 0x200ac"
definition REG_SOFTWARE_SIGNAL_PULSE :: nat where "REG_SOFTWARE_SIGNAL_PULSE = 0x200b0"
definition REG_USER_SET_SAVE :: nat where "REG_USER_SET_SAVE = 0x200b4"
definition REG_TRIGGER_SELECTOR :: nat where "REG_TRIGGER_SELECTOR = 0x200c0"
definition REG_TRIGGER_MODE :: nat where "REG_TRIGGER_MODE = 0x200c4"
definition REG_TRIGGER_SOURCE :: nat where "REG_TRIGGER_SOURCE = 0x200d0"
definition REG_TRIGGER_SOFTWARE :: nat where "REG_TRIGGER_SOFTWARE = 0x200e0"
definition REG_BINNING_HORIZONTAL :: nat where "REG_BINNING_HORIZONTAL = 0x200e4"
definition REG_BINNING_VERTICAL :: nat where "REG_BINNING_VERTICAL = 0x200e8"
definition REG_WIDTH_MAX :: nat where "REG_WIDTH_MAX = 0x20104"
definition REG_HEIGHT_MAX :: nat where "REG_HEIGHT_MAX = 0x2010c"
definition REG_PAYLOAD_SIZE :: nat where "REG_PAYLOAD_SIZE = 0x20120"
definition REG_DEVICE_TEMPERATURE :: nat where "REG_DEVICE_TEMPERATURE = 0x20300"
definition REG_DEVICE_USER_ID :: nat where "REG_DEVICE_USER_ID = 0x20400"
definition DEVICE_USER_ID_LEN :: nat where "DEVICE_USER_ID_LEN = 16"
definition TRIGGER_FRAME_START :: u32 where "TRIGGER_FRAME_START = 0"
definition TRIGGER_SOURCE_SOFTWARE :: u32 where "TRIGGER_SOURCE_SOFTWARE = 1"
definition CHUNK_SELECTOR_TIMESTAMP :: u32 where "CHUNK_SELECTOR_TIMESTAMP = 1"
definition CHUNK_SELECTOR_EXPOSURE_TIME :: u32 where "CHUNK_SELECTOR_EXPOSURE_TIME = 2"
definition CHUNK_SELECTOR_FRAME_ID :: u32 where "CHUNK_SELECTOR_FRAME_ID = 4"
definition CHUNK_SELECTOR_IMAGE_INFO :: u32 where "CHUNK_SELECTOR_IMAGE_INFO = 5"

text \<open>The exposure 5000.0 and the gain 0.0 as IEEE doubles.\<close>

definition DEFAULT_EXPOSURE_US :: u64 where "DEFAULT_EXPOSURE_US = 0x40B3880000000000"

definition WRITE_ONLY_REGISTERS :: "nat list" where
  "WRITE_ONLY_REGISTERS =
     [REG_ACQ_START, REG_ACQ_STOP, REG_TIMESTAMP_LATCH, REG_USER_SET_LOAD, REG_SOFTWARE_SIGNAL_PULSE,
      REG_USER_SET_SAVE, REG_TRIGGER_SOFTWARE]"

definition USER_SET_REGISTERS :: "nat list" where
  "USER_SET_REGISTERS = [REG_EXPOSURE_TIME, REG_GAIN, REG_EXPOSURE_AUTO, REG_GAIN_AUTO]"

section \<open>State\<close>

type_synonym socket_addr = "u32 \<times> u16"

record register_map =
  rm_regs :: "(nat \<times> bytes) list"
  rm_xml_blob :: bytes
  rm_clock_origin :: instant
  rm_enabled_events :: "u16 list"
  rm_enabled_chunks :: "u32 list"
  rm_last_register_command :: instant
  rm_controller :: "socket_addr option"
  rm_enforce_heartbeat :: bool
  rm_max_packet_size :: "u32 option"
  rm_max_on_wire :: "u32 option"
  rm_pending_test_packet :: "u32 option"
  rm_user_sets :: "(u32 \<times> (nat \<times> bytes) list) list"
  rm_pending_frame_triggers :: nat
  rm_software_triggers :: nat
  rm_binning :: "u32 \<times> u32"

definition reg_insert :: "nat \<Rightarrow> bytes \<Rightarrow> register_map \<Rightarrow> register_map" where
  "reg_insert addr data rm = rm\<lparr>rm_regs := AList.update addr data (rm_regs rm)\<rparr>"

section \<open>Reading\<close>

text \<open>The register an address falls into.\<close>

definition register_at :: "nat \<Rightarrow> register_map \<Rightarrow> (nat \<times> bytes) option" where
  "register_at addr rm = find (\<lambda>(r, d). r \<le> addr \<and> addr - r < length d) (rm_regs rm)"

definition read_stored :: "register_map \<Rightarrow> nat \<Rightarrow> nat \<Rightarrow> bytes" where
  "read_stored rm addr len =
     (case map_of (rm_regs rm) addr of
        Some data \<Rightarrow> resize len 0 data
      | None \<Rightarrow>
          (case register_at addr rm of
             Some (r, data) \<Rightarrow> resize len 0 (take len (drop (addr - r) data))
           | None \<Rightarrow> replicate len 0))"

definition read_blob :: "register_map \<Rightarrow> nat \<Rightarrow> nat \<Rightarrow> bytes option" where
  "read_blob rm addr len =
     (if addr \<ge> XML_BLOB_BASE \<and> addr - XML_BLOB_BASE < length (rm_xml_blob rm)
      then Some (resize len 0 (take len (drop (addr - XML_BLOB_BASE) (rm_xml_blob rm)))) else None)"

text \<open>A plain word of the store; none of the registers read this way is a computed one.\<close>

definition read_plain_u32 :: "register_map \<Rightarrow> nat \<Rightarrow> u32" where
  "read_plain_u32 rm addr =
     be_word (case read_blob rm addr 4 of Some d \<Rightarrow> d | None \<Rightarrow> read_stored rm addr 4)"

definition image_size :: "u32 \<Rightarrow> u32 \<Rightarrow> u32 \<Rightarrow> nat" where
  "image_size pixel_format width height =
     (let pixels = unat width * unat height in
      if pixel_format AND 0x80000000 \<noteq> 0 then pixels
      else
        let bits = unat (drop_bit 16 pixel_format AND 0xFF) in
        if bits = 0 then pixels else div_ceil (pixels * bits) 8)"

text \<open>The length of the value each chunk selector adds; all selectors asked for are known ones.\<close>

definition chunk_value_len :: "u32 \<Rightarrow> nat" where
  "chunk_value_len selector = (if selector = CHUNK_SELECTOR_IMAGE_INFO then 16 else 8)"

definition chunk_block_len :: "u32 list \<Rightarrow> nat \<Rightarrow> nat" where
  "chunk_block_len selectors image_len =
     image_len + 8 + sum_list (map (\<lambda>s. chunk_value_len s + 8) selectors)"

definition payload_size :: "register_map \<Rightarrow> u32" where
  "payload_size rm =
     (let image = image_size (read_plain_u32 rm REG_PIXEL_FORMAT) (read_plain_u32 rm REG_WIDTH)
                    (read_plain_u32 rm REG_HEIGHT);
          size =
            (if read_plain_u32 rm REG_CHUNK_MODE_ACTIVE \<noteq> 0
             then chunk_block_len
                    (filter (\<lambda>s. s \<in> set (rm_enabled_chunks rm))
                      [CHUNK_SELECTOR_TIMESTAMP, CHUNK_SELECTOR_EXPOSURE_TIME, CHUNK_SELECTOR_FRAME_ID,
                       CHUNK_SELECTOR_IMAGE_INFO]) image
             else image) in
      if size < 2 ^ 32 then word_of_nat size else - 1)"

text \<open>\<open>(40.0 + step * 0.25) * 256.0\<close> is exact in binary64.\<close>

definition device_temperature_raw :: "instant \<Rightarrow> register_map \<Rightarrow> u32" where
  "device_temperature_raw now rm =
     word_of_nat (40 * 256 + (now - rm_clock_origin rm) div 200000000 mod 80 * 64)"

definition event_selector :: "register_map \<Rightarrow> u16" where
  "event_selector rm = ucast (read_plain_u32 rm REG_EVENT_SELECTOR)"

definition chunk_selector :: "register_map \<Rightarrow> u32" where
  "chunk_selector rm = read_plain_u32 rm REG_CHUNK_SELECTOR"

definition word_bytes :: "nat \<Rightarrow> u32 \<Rightarrow> bytes" where
  "word_bytes len w = resize len 0 (put_u32 w)"

definition reg_read :: "instant \<Rightarrow> register_map \<Rightarrow> nat \<Rightarrow> nat \<Rightarrow> bytes" where
  "reg_read now rm addr len =
     (case read_blob rm addr len of
        Some d \<Rightarrow> d
      | None \<Rightarrow>
          if addr = PRIMARY_APPLICATION_PORT \<or> addr = PRIMARY_APPLICATION_IP then
            word_bytes len
              (case rm_controller rm of
                 None \<Rightarrow> 0
               | Some owner \<Rightarrow> if addr = PRIMARY_APPLICATION_PORT then ucast (snd owner) else fst owner)
          else if addr = REG_PAYLOAD_SIZE then word_bytes len (payload_size rm)
          else if addr = REG_DEVICE_TEMPERATURE then word_bytes len (device_temperature_raw now rm)
          else if addr = REG_EVENT_NOTIFICATION then
            word_bytes len (if event_selector rm \<in> set (rm_enabled_events rm) then 1 else 0)
          else if addr = REG_CHUNK_ENABLE then
            word_bytes len (if chunk_selector rm \<in> set (rm_enabled_chunks rm) then 1 else 0)
          else read_stored rm addr len)"

definition read_u32_be :: "instant \<Rightarrow> register_map \<Rightarrow> nat \<Rightarrow> u32" where
  "read_u32_be now rm addr = be_word (reg_read now rm addr 4)"

section \<open>Access\<close>

definition is_write_only :: "nat \<Rightarrow> nat \<Rightarrow> bool" where
  "is_write_only addr len \<longleftrightarrow> list_ex (\<lambda>r. r < addr + len \<and> addr < r + 4) WRITE_ONLY_REGISTERS"

definition is_invalid_address :: "instant \<Rightarrow> register_map \<Rightarrow> nat \<Rightarrow> nat \<Rightarrow> bool" where
  "is_invalid_address now rm addr len \<longleftrightarrow>
     read_u32_be now rm GVCP_CAPABILITY AND CAPABILITY_CCP_APPLICATION_PORT_IP = 0 \<and>
     list_ex (\<lambda>r. r < addr + len \<and> addr < r + 4) [PRIMARY_APPLICATION_PORT, PRIMARY_APPLICATION_IP]"

definition may_access :: "instant \<Rightarrow> register_map \<Rightarrow> socket_addr \<Rightarrow> bool \<Rightarrow> bool" where
  "may_access now rm app writing =
     (case rm_controller rm of
        None \<Rightarrow> \<not> writing
      | Some controller \<Rightarrow>
          if controller = app then True
          else if writing then False
          else read_u32_be now rm CONTROL_CHANNEL_PRIVILEGE AND CCP_EXCLUSIVE = 0)"

definition revoke_control :: "register_map \<Rightarrow> register_map" where
  "revoke_control rm = reg_insert CONTROL_CHANNEL_PRIVILEGE (put_u32 0) (rm\<lparr>rm_controller := None\<rparr>)"

definition fake_heartbeat_timeout_ms :: "instant \<Rightarrow> register_map \<Rightarrow> u32" where
  "fake_heartbeat_timeout_ms now rm = read_u32_be now rm HEARTBEAT_TIMEOUT"

definition heartbeat_expired :: "instant \<Rightarrow> register_map \<Rightarrow> duration \<Rightarrow> bool" where
  "heartbeat_expired now rm elapsed =
     (let timeout = unat (fake_heartbeat_timeout_ms now rm) * 1000000 in timeout \<noteq> 0 \<and> elapsed > timeout)"

definition note_register_command :: "instant \<Rightarrow> socket_addr \<Rightarrow> register_map \<Rightarrow> bool \<times> register_map" where
  "note_register_command now app rm =
     (let revoked = (rm_enforce_heartbeat rm \<and> rm_controller rm \<noteq> None \<and>
                     heartbeat_expired now rm (now - rm_last_register_command rm));
          rm = (if revoked then revoke_control rm else rm);
          rm = (if rm_controller rm = Some app then rm\<lparr>rm_last_register_command := now\<rparr> else rm) in
      (revoked, rm))"

definition write_ccp :: "instant \<Rightarrow> socket_addr \<Rightarrow> u32 \<Rightarrow> register_map \<Rightarrow> bool \<times> register_map" where
  "write_ccp now app v rm =
     (if (case rm_controller rm of None \<Rightarrow> False | Some controller \<Rightarrow> controller \<noteq> app) then (False, rm)
      else if v AND (CCP_CONTROL OR CCP_EXCLUSIVE) \<noteq> 0
      then (True, reg_insert CONTROL_CHANNEL_PRIVILEGE (put_u32 v)
              (rm\<lparr>rm_controller := Some app, rm_last_register_command := now\<rparr>))
      else (True, revoke_control rm))"

definition pending_ack_enabled :: "instant \<Rightarrow> register_map \<Rightarrow> bool" where
  "pending_ack_enabled now rm \<longleftrightarrow>
     read_u32_be now rm GVCP_CAPABILITY AND CAPABILITY_PENDING_ACK \<noteq> 0 \<and>
     read_u32_be now rm GVCP_CONFIGURATION AND CONFIGURATION_PENDING_ACK_ENABLE \<noteq> 0"

definition packet_resend_supported :: "instant \<Rightarrow> register_map \<Rightarrow> bool" where
  "packet_resend_supported now rm \<longleftrightarrow> read_u32_be now rm GVCP_CAPABILITY AND CAPABILITY_PACKET_RESEND \<noteq> 0"

section \<open>Writing\<close>

text \<open>\<open>dst[..len].copy_from_slice(&src[..len])\<close> at an offset, cut to the register.\<close>

definition patch :: "nat \<Rightarrow> bytes \<Rightarrow> bytes \<Rightarrow> bytes" where
  "patch offset data reg =
     (let n = min (length data) (length reg - offset) in
      take offset reg @ take n data @ drop (offset + n) reg)"

definition STREAM_SIZE_REGISTER :: nat where
  "STREAM_SIZE_REGISTER = STREAM_CHANNEL_BASE + STREAM_PACKET_SIZE"

text \<open>The packet size register: the fire bit becomes a request, reserved bits are cut off, and a
  capped device reduces the size. Bytes after the first four are dropped with the flags.\<close>

definition packet_size_word :: "bytes \<Rightarrow> u32" where
  "packet_size_word data = be_word (take 4 data)"

definition strip_packet_size :: "nat \<Rightarrow> bytes \<Rightarrow> register_map \<Rightarrow> bytes \<times> register_map" where
  "strip_packet_size addr data rm =
     (if addr = STREAM_SIZE_REGISTER \<and> length data \<ge> 4 then
        let raw = packet_size_word data;
            rm = rm\<lparr>rm_pending_test_packet :=
              (if raw AND SCPS_FIRE_TEST_PACKET \<noteq> 0 then Some (raw AND STREAM_PACKET_SIZE_MASK) else None)\<rparr> in
        (if raw AND NOT (SCPS_DO_NOT_FRAGMENT OR STREAM_PACKET_SIZE_MASK) \<noteq> 0
         then put_u32 (raw AND (SCPS_DO_NOT_FRAGMENT OR STREAM_PACKET_SIZE_MASK)) else data, rm)
      else (data, rm))"

definition clamp_packet_size :: "nat \<Rightarrow> bytes \<Rightarrow> register_map \<Rightarrow> bytes" where
  "clamp_packet_size addr data rm =
     (case rm_max_packet_size rm of
        Some limit \<Rightarrow>
          if addr = STREAM_SIZE_REGISTER \<and> length data \<ge> 4 \<and>
             packet_size_word data AND STREAM_PACKET_SIZE_MASK > limit
          then put_u32 ((packet_size_word data AND NOT STREAM_PACKET_SIZE_MASK) OR limit) else data
      | None \<Rightarrow> data)"

definition set_member :: "bool \<Rightarrow> 'a \<Rightarrow> 'a list \<Rightarrow> 'a list" where
  "set_member on x xs = (if on then List.insert x xs else removeAll x xs)"

definition write_stored :: "nat \<Rightarrow> bytes \<Rightarrow> register_map \<Rightarrow> register_map" where
  "write_stored addr data rm =
     (case map_of (rm_regs rm) addr of
        Some reg \<Rightarrow> reg_insert addr (patch 0 data reg) rm
      | None \<Rightarrow>
          (case register_at addr rm of
             Some (r, reg) \<Rightarrow> reg_insert r (patch (addr - r) data reg) rm
           | None \<Rightarrow> reg_insert addr data rm))"

definition reg_write :: "nat \<Rightarrow> bytes \<Rightarrow> register_map \<Rightarrow> register_map" where
  "reg_write addr data rm =
     (let (data, rm) = strip_packet_size addr data rm;
          data = clamp_packet_size addr data rm in
      if addr = REG_EVENT_NOTIFICATION \<and> length data \<ge> 4
      then rm\<lparr>rm_enabled_events := set_member (packet_size_word data \<noteq> 0) (event_selector rm) (rm_enabled_events rm)\<rparr>
      else if addr = REG_CHUNK_ENABLE \<and> length data \<ge> 4
      then rm\<lparr>rm_enabled_chunks := set_member (packet_size_word data \<noteq> 0) (chunk_selector rm) (rm_enabled_chunks rm)\<rparr>
      else write_stored addr data rm)"

section \<open>Side effects\<close>

definition rebin :: "u32 \<Rightarrow> nat \<Rightarrow> nat \<Rightarrow> nat \<Rightarrow> nat \<Rightarrow> nat \<Rightarrow> register_map \<Rightarrow> u32 \<times> register_map" where
  "rebin old factor_reg sensor max_reg size_reg offset_reg rm =
     (let new = read_plain_u32 rm factor_reg in
      if new = 0 \<or> new = old then (max old 1, rm)
      else
        let scale = (\<lambda>v. word_of_nat (unat v * unat old div unat new) :: u32);
            maximum = read_plain_u32 rm sensor div new;
            size_now = max (scale (read_plain_u32 rm size_reg)) 1;
            room = (if maximum < size_now then 0 else maximum - size_now);
            offset_now = min (scale (read_plain_u32 rm offset_reg)) room;
            rm = reg_insert max_reg (put_u32 maximum) rm;
            rm = reg_insert size_reg (put_u32 (min size_now maximum)) rm;
            rm = reg_insert offset_reg (put_u32 offset_now) rm in
        (new, rm))"

definition load_user_set :: "u32 \<Rightarrow> register_map \<Rightarrow> register_map" where
  "load_user_set s rm =
     (case map_of (rm_user_sets rm) s of
        Some saved \<Rightarrow> fold (\<lambda>(addr, d) rm. reg_insert addr d rm) saved rm
      | None \<Rightarrow>
          reg_insert REG_GAIN_AUTO (put_u32 0) (reg_insert REG_EXPOSURE_AUTO (put_u32 0)
            (reg_insert REG_GAIN (put_u64 0) (reg_insert REG_EXPOSURE_TIME (put_u64 DEFAULT_EXPOSURE_US) rm))))"

definition save_user_set :: "u32 \<Rightarrow> register_map \<Rightarrow> register_map" where
  "save_user_set s rm =
     (if s = 0 then rm
      else rm\<lparr>rm_user_sets := AList.update s
        (List.map_filter (\<lambda>addr. map_option (\<lambda>d. (addr, d)) (map_of (rm_regs rm) addr)) USER_SET_REGISTERS)
        (rm_user_sets rm)\<rparr>)"

definition handle_special_write :: "instant \<Rightarrow> nat \<Rightarrow> register_map \<Rightarrow> register_map" where
  "handle_special_write now addr rm =
     (let rm = (if addr = REG_BINNING_HORIZONTAL then
                  let (b, rm) = rebin (fst (rm_binning rm)) REG_BINNING_HORIZONTAL REG_SENSOR_WIDTH
                                  REG_WIDTH_MAX REG_WIDTH REG_OFFSET_X rm in
                  rm\<lparr>rm_binning := (b, snd (rm_binning rm))\<rparr> else rm);
          rm = (if addr = REG_BINNING_VERTICAL then
                  let (b, rm) = rebin (snd (rm_binning rm)) REG_BINNING_VERTICAL REG_SENSOR_HEIGHT
                                  REG_HEIGHT_MAX REG_HEIGHT REG_OFFSET_Y rm in
                  rm\<lparr>rm_binning := (fst (rm_binning rm), b)\<rparr> else rm);
          rm = (if addr = REG_TIMESTAMP_LATCH
                then reg_insert REG_TIMESTAMP_VALUE (put_u64 (word_of_nat (now - rm_clock_origin rm))) rm else rm);
          rm = (if addr = REG_USER_SET_LOAD then load_user_set (read_plain_u32 rm REG_USER_SET_LOAD) rm else rm);
          rm = (if addr = REG_USER_SET_SAVE then save_user_set (read_plain_u32 rm REG_USER_SET_SAVE) rm else rm) in
      if addr = REG_TRIGGER_SOFTWARE then
        rm\<lparr>rm_software_triggers := rm_software_triggers rm + 1,
           rm_pending_frame_triggers := rm_pending_frame_triggers rm +
             (if read_plain_u32 rm REG_TRIGGER_SELECTOR = TRIGGER_FRAME_START then 1 else 0)\<rparr>
      else rm)"

definition take_frame_start :: "register_map \<Rightarrow> bool \<times> register_map" where
  "take_frame_start rm =
     (let index = unat TRIGGER_FRAME_START in
      if read_plain_u32 rm (REG_TRIGGER_MODE + 4 * index) = 0 then (True, rm)
      else if read_plain_u32 rm (REG_TRIGGER_SOURCE + 4 * index) \<noteq> TRIGGER_SOURCE_SOFTWARE \<or>
        rm_pending_frame_triggers rm = 0 then (False, rm)
      else (True, rm\<lparr>rm_pending_frame_triggers := rm_pending_frame_triggers rm - 1\<rparr>))"

end
