(* ===== verification/Fake_Gvcp.thy ===== *)
theory Fake_Gvcp
  imports Fake_Registers Fake_Resend
begin

text \<open>
  The GVCP server of the in-process camera (\<^verbatim>\<open>crates/viva-fake-gige/src/gvcp_server.rs\<close>).
  One received datagram is one step of the server's loop, \<open>serve_datagram\<close>: it yields the new state
  of the server and the effects in their order (datagrams back to the sender, a reply to send after
  a delay, packets of the stream, starting and stopping the acquisition). The timer of a delayed
  reply is the second kind of step, \<open>finish_delayed\<close>.

  Log output is left out; locks are uncontended, since a step is one iteration of the loop. The
  per-address counts of the commands are the counts in the recorded sequence.
\<close>

section \<open>Acknowledgements\<close>

definition STATUS_NOT_IMPLEMENTED :: u16 where "STATUS_NOT_IMPLEMENTED = status_to_raw NotImplemented"
definition STATUS_INVALID_PARAMETER :: u16 where "STATUS_INVALID_PARAMETER = status_to_raw InvalidParameter"
definition STATUS_BAD_ALIGNMENT :: u16 where "STATUS_BAD_ALIGNMENT = status_to_raw BadAlignment"
definition STATUS_ACCESS_DENIED :: u16 where "STATUS_ACCESS_DENIED = status_to_raw AccessDenied"
definition STATUS_INVALID_ADDRESS :: u16 where "STATUS_INVALID_ADDRESS = status_to_raw InvalidAddress"

definition build_ack :: "u16 \<Rightarrow> u16 \<Rightarrow> bytes \<Rightarrow> bytes" where
  "build_ack ack_cmd request_id body =
     put_u16 0 @ put_u16 ack_cmd @ put_u16 (word_of_nat (length body)) @ put_u16 request_id @ body"

definition build_error_ack :: "u16 \<Rightarrow> u16 \<Rightarrow> u16 \<Rightarrow> bytes" where
  "build_error_ack ack_cmd request_id status =
     put_u16 status @ put_u16 ack_cmd @ put_u16 0 @ put_u16 request_id"

definition build_pending_ack :: "u16 \<Rightarrow> u16 \<Rightarrow> bytes" where
  "build_pending_ack request_id millis =
     put_u16 0 @ put_u16 PENDING_ACK @ put_u16 4 @ put_u16 request_id @ put_u16 0 @ put_u16 millis"

text \<open>The time a PENDING\_ACK asks for: the delay and half again, in milliseconds, saturated.\<close>

definition pending_estimate :: "duration \<Rightarrow> u16" where
  "pending_estimate delay =
     (let millis = delay div 1000000 * 3 div 2 in if millis < 2 ^ 16 then word_of_nat millis else - 1)"

definition first_address :: "bytes \<Rightarrow> nat option" where
  "first_address body = (if length body < 4 then None else Some (unat (be_word (take 4 body) :: u32)))"

text \<open>A reply: the acknowledgement, and the test packet to fire after it (size, address, port,
  ceiling of the path).\<close>

type_synonym test_packet = "u32 \<times> u32 \<times> u16 \<times> u32 option"
type_synonym reply = "bytes \<times> test_packet option"

section \<open>Register access\<close>

text \<open>The loop of READREG over its addresses: the words, or the status of the first refusal.\<close>

definition readreg_refusal :: "instant \<Rightarrow> register_map \<Rightarrow> nat \<Rightarrow> u16 option" where
  "readreg_refusal now rm addr =
     (if addr mod 4 \<noteq> 0 then Some STATUS_BAD_ALIGNMENT
      else if is_invalid_address now rm addr 4 then Some STATUS_INVALID_ADDRESS
      else if is_write_only addr 4 then Some STATUS_ACCESS_DENIED
      else None)"

fun readreg_loop :: "instant \<Rightarrow> register_map \<Rightarrow> bytes list \<Rightarrow> bytes + u16" where
  "readreg_loop now rm [] = Inl []"
| "readreg_loop now rm (c # cs) =
     (let addr = unat (be_word c :: u32) in
      case readreg_refusal now rm addr of
        Some status \<Rightarrow> Inr status
      | None \<Rightarrow>
          (case readreg_loop now rm cs of
             Inl rest \<Rightarrow> Inl (reg_read now rm addr 4 @ rest)
           | Inr status \<Rightarrow> Inr status))"

definition handle_readreg :: "instant \<Rightarrow> socket_addr \<Rightarrow> u16 \<Rightarrow> bytes \<Rightarrow> register_map \<Rightarrow> reply option" where
  "handle_readreg now app request_id body rm =
     (if length body < 4 \<or> length body mod 4 \<noteq> 0 then None
      else if \<not> may_access now rm app False
      then Some (build_error_ack (ack_code ReadRegister) request_id STATUS_ACCESS_DENIED, None)
      else
        Some
          ((case readreg_loop now rm (chunks_of 4 body) of
              Inl data \<Rightarrow> build_ack (ack_code ReadRegister) request_id data
            | Inr status \<Rightarrow> build_error_ack (ack_code ReadRegister) request_id status), None))"

text \<open>What a write to an acquisition register tells the stream sender: start or stop.\<close>

datatype acquisition = Start | Stop

definition check_acquisition :: "nat \<Rightarrow> bytes \<Rightarrow> acquisition option" where
  "check_acquisition addr data =
     (if length data \<ge> 4 \<and> packet_size_word data \<noteq> 0
      then (if addr = REG_ACQ_START then Some Start else if addr = REG_ACQ_STOP then Some Stop else None)
      else None)"

definition write_checked :: "instant \<Rightarrow> socket_addr \<Rightarrow> nat \<Rightarrow> bytes \<Rightarrow> register_map \<Rightarrow>
    u16 option \<times> acquisition option \<times> register_map" where
  "write_checked now app addr data rm =
     (if addr = CONTROL_CHANNEL_PRIVILEGE \<and> length data = 4 then
        (case write_ccp now app (be_word data) rm of
           (True, rm) \<Rightarrow> (None, None, rm)
         | (False, rm) \<Rightarrow> (Some STATUS_ACCESS_DENIED, None, rm))
      else if \<not> may_access now rm app True then (Some STATUS_ACCESS_DENIED, None, rm)
      else (None, check_acquisition addr data, handle_special_write now addr (reg_write addr data rm)))"

definition take_test_packet :: "instant \<Rightarrow> register_map \<Rightarrow> test_packet option \<times> register_map" where
  "take_test_packet now rm =
     (case rm_pending_test_packet rm of
        None \<Rightarrow> (None, rm)
      | Some n \<Rightarrow>
          let rm' = rm\<lparr>rm_pending_test_packet := None\<rparr> in
          (Some (n, read_u32_be now rm' (STREAM_CHANNEL_BASE + STREAM_DESTINATION_ADDRESS),
                 ucast (read_u32_be now rm' (STREAM_CHANNEL_BASE + STREAM_DESTINATION_PORT)),
                 rm_max_on_wire rm'), rm'))"

text \<open>The loop of WRITEREG: it stops at the first refused register; earlier ones stay written.\<close>

fun writereg_loop :: "instant \<Rightarrow> socket_addr \<Rightarrow> bytes list \<Rightarrow> register_map \<Rightarrow>
    u16 option \<times> acquisition list \<times> register_map" where
  "writereg_loop now app [] rm = (None, [], rm)"
| "writereg_loop now app (c # cs) rm =
     (case write_checked now app (unat (be_word (take 4 c) :: u32)) (drop 4 c) rm of
        (Some status, _, rm) \<Rightarrow> (Some status, [], rm)
      | (None, acq, rm) \<Rightarrow>
          let (r, acqs, rm) = writereg_loop now app cs rm in
          (r, (case acq of None \<Rightarrow> acqs | Some a \<Rightarrow> a # acqs), rm))"

definition handle_writereg :: "instant \<Rightarrow> socket_addr \<Rightarrow> u16 \<Rightarrow> bytes \<Rightarrow> register_map \<Rightarrow>
    reply option \<times> acquisition list \<times> register_map" where
  "handle_writereg now app request_id body rm =
     (if length body < 8 \<or> length body mod 8 \<noteq> 0 then (None, [], rm)
      else
        (case writereg_loop now app (chunks_of 8 body) rm of
           (Some status, acqs, rm) \<Rightarrow>
             (Some (build_error_ack (ack_code WriteRegister) request_id status, None), acqs, rm)
         | (None, acqs, rm) \<Rightarrow>
             let (test, rm) = take_test_packet now rm in
             (Some (build_ack (ack_code WriteRegister) request_id [0, 0, 0, 0], test), acqs, rm)))"

section \<open>Memory access\<close>

definition handle_readmem :: "instant \<Rightarrow> socket_addr \<Rightarrow> u16 \<Rightarrow> bytes \<Rightarrow> register_map \<Rightarrow> reply option" where
  "handle_readmem now app request_id body rm =
     (if length body < 8 then None
      else
        let addr = unat (be_word (take 4 body) :: u32); count = unat (be_word (take 2 (drop 6 body)) :: u16);
            refuse = (\<lambda>status. Some (build_error_ack (ack_code ReadMem) request_id status, None)) in
        if addr mod 4 \<noteq> 0 \<or> count = 0 \<or> count mod 4 \<noteq> 0 then refuse STATUS_INVALID_PARAMETER
        else if is_invalid_address now rm addr count then refuse STATUS_INVALID_ADDRESS
        else if is_write_only addr count \<or> \<not> may_access now rm app False then refuse STATUS_ACCESS_DENIED
        else Some (build_ack (ack_code ReadMem) request_id (put_u32 (word_of_nat addr) @ reg_read now rm addr count), None))"

definition handle_writemem :: "instant \<Rightarrow> socket_addr \<Rightarrow> u16 \<Rightarrow> bytes \<Rightarrow> register_map \<Rightarrow>
    reply option \<times> acquisition list \<times> register_map" where
  "handle_writemem now app request_id body rm =
     (if length body < 4 then (None, [], rm)
      else
        let addr = unat (be_word (take 4 body) :: u32); data = drop 4 body;
            refuse = (\<lambda>status. Some (build_error_ack (ack_code WriteMem) request_id status, None)) in
        if addr mod 4 \<noteq> 0 \<or> data = [] \<or> length data mod 4 \<noteq> 0 then (refuse STATUS_INVALID_PARAMETER, [], rm)
        else
          (case write_checked now app addr data rm of
             (Some status, _, rm) \<Rightarrow> (refuse status, [], rm)
           | (None, acq, rm) \<Rightarrow>
               let (test, rm) = take_test_packet now rm in
               (Some (build_ack (ack_code WriteMem) request_id (put_u32 (word_of_nat addr)), test),
                (case acq of None \<Rightarrow> [] | Some a \<Rightarrow> [a]), rm)))"

section \<open>Broadcast commands\<close>

definition ascii :: "string \<Rightarrow> bytes" where
  "ascii s = map (\<lambda>c. word_of_nat (of_char c)) s"

record identity =
  id_mac :: bytes
  id_model :: bytes
  id_serial :: bytes
  id_user_name :: bytes
  id_ip :: "u32 option"
  id_subnet_mask :: u32
  id_gateway :: u32

definition FAKE_MANUFACTURER :: bytes where "FAKE_MANUFACTURER = ascii ''viva-genicam''"
definition FAKE_VERSION :: bytes where "FAKE_VERSION = ascii ''1.0.0''"

definition identity_default :: identity where
  "identity_default =
     \<lparr>id_mac = [0xDE, 0xAD, 0xBE, 0xEF, 0xCA, 0xFE], id_model = ascii ''FakeGigE'', id_serial = ascii ''FAKE-001'',
      id_user_name = ascii ''FakeCamera'', id_ip = None, id_subnet_mask = 0xFF000000, id_gateway = 0\<rparr>"

definition put_fixed_string :: "bytes \<Rightarrow> nat \<Rightarrow> bytes" where
  "put_fixed_string s len = (let copy_len = min (length s) len in take copy_len s @ replicate (len - copy_len) 0)"

definition discovery_body :: "u32 \<Rightarrow> identity \<Rightarrow> bytes" where
  "discovery_body ip identity =
     put_u16 2 @ put_u16 0 @ put_u32 0 @ [0, 0] @ id_mac identity @ put_u32 0x7 @ put_u32 0x5 @ replicate 12 0 @
     put_u32 (case id_ip identity of Some own \<Rightarrow> own | None \<Rightarrow> ip) @ replicate 12 0 @
     put_u32 (id_subnet_mask identity) @ replicate 12 0 @ put_u32 (id_gateway identity) @
     put_fixed_string FAKE_MANUFACTURER 32 @ put_fixed_string (id_model identity) 32 @
     put_fixed_string FAKE_VERSION 32 @ put_fixed_string (ascii ''Fake camera for testing'') 48 @
     put_fixed_string (id_serial identity) 16 @ put_fixed_string (id_user_name identity) 16"

definition build_discovery_ack :: "u16 \<Rightarrow> u32 \<Rightarrow> identity \<Rightarrow> bytes" where
  "build_discovery_ack request_id ip identity =
     put_u16 0 @ put_u16 DISCOVERY_ACK @ put_u16 248 @ put_u16 request_id @ discovery_body ip identity"

definition FAKE_DEVICE_KEY :: u32 where "FAKE_DEVICE_KEY = 0x42"
definition FAKE_GROUP_KEY :: u32 where "FAKE_GROUP_KEY = 1"
definition FAKE_GROUP_MASK :: u32 where "FAKE_GROUP_MASK = 1"

text \<open>An action command: the acknowledgement, and whether the device acts on it.\<close>

definition handle_action :: "u16 \<Rightarrow> u8 \<Rightarrow> bytes \<Rightarrow> bytes list \<times> bool" where
  "handle_action request_id flags body =
     (let scheduled = flags AND 0x80 \<noteq> 0; expected = (if scheduled then 20 else 12) in
      if length body < expected then ([], False)
      else
        let device_key = be_word (take 4 body); group_key = be_word (take 4 (drop 4 body));
            group_mask = be_word (take 4 (drop 8 body)) in
        if device_key \<noteq> FAKE_DEVICE_KEY \<or> group_key \<noteq> FAKE_GROUP_KEY \<or> group_mask AND FAKE_GROUP_MASK = 0
        then ([], False)
        else (if flags AND 0x01 \<noteq> 0 then [build_ack ACTION_ACK request_id []] else [], True))"

definition handle_forceip :: "u16 \<Rightarrow> bytes \<Rightarrow> bytes \<Rightarrow> bytes list" where
  "handle_forceip request_id body fake_mac =
     (if length body < 56 then []
      else if take 6 (drop 2 body) \<noteq> fake_mac then []
      else [build_ack FORCEIP_ACK request_id []])"

text \<open>The test packet that leaves on the stream channel, if the path carries it.\<close>

definition fire_test_packet :: "test_packet \<Rightarrow> (u32 \<times> u16 \<times> bytes) option" where
  "fire_test_packet t =
     (case t of (n, dest_ip, dest_port, max_on_wire) \<Rightarrow>
        if dest_port = 0 then None
        else if (case max_on_wire of None \<Rightarrow> False | Some m \<Rightarrow> n > m) then None
        else
          let body_len = unat n - 28 in
          Some (dest_ip, dest_port,
            resize (max body_len 8) 0 (put_u16 0 @ put_u16 0 @ [0x03, 0] @ put_u16 0)))"

section \<open>The server\<close>

datatype refusal = RefuseNotImplemented | RefuseNoReply

record server =
  sv_regs :: register_map
  sv_retention :: retention
  sv_refuse :: "refusal option"
  sv_delayed_acks :: "(nat \<times> duration) list"
  sv_in_flight :: "(socket_addr \<times> u16) list"
  sv_commands :: "(op_code \<times> nat \<times> socket_addr) list"
  sv_discoveries :: "(socket_addr \<times> u8) list"
  sv_expiries :: u64
  sv_actions :: u64
  sv_action_commands :: bool
  sv_link_down :: bool
  sv_identity :: identity
  sv_bind_ip :: u32

datatype effect =
    ToSender bytes
  | TestPacketTo "u32 \<times> u16 \<times> bytes"
  | AfterDelay duration u16 reply
  | OnStream "bytes list"
  | Acquire acquisition

definition send_reply :: "reply \<Rightarrow> effect list" where
  "send_reply r =
     ToSender (fst r) #
     (case snd r of None \<Rightarrow> [] | Some t \<Rightarrow> (case fire_test_packet t of None \<Rightarrow> [] | Some p \<Rightarrow> [TestPacketTo p]))"

definition record_command :: "op_code option \<Rightarrow> bytes \<Rightarrow> socket_addr \<Rightarrow> server \<Rightarrow> server" where
  "record_command op body app sv =
     (let word = (\<lambda>c. unat (be_word (take 4 c) :: u32));
          named = (case op of
              None \<Rightarrow> []
            | Some ReadRegister \<Rightarrow> map word (filter (\<lambda>c. length c = 4) (chunks_of 4 body))
            | Some WriteRegister \<Rightarrow> map word (filter (\<lambda>c. length c = 8) (chunks_of 8 body))
            | Some _ \<Rightarrow> if length body \<ge> 4 then [word body] else []) in
      sv\<lparr>sv_commands := sv_commands sv @ map (\<lambda>addr. (the op, addr, app)) named\<rparr>)"

text \<open>The register-access command of an opcode; the four commands of \<open>OpCode\<close>.\<close>

definition register_command :: "u16 \<Rightarrow> op_code option" where
  "register_command command =
     find (\<lambda>op. command_code op = command) [ReadRegister, WriteRegister, ReadMem, WriteMem]"

definition run_command :: "instant \<Rightarrow> socket_addr \<Rightarrow> op_code \<Rightarrow> u16 \<Rightarrow> bytes \<Rightarrow> register_map \<Rightarrow>
    reply option \<times> acquisition list \<times> register_map" where
  "run_command now app op request_id body rm =
     (case op of
        ReadRegister \<Rightarrow> (handle_readreg now app request_id body rm, [], rm)
      | WriteRegister \<Rightarrow> handle_writereg now app request_id body rm
      | ReadMem \<Rightarrow> (handle_readmem now app request_id body rm, [], rm)
      | WriteMem \<Rightarrow> handle_writemem now app request_id body rm)"

text \<open>A register-access command of \<open>app\<close>: the heartbeat, the refusal of the register commands, a
  retry of a command in progress, the handler, and the reply now or after its delay.\<close>

definition serve_register_command :: "instant \<Rightarrow> socket_addr \<Rightarrow> op_code \<Rightarrow> u16 \<Rightarrow> bytes \<Rightarrow> server \<Rightarrow>
    effect list \<times> server" where
  "serve_register_command now app op request_id body sv =
     (let (revoked, rm) = note_register_command now app (sv_regs sv);
          sv = sv\<lparr>sv_regs := rm, sv_expiries := sv_expiries sv + (if revoked then 1 else 0)\<rparr>;
          sv = record_command (Some op) body app sv;
          delay = Option.bind (first_address body) (map_of (sv_delayed_acks sv)) in
      if op \<in> {ReadRegister, WriteRegister} \<and> sv_refuse sv \<noteq> None then
        (if sv_refuse sv = Some RefuseNotImplemented
         then [ToSender (build_error_ack (ack_code op) request_id STATUS_NOT_IMPLEMENTED)] else [], sv)
      else if delay \<noteq> None \<and> (app, request_id) \<in> set (sv_in_flight sv) then ([], sv)
      else
        (case run_command now app op request_id body (sv_regs sv) of
           (None, acqs, rm) \<Rightarrow> (map Acquire acqs, sv\<lparr>sv_regs := rm\<rparr>)
         | (Some r, acqs, rm) \<Rightarrow>
             let sv = sv\<lparr>sv_regs := rm\<rparr> in
             (case delay of
                None \<Rightarrow> (map Acquire acqs @ send_reply r, sv)
              | Some d \<Rightarrow>
                  (map Acquire acqs @
                   (if pending_ack_enabled now rm
                    then [ToSender (build_pending_ack request_id (pending_estimate d))] else []) @
                   [AfterDelay d request_id r],
                   sv\<lparr>sv_in_flight := List.insert (app, request_id) (sv_in_flight sv)\<rparr>))))"

definition SERVER_BUFFER :: nat where "SERVER_BUFFER = 2048"

definition serve_datagram :: "instant \<Rightarrow> socket_addr \<Rightarrow> bytes \<Rightarrow> server \<Rightarrow> effect list \<times> server" where
  "serve_datagram now app datagram sv =
     (let pkt = take SERVER_BUFFER datagram in
      if sv_link_down sv then ([], sv)
      else if length pkt < 8 \<or> hd pkt \<noteq> GVCP_CMD_KEY then ([], sv)
      else
        let flags = pkt ! 1; command = be_word (take 2 (drop 2 pkt));
            request_id = be_word (take 2 (drop 6 pkt)); body = drop 8 pkt in
        case register_command command of
          Some op \<Rightarrow> serve_register_command now app op request_id body sv
        | None \<Rightarrow>
            if command = DISCOVERY_COMMAND then
              ([ToSender (build_discovery_ack request_id (sv_bind_ip sv) (sv_identity sv))],
               sv\<lparr>sv_discoveries := sv_discoveries sv @ [(app, flags)]\<rparr>)
            else if command = FORCEIP_COMMAND then
              (map ToSender (handle_forceip request_id body (id_mac (sv_identity sv))), sv)
            else if command = ACTION_COMMAND then
              (if \<not> sv_action_commands sv
               then ([ToSender (build_error_ack ACTION_COMMAND request_id STATUS_NOT_IMPLEMENTED)], sv)
               else
                 let (acks, acted) = handle_action request_id flags body in
                 (map ToSender acks, sv\<lparr>sv_actions := sv_actions sv + (if acted then 1 else 0)\<rparr>))
            else if command = PACKET_RESEND_COMMAND then
              ([OnStream (serve (packet_resend_supported now (sv_regs sv)) (sv_retention sv) flags body)], sv)
            else ([], sv))"

text \<open>The delay of a reply is over: the retry guard is lifted, then the reply is sent.\<close>

definition finish_delayed :: "socket_addr \<Rightarrow> u16 \<Rightarrow> reply \<Rightarrow> server \<Rightarrow> effect list \<times> server" where
  "finish_delayed app request_id r sv =
     (send_reply r, sv\<lparr>sv_in_flight := removeAll (app, request_id) (sv_in_flight sv)\<rparr>)"

end
