(* ===== verification/Fake_Access.thy ===== *)
theory Fake_Access
  imports Fake_Gvcp
begin

text \<open>
  Who may change the in-process camera: while one application holds control and keeps its heartbeat,
  no datagram of another one changes a register, starts or stops the acquisition, or fires a test
  packet; once the heartbeat has expired, the next application that asks gets control.
\<close>

section \<open>Refusals\<close>

definition holds :: "socket_addr \<Rightarrow> register_map \<Rightarrow> bool" where
  "holds app rm \<longleftrightarrow> rm_controller rm = Some app"

text \<open>The heartbeat rule releases control at the next register command.\<close>

definition overdue :: "instant \<Rightarrow> register_map \<Rightarrow> bool" where
  "overdue now rm \<longleftrightarrow> rm_enforce_heartbeat rm \<and> rm_controller rm \<noteq> None \<and>
     heartbeat_expired now rm (now - rm_last_register_command rm)"

lemma note_by_other:
  "holds owner rm \<Longrightarrow> app \<noteq> owner \<Longrightarrow> \<not> overdue now rm \<Longrightarrow> note_register_command now app rm = (False, rm)"
  by (auto simp: note_register_command_def holds_def overdue_def Let_def)

lemma write_by_other:
  "holds owner rm \<Longrightarrow> app \<noteq> owner \<Longrightarrow> write_checked now app addr d rm = (Some STATUS_ACCESS_DENIED, None, rm)"
  by (auto simp: write_checked_def write_ccp_def may_access_def holds_def)

lemma writereg_loop_by_other:
  assumes "holds owner rm" "app \<noteq> owner" "cs \<noteq> []"
  shows "writereg_loop now app cs rm = (Some STATUS_ACCESS_DENIED, [], rm)"
  using assms by (cases cs) (simp_all add: write_by_other)

lemma chunks_of_nonempty: "0 < n \<Longrightarrow> n \<le> length xs \<Longrightarrow> chunks_of n xs \<noteq> []"
  by (subst chunks_of.simps) auto

lemma writereg_by_other:
  assumes "holds owner rm" "app \<noteq> owner" "8 \<le> length body"
  shows "writereg_loop now app (chunks_of 8 body) rm = (Some STATUS_ACCESS_DENIED, [], rm)"
  by (rule writereg_loop_by_other [OF assms(1,2)]) (rule chunks_of_nonempty, simp, rule assms(3))

lemma run_command_by_other:
  assumes "holds owner rm" "app \<noteq> owner"
  obtains r where "run_command now app op request_id body rm = (r, [], rm)" "\<And>x. r = Some x \<Longrightarrow> snd x = None"
proof (cases op)
  case ReadRegister
  show ?thesis
    by (rule that) (auto simp: ReadRegister run_command_def handle_readreg_def split: if_splits)
next
  case WriteRegister
  show ?thesis
    using assms by (intro that [of "fst (run_command now app op request_id body rm)"])
      (auto simp: WriteRegister run_command_def handle_writereg_def writereg_by_other split: if_splits)
next
  case ReadMem
  show ?thesis
    by (rule that) (auto simp: ReadMem run_command_def handle_readmem_def Let_def split: if_splits)
next
  case WriteMem
  show ?thesis
    using assms by (intro that [of "fst (run_command now app op request_id body rm)"])
      (auto simp: WriteMem run_command_def handle_writemem_def write_by_other Let_def split: if_splits)
qed

section \<open>Effects that touch the camera\<close>

text \<open>Effects that only answer the sender or resend packets.\<close>

fun harmless :: "effect \<Rightarrow> bool" where
  "harmless (ToSender b) = True"
| "harmless (OnStream ps) = True"
| "harmless (AfterDelay d rid r) = (snd r = None)"
| "harmless (TestPacketTo t) = False"
| "harmless (Acquire a) = False"

lemma serve_register_by_other:
  assumes "holds owner (sv_regs sv)" "app \<noteq> owner" "\<not> overdue now (sv_regs sv)"
  shows "case serve_register_command now app op request_id body sv of (es, sv') \<Rightarrow>
    sv_regs sv' = sv_regs sv \<and> list_all harmless es"
proof -
  obtain r where "run_command now app op request_id body (sv_regs sv) = (r, [], sv_regs sv)"
      "\<And>x. r = Some x \<Longrightarrow> snd x = None"
    using run_command_by_other [OF assms(1,2)] by blast
  then show ?thesis
    using note_by_other [OF assms(1-3)]
    by (auto simp: serve_register_command_def record_command_def send_reply_def Let_def split: option.splits)
qed

text \<open>
  C20. Control is exclusive: while one application holds control privilege and has not let its
  heartbeat expire, no datagram another application sends (of any content: any command, malformed or
  not) changes a register of the camera, starts or stops the acquisition, or fires a test packet.
\<close>
theorem control_is_exclusive:
  assumes "rm_controller (sv_regs sv) = Some owner" and "app \<noteq> owner" and "\<not> overdue now (sv_regs sv)"
  shows "sv_regs (snd (serve_datagram now app datagram sv)) = sv_regs sv \<and>
    list_all harmless (fst (serve_datagram now app datagram sv))"
proof -
  have h: "holds owner (sv_regs sv)" using assms(1) by (simp add: holds_def)
  have reg: "sv_regs (snd (serve_register_command now app op rid body sv)) = sv_regs sv"
    "list_all harmless (fst (serve_register_command now app op rid body sv))" for op rid body
    using serve_register_by_other [OF h assms(2,3), of op rid body] by (simp_all add: case_prod_beta)
  have answers: "list_all harmless (map ToSender bs)" for bs by (simp add: list_all_iff)
  show ?thesis
    unfolding serve_datagram_def Let_def
    by (cases "register_command (be_word (take 2 (drop 2 (take SERVER_BUFFER datagram))))")
      (simp_all add: reg answers case_prod_beta)
qed

text \<open>Another application tries to take control from the one that holds it.\<close>

lemma control_is_exclusive_witness:
  "\<exists>sv. rm_controller (sv_regs sv) = Some (1, 2) \<and>
    sv_regs (snd (serve_datagram 5 (7, 7) (command_of WriteRegister 1 (put_u32 0x0a00 @ put_u32 2)) sv)) = sv_regs sv"
proof -
  let ?rm = "\<lparr>rm_regs = [(CONTROL_CHANNEL_PRIVILEGE, put_u32 2)], rm_xml_blob = [], rm_clock_origin = 0, rm_enabled_events = [],
      rm_enabled_chunks = [], rm_last_register_command = 0, rm_controller = Some (1, 2), rm_enforce_heartbeat = False,
      rm_max_packet_size = None, rm_max_on_wire = None, rm_pending_test_packet = None, rm_user_sets = [],
      rm_pending_frame_triggers = 0, rm_software_triggers = 0, rm_binning = (1, 1)\<rparr>"
  let ?sv = "\<lparr>sv_regs = ?rm, sv_retention = retention_new 4, sv_refuse = None, sv_delayed_acks = [],
      sv_in_flight = [], sv_commands = [], sv_discoveries = [], sv_expiries = 0, sv_actions = 0,
      sv_action_commands = True, sv_link_down = False, sv_identity = identity_default, sv_bind_ip = 0x7F000001\<rparr>"
  have "rm_controller (sv_regs ?sv) = Some (1, 2)" "\<not> overdue 5 (sv_regs ?sv)" by (simp_all add: overdue_def)
  moreover from this have "sv_regs (snd (serve_datagram 5 (7, 7) (command_of WriteRegister 1 (put_u32 0x0a00 @ put_u32 2)) ?sv)) = sv_regs ?sv"
    using control_is_exclusive [of ?sv "(1, 2)" "(7, 7)" 5] by simp
  ultimately show ?thesis by blast
qed

section \<open>Taking control over\<close>

lemma register_command_code [simp]: "register_command (command_code op) = Some op"
  by (cases op) (simp_all add: register_command_def)

text \<open>What the server sees of a command the host encoded.\<close>

lemma serve_command:
  assumes "length body \<le> 1024" "\<not> sv_link_down sv"
  shows "serve_datagram now app (command_of op rid body) sv = serve_register_command now app op rid body sv"
proof -
  have t: "take SERVER_BUFFER (command_of op rid body) = command_of op rid body"
    using assms(1) by (simp add: SERVER_BUFFER_def command_of_def encode_request_def)
  have f: "be_word (take 2 (drop 2 (command_of op rid body))) = command_code op"
    "be_word (take 2 (drop 6 (command_of op rid body))) = rid" "drop 8 (command_of op rid body) = body"
    "hd (command_of op rid body) = GVCP_CMD_KEY" "\<not> length (command_of op rid body) < 8"
    by (simp_all add: command_of_def encode_request_def)
  show ?thesis using assms(2) by (simp add: serve_datagram_def t f Let_def)
qed

end
