(* ===== verification/Gvcp_Props.thy ===== *)
theory Gvcp_Props
  imports Gvcp
begin

text \<open>
  What a GVCP transaction promises whatever the camera and the network do: the command goes out at
  most four times and always as the same bytes under one request id, an acknowledgement is accepted
  only if it answers this very command with success, the waiting is bounded, and a command the
  camera has said it is working on is not sent again.
\<close>

section \<open>Request ids\<close>

lemma ack_id_encode [simp]: "ack_id (encode_request h payload) = Some (rh_request_id h)"
  by (simp add: ack_id_def encode_request_def put_u16_def numeral_2_eq_2 eval_nat_numeral
      flip: put_u16_def)

lemma ack_id_command [simp]: "ack_id (command_of opcode rid payload) = Some rid"
  by (simp add: command_of_def)

lemma next_request_id_fresh: "next_request_id c = (rid, c') \<Longrightarrow> gd_request_id c' \<noteq> rid"
proof -
  have "(if i + 1 = 0 then 1 else i + 1) \<noteq> i" for i :: u16
    by (cases "i + 1 = 0") (auto simp: add_eq_0_iff2)
  then show "next_request_id c = (rid, c') \<Longrightarrow> ?thesis"
    by (auto simp: next_request_id_def Let_def simp del: split_paired_All split: if_splits)
qed

text \<open>The datagrams among \<open>bs\<close> that carry request id \<open>rid\<close>.\<close>

definition with_id :: "u16 \<Rightarrow> bytes list \<Rightarrow> bytes list" where
  "with_id rid bs = filter (\<lambda>b. ack_id b = Some rid) bs"

lemma with_id_simps [simp]:
  "with_id rid [] = []" "with_id rid (xs @ ys) = with_id rid xs @ with_id rid ys"
  "with_id rid (b # bs) = (if ack_id b = Some rid then b # with_id rid bs else with_id rid bs)"
  by (simp_all add: with_id_def)

section \<open>What one wait does\<close>

text \<open>From \<open>c\<close> to \<open>c'\<close> nothing was sent under \<open>rid\<close>, and the settings are the same.\<close>

definition keeps :: "u16 \<Rightarrow> 'd control \<Rightarrow> 'd control \<Rightarrow> bool" where
  "keeps rid c c' \<longleftrightarrow>
     gd_control_timeout c' = gd_control_timeout c \<and> gd_keepalive_period c' = gd_keepalive_period c \<and>
     (\<exists>ts. sk_sent c' = sk_sent c @ ts \<and> with_id rid ts = [])"

lemma keeps_refl [simp]: "keeps rid c c"
  by (simp add: keeps_def)

lemma keeps_trans [trans]: "keeps rid a b \<Longrightarrow> keeps rid b c \<Longrightarrow> keeps rid a c"
  unfolding keeps_def by fastforce

lemma keeps_events [simp]:
  "keeps rid (c\<lparr>sk_events := es\<rparr>) c' = keeps rid c c'" "keeps rid c (c'\<lparr>sk_events := es\<rparr>) = keeps rid c c'"
  "keeps rid (c\<lparr>sk_waits := ws\<rparr>) c' = keeps rid c c'" "keeps rid c (c'\<lparr>sk_waits := ws\<rparr>) = keeps rid c c'"
  by (simp_all add: keeps_def)

lemma send_keeps:
  assumes "ack_id b \<noteq> Some rid" shows "keeps rid c (snd (send peer b c))"
  using assms by (auto simp: send_def keeps_def Let_def split: list.split option.split prod.split)

lemma keepalive_keeps: "keeps rid c (snd (send_inflight_keepalive peer rid c))"
proof -
  obtain id1 c1 where 1: "next_request_id c = (id1, c1)" by fastforce
  obtain id2 c2 where 2: "(if id1 = rid then next_request_id c1 else (id1, c1)) = (id2, c2)" by fastforce
  have "id2 \<noteq> rid"
    using 2 next_request_id_fresh [OF 1] by (auto simp: next_request_id_def Let_def split: if_splits)
  moreover have "keeps rid c c2"
    using 1 2 by (auto simp: next_request_id_def Let_def keeps_def split: if_splits)
  ultimately show ?thesis
    by (auto simp: send_inflight_keepalive_def 1 2 Let_def intro!: keeps_trans [OF _ send_keeps])
qed

lemma keepalive_waits: "sk_waits (snd (send_inflight_keepalive peer rid c)) = sk_waits c"
  by (simp add: send_inflight_keepalive_def send_def next_request_id_def Let_def
      split: list.split option.split prod.split if_split)

lemma recv_keeps:
  "recv_for_request peer rid tol c = (r, c') \<Longrightarrow>
     keeps rid c c' \<and> sk_waits c' = sk_waits c \<and> (\<forall>b. r = Received b \<longrightarrow> ack_id b = None \<or> ack_id b = Some rid)"
proof (induction peer rid tol c arbitrary: r c' rule: recv_for_request.induct)
  case (1 peer rid tol c)
  note step = "1.prems" [unfolded recv_for_request.simps [of peer rid tol c]]
  show ?case
  proof (cases "sk_events c")
    case Nil
    then show ?thesis using step by auto
  next
    case (Cons e es)
    note ev = Cons
    show ?thesis
    proof (cases e)
      case (Arrived d)
      then show ?thesis
        using step ev "1.IH"(1) [OF ev Arrived refl] by (auto simp: Let_def split: if_splits)
    next
      case (RecvError x)
      then show ?thesis using step ev "1.IH"(2) [OF ev RecvError] by (auto split: if_splits)
    next
      case HeartbeatDue
      let ?k = "snd (send_inflight_keepalive peer rid (c\<lparr>sk_events := es\<rparr>))"
      have k: "keeps rid c ?k" using keepalive_keeps [of rid "c\<lparr>sk_events := es\<rparr>" peer] by simp
      show ?thesis
      proof (cases "gd_keepalive_period c = None")
        case True
        then show ?thesis using step ev HeartbeatDue "1.IH"(3) [OF ev HeartbeatDue True] by auto
      next
        case False
        have "recv_for_request peer rid True ?k = (r, c')" using step ev HeartbeatDue False by simp
        from "1.IH"(4) [OF ev HeartbeatDue False this] k show ?thesis
          using keeps_trans keepalive_waits [of peer rid "c\<lparr>sk_events := es\<rparr>"] by auto
      qed
    next
      case DeadlineReached
      then show ?thesis using step ev by auto
    qed
  qed
qed

section \<open>Bounded waiting\<close>

definition longest_wait :: "'d control \<Rightarrow> duration" where
  "longest_wait c = max (gd_control_timeout c) MAX_PENDING_ACK_WAIT"

lemma pending_wait_bounds: "ct \<le> pending_wait w ct" "pending_wait w ct \<le> max ct MAX_PENDING_ACK_WAIT"
  by (auto simp: pending_wait_def)

text \<open>From \<open>c\<close> to \<open>c'\<close> at most \<open>n\<close> waits, each of a length between the control timeout and
  the longest.\<close>

definition waits_up_to :: "nat \<Rightarrow> 'd control \<Rightarrow> 'd control \<Rightarrow> bool" where
  "waits_up_to n c c' \<longleftrightarrow>
     (\<exists>ws. sk_waits c' = sk_waits c @ ws \<and> length ws \<le> n \<and>
        (\<forall>w \<in> set ws. gd_control_timeout c \<le> w \<and> w \<le> longest_wait c))"

lemma waits_up_to_trans:
  assumes "waits_up_to m a b" "waits_up_to n b c" "gd_control_timeout b = gd_control_timeout a"
  shows "waits_up_to (m + n) a c"
proof -
  obtain us where us: "sk_waits b = sk_waits a @ us" "length us \<le> m"
      "\<forall>w \<in> set us. gd_control_timeout a \<le> w \<and> w \<le> longest_wait a" using assms(1) unfolding waits_up_to_def by blast
  obtain vs where vs: "sk_waits c = sk_waits b @ vs" "length vs \<le> n"
      "\<forall>w \<in> set vs. gd_control_timeout b \<le> w \<and> w \<le> longest_wait b" using assms(2) unfolding waits_up_to_def by blast
  show ?thesis unfolding waits_up_to_def
    by (rule exI [of _ "us @ vs"]) (use us vs assms(3) in \<open>auto simp: longest_wait_def\<close>)
qed

lemma waits_up_to_mono: "waits_up_to m a b \<Longrightarrow> m \<le> n \<Longrightarrow> waits_up_to n a b"
  unfolding waits_up_to_def by fastforce

lemma absorb_keeps:
  assumes "absorb_pending peer rid wait seen c = (r, c')" "seen \<le> MAX_PENDING_ACKS"
    "gd_control_timeout c \<le> wait" "wait \<le> longest_wait c"
  shows "keeps rid c c' \<and> waits_up_to (MAX_PENDING_ACKS + 1 - seen) c c' \<and>
    (\<forall>b. r = Received b \<longrightarrow> ack_id b = None \<or> ack_id b = Some rid)"
  using assms
proof (induction peer rid wait seen c arbitrary: r c' rule: absorb_pending.induct)
  case (1 peer rid wait seen c)
  let ?c = "c\<lparr>sk_waits := sk_waits c @ [wait]\<rparr>"
  obtain r1 c1 where r1: "recv_for_request peer rid (seen > 0) ?c = (r1, c1)" by fastforce
  have k1: "keeps rid c c1" "sk_waits c1 = sk_waits c @ [wait]" "gd_control_timeout c1 = gd_control_timeout c"
    and id1: "\<forall>b. r1 = Received b \<longrightarrow> ack_id b = None \<or> ack_id b = Some rid"
    using recv_keeps [OF r1] by (auto simp: keeps_def)
  have w1: "waits_up_to 1 c c1" using k1(2) "1.prems"(3,4) unfolding waits_up_to_def by auto
  have eq: "absorb_pending peer rid wait seen c =
      (case r1 of Received b \<Rightarrow>
         (case parse_pending_ack b of None \<Rightarrow> (Received b, c1)
          | Some (_, requested) \<Rightarrow>
              if seen + 1 > MAX_PENDING_ACKS then (TimedOut, c1)
              else absorb_pending peer rid (pending_wait requested (gd_control_timeout c1)) (seen + 1) c1)
       | other \<Rightarrow> (other, c1))"
    by (subst absorb_pending.simps) (simp add: r1 split: ack_recv.split)
  have stop: "keeps rid c c1 \<and> waits_up_to (MAX_PENDING_ACKS + 1 - seen) c c1"
    using k1(1) waits_up_to_mono [OF w1] "1.prems"(2) by simp
  show ?case
  proof (cases "\<exists>b x requested. r1 = Received b \<and> parse_pending_ack b = Some (x, requested) \<and> seen + 1 \<le> MAX_PENDING_ACKS")
    case True
    then obtain b x requested where b: "r1 = Received b" "parse_pending_ack b = Some (x, requested)"
      and more: "\<not> seen + 1 > MAX_PENDING_ACKS" by auto
    let ?w = "pending_wait requested (gd_control_timeout c1)"
    have rec: "absorb_pending peer rid ?w (seen + 1) c1 = (r, c')" using "1.prems"(1) eq b more by simp
    have fits: "gd_control_timeout c1 \<le> ?w" "?w \<le> longest_wait c1"
      using pending_wait_bounds [where ct = "gd_control_timeout c1" and w = requested] by (auto simp: longest_wait_def)
    have ih: "keeps rid c1 c' \<and> waits_up_to (MAX_PENDING_ACKS + 1 - (seen + 1)) c1 c' \<and>
        (\<forall>b. r = Received b \<longrightarrow> ack_id b = None \<or> ack_id b = Some rid)"
      by (rule "1.IH" [OF r1 [symmetric] _ b(2) _ more rec _ fits]) (use b(1) more in auto)
    have "waits_up_to (1 + (MAX_PENDING_ACKS + 1 - (seen + 1))) c c'"
      by (rule waits_up_to_trans [OF w1]) (use ih k1(3) in auto)
    moreover have "1 + (MAX_PENDING_ACKS + 1 - (seen + 1)) = MAX_PENDING_ACKS + 1 - seen" using "1.prems"(2) more by simp
    ultimately show ?thesis using ih keeps_trans [OF k1(1)] by metis
  next
    case False
    then have "c' = c1" "\<forall>b. r = Received b \<longrightarrow> r1 = Received b"
      using "1.prems"(1) eq by (auto split: ack_recv.splits option.splits if_splits)
    then show ?thesis using stop id1 by blast
  qed
qed

section \<open>Accepted acknowledgements\<close>

definition answers :: "op_code \<Rightarrow> u16 \<Rightarrow> gencp_ack \<Rightarrow> bool" where
  "answers opcode rid ack \<longleftrightarrow>
     ack_opcode (ack_head ack) = opcode \<and> ack_request_id (ack_head ack) = rid \<and> ack_status (ack_head ack) = 0"

lemma ack_id_fields: "ack_id (put_u16 s @ put_u16 c @ put_u16 l @ put_u16 r @ p) = Some r"
proof -
  have "drop 6 (put_u16 s @ put_u16 c @ put_u16 l @ put_u16 r @ p) = put_u16 r @ p" by simp
  then show ?thesis by (simp add: ack_id_def)
qed

lemma decode_ack_id: "decode_ack b = Ok ack \<Longrightarrow> ack_id b = Some (ack_request_id (ack_head ack))"
proof -
  assume d: "decode_ack b = Ok ack"
  then have "8 \<le> length b" using decode_ack_short [of b] by (cases "length b < 8") auto
  then obtain s c l r p where b: "b = put_u16 s @ put_u16 c @ put_u16 l @ put_u16 r @ p" by (rule split_header)
  then show ?thesis using d by (auto simp: decode_ack_fields ack_id_fields and_then_eq_Ok split: if_splits)
qed

lemma success_is_zero: "ts_is_success (gige_from_raw raw) \<longleftrightarrow> raw = 0"
proof
  assume "ts_is_success (gige_from_raw raw)"
  then have "gige_to_raw (gige_from_raw raw) = status_to_raw Success"
    by (simp add: ts_is_success_iff gige_to_raw_def)
  then show "raw = 0" by (simp add: gige_status_raw)
next
  assume "raw = 0"
  then show "ts_is_success (gige_from_raw raw)"
    using gige_from_raw_common [of raw Success] by (simp add: ts_is_success_iff)
qed

lemma judge_ack_answers:
  assumes "judge_ack opcode n b = Return (Ok ack)" "ack_id b = None \<or> ack_id b = Some rid"
  shows "answers opcode rid ack"
proof -
  have d: "decode_ack b = Ok ack" and "ack_opcode (ack_head ack) = opcode"
    and "ts_is_success (gige_from_raw (ack_status (ack_head ack)))"
    using assms(1) by (auto simp: judge_ack_def Let_def split: result.splits if_splits)
  moreover have "ack_request_id (ack_head ack) = rid" using decode_ack_id [OF d] assms(2) by auto
  ultimately show ?thesis by (simp add: answers_def success_is_zero)
qed

section \<open>The attempts\<close>

text \<open>From \<open>c\<close> to \<open>c'\<close> at most \<open>n\<close> datagrams left under \<open>rid\<close>, all of them \<open>b\<close>.\<close>

definition goes_out :: "nat \<Rightarrow> u16 \<Rightarrow> bytes \<Rightarrow> 'd control \<Rightarrow> 'd control \<Rightarrow> bool" where
  "goes_out n rid b c c' \<longleftrightarrow>
     (\<exists>ts k. sk_sent c' = sk_sent c @ ts \<and> with_id rid ts = replicate k b \<and> k \<le> n)"

lemma goes_out_trans: "goes_out m rid b x y \<Longrightarrow> goes_out n rid b y z \<Longrightarrow> goes_out (m + n) rid b x z"
  unfolding goes_out_def
  by (elim exE conjE, rule_tac x = "ts @ tsa" in exI, rule_tac x = "k + ka" in exI)
     (simp add: replicate_add)

lemma goes_out_mono: "goes_out m rid b x y \<Longrightarrow> m \<le> n \<Longrightarrow> goes_out n rid b x y"
  unfolding goes_out_def by (meson le_trans)

lemma keeps_goes_out: "keeps rid x y \<Longrightarrow> goes_out 0 rid b x y"
  unfolding keeps_def goes_out_def by auto

lemma send_goes_out:
  "send peer b c = (res, c1) \<Longrightarrow> ack_id b = Some rid \<Longrightarrow>
     goes_out 1 rid b c c1 \<and> sk_waits c1 = sk_waits c \<and> gd_control_timeout c1 = gd_control_timeout c"
proof -
  assume s: "send peer b c = (res, c1)" and i: "ack_id b = Some rid"
  have "\<exists>k. sk_sent c1 = sk_sent c @ replicate k b \<and> k \<le> 1"
  proof (cases res)
    case None
    then have "sk_sent c1 = sk_sent c @ replicate 1 b"
      using s by (auto simp: send_def Let_def split: list.splits option.splits prod.splits)
    then show ?thesis by blast
  next
    case (Some e)
    then have "sk_sent c1 = sk_sent c @ replicate 0 b"
      using s by (auto simp: send_def Let_def split: list.splits option.splits prod.splits)
    then show ?thesis by blast
  qed
  moreover have "with_id rid (replicate k b) = replicate k b" for k using i by (induction k) simp_all
  moreover have "sk_waits c1 = sk_waits c \<and> gd_control_timeout c1 = gd_control_timeout c"
    using s by (auto simp: send_def Let_def split: list.splits option.splits prod.splits)
  ultimately show ?thesis unfolding goes_out_def by metis
qed

text \<open>What each step leaves alone: the route refresh and the pause before another attempt.\<close>

lemma refresh_idle:
  "refresh_route_after_send_error e c = (res, c1) \<Longrightarrow>
     sk_sent c1 = sk_sent c \<and> sk_waits c1 = sk_waits c \<and> gd_control_timeout c1 = gd_control_timeout c"
  by (auto simp: refresh_route_after_send_error_def connect_def split: if_splits list.splits)

lemma backoff_idle [simp]:
  "sk_sent (backoff n c) = sk_sent c" "sk_waits (backoff n c) = sk_waits c"
  "gd_control_timeout (backoff n c) = gd_control_timeout c"
  by (simp_all add: backoff_def Let_def)

definition careful :: "op_code \<Rightarrow> u16 \<Rightarrow> bytes \<Rightarrow> nat \<Rightarrow> 'd control \<Rightarrow>
    (gencp_ack, gige_error) result \<times> 'd control \<Rightarrow> bool" where
  "careful opcode rid encoded n c rc \<longleftrightarrow>
     goes_out n rid encoded c (snd rc) \<and> waits_up_to (n * (MAX_PENDING_ACKS + 1)) c (snd rc) \<and>
     (\<forall>ack. fst rc = Ok ack \<longrightarrow> answers opcode rid ack)"

lemma waits_up_to_same:
  "sk_waits y = sk_waits x \<Longrightarrow> waits_up_to n x y"
  "sk_waits y = sk_waits x \<Longrightarrow> gd_control_timeout y = gd_control_timeout x \<Longrightarrow> waits_up_to n y z = waits_up_to n x z"
  by (auto simp: waits_up_to_def longest_wait_def)

lemma goes_out_same: "sk_sent y = sk_sent x \<Longrightarrow> goes_out n rid b y z = goes_out n rid b x z"
  by (simp add: goes_out_def)

text \<open>One more attempt after the first.\<close>

lemma careful_step:
  assumes "goes_out 1 rid encoded c c1" "waits_up_to (MAX_PENDING_ACKS + 1) c c1"
    "gd_control_timeout c1 = gd_control_timeout c"
    and "careful opcode rid encoded n c1 rc"
  shows "careful opcode rid encoded (n + 1) c rc"
  using assms goes_out_trans [OF assms(1), of n "snd rc"] waits_up_to_trans [OF assms(2), of "n * (MAX_PENDING_ACKS + 1)" "snd rc"]
  by (simp add: careful_def ac_simps)

lemma careful_stop:
  assumes "goes_out 1 rid encoded c c1" "waits_up_to (MAX_PENDING_ACKS + 1) c c1"
    and "\<And>ack. r = Ok ack \<Longrightarrow> answers opcode rid ack" "1 \<le> n"
  shows "careful opcode rid encoded n c (r, c1)"
proof -
  have "MAX_PENDING_ACKS + 1 \<le> n * (MAX_PENDING_ACKS + 1)" using mult_le_mono1 [OF assms(4), of "MAX_PENDING_ACKS + 1"] by simp
  then show ?thesis
    using assms goes_out_mono [OF assms(1,4)] waits_up_to_mono [OF assms(2)] by (simp add: careful_def)
qed

lemma attempts_careful:
  assumes "ack_id encoded = Some rid" "attempt \<le> MAX_RETRIES"
  shows "careful opcode rid encoded (MAX_RETRIES + 1 - attempt) c (attempts peer opcode rid encoded attempt c)"
  using assms
proof (induction peer opcode rid encoded attempt c rule: attempts.induct)
  case (1 peer opcode rid encoded attempt c)
  let ?n = "MAX_RETRIES + 1 - attempt"
  have left: "1 \<le> ?n" using "1.prems" by simp
  have again: "careful opcode rid encoded ?n c (attempts peer opcode rid encoded (attempt + 1) (backoff attempt c2))"
    if "goes_out 1 rid encoded c c2" "waits_up_to (MAX_PENDING_ACKS + 1) c c2"
      "gd_control_timeout c2 = gd_control_timeout c" "attempt < MAX_RETRIES"
      and ih: "careful opcode rid encoded (MAX_RETRIES + 1 - (attempt + 1)) (backoff attempt c2)
        (attempts peer opcode rid encoded (attempt + 1) (backoff attempt c2))" for c2
  proof -
    have "MAX_RETRIES + 1 - (attempt + 1) + 1 = ?n" using that(4) by simp
    moreover have "careful opcode rid encoded (MAX_RETRIES + 1 - (attempt + 1)) c2
        (attempts peer opcode rid encoded (attempt + 1) (backoff attempt c2))"
      using ih goes_out_same [of "backoff attempt c2" c2] waits_up_to_same(2) [of "backoff attempt c2" c2]
      unfolding careful_def by simp
    ultimately show ?thesis using careful_step [OF that(1-3)] by metis
  qed
  obtain res c1 where s: "send peer encoded c = (res, c1)" by fastforce
  note s1 = send_goes_out [OF s "1.prems"(1)]
  have w1: "waits_up_to (MAX_PENDING_ACKS + 1) c c1" using s1 waits_up_to_same(1) by blast
  show ?case
  proof (cases res)
    case (Some e)
    obtain res2 c2 where rf: "refresh_route_after_send_error e c1 = (res2, c2)" by fastforce
    have g2: "goes_out 1 rid encoded c c2" "waits_up_to (MAX_PENDING_ACKS + 1) c c2"
        "gd_control_timeout c2 = gd_control_timeout c"
      using s1 refresh_idle [OF rf] waits_up_to_same(1) [of c2 c] by (simp_all add: goes_out_def)
    show ?thesis
    proof (cases "attempt \<ge> MAX_RETRIES")
      case True
      then show ?thesis
        using careful_stop [OF conjunct1 [OF s1] w1 _ left, of "Err (Io e)" opcode]
        by (subst attempts.simps) (simp add: s Some)
    next
      case False
      show ?thesis
      proof (cases res2)
        case None
        then have "attempts peer opcode rid encoded attempt c =
            attempts peer opcode rid encoded (attempt + 1) (backoff attempt c2)"
          using False by (subst attempts.simps) (simp add: s Some rf)
        moreover have "careful opcode rid encoded (MAX_RETRIES + 1 - (attempt + 1)) (backoff attempt c2)
            (attempts peer opcode rid encoded (attempt + 1) (backoff attempt c2))"
          by (rule "1.IH"(4) [OF s [symmetric] Some False rf [symmetric] None "1.prems"(1)]) (use False in simp)
        ultimately show ?thesis using again [OF g2] False by simp
      next
        case (Some e')
        then show ?thesis
          using False \<open>res = Some e\<close> careful_stop [OF g2(1,2) _ left, of "Err (Io e')" opcode]
          by (subst attempts.simps) (simp add: s rf)
      qed
    qed
  next
    case None
    obtain r2 c2 where rv: "recv_absorbing_pending peer rid c1 = (r2, c2)" by fastforce
    have a: "keeps rid c1 c2 \<and> waits_up_to (MAX_PENDING_ACKS + 1) c1 c2 \<and>
        (\<forall>b. r2 = Received b \<longrightarrow> ack_id b = None \<or> ack_id b = Some rid)"
      using absorb_keeps [OF rv [unfolded recv_absorbing_pending_def]] by (simp add: longest_wait_def)
    have g2: "goes_out 1 rid encoded c c2" "waits_up_to (MAX_PENDING_ACKS + 1) c c2"
        "gd_control_timeout c2 = gd_control_timeout c"
      using s1 a goes_out_trans [of 1 rid encoded c c1 0 c2] keeps_goes_out [of rid c1 c2 encoded]
        waits_up_to_same(2) [of c1 c] by (auto simp: keeps_def)
    have last: "careful opcode rid encoded ?n c (r, c2)" if "\<And>ack. r = Ok ack \<Longrightarrow> answers opcode rid ack" for r
      by (rule careful_stop [OF g2(1,2) that left])
    show ?thesis
    proof (cases r2)
      case (Received b)
      show ?thesis
      proof (cases "judge_ack opcode attempt b")
        case (Return r)
        have "careful opcode rid encoded ?n c (r, c2)"
          by (rule last) (use Return Received a judge_ack_answers in blast)
        then show ?thesis using Return Received None rv by (subst attempts.simps) (simp add: s)
      next
        case Again
        have lt: "attempt < MAX_RETRIES" by (rule judge_ack_Again [OF Again])
        have eq: "attempts peer opcode rid encoded attempt c =
            attempts peer opcode rid encoded (attempt + 1) (backoff attempt c2)"
          using Again Received None rv by (subst attempts.simps) (simp add: s)
        have "careful opcode rid encoded (MAX_RETRIES + 1 - (attempt + 1)) (backoff attempt c2)
            (attempts peer opcode rid encoded (attempt + 1) (backoff attempt c2))"
          by (rule "1.IH"(1) [OF s [symmetric] None rv [symmetric] Received Again "1.prems"(1)]) (use lt in simp)
        then show ?thesis using again [OF g2 lt] eq by simp
      qed
    next
      case (RecvIo e)
      show ?thesis
      proof (cases "attempt \<ge> MAX_RETRIES")
        case True
        then show ?thesis using last [of "Err (Io e)"] RecvIo None rv by (subst attempts.simps) (simp add: s)
      next
        case False
        have "careful opcode rid encoded (MAX_RETRIES + 1 - (attempt + 1)) (backoff attempt c2)
            (attempts peer opcode rid encoded (attempt + 1) (backoff attempt c2))"
          by (rule "1.IH"(2) [OF s [symmetric] None rv [symmetric] RecvIo False "1.prems"(1)]) (use False in simp)
        then show ?thesis using again [OF g2] False RecvIo None rv by (subst attempts.simps) (simp add: s)
      qed
    next
      case TimedOut
      show ?thesis
      proof (cases "attempt \<ge> MAX_RETRIES")
        case True
        then show ?thesis using last [of "Err Timeout"] TimedOut None rv by (subst attempts.simps) (simp add: s)
      next
        case False
        have "careful opcode rid encoded (MAX_RETRIES + 1 - (attempt + 1)) (backoff attempt c2)
            (attempts peer opcode rid encoded (attempt + 1) (backoff attempt c2))"
          by (rule "1.IH"(3) [OF s [symmetric] None rv [symmetric] TimedOut False "1.prems"(1)]) (use False in simp)
        then show ?thesis using again [OF g2] False TimedOut None rv by (subst attempts.simps) (simp add: s)
      qed
    qed
  qed
qed

section \<open>What a transaction promises\<close>

text \<open>
  C17. Whatever the camera answers and the network loses, delays or repeats, a GVCP transaction sends
  its command at most four times, every time as the same bytes under the transaction's request id
  (heartbeats sent meanwhile use other ids), and accepts only an acknowledgement of this very command:
  its opcode, its request id, status success.
\<close>
theorem transaction_safe:
  "case transact_with_retry peer opcode payload c of (r, c') \<Rightarrow>
    (\<exists>ts k. sk_sent c' = sk_sent c @ ts \<and> with_id (gd_request_id c) ts = replicate k (command_of opcode (gd_request_id c) payload) \<and>
       k \<le> 4) \<and>
    (\<forall>ack. r = Ok ack \<longrightarrow> ack_opcode (ack_head ack) = opcode \<and>
       ack_request_id (ack_head ack) = gd_request_id c \<and> ack_status (ack_head ack) = 0)"
proof -
  let ?cmd = "command_of opcode (gd_request_id c) payload"
  obtain c1 where c1: "next_request_id c = (gd_request_id c, c1)" "sk_sent c1 = sk_sent c"
    by (simp add: next_request_id_def Let_def)
  obtain r c' where t: "attempts peer opcode (gd_request_id c) ?cmd 1 c1 = (r, c')" by fastforce
  have "careful opcode (gd_request_id c) ?cmd 4 c1 (r, c')"
    using attempts_careful [of ?cmd "gd_request_id c" 1 opcode c1 peer] t by (simp add: MAX_RETRIES_def)
  then show ?thesis
    using t c1 by (simp add: transact_with_retry_def careful_def goes_out_def answers_def)
qed

text \<open>
  A transaction always ends, and its waiting is bounded: however often the camera asks for more
  time and whatever time it asks for, there are at most 404 waits, and none is shorter than the
  control timeout or longer than the larger of the control timeout and ten seconds.
\<close>
theorem transaction_waits:
  "case transact_with_retry peer opcode payload c of (r, c') \<Rightarrow>
    \<exists>ws. sk_waits c' = sk_waits c @ ws \<and> length ws \<le> 404 \<and>
      list_all (\<lambda>w. gd_control_timeout c \<le> w \<and> w \<le> max (gd_control_timeout c) MAX_PENDING_ACK_WAIT) ws"
proof -
  obtain c1 where c1: "next_request_id c = (gd_request_id c, c1)" "sk_waits c1 = sk_waits c"
      "gd_control_timeout c1 = gd_control_timeout c"
    by (simp add: next_request_id_def Let_def)
  let ?cmd = "command_of opcode (gd_request_id c) payload"
  obtain r c' where t: "attempts peer opcode (gd_request_id c) ?cmd 1 c1 = (r, c')" by fastforce
  have "waits_up_to 404 c1 c'"
    using attempts_careful [of ?cmd "gd_request_id c" 1 opcode c1 peer] t
    by (simp add: MAX_RETRIES_def MAX_PENDING_ACKS_def careful_def)
  then show ?thesis
    using t c1 by (simp add: transact_with_retry_def waits_up_to_def longest_wait_def list_all_iff)
qed

section \<open>A command in progress\<close>

text \<open>What the wait skips: answers to other requests, heartbeats, and ICMP errors once it has
  reason to (\<open>tol\<close>).\<close>

fun skipped :: "u16 \<Rightarrow> bool \<Rightarrow> wait_event \<Rightarrow> bool" where
  "skipped rid tol (Arrived d) \<longleftrightarrow> ack_id (take RECV_BUFFER d) \<noteq> None \<and> ack_id (take RECV_BUFFER d) \<noteq> Some rid"
| "skipped rid tol (RecvError e) \<longleftrightarrow> tol \<and> is_icmp_error e"
| "skipped rid tol HeartbeatDue \<longleftrightarrow> True"
| "skipped rid tol DeadlineReached \<longleftrightarrow> False"

lemma skipped_tolerant: "skipped rid tol e \<Longrightarrow> skipped rid True e"
  by (cases e) auto

definition silent :: "'d peer" where
  "silent b p = ([], p)"

lemma keepalive_events_silent: "sk_events (snd (send_inflight_keepalive silent rid c)) = sk_events c"
  by (simp add: send_inflight_keepalive_def send_def next_request_id_def silent_def Let_def
      split: list.split option.split prod.split if_split)

lemma recv_skips:
  fixes c :: "'a control"
  assumes "sk_events c = pre @ Arrived d # post" "\<forall>e \<in> set pre. skipped rid tol e"
    "ack_id (take RECV_BUFFER d) = Some rid"
  shows "\<exists>c'. recv_for_request silent rid tol c = (Received (take RECV_BUFFER d), c') \<and> sk_events c' = post"
  using assms
proof (induction pre arbitrary: c tol)
  case Nil
  then show ?case by (subst recv_for_request.simps) (simp add: Let_def)
next
  case (Cons e pre)
  let ?c = "c\<lparr>sk_events := pre @ Arrived d # post\<rparr>"
  have rest: "\<exists>c'. recv_for_request silent rid t x = (Received (take RECV_BUFFER d), c') \<and> sk_events c' = post"
    if "sk_events x = pre @ Arrived d # post" "t = tol \<or> t" for t and x :: "'a control"
    by (rule Cons.IH) (use that Cons.prems skipped_tolerant in auto)
  show ?case
  proof (cases e)
    case HeartbeatDue
    let ?k = "snd (send_inflight_keepalive silent rid ?c)"
    have k: "sk_events ?k = pre @ Arrived d # post" by (simp add: keepalive_events_silent)
    show ?thesis
      using rest [of ?c tol] rest [OF k, of True] Cons.prems(1) HeartbeatDue
      by (subst recv_for_request.simps) (simp split: if_split)
  next
    case (RecvError x)
    then show ?thesis using rest [of ?c tol] Cons.prems by (subst recv_for_request.simps) simp
  next
    case (Arrived x)
    then show ?thesis using rest [of ?c tol] Cons.prems by (subst recv_for_request.simps) (simp add: Let_def)
  qed (use Cons.prems in simp)
qed

lemma pending_is_no_ack: "decode_ack b = Ok ack \<Longrightarrow> parse_pending_ack b = None"
proof -
  assume d: "decode_ack b = Ok ack"
  then have "8 \<le> length b" using decode_ack_short [of b] by (cases "length b < 8") auto
  then obtain s o' l r p where b: "b = put_u16 s @ put_u16 o' @ put_u16 l @ put_u16 r @ p" by (rule split_header)
  have op: "be_word (take 2 (drop 2 b)) = o'" by (simp add: b)
  have "o' = ack_code (ack_opcode (ack_head ack))"
    using d by (auto simp: b decode_ack_fields and_then_eq_Ok from_ack_eq_Ok split: if_splits)
  then have "o' \<noteq> PENDING_ACK"
    by (cases "ack_opcode (ack_head ack)") (simp_all add: ack_code_def PENDING_ACK_def)
  then show ?thesis by (simp add: parse_pending_ack_def op)
qed

lemma judge_ack_accepts: "decode_ack b = Ok ack \<Longrightarrow> answers opcode rid ack \<Longrightarrow> judge_ack opcode n b = Return (Ok ack)"
  by (simp add: judge_ack_def answers_def success_is_zero Let_def)

text \<open>
  C18. A command in progress is not sent again: once the camera has answered a command with a request
  for more time, the transaction goes on waiting through answers to other requests, through heartbeats
  and through ICMP errors, and returns the acknowledgement when it comes, the command having been sent
  exactly once.
\<close>
theorem pending_command_sent_once:
  assumes "sk_sends c = []" and "gd_request_id c = rid"
    and "sk_events c = pre @ Arrived pend # mid @ Arrived ans # post"
    and "\<forall>e \<in> set pre. skipped rid False e" and "\<forall>e \<in> set mid. skipped rid True e"
    and "ack_id (take RECV_BUFFER pend) = Some rid" and "parse_pending_ack (take RECV_BUFFER pend) \<noteq> None"
    and "decode_ack (take RECV_BUFFER ans) = Ok ack" and "answers opcode rid ack"
  shows "\<exists>c' ts. transact_with_retry silent opcode payload c = (Ok ack, c') \<and> sk_events c' = post \<and>
    sk_sent c' = sk_sent c @ ts \<and> with_id rid ts = [command_of opcode rid payload]"
proof -
  let ?cmd = "command_of opcode rid payload"
  obtain c1 where c1: "next_request_id c = (rid, c1)" "sk_sends c1 = []" "sk_events c1 = sk_events c"
      "sk_sent c1 = sk_sent c"
    using assms(1,2) by (simp add: next_request_id_def Let_def)
  obtain c2 where c2: "send silent ?cmd c1 = (None, c2)" "sk_events c2 = sk_events c" "sk_sent c2 = sk_sent c @ [?cmd]"
    using c1 by (simp add: send_def silent_def)
  let ?w = "c2\<lparr>sk_waits := sk_waits c2 @ [gd_control_timeout c2]\<rparr>"
  obtain c3 where c3: "recv_for_request silent rid False ?w = (Received (take RECV_BUFFER pend), c3)"
      "sk_events c3 = mid @ Arrived ans # post"
    using recv_skips [of ?w pre pend "mid @ Arrived ans # post" rid False] assms(3,4,6) c2(2) by auto
  obtain x t where p: "parse_pending_ack (take RECV_BUFFER pend) = Some (x, t)" using assms(7) by auto
  let ?t = "pending_wait t (gd_control_timeout c3)"
  let ?w3 = "c3\<lparr>sk_waits := sk_waits c3 @ [?t]\<rparr>"
  have id: "ack_id (take RECV_BUFFER ans) = Some rid"
    using decode_ack_id [OF assms(8)] assms(9) by (simp add: answers_def)
  obtain c4 where c4: "recv_for_request silent rid True ?w3 = (Received (take RECV_BUFFER ans), c4)" "sk_events c4 = post"
    using recv_skips [of ?w3 mid ans post rid True] assms(5) c3(2) id by auto
  have "absorb_pending silent rid ?t 1 c3 = (Received (take RECV_BUFFER ans), c4)"
    using c4(1) pending_is_no_ack [OF assms(8)] by (subst absorb_pending.simps) simp
  then have "recv_absorbing_pending silent rid c2 = (Received (take RECV_BUFFER ans), c4)"
    unfolding recv_absorbing_pending_def
    by (subst absorb_pending.simps) (use c3(1) p in \<open>simp add: MAX_PENDING_ACKS_def\<close>)
  then have "attempts silent opcode rid ?cmd 1 c1 = (Ok ack, c4)"
    using c2(1) judge_ack_accepts [OF assms(8,9)] by (subst attempts.simps) simp
  moreover have "keeps rid c2 c4"
    using recv_keeps [OF c3(1)] recv_keeps [OF c4(1)] keeps_trans by auto
  ultimately show ?thesis
    using c1(1) c2(3) c4(2) by (auto simp: transact_with_retry_def keeps_def)
qed

end
