(* ===== verification/Gvcp_Memory.thy ===== *)
theory Gvcp_Memory
  imports Gvcp_Device Gvcp_Props
begin

text \<open>
  What memory access over GVCP means. The locale \<open>memory_channel\<close> is the contract a camera
  offers for a stretch of its address space: a READMEM of whole aligned words is answered with the
  memory's bytes. \<open>writable_memory\<close> adds that a WRITEMEM changes exactly the bytes it names. From
  these the chunked, unaligned reads and writes of the host are proved exact.
\<close>

section \<open>A transaction the camera answers at once\<close>

definition idle :: "'d control \<Rightarrow> bool" where
  "idle c \<longleftrightarrow> sk_sends c = [] \<and> sk_events c = []"

definition success_ack :: "op_code \<Rightarrow> u16 \<Rightarrow> bytes \<Rightarrow> bytes" where
  "success_ack op rid payload =
     put_u16 0 @ put_u16 (ack_code op) @ put_u16 (word_of_nat (length payload)) @ put_u16 rid @ payload"

lemma decode_success_ack:
  "length payload < 2 ^ 16 \<Longrightarrow> decode_ack (success_ack op rid payload) =
     Ok \<lparr>ack_head = \<lparr>ack_status = 0, ack_opcode = op, ack_length = word_of_nat (length payload),
          ack_request_id = rid\<rparr>, ack_payload = payload\<rparr>"
  using from_ack_eq_Ok [of "ack_code op" op]
  by (simp add: success_ack_def decode_ack_fields unat_of_nat_small and_then_def)

text \<open>The camera answers the first sending with one datagram that settles the transaction.\<close>

lemma transact_once:
  assumes "idle c" "length d \<le> RECV_BUFFER" "decode_ack d = Ok ack" "ack_request_id (ack_head ack) = gd_request_id c"
    and "judge_ack op 1 d = Return r"
    and "peer (command_of op (gd_request_id c) payload) (sk_peer c) = ([d], p')"
  shows "\<exists>c'. transact_with_retry peer op payload c = (r, c') \<and>
    idle c' \<and> sk_peer c' = p' \<and> gd_memory_access_only c' = gd_memory_access_only c"
proof -
  let ?rid = "gd_request_id c" let ?cmd = "command_of op ?rid payload"
  have len: "take RECV_BUFFER d = d" using assms(2) by simp
  have id: "ack_id d = Some ?rid" using decode_ack_id [OF assms(3)] assms(4) by simp
  obtain c1 where c1: "next_request_id c = (?rid, c1)" "idle c1" "sk_peer c1 = sk_peer c"
      "gd_memory_access_only c1 = gd_memory_access_only c"
    using assms(1) by (simp add: next_request_id_def Let_def idle_def)
  obtain c2 where c2: "send peer ?cmd c1 = (None, c2)" "sk_sends c2 = []" "sk_events c2 = [Arrived d]" "sk_peer c2 = p'"
      "gd_memory_access_only c2 = gd_memory_access_only c"
    using c1 assms(6) by (simp add: send_def idle_def)
  define c3 where "c3 = c2\<lparr>sk_waits := sk_waits c2 @ [gd_control_timeout c2], sk_events := []\<rparr>"
  have c3: "recv_absorbing_pending peer ?rid c2 = (Received d, c3)"
    using c2(3) pending_is_no_ack [OF assms(3)] id unfolding recv_absorbing_pending_def c3_def
    by (subst absorb_pending.simps) (simp add: recv_for_request.simps len Let_def)
  have "attempts peer op ?rid ?cmd 1 c1 = (r, c3)"
    using c2(1) c3 assms(5) by (subst attempts.simps) simp
  then show ?thesis using c1(1) c2 by (auto simp: transact_with_retry_def idle_def c3_def)
qed

lemma transact_answered:
  assumes "idle c" "length payload' \<le> 512 + 4"
    and "peer (command_of op (gd_request_id c) payload) (sk_peer c) = ([success_ack op (gd_request_id c) payload'], p')"
  shows "\<exists>ack c'. transact_with_retry peer op payload c = (Ok ack, c') \<and> ack_payload ack = payload' \<and>
    idle c' \<and> sk_peer c' = p' \<and> gd_memory_access_only c' = gd_memory_access_only c"
proof -
  let ?rid = "gd_request_id c" let ?d = "success_ack op ?rid payload'"
  let ?ack = "\<lparr>ack_head = \<lparr>ack_status = 0, ack_opcode = op,
      ack_length = word_of_nat (length payload'), ack_request_id = ?rid\<rparr>, ack_payload = payload'\<rparr>"
  have d: "decode_ack ?d = Ok ?ack"
    using assms(2) by (intro decode_success_ack) simp
  have len: "length ?d \<le> RECV_BUFFER"
    using assms(2) by (simp add: success_ack_def RECV_BUFFER_def HEADER_SIZE_def GENCP_MAX_BLOCK_def GENCP_WRITE_OVERHEAD_def)
  have "judge_ack op 1 ?d = Return (Ok ?ack)"
    using judge_ack_accepts [OF d, of op ?rid] by (simp add: answers_def)
  from transact_once [where peer = peer, OF assms(1) len d _ this assms(3)] show ?thesis by auto
qed

text \<open>The camera refuses.\<close>

lemma transact_refused:
  assumes "idle c"
    and "peer (command_of op (gd_request_id c) payload) (sk_peer c) =
      ([put_u16 status @ put_u16 (ack_code op) @ put_u16 0 @ put_u16 (gd_request_id c)], p')"
    and "\<not> ts_is_success (gige_from_raw status)" "\<not> ts_is_retryable (gige_from_raw status)"
  shows "\<exists>c'. transact_with_retry peer op payload c = (Err (Status (gige_from_raw status)), c') \<and>
    idle c' \<and> sk_peer c' = p' \<and> gd_memory_access_only c' = gd_memory_access_only c"
proof -
  let ?rid = "gd_request_id c" let ?d = "put_u16 status @ put_u16 (ack_code op) @ put_u16 0 @ put_u16 ?rid"
  let ?ack = "\<lparr>ack_head = \<lparr>ack_status = status, ack_opcode = op, ack_length = 0, ack_request_id = ?rid\<rparr>, ack_payload = []\<rparr>"
  have d: "decode_ack ?d = Ok ?ack"
    using from_ack_eq_Ok [of "ack_code op" op] decode_ack_fields [of status "ack_code op" 0 ?rid "[]"]
    by (simp add: and_then_def)
  have len: "length ?d \<le> RECV_BUFFER" by (simp add: RECV_BUFFER_def HEADER_SIZE_def)
  have "judge_ack op 1 ?d = Return (Err (Status (gige_from_raw status)))"
    using assms(3,4) by (simp add: judge_ack_def d Let_def)
  from transact_once [where peer = peer, OF assms(1) len d _ this assms(2)] show ?thesis by auto
qed

section \<open>The transaction properties at work\<close>

text \<open>A camera that answers every datagram with the register value 7.\<close>

definition seven :: "unit peer" where
  "seven b p = ([success_ack ReadRegister 1 [0, 0, 0, 7]], p)"

lemma transaction_safe_witness:
  "\<exists>ack c'. transact_with_retry seven ReadRegister [0, 0, 9, 0x38] (open_device False ()) = (Ok ack, c') \<and>
    ack_opcode (ack_head ack) = ReadRegister \<and> ack_request_id (ack_head ack) = 1 \<and> ack_status (ack_head ack) = 0 \<and>
    (\<exists>k. with_id 1 (sk_sent c') = replicate k (command_of ReadRegister 1 [0, 0, 9, 0x38]) \<and> k \<le> 4)"
proof -
  let ?c = "open_device False ()"
  have c: "idle ?c" "gd_request_id ?c = 1" "sk_sent ?c = []" by (simp_all add: open_device_def idle_def)
  have a: "seven (command_of ReadRegister (gd_request_id ?c) [0, 0, 9, 0x38]) (sk_peer ?c) =
      ([success_ack ReadRegister (gd_request_id ?c) [0, 0, 0, 7]], sk_peer ?c)"
    by (simp add: seven_def c)
  have "length [0, 0, 0, 7 :: byte] \<le> 512 + 4" by simp
  from transact_answered [where peer = seven, OF c(1) this a] obtain ack c' where
    t: "transact_with_retry seven ReadRegister [0, 0, 9, 0x38] ?c = (Ok ack, c')" by blast
  then show ?thesis using transaction_safe [where peer = seven and opcode = ReadRegister and payload = "[0, 0, 9, 0x38]" and c = ?c] by (auto simp: c)
qed

text \<open>The camera asks for two seconds, an ICMP error comes in between, then the acknowledgement.\<close>

lemma pending_command_sent_once_witness:
  "\<exists>ack c' ts. transact_with_retry silent ReadRegister [0, 0, 9, 0x38]
      ((open_device False ())\<lparr>sk_events :=
         [HeartbeatDue, Arrived (put_u16 0 @ put_u16 PENDING_ACK @ put_u16 4 @ put_u16 1 @ put_u16 0 @ put_u16 2000),
          RecvError ConnectionRefused, Arrived (success_ack ReadRegister 1 [0, 0, 0, 7])]\<rparr>) = (Ok ack, c') \<and>
    ack_payload ack = [0, 0, 0, 7] \<and> sk_sent c' = ts \<and> with_id 1 ts = [command_of ReadRegister 1 [0, 0, 9, 0x38]]"
proof -
  let ?pend = "put_u16 0 @ put_u16 PENDING_ACK @ put_u16 4 @ put_u16 1 @ put_u16 0 @ put_u16 2000"
  let ?ans = "success_ack ReadRegister 1 [0, 0, 0, 7]"
  let ?c = "(open_device False ())\<lparr>sk_events :=
      [HeartbeatDue] @ Arrived ?pend # [RecvError ConnectionRefused] @ Arrived ?ans # []\<rparr>"
  let ?ack = "\<lparr>ack_head = \<lparr>ack_status = 0, ack_opcode = ReadRegister, ack_length = word_of_nat (length [0, 0, 0, 7 :: byte]),
      ack_request_id = 1\<rparr>, ack_payload = [0, 0, 0, 7]\<rparr>"
  have short: "take RECV_BUFFER ?pend = ?pend" "take RECV_BUFFER ?ans = ?ans"
    by (simp_all add: RECV_BUFFER_def GENCP_MAX_BLOCK_def success_ack_def)
  have d: "decode_ack (take RECV_BUFFER ?ans) = Ok ?ack" unfolding short by (rule decode_success_ack) simp
  have pend: "ack_id (take RECV_BUFFER ?pend) = Some 1" "parse_pending_ack (take RECV_BUFFER ?pend) \<noteq> None"
    unfolding short by (simp_all add: ack_id_fields parse_pending_ack_def HEADER_SIZE_def Let_def)
  have skip: "\<forall>e \<in> set [HeartbeatDue]. skipped 1 False e" "\<forall>e \<in> set [RecvError ConnectionRefused]. skipped 1 True e"
    by (simp_all add: is_icmp_error_def)
  have "sk_sends ?c = []" "gd_request_id ?c = 1" "answers ReadRegister 1 ?ack" "sk_sent ?c = []"
    by (simp_all add: open_device_def answers_def)
  from pending_command_sent_once [OF this(1,2) _ skip pend d this(3), of "[]" "[0, 0, 9, 0x38]"] this(4)
  show ?thesis by auto
qed

section \<open>Sizes of words\<close>

lemma up4_bounds: "n \<le> up4 n" "up4 n < n + 4" "up4 n mod 4 = 0"
proof -
  have e: "(n + 3) div 4 * 4 + (n + 3) mod 4 = n + 3" by simp
  have m: "(n + 3) mod 4 < 4" by simp
  from e m show "n \<le> up4 n" "up4 n < n + 4" unfolding up4_def by linarith+
  show "up4 n mod 4 = 0" by (simp add: up4_def)
qed

lemma up4_le: "n mod 4 = 0 \<Longrightarrow> m \<le> n \<Longrightarrow> up4 m \<le> n"
proof -
  assume "n mod 4 = 0" "m \<le> n"
  then obtain k where n: "n = 4 * k" by (metis mod_0_imp_dvd dvdE)
  have "(m + 3) div 4 < k + 1" using \<open>m \<le> n\<close> unfolding n by (simp add: div_less_iff_less_mult)
  then show ?thesis by (simp add: up4_def n)
qed

lemma up4_id [simp]: "n mod 4 = 0 \<Longrightarrow> up4 n = n"
  using up4_le [of n n] up4_bounds(1) [of n] by simp

lemma up4_add: "a mod 4 = 0 \<Longrightarrow> up4 (a + n) = a + up4 n"
proof -
  assume "a mod 4 = 0"
  then obtain k where a: "a = 4 * k" by (metis mod_0_imp_dvd dvdE)
  have "(a + n + 3) div 4 = k + (n + 3) div 4" unfolding a
    by (metis add.assoc add.commute div_mult_self2 mult.commute zero_neq_numeral)
  then show ?thesis by (simp add: up4_def a)
qed

section \<open>Readable memory\<close>

locale memory_channel =
  fixes peer :: "'d peer" and mem :: "'d \<Rightarrow> nat \<Rightarrow> byte" and good :: "'d \<Rightarrow> bool" and base limit :: nat
  assumes limit_32bit: "limit \<le> 2 ^ 32"
    and read_law: "good p \<Longrightarrow> base \<le> a \<Longrightarrow> a + n \<le> limit \<Longrightarrow> a mod 4 = 0 \<Longrightarrow> n mod 4 = 0 \<Longrightarrow> 0 < n \<Longrightarrow> n \<le> 512 \<Longrightarrow>
      \<exists>p'. peer (command_of ReadMem rid (put_u32 (word_of_nat a) @ put_u16 0 @ put_u16 (word_of_nat n))) p =
        ([success_ack ReadMem rid (put_u32 (word_of_nat a) @ map (mem p) [a..<a + n])], p') \<and> good p' \<and> mem p' = mem p"
begin

text \<open>The state of a link to a camera with that memory, holding \<open>m\<close>.\<close>

definition linked :: "(nat \<Rightarrow> byte) \<Rightarrow> 'd control \<Rightarrow> bool" where
  "linked m c \<longleftrightarrow> idle c \<and> good (sk_peer c) \<and> mem (sk_peer c) = m"

lemma read_chunk_exact:
  assumes "linked m c" "base \<le> at" "at + up4 k \<le> limit" "at mod 4 = 0" "0 < k" "k \<le> 512"
  shows "\<exists>c'. read_mem_chunk peer at k c = (Ok (map m [at..<at + k]), c') \<and> linked m c' \<and>
    gd_memory_access_only c' = gd_memory_access_only c"
proof -
  have k: "0 < up4 k" "up4 k \<le> 512" "up4 k mod 4 = 0" "k \<le> up4 k"
    using up4_bounds [of k] up4_le [of 512 k] assms(5,6) by auto
  have good: "good (sk_peer c)" and m: "mem (sk_peer c) = m" and i: "idle c" using assms(1) by (auto simp: linked_def)
  from read_law [OF good assms(2,3,4) k(3,1,2), of "gd_request_id c"] obtain p' where
    p': "peer (command_of ReadMem (gd_request_id c)
        (put_u32 (word_of_nat at) @ put_u16 0 @ put_u16 (word_of_nat (up4 k)))) (sk_peer c) =
      ([success_ack ReadMem (gd_request_id c) (put_u32 (word_of_nat at) @ map m [at..<at + up4 k])], p')"
      "good p'" "mem p' = m"
    using m by auto
  have "length (put_u32 (word_of_nat at) @ map m [at..<at + up4 k]) \<le> 512 + 4" using k(2) by simp
  from transact_answered [where peer = peer, OF i this p'(1)] obtain ack c' where
    t: "transact_with_retry peer ReadMem (put_u32 (word_of_nat at) @ put_u16 0 @ put_u16 (word_of_nat (up4 k))) c = (Ok ack, c')"
      "ack_payload ack = put_u32 (word_of_nat at) @ map m [at..<at + up4 k]" "idle c'" "sk_peer c' = p'"
      "gd_memory_access_only c' = gd_memory_access_only c" by blast
  have "at < 2 ^ 64" using assms(3) limit_32bit k(1) by simp
  then have "read_mem_chunk peer at k c = (Ok (take k (map m [at..<at + up4 k])), c')"
    using t(2) by (simp add: read_mem_chunk_def Let_def t(1))
  moreover have "take k (map m [at..<at + up4 k]) = map m [at..<at + k]" using k(4) by (simp add: take_map)
  ultimately show ?thesis using t p' by (auto simp: linked_def)
qed

lemma read_loop_exact:
  assumes "linked m c" "base \<le> addr" "addr + up4 (off + n) \<le> limit" "addr mod 4 = 0" "off mod 4 = 0"
  shows "\<exists>c'. read_mem_loop peer addr off n data c = (Ok (data @ map m [addr + off..<addr + off + n]), c') \<and>
    linked m c' \<and> gd_memory_access_only c' = gd_memory_access_only c"
  using assms
proof (induction n arbitrary: off data c rule: less_induct)
  case (less n)
  show ?case
  proof (cases "n = 0")
    case True
    then show ?thesis using less.prems(1) by (subst read_mem_loop.simps) simp
  next
    case False
    define k where "k = min n GENCP_MAX_BLOCK"
    have k: "0 < k" "k \<le> 512" "k \<le> n" using False by (auto simp: k_def GENCP_MAX_BLOCK_def)
    have len: "addr + off + up4 k \<le> limit"
    proof -
      have "up4 (off + n) = off + up4 n" by (rule up4_add [OF less.prems(5)])
      moreover have "up4 k \<le> up4 n" using up4_le [OF up4_bounds(3), of k n] up4_bounds(1) [of n] k(3) by linarith
      ultimately show ?thesis using less.prems(3) by linarith
    qed
    have al: "(addr + off) mod 4 = 0" using less.prems(4,5) by presburger
    obtain c1 where c1: "read_mem_chunk peer (addr + off) k c = (Ok (map m [addr + off..<addr + off + k]), c1)"
        "linked m c1" "gd_memory_access_only c1 = gd_memory_access_only c"
      using read_chunk_exact [OF less.prems(1) _ len al k(1,2)] less.prems(2) by auto
    have "n - k = 0 \<or> (off + k) mod 4 = 0"
      using less.prems(5) by (auto simp: k_def GENCP_MAX_BLOCK_def min_def mod_add_eq)
    moreover have "read_mem_loop peer addr off n data c =
        read_mem_loop peer addr (off + k) (n - k) (data @ map m [addr + off..<addr + off + k]) c1"
      using False c1(1) by (subst read_mem_loop.simps) (simp add: k_def)
    moreover have "off + k + (n - k) = off + n" using k(3) by simp
    moreover have "map m [addr + off..<addr + off + n] =
        map m [addr + off..<addr + off + k] @ map m [addr + (off + k)..<addr + (off + k) + (n - k)]"
      using upt_add_eq_append [of "addr + off" "addr + off + k" "n - k"] k(3) by (simp add: add.assoc flip: map_append)
    ultimately show ?thesis
      using less.IH [of "n - k" c1 "off + k" "data @ map m [addr + off..<addr + off + k]"] c1 less.prems(2-4) k(1) False
      by (cases "n - k = 0") (auto simp: read_mem_loop.simps)
  qed
qed

lemma read_mem_exact:
  assumes "linked m c" "base \<le> addr" "addr + up4 n \<le> limit" "addr mod 4 = 0"
  shows "\<exists>c'. read_mem peer addr n c = (Ok (map m [addr..<addr + n]), c') \<and> linked m c' \<and>
    gd_memory_access_only c' = gd_memory_access_only c"
  using read_loop_exact [of m c addr 0 n "[]"] assms by (simp add: read_mem_def)

end

section \<open>Writable memory\<close>

definition overwrite :: "nat \<Rightarrow> bytes \<Rightarrow> (nat \<Rightarrow> byte) \<Rightarrow> nat \<Rightarrow> byte" where
  "overwrite a data m = (\<lambda>x. if a \<le> x \<and> x < a + length data then data ! (x - a) else m x)"

lemma overwrite_Nil [simp]: "overwrite a [] m = m"
  by (rule ext) (auto simp: overwrite_def)

lemma overwrite_split:
  assumes "k \<le> length d" shows "overwrite (a + k) (drop k d) (overwrite a (take k d) m) = overwrite a d m"
proof
  fix x
  have "drop k d ! (x - (a + k)) = d ! (x - a)" if "a + k \<le> x" using that assms by (simp add: nth_drop)
  moreover have "take k d ! (x - a) = d ! (x - a)" if "a \<le> x" "x < a + k" using that by (simp add: nth_take)
  ultimately show "overwrite (a + k) (drop k d) (overwrite a (take k d) m) x = overwrite a d m x"
    using assms by (auto simp: overwrite_def)
qed

lemma overwrite_twice [simp]: "overwrite a d (overwrite a d m) = overwrite a d m"
  by (auto simp: overwrite_def)

lemma overwrite_around:
  assumes "start \<le> addr" "addr + length data \<le> stop"
  shows "overwrite start (map m [start..<addr] @ data @ map m [addr + length data..<stop]) m = overwrite addr data m"
proof
  fix x
  let ?l = "map m [start..<addr]" let ?r = "map m [addr + length data..<stop]"
  consider "x < start" | "start \<le> x" "x < addr" | "addr \<le> x" "x < addr + length data"
    | "addr + length data \<le> x" "x < stop" | "stop \<le> x" by linarith
  then show "overwrite start (?l @ data @ ?r) m x = overwrite addr data m x"
  proof cases
    case 2
    then have "x - start < length ?l" using assms by simp
    then show ?thesis using 2 assms by (simp add: overwrite_def nth_append)
  next
    case 3
    then have "\<not> x - start < length ?l" "x - start - length ?l = x - addr" "x - addr < length data" using assms by simp_all
    then show ?thesis using 3 assms by (simp add: overwrite_def nth_append)
  next
    case 4
    then have "\<not> x - start < length ?l" "x - start - length ?l = x - addr" "\<not> x - addr < length data"
      "x - addr - length data = x - (addr + length data)" "x - (addr + length data) < length ?r" using assms by simp_all
    then show ?thesis using 4 assms by (simp add: overwrite_def nth_append)
  qed (use assms in \<open>simp_all add: overwrite_def\<close>)
qed

locale writable_memory = memory_channel peer mem good base limit
  for peer :: "'d peer" and mem :: "'d \<Rightarrow> nat \<Rightarrow> byte" and good :: "'d \<Rightarrow> bool" and base limit :: nat +
  assumes write_law: "good p \<Longrightarrow> base \<le> a \<Longrightarrow> a + length d \<le> limit \<Longrightarrow> a mod 4 = 0 \<Longrightarrow> length d mod 4 = 0 \<Longrightarrow>
      d \<noteq> [] \<Longrightarrow> length d \<le> 508 \<Longrightarrow>
      \<exists>p' q. peer (command_of WriteMem rid (put_u32 (word_of_nat a) @ d)) p = ([success_ack WriteMem rid q], p') \<and>
        length q \<le> 4 \<and> good p' \<and> mem p' = overwrite a d (mem p)"
begin

lemma write_chunk_exact:
  assumes "linked m c" "base \<le> at" "at + length d \<le> limit" "at mod 4 = 0" "length d mod 4 = 0" "d \<noteq> []" "length d \<le> 508"
  shows "\<exists>c'. write_mem_chunk peer at d c = (Ok (), c') \<and> linked (overwrite at d m) c' \<and>
    gd_memory_access_only c' = gd_memory_access_only c"
proof -
  have good: "good (sk_peer c)" and m: "mem (sk_peer c) = m" and i: "idle c" using assms(1) by (auto simp: linked_def)
  from write_law [OF good assms(2-7), of "gd_request_id c"] obtain p' q where
    p': "peer (command_of WriteMem (gd_request_id c) (put_u32 (word_of_nat at) @ d)) (sk_peer c) =
      ([success_ack WriteMem (gd_request_id c) q], p')" "length q \<le> 4" "good p'" "mem p' = overwrite at d m"
    using m by auto
  have "length q \<le> 512 + 4" using p'(2) by simp
  from transact_answered [where peer = peer, OF i this p'(1)] obtain ack c' where
    t: "transact_with_retry peer WriteMem (put_u32 (word_of_nat at) @ d) c = (Ok ack, c')"
      "ack_payload ack = q" "idle c'" "sk_peer c' = p'" "gd_memory_access_only c' = gd_memory_access_only c" by blast
  have "at < 2 ^ 64" using assms(3,6) limit_32bit by (cases d) auto
  then show ?thesis using t p' by (auto simp: write_mem_chunk_def linked_def)
qed

lemma write_loop_exact:
  assumes "linked m c" "base \<le> addr" "addr + length d \<le> limit" "addr mod 4 = 0" "length d mod 4 = 0"
    "off mod 4 = 0" "off \<le> length d"
  shows "\<exists>c'. write_words_loop peer addr d off c = (Ok (), c') \<and> linked (overwrite (addr + off) (drop off d) m) c' \<and>
    gd_memory_access_only c' = gd_memory_access_only c"
  using assms
proof (induction "length d - off" arbitrary: off m c rule: less_induct)
  case less
  show ?case
  proof (cases "off = length d")
    case True
    then show ?thesis using less.prems(1) by (subst write_words_loop.simps) simp
  next
    case False
    define k where "k = min (length d - off) WRITE_CHUNK"
    have w: "WRITE_CHUNK = 508" by (simp add: WRITE_CHUNK_def GENCP_MAX_BLOCK_def GVCP_WRITE_OVERHEAD_def)
    have d4: "(length d - off) mod 4 = 0" using less.prems(5,6,7) by (metis dvd_diff_nat dvd_imp_mod_0 mod_0_imp_dvd)
    have k: "0 < k" "k \<le> length d - off" "k \<le> 508" "k mod 4 = 0"
      using False less.prems(7) d4 by (auto simp: k_def w min_def)
    let ?t = "take WRITE_CHUNK (drop off d)"
    have t: "?t = take k (drop off d)" by (cases "WRITE_CHUNK \<le> length d - off") (simp_all add: k_def)
    have len: "length ?t = k" using k(2) t by simp
    have al: "(addr + off) mod 4 = 0" "(off + k) mod 4 = 0" using less.prems(4,6) k(4) by presburger+
    obtain c1 where c1: "write_mem_chunk peer (addr + off) ?t c = (Ok (), c1)"
        "linked (overwrite (addr + off) ?t m) c1" "gd_memory_access_only c1 = gd_memory_access_only c"
    proof -
      have "base \<le> addr + off" "addr + off + length ?t \<le> limit" "length ?t mod 4 = 0" "?t \<noteq> []" "length ?t \<le> 508"
        using less.prems(2,3,7) k len by (simp, linarith, metis, metis length_greater_0_conv, metis)
      from write_chunk_exact [OF less.prems(1) this(1,2) al(1) this(3-5)] show thesis using that by blast
    qed
    have "write_words_loop peer addr d off c = write_words_loop peer addr d (off + k) c1"
      using False less.prems(7) c1(1) by (subst write_words_loop.simps) (simp add: k_def)
    moreover obtain c2 where "write_words_loop peer addr d (off + k) c1 = (Ok (), c2)"
        "linked (overwrite (addr + (off + k)) (drop (off + k) d) (overwrite (addr + off) ?t m)) c2"
        "gd_memory_access_only c2 = gd_memory_access_only c"
    proof -
      have "length d - (off + k) < length d - off" "off + k \<le> length d" using k less.prems(7) by linarith+
      from less.hyps [OF this(1) c1(2) less.prems(2-5) al(2) this(2)] show thesis using that c1(3) by auto
    qed
    moreover have "overwrite (addr + (off + k)) (drop (off + k) d) (overwrite (addr + off) ?t m) =
        overwrite (addr + off) (drop off d) m"
      using overwrite_split [of k "drop off d" "addr + off" m] k(2) t by (simp add: ac_simps)
    ultimately show ?thesis by simp
  qed
qed

lemma write_words_exact:
  assumes "linked m c" "base \<le> addr" "addr + length d \<le> limit" "addr mod 4 = 0" "length d mod 4 = 0"
  shows "\<exists>c'. write_mem_words peer addr d c = (Ok (), c') \<and> linked (overwrite addr d m) c' \<and>
    gd_memory_access_only c' = gd_memory_access_only c"
  using write_loop_exact [OF assms, of 0] by (simp add: write_mem_words_def)

text \<open>A write of any bytes anywhere in the memory changes these bytes and no other.\<close>

lemma write_mem_exact:
  assumes "linked m c" "base \<le> addr - addr mod 4" "up4 (addr + length d) \<le> limit"
  shows "\<exists>c'. write_mem peer addr d c = (Ok (), c') \<and> linked (overwrite addr d m) c' \<and>
    gd_memory_access_only c' = gd_memory_access_only c"
proof -
  define start where "start = addr - addr mod 4"
  define stop where "stop = up4 (addr + length d)"
  have st: "start \<le> addr" "start mod 4 = 0" "base \<le> start" "addr + length d \<le> stop" "stop \<le> limit" "stop mod 4 = 0"
    using assms(2,3) up4_bounds [of "addr + length d"] by (simp_all add: start_def stop_def minus_mod_eq_mult_div)
  have small: "\<not> stop \<ge> 2 ^ 64" using st(5) limit_32bit by simp
  show ?thesis
  proof (cases "d = [] \<or> (start = addr \<and> stop = addr + length d)")
    case True
    have "write_mem peer addr d c = write_mem_words peer addr d c"
      using True small by (auto simp: write_mem_def Let_def start_def stop_def)
    moreover have "\<exists>c'. write_mem_words peer addr d c = (Ok (), c') \<and> linked (overwrite addr d m) c' \<and>
        gd_memory_access_only c' = gd_memory_access_only c"
    proof (cases "d = []")
      case True
      then show ?thesis using assms(1) by (simp add: write_mem_words_def write_words_loop.simps)
    next
      case False
      then have e: "start = addr" "stop = addr + length d" using True by simp_all
      have "length d mod 4 = 0" using st(2,6) unfolding e by presburger
      then show ?thesis using write_words_exact [OF assms(1)] st e by simp
    qed
    ultimately show ?thesis by simp
  next
    case False
    have len: "(stop - start) mod 4 = 0" using st(1,2,4,6) by (metis dvd_diff_nat dvd_imp_mod_0 mod_0_imp_dvd)
    have fit: "start + up4 (stop - start) \<le> limit" using len st by simp
    obtain c1 where c1: "read_mem peer start (stop - start) c = (Ok (map m [start..<stop]), c1)" "linked m c1"
        "gd_memory_access_only c1 = gd_memory_access_only c"
      using read_mem_exact [OF assms(1) st(3) fit st(2)] st(1,4) by auto
    let ?w = "take (addr - start) (map m [start..<stop]) @ d @ drop (addr - start + length d) (map m [start..<stop])"
    have w: "?w = map m [start..<addr] @ d @ map m [addr + length d..<stop]"
      using st(1,4) by (simp add: take_map drop_map)
    have wl: "length ?w = stop - start" using st(1,4) by (simp add: w)
    have fits: "\<not> addr - start + length d > length (map m [start..<stop])" using st(1,4) by simp
    have "write_mem peer addr d c = write_mem_words peer start ?w c1"
      unfolding write_mem_def Let_def start_def [symmetric] stop_def [symmetric]
      using False small c1(1) fits by (simp only: if_False if_True prod.case result.case)
    moreover have "start + length ?w \<le> limit" "length ?w mod 4 = 0" using wl len st by auto
    from write_words_exact [OF c1(2) st(3) this(1) st(2) this(2)] obtain c2 where
      "write_mem_words peer start ?w c1 = (Ok (), c2)" "linked (overwrite start ?w m) c2"
      "gd_memory_access_only c2 = gd_memory_access_only c" using c1(3) by auto
    moreover have "overwrite start ?w m = overwrite addr d m" unfolding w by (rule overwrite_around [OF st(1,4)])
    ultimately show ?thesis by simp
  qed
qed

end

end
