(* ===== verification/Fake_Camera.thy ===== *)
theory Fake_Camera
  imports Fake_Access Gvcp_Memory
begin

text \<open>
  The host of \<open>Gvcp_Device\<close> connected to the in-process camera of \<open>Fake_Gvcp\<close>: the camera is the peer
  of the host's socket. The contracts of \<open>Gvcp_Memory\<close> are discharged for the camera's XML blob and
  for its plain registers, so reading and writing over the wire is exact for this pair.
\<close>

section \<open>The camera as a peer\<close>

text \<open>The camera's state is its server and the number of datagrams served so far; datagram number
  \<open>n\<close> is served at time \<open>clock n\<close>. What reaches the host at once are the acknowledgements; replies
  that come after a delay are not part of this peer, so it stands for cameras without any.\<close>

fun to_sender :: "effect \<Rightarrow> bytes list" where
  "to_sender (ToSender b) = [b]"
| "to_sender _ = []"

definition camera_peer :: "(nat \<Rightarrow> instant) \<Rightarrow> socket_addr \<Rightarrow> (nat \<times> server) peer" where
  "camera_peer clock app b p =
     (let (es, sv) = serve_datagram (clock (fst p)) app b (snd p) in
      (concat (map to_sender es), (fst p + 1, sv)))"

text \<open>A camera that answers register commands at once.\<close>

definition prompt :: "server \<Rightarrow> bool" where
  "prompt sv \<longleftrightarrow> \<not> sv_link_down sv \<and> sv_refuse sv = None \<and> sv_delayed_acks sv = []"

text \<open>What its register commands do, without the bookkeeping.\<close>

lemma camera_serves:
  assumes "prompt (snd p)" "length body \<le> 1024" "clock (fst p) = now"
    and "note_register_command now app (sv_regs (snd p)) = (revoked, rm)"
    and "run_command now app op rid body rm = (Some (ack, None), acqs, rm')"
  shows "\<exists>sv. camera_peer clock app (command_of op rid body) p = ([ack], (fst p + 1, sv)) \<and>
    prompt sv \<and> sv_regs sv = rm'"
proof -
  obtain n s where p: "p = (n, s)" by (cases p)
  have none: "concat (map (to_sender \<circ> Acquire) acqs) = []" by (induction acqs) simp_all
  show ?thesis
    using assms serve_command [OF assms(2), of s now app op rid]
    by (simp add: p camera_peer_def prompt_def serve_register_command_def record_command_def send_reply_def
        none Let_def)
qed

lemma build_ack_success: "build_ack (ack_code op) rid body = success_ack op rid body"
  by (simp add: build_ack_def success_ack_def)

section \<open>Regions of registers\<close>

text \<open>Words the server treats specially: computed, write-only, or with side effects.\<close>

definition special_registers :: "nat list" where
  "special_registers =
     [CONTROL_CHANNEL_PRIVILEGE, PRIMARY_APPLICATION_PORT, PRIMARY_APPLICATION_IP, STREAM_SIZE_REGISTER,
      REG_PAYLOAD_SIZE, REG_DEVICE_TEMPERATURE, REG_EVENT_NOTIFICATION, REG_CHUNK_ENABLE,
      REG_BINNING_HORIZONTAL, REG_BINNING_VERTICAL] @ WRITE_ONLY_REGISTERS"

definition plain_region :: "nat \<Rightarrow> nat \<Rightarrow> bool" where
  "plain_region base len \<longleftrightarrow> base mod 4 = 0 \<and> base + len \<le> 2 ^ 32 \<and>
     list_all (\<lambda>r. r + 4 \<le> base \<or> base + len \<le> r) special_registers"

lemmas special_defs = special_registers_def WRITE_ONLY_REGISTERS_def CONTROL_CHANNEL_PRIVILEGE_def
  PRIMARY_APPLICATION_PORT_def PRIMARY_APPLICATION_IP_def STREAM_SIZE_REGISTER_def STREAM_CHANNEL_BASE_def
  STREAM_PACKET_SIZE_def REG_PAYLOAD_SIZE_def REG_DEVICE_TEMPERATURE_def REG_EVENT_NOTIFICATION_def
  REG_CHUNK_ENABLE_def REG_BINNING_HORIZONTAL_def REG_BINNING_VERTICAL_def REG_ACQ_START_def REG_ACQ_STOP_def
  REG_TIMESTAMP_LATCH_def REG_USER_SET_LOAD_def REG_SOFTWARE_SIGNAL_PULSE_def REG_USER_SET_SAVE_def
  REG_TRIGGER_SOFTWARE_def

lemma plain_region_apart:
  assumes "plain_region base len" "base \<le> a" "a + n \<le> base + len" "0 < n" "r \<in> set special_registers"
  shows "a \<noteq> r" "\<not> (r < a + n \<and> a < r + 4)"
proof -
  have "r + 4 \<le> base \<or> base + len \<le> r" using assms(1,5) by (auto simp: plain_region_def list_all_iff)
  then show "a \<noteq> r" "\<not> (r < a + n \<and> a < r + 4)" using assms(2-4) by linarith+
qed

text \<open>The only register of the store that touches the region starts at its base and fills it.\<close>

definition fills :: "nat \<Rightarrow> bytes \<Rightarrow> register_map \<Rightarrow> bool" where
  "fills base d rm \<longleftrightarrow> distinct (map fst (rm_regs rm)) \<and> map_of (rm_regs rm) base = Some d \<and>
     (\<forall>(r, e) \<in> set (rm_regs rm). r = base \<or> r + length e \<le> base \<and> r < base \<or> base + length d \<le> r) \<and>
     (base + length d \<le> XML_BLOB_BASE \<or> XML_BLOB_BASE + length (rm_xml_blob rm) \<le> base)"

lemma register_at_fills:
  assumes "fills base d rm" "base \<le> a" "a < base + length d"
  shows "register_at a rm = Some (base, d)" "a \<noteq> base \<Longrightarrow> map_of (rm_regs rm) a = None"
proof -
  have apart: "r = base \<or> r + length e \<le> base \<and> r < base \<or> base + length d \<le> r" if "(r, e) \<in> set (rm_regs rm)" for r e
    using assms(1) that by (auto simp: fills_def)
  have mem: "(base, d) \<in> set (rm_regs rm)" using assms(1) by (auto simp: fills_def dest: map_of_SomeD)
  have unique: "e = d" if "(base, e) \<in> set (rm_regs rm)" for e
    using assms(1) mem that unfolding fills_def by (elim conjE) (rule eq_key_imp_eq_value)
  have hit: "base \<le> a \<and> a - base < length d" using assms(2,3) by linarith
  show "register_at a rm = Some (base, d)"
  proof (cases "register_at a rm")
    case None
    then have "\<not> (\<exists>x \<in> set (rm_regs rm). case x of (r, e) \<Rightarrow> r \<le> a \<and> a - r < length e)"
      unfolding register_at_def find_None_iff by auto
    then have False using bexI [OF _ mem, of "\<lambda>x. case x of (r, e) \<Rightarrow> r \<le> a \<and> a - r < length e"] hit by simp
    then show ?thesis ..
  next
    case (Some x)
    then obtain i where i: "i < length (rm_regs rm)" "case x of (r, e) \<Rightarrow> r \<le> a \<and> a - r < length e" "x = rm_regs rm ! i"
      unfolding register_at_def find_Some_iff by auto
    then have "x \<in> set (rm_regs rm)" by simp
    then obtain r e where x: "x = (r, e)" "(r, e) \<in> set (rm_regs rm)" "r \<le> a" "a - r < length e"
      using i(2) by (cases x) auto
    then have "r = base" using apart [OF x(2)] assms(2,3) by linarith
    then show ?thesis using Some x unique by simp
  qed
  show "map_of (rm_regs rm) a = None" if "a \<noteq> base"
  proof (rule ccontr)
    assume "map_of (rm_regs rm) a \<noteq> None"
    then obtain e where "(a, e) \<in> set (rm_regs rm)" by (auto dest: map_of_SomeD)
    then show False using apart [of a e] that assms(2,3) by linarith
  qed
qed

lemma read_stored_fills:
  assumes "fills base d rm" "base \<le> a" "a + n \<le> base + length d" "0 < n"
  shows "read_stored rm a n = take n (drop (a - base) d)"
proof (cases "a = base")
  case True
  then show ?thesis using assms by (simp add: read_stored_def fills_def resize_def)
next
  case False
  have "a < base + length d" using assms(3,4) by linarith
  from register_at_fills [OF assms(1,2) this] False show ?thesis
    using assms(2,3) by (simp add: read_stored_def resize_def min_absorb2)
qed

lemma write_stored_fills:
  assumes "fills base d rm" "base \<le> a" "a + length x \<le> base + length d" "x \<noteq> []"
  shows "write_stored a x rm = reg_insert base (patch (a - base) x d) rm"
proof (cases "a = base")
  case True
  then show ?thesis using assms by (simp add: write_stored_def fills_def)
next
  case False
  have "a < base + length d" using assms(3,4) by (cases x) auto
  from register_at_fills [OF assms(1,2) this] False show ?thesis by (simp add: write_stored_def)
qed

lemma reg_read_fills:
  assumes "fills base d rm" "plain_region base (length d)" "base \<le> a" "a + n \<le> base + length d" "0 < n"
  shows "reg_read now rm a n = take n (drop (a - base) d)"
proof -
  have "read_blob rm a n = None" using assms(1,3-5) by (auto simp: read_blob_def fills_def)
  moreover have "a \<noteq> r" if "r \<in> set special_registers" for r
    using plain_region_apart(1) [OF assms(2-5) that] .
  then have "a \<noteq> PRIMARY_APPLICATION_PORT" "a \<noteq> PRIMARY_APPLICATION_IP" "a \<noteq> REG_PAYLOAD_SIZE"
    "a \<noteq> REG_DEVICE_TEMPERATURE" "a \<noteq> REG_EVENT_NOTIFICATION" "a \<noteq> REG_CHUNK_ENABLE"
    by (simp_all add: special_registers_def)
  ultimately show ?thesis by (simp add: reg_read_def read_stored_fills [OF assms(1,3-5)])
qed

lemma plain_region_plain:
  assumes "plain_region base len" "base \<le> a" "a + n \<le> base + len" "0 < n"
  shows "\<not> is_invalid_address now rm a n" "\<not> is_write_only a n"
  using plain_region_apart(2) [OF assms]
  by (auto simp: is_invalid_address_def is_write_only_def list_ex_iff special_registers_def)

section \<open>Reading over the wire\<close>

lemma readmem_payload:
  assumes "a < 2 ^ 32" "n < 2 ^ 16" "body = put_u32 (word_of_nat a) @ put_u16 0 @ put_u16 (word_of_nat n)"
  shows "unat (be_word (take 4 body) :: u32) = a" "unat (be_word (take 2 (drop 6 body)) :: u16) = n" "length body = 8"
  using assms by (simp_all add: unat_of_nat_small)

text \<open>A READMEM the server accepts is answered with the bytes of the store.\<close>

lemma handle_readmem_serves:
  assumes "a < 2 ^ 32" "a mod 4 = 0" "n mod 4 = 0" "0 < n" "n \<le> 512"
    and "\<not> is_invalid_address now rm a n" "\<not> is_write_only a n" "may_access now rm app False"
  shows "run_command now app ReadMem rid (put_u32 (word_of_nat a) @ put_u16 0 @ put_u16 (word_of_nat n)) rm =
    (Some (success_ack ReadMem rid (put_u32 (word_of_nat a) @ reg_read now rm a n), None), [], rm)"
proof -
  have n: "n < 2 ^ 16" using assms(5) by simp
  note f = readmem_payload [OF assms(1) n refl]
  show ?thesis
    using assms by (simp only: run_command_def handle_readmem_def f Let_def build_ack_success) simp
qed

text \<open>Reading is allowed: nobody holds control, or this application does.\<close>

definition readable :: "socket_addr \<Rightarrow> register_map \<Rightarrow> bool" where
  "readable app rm \<longleftrightarrow> rm_controller rm = None \<or> rm_controller rm = Some app"

lemma readable_access: "readable app rm \<Longrightarrow> may_access now rm app False"
  by (auto simp: readable_def may_access_def)

lemma note_readable:
  assumes "readable app rm"
  shows "readable app (snd (note_register_command now app rm))"
    "rm_xml_blob (snd (note_register_command now app rm)) = rm_xml_blob rm"
  using assms by (auto simp: note_register_command_def revoke_control_def reg_insert_def readable_def Let_def)

section \<open>The XML blob\<close>

definition blob_byte :: "bytes \<Rightarrow> nat \<Rightarrow> byte" where
  "blob_byte blob a = (if a - XML_BLOB_BASE < length blob then blob ! (a - XML_BLOB_BASE) else 0)"

text \<open>The blob ends before the registers of the features begin.\<close>

definition blob_limit :: "bytes \<Rightarrow> nat" where
  "blob_limit blob = (if length blob \<le> 0x10000 then up4 (XML_BLOB_BASE + length blob) else 0)"

definition holds_blob :: "socket_addr \<Rightarrow> bytes \<Rightarrow> nat \<times> server \<Rightarrow> bool" where
  "holds_blob app blob p \<longleftrightarrow>
     prompt (snd p) \<and> readable app (sv_regs (snd p)) \<and> rm_xml_blob (sv_regs (snd p)) = blob"

lemma reg_read_blob:
  assumes "rm_xml_blob rm = blob" "XML_BLOB_BASE \<le> a" "a < XML_BLOB_BASE + length blob"
  shows "reg_read now rm a n = map (blob_byte blob) [a..<a + n]"
proof -
  have "resize n 0 (take n (drop (a - XML_BLOB_BASE) blob)) = map (blob_byte blob) [a..<a + n]"
    using assms(2) by (intro nth_equalityI) (auto simp: resize_def blob_byte_def nth_append min_def algebra_simps)
  then show ?thesis using assms by (simp add: reg_read_def read_blob_def less_diff_conv2)
qed

lemma blob_read_law:
  assumes "holds_blob app blob p" "XML_BLOB_BASE \<le> a" "a + n \<le> blob_limit blob" "a mod 4 = 0" "n mod 4 = 0" "0 < n" "n \<le> 512"
  shows "\<exists>p'. camera_peer clock app (command_of ReadMem rid (put_u32 (word_of_nat a) @ put_u16 0 @ put_u16 (word_of_nat n))) p =
      ([success_ack ReadMem rid (put_u32 (word_of_nat a) @ map (blob_byte blob) [a..<a + n])], p') \<and> holds_blob app blob p'"
proof -
  define now where "now = clock (fst p)"
  obtain revoked rm where noted: "note_register_command now app (sv_regs (snd p)) = (revoked, rm)" by fastforce
  have rm: "readable app rm" "rm_xml_blob rm = blob"
    using assms(1) noted note_readable [of app "sv_regs (snd p)" now] by (auto simp: holds_blob_def)
  have size: "length blob \<le> 0x10000" and lim: "a + n \<le> up4 (XML_BLOB_BASE + length blob)"
    using assms(3,6) by (auto simp: blob_limit_def split: if_splits)
  have top: "up4 (XML_BLOB_BASE + length blob) \<le> 0x20000"
    using size by (intro up4_le) (simp_all add: XML_BLOB_BASE_def)
  have inside: "a < XML_BLOB_BASE + length blob"
    using lim assms(4,5,6) up4_bounds(2,3) [of "XML_BLOB_BASE + length blob"] by presburger
  have free: "\<not> is_invalid_address now rm a n" "\<not> is_write_only a n"
    using assms(2) lim top
    by (auto simp: is_invalid_address_def is_write_only_def special_defs XML_BLOB_BASE_def)
  have small: "a < 2 ^ 32" using lim top by simp
  let ?ack = "success_ack ReadMem rid (put_u32 (word_of_nat a) @ map (blob_byte blob) [a..<a + n])"
  have run: "run_command now app ReadMem rid (put_u32 (word_of_nat a) @ put_u16 0 @ put_u16 (word_of_nat n)) rm =
      (Some (?ack, None), [], rm)"
    using handle_readmem_serves [OF small assms(4-7) free readable_access [OF rm(1)]] reg_read_blob [OF rm(2) assms(2) inside]
    by simp
  have up: "prompt (snd p)" using assms(1) by (simp add: holds_blob_def)
  have short: "length (put_u32 (word_of_nat a) @ put_u16 0 @ put_u16 (word_of_nat n)) \<le> 1024" by simp
  from camera_serves [where clock = clock and p = p, OF up short now_def [symmetric] noted run] show ?thesis
    using rm by (auto simp: holds_blob_def)
qed

interpretation blob: memory_channel "camera_peer clock app" "\<lambda>_. blob_byte blob" "holds_blob app blob"
    XML_BLOB_BASE "blob_limit blob"
  for clock :: "nat \<Rightarrow> instant" and app blob
proof
  show "blob_limit blob \<le> 2 ^ 32"
    using up4_bounds(2) [of "XML_BLOB_BASE + length blob"] by (simp add: blob_limit_def XML_BLOB_BASE_def)
qed (use blob_read_law [where clock = clock and app = app and blob = blob] in simp)

section \<open>Plain registers\<close>

text \<open>The rest of the camera: every other register and every other part of the store but the time
  of the last command.\<close>

definition rest_of :: "nat \<Rightarrow> register_map \<Rightarrow> register_map" where
  "rest_of base rm = rm\<lparr>rm_regs := AList.delete base (rm_regs rm), rm_last_register_command := 0\<rparr>"

definition holds_region :: "socket_addr \<Rightarrow> nat \<Rightarrow> nat \<Rightarrow> register_map \<Rightarrow> nat \<times> server \<Rightarrow> bool" where
  "holds_region app base len rest p \<longleftrightarrow>
     prompt (snd p) \<and> (let rm = sv_regs (snd p) in
       rm_controller rm = Some app \<and> \<not> rm_enforce_heartbeat rm \<and> rm_pending_test_packet rm = None \<and>
       (\<exists>d. fills base d rm \<and> length d = len) \<and> rest_of base rm = rest)"

definition region_byte :: "nat \<Rightarrow> nat \<times> server \<Rightarrow> nat \<Rightarrow> byte" where
  "region_byte base p a =
     (case map_of (rm_regs (sv_regs (snd p))) base of
        Some d \<Rightarrow> if base \<le> a \<and> a < base + length d then d ! (a - base) else 0
      | None \<Rightarrow> 0)"

definition region_limit :: "nat \<Rightarrow> nat \<Rightarrow> nat" where
  "region_limit base len = (if plain_region base len then base + len else 0)"

lemma fills_last_command: "fills base d (rm\<lparr>rm_last_register_command := t\<rparr>) = fills base d rm"
  by (simp add: fills_def)

text \<open>The command of the controller only moves the time of the last command.\<close>

lemma note_controller:
  "rm_controller rm = Some app \<Longrightarrow> \<not> rm_enforce_heartbeat rm \<Longrightarrow>
     note_register_command now app rm = (False, rm\<lparr>rm_last_register_command := now\<rparr>)"
  by (simp add: note_register_command_def)

lemma region_read_law:
  assumes "holds_region app base len rest p" "base \<le> a" "a + n \<le> region_limit base len" "a mod 4 = 0" "n mod 4 = 0"
    "0 < n" "n \<le> 512"
  shows "\<exists>p'. camera_peer clock app (command_of ReadMem rid (put_u32 (word_of_nat a) @ put_u16 0 @ put_u16 (word_of_nat n))) p =
      ([success_ack ReadMem rid (put_u32 (word_of_nat a) @ map (region_byte base p) [a..<a + n])], p') \<and>
      holds_region app base len rest p' \<and> region_byte base p' = region_byte base p"
proof -
  define now where "now = clock (fst p)"
  define rm where "rm = sv_regs (snd p)"
  let ?rm = "rm\<lparr>rm_last_register_command := now\<rparr>"
  obtain d where hold: "prompt (snd p)" "rm_controller rm = Some app" "\<not> rm_enforce_heartbeat rm"
      "rm_pending_test_packet rm = None" "fills base d rm" "length d = len" "rest_of base rm = rest"
    using assms(1) by (auto simp: holds_region_def rm_def Let_def)
  have plain: "plain_region base (length d)" and lim: "a + n \<le> base + length d"
    using assms(3,6) hold(6) by (auto simp: region_limit_def split: if_splits)
  have small: "a < 2 ^ 32" using plain lim assms(6) by (simp add: plain_region_def)
  have f: "fills base d ?rm" using hold(5) by (simp add: fills_last_command)
  have m: "map_of (rm_regs rm) base = Some d" using hold(5) by (simp add: fills_def)
  have bytes: "take n (drop (a - base) d) = map (region_byte base p) [a..<a + n]"
    using assms(2) lim m by (intro nth_equalityI) (auto simp: region_byte_def rm_def)
  have acc: "may_access now ?rm app False" by (rule readable_access) (simp add: readable_def hold(2))
  have run: "run_command now app ReadMem rid (put_u32 (word_of_nat a) @ put_u16 0 @ put_u16 (word_of_nat n)) ?rm =
      (Some (success_ack ReadMem rid (put_u32 (word_of_nat a) @ map (region_byte base p) [a..<a + n]), None), [], ?rm)"
    using handle_readmem_serves [OF small assms(4-7) plain_region_plain [OF plain assms(2) lim assms(6)] acc, of rid]
      reg_read_fills [OF f plain assms(2) lim assms(6), of now] bytes by simp
  have short: "length (put_u32 (word_of_nat a) @ put_u16 0 @ put_u16 (word_of_nat n)) \<le> 1024" by simp
  have noted: "note_register_command now app (sv_regs (snd p)) = (False, ?rm)"
    using note_controller [OF hold(2,3)] by (simp add: rm_def)
  from camera_serves [where clock = clock and p = p, OF hold(1) short now_def [symmetric] noted run] obtain sv where
    sv: "camera_peer clock app (command_of ReadMem rid (put_u32 (word_of_nat a) @ put_u16 0 @ put_u16 (word_of_nat n))) p =
      ([success_ack ReadMem rid (put_u32 (word_of_nat a) @ map (region_byte base p) [a..<a + n])], fst p + 1, sv)"
    "prompt sv" "sv_regs sv = ?rm" by blast
  have "holds_region app base len rest (fst p + 1, sv)"
    using sv(2,3) hold f by (auto simp: holds_region_def rest_of_def)
  moreover have "region_byte base (fst p + 1, sv) = region_byte base p"
    by (rule ext) (simp add: region_byte_def sv(3) rm_def)
  ultimately show ?thesis using sv(1) by blast
qed

section \<open>Writing over the wire\<close>

lemma length_patch [simp]: "length (patch off x d) = length d"
  by (simp add: patch_def Let_def)

lemma nth_patch:
  assumes "off + length x \<le> length d" "i < length d"
  shows "patch off x d ! i = (if off \<le> i \<and> i < off + length x then x ! (i - off) else d ! i)"
proof -
  have "min (length x) (length d - off) = length x" using assms(1) by linarith
  then have "patch off x d = take off d @ x @ drop (off + length x) d" by (simp add: patch_def Let_def)
  then show ?thesis using assms by (auto simp: nth_append min_def)
qed

lemma in_update_other: "(r, x) \<in> set (AList.update k v al) \<Longrightarrow> r \<noteq> k \<Longrightarrow> (r, x) \<in> set al"
  by (induction al) (auto split: if_splits)

lemma fills_insert:
  assumes "fills base d rm" "length e = length d"
  shows "fills base e (reg_insert base e rm)"
proof -
  have "r = base \<or> r + length x \<le> base \<and> r < base \<or> base + length e \<le> r"
    if "(r, x) \<in> set (AList.update base e (rm_regs rm))" for r x
  proof (cases "r = base")
    case False
    then have "(r, x) \<in> set (rm_regs rm)" using that in_update_other by metis
    then show ?thesis using assms by (auto simp: fills_def)
  qed simp
  then show ?thesis using assms by (auto simp: fills_def reg_insert_def update_conv' intro: AList.distinct_update)
qed

lemma rest_of_insert: "rest_of base (reg_insert base e rm) = rest_of base rm"
  by (simp add: rest_of_def reg_insert_def AList.delete_update_same)

text \<open>A write by the controller inside a plain register changes that register and nothing else.\<close>

lemma write_checked_plain:
  assumes "rm_controller rm = Some app" "fills base d rm" "plain_region base (length d)"
    "base \<le> a" "a + length x \<le> base + length d" "x \<noteq> []"
  shows "write_checked now app a x rm = (None, None, reg_insert base (patch (a - base) x d) rm)"
proof -
  have pos: "0 < length x" using assms(6) by simp
  have ne: "a \<noteq> r" if "r \<in> set special_registers" for r
    using plain_region_apart(1) [OF assms(3-5) pos that] .
  then have ne': "a \<noteq> CONTROL_CHANNEL_PRIVILEGE" "a \<noteq> STREAM_SIZE_REGISTER" "a \<noteq> REG_EVENT_NOTIFICATION"
    "a \<noteq> REG_CHUNK_ENABLE" "a \<noteq> REG_BINNING_HORIZONTAL" "a \<noteq> REG_BINNING_VERTICAL" "a \<noteq> REG_TIMESTAMP_LATCH"
    "a \<noteq> REG_USER_SET_LOAD" "a \<noteq> REG_USER_SET_SAVE" "a \<noteq> REG_TRIGGER_SOFTWARE" "a \<noteq> REG_ACQ_START" "a \<noteq> REG_ACQ_STOP"
    by (simp_all add: special_registers_def WRITE_ONLY_REGISTERS_def)
  have "reg_write a x rm = reg_insert base (patch (a - base) x d) rm"
    using ne' write_stored_fills [OF assms(2,4,5,6)]
    by (simp add: reg_write_def strip_packet_size_def clamp_packet_size_def Let_def split: option.split)
  then show ?thesis
    using ne' assms(1)
    by (simp add: write_checked_def may_access_def check_acquisition_def handle_special_write_def Let_def)
qed

lemma region_write_law:
  assumes "holds_region app base len rest p" "base \<le> a" "a + length x \<le> region_limit base len" "a mod 4 = 0"
    "length x mod 4 = 0" "x \<noteq> []" "length x \<le> 508"
  shows "\<exists>p' q. camera_peer clock app (command_of WriteMem rid (put_u32 (word_of_nat a) @ x)) p = ([success_ack WriteMem rid q], p') \<and>
      length q \<le> 4 \<and> holds_region app base len rest p' \<and> region_byte base p' = overwrite a x (region_byte base p)"
proof -
  define now where "now = clock (fst p)"
  define rm where "rm = sv_regs (snd p)"
  let ?rm = "rm\<lparr>rm_last_register_command := now\<rparr>"
  obtain d where hold: "prompt (snd p)" "rm_controller rm = Some app" "\<not> rm_enforce_heartbeat rm"
      "rm_pending_test_packet rm = None" "fills base d rm" "length d = len" "rest_of base rm = rest"
    using assms(1) by (auto simp: holds_region_def rm_def Let_def)
  have plain: "plain_region base (length d)" and lim: "a + length x \<le> base + length d"
    using assms(3,6) hold(6) by (auto simp: region_limit_def split: if_splits)
  have small: "a < 2 ^ 32" using plain lim assms(6) by (cases x) (auto simp: plain_region_def)
  have f: "fills base d ?rm" using hold(5) by (simp add: fills_last_command)
  let ?new = "patch (a - base) x d" let ?rm' = "reg_insert base ?new ?rm"
  have w: "write_checked now app a x ?rm = (None, None, ?rm')"
    using write_checked_plain [OF _ f plain assms(2) lim assms(6)] hold(2) by simp
  have run: "run_command now app WriteMem rid (put_u32 (word_of_nat a) @ x) ?rm =
      (Some (success_ack WriteMem rid (put_u32 (word_of_nat a)), None), [], ?rm')"
  proof -
    have at: "unat (be_word (take 4 (put_u32 (word_of_nat a) @ x)) :: u32) = a" "drop 4 (put_u32 (word_of_nat a) @ x) = x"
      using small by (simp_all add: unat_of_nat_small)
    have "take_test_packet now ?rm' = (None, ?rm')"
      using hold(4) by (simp add: take_test_packet_def reg_insert_def)
    then show ?thesis
      using assms(4-6) w unfolding run_command_def handle_writemem_def Let_def at
      by (simp add: build_ack_success)
  qed
  have short: "length (put_u32 (word_of_nat a) @ x) \<le> 1024" using assms(7) by simp
  have noted: "note_register_command now app (sv_regs (snd p)) = (False, ?rm)"
    using note_controller [OF hold(2,3)] by (simp add: rm_def)
  from camera_serves [where clock = clock and p = p, OF hold(1) short now_def [symmetric] noted run] obtain sv where
    sv: "camera_peer clock app (command_of WriteMem rid (put_u32 (word_of_nat a) @ x)) p =
      ([success_ack WriteMem rid (put_u32 (word_of_nat a))], fst p + 1, sv)" "prompt sv" "sv_regs sv = ?rm'" by blast
  have f': "fills base ?new ?rm'" by (rule fills_insert [OF f]) simp
  have "holds_region app base len rest (fst p + 1, sv)"
    using sv(2,3) hold f' rest_of_insert [of base ?new ?rm]
    by (auto simp: holds_region_def Let_def reg_insert_def rest_of_def)
  moreover have "region_byte base (fst p + 1, sv) = overwrite a x (region_byte base p)"
  proof
    fix i
    have m: "map_of (rm_regs rm) base = Some d" "map_of (rm_regs ?rm') base = Some ?new"
      using hold(5) f' by (simp_all add: fills_def)
    have n: "a - base + length x \<le> length d" using assms(2) lim by linarith
    show "region_byte base (fst p + 1, sv) i = overwrite a x (region_byte base p) i"
      using nth_patch [OF n, of "i - base"] m assms(2) lim
      by (auto simp: region_byte_def sv(3) overwrite_def simp flip: rm_def)
  qed
  moreover have "length (put_u32 (word_of_nat a)) \<le> 4" by simp
  ultimately show ?thesis using sv(1) by blast
qed

interpretation region: writable_memory "camera_peer clock app" "region_byte base" "holds_region app base len rest"
    base "region_limit base len"
  for clock :: "nat \<Rightarrow> instant" and app base len rest
proof
  show "region_limit base len \<le> 2 ^ 32" by (simp add: region_limit_def plain_region_def)
qed (use region_read_law [where clock = clock and app = app and base = base and len = len and rest = rest]
      region_write_law [where clock = clock and app = app and base = base and len = len and rest = rest] in simp_all)

end
