(* ===== verification/Fake_Link.thy ===== *)
theory Fake_Link
  imports Fake_Camera
begin

text \<open>
  Host and in-process camera together: the XML blob is downloaded exactly, a write changes exactly
  its bytes of a plain register and is read back, and control is granted or refused.
\<close>

section \<open>Example camera\<close>

definition example_registers :: register_map where
  "example_registers =
     \<lparr>rm_regs = [(CONTROL_CHANNEL_PRIVILEGE, put_u32 2), (REG_DEVICE_USER_ID, replicate 16 0)],
      rm_xml_blob = [60, 63, 120, 109, 108], rm_clock_origin = 0, rm_enabled_events = [], rm_enabled_chunks = [],
      rm_last_register_command = 0, rm_controller = Some (1, 2), rm_enforce_heartbeat = False,
      rm_max_packet_size = None, rm_max_on_wire = None, rm_pending_test_packet = None, rm_user_sets = [],
      rm_pending_frame_triggers = 0, rm_software_triggers = 0, rm_binning = (1, 1)\<rparr>"

definition example_camera :: server where
  "example_camera =
     \<lparr>sv_regs = example_registers, sv_retention = retention_new 4, sv_refuse = None, sv_delayed_acks = [],
      sv_in_flight = [], sv_commands = [], sv_discoveries = [], sv_expiries = 0, sv_actions = 0,
      sv_action_commands = True, sv_link_down = False, sv_identity = identity_default, sv_bind_ip = 0x7F000001\<rparr>"

lemma example_prompt: "prompt example_camera"
  by (simp add: prompt_def example_camera_def)

section \<open>The XML description\<close>

lemma up4_mono: "m \<le> n \<Longrightarrow> up4 m \<le> up4 n"
  using up4_le [OF up4_bounds(3), of m n] up4_bounds(1) [of n] by linarith

text \<open>
  C21. The XML description is downloaded byte for byte: a read of any length from any aligned offset
  of the camera's blob, split into blocks of at most 512 bytes and padded to whole words, returns
  exactly the bytes of the blob.
\<close>
theorem xml_blob_downloaded:
  assumes "idle c" and "holds_blob app blob (sk_peer c)" and "length blob \<le> 0x10000"
    and "off mod 4 = 0" and "off + n \<le> length blob"
  shows "\<exists>c'. read_mem (camera_peer clock app) (XML_BLOB_BASE + off) n c = (Ok (take n (drop off blob)), c')"
proof -
  have al: "(XML_BLOB_BASE + off) mod 4 = 0" using assms(4) by (simp add: XML_BLOB_BASE_def mod_add_eq [symmetric])
  have "XML_BLOB_BASE + off + up4 n \<le> blob_limit blob"
    using up4_mono [of "XML_BLOB_BASE + off + n" "XML_BLOB_BASE + length blob"] up4_add [OF al, of n] assms(3,5)
    by (simp add: blob_limit_def)
  moreover have "blob.linked blob app (blob_byte blob) c" using assms(1,2) by (simp add: blob.linked_def)
  ultimately obtain c' where r: "read_mem (camera_peer clock app) (XML_BLOB_BASE + off) n c =
      (Ok (map (blob_byte blob) [XML_BLOB_BASE + off..<XML_BLOB_BASE + off + n]), c')"
    using blob.read_mem_exact [where clock = clock] al by (metis le_add1)
  have "map (blob_byte blob) [XML_BLOB_BASE + off..<XML_BLOB_BASE + off + n] = take n (drop off blob)"
    using assms(5) by (intro nth_equalityI) (auto simp: blob_byte_def)
  then show ?thesis using r by simp
qed

lemma xml_blob_downloaded_witness:
  "\<exists>c'. read_mem (camera_peer (\<lambda>n. n) (1, 2)) (XML_BLOB_BASE + 4) 1 (open_device False (0, example_camera)) = (Ok [108], c')"
proof -
  have "holds_blob (1, 2) [60, 63, 120, 109, 108] (0, example_camera)"
    using example_prompt by (simp add: holds_blob_def readable_def) (simp add: example_camera_def example_registers_def)
  then show ?thesis
    using xml_blob_downloaded [of "open_device False (0, example_camera)" "(1, 2)" "[60, 63, 120, 109, 108]" 4 1 "\<lambda>n. n"]
    by (simp add: open_device_def idle_def)
qed

section \<open>Registers\<close>

text \<open>
  C22. A write is exact and is read back: the controlling application writes any bytes anywhere inside
  a plain register of the camera (unaligned start, any length, several WRITEMEMs with the surrounding
  words read first); afterwards the register holds the new bytes there and its old bytes elsewhere,
  nothing else of the camera's store has changed, and reading the register returns what it holds.
\<close>
theorem register_write_exact:
  assumes "idle c" and "holds_region app base len rest (sk_peer c)" and "plain_region base len" and "len mod 4 = 0"
    and "base \<le> addr" and "addr + length d \<le> base + len"
  shows "\<exists>c1 c2. write_mem (camera_peer clock app) addr d c = (Ok (), c1) \<and>
    holds_region app base len rest (sk_peer c1) \<and>
    read_mem (camera_peer clock app) base len c1 =
      (Ok (map (overwrite addr d (region_byte base (sk_peer c))) [base..<base + len]), c2)"
proof -
  let ?m = "overwrite addr d (region_byte base (sk_peer c))"
  have b4: "base mod 4 = 0" and lim: "region_limit base len = base + len"
    using assms(3) by (simp_all add: plain_region_def region_limit_def)
  have start: "base \<le> addr - addr mod 4" using assms(5) b4 by presburger
  have b: "(base + len) mod 4 = 0" using b4 assms(4) by presburger
  have stop: "up4 (addr + length d) \<le> region_limit base len" unfolding lim by (rule up4_le [OF b assms(6)])
  have "region.linked base app len rest (region_byte base (sk_peer c)) c"
    using assms(1,2) by (simp add: region.linked_def)
  from region.write_mem_exact [where clock = clock, OF this start stop] obtain c1 where
    c1: "write_mem (camera_peer clock app) addr d c = (Ok (), c1)" "region.linked base app len rest ?m c1" by blast
  have "base + up4 len \<le> region_limit base len" using assms(4) by (simp add: lim)
  from region.read_mem_exact [where clock = clock, OF c1(2) le_refl this b4] obtain c2 where
    "read_mem (camera_peer clock app) base len c1 = (Ok (map ?m [base..<base + len]), c2)" by blast
  then show ?thesis using c1 by (auto simp: region.linked_def)
qed

lemma example_region:
  "holds_region (1, 2) REG_DEVICE_USER_ID 16 (rest_of REG_DEVICE_USER_ID example_registers) (0, example_camera)"
  using example_prompt
  by (simp add: holds_region_def fills_def Let_def)
    (simp add: example_camera_def example_registers_def CONTROL_CHANNEL_PRIVILEGE_def REG_DEVICE_USER_ID_def XML_BLOB_BASE_def)

lemma register_write_exact_witness:
  "\<exists>c1 c2. write_mem (camera_peer (\<lambda>n. n) (1, 2)) 0x20403 [67, 97, 109] (open_device False (0, example_camera)) = (Ok (), c1) \<and>
    read_mem (camera_peer (\<lambda>n. n) (1, 2)) 0x20400 16 c1 = (Ok ([0, 0, 0, 67, 97, 109] @ replicate 10 0), c2)"
proof -
  have pl: "plain_region REG_DEVICE_USER_ID 16"
    by (simp add: plain_region_def special_defs REG_DEVICE_USER_ID_def)
  have m: "map (overwrite 0x20403 [67, 97, 109] (region_byte REG_DEVICE_USER_ID (0, example_camera))) [0x20400..<0x20400 + 16] =
      [0, 0, 0, 67, 97, 109] @ replicate 10 0"
    by (simp add: upt_rec overwrite_def region_byte_def example_camera_def example_registers_def
        CONTROL_CHANNEL_PRIVILEGE_def REG_DEVICE_USER_ID_def)
      (simp add: numeral_eq_Suc)
  have i: "idle (open_device False (0, example_camera))" by (simp add: open_device_def idle_def)
  have p: "sk_peer (open_device False (0 :: nat, example_camera)) = (0, example_camera)" by (simp add: open_device_def)
  from register_write_exact [OF i _ pl, unfolded p, OF example_region, of "0x20403" "[67, 97, 109]" "\<lambda>n. n"] m
  show ?thesis by (auto simp: REG_DEVICE_USER_ID_def)
qed

section \<open>Control privilege\<close>

text \<open>Somebody else holds control, and keeps its heartbeat.\<close>

definition held_by_other :: "instant \<Rightarrow> socket_addr \<Rightarrow> register_map \<Rightarrow> bool" where
  "held_by_other now app rm \<longleftrightarrow> (\<exists>owner. rm_controller rm = Some owner \<and> owner \<noteq> app) \<and> \<not> overdue now rm"

definition granted :: "instant \<Rightarrow> socket_addr \<Rightarrow> u32 \<Rightarrow> register_map \<Rightarrow> register_map" where
  "granted now app v rm = reg_insert CONTROL_CHANNEL_PRIVILEGE (put_u32 v)
     (rm\<lparr>rm_controller := Some app, rm_last_register_command := now\<rparr>)"

lemma ccp_run:
  assumes "rm_pending_test_packet rm = None" "v AND (CCP_CONTROL OR CCP_EXCLUSIVE) \<noteq> 0" "op = WriteRegister \<or> op = WriteMem"
  shows "\<exists>owner. rm_controller rm = Some owner \<and> owner \<noteq> app \<Longrightarrow>
      run_command now app op rid (put_u32 (word_of_nat CONTROL_CHANNEL_PRIVILEGE) @ put_u32 v) rm =
        (Some (build_error_ack (ack_code op) rid STATUS_ACCESS_DENIED, None), [], rm)"
    and "rm_controller rm = None \<or> rm_controller rm = Some app \<Longrightarrow>
      run_command now app op rid (put_u32 (word_of_nat CONTROL_CHANNEL_PRIVILEGE) @ put_u32 v) rm =
        (Some (success_ack op rid (if op = WriteRegister then [0, 0, 0, 0] else put_u32 (word_of_nat CONTROL_CHANNEL_PRIVILEGE)), None),
         [], granted now app v rm)"
proof -
  let ?b = "put_u32 (word_of_nat CONTROL_CHANNEL_PRIVILEGE) @ put_u32 v"
  have none: "put_u32 w \<noteq> []" for w by (cases "put_u32 w") (use length_put(2) [of w] in auto)
  have c: "chunks_of 8 ?b = [?b]" by (subst chunks_of.simps) (simp add: chunks_of.simps none)
  have f: "unat (be_word (take 4 ?b) :: u32) = CONTROL_CHANNEL_PRIVILEGE" "drop 4 ?b = put_u32 v" "length ?b = 8"
    by (simp_all add: CONTROL_CHANNEL_PRIVILEGE_def)
  have al: "CONTROL_CHANNEL_PRIVILEGE mod 4 = 0" by (simp add: CONTROL_CHANNEL_PRIVILEGE_def)
  have w: "write_checked now app CONTROL_CHANNEL_PRIVILEGE (put_u32 v) rm =
      (case write_ccp now app v rm of (True, rm) \<Rightarrow> (None, None, rm) | (False, rm) \<Rightarrow> (Some STATUS_ACCESS_DENIED, None, rm))"
    by (simp add: write_checked_def)
  show "run_command now app op rid ?b rm = (Some (build_error_ack (ack_code op) rid STATUS_ACCESS_DENIED, None), [], rm)"
    if "\<exists>owner. rm_controller rm = Some owner \<and> owner \<noteq> app"
  proof -
    have "write_ccp now app v rm = (False, rm)" using that by (auto simp: write_ccp_def)
    then show ?thesis
      using assms(3) al none unfolding run_command_def handle_writereg_def handle_writemem_def c f Let_def
      by (elim disjE) (simp_all only: f w writereg_loop.simps op_code.case split: prod.split, simp_all)
  qed
  show "run_command now app op rid ?b rm =
        (Some (success_ack op rid (if op = WriteRegister then [0, 0, 0, 0] else put_u32 (word_of_nat CONTROL_CHANNEL_PRIVILEGE)), None),
         [], granted now app v rm)"
    if "rm_controller rm = None \<or> rm_controller rm = Some app"
  proof -
    have g: "write_ccp now app v rm = (True, granted now app v rm)"
      using that assms(2) by (auto simp: write_ccp_def granted_def)
    have t: "take_test_packet now (granted now app v rm) = (None, granted now app v rm)"
      using assms(1) by (simp add: take_test_packet_def granted_def reg_insert_def)
    show ?thesis
      using assms(3) al none g t unfolding run_command_def handle_writereg_def handle_writemem_def c f Let_def
      by (elim disjE) (simp_all only: f w writereg_loop.simps op_code.case split: prod.split, simp_all add: build_ack_success)
  qed
qed

lemma note_free:
  assumes "\<not> held_by_other now app rm" "note_register_command now app rm = (revoked, rm')"
  shows "rm_controller rm' = None \<or> rm_controller rm' = Some app" "rm_pending_test_packet rm' = rm_pending_test_packet rm"
  using assms by (cases "rm_controller rm"; auto simp: note_register_command_def held_by_other_def overdue_def
      revoke_control_def reg_insert_def Let_def split: if_splits)+

text \<open>One write of the control privilege over the wire, with either command.\<close>

lemma ccp_over_wire:
  fixes clock :: "nat \<Rightarrow> instant" and c :: "(nat \<times> server) control"
  assumes "idle c" "prompt (snd (sk_peer c))" "rm_pending_test_packet (sv_regs (snd (sk_peer c))) = None"
    "v AND (CCP_CONTROL OR CCP_EXCLUSIVE) \<noteq> 0" "op = WriteRegister \<or> op = WriteMem"
  defines "now \<equiv> clock (fst (sk_peer c))" and "rm \<equiv> sv_regs (snd (sk_peer c))"
    and "body \<equiv> put_u32 (word_of_nat CONTROL_CHANNEL_PRIVILEGE) @ put_u32 v"
  shows "held_by_other now app rm \<Longrightarrow>
      \<exists>c'. transact_with_retry (camera_peer clock app) op body c = (Err (Status (Common AccessDenied)), c') \<and>
        sv_regs (snd (sk_peer c')) = rm"
    and "\<not> held_by_other now app rm \<Longrightarrow>
      \<exists>ack c'. transact_with_retry (camera_peer clock app) op body c = (Ok ack, c') \<and> length (ack_payload ack) = 4 \<and>
        holds app (sv_regs (snd (sk_peer c')))"
proof -
  have short: "length body \<le> 1024" by (simp add: body_def)
  note serves = camera_serves [where clock = clock and p = "sk_peer c", OF assms(2) short now_def [symmetric, THEN meta_eq_to_obj_eq], folded rm_def]
  have pend: "rm_pending_test_packet rm = None" using assms(3) by (simp add: rm_def)
  have denied: "gige_from_raw STATUS_ACCESS_DENIED = Common AccessDenied"
    by (simp add: STATUS_ACCESS_DENIED_def gige_from_raw_def ts_from_raw_def gige_rows_def status_from_raw_def)
  show "\<exists>c'. transact_with_retry (camera_peer clock app) op body c = (Err (Status (Common AccessDenied)), c') \<and>
      sv_regs (snd (sk_peer c')) = rm" if held: "held_by_other now app rm"
  proof -
    obtain owner where o: "holds owner rm" "app \<noteq> owner" "\<not> overdue now rm"
      using held by (auto simp: held_by_other_def holds_def)
    have "\<exists>owner. rm_controller rm = Some owner \<and> owner \<noteq> app" using o by (auto simp: holds_def)
    note run = ccp_run(1) [OF pend assms(4,5) this, of now "gd_request_id c", folded body_def]
    from serves [OF note_by_other [OF o] run] obtain sv where
      sv: "camera_peer clock app (command_of op (gd_request_id c) body) (sk_peer c) =
        ([build_error_ack (ack_code op) (gd_request_id c) STATUS_ACCESS_DENIED], (fst (sk_peer c) + 1, sv))"
      "sv_regs sv = rm" by blast
    have "\<not> ts_is_success (gige_from_raw STATUS_ACCESS_DENIED)" "\<not> ts_is_retryable (gige_from_raw STATUS_ACCESS_DENIED)"
      by (simp_all add: denied)
    from transact_refused [where peer = "camera_peer clock app", OF assms(1) sv(1) [unfolded build_error_ack_def] this]
    show ?thesis using sv(2) by (auto simp: denied)
  qed
  show "\<exists>ack c'. transact_with_retry (camera_peer clock app) op body c = (Ok ack, c') \<and> length (ack_payload ack) = 4 \<and>
      holds app (sv_regs (snd (sk_peer c')))" if free: "\<not> held_by_other now app rm"
  proof -
    obtain revoked rm1 where n: "note_register_command now app rm = (revoked, rm1)" by fastforce
    have rm1: "rm_controller rm1 = None \<or> rm_controller rm1 = Some app" "rm_pending_test_packet rm1 = None"
      using note_free [OF free n] pend by simp_all
    let ?q = "if op = WriteRegister then [0, 0, 0, 0] else put_u32 (word_of_nat CONTROL_CHANNEL_PRIVILEGE)"
    note run = ccp_run(2) [OF rm1(2) assms(4,5) rm1(1), of now "gd_request_id c", folded body_def]
    from serves [OF n run] obtain sv where
      sv: "camera_peer clock app (command_of op (gd_request_id c) body) (sk_peer c) =
        ([success_ack op (gd_request_id c) ?q], (fst (sk_peer c) + 1, sv))" "sv_regs sv = granted now app v rm1" by blast
    have q: "length ?q \<le> 512 + 4" "length ?q = 4" by simp_all
    from transact_answered [where peer = "camera_peer clock app", OF assms(1) q(1) sv(1)] obtain ack c' where
      "transact_with_retry (camera_peer clock app) op body c = (Ok ack, c')" "ack_payload ack = ?q"
      "sk_peer c' = (fst (sk_peer c) + 1, sv)" by blast
    then show ?thesis using sv(2) q(2) by (auto simp: holds_def granted_def reg_insert_def)
  qed
qed

text \<open>The host writes the word with WRITEREG, or with one WRITEMEM.\<close>

lemma write_ccp_host:
  "write_u32 peer CONTROL_CHANNEL_PRIVILEGE v c =
     (if gd_memory_access_only c then
        bind (transact_with_retry peer WriteMem (put_u32 (word_of_nat CONTROL_CHANNEL_PRIVILEGE) @ put_u32 v) c) (\<lambda>ack c.
          if length (ack_payload ack) > 4 then (Err (AckLength ''WRITEMEM'' 4 (length (ack_payload ack))), c) else (Ok (), c))
      else write_register_or_mem peer CONTROL_CHANNEL_PRIVILEGE (put_u32 v) c)"
proof (cases "gd_memory_access_only c")
  case True
  let ?a = CONTROL_CHANNEL_PRIVILEGE let ?d = "put_u32 v"
  have one: "single_register_address ?a (length ?d) = Some (word_of_nat ?a)"
    by (simp add: single_register_address_def CONTROL_CHANNEL_PRIVILEGE_def)
  have mem: "write_mem peer ?a ?d c = write_mem_words peer ?a ?d c"
    by (simp add: write_mem_def Let_def up4_def CONTROL_CHANNEL_PRIVILEGE_def)
  have w: "WRITE_CHUNK = 508" by (simp add: WRITE_CHUNK_def GENCP_MAX_BLOCK_def GVCP_WRITE_OVERHEAD_def)
  have "write_mem_words peer ?a ?d c = bind (write_mem_chunk peer ?a ?d c) (\<lambda>_ c'. (Ok (), c'))"
  proof -
    have stop: "write_words_loop peer ?a ?d 4 = (\<lambda>c. (Ok (), c))"
      by (rule ext) (subst write_words_loop.simps, simp)
    show ?thesis unfolding write_mem_words_def by (subst write_words_loop.simps) (simp add: w stop)
  qed
  also have "\<dots> = write_mem_chunk peer ?a ?d c"
    by (cases "write_mem_chunk peer ?a ?d c") (simp add: bind_def split: result.split)
  finally show ?thesis
    using True one mem by (simp add: write_u32_def write_register_or_mem_def write_mem_chunk_def CONTROL_CHANNEL_PRIVILEGE_def)
qed (simp add: write_u32_def)

text \<open>
  Claiming control: the claim of an application is refused with \<open>AccessDenied\<close>, and the camera's
  registers stay as they were, exactly when another application holds control and its heartbeat has
  not run out; otherwise the claim succeeds and the application holds control afterwards, also when
  it takes over from one whose heartbeat has run out. It holds for both access modes of the claim and
  for both commands the host may use.
\<close>
theorem claim_control_decided:
  assumes "idle c" and "prompt (snd (sk_peer c))" and "rm_pending_test_packet (sv_regs (snd (sk_peer c))) = None"
  shows "if held_by_other (clock (fst (sk_peer c))) app (sv_regs (snd (sk_peer c)))
    then \<exists>c'. claim_control (camera_peer clock app) c = (Err (Status (Common AccessDenied)), c') \<and>
      sv_regs (snd (sk_peer c')) = sv_regs (snd (sk_peer c))
    else \<exists>c'. claim_control (camera_peer clock app) c = (Ok (), c') \<and> rm_controller (sv_regs (snd (sk_peer c'))) = Some app"
proof -
  define v where "v = (if gd_exclusive_access c then CCP_EXCLUSIVE else CCP_CONTROL)"
  have v: "v AND (CCP_CONTROL OR CCP_EXCLUSIVE) \<noteq> 0" by (simp add: v_def CCP_CONTROL_def CCP_EXCLUSIVE_def)
  define op where "op = (if gd_memory_access_only c then WriteMem else WriteRegister)"
  have op: "op = WriteRegister \<or> op = WriteMem" by (simp add: op_def)
  have one: "single_register_address CONTROL_CHANNEL_PRIVILEGE 4 = Some (word_of_nat CONTROL_CHANNEL_PRIVILEGE)"
    by (simp add: single_register_address_def CONTROL_CHANNEL_PRIVILEGE_def)
  have host: "claim_control (camera_peer clock app) c = write_u32 (camera_peer clock app) CONTROL_CHANNEL_PRIVILEGE v c"
    by (simp add: claim_control_def v_def)
  note wire = ccp_over_wire [where clock = clock and app = app, OF assms v op]
  show ?thesis
  proof (cases "held_by_other (clock (fst (sk_peer c))) app (sv_regs (snd (sk_peer c)))")
    case True
    from wire(1) [OF True] show ?thesis
      using True by (auto simp: host write_ccp_host op_def write_register_or_mem_def one write_register_def split: if_splits)
  next
    case False
    from wire(2) [OF False] show ?thesis
      using False by (auto simp: host write_ccp_host op_def write_register_or_mem_def one write_register_def holds_def split: if_splits)
  qed
qed

lemma claim_control_decided_witness:
  "\<exists>c'. claim_control (camera_peer (\<lambda>n. n) (7, 7)) (open_device False (0, example_camera)) =
    (Err (Status (Common AccessDenied)), c')"
proof -
  have "held_by_other 0 (7, 7) example_registers"
    by (simp add: held_by_other_def overdue_def) (simp add: example_registers_def)
  moreover have "rm_pending_test_packet example_registers = None" by (simp add: example_registers_def)
  moreover have "sv_regs example_camera = example_registers" by (simp add: example_camera_def)
  moreover have "sk_peer (open_device False (0 :: nat, example_camera)) = (0, example_camera)" "idle (open_device False (0 :: nat, example_camera))"
    by (simp_all add: open_device_def idle_def)
  ultimately show ?thesis
    using claim_control_decided [of "open_device False (0, example_camera)" "\<lambda>n. n" "(7, 7)"] example_prompt by auto
qed

end
