(* ===== verification/Nodes.thy ===== *)
theory Nodes
  imports Conversions Formula_Parser
begin

text \<open>
  The declarations of a camera description and the nodes built from them: the data of
  \<^verbatim>\<open>crates/viva-genapi-xml/src/lib.rs\<close> (what the XML layer hands over) and of
  \<^verbatim>\<open>crates/viva-genapi/src/nodes.rs\<close> (what the node map keeps). The interior-mutable cells of a
  node (caches, values written to floating nodes) are not here: they are the state of the node map,
  keyed by node name. The fields of a node record carry a prefix per kind of node. A node and its
  declaration differ only in the invalidators, which the build turns into dependencies, so such a
  declaration extends its node's record.
\<close>

section \<open>What the XML layer hands over\<close>

datatype enum_value_src = EnumLiteral i64 | EnumFromNode string

datatype command_value_src = CommandLiteral i64 | CommandFromNode string

datatype 'v indexed_src = IndexedLiteral 'v | IndexedFromNode string

record 'v indexed_entry =
  ie_index :: i64
  ie_value :: "'v indexed_src"

record 'v indexed_value =
  iv_index :: string
  iv_entries :: "'v indexed_entry list"
  iv_default :: "'v indexed_src option"

definition src_node :: "'v indexed_src \<Rightarrow> string option" where
  "src_node s = (case s of IndexedLiteral _ \<Rightarrow> None | IndexedFromNode n \<Rightarrow> Some n)"

definition push_new :: "'a \<Rightarrow> 'a list \<Rightarrow> 'a list" where
  "push_new x xs = (if x \<in> set xs then xs else xs @ [x])"

definition value_nodes :: "'v indexed_value \<Rightarrow> string list" where
  "value_nodes iv =
     fold (\<lambda>src nodes. case src of IndexedFromNode n \<Rightarrow> push_new n nodes | IndexedLiteral _ \<Rightarrow> nodes)
       (map ie_value (iv_entries iv) @ (case iv_default iv of Some d \<Rightarrow> [d] | None \<Rightarrow> [])) []"

definition indexed_referenced_nodes :: "'v indexed_value \<Rightarrow> string list" where
  "indexed_referenced_nodes iv = iv_index iv # value_nodes iv"

record predicate_refs =
  p_is_implemented :: "string option"
  p_is_available :: "string option"
  p_is_locked :: "string option"

definition opt_list :: "'a option \<Rightarrow> 'a list" where
  "opt_list x = (case x of Some v \<Rightarrow> [v] | None \<Rightarrow> [])"

definition references :: "predicate_refs \<Rightarrow> string list" where
  "references p = concat (map opt_list [p_is_implemented p, p_is_available p, p_is_locked p])"

definition predicates_empty :: "predicate_refs \<Rightarrow> bool" where
  "predicates_empty p \<longleftrightarrow> p_is_implemented p = None \<and> p_is_available p = None \<and> p_is_locked p = None"

record enum_entry_decl =
  ee_name :: string
  ee_value :: enum_value_src
  ee_display_name :: "string option"
  ee_predicates :: predicate_refs
  ee_is_self_clearing :: bool

datatype visibility = Beginner | Expert | Guru | Invisible

datatype representation =
  RLinear | RLogarithmic | RPureNumber | RBoolean | RHexNumber | RIPV4Address | RMACAddress

datatype access_mode = RO | WO | RW

datatype caching_mode = NoCache | WriteThrough | WriteAround

record node_meta =
  m_visibility :: visibility
  m_description :: "string option"
  m_tooltip :: "string option"
  m_display_name :: "string option"
  m_representation :: "representation option"
  m_imposed_access :: "access_mode option"
  m_streamable :: bool
  m_cachable :: "caching_mode option"
  m_polling_time_ms :: "u64 option"
  m_ignored :: "string list"

text \<open>The more restrictive of two caching modes.\<close>

definition mode_combine :: "caching_mode \<Rightarrow> caching_mode \<Rightarrow> caching_mode" where
  "mode_combine a b =
     (if a = NoCache \<or> b = NoCache then NoCache
      else if a = WriteAround \<or> b = WriteAround then WriteAround
      else WriteThrough)"

definition capped_by :: "access_mode \<Rightarrow> access_mode option \<Rightarrow> access_mode option" where
  "capped_by a ceiling =
     (case ceiling of
        None \<Rightarrow> Some a
      | Some RW \<Rightarrow> Some a
      | Some c \<Rightarrow> if (a = WO \<and> c = RO) \<or> (a = RO \<and> c = WO) then None else Some c)"

datatype index_offset = OffsetFixed u64 | OffsetNode string | OffsetLength

datatype address_term = TermFixed i64 | TermNode string | TermIndex string index_offset

record addressing =
  ad_terms :: "address_term list"
  ad_len :: u32
  ad_port :: "string option"
  ad_p_length :: "string option"

definition addressing_fixed :: "i64 \<Rightarrow> u32 \<Rightarrow> addressing" where
  "addressing_fixed address len =
     \<lparr>ad_terms = [TermFixed address], ad_len = len, ad_port = None, ad_p_length = None\<rparr>"

definition term_nodes :: "address_term \<Rightarrow> string list" where
  "term_nodes t =
     (case t of
        TermFixed _ \<Rightarrow> []
      | TermNode n \<Rightarrow> [n]
      | TermIndex n off \<Rightarrow> (case off of OffsetNode stride \<Rightarrow> [n, stride] | _ \<Rightarrow> [n]))"

definition addressing_referenced_nodes :: "addressing \<Rightarrow> string list" where
  "addressing_referenced_nodes a = concat (map term_nodes (ad_terms a)) @ opt_list (ad_p_length a)"

datatype float_encoding = Ieee754 | ScaledInteger

datatype sk_output = SkInteger | SkFloat

datatype slope = Increasing | Decreasing | Varying | Automatic

record formula_bindings =
  fb_constants :: "(string \<times> string) list"
  fb_expressions :: "(string \<times> string) list"

datatype port_kind = PortDevice | PortChunk u64 | PortEvent u64

section \<open>Nodes\<close>

record integer_node =
  i_name :: string
  i_meta :: node_meta
  i_addressing :: "addressing option"
  i_len :: u32
  i_access :: access_mode
  i_min :: "i64 option"
  i_max :: "i64 option"
  i_inc :: "i64 option"
  i_unit :: "string option"
  i_bitfield :: "bit_field option"
  i_sign :: sign
  i_byte_order :: byte_order
  i_selected :: "string list"
  i_pvalue :: "string option"
  i_p_max :: "string option"
  i_p_min :: "string option"
  i_p_inc :: "string option"
  i_value :: "i64 option"
  i_indexed :: "i64 indexed_value option"
  i_predicates :: predicate_refs

record 'f float_node =
  f_name :: string
  f_meta :: node_meta
  f_addressing :: "addressing option"
  f_access :: access_mode
  f_min :: "'f option"
  f_max :: "'f option"
  f_unit :: "string option"
  f_scale :: "(i64 \<times> i64) option"
  f_offset :: "'f option"
  f_pvalue :: "string option"
  f_p_min :: "string option"
  f_p_max :: "string option"
  f_value :: "'f option"
  f_indexed :: "'f indexed_value option"
  f_encoding :: float_encoding
  f_byte_order :: byte_order
  f_predicates :: predicate_refs

record enum_node =
  e_name :: string
  e_meta :: node_meta
  e_addressing :: "addressing option"
  e_access :: access_mode
  e_pvalue :: "string option"
  e_entries :: "enum_entry_decl list"
  e_default :: "string option"
  e_selected :: "string list"
  e_providers :: "string list"
  e_value :: "i64 option"
  e_predicates :: predicate_refs

record boolean_node =
  b_name :: string
  b_meta :: node_meta
  b_addressing :: "addressing option"
  b_len :: u32
  b_access :: access_mode
  b_bitfield :: "bit_field option"
  b_pvalue :: "string option"
  b_on_value :: "i64 option"
  b_off_value :: "i64 option"
  b_value :: "i64 option"
  b_predicates :: predicate_refs

record formula_var =
  v_name :: string
  v_provider :: string
  v_attr :: var_attr

record 'f sk_node =
  s_name :: string
  s_meta :: node_meta
  s_output :: sk_output
  s_ast :: "'f ast"
  s_vars :: "formula_var list"
  s_predicates :: predicate_refs

record command_node =
  c_name :: string
  c_meta :: node_meta
  c_address :: "u64 option"
  c_len :: u32
  c_pvalue :: "string option"
  c_command_value :: command_value_src
  c_predicates :: predicate_refs

record category_node =
  g_name :: string
  g_meta :: node_meta
  g_children :: "string list"
  g_predicates :: predicate_refs

text \<open>A \<open>Converter\<close> and an \<open>IntConverter\<close> differ in the output type, which only the first has.\<close>

record 'f int_converter_node =
  k_name :: string
  k_meta :: node_meta
  k_p_value :: string
  k_ast_to :: "'f ast"
  k_ast_from :: "'f ast"
  k_vars_to :: "formula_var list"
  k_vars_from :: "formula_var list"
  k_unit :: "string option"
  k_slope :: slope
  k_predicates :: predicate_refs

record 'f converter_node = "'f int_converter_node" +
  k_output :: sk_output

record string_node =
  t_name :: string
  t_meta :: node_meta
  t_addressing :: "addressing option"
  t_pvalue :: "string option"
  t_value :: "string option"
  t_access :: access_mode
  t_predicates :: predicate_refs

record register_node =
  r_name :: string
  r_meta :: node_meta
  r_addressing :: addressing
  r_access :: access_mode
  r_predicates :: predicate_refs

datatype 'f node =
    NInteger integer_node
  | NFloat "'f float_node"
  | NEnum enum_node
  | NBoolean boolean_node
  | NCommand command_node
  | NCategory category_node
  | NSwissKnife "'f sk_node"
  | NConverter "'f converter_node"
  | NIntConverter "'f int_converter_node"
  | NString string_node
  | NRegister register_node

section \<open>Declarations\<close>

record integer_decl = integer_node +
  di_invalidators :: "string list"

record 'f float_decl = "'f float_node" +
  df_invalidators :: "string list"

record enum_decl =
  de_name :: string
  de_meta :: node_meta
  de_addressing :: "addressing option"
  de_access :: access_mode
  de_entries :: "enum_entry_decl list"
  de_default :: "string option"
  de_selected :: "string list"
  de_pvalue :: "string option"
  de_value :: "i64 option"
  de_predicates :: predicate_refs

record sk_decl =
  ds_name :: string
  ds_meta :: node_meta
  ds_expr :: string
  ds_variables :: "(string \<times> string) list"
  ds_output :: sk_output
  ds_bindings :: formula_bindings
  ds_predicates :: predicate_refs

record int_converter_decl =
  dk_name :: string
  dk_meta :: node_meta
  dk_p_value :: string
  dk_formula_to :: string
  dk_formula_from :: string
  dk_variables_to :: "(string \<times> string) list"
  dk_variables_from :: "(string \<times> string) list"
  dk_bindings :: formula_bindings
  dk_unit :: "string option"
  dk_slope :: slope
  dk_predicates :: predicate_refs

record converter_decl = int_converter_decl +
  dk_output :: sk_output

record string_decl = string_node +
  dt_invalidators :: "string list"

record register_decl = register_node +
  dr_invalidators :: "string list"

datatype 'f node_decl =
    DInteger integer_decl
  | DFloat "'f float_decl"
  | DEnum enum_decl
  | DBoolean boolean_node
  | DCommand command_node
  | DCategory category_node
  | DSwissKnife sk_decl
  | DConverter converter_decl
  | DIntConverter int_converter_decl
  | DString string_decl
  | DRegister register_decl

fun decl_name :: "'f node_decl \<Rightarrow> string" where
  "decl_name (DInteger d) = i_name d"
| "decl_name (DFloat d) = f_name d"
| "decl_name (DEnum d) = de_name d"
| "decl_name (DBoolean d) = b_name d"
| "decl_name (DCommand d) = c_name d"
| "decl_name (DCategory d) = g_name d"
| "decl_name (DSwissKnife d) = ds_name d"
| "decl_name (DConverter d) = dk_name d"
| "decl_name (DIntConverter d) = dk_name d"
| "decl_name (DString d) = t_name d"
| "decl_name (DRegister d) = r_name d"

fun decl_kind :: "'f node_decl \<Rightarrow> string" where
  "decl_kind (DInteger d) = ''Integer''"
| "decl_kind (DFloat d) = ''Float''"
| "decl_kind (DEnum d) = ''Enum''"
| "decl_kind (DBoolean d) = ''Boolean''"
| "decl_kind (DCommand d) = ''Command''"
| "decl_kind (DCategory d) = ''Category''"
| "decl_kind (DSwissKnife d) = ''SwissKnife''"
| "decl_kind (DConverter d) = ''Converter''"
| "decl_kind (DIntConverter d) = ''IntConverter''"
| "decl_kind (DString d) = ''String''"
| "decl_kind (DRegister d) = ''Register''"

section \<open>What a node says of itself\<close>

fun kind_name :: "'f node \<Rightarrow> string" where
  "kind_name (NInteger n) = ''Integer''"
| "kind_name (NFloat n) = ''Float''"
| "kind_name (NEnum n) = ''Enumeration''"
| "kind_name (NBoolean n) = ''Boolean''"
| "kind_name (NCommand n) = ''Command''"
| "kind_name (NCategory n) = ''Category''"
| "kind_name (NSwissKnife n) = ''SwissKnife''"
| "kind_name (NConverter n) = ''Converter''"
| "kind_name (NIntConverter n) = ''IntConverter''"
| "kind_name (NString n) = ''StringReg''"
| "kind_name (NRegister n) = ''Register''"

fun node_access_mode :: "'f node \<Rightarrow> access_mode option" where
  "node_access_mode (NInteger n) = Some (i_access n)"
| "node_access_mode (NFloat n) = Some (f_access n)"
| "node_access_mode (NEnum n) = Some (e_access n)"
| "node_access_mode (NBoolean n) = Some (b_access n)"
| "node_access_mode (NCommand n) = Some WO"
| "node_access_mode (NCategory n) = None"
| "node_access_mode (NSwissKnife n) = Some RO"
| "node_access_mode (NConverter n) = Some RO"
| "node_access_mode (NIntConverter n) = Some RO"
| "node_access_mode (NString n) = Some (t_access n)"
| "node_access_mode (NRegister n) = Some (r_access n)"

fun node_name :: "'f node \<Rightarrow> string" where
  "node_name (NInteger n) = i_name n"
| "node_name (NFloat n) = f_name n"
| "node_name (NEnum n) = e_name n"
| "node_name (NBoolean n) = b_name n"
| "node_name (NCommand n) = c_name n"
| "node_name (NCategory n) = g_name n"
| "node_name (NSwissKnife n) = s_name n"
| "node_name (NConverter n) = k_name n"
| "node_name (NIntConverter n) = k_name n"
| "node_name (NString n) = t_name n"
| "node_name (NRegister n) = r_name n"

fun node_meta_of :: "'f node \<Rightarrow> node_meta" where
  "node_meta_of (NInteger n) = i_meta n"
| "node_meta_of (NFloat n) = f_meta n"
| "node_meta_of (NEnum n) = e_meta n"
| "node_meta_of (NBoolean n) = b_meta n"
| "node_meta_of (NCommand n) = c_meta n"
| "node_meta_of (NCategory n) = g_meta n"
| "node_meta_of (NSwissKnife n) = s_meta n"
| "node_meta_of (NConverter n) = k_meta n"
| "node_meta_of (NIntConverter n) = k_meta n"
| "node_meta_of (NString n) = t_meta n"
| "node_meta_of (NRegister n) = r_meta n"

fun node_selected :: "'f node \<Rightarrow> string list" where
  "node_selected (NInteger n) = i_selected n"
| "node_selected (NEnum n) = e_selected n"
| "node_selected _ = []"

fun node_predicates :: "'f node \<Rightarrow> predicate_refs" where
  "node_predicates (NInteger n) = i_predicates n"
| "node_predicates (NFloat n) = f_predicates n"
| "node_predicates (NEnum n) = e_predicates n"
| "node_predicates (NBoolean n) = b_predicates n"
| "node_predicates (NCommand n) = c_predicates n"
| "node_predicates (NCategory n) = g_predicates n"
| "node_predicates (NSwissKnife n) = s_predicates n"
| "node_predicates (NConverter n) = k_predicates n"
| "node_predicates (NIntConverter n) = k_predicates n"
| "node_predicates (NString n) = t_predicates n"
| "node_predicates (NRegister n) = r_predicates n"

fun node_addressing :: "'f node \<Rightarrow> addressing option" where
  "node_addressing (NInteger n) = i_addressing n"
| "node_addressing (NFloat n) = f_addressing n"
| "node_addressing (NEnum n) = e_addressing n"
| "node_addressing (NBoolean n) = b_addressing n"
| "node_addressing (NString n) = t_addressing n"
| "node_addressing (NRegister n) = Some (r_addressing n)"
| "node_addressing _ = None"

fun node_unit :: "'f node \<Rightarrow> string option" where
  "node_unit (NInteger n) = i_unit n"
| "node_unit (NFloat n) = f_unit n"
| "node_unit (NConverter n) = k_unit n"
| "node_unit (NIntConverter n) = k_unit n"
| "node_unit _ = None"

fun node_min :: "'f node \<Rightarrow> 'f fvalue option" where
  "node_min (NInteger n) = map_option VInt (i_min n)"
| "node_min (NFloat n) = map_option VFloat (f_min n)"
| "node_min _ = None"

fun node_max :: "'f node \<Rightarrow> 'f fvalue option" where
  "node_max (NInteger n) = map_option VInt (i_max n)"
| "node_max (NFloat n) = map_option VFloat (f_max n)"
| "node_max _ = None"

fun node_inc :: "'f node \<Rightarrow> 'f fvalue option" where
  "node_inc (NInteger n) = map_option VInt (i_inc n)"
| "node_inc _ = None"

text \<open>The node a node takes its value from through \<open><pValue>\<close> (\<open>nodemap.rs\<close>).\<close>

fun value_provider :: "'f node \<Rightarrow> string option" where
  "value_provider (NInteger n) = i_pvalue n"
| "value_provider (NFloat n) = f_pvalue n"
| "value_provider (NEnum n) = e_pvalue n"
| "value_provider (NBoolean n) = b_pvalue n"
| "value_provider (NCommand n) = c_pvalue n"
| "value_provider (NConverter n) = Some (k_p_value n)"
| "value_provider (NIntConverter n) = Some (k_p_value n)"
| "value_provider (NString n) = t_pvalue n"
| "value_provider _ = None"

text \<open>Every node it may take its value from: that one, or each an indexed value can select.\<close>

definition value_providers :: "'f node \<Rightarrow> string list" where
  "value_providers n =
     opt_list (value_provider n) @
     (case n of
        NInteger i \<Rightarrow> (case i_indexed i of Some iv \<Rightarrow> value_nodes iv | None \<Rightarrow> [])
      | NFloat f \<Rightarrow> (case f_indexed f of Some iv \<Rightarrow> value_nodes iv | None \<Rightarrow> [])
      | _ \<Rightarrow> [])"

section \<open>Errors\<close>

datatype access_direction = ReadAccess | WriteAccess

datatype 'f range_violation =
    BelowMin "'f fvalue" | AboveMax "'f fvalue" | OffIncrement i64 i64 | NotRepresentable

datatype 'f genapi_error =
    NodeNotFound string
  | WrongKind string string string
  | AccessRefused string access_direction
  | Locked string string
  | InvalidText string string string
  | RangeError string "'f fvalue" "'f range_violation"
  | RegisterLength string u32 nat
  | Unavailable string
  | NoValueSource string
  | NoIndexedValue string string i64
  | IoError string
  | EncodingError string nat string
  | DeclarationError string string
  | Unsupported string string
  | ExprParse string string "'f parse_error"
  | ExprEval string "'f eval_error"
  | UnknownVar string string
  | UnknownVariableExtension string string string
  | EnumValueUnknown string i64
  | EnumEntryUnavailable string string
  | EnumNoSuchEntry string string
  | NotAttached string string
  | PortNotWritable string string
  | UnknownPort string string
  | NotDeviceMemory string string
  | PortOutOfRange string string i64 u32 nat
  | BadIndirectAddress string i64
  | BadLength string string i64
  | BitfieldOutOfRange string u16 u16 nat
  | ValueTooWide string i64 u16
  | MaskedWriteUnreadable string u64

section \<open>Shared facts\<close>

lemma set_opt_list [simp]: "set (opt_list x) = set_option x"
  by (cases x) (simp_all add: opt_list_def)

lemma set_push_new [simp]: "set (push_new x xs) = insert x (set xs)"
  by (auto simp: push_new_def)

lemma distinct_push_new [simp]: "distinct (push_new x xs) \<longleftrightarrow> distinct xs"
  by (simp add: push_new_def)

lemma mode_combine_assoc: "mode_combine (mode_combine a b) c = mode_combine a (mode_combine b c)"
  by (cases a; cases b; cases c) (simp_all add: mode_combine_def)

lemma value_provider_providers: "value_provider n = Some p \<Longrightarrow> p \<in> set (value_providers n)"
  by (simp add: value_providers_def)

end
