(* ===== verification/Nodemap.thy ===== *)
theory Nodemap
  imports Nodes "HOL-Library.AList" "HOL-Library.List_Lexorder" "HOL-Library.Char_ord"
begin

text \<open>
  Building the node map from a document and the questions it answers from the declarations alone
  (\<^verbatim>\<open>crates/viva-genapi/src/nodemap.rs\<close>, \<^verbatim>\<open>nodemap/ports.rs\<close>, \<^verbatim>\<open>nodemap/refresh.rs\<close>): the
  dependency graph, the paths a value takes, the access modes declared along them, the caching mode
  resolved for each node.

  The code's \<open>nodes\<close> map and its \<open>order\<close> vector are one association list here, in document order;
  a second declaration of a name replaces the node in its place, as \<open>HashMap::insert\<close> does while
  \<open>order\<close> keeps the first position. Where the code walks a hash map in arbitrary order, the model
  walks in document order. The document's identity and the list of ignored elements, which nothing
  reads, are left out.
\<close>

section \<open>The dependency graph\<close>

type_synonym dependents = "(string \<times> string list) list"

definition dep_list :: "dependents \<Rightarrow> string \<Rightarrow> string list" where
  "dep_list deps p = (case map_of deps p of Some l \<Rightarrow> l | None \<Rightarrow> [])"

text \<open>\<open>entry(p).or_default().push(x)\<close>, without and with the check for a recorded pair.\<close>

definition push_dep :: "string \<Rightarrow> string \<Rightarrow> dependents \<Rightarrow> dependents" where
  "push_dep p x deps = AList.update p (dep_list deps p @ [x]) deps"

definition push_dep_new :: "string \<Rightarrow> string \<Rightarrow> dependents \<Rightarrow> dependents" where
  "push_dep_new p x deps = AList.update p (push_new x (dep_list deps p)) deps"

definition register_addressing_dependency :: "string \<Rightarrow> addressing option \<Rightarrow> dependents \<Rightarrow> dependents" where
  "register_addressing_dependency name addr deps =
     (case addr of
        Some a \<Rightarrow> fold (\<lambda>p. push_dep p name) (addressing_referenced_nodes a) deps
      | None \<Rightarrow> deps)"

definition register_predicate_dependencies :: "string \<Rightarrow> predicate_refs \<Rightarrow> dependents \<Rightarrow> dependents" where
  "register_predicate_dependencies name preds deps = fold (\<lambda>p. push_dep p name) (references preds) deps"

definition register_invalidator_dependencies :: "string \<Rightarrow> string list \<Rightarrow> dependents \<Rightarrow> dependents" where
  "register_invalidator_dependencies name invalidators deps = fold (\<lambda>p. push_dep_new p name) invalidators deps"

definition register_indexed_dependencies :: "string \<Rightarrow> 'v indexed_value option \<Rightarrow> dependents \<Rightarrow> dependents" where
  "register_indexed_dependencies name indexed deps =
     (case indexed of
        Some iv \<Rightarrow> fold (\<lambda>p. push_dep_new p name) (indexed_referenced_nodes iv) deps
      | None \<Rightarrow> deps)"

definition register_selection_dependencies :: "string \<Rightarrow> string list \<Rightarrow> dependents \<Rightarrow> dependents" where
  "register_selection_dependencies selector selected deps = fold (\<lambda>f. push_dep_new selector f) selected deps"

definition register_formula_dependencies :: "string \<Rightarrow> string list \<Rightarrow> dependents \<Rightarrow> dependents" where
  "register_formula_dependencies name providers deps = fold (\<lambda>p. push_dep p name) (rev (remdups (rev providers))) deps"

text \<open>The \<open><pValue>\<close>-like references of a node.\<close>

definition register_pointers :: "string \<Rightarrow> string option list \<Rightarrow> dependents \<Rightarrow> dependents" where
  "register_pointers name pointers deps = fold (\<lambda>p. push_dep p name) (concat (map opt_list pointers)) deps"

section \<open>Formulas\<close>

definition parse_formula :: "'f float_ops \<Rightarrow> string \<Rightarrow> string \<Rightarrow> ('f ast, 'f genapi_error) result" where
  "parse_formula F name txt =
     (case parse_expression F txt of
        Parsed ast _ \<Rightarrow> Ok ast
      | Failed e \<Rightarrow> Err (ExprParse name txt e)
      | OutOfFuel \<Rightarrow> Panic)"

fun bind_constants :: "'f float_ops \<Rightarrow> string \<Rightarrow> (string \<times> string) list \<Rightarrow> (string \<rightharpoonup> 'f ast) \<Rightarrow>
    (string \<rightharpoonup> 'f ast, 'f genapi_error) result" where
  "bind_constants F node [] bindings = Ok bindings"
| "bind_constants F node ((name, literal) # rest) bindings =
     and_then (parse_formula F node literal) (\<lambda>v. bind_constants F node rest (bindings(name \<mapsto> v)))"

fun bind_expressions :: "'f float_ops \<Rightarrow> string \<Rightarrow> (string \<times> string) list \<Rightarrow> (string \<rightharpoonup> 'f ast) \<Rightarrow>
    (string \<rightharpoonup> 'f ast, 'f genapi_error) result" where
  "bind_expressions F node [] bindings = Ok bindings"
| "bind_expressions F node ((name, formula) # rest) bindings =
     and_then (parse_formula F node formula) (\<lambda>ast.
       bind_expressions F node rest (bindings(name \<mapsto> substitute bindings ast)))"

definition resolve_bindings :: "'f float_ops \<Rightarrow> string \<Rightarrow> formula_bindings \<Rightarrow>
    (string \<rightharpoonup> 'f ast, 'f genapi_error) result" where
  "resolve_bindings F node declared =
     and_then (bind_constants F node (fb_constants declared) Map.empty)
       (bind_expressions F node (fb_expressions declared))"

definition qualified_var :: "string \<Rightarrow> string \<Rightarrow> string \<Rightarrow> string \<Rightarrow> (formula_var, 'f genapi_error) result" where
  "qualified_var node var ext provider =
     (case var_attr_parse ext of
        Some attr \<Rightarrow> Ok \<lparr>v_name = var, v_provider = provider, v_attr = attr\<rparr>
      | None \<Rightarrow> Err (UnknownVariableExtension node var ext))"

fun declared_vars :: "string \<Rightarrow> (string \<times> string) list \<Rightarrow> (formula_var list, 'f genapi_error) result" where
  "declared_vars node [] = Ok []"
| "declared_vars node ((var, provider) # rest) =
     and_then
       (case split_qualified var of
          Some (_, ext) \<Rightarrow> qualified_var node var ext provider
        | None \<Rightarrow> Ok \<lparr>v_name = var, v_provider = provider, v_attr = AValue\<rparr>)
       (\<lambda>v. and_then (declared_vars node rest) (\<lambda>vs. Ok (v # vs)))"

fun qualified_uses :: "string \<Rightarrow> (string \<times> string) list \<Rightarrow> string list \<Rightarrow> (formula_var list, 'f genapi_error) result" where
  "qualified_uses node declared [] = Ok []"
| "qualified_uses node declared (ident # rest) =
     (if ident \<in> fst ` set declared then qualified_uses node declared rest
      else case split_qualified ident of
        None \<Rightarrow> qualified_uses node declared rest
      | Some (base, ext) \<Rightarrow>
          (case map_of declared base of
             None \<Rightarrow> qualified_uses node declared rest
           | Some provider \<Rightarrow>
               and_then (qualified_var node ident ext provider) (\<lambda>v.
                 and_then (qualified_uses node declared rest) (\<lambda>vs. Ok (v # vs)))))"

definition formula_vars :: "string \<Rightarrow> (string \<times> string) list \<Rightarrow> 'f ast list \<Rightarrow> (formula_var list, 'f genapi_error) result" where
  "formula_vars node declared asts =
     and_then (declared_vars node declared) (\<lambda>vars.
       and_then (qualified_uses node declared (sorted_list_of_set (fold collect_identifiers asts {}))) (\<lambda>more.
         Ok (vars @ more)))"

section \<open>Building a node\<close>

definition enum_providers :: "enum_entry_decl list \<Rightarrow> string list" where
  "enum_providers entries =
     concat (map (\<lambda>e. case ee_value e of EnumFromNode n \<Rightarrow> [n] | EnumLiteral _ \<Rightarrow> []) entries)"

definition register_entry :: "string \<Rightarrow> enum_entry_decl \<Rightarrow> dependents \<Rightarrow> dependents" where
  "register_entry name e deps =
     register_predicate_dependencies name (ee_predicates e)
       (case ee_value e of EnumFromNode n \<Rightarrow> push_dep n name deps | EnumLiteral _ \<Rightarrow> deps)"

definition build_enum :: "enum_decl \<Rightarrow> enum_node" where
  "build_enum d =
     \<lparr>e_name = de_name d, e_meta = de_meta d, e_addressing = de_addressing d, e_access = de_access d,
      e_pvalue = de_pvalue d, e_entries = de_entries d, e_default = de_default d, e_selected = de_selected d,
      e_providers = sort (remdups (enum_providers (de_entries d))), e_value = de_value d,
      e_predicates = de_predicates d\<rparr>"

definition build_swissknife :: "'f float_ops \<Rightarrow> sk_decl \<Rightarrow> dependents \<Rightarrow>
    ((string \<times> 'f node) \<times> dependents, 'f genapi_error) result" where
  "build_swissknife F d deps =
     and_then (parse_formula F (ds_name d) (ds_expr d)) (\<lambda>parsed_ast.
     and_then (resolve_bindings F (ds_name d) (ds_bindings d)) (\<lambda>bindings.
       let ast = substitute bindings parsed_ast in
       and_then (formula_vars (ds_name d) (ds_variables d) [ast]) (\<lambda>vars.
         case find (\<lambda>ident. ident \<notin> v_name ` set vars \<and> \<not> is_builtin_constant F ident)
                (sorted_list_of_set (collect_identifiers ast {})) of
           Some ident \<Rightarrow> Err (UnknownVar (ds_name d) ident)
         | None \<Rightarrow>
             Ok ((ds_name d,
                  NSwissKnife \<lparr>s_name = ds_name d, s_meta = ds_meta d, s_output = ds_output d, s_ast = ast,
                    s_vars = vars, s_predicates = ds_predicates d\<rparr>),
                 register_predicate_dependencies (ds_name d) (ds_predicates d)
                   (register_formula_dependencies (ds_name d) (map v_provider vars) deps)))))"

text \<open>The two converters: both formulas, their variables, and the dependencies.\<close>

definition build_int_converter :: "'f float_ops \<Rightarrow> 'm int_converter_decl_scheme \<Rightarrow> dependents \<Rightarrow>
    ('f int_converter_node \<times> dependents, 'f genapi_error) result" where
  "build_int_converter F d deps =
     (let name = dk_name d in
      and_then (resolve_bindings F name (dk_bindings d)) (\<lambda>bindings.
      and_then (parse_formula F name (dk_formula_to d)) (\<lambda>to_ast.
      and_then (parse_formula F name (dk_formula_from d)) (\<lambda>from_ast.
        let ast_to = substitute bindings to_ast; ast_from = substitute bindings from_ast in
        and_then (formula_vars name (dk_variables_to d) [ast_to]) (\<lambda>vars_to.
        and_then (formula_vars name (dk_variables_from d) [ast_from]) (\<lambda>vars_from.
          Ok (\<lparr>k_name = name, k_meta = dk_meta d, k_p_value = dk_p_value d, k_ast_to = ast_to,
               k_ast_from = ast_from, k_vars_to = vars_to, k_vars_from = vars_from, k_unit = dk_unit d,
               k_slope = dk_slope d, k_predicates = dk_predicates d\<rparr>,
              register_predicate_dependencies name (dk_predicates d)
                (register_formula_dependencies name
                   (map v_provider vars_to @ map v_provider vars_from @ [dk_p_value d]) deps))))))))"

definition build_node :: "'f float_ops \<Rightarrow> 'f node_decl \<Rightarrow> dependents \<Rightarrow>
    ((string \<times> 'f node) \<times> dependents, 'f genapi_error) result" where
  "build_node F decl deps =
     (case decl of
        DInteger d \<Rightarrow>
          Ok ((i_name d, NInteger (integer_node.truncate d)),
            register_invalidator_dependencies (i_name d) (di_invalidators d)
              (register_predicate_dependencies (i_name d) (i_predicates d)
                (register_selection_dependencies (i_name d) (i_selected d)
                  (register_indexed_dependencies (i_name d) (i_indexed d)
                    (register_pointers (i_name d) [i_pvalue d, i_p_min d, i_p_max d, i_p_inc d]
                      (register_addressing_dependency (i_name d) (i_addressing d) deps))))))
      | DFloat d \<Rightarrow>
          Ok ((f_name d, NFloat (float_node.truncate d)),
            register_invalidator_dependencies (f_name d) (df_invalidators d)
              (register_predicate_dependencies (f_name d) (f_predicates d)
                (register_indexed_dependencies (f_name d) (f_indexed d)
                  (register_pointers (f_name d) [f_pvalue d, f_p_min d, f_p_max d]
                    (register_addressing_dependency (f_name d) (f_addressing d) deps)))))
      | DEnum d \<Rightarrow>
          Ok ((de_name d, NEnum (build_enum d)),
            fold (register_entry (de_name d)) (de_entries d)
              (register_predicate_dependencies (de_name d) (de_predicates d)
                (register_selection_dependencies (de_name d) (de_selected d)
                  (register_pointers (de_name d) [de_pvalue d]
                    (register_addressing_dependency (de_name d) (de_addressing d) deps)))))
      | DBoolean d \<Rightarrow>
          Ok ((b_name d, NBoolean d),
            register_predicate_dependencies (b_name d) (b_predicates d)
              (register_pointers (b_name d) [b_pvalue d]
                (register_addressing_dependency (b_name d) (b_addressing d) deps)))
      | DCommand d \<Rightarrow>
          Ok ((c_name d, NCommand d),
            register_predicate_dependencies (c_name d) (c_predicates d)
              (register_pointers (c_name d)
                [c_pvalue d, case c_command_value d of CommandFromNode p \<Rightarrow> Some p | CommandLiteral _ \<Rightarrow> None] deps))
      | DCategory d \<Rightarrow>
          Ok ((g_name d, NCategory d), register_predicate_dependencies (g_name d) (g_predicates d) deps)
      | DSwissKnife d \<Rightarrow> build_swissknife F d deps
      | DConverter d \<Rightarrow>
          and_then (build_int_converter F d deps) (\<lambda>(n, deps).
            Ok ((k_name n, NConverter (int_converter_node.extend n (converter_node.fields (dk_output d)))), deps))
      | DIntConverter d \<Rightarrow>
          and_then (build_int_converter F d deps) (\<lambda>(n, deps). Ok ((k_name n, NIntConverter n), deps))
      | DString d \<Rightarrow>
          Ok ((t_name d, NString (string_node.truncate d)),
            register_invalidator_dependencies (t_name d) (dt_invalidators d)
              (register_predicate_dependencies (t_name d) (t_predicates d)
                (register_pointers (t_name d) [t_pvalue d]
                  (register_addressing_dependency (t_name d) (t_addressing d) deps))))
      | DRegister d \<Rightarrow>
          Ok ((r_name d, NRegister (register_node.truncate d)),
            register_invalidator_dependencies (r_name d) (dr_invalidators d)
              (register_predicate_dependencies (r_name d) (r_predicates d)
                (register_addressing_dependency (r_name d) (Some (r_addressing d)) deps))))"

end
