(* ===== verification/Nodemap_Paths.thy ===== *)
theory Nodemap_Paths
  imports Nodemap
begin

text \<open>
  The built node map: the paths a value takes through \<open><pValue>\<close> and indexed values, what a write
  may change, the access modes declared along a path, the caching modes and polling times resolved
  for each node, and the construction of the map from a document
  (\<^verbatim>\<open>crates/viva-genapi/src/nodemap.rs\<close>, \<^verbatim>\<open>nodemap/ports.rs\<close>, \<^verbatim>\<open>nodemap/refresh.rs\<close>).
\<close>

section \<open>The map\<close>

datatype poll_kind = PollValue | PollCommand | PollSelfClearing

record polled =
  pl_kind :: poll_kind
  pl_period :: duration

record skipped_node =
  sn_tag :: string
  sn_name :: "string option"

record 'f xml_model =
  xm_version :: string
  xm_nodes :: "'f node_decl list"
  xm_ports :: "(string \<times> port_kind) list"
  xm_skipped :: "(skipped_node \<times> string) list"

text \<open>A dropped declaration carries the XML layer's message or the error of the build.\<close>

record 'f nodemap =
  nm_version :: string
  nm_nodes :: "(string \<times> 'f node) list"
  nm_dependents :: dependents
  nm_command_targets :: "string set"
  nm_skipped :: "(skipped_node \<times> (string + 'f genapi_error)) list"
  nm_ports :: "(string \<times> port_kind) list"
  nm_modes :: "string \<rightharpoonup> caching_mode"
  nm_via_polled :: "string set"
  nm_polling :: "string \<rightharpoonup> duration"
  nm_polled :: "(string \<times> polled) list"

definition get_node :: "'f nodemap \<Rightarrow> string \<Rightarrow> 'f node option" where
  "get_node nm name = map_of (nm_nodes nm) name"

definition node_names :: "'f nodemap \<Rightarrow> string list" where
  "node_names nm = map fst (nm_nodes nm)"

definition selectors_of :: "'f nodemap \<Rightarrow> string \<Rightarrow> string list" where
  "selectors_of nm name =
     filter (\<lambda>c. case get_node nm c of Some n \<Rightarrow> name \<in> set (node_selected n) | None \<Rightarrow> False) (node_names nm)"

definition dependents_of :: "'f nodemap \<Rightarrow> string \<Rightarrow> string list" where
  "dependents_of nm name = dep_list (nm_dependents nm) name"

definition categories :: "'f nodemap \<Rightarrow> (string \<times> string list) list" where
  "categories nm =
     concat (map (\<lambda>(_, n). case n of NCategory c \<Rightarrow> [(g_name c, g_children c)] | _ \<Rightarrow> []) (nm_nodes nm))"

fun visibility_rank :: "visibility \<Rightarrow> nat" where
  "visibility_rank Beginner = 0"
| "visibility_rank Expert = 1"
| "visibility_rank Guru = 2"
| "visibility_rank Invisible = 3"

definition nodes_at_visibility :: "'f nodemap \<Rightarrow> visibility \<Rightarrow> string list" where
  "nodes_at_visibility nm level =
     map fst (filter (\<lambda>(_, n). visibility_rank (m_visibility (node_meta_of n)) \<le> visibility_rank level) (nm_nodes nm))"

section \<open>Value paths\<close>

definition providers_of :: "'f nodemap \<Rightarrow> string \<Rightarrow> string list" where
  "providers_of nm name = (case get_node nm name of Some n \<Rightarrow> value_providers n | None \<Rightarrow> [])"

definition provider_of :: "'f nodemap \<Rightarrow> string \<Rightarrow> string option" where
  "provider_of nm name = Option.bind (get_node nm name) value_provider"

text \<open>Every name some node takes a value from: the loops below only add these.\<close>

definition provider_universe :: "'f nodemap \<Rightarrow> string set" where
  "provider_universe nm = (\<Union>(_, n) \<in> set (nm_nodes nm). set (value_providers n))"

lemma finite_universe [simp]: "finite (provider_universe nm)"
  unfolding provider_universe_def by auto

lemma providers_in_universe: "set (providers_of nm name) \<subseteq> provider_universe nm"
proof (cases "get_node nm name")
  case (Some n)
  then have "(name, n) \<in> set (nm_nodes nm)" unfolding get_node_def by (rule map_of_SomeD)
  then show ?thesis unfolding providers_of_def provider_universe_def Some by auto
qed (simp add: providers_of_def)

lemma provider_of_providers: "provider_of nm name = Some p \<Longrightarrow> p \<in> set (providers_of nm name)"
  by (auto simp: provider_of_def providers_of_def value_provider_providers split: Option.bind_splits)

text \<open>\<open>NodeMap::value_chain\<close>: a \<open><pValue>\<close> cycle ends the chain.\<close>

function chain_from :: "'f nodemap \<Rightarrow> string list \<Rightarrow> string \<Rightarrow> string list" where
  "chain_from nm chain current =
     (case provider_of nm current of
        None \<Rightarrow> chain
      | Some nxt \<Rightarrow> if nxt \<in> set chain then chain else chain_from nm (chain @ [nxt]) nxt)"
  by pat_completeness auto
termination
proof (relation "measure (\<lambda>(nm, chain, _). card (provider_universe nm - set chain))", simp)
  fix nm :: "'f nodemap" and chain current nxt
  assume "provider_of nm current = Some nxt" and new: "nxt \<notin> set chain"
  then have "nxt \<in> provider_universe nm" using provider_of_providers providers_in_universe by fast
  then have "provider_universe nm - set (chain @ [nxt]) \<subset> provider_universe nm - set chain" using new by auto
  then show "((nm, chain @ [nxt], nxt), (nm, chain, current)) \<in>
      measure (\<lambda>(nm, chain, _). card (provider_universe nm - set chain))"
    by (simp add: psubset_card_mono)
qed

declare chain_from.simps [simp del]

definition value_chain :: "'f nodemap \<Rightarrow> string \<Rightarrow> string list" where
  "value_chain nm start = chain_from nm [start] start"

lemma set_push_all [simp]: "set (fold push_new xs r) = set xs \<union> set r"
  by (induction xs arbitrary: r) auto

lemma distinct_push_all [simp]: "distinct (fold push_new xs r) \<longleftrightarrow> distinct r"
  by (induction xs arbitrary: r) auto

lemma push_new_card:
  assumes "finite U" "x \<in> U"
  shows "card (U - set (push_new x r)) + length (push_new x r) = card (U - set r) + length r"
proof (cases "x \<in> set r")
  case True
  then have "push_new x r = r" by (simp add: push_new_def)
  then show ?thesis by (simp only:)
next
  case False
  have "U - set r = insert x (U - insert x (set r))" using assms(2) False by auto
  then have "card (U - set r) = Suc (card (U - insert x (set r)))"
    using assms(1) by (metis DiffD2 card_insert_disjoint finite_Diff insertI1)
  moreover have "length (push_new x r) = Suc (length r)" using False by (simp add: push_new_def)
  ultimately show ?thesis unfolding set_push_new by linarith
qed

lemma push_all_card:
  assumes "finite U" "set xs \<subseteq> U"
  shows "card (U - set (fold push_new xs r)) + length (fold push_new xs r) = card (U - set r) + length r"
  using assms(2)
proof (induction xs arbitrary: r)
  case (Cons x xs)
  have "card (U - set (push_new x r)) + length (push_new x r) = card (U - set r) + length r"
    by (rule push_new_card [OF assms(1)]) (use Cons.prems in simp)
  moreover have "fold push_new (x # xs) r = fold push_new xs (push_new x r)" by simp
  ultimately show ?case using Cons by (simp only: list.set insert_subset)
qed simp

text \<open>\<open>NodeMap::value_reach\<close>: the list is its own work queue.\<close>

function reach_from :: "'f nodemap \<Rightarrow> string list \<Rightarrow> nat \<Rightarrow> string list" where
  "reach_from nm reach k =
     (if k < length reach then reach_from nm (fold push_new (providers_of nm (reach ! k)) reach) (Suc k) else reach)"
  by pat_completeness auto
termination
proof (relation "measure (\<lambda>(nm, reach, k). card (provider_universe nm - set reach) + (length reach - k))", simp)
  fix nm :: "'f nodemap" and reach :: "string list" and k
  assume k: "k < length reach"
  define r where "r = fold push_new (providers_of nm (reach ! k)) reach"
  have e: "card (provider_universe nm - set r) + length r = card (provider_universe nm - set reach) + length reach"
    unfolding r_def by (rule push_all_card [OF finite_universe providers_in_universe])
  have "card (provider_universe nm - set r) \<le> card (provider_universe nm - set reach)"
    unfolding r_def by (rule card_mono) auto
  then show "((nm, fold push_new (providers_of nm (reach ! k)) reach, Suc k), (nm, reach, k)) \<in>
      measure (\<lambda>(nm, reach, k). card (provider_universe nm - set reach) + (length reach - k))"
    using e k unfolding r_def [symmetric] by simp
qed

declare reach_from.simps [simp del]

definition value_reach :: "'f nodemap \<Rightarrow> string \<Rightarrow> string list" where
  "value_reach nm start = reach_from nm [start] 0"

section \<open>What a write may change\<close>

text \<open>
  The loop of \<open>invalidated_by\<close> and \<open>port_features\<close>: \<open>pending\<close> is a stack, its top the last element.
  It ends because a name is expanded once.
\<close>

function closure_from :: "dependents \<Rightarrow> string list \<Rightarrow> string set \<Rightarrow> string set" where
  "closure_from deps [] seen = seen"
| "closure_from deps (pending @ [current]) seen =
     (if current \<in> seen then closure_from deps pending seen
      else closure_from deps (pending @ dep_list deps current) (insert current seen))"
proof -
  fix P :: bool and x :: "dependents \<times> string list \<times> string set"
  assume nil: "\<And>deps seen. x = (deps, [], seen) \<Longrightarrow> P"
    and snoc: "\<And>deps pending current seen. x = (deps, pending @ [current], seen) \<Longrightarrow> P"
  show P
  proof (cases x)
    case (fields deps pending seen)
    then show P using nil snoc by (cases pending rule: rev_cases) auto
  qed
qed auto
termination
proof (relation "measures [\<lambda>(deps, pending, seen). card (fst ` set deps - seen), \<lambda>(deps, pending, seen). length pending]",
    simp_all)
  fix deps :: dependents and pending :: "string list" and current and seen :: "string set"
  assume new: "current \<notin> seen"
  show "card (fst ` set deps - insert current seen) < card (fst ` set deps - seen) \<or>
      card (fst ` set deps - insert current seen) = card (fst ` set deps - seen) \<and> dep_list deps current = []"
  proof (cases "current \<in> fst ` set deps")
    case True
    then have "fst ` set deps - insert current seen \<subset> fst ` set deps - seen" using new by auto
    then show ?thesis by (simp add: psubset_card_mono)
  next
    case False
    then have "map_of deps current = None" by (simp add: map_of_eq_None_iff)
    moreover have "fst ` set deps - insert current seen = fst ` set deps - seen" using False by auto
    ultimately show ?thesis by (simp add: dep_list_def)
  qed
qed

definition invalidated_by :: "'f nodemap \<Rightarrow> string \<Rightarrow> string list" where
  "invalidated_by nm name =
     (if get_node nm name = None then []
      else sorted_list_of_set (closure_from (nm_dependents nm) (value_reach nm name) {} - {name}))"

text \<open>The features, members of a category, whose value depends on a port.\<close>

definition port_features :: "'f nodemap \<Rightarrow> string \<Rightarrow> string list" where
  "port_features nm port =
     sorted_list_of_set
       {name \<in> closure_from (nm_dependents nm) (dependents_of nm port) {}.
          name \<in> (\<Union>(_, children) \<in> set (categories nm). set children) \<and> get_node nm name \<noteq> None}"

section \<open>Access modes along a path\<close>

definition combine_access :: "access_mode option \<Rightarrow> access_mode option \<Rightarrow> access_mode option" where
  "combine_access a b =
     (case (a, b) of
        (Some a, Some b) \<Rightarrow>
          (let readable = a \<noteq> WO \<and> b \<noteq> WO; writable = a \<noteq> RO \<and> b \<noteq> RO in
           if readable \<and> writable then Some RW
           else if readable then Some RO
           else if writable then Some WO
           else None)
      | _ \<Rightarrow> None)"

definition declares_write_only :: "'f nodemap \<Rightarrow> string \<Rightarrow> bool" where
  "declares_write_only nm name =
     (case get_node nm name of
        Some n \<Rightarrow> node_access_mode n = Some WO \<or> m_imposed_access (node_meta_of n) = Some WO
      | None \<Rightarrow> False)"

definition node_is_write_only :: "'f nodemap \<Rightarrow> string \<Rightarrow> bool" where
  "node_is_write_only nm name = list_ex (declares_write_only nm) (value_chain nm name)"

definition is_converter :: "'f node \<Rightarrow> bool" where
  "is_converter n = (case n of NConverter _ \<Rightarrow> True | NIntConverter _ \<Rightarrow> True | _ \<Rightarrow> False)"

text \<open>One link of the chain: what is readable, writable and declared after it.\<close>

definition access_link :: "'f nodemap \<Rightarrow> string \<Rightarrow> bool \<times> bool \<times> bool \<Rightarrow> bool \<times> bool \<times> bool" where
  "access_link nm link acc =
     (case get_node nm link of
        None \<Rightarrow> acc
      | Some n \<Rightarrow>
          (let (readable, writable, declared) = acc;
               imposed = m_imposed_access (node_meta_of n);
               writable = (writable \<and> imposed \<noteq> Some RO);
               readable = (readable \<and> imposed \<noteq> Some WO) in
           case if is_converter n then None else node_access_mode n of
             None \<Rightarrow> (readable, writable, declared)
           | Some mode \<Rightarrow> (readable \<and> mode \<noteq> WO, writable \<and> mode \<noteq> RO, True)))"

definition declared_access_mode :: "'f nodemap \<Rightarrow> string \<Rightarrow> access_mode option" where
  "declared_access_mode nm name =
     (case get_node nm name of
        None \<Rightarrow> None
      | Some n \<Rightarrow>
          if \<not> is_converter n \<and> node_access_mode n = None then None
          else
            (let (readable, writable, declared) = fold (access_link nm) (value_chain nm name) (True, True, False) in
             if \<not> declared then Some RO
             else if readable then (if writable then Some RW else Some RO)
             else if writable then Some WO else None))"

section \<open>Caching and polling\<close>

text \<open>A node's own caching mode: its \<open><Cachable>\<close>, or a register's default.\<close>

definition own_mode :: "'f node \<Rightarrow> caching_mode option" where
  "own_mode n =
     (let declared = m_cachable (node_meta_of n) in
      if node_addressing n = None then declared
      else Some (case declared of
          Some mode \<Rightarrow> mode
        | None \<Rightarrow> (case n of NFloat _ \<Rightarrow> WriteAround | _ \<Rightarrow> WriteThrough)))"

definition value_sources :: "'f node \<Rightarrow> string list" where
  "value_sources n =
     (case n of
        NInteger i \<Rightarrow> opt_list (i_pvalue i) @
          (case i_indexed i of Some iv \<Rightarrow> indexed_referenced_nodes iv | None \<Rightarrow> [])
      | NFloat f \<Rightarrow> opt_list (f_pvalue f) @
          (case f_indexed f of Some iv \<Rightarrow> indexed_referenced_nodes iv | None \<Rightarrow> [])
      | NEnum e \<Rightarrow> opt_list (e_pvalue e)
      | NBoolean b \<Rightarrow> opt_list (b_pvalue b)
      | NCommand c \<Rightarrow> opt_list (c_pvalue c)
      | NConverter k \<Rightarrow> k_p_value k # map v_provider (k_vars_from k)
      | NIntConverter k \<Rightarrow> k_p_value k # map v_provider (k_vars_from k)
      | NSwissKnife s \<Rightarrow> map v_provider (s_vars s)
      | _ \<Rightarrow> [])"

record resolved =
  rs_mode :: caching_mode
  rs_polling :: "duration option"
  rs_via_polled :: bool

definition NEUTRAL :: resolved where
  "NEUTRAL = \<lparr>rs_mode = WriteThrough, rs_polling = None, rs_via_polled = False\<rparr>"

definition millis :: "u64 \<Rightarrow> duration" where
  "millis ms = unat ms * 1000000"

definition poll_kind_of :: "'f node \<Rightarrow> poll_kind" where
  "poll_kind_of n = (case n of NCommand _ \<Rightarrow> PollCommand | NEnum _ \<Rightarrow> PollSelfClearing | _ \<Rightarrow> PollValue)"

definition polled_nodes :: "(string \<times> 'f node) list \<Rightarrow> (string \<times> polled) list" where
  "polled_nodes nodes =
     concat (map (\<lambda>(name, n). case m_polling_time_ms (node_meta_of n) of
         Some ms \<Rightarrow> [(name, \<lparr>pl_kind = poll_kind_of n, pl_period = millis ms\<rparr>)]
       | None \<Rightarrow> []) nodes)"

definition shorter :: "duration option \<Rightarrow> duration option \<Rightarrow> duration option" where
  "shorter a b =
     (case (a, b) of
        (Some a, Some b) \<Rightarrow> Some (min a b)
      | (None, b) \<Rightarrow> b
      | (a, None) \<Rightarrow> a)"

definition join_source :: "bool \<Rightarrow> resolved \<Rightarrow> resolved \<Rightarrow> resolved" where
  "join_source source_polled source r =
     \<lparr>rs_mode = mode_combine (rs_mode r) (rs_mode source),
      rs_polling = shorter (rs_polling r) (rs_polling source),
      rs_via_polled = (rs_via_polled r \<or> rs_via_polled source \<or> source_polled)\<rparr>"

definition own_resolved :: "'f node \<Rightarrow> resolved" where
  "own_resolved n =
     \<lparr>rs_mode = (case own_mode n of Some mode \<Rightarrow> mode | None \<Rightarrow> WriteThrough),
      rs_polling = map_option millis (m_polling_time_ms (node_meta_of n)),
      rs_via_polled = False\<rparr>"

text \<open>
  The recursion of \<open>NodeMap::resolve\<close>. The stack holds distinct declared names, so it is never
  deeper than the number of nodes: that many calls, and one more, are enough fuel.
\<close>

primrec resolve_refresh :: "nat \<Rightarrow> 'f nodemap \<Rightarrow> (string \<times> polled) list \<Rightarrow> string list \<Rightarrow> string \<Rightarrow>
    (string \<rightharpoonup> resolved) \<Rightarrow> resolved \<times> (string \<rightharpoonup> resolved)" where
  "resolve_refresh 0 nm polled stack name memo = (NEUTRAL, memo)"
| "resolve_refresh (Suc k) nm polled stack name memo =
     (case memo name of
        Some r \<Rightarrow> (r, memo)
      | None \<Rightarrow>
          (case get_node nm name of
             None \<Rightarrow> (NEUTRAL, memo)
           | Some n \<Rightarrow>
               if name \<in> set stack then (NEUTRAL, memo)
               else
                 (let (r, memo) = fold (\<lambda>source (r, memo).
                         let (from, memo) = resolve_refresh k nm polled (stack @ [name]) source memo in
                         (join_source (source \<in> fst ` set polled) from r, memo))
                       (value_sources n) (own_resolved n, memo) in
                  (r, memo(name \<mapsto> r)))))"

definition refresh_memo :: "'f nodemap \<Rightarrow> (string \<times> polled) list \<Rightarrow> string \<rightharpoonup> resolved" where
  "refresh_memo nm polled =
     fold (\<lambda>name memo. snd (resolve_refresh (Suc (length (nm_nodes nm))) nm polled [] name memo))
       (node_names nm) Map.empty"

definition build_refresh :: "'f nodemap \<Rightarrow> 'f nodemap" where
  "build_refresh nm =
     (let polled = polled_nodes (nm_nodes nm); memo = refresh_memo nm polled in
      nm\<lparr>nm_modes := (\<lambda>name. case memo name of
             Some r \<Rightarrow> if rs_mode r \<noteq> WriteThrough then Some (rs_mode r) else None
           | None \<Rightarrow> None),
         nm_polling := (\<lambda>name. Option.bind (memo name) rs_polling),
         nm_via_polled := {name \<in> fst ` set (nm_nodes nm). \<exists>r \<in> set_option (memo name). rs_via_polled r},
         nm_polled := polled\<rparr>)"

definition caching_mode_of :: "'f nodemap \<Rightarrow> string \<Rightarrow> caching_mode option" where
  "caching_mode_of nm name =
     (if get_node nm name = None then None
      else Some (case nm_modes nm name of Some mode \<Rightarrow> mode | None \<Rightarrow> WriteThrough))"

definition polling_time :: "'f nodemap \<Rightarrow> string \<Rightarrow> duration option" where
  "polling_time nm name = nm_polling nm name"

section \<open>From a document to a map\<close>

definition find_command_targets :: "'f nodemap \<Rightarrow> string set" where
  "find_command_targets nm =
     (\<Union>(_, n) \<in> set (nm_nodes nm).
        case n of
          NCommand c \<Rightarrow> (case c_pvalue c of Some first \<Rightarrow> set (value_reach nm first) | None \<Rightarrow> {})
        | _ \<Rightarrow> {})"

definition selected_links :: "'f nodemap \<Rightarrow> (string \<times> string) list" where
  "selected_links nm =
     concat (map (\<lambda>(_, n).
       concat (map (\<lambda>feature.
         case get_node nm feature of
           Some (NCommand _) \<Rightarrow> []
         | _ \<Rightarrow> map (Pair (node_name n)) (tl (value_reach nm feature))) (node_selected n))) (nm_nodes nm))"

definition link_selected_values :: "'f nodemap \<Rightarrow> 'f nodemap" where
  "link_selected_values nm =
     nm\<lparr>nm_dependents := fold (\<lambda>(selector, link). push_dep_new selector link) (selected_links nm) (nm_dependents nm)\<rparr>"

definition data_port :: "port_kind option \<Rightarrow> bool" where
  "data_port k = (case k of Some (PortChunk _) \<Rightarrow> True | Some (PortEvent _) \<Rightarrow> True | _ \<Rightarrow> False)"

definition port_links :: "'f nodemap \<Rightarrow> (string \<times> string) list" where
  "port_links nm =
     concat (map (\<lambda>(_, n).
       case Option.bind (node_addressing n) ad_port of
         Some port \<Rightarrow> if data_port (map_of (nm_ports nm) port) then [(port, node_name n)] else []
       | None \<Rightarrow> []) (nm_nodes nm))"

definition link_port_dependents :: "'f nodemap \<Rightarrow> 'f nodemap" where
  "link_port_dependents nm =
     nm\<lparr>nm_dependents := fold (\<lambda>(port, node). push_dep_new port node) (port_links nm) (nm_dependents nm)\<rparr>"

definition append_deps :: "dependents \<Rightarrow> dependents \<Rightarrow> dependents" where
  "append_deps new deps = fold (\<lambda>(p, names) d. AList.update p (dep_list d p @ names) d) new deps"

text \<open>The loop over the declarations: a node that cannot be built costs that one feature.\<close>

primrec build_all :: "'f float_ops \<Rightarrow> 'f node_decl list \<Rightarrow>
    (string \<times> 'f node) list \<times> dependents \<times> (skipped_node \<times> (string + 'f genapi_error)) list \<Rightarrow>
    ((string \<times> 'f node) list \<times> dependents \<times> (skipped_node \<times> (string + 'f genapi_error)) list, 'f genapi_error) result" where
  "build_all F [] acc = Ok acc"
| "build_all F (d # ds) acc =
     (let (nodes, deps, skipped) = acc in
      case build_node F d [] of
        Ok ((name, n), local_deps) \<Rightarrow> build_all F ds (AList.update name n nodes, append_deps local_deps deps, skipped)
      | Err e \<Rightarrow>
          build_all F ds (nodes, deps, skipped @ [(\<lparr>sn_tag = decl_kind d, sn_name = Some (decl_name d)\<rparr>, Inr e)])
      | Panic \<Rightarrow> Panic)"

definition collect_ports :: "(string \<times> port_kind) list \<Rightarrow> (string \<times> port_kind) list" where
  "collect_ports ports = fold (\<lambda>(name, kind). AList.update name kind) ports []"

definition try_from_xml :: "'f float_ops \<Rightarrow> 'f xml_model \<Rightarrow> ('f nodemap, 'f genapi_error) result" where
  "try_from_xml F model =
     and_then (build_all F (xm_nodes model) ([], [], map (\<lambda>(s, msg). (s, Inl msg)) (xm_skipped model)))
       (\<lambda>(nodes, deps, skipped).
          let nm = \<lparr>nm_version = xm_version model, nm_nodes = nodes, nm_dependents = deps, nm_command_targets = {},
                nm_skipped = skipped, nm_ports = collect_ports (xm_ports model), nm_modes = Map.empty,
                nm_via_polled = {}, nm_polling = Map.empty, nm_polled = []\<rparr>;
              nm = nm\<lparr>nm_command_targets := find_command_targets nm\<rparr> in
          Ok (build_refresh (link_port_dependents (link_selected_values nm))))"

end
