(* ===== verification/Node_State.thy ===== *)
theory Node_State
  imports Nodemap_Paths
begin

text \<open>
  The changing part of the node map: the cells of every node (what is cached of its value and what
  was written to a floating one), the generation and the history of changes, the polling clocks,
  the data attached to chunk and event ports, and the device behind the register interface
  (\<^verbatim>\<open>crates/viva-genapi/src/nodes.rs\<close>, \<^verbatim>\<open>nodemap/refresh.rs\<close>, \<^verbatim>\<open>nodemap/ports.rs\<close> and the
  invalidation half of \<^verbatim>\<open>nodemap.rs\<close>).

  The code keeps these in \<open>RefCell\<close>s so that reading can fill them; here every operation maps a
  state to a state. The device is an arbitrary world \<open>'d\<close>: transfers act on it and the host's clock
  is read from it, so time passes with the transfers and between operations.
\<close>

section \<open>Cells\<close>

record enum_mapping =
  em_by_value :: "i64 \<rightharpoonup> string"
  em_by_name :: "string \<rightharpoonup> i64"

record 'f cells =
  ce_int :: "i64 option"
  ce_raw :: "bytes option"
  ce_float :: "'f option"
  ce_bool :: "bool option"
  ce_entry :: "string option"
  ce_mapping :: "enum_mapping option"
  ce_value :: "('f fvalue \<times> u64) option"
  ce_intconv :: "(i64 \<times> u64) option"
  ce_string :: "(string \<times> u64) option"
  ce_bytes :: "(bytes \<times> u64) option"
  ce_floating :: "i64 option"
  ce_floating_float :: "'f option"
  ce_floating_string :: "string option"
  ce_written :: "i64 option \<rightharpoonup> i64"
  ce_written_float :: "i64 option \<rightharpoonup> 'f"

definition empty_cells :: "'f cells" where
  "empty_cells =
     \<lparr>ce_int = None, ce_raw = None, ce_float = None, ce_bool = None, ce_entry = None, ce_mapping = None,
      ce_value = None, ce_intconv = None, ce_string = None, ce_bytes = None, ce_floating = None,
      ce_floating_float = None, ce_floating_string = None, ce_written = Map.empty, ce_written_float = Map.empty\<rparr>"

text \<open>\<open>Node::invalidate_cache\<close>: what was written to a floating node is its state, not a cache.\<close>

fun invalidate_cache :: "'f node \<Rightarrow> 'f cells \<Rightarrow> 'f cells" where
  "invalidate_cache (NInteger _) c = c\<lparr>ce_int := None, ce_raw := None\<rparr>"
| "invalidate_cache (NFloat _) c = c\<lparr>ce_float := None\<rparr>"
| "invalidate_cache (NEnum _) c = c\<lparr>ce_entry := None, ce_mapping := None\<rparr>"
| "invalidate_cache (NBoolean _) c = c\<lparr>ce_bool := None, ce_raw := None\<rparr>"
| "invalidate_cache (NSwissKnife _) c = c\<lparr>ce_value := None\<rparr>"
| "invalidate_cache (NConverter _) c = c\<lparr>ce_value := None\<rparr>"
| "invalidate_cache (NIntConverter _) c = c\<lparr>ce_intconv := None\<rparr>"
| "invalidate_cache (NString _) c = c\<lparr>ce_string := None\<rparr>"
| "invalidate_cache (NRegister _) c = c\<lparr>ce_bytes := None\<rparr>"
| "invalidate_cache (NCommand _) c = c"
| "invalidate_cache (NCategory _) c = c"

section \<open>State\<close>

record ('f, 'd) nm_state =
  st_cells :: "string \<Rightarrow> 'f cells"
  st_generation :: u64
  st_changed :: "string \<rightharpoonup> u64"
  st_all_changed :: u64
  st_since :: "string \<rightharpoonup> duration"
  st_chunks :: "(u64 \<times> bytes) list"
  st_events :: "u64 \<rightharpoonup> bytes"
  st_device :: 'd

definition initial_state :: "'d \<Rightarrow> ('f, 'd) nm_state" where
  "initial_state d =
     \<lparr>st_cells = (\<lambda>_. empty_cells), st_generation = 0, st_changed = Map.empty, st_all_changed = 0,
      st_since = Map.empty, st_chunks = [], st_events = Map.empty, st_device = d\<rparr>"

definition map_cells :: "string \<Rightarrow> ('f cells \<Rightarrow> 'f cells) \<Rightarrow> ('f, 'd) nm_state \<Rightarrow> ('f, 'd) nm_state" where
  "map_cells name f s = s\<lparr>st_cells := (st_cells s)(name := f (st_cells s name))\<rparr>"

definition invalidate_node :: "'f nodemap \<Rightarrow> string \<Rightarrow> ('f, 'd) nm_state \<Rightarrow> ('f, 'd) nm_state" where
  "invalidate_node nm name s =
     (case get_node nm name of Some n \<Rightarrow> map_cells name (invalidate_cache n) s | None \<Rightarrow> s)"

definition bump_generation :: "('f, 'd) nm_state \<Rightarrow> ('f, 'd) nm_state" where
  "bump_generation s = s\<lparr>st_generation := st_generation s + 1\<rparr>"

definition note_changed :: "string \<Rightarrow> ('f, 'd) nm_state \<Rightarrow> ('f, 'd) nm_state" where
  "note_changed name s = s\<lparr>st_changed := (st_changed s)(name \<mapsto> st_generation s)\<rparr>"

definition note_all_changed :: "('f, 'd) nm_state \<Rightarrow> ('f, 'd) nm_state" where
  "note_all_changed s = s\<lparr>st_all_changed := st_generation s\<rparr>"

section \<open>Invalidation\<close>

text \<open>
  The recursion is bounded by the names that occur as dependents, each entered once: as many calls
  below the first as there are recorded pairs, and one more, are enough fuel.
\<close>

primrec invalidate_recursive :: "nat \<Rightarrow> 'f nodemap \<Rightarrow> string \<Rightarrow> string set \<times> ('f, 'd) nm_state \<Rightarrow>
    string set \<times> ('f, 'd) nm_state" where
  "invalidate_recursive 0 nm name acc = acc"
| "invalidate_recursive (Suc k) nm name acc =
     (let (visited, s) = acc in
      if name \<in> visited then acc
      else fold (invalidate_recursive k nm) (dependents_of nm name)
             (insert name visited, note_changed name (invalidate_node nm name s)))"

definition invalidation_fuel :: "'f nodemap \<Rightarrow> nat" where
  "invalidation_fuel nm = length (concat (map snd (nm_dependents nm))) + 2"

definition invalidate_dependents :: "'f nodemap \<Rightarrow> string \<Rightarrow> ('f, 'd) nm_state \<Rightarrow> ('f, 'd) nm_state" where
  "invalidate_dependents nm name s =
     snd (fold (invalidate_recursive (invalidation_fuel nm) nm) (dependents_of nm name)
       ({}, note_changed name (bump_generation s)))"

definition invalidate :: "'f nodemap \<Rightarrow> string \<Rightarrow> ('f, 'd) nm_state \<Rightarrow> ('f, 'd) nm_state" where
  "invalidate nm name s =
     invalidate_dependents nm name
       (fold (\<lambda>link s. case get_node nm link of
            Some _ \<Rightarrow> note_changed link (invalidate_node nm link s) | None \<Rightarrow> s)
          (value_reach nm name) (bump_generation s))"

definition invalidate_all :: "'f nodemap \<Rightarrow> ('f, 'd) nm_state \<Rightarrow> ('f, 'd) nm_state" where
  "invalidate_all nm s =
     note_all_changed (bump_generation (fold (invalidate_node nm) (node_names nm) s))"

definition changed_since :: "'f nodemap \<Rightarrow> u64 \<Rightarrow> ('f, 'd) nm_state \<Rightarrow> string list \<times> u64" where
  "changed_since nm since s =
     (if st_all_changed s > since then (node_names nm, st_generation s)
      else (filter (\<lambda>name. case st_changed s name of Some g \<Rightarrow> g > since | None \<Rightarrow> False) (node_names nm),
            st_generation s))"

section \<open>Polling\<close>

definition poll_is_due :: "duration \<Rightarrow> ('f, 'd) nm_state \<Rightarrow> string \<times> polled \<Rightarrow> bool" where
  "poll_is_due now s entry =
     (case st_since s (fst entry) of Some since \<Rightarrow> pl_period (snd entry) \<le> now - since | None \<Rightarrow> False)"

definition restart :: "duration \<Rightarrow> string \<times> polled \<Rightarrow> (string \<rightharpoonup> duration) \<Rightarrow> (string \<rightharpoonup> duration)" where
  "restart now entry since =
     since(fst entry := (case pl_kind (snd entry) of PollValue \<Rightarrow> None | _ \<Rightarrow> Some now))"

definition poll_map :: "'f nodemap \<Rightarrow> duration \<Rightarrow> ('f, 'd) nm_state \<Rightarrow> string list \<times> ('f, 'd) nm_state" where
  "poll_map nm now s =
     (let due_now = filter (poll_is_due now s) (nm_polled nm);
          s = s\<lparr>st_since := fold (restart now) due_now (st_since s)\<rparr> in
      if due_now = [] then ([], s)
      else
        (let (touched, s) = fold (\<lambda>e. invalidate_recursive (invalidation_fuel nm) nm (fst e)) due_now
               ({}, bump_generation s) in
         (filter (\<lambda>name. name \<in> touched) (node_names nm), s)))"

text \<open>\<open>set_clock\<close>: running commands and self-clearing entries are polled from now on the new clock.\<close>

definition set_clock :: "'f nodemap \<Rightarrow> duration \<Rightarrow> ('f, 'd) nm_state \<Rightarrow> ('f, 'd) nm_state" where
  "set_clock nm now s =
     s\<lparr>st_since := fold (\<lambda>(name, p) since. since(name :=
          (case pl_kind p of PollValue \<Rightarrow> None | _ \<Rightarrow> map_option (\<lambda>_. now) (since name)))) (nm_polled nm) (st_since s)\<rparr>"

definition never_cached :: "'f nodemap \<Rightarrow> string \<Rightarrow> bool" where
  "never_cached nm name \<longleftrightarrow> nm_modes nm name = Some NoCache \<or> name \<in> nm_via_polled nm"

definition may_serve :: "'f nodemap \<Rightarrow> duration \<Rightarrow> ('f, 'd) nm_state \<Rightarrow> string \<Rightarrow> bool" where
  "may_serve nm now s name =
     (if never_cached nm name then False
      else case map_of (nm_polled nm) name of
        None \<Rightarrow> True
      | Some p \<Rightarrow>
          (case pl_kind p of
             PollValue \<Rightarrow> (case st_since s name of Some since \<Rightarrow> now - since < pl_period p | None \<Rightarrow> False)
           | PollSelfClearing \<Rightarrow> st_since s name = None
           | PollCommand \<Rightarrow> True))"

definition may_cache :: "'f nodemap \<Rightarrow> string \<Rightarrow> bool" where
  "may_cache nm name \<longleftrightarrow> nm_modes nm name \<noteq> Some NoCache \<and> name \<notin> nm_via_polled nm"

definition keeps_written :: "'f nodemap \<Rightarrow> string \<Rightarrow> bool" where
  "keeps_written nm name \<longleftrightarrow> nm_modes nm name = None \<and> name \<notin> nm_via_polled nm"

definition set_since :: "'f nodemap \<Rightarrow> poll_kind \<Rightarrow> string \<Rightarrow> duration option \<Rightarrow> ('f, 'd) nm_state \<Rightarrow> ('f, 'd) nm_state" where
  "set_since nm kind name t s =
     (case map_of (nm_polled nm) name of
        Some p \<Rightarrow> if pl_kind p = kind then s\<lparr>st_since := (st_since s)(name := t)\<rparr> else s
      | None \<Rightarrow> s)"

definition note_read :: "'f nodemap \<Rightarrow> duration \<Rightarrow> string \<Rightarrow> ('f, 'd) nm_state \<Rightarrow> ('f, 'd) nm_state" where
  "note_read nm now name s = set_since nm PollValue name (Some now) s"

definition note_entry :: "'f nodemap \<Rightarrow> duration \<Rightarrow> string \<Rightarrow> bool \<Rightarrow> ('f, 'd) nm_state \<Rightarrow> ('f, 'd) nm_state" where
  "note_entry nm now name self_clearing s =
     set_since nm PollSelfClearing name (if self_clearing then Some now else None) s"

definition note_command :: "'f nodemap \<Rightarrow> duration \<Rightarrow> string \<Rightarrow> bool \<Rightarrow> ('f, 'd) nm_state \<Rightarrow> ('f, 'd) nm_state" where
  "note_command nm now name running s =
     set_since nm PollCommand name (if running then Some now else None) s"

definition self_clearing_active :: "'f nodemap \<Rightarrow> ('f, 'd) nm_state \<Rightarrow> string \<Rightarrow> bool" where
  "self_clearing_active nm s name =
     (case map_of (nm_polled nm) name of
        Some p \<Rightarrow> pl_kind p = PollSelfClearing \<and> st_since s name \<noteq> None
      | None \<Rightarrow> False)"

section \<open>Ports\<close>

definition attached_chunk_get :: "u64 \<Rightarrow> (u64 \<times> bytes) list \<Rightarrow> bytes option" where
  "attached_chunk_get i chunks = map_of chunks i"

definition invalidate_ports :: "'f nodemap \<Rightarrow> (port_kind \<Rightarrow> bool) \<Rightarrow> ('f, 'd) nm_state \<Rightarrow> ('f, 'd) nm_state" where
  "invalidate_ports nm which s =
     bump_generation (fold (\<lambda>(name, kind) s. if which kind then invalidate_dependents nm name s else s) (nm_ports nm) s)"

definition is_chunk_port :: "port_kind \<Rightarrow> bool" where
  "is_chunk_port k = (case k of PortChunk _ \<Rightarrow> True | _ \<Rightarrow> False)"

definition is_event_port :: "port_kind \<Rightarrow> bool" where
  "is_event_port k = (case k of PortEvent _ \<Rightarrow> True | _ \<Rightarrow> False)"

definition attach_chunks :: "'f nodemap \<Rightarrow> (u64 \<times> bytes) list \<Rightarrow> ('f, 'd) nm_state \<Rightarrow> ('f, 'd) nm_state" where
  "attach_chunks nm chunks s = invalidate_ports nm is_chunk_port (s\<lparr>st_chunks := chunks\<rparr>)"

definition detach_chunks :: "'f nodemap \<Rightarrow> ('f, 'd) nm_state \<Rightarrow> ('f, 'd) nm_state" where
  "detach_chunks nm s = invalidate_ports nm is_chunk_port (s\<lparr>st_chunks := []\<rparr>)"

definition attach_event :: "'f nodemap \<Rightarrow> u64 \<Rightarrow> bytes \<Rightarrow> ('f, 'd) nm_state \<Rightarrow> ('f, 'd) nm_state" where
  "attach_event nm i data s =
     invalidate_ports nm (\<lambda>k. k = PortEvent i) (s\<lparr>st_events := (st_events s)(i \<mapsto> data)\<rparr>)"

definition detach_events :: "'f nodemap \<Rightarrow> ('f, 'd) nm_state \<Rightarrow> ('f, 'd) nm_state" where
  "detach_events nm s = invalidate_ports nm is_event_port (s\<lparr>st_events := Map.empty\<rparr>)"

datatype location =
    DeviceAt u64 u32
  | DataAt string bytes i64 u32 bool

datatype route = RouteDevice | RouteChunk string u64 | RouteEvent string u64

definition eq_ignore_ascii_case :: "string \<Rightarrow> string \<Rightarrow> bool" where
  "eq_ignore_ascii_case a b \<longleftrightarrow> to_ascii_lowercase a = to_ascii_lowercase b"

definition route :: "'f nodemap \<Rightarrow> string \<Rightarrow> addressing \<Rightarrow> (route, 'f genapi_error) result" where
  "route nm node addr =
     (case ad_port addr of
        None \<Rightarrow> Ok RouteDevice
      | Some port \<Rightarrow>
          (case map_of (nm_ports nm) port of
             Some PortDevice \<Rightarrow> Ok RouteDevice
           | Some (PortChunk i) \<Rightarrow> Ok (RouteChunk port i)
           | Some (PortEvent i) \<Rightarrow> Ok (RouteEvent port i)
           | None \<Rightarrow> if eq_ignore_ascii_case port ''Device'' then Ok RouteDevice else Err (UnknownPort node port)))"

text \<open>\<open>slice_port_data\<close>: a negative offset counts from the end of a chunk.\<close>

definition slice_port_data :: "string \<Rightarrow> string \<Rightarrow> bytes \<Rightarrow> i64 \<Rightarrow> u32 \<Rightarrow> bool \<Rightarrow> (bytes, 'f genapi_error) result" where
  "slice_port_data node port data off len from_end =
     (let bad = Err (PortOutOfRange node port off len (length data)) in
      let take_from = (\<lambda>start. if start + unat len \<le> length data
            then or_panic (subslice start (start + unat len) data) Ok else bad) in
      if sint off < 0 then
        (if \<not> from_end then bad
         else if nat (- sint off) > length data then bad
         else take_from (length data - nat (- sint off)))
      else take_from (nat (sint off)))"

end
