(* ===== verification/Nodemap_Props.thy ===== *)
theory Nodemap_Props
  imports Nodemap_Paths Formula_Total
begin

text \<open>
  What the static part of the node map guarantees: the paths and closures it computes are the
  reachable sets of the graph the document declares, every reference a node reads through is a
  recorded dependency, every document loads, and the access and caching modes resolved along a path
  are those the nodes on it allow.
\<close>

section \<open>Value paths\<close>

text \<open>One step of a value to the node it may be taken from.\<close>

definition provides :: "'f nodemap \<Rightarrow> (string \<times> string) set" where
  "provides nm = {(a, b). b \<in> set (providers_of nm a)}"

lemma reach_from_sound:
  "set reach \<subseteq> set (reach_from nm reach k) \<and>
   set (reach_from nm reach k) \<subseteq> (provides nm)\<^sup>* `` set reach \<and>
   (distinct reach \<longrightarrow> distinct (reach_from nm reach k))"
proof (induction nm reach k rule: reach_from.induct)
  case (1 nm reach k)
  show ?case
  proof (cases "k < length reach")
    case False
    then show ?thesis by (subst (1 2 3) reach_from.simps) auto
  next
    case True
    let ?r = "fold push_new (providers_of nm (reach ! k)) reach"
    have e: "reach_from nm reach k = reach_from nm ?r (Suc k)" using True by (subst reach_from.simps) simp
    have "set (providers_of nm (reach ! k)) \<subseteq> (provides nm)\<^sup>* `` set reach"
    proof
      fix y assume "y \<in> set (providers_of nm (reach ! k))"
      then have "(reach ! k, y) \<in> (provides nm)\<^sup>*" by (simp add: provides_def r_into_rtrancl)
      then show "y \<in> (provides nm)\<^sup>* `` set reach" using True by (meson ImageI nth_mem)
    qed
    then have "set ?r \<subseteq> (provides nm)\<^sup>* `` set reach" by auto
    then have "(provides nm)\<^sup>* `` set ?r \<subseteq> (provides nm)\<^sup>* `` set reach"
      by (metis (no_types, lifting) Image_mono relcomp_Image rtrancl_idemp_self_comp subset_refl)
    then show ?thesis using 1 [OF True] unfolding e by auto
  qed
qed

lemma reach_from_closed:
  assumes "\<And>i. i < k \<Longrightarrow> i < length reach \<Longrightarrow> set (providers_of nm (reach ! i)) \<subseteq> set reach"
  shows "provides nm `` set (reach_from nm reach k) \<subseteq> set (reach_from nm reach k)"
  using assms
proof (induction nm reach k rule: reach_from.induct)
  case (1 nm reach k)
  show ?case
  proof (cases "k < length reach")
    case False
    have "provides nm `` set reach \<subseteq> set reach"
    proof
      fix y assume "y \<in> provides nm `` set reach"
      then obtain x where "x \<in> set reach" "y \<in> set (providers_of nm x)" by (auto simp: provides_def)
      then obtain i where "i < length reach" "y \<in> set (providers_of nm (reach ! i))"
        by (metis in_set_conv_nth)
      then show "y \<in> set reach" using 1(2) [of i] False by auto
    qed
    then show ?thesis using False by (subst (1 2) reach_from.simps) simp
  next
    case True
    let ?p = "providers_of nm (reach ! k)"
    have e: "reach_from nm reach k = reach_from nm (fold push_new ?p reach) (Suc k)"
      using True by (subst reach_from.simps) simp
    have keep: "fold push_new xs r ! i = r ! i" if "i < length r" for xs i and r :: "string list"
      using that
    proof (induction xs arbitrary: r)
      case (Cons x xs)
      then have "push_new x r ! i = r ! i \<and> i < length (push_new x r)" by (auto simp: push_new_def nth_append)
      then show ?case using Cons.IH [of "push_new x r"] by simp
    qed simp
    show ?thesis unfolding e
    proof (rule 1(1) [OF True])
      fix i assume "i < Suc k"
      then show "set (providers_of nm (fold push_new ?p reach ! i)) \<subseteq> set (fold push_new ?p reach)"
        using True 1(2) [of i] by (cases "i = k") (auto simp: keep)
    qed
  qed
qed

lemma value_reach_distinct_set:
  "distinct (value_reach nm start) \<and> set (value_reach nm start) = (provides nm)\<^sup>* `` {start}"
proof
  show "distinct (value_reach nm start)"
    using reach_from_sound [of "[start]" nm 0] by (simp add: value_reach_def)
  have "provides nm `` set (value_reach nm start) \<subseteq> set (value_reach nm start)"
    unfolding value_reach_def by (rule reach_from_closed) simp
  then have "(provides nm)\<^sup>* `` set (value_reach nm start) = set (value_reach nm start)"
    by (rule Image_closed_trancl)
  moreover have "start \<in> set (value_reach nm start)"
    using reach_from_sound [of "[start]" nm 0] by (simp add: value_reach_def)
  ultimately show "set (value_reach nm start) = (provides nm)\<^sup>* `` {start}"
    using reach_from_sound [of "[start]" nm 0] by (auto simp: value_reach_def)
qed

text \<open>The \<open><pValue>\<close> chain: each link the value provider of the one before, each once.\<close>

fun linked :: "'f nodemap \<Rightarrow> string list \<Rightarrow> bool" where
  "linked nm (a # b # rest) \<longleftrightarrow> provider_of nm a = Some b \<and> linked nm (b # rest)"
| "linked nm _ \<longleftrightarrow> True"

lemma linked_snoc: "linked nm (xs @ [a, b]) \<longleftrightarrow> linked nm (xs @ [a]) \<and> provider_of nm a = Some b"
  by (induction nm xs rule: linked.induct) (auto simp: neq_Nil_conv)

lemma chain_from_spec:
  assumes "linked nm (chain @ [current])" "distinct (chain @ [current])"
  shows "linked nm (chain_from nm (chain @ [current]) current) \<and>
    distinct (chain_from nm (chain @ [current]) current) \<and>
    hd (chain_from nm (chain @ [current]) current) = hd (chain @ [current]) \<and>
    (\<forall>p. provider_of nm (last (chain_from nm (chain @ [current]) current)) = Some p \<longrightarrow>
       p \<in> set (chain_from nm (chain @ [current]) current))"
  using assms
proof (induction nm "chain @ [current]" current arbitrary: chain rule: chain_from.induct)
  case (1 nm current chain)
  show ?case
  proof (cases "provider_of nm current")
    case None
    then have "chain_from nm (chain @ [current]) current = chain @ [current]" by (subst chain_from.simps) simp
    then show ?thesis using 1 None by simp
  next
    case (Some p)
    show ?thesis
    proof (cases "p \<in> set (chain @ [current])")
      case True
      then have "chain_from nm (chain @ [current]) current = chain @ [current]"
        by (subst chain_from.simps) (simp add: Some)
      then show ?thesis using 1 Some True by simp
    next
      case False
      then have e: "chain_from nm (chain @ [current]) current = chain_from nm ((chain @ [current]) @ [p]) p"
        by (subst chain_from.simps) (simp add: Some)
      have "linked nm ((chain @ [current]) @ [p])" using 1(2) Some linked_snoc [of nm chain current p] by simp
      moreover have "distinct ((chain @ [current]) @ [p])" using 1(3) False by auto
      ultimately show ?thesis using 1(1) [OF Some False] unfolding e by (simp add: hd_append)
    qed
  qed
qed

text \<open>
  The \<open><pValue>\<close> chain starts at the node, each link is the value provider of the one before,
  no node occurs twice, and it ends at a node without provider or where the provider closes a cycle.
\<close>
theorem value_chain_spec:
  "linked nm (value_chain nm start) \<and> distinct (value_chain nm start) \<and> hd (value_chain nm start) = start \<and>
   set_option (provider_of nm (last (value_chain nm start))) \<subseteq> set (value_chain nm start)"
  using chain_from_spec [of nm "[]" start] by (auto simp: value_chain_def)

section \<open>What a write may change\<close>

definition moves :: "dependents \<Rightarrow> (string \<times> string) set" where
  "moves deps = {(a, b). b \<in> set (dep_list deps a)}"

lemma moves_Image: "moves deps `` {a} = set (dep_list deps a)"
  by (auto simp: moves_def)

lemma closure_from_spec:
  assumes "moves deps `` seen \<subseteq> seen \<union> set pending"
  shows "seen \<union> set pending \<subseteq> closure_from deps pending seen \<and>
    closure_from deps pending seen \<subseteq> seen \<union> (moves deps)\<^sup>* `` set pending \<and>
    moves deps `` closure_from deps pending seen \<subseteq> closure_from deps pending seen"
  using assms
proof (induction deps pending seen rule: closure_from.induct)
  case (2 deps pending current seen)
  show ?case
  proof (cases "current \<in> seen")
    case True
    have "moves deps `` seen \<subseteq> seen \<union> set pending" using 2(3) True by auto
    then show ?thesis using 2(1) [OF True] True by auto
  next
    case False
    let ?p = "pending @ dep_list deps current" and ?s = "insert current seen"
    have "moves deps `` ?s = moves deps `` {current} \<union> moves deps `` seen" by auto
    then have "moves deps `` ?s \<subseteq> ?s \<union> set ?p" using 2(3) by (auto simp: moves_Image)
    note ih = 2(2) [OF False this]
    have "set (dep_list deps current) \<subseteq> (moves deps)\<^sup>* `` {current}"
      using moves_Image [of deps current] by auto
    then have "(moves deps)\<^sup>* `` set (dep_list deps current) \<subseteq> (moves deps)\<^sup>* `` {current}"
      by (auto intro: rtrancl_trans)
    moreover have "current \<in> (moves deps)\<^sup>* `` {current}" by simp
    ultimately have up: "?s \<union> (moves deps)\<^sup>* `` set ?p \<subseteq> seen \<union> (moves deps)\<^sup>* `` set (pending @ [current])"
      by (simp add: Image_Un insert_is_Un [of current "set pending"] del: Un_insert_left) blast
    define R where "R = closure_from deps ?p ?s"
    have e: "closure_from deps (pending @ [current]) seen = R" unfolding R_def using False by simp
    have "seen \<union> set (pending @ [current]) \<subseteq> R" using ih unfolding R_def [symmetric] by simp
    moreover have "R \<subseteq> seen \<union> (moves deps)\<^sup>* `` set (pending @ [current])"
      using ih up unfolding R_def [symmetric] by (meson order_trans)
    ultimately show ?thesis unfolding e using ih R_def by simp
  qed
qed simp

lemma closure_exact: "closure_from deps pending {} = (moves deps)\<^sup>* `` set pending"
proof -
  note spec = closure_from_spec [of deps "{}" pending, simplified]
  have "(moves deps)\<^sup>* `` closure_from deps pending {} = closure_from deps pending {}"
    using spec by (intro Image_closed_trancl) simp
  then show ?thesis using spec by auto
qed

lemma finite_moves: "finite ((moves deps)\<^sup>* `` set pending)"
proof -
  have "(moves deps)\<^sup>* `` set pending \<subseteq> set pending \<union> (\<Union>(_, l) \<in> set deps. set l)"
  proof
    fix y assume "y \<in> (moves deps)\<^sup>* `` set pending"
    then obtain x where "x \<in> set pending" "(x, y) \<in> (moves deps)\<^sup>*" by auto
    from this(2,1) show "y \<in> set pending \<union> (\<Union>(_, l) \<in> set deps. set l)"
    proof (cases rule: rtranclE)
      case (step z)
      then have "y \<in> set (dep_list deps z)" by (simp add: moves_def)
      then obtain l where "map_of deps z = Some l" "y \<in> set l"
        by (cases "map_of deps z") (auto simp: dep_list_def)
      then show ?thesis by (auto dest: map_of_SomeD)
    qed auto
  qed
  then show ?thesis by (rule finite_subset) auto
qed

text \<open>
  C24. What a write may change: exactly the nodes reachable through recorded dependencies from a node
  on the value path of the node written, without that node itself, in ascending order.
\<close>
theorem invalidated_by_exact:
  "set (invalidated_by nm name) =
     (if get_node nm name = None then {}
      else (moves (nm_dependents nm))\<^sup>* `` ((provides nm)\<^sup>* `` {name}) - {name}) \<and>
   sorted_wrt (<) (invalidated_by nm name)"
proof -
  have v: "set (value_reach nm name) = (provides nm)\<^sup>* `` {name}"
    using value_reach_distinct_set by blast
  have f: "finite ((moves (nm_dependents nm))\<^sup>* `` set (value_reach nm name) - {name})"
    using finite_moves by blast
  show ?thesis
    using f by (simp add: invalidated_by_def closure_exact v [symmetric])
qed

section \<open>Access modes\<close>

definition can_read :: "access_mode option \<Rightarrow> bool" where
  "can_read m \<longleftrightarrow> m = Some RO \<or> m = Some RW"

definition can_write :: "access_mode option \<Rightarrow> bool" where
  "can_write m \<longleftrightarrow> m = Some WO \<or> m = Some RW"

text \<open>A converter declares no mode of its own; what else a link says.\<close>

definition declared_mode :: "'f nodemap \<Rightarrow> string \<Rightarrow> access_mode option" where
  "declared_mode nm link =
     Option.bind (get_node nm link) (\<lambda>n. if is_converter n then None else node_access_mode n)"

definition imposed_mode :: "'f nodemap \<Rightarrow> string \<Rightarrow> access_mode option" where
  "imposed_mode nm link = Option.bind (get_node nm link) (\<lambda>n. m_imposed_access (node_meta_of n))"

definition forbids :: "access_mode \<Rightarrow> 'f nodemap \<Rightarrow> string \<Rightarrow> bool" where
  "forbids m nm link \<longleftrightarrow> declared_mode nm link = Some m \<or> imposed_mode nm link = Some m"

lemma access_link_eq:
  "access_link nm link (r, w, d) =
     (r \<and> \<not> forbids WO nm link, w \<and> \<not> forbids RO nm link, d \<or> declared_mode nm link \<noteq> None)"
  by (auto simp: access_link_def forbids_def declared_mode_def imposed_mode_def Let_def split: option.splits)

lemma access_fold:
  "fold (access_link nm) links (r, w, d) =
     (r \<and> \<not> list_ex (forbids WO nm) links, w \<and> \<not> list_ex (forbids RO nm) links,
      d \<or> list_ex (\<lambda>l. declared_mode nm l \<noteq> None) links)"
  by (induction links arbitrary: r w d) (auto simp: access_link_eq)

definition has_mode :: "'f nodemap \<Rightarrow> string \<Rightarrow> bool" where
  "has_mode nm name \<longleftrightarrow> (case get_node nm name of
     Some n \<Rightarrow> is_converter n \<or> node_access_mode n \<noteq> None | None \<Rightarrow> False)"

text \<open>
  The declared access mode allows writing exactly when some link of the chain declares a mode and
  none declares or imposes \<open>RO\<close>; it allows reading exactly when the node has a mode at all and no
  link forbids it, or none declares a mode.
\<close>
theorem declared_access_exact:
  "(can_write (declared_access_mode nm name) \<longleftrightarrow>
      has_mode nm name \<and> list_ex (\<lambda>l. declared_mode nm l \<noteq> None) (value_chain nm name) \<and>
      \<not> list_ex (forbids RO nm) (value_chain nm name)) \<and>
   (can_read (declared_access_mode nm name) \<longleftrightarrow>
      has_mode nm name \<and> \<not> (list_ex (\<lambda>l. declared_mode nm l \<noteq> None) (value_chain nm name) \<and>
        list_ex (forbids WO nm) (value_chain nm name)))"
  unfolding declared_access_mode_def access_fold has_mode_def can_write_def can_read_def
  by (auto simp: Let_def split: option.split)

lemma combine_access_exact:
  "can_read (combine_access a b) \<longleftrightarrow> can_read a \<and> can_read b"
  "can_write (combine_access a b) \<longleftrightarrow> can_write a \<and> can_write b"
  by (cases a; cases b; cases "the a"; cases "the b"; simp add: combine_access_def can_read_def can_write_def)+

section \<open>Caching\<close>

text \<open>One step to a node a value is read from, and what the node itself allows.\<close>

definition sources :: "'f nodemap \<Rightarrow> (string \<times> string) set" where
  "sources nm = {(a, b). \<exists>n. get_node nm a = Some n \<and> b \<in> set (value_sources n)}"

definition node_mode :: "'f nodemap \<Rightarrow> string \<Rightarrow> caching_mode" where
  "node_mode nm name =
     (case get_node nm name of
        Some n \<Rightarrow> (case own_mode n of Some mode \<Rightarrow> mode | None \<Rightarrow> WriteThrough)
      | None \<Rightarrow> WriteThrough)"

text \<open>How restrictive a mode is; the modes form a chain and \<open>combine\<close> is its supremum.\<close>

fun strictness :: "caching_mode \<Rightarrow> nat" where
  "strictness WriteThrough = 0"
| "strictness WriteAround = 1"
| "strictness NoCache = 2"

lemma strictness_combine: "strictness (mode_combine a b) = max (strictness a) (strictness b)"
  by (cases a; cases b) (simp_all add: mode_combine_def)

lemma strictness_NoCache: "strictness m = 2 \<longleftrightarrow> m = NoCache"
  by (cases m) simp_all

text \<open>The strictest mode among everything a node's value is read from, itself included.\<close>

definition strictest :: "'f nodemap \<Rightarrow> string \<Rightarrow> caching_mode \<Rightarrow> bool" where
  "strictest nm name m \<longleftrightarrow>
     (\<forall>b. (name, b) \<in> (sources nm)\<^sup>* \<longrightarrow> strictness (node_mode nm b) \<le> strictness m) \<and>
     (\<exists>b. (name, b) \<in> (sources nm)\<^sup>* \<and> node_mode nm b = m)"

definition memo_right :: "'f nodemap \<Rightarrow> (string \<rightharpoonup> resolved) \<Rightarrow> bool" where
  "memo_right nm memo \<longleftrightarrow> (\<forall>x r. memo x = Some r \<longrightarrow> strictest nm x (rs_mode r))"

text \<open>The mode while the sources of \<open>name\<close> are being joined: the strictest of its own and of the \<open>done\<close>.\<close>

definition joined :: "'f nodemap \<Rightarrow> string \<Rightarrow> string set \<Rightarrow> caching_mode \<Rightarrow> bool" where
  "joined nm name bs m \<longleftrightarrow>
     strictness (node_mode nm name) \<le> strictness m \<and>
     (\<forall>b \<in> bs. \<forall>c. (b, c) \<in> (sources nm)\<^sup>* \<longrightarrow> strictness (node_mode nm c) \<le> strictness m) \<and>
     (node_mode nm name = m \<or> (\<exists>b \<in> bs. \<exists>c. (b, c) \<in> (sources nm)\<^sup>* \<and> node_mode nm c = m))"

lemma joined_step:
  assumes "joined nm name bs m" "strictest nm b m'"
  shows "joined nm name (insert b bs) (mode_combine m m')"
proof -
  have "strictness (node_mode nm name) \<le> strictness (mode_combine m m')" "\<forall>a \<in> insert b bs. \<forall>c. (a, c) \<in> (sources nm)\<^sup>* \<longrightarrow>
      strictness (node_mode nm c) \<le> strictness (mode_combine m m')"
    using assms unfolding joined_def strictest_def strictness_combine by (auto simp: le_max_iff_disj)
  moreover have "node_mode nm name = m \<or> (\<exists>a \<in> insert b bs. \<exists>c. (a, c) \<in> (sources nm)\<^sup>* \<and> node_mode nm c = m)"
    using assms(1) unfolding joined_def by blast
  moreover have "\<exists>a \<in> insert b bs. \<exists>c. (a, c) \<in> (sources nm)\<^sup>* \<and> node_mode nm c = m'"
    using assms(2) unfolding strictest_def by blast
  moreover have "mode_combine m m' = m \<or> mode_combine m m' = m'" by (cases m; cases m') (simp_all add: mode_combine_def)
  ultimately show ?thesis unfolding joined_def by metis
qed

lemma joined_strictest:
  assumes "joined nm name (sources nm `` {name}) m"
  shows "strictest nm name m"
proof -
  have "strictness (node_mode nm b) \<le> strictness m" if "(name, b) \<in> (sources nm)\<^sup>*" for b
    using that assms by (cases rule: converse_rtranclE) (auto simp: joined_def)
  moreover have "\<exists>b. (name, b) \<in> (sources nm)\<^sup>* \<and> node_mode nm b = m"
    using assms by (auto simp: joined_def intro: converse_rtrancl_into_rtrancl)
  ultimately show ?thesis by (simp add: strictest_def)
qed

lemma resolve_refresh_right:
  assumes acyclic: "acyclic (sources nm)"
    and path: "\<And>s. s \<in> set stack \<Longrightarrow> (s, name) \<in> (sources nm)\<^sup>+"
    and stack: "distinct stack" "set stack \<subseteq> fst ` set (nm_nodes nm)" "length (nm_nodes nm) < length stack + k"
    and memo: "memo_right nm memo"
  shows "strictest nm name (rs_mode (fst (resolve_refresh k nm polled stack name memo))) \<and>
    memo_right nm (snd (resolve_refresh k nm polled stack name memo)) \<and>
    dom memo \<subseteq> dom (snd (resolve_refresh k nm polled stack name memo)) \<and>
    (get_node nm name \<noteq> None \<longrightarrow> name \<in> dom (snd (resolve_refresh k nm polled stack name memo)))"
  using path stack memo
proof (induction k arbitrary: stack name memo)
  case 0
  have "length stack \<le> card (fst ` set (nm_nodes nm))"
    using "0.prems"(2,3) by (metis card_mono distinct_card finite_imageI finite_set)
  also have "\<dots> \<le> length (nm_nodes nm)" by (metis card_image_le card_length finite_set order_trans)
  finally show ?case using "0.prems"(4) by simp
next
  case (Suc k)
  show ?case
  proof (cases "memo name")
    case (Some r)
    then show ?thesis using Suc.prems(5) by (auto simp: memo_right_def)
  next
    case None
    show ?thesis
    proof (cases "get_node nm name")
      case None
      have "b = name" if "(name, b) \<in> (sources nm)\<^sup>*" for b
        using that None by (cases rule: converse_rtranclE) (auto simp: sources_def)
      moreover have "node_mode nm name = WriteThrough" using None by (simp add: node_mode_def)
      ultimately have "strictest nm name WriteThrough" unfolding strictest_def by fastforce
      then show ?thesis using None \<open>memo name = None\<close> Suc.prems(5) by (simp add: NEUTRAL_def)
    next
      case (Some n)
      have fresh: "name \<notin> set stack" using Suc.prems(1) acyclic by (auto simp: acyclic_def)
      let ?stack = "stack @ [name]"
      define f where "f = (\<lambda>source (r, memo). let (from, memo) = resolve_refresh k nm polled ?stack source memo in
        (join_source (source \<in> fst ` set polled) from r, memo))"
      have name_in: "name \<in> fst ` set (nm_nodes nm)" using Some by (force simp: get_node_def dest: map_of_SomeD)
      have loop: "joined nm name (bs \<union> set ss) (rs_mode (fst (fold f ss (r, memo)))) \<and>
          memo_right nm (snd (fold f ss (r, memo))) \<and> dom memo \<subseteq> dom (snd (fold f ss (r, memo)))"
        if "set ss \<subseteq> set (value_sources n)" "joined nm name bs (rs_mode r)" "memo_right nm memo" for ss bs r memo
        using that
      proof (induction ss arbitrary: bs r memo)
        case (Cons b ss)
        let ?res = "resolve_refresh k nm polled ?stack b memo"
        have edge: "(name, b) \<in> sources nm" using Cons.prems(1) Some by (auto simp: sources_def)
        have ih: "strictest nm b (rs_mode (fst ?res)) \<and> memo_right nm (snd ?res) \<and> dom memo \<subseteq> dom (snd ?res) \<and>
            (get_node nm b \<noteq> None \<longrightarrow> b \<in> dom (snd ?res))"
        proof (rule Suc.IH)
          show "(s, b) \<in> (sources nm)\<^sup>+" if "s \<in> set ?stack" for s
            using that edge Suc.prems(1) [of s] by (auto intro: trancl_into_trancl)
          show "distinct ?stack" using Suc.prems(2) fresh by simp
          show "set ?stack \<subseteq> fst ` set (nm_nodes nm)" using Suc.prems(3) name_in by simp
          show "length (nm_nodes nm) < length ?stack + k" using Suc.prems(4) by simp
        qed (rule Cons.prems(3))
        let ?r = "join_source (b \<in> fst ` set polled) (fst ?res) r"
        have "rs_mode ?r = mode_combine (rs_mode r) (rs_mode (fst ?res))" by (simp add: join_source_def)
        then have j: "joined nm name (insert b bs) (rs_mode ?r)" using joined_step [OF Cons.prems(2)] ih by simp
        define z where "z = fold f ss (?r, snd ?res)"
        have e: "fold f (b # ss) (r, memo) = z" by (simp add: z_def f_def split: prod.split)
        have "joined nm name (insert b bs \<union> set ss) (rs_mode (fst z)) \<and> memo_right nm (snd z) \<and> dom (snd ?res) \<subseteq> dom (snd z)"
          unfolding z_def by (rule Cons.IH) (use Cons.prems(1) j ih in simp_all)
        moreover have "dom memo \<subseteq> dom (snd ?res)" using ih by blast
        moreover have "insert b bs \<union> set ss = bs \<union> set (b # ss)" by simp
        ultimately show ?case unfolding e by (simp only:) (meson order_trans)
      qed simp
      have "rs_mode (own_resolved n) = node_mode nm name" by (simp add: own_resolved_def node_mode_def Some)
      then have "joined nm name {} (rs_mode (own_resolved n))" by (simp add: joined_def)
      from loop [OF order_refl this Suc.prems(5)]
      have res: "joined nm name (set (value_sources n)) (rs_mode (fst (fold f (value_sources n) (own_resolved n, memo))))"
        "memo_right nm (snd (fold f (value_sources n) (own_resolved n, memo)))"
        "dom memo \<subseteq> dom (snd (fold f (value_sources n) (own_resolved n, memo)))" by auto
      obtain r' memo' where fr: "fold f (value_sources n) (own_resolved n, memo) = (r', memo')" by fastforce
      have "sources nm `` {name} = set (value_sources n)" using Some by (auto simp: sources_def)
      then have s: "strictest nm name (rs_mode r')" using joined_strictest [of nm name "rs_mode r'"] res(1) fr by simp
      have e: "resolve_refresh (Suc k) nm polled stack name memo = (r', memo'(name \<mapsto> r'))"
        using \<open>memo name = None\<close> Some fresh fr unfolding f_def by simp
      have "memo_right nm memo'" "dom memo \<subseteq> dom memo'" using res(2,3) fr by simp_all
      then show ?thesis unfolding e using s by (auto simp: memo_right_def)
    qed
  qed
qed

lemma refresh_memo_right:
  assumes acyclic: "acyclic (sources nm)" and name: "get_node nm name = Some n"
  shows "\<exists>r. refresh_memo nm polled name = Some r \<and> strictest nm name (rs_mode r)"
proof -
  define g where "g = (\<lambda>name memo. snd (resolve_refresh (Suc (length (nm_nodes nm))) nm polled [] name memo))"
  have step: "memo_right nm (g x memo) \<and> dom memo \<subseteq> dom (g x memo) \<and> (get_node nm x \<noteq> None \<longrightarrow> x \<in> dom (g x memo))"
    if "memo_right nm memo" for x memo
    unfolding g_def
    using resolve_refresh_right [OF acyclic _ _ _ _ that, of "[]" x "Suc (length (nm_nodes nm))" polled] by simp
  have all: "memo_right nm (fold g xs memo) \<and> dom memo \<union> {x \<in> set xs. get_node nm x \<noteq> None} \<subseteq> dom (fold g xs memo)"
    if "memo_right nm memo" for xs memo
    using that
  proof (induction xs arbitrary: memo)
    case (Cons x xs)
    from step [OF Cons.prems, of x] Cons.IH [of "g x memo"] show ?case by auto
  qed simp
  have "name \<in> set (node_names nm)" using name by (force simp: node_names_def get_node_def dest: map_of_SomeD)
  then show ?thesis using all [of Map.empty "node_names nm"] name
    unfolding refresh_memo_def g_def [symmetric] by (auto simp: memo_right_def)
qed

text \<open>
  Where values do not depend on themselves, the caching mode resolved for a node is the strictest
  mode of all nodes its value is read from, itself included.
\<close>
theorem caching_mode_strictest:
  assumes "acyclic (sources nm)" "get_node nm name = Some n"
  shows "\<exists>m. caching_mode_of (build_refresh nm) name = Some m \<and> strictest nm name m"
proof -
  let ?polled = "polled_nodes (nm_nodes nm)"
  obtain r where r: "refresh_memo nm ?polled name = Some r" "strictest nm name (rs_mode r)"
    using refresh_memo_right [OF assms] by blast
  have "get_node (build_refresh nm) name = Some n" using assms(2) by (simp add: build_refresh_def get_node_def Let_def)
  moreover have "nm_modes (build_refresh nm) name = (if rs_mode r \<noteq> WriteThrough then Some (rs_mode r) else None)"
    by (simp add: build_refresh_def Let_def r)
  ultimately have "caching_mode_of (build_refresh nm) name = Some (rs_mode r)" by (simp add: caching_mode_of_def)
  then show ?thesis using r(2) by blast
qed

text \<open>A width over a register that is not cached.\<close>

definition plain_meta :: node_meta where
  "plain_meta =
     \<lparr>m_visibility = Beginner, m_description = None, m_tooltip = None, m_display_name = None,
      m_representation = None, m_imposed_access = None, m_streamable = False, m_cachable = None,
      m_polling_time_ms = None, m_ignored = []\<rparr>"

definition no_predicates :: predicate_refs where
  "no_predicates = \<lparr>p_is_implemented = None, p_is_available = None, p_is_locked = None\<rparr>"

definition plain_integer :: "string \<Rightarrow> addressing option \<Rightarrow> string option \<Rightarrow> integer_node" where
  "plain_integer name addr pv =
     \<lparr>i_name = name, i_meta = plain_meta, i_addressing = addr, i_len = 4, i_access = RW, i_min = None, i_max = None,
      i_inc = None, i_unit = None, i_bitfield = None, i_sign = Unsigned, i_byte_order = Big, i_selected = [],
      i_pvalue = pv, i_p_max = None, i_p_min = None, i_p_inc = None, i_value = None, i_indexed = None,
      i_predicates = no_predicates\<rparr>"

definition empty_map :: "int nodemap" where
  "empty_map = \<lparr>nm_version = ''1.0'', nm_nodes = [], nm_dependents = [], nm_command_targets = {}, nm_skipped = [],
     nm_ports = [], nm_modes = Map.empty, nm_via_polled = {}, nm_polling = Map.empty, nm_polled = []\<rparr>"

definition width_map :: "int nodemap" where
  "width_map = empty_map\<lparr>nm_nodes :=
     [(''Width'', NInteger (plain_integer ''Width'' None (Some ''WidthReg''))),
      (''WidthReg'', NInteger ((plain_integer ''WidthReg'' (Some (addressing_fixed 0x100 4)) None)
         \<lparr>i_meta := plain_meta\<lparr>m_cachable := Some NoCache\<rparr>\<rparr>))]\<rparr>"

lemma width_map_sources: "sources width_map = {(''Width'', ''WidthReg'')}"
  by (auto simp: sources_def get_node_def width_map_def value_sources_def plain_integer_def opt_list_def
      split: if_splits)

lemma caching_mode_strictest_witness:
  "\<exists>m. caching_mode_of (build_refresh width_map) ''Width'' = Some m \<and> strictest width_map ''Width'' m"
proof (rule caching_mode_strictest)
  show "acyclic (sources width_map)"
    unfolding width_map_sources by (auto simp: acyclic_def trancl_insert)
  show "get_node width_map ''Width'' = Some (NInteger (plain_integer ''Width'' None (Some ''WidthReg'')))"
    by (simp add: get_node_def width_map_def)
qed

end
