(* ===== verification/Nodemap_Build.thy ===== *)
theory Nodemap_Build
  imports Nodemap_Paths Formula_Total
begin

text \<open>
  Every document loads, and every reference a node of the built map reads through is a recorded
  dependency (\<^verbatim>\<open>NodeMap::try_from_xml\<close> and \<^verbatim>\<open>build_node\<close> of
  \<^verbatim>\<open>crates/viva-genapi/src/nodemap.rs\<close>).
\<close>

named_theorems dep_simps \<open>what each registration adds to the dependents of a node\<close>

definition dep_set :: "dependents \<Rightarrow> string \<Rightarrow> string set" where
  "dep_set deps p = set (dep_list deps p)"

lemma dep_set_Nil [simp]: "dep_set [] p = {}"
  by (simp add: dep_set_def dep_list_def)

lemma dep_set_update [dep_simps]: "dep_set (AList.update p l deps) q = (if q = p then set l else dep_set deps q)"
  by (simp add: dep_set_def dep_list_def update_conv')

lemma dep_set_push [dep_simps]:
  "dep_set (push_dep p x deps) q = (if q = p then insert x (dep_set deps q) else dep_set deps q)"
  by (simp add: push_dep_def dep_set_update) (simp add: dep_set_def)

lemma dep_set_push_new [dep_simps]:
  "dep_set (push_dep_new p x deps) q = (if q = p then insert x (dep_set deps q) else dep_set deps q)"
  by (simp add: push_dep_new_def dep_set_update) (simp add: dep_set_def)

lemma dep_set_push_all [dep_simps]:
  "dep_set (fold (\<lambda>p. push_dep p x) ps deps) q = dep_set deps q \<union> (if q \<in> set ps then {x} else {})"
  "dep_set (fold (\<lambda>p. push_dep_new p x) ps deps) q = dep_set deps q \<union> (if q \<in> set ps then {x} else {})"
  "dep_set (fold (\<lambda>f. push_dep_new s f) fs deps) q = dep_set deps q \<union> (if q = s then set fs else {})"
proof -
  show "dep_set (fold (\<lambda>p. push_dep p x) ps deps) q = dep_set deps q \<union> (if q \<in> set ps then {x} else {})"
    by (induction ps arbitrary: deps) (auto simp: dep_simps)
  show "dep_set (fold (\<lambda>p. push_dep_new p x) ps deps) q = dep_set deps q \<union> (if q \<in> set ps then {x} else {})"
    by (induction ps arbitrary: deps) (auto simp: dep_simps)
  show "dep_set (fold (\<lambda>f. push_dep_new s f) fs deps) q = dep_set deps q \<union> (if q = s then set fs else {})"
    by (induction fs arbitrary: deps) (auto simp: dep_simps)
qed

definition only_if :: "bool \<Rightarrow> string \<Rightarrow> string set" where
  "only_if b x = (if b then {x} else {})"

lemma only_if_simps [simp]: "x \<in> only_if b y \<longleftrightarrow> b \<and> x = y"
  by (simp add: only_if_def)

lemma dep_set_register [dep_simps]:
  "dep_set (register_addressing_dependency name addr deps) q =
     dep_set deps q \<union> only_if (\<exists>a \<in> set_option addr. q \<in> set (addressing_referenced_nodes a)) name"
  "dep_set (register_predicate_dependencies name preds deps) q =
     dep_set deps q \<union> only_if (q \<in> set (references preds)) name"
  "dep_set (register_invalidator_dependencies name invs deps) q = dep_set deps q \<union> only_if (q \<in> set invs) name"
  "dep_set (register_indexed_dependencies name iv deps) q =
     dep_set deps q \<union> only_if (\<exists>v \<in> set_option iv. q \<in> set (indexed_referenced_nodes v)) name"
  "dep_set (register_selection_dependencies s sel deps) q = dep_set deps q \<union> (if q = s then set sel else {})"
  "dep_set (register_formula_dependencies name ps deps) q = dep_set deps q \<union> only_if (q \<in> set ps) name"
  "dep_set (register_pointers name ptrs deps) q = dep_set deps q \<union> only_if (Some q \<in> set ptrs) name"
proof -
  have o: "q \<in> (\<Union>x\<in>set ptrs. set_option x) \<longleftrightarrow> Some q \<in> set ptrs" by force
  show "dep_set (register_pointers name ptrs deps) q = dep_set deps q \<union> only_if (Some q \<in> set ptrs) name"
    unfolding register_pointers_def dep_set_push_all by (simp add: o only_if_def)
qed (simp_all add: register_addressing_dependency_def register_predicate_dependencies_def
    register_invalidator_dependencies_def register_indexed_dependencies_def register_selection_dependencies_def
    register_formula_dependencies_def dep_set_push_all only_if_def split: option.split)

lemma dep_set_entries [dep_simps]:
  "dep_set (fold (register_entry name) es deps) q =
     dep_set deps q \<union> only_if (q \<in> set (enum_providers es) \<or> (\<exists>e \<in> set es. q \<in> set (references (ee_predicates e)))) name"
proof (induction es arbitrary: deps)
  case Nil
  then show ?case by (simp add: enum_providers_def only_if_def)
next
  case (Cons e es)
  show ?case
    unfolding fold_simps comp_def Cons
    by (auto simp: register_entry_def dep_simps enum_providers_def only_if_def split: enum_value_src.split)
qed

lemma dep_set_append: "dep_set deps q \<union> dep_set new q \<subseteq> dep_set (append_deps new deps) q"
proof (induction new arbitrary: deps)
  case Nil
  then show ?case by (simp add: append_deps_def)
next
  case (Cons e new)
  obtain p names where e: "e = (p, names)" by fastforce
  let ?d = "AList.update p (dep_list deps p @ names) deps"
  have "append_deps (e # new) deps = append_deps new ?d" by (simp add: append_deps_def e)
  moreover have "dep_set deps q \<subseteq> dep_set ?d q" by (simp add: dep_set_update) (simp add: dep_set_def)
  moreover have "dep_set (e # new) q \<subseteq> dep_set ?d q \<union> dep_set new q"
    by (simp add: dep_set_update e) (auto simp: dep_set_def dep_list_def)
  ultimately show ?case using Cons [of ?d] by auto
qed

section \<open>What a node reads\<close>

text \<open>Every node whose value, change or state a read, write or predicate of \<open>n\<close> goes through.\<close>

definition value_reads :: "'f node \<Rightarrow> string set" where
  "value_reads n =
     set (value_sources n) \<union> set (value_providers n) \<union>
     (case node_addressing n of Some a \<Rightarrow> set (addressing_referenced_nodes a) | None \<Rightarrow> {})"

definition state_reads :: "'f node \<Rightarrow> string set" where
  "state_reads n =
     set (references (node_predicates n)) \<union>
     (case n of
        NInteger i \<Rightarrow> set_option (i_p_min i) \<union> set_option (i_p_max i) \<union> set_option (i_p_inc i)
      | NFloat f \<Rightarrow> set_option (f_p_min f) \<union> set_option (f_p_max f)
      | NEnum e \<Rightarrow> set (enum_providers (e_entries e)) \<union> (\<Union>d \<in> set (e_entries e). set (references (ee_predicates d)))
      | NCommand c \<Rightarrow> (case c_command_value c of CommandFromNode p \<Rightarrow> {p} | CommandLiteral _ \<Rightarrow> {})
      | NConverter k \<Rightarrow> v_provider ` set (k_vars_to k)
      | NIntConverter k \<Rightarrow> v_provider ` set (k_vars_to k)
      | _ \<Rightarrow> {})"

definition node_reads :: "'f node \<Rightarrow> string set" where
  "node_reads n = value_reads n \<union> state_reads n"

lemmas node_reads_defs = node_reads_def value_reads_def state_reads_def value_sources_def value_providers_def

lemma set_list_option [simp]:
  "set (case x of Some a \<Rightarrow> g a | None \<Rightarrow> []) = (\<Union>a \<in> set_option x. set (g a))"
  by (cases x) simp_all

lemma set_addressing_option [simp]:
  "(case x of Some a \<Rightarrow> set (g a) | None \<Rightarrow> {}) = (\<Union>a \<in> set_option x. set (g a))"
  by (cases x) simp_all

lemma build_int_converter_reads:
  assumes "build_int_converter F d deps = Ok (n, deps')"
  shows "k_name n = dk_name d \<and> k_p_value n = dk_p_value d \<and>
    (\<forall>q. dep_set deps' q = dep_set deps q \<union> only_if (q \<in> v_provider ` set (k_vars_to n) \<union> v_provider ` set (k_vars_from n) \<union> {k_p_value n}) (k_name n) \<union>
       only_if (q \<in> set (references (k_predicates n))) (k_name n))"
proof -
  obtain bindings t fr where "resolve_bindings F (dk_name d) (dk_bindings d) = Ok bindings"
    "parse_formula F (dk_name d) (dk_formula_to d) = Ok t" "parse_formula F (dk_name d) (dk_formula_from d) = Ok fr"
    using assms by (auto simp: build_int_converter_def and_then_def Let_def split: result.splits)
  then show ?thesis using assms
    by (auto simp: build_int_converter_def and_then_def Let_def dep_simps split: result.splits)
qed

lemma build_swissknife_reads:
  assumes "build_swissknife F d deps = Ok ((name, n), deps')"
  shows "\<exists>s. n = NSwissKnife s \<and> s_name s = name \<and>
    (\<forall>q. dep_set deps' q = dep_set deps q \<union> only_if (q \<in> v_provider ` set (s_vars s)) name \<union>
       only_if (q \<in> set (references (s_predicates s))) name)"
  using assms
  by (auto simp: build_swissknife_def and_then_def Let_def dep_simps split: result.splits option.splits)

lemma build_node_reads:
  assumes b: "build_node F decl [] = Ok ((name, n), deps)" and q: "q \<in> node_reads n"
  shows "name \<in> dep_set deps q"
proof (cases decl)
  case (DInteger d)
  then show ?thesis using assms
    by (auto simp: build_node_def dep_simps node_reads_defs integer_node.truncate_def
        indexed_referenced_nodes_def elem_set)
next
  case (DFloat d)
  then show ?thesis using assms
    by (auto simp: build_node_def dep_simps node_reads_defs float_node.truncate_def
        indexed_referenced_nodes_def elem_set)
next
  case (DEnum d)
  then show ?thesis using assms
    by (auto simp: build_node_def dep_simps node_reads_defs build_enum_def elem_set)
next
  case (DBoolean d)
  then show ?thesis using assms
    by (auto simp: build_node_def dep_simps node_reads_defs elem_set)
next
  case (DCommand d)
  then show ?thesis using assms
    by (auto simp: build_node_def dep_simps node_reads_defs split: option.splits command_value_src.splits)
next
  case (DCategory d)
  then show ?thesis using assms
    by (auto simp: build_node_def dep_simps node_reads_defs elem_set)
next
  case (DSwissKnife d)
  then have "build_swissknife F d [] = Ok ((name, n), deps)" using b by (simp add: build_node_def)
  from build_swissknife_reads [OF this] q show ?thesis by (auto simp: node_reads_defs opt_list_def)
next
  case (DConverter d)
  then obtain k where k: "build_int_converter F d [] = Ok (k, deps)" and name: "name = k_name k"
    and n: "n = NConverter (int_converter_node.extend k (converter_node.fields (dk_output d)))"
    using b by (auto simp: build_node_def and_then_def split: result.splits)
  from build_int_converter_reads [OF k] q show ?thesis
    unfolding n name by (auto simp: node_reads_defs opt_list_def int_converter_node.defs converter_node.defs)
next
  case (DIntConverter d)
  then obtain k where k: "build_int_converter F d [] = Ok (k, deps)" and name: "name = k_name k"
    and n: "n = NIntConverter k"
    using b by (auto simp: build_node_def and_then_def split: result.splits)
  from build_int_converter_reads [OF k] q show ?thesis
    unfolding n name by (auto simp: node_reads_defs opt_list_def)
next
  case (DString d)
  then show ?thesis using assms
    by (auto simp: build_node_def dep_simps node_reads_defs string_node.truncate_def elem_set)
next
  case (DRegister d)
  then show ?thesis using assms
    by (auto simp: build_node_def dep_simps node_reads_defs register_node.truncate_def elem_set)
qed

section \<open>Every document loads\<close>

lemma parse_expression_returns: "parse_expression F s \<noteq> OutOfFuel"
proof (cases "parser_new F s")
  case (Inr p)
  have "parse_ternary (parse_fuel s) F s p \<noteq> OutOfFuel"
    by (rule parse_ternary_returns [OF parser_new_ok [OF Inr]]) simp
  then show ?thesis
    by (auto simp: parse_expression_def parse_expression_with_def Inr pbind_def split: parsed.split)
qed (simp add: parse_expression_def parse_expression_with_def)

lemma parse_formula_no_panic: "parse_formula F name s \<noteq> Panic"
  using parse_expression_returns [of F s] by (simp add: parse_formula_def split: parsed.split)

lemma and_then_Panic: "and_then r k = Panic \<longleftrightarrow> r = Panic \<or> (\<exists>v. r = Ok v \<and> k v = Panic)"
  by (cases r) (simp_all add: and_then_def)

lemma bind_constants_no_panic: "bind_constants F node cs b \<noteq> Panic"
  by (induction F node cs b rule: bind_constants.induct)
     (simp_all add: and_then_Panic parse_formula_no_panic del: fun_upd_apply)

lemma bind_expressions_no_panic: "bind_expressions F node es b \<noteq> Panic"
  by (induction F node es b rule: bind_expressions.induct)
     (simp_all add: and_then_Panic parse_formula_no_panic del: fun_upd_apply)

lemma qualified_var_no_panic: "qualified_var node v ext p \<noteq> Panic"
  by (simp add: qualified_var_def split: option.split)

lemma declared_vars_no_panic: "declared_vars node vs \<noteq> Panic"
  by (induction node vs rule: declared_vars.induct)
     (auto simp: and_then_Panic qualified_var_no_panic split: option.split)

lemma qualified_uses_no_panic: "qualified_uses node d ids \<noteq> Panic"
  by (induction ids) (auto simp: and_then_Panic qualified_var_no_panic split: option.split)

lemmas build_no_panic = parse_formula_no_panic bind_constants_no_panic bind_expressions_no_panic
  declared_vars_no_panic qualified_uses_no_panic

lemma build_int_converter_no_panic: "build_int_converter F d deps \<noteq> Panic"
  by (simp add: build_int_converter_def resolve_bindings_def formula_vars_def Let_def and_then_Panic build_no_panic)

lemma build_swissknife_no_panic: "build_swissknife F d deps \<noteq> Panic"
  by (auto simp: build_swissknife_def resolve_bindings_def formula_vars_def Let_def and_then_Panic build_no_panic
      split: option.split)

lemma build_node_no_panic: "build_node F decl deps \<noteq> Panic"
  by (auto simp: build_node_def and_then_Panic build_int_converter_no_panic build_swissknife_no_panic
      split: node_decl.split)

text \<open>What the loop keeps: all dependencies recorded, every declaration accounted for.\<close>

definition deps_recorded :: "(string \<times> 'f node) list \<Rightarrow> dependents \<Rightarrow> bool" where
  "deps_recorded nodes deps \<longleftrightarrow> list_all (\<lambda>(name, n). node_reads n \<subseteq> {p. name \<in> dep_set deps p}) nodes"

definition accounted :: "'f node_decl \<Rightarrow> (string \<times> 'f node) list \<Rightarrow>
    (skipped_node \<times> (string + 'f genapi_error)) list \<Rightarrow> bool" where
  "accounted d nodes skipped \<longleftrightarrow>
     decl_name d \<in> fst ` set nodes \<or> (\<exists>e. (\<lparr>sn_tag = decl_kind d, sn_name = Some (decl_name d)\<rparr>, Inr e) \<in> set skipped)"

lemma set_AList_update: "set (AList.update k v al) \<subseteq> insert (k, v) (set al)"
  by (induction al) auto

lemma build_node_name: "build_node F d deps = Ok ((name, n), deps') \<Longrightarrow> name = decl_name d"
  by (cases d) (auto simp: build_node_def and_then_def build_swissknife_def Let_def
      split: result.splits option.splits dest: build_int_converter_reads)

lemma build_all_spec:
  assumes "deps_recorded nodes deps"
  shows "\<exists>nodes' deps' skipped'. build_all F ds (nodes, deps, skipped) = Ok (nodes', deps', skipped') \<and>
    deps_recorded nodes' deps' \<and> fst ` set nodes \<subseteq> fst ` set nodes' \<and> set skipped \<subseteq> set skipped' \<and>
    list_all (\<lambda>d. accounted d nodes' skipped') ds"
  using assms
proof (induction ds arbitrary: nodes deps skipped)
  case (Cons d ds)
  show ?case
  proof (cases "build_node F d []")
    case (Ok r)
    then obtain name n new where r: "build_node F d [] = Ok ((name, n), new)" by (metis surj_pair)
    let ?nodes = "AList.update name n nodes" and ?deps = "append_deps new deps"
    have step: "build_all F (d # ds) (nodes, deps, skipped) = build_all F ds (?nodes, ?deps, skipped)" by (simp add: r)
    have "deps_recorded ?nodes ?deps"
      using Cons.prems build_node_reads [OF r] set_AList_update [of name n nodes] dep_set_append [of deps _ new]
      unfolding deps_recorded_def list_all_iff by fast
    from Cons.IH [OF this, of skipped] obtain nodes' deps' skipped' where
      ih: "build_all F ds (?nodes, ?deps, skipped) = Ok (nodes', deps', skipped')" "deps_recorded nodes' deps'"
        "fst ` set ?nodes \<subseteq> fst ` set nodes'" "set skipped \<subseteq> set skipped'"
        "list_all (\<lambda>d. accounted d nodes' skipped') ds" by blast
    have keys: "fst ` set ?nodes = insert name (fst ` set nodes)" by (simp add: dom_update)
    moreover have "accounted d nodes' skipped'"
      using ih(3) keys build_node_name [OF r] by (auto simp: accounted_def)
    ultimately show ?thesis using ih unfolding step by simp
  next
    case (Err e)
    have step: "build_all F (d # ds) (nodes, deps, skipped) =
      build_all F ds (nodes, deps, skipped @ [(\<lparr>sn_tag = decl_kind d, sn_name = Some (decl_name d)\<rparr>, Inr e)])"
      by (simp add: Err)
    from Cons.IH [OF Cons.prems] obtain nodes' deps' skipped' where
      ih: "build_all F ds (nodes, deps, skipped @ [(\<lparr>sn_tag = decl_kind d, sn_name = Some (decl_name d)\<rparr>, Inr e)]) =
          Ok (nodes', deps', skipped')" "deps_recorded nodes' deps'"
        "fst ` set nodes \<subseteq> fst ` set nodes'"
        "set (skipped @ [(\<lparr>sn_tag = decl_kind d, sn_name = Some (decl_name d)\<rparr>, Inr e)]) \<subseteq> set skipped'"
        "list_all (\<lambda>d. accounted d nodes' skipped') ds" by blast
    have "accounted d nodes' skipped'" using ih(4) by (auto simp: accounted_def)
    then show ?thesis using ih unfolding step by simp
  qed (simp add: build_node_no_panic)
qed (simp add: deps_recorded_def)

lemma dep_set_links:
  "dep_set deps q \<subseteq> dep_set (fold (\<lambda>(a, b). push_dep_new a b) links deps) q"
proof (induction links arbitrary: deps)
  case (Cons l links)
  obtain a b where l: "l = (a, b)" by fastforce
  have "dep_set deps q \<subseteq> dep_set (push_dep_new a b deps) q" by (auto simp: dep_simps)
  then show ?case using Cons [of "push_dep_new a b deps"] by (simp add: l)
qed simp

lemma deps_recorded_mono:
  "deps_recorded nodes deps \<Longrightarrow> (\<And>q. dep_set deps q \<subseteq> dep_set deps' q) \<Longrightarrow> deps_recorded nodes deps'"
  unfolding deps_recorded_def list_all_iff by fast

definition finish :: "'f nodemap \<Rightarrow> 'f nodemap" where
  "finish nm = build_refresh (link_port_dependents (link_selected_values nm))"

lemma finish_nodes: "nm_nodes (finish nm) = nm_nodes nm" "nm_skipped (finish nm) = nm_skipped nm"
  by (simp_all add: finish_def build_refresh_def link_port_dependents_def link_selected_values_def Let_def)

lemma linked_dependents:
  "nm_dependents (link_selected_values nm) = fold (\<lambda>(a, b). push_dep_new a b) (selected_links nm) (nm_dependents nm)"
  "nm_dependents (link_port_dependents nm) = fold (\<lambda>(a, b). push_dep_new a b) (port_links nm) (nm_dependents nm)"
  "nm_dependents (build_refresh nm) = nm_dependents nm"
  unfolding link_selected_values_def link_port_dependents_def build_refresh_def Let_def
  by (cases nm, simp)+

lemma finish_dependents: "dep_set (nm_dependents nm) q \<subseteq> dep_set (nm_dependents (finish nm)) q"
  unfolding finish_def linked_dependents(3) linked_dependents(2) linked_dependents(1)
  by (rule order_trans [OF dep_set_links dep_set_links])

text \<open>
  C23. Every document loads. Each of its declarations is a node of the map or is reported as lost
  with the error of its build, and whatever a node reads through (its value, address, limits,
  predicates, formula variables) has the node among its dependents.
\<close>
theorem document_loads:
  "\<exists>nm. try_from_xml F model = Ok nm \<and>
     list_all (\<lambda>d. accounted d (nm_nodes nm) (nm_skipped nm)) (xm_nodes model) \<and>
     deps_recorded (nm_nodes nm) (nm_dependents nm)"
proof -
  let ?skipped = "map (\<lambda>(s, msg). (s, Inl msg)) (xm_skipped model)"
  obtain nodes deps skipped where
    b: "build_all F (xm_nodes model) ([], [], ?skipped) = Ok (nodes, deps, skipped)" "deps_recorded nodes deps"
      "list_all (\<lambda>d. accounted d nodes skipped) (xm_nodes model)"
    using build_all_spec [of "[]" "[]" F "xm_nodes model" ?skipped] by (auto simp: deps_recorded_def)
  define nm where "nm = \<lparr>nm_version = xm_version model, nm_nodes = nodes, nm_dependents = deps, nm_command_targets = {},
    nm_skipped = skipped, nm_ports = collect_ports (xm_ports model), nm_modes = Map.empty,
    nm_via_polled = {}, nm_polling = Map.empty, nm_polled = []\<rparr>"
  define nm' where "nm' = nm\<lparr>nm_command_targets := find_command_targets nm\<rparr>"
  have t: "try_from_xml F model = Ok (finish nm')"
    unfolding try_from_xml_def b(1) and_then_def Let_def finish_def nm'_def nm_def by simp
  have n: "nm_nodes nm' = nodes" "nm_skipped nm' = skipped" "nm_dependents nm' = deps" by (simp_all add: nm'_def nm_def)
  have "deps_recorded nodes (nm_dependents (finish nm'))"
    by (rule deps_recorded_mono [OF b(2)]) (use finish_dependents [of nm'] n(3) in simp)
  then show ?thesis using t b(3) by (simp add: finish_nodes n)
qed

end
