(* ===== verification/Node_Invalidation.thy ===== *)
theory Node_Invalidation
  imports Node_State Nodemap_Props Nodemap_Build
begin

text \<open>
  Invalidation reaches exactly the nodes that depend on the one that changed, drops their caches
  and nothing else, and records the change (\<^verbatim>\<open>invalidate_dependents\<close> and
  \<^verbatim>\<open>invalidate_recursive\<close> of \<^verbatim>\<open>crates/viva-genapi/src/nodemap.rs\<close>); reading a port stays
  inside the data attached to it (\<^verbatim>\<open>slice_port_data\<close> of \<^verbatim>\<open>nodemap/ports.rs\<close>).
\<close>

section \<open>Dropping the caches of a set of nodes\<close>

definition drop_cells :: "'f nodemap \<Rightarrow> string \<Rightarrow> 'f cells \<Rightarrow> 'f cells" where
  "drop_cells nm name c = (case get_node nm name of Some n \<Rightarrow> invalidate_cache n c | None \<Rightarrow> c)"

definition touched :: "'f nodemap \<Rightarrow> string set \<Rightarrow> ('f, 'd) nm_state \<Rightarrow> ('f, 'd) nm_state" where
  "touched nm V s =
     s\<lparr>st_cells := (\<lambda>x. if x \<in> V then drop_cells nm x (st_cells s x) else st_cells s x),
       st_changed := (\<lambda>x. if x \<in> V then Some (st_generation s) else st_changed s x)\<rparr>"

lemma invalidate_cache_idem [simp]: "invalidate_cache n (invalidate_cache n c) = invalidate_cache n c"
  by (cases n) simp_all

lemma drop_cells_idem [simp]: "drop_cells nm x (drop_cells nm x c) = drop_cells nm x c"
  by (simp add: drop_cells_def split: option.split)

lemma touched_empty [simp]: "touched nm {} s = s"
  by (simp add: touched_def)

lemma touched_touched [simp]: "touched nm W (touched nm V s) = touched nm (V \<union> W) s"
  by (rule nm_state.equality) (auto simp: touched_def fun_eq_iff)

lemma touched_one: "note_changed name (invalidate_node nm name s) = touched nm {name} s"
  by (rule nm_state.equality)
     (auto simp: touched_def note_changed_def invalidate_node_def map_cells_def drop_cells_def fun_eq_iff
       split: option.split)

section \<open>The recursion\<close>

definition dependent_names :: "'f nodemap \<Rightarrow> string set" where
  "dependent_names nm = set (concat (map snd (nm_dependents nm)))"

lemma dependents_in: "set (dependents_of nm x) \<subseteq> dependent_names nm"
proof (cases "map_of (nm_dependents nm) x")
  case (Some l)
  then have "(x, l) \<in> set (nm_dependents nm)" by (rule map_of_SomeD)
  then show ?thesis using Some by (force simp: dependents_of_def dep_list_def dependent_names_def)
qed (simp add: dependents_of_def dep_list_def)

lemma dependents_moves: "set (dependents_of nm x) = moves (nm_dependents nm) `` {x}"
  by (simp add: dependents_of_def moves_Image)

text \<open>What one call does to the names visited and to the state.\<close>

definition visits :: "'f nodemap \<Rightarrow> string set \<Rightarrow> string set \<times> ('f, 'd) nm_state \<Rightarrow> string set \<times> ('f, 'd) nm_state \<Rightarrow> bool" where
  "visits nm names before result \<longleftrightarrow>
     snd result = touched nm (fst result - fst before) (snd before) \<and>
     fst before \<union> names \<subseteq> fst result \<and>
     fst result \<subseteq> fst before \<union> (moves (nm_dependents nm))\<^sup>* `` names \<and>
     moves (nm_dependents nm) `` (fst result - fst before) \<subseteq> fst result"

lemma visits_none: "visits nm {} acc acc"
  by (simp add: visits_def)

lemma visits_trans:
  assumes "visits nm A a b" "visits nm B b c"
  shows "visits nm (A \<union> B) a c"
proof -
  have "snd c = touched nm ((fst b - fst a) \<union> (fst c - fst b)) (snd a)" using assms by (simp add: visits_def)
  moreover have "(fst b - fst a) \<union> (fst c - fst b) = fst c - fst a" using assms by (auto simp: visits_def)
  moreover have "fst c \<subseteq> fst a \<union> (moves (nm_dependents nm))\<^sup>* `` (A \<union> B)" using assms unfolding visits_def by blast
  moreover have "moves (nm_dependents nm) `` (fst c - fst a) \<subseteq> fst c"
  proof -
    have "fst c - fst a \<subseteq> (fst b - fst a) \<union> (fst c - fst b)" by blast
    then have "moves (nm_dependents nm) `` (fst c - fst a) \<subseteq>
        moves (nm_dependents nm) `` (fst b - fst a) \<union> moves (nm_dependents nm) `` (fst c - fst b)" by blast
    moreover have "fst b \<subseteq> fst c" using assms(2) unfolding visits_def by blast
    ultimately show ?thesis using assms unfolding visits_def by blast
  qed
  moreover have "fst a \<union> (A \<union> B) \<subseteq> fst c" using assms unfolding visits_def by blast
  ultimately show ?thesis unfolding visits_def by simp
qed

lemma invalidate_recursive_visits:
  fixes acc :: "string set \<times> ('f, 'd) nm_state"
  assumes "card (insert name (dependent_names nm) - fst acc) < k"
  shows "visits nm {name} acc (invalidate_recursive k nm name acc)"
  using assms
proof (induction k arbitrary: name acc)
  case (Suc k)
  obtain visited s where acc: "acc = (visited, s)" by fastforce
  show ?case
  proof (cases "name \<in> visited")
    case True
    then show ?thesis by (simp add: acc visits_def)
  next
    case False
    let ?U = "dependent_names nm"
    define start where "start = (insert name visited, touched nm {name} s)"
    have fin: "finite ?U" by (simp add: dependent_names_def)
    have "?U - insert name visited \<subset> insert name ?U - visited" using False by blast
    then have small: "card (?U - insert name visited) < k"
      using Suc.prems fin by (simp add: acc) (meson finite.insertI finite_Diff less_trans_Suc not_less_eq psubset_card_mono order_less_le_trans less_Suc_eq_le)
    have loop: "visits nm (set cs) b (fold (invalidate_recursive k nm) cs b)"
      if "set cs \<subseteq> ?U" "insert name visited \<subseteq> fst b"
      for cs and b :: "string set \<times> ('f, 'd) nm_state"
      using that
    proof (induction cs arbitrary: b)
      case Nil
      then show ?case by (simp add: visits_none)
    next
      case (Cons c cs)
      have "insert c ?U - fst b \<subseteq> ?U - insert name visited" using Cons.prems by auto
      then have "card (insert c ?U - fst b) < k" using small fin by (meson card_mono finite_Diff le_less_trans)
      note one = Suc.IH [OF this]
      then have "insert name visited \<subseteq> fst (invalidate_recursive k nm c b)"
        using Cons.prems(2) unfolding visits_def by blast
      then have rest: "visits nm (set cs) (invalidate_recursive k nm c b)
          (fold (invalidate_recursive k nm) cs (invalidate_recursive k nm c b))"
        using Cons by simp
      show ?case using visits_trans [OF one rest] by simp
    qed
    have "visits nm (set (dependents_of nm name)) start (fold (invalidate_recursive k nm) (dependents_of nm name) start)"
      by (rule loop [OF dependents_in]) (simp add: start_def)
    moreover have "invalidate_recursive (Suc k) nm name acc = fold (invalidate_recursive k nm) (dependents_of nm name) start"
      using False by (simp add: acc start_def touched_one)
    moreover define result where "result = fold (invalidate_recursive k nm) (dependents_of nm name) start"
    ultimately have v: "visits nm (moves (nm_dependents nm) `` {name}) start result"
      and e: "invalidate_recursive (Suc k) nm name acc = result" by (simp_all add: dependents_moves)
    have s: "fst start = insert name visited" "snd start = touched nm {name} s" by (simp_all add: start_def)
    have "snd result = touched nm (insert name (fst result - insert name visited)) s"
      using v by (simp add: visits_def s)
    moreover have "insert name (fst result - insert name visited) = fst result - visited"
      using v False by (auto simp: visits_def s)
    moreover have "(moves (nm_dependents nm))\<^sup>* `` (moves (nm_dependents nm) `` {name}) \<subseteq> (moves (nm_dependents nm))\<^sup>* `` {name}"
      by (auto intro: converse_rtrancl_into_rtrancl)
    then have "fst result \<subseteq> visited \<union> (moves (nm_dependents nm))\<^sup>* `` {name}"
      using v unfolding visits_def s by blast
    moreover have "moves (nm_dependents nm) `` (fst result - visited) \<subseteq> fst result"
      using v unfolding visits_def s by blast
    moreover have "insert name visited \<subseteq> fst result" using v unfolding visits_def s by blast
    ultimately show ?thesis unfolding e by (simp add: visits_def acc)
  qed
qed simp

lemma card_dependent_names: "card (dependent_names nm) < invalidation_fuel nm - 1"
proof -
  have "card (dependent_names nm) \<le> length (concat (map snd (nm_dependents nm)))"
    unfolding dependent_names_def by (rule card_length)
  then show ?thesis by (simp add: invalidation_fuel_def)
qed

lemma invalidate_fold:
  "visits nm (set names) acc (fold (invalidate_recursive (invalidation_fuel nm) nm) names acc)"
proof (induction names arbitrary: acc)
  case (Cons x xs)
  have "card (insert x (dependent_names nm) - fst acc) \<le> card (insert x (dependent_names nm))"
    by (rule card_mono) (auto simp: dependent_names_def)
  also have "\<dots> \<le> Suc (card (dependent_names nm))" by (simp add: card_insert_if dependent_names_def)
  also have "\<dots> < invalidation_fuel nm" using card_dependent_names [of nm] by linarith
  finally have "visits nm {x} acc (invalidate_recursive (invalidation_fuel nm) nm x acc)"
    by (rule invalidate_recursive_visits)
  from visits_trans [OF this Cons] show ?case by simp
qed (simp add: visits_none)

lemma invalidate_fold_all:
  "fold (invalidate_recursive (invalidation_fuel nm) nm) names ({}, s) =
     ((moves (nm_dependents nm))\<^sup>* `` set names, touched nm ((moves (nm_dependents nm))\<^sup>* `` set names) s)"
proof -
  define r where "r = fold (invalidate_recursive (invalidation_fuel nm) nm) names ({}, s)"
  have v: "visits nm (set names) ({}, s) r" unfolding r_def by (rule invalidate_fold)
  then have "(moves (nm_dependents nm))\<^sup>* `` fst r = fst r"
    by (intro Image_closed_trancl) (simp add: visits_def)
  then have "fst r = (moves (nm_dependents nm))\<^sup>* `` set names" using v unfolding visits_def fst_conv by blast
  moreover have "snd r = touched nm (fst r) s" using v by (simp add: visits_def)
  ultimately show ?thesis unfolding r_def [symmetric] by (metis prod.collapse)
qed

lemma invalidate_dependents_touched:
  "invalidate_dependents nm name s =
     touched nm ((moves (nm_dependents nm))\<^sup>* `` set (dependents_of nm name))
       (s\<lparr>st_generation := st_generation s + 1, st_changed := (st_changed s)(name \<mapsto> st_generation s + 1)\<rparr>)"
  by (simp add: invalidate_dependents_def invalidate_fold_all note_changed_def bump_generation_def)

text \<open>
  What it is for a node to have nothing cached, kind by kind: none of the cells that its reads answer
  from holds a value. What was written to a floating node is no cache.
\<close>

fun nothing_cached :: "'f node \<Rightarrow> 'f cells \<Rightarrow> bool" where
  "nothing_cached (NInteger _) c \<longleftrightarrow> ce_int c = None \<and> ce_raw c = None"
| "nothing_cached (NFloat _) c \<longleftrightarrow> ce_float c = None"
| "nothing_cached (NEnum _) c \<longleftrightarrow> ce_entry c = None \<and> ce_mapping c = None"
| "nothing_cached (NBoolean _) c \<longleftrightarrow> ce_bool c = None \<and> ce_raw c = None"
| "nothing_cached (NSwissKnife _) c \<longleftrightarrow> ce_value c = None"
| "nothing_cached (NConverter _) c \<longleftrightarrow> ce_value c = None"
| "nothing_cached (NIntConverter _) c \<longleftrightarrow> ce_intconv c = None"
| "nothing_cached (NString _) c \<longleftrightarrow> ce_string c = None"
| "nothing_cached (NRegister _) c \<longleftrightarrow> ce_bytes c = None"
| "nothing_cached (NCommand _) c \<longleftrightarrow> True"
| "nothing_cached (NCategory _) c \<longleftrightarrow> True"

definition same_written :: "'f cells \<Rightarrow> 'f cells \<Rightarrow> bool" where
  "same_written c c' \<longleftrightarrow>
     ce_floating c' = ce_floating c \<and> ce_floating_float c' = ce_floating_float c \<and>
     ce_floating_string c' = ce_floating_string c \<and> ce_written c' = ce_written c \<and>
     ce_written_float c' = ce_written_float c"

lemma invalidate_cache_drops: "nothing_cached n (invalidate_cache n c)" "same_written c (invalidate_cache n c)"
  by (cases n; simp add: same_written_def)+

text \<open>
  C25. A change to a node drops the caches of exactly the nodes that depend on it, directly or
  through others: each of them is left with nothing cached, whatever its kind, and with what was
  written to it; the cells of every other node stay as they are. The new generation is recorded
  against the node and its dependents and nothing else of the state changes. In particular the
  recursion always has enough fuel.
\<close>
theorem invalidate_dependents_exact:
  fixes nm :: "'f nodemap" and name :: string and s :: "('f, 'd) nm_state"
  defines "V \<equiv> (moves (nm_dependents nm))\<^sup>* `` set (dependents_of nm name)" and "s' \<equiv> invalidate_dependents nm name s"
  shows "(\<forall>x. if x \<in> V
      then (case get_node nm x of
              None \<Rightarrow> st_cells s' x = st_cells s x
            | Some n \<Rightarrow> nothing_cached n (st_cells s' x) \<and> same_written (st_cells s x) (st_cells s' x))
      else st_cells s' x = st_cells s x) \<and>
    (\<forall>x. st_changed s' x = (if x = name \<or> x \<in> V then Some (st_generation s + 1) else st_changed s x)) \<and>
    s' = s\<lparr>st_generation := st_generation s + 1, st_cells := st_cells s', st_changed := st_changed s'\<rparr>"
proof -
  have s': "s' = touched nm V
      (s\<lparr>st_generation := st_generation s + 1, st_changed := (st_changed s)(name \<mapsto> st_generation s + 1)\<rparr>)"
    unfolding s'_def V_def by (rule invalidate_dependents_touched)
  have "st_cells s' = (\<lambda>x. if x \<in> V then drop_cells nm x (st_cells s x) else st_cells s x)"
    by (auto simp: s' touched_def fun_eq_iff)
  moreover have "st_changed s' = (\<lambda>x. if x = name \<or> x \<in> V then Some (st_generation s + 1) else st_changed s x)"
    by (auto simp: s' touched_def fun_eq_iff)
  moreover have "s' = s\<lparr>st_generation := st_generation s + 1, st_cells := st_cells s', st_changed := st_changed s'\<rparr>"
    by (rule nm_state.equality) (simp_all add: s' touched_def)
  ultimately show ?thesis
    by (auto simp: drop_cells_def invalidate_cache_drops split: option.split)
qed

section \<open>Data attached to ports\<close>

text \<open>
  Reading a port gives exactly the bytes asked for when they lie inside the attached data, a
  negative offset counting from the end of a chunk, and the range error otherwise; it never panics.
\<close>
theorem slice_port_data_exact:
  "slice_port_data node port data off len from_end =
     (let start = (if sint off < 0 then int (length data) + sint off else sint off) in
      if (0 \<le> sint off \<or> from_end) \<and> 0 \<le> start \<and> start + uint len \<le> int (length data)
      then Ok (take (unat len) (drop (nat start) data))
      else Err (PortOutOfRange node port off len (length data)))"
proof -
  define take_from where "take_from = (\<lambda>start. if start + unat len \<le> length data
      then or_panic (subslice start (start + unat len) data) Ok
      else Err (PortOutOfRange node port off len (length data)) :: (bytes, 'a genapi_error) result)"
  have tf: "take_from start = (if int start + uint len \<le> int (length data)
      then Ok (take (unat len) (drop start data)) else Err (PortOutOfRange node port off len (length data)))" for start
  proof -
    have "uint len = int (unat len)" by simp
    then have "int start + uint len \<le> int (length data) \<longleftrightarrow> start + unat len \<le> length data" by linarith
    then show ?thesis by (simp add: take_from_def subslice_def or_panic_def take_drop add.commute)
  qed
  have e: "slice_port_data node port data off len from_end =
      (if sint off < 0 then
         (if \<not> from_end then Err (PortOutOfRange node port off len (length data))
          else if nat (- sint off) > length data then Err (PortOutOfRange node port off len (length data))
          else take_from (length data - nat (- sint off)))
       else take_from (nat (sint off)))"
    by (simp only: slice_port_data_def take_from_def Let_def)
  show ?thesis
  proof (cases "sint off < 0")
    case True
    show ?thesis
    proof (cases "nat (- sint off) > length data")
      case big: True
      then have "int (length data) + sint off < 0" using True by linarith
      then show ?thesis using True big by (simp add: e Let_def)
    next
      case small: False
      then have "int (length data - nat (- sint off)) = int (length data) + sint off"
        and "length data - nat (- sint off) = nat (int (length data) + sint off)"
        and "0 \<le> int (length data) + sint off" using True by linarith+
      then show ?thesis using True small by (simp add: e tf)
    qed
  next
    case False
    then show ?thesis by (simp add: e tf)
  qed
qed

lemma build_node_own_name:
  assumes "build_node F d deps = Ok ((name, n), deps')"
  shows "node_name n = name"
proof (cases d)
  case (DSwissKnife k)
  then show ?thesis using assms build_swissknife_reads [of F k deps name n deps'] by (auto simp: build_node_def)
next
  case (DConverter k)
  then show ?thesis using assms
    by (auto simp: build_node_def and_then_def int_converter_node.defs converter_node.defs split: result.splits)
qed (use assms in \<open>auto simp: build_node_def and_then_def build_enum_def integer_node.defs float_node.defs
    string_node.defs register_node.defs split: result.splits\<close>)

definition named :: "(string \<times> 'f node) list \<Rightarrow> bool" where
  "named nodes \<longleftrightarrow> list_all (\<lambda>(name, n). node_name n = name) nodes"

lemma build_all_named:
  "named nodes \<Longrightarrow> build_all F ds (nodes, deps, skipped) = Ok (nodes', deps', skipped') \<Longrightarrow> named nodes'"
proof (induction ds arbitrary: nodes deps skipped)
  case (Cons d ds)
  show ?case
  proof (cases "build_node F d []")
    case (Ok r)
    then obtain name n new where r: "build_node F d [] = Ok ((name, n), new)" by (metis surj_pair)
    have "named (AList.update name n nodes)"
      using Cons.prems(1) build_node_own_name [OF r] set_AList_update [of name n nodes]
      unfolding named_def list_all_iff by fast
    then show ?thesis using Cons.IH Cons.prems(2) by (simp add: r)
  next
    case (Err e)
    then show ?thesis using Cons.IH [OF Cons.prems(1)] Cons.prems(2) by simp
  qed (use Cons.prems in simp)
qed simp

lemma try_from_xml_finish:
  assumes "try_from_xml F model = Ok nm"
  shows "\<exists>nm0. nm = finish nm0 \<and> named (nm_nodes nm0)"
proof -
  let ?skipped = "map (\<lambda>(s, msg). (s, Inl msg)) (xm_skipped model)"
  obtain nodes deps skipped where
    b: "build_all F (xm_nodes model) ([], [], ?skipped) = Ok (nodes, deps, skipped)"
    using build_all_spec [of "[]" "[]" F "xm_nodes model" ?skipped] by (auto simp: deps_recorded_def)
  have "named nodes" by (rule build_all_named [OF _ b]) (simp add: named_def)
  then show ?thesis using assms unfolding try_from_xml_def b and_then_def Let_def finish_def
    by (auto intro!: exI)
qed

lemma dep_set_link_in:
  "(a, b) \<in> set links \<Longrightarrow> b \<in> dep_set (fold (\<lambda>(a, b). push_dep_new a b) links deps) a"
proof (induction links arbitrary: deps)
  case (Cons l links)
  show ?case
  proof (cases "l = (a, b)")
    case True
    have "b \<in> dep_set (push_dep_new a b deps) a" by (simp add: dep_simps)
    then show ?thesis using dep_set_links [of "push_dep_new a b deps" a links] True by auto
  next
    case False
    then show ?thesis using Cons by auto
  qed
qed simp

lemma link_fields:
  "nm_nodes (link_selected_values nm) = nm_nodes nm" "nm_ports (link_selected_values nm) = nm_ports nm"
  "nm_ports (finish nm) = nm_ports nm"
  unfolding finish_def link_selected_values_def link_port_dependents_def build_refresh_def Let_def
  by (cases nm, simp)+

lemma port_dependent:
  assumes "named (nm_nodes nm)" "get_node nm x = Some n" "node_addressing n = Some a" "ad_port a = Some p"
    "map_of (nm_ports nm) p = Some k" "data_port (Some k)"
  shows "x \<in> set (dependents_of (finish nm) p)"
proof -
  have x: "(x, n) \<in> set (nm_nodes nm)" using assms(2) by (auto simp: get_node_def dest: map_of_SomeD)
  then have "node_name n = x" using assms(1) by (auto simp: named_def list_all_iff)
  then have "(p, x) \<in> set (port_links (link_selected_values nm))"
    using x assms(3-6) by (force simp: port_links_def link_fields)
  then show ?thesis
    unfolding dependents_of_def finish_def linked_dependents(3) linked_dependents(2) dep_set_def [symmetric]
    by (rule dep_set_link_in)
qed

text \<open>A node whose caches are empty keeps them empty under further invalidation.\<close>

lemma clean_touched:
  "get_node nm y = Some n \<Longrightarrow> nothing_cached n (st_cells s y) \<or> y \<in> V \<Longrightarrow>
   nothing_cached n (st_cells (touched nm V s) y)"
  by (auto simp: touched_def drop_cells_def invalidate_cache_drops)

lemma clean_invalidate:
  assumes "get_node nm y = Some n"
    "nothing_cached n (st_cells s y) \<or> y \<in> (moves (nm_dependents nm))\<^sup>* `` set (dependents_of nm name)"
  shows "nothing_cached n (st_cells (invalidate_dependents nm name s) y)"
  unfolding invalidate_dependents_touched by (rule clean_touched [OF assms(1)]) (use assms(2) in simp)

lemma clean_ports:
  fixes s :: "('f, 'd) nm_state"
  assumes y: "get_node nm y = Some n"
    and port: "(p, k :: 'k) \<in> set ports" "which k" "y \<in> (moves (nm_dependents nm))\<^sup>* `` set (dependents_of nm p)"
  shows "nothing_cached n (st_cells (fold (\<lambda>(name, kind) s. if which kind then invalidate_dependents nm name s else s) ports s) y)"
proof -
  define f :: "string \<times> 'k \<Rightarrow> ('f, 'd) nm_state \<Rightarrow> ('f, 'd) nm_state"
    where "f = (\<lambda>(name, kind) s. if which kind then invalidate_dependents nm name s else s)"
  have keep: "nothing_cached n (st_cells s y) \<Longrightarrow> nothing_cached n (st_cells (f e s) y)" for e and s :: "('f, 'd) nm_state"
    using clean_invalidate [OF y] by (auto simp: f_def split: prod.split)
  have keep_all: "nothing_cached n (st_cells s y) \<Longrightarrow> nothing_cached n (st_cells (fold f es s) y)" for es and s :: "('f, 'd) nm_state"
    by (induction es arbitrary: s) (simp_all add: keep)
  obtain before later where ports: "ports = before @ (p, k) # later" using port(1) by (meson split_list)
  have "nothing_cached n (st_cells (f (p, k) (fold f before s)) y)"
    using clean_invalidate [OF y, of "fold f before s" p] port(2,3) by (simp add: f_def)
  then show ?thesis unfolding f_def [symmetric] ports using keep_all by simp
qed

text \<open>
  C26. Once the chunks of another buffer are attached, or detached, no node that depends on a
  register of a chunk port has a cached value left from the data before: every cell its reads answer
  from is empty.
\<close>
theorem chunk_features_never_stale:
  fixes s :: "('f, 'd) nm_state"
  assumes "try_from_xml F model = Ok nm" "get_node nm x = Some n" "node_addressing n = Some a"
    "ad_port a = Some p" "map_of (nm_ports nm) p = Some (PortChunk i)"
    "(x, y) \<in> (moves (nm_dependents nm))\<^sup>*" "get_node nm y = Some m"
  shows "nothing_cached m (st_cells (attach_chunks nm chunks s) y) \<and> nothing_cached m (st_cells (detach_chunks nm s) y)"
proof -
  obtain nm0 where nm: "nm = finish nm0" and named: "named (nm_nodes nm0)" using try_from_xml_finish [OF assms(1)] by blast
  have "x \<in> set (dependents_of nm p)"
    unfolding nm using port_dependent [OF named _ assms(3,4)] assms(2,5)
    by (simp add: nm get_node_def finish_nodes link_fields data_port_def)
  then have "y \<in> (moves (nm_dependents nm))\<^sup>* `` set (dependents_of nm p)" using assms(6) by auto
  note clean = clean_ports [OF assms(7) map_of_SomeD [OF assms(5)] _ this, of is_chunk_port]
  have "is_chunk_port (PortChunk i)" by (simp add: is_chunk_port_def)
  note clean = clean [OF this]
  have bump: "st_cells (bump_generation s') = st_cells s'" for s' :: "('f, 'd) nm_state"
    by (simp add: bump_generation_def)
  show ?thesis
    unfolding attach_chunks_def detach_chunks_def invalidate_ports_def bump by (intro conjI clean)
qed

text \<open>A document with one register on a chunk port.\<close>

definition timestamp_register :: register_node where
  "timestamp_register =
     \<lparr>r_name = ''Timestamp'', r_meta = plain_meta,
      r_addressing = \<lparr>ad_terms = [TermFixed 0], ad_len = 8, ad_port = Some ''ChunkPort'', ad_p_length = None\<rparr>,
      r_access = RO, r_predicates = no_predicates\<rparr>"

definition chunk_document :: "int xml_model" where
  "chunk_document =
     \<lparr>xm_version = ''1.1'', xm_nodes = [DRegister (register_node.extend timestamp_register (register_decl.fields []))],
      xm_ports = [(''ChunkPort'', PortChunk 7)], xm_skipped = []\<rparr>"

definition stale_state :: "(int, unit) nm_state" where
  "stale_state = map_cells ''Timestamp'' (\<lambda>c. c\<lparr>ce_bytes := Some ([9, 9], 0)\<rparr>) (initial_state ())"

lemma chunk_features_never_stale_witness:
  "\<exists>nm. try_from_xml whole_floats chunk_document = Ok nm \<and>
     ce_bytes (st_cells stale_state ''Timestamp'') = Some ([9, 9], 0) \<and>
     ce_bytes (st_cells (attach_chunks nm [(7, [1, 2])] stale_state) ''Timestamp'') = None \<and>
     ce_bytes (st_cells (detach_chunks nm stale_state) ''Timestamp'') = None"
proof -
  obtain nm where nm: "try_from_xml whole_floats chunk_document = Ok nm" "nm_ports nm = [(''ChunkPort'', PortChunk 7)]"
    "nm_nodes nm = [(''Timestamp'', NRegister timestamp_register)]"
  proof -
    define nm0 :: "int nodemap" where "nm0 = empty_map\<lparr>nm_version := ''1.1'', nm_ports := [(''ChunkPort'', PortChunk 7)],
      nm_nodes := [(''Timestamp'', NRegister timestamp_register)]\<rparr>"
    have "build_all whole_floats (xm_nodes chunk_document) ([], [], []) =
        Ok ([(''Timestamp'', NRegister timestamp_register)], [], [])"
      by (simp add: chunk_document_def build_node_def register_node.defs register_decl.defs timestamp_register_def
          register_invalidator_dependencies_def register_predicate_dependencies_def references_def no_predicates_def
          opt_list_def register_addressing_dependency_def addressing_referenced_nodes_def term_nodes_def append_deps_def)
    then have "try_from_xml whole_floats chunk_document = Ok (finish (nm0\<lparr>nm_command_targets := find_command_targets nm0\<rparr>))"
      by (simp add: try_from_xml_def and_then_def Let_def finish_def nm0_def empty_map_def chunk_document_def collect_ports_def)
    then show ?thesis
      by (rule that) (simp_all add: link_fields finish_nodes nm0_def)
  qed
  have "nothing_cached (NRegister timestamp_register) (st_cells (attach_chunks nm [(7, [1, 2])] stale_state) ''Timestamp'') \<and>
      nothing_cached (NRegister timestamp_register) (st_cells (detach_chunks nm stale_state) ''Timestamp'')"
    by (rule chunk_features_never_stale [OF nm(1), where n = "NRegister timestamp_register" and x = "''Timestamp''"
          and a = "r_addressing timestamp_register" and p = "''ChunkPort''" and i = 7])
       (simp_all add: nm get_node_def timestamp_register_def)
  then show ?thesis using nm(1) by (auto simp: stale_state_def map_cells_def)
qed

end
