(* ===== verification/Node_Reads.thy ===== *)
theory Node_Reads
  imports Node_State
begin

text \<open>
  Reading features through the node map (\<^verbatim>\<open>crates/viva-genapi/src/nodemap.rs\<close>,
  \<^verbatim>\<open>nodemap/ports.rs\<close>, the float half of \<^verbatim>\<open>conversions.rs\<close>).

  The register interface is a parameter: functions on a device state of any type. The methods call
  each other (an integer reads its address from other integers, a formula reads any node, a limit
  reads formulas), so each is a body over a record of the methods it may call; \<open>reads_at\<close> ties the
  knot with fuel, one unit for each nested call. A read that runs out of it is one whose recursion
  the code does not end either: its outcome is \<open>Panic\<close>, the overflow of the stack. The sets of names
  that guard formulas against cycles are arguments: the code restores its set before it returns.
  Log output is left out.
\<close>

section \<open>Floats and conversions\<close>

text \<open>What the code needs of \<open>f64\<close> and \<open>f32\<close> beyond the operations of formulas.\<close>

record 'f float_codec =
  fc_is_finite :: "'f \<Rightarrow> bool"
  fc_half :: 'f
  fc_eps9 :: 'f
  fc_eps6 :: 'f
  fc_min :: 'f
  fc_max :: 'f
  fc_min32 :: 'f
  fc_max32 :: 'f
  fc_decode32 :: "bytes \<Rightarrow> 'f"
  fc_decode64 :: "bytes \<Rightarrow> 'f"
  fc_encode32 :: "'f \<Rightarrow> bytes"
  fc_encode64 :: "'f \<Rightarrow> bytes"

definition map_err :: "('e \<Rightarrow> 'e2) \<Rightarrow> ('a, 'e) result \<Rightarrow> ('a, 'e2) result" where
  "map_err f r = (case r of Ok v \<Rightarrow> Ok v | Err e \<Rightarrow> Err (f e) | Panic \<Rightarrow> Panic)"

definition name_conversion :: "string \<Rightarrow> conversion_error \<Rightarrow> 'f genapi_error" where
  "name_conversion name e =
     (case e of
        RegisterEncoding w p \<Rightarrow> EncodingError name w p
      | Unrepresentable v \<Rightarrow> RangeError name (VInt v) NotRepresentable
      | BitsTooWide v b \<Rightarrow> genapi_error.ValueTooWide name v b)"

definition map_bitops_error :: "string \<Rightarrow> bitops_error \<Rightarrow> 'f genapi_error" where
  "map_bitops_error name e =
     (case e of
        UnsupportedWidth len \<Rightarrow> EncodingError name len ''a bit field's register is 1 to 8 bytes''
      | UnsupportedLength b \<Rightarrow> EncodingError name (unat b) ''a bit field is 1 to 64 bits''
      | OutOfRange len off b \<Rightarrow> BitfieldOutOfRange name off b len
      | bitops_error.ValueTooWide b v \<Rightarrow>
          genapi_error.ValueTooWide name (if unat v < 2 ^ 63 then v else 2 ^ 63 - 1) b)"

definition round_ties_to_zero :: "'f float_ops \<Rightarrow> 'f float_codec \<Rightarrow> 'f \<Rightarrow> 'f" where
  "round_ties_to_zero F C v =
     (if fo_le F (fo_zero F) v then
        (let base = fo_fn F FFloor v; frac = fo_sub F v base in
         if fo_lt F (fc_half C) frac then fo_add F base (fo_one F) else base)
      else
        (let base = fo_fn F FCeil v; frac = fo_sub F v base in
         if fo_lt F frac (fo_neg F (fc_half C)) then fo_sub F base (fo_one F) else base))"

definition round_to_i64 :: "'f float_ops \<Rightarrow> 'f float_codec \<Rightarrow> string \<Rightarrow> 'f \<Rightarrow> (i64, 'f genapi_error) result" where
  "round_to_i64 F C name v =
     (let bad = Err (ExprEval name (NotAnInteger v)) in
      if \<not> fc_is_finite C v then bad
      else
        let rounded = round_ties_to_zero F C v in
        if fo_lt F rounded (fo_of_i64 F (2 ^ 63)) \<or> fo_lt F (fo_of_i64 F (2 ^ 63 - 1)) rounded then bad
        else
          let truncated = fo_fn F FTrunc rounded in
          if fo_lt F (fc_eps9 C) (fo_fn F FAbs (fo_sub F rounded truncated)) then bad
          else Ok (fo_to_i64 F truncated))"

definition apply_scale :: "'f float_ops \<Rightarrow> 'f float_node \<Rightarrow> 'f \<Rightarrow> 'f" where
  "apply_scale F n raw =
     (let v = (case f_scale n of
          Some (num, den) \<Rightarrow> fo_mul F raw (fo_div F (fo_of_i64 F num) (fo_of_i64 F den)) | None \<Rightarrow> raw) in
      case f_offset n of Some off \<Rightarrow> fo_add F v off | None \<Rightarrow> v)"

definition encode_float :: "'f float_ops \<Rightarrow> 'f float_codec \<Rightarrow> 'f float_node \<Rightarrow> 'f \<Rightarrow> (i64, 'f genapi_error) result" where
  "encode_float F C n v =
     (let raw = (case f_offset n of Some off \<Rightarrow> fo_sub F v off | None \<Rightarrow> v);
          finish_raw = (\<lambda>raw.
            let rounded = fo_fn F FRound raw in
            if fo_lt F (fc_eps6 C) (fo_fn F FAbs (fo_sub F raw rounded))
            then Err (RangeError (f_name n) (VFloat v) NotRepresentable)
            else Ok (fo_to_i64 F rounded)) in
      case f_scale n of
        Some (num, den) \<Rightarrow>
          if num = 0 then Err (DeclarationError (f_name n) ''has a zero <Scale> numerator'')
          else finish_raw (fo_mul F raw (fo_div F (fo_of_i64 F den) (fo_of_i64 F num)))
      | None \<Rightarrow> finish_raw raw)"

definition decode_ieee754 :: "'f float_codec \<Rightarrow> string \<Rightarrow> bytes \<Rightarrow> byte_order \<Rightarrow> ('f, 'f genapi_error) result" where
  "decode_ieee754 C name bs order =
     (let big = (case order of Big \<Rightarrow> bs | Little \<Rightarrow> rev bs) in
      if length bs = 4 then Ok (fc_decode32 C big)
      else if length bs = 8 then Ok (fc_decode64 C big)
      else Err (EncodingError name (length bs) ''an IEEE 754 float is 4 or 8 bytes''))"

definition encode_ieee754 :: "'f float_ops \<Rightarrow> 'f float_codec \<Rightarrow> string \<Rightarrow> 'f \<Rightarrow> u32 \<Rightarrow> byte_order \<Rightarrow>
    (bytes, 'f genapi_error) result" where
  "encode_ieee754 F C name v len order =
     (let put = (\<lambda>big. case order of Big \<Rightarrow> big | Little \<Rightarrow> rev big);
          bad = Err (RangeError name (VFloat v) NotRepresentable) in
      if len = 4 then
        (if \<not> fc_is_finite C v \<or> fo_lt F v (fc_min32 C) \<or> fo_lt F (fc_max32 C) v then bad
         else Ok (put (fc_encode32 C v)))
      else if len = 8 then (if \<not> fc_is_finite C v then bad else Ok (put (fc_encode64 C v)))
      else Err (EncodingError name (unat len) ''an IEEE 754 float is 4 or 8 bytes''))"

definition sk_to_i64 :: "'f float_ops \<Rightarrow> 'f float_codec \<Rightarrow> string \<Rightarrow> 'f fvalue \<Rightarrow> (i64, 'f genapi_error) result" where
  "sk_to_i64 F C name v = (case v of VInt i \<Rightarrow> Ok i | VFloat f \<Rightarrow> round_to_i64 F C name f)"

definition eval_mode_of :: "sk_output \<Rightarrow> eval_mode" where
  "eval_mode_of out = (case out of SkInteger \<Rightarrow> Integer | SkFloat \<Rightarrow> Floating)"

definition expr_error :: "string \<Rightarrow> 'f eval_error \<Rightarrow> 'f genapi_error" where
  "expr_error name e = (case e of UnknownVariable v \<Rightarrow> UnknownVar name v | _ \<Rightarrow> ExprEval name e)"

section \<open>The environment and the methods\<close>

type_synonym ('a, 'f, 'd) act = "('f, 'd) nm_state \<Rightarrow> ('a, 'f genapi_error) result \<times> ('f, 'd) nm_state"

record ('f, 'd) nm_env =
  en_map :: "'f nodemap"
  en_ops :: "'f float_ops"
  en_codec :: "'f float_codec"
  en_read :: "u64 \<Rightarrow> nat \<Rightarrow> 'd \<Rightarrow> (bytes, 'f genapi_error) result \<times> 'd"
  en_write :: "u64 \<Rightarrow> bytes \<Rightarrow> 'd \<Rightarrow> (unit, 'f genapi_error) result \<times> 'd"
  en_clock :: "'d \<Rightarrow> duration"
  en_utf8_lossy :: "bytes \<Rightarrow> string"
  en_utf8 :: "string \<Rightarrow> bytes"

datatype limit_kind = LMin | LMax | LInc

record ('f, 'd) reads =
  rd_integer :: "string \<Rightarrow> (i64, 'f, 'd) act"
  rd_float :: "string \<Rightarrow> ('f, 'f, 'd) act"
  rd_enum :: "string \<Rightarrow> (string, 'f, 'd) act"
  rd_bool :: "string \<Rightarrow> (bool, 'f, 'd) act"
  rd_value :: "string \<Rightarrow> string set \<Rightarrow> ('f fvalue, 'f, 'd) act"
  rd_limit :: "string \<Rightarrow> limit_kind \<Rightarrow> string set \<Rightarrow> ('f fvalue option, 'f, 'd) act"
  rd_string :: "string \<Rightarrow> (string, 'f, 'd) act"

definition lookup :: "('f, 'd) nm_env \<Rightarrow> string \<Rightarrow> 'f node option" where
  "lookup E name = get_node (en_map E) name"

definition now :: "('f, 'd) nm_env \<Rightarrow> ('f, 'd) nm_state \<Rightarrow> duration" where
  "now E s = en_clock E (st_device s)"

definition serves :: "('f, 'd) nm_env \<Rightarrow> string \<Rightarrow> ('f, 'd) nm_state \<Rightarrow> bool" where
  "serves E name s = may_serve (en_map E) (now E s) s name"

definition noted_read :: "('f, 'd) nm_env \<Rightarrow> string \<Rightarrow> ('f, 'd) nm_state \<Rightarrow> ('f, 'd) nm_state" where
  "noted_read E name s = note_read (en_map E) (now E s) name s"

definition device_read :: "('f, 'd) nm_env \<Rightarrow> u64 \<Rightarrow> nat \<Rightarrow> (bytes, 'f, 'd) act" where
  "device_read E address len s = (let (r, d) = en_read E address len (st_device s) in (r, s\<lparr>st_device := d\<rparr>))"

definition imposed_access :: "('f, 'd) nm_env \<Rightarrow> string \<Rightarrow> access_mode option" where
  "imposed_access E name = Option.bind (lookup E name) (\<lambda>n. m_imposed_access (node_meta_of n))"

definition ensure_not_imposed :: "('f, 'd) nm_env \<Rightarrow> string \<Rightarrow> access_mode \<Rightarrow> (unit, 'f genapi_error) result" where
  "ensure_not_imposed E name forbidden =
     (if imposed_access E name = Some forbidden
      then Err (AccessRefused name (if forbidden = WO then ReadAccess else WriteAccess))
      else Ok ())"

definition ensure_readable :: "access_mode \<Rightarrow> string \<Rightarrow> (unit, 'f genapi_error) result" where
  "ensure_readable access name = (if access = WO then Err (AccessRefused name ReadAccess) else Ok ())"

definition ensure_readable_now :: "('f, 'd) nm_env \<Rightarrow> access_mode \<Rightarrow> string \<Rightarrow> (unit, 'f genapi_error) result" where
  "ensure_readable_now E access name =
     and_then (ensure_readable access name) (\<lambda>_.
       if imposed_access E name = Some WO then Err (AccessRefused name ReadAccess) else Ok ())"

definition wrong_kind :: "('f, 'd) nm_env \<Rightarrow> string \<Rightarrow> string \<Rightarrow> 'f genapi_error" where
  "wrong_kind E name expected =
     (case lookup E name of Some n \<Rightarrow> WrongKind name (kind_name n) expected | None \<Rightarrow> NodeNotFound name)"

section \<open>Addresses\<close>

definition indexed_value_now :: "('f, 'd) reads \<Rightarrow> string \<Rightarrow> 'v indexed_value \<Rightarrow> (i64 option \<times> 'v indexed_src, 'f, 'd) act" where
  "indexed_value_now M name table s =
     bind (rd_integer M (iv_index table) s) (\<lambda>idx s.
       case find (\<lambda>e. ie_index e = idx) (iv_entries table) of
         Some e \<Rightarrow> (Ok (Some idx, ie_value e), s)
       | None \<Rightarrow>
           (case iv_default table of
              Some v \<Rightarrow> (Ok (None, v), s)
            | None \<Rightarrow> (Err (NoIndexedValue name (iv_index table) idx), s)))"

definition indexed_target :: "('f, 'd) nm_env \<Rightarrow> ('f, 'd) reads \<Rightarrow> string \<Rightarrow> (string option, 'f, 'd) act" where
  "indexed_target E M name s =
     (case lookup E name of
        Some (NInteger n) \<Rightarrow>
          (case i_indexed n of
             Some table \<Rightarrow> bind (indexed_value_now M name table s) (\<lambda>(_, src) s. (Ok (src_node src), s))
           | None \<Rightarrow> (Ok None, s))
      | Some (NFloat n) \<Rightarrow>
          (case f_indexed n of
             Some table \<Rightarrow> bind (indexed_value_now M name table s) (\<lambda>(_, src) s. (Ok (src_node src), s))
           | None \<Rightarrow> (Ok None, s))
      | _ \<Rightarrow> (Ok None, s))"

definition length_from :: "('f, 'd) reads \<Rightarrow> string \<Rightarrow> string \<Rightarrow> (u32, 'f, 'd) act" where
  "length_from M node provider s =
     bind (rd_integer M provider s) (\<lambda>len s.
       (if 0 \<le> sint len \<and> sint len < 2 ^ 32 then Ok (ucast len) else Err (BadLength node provider len), s))"

definition register_length :: "('f, 'd) reads \<Rightarrow> string \<Rightarrow> addressing \<Rightarrow> (u32, 'f, 'd) act" where
  "register_length M node addr s =
     (case ad_p_length addr of Some provider \<Rightarrow> length_from M node provider s | None \<Rightarrow> (Ok (ad_len addr), s))"

definition read_unsigned :: "('f, 'd) reads \<Rightarrow> string \<Rightarrow> string \<Rightarrow> (u64, 'f, 'd) act" where
  "read_unsigned M node provider s =
     bind (rd_integer M provider s) (\<lambda>v s. (if 0 \<le> sint v then Ok v else Err (BadIndirectAddress node v), s))"

definition resolve_address_term :: "('f, 'd) reads \<Rightarrow> string \<Rightarrow> address_term \<Rightarrow> u32 \<Rightarrow> (u64, 'f, 'd) act" where
  "resolve_address_term M node t len s =
     (case t of
        TermFixed off \<Rightarrow> (Ok off, s)
      | TermNode provider \<Rightarrow> read_unsigned M node provider s
      | TermIndex provider off \<Rightarrow>
          bind (read_unsigned M node provider s) (\<lambda>idx s.
          bind (case off of
                 OffsetFixed stride \<Rightarrow> (Ok stride, s)
               | OffsetNode strider \<Rightarrow> read_unsigned M node strider s
               | OffsetLength \<Rightarrow> (Ok (ucast len), s)) (\<lambda>stride s.
            (Ok (idx * stride), s))))"

primrec sum_terms :: "('f, 'd) reads \<Rightarrow> string \<Rightarrow> u32 \<Rightarrow> address_term list \<Rightarrow> u64 \<Rightarrow> (u64, 'f, 'd) act" where
  "sum_terms M node len [] address s = (Ok address, s)"
| "sum_terms M node len (t # ts) address s =
     bind (resolve_address_term M node t len s) (\<lambda>off s. sum_terms M node len ts (address + off) s)"

definition resolve_address :: "('f, 'd) reads \<Rightarrow> string \<Rightarrow> addressing \<Rightarrow> (u64 \<times> u32, 'f, 'd) act" where
  "resolve_address M node addr s =
     bind (register_length M node addr s) (\<lambda>len s.
     bind (sum_terms M node len (ad_terms addr) 0 s) (\<lambda>address s. (Ok (address, len), s)))"

definition MAX_DEVICE_LENGTH :: u32 where
  "MAX_DEVICE_LENGTH = 16 * 1024 * 1024"

definition resolve_device_address :: "('f, 'd) reads \<Rightarrow> string \<Rightarrow> addressing \<Rightarrow> (u64 \<times> u32, 'f, 'd) act" where
  "resolve_device_address M node addr s =
     bind (resolve_address M node addr s) (\<lambda>(address, len) s.
       case ad_p_length addr of
         Some provider \<Rightarrow>
           if len > MAX_DEVICE_LENGTH then (Err (BadLength node provider (ucast len)), s) else (Ok (address, len), s)
       | None \<Rightarrow> (Ok (address, len), s))"

definition locate :: "('f, 'd) nm_env \<Rightarrow> ('f, 'd) reads \<Rightarrow> string \<Rightarrow> addressing \<Rightarrow> (location, 'f, 'd) act" where
  "locate E M node addr s =
     (let attached = (\<lambda>port data from_end.
        case data of
          None \<Rightarrow> (Err (NotAttached node port), s)
        | Some bs \<Rightarrow> bind (resolve_address M node addr s) (\<lambda>(off, len) s. (Ok (DataAt port bs off len from_end), s))) in
      bind (route (en_map E) node addr, s) (\<lambda>r s.
        case r of
          RouteDevice \<Rightarrow> bind (resolve_device_address M node addr s) (\<lambda>(address, len) s. (Ok (DeviceAt address len), s))
        | RouteChunk port i \<Rightarrow> attached port (attached_chunk_get i (st_chunks s)) True
        | RouteEvent port i \<Rightarrow> attached port (st_events s i) False))"

definition locate_for_write :: "('f, 'd) nm_env \<Rightarrow> ('f, 'd) reads \<Rightarrow> string \<Rightarrow> addressing \<Rightarrow> (u64 \<times> u32, 'f, 'd) act" where
  "locate_for_write E M node addr s =
     bind (route (en_map E) node addr, s) (\<lambda>r s.
       case r of
         RouteDevice \<Rightarrow> resolve_device_address M node addr s
       | RouteChunk port i \<Rightarrow> (Err (PortNotWritable node port), s)
       | RouteEvent port i \<Rightarrow> (Err (PortNotWritable node port), s))"

definition read_location :: "('f, 'd) nm_env \<Rightarrow> string \<Rightarrow> location \<Rightarrow> (bytes, 'f, 'd) act" where
  "read_location E node loc s =
     (case loc of
        DeviceAt address len \<Rightarrow> device_read E address (unat len) s
      | DataAt port bs off len from_end \<Rightarrow> (slice_port_data node port bs off len from_end, s))"

definition register_address :: "('f, 'd) nm_env \<Rightarrow> ('f, 'd) reads \<Rightarrow> string \<Rightarrow> (u64 \<times> u32, 'f, 'd) act" where
  "register_address E M name s =
     (case lookup E name of
        None \<Rightarrow> (Err (NodeNotFound name), s)
      | Some n \<Rightarrow>
          (case node_addressing n of
             None \<Rightarrow> (Err (wrong_kind E name ''a node with a register of its own''), s)
           | Some addr \<Rightarrow>
               (let (r, s) = locate_for_write E M name addr s in
                (map_err (\<lambda>e. case e of PortNotWritable node port \<Rightarrow> NotDeviceMemory node port | _ \<Rightarrow> e) r, s))))"

section \<open>Formulas\<close>

definition resolve_enum_entry_value :: "('f, 'd) reads \<Rightarrow> enum_entry_decl \<Rightarrow> (i64, 'f, 'd) act" where
  "resolve_enum_entry_value M e s =
     (case ee_value e of EnumLiteral v \<Rightarrow> (Ok v, s) | EnumFromNode provider \<Rightarrow> rd_integer M provider s)"

text \<open>Whether a node's bounds are integers; \<open>None\<close> for a node that has none.\<close>

definition integral_bounds :: "'f node \<Rightarrow> bool option" where
  "integral_bounds n =
     (case n of
        NInteger _ \<Rightarrow> Some True
      | NIntConverter _ \<Rightarrow> Some True
      | NFloat _ \<Rightarrow> Some False
      | NConverter _ \<Rightarrow> Some False
      | _ \<Rightarrow> None)"

text \<open>The bound in force, or the default of the standard where nothing declares one.\<close>

definition bound_or_default :: "('f, 'd) nm_env \<Rightarrow> string \<Rightarrow> formula_var \<Rightarrow> limit_kind \<Rightarrow> bool \<Rightarrow> 'f fvalue option \<Rightarrow>
    ('f fvalue, 'f genapi_error) result" where
  "bound_or_default E formula var which whole limit =
     (case (limit, whole) of
        (Some v, True) \<Rightarrow> and_then (sk_to_i64 (en_ops E) (en_codec E) (v_provider var) v) (\<lambda>i. Ok (VInt i))
      | (Some v, False) \<Rightarrow> Ok (VFloat (as_f64 (en_ops E) v))
      | (None, True) \<Rightarrow> Ok (VInt (case which of LMin \<Rightarrow> 2 ^ 63 | LMax \<Rightarrow> 2 ^ 63 - 1 | LInc \<Rightarrow> 1))
      | (None, False) \<Rightarrow>
          (case which of
             LMin \<Rightarrow> Ok (VFloat (fc_min (en_codec E)))
           | LMax \<Rightarrow> Ok (VFloat (fc_max (en_codec E)))
           | LInc \<Rightarrow> Err (ExprEval formula (NoLimit (v_name var) (v_provider var) ''increment''))))"

definition resolve_limit :: "('f, 'd) nm_env \<Rightarrow> ('f, 'd) reads \<Rightarrow> string \<Rightarrow> formula_var \<Rightarrow> limit_kind \<Rightarrow>
    string set \<Rightarrow> ('f fvalue, 'f, 'd) act" where
  "resolve_limit E M formula var which stack s =
     (case lookup E (v_provider var) of
        None \<Rightarrow> (Err (NodeNotFound (v_provider var)), s)
      | Some n \<Rightarrow>
          (case integral_bounds n of
             None \<Rightarrow> (Err (ExprEval formula (NoLimit (v_name var) (v_provider var) ''minimum, maximum or increment'')), s)
           | Some whole \<Rightarrow>
               (let (r, s) = rd_limit M (v_provider var) which stack s;
                    r = map_err (\<lambda>e. case e of ExprEval _ (Cycle c) \<Rightarrow> ExprEval formula (Cycle c) | _ \<Rightarrow> e) r in
                bind (r, s) (\<lambda>limit s. (bound_or_default E formula var which whole limit, s)))))"

definition resolve_formula_var :: "('f, 'd) nm_env \<Rightarrow> ('f, 'd) reads \<Rightarrow> string \<Rightarrow> formula_var \<Rightarrow> string set \<Rightarrow>
    ('f fvalue, 'f, 'd) act" where
  "resolve_formula_var E M formula var stack s =
     (case v_attr var of
        AValue \<Rightarrow> rd_value M (v_provider var) stack s
      | AEntry entry \<Rightarrow>
          (case lookup E (v_provider var) of
             Some (NEnum n) \<Rightarrow>
               (case find (\<lambda>e. ee_name e = entry) (e_entries n) of
                  Some e \<Rightarrow> bind (resolve_enum_entry_value M e s) (\<lambda>v s. (Ok (VInt v), s))
                | None \<Rightarrow> (Err (EnumNoSuchEntry (v_provider var) entry), s))
           | _ \<Rightarrow> (Err (wrong_kind E (v_provider var) ''an Enumeration''), s))
      | AMin \<Rightarrow> resolve_limit E M formula var LMin stack s
      | AMax \<Rightarrow> resolve_limit E M formula var LMax stack s
      | AInc \<Rightarrow> resolve_limit E M formula var LInc stack s)"

text \<open>The values of the declared variables, those the caller binds left out.\<close>

primrec bind_vars :: "('f, 'd) nm_env \<Rightarrow> ('f, 'd) reads \<Rightarrow> string \<Rightarrow> (string \<times> 'f fvalue) list \<Rightarrow> string set \<Rightarrow>
    formula_var list \<Rightarrow> (string \<rightharpoonup> 'f fvalue) \<Rightarrow> (string \<rightharpoonup> 'f fvalue, 'f, 'd) act" where
  "bind_vars E M name overrides stack [] values s = (Ok values, s)"
| "bind_vars E M name overrides stack (v # vs) values s =
     (if v_name v \<in> fst ` set overrides then bind_vars E M name overrides stack vs values s
      else bind (resolve_formula_var E M name v stack s) (\<lambda>x s.
        bind_vars E M name overrides stack vs (values(v_name v \<mapsto> x)) s))"

definition bound_var :: "(string \<rightharpoonup> 'f fvalue) \<Rightarrow> ('f, unit) vars" where
  "bound_var values ident u =
     ((case values ident of Some v \<Rightarrow> Ok v | None \<Rightarrow> Err (UnknownVariable ident)), u)"

definition eval_formula :: "('f, 'd) nm_env \<Rightarrow> ('f, 'd) reads \<Rightarrow> string \<Rightarrow> 'f ast \<Rightarrow> formula_var list \<Rightarrow>
    (string \<times> 'f fvalue) list \<Rightarrow> eval_mode \<Rightarrow> string set \<Rightarrow> ('f fvalue, 'f, 'd) act" where
  "eval_formula E M name ast vars overrides mode stack s =
     bind (bind_vars E M name overrides stack vars Map.empty s) (\<lambda>values s.
       (map_err (expr_error name)
          (fst (evaluate (en_ops E) (bound_var (values ++ map_of (rev overrides))) mode ast ())), s))"

definition evaluate_swissknife :: "('f, 'd) nm_env \<Rightarrow> ('f, 'd) reads \<Rightarrow> 'f sk_node \<Rightarrow> string set \<Rightarrow>
    ('f fvalue, 'f, 'd) act" where
  "evaluate_swissknife E M n stack s =
     (let name = s_name n;
          evaluated = (\<lambda>s.
            if name \<in> stack then (Err (ExprEval name (Cycle name)), s)
            else
              (let current_gen = st_generation s in
               bind (eval_formula E M name (s_ast n) (s_vars n) [] (eval_mode_of (s_output n)) (insert name stack) s)
                 (\<lambda>v s. (Ok v, if may_cache (en_map E) name
                                then map_cells name (\<lambda>c. c\<lparr>ce_value := Some (v, current_gen)\<rparr>) s else s)))) in
      case ce_value (st_cells s name) of
        Some (v, generation) \<Rightarrow>
          if serves E name s \<and> generation = st_generation s then (Ok v, s) else evaluated s
      | None \<Rightarrow> evaluated s)"

definition evaluate_converter :: "('f, 'd) nm_env \<Rightarrow> ('f, 'd) reads \<Rightarrow> 'f converter_node \<Rightarrow> string set \<Rightarrow>
    ('f fvalue, 'f, 'd) act" where
  "evaluate_converter E M n stack s =
     (if k_name n \<in> stack then (Err (ExprEval (k_name n) (Cycle (k_name n))), s)
      else eval_formula E M (k_name n) (k_ast_from n) (k_vars_from n) [] (eval_mode_of (k_output n))
             (insert (k_name n) stack) s)"

definition evaluate_int_converter :: "('f, 'd) nm_env \<Rightarrow> ('f, 'd) reads \<Rightarrow> 'f int_converter_node \<Rightarrow> string set \<Rightarrow>
    (i64, 'f, 'd) act" where
  "evaluate_int_converter E M n stack s =
     (if k_name n \<in> stack then (Err (ExprEval (k_name n) (Cycle (k_name n))), s)
      else bind (eval_formula E M (k_name n) (k_ast_from n) (k_vars_from n) [] Integer (insert (k_name n) stack) s)
             (\<lambda>v s. (Ok (as_i64 (en_ops E) v), s)))"

definition get_converter :: "('f, 'd) nm_env \<Rightarrow> ('f, 'd) reads \<Rightarrow> string \<Rightarrow> ('f, 'f, 'd) act" where
  "get_converter E M name s =
     (case lookup E name of
        Some (NConverter n) \<Rightarrow>
          bind (ensure_not_imposed E name WO, s) (\<lambda>_ s.
            let fresh = (\<lambda>s. bind (evaluate_converter E M n {} s) (\<lambda>v s.
                  (Ok (as_f64 (en_ops E) v),
                   if may_cache (en_map E) name
                   then map_cells name (\<lambda>c. c\<lparr>ce_value := Some (v, st_generation s)\<rparr>) s else s))) in
            case ce_value (st_cells s name) of
              Some (v, generation) \<Rightarrow>
                if serves E name s \<and> generation = st_generation s then (Ok (as_f64 (en_ops E) v), s) else fresh s
            | None \<Rightarrow> fresh s)
      | _ \<Rightarrow> (Err (wrong_kind E name ''a Converter''), s))"

definition get_int_converter :: "('f, 'd) nm_env \<Rightarrow> ('f, 'd) reads \<Rightarrow> string \<Rightarrow> (i64, 'f, 'd) act" where
  "get_int_converter E M name s =
     (case lookup E name of
        Some (NIntConverter n) \<Rightarrow>
          bind (ensure_not_imposed E name WO, s) (\<lambda>_ s.
            let fresh = (\<lambda>s. bind (evaluate_int_converter E M n {} s) (\<lambda>v s.
                  (Ok v,
                   if may_cache (en_map E) name
                   then map_cells name (\<lambda>c. c\<lparr>ce_intconv := Some (v, st_generation s)\<rparr>) s else s))) in
            case ce_intconv (st_cells s name) of
              Some (v, generation) \<Rightarrow>
                if serves E name s \<and> generation = st_generation s then (Ok v, s) else fresh s
            | None \<Rightarrow> fresh s)
      | _ \<Rightarrow> (Err (wrong_kind E name ''an IntConverter''), s))"

section \<open>Integers\<close>

definition decode_integer :: "integer_node \<Rightarrow> string \<Rightarrow> bytes \<Rightarrow> (i64, 'f genapi_error) result" where
  "decode_integer n name raw =
     (case i_bitfield n of
        Some bf \<Rightarrow>
          and_then (map_err (map_bitops_error name) (extract_field raw bf)) (\<lambda>v.
            map_err (name_conversion name) (interpret_bitfield_value v (bit_field.bit_length bf) (is_signed (i_sign n))))
      | None \<Rightarrow> map_err (name_conversion name) (bytes_to_i64 raw (i_sign n) (i_byte_order n)))"

text \<open>The register behind an integer: its cache when it may answer, the device otherwise.\<close>

definition read_integer_register :: "('f, 'd) nm_env \<Rightarrow> ('f, 'd) reads \<Rightarrow> integer_node \<Rightarrow> string \<Rightarrow> addressing \<Rightarrow> (i64, 'f, 'd) act" where
  "read_integer_register E M n name addr s =
     bind (locate E M name addr s) (\<lambda>loc s.
       let fresh = bind (read_location E name loc s) (\<lambda>raw s.
             bind (decode_integer n name raw, s) (\<lambda>v s.
               let s = noted_read E name s in
               (Ok v, if may_cache (en_map E) name
                      then map_cells name (\<lambda>c. c\<lparr>ce_int := Some v, ce_raw := Some raw\<rparr>) s
                      else map_cells name (\<lambda>c. c\<lparr>ce_int := None, ce_raw := None\<rparr>) s))) in
       case ce_int (st_cells s name) of
         Some v \<Rightarrow> if serves E name s then (Ok v, s) else fresh
       | None \<Rightarrow> fresh)"

definition read_integer_node :: "('f, 'd) nm_env \<Rightarrow> ('f, 'd) reads \<Rightarrow> integer_node \<Rightarrow> string \<Rightarrow> (i64, 'f, 'd) act" where
  "read_integer_node E M n name s =
     bind (ensure_readable_now E (i_access n) name, s) (\<lambda>_ s.
       case i_value n of
         Some start \<Rightarrow> (Ok (case ce_floating (st_cells s name) of Some v \<Rightarrow> v | None \<Rightarrow> start), s)
       | None \<Rightarrow>
           (case i_pvalue n of
              Some pv \<Rightarrow> rd_integer M pv s
            | None \<Rightarrow>
                (case i_indexed n of
                   Some table \<Rightarrow>
                     bind (indexed_value_now M name table s) (\<lambda>(slot, src) s.
                       case src of
                         IndexedFromNode target \<Rightarrow> rd_integer M target s
                       | IndexedLiteral start \<Rightarrow>
                           (Ok (case ce_written (st_cells s name) slot of Some v \<Rightarrow> v | None \<Rightarrow> start), s))
                 | None \<Rightarrow>
                     (case i_addressing n of
                        None \<Rightarrow> (Err (NoValueSource name), s)
                      | Some addr \<Rightarrow> read_integer_register E M n name addr s))))"

definition get_integer_body :: "('f, 'd) nm_env \<Rightarrow> ('f, 'd) reads \<Rightarrow> string \<Rightarrow> (i64, 'f, 'd) act" where
  "get_integer_body E M name s =
     (case lookup E name of
        Some (NIntConverter _) \<Rightarrow> get_int_converter E M name s
      | Some (NConverter _) \<Rightarrow>
          bind (get_converter E M name s) (\<lambda>v s. (round_to_i64 (en_ops E) (en_codec E) name v, s))
      | Some (NSwissKnife sk) \<Rightarrow>
          bind (ensure_not_imposed E name WO, s) (\<lambda>_ s.
            case s_output sk of
              SkInteger \<Rightarrow> bind (evaluate_swissknife E M sk {} s) (\<lambda>v s.
                (sk_to_i64 (en_ops E) (en_codec E) name v, s))
            | SkFloat \<Rightarrow> (Err (WrongKind name ''SwissKnife'' ''an integer formula''), s))
      | Some (NInteger n) \<Rightarrow> read_integer_node E M n name s
      | _ \<Rightarrow> (Err (wrong_kind E name ''an Integer''), s))"

section \<open>Floats\<close>

definition decode_float :: "('f, 'd) nm_env \<Rightarrow> 'f float_node \<Rightarrow> string \<Rightarrow> bytes \<Rightarrow> ('f, 'f genapi_error) result" where
  "decode_float E n name raw =
     (case f_encoding n of
        Ieee754 \<Rightarrow> decode_ieee754 (en_codec E) name raw (f_byte_order n)
      | ScaledInteger \<Rightarrow>
          and_then (map_err (name_conversion name) (bytes_to_i64 raw Signed (f_byte_order n))) (\<lambda>v.
            Ok (apply_scale (en_ops E) n (fo_of_i64 (en_ops E) v))))"

definition read_float_register :: "('f, 'd) nm_env \<Rightarrow> ('f, 'd) reads \<Rightarrow> 'f float_node \<Rightarrow> string \<Rightarrow> addressing \<Rightarrow> ('f, 'f, 'd) act" where
  "read_float_register E M n name addr s =
     bind (locate E M name addr s) (\<lambda>loc s.
       let fresh = bind (read_location E name loc s) (\<lambda>raw s.
             bind (decode_float E n name raw, s) (\<lambda>v s.
               (Ok v, map_cells name (\<lambda>c. c\<lparr>ce_float := (if may_cache (en_map E) name then Some v else None)\<rparr>)
                        (noted_read E name s)))) in
       case ce_float (st_cells s name) of
         Some v \<Rightarrow> if serves E name s then (Ok v, s) else fresh
       | None \<Rightarrow> fresh)"

definition read_float_node :: "('f, 'd) nm_env \<Rightarrow> ('f, 'd) reads \<Rightarrow> 'f float_node \<Rightarrow> string \<Rightarrow> ('f, 'f, 'd) act" where
  "read_float_node E M n name s =
     bind (ensure_readable_now E (f_access n) name, s) (\<lambda>_ s.
       case f_value n of
         Some start \<Rightarrow> (Ok (case ce_floating_float (st_cells s name) of Some v \<Rightarrow> v | None \<Rightarrow> start), s)
       | None \<Rightarrow>
           (case f_pvalue n of
              Some pv \<Rightarrow> rd_float M pv s
            | None \<Rightarrow>
                (case f_indexed n of
                   Some table \<Rightarrow>
                     bind (indexed_value_now M name table s) (\<lambda>(slot, src) s.
                       case src of
                         IndexedFromNode target \<Rightarrow> rd_float M target s
                       | IndexedLiteral start \<Rightarrow>
                           (Ok (case ce_written_float (st_cells s name) slot of Some v \<Rightarrow> v | None \<Rightarrow> start), s))
                 | None \<Rightarrow>
                     (case f_addressing n of
                        None \<Rightarrow> (Err (NoValueSource name), s)
                      | Some addr \<Rightarrow> read_float_register E M n name addr s))))"

definition get_float_body :: "('f, 'd) nm_env \<Rightarrow> ('f, 'd) reads \<Rightarrow> string \<Rightarrow> ('f, 'f, 'd) act" where
  "get_float_body E M name s =
     (case lookup E name of
        Some (NConverter _) \<Rightarrow> get_converter E M name s
      | Some (NIntConverter _) \<Rightarrow> bind (get_int_converter E M name s) (\<lambda>v s. (Ok (fo_of_i64 (en_ops E) v), s))
      | Some (NSwissKnife sk) \<Rightarrow>
          bind (ensure_not_imposed E name WO, s) (\<lambda>_ s.
            case s_output sk of
              SkFloat \<Rightarrow> bind (evaluate_swissknife E M sk {} s) (\<lambda>v s. (Ok (as_f64 (en_ops E) v), s))
            | SkInteger \<Rightarrow> bind (rd_integer M name s) (\<lambda>v s. (Ok (fo_of_i64 (en_ops E) v), s)))
      | Some (NFloat n) \<Rightarrow> read_float_node E M n name s
      | _ \<Rightarrow> (Err (wrong_kind E name ''a Float''), s))"

section \<open>Enumerations\<close>

text \<open>\<open>build_enum_mapping\<close>: of two entries with one value the first is kept.\<close>

primrec build_mapping :: "('f, 'd) reads \<Rightarrow> enum_entry_decl list \<Rightarrow> enum_mapping \<Rightarrow> (enum_mapping, 'f, 'd) act" where
  "build_mapping M [] m s = (Ok m, s)"
| "build_mapping M (e # es) m s =
     bind (resolve_enum_entry_value M e s) (\<lambda>v s.
       build_mapping M es
         \<lparr>em_by_value = (case em_by_value m v of None \<Rightarrow> (em_by_value m)(v \<mapsto> ee_name e) | Some _ \<Rightarrow> em_by_value m),
          em_by_name = (em_by_name m)(ee_name e \<mapsto> v)\<rparr> s)"

definition build_enum_mapping :: "('f, 'd) reads \<Rightarrow> enum_node \<Rightarrow> (enum_mapping, 'f, 'd) act" where
  "build_enum_mapping M n s = build_mapping M (e_entries n) \<lparr>em_by_value = Map.empty, em_by_name = Map.empty\<rparr> s"

definition rebuild_mapping :: "('f, 'd) reads \<Rightarrow> enum_node \<Rightarrow> string \<Rightarrow> (enum_mapping, 'f, 'd) act" where
  "rebuild_mapping M n name s =
     bind (build_enum_mapping M n s) (\<lambda>m s. (Ok m, map_cells name (\<lambda>c. c\<lparr>ce_mapping := Some m\<rparr>) s))"

definition current_mapping :: "('f, 'd) reads \<Rightarrow> enum_node \<Rightarrow> string \<Rightarrow> (enum_mapping, 'f, 'd) act" where
  "current_mapping M n name s =
     (case ce_mapping (st_cells s name) of Some m \<Rightarrow> (Ok m, s) | None \<Rightarrow> rebuild_mapping M n name s)"

definition lookup_enum_entry :: "('f, 'd) reads \<Rightarrow> enum_node \<Rightarrow> i64 \<Rightarrow> (string, 'f, 'd) act" where
  "lookup_enum_entry M n raw s =
     bind (current_mapping M n (e_name n) s) (\<lambda>m s.
       case em_by_value m raw of
         Some entry \<Rightarrow> (Ok entry, s)
       | None \<Rightarrow>
           bind (rebuild_mapping M n (e_name n) s) (\<lambda>m s.
             case em_by_value m raw of
               Some entry \<Rightarrow> (Ok entry, s)
             | None \<Rightarrow> (Err (EnumValueUnknown (e_name n) raw), s)))"

definition entry_is_self_clearing :: "enum_node \<Rightarrow> string \<Rightarrow> bool" where
  "entry_is_self_clearing n entry = list_ex (\<lambda>e. ee_name e = entry \<and> ee_is_self_clearing e) (e_entries n)"

definition noted_entry :: "('f, 'd) nm_env \<Rightarrow> string \<Rightarrow> bool \<Rightarrow> ('f, 'd) nm_state \<Rightarrow> ('f, 'd) nm_state" where
  "noted_entry E name clearing s = note_entry (en_map E) (now E s) name clearing s"

definition keep_entry :: "('f, 'd) nm_env \<Rightarrow> enum_node \<Rightarrow> string \<Rightarrow> string \<Rightarrow> ('f, 'd) nm_state \<Rightarrow> ('f, 'd) nm_state" where
  "keep_entry E n name entry s =
     (let s = noted_entry E name (entry_is_self_clearing n entry) s in
      if may_cache (en_map E) name then map_cells name (\<lambda>c. c\<lparr>ce_entry := Some entry\<rparr>) s else s)"

definition get_enum_body :: "('f, 'd) nm_env \<Rightarrow> ('f, 'd) reads \<Rightarrow> string \<Rightarrow> (string, 'f, 'd) act" where
  "get_enum_body E M name s =
     (case lookup E name of
        Some (NEnum n) \<Rightarrow>
          bind (ensure_readable_now E (e_access n) name, s) (\<lambda>_ s.
            let active = self_clearing_active (en_map E) s name;
                s = (if active then fold (invalidate_node (en_map E)) (value_reach (en_map E) name) s else s);
                cached = (\<lambda>s. if \<not> active \<and> serves E name s then ce_entry (st_cells s name) else None) in
            case e_pvalue n of
              Some pv \<Rightarrow>
                (case cached s of
                   Some entry \<Rightarrow> (Ok entry, s)
                 | None \<Rightarrow>
                     bind (rd_integer M pv s) (\<lambda>raw s.
                     bind (lookup_enum_entry M n raw s) (\<lambda>entry s. (Ok entry, keep_entry E n name entry s))))
            | None \<Rightarrow>
                (case (e_addressing n, e_value n) of
                   (None, Some start) \<Rightarrow>
                     lookup_enum_entry M n (case ce_floating (st_cells s name) of Some v \<Rightarrow> v | None \<Rightarrow> start) s
                 | (None, None) \<Rightarrow> (Err (NoValueSource name), s)
                 | (Some addr, _) \<Rightarrow>
                     bind (locate E M name addr s) (\<lambda>loc s.
                       case cached s of
                         Some entry \<Rightarrow> (Ok entry, s)
                       | None \<Rightarrow>
                           bind (read_location E name loc s) (\<lambda>raw s.
                           bind (map_err (name_conversion name) (bytes_to_i64 raw Signed Big), s) (\<lambda>v s.
                           bind (lookup_enum_entry M n v s) (\<lambda>entry s.
                             (Ok entry, keep_entry E n name entry (noted_read E name s))))))))
      | _ \<Rightarrow> (Err (wrong_kind E name ''an Enumeration''), s))"

definition get_enum_numeric :: "('f, 'd) nm_env \<Rightarrow> ('f, 'd) reads \<Rightarrow> string \<Rightarrow> (i64, 'f, 'd) act" where
  "get_enum_numeric E M name s =
     bind (rd_enum M name s) (\<lambda>entry s.
       case lookup E name of
         Some (NEnum n) \<Rightarrow>
           bind (current_mapping M n name s) (\<lambda>m s.
             case em_by_name m entry of
               Some v \<Rightarrow> (Ok v, s)
             | None \<Rightarrow> (Err (EnumNoSuchEntry name entry), s))
       | _ \<Rightarrow> (Err (wrong_kind E name ''an Enumeration''), s))"

section \<open>Booleans, strings and registers\<close>

definition no_bit_field :: "string \<Rightarrow> 'f genapi_error" where
  "no_bit_field name = DeclarationError name ''is a Boolean over a register with no bit field''"

definition is_on :: "boolean_node \<Rightarrow> i64 \<Rightarrow> bool" where
  "is_on n raw \<longleftrightarrow> raw = (case b_on_value n of Some v \<Rightarrow> v | None \<Rightarrow> 1)"

definition read_bool_register :: "('f, 'd) nm_env \<Rightarrow> ('f, 'd) reads \<Rightarrow> string \<Rightarrow> bit_field \<Rightarrow> addressing \<Rightarrow> (bool, 'f, 'd) act" where
  "read_bool_register E M name bf addr s =
     bind (locate E M name addr s) (\<lambda>loc s.
       let fresh = bind (read_location E name loc s) (\<lambda>raw s.
             bind (map_err (map_bitops_error name) (extract_field raw bf), s) (\<lambda>v s.
               let s = noted_read E name s; flag = (v \<noteq> 0) in
               (Ok flag, if may_cache (en_map E) name
                         then map_cells name (\<lambda>c. c\<lparr>ce_bool := Some flag, ce_raw := Some raw\<rparr>) s
                         else map_cells name (\<lambda>c. c\<lparr>ce_bool := None, ce_raw := None\<rparr>) s))) in
       case ce_bool (st_cells s name) of
         Some v \<Rightarrow> if serves E name s then (Ok v, s) else fresh
       | None \<Rightarrow> fresh)"

definition get_bool_body :: "('f, 'd) nm_env \<Rightarrow> ('f, 'd) reads \<Rightarrow> string \<Rightarrow> (bool, 'f, 'd) act" where
  "get_bool_body E M name s =
     (case lookup E name of
        Some (NBoolean n) \<Rightarrow>
          bind (ensure_readable_now E (b_access n) name, s) (\<lambda>_ s.
            case b_pvalue n of
              Some pv \<Rightarrow> bind (rd_integer M pv s) (\<lambda>raw s. (Ok (is_on n raw), s))
            | None \<Rightarrow>
                (case (b_addressing n, b_value n) of
                   (None, Some start) \<Rightarrow>
                     (Ok (is_on n (case ce_floating (st_cells s name) of Some v \<Rightarrow> v | None \<Rightarrow> start)), s)
                 | (None, None) \<Rightarrow> (Err (NoValueSource name), s)
                 | (Some addr, _) \<Rightarrow>
                     (case b_bitfield n of
                        None \<Rightarrow> (Err (no_bit_field name), s)
                      | Some bf \<Rightarrow> read_bool_register E M name bf addr s)))
      | _ \<Rightarrow> (Err (wrong_kind E name ''a Boolean''), s))"

definition get_string_body :: "('f, 'd) nm_env \<Rightarrow> ('f, 'd) reads \<Rightarrow> string \<Rightarrow> (string, 'f, 'd) act" where
  "get_string_body E M name s =
     (case lookup E name of
        Some (NString n) \<Rightarrow>
          bind (ensure_readable_now E (t_access n) name, s) (\<lambda>_ s.
            case t_pvalue n of
              Some pv \<Rightarrow> rd_string M pv s
            | None \<Rightarrow>
                (case t_addressing n of
                   None \<Rightarrow>
                     ((case (ce_floating_string (st_cells s name), t_value n) of
                         (Some written, _) \<Rightarrow> Ok written
                       | (None, Some start) \<Rightarrow> Ok start
                       | (None, None) \<Rightarrow> Err (NoValueSource name)), s)
                 | Some addr \<Rightarrow>
                     (let fresh = bind (locate E M name addr s) (\<lambda>loc s.
                           bind (read_location E name loc s) (\<lambda>raw s.
                             let v = en_utf8_lossy E (takeWhile (\<lambda>b. b \<noteq> 0) raw); s = noted_read E name s in
                             (Ok v, map_cells name (\<lambda>c. c\<lparr>ce_string :=
                                (if may_cache (en_map E) name then Some (v, st_generation s) else None)\<rparr>) s))) in
                      case ce_string (st_cells s name) of
                        Some (v, generation) \<Rightarrow>
                          if serves E name s \<and> generation = st_generation s then (Ok v, s) else fresh
                      | None \<Rightarrow> fresh)))
      | _ \<Rightarrow> (Err (wrong_kind E name ''a String''), s))"

definition get_register :: "('f, 'd) nm_env \<Rightarrow> ('f, 'd) reads \<Rightarrow> string \<Rightarrow> (bytes, 'f, 'd) act" where
  "get_register E M name s =
     (case lookup E name of
        Some (NRegister n) \<Rightarrow>
          bind (ensure_readable_now E (r_access n) name, s) (\<lambda>_ s.
            let fresh = bind (locate E M name (r_addressing n) s) (\<lambda>loc s.
                  bind (read_location E name loc s) (\<lambda>raw s.
                    let s = noted_read E name s in
                    (Ok raw, map_cells name (\<lambda>c. c\<lparr>ce_bytes :=
                       (if may_cache (en_map E) name then Some (raw, st_generation s) else None)\<rparr>) s))) in
            case ce_bytes (st_cells s name) of
              Some (v, generation) \<Rightarrow>
                if serves E name s \<and> generation = st_generation s then (Ok v, s) else fresh
            | None \<Rightarrow> fresh)
      | _ \<Rightarrow> (Err (wrong_kind E name ''a Register''), s))"

section \<open>Values and limits\<close>

definition resolve_value_body :: "('f, 'd) nm_env \<Rightarrow> ('f, 'd) reads \<Rightarrow> string \<Rightarrow> string set \<Rightarrow> ('f fvalue, 'f, 'd) act" where
  "resolve_value_body E M provider stack s =
     (case lookup E provider of
        Some (NInteger _) \<Rightarrow> bind (rd_integer M provider s) (\<lambda>v s. (Ok (VInt v), s))
      | Some (NFloat _) \<Rightarrow> bind (rd_float M provider s) (\<lambda>v s. (Ok (VFloat v), s))
      | Some (NBoolean _) \<Rightarrow> bind (rd_bool M provider s) (\<lambda>v s. (Ok (from_bool v), s))
      | Some (NEnum _) \<Rightarrow> bind (get_enum_numeric E M provider s) (\<lambda>v s. (Ok (VInt v), s))
      | Some (NSwissKnife n) \<Rightarrow>
          bind (ensure_not_imposed E provider WO, s) (\<lambda>_ s. evaluate_swissknife E M n stack s)
      | Some (NConverter n) \<Rightarrow>
          bind (ensure_not_imposed E provider WO, s) (\<lambda>_ s. evaluate_converter E M n stack s)
      | Some (NIntConverter n) \<Rightarrow>
          bind (ensure_not_imposed E provider WO, s) (\<lambda>_ s.
            bind (evaluate_int_converter E M n stack s) (\<lambda>v s. (Ok (VInt v), s)))
      | _ \<Rightarrow> (Err (wrong_kind E provider ''a node with a value''), s))"

definition eval_from :: "('f, 'd) nm_env \<Rightarrow> ('f, 'd) reads \<Rightarrow> 'f int_converter_node \<Rightarrow> eval_mode \<Rightarrow> 'f fvalue \<Rightarrow> string set \<Rightarrow>
    ('f fvalue, 'f, 'd) act" where
  "eval_from E M n mode raw stack s =
     eval_formula E M (k_name n) (k_ast_from n) (k_vars_from n) [(''TO'', raw)] mode stack s"

definition automatic_limit :: "('f, 'd) nm_env \<Rightarrow> ('f, 'd) reads \<Rightarrow> 'f int_converter_node \<Rightarrow> eval_mode \<Rightarrow> limit_kind \<Rightarrow>
    string set \<Rightarrow> ('f fvalue option, 'f, 'd) act" where
  "automatic_limit E M n mode which stack s =
     bind (rd_limit M (k_p_value n) LMin stack s) (\<lambda>low s.
     bind (rd_limit M (k_p_value n) LMax stack s) (\<lambda>high s.
       case (low, high) of
         (Some low, Some high) \<Rightarrow>
           bind (eval_from E M n mode low stack s) (\<lambda>a s.
           bind (eval_from E M n mode high stack s) (\<lambda>b s.
             let (small, large) = (if fo_le (en_ops E) (as_f64 (en_ops E) a) (as_f64 (en_ops E) b) then (a, b) else (b, a)) in
             (Ok (Some (if which = LMin then small else large)), s)))
       | _ \<Rightarrow> (Ok None, s)))"

definition converter_limit :: "('f, 'd) nm_env \<Rightarrow> ('f, 'd) reads \<Rightarrow> 'f int_converter_node \<Rightarrow> eval_mode \<Rightarrow> limit_kind \<Rightarrow>
    string set \<Rightarrow> ('f fvalue option, 'f, 'd) act" where
  "converter_limit E M n mode which stack s =
     (let inner = insert (k_name n) stack;
          mapped = (\<lambda>raw_which. bind (rd_limit M (k_p_value n) raw_which inner s) (\<lambda>raw s.
            case raw of
              Some raw \<Rightarrow> bind (eval_from E M n mode raw inner s) (\<lambda>v s. (Ok (Some v), s))
            | None \<Rightarrow> (Ok None, s))) in
      if which = LInc then (Ok None, s)
      else if k_name n \<in> stack then (Err (ExprEval (k_name n) (Cycle (k_name n))), s)
      else case k_slope n of
        Varying \<Rightarrow> (Ok None, s)
      | Decreasing \<Rightarrow> mapped (if which = LMin then LMax else LMin)
      | Increasing \<Rightarrow> mapped which
      | Automatic \<Rightarrow> automatic_limit E M n mode which inner s)"

definition pick_limit :: "limit_kind \<Rightarrow> 'a \<Rightarrow> 'a \<Rightarrow> 'a \<Rightarrow> 'a" where
  "pick_limit which mn mx inc = (case which of LMin \<Rightarrow> mn | LMax \<Rightarrow> mx | LInc \<Rightarrow> inc)"

text \<open>
  The loop of \<open>NodeMap::limit\<close>. It visits declared names, each once, so one unit of fuel for each
  node and two more never run out; the \<open>Panic\<close> is not reached.
\<close>

fun limit_loop :: "nat \<Rightarrow> ('f, 'd) nm_env \<Rightarrow> ('f, 'd) reads \<Rightarrow> string \<Rightarrow> limit_kind \<Rightarrow> string set \<Rightarrow> string set \<Rightarrow> string \<Rightarrow>
    ('f fvalue option, 'f, 'd) act" where
  "limit_loop 0 E M name which stack visited current s = (Panic, s)"
| "limit_loop (Suc k) E M name which stack visited current s =
     (let follow = (\<lambda>pvalue.
        bind (case pvalue of Some pv \<Rightarrow> (Ok (Some pv), s) | None \<Rightarrow> indexed_target E M current s) (\<lambda>nxt s.
          case nxt of
            Some nxt \<Rightarrow> limit_loop k E M name which stack (insert current visited) nxt s
          | None \<Rightarrow> (Ok None, s))) in
      if current \<in> visited then (Err (ExprEval name (Cycle current)), s)
      else case lookup E current of
        Some (NInteger n) \<Rightarrow>
          (case pick_limit which (i_p_min n) (i_p_max n) (i_p_inc n) of
             Some pointer \<Rightarrow>
               bind (rd_value M pointer stack s) (\<lambda>v s.
                 (and_then (sk_to_i64 (en_ops E) (en_codec E) pointer v) (\<lambda>i. Ok (Some (VInt i))), s))
           | None \<Rightarrow>
               (case pick_limit which (i_min n) (i_max n) (i_inc n) of
                  Some v \<Rightarrow> (Ok (Some (VInt v)), s)
                | None \<Rightarrow> follow (i_pvalue n)))
      | Some (NFloat n) \<Rightarrow>
          if which = LInc then (Ok None, s)
          else
            (case pick_limit which (f_p_min n) (f_p_max n) None of
               Some pointer \<Rightarrow>
                 bind (rd_value M pointer stack s) (\<lambda>v s. (Ok (Some (VFloat (as_f64 (en_ops E) v))), s))
             | None \<Rightarrow>
                 (case pick_limit which (f_min n) (f_max n) None of
                    Some v \<Rightarrow> (Ok (Some (VFloat v)), s)
                  | None \<Rightarrow> follow (f_pvalue n)))
      | Some (NConverter n) \<Rightarrow>
          converter_limit E M (int_converter_node.truncate n) (eval_mode_of (k_output n)) which stack s
      | Some (NIntConverter n) \<Rightarrow> converter_limit E M n Integer which stack s
      | Some _ \<Rightarrow> (Ok None, s)
      | None \<Rightarrow> (Err (NodeNotFound current), s))"

definition limit_body :: "('f, 'd) nm_env \<Rightarrow> ('f, 'd) reads \<Rightarrow> string \<Rightarrow> limit_kind \<Rightarrow> string set \<Rightarrow>
    ('f fvalue option, 'f, 'd) act" where
  "limit_body E M name which stack s =
     limit_loop (length (nm_nodes (en_map E)) + 2) E M name which stack {} name s"

section \<open>The knot\<close>

primrec reads_at :: "nat \<Rightarrow> ('f, 'd) nm_env \<Rightarrow> ('f, 'd) reads" where
  "reads_at 0 E =
     \<lparr>rd_integer = (\<lambda>_ s. (Panic, s)), rd_float = (\<lambda>_ s. (Panic, s)), rd_enum = (\<lambda>_ s. (Panic, s)),
      rd_bool = (\<lambda>_ s. (Panic, s)), rd_value = (\<lambda>_ _ s. (Panic, s)), rd_limit = (\<lambda>_ _ _ s. (Panic, s)),
      rd_string = (\<lambda>_ s. (Panic, s))\<rparr>"
| "reads_at (Suc k) E =
     \<lparr>rd_integer = get_integer_body E (reads_at k E), rd_float = get_float_body E (reads_at k E),
      rd_enum = get_enum_body E (reads_at k E), rd_bool = get_bool_body E (reads_at k E),
      rd_value = resolve_value_body E (reads_at k E), rd_limit = limit_body E (reads_at k E),
      rd_string = get_string_body E (reads_at k E)\<rparr>"

section \<open>Predicates and access now\<close>

definition eval_predicate_ref :: "('f, 'd) nm_env \<Rightarrow> ('f, 'd) reads \<Rightarrow> string \<Rightarrow> string \<Rightarrow> (bool, 'f, 'd) act" where
  "eval_predicate_ref E M ctx provider s =
     (if provider = ctx then (Err (ExprEval ctx (Cycle provider)), s)
      else bind (rd_value M provider {ctx} s) (\<lambda>v s.
        (Ok (\<not> fo_eq (en_ops E) (as_f64 (en_ops E) v) (fo_zero (en_ops E))), s)))"

definition predicate_refs_of :: "('f, 'd) nm_env \<Rightarrow> string \<Rightarrow> (predicate_refs, 'f genapi_error) result" where
  "predicate_refs_of E name =
     (case lookup E name of Some n \<Rightarrow> Ok (node_predicates n) | None \<Rightarrow> Err (NodeNotFound name))"

definition eval_optional :: "('f, 'd) nm_env \<Rightarrow> ('f, 'd) reads \<Rightarrow> string \<Rightarrow> string option \<Rightarrow> bool \<Rightarrow> (bool, 'f, 'd) act" where
  "eval_optional E M name provider absent s =
     (case provider of Some p \<Rightarrow> eval_predicate_ref E M name p s | None \<Rightarrow> (Ok absent, s))"

definition is_implemented :: "('f, 'd) nm_env \<Rightarrow> ('f, 'd) reads \<Rightarrow> string \<Rightarrow> (bool, 'f, 'd) act" where
  "is_implemented E M name s =
     bind (predicate_refs_of E name, s) (\<lambda>p s. eval_optional E M name (p_is_implemented p) True s)"

definition own_availability :: "('f, 'd) nm_env \<Rightarrow> ('f, 'd) reads \<Rightarrow> string \<Rightarrow> (bool, 'f, 'd) act" where
  "own_availability E M name s =
     bind (predicate_refs_of E name, s) (\<lambda>p s. eval_optional E M name (p_is_available p) True s)"

definition is_available :: "('f, 'd) nm_env \<Rightarrow> ('f, 'd) reads \<Rightarrow> string \<Rightarrow> (bool, 'f, 'd) act" where
  "is_available E M name s =
     bind (is_implemented E M name s) (\<lambda>implemented s.
       if \<not> implemented then (Ok False, s) else own_availability E M name s)"

definition locked_by :: "('f, 'd) nm_env \<Rightarrow> ('f, 'd) reads \<Rightarrow> string \<Rightarrow> (string option, 'f, 'd) act" where
  "locked_by E M name s =
     bind (predicate_refs_of E name, s) (\<lambda>p s.
       bind (eval_optional E M name (p_is_locked p) False s) (\<lambda>locked s.
         (Ok (if locked then p_is_locked p else None), s)))"

definition ensure_writable :: "access_mode \<Rightarrow> string \<Rightarrow> (unit, 'f genapi_error) result" where
  "ensure_writable access name = (if access = RO then Err (AccessRefused name WriteAccess) else Ok ())"

definition ensure_writable_now :: "('f, 'd) nm_env \<Rightarrow> ('f, 'd) reads \<Rightarrow> string \<Rightarrow> access_mode \<Rightarrow> (unit, 'f, 'd) act" where
  "ensure_writable_now E M name access s =
     bind (ensure_writable access name, s) (\<lambda>_ s.
       if imposed_access E name = Some RO then (Err (AccessRefused name WriteAccess), s)
       else
         bind (is_available E M name s) (\<lambda>available s.
           if \<not> available then (Err (Unavailable name), s)
           else
             bind (locked_by E M name s) (\<lambda>lock s.
               case lock of Some l \<Rightarrow> (Err (Locked name l), s) | None \<Rightarrow> (Ok (), s))))"

definition entry_available :: "('f, 'd) nm_env \<Rightarrow> ('f, 'd) reads \<Rightarrow> string \<Rightarrow> enum_entry_decl \<Rightarrow> (bool, 'f, 'd) act" where
  "entry_available E M name e s =
     bind (eval_optional E M name (p_is_implemented (ee_predicates e)) True s) (\<lambda>ok s.
       if \<not> ok then (Ok False, s) else eval_optional E M name (p_is_available (ee_predicates e)) True s)"

definition unique_in_order :: "string list \<Rightarrow> string list" where
  "unique_in_order names = rev (remdups (rev names))"

definition enum_entries :: "('f, 'd) nm_env \<Rightarrow> string \<Rightarrow> (string list, 'f, 'd) act" where
  "enum_entries E name s =
     (case lookup E name of
        Some (NEnum n) \<Rightarrow>
          (Ok (unique_in_order (filter (\<lambda>entry. case ce_mapping (st_cells s name) of
               Some m \<Rightarrow> em_by_name m entry \<noteq> None | None \<Rightarrow> True) (map ee_name (e_entries n)))), s)
      | _ \<Rightarrow> (Err (wrong_kind E name ''an Enumeration''), s))"

primrec filter_available :: "('f, 'd) nm_env \<Rightarrow> ('f, 'd) reads \<Rightarrow> string \<Rightarrow> enum_entry_decl list \<Rightarrow> (string list, 'f, 'd) act" where
  "filter_available E M name [] s = (Ok [], s)"
| "filter_available E M name (e # es) s =
     bind (entry_available E M name e s) (\<lambda>ok s.
     bind (filter_available E M name es s) (\<lambda>rest s. (Ok (if ok then ee_name e # rest else rest), s)))"

definition available_enum_entries :: "('f, 'd) nm_env \<Rightarrow> ('f, 'd) reads \<Rightarrow> string \<Rightarrow> (string list, 'f, 'd) act" where
  "available_enum_entries E M name s =
     (case lookup E name of
        Some (NEnum n) \<Rightarrow>
          if list_all (\<lambda>e. predicates_empty (ee_predicates e)) (e_entries n) then enum_entries E name s
          else bind (filter_available E M name (e_entries n) s) (\<lambda>out s. (Ok (unique_in_order out), s))
      | _ \<Rightarrow> (Err (wrong_kind E name ''an Enumeration''), s))"

end
