(* ===== verification/Node_Reads_Props.thy ===== *)
theory Node_Reads_Props
  imports Node_Reads Nodemap_Props
begin

text \<open>
  What reading a feature does: an integer register is answered from its cache exactly when that may
  serve, otherwise from the bytes the device returns; a \<open><pValue>\<close> cycle of integers has no guard and
  never returns (\<^verbatim>\<open>NodeMap::get_integer\<close> of \<^verbatim>\<open>crates/viva-genapi/src/nodemap.rs\<close>).
\<close>

lemma bind_cases:
  "fst (bind m k) = (case m of (Ok v, s) \<Rightarrow> fst (k v s) | (Err e, s) \<Rightarrow> Err e | (Panic, s) \<Rightarrow> Panic)"
  by (auto simp: bind_def split: prod.split result.split)

text \<open>An integer with a register of its own at a fixed address of the device.\<close>

definition plain_register :: "integer_node \<Rightarrow> u64 \<Rightarrow> u32 \<Rightarrow> bool" where
  "plain_register n address len \<longleftrightarrow>
     i_value n = None \<and> i_pvalue n = None \<and> i_indexed n = None \<and> i_addressing n = Some (addressing_fixed address len)"

lemma locate_plain:
  "locate E M name (addressing_fixed address len) s = (Ok (DeviceAt address len), s)"
  by (simp add: locate_def addressing_fixed_def route_def resolve_device_address_def resolve_address_def
      register_length_def resolve_address_term_def)

definition readable_now :: "('f, 'd) nm_env \<Rightarrow> access_mode \<Rightarrow> string \<Rightarrow> bool" where
  "readable_now E access name \<longleftrightarrow> access \<noteq> WO \<and> imposed_access E name \<noteq> Some WO"

lemma ensure_readable_now_Ok: "readable_now E access name \<Longrightarrow> ensure_readable_now E access name = Ok ()"
  by (simp add: readable_now_def ensure_readable_now_def ensure_readable_def and_then_def)

lemma read_plain_register:
  assumes "lookup E name = Some (NInteger n)" "readable_now E (i_access n) name" "plain_register n address len"
  shows "rd_integer (reads_at (Suc k) E) name s =
    read_integer_register E (reads_at k E) n name (addressing_fixed address len) s"
  using assms(1,3) ensure_readable_now_Ok [OF assms(2)]
  by (simp add: get_integer_body_def read_integer_node_def plain_register_def)

lemma plain_register_value:
  assumes "lookup E name = Some (NInteger n)" "readable_now E (i_access n) name" "plain_register n address len"
  shows "fst (rd_integer (reads_at (Suc k) E) name s) =
    (case ce_int (st_cells s name) of
       Some v \<Rightarrow> if serves E name s then Ok v
         else and_then (fst (en_read E address (unat len) (st_device s))) (decode_integer n name)
     | None \<Rightarrow> and_then (fst (en_read E address (unat len) (st_device s))) (decode_integer n name))"
  unfolding read_plain_register [OF assms] read_integer_register_def locate_plain bind_simps read_location_def
    device_read_def Let_def
  by (cases "en_read E address (unat len) (st_device s)")
     (auto simp: bind_def and_then_def split: option.split result.split)

text \<open>
  Reading an integer with a register of its own: a cached value that may serve is returned and
  nothing changes, the device included; otherwise the value is the decoded bytes of one device read,
  which are kept when the caching mode allows and dropped when it does not.
\<close>
theorem integer_register_read:
  assumes "lookup E name = Some (NInteger n)" "readable_now E (i_access n) name" "plain_register n address len"
  shows "rd_integer (reads_at (Suc k) E) name s =
    (if ce_int (st_cells s name) \<noteq> None \<and> serves E name s
     then (Ok (the (ce_int (st_cells s name))), s)
     else
       (let (bytes_read, d) = en_read E address (unat len) (st_device s);
            s' = s\<lparr>st_device := d\<rparr>;
            r = and_then bytes_read (decode_integer n name);
            kept = (may_cache (en_map E) name) in
        (r, case r of
              Ok v \<Rightarrow> map_cells name (\<lambda>c. c\<lparr>ce_int := (if kept then Some v else None),
                        ce_raw := (if kept then Some (ok_value bytes_read) else None)\<rparr>) (noted_read E name s')
            | _ \<Rightarrow> s')))"
proof -
  show ?thesis
    unfolding read_plain_register [OF assms] read_integer_register_def locate_plain bind_simps read_location_def device_read_def Let_def
    by (cases "en_read E address (unat len) (st_device s)"; cases "fst (en_read E address (unat len) (st_device s))")
       (auto simp: bind_def and_then_def split: option.split result.split)
qed

text \<open>A width register behind a memory of one register.\<close>

definition word_env :: "(int, bytes) nm_env" where
  "word_env =
     \<lparr>en_map = empty_map\<lparr>nm_nodes :=
        [(''Width'', NInteger (plain_integer ''Width'' (Some (addressing_fixed 0x100 4)) None))]\<rparr>,
      en_ops = whole_floats,
      en_codec = \<lparr>fc_is_finite = (\<lambda>_. True), fc_half = 0, fc_eps9 = 0, fc_eps6 = 0, fc_min = 0, fc_max = 0,
        fc_min32 = 0, fc_max32 = 0, fc_decode32 = (\<lambda>_. 0), fc_decode64 = (\<lambda>_. 0),
        fc_encode32 = (\<lambda>_. []), fc_encode64 = (\<lambda>_. [])\<rparr>,
      en_read = (\<lambda>address len d. (Ok d, d)),
      en_write = (\<lambda>address bs d. (Ok (), bs)),
      en_clock = (\<lambda>_. 0), en_utf8_lossy = (\<lambda>_. []), en_utf8 = (\<lambda>_. [])\<rparr>"

lemma width_lookup:
  "lookup word_env ''Width'' = Some (NInteger (plain_integer ''Width'' (Some (addressing_fixed 0x100 4)) None))"
  by (simp add: lookup_def word_env_def get_node_def)

lemma integer_register_read_witness:
  "fst (rd_integer (reads_at (Suc 0) word_env) ''Width'' (initial_state [0, 0, 2, 128])) = Ok 640"
proof -
  have readable: "readable_now word_env (i_access (plain_integer ''Width'' (Some (addressing_fixed 0x100 4)) None)) ''Width''"
    using width_lookup by (simp add: readable_now_def imposed_access_def plain_integer_def plain_meta_def)
  have plain: "plain_register (plain_integer ''Width'' (Some (addressing_fixed 0x100 4)) None) 0x100 4"
    by (simp add: plain_register_def plain_integer_def)
  have fill: "replicate 4 (0 :: byte) = [0, 0, 0, 0]" by (simp add: numeral_eq_Suc)
  show ?thesis
    unfolding integer_register_read [OF width_lookup readable plain]
    by (simp add: fill be_word_def be_nat_def initial_state_def empty_cells_def Let_def and_then_def decode_integer_def plain_integer_def
        bytes_to_i64_def map_err_def word_env_def split: result.split)
qed

section \<open>Cycles\<close>

text \<open>Integers that take their values from each other.\<close>

definition pvalue_cycle :: "('f, 'd) nm_env \<Rightarrow> string set \<Rightarrow> bool" where
  "pvalue_cycle E X \<longleftrightarrow>
     (\<forall>x \<in> X. \<exists>n y. lookup E x = Some (NInteger n) \<and> readable_now E (i_access n) x \<and>
        i_value n = None \<and> i_pvalue n = Some y \<and> y \<in> X)"

text \<open>
  C27. Integers that take their values from each other have no guard against the cycle: however deep
  the stack, reading one of them exhausts it, and nothing but the stack is touched.
\<close>
theorem pvalue_cycle_overflows:
  assumes "pvalue_cycle E X" "x \<in> X"
  shows "rd_integer (reads_at k E) x s = (Panic, s)"
  using assms(2)
proof (induction k arbitrary: x)
  case (Suc k)
  obtain n y where n: "lookup E x = Some (NInteger n)" "readable_now E (i_access n) x" "i_value n = None"
    "i_pvalue n = Some y" "y \<in> X"
    using assms(1) Suc.prems unfolding pvalue_cycle_def by blast
  have "rd_integer (reads_at (Suc k) E) x s = rd_integer (reads_at k E) y s"
    using n ensure_readable_now_Ok [OF n(2)] by (simp add: get_integer_body_def read_integer_node_def)
  then show ?case using Suc.IH [OF n(5)] by simp
qed simp

definition cycle_env :: "(int, bytes) nm_env" where
  "cycle_env = word_env\<lparr>en_map := empty_map\<lparr>nm_nodes :=
     [(''A'', NInteger (plain_integer ''A'' None (Some ''B''))), (''B'', NInteger (plain_integer ''B'' None (Some ''A'')))]\<rparr>\<rparr>"

lemma pvalue_cycle_overflows_witness:
  "rd_integer (reads_at 1000 cycle_env) ''A'' (initial_state []) = (Panic, initial_state [])"
proof (rule pvalue_cycle_overflows)
  show "pvalue_cycle cycle_env {''A'', ''B''}"
    by (simp add: pvalue_cycle_def lookup_def cycle_env_def get_node_def readable_now_def imposed_access_def
        plain_integer_def plain_meta_def)
qed simp

end
