(* ===== verification/Node_Writes.thy ===== *)
theory Node_Writes
  imports Node_Reads
begin

text \<open>
  Writing features and executing commands through the node map
  (\<^verbatim>\<open>crates/viva-genapi/src/nodemap.rs\<close>). A write reads what it needs (addresses, limits,
  predicates) with the methods \<open>R\<close> of theory \<open>Node_Reads\<close>, and follows \<open><pValue>\<close> and converters
  with the methods \<open>W\<close>; \<open>writes_at\<close> ties that knot with fuel, one unit for each nested call.
\<close>

section \<open>Registers\<close>

definition device_write :: "('f, 'd) nm_env \<Rightarrow> u64 \<Rightarrow> bytes \<Rightarrow> (unit, 'f, 'd) act" where
  "device_write E address bs s = (let (r, d) = en_write E address bs (st_device s) in (r, s\<lparr>st_device := d\<rparr>))"

definition changed :: "('f, 'd) nm_env \<Rightarrow> string \<Rightarrow> ('f, 'd) nm_state \<Rightarrow> ('f, 'd) nm_state" where
  "changed E name s = invalidate_dependents (en_map E) name s"

definition get_raw_or_read :: "('f, 'd) nm_env \<Rightarrow> string \<Rightarrow> bool \<Rightarrow> u64 \<Rightarrow> u32 \<Rightarrow> (bytes, 'f, 'd) act" where
  "get_raw_or_read E name readable address len s =
     (let miss = (if \<not> readable then (Err (MaskedWriteUnreadable name address), s)
                  else device_read E address (unat len) s) in
      case ce_raw (st_cells s name) of
        Some bs \<Rightarrow> if length bs = unat len then (Ok bs, s) else miss
      | None \<Rightarrow> miss)"

text \<open>\<open>keep\<close> stores the value written in the node's own cache, \<open>forget\<close> empties it.\<close>

definition after_register_write :: "('f, 'd) nm_env \<Rightarrow> string \<Rightarrow> ('f cells \<Rightarrow> 'f cells) \<Rightarrow> ('f cells \<Rightarrow> 'f cells) \<Rightarrow>
    bytes \<Rightarrow> bool \<Rightarrow> ('f, 'd) nm_state \<Rightarrow> ('f, 'd) nm_state" where
  "after_register_write E name keep forget raw readable s =
     (if keeps_written (en_map E) name
      then noted_read E name (map_cells name (\<lambda>c. (keep c)\<lparr>ce_raw := Some raw\<rparr>) s)
      else map_cells name (\<lambda>c. (forget c)\<lparr>ce_raw := (if readable then None else Some raw)\<rparr>) s)"

text \<open>A masked write: the other bits come from the cache or the device.\<close>

definition write_masked :: "('f, 'd) nm_env \<Rightarrow> string \<Rightarrow> bool \<Rightarrow> bit_field \<Rightarrow> u64 \<Rightarrow> ('f cells \<Rightarrow> 'f cells) \<Rightarrow>
    ('f cells \<Rightarrow> 'f cells) \<Rightarrow> u64 \<times> u32 \<Rightarrow> (unit, 'f, 'd) act" where
  "write_masked E name readable bf encoded keep forget place s =
     (let (address, len) = place;
          s = (if readable \<and> \<not> serves E name s then map_cells name (\<lambda>c. c\<lparr>ce_raw := None\<rparr>) s else s) in
      bind (get_raw_or_read E name readable address len s) (\<lambda>raw s.
      bind (map_err (map_bitops_error name) (insert_field raw bf encoded), s) (\<lambda>raw s.
      bind (device_write E address raw s) (\<lambda>_ s.
        (Ok (), changed E name (after_register_write E name keep forget raw readable s))))))"

section \<open>Ranges\<close>

definition limit_i64 :: "('f, 'd) nm_env \<Rightarrow> ('f, 'd) reads \<Rightarrow> string \<Rightarrow> limit_kind \<Rightarrow> (i64 option, 'f, 'd) act" where
  "limit_i64 E R name which s =
     bind (rd_limit R name which {} s) (\<lambda>l s.
       (case l of
          None \<Rightarrow> Ok None
        | Some v \<Rightarrow> and_then (sk_to_i64 (en_ops E) (en_codec E) name v) (\<lambda>i. Ok (Some i)), s))"

definition check_range :: "string \<Rightarrow> i64 \<Rightarrow> i64 option \<Rightarrow> i64 option \<Rightarrow> i64 option \<Rightarrow> (unit, 'f genapi_error) result" where
  "check_range name v mn mx inc =
     (if \<exists>m \<in> set_option mn. sint v < sint m then Err (RangeError name (VInt v) (BelowMin (VInt (the mn))))
      else if \<exists>m \<in> set_option mx. sint v > sint m then Err (RangeError name (VInt v) (AboveMax (VInt (the mx))))
      else
        let base = (case mn of Some m \<Rightarrow> m | None \<Rightarrow> 0) in
        if \<exists>i \<in> set_option inc. sint i > 1 \<and> (sint v - sint base) smod sint i \<noteq> 0
        then Err (RangeError name (VInt v) (OffIncrement base (the inc)))
        else Ok ())"

definition ensure_integer_in_range :: "('f, 'd) nm_env \<Rightarrow> ('f, 'd) reads \<Rightarrow> string \<Rightarrow> i64 \<Rightarrow> (unit, 'f, 'd) act" where
  "ensure_integer_in_range E R name v s =
     bind (limit_i64 E R name LMin s) (\<lambda>mn s.
     bind (limit_i64 E R name LMax s) (\<lambda>mx s.
     bind (limit_i64 E R name LInc s) (\<lambda>inc s. (check_range name v mn mx inc, s))))"

definition ensure_float_in_range :: "('f, 'd) nm_env \<Rightarrow> ('f, 'd) reads \<Rightarrow> string \<Rightarrow> 'f \<Rightarrow> (unit, 'f, 'd) act" where
  "ensure_float_in_range E R name v s =
     bind (rd_limit R name LMin {} s) (\<lambda>mn s.
     bind (rd_limit R name LMax {} s) (\<lambda>mx s.
       (let mn = map_option (as_f64 (en_ops E)) mn; mx = map_option (as_f64 (en_ops E)) mx in
        if \<exists>m \<in> set_option mn. fo_lt (en_ops E) v m
        then Err (RangeError name (VFloat v) (BelowMin (VFloat (the mn))))
        else if \<exists>m \<in> set_option mx. fo_lt (en_ops E) m v
        then Err (RangeError name (VFloat v) (AboveMax (VFloat (the mx))))
        else Ok (), s)))"

section \<open>Methods\<close>

record ('f, 'd) writes =
  wr_integer :: "string \<Rightarrow> i64 \<Rightarrow> (unit, 'f, 'd) act"
  wr_float :: "string \<Rightarrow> 'f \<Rightarrow> (unit, 'f, 'd) act"
  wr_bool :: "string \<Rightarrow> bool \<Rightarrow> (unit, 'f, 'd) act"
  wr_string :: "string \<Rightarrow> string \<Rightarrow> (unit, 'f, 'd) act"

definition converter_raw_write :: "('f, 'd) nm_env \<Rightarrow> ('f, 'd) reads \<Rightarrow> 'f int_converter_node \<Rightarrow> 'f fvalue \<Rightarrow> eval_mode \<Rightarrow>
    ('f fvalue, 'f, 'd) act" where
  "converter_raw_write E R n v mode s =
     bind (if ''OLD'' \<in> v_name ` set (k_vars_to n)
           then bind (rd_value R (k_p_value n) {} s) (\<lambda>old s. (Ok [(''FROM'', v), (''OLD'', old)], s))
           else (Ok [(''FROM'', v)], s)) (\<lambda>overrides s.
       eval_formula E R (k_name n) (k_ast_to n) (k_vars_to n) overrides mode {} s)"

definition write_converter_raw :: "('f, 'd) nm_env \<Rightarrow> ('f, 'd) writes \<Rightarrow> string \<Rightarrow> 'f fvalue \<Rightarrow> (unit, 'f, 'd) act" where
  "write_converter_raw E W p raw s =
     (case lookup E p of
        Some (NFloat _) \<Rightarrow> wr_float W p (as_f64 (en_ops E) raw) s
      | Some (NBoolean _) \<Rightarrow> wr_bool W p (is_truthy (en_ops E) raw) s
      | Some _ \<Rightarrow> bind (sk_to_i64 (en_ops E) (en_codec E) p raw, s) (\<lambda>i s. wr_integer W p i s)
      | None \<Rightarrow> (Err (NodeNotFound p), s))"

text \<open>What \<open>set_converter\<close> and \<open>set_int_converter\<close> share once the node is found.\<close>

definition write_through_converter :: "('f, 'd) nm_env \<Rightarrow> ('f, 'd) reads \<Rightarrow> ('f, 'd) writes \<Rightarrow> string \<Rightarrow>
    'f int_converter_node \<Rightarrow> 'f fvalue \<Rightarrow> eval_mode \<Rightarrow> (unit, 'f, 'd) act" where
  "write_through_converter E R W name n v mode s =
     bind (converter_raw_write E R n v mode s) (\<lambda>raw s.
     bind (write_converter_raw E W (k_p_value n) raw s) (\<lambda>_ s. (Ok (), changed E name s)))"

definition set_converter :: "('f, 'd) nm_env \<Rightarrow> ('f, 'd) reads \<Rightarrow> ('f, 'd) writes \<Rightarrow> string \<Rightarrow> 'f \<Rightarrow> (unit, 'f, 'd) act" where
  "set_converter E R W name v s =
     bind (ensure_writable_now E R name RW s) (\<lambda>_ s.
       case lookup E name of
         Some (NConverter n) \<Rightarrow>
           write_through_converter E R W name (int_converter_node.truncate n) (VFloat v) (eval_mode_of (k_output n)) s
       | _ \<Rightarrow> (Err (wrong_kind E name ''a Converter''), s))"

definition set_int_converter :: "('f, 'd) nm_env \<Rightarrow> ('f, 'd) reads \<Rightarrow> ('f, 'd) writes \<Rightarrow> string \<Rightarrow> i64 \<Rightarrow> (unit, 'f, 'd) act" where
  "set_int_converter E R W name v s =
     bind (ensure_writable_now E R name RW s) (\<lambda>_ s.
       case lookup E name of
         Some (NIntConverter n) \<Rightarrow> write_through_converter E R W name n (VInt v) Integer s
       | _ \<Rightarrow> (Err (wrong_kind E name ''an IntConverter''), s))"

section \<open>Integers and floats\<close>

definition write_integer_register :: "('f, 'd) nm_env \<Rightarrow> ('f, 'd) reads \<Rightarrow> integer_node \<Rightarrow> string \<Rightarrow> i64 \<Rightarrow> addressing \<Rightarrow>
    (unit, 'f, 'd) act" where
  "write_integer_register E R n name v addr s =
     (let keep = (\<lambda>c. c\<lparr>ce_int := Some v\<rparr>); forget = (\<lambda>c. c\<lparr>ce_int := None\<rparr>); readable = (i_access n \<noteq> WO) in
      bind (locate_for_write E R name addr s) (\<lambda>(address, len) s.
        case i_bitfield n of
          Some bf \<Rightarrow>
            bind (map_err (name_conversion name)
                    (encode_bitfield_value v (bit_field.bit_length bf) (is_signed (i_sign n))), s) (\<lambda>encoded s.
              write_masked E name readable bf encoded keep forget (address, len) s)
        | None \<Rightarrow>
            bind (map_err (name_conversion name) (i64_to_bytes v (unat len) (i_sign n) (i_byte_order n)), s) (\<lambda>bs s.
            bind (device_write E address bs s) (\<lambda>_ s.
              (Ok (), changed E name (after_register_write E name keep forget bs readable s))))))"

definition write_integer_node :: "('f, 'd) nm_env \<Rightarrow> ('f, 'd) reads \<Rightarrow> ('f, 'd) writes \<Rightarrow> integer_node \<Rightarrow> string \<Rightarrow> i64 \<Rightarrow>
    (unit, 'f, 'd) act" where
  "write_integer_node E R W n name v s =
     bind (ensure_writable_now E R name (i_access n) s) (\<lambda>_ s.
     bind (ensure_integer_in_range E R name v s) (\<lambda>_ s.
       if i_value n \<noteq> None then (Ok (), changed E name (map_cells name (\<lambda>c. c\<lparr>ce_floating := Some v\<rparr>) s))
       else case i_pvalue n of
         Some pv \<Rightarrow> wr_integer W pv v s
       | None \<Rightarrow>
           (case i_indexed n of
              Some table \<Rightarrow>
                bind (indexed_value_now R name table s) (\<lambda>(slot, src) s.
                  case src of
                    IndexedFromNode target \<Rightarrow> wr_integer W target v s
                  | IndexedLiteral _ \<Rightarrow>
                      (Ok (), changed E name (map_cells name (\<lambda>c. c\<lparr>ce_written := (ce_written c)(slot \<mapsto> v)\<rparr>) s)))
            | None \<Rightarrow>
                (case i_addressing n of
                   None \<Rightarrow> (Err (NoValueSource name), s)
                 | Some addr \<Rightarrow> write_integer_register E R n name v addr s))))"

definition set_integer_body :: "('f, 'd) nm_env \<Rightarrow> ('f, 'd) reads \<Rightarrow> ('f, 'd) writes \<Rightarrow> string \<Rightarrow> i64 \<Rightarrow> (unit, 'f, 'd) act" where
  "set_integer_body E R W name v s =
     (case lookup E name of
        Some (NIntConverter _) \<Rightarrow> set_int_converter E R W name v s
      | Some (NInteger n) \<Rightarrow> write_integer_node E R W n name v s
      | _ \<Rightarrow> (Err (wrong_kind E name ''an Integer''), s))"

definition encode_float_register :: "('f, 'd) nm_env \<Rightarrow> 'f float_node \<Rightarrow> string \<Rightarrow> 'f \<Rightarrow> u32 \<Rightarrow> (bytes, 'f genapi_error) result" where
  "encode_float_register E n name v len =
     (case f_encoding n of
        Ieee754 \<Rightarrow> encode_ieee754 (en_ops E) (en_codec E) name v len (f_byte_order n)
      | ScaledInteger \<Rightarrow>
          and_then (encode_float (en_ops E) (en_codec E) n v) (\<lambda>raw.
            map_err (name_conversion name) (i64_to_bytes raw (unat len) Signed (f_byte_order n))))"

definition write_float_register :: "('f, 'd) nm_env \<Rightarrow> ('f, 'd) reads \<Rightarrow> 'f float_node \<Rightarrow> string \<Rightarrow> 'f \<Rightarrow> addressing \<Rightarrow>
    (unit, 'f, 'd) act" where
  "write_float_register E R n name v addr s =
     bind (locate_for_write E R name addr s) (\<lambda>(address, len) s.
     bind (encode_float_register E n name v len, s) (\<lambda>bs s.
     bind (device_write E address bs s) (\<lambda>_ s.
       (Ok (), changed E name
          (if keeps_written (en_map E) name
           then noted_read E name (map_cells name (\<lambda>c. c\<lparr>ce_float := Some v\<rparr>) s)
           else map_cells name (\<lambda>c. c\<lparr>ce_float := None\<rparr>) s)))))"

definition write_float_node :: "('f, 'd) nm_env \<Rightarrow> ('f, 'd) reads \<Rightarrow> ('f, 'd) writes \<Rightarrow> 'f float_node \<Rightarrow> string \<Rightarrow> 'f \<Rightarrow>
    (unit, 'f, 'd) act" where
  "write_float_node E R W n name v s =
     bind (ensure_writable_now E R name (f_access n) s) (\<lambda>_ s.
     bind (ensure_float_in_range E R name v s) (\<lambda>_ s.
       if f_value n \<noteq> None then (Ok (), changed E name (map_cells name (\<lambda>c. c\<lparr>ce_floating_float := Some v\<rparr>) s))
       else case f_pvalue n of
         Some pv \<Rightarrow> wr_float W pv v s
       | None \<Rightarrow>
           (case f_indexed n of
              Some table \<Rightarrow>
                bind (indexed_value_now R name table s) (\<lambda>(slot, src) s.
                  case src of
                    IndexedFromNode target \<Rightarrow> wr_float W target v s
                  | IndexedLiteral _ \<Rightarrow>
                      (Ok (), changed E name
                         (map_cells name (\<lambda>c. c\<lparr>ce_written_float := (ce_written_float c)(slot \<mapsto> v)\<rparr>) s)))
            | None \<Rightarrow>
                (case f_addressing n of
                   None \<Rightarrow> (Err (NoValueSource name), s)
                 | Some addr \<Rightarrow> write_float_register E R n name v addr s))))"

definition set_float_body :: "('f, 'd) nm_env \<Rightarrow> ('f, 'd) reads \<Rightarrow> ('f, 'd) writes \<Rightarrow> string \<Rightarrow> 'f \<Rightarrow> (unit, 'f, 'd) act" where
  "set_float_body E R W name v s =
     (case lookup E name of
        Some (NConverter _) \<Rightarrow> set_converter E R W name v s
      | Some (NIntConverter _) \<Rightarrow>
          bind (round_to_i64 (en_ops E) (en_codec E) name v, s) (\<lambda>i s. set_int_converter E R W name i s)
      | Some (NFloat n) \<Rightarrow> write_float_node E R W n name v s
      | _ \<Rightarrow> (Err (wrong_kind E name ''a Float''), s))"

section \<open>Enumerations and booleans\<close>

definition set_enum :: "('f, 'd) nm_env \<Rightarrow> ('f, 'd) reads \<Rightarrow> ('f, 'd) writes \<Rightarrow> string \<Rightarrow> string \<Rightarrow> (unit, 'f, 'd) act" where
  "set_enum E R W name entry s =
     (case lookup E name of
        Some (NEnum n) \<Rightarrow>
          bind (ensure_writable_now E R name (e_access n) s) (\<lambda>_ s.
            case find (\<lambda>e. ee_name e = entry) (e_entries n) of
              None \<Rightarrow> (Err (EnumNoSuchEntry name entry), s)
            | Some e \<Rightarrow>
                bind (entry_available E R name e s) (\<lambda>available s.
                  if \<not> available then (Err (EnumEntryUnavailable name entry), s)
                  else
                    bind (resolve_enum_entry_value R e s) (\<lambda>raw s.
                      case e_pvalue n of
                        Some pv \<Rightarrow>
                          bind (wr_integer W pv raw s) (\<lambda>_ s.
                            (Ok (), changed E name (noted_entry E name (ee_is_self_clearing e)
                               (map_cells name (\<lambda>c. c\<lparr>ce_entry := None, ce_mapping := None\<rparr>) s))))
                      | None \<Rightarrow>
                          (case (e_addressing n, e_value n) of
                             (None, Some _) \<Rightarrow>
                               (Ok (), changed E name (map_cells name (\<lambda>c. c\<lparr>ce_floating := Some raw, ce_entry := None\<rparr>) s))
                           | (None, None) \<Rightarrow> (Err (NoValueSource name), s)
                           | (Some addr, _) \<Rightarrow>
                               bind (locate_for_write E R name addr s) (\<lambda>(address, len) s.
                               bind (map_err (name_conversion name) (i64_to_bytes raw (unat len) Signed Big), s) (\<lambda>bs s.
                               bind (device_write E address bs s) (\<lambda>_ s.
                                 (Ok (), changed E name (noted_entry E name (ee_is_self_clearing e)
                                    (map_cells name (\<lambda>c. c\<lparr>ce_entry := None\<rparr>) s))))))))))
      | _ \<Rightarrow> (Err (wrong_kind E name ''an Enumeration''), s))"

definition bool_raw :: "boolean_node \<Rightarrow> bool \<Rightarrow> i64" where
  "bool_raw n flag =
     (if flag then (case b_on_value n of Some v \<Rightarrow> v | None \<Rightarrow> 1) else (case b_off_value n of Some v \<Rightarrow> v | None \<Rightarrow> 0))"

definition set_bool_body :: "('f, 'd) nm_env \<Rightarrow> ('f, 'd) reads \<Rightarrow> ('f, 'd) writes \<Rightarrow> string \<Rightarrow> bool \<Rightarrow> (unit, 'f, 'd) act" where
  "set_bool_body E R W name flag s =
     (case lookup E name of
        Some (NBoolean n) \<Rightarrow>
          bind (ensure_writable_now E R name (b_access n) s) (\<lambda>_ s.
            case b_pvalue n of
              Some pv \<Rightarrow> wr_integer W pv (bool_raw n flag) s
            | None \<Rightarrow>
                (case (b_addressing n, b_value n) of
                   (None, Some _) \<Rightarrow>
                     (Ok (), changed E name (map_cells name (\<lambda>c. c\<lparr>ce_floating := Some (bool_raw n flag)\<rparr>) s))
                 | (None, None) \<Rightarrow> (Err (NoValueSource name), s)
                 | (Some addr, _) \<Rightarrow>
                     (case b_bitfield n of
                        None \<Rightarrow> (Err (no_bit_field name), s)
                      | Some bf \<Rightarrow>
                          bind (locate_for_write E R name addr s) (\<lambda>place s.
                            write_masked E name (b_access n \<noteq> WO) bf (if flag then 1 else 0)
                              (\<lambda>c. c\<lparr>ce_bool := Some flag\<rparr>) (\<lambda>c. c\<lparr>ce_bool := None\<rparr>) place s))))
      | _ \<Rightarrow> (Err (wrong_kind E name ''a Boolean''), s))"

section \<open>Strings and registers\<close>

definition string_buffer :: "nat \<Rightarrow> bytes \<Rightarrow> bytes" where
  "string_buffer len bs = take len bs @ replicate (len - length bs) 0"

definition set_string_body :: "('f, 'd) nm_env \<Rightarrow> ('f, 'd) reads \<Rightarrow> ('f, 'd) writes \<Rightarrow> string \<Rightarrow> string \<Rightarrow> (unit, 'f, 'd) act" where
  "set_string_body E R W name v s =
     (case lookup E name of
        Some (NString n) \<Rightarrow>
          bind (ensure_writable_now E R name (t_access n) s) (\<lambda>_ s.
            case t_pvalue n of
              Some pv \<Rightarrow> bind (wr_string W pv v s) (\<lambda>_ s. (Ok (), changed E name s))
            | None \<Rightarrow>
                (case t_addressing n of
                   None \<Rightarrow>
                     if t_value n = None then (Err (NoValueSource name), s)
                     else (Ok (), changed E name (map_cells name (\<lambda>c. c\<lparr>ce_floating_string := Some v\<rparr>) s))
                 | Some addr \<Rightarrow>
                     bind (locate_for_write E R name addr s) (\<lambda>(address, len) s.
                     bind (device_write E address (string_buffer (unat len) (en_utf8 E v)) s) (\<lambda>_ s.
                       let s = changed E name s in
                       (Ok (), if keeps_written (en_map E) name
                               then noted_read E name (map_cells name (\<lambda>c. c\<lparr>ce_string := Some (v, st_generation s)\<rparr>) s)
                               else map_cells name (\<lambda>c. c\<lparr>ce_string := None\<rparr>) s)))))
      | _ \<Rightarrow> (Err (wrong_kind E name ''a String''), s))"

definition set_register :: "('f, 'd) nm_env \<Rightarrow> ('f, 'd) reads \<Rightarrow> string \<Rightarrow> bytes \<Rightarrow> (unit, 'f, 'd) act" where
  "set_register E R name data s =
     (case lookup E name of
        Some (NRegister n) \<Rightarrow>
          bind (ensure_writable_now E R name (r_access n) s) (\<lambda>_ s.
          bind (locate_for_write E R name (r_addressing n) s) (\<lambda>(address, len) s.
            if length data \<noteq> unat len then (Err (RegisterLength name len (length data)), s)
            else
              bind (device_write E address data s) (\<lambda>_ s.
                let s = changed E name s in
                (Ok (), if keeps_written (en_map E) name
                        then noted_read E name (map_cells name (\<lambda>c. c\<lparr>ce_bytes := Some (data, st_generation s)\<rparr>) s)
                        else map_cells name (\<lambda>c. c\<lparr>ce_bytes := None\<rparr>) s))))
      | _ \<Rightarrow> (Err (wrong_kind E name ''a Register''), s))"

primrec writes_at :: "nat \<Rightarrow> ('f, 'd) nm_env \<Rightarrow> ('f, 'd) reads \<Rightarrow> ('f, 'd) writes" where
  "writes_at 0 E R =
     \<lparr>wr_integer = (\<lambda>_ _ s. (Panic, s)), wr_float = (\<lambda>_ _ s. (Panic, s)), wr_bool = (\<lambda>_ _ s. (Panic, s)),
      wr_string = (\<lambda>_ _ s. (Panic, s))\<rparr>"
| "writes_at (Suc k) E R =
     \<lparr>wr_integer = set_integer_body E R (writes_at k E R), wr_float = set_float_body E R (writes_at k E R),
      wr_bool = set_bool_body E R (writes_at k E R), wr_string = set_string_body E R (writes_at k E R)\<rparr>"

section \<open>The path in force and commands\<close>

text \<open>Follow a chain until a node already on the path; the flag tells that one was met.\<close>

fun extend_path :: "string list \<Rightarrow> string list \<Rightarrow> string list \<times> bool" where
  "extend_path path [] = (path, False)"
| "extend_path path (link # links) =
     (if link \<in> set path then (path, True) else extend_path (path @ [link]) links)"

text \<open>
  Each round of these two loops adds a declared node to the path or the set of nodes seen: one unit
  of fuel for each node and two more never run out.
\<close>

fun value_path_loop :: "nat \<Rightarrow> ('f, 'd) nm_env \<Rightarrow> ('f, 'd) reads \<Rightarrow> string list \<Rightarrow> string \<Rightarrow> (string list, 'f, 'd) act" where
  "value_path_loop 0 E R path current s = (Panic, s)"
| "value_path_loop (Suc k) E R path current s =
     (let (path, met) = extend_path path (value_chain (en_map E) current) in
      if met then (Ok path, s)
      else
        bind (indexed_target E R (if path = [] then current else last path) s) (\<lambda>nxt s.
          case nxt of
            Some nxt \<Rightarrow> if nxt \<in> set path then (Ok path, s) else value_path_loop k E R path nxt s
          | None \<Rightarrow> (Ok path, s)))"

definition value_path_now :: "('f, 'd) nm_env \<Rightarrow> ('f, 'd) reads \<Rightarrow> string \<Rightarrow> (string list, 'f, 'd) act" where
  "value_path_now E R name s = value_path_loop (length (nm_nodes (en_map E)) + 2) E R [] name s"

definition write_only_now :: "('f, 'd) nm_env \<Rightarrow> ('f, 'd) reads \<Rightarrow> string \<Rightarrow> (bool, 'f, 'd) act" where
  "write_only_now E R name s =
     bind (value_path_now E R name s) (\<lambda>path s. (Ok (list_ex (declares_write_only (en_map E)) path), s))"

fun access_loop :: "nat \<Rightarrow> ('f, 'd) nm_env \<Rightarrow> ('f, 'd) reads \<Rightarrow> string set \<Rightarrow> string \<Rightarrow> access_mode option \<Rightarrow>
    (access_mode option, 'f, 'd) act" where
  "access_loop 0 E R seen current mode s = (Panic, s)"
| "access_loop (Suc k) E R seen current mode s =
     (if current \<in> seen then (Ok mode, s)
      else
        bind (indexed_target E R (last (value_chain (en_map E) current)) s) (\<lambda>nxt s.
          case nxt of
            Some nxt \<Rightarrow>
              access_loop k E R (insert current seen) nxt (combine_access mode (declared_access_mode (en_map E) nxt)) s
          | None \<Rightarrow> (Ok mode, s)))"

definition access_now :: "('f, 'd) nm_env \<Rightarrow> ('f, 'd) reads \<Rightarrow> string \<Rightarrow> (access_mode option, 'f, 'd) act" where
  "access_now E R name s =
     access_loop (length (nm_nodes (en_map E)) + 2) E R {} name (declared_access_mode (en_map E) name) s"

definition effective_access_mode :: "('f, 'd) nm_env \<Rightarrow> ('f, 'd) reads \<Rightarrow> string \<Rightarrow> (access_mode, 'f, 'd) act" where
  "effective_access_mode E R name s =
     (if lookup E name = None then (Err (NodeNotFound name), s)
      else
        bind (is_available E R name s) (\<lambda>available s.
          if \<not> available then (Ok RO, s)
          else
            bind (access_now E R name s) (\<lambda>mode s.
            bind (locked_by E R name s) (\<lambda>lock s.
              let base = (case mode of Some m \<Rightarrow> m | None \<Rightarrow> RO) in
              (Ok (if lock \<noteq> None \<and> base = RW then RO else base), s)))))"

definition command_value :: "('f, 'd) nm_env \<Rightarrow> ('f, 'd) reads \<Rightarrow> command_node \<Rightarrow> (i64, 'f, 'd) act" where
  "command_value E R n s =
     (case c_command_value n of
        CommandLiteral v \<Rightarrow> (Ok v, s)
      | CommandFromNode provider \<Rightarrow>
          bind (rd_value R provider {c_name n} s) (\<lambda>v s. (sk_to_i64 (en_ops E) (en_codec E) provider v, s)))"

definition noted_command :: "('f, 'd) nm_env \<Rightarrow> string \<Rightarrow> bool \<Rightarrow> ('f, 'd) nm_state \<Rightarrow> ('f, 'd) nm_state" where
  "noted_command E name running s = note_command (en_map E) (now E s) name running s"

definition exec_command :: "('f, 'd) nm_env \<Rightarrow> ('f, 'd) reads \<Rightarrow> ('f, 'd) writes \<Rightarrow> string \<Rightarrow> (unit, 'f, 'd) act" where
  "exec_command E R W name s =
     (case lookup E name of
        Some (NCommand n) \<Rightarrow>
          bind (ensure_writable_now E R name RW s) (\<lambda>_ s.
          bind (command_value E R n s) (\<lambda>v s.
            case c_pvalue n of
              Some pv \<Rightarrow>
                bind (if imposed_access E name = Some WO then (Ok True, s) else write_only_now E R pv s) (\<lambda>wo s.
                bind (wr_integer W pv v s) (\<lambda>_ s. (Ok (), changed E name (noted_command E name (\<not> wo) s))))
            | None \<Rightarrow>
                (case c_address n of
                   None \<Rightarrow> (Err (NoValueSource name), s)
                 | Some address \<Rightarrow>
                     if c_len n = 0 then (Err (DeclarationError name ''is a Command with a zero <Length>''), s)
                     else
                       bind (map_err (name_conversion name) (i64_to_bytes v (unat (c_len n)) Signed Big), s) (\<lambda>bs s.
                       bind (device_write E address bs s) (\<lambda>_ s. (Ok (), changed E name s))))))
      | _ \<Rightarrow> (Err (wrong_kind E name ''a Command''), s))"

definition is_done :: "('f, 'd) nm_env \<Rightarrow> ('f, 'd) reads \<Rightarrow> string \<Rightarrow> (bool, 'f, 'd) act" where
  "is_done E R name s =
     (case lookup E name of
        Some (NCommand n) \<Rightarrow>
          (case c_pvalue n of
             None \<Rightarrow> (Ok True, s)
           | Some target \<Rightarrow>
               if imposed_access E name = Some WO then (Ok True, s)
               else
                 bind (value_path_now E R target s) (\<lambda>path s.
                   if list_ex (declares_write_only (en_map E)) path then (Ok True, s)
                   else
                     bind (command_value E R n s) (\<lambda>expected s.
                     bind (rd_integer R target (fold (invalidate_node (en_map E)) path s)) (\<lambda>current s.
                       if current \<noteq> expected
                       then (Ok True, fold (changed E) path (changed E name (noted_command E name False s)))
                       else (Ok False, s)))))
      | _ \<Rightarrow> (Err (wrong_kind E name ''a Command''), s))"

end
