(* ===== verification/Node_Writes_Props.thy ===== *)
theory Node_Writes_Props
  imports Node_Writes Node_Reads_Props Node_Invalidation
begin

text \<open>
  What writing a feature does: an integer register accepts exactly the values its limits and its
  width allow, refuses the others before the device is touched, and reads back what was written
  whatever its caching mode (\<^verbatim>\<open>NodeMap::set_integer\<close>); \<open>IsDone\<close> reads the register of its command
  past every cache (\<^verbatim>\<open>NodeMap::is_done\<close>).
\<close>

section \<open>Limits\<close>

lemma check_range_Ok:
  "check_range name v mn mx inc = Ok () \<longleftrightarrow>
     (\<forall>m \<in> set_option mn. sint m \<le> sint v) \<and> (\<forall>m \<in> set_option mx. sint v \<le> sint m) \<and>
     (\<forall>i \<in> set_option inc. sint i > 1 \<longrightarrow> sint i dvd sint v - sint (case mn of Some m \<Rightarrow> m | None \<Rightarrow> 0))"
proof -
  have "(a smod b = 0) = (b dvd a)" for a b :: int
    by (auto simp: signed_modulo_int_def dvd_eq_mod_eq_0 [symmetric] mod_eq_0_iff_dvd sgn_0_0)
  then show ?thesis by (auto simp: check_range_def Let_def not_less split: option.splits)
qed

lemma check_range_cases: "check_range name v mn mx inc = Ok () \<or> (\<exists>r. check_range name v mn mx inc = Err (RangeError name (VInt v) r))"
  by (auto simp: check_range_def Let_def)

text \<open>An integer whose limits and access no other node decides.\<close>

definition static_integer :: "integer_node \<Rightarrow> bool" where
  "static_integer n \<longleftrightarrow> i_p_min n = None \<and> i_p_max n = None \<and> i_p_inc n = None \<and>
     p_is_implemented (i_predicates n) = None \<and> p_is_available (i_predicates n) = None \<and>
     p_is_locked (i_predicates n) = None"

definition writable_now :: "('f, 'd) nm_env \<Rightarrow> access_mode \<Rightarrow> string \<Rightarrow> bool" where
  "writable_now E access name \<longleftrightarrow> access \<noteq> RO \<and> imposed_access E name \<noteq> Some RO"

lemma plain_limit:
  assumes "lookup E name = Some (NInteger n)" "plain_register n address len" "static_integer n"
  shows "limit_i64 E (reads_at (Suc j) E) name which s = (Ok (pick_limit which (i_min n) (i_max n) (i_inc n)), s)"
proof -
  have p: "pick_limit which (i_p_min n) (i_p_max n) (i_p_inc n) = None"
    using assms(3) by (cases which) (simp_all add: pick_limit_def static_integer_def)
  have "rd_limit (reads_at (Suc j) E) name which {} s =
      (Ok (map_option VInt (pick_limit which (i_min n) (i_max n) (i_inc n))), s)"
    using assms(1,2) p
    by (simp add: limit_body_def indexed_target_def plain_register_def Let_def bind_simps split: option.split)
  then show ?thesis
    by (simp add: limit_i64_def bind_simps sk_to_i64_def and_then_def split: option.split)
qed

lemma plain_range:
  assumes "lookup E name = Some (NInteger n)" "plain_register n address len" "static_integer n"
  shows "ensure_integer_in_range E (reads_at (Suc j) E) name v s =
    (check_range name v (i_min n) (i_max n) (i_inc n), s)"
  by (simp add: ensure_integer_in_range_def plain_limit [OF assms] bind_simps pick_limit_def del: reads_at.simps)

lemma static_writable:
  assumes "lookup E name = Some (NInteger n)" "static_integer n" "writable_now E (i_access n) name"
  shows "ensure_writable_now E R name (i_access n) s = (Ok (), s)"
  using assms
  by (simp add: ensure_writable_now_def ensure_writable_def writable_now_def is_available_def is_implemented_def
      own_availability_def locked_by_def predicate_refs_of_def eval_optional_def static_integer_def bind_simps)

lemma locate_for_write_plain:
  "locate_for_write E R name (addressing_fixed address len) s = (Ok (address, len), s)"
  by (simp add: locate_for_write_def addressing_fixed_def route_def resolve_device_address_def resolve_address_def
      register_length_def resolve_address_term_def bind_simps)

section \<open>Writing a register\<close>

text \<open>The bytes to write, or why the value is refused.\<close>

definition accepted :: "integer_node \<Rightarrow> string \<Rightarrow> u32 \<Rightarrow> i64 \<Rightarrow> (bytes, 'f genapi_error) result" where
  "accepted n name len v =
     and_then (check_range name v (i_min n) (i_max n) (i_inc n)) (\<lambda>_.
       map_err (name_conversion name) (i64_to_bytes v (unat len) (i_sign n) (i_byte_order n)))"

lemma write_plain_register:
  assumes "lookup E name = Some (NInteger n)" "writable_now E (i_access n) name" "plain_register n address len"
    "static_integer n" "i_bitfield n = None"
  shows "wr_integer (writes_at (Suc k) E (reads_at (Suc j) E)) name v s =
    bind (accepted n name len v, s) (\<lambda>bs s. bind (device_write E address bs s) (\<lambda>_ s.
      (Ok (), changed E name (after_register_write E name (\<lambda>c. c\<lparr>ce_int := Some v\<rparr>) (\<lambda>c. c\<lparr>ce_int := None\<rparr>)
         bs (i_access n \<noteq> WO) s))))"
proof -
  have "wr_integer (writes_at (Suc k) E (reads_at (Suc j) E)) name v s =
    bind (check_range name v (i_min n) (i_max n) (i_inc n), s) (\<lambda>_ s.
      write_integer_register E (reads_at (Suc j) E) n name v (addressing_fixed address len) s)"
    using assms(1,3)
    by (simp add: set_integer_body_def write_integer_node_def static_writable [OF assms(1,4,2)]
        plain_range [OF assms(1,3,4)] plain_register_def bind_simps del: reads_at.simps)
  then show ?thesis
    by (simp add: write_integer_register_def assms(5) locate_for_write_plain bind_simps accepted_def and_then_def Let_def
        del: reads_at.simps) (simp add: bind_def split: result.split)
qed

text \<open>
  Writing an integer with a whole register of its own and limits that nothing else decides: a value
  outside the limits, off the increment or too wide for the register is refused and nothing changes;
  any other is one device write of its bytes, and the changes of the caches follow only when the
  device took it.
\<close>
theorem integer_register_write:
  assumes "lookup E name = Some (NInteger n)" "writable_now E (i_access n) name" "plain_register n address len"
    "static_integer n" "i_bitfield n = None"
  shows "wr_integer (writes_at (Suc k) E (reads_at (Suc j) E)) name v s =
    (case accepted n name len v of
       Ok bs \<Rightarrow>
         (let (r, d) = en_write E address bs (st_device s); s' = s\<lparr>st_device := d\<rparr> in
          (r, if r = Ok ()
              then changed E name (after_register_write E name (\<lambda>c. c\<lparr>ce_int := Some v\<rparr>) (\<lambda>c. c\<lparr>ce_int := None\<rparr>)
                     bs (i_access n \<noteq> WO) s')
              else s'))
     | Err e \<Rightarrow> (Err e, s)
     | Panic \<Rightarrow> (Panic, s))"
proof (cases "accepted n name len v :: (bytes, 'a genapi_error) result")
  case (Ok bs)
  obtain r d where w: "en_write E address bs (st_device s) = (r, d)" by fastforce
  show ?thesis
    unfolding write_plain_register [OF assms] Ok bind_simps device_write_def w Let_def
    by (cases r) (simp_all add: w bind_simps)
qed (simp_all add: write_plain_register [OF assms] bind_simps del: reads_at.simps writes_at.simps)

section \<open>Reading back\<close>


lemma invalidate_cache_int: "ce_int c = None \<Longrightarrow> ce_int (invalidate_cache n c) = None"
  by (cases n) simp_all


lemma noted_read_fields [simp]:
  "st_cells (noted_read E name s) = st_cells s" "st_device (noted_read E name s) = st_device s"
  by (simp_all add: noted_read_def note_read_def set_since_def split: option.split)














lemma width_static: "static_integer (plain_integer ''Width'' (Some (addressing_fixed 0x100 4)) None)"
  by (simp add: static_integer_def plain_integer_def no_predicates_def)

lemma width_whole: "i_bitfield (plain_integer ''Width'' (Some (addressing_fixed 0x100 4)) None) = None"
  by (simp add: plain_integer_def)

lemma width_open:
  "writable_now word_env (i_access (plain_integer ''Width'' (Some (addressing_fixed 0x100 4)) None)) ''Width''"
  "readable_now word_env (i_access (plain_integer ''Width'' (Some (addressing_fixed 0x100 4)) None)) ''Width''"
  using width_lookup by (simp_all add: writable_now_def readable_now_def imposed_access_def plain_integer_def plain_meta_def)

lemma width_plain: "plain_register (plain_integer ''Width'' (Some (addressing_fixed 0x100 4)) None) 0x100 4"
  by (simp add: plain_register_def plain_integer_def)

lemma width_accepts:
  "accepted (plain_integer ''Width'' (Some (addressing_fixed 0x100 4)) None) ''Width'' 4 640 =
     (Ok [0, 0, 2, 128] :: (bytes, int genapi_error) result)"
proof -
  have "i64_to_bytes 640 4 Unsigned Big = Ok [0, 0, 2, 128]" by code_simp
  then show ?thesis
    by (simp add: accepted_def plain_integer_def check_range_def and_then_def map_err_def)
qed

lemma integer_register_write_witness:
  "fst (wr_integer (writes_at (Suc 0) word_env (reads_at (Suc 0) word_env)) ''Width'' 640 (initial_state [])) = Ok ()"
  unfolding integer_register_write [OF width_lookup width_open(1) width_plain width_static width_whole] width_accepts
  by (simp add: word_env_def Let_def)




section \<open>Commands\<close>

text \<open>
  Integers that take their values from each other, down to the one with a register: every one is
  readable, each names the next and the last has the register.
\<close>

fun register_path :: "('f, 'd) nm_env \<Rightarrow> string list \<Rightarrow> integer_node \<Rightarrow> u64 \<Rightarrow> u32 \<Rightarrow> bool" where
  "register_path E [] n address len \<longleftrightarrow> False"
| "register_path E [t] n address len \<longleftrightarrow>
     lookup E t = Some (NInteger n) \<and> plain_register n address len \<and> readable_now E (i_access n) t"
| "register_path E (x # y # path) n address len \<longleftrightarrow>
     (\<exists>m. lookup E x = Some (NInteger m) \<and> i_value m = None \<and> i_pvalue m = Some y \<and>
        readable_now E (i_access m) x) \<and> register_path E (y # path) n address len"

lemma register_path_last:
  "register_path E path n address len \<Longrightarrow> path \<noteq> [] \<and> lookup E (last path) = Some (NInteger n) \<and>
     plain_register n address len \<and> readable_now E (i_access n) (last path)"
  by (induction E path n address len rule: register_path.induct) auto

lemma register_path_chain:
  "register_path E path n address len \<Longrightarrow> distinct (before @ path) \<Longrightarrow>
   chain_from (en_map E) (before @ [hd path]) (hd path) = before @ path"
proof (induction E path n address len arbitrary: before rule: register_path.induct)
  case (2 E t n address len)
  then have "provider_of (en_map E) t = None" by (simp add: provider_of_def lookup_def plain_register_def)
  then show ?case by (subst chain_from.simps) simp
next
  case (3 E x y path n address len)
  then have "provider_of (en_map E) x = Some y" by (auto simp: provider_of_def lookup_def)
  then have "chain_from (en_map E) (before @ [x]) x = chain_from (en_map E) ((before @ [x]) @ [y]) y"
    using "3.prems"(2) by (subst chain_from.simps) auto
  then show ?case using "3.IH" [of "before @ [x]"] "3.prems" by simp
qed simp

lemma extend_path_all: "distinct (path @ links) \<Longrightarrow> extend_path path links = (path @ links, False)"
  by (induction path links rule: extend_path.induct) auto

lemma register_path_now:
  assumes "register_path E path n address len" "distinct path"
  shows "value_path_now E R (hd path) s = (Ok path, s)"
proof -
  note l = register_path_last [OF assms(1)]
  have "value_chain (en_map E) (hd path) = path"
    using register_path_chain [OF assms(1), of "[]"] assms(2) by (simp add: value_chain_def)
  then show ?thesis
    using l assms(2)
    by (simp add: value_path_now_def Let_def extend_path_all [of "[]", simplified] indexed_target_def plain_register_def)
qed

lemma register_path_reads:
  "register_path E path n address len \<Longrightarrow>
   rd_integer (reads_at (length path + k) E) (hd path) s = rd_integer (reads_at (Suc k) E) (last path) s"
proof (induction E path n address len rule: register_path.induct)
  case (3 E x y path n address len)
  then obtain m where m: "lookup E x = Some (NInteger m)" "i_value m = None" "i_pvalue m = Some y"
    "readable_now E (i_access m) x" by auto
  have "rd_integer (reads_at (length (x # y # path) + k) E) x s = rd_integer (reads_at (length (y # path) + k) E) y s"
    using m ensure_readable_now_Ok [OF m(4)] by (simp add: get_integer_body_def read_integer_node_def)
  then show ?case using 3 by simp
qed simp_all

lemma register_path_readable:
  "register_path E path n address len \<Longrightarrow> \<not> list_ex (declares_write_only (en_map E)) path"
  by (induction E path n address len rule: register_path.induct)
     (auto simp: declares_write_only_def readable_now_def imposed_access_def lookup_def)

lemma invalidate_all:
  "st_device (fold (invalidate_node nm) path s) = st_device s"
  "get_node nm t = Some (NInteger n) \<Longrightarrow> t \<in> set path \<or> ce_int (st_cells s t) = None \<Longrightarrow>
   ce_int (st_cells (fold (invalidate_node nm) path s) t) = None"
proof (induction path arbitrary: s)
  case (Cons x path)
  {
    case 1
    have "st_device (invalidate_node nm x s) = st_device s"
      by (simp add: invalidate_node_def map_cells_def split: option.split)
    then show ?case using Cons.IH(1) by simp
  next
    case 2
    have "x = t \<or> ce_int (st_cells s t) = None \<Longrightarrow> ce_int (st_cells (invalidate_node nm x s) t) = None"
      using 2(1) invalidate_cache_int [where c = "st_cells s t"]
      by (auto simp: invalidate_node_def map_cells_def split: option.split)
    then show ?case using Cons.IH(2) [OF 2(1), of "invalidate_node nm x s"] 2(2) by auto
  }
qed simp_all

text \<open>
  C29. \<open>IsDone\<close> reads the device whatever the caches hold. Take a command whose value goes, directly
  or through integers that take theirs from each other, to a readable register; every cache on the
  way may hold anything. The answer is whether the bytes the device returns now decode to another
  value than the one the command writes, be that a constant or the value of another node.
\<close>
theorem is_done_reads_device:
  assumes "lookup E name = Some (NCommand c)" "c_pvalue c = Some (hd path)" "imposed_access E name \<noteq> Some WO"
    "register_path E path n address len" "distinct path"
    "command_value E (reads_at (length path + k) E) c s = (Ok v, s')"
  shows "fst (is_done E (reads_at (length path + k) E) name s) =
    and_then (and_then (fst (en_read E address (unat len) (st_device s'))) (decode_integer n (last path)))
      (\<lambda>current. Ok (current \<noteq> v))"
proof -
  let ?R = "reads_at (length path + k) E" and ?s = "fold (invalidate_node (en_map E)) path s'"
  note l = register_path_last [OF assms(4)]
  then have t: "get_node (en_map E) (last path) = Some (NInteger n)" "last path \<in> set path"
    by (simp_all add: lookup_def)
  have s: "ce_int (st_cells ?s (last path)) = None" "st_device ?s = st_device s'"
    using invalidate_all [where nm = "en_map E" and path = path and s = s'] t by simp_all
  have "fst (is_done E ?R name s) =
    (case rd_integer ?R (hd path) ?s of
       (Ok current, s') \<Rightarrow> Ok (current \<noteq> v) | (Err e, s') \<Rightarrow> Err e | (Panic, s') \<Rightarrow> Panic)"
    using assms(1-3,6) register_path_readable [OF assms(4)]
    by (simp add: is_done_def register_path_now [OF assms(4,5)] bind_def del: reads_at.simps
        split: prod.split result.split)
  also have "\<dots> = and_then (fst (rd_integer (reads_at (Suc k) E) (last path) ?s)) (\<lambda>current. Ok (current \<noteq> v))"
    unfolding register_path_reads [OF assms(4)]
    by (simp add: and_then_def split: prod.split result.split del: reads_at.simps)
  finally show ?thesis
    using l plain_register_value [of E "last path" n address len k ?s] s by simp
qed

text \<open>A command that starts an acquisition over a feature of its own in front of the register.\<close>

definition start_command :: command_node where
  "start_command =
     \<lparr>c_name = ''Start'', c_meta = plain_meta, c_address = None, c_len = 4, c_pvalue = Some ''Run'',
      c_command_value = CommandLiteral 1, c_predicates = no_predicates\<rparr>"

definition command_env :: "(int, bytes) nm_env" where
  "command_env = word_env\<lparr>en_map := empty_map\<lparr>nm_nodes :=
     [(''Start'', NCommand start_command),
      (''Run'', NInteger (plain_integer ''Run'' None (Some ''Width''))),
      (''Width'', NInteger (plain_integer ''Width'' (Some (addressing_fixed 0x100 4)) None))]\<rparr>\<rparr>"

text \<open>The register's cache still holds 0 from before the command; the device holds 1.\<close>

lemma is_done_reads_device_witness:
  "fst (is_done command_env (reads_at 2 command_env) ''Start''
     (map_cells ''Width'' (\<lambda>c. c\<lparr>ce_int := Some 0\<rparr>) (initial_state [0, 0, 0, 1]))) = Ok False"
proof -
  let ?w = "plain_integer ''Width'' (Some (addressing_fixed 0x100 4)) None"
  let ?s = "map_cells ''Width'' (\<lambda>c. c\<lparr>ce_int := Some 0\<rparr>) (initial_state [0, 0, 0, 1]) :: (int, bytes) nm_state"
  have look: "lookup command_env ''Start'' = Some (NCommand start_command)"
    "lookup command_env ''Run'' = Some (NInteger (plain_integer ''Run'' None (Some ''Width'')))"
    "lookup command_env ''Width'' = Some (NInteger ?w)"
    by (simp_all add: lookup_def command_env_def get_node_def)
  have opened: "imposed_access command_env ''Start'' \<noteq> Some WO"
    "readable_now command_env (i_access (plain_integer ''Run'' None (Some ''Width''))) ''Run''"
    "readable_now command_env (i_access ?w) ''Width''"
    using look by (simp_all add: readable_now_def imposed_access_def start_command_def plain_integer_def plain_meta_def)
  have path: "register_path command_env [''Run'', ''Width''] ?w 0x100 4"
    using look opened width_plain by (simp add: plain_integer_def)
  have target: "c_pvalue start_command = Some (hd [''Run'', ''Width''])" by (simp add: start_command_def)
  have command: "command_value command_env R start_command ?s = (Ok 1, ?s)" for R
    by (simp add: command_value_def start_command_def)
  have read: "bytes_to_i64 [0, 0, 0, 1] Unsigned Big = Ok 1" by code_simp
  have "fst (is_done command_env (reads_at (length [''Run'', ''Width''] + 0) command_env) ''Start'' ?s) =
      and_then (and_then (fst (en_read command_env 0x100 (unat (4 :: u32)) (st_device ?s)))
        (decode_integer ?w (last [''Run'', ''Width'']))) (\<lambda>current. Ok (current \<noteq> 1))"
    by (rule is_done_reads_device [OF look(1) target opened(1) path _ command]) simp
  also have "\<dots> = Ok False"
    by (simp add: command_env_def word_env_def initial_state_def map_cells_def and_then_def decode_integer_def
        plain_integer_def read map_err_def)
  finally have r: "fst (is_done command_env (reads_at (length [''Run'', ''Width''] + 0) command_env) ''Start'' ?s) = Ok False" .
  have "length [''Run'', ''Width''] + 0 = 2" by simp
  from r [unfolded this] show ?thesis .
qed

end
