(* ===== verification/U3v_Wire.thy ===== *)
theory U3v_Wire
  imports U3v_Status
begin

text \<open>
  USB3 Vision's stream on the wire (\<^verbatim>\<open>crates/viva-u3v/src/stream.rs\<close>): the transfer layout the host
  writes to the device, leaders, trailers and the chunks of a payload, all little-endian; and the
  crate's errors (\<^verbatim>\<open>lib.rs\<close>). Errors of the USB and ZIP libraries are carried as their text.
\<close>

section \<open>Errors\<close>

datatype u3v_error =
    Usb string
  | DeviceNotFound string u8
  | UsbTimeout
  | Disconnected
  | Stalled u8
  | Cancelled
  | Claim string u8 string "string option"
  | GenCpFailed gencp_error
  | DeviceStatus u3v_status
  | Malformed string string
  | WrongLength string nat nat
  | Unusable string
  | BadXml string

definition may_mean_gone :: "u3v_error \<Rightarrow> bool" where
  "may_mean_gone e = (case e of Usb _ \<Rightarrow> True | Cancelled \<Rightarrow> True | _ \<Rightarrow> False)"

section \<open>Presence\<close>

text \<open>What the host knows besides the transfers: whether the device is listed, and the time.\<close>

record 'q usb_host =
  uh_is_present :: "'q \<Rightarrow> bool option"
  uh_clock :: "'q \<Rightarrow> instant"
  uh_sleep :: "duration \<Rightarrow> 'q \<Rightarrow> 'q"

definition GONE_GRACE :: duration where "GONE_GRACE = 500 * 10 ^ 6"
definition GONE_POLL :: duration where "GONE_POLL = 20 * 10 ^ 6"

text \<open>
  The loop of \<open>unless_gone\<close>: a look, and a sleep of \<open>GONE_POLL\<close> before the next one while the grace
  lasts. That many looks and two more outlast it on a clock that advances by the sleep.
\<close>

primrec gone_loop :: "nat \<Rightarrow> ('q, 'z) usb_host_scheme \<Rightarrow> u3v_error \<Rightarrow> instant \<Rightarrow> 'q \<Rightarrow> u3v_error \<times> 'q" where
  "gone_loop 0 H error deadline q = (error, q)"
| "gone_loop (Suc k) H error deadline q =
     (case uh_is_present H q of
        Some False \<Rightarrow> (Disconnected, q)
      | Some True \<Rightarrow> if uh_clock H q < deadline then gone_loop k H error deadline (uh_sleep H GONE_POLL q) else (error, q)
      | None \<Rightarrow> (error, q))"

definition unless_gone :: "('q, 'z) usb_host_scheme \<Rightarrow> u3v_error \<Rightarrow> duration \<Rightarrow> 'q \<Rightarrow> u3v_error \<times> 'q" where
  "unless_gone H error grace q =
     (if \<not> may_mean_gone error then (error, q)
      else gone_loop (grace div GONE_POLL + 2) H error (uh_clock H q + grace) q)"

section \<open>Little-endian fields\<close>

definition le_word :: "bytes \<Rightarrow> 'w::len word" where
  "le_word bs = be_word (rev bs)"

definition le_at :: "nat \<Rightarrow> nat \<Rightarrow> bytes \<Rightarrow> 'w::len word option" where
  "le_at k i bs = map_option le_word (subslice i (i + k) bs)"

definition put_le :: "nat \<Rightarrow> nat \<Rightarrow> bytes" where
  "put_le k n = rev (to_be k n)"

lemma length_put_le [simp]: "length (put_le k n) = k"
  by (simp add: put_le_def)

lemma le_word_put_le: "n < 256 ^ k \<Longrightarrow> le_word (put_le k n) = word_of_nat n"
  by (simp add: le_word_def put_le_def be_word_def be_nat_to_be)

lemma le_word_put_u16 [simp]: "le_word (put_le 2 (unat (w :: u16))) = w"
  using unsigned_less [of w, where ?'a = nat] by (simp add: le_word_put_le)

lemma le_word_put_u32 [simp]: "le_word (put_le 4 (unat (w :: u32))) = w"
  using unsigned_less [of w, where ?'a = nat] by (simp add: le_word_put_le)

lemma le_word_put_u64 [simp]: "le_word (put_le 8 (unat (w :: u64))) = w"
  using unsigned_less [of w, where ?'a = nat] by (simp add: le_word_put_le)

lemma le_word_put_len [simp]: "n < 65536 \<Longrightarrow> le_word (put_le 2 n) = (word_of_nat n :: u16)"
  by (simp add: le_word_put_le)

lemma le_at_inside: "i + k \<le> length bs \<Longrightarrow> le_at k i bs = Some (le_word (take k (drop i bs)))"
  by (simp add: le_at_def subslice_def)

lemma le_at_start: "length ys = k \<Longrightarrow> le_at k 0 (ys @ zs) = Some (le_word ys)"
  by (simp add: le_at_inside)

text \<open>A field behind the \<open>i\<close> bytes of \<open>xs\<close>.\<close>

lemma le_at_behind: "length xs = i \<Longrightarrow> length ys = k \<Longrightarrow> le_at k i (xs @ ys @ zs) = Some (le_word ys)"
  by (simp add: le_at_inside)

section \<open>The transfers of a block\<close>

definition DEFAULT_MAX_TRANSFER_SIZE :: u32 where
  "DEFAULT_MAX_TRANSFER_SIZE = push_bit 20 1"

record stream_layout =
  sl_payload_size :: u64
  sl_leader_size :: u32
  sl_trailer_size :: u32
  sl_transfer_size :: u32
  sl_transfer_count :: u32
  sl_final1 :: u32
  sl_final2 :: u32

definition align_up :: "u32 \<Rightarrow> u32 \<Rightarrow> (u32, u3v_error) result" where
  "align_up v alignment =
     (let n = div_ceil (unat v) (unat alignment) * unat alignment in
      if n < 2 ^ 32 then Ok (word_of_nat n) else Err (Unusable ''requires an alignment that overflows a transfer size''))"

definition framing_length :: "u32 \<Rightarrow> u32 \<Rightarrow> u32 \<Rightarrow> (u32, u3v_error) result" where
  "framing_length aligned_max alignment required = (if required = 0 then Ok aligned_max else align_up required alignment)"

definition layout_new :: "u64 \<Rightarrow> u32 \<Rightarrow> u32 \<Rightarrow> u32 \<Rightarrow> u32 \<Rightarrow> (stream_layout, u3v_error) result" where
  "layout_new payload_size required_leader required_trailer alignment max_transfer =
     (if alignment = 0 \<or> alignment > max_transfer
      then Err (Unusable ''requires a transfer alignment larger than its transfers'')
      else if payload_size = 0 then Err (Unusable ''requires a zero-byte payload'')
      else
        let aligned_max = max_transfer div alignment * alignment in
        and_then
          (if payload_size \<ge> ucast aligned_max then Ok aligned_max
           else let aligned = ucast payload_size div alignment * alignment in
             if aligned = 0 then align_up (ucast payload_size) alignment else Ok aligned) (\<lambda>transfer_size.
        let count = payload_size div ucast transfer_size in
        if unat count \<ge> 2 ^ 32 then Err (Unusable ''requires more payload transfers than a SIRM can count'')
        else
          and_then (align_up (ucast (payload_size - count * ucast transfer_size)) alignment) (\<lambda>final1.
          and_then (framing_length aligned_max alignment required_leader) (\<lambda>leader_size.
          and_then (framing_length aligned_max alignment required_trailer) (\<lambda>trailer_size.
            Ok \<lparr>sl_payload_size = payload_size, sl_leader_size = leader_size, sl_trailer_size = trailer_size,
                sl_transfer_size = transfer_size, sl_transfer_count = ucast count, sl_final1 = final1, sl_final2 = 0\<rparr>)))))"

text \<open>At most \<open>(2 ^ 32 - 1) ^ 2 + 2 * (2 ^ 32 - 1) < 2 ^ 64\<close>: the sum of the code does not wrap.\<close>

definition payload_capacity :: "stream_layout \<Rightarrow> nat" where
  "payload_capacity l =
     unat (sl_transfer_size l) * unat (sl_transfer_count l) + unat (sl_final1 l) + unat (sl_final2 l)"

section \<open>Leaders and trailers\<close>

definition LEADER_PREFIX :: u32 where "LEADER_PREFIX = 0x4C563355"
definition TRAILER_PREFIX :: u32 where "TRAILER_PREFIX = 0x54563355"
definition GENERIC_LEADER_SIZE :: nat where "GENERIC_LEADER_SIZE = 20"
definition IMAGE_LEADER_SIZE :: nat where "IMAGE_LEADER_SIZE = 50"
definition MIN_TRAILER_SIZE :: nat where "MIN_TRAILER_SIZE = 28"
definition U3V_PAYLOAD_TYPE_IMAGE :: u16 where "U3V_PAYLOAD_TYPE_IMAGE = 0x0001"
definition U3V_PAYLOAD_TYPE_IMAGE_EXTENDED_CHUNK :: u16 where "U3V_PAYLOAD_TYPE_IMAGE_EXTENDED_CHUNK = 0x4001"

record u3v_leader =
  ul_block_id :: u64
  ul_payload_type :: u16
  ul_timestamp :: u64
  ul_pixel_format :: u32
  ul_width :: u32
  ul_height :: u32
  ul_x_offset :: u32
  ul_y_offset :: u32
  ul_x_padding :: u16

record u3v_trailer =
  ut_block_id :: u64
  ut_status :: u16
  ut_valid_payload_size :: u64
  ut_size_y :: "u32 option"

definition u3v_parse_leader :: "bytes \<Rightarrow> (u3v_leader, u3v_error) result" where
  "u3v_parse_leader buf =
     (if length buf < GENERIC_LEADER_SIZE then Err (Malformed ''leader'' ''is shorter than a generic leader'')
      else or_panic (le_at 4 0 buf) (\<lambda>prefix.
        if prefix \<noteq> LEADER_PREFIX then Err (Malformed ''leader'' ''lacks the U3VL prefix'')
        else or_panic (le_at 8 8 buf) (\<lambda>block_id. or_panic (le_at 2 18 buf) (\<lambda>payload_type.
          let plain = \<lparr>ul_block_id = block_id, ul_payload_type = payload_type, ul_timestamp = 0, ul_pixel_format = 0,
                ul_width = 0, ul_height = 0, ul_x_offset = 0, ul_y_offset = 0, ul_x_padding = 0\<rparr> in
          if payload_type = U3V_PAYLOAD_TYPE_IMAGE \<or> payload_type = U3V_PAYLOAD_TYPE_IMAGE_EXTENDED_CHUNK then
            (if length buf < IMAGE_LEADER_SIZE
             then Err (Malformed ''image leader'' ''is shorter than an image leader'')
             else
               or_panic (le_at 8 20 buf) (\<lambda>timestamp. or_panic (le_at 4 28 buf) (\<lambda>pixel_format.
               or_panic (le_at 4 32 buf) (\<lambda>width. or_panic (le_at 4 36 buf) (\<lambda>height.
               or_panic (le_at 4 40 buf) (\<lambda>x_offset. or_panic (le_at 4 44 buf) (\<lambda>y_offset.
               or_panic (le_at 2 48 buf) (\<lambda>x_padding.
                 Ok (plain\<lparr>ul_timestamp := timestamp, ul_pixel_format := pixel_format, ul_width := width,
                       ul_height := height, ul_x_offset := x_offset, ul_y_offset := y_offset,
                       ul_x_padding := x_padding\<rparr>)))))))))
          else if length buf \<ge> 28 then
            or_panic (le_at 8 20 buf) (\<lambda>timestamp. Ok (plain\<lparr>ul_timestamp := timestamp\<rparr>))
          else Ok plain))))"

definition u3v_parse_trailer :: "bytes \<Rightarrow> (u3v_trailer, u3v_error) result" where
  "u3v_parse_trailer buf =
     (if length buf < MIN_TRAILER_SIZE then Err (Malformed ''trailer'' ''is shorter than a trailer'')
      else or_panic (le_at 4 0 buf) (\<lambda>prefix.
        if prefix \<noteq> TRAILER_PREFIX then Err (Malformed ''trailer'' ''lacks the U3VT prefix'')
        else or_panic (le_at 8 8 buf) (\<lambda>block_id. or_panic (le_at 2 16 buf) (\<lambda>status.
          or_panic (le_at 8 20 buf) (\<lambda>valid.
            Ok \<lparr>ut_block_id = block_id, ut_status = status, ut_valid_payload_size = valid,
                ut_size_y = le_at 4 28 buf\<rparr>)))))"

text \<open>The size field of a leader or trailer, when the transfer opens with its prefix and holds that much.\<close>

definition framing_size :: "bytes \<Rightarrow> u32 \<Rightarrow> nat option" where
  "framing_size data prefix =
     Option.bind (subslice 0 8 data) (\<lambda>head.
       if le_word (take 4 head) \<noteq> prefix then None
       else let declared = unat (le_word (drop 6 head) :: u16) in
         if declared \<le> length data then Some declared else None)"

definition as_leader :: "stream_layout \<Rightarrow> bytes \<Rightarrow> u3v_leader option" where
  "as_leader l data =
     Option.bind (framing_size data LEADER_PREFIX) (\<lambda>declared.
       if declared \<ge> GENERIC_LEADER_SIZE \<and> length data \<le> unat (sl_leader_size l)
       then (case u3v_parse_leader data of Ok leader \<Rightarrow> Some leader | _ \<Rightarrow> None) else None)"

definition as_trailer :: "stream_layout \<Rightarrow> bytes \<Rightarrow> u3v_trailer option" where
  "as_trailer l data =
     Option.bind (framing_size data TRAILER_PREFIX) (\<lambda>declared.
       if declared \<ge> MIN_TRAILER_SIZE \<and> length data \<le> unat (sl_trailer_size l)
       then (case u3v_parse_trailer data of Ok trailer \<Rightarrow> Some trailer | _ \<Rightarrow> None) else None)"

section \<open>Chunks\<close>

definition U3V_CHUNK_TAG_LEN :: nat where "U3V_CHUNK_TAG_LEN = 8"

text \<open>The loop of \<open>parse_chunks\<close>, from the end of the payload to its front.\<close>

function (sequential) u3v_chunks_from :: "bytes \<Rightarrow> nat \<Rightarrow> (u32 \<times> nat \<times> nat) list \<Rightarrow>
    ((u32 \<times> nat \<times> nat) list, u3v_error) result" where
  "u3v_chunks_from payload end_at chunks =
     (if end_at > 0 then
        if end_at < U3V_CHUNK_TAG_LEN then Err (Malformed ''chunk layout'' ''ends in a tag shorter than eight bytes'')
        else let tag_offset = end_at - U3V_CHUNK_TAG_LEN in
          (case subslice tag_offset end_at payload of
             None \<Rightarrow> Panic
           | Some tag \<Rightarrow>
               let cid = le_word (take 4 tag); len = unat (le_word (drop 4 tag) :: u32) in
               if tag_offset < len
               then Err (Malformed ''chunk layout'' ''has a tag claiming more data than precedes it'')
               else u3v_chunks_from payload (tag_offset - len) ((cid, tag_offset - len, len) # chunks))
      else Ok chunks)"
  by pat_completeness auto
termination
  by (relation "measure (\<lambda>(payload, end_at, chunks). end_at)") (auto simp: U3V_CHUNK_TAG_LEN_def)

declare u3v_chunks_from.simps [simp del]

definition u3v_parse_chunks :: "bytes \<Rightarrow> ((u32 \<times> nat \<times> nat) list, u3v_error) result" where
  "u3v_parse_chunks payload = u3v_chunks_from payload (length payload) []"

end
