(* ===== verification/U3v_Stream.thy ===== *)
theory U3v_Stream
  imports U3v_Wire
begin

text \<open>
  The USB3 Vision stream receiver (\<^verbatim>\<open>crates/viva-u3v/src/stream.rs\<close>): transfers queued ahead of the
  device, each planned from where the device will be in its block, and a fresh plan when the two part.

  The endpoint (trait \<open>BulkIn\<close> of \<^verbatim>\<open>usb.rs\<close>) is a parameter: functions on a queue of any type, the
  host's clock among them. Log output is left out, and so is the copy the code saves when one transfer
  carries a whole payload.
\<close>

section \<open>Endpoints\<close>

record completion =
  cm_data :: bytes
  cm_status :: "(unit, u3v_error) result"

record 'q bulk_in = "'q usb_host" +
  bq_submit :: "nat \<Rightarrow> 'q \<Rightarrow> 'q"
  bq_pending :: "'q \<Rightarrow> nat"
  bq_wait_next :: "duration \<Rightarrow> 'q \<Rightarrow> completion option \<times> 'q"
  bq_cancel_all :: "'q \<Rightarrow> 'q"
  bq_reset :: "'q \<Rightarrow> (unit, u3v_error) result \<times> 'q"

text \<open>
  What the documentation of \<open>BulkIn\<close> promises of reads that complete: they complete in the order they
  were queued, each with what the device sent for it, when that is no longer than was asked for.
\<close>

locale bulk_endpoint =
  fixes B :: "'q bulk_in" and requests :: "'q \<Rightarrow> nat list" and arriving :: "'q \<Rightarrow> bytes list"
  assumes pending: "bq_pending B q = length (requests q)"
    and submit_requests: "requests (bq_submit B n q) = requests q @ [n]"
    and submit_arriving: "arriving (bq_submit B n q) = arriving q"
    and wait_next: "requests q = n # ns \<Longrightarrow> arriving q = d # ds \<Longrightarrow> length d \<le> n \<Longrightarrow>
      \<exists>q'. bq_wait_next B idle q = (Some \<lparr>cm_data = d, cm_status = Ok ()\<rparr>, q') \<and> requests q' = ns \<and> arriving q' = ds"

section \<open>State\<close>

definition STREAM_TIMEOUT :: duration where "STREAM_TIMEOUT = 5000 * 10 ^ 6"
definition DEFAULT_TRANSFERS_IN_FLIGHT :: nat where "DEFAULT_TRANSFERS_IN_FLIGHT = 8"
definition DRAIN_TIMEOUT :: duration where "DRAIN_TIMEOUT = 1000 * 10 ^ 6"
definition MAX_CONSECUTIVE_FAILURES :: nat where "MAX_CONSECUTIVE_FAILURES = 8"

record raw_frame =
  rf_leader :: u3v_leader
  rf_payload :: bytes
  rf_trailer :: "u3v_trailer option"

record u3v_counters =
  uc_transfers :: u64
  uc_skipped :: u64
  uc_errors :: u64
  uc_abandoned :: u64

datatype cursor = AtLeader | AtPayload nat | AtTrailer

record u3v_block =
  ub_leader :: u3v_leader
  ub_payload :: bytes
  ub_ended :: bool
  ub_last :: instant

record 'q u3v_stream =
  us_queue :: 'q
  us_layout :: stream_layout
  us_timeout :: duration
  us_in_flight :: nat
  us_planned :: "(cursor \<times> nat) list"
  us_next :: cursor
  us_block :: "u3v_block option"
  us_ready :: "raw_frame list"
  us_counters :: u3v_counters
  us_failures :: nat

definition u3v_stream_new :: "'q \<Rightarrow> stream_layout \<Rightarrow> 'q u3v_stream" where
  "u3v_stream_new q layout =
     \<lparr>us_queue = q, us_layout = layout, us_timeout = STREAM_TIMEOUT, us_in_flight = DEFAULT_TRANSFERS_IN_FLIGHT,
      us_planned = [], us_next = AtLeader, us_block = None, us_ready = [],
      us_counters = \<lparr>uc_transfers = 0, uc_skipped = 0, uc_errors = 0, uc_abandoned = 0\<rparr>, us_failures = 0\<rparr>"

definition set_transfers_in_flight :: "nat \<Rightarrow> 'q u3v_stream \<Rightarrow> 'q u3v_stream" where
  "set_transfers_in_flight n s = s\<lparr>us_in_flight := max n 1\<rparr>"

definition tally :: "(u3v_counters \<Rightarrow> u3v_counters) \<Rightarrow> 'q u3v_stream \<Rightarrow> 'q u3v_stream" where
  "tally f s = s\<lparr>us_counters := f (us_counters s)\<rparr>"

abbreviation counted_transfer :: "'q u3v_stream \<Rightarrow> 'q u3v_stream" where
  "counted_transfer \<equiv> tally (\<lambda>c. c\<lparr>uc_transfers := uc_transfers c + 1\<rparr>)"

abbreviation counted_skip :: "'q u3v_stream \<Rightarrow> 'q u3v_stream" where
  "counted_skip \<equiv> tally (\<lambda>c. c\<lparr>uc_skipped := uc_skipped c + 1\<rparr>)"

section \<open>The plan\<close>

text \<open>The transfer the device sends at a cursor, and where the device is after it.\<close>

definition slot :: "stream_layout \<Rightarrow> cursor \<Rightarrow> nat \<times> cursor" where
  "slot l c =
     (let capacity = payload_capacity l in
      case c of
        AtLeader \<Rightarrow> (unat (sl_leader_size l), if capacity = 0 then AtTrailer else AtPayload 0)
      | AtPayload off \<Rightarrow>
          (let size = unat (sl_transfer_size l);
               full = size * unat (sl_transfer_count l);
               final1 = full + unat (sl_final1 l);
               end_at = (if off < full then (off div size + 1) * size else if off < final1 then final1 else capacity) in
           (end_at - off, if end_at \<ge> capacity then AtTrailer else AtPayload end_at))
      | AtTrailer \<Rightarrow> (unat (sl_trailer_size l), AtLeader))"

definition cursor_now :: "'q u3v_stream \<Rightarrow> cursor" where
  "cursor_now s =
     (case us_block s of
        None \<Rightarrow> AtLeader
      | Some b \<Rightarrow>
          if ub_ended b \<or> length (ub_payload b) \<ge> payload_capacity (us_layout s) then AtTrailer
          else AtPayload (length (ub_payload b)))"

text \<open>Each round queues one more transfer, so as many rounds as transfers wanted are enough.\<close>

primrec fill_loop :: "nat \<Rightarrow> 'q bulk_in \<Rightarrow> 'q u3v_stream \<Rightarrow> 'q u3v_stream" where
  "fill_loop 0 B s = s"
| "fill_loop (Suc k) B s =
     (if bq_pending B (us_queue s) < us_in_flight s then
        (let (len, nxt) = slot (us_layout s) (us_next s) in
         fill_loop k B (s\<lparr>us_queue := bq_submit B len (us_queue s), us_planned := us_planned s @ [(us_next s, len)],
           us_next := nxt\<rparr>))
      else s)"

definition fill :: "'q bulk_in \<Rightarrow> 'q u3v_stream \<Rightarrow> 'q u3v_stream" where
  "fill B s = fill_loop (us_in_flight s) B s"

section \<open>Blocks\<close>

definition abandon :: "'q u3v_stream \<Rightarrow> 'q u3v_stream" where
  "abandon s =
     (case us_block s of
        None \<Rightarrow> s
      | Some b \<Rightarrow>
          tally (\<lambda>c. c\<lparr>uc_abandoned := uc_abandoned c + 1\<rparr>)
            (s\<lparr>us_block := None,
               us_ready := us_ready s @ [\<lparr>rf_leader = ub_leader b, rf_payload = ub_payload b, rf_trailer = None\<rparr>]\<rparr>))"

definition finish_block :: "u3v_trailer \<Rightarrow> 'q u3v_stream \<Rightarrow> 'q u3v_stream" where
  "finish_block trailer s =
     (case us_block s of
        None \<Rightarrow> s
      | Some b \<Rightarrow>
          if ut_block_id trailer \<noteq> ul_block_id (ub_leader b) then abandon s
          else
            s\<lparr>us_block := None, us_failures := 0,
              us_ready := us_ready s @
                [\<lparr>rf_leader = ub_leader b, rf_payload = take (unat (ut_valid_payload_size trailer)) (ub_payload b),
                  rf_trailer = Some trailer\<rparr>]\<rparr>)"

definition open_block :: "instant \<Rightarrow> u3v_leader \<Rightarrow> 'q u3v_stream \<Rightarrow> 'q u3v_stream" where
  "open_block now leader s =
     s\<lparr>us_block := Some \<lparr>ub_leader = leader, ub_payload = [], ub_ended = (payload_capacity (us_layout s) = 0),
         ub_last = now\<rparr>\<rparr>"

definition add_payload :: "instant \<Rightarrow> bytes \<Rightarrow> nat \<Rightarrow> u3v_block \<Rightarrow> 'q u3v_stream \<Rightarrow> 'q u3v_stream" where
  "add_payload now data requested b s =
     (let room = payload_capacity (us_layout s) - length (ub_payload b);
          s = (if length data > room then counted_skip s else s) in
      s\<lparr>us_block := Some (b\<lparr>ub_payload := ub_payload b @ take room data,
          ub_ended := (length data < requested \<or> length data \<ge> room), ub_last := now\<rparr>)\<rparr>)"

text \<open>\<open>absorb\<close>: a leader opens a block, a trailer closes it, anything else is payload where payload is due.\<close>

definition absorb :: "instant \<Rightarrow> bytes \<Rightarrow> nat \<Rightarrow> 'q u3v_stream \<Rightarrow> 'q u3v_stream" where
  "absorb now data requested s =
     (case as_leader (us_layout s) data of
        Some leader \<Rightarrow> open_block now leader (if us_block s \<noteq> None then abandon s else s)
      | None \<Rightarrow>
          (case (us_block s, as_trailer (us_layout s) data) of
             (Some _, Some trailer) \<Rightarrow> finish_block trailer s
           | (Some b, None) \<Rightarrow>
               if \<not> ub_ended b \<and> length (ub_payload b) < payload_capacity (us_layout s)
               then add_payload now data requested b s else counted_skip s
           | _ \<Rightarrow> counted_skip s))"

section \<open>Completions\<close>

type_synonym ('a, 'q) u3v_act = "'q u3v_stream \<Rightarrow> ('a, u3v_error) result \<times> 'q u3v_stream"

definition set_queue :: "'q \<Rightarrow> 'q u3v_stream \<Rightarrow> 'q u3v_stream" where
  "set_queue q s = s\<lparr>us_queue := q\<rparr>"

text \<open>Take back every queued transfer; each round returns one of them.\<close>

primrec drain :: "nat \<Rightarrow> 'q bulk_in \<Rightarrow> 'q \<Rightarrow> (unit, u3v_error) result \<times> 'q" where
  "drain 0 B q = (Ok (), q)"
| "drain (Suc k) B q =
     (if bq_pending B q > 0 then
        (case bq_wait_next B DRAIN_TIMEOUT q of
           (None, q) \<Rightarrow> (Ok (), q)
         | (Some c, q) \<Rightarrow> if cm_status c = Err Disconnected then (Err Disconnected, q) else drain k B q)
      else (Ok (), q))"

definition recover :: "'q bulk_in \<Rightarrow> u3v_error \<Rightarrow> (unit, 'q) u3v_act" where
  "recover B error s =
     (let (error, q) = unless_gone B error 0 (us_queue s); s = set_queue q s in
      if error = Disconnected then (Err error, s)
      else
        let s = abandon (tally (\<lambda>c. c\<lparr>uc_errors := uc_errors c + 1\<rparr>) (s\<lparr>us_failures := us_failures s + 1\<rparr>)) in
        if us_failures s > MAX_CONSECUTIVE_FAILURES then
          (let (error, q) = unless_gone B error GONE_GRACE (us_queue s) in (Err error, set_queue q s))
        else
          let q = bq_cancel_all B (us_queue s) in
          (case drain (bq_pending B q) B q of
             (Ok _, q) \<Rightarrow>
               (case bq_reset B q of
                  (Ok _, q) \<Rightarrow> (Ok (), s\<lparr>us_queue := q, us_planned := [], us_next := AtLeader\<rparr>)
                | (Err e, q) \<Rightarrow>
                    (let (e, q) = unless_gone B e GONE_GRACE q in (Err e, s\<lparr>us_queue := q, us_planned := []\<rparr>))
                | (Panic, q) \<Rightarrow> (Panic, set_queue q s))
           | (Err e, q) \<Rightarrow> (Err e, set_queue q s)
           | (Panic, q) \<Rightarrow> (Panic, set_queue q s)))"

definition taken :: "'q bulk_in \<Rightarrow> completion \<Rightarrow> nat \<Rightarrow> 'q u3v_stream \<Rightarrow> 'q u3v_stream" where
  "taken B c requested s = absorb (uh_clock B (us_queue s)) (cm_data c) requested (counted_transfer s)"

definition complete_transfer :: "'q bulk_in \<Rightarrow> completion \<Rightarrow> nat \<Rightarrow> bool \<Rightarrow> (unit, 'q) u3v_act" where
  "complete_transfer B c requested cancelling s =
     (case cm_status c of
        Ok _ \<Rightarrow> (Ok (), taken B c requested s)
      | Err Cancelled \<Rightarrow>
          if cancelling \<and> cm_data c = [] then (Ok (), s)
          else if cancelling then (Ok (), taken B c requested s)
          else recover B Cancelled (taken B c requested s)
      | Err Disconnected \<Rightarrow> (Err Disconnected, s)
      | Err e \<Rightarrow> recover B e (counted_transfer s)
      | Panic \<Rightarrow> (Panic, s))"

text \<open>Plan again: take in what had arrived of the cancelled transfers. The flag says that it recovered.\<close>

primrec replan_loop :: "nat \<Rightarrow> 'q bulk_in \<Rightarrow> (bool, 'q) u3v_act" where
  "replan_loop 0 B s = (Ok False, s)"
| "replan_loop (Suc k) B s =
     (if bq_pending B (us_queue s) > 0 then
        (case bq_wait_next B DRAIN_TIMEOUT (us_queue s) of
           (None, q) \<Rightarrow> (Ok False, set_queue q s)
         | (Some c, q) \<Rightarrow>
             (let requested = (case us_planned s of [] \<Rightarrow> length (cm_data c) | p # _ \<Rightarrow> snd p);
                  failed = (case cm_status c of Err e \<Rightarrow> e \<noteq> Cancelled | _ \<Rightarrow> False);
                  s = (set_queue q s)\<lparr>us_planned := tl (us_planned s)\<rparr> in
              bind (complete_transfer B c requested True s) (\<lambda>_ s.
                if failed then (Ok True, s) else replan_loop k B s)))
      else (Ok False, s))"

definition replan :: "'q bulk_in \<Rightarrow> (unit, 'q) u3v_act" where
  "replan B s =
     (let q = bq_cancel_all B (us_queue s) in
      bind (replan_loop (bq_pending B q) B (set_queue q s)) (\<lambda>recovered s.
        (Ok (), if recovered then s else s\<lparr>us_planned := [], us_next := cursor_now s\<rparr>)))"

section \<open>The next block\<close>

text \<open>
  One round of the loop of \<open>next_frame_within\<close>: \<open>Some\<close> answer when it returns. A device that keeps
  sending what is not due keeps the loop going, so the loop takes fuel and \<open>None\<close> is not an answer.
\<close>

definition frame_round :: "'q bulk_in \<Rightarrow> duration \<Rightarrow> (raw_frame option option, 'q) u3v_act" where
  "frame_round B idle s =
     (case us_ready s of
        frame # rest \<Rightarrow> (Ok (Some (Some frame)), s\<lparr>us_ready := rest\<rparr>)
      | [] \<Rightarrow>
          (let s = fill B s in
           case bq_wait_next B idle (us_queue s) of
             (None, q) \<Rightarrow>
               (let s = set_queue q s in
                case us_block s of
                  Some b \<Rightarrow>
                    if uh_clock B q - ub_last b \<ge> us_timeout s then (Ok None, abandon s) else (Ok (Some None), s)
                | None \<Rightarrow> (Ok (Some None), s))
           | (Some c, q) \<Rightarrow>
               (let s = set_queue q s;
                    requested = (case us_planned s of [] \<Rightarrow> length (cm_data c) | p # _ \<Rightarrow> snd p);
                    s = s\<lparr>us_planned := tl (us_planned s)\<rparr> in
                bind (complete_transfer B c requested False s) (\<lambda>_ s.
                  case us_planned s of
                    [] \<Rightarrow> (Ok None, s\<lparr>us_next := cursor_now s\<rparr>)
                  | p # _ \<Rightarrow>
                      if fst p \<noteq> cursor_now s then bind (replan B s) (\<lambda>_ s. (Ok None, s)) else (Ok None, s)))))"

primrec next_frame_within :: "nat \<Rightarrow> 'q bulk_in \<Rightarrow> duration \<Rightarrow> (raw_frame option option, 'q) u3v_act" where
  "next_frame_within 0 B idle s = (Ok None, s)"
| "next_frame_within (Suc k) B idle s =
     bind (frame_round B idle s) (\<lambda>answer s.
       case answer of Some frame \<Rightarrow> (Ok (Some frame), s) | None \<Rightarrow> next_frame_within k B idle s)"

text \<open>\<open>next_frame\<close>, with fuel for its own loop and for the rounds of each call.\<close>

primrec next_frame_loop :: "nat \<Rightarrow> nat \<Rightarrow> 'q bulk_in \<Rightarrow> instant \<Rightarrow> (raw_frame option, 'q) u3v_act" where
  "next_frame_loop 0 rounds B deadline s = (Ok None, s)"
| "next_frame_loop (Suc k) rounds B deadline s =
     (let left = deadline - uh_clock B (us_queue s) in
      bind (next_frame_within rounds B left s) (\<lambda>answer s.
        case answer of
          None \<Rightarrow> (Ok None, s)
        | Some (Some frame) \<Rightarrow> (Ok (Some frame), s)
        | Some None \<Rightarrow> if left = 0 then (Err UsbTimeout, s) else next_frame_loop k rounds B deadline s))"

definition next_frame :: "nat \<Rightarrow> nat \<Rightarrow> 'q bulk_in \<Rightarrow> (raw_frame option, 'q) u3v_act" where
  "next_frame k rounds B s = next_frame_loop k rounds B (uh_clock B (us_queue s) + us_timeout s) s"

end
