(* ===== verification/U3v_Control.thy ===== *)
theory U3v_Control
  imports U3v_Wire
begin

text \<open>
  GenCP's control channel over USB3 Vision bulk endpoints (\<^verbatim>\<open>crates/viva-u3v/src/control.rs\<close>):
  memory reads and writes split into commands, one transaction each, with pending and stale
  acknowledges. The endpoints (trait \<open>UsbTransfer\<close> of \<^verbatim>\<open>usb.rs\<close>) are a parameter. Log output is
  left out.
\<close>

definition CONTROL_PREFIX :: u32 where "CONTROL_PREFIX = 0x43563355"
definition U3V_HEADER_SIZE :: nat where "U3V_HEADER_SIZE = 12"
definition WRITEMEM_ADDRESS_SIZE :: nat where "WRITEMEM_ADDRESS_SIZE = 8"
definition MAX_ACKS_PER_COMMAND :: nat where "MAX_ACKS_PER_COMMAND = 100"
definition MAX_PENDING_WAIT_MS :: nat where "MAX_PENDING_WAIT_MS = 10000"
definition DEFAULT_PENDING_WAIT_MS :: nat where "DEFAULT_PENDING_WAIT_MS = 100"
definition DEFAULT_CONTROL_TIMEOUT :: duration where "DEFAULT_CONTROL_TIMEOUT = 1000 * 10 ^ 6"

text \<open>GenCP's flag and command identifiers (\<^verbatim>\<open>viva-gencp\<close>).\<close>

definition CCD_REQUEST_ACK :: u16 where "CCD_REQUEST_ACK = 0x4000"
definition U3V_READMEM_CMD :: u16 where "U3V_READMEM_CMD = 0x0800"
definition U3V_READMEM_ACK :: u16 where "U3V_READMEM_ACK = 0x0801"
definition U3V_WRITEMEM_CMD :: u16 where "U3V_WRITEMEM_CMD = 0x0802"
definition U3V_WRITEMEM_ACK :: u16 where "U3V_WRITEMEM_ACK = 0x0803"
definition U3V_PENDING_ACK :: u16 where "U3V_PENDING_ACK = 0x0805"

definition pending_ack_timeout_ms :: "bytes \<Rightarrow> nat" where
  "pending_ack_timeout_ms scd =
     (if length scd < 4 then DEFAULT_PENDING_WAIT_MS
      else let requested = unat (le_word [scd ! 2, scd ! 3] :: u16) in
        if requested = 0 then DEFAULT_PENDING_WAIT_MS else min requested MAX_PENDING_WAIT_MS)"

section \<open>Packets\<close>

definition encode_command :: "u16 \<Rightarrow> u16 \<Rightarrow> bytes \<Rightarrow> bytes" where
  "encode_command command request_id scd =
     put_le 4 (unat CONTROL_PREFIX) @ put_le 2 (unat CCD_REQUEST_ACK) @ put_le 2 (unat command) @
     put_le 2 (length scd) @ put_le 2 (unat request_id) @ scd"

record ack_packet =
  ap_status :: u3v_status
  ap_command :: u16
  ap_request_id :: u16
  ap_payload :: bytes

definition u3v_decode_ack :: "bytes \<Rightarrow> (ack_packet, u3v_error) result" where
  "u3v_decode_ack buf =
     (if length buf < U3V_HEADER_SIZE then Err (Malformed ''acknowledge'' ''is shorter than its header'')
      else or_panic (le_at 4 0 buf) (\<lambda>prefix.
        if prefix \<noteq> CONTROL_PREFIX then Err (Malformed ''acknowledge'' ''lacks the U3VC prefix'')
        else or_panic (le_at 2 4 buf) (\<lambda>status. or_panic (le_at 2 6 buf) (\<lambda>command.
          or_panic (le_at 2 8 buf) (\<lambda>len. or_panic (le_at 2 10 buf) (\<lambda>request_id.
            let expected = U3V_HEADER_SIZE + unat (len :: u16) in
            if length buf < expected then Err (Malformed ''acknowledge'' ''is shorter than its header says'')
            else or_panic (subslice U3V_HEADER_SIZE expected buf) (\<lambda>payload.
              Ok \<lparr>ap_status = u3v_from_raw status, ap_command = command, ap_request_id = request_id,
                  ap_payload = payload\<rparr>)))))))"

section \<open>Transactions\<close>

record 'q usb_transfer = "'q usb_host" +
  ut_bulk_write :: "u8 \<Rightarrow> bytes \<Rightarrow> duration \<Rightarrow> 'q \<Rightarrow> (nat, u3v_error) result \<times> 'q"
  ut_bulk_read :: "u8 \<Rightarrow> nat \<Rightarrow> duration \<Rightarrow> 'q \<Rightarrow> (bytes, u3v_error) result \<times> 'q"

record 'q control_channel =
  cc_usb :: 'q
  cc_ep_in :: u8
  cc_ep_out :: u8
  cc_request_id :: u16
  cc_max_cmd :: u32
  cc_max_ack :: u32
  cc_timeout :: duration

type_synonym ('a, 'q) cc_act = "'q control_channel \<Rightarrow> ('a, u3v_error) result \<times> 'q control_channel"

definition control_new :: "'q \<Rightarrow> u8 \<Rightarrow> u8 \<Rightarrow> u32 \<Rightarrow> u32 \<Rightarrow> 'q control_channel" where
  "control_new usb ep_in ep_out max_cmd max_ack =
     \<lparr>cc_usb = usb, cc_ep_in = ep_in, cc_ep_out = ep_out, cc_request_id = 0, cc_max_cmd = max_cmd,
      cc_max_ack = max_ack, cc_timeout = DEFAULT_CONTROL_TIMEOUT\<rparr>"

definition set_max_transfer :: "u32 \<Rightarrow> u32 \<Rightarrow> 'q control_channel \<Rightarrow> 'q control_channel" where
  "set_max_transfer max_cmd max_ack c = c\<lparr>cc_max_cmd := max_cmd, cc_max_ack := max_ack\<rparr>"

definition u3v_next_request_id :: "u16 \<Rightarrow> u16" where
  "u3v_next_request_id i = (if i = 0xFFFF then 1 else i + 1)"

text \<open>A transfer, its failure looked at for a device that left.\<close>

definition usb_checked :: "('q, 'z) usb_host_scheme \<Rightarrow> ('a, u3v_error) result \<times> 'q \<Rightarrow> 'q control_channel \<Rightarrow>
    ('a, u3v_error) result \<times> 'q control_channel" where
  "usb_checked H out c =
     (let (r, q) = out in
      case r of
        Err e \<Rightarrow> (let (e, q) = unless_gone H e GONE_GRACE q in (Err e, c\<lparr>cc_usb := q\<rparr>))
      | _ \<Rightarrow> (r, c\<lparr>cc_usb := q\<rparr>))"

text \<open>What one acknowledge means for the command in progress.\<close>

datatype ack_answer = Stale | Wait nat | Settled "(bytes, u3v_error) result"

definition judge_acknowledge :: "u16 \<Rightarrow> u16 \<Rightarrow> ack_packet \<Rightarrow> ack_answer" where
  "judge_acknowledge request_id expected_ack ack =
     (if ap_request_id ack \<noteq> request_id then Stale
      else if ap_command ack = U3V_PENDING_ACK then Wait (pending_ack_timeout_ms (ap_payload ack))
      else if ap_command ack \<noteq> expected_ack then Settled (Err (Malformed ''acknowledge'' ''answers another command''))
      else if ts_is_success (ap_status ack) then Settled (Ok (ap_payload ack))
      else Settled (Err (DeviceStatus (ap_status ack))))"

primrec await_ack :: "nat \<Rightarrow> 'q usb_transfer \<Rightarrow> u16 \<Rightarrow> u16 \<Rightarrow> duration \<Rightarrow> (bytes, 'q) cc_act" where
  "await_ack 0 T request_id expected_ack wait c = (Err UsbTimeout, c)"
| "await_ack (Suc k) T request_id expected_ack wait c =
     (let room = max (unat (cc_max_ack c)) U3V_HEADER_SIZE in
      bind (usb_checked T (ut_bulk_read T (cc_ep_in c) room wait (cc_usb c)) c) (\<lambda>data c.
      bind (if length data > room then Panic else u3v_decode_ack data, c) (\<lambda>ack c.
        case judge_acknowledge request_id expected_ack ack of
          Stale \<Rightarrow> await_ack k T request_id expected_ack wait c
        | Wait ms \<Rightarrow> await_ack k T request_id expected_ack (ms * 10 ^ 6 + cc_timeout c) c
        | Settled r \<Rightarrow> (r, c))))"

definition transact :: "'q usb_transfer \<Rightarrow> u16 \<Rightarrow> u16 \<Rightarrow> bytes \<Rightarrow> (bytes, 'q) cc_act" where
  "transact T command expected_ack scd c =
     (let request_id = u3v_next_request_id (cc_request_id c); c = c\<lparr>cc_request_id := request_id\<rparr>;
          packet = encode_command command request_id scd in
      bind (usb_checked T (ut_bulk_write T (cc_ep_out c) packet (cc_timeout c) (cc_usb c)) c) (\<lambda>_ c.
        await_ack MAX_ACKS_PER_COMMAND T request_id expected_ack (cc_timeout c) c))"

section \<open>Memory\<close>

definition max_read_chunk :: "u32 \<Rightarrow> (nat, u3v_error) result" where
  "max_read_chunk max_ack =
     (let chunk = min (unat max_ack - U3V_HEADER_SIZE) 65535 in
      if chunk = 0 then Err (Unusable ''has a maximum acknowledge transfer too small to carry data'') else Ok chunk)"

definition max_write_chunk :: "u32 \<Rightarrow> (nat, u3v_error) result" where
  "max_write_chunk max_cmd =
     (let chunk = min (unat max_cmd - (U3V_HEADER_SIZE + WRITEMEM_ADDRESS_SIZE)) (65535 - WRITEMEM_ADDRESS_SIZE) in
      if chunk = 0 then Err (Unusable ''has a maximum command transfer too small to carry data'') else Ok chunk)"

definition readmem_scd :: "u64 \<Rightarrow> nat \<Rightarrow> bytes" where
  "readmem_scd address len = put_le 8 (unat address) @ put_le 2 0 @ put_le 2 len"

text \<open>Each round reads at least one byte: as many rounds as bytes are enough.\<close>

primrec read_loop :: "nat \<Rightarrow> 'q usb_transfer \<Rightarrow> nat \<Rightarrow> u64 \<Rightarrow> nat \<Rightarrow> nat \<Rightarrow> bytes \<Rightarrow> (bytes, 'q) cc_act" where
  "read_loop 0 T most addr len off out c = (Ok out, c)"
| "read_loop (Suc k) T most addr len off out c =
     (if off < len then
        (let chunk = min (len - off) most in
         bind (transact T U3V_READMEM_CMD U3V_READMEM_ACK (readmem_scd (addr + word_of_nat off) chunk) c) (\<lambda>ack c.
           if length ack \<noteq> chunk then (Err (WrongLength ''READMEM_ACK payload'' chunk (length ack)), c)
           else read_loop k T most addr len (off + chunk) (out @ ack) c))
      else (Ok out, c))"

definition u3v_read_mem :: "'q usb_transfer \<Rightarrow> u64 \<Rightarrow> nat \<Rightarrow> (bytes, 'q) cc_act" where
  "u3v_read_mem T addr len c =
     bind (max_read_chunk (cc_max_ack c), c) (\<lambda>most c. read_loop len T most addr len 0 [] c)"

text \<open>A device with the written-length capability says how many bytes it wrote.\<close>

definition check_written :: "bytes \<Rightarrow> nat \<Rightarrow> (unit, u3v_error) result" where
  "check_written ack chunk =
     (if length ack \<ge> 4 then
        (let written = unat (le_word [ack ! 2, ack ! 3] :: u16) in
         if written \<noteq> chunk then Err (WrongLength ''a WRITEMEM_ACK's bytes written'' chunk written) else Ok ())
      else Ok ())"

primrec write_loop :: "nat \<Rightarrow> 'q usb_transfer \<Rightarrow> nat \<Rightarrow> u64 \<Rightarrow> bytes \<Rightarrow> nat \<Rightarrow> (unit, 'q) cc_act" where
  "write_loop 0 T most addr data off c = (Ok (), c)"
| "write_loop (Suc k) T most addr data off c =
     (if off < length data then
        (let chunk = min (length data - off) most in
         bind (or_panic (subslice off (off + chunk) data) Ok, c) (\<lambda>piece c.
         bind (transact T U3V_WRITEMEM_CMD U3V_WRITEMEM_ACK
                 (put_le 8 (unat (addr + word_of_nat off)) @ piece) c) (\<lambda>ack c.
         bind (check_written ack chunk, c) (\<lambda>_ c. write_loop k T most addr data (off + chunk) c))))
      else (Ok (), c))"

definition u3v_write_mem :: "'q usb_transfer \<Rightarrow> u64 \<Rightarrow> bytes \<Rightarrow> (unit, 'q) cc_act" where
  "u3v_write_mem T addr data c =
     bind (max_write_chunk (cc_max_cmd c), c) (\<lambda>most c. write_loop (length data) T most addr data 0 c)"

end
