(* ===== verification/U3v_Usb.thy ===== *)
theory U3v_Usb
  imports U3v_Stream U3v_Control
begin

text \<open>
  What \<^verbatim>\<open>crates/viva-u3v/src/usb.rs\<close> provides behind the endpoint interfaces: \<open>Unqueued\<close>, the default
  \<open>BulkIn\<close> that performs its queued reads one at a time through \<open>bulk_read\<close>, and \<open>MockUsbTransfer\<close>, the
  in-memory transport.
\<close>

section \<open>Unqueued\<close>

record 'u unqueued =
  uq_transport :: 'u
  uq_requested :: "nat list"
  uq_cancelled :: nat

definition unqueued_new :: "'u \<Rightarrow> 'u unqueued" where
  "unqueued_new u = \<lparr>uq_transport = u, uq_requested = [], uq_cancelled = 0\<rparr>"

definition unqueued_submit :: "nat \<Rightarrow> 'u unqueued \<Rightarrow> 'u unqueued" where
  "unqueued_submit len q = q\<lparr>uq_requested := uq_requested q @ [len]\<rparr>"

definition unqueued_pending :: "'u unqueued \<Rightarrow> nat" where
  "unqueued_pending q = length (uq_requested q)"

definition unqueued_wait_next :: "'u usb_transfer \<Rightarrow> u8 \<Rightarrow> duration \<Rightarrow> 'u unqueued \<Rightarrow> completion option \<times> 'u unqueued" where
  "unqueued_wait_next T endpoint timeout q =
     (case uq_requested q of
        [] \<Rightarrow> (None, q)
      | len # rest \<Rightarrow>
          if uq_cancelled q > 0
          then (Some \<lparr>cm_data = [], cm_status = Err Cancelled\<rparr>,
                q\<lparr>uq_cancelled := uq_cancelled q - 1, uq_requested := rest\<rparr>)
          else
            (let (r, u) = ut_bulk_read T endpoint len timeout (uq_transport q); q = q\<lparr>uq_transport := u\<rparr> in
             case r of
               Err UsbTimeout \<Rightarrow> (None, q)
             | Ok data \<Rightarrow> (Some \<lparr>cm_data = take len data, cm_status = Ok ()\<rparr>, q\<lparr>uq_requested := rest\<rparr>)
             | Err e \<Rightarrow> (Some \<lparr>cm_data = [], cm_status = Err e\<rparr>, q\<lparr>uq_requested := rest\<rparr>)
             | Panic \<Rightarrow> (Some \<lparr>cm_data = [], cm_status = Panic\<rparr>, q\<lparr>uq_requested := rest\<rparr>)))"

definition unqueued_cancel_all :: "'u unqueued \<Rightarrow> 'u unqueued" where
  "unqueued_cancel_all q = q\<lparr>uq_cancelled := length (uq_requested q)\<rparr>"

definition unqueued_bulk_in :: "'u usb_transfer \<Rightarrow> u8 \<Rightarrow> 'u unqueued bulk_in" where
  "unqueued_bulk_in T endpoint =
     \<lparr>uh_is_present = (\<lambda>q. uh_is_present T (uq_transport q)), uh_clock = (\<lambda>q. uh_clock T (uq_transport q)),
      uh_sleep = (\<lambda>d q. q\<lparr>uq_transport := uh_sleep T d (uq_transport q)\<rparr>),
      bq_submit = unqueued_submit, bq_pending = unqueued_pending, bq_wait_next = unqueued_wait_next T endpoint,
      bq_cancel_all = unqueued_cancel_all, bq_reset = (\<lambda>q. (Ok (), q))\<rparr>"

section \<open>The in-memory transport\<close>

text \<open>Reads queued and writes captured for each endpoint; the time is added for the host's clock.\<close>

record mock_usb =
  mk_reads :: "u8 \<rightharpoonup> (bytes, u3v_error) result list"
  mk_writes :: "u8 \<rightharpoonup> bytes list"
  mk_present :: "bool option"
  mk_time :: instant

definition mock_new :: mock_usb where
  "mock_new = \<lparr>mk_reads = Map.empty, mk_writes = Map.empty, mk_present = None, mk_time = 0\<rparr>"

definition mock_enqueue :: "u8 \<Rightarrow> (bytes, u3v_error) result \<Rightarrow> mock_usb \<Rightarrow> mock_usb" where
  "mock_enqueue endpoint read m =
     m\<lparr>mk_reads := (mk_reads m)(endpoint \<mapsto> (case mk_reads m endpoint of Some rs \<Rightarrow> rs | None \<Rightarrow> []) @ [read])\<rparr>"

definition mock_take_writes :: "u8 \<Rightarrow> mock_usb \<Rightarrow> bytes list \<times> mock_usb" where
  "mock_take_writes endpoint m =
     (case mk_writes m endpoint of Some ws \<Rightarrow> ws | None \<Rightarrow> [], m\<lparr>mk_writes := (mk_writes m)(endpoint := None)\<rparr>)"

definition mock_bulk_write :: "u8 \<Rightarrow> bytes \<Rightarrow> duration \<Rightarrow> mock_usb \<Rightarrow> (nat, u3v_error) result \<times> mock_usb" where
  "mock_bulk_write endpoint data timeout m =
     (Ok (length data),
      m\<lparr>mk_writes := (mk_writes m)(endpoint \<mapsto> (case mk_writes m endpoint of Some ws \<Rightarrow> ws | None \<Rightarrow> []) @ [data])\<rparr>)"

definition mock_bulk_read :: "u8 \<Rightarrow> nat \<Rightarrow> duration \<Rightarrow> mock_usb \<Rightarrow> (bytes, u3v_error) result \<times> mock_usb" where
  "mock_bulk_read endpoint len timeout m =
     (case mk_reads m endpoint of
        Some (r # rs) \<Rightarrow>
          (case r of Ok data \<Rightarrow> Ok (take len data) | Err e \<Rightarrow> Err e | Panic \<Rightarrow> Panic,
           m\<lparr>mk_reads := (mk_reads m)(endpoint \<mapsto> rs)\<rparr>)
      | _ \<Rightarrow> (Err UsbTimeout, m))"

definition mock_transfer :: "mock_usb usb_transfer" where
  "mock_transfer =
     \<lparr>uh_is_present = mk_present, uh_clock = mk_time, uh_sleep = (\<lambda>d m. m\<lparr>mk_time := mk_time m + d\<rparr>),
      ut_bulk_write = mock_bulk_write, ut_bulk_read = mock_bulk_read\<rparr>"

section \<open>The endpoint over the in-memory transport\<close>

text \<open>The answers queued before the first error, which later reads return as they are.\<close>

fun answers :: "(bytes, u3v_error) result list \<Rightarrow> bytes list" where
  "answers (Ok d # rs) = d # answers rs"
| "answers _ = []"

definition mock_arriving :: "u8 \<Rightarrow> mock_usb unqueued \<Rightarrow> bytes list" where
  "mock_arriving endpoint q =
     (if uq_cancelled q > 0 then []
      else case mk_reads (uq_transport q) endpoint of Some rs \<Rightarrow> answers rs | None \<Rightarrow> [])"

lemma answers_Cons: "answers rs = d # ds \<Longrightarrow> \<exists>rs'. rs = Ok d # rs' \<and> answers rs' = ds"
  by (cases rs rule: answers.cases) auto

interpretation mock_endpoint: bulk_endpoint "unqueued_bulk_in mock_transfer endpoint" uq_requested "mock_arriving endpoint"
proof
  fix q :: "mock_usb unqueued" and n :: nat and ns d ds idle
  show "bq_pending (unqueued_bulk_in mock_transfer endpoint) q = length (uq_requested q)"
    by (simp add: unqueued_bulk_in_def unqueued_pending_def)
  show "uq_requested (bq_submit (unqueued_bulk_in mock_transfer endpoint) n q) = uq_requested q @ [n]"
    by (simp add: unqueued_bulk_in_def unqueued_submit_def)
  show "mock_arriving endpoint (bq_submit (unqueued_bulk_in mock_transfer endpoint) n q) = mock_arriving endpoint q"
    by (simp add: unqueued_bulk_in_def unqueued_submit_def mock_arriving_def)
  assume q: "uq_requested q = n # ns" "mock_arriving endpoint q = d # ds" "length d \<le> n"
  obtain rs where c: "uq_cancelled q = 0" "mk_reads (uq_transport q) endpoint = Some rs" "answers rs = d # ds"
    using q(2) by (auto simp: mock_arriving_def split: if_splits option.splits)
  obtain rs' where r: "rs = Ok d # rs'" "answers rs' = ds" using answers_Cons [OF c(3)] by blast
  show "\<exists>q'. bq_wait_next (unqueued_bulk_in mock_transfer endpoint) idle q = (Some \<lparr>cm_data = d, cm_status = Ok ()\<rparr>, q') \<and>
      uq_requested q' = ns \<and> mock_arriving endpoint q' = ds"
    using q(1,3) c(1,2) r
    by (simp add: unqueued_bulk_in_def unqueued_wait_next_def mock_transfer_def mock_bulk_read_def mock_arriving_def)
qed

end
