(* ===== verification/U3v_Stream_Props.thy ===== *)
theory U3v_Stream_Props
  imports U3v_Usb
begin

text \<open>
  What the stream receiver promises: a layout that holds the payload in aligned transfers, blocks
  delivered as the device sent them however many transfers are in flight, and frames that are what
  their leader and trailer say whatever the endpoint does.
\<close>

section \<open>Layouts\<close>

lemma align_up_Ok:
  assumes "align_up v a = Ok n" "a \<noteq> 0"
  shows "unat a dvd unat n" "unat v \<le> unat n" "unat n < unat v + unat a"
proof -
  let ?m = "div_ceil (unat v) (unat a) * unat a"
  have a: "0 < unat a" using assms(2) by (simp add: unat_gt_0)
  have "?m < 2 ^ 32" "n = word_of_nat ?m"
    using assms(1) by (auto simp: align_up_def Let_def split: if_splits)
  then have n: "unat n = ?m" using unat_of_nat_small [of ?m, where 'w = 32] by simp
  show "unat a dvd unat n" unfolding n by simp
  show "unat v \<le> unat n" unfolding n by (rule le_div_ceil_mult [OF a])
  have "(unat v + unat a - 1) div unat a * unat a \<le> unat v + unat a - 1" by (rule div_times_less_eq_dividend)
  then show "unat n < unat v + unat a" unfolding n div_ceil_def using a by linarith
qed

lemma unat_floor: "unat (x div a * a) = unat x div unat a * unat a" for x a :: "'w::len word"
proof -
  have "unat x div unat a * unat a < 2 ^ LENGTH('w)"
    using div_times_less_eq_dividend [of "unat x" "unat a"] unsigned_less [of x, where ?'a = nat] by linarith
  then show ?thesis by (simp add: unat_word_ariths(2) unat_div_distrib)
qed

lemma unat_u32_u64: "unat (ucast (x :: u32) :: u64) = unat x"
  using unsigned_less [of x, where ?'a = nat] by (simp add: unsigned_ucast_eq take_bit_nat_eq_self)

lemma unat_u64_u32: "unat x < 2 ^ 32 \<Longrightarrow> unat (ucast (x :: u64) :: u32) = unat x"
  by (simp add: unsigned_ucast_eq take_bit_nat_eq_self)

lemma dvd_below_next:
  fixes a m n :: nat
  assumes "a dvd m" "a dvd n" "m < n + a"
  shows "m \<le> n"
proof -
  obtain j k where "m = a * j" "n = a * k" using assms(1,2) by (auto elim!: dvdE)
  moreover from this have "a * j < a * (k + 1)" using assms(3) by (simp add: distrib_left)
  then have "j < k + 1" by (simp only: mult_less_cancel1)
  ultimately show ?thesis by (simp add: mult_le_mono2)
qed

text \<open>The size of a full transfer, as \<open>layout_new\<close> chooses it.\<close>

lemma transfer_size_choice:
  fixes payload :: u64 and a m :: u32
  assumes r: "(if payload \<ge> ucast (m div a * a) then Ok (m div a * a)
     else let aligned = ucast payload div a * a in if aligned = 0 then align_up (ucast payload) a else Ok aligned) = Ok ts"
    and a: "a \<noteq> 0" "a \<le> m" "payload \<noteq> 0"
  shows "unat a dvd unat ts" "0 < unat ts" "unat ts \<le> unat m"
proof -
  have pa: "0 < unat a" "unat a \<le> unat m" "0 < unat payload"
    using a by (simp_all add: unat_gt_0 word_le_nat_alt)
  have A: "unat (m div a * a) = unat m div unat a * unat a" by (rule unat_floor)
  have "1 \<le> unat m div unat a" using pa by (simp add: Suc_le_eq div_greater_zero_iff)
  then have A': "unat a \<le> unat (m div a * a)" "unat (m div a * a) \<le> unat m"
    unfolding A by (simp_all add: div_times_less_eq_dividend)
  have "unat a dvd unat ts \<and> 0 < unat ts \<and> unat ts \<le> unat m"
  proof (cases "payload \<ge> ucast (m div a * a)")
    case True
    then have "ts = m div a * a" using r by simp
    then show ?thesis using A A' pa by simp
  next
    case False
    then have small: "unat payload < unat (m div a * a)" by (simp add: word_le_nat_alt unat_u32_u64 not_le)
    then have "unat payload < 2 ^ 32" using unsigned_less [of "m div a * a", where ?'a = nat] by simp
    then have p: "unat (ucast payload :: u32) = unat payload" by (rule unat_u64_u32)
    let ?al = "ucast payload div a * a :: u32"
    have al: "unat ?al = unat payload div unat a * unat a" by (simp add: unat_floor p)
    show ?thesis
    proof (cases "?al = 0")
      case True
      then have up: "align_up (ucast payload) a = Ok ts" using r False by (simp add: Let_def)
      note u = align_up_Ok [OF up a(1), unfolded p]
      have "unat payload < unat a" using True al pa(1) by (metis div_eq_0_iff mult_eq_0_iff not_less0 unat_0)
      then have "unat ts < unat a + unat a" using u(3) by linarith
      then have "unat ts \<le> unat a" by (rule dvd_below_next [OF u(1) dvd_refl])
      then show ?thesis using u pa by simp
    next
      case nz: False
      then have "ts = ?al" using r False by (simp add: Let_def)
      then have "unat ts = unat payload div unat a * unat a" using al by simp
      moreover have "0 < unat ts" using nz \<open>ts = ?al\<close> by (simp add: unat_gt_0)
      moreover have "unat payload div unat a * unat a \<le> unat payload" by (rule div_times_less_eq_dividend)
      ultimately show ?thesis using small A'(2) by (metis dvd_triv_right le_trans less_imp_le)
    qed
  qed
  then show "unat a dvd unat ts" "0 < unat ts" "unat ts \<le> unat m" by simp_all
qed

text \<open>
  C30. A layout the host writes to a device: every transfer is a multiple of the alignment the device
  asked for and no larger than the host's limit, the payload transfers hold the payload with less than
  one alignment to spare, and leader and trailer transfers hold what the device requires of them.
\<close>
theorem layout_holds_payload:
  assumes "layout_new payload required_leader required_trailer alignment max_transfer = Ok l"
  shows "list_all (\<lambda>n. unat alignment dvd unat n)
      [sl_leader_size l, sl_trailer_size l, sl_transfer_size l, sl_final1 l, sl_final2 l] \<and>
    list_all (\<lambda>n. unat n \<le> unat max_transfer) [sl_transfer_size l, sl_final1 l, sl_final2 l] \<and>
    unat payload \<le> payload_capacity l \<and> payload_capacity l < unat payload + unat alignment \<and>
    unat required_leader \<le> unat (sl_leader_size l) \<and> unat required_trailer \<le> unat (sl_trailer_size l)"
proof -
  let ?A = "max_transfer div alignment * alignment"
  have a: "alignment \<noteq> 0" "alignment \<le> max_transfer" "payload \<noteq> 0"
    using assms by (auto simp: layout_new_def split: if_splits)
  obtain ts f1 ls tl' where ts: "(if payload \<ge> ucast ?A then Ok ?A
      else let aligned = ucast payload div alignment * alignment in
        if aligned = 0 then align_up (ucast payload) alignment else Ok aligned) = Ok ts"
    and count: "unat (payload div ucast ts) < 2 ^ 32"
    and f1: "align_up (ucast (payload - payload div ucast ts * ucast ts)) alignment = Ok f1"
    and ls: "framing_length ?A alignment required_leader = Ok ls"
    and tr: "framing_length ?A alignment required_trailer = Ok tl'"
    and l: "l = \<lparr>sl_payload_size = payload, sl_leader_size = ls, sl_trailer_size = tl', sl_transfer_size = ts,
      sl_transfer_count = ucast (payload div ucast ts), sl_final1 = f1, sl_final2 = 0\<rparr>"
    using assms a unfolding layout_new_def Let_def
    by (auto simp: and_then_eq_Ok not_le word_le_nat_alt Let_def split: if_splits)
  note c = transfer_size_choice [OF ts a]
  let ?p = "unat payload" and ?t = "unat ts"
  have q: "unat (payload div ucast ts) = ?p div ?t" by (simp add: unat_div_distrib unat_u32_u64)
  have "payload - payload div ucast ts * ucast ts = payload mod (ucast ts :: u64)" by (simp add: minus_div_mult_eq_mod)
  then have rem: "unat (payload - payload div ucast ts * ucast ts) = ?p mod ?t"
    by (simp add: unat_mod_distrib unat_u32_u64)
  have small: "?p mod ?t < ?t" using c(2) by simp
  have "?t < 2 ^ 32" using unsigned_less [of ts, where ?'a = nat] by simp
  then have "unat (ucast (payload - payload div ucast ts * ucast ts) :: u32) = unat (payload - payload div ucast ts * ucast ts)"
    by (intro unat_u64_u32) (simp only: rem less_trans [OF small])
  then have "unat (ucast (payload - payload div ucast ts * ucast ts) :: u32) = ?p mod ?t" by (simp only: rem)
  note f = align_up_Ok [OF f1 a(1), unfolded this]
  have final: "unat f1 \<le> ?t" by (rule dvd_below_next [OF f(1) c(1)]) (use f(3) small in linarith)
  have cap: "payload_capacity l = ?t * (?p div ?t) + unat f1"
    using unat_u64_u32 [OF count] by (simp add: payload_capacity_def l q)
  have split: "?p = ?t * (?p div ?t) + ?p mod ?t" by simp
  have fr: "unat alignment dvd unat n \<and> unat r \<le> unat n" if "framing_length ?A alignment r = Ok n" for r n
    using that align_up_Ok [OF _ a(1)] by (auto simp: framing_length_def unat_floor split: if_splits)
  have "?p \<le> payload_capacity l" "payload_capacity l < ?p + unat alignment"
    using cap split f(2,3) by linarith+
  then show ?thesis
    using c f final fr [OF ls] fr [OF tr] by (simp add: l)
qed

lemma layout_holds_payload_witness:
  "layout_new 1000 52 32 16 512 =
     Ok \<lparr>sl_payload_size = 1000, sl_leader_size = 64, sl_trailer_size = 32, sl_transfer_size = 512,
         sl_transfer_count = 1, sl_final1 = 496, sl_final2 = 0\<rparr> \<and>
   1000 \<le> payload_capacity \<lparr>sl_payload_size = 1000, sl_leader_size = 64, sl_trailer_size = 32,
         sl_transfer_size = 512, sl_transfer_count = 1, sl_final1 = 496, sl_final2 = 0\<rparr>"
proof -
  let ?l = "\<lparr>sl_payload_size = 1000, sl_leader_size = 64, sl_trailer_size = 32, sl_transfer_size = 512,
         sl_transfer_count = 1, sl_final1 = 496, sl_final2 = 0\<rparr>"
  have "layout_new 1000 52 32 16 512 = Ok ?l"
    by (simp add: layout_new_def framing_length_def align_up_def div_ceil_def Let_def)
  then show ?thesis using layout_holds_payload [of 1000 52 32 16 512 ?l] by simp
qed

section \<open>Delivery\<close>

text \<open>Transfers planned one after the other from a cursor, and where they end.\<close>

fun is_plan :: "stream_layout \<Rightarrow> cursor \<Rightarrow> (cursor \<times> nat) list \<Rightarrow> cursor \<Rightarrow> bool" where
  "is_plan l c [] nxt \<longleftrightarrow> nxt = c"
| "is_plan l c (p # ps) nxt \<longleftrightarrow> p = (c, fst (slot l c)) \<and> is_plan l (snd (slot l c)) ps nxt"

lemma is_plan_snoc: "is_plan l c ps nxt \<Longrightarrow> is_plan l c (ps @ [(nxt, fst (slot l nxt))]) (snd (slot l nxt))"
  by (induction ps arbitrary: c) auto

text \<open>The stream's plan starts where the device is, and the endpoint holds its transfers.\<close>

definition on_plan :: "('q \<Rightarrow> nat list) \<Rightarrow> 'q u3v_stream \<Rightarrow> bool" where
  "on_plan requests s \<longleftrightarrow>
     is_plan (us_layout s) (cursor_now s) (us_planned s) (us_next s) \<and> requests (us_queue s) = map snd (us_planned s)"

text \<open>The transfer a device in step with its layout sends now.\<close>

definition due_now :: "'q u3v_stream \<Rightarrow> bytes \<Rightarrow> bool" where
  "due_now s d \<longleftrightarrow>
     length d \<le> fst (slot (us_layout s) (cursor_now s)) \<and>
     (case cursor_now s of
        AtLeader \<Rightarrow> as_leader (us_layout s) d \<noteq> None
      | AtPayload off \<Rightarrow> as_leader (us_layout s) d = None \<and> as_trailer (us_layout s) d = None \<and>
          (snd (slot (us_layout s) (cursor_now s)) = AtTrailer \<or> length d = fst (slot (us_layout s) (cursor_now s)))
      | AtTrailer \<Rightarrow> as_leader (us_layout s) d = None \<and> as_trailer (us_layout s) d \<noteq> None)"

lemma slot_payload:
  assumes "off < payload_capacity l"
  shows "0 < fst (slot l (AtPayload off))"
    "snd (slot l (AtPayload off)) = AtTrailer \<longleftrightarrow> off + fst (slot l (AtPayload off)) = payload_capacity l"
    "snd (slot l (AtPayload off)) \<noteq> AtTrailer \<Longrightarrow> off + fst (slot l (AtPayload off)) < payload_capacity l \<and>
       snd (slot l (AtPayload off)) = AtPayload (off + fst (slot l (AtPayload off)))"
proof -
  define size full final1 where "size = unat (sl_transfer_size l)" "full = size * unat (sl_transfer_count l)"
    "final1 = full + unat (sl_final1 l)"
  define end_at where "end_at = (if off < full then (off div size + 1) * size else if off < final1 then final1
    else payload_capacity l)"
  have cap: "full \<le> final1" "final1 \<le> payload_capacity l"
    by (simp_all add: payload_capacity_def size_full_final1_def)
  have bounds: "off < end_at \<and> end_at \<le> payload_capacity l"
  proof (cases "off < full")
    case True
    then have pos: "0 < size" by (metis gr0I mult_0 not_less0 size_full_final1_def(2))
    have "off div size < unat (sl_transfer_count l)"
      using True pos by (simp add: size_full_final1_def(2) div_less_iff_less_mult mult.commute)
    then have "(off div size + 1) * size \<le> full"
      unfolding size_full_final1_def(2) by (metis Suc_eq_plus1 Suc_leI mult.commute mult_le_mono2)
    moreover have "off < (off div size + 1) * size"
      using dividend_less_times_div [OF pos, of off] by (simp add: mult.commute)
    ultimately show ?thesis using True cap by (simp add: end_at_def)
  qed (use assms cap in \<open>auto simp: end_at_def\<close>)
  have sl: "slot l (AtPayload off) = (end_at - off, if end_at \<ge> payload_capacity l then AtTrailer else AtPayload end_at)"
    by (simp add: slot_def Let_def end_at_def size_full_final1_def)
  show "0 < fst (slot l (AtPayload off))"
    "snd (slot l (AtPayload off)) = AtTrailer \<longleftrightarrow> off + fst (slot l (AtPayload off)) = payload_capacity l"
    "snd (slot l (AtPayload off)) \<noteq> AtTrailer \<Longrightarrow> off + fst (slot l (AtPayload off)) < payload_capacity l \<and>
       snd (slot l (AtPayload off)) = AtPayload (off + fst (slot l (AtPayload off)))"
    using bounds unfolding sl by (auto split: if_splits)
qed

lemma tally_fields [simp]:
  "us_queue (tally f s) = us_queue s" "us_layout (tally f s) = us_layout s" "us_timeout (tally f s) = us_timeout s"
  "us_in_flight (tally f s) = us_in_flight s" "us_planned (tally f s) = us_planned s" "us_next (tally f s) = us_next s"
  "us_block (tally f s) = us_block s" "us_ready (tally f s) = us_ready s" "us_failures (tally f s) = us_failures s"
  by (simp_all add: tally_def)

lemma abandon_fields [simp]:
  "us_queue (abandon s) = us_queue s" "us_layout (abandon s) = us_layout s" "us_timeout (abandon s) = us_timeout s"
  "us_in_flight (abandon s) = us_in_flight s" "us_planned (abandon s) = us_planned s" "us_next (abandon s) = us_next s"
  "us_block (abandon s) = None" "us_failures (abandon s) = us_failures s"
  by (auto simp: abandon_def split: option.split)

lemma absorb_fields [simp]:
  "us_queue (absorb t d n s) = us_queue s" "us_layout (absorb t d n s) = us_layout s"
  "us_in_flight (absorb t d n s) = us_in_flight s" "us_planned (absorb t d n s) = us_planned s"
  "us_next (absorb t d n s) = us_next s"
  by (auto simp: absorb_def open_block_def finish_block_def add_payload_def Let_def split: option.split prod.split)

text \<open>A transfer that was due leaves the device where the plan has it next.\<close>

lemma absorb_due:
  assumes "due_now s d"
  shows "cursor_now (absorb t d (fst (slot (us_layout s) (cursor_now s))) s) = snd (slot (us_layout s) (cursor_now s))"
proof (cases "us_block s")
  case None
  then have c: "cursor_now s = AtLeader" by (simp add: cursor_now_def)
  then obtain ld where "as_leader (us_layout s) d = Some ld" using assms by (auto simp: due_now_def)
  then show ?thesis
    unfolding c by (simp add: absorb_def None open_block_def cursor_now_def slot_def)
next
  case (Some b)
  show ?thesis
  proof (cases "cursor_now s = AtTrailer")
    case True
    then obtain tr where "as_leader (us_layout s) d = None" "as_trailer (us_layout s) d = Some tr"
      using assms by (auto simp: due_now_def)
    then show ?thesis unfolding True
      by (simp add: absorb_def Some finish_block_def cursor_now_def slot_def)
  next
    case False
    let ?off = "length (ub_payload b)" and ?n = "fst (slot (us_layout s) (AtPayload (length (ub_payload b))))"
    have c: "cursor_now s = AtPayload ?off" "\<not> ub_ended b" "?off < payload_capacity (us_layout s)"
      using False Some by (auto simp: cursor_now_def split: if_splits)
    have d: "as_leader (us_layout s) d = None" "as_trailer (us_layout s) d = None" "length d \<le> ?n"
      "snd (slot (us_layout s) (AtPayload ?off)) = AtTrailer \<or> length d = ?n"
      using assms unfolding due_now_def c(1) by auto
    note sl = slot_payload [OF c(3)]
    show ?thesis
    proof (cases "snd (slot (us_layout s) (AtPayload ?off)) = AtTrailer")
      case True
      then show ?thesis using d sl(2) c(2,3) unfolding c(1)
        by (auto simp: absorb_def Some add_payload_def Let_def cursor_now_def)
    next
      case inner: False
      then show ?thesis using d sl(3) c(2,3) unfolding c(1)
        by (auto simp: absorb_def Some add_payload_def Let_def cursor_now_def)
    qed
  qed
qed

lemma absorb_cong:
  assumes "us_block s = us_block s'" "us_ready s = us_ready s'" "us_layout s = us_layout s'"
  shows "us_block (absorb t d n s) = us_block (absorb t d n s')" "us_ready (absorb t d n s) = us_ready (absorb t d n s')"
  using assms
  by (auto simp: absorb_def open_block_def finish_block_def add_payload_def abandon_def Let_def split: option.split prod.split)

lemma cursor_now_cong: "us_block s = us_block s' \<Longrightarrow> us_layout s = us_layout s' \<Longrightarrow> cursor_now s = cursor_now s'"
  by (simp add: cursor_now_def split: option.split)

text \<open>A payload cut into transfers as the layout has it; no piece passes for a leader or a trailer.\<close>

fun cuts :: "stream_layout \<Rightarrow> cursor \<Rightarrow> bytes list \<Rightarrow> bool" where
  "cuts l AtTrailer [] \<longleftrightarrow> True"
| "cuts l (AtPayload off) (d # ds) \<longleftrightarrow>
     as_leader l d = None \<and> as_trailer l d = None \<and> length d \<le> fst (slot l (AtPayload off)) \<and>
     (snd (slot l (AtPayload off)) = AtTrailer \<or> length d = fst (slot l (AtPayload off))) \<and>
     cuts l (snd (slot l (AtPayload off))) ds"
| "cuts l _ _ \<longleftrightarrow> False"

lemma trailer_no_leader: "as_trailer l d = Some tr \<Longrightarrow> as_leader l d = None"
  by (cases "subslice 0 8 d")
     (auto simp: as_trailer_def as_leader_def framing_size_def LEADER_PREFIX_def TRAILER_PREFIX_def Let_def
        split: if_splits)

text \<open>A piece that is due is added whole.\<close>

lemma absorb_piece:
  assumes "us_block s = Some b" "cuts (us_layout s) (cursor_now s) (d # ds)"
  shows "due_now s d" "cuts (us_layout s) (snd (slot (us_layout s) (cursor_now s))) ds"
    "\<exists>b'. us_block (absorb t d n s) = Some b' \<and> ub_leader b' = ub_leader b \<and> ub_payload b' = ub_payload b @ d"
    "us_ready (absorb t d n s) = us_ready s"
proof -
  obtain off where "cursor_now s = AtPayload off" using assms(2) by (cases "cursor_now s") auto
  then have c: "cursor_now s = AtPayload (length (ub_payload b))" "\<not> ub_ended b"
    "length (ub_payload b) < payload_capacity (us_layout s)"
    using assms(1) by (auto simp: cursor_now_def split: if_splits)
  note d = assms(2) [unfolded c(1) cuts.simps]
  show "due_now s d" using d by (simp add: due_now_def c(1))
  show "cuts (us_layout s) (snd (slot (us_layout s) (cursor_now s))) ds" using d by (simp add: c(1))
  have room: "length d \<le> payload_capacity (us_layout s) - length (ub_payload b)"
    using d slot_payload(2,3) [OF c(3)] by linarith
  show "\<exists>b'. us_block (absorb t d n s) = Some b' \<and> ub_leader b' = ub_leader b \<and> ub_payload b' = ub_payload b @ d"
    "us_ready (absorb t d n s) = us_ready s"
    using d c(2,3) room by (simp_all add: absorb_def assms(1) add_payload_def Let_def)
qed

context bulk_endpoint
begin

lemma fill_loop_plan:
  "on_plan requests s \<Longrightarrow> \<exists>q ps nx. fill_loop k B s = s\<lparr>us_queue := q, us_planned := ps, us_next := nx\<rparr> \<and>
     is_plan (us_layout s) (cursor_now s) ps nx \<and> requests q = map snd ps \<and> arriving q = arriving (us_queue s) \<and>
     (us_planned s \<noteq> [] \<or> 1 \<le> us_in_flight s \<and> 1 \<le> k \<longrightarrow> ps \<noteq> [])"
proof (induction k arbitrary: s)
  case 0
  then show ?case
    by (intro exI [of _ "us_queue s"] exI [of _ "us_planned s"] exI [of _ "us_next s"]) (simp add: on_plan_def)
next
  case (Suc k)
  show ?case
  proof (cases "bq_pending B (us_queue s) < us_in_flight s")
    case True
    define s1 where "s1 = s\<lparr>us_queue := bq_submit B (fst (slot (us_layout s) (us_next s))) (us_queue s),
      us_planned := us_planned s @ [(us_next s, fst (slot (us_layout s) (us_next s)))],
      us_next := snd (slot (us_layout s) (us_next s))\<rparr>"
    have c: "cursor_now s1 = cursor_now s" by (rule cursor_now_cong) (simp_all add: s1_def)
    have p: "on_plan requests s1"
      using Suc.prems unfolding on_plan_def c by (simp add: s1_def is_plan_snoc submit_requests)
    have f: "fill_loop (Suc k) B s = fill_loop k B s1" using True by (simp add: s1_def split: prod.split)
    have e: "us_layout s1 = us_layout s" "arriving (us_queue s1) = arriving (us_queue s)" "us_planned s1 \<noteq> []"
      by (simp_all add: s1_def submit_arriving)
    have u: "s1\<lparr>us_queue := q, us_planned := ps, us_next := nx\<rparr> = s\<lparr>us_queue := q, us_planned := ps, us_next := nx\<rparr>"
      for q ps nx by (simp add: s1_def)
    show ?thesis using Suc.IH [OF p] e(3) unfolding f u c e(1,2) by blast
  next
    case False
    then have f: "fill_loop (Suc k) B s = s" by simp
    have "us_in_flight s \<le> length (us_planned s)"
      using False Suc.prems by (simp add: pending on_plan_def)
    then show ?thesis using Suc.prems unfolding f
      by (intro exI [of _ "us_queue s"] exI [of _ "us_planned s"] exI [of _ "us_next s"]) (auto simp: on_plan_def)
  qed
qed

lemma frame_round_due:
  assumes "on_plan requests s" "us_ready s = []" "1 \<le> us_in_flight s" "arriving (us_queue s) = d # ds" "due_now s d"
  obtains s' t where "frame_round B idle s = (Ok None, s')" "on_plan requests s'" "arriving (us_queue s') = ds"
    "us_layout s' = us_layout s" "us_in_flight s' = us_in_flight s"
    "us_block s' = us_block (absorb t d (fst (slot (us_layout s) (cursor_now s))) s)"
    "us_ready s' = us_ready (absorb t d (fst (slot (us_layout s) (cursor_now s))) s)"
proof -
  let ?l = "us_layout s" and ?n = "fst (slot (us_layout s) (cursor_now s))" and ?c = "snd (slot (us_layout s) (cursor_now s))"
  obtain q ps nx where f: "fill B s = s\<lparr>us_queue := q, us_planned := ps, us_next := nx\<rparr>"
      "is_plan ?l (cursor_now s) ps nx" "requests q = map snd ps" "arriving q = d # ds" "ps \<noteq> []"
    using fill_loop_plan [OF assms(1), of "us_in_flight s"] assms(3,4) unfolding fill_def by auto
  obtain ps' where ps: "ps = (cursor_now s, ?n) # ps'" "is_plan ?l ?c ps' nx"
    using f(2,5) by (cases ps) auto
  have "length d \<le> ?n" using assms(5) by (simp add: due_now_def)
  then obtain q' where w: "bq_wait_next B idle q = (Some \<lparr>cm_data = d, cm_status = Ok ()\<rparr>, q')"
      "requests q' = map snd ps'" "arriving q' = ds"
    using wait_next [of q ?n "map snd ps'" d ds idle] f(3,4) ps(1) by auto
  define t where "t = uh_clock B q'"
  define s2 where "s2 = counted_transfer (s\<lparr>us_next := nx, us_queue := q', us_planned := ps'\<rparr>)"
  define s3 where "s3 = absorb t d ?n s2"
  have ab: "us_block s3 = us_block (absorb t d ?n s)" "us_ready s3 = us_ready (absorb t d ?n s)"
    unfolding s3_def by (rule absorb_cong; simp add: s2_def)+
  have c3: "cursor_now s3 = ?c"
    using absorb_due [OF assms(5), of t] cursor_now_cong [of s3 "absorb t d ?n s"] ab(1) by (simp add: s3_def s2_def)
  have r: "frame_round B idle s =
      (Ok None, if ps' = [] then s3\<lparr>us_next := cursor_now s3\<rparr> else s3)"
  proof -
    have "frame_round B idle s = (case us_planned s3 of
        [] \<Rightarrow> (Ok None, s3\<lparr>us_next := cursor_now s3\<rparr>)
      | p # _ \<Rightarrow> if fst p \<noteq> cursor_now s3 then bind (replan B s3) (\<lambda>_ s. (Ok None, s)) else (Ok None, s3))"
      unfolding frame_round_def assms(2) f(1) list.case Let_def s3_def s2_def t_def
      by (simp add: w(1) ps(1) set_queue_def complete_transfer_def taken_def)
    moreover have "us_planned s3 = ps'" by (simp add: s3_def s2_def)
    ultimately show ?thesis using ps(2) c3 by (cases ps') auto
  qed
  let ?s = "if ps' = [] then s3\<lparr>us_next := cursor_now s3\<rparr> else s3"
  have "cursor_now ?s = ?c" using cursor_now_cong [of ?s s3] c3 by simp
  moreover have "us_planned ?s = ps'" "us_queue ?s = q'" "us_layout ?s = ?l" "us_next ?s = nx"
    using ps(2) c3 by (auto simp: s3_def s2_def)
  ultimately have "on_plan requests ?s" using ps(2) w(2) by (simp add: on_plan_def)
  moreover have "arriving (us_queue ?s) = ds" "us_layout ?s = us_layout s" "us_in_flight ?s = us_in_flight s"
    using w(3) by (auto simp: s3_def s2_def)
  moreover have "us_block ?s = us_block (absorb t d ?n s)" "us_ready ?s = us_ready (absorb t d ?n s)"
    using ab by auto
  ultimately show ?thesis using r by (intro that [of ?s t])
qed

lemma round_continues:
  "frame_round B idle s = (Ok None, s') \<Longrightarrow> next_frame_within (Suc k) B idle s = next_frame_within k B idle s'"
  by simp

lemma payload_rounds:
  assumes "on_plan requests s" "us_ready s = []" "1 \<le> us_in_flight s" "arriving (us_queue s) = pieces @ rest"
    "us_block s = Some b" "cuts (us_layout s) (cursor_now s) pieces"
  shows "\<exists>s' b'. next_frame_within (length pieces + k) B idle s = next_frame_within k B idle s' \<and>
    on_plan requests s' \<and> us_ready s' = [] \<and> us_in_flight s' = us_in_flight s \<and> us_layout s' = us_layout s \<and>
    arriving (us_queue s') = rest \<and> us_block s' = Some b' \<and> ub_leader b' = ub_leader b \<and>
    ub_payload b' = ub_payload b @ concat pieces \<and> cursor_now s' = AtTrailer"
  using assms
proof (induction pieces arbitrary: s b)
  case Nil
  have "cursor_now s = AtTrailer" using Nil.prems(6) by (cases "cursor_now s") auto
  then show ?case using Nil.prems by auto
next
  case (Cons d ds)
  note a = absorb_piece [OF Cons.prems(5,6)]
  obtain s1 t where r: "frame_round B idle s = (Ok None, s1)" "on_plan requests s1" "arriving (us_queue s1) = ds @ rest"
    "us_layout s1 = us_layout s" "us_in_flight s1 = us_in_flight s"
    "us_block s1 = us_block (absorb t d (fst (slot (us_layout s) (cursor_now s))) s)"
    "us_ready s1 = us_ready (absorb t d (fst (slot (us_layout s) (cursor_now s))) s)"
    using frame_round_due [OF Cons.prems(1-3) _ a(1)] Cons.prems(4) by (metis append_Cons)
  obtain b1 where b1: "us_block s1 = Some b1" "ub_leader b1 = ub_leader b" "ub_payload b1 = ub_payload b @ d"
    using a(3) r(6) by metis
  have c1: "cursor_now s1 = snd (slot (us_layout s) (cursor_now s))"
    using absorb_due [OF a(1), of t] cursor_now_cong [OF r(6)] r(4) by simp
  obtain s' b' where ih: "next_frame_within (length ds + k) B idle s1 = next_frame_within k B idle s'"
    "on_plan requests s'" "us_ready s' = []" "us_in_flight s' = us_in_flight s1" "us_layout s' = us_layout s1"
    "arriving (us_queue s') = rest" "us_block s' = Some b'" "ub_leader b' = ub_leader b1"
    "ub_payload b' = ub_payload b1 @ concat ds" "cursor_now s' = AtTrailer"
    using Cons.IH [of s1 b1] r(2,3,4,5,7) a(2,4) b1(1) c1 Cons.prems(2,3) by auto
  show ?case
    using ih r(4,5) b1(2,3) round_continues [OF r(1), of "length ds + k"]
    by (intro exI [of _ s'] exI [of _ b']) simp
qed

lemma block_rounds:
  assumes "on_plan requests s" "us_ready s = []" "1 \<le> us_in_flight s" "us_block s = None"
    "arriving (us_queue s) = opening # pieces @ closing # rest"
    "as_leader (us_layout s) opening = Some ld" "as_trailer (us_layout s) closing = Some tr"
    "ut_block_id tr = ul_block_id ld" "cuts (us_layout s) (snd (slot (us_layout s) AtLeader)) pieces"
  shows "\<exists>s'. next_frame_within (length pieces + 3) B idle s =
      (Ok (Some (Some \<lparr>rf_leader = ld, rf_payload = take (unat (ut_valid_payload_size tr)) (concat pieces),
         rf_trailer = Some tr\<rparr>)), s') \<and>
    on_plan requests s' \<and> us_ready s' = [] \<and> us_block s' = None \<and> us_in_flight s' = us_in_flight s \<and>
    us_layout s' = us_layout s \<and> arriving (us_queue s') = rest"
proof -
  let ?l = "us_layout s"
  have c: "cursor_now s = AtLeader" by (simp add: cursor_now_def assms(4))
  have "length opening \<le> unat (sl_leader_size ?l)"
    using assms(6) by (cases "framing_size opening LEADER_PREFIX") (auto simp: as_leader_def split: if_splits)
  then have due: "due_now s opening" using assms(6) by (simp add: due_now_def c slot_def)
  obtain s1 t where r: "frame_round B idle s = (Ok None, s1)" "on_plan requests s1"
    "arriving (us_queue s1) = pieces @ closing # rest" "us_layout s1 = ?l" "us_in_flight s1 = us_in_flight s"
    "us_block s1 = us_block (absorb t opening (fst (slot ?l (cursor_now s))) s)"
    "us_ready s1 = us_ready (absorb t opening (fst (slot ?l (cursor_now s))) s)"
    using frame_round_due [OF assms(1-3,5) due] by metis
  have b1: "us_block s1 = Some \<lparr>ub_leader = ld, ub_payload = [], ub_ended = (payload_capacity ?l = 0), ub_last = t\<rparr>"
    "us_ready s1 = []"
    using r(6,7) assms(2,4,6) by (simp_all add: absorb_def open_block_def)
  have c1: "cursor_now s1 = snd (slot ?l AtLeader)"
    using absorb_due [OF due, of t] cursor_now_cong [OF r(6)] r(4) c by simp
  obtain s2 b2 where p: "next_frame_within (length pieces + Suc (Suc 0)) B idle s1 = next_frame_within (Suc (Suc 0)) B idle s2"
    "on_plan requests s2" "us_ready s2 = []" "us_in_flight s2 = us_in_flight s1" "us_layout s2 = us_layout s1"
    "arriving (us_queue s2) = closing # rest" "us_block s2 = Some b2" "ub_leader b2 = ld"
    "ub_payload b2 = concat pieces" "cursor_now s2 = AtTrailer"
    using payload_rounds [OF r(2) b1(2) _ r(3) b1(1), of "Suc (Suc 0)" idle] assms(3,9) r(4,5) c1 by auto
  have "length closing \<le> unat (sl_trailer_size ?l)"
    using assms(7) by (cases "framing_size closing TRAILER_PREFIX") (auto simp: as_trailer_def split: if_splits)
  then have due2: "due_now s2 closing"
    using assms(7) trailer_no_leader [OF assms(7)] r(4) p(5) by (simp add: due_now_def p(10) slot_def)
  obtain s3 t3 where q: "frame_round B idle s2 = (Ok None, s3)" "on_plan requests s3" "arriving (us_queue s3) = rest"
    "us_layout s3 = us_layout s2" "us_in_flight s3 = us_in_flight s2"
    "us_block s3 = us_block (absorb t3 closing (fst (slot (us_layout s2) (cursor_now s2))) s2)"
    "us_ready s3 = us_ready (absorb t3 closing (fst (slot (us_layout s2) (cursor_now s2))) s2)"
    using frame_round_due [OF p(2,3) _ p(6) due2] p(4) r(5) assms(3) by metis
  let ?f = "\<lparr>rf_leader = ld, rf_payload = take (unat (ut_valid_payload_size tr)) (concat pieces), rf_trailer = Some tr\<rparr>"
  have b3: "us_block s3 = None" "us_ready s3 = [?f]"
    using q(6,7) assms(7,8) trailer_no_leader [OF assms(7)] r(4) p(3,5,7,8,9)
    by (simp_all add: absorb_def finish_block_def)
  have "next_frame_within (Suc 0) B idle s3 = (Ok (Some (Some ?f)), s3\<lparr>us_ready := []\<rparr>)"
    by (simp add: frame_round_def b3)
  then have e: "next_frame_within (length pieces + 3) B idle s = (Ok (Some (Some ?f)), s3\<lparr>us_ready := []\<rparr>)"
    using p(1) round_continues [OF r(1), of "length pieces + Suc (Suc 0)"] round_continues [OF q(1), of "Suc 0"]
    by (simp add: numeral_3_eq_3 del: next_frame_within.simps)
  have "cursor_now (s3\<lparr>us_ready := []\<rparr>) = cursor_now s3" by (rule cursor_now_cong) simp_all
  then have "on_plan requests (s3\<lparr>us_ready := []\<rparr>)" using q(2) by (simp add: on_plan_def)
  then show ?thesis using e b3(1) q(3,4,5) p(4,5) r(4,5) by auto
qed

end

text \<open>
  C31. A block sent as the layout cuts it is delivered as it was sent: on an endpoint whose reads complete
  in order, however many transfers are in flight, the leader, the pieces of the payload and the trailer
  come back as one frame with exactly the valid bytes, and the stream is where it began for the next block.
\<close>
theorem block_delivered:
  assumes "bulk_endpoint B requests arriving"
    "on_plan requests s" "us_ready s = []" "1 \<le> us_in_flight s" "us_block s = None"
    "arriving (us_queue s) = opening # pieces @ closing # rest"
    "as_leader (us_layout s) opening = Some ld" "as_trailer (us_layout s) closing = Some tr"
    "ut_block_id tr = ul_block_id ld" "cuts (us_layout s) (snd (slot (us_layout s) AtLeader)) pieces"
  shows "\<exists>s'. next_frame_within (length pieces + 3) B idle s =
      (Ok (Some (Some \<lparr>rf_leader = ld, rf_payload = take (unat (ut_valid_payload_size tr)) (concat pieces),
         rf_trailer = Some tr\<rparr>)), s') \<and>
    on_plan requests s' \<and> us_ready s' = [] \<and> us_block s' = None \<and> us_in_flight s' = us_in_flight s \<and>
    us_layout s' = us_layout s \<and> arriving (us_queue s') = rest"
  by (rule bulk_endpoint.block_rounds [OF assms])

definition small_layout :: stream_layout where
  "small_layout = \<lparr>sl_payload_size = 3, sl_leader_size = 20, sl_trailer_size = 28, sl_transfer_size = 2,
     sl_transfer_count = 1, sl_final1 = 2, sl_final2 = 0\<rparr>"

definition small_leader :: bytes where
  "small_leader = [0x55, 0x33, 0x56, 0x4C, 0, 0, 20, 0, 7, 0, 0, 0, 0, 0, 0, 0, 0, 0, 0, 0x40]"

definition small_trailer :: bytes where
  "small_trailer = [0x55, 0x33, 0x56, 0x54, 0, 0, 28, 0, 7, 0, 0, 0, 0, 0, 0, 0, 0, 0, 0, 0, 3, 0, 0, 0, 0, 0, 0, 0]"

definition small_queue :: "mock_usb unqueued" where
  "small_queue = unqueued_new (mock_enqueue 1 (Ok small_trailer) (mock_enqueue 1 (Ok [3])
     (mock_enqueue 1 (Ok [1, 2]) (mock_enqueue 1 (Ok small_leader) mock_new))))"

lemma small_leader_parsed:
  "as_leader small_layout small_leader = Some \<lparr>ul_block_id = 7, ul_payload_type = 0x4000, ul_timestamp = 0,
     ul_pixel_format = 0, ul_width = 0, ul_height = 0, ul_x_offset = 0, ul_y_offset = 0, ul_x_padding = 0\<rparr>"
  by (simp add: as_leader_def framing_size_def small_leader_def small_layout_def subslice_def le_word_def be_word_def
      be_nat_def LEADER_PREFIX_def GENERIC_LEADER_SIZE_def u3v_parse_leader_def le_at_def U3V_PAYLOAD_TYPE_IMAGE_def
      U3V_PAYLOAD_TYPE_IMAGE_EXTENDED_CHUNK_def Let_def)

lemma small_trailer_parsed:
  "as_trailer small_layout small_trailer =
     Some \<lparr>ut_block_id = 7, ut_status = 0, ut_valid_payload_size = 3, ut_size_y = None\<rparr>"
  by (simp add: as_trailer_def framing_size_def small_trailer_def small_layout_def subslice_def le_word_def be_word_def
      be_nat_def TRAILER_PREFIX_def MIN_TRAILER_SIZE_def u3v_parse_trailer_def le_at_def Let_def)

lemma small_cuts: "cuts small_layout (snd (slot small_layout AtLeader)) [[1, 2], [3]]"
  by (simp add: slot_def payload_capacity_def small_layout_def as_leader_def as_trailer_def framing_size_def
      subslice_def Let_def)

lemma block_delivered_witness:
  "\<exists>f s'. next_frame_within 5 (unqueued_bulk_in mock_transfer 1) 0 (u3v_stream_new small_queue small_layout) = (Ok (Some (Some f)), s') \<and>
     rf_payload f = [1, 2, 3]"
proof -
  let ?s = "u3v_stream_new small_queue small_layout"
  have a: "mock_arriving 1 (us_queue ?s) = small_leader # [[1, 2], [3]] @ small_trailer # []"
    by (simp add: u3v_stream_new_def small_queue_def unqueued_new_def mock_arriving_def mock_enqueue_def mock_new_def)
  have p: "on_plan uq_requested ?s" "us_ready ?s = []" "1 \<le> us_in_flight ?s" "us_block ?s = None" "us_layout ?s = small_layout"
    by (simp_all add: u3v_stream_new_def on_plan_def cursor_now_def small_queue_def unqueued_new_def
        DEFAULT_TRANSFERS_IN_FLIGHT_def)
  have len: "length [[1, 2], [3 :: byte]] + 3 = 5" by simp
  show ?thesis
    using block_delivered [OF mock_endpoint.bulk_endpoint_axioms p(1-4) a, unfolded p(5) len,
        OF small_leader_parsed small_trailer_parsed _ small_cuts]
    by force
qed

section \<open>Frames\<close>

text \<open>A frame is within the layout, and a complete one is its leader's block and no longer than its trailer says.\<close>

definition frame_ok :: "stream_layout \<Rightarrow> raw_frame \<Rightarrow> bool" where
  "frame_ok l f \<longleftrightarrow> length (rf_payload f) \<le> payload_capacity l \<and>
     (case rf_trailer f of
        None \<Rightarrow> True
      | Some tr \<Rightarrow> ut_block_id tr = ul_block_id (rf_leader f) \<and> length (rf_payload f) \<le> unat (ut_valid_payload_size tr))"

definition sound :: "stream_layout \<Rightarrow> 'q u3v_stream \<Rightarrow> bool" where
  "sound l s \<longleftrightarrow> us_layout s = l \<and> list_all (frame_ok l) (us_ready s) \<and>
     (case us_block s of None \<Rightarrow> True | Some b \<Rightarrow> length (ub_payload b) \<le> payload_capacity l)"

lemma sound_cong:
  "us_layout s = us_layout s' \<Longrightarrow> us_ready s = us_ready s' \<Longrightarrow> us_block s = us_block s' \<Longrightarrow> sound l s = sound l s'"
  by (simp add: sound_def)

lemma sound_simps [simp]:
  "sound l (tally f s) = sound l s" "sound l (set_queue q s) = sound l s" "sound l (s\<lparr>us_queue := q\<rparr>) = sound l s"
  "sound l (s\<lparr>us_planned := ps\<rparr>) = sound l s" "sound l (s\<lparr>us_next := c\<rparr>) = sound l s"
  "sound l (s\<lparr>us_failures := n\<rparr>) = sound l s"
  by (simp_all add: sound_def set_queue_def)

lemma sound_abandon: "sound l s \<Longrightarrow> sound l (abandon s)"
  by (auto simp: sound_def abandon_def frame_ok_def tally_def split: option.split)

lemma sound_absorb:
  assumes "sound l s"
  shows "sound l (absorb t d n s)"
proof -
  have o: "sound l (open_block t ld s')" if "sound l s'" for ld s'
    using that by (simp add: sound_def open_block_def)
  have f: "sound l (finish_block tr s)" for tr
    using assms sound_abandon [OF assms] by (auto simp: sound_def finish_block_def frame_ok_def split: option.splits)
  have p: "sound l (add_payload t d n b s)" if "us_block s = Some b" for b
    using assms that by (auto simp: sound_def add_payload_def Let_def)
  show ?thesis
    using assms o sound_abandon [OF assms] f p unfolding absorb_def by (auto split: option.split prod.split)
qed

lemma sound_fill_loop: "sound l s \<Longrightarrow> sound l (fill_loop k B s)"
  by (induction k arbitrary: s) (auto split: prod.split)

lemma sound_recover: "sound l s \<Longrightarrow> sound l (snd (recover B e s))"
  by (auto simp: recover_def Let_def intro!: sound_abandon split: prod.split result.split)

lemma sound_complete: "sound l s \<Longrightarrow> sound l (snd (complete_transfer B c n cancelling s))"
  by (auto simp: complete_transfer_def taken_def intro!: sound_recover sound_absorb split: result.split u3v_error.split)

lemma sound_bind:
  "sound l (snd m) \<Longrightarrow> (\<And>v s. fst m = Ok v \<Longrightarrow> s = snd m \<Longrightarrow> sound l (snd (k v s))) \<Longrightarrow> sound l (snd (bind m k))"
  by (cases m; cases "fst m") auto

lemma sound_replan_loop: "sound l s \<Longrightarrow> sound l (snd (replan_loop k B s))"
proof (induction k arbitrary: s)
  case (Suc k)
  show ?case
    using Suc.prems
    by (auto simp: Let_def intro!: sound_bind sound_complete Suc.IH split: prod.split option.split)
qed simp

lemma sound_replan: "sound l s \<Longrightarrow> sound l (snd (replan B s))"
  by (auto simp: replan_def Let_def intro!: sound_bind sound_replan_loop)

lemma sound_frame_round:
  assumes "sound l s"
  shows "sound l (snd (frame_round B idle s))" "fst (frame_round B idle s) = Ok (Some (Some f)) \<Longrightarrow> frame_ok l f"
proof -
  have f: "sound l (fill B s)" unfolding fill_def by (rule sound_fill_loop [OF assms])
  show "sound l (snd (frame_round B idle s))"
  proof (cases "us_ready s")
    case Nil
    then show ?thesis using f
      by (auto simp: frame_round_def Let_def intro!: sound_bind sound_complete sound_replan sound_abandon
          split: list.split prod.split option.split)
  next
    case Cons
    then show ?thesis using assms by (simp add: frame_round_def sound_def)
  qed
  have b: "fst (bind m (\<lambda>_ s. case us_planned s of [] \<Rightarrow> (Ok None, s\<lparr>us_next := cursor_now s\<rparr>)
      | p # _ \<Rightarrow> if fst p \<noteq> cursor_now s then bind (replan B s) (\<lambda>_ s. (Ok None, s)) else (Ok None, s))) \<noteq>
      Ok (Some (Some f))" for m :: "(unit, u3v_error) result \<times> 'a u3v_stream"
    by (auto simp: bind_def split: prod.split result.split list.split)
  assume "fst (frame_round B idle s) = Ok (Some (Some f))"
  then show "frame_ok l f"
    using assms b
    by (auto simp: frame_round_def Let_def sound_def split: list.splits prod.splits option.splits if_splits)
qed

lemma sound_next_frame:
  assumes "sound l s"
  shows "sound l (snd (next_frame_within k B idle s)) \<and>
    (fst (next_frame_within k B idle s) = Ok (Some (Some f)) \<longrightarrow> frame_ok l f)"
  using assms
proof (induction k arbitrary: s)
  case (Suc k)
  note r = sound_frame_round [OF Suc.prems, of B idle]
  show ?case using r Suc.IH
    by (cases "frame_round B idle s"; cases "fst (frame_round B idle s)") (auto split: option.split)
qed simp

text \<open>The frames that a series of calls hands out.\<close>

primrec collect :: "nat \<Rightarrow> 'q bulk_in \<Rightarrow> duration list \<Rightarrow> 'q u3v_stream \<Rightarrow> raw_frame list" where
  "collect k B [] s = []"
| "collect k B (idle # idles) s =
     (let (r, s') = next_frame_within k B idle s in
      (case r of Ok (Some (Some f)) \<Rightarrow> [f] | _ \<Rightarrow> []) @ collect k B idles s')"

lemma collect_ok: "sound l s \<Longrightarrow> list_all (frame_ok l) (collect k B idles s)"
proof (induction idles arbitrary: s)
  case (Cons idle idles)
  then show ?case
    using sound_next_frame [OF Cons.prems, of k B idle]
    by (auto split: prod.split result.split option.split)
qed simp

text \<open>
  C33. Whatever the endpoint does - transfers that fail, come late, are cancelled, carry other bytes than
  planned - every frame a stream hands out fits its layout, and one with a trailer is of the block its
  leader opened and no longer than the trailer's valid size.
\<close>
theorem frames_always_consistent:
  "list_all (frame_ok layout) (collect k B idles (u3v_stream_new q layout))"
  by (rule collect_ok) (simp add: sound_def u3v_stream_new_def)

end
