(* ===== verification/Fake_U3v_Registers.thy ===== *)
theory Fake_U3v_Registers
  imports U3v_Wire "HOL-Library.AList"
begin

text \<open>
  The register map of the in-process USB3 Vision camera
  (\<^verbatim>\<open>crates/viva-fake-u3v/src/registers.rs\<close>): blocks of bytes by base address, the ranges a host may
  not write, the bootstrap registers at the offsets of \<^verbatim>\<open>viva-u3v/src/bootstrap.rs\<close> and the features.

  Addresses are numbers: no block lies near \<open>2 ^ 64\<close>, and the code stops at the first unmapped byte of a
  range, before an address could wrap. Blocks are kept in a list where the code has a hash map; they do
  not overlap, so the order a lookup takes does not matter. The embedded GenApi document is a parameter.
\<close>

section \<open>Addresses\<close>

definition FU_REG_WIDTH :: nat where "FU_REG_WIDTH = 0x20000"
definition FU_REG_HEIGHT :: nat where "FU_REG_HEIGHT = 0x20004"
definition FU_REG_PIXEL_FORMAT :: nat where "FU_REG_PIXEL_FORMAT = 0x20008"
definition FU_REG_SENSOR_WIDTH :: nat where "FU_REG_SENSOR_WIDTH = 0x20014"
definition FU_REG_SENSOR_HEIGHT :: nat where "FU_REG_SENSOR_HEIGHT = 0x20018"
definition FU_REG_ACQ_MODE :: nat where "FU_REG_ACQ_MODE = 0x20020"
definition FU_REG_ACQ_START :: nat where "FU_REG_ACQ_START = 0x20024"
definition FU_REG_ACQ_STOP :: nat where "FU_REG_ACQ_STOP = 0x20028"
definition FU_REG_ACQ_FRAME_RATE :: nat where "FU_REG_ACQ_FRAME_RATE = 0x2002c"
definition FU_REG_EXPOSURE_TIME :: nat where "FU_REG_EXPOSURE_TIME = 0x20030"
definition FU_REG_PAYLOAD_SIZE :: nat where "FU_REG_PAYLOAD_SIZE = 0x20048"
definition FU_REG_DEVICE_MODEL :: nat where "FU_REG_DEVICE_MODEL = 0x20200"
definition FU_REG_DEVICE_VENDOR :: nat where "FU_REG_DEVICE_VENDOR = 0x20220"
definition FU_REG_ACTION_DEVICE_KEY :: nat where "FU_REG_ACTION_DEVICE_KEY = 0x20040"
definition FU_REG_TRIGGER_SOFTWARE :: nat where "FU_REG_TRIGGER_SOFTWARE = 0x20044"
definition FU_REG_CHUNK_MODE_ACTIVE :: nat where "FU_REG_CHUNK_MODE_ACTIVE = 0x20050"
definition FU_REG_CHUNK_SELECTOR :: nat where "FU_REG_CHUNK_SELECTOR = 0x20054"
definition FU_REG_CHUNK_ENABLE :: nat where "FU_REG_CHUNK_ENABLE = 0x20058"
definition FU_REG_EVENT_SELECTOR :: nat where "FU_REG_EVENT_SELECTOR = 0x20060"
definition FU_REG_EVENT_NOTIFICATION :: nat where "FU_REG_EVENT_NOTIFICATION = 0x20064"
definition FU_CHUNK_ID_IMAGE :: u32 where "FU_CHUNK_ID_IMAGE = 0x11223344"
definition FU_CHUNK_ID_TIMESTAMP :: u32 where "FU_CHUNK_ID_TIMESTAMP = 0x1001"
definition FU_CHUNK_ID_FRAME_ID :: u32 where "FU_CHUNK_ID_FRAME_ID = 0x1002"
definition FU_EVENT_ID_EXPOSURE_END :: u16 where "FU_EVENT_ID_EXPOSURE_END = 0x9001"
definition FU_XML_BLOB_BASE :: nat where "FU_XML_BLOB_BASE = 0x10000"
definition FU_ABRM_GENCP_VERSION :: nat where "FU_ABRM_GENCP_VERSION = 0x0"
definition FU_ABRM_MANUFACTURER_NAME :: nat where "FU_ABRM_MANUFACTURER_NAME = 0x4"
definition FU_ABRM_MODEL_NAME :: nat where "FU_ABRM_MODEL_NAME = 0x44"
definition FU_ABRM_FAMILY_NAME :: nat where "FU_ABRM_FAMILY_NAME = 0x84"
definition FU_ABRM_DEVICE_VERSION :: nat where "FU_ABRM_DEVICE_VERSION = 0xc4"
definition FU_ABRM_MANUFACTURER_INFO :: nat where "FU_ABRM_MANUFACTURER_INFO = 0x104"
definition FU_ABRM_SERIAL_NUMBER :: nat where "FU_ABRM_SERIAL_NUMBER = 0x144"
definition FU_ABRM_USER_DEFINED_NAME :: nat where "FU_ABRM_USER_DEFINED_NAME = 0x184"
definition FU_ABRM_DEVICE_CAPABILITY :: nat where "FU_ABRM_DEVICE_CAPABILITY = 0x1c4"
definition FU_ABRM_MAX_DEVICE_RESPONSE_TIME :: nat where "FU_ABRM_MAX_DEVICE_RESPONSE_TIME = 0x1cc"
definition FU_ABRM_MANIFEST_TABLE_ADDRESS :: nat where "FU_ABRM_MANIFEST_TABLE_ADDRESS = 0x1d0"
definition FU_ABRM_SBRM_ADDRESS :: nat where "FU_ABRM_SBRM_ADDRESS = 0x1d8"
definition FU_ABRM_DEVICE_CONFIGURATION :: nat where "FU_ABRM_DEVICE_CONFIGURATION = 0x1e0"
definition FU_ABRM_HEARTBEAT_TIMEOUT :: nat where "FU_ABRM_HEARTBEAT_TIMEOUT = 0x1e8"
definition FU_ABRM_MESSAGE_CHANNEL_ID :: nat where "FU_ABRM_MESSAGE_CHANNEL_ID = 0x1ec"
definition FU_ABRM_ACCESS_PRIVILEGE :: nat where "FU_ABRM_ACCESS_PRIVILEGE = 0x204"
definition FU_ABRM_IMPLEMENTATION_ENDIANNESS :: nat where "FU_ABRM_IMPLEMENTATION_ENDIANNESS = 0x20c"
definition FU_ABRM_TIMESTAMP :: nat where "FU_ABRM_TIMESTAMP = 0x1f0"
definition FU_ABRM_TIMESTAMP_LATCH :: nat where "FU_ABRM_TIMESTAMP_LATCH = 0x1f8"
definition FU_ABRM_TIMESTAMP_INCREMENT :: nat where "FU_ABRM_TIMESTAMP_INCREMENT = 0x1fc"
definition FU_DEVICE_CAPABILITY :: u64 where "FU_DEVICE_CAPABILITY = 0xf19"
definition FU_SBRM_BASE :: nat where "FU_SBRM_BASE = 0x100000000"
definition FU_SBRM_U3V_VERSION :: nat where "FU_SBRM_U3V_VERSION = 0x100000000"
definition FU_SBRM_U3VCP_CAPABILITY :: nat where "FU_SBRM_U3VCP_CAPABILITY = 0x100000004"
definition FU_SBRM_U3VCP_CONFIGURATION :: nat where "FU_SBRM_U3VCP_CONFIGURATION = 0x10000000c"
definition FU_SBRM_MAX_CMD_TRANSFER :: nat where "FU_SBRM_MAX_CMD_TRANSFER = 0x100000014"
definition FU_SBRM_MAX_ACK_TRANSFER :: nat where "FU_SBRM_MAX_ACK_TRANSFER = 0x100000018"
definition FU_SBRM_NUM_STREAM_CHANNELS :: nat where "FU_SBRM_NUM_STREAM_CHANNELS = 0x10000001c"
definition FU_SBRM_SIRM_ADDRESS :: nat where "FU_SBRM_SIRM_ADDRESS = 0x100000020"
definition FU_SBRM_SIRM_LENGTH :: nat where "FU_SBRM_SIRM_LENGTH = 0x100000028"
definition FU_SBRM_EIRM_ADDRESS :: nat where "FU_SBRM_EIRM_ADDRESS = 0x10000002c"
definition FU_SBRM_EIRM_LENGTH :: nat where "FU_SBRM_EIRM_LENGTH = 0x100000034"
definition FU_SBRM_IIDC2_ADDRESS :: nat where "FU_SBRM_IIDC2_ADDRESS = 0x100000038"
definition FU_SBRM_CURRENT_SPEED :: nat where "FU_SBRM_CURRENT_SPEED = 0x100000040"
definition FU_SIRM_BASE :: nat where "FU_SIRM_BASE = 0x200000000"
definition FU_SIRM_INFO :: nat where "FU_SIRM_INFO = 0x200000000"
definition FU_SIRM_CONTROL :: nat where "FU_SIRM_CONTROL = 0x200000004"
definition FU_SIRM_REQUIRED_PAYLOAD_SIZE :: nat where "FU_SIRM_REQUIRED_PAYLOAD_SIZE = 0x200000008"
definition FU_SIRM_REQUIRED_LEADER_SIZE :: nat where "FU_SIRM_REQUIRED_LEADER_SIZE = 0x200000010"
definition FU_SIRM_REQUIRED_TRAILER_SIZE :: nat where "FU_SIRM_REQUIRED_TRAILER_SIZE = 0x200000014"
definition FU_SIRM_MAX_LEADER_SIZE :: nat where "FU_SIRM_MAX_LEADER_SIZE = 0x200000018"
definition FU_SIRM_PAYLOAD_TRANSFER_SIZE :: nat where "FU_SIRM_PAYLOAD_TRANSFER_SIZE = 0x20000001c"
definition FU_SIRM_PAYLOAD_TRANSFER_COUNT :: nat where "FU_SIRM_PAYLOAD_TRANSFER_COUNT = 0x200000020"
definition FU_SIRM_FINAL_TRANSFER1_SIZE :: nat where "FU_SIRM_FINAL_TRANSFER1_SIZE = 0x200000024"
definition FU_SIRM_FINAL_TRANSFER2_SIZE :: nat where "FU_SIRM_FINAL_TRANSFER2_SIZE = 0x200000028"
definition FU_SIRM_MAX_TRAILER_SIZE :: nat where "FU_SIRM_MAX_TRAILER_SIZE = 0x20000002c"
definition FU_EIRM_BASE :: nat where "FU_EIRM_BASE = 0x200001000"
definition FU_EIRM_CONTROL :: nat where "FU_EIRM_CONTROL = 0x200001000"
definition FU_EIRM_MAXIMUM_EVENT_TRANSFER_LENGTH :: nat where "FU_EIRM_MAXIMUM_EVENT_TRANSFER_LENGTH = 0x200001004"
definition FU_EIRM_EVENT_TEST_CONTROL :: nat where "FU_EIRM_EVENT_TEST_CONTROL = 0x200001008"
definition FU_MAX_EVENT_TRANSFER :: u32 where "FU_MAX_EVENT_TRANSFER = 0x400"
definition FU_SUPERSPEED :: u32 where "FU_SUPERSPEED = 8"
definition FU_HIGH_SPEED :: u32 where "FU_HIGH_SPEED = 4"
definition FU_SIRM_ALIGNMENT_EXPONENT :: u32 where "FU_SIRM_ALIGNMENT_EXPONENT = 10"
definition FU_LEADER_SIZE :: u32 where "FU_LEADER_SIZE = 52"
definition FU_TRAILER_SIZE :: u32 where "FU_TRAILER_SIZE = 32"
definition FU_MANIFEST_TABLE :: nat where "FU_MANIFEST_TABLE = 0x300000000"

definition FU_WRITE_ONLY_REGISTERS :: "nat list" where
  "FU_WRITE_ONLY_REGISTERS = [FU_REG_ACQ_START, FU_REG_ACQ_STOP, FU_REG_ACTION_DEVICE_KEY, FU_ABRM_TIMESTAMP_LATCH]"

lemmas fu_write_only_defs =
  FU_WRITE_ONLY_REGISTERS_def FU_REG_ACQ_START_def FU_REG_ACQ_STOP_def FU_REG_ACTION_DEVICE_KEY_def
  FU_ABRM_TIMESTAMP_LATCH_def

section \<open>The map\<close>

record u3v_registers =
  fu_regs :: "(nat \<times> bytes) list"
  fu_read_only :: "(nat \<times> nat) list"

definition fu_insert :: "nat \<Rightarrow> bytes \<Rightarrow> u3v_registers \<Rightarrow> u3v_registers" where
  "fu_insert addr data rm = rm\<lparr>fu_regs := AList.update addr data (fu_regs rm)\<rparr>"

definition fu_write_u32 :: "nat \<Rightarrow> u32 \<Rightarrow> u3v_registers \<Rightarrow> u3v_registers" where
  "fu_write_u32 addr v = fu_insert addr (put_le 4 (unat v))"

definition fu_write_u64 :: "nat \<Rightarrow> u64 \<Rightarrow> u3v_registers \<Rightarrow> u3v_registers" where
  "fu_write_u64 addr v = fu_insert addr (put_le 8 (unat v))"

definition fu_write_string :: "nat \<Rightarrow> string \<Rightarrow> nat \<Rightarrow> u3v_registers \<Rightarrow> u3v_registers" where
  "fu_write_string addr text most =
     fu_insert addr (resize most 0 (take (most - 1) (map (\<lambda>c. of_char c :: byte) text)))"

text \<open>The block an address falls into.\<close>

definition fu_block_of :: "u3v_registers \<Rightarrow> nat \<Rightarrow> (nat \<times> bytes) option" where
  "fu_block_of rm a = find (\<lambda>(base, data). base \<le> a \<and> a < base + length data) (fu_regs rm)"

definition fu_is_mapped :: "u3v_registers \<Rightarrow> nat \<Rightarrow> nat \<Rightarrow> bool" where
  "fu_is_mapped rm addr len = list_all (\<lambda>i. fu_block_of rm (addr + i) \<noteq> None) [0..<len]"

definition fu_is_write_only :: "nat \<Rightarrow> nat \<Rightarrow> bool" where
  "fu_is_write_only addr len = list_ex (\<lambda>r. r < addr + len \<and> addr < r + 4) FU_WRITE_ONLY_REGISTERS"

definition fu_is_read_only :: "u3v_registers \<Rightarrow> nat \<Rightarrow> nat \<Rightarrow> bool" where
  "fu_is_read_only rm addr len \<longleftrightarrow>
     list_ex (\<lambda>(s, e). addr < e \<and> s < addr + len) (fu_read_only rm) \<or>
     (addr < FU_REG_PAYLOAD_SIZE + 4 \<and> FU_REG_PAYLOAD_SIZE < addr + len)"

definition fu_read_byte :: "u3v_registers \<Rightarrow> nat \<Rightarrow> byte" where
  "fu_read_byte rm a = (case fu_block_of rm a of Some (base, data) \<Rightarrow> data ! (a - base) | None \<Rightarrow> 0)"

definition fu_read :: "u3v_registers \<Rightarrow> nat \<Rightarrow> nat \<Rightarrow> bytes" where
  "fu_read rm addr len = map (\<lambda>i. fu_read_byte rm (addr + i)) [0..<len]"

definition fu_read_u32 :: "u3v_registers \<Rightarrow> nat \<Rightarrow> u32" where
  "fu_read_u32 rm addr = le_word (fu_read rm addr 4)"

section \<open>What the registers say\<close>

definition fu_payload_bytes :: "u32 \<Rightarrow> u32 \<Rightarrow> u32 \<Rightarrow> u64" where
  "fu_payload_bytes width height pixel_format =
     word_of_nat (div_ceil (unat (ucast width * ucast height * ucast (drop_bit 16 pixel_format AND 0xFF) :: u64)) 8)"

definition fu_width :: "u3v_registers \<Rightarrow> u32" where "fu_width rm = fu_read_u32 rm FU_REG_WIDTH"
definition fu_height :: "u3v_registers \<Rightarrow> u32" where "fu_height rm = fu_read_u32 rm FU_REG_HEIGHT"
definition fu_pixel_format :: "u3v_registers \<Rightarrow> u32" where "fu_pixel_format rm = fu_read_u32 rm FU_REG_PIXEL_FORMAT"

definition fu_chunk_mode :: "u3v_registers \<Rightarrow> bool" where
  "fu_chunk_mode rm \<longleftrightarrow> fu_read_u32 rm FU_REG_CHUNK_MODE_ACTIVE AND 1 \<noteq> 0"

definition fu_enabled_chunks :: "u3v_registers \<Rightarrow> u32 list" where
  "fu_enabled_chunks rm =
     map snd (filter (\<lambda>(i, _). fu_read_u32 rm (FU_REG_CHUNK_ENABLE + 4 * i) AND 1 \<noteq> 0)
       [(0, FU_CHUNK_ID_TIMESTAMP), (1, FU_CHUNK_ID_FRAME_ID)])"

definition fu_payload_size :: "u3v_registers \<Rightarrow> u64" where
  "fu_payload_size rm =
     (let image = fu_payload_bytes (fu_width rm) (fu_height rm) (fu_pixel_format rm) in
      if \<not> fu_chunk_mode rm then image else image + 8 + 16 * word_of_nat (length (fu_enabled_chunks rm)))"

definition fu_events_enabled :: "u3v_registers \<Rightarrow> bool" where
  "fu_events_enabled rm \<longleftrightarrow> fu_read_u32 rm FU_EIRM_CONTROL AND 1 \<noteq> 0"

definition fu_exposure_end_notification :: "u3v_registers \<Rightarrow> bool" where
  "fu_exposure_end_notification rm \<longleftrightarrow> fu_read_u32 rm FU_REG_EVENT_NOTIFICATION = 1"

definition fu_stream_enabled :: "u3v_registers \<Rightarrow> bool" where
  "fu_stream_enabled rm \<longleftrightarrow> fu_read_u32 rm FU_SIRM_CONTROL AND 1 \<noteq> 0"

record host_layout =
  hl_max_leader_size :: u32
  hl_transfer_size :: u32
  hl_transfer_count :: u32
  hl_final1 :: u32
  hl_final2 :: u32
  hl_max_trailer_size :: u32

definition fu_host_layout :: "u3v_registers \<Rightarrow> host_layout" where
  "fu_host_layout rm =
     \<lparr>hl_max_leader_size = fu_read_u32 rm FU_SIRM_MAX_LEADER_SIZE,
      hl_transfer_size = fu_read_u32 rm FU_SIRM_PAYLOAD_TRANSFER_SIZE,
      hl_transfer_count = fu_read_u32 rm FU_SIRM_PAYLOAD_TRANSFER_COUNT,
      hl_final1 = fu_read_u32 rm FU_SIRM_FINAL_TRANSFER1_SIZE,
      hl_final2 = fu_read_u32 rm FU_SIRM_FINAL_TRANSFER2_SIZE,
      hl_max_trailer_size = fu_read_u32 rm FU_SIRM_MAX_TRAILER_SIZE\<rparr>"

section \<open>Writing\<close>

definition fu_sync_payload_size :: "u3v_registers \<Rightarrow> u3v_registers" where
  "fu_sync_payload_size rm =
     (let size = fu_payload_size rm in
      fu_write_u64 FU_SIRM_REQUIRED_PAYLOAD_SIZE size (fu_write_u32 FU_REG_PAYLOAD_SIZE (ucast size) rm))"

definition fu_put_byte :: "nat \<Rightarrow> byte \<Rightarrow> u3v_registers \<Rightarrow> u3v_registers" where
  "fu_put_byte a b rm =
     (case fu_block_of rm a of
        None \<Rightarrow> rm
      | Some (base, data) \<Rightarrow> rm\<lparr>fu_regs := AList.update base (data[a - base := b]) (fu_regs rm)\<rparr>)"

definition fu_put_bytes :: "nat \<Rightarrow> bytes \<Rightarrow> u3v_registers \<Rightarrow> u3v_registers" where
  "fu_put_bytes addr data rm = fold (\<lambda>(i, b). fu_put_byte (addr + i) b) (enumerate 0 data) rm"

definition fu_write :: "nat \<Rightarrow> bytes \<Rightarrow> u3v_registers \<Rightarrow> u3v_registers" where
  "fu_write addr data rm = fu_sync_payload_size (fu_put_bytes addr data rm)"

definition fu_latch_timestamp :: "u64 \<Rightarrow> u3v_registers \<Rightarrow> u3v_registers" where
  "fu_latch_timestamp ns = fu_write_u64 FU_ABRM_TIMESTAMP ns"

definition fu_set_current_speed :: "u32 \<Rightarrow> u3v_registers \<Rightarrow> u3v_registers" where
  "fu_set_current_speed bits = fu_write_u32 FU_SBRM_CURRENT_SPEED bits"

section \<open>A new camera\<close>

definition fu_protect :: "(nat \<times> nat) list \<Rightarrow> u3v_registers \<Rightarrow> u3v_registers" where
  "fu_protect ranges rm = rm\<lparr>fu_read_only := fu_read_only rm @ ranges\<rparr>"

definition fu_abrm :: "u3v_registers \<Rightarrow> u3v_registers" where
  "fu_abrm = fold id
     [fu_write_u32 FU_ABRM_GENCP_VERSION 0x00010002, fu_write_string FU_ABRM_MANUFACTURER_NAME ''FakeCorp'' 64,
      fu_write_string FU_ABRM_MODEL_NAME ''FakeU3V'' 64, fu_write_string FU_ABRM_FAMILY_NAME ''Test'' 64,
      fu_write_string FU_ABRM_DEVICE_VERSION ''1.0.0'' 64,
      fu_write_string FU_ABRM_MANUFACTURER_INFO ''in-process fake'' 64,
      fu_write_string FU_ABRM_SERIAL_NUMBER ''FAKE-001'' 64, fu_write_string FU_ABRM_USER_DEFINED_NAME '''' 64,
      fu_write_u64 FU_ABRM_DEVICE_CAPABILITY FU_DEVICE_CAPABILITY, fu_write_u32 FU_ABRM_MAX_DEVICE_RESPONSE_TIME 100,
      fu_write_u64 FU_ABRM_MANIFEST_TABLE_ADDRESS (word_of_nat FU_MANIFEST_TABLE),
      fu_write_u64 FU_ABRM_SBRM_ADDRESS (word_of_nat FU_SBRM_BASE), fu_write_u64 FU_ABRM_DEVICE_CONFIGURATION 0,
      fu_write_u32 FU_ABRM_HEARTBEAT_TIMEOUT 3000, fu_write_u32 FU_ABRM_MESSAGE_CHANNEL_ID 0,
      fu_write_u32 FU_ABRM_ACCESS_PRIVILEGE 0, fu_write_u32 FU_ABRM_IMPLEMENTATION_ENDIANNESS 0xFFFFFFFF,
      fu_write_u64 FU_ABRM_TIMESTAMP 0, fu_write_u32 FU_ABRM_TIMESTAMP_LATCH 0,
      fu_write_u64 FU_ABRM_TIMESTAMP_INCREMENT 1,
      fu_protect [(FU_ABRM_GENCP_VERSION, FU_ABRM_USER_DEFINED_NAME),
        (FU_ABRM_DEVICE_CAPABILITY, FU_ABRM_DEVICE_CONFIGURATION),
        (FU_ABRM_IMPLEMENTATION_ENDIANNESS, FU_ABRM_IMPLEMENTATION_ENDIANNESS + 4),
        (FU_ABRM_TIMESTAMP, FU_ABRM_TIMESTAMP + 8), (FU_ABRM_TIMESTAMP_INCREMENT, FU_ABRM_TIMESTAMP_INCREMENT + 8)]]"

definition fu_sbrm :: "u3v_registers \<Rightarrow> u3v_registers" where
  "fu_sbrm = fold id
     [fu_write_u32 FU_SBRM_U3V_VERSION 0x00010000, fu_write_u64 FU_SBRM_U3VCP_CAPABILITY 3,
      fu_write_u64 FU_SBRM_U3VCP_CONFIGURATION 0, fu_write_u32 FU_SBRM_MAX_CMD_TRANSFER 4096,
      fu_write_u32 FU_SBRM_MAX_ACK_TRANSFER 4096, fu_write_u32 FU_SBRM_NUM_STREAM_CHANNELS 1,
      fu_write_u64 FU_SBRM_SIRM_ADDRESS (word_of_nat FU_SIRM_BASE), fu_write_u32 FU_SBRM_SIRM_LENGTH 0x30,
      fu_write_u64 FU_SBRM_EIRM_ADDRESS (word_of_nat FU_EIRM_BASE), fu_write_u32 FU_SBRM_EIRM_LENGTH 0x0C,
      fu_write_u64 FU_SBRM_IIDC2_ADDRESS 0, fu_write_u32 FU_SBRM_CURRENT_SPEED FU_SUPERSPEED,
      fu_protect [(FU_SBRM_U3V_VERSION, FU_SBRM_U3VCP_CONFIGURATION),
        (FU_SBRM_MAX_CMD_TRANSFER, FU_SBRM_CURRENT_SPEED + 4)]]"

definition fu_sirm :: "u3v_registers \<Rightarrow> u3v_registers" where
  "fu_sirm = fold id
     ([fu_write_u32 FU_SIRM_INFO (push_bit 24 FU_SIRM_ALIGNMENT_EXPONENT), fu_write_u32 FU_SIRM_CONTROL 0,
       fu_write_u64 FU_SIRM_REQUIRED_PAYLOAD_SIZE 0, fu_write_u32 FU_SIRM_REQUIRED_LEADER_SIZE FU_LEADER_SIZE,
       fu_write_u32 FU_SIRM_REQUIRED_TRAILER_SIZE FU_TRAILER_SIZE] @
      map (\<lambda>host. fu_write_u32 host 0)
        [FU_SIRM_MAX_LEADER_SIZE, FU_SIRM_PAYLOAD_TRANSFER_SIZE, FU_SIRM_PAYLOAD_TRANSFER_COUNT,
         FU_SIRM_FINAL_TRANSFER1_SIZE, FU_SIRM_FINAL_TRANSFER2_SIZE, FU_SIRM_MAX_TRAILER_SIZE] @
      [fu_protect [(FU_SIRM_INFO, FU_SIRM_CONTROL), (FU_SIRM_REQUIRED_PAYLOAD_SIZE, FU_SIRM_MAX_LEADER_SIZE)]])"

definition fu_eirm :: "u3v_registers \<Rightarrow> u3v_registers" where
  "fu_eirm = fold id
     [fu_write_u32 FU_EIRM_CONTROL 0, fu_write_u32 FU_EIRM_MAXIMUM_EVENT_TRANSFER_LENGTH FU_MAX_EVENT_TRANSFER,
      fu_write_u32 FU_EIRM_EVENT_TEST_CONTROL 0,
      fu_protect [(FU_EIRM_MAXIMUM_EVENT_TRANSFER_LENGTH, FU_EIRM_MAXIMUM_EVENT_TRANSFER_LENGTH + 4)]]"

definition fu_manifest :: "bytes \<Rightarrow> u3v_registers \<Rightarrow> u3v_registers" where
  "fu_manifest xml = fold id
     [fu_write_u64 FU_MANIFEST_TABLE 1,
      fu_insert (FU_MANIFEST_TABLE + 8)
        (put_le 4 0x00010000 @ put_le 4 0 @ put_le 8 FU_XML_BLOB_BASE @ put_le 8 (length xml) @ replicate 40 0),
      fu_protect [(FU_MANIFEST_TABLE, FU_MANIFEST_TABLE + 8 + 64)],
      fu_insert FU_XML_BLOB_BASE xml, fu_protect [(FU_XML_BLOB_BASE, FU_XML_BLOB_BASE + length xml)]]"

text \<open>The frame rate and the exposure time are the bit patterns of \<open>200_f32\<close> and \<open>10000_f64\<close>.\<close>

definition fu_features :: "u32 \<Rightarrow> u32 \<Rightarrow> u32 \<Rightarrow> u3v_registers \<Rightarrow> u3v_registers" where
  "fu_features width height pixel_format = fold id
     [fu_write_u32 FU_REG_WIDTH width, fu_write_u32 FU_REG_HEIGHT height,
      fu_write_u32 FU_REG_PIXEL_FORMAT pixel_format, fu_write_u32 FU_REG_SENSOR_WIDTH width,
      fu_write_u32 FU_REG_SENSOR_HEIGHT height, fu_write_u32 FU_REG_ACQ_MODE 0, fu_write_u32 FU_REG_ACQ_START 0,
      fu_write_u32 FU_REG_ACQ_STOP 0, fu_write_u32 FU_REG_ACQ_FRAME_RATE 0x43480000,
      fu_write_u64 FU_REG_EXPOSURE_TIME 0x40C3880000000000, fu_write_u32 FU_REG_PAYLOAD_SIZE 0,
      fu_write_string FU_REG_DEVICE_MODEL ''FakeU3V'' 32, fu_write_string FU_REG_DEVICE_VENDOR ''FakeCorp'' 32,
      fu_write_u32 FU_REG_ACTION_DEVICE_KEY 0, fu_write_u32 FU_REG_TRIGGER_SOFTWARE 0,
      fu_write_u32 FU_REG_CHUNK_MODE_ACTIVE 0, fu_write_u32 FU_REG_CHUNK_SELECTOR 0,
      fu_write_u32 FU_REG_CHUNK_ENABLE 0, fu_write_u32 (FU_REG_CHUNK_ENABLE + 4) 0,
      fu_write_u32 FU_REG_EVENT_SELECTOR (ucast FU_EVENT_ID_EXPOSURE_END), fu_write_u32 FU_REG_EVENT_NOTIFICATION 0]"

definition fu_new :: "bytes \<Rightarrow> u32 \<Rightarrow> u32 \<Rightarrow> u32 \<Rightarrow> u3v_registers" where
  "fu_new xml width height pixel_format =
     fu_sync_payload_size (fu_features width height pixel_format (fu_manifest xml (fu_eirm (fu_sirm (fu_sbrm
       (fu_abrm \<lparr>fu_regs = [], fu_read_only = []\<rparr>))))))"

end
