(* ===== verification/Fake_U3v.thy ===== *)
theory Fake_U3v
  imports Fake_U3v_Registers U3v_Stream U3v_Control
begin

text \<open>
  The in-process USB3 Vision camera behind the endpoints
  (\<^verbatim>\<open>crates/viva-fake-u3v/src/transport.rs\<close>): GenCP commands on the control endpoint, blocks cut into
  packets on the stream endpoint, event commands on the event endpoint.

  Parameters: the test pattern and the length of a frame period, which the code computes in floating
  point. The host's clock is part of the state and advances when a read waits. Texts of USB errors are
  shortened to the part without numbers.
\<close>

section \<open>State\<close>

definition FU_MAX_PACKET :: nat where "FU_MAX_PACKET = 1024"
definition FU_DATA_OVERRUN :: u16 where "FU_DATA_OVERRUN = 0xA101"
definition FU_IDLE_READ :: duration where "FU_IDLE_READ = 20 * 10 ^ 6"
definition FU_CONTROL_PREFIX :: bytes where "FU_CONTROL_PREFIX = [0x55, 0x33, 0x56, 0x43]"
definition FU_EVENT_PREFIX :: bytes where "FU_EVENT_PREFIX = [0x55, 0x33, 0x56, 0x45]"
definition FU_LEADER_PREFIX :: bytes where "FU_LEADER_PREFIX = [0x55, 0x33, 0x56, 0x4C]"
definition FU_TRAILER_PREFIX :: bytes where "FU_TRAILER_PREFIX = [0x55, 0x33, 0x56, 0x54]"
definition STREAM_EP :: u8 where "STREAM_EP = 0x82"
definition EVENT_EP :: u8 where "EVENT_EP = 0x83"

datatype fake_usb_event = Write nat bytes | EndpointReset u8

datatype part = LeaderPart | PayloadPart | TrailerPart

record device_transfer =
  dt_kind :: part
  dt_data :: bytes
  dt_offset :: nat

record fake_block =
  fk_id :: u64
  fk_timestamp :: u64
  fk_transfers :: "device_transfer list"
  fk_sent :: nat
  fk_overrun :: bool
  fk_height :: u32

record fake_u3v =
  fv_registers :: u3v_registers
  fv_pending_ack :: "bytes option"
  fv_acquiring :: bool
  fv_block :: "fake_block option"
  fv_next_block_id :: u64
  fv_reads :: "(nat \<times> nat) list"
  fv_writes :: "(nat \<times> bytes) list"
  fv_log :: "fake_usb_event list"
  fv_clock :: instant
  fv_host_queued :: nat
  fv_max_host_queued :: nat
  fv_required_queued :: nat
  fv_stall_after :: "nat option"
  fv_halted :: bool
  fv_resets :: "u8 list"
  fv_unplugged :: bool
  fv_unplug_codes :: bool
  fv_listed_until :: "instant option"
  fv_events :: "bytes list"
  fv_event_request_id :: u16
  fv_last_block_start :: "instant option"
  fv_time :: instant

record fake_params =
  fp_pattern :: "nat \<Rightarrow> nat \<Rightarrow> nat \<Rightarrow> u16 \<Rightarrow> bytes"
  fp_period :: "u32 \<Rightarrow> duration"

definition fake_u3v_new :: "u3v_registers \<Rightarrow> instant \<Rightarrow> fake_u3v" where
  "fake_u3v_new registers time =
     \<lparr>fv_registers = registers, fv_pending_ack = None, fv_acquiring = False, fv_block = None, fv_next_block_id = 0,
      fv_reads = [], fv_writes = [], fv_log = [], fv_clock = time, fv_host_queued = 0, fv_max_host_queued = 0,
      fv_required_queued = 0, fv_stall_after = None, fv_halted = False, fv_resets = [], fv_unplugged = False,
      fv_unplug_codes = False, fv_listed_until = None, fv_events = [], fv_event_request_id = 0,
      fv_last_block_start = None, fv_time = time\<rparr>"

definition was_read :: "nat \<Rightarrow> fake_u3v \<Rightarrow> bool" where
  "was_read addr f = list_ex (\<lambda>(a, len). a < addr + 4 \<and> addr < a + len) (fv_reads f)"

definition unplug :: "fake_u3v \<Rightarrow> fake_u3v" where
  "unplug f = f\<lparr>fv_unplugged := True\<rparr>"

definition unplug_as_macos_does :: "duration \<Rightarrow> fake_u3v \<Rightarrow> fake_u3v" where
  "unplug_as_macos_does listed_for f =
     f\<lparr>fv_unplugged := True, fv_unplug_codes := True, fv_listed_until := Some (fv_time f + listed_for)\<rparr>"

definition unplugged_error :: "fake_u3v \<Rightarrow> bool \<Rightarrow> u3v_error" where
  "unplugged_error f inbound =
     (if \<not> fv_unplug_codes f then Disconnected
      else if inbound then Usb ''unknown (error 0xe00002ed)'' else Usb ''unknown (error 0xe00002d8)'')"

definition fv_now :: "fake_u3v \<Rightarrow> u64" where
  "fv_now f = (let n = fv_time f - fv_clock f in if n < 2 ^ 64 then word_of_nat n else - 1)"

definition ready_to_stream :: "fake_u3v \<Rightarrow> bool" where
  "ready_to_stream f \<longleftrightarrow> fu_stream_enabled (fv_registers f) \<and> fv_acquiring f"

section \<open>Commands\<close>

definition fu_build_ack :: "status_code \<Rightarrow> u16 \<Rightarrow> u16 \<Rightarrow> bytes \<Rightarrow> bytes" where
  "fu_build_ack status command request_id scd =
     FU_CONTROL_PREFIX @ put_le 2 (unat (status_to_raw status)) @ put_le 2 (unat command) @
     put_le 2 (length scd) @ put_le 2 (unat request_id) @ scd"

definition touches :: "nat \<Rightarrow> nat \<Rightarrow> nat \<Rightarrow> bool" where
  "touches addr len reg \<longleftrightarrow> addr < reg + 4 \<and> reg < addr + len"

definition apply_side_effects :: "nat \<Rightarrow> bytes \<Rightarrow> fake_u3v \<Rightarrow> fake_u3v" where
  "apply_side_effects addr data f =
     (let f = (if touches addr (length data) FU_REG_ACQ_START then f\<lparr>fv_acquiring := True\<rparr> else f);
          f = (if touches addr (length data) FU_REG_ACQ_STOP then f\<lparr>fv_acquiring := False\<rparr> else f);
          f = (if touches addr (length data) FU_SIRM_CONTROL \<and> \<not> fu_stream_enabled (fv_registers f)
               then f\<lparr>fv_block := None\<rparr> else f) in
      if touches addr (length data) FU_ABRM_TIMESTAMP_LATCH \<and> data \<noteq> [] \<and> hd data AND 1 \<noteq> 0
      then f\<lparr>fv_registers := fu_latch_timestamp (fv_now f) (fv_registers f)\<rparr> else f)"

definition execute_read :: "nat \<Rightarrow> u16 \<Rightarrow> nat \<Rightarrow> u16 \<Rightarrow> u16 \<Rightarrow> fake_u3v \<Rightarrow> bytes \<times> fake_u3v" where
  "execute_read addr reserved count ack_id request_id f =
     (let f = f\<lparr>fv_reads := fv_reads f @ [(addr, count)]\<rparr>; refuse = (\<lambda>status. fu_build_ack status ack_id request_id []) in
      (if reserved \<noteq> 0 then refuse InvalidParameter
       else if \<not> fu_is_mapped (fv_registers f) addr count then refuse InvalidAddress
       else if fu_is_write_only addr count then refuse AccessDenied
       else fu_build_ack Success ack_id request_id (fu_read (fv_registers f) addr count), f))"

definition execute_write :: "nat \<Rightarrow> bytes \<Rightarrow> u16 \<Rightarrow> u16 \<Rightarrow> fake_u3v \<Rightarrow> bytes \<times> fake_u3v" where
  "execute_write addr data ack_id request_id f =
     (let refuse = (\<lambda>status. (fu_build_ack status ack_id request_id [], f)) in
      if request_id = 0 then refuse InvalidParameter
      else if \<not> fu_is_mapped (fv_registers f) addr (length data) then refuse InvalidAddress
      else if fu_is_read_only (fv_registers f) addr (length data) then refuse WriteProtect
      else
        (fu_build_ack Success ack_id request_id (put_le 2 0 @ put_le 2 (length data)),
         apply_side_effects addr data
           (f\<lparr>fv_registers := fu_write addr data (fv_registers f), fv_writes := fv_writes f @ [(addr, data)],
             fv_log := fv_log f @ [Write addr data]\<rparr>)))"

definition field_at :: "nat \<Rightarrow> nat \<Rightarrow> bytes \<Rightarrow> 'w::len word" where
  "field_at k i bs = le_word (take k (drop i bs))"

text \<open>Every field read lies within the lengths tested before it.\<close>

definition execute :: "bytes \<Rightarrow> fake_u3v \<Rightarrow> bytes option \<times> fake_u3v" where
  "execute packet f =
     (if length packet < U3V_HEADER_SIZE \<or> take 4 packet \<noteq> FU_CONTROL_PREFIX then (None, f)
      else
        let flags = field_at 2 4 packet; command = field_at 2 6 packet; len = field_at 2 8 packet;
            request_id = field_at 2 10 packet in
        if flags AND CCD_REQUEST_ACK = 0 then (None, f)
        else
          let ack_id = command OR 1 in
          if length packet \<noteq> U3V_HEADER_SIZE + unat (len :: u16)
          then (Some (fu_build_ack InvalidHeader ack_id request_id []), f)
          else if command = U3V_READMEM_CMD \<and> len = 12 then
            (let (ack, f) = execute_read (unat (field_at 8 12 packet :: u64)) (field_at 2 20 packet)
                   (unat (field_at 2 22 packet :: u16)) ack_id request_id f in (Some ack, f))
          else if command = U3V_WRITEMEM_CMD \<and> len \<ge> 8 then
            (let (ack, f) = execute_write (unat (field_at 8 12 packet :: u64)) (drop (U3V_HEADER_SIZE + 8) packet)
                   ack_id request_id f in (Some ack, f))
          else (Some (fu_build_ack NotImplemented ack_id request_id []), f))"

section \<open>Blocks\<close>

definition bytes_per_pixel :: "u32 \<Rightarrow> nat" where
  "bytes_per_pixel pixel_format = (if pixel_format = 0x02180014 then 3 else 1)"

definition fu_chunk_payload :: "bytes \<Rightarrow> u32 list \<Rightarrow> u64 \<Rightarrow> u64 \<Rightarrow> bytes" where
  "fu_chunk_payload img enabled timestamp block_id =
     img @ put_le 4 (unat FU_CHUNK_ID_IMAGE) @ put_le 4 (length img) @
     concat (map (\<lambda>i.
       put_le 8 (unat (if i = FU_CHUNK_ID_TIMESTAMP then timestamp else if i = FU_CHUNK_ID_FRAME_ID then block_id else 0)) @
       put_le 4 (unat i) @ put_le 4 8) enabled)"

definition fu_build_leader :: "u64 \<Rightarrow> u16 \<Rightarrow> u64 \<Rightarrow> u32 \<Rightarrow> u32 \<Rightarrow> u32 \<Rightarrow> bytes" where
  "fu_build_leader block_id payload_type timestamp width height pixel_format =
     FU_LEADER_PREFIX @ put_le 2 0 @ put_le 2 (unat FU_LEADER_SIZE) @ put_le 8 (unat block_id) @ put_le 2 0 @
     put_le 2 (unat payload_type) @ put_le 8 (unat timestamp) @ put_le 4 (unat pixel_format) @ put_le 4 (unat width) @
     put_le 4 (unat height) @ put_le 4 0 @ put_le 4 0 @ put_le 2 0 @ put_le 2 0"

definition fu_build_trailer :: "u64 \<Rightarrow> u16 \<Rightarrow> nat \<Rightarrow> u32 \<Rightarrow> bytes" where
  "fu_build_trailer block_id status payload_size height =
     FU_TRAILER_PREFIX @ put_le 2 0 @ put_le 2 (unat FU_TRAILER_SIZE) @ put_le 8 (unat block_id) @
     put_le 2 (unat status) @ put_le 2 0 @ put_le 8 payload_size @ put_le 4 (unat height)"

text \<open>The payload in the transfer sizes the host wrote; what does not fit in them is not sent.\<close>

fun cut_payload :: "nat list \<Rightarrow> bytes \<Rightarrow> bytes list" where
  "cut_payload [] payload = []"
| "cut_payload (n # sizes) payload =
     (if payload = [] then [] else take n payload # cut_payload sizes (drop n payload))"

definition layout_sizes :: "host_layout \<Rightarrow> nat list" where
  "layout_sizes l =
     filter (\<lambda>n. n > 0) (replicate (unat (hl_transfer_count l)) (unat (hl_transfer_size l)) @
       [unat (hl_final1 l), unat (hl_final2 l)])"

definition start_block :: "fake_params \<Rightarrow> fake_u3v \<Rightarrow> (unit, u3v_error) result \<times> fake_u3v" where
  "start_block P f =
     (let rm = fv_registers f; l = fu_host_layout rm in
      if hl_max_leader_size l < FU_LEADER_SIZE \<or> hl_max_trailer_size l < FU_TRAILER_SIZE
      then (Err (Usb ''the SIRM's leader/trailer sizes are below what the device requires''), f)
      else
        let width = fu_width rm; height = fu_height rm; pixel_format = fu_pixel_format rm;
            block_id = fv_next_block_id f; timestamp = fv_now f;
            img = resize (unat (fu_payload_bytes width height pixel_format)) 0x80
              (fp_pattern P (unat width) (unat height) (bytes_per_pixel pixel_format) (ucast block_id));
            chunked = fu_chunk_mode rm;
            payload = (if chunked then fu_chunk_payload img (fu_enabled_chunks rm) timestamp block_id else img);
            payload_type = (if chunked then 0x4001 else 0x0001);
            transfers =
              [\<lparr>dt_kind = LeaderPart, dt_data = fu_build_leader block_id payload_type timestamp width height pixel_format,
                dt_offset = 0\<rparr>] @
              map (\<lambda>d. \<lparr>dt_kind = PayloadPart, dt_data = d, dt_offset = 0\<rparr>) (cut_payload (layout_sizes l) payload) @
              [\<lparr>dt_kind = TrailerPart, dt_data = [], dt_offset = 0\<rparr>] in
        (Ok (), f\<lparr>fv_next_block_id := block_id + 1,
           fv_block := Some \<lparr>fk_id = block_id, fk_timestamp = timestamp, fk_transfers = transfers, fk_sent = 0,
             fk_overrun = False, fk_height = height\<rparr>\<rparr>))"

definition queue_exposure_end :: "u64 \<Rightarrow> u64 \<Rightarrow> fake_u3v \<Rightarrow> fake_u3v" where
  "queue_exposure_end block_id timestamp f =
     (if \<not> (fu_events_enabled (fv_registers f) \<and> fu_exposure_end_notification (fv_registers f)) then f
      else
        let request_id = max (fv_event_request_id f + 1) 1;
            scd = put_le 2 0 @ put_le 2 (unat FU_EVENT_ID_EXPOSURE_END) @ put_le 8 (unat timestamp) @ put_le 4 0 @
              put_le 8 (unat block_id);
            packet = FU_EVENT_PREFIX @ put_le 2 0 @ put_le 2 0x0C00 @ put_le 2 (length scd) @
              put_le 2 (unat request_id) @ scd in
        f\<lparr>fv_event_request_id := request_id, fv_events := fv_events f @ [packet]\<rparr>)"

section \<open>Transfers\<close>

datatype send_next = Continue | Break

text \<open>
  One round of the loop of \<open>stream_transfer\<close>, with what the host transfer of \<open>len\<close> bytes holds so far;
  \<open>None\<close> is the return with nothing to send.
\<close>

definition send_round :: "fake_params \<Rightarrow> nat \<Rightarrow> nat \<Rightarrow> bytes \<Rightarrow> fake_u3v \<Rightarrow>
    ((send_next \<times> bytes) option, u3v_error) result \<times> fake_u3v" where
  "send_round P len queued out f =
     (let waiting = (fv_block f = None \<and> (case fv_last_block_start f of
            Some started \<Rightarrow> fv_time f - started < fp_period P (fu_read_u32 (fv_registers f) FU_REG_ACQ_FRAME_RATE)
          | None \<Rightarrow> False)) in
      if waiting then (if out = [] then (Ok None, f) else (Ok (Some (Break, out)), f))
      else
        bind (if fv_block f = None then start_block P (f\<lparr>fv_last_block_start := Some (fv_time f)\<rparr>) else (Ok (), f)) (\<lambda>_ f.
          case fv_block f of
            None \<Rightarrow> (Panic, f)
          | Some b \<Rightarrow>
              (case fk_transfers b of
                 [] \<Rightarrow> (Ok (Some (Continue, out)), f\<lparr>fv_block := None\<rparr>)
               | t # ts \<Rightarrow>
                   if dt_kind t = PayloadPart \<and> queued < fv_required_queued f \<and> \<not> fk_overrun b then
                     (Ok (Some (Continue, out)),
                      f\<lparr>fv_block := Some (b\<lparr>fk_overrun := True,
                          fk_transfers := filter (\<lambda>t. dt_kind t \<noteq> PayloadPart) (fk_transfers b)\<rparr>)\<rparr>)
                   else
                     let t = (if dt_kind t = TrailerPart \<and> dt_data t = []
                              then t\<lparr>dt_data := fu_build_trailer (fk_id b) (if fk_overrun b then FU_DATA_OVERRUN else 0)
                                (fk_sent b) (fk_height b)\<rparr> else t);
                         f = f\<lparr>fv_block := Some (b\<lparr>fk_transfers := t # ts\<rparr>)\<rparr>;
                         packet_len = min (length (dt_data t) - dt_offset t) FU_MAX_PACKET in
                     if length out + packet_len > len then
                       (if out = [] then (Err (Usb ''overflow: a packet into a shorter transfer''), f)
                        else (Ok (Some (Break, out)), f))
                     else if dt_kind t = PayloadPart \<and> fv_stall_after f = Some 0 then
                       (Err (Stalled STREAM_EP), f\<lparr>fv_stall_after := None, fv_halted := True, fv_block := None\<rparr>)
                     else
                       let f = (if dt_kind t = PayloadPart
                                then f\<lparr>fv_stall_after := map_option (\<lambda>n. n - 1) (fv_stall_after f)\<rparr> else f);
                           out = out @ take packet_len (drop (dt_offset t) (dt_data t));
                           t = t\<lparr>dt_offset := dt_offset t + packet_len\<rparr>;
                           b = b\<lparr>fk_sent := (if dt_kind t = PayloadPart then fk_sent b + packet_len else fk_sent b)\<rparr>;
                           gone = (dt_offset t = length (dt_data t));
                           f = (if \<not> gone then f\<lparr>fv_block := Some (b\<lparr>fk_transfers := t # ts\<rparr>)\<rparr>
                                else if dt_kind t = TrailerPart
                                then queue_exposure_end (fk_id b) (fk_timestamp b) (f\<lparr>fv_block := None\<rparr>)
                                else f\<lparr>fv_block := Some (b\<lparr>fk_transfers := ts\<rparr>)\<rparr>) in
                       (Ok (Some (if packet_len < FU_MAX_PACKET \<or> length out = len then Break else Continue, out)), f))))"

text \<open>
  A round that continues has sent a full packet, dropped a payload or an empty block; the last two
  happen at most once each before a packet: two rounds for each byte of the transfer and four more
  are enough.
\<close>

primrec send_loop :: "nat \<Rightarrow> fake_params \<Rightarrow> nat \<Rightarrow> nat \<Rightarrow> bytes \<Rightarrow> fake_u3v \<Rightarrow>
    (bytes option, u3v_error) result \<times> fake_u3v" where
  "send_loop 0 P len queued out f = (Panic, f)"
| "send_loop (Suc k) P len queued out f =
     bind (send_round P len queued out f) (\<lambda>r f.
       case r of
         None \<Rightarrow> (Ok None, f)
       | Some (Break, out) \<Rightarrow> (Ok (Some out), f)
       | Some (Continue, out) \<Rightarrow> send_loop k P len queued out f)"

definition stream_transfer :: "fake_params \<Rightarrow> nat \<Rightarrow> nat \<Rightarrow> fake_u3v \<Rightarrow> (bytes option, u3v_error) result \<times> fake_u3v" where
  "stream_transfer P len queued f =
     (if fv_halted f then (Err (Stalled STREAM_EP), f)
      else if \<not> ready_to_stream f then (Ok None, f)
      else send_loop (2 * len + 4) P len queued [] f)"

definition event_transfer :: "nat \<Rightarrow> fake_u3v \<Rightarrow> (bytes option, u3v_error) result \<times> fake_u3v" where
  "event_transfer len f =
     (if \<not> fu_events_enabled (fv_registers f) then (Ok None, f)
      else case fv_events f of
        [] \<Rightarrow> (Ok None, f)
      | packet # rest \<Rightarrow>
          (if length packet > len then Err (Usb ''overflow: an event command into a shorter transfer'') else Ok (Some packet),
           f\<lparr>fv_events := rest\<rparr>))"

definition fu_sleep :: "duration \<Rightarrow> fake_u3v \<Rightarrow> fake_u3v" where
  "fu_sleep d f = f\<lparr>fv_time := fv_time f + d\<rparr>"

definition fu_is_present :: "fake_u3v \<Rightarrow> bool option" where
  "fu_is_present f =
     Some (\<not> fv_unplugged f \<or> (case fv_listed_until f of Some t \<Rightarrow> fv_time f < t | None \<Rightarrow> False))"

definition fu_bulk_write :: "u8 \<Rightarrow> bytes \<Rightarrow> duration \<Rightarrow> fake_u3v \<Rightarrow> (nat, u3v_error) result \<times> fake_u3v" where
  "fu_bulk_write endpoint data timeout f =
     (if fv_unplugged f then (Err (unplugged_error f False), f)
      else
        let (ack, f) = execute data f in (Ok (length data), f\<lparr>fv_pending_ack := ack\<rparr>))"

definition fu_bulk_read :: "fake_params \<Rightarrow> u8 \<Rightarrow> nat \<Rightarrow> duration \<Rightarrow> fake_u3v \<Rightarrow> (bytes, u3v_error) result \<times> fake_u3v" where
  "fu_bulk_read P endpoint len timeout f =
     (if fv_unplugged f then (Err (unplugged_error f True), f)
      else
        bind (if endpoint = STREAM_EP then stream_transfer P len 1 (f\<lparr>fv_max_host_queued := max (fv_max_host_queued f) 1\<rparr>)
              else if endpoint = EVENT_EP then event_transfer len f
              else case fv_pending_ack f of
                Some ack \<Rightarrow>
                  (if len < length ack then Err (Usb ''overflow: an acknowledge into a shorter buffer'') else Ok (Some ack),
                   f\<lparr>fv_pending_ack := None\<rparr>)
              | None \<Rightarrow> (Ok None, f)) (\<lambda>produced f.
          case produced of
            Some data \<Rightarrow> (Ok data, f)
          | None \<Rightarrow> (Err UsbTimeout, fu_sleep (min timeout FU_IDLE_READ) f)))"

definition fake_transfer :: "fake_params \<Rightarrow> fake_u3v usb_transfer" where
  "fake_transfer P =
     \<lparr>uh_is_present = fu_is_present, uh_clock = fv_time, uh_sleep = fu_sleep, ut_bulk_write = fu_bulk_write,
      ut_bulk_read = fu_bulk_read P\<rparr>"

section \<open>The queue of a bulk IN endpoint\<close>

record fake_bulk_in =
  fb_camera :: fake_u3v
  fb_endpoint :: u8
  fb_requested :: "nat list"
  fb_cancelled :: nat

definition fb_set :: "fake_u3v \<Rightarrow> fake_bulk_in \<Rightarrow> fake_bulk_in" where
  "fb_set f q = q\<lparr>fb_camera := f\<rparr>"

definition fb_finish :: "fake_bulk_in \<Rightarrow> fake_bulk_in" where
  "fb_finish q =
     (let f = fb_camera q in
      q\<lparr>fb_requested := tl (fb_requested q),
        fb_camera := (if fb_endpoint q = STREAM_EP then f\<lparr>fv_host_queued := fv_host_queued f - 1\<rparr> else f)\<rparr>)"

definition fb_submit :: "nat \<Rightarrow> fake_bulk_in \<Rightarrow> fake_bulk_in" where
  "fb_submit len q =
     (let q = q\<lparr>fb_requested := fb_requested q @ [len]\<rparr>; f = fb_camera q in
      if fb_endpoint q = STREAM_EP
      then fb_set (f\<lparr>fv_host_queued := fv_host_queued f + 1,
             fv_max_host_queued := max (fv_max_host_queued f) (fv_host_queued f + 1)\<rparr>) q
      else q)"

definition fb_wait_next :: "fake_params \<Rightarrow> duration \<Rightarrow> fake_bulk_in \<Rightarrow> completion option \<times> fake_bulk_in" where
  "fb_wait_next P timeout q =
     (case fb_requested q of
        [] \<Rightarrow> (None, q)
      | len # rest \<Rightarrow>
          if fb_cancelled q > 0
          then (Some \<lparr>cm_data = [], cm_status = Err Cancelled\<rparr>, fb_finish (q\<lparr>fb_cancelled := fb_cancelled q - 1\<rparr>))
          else if fv_unplugged (fb_camera q)
          then (Some \<lparr>cm_data = [], cm_status = Err (unplugged_error (fb_camera q) True)\<rparr>, fb_finish q)
          else
            (let f = fb_camera q;
                 (produced, f) = (if fb_endpoint q = STREAM_EP then stream_transfer P len (fv_host_queued f) f
                   else if fb_endpoint q = EVENT_EP then event_transfer len f
                   else (Err (Unusable ''has no such bulk IN endpoint''), f)) in
             case produced of
               Ok (Some data) \<Rightarrow> (Some \<lparr>cm_data = data, cm_status = Ok ()\<rparr>, fb_finish (fb_set f q))
             | Ok None \<Rightarrow> (None, fb_set (fu_sleep (min timeout FU_IDLE_READ) f) q)
             | Err e \<Rightarrow> (Some \<lparr>cm_data = [], cm_status = Err e\<rparr>, fb_finish (fb_set f q))
             | Panic \<Rightarrow> (Some \<lparr>cm_data = [], cm_status = Panic\<rparr>, fb_finish (fb_set f q))))"

definition fb_cancel_all :: "fake_bulk_in \<Rightarrow> fake_bulk_in" where
  "fb_cancel_all q = q\<lparr>fb_cancelled := length (fb_requested q)\<rparr>"

definition fb_reset :: "fake_bulk_in \<Rightarrow> (unit, u3v_error) result \<times> fake_bulk_in" where
  "fb_reset q =
     (let f = fb_camera q in
      if fv_unplugged f then (Err (unplugged_error f True), q)
      else
        let f = f\<lparr>fv_log := fv_log f @ [EndpointReset (fb_endpoint q)], fv_resets := fv_resets f @ [fb_endpoint q]\<rparr>;
            f = (if fb_endpoint q = STREAM_EP then f\<lparr>fv_halted := False, fv_block := None, fv_next_block_id := 0\<rparr> else f);
            f = (if fb_endpoint q = EVENT_EP then f\<lparr>fv_events := []\<rparr> else f) in
        (Ok (), fb_set f q))"

definition fb_drop :: "fake_bulk_in \<Rightarrow> fake_u3v" where
  "fb_drop q =
     (let f = fb_camera q in
      if fb_endpoint q = STREAM_EP then f\<lparr>fv_host_queued := fv_host_queued f - length (fb_requested q)\<rparr> else f)"

definition fake_bulk_queue :: "fake_params \<Rightarrow> fake_bulk_in bulk_in" where
  "fake_bulk_queue P =
     \<lparr>uh_is_present = (\<lambda>q. fu_is_present (fb_camera q)), uh_clock = (\<lambda>q. fv_time (fb_camera q)),
      uh_sleep = (\<lambda>d q. fb_set (fu_sleep d (fb_camera q)) q),
      bq_submit = fb_submit, bq_pending = (\<lambda>q. length (fb_requested q)), bq_wait_next = fb_wait_next P,
      bq_cancel_all = fb_cancel_all, bq_reset = fb_reset\<rparr>"

definition fu_bulk_in :: "u8 \<Rightarrow> fake_u3v \<Rightarrow> (fake_bulk_in, u3v_error) result" where
  "fu_bulk_in endpoint f =
     (if fv_unplugged f then Err (unplugged_error f True)
      else Ok \<lparr>fb_camera = f, fb_endpoint = endpoint, fb_requested = [], fb_cancelled = 0\<rparr>)"

end
