(* ===== verification/Fake_U3v_Link.thy ===== *)
theory Fake_U3v_Link
  imports Fake_U3v
begin

text \<open>
  Host and camera together: what \<open>ControlChannel\<close> (\<^verbatim>\<open>crates/viva-u3v/src/control.rs\<close>) reads and writes
  over the endpoints of the in-process camera is the camera's memory. The locale \<open>control_memory\<close>
  states what a read relies on; it is interpreted on the camera.
\<close>

section \<open>Little-endian fields\<close>

lemma prefix_word: "le_word FU_CONTROL_PREFIX = CONTROL_PREFIX" "length FU_CONTROL_PREFIX = 4"
  by (simp_all add: CONTROL_PREFIX_def FU_CONTROL_PREFIX_def le_word_def be_word_def be_nat_def)

lemma prefix_bytes: "put_le 4 (unat CONTROL_PREFIX) = FU_CONTROL_PREFIX"
proof -
  have "to_be 4 (unat (be_word (rev FU_CONTROL_PREFIX) :: u32)) = rev FU_CONTROL_PREFIX"
    by (rule to_be_be_word) (simp_all add: prefix_word)
  then show ?thesis using prefix_word(1) by (simp add: put_le_def le_word_def)
qed

section \<open>Packets\<close>

lemma command_fields:
  fixes command rid :: u16
  assumes "length scd < 65536"
  defines "p \<equiv> encode_command command rid scd"
  shows "take 4 p = FU_CONTROL_PREFIX" "field_at 2 4 p = CCD_REQUEST_ACK" "field_at 2 6 p = command"
    "field_at 2 8 p = (word_of_nat (length scd) :: u16)" "field_at 2 10 p = rid" "length p = 12 + length scd"
    "drop 12 p = scd" "unat (field_at 2 8 p :: u16) = length scd"
proof -
  show f: "field_at 2 8 p = (word_of_nat (length scd) :: u16)"
    using assms(1) by (simp add: p_def encode_command_def field_at_def prefix_bytes prefix_word)
  show "unat (field_at 2 8 p :: u16) = length scd" unfolding f using assms(1) by (simp add: unat_of_nat_small)
qed (use assms(1) in \<open>simp_all add: p_def encode_command_def field_at_def prefix_bytes prefix_word\<close>)

lemma decode_built_ack:
  fixes command rid :: u16
  assumes "length scd < 65536"
  shows "u3v_decode_ack (fu_build_ack status command rid scd) =
    Ok \<lparr>ap_status = u3v_from_raw (status_to_raw status), ap_command = command, ap_request_id = rid, ap_payload = scd\<rparr>"
proof -
  have len: "unat (word_of_nat (length scd) :: u16) = length scd" using assms by (simp add: unat_of_nat_small)
  show ?thesis
    using assms
    by (simp add: u3v_decode_ack_def fu_build_ack_def U3V_HEADER_SIZE_def le_at_def subslice_def prefix_word len Let_def)
qed

section \<open>Reading memory by transactions\<close>

text \<open>
  What a read of many bytes relies on: a transaction of at most an acknowledge's worth inside a region
  returns those bytes and leaves the channel ready for the next one.
\<close>

locale control_memory =
  fixes T :: "'q usb_transfer" and ready :: "'q control_channel \<Rightarrow> bool" and base :: nat and held :: bytes
  assumes readmem: "ready c \<Longrightarrow> base \<le> a \<Longrightarrow> a + n \<le> base + length held \<Longrightarrow> 0 < n \<Longrightarrow> n < 65536 \<Longrightarrow>
      U3V_HEADER_SIZE + n \<le> unat (cc_max_ack c) \<Longrightarrow>
      \<exists>c'. transact T U3V_READMEM_CMD U3V_READMEM_ACK (readmem_scd (word_of_nat a) n) c =
          (Ok (take n (drop (a - base) held)), c') \<and> ready c' \<and> cc_max_ack c' = cc_max_ack c"
begin

lemma read_loop_reads:
  assumes "ready c" "base \<le> a" "a + len \<le> base + length held" "0 < most" "most < 65536"
    "U3V_HEADER_SIZE + most \<le> unat (cc_max_ack c)" "off \<le> len" "len \<le> off + k"
    "out = take off (drop (a - base) held)"
  shows "\<exists>c'. read_loop k T most (word_of_nat a) len off out c = (Ok (take len (drop (a - base) held)), c') \<and>
    ready c' \<and> cc_max_ack c' = cc_max_ack c"
  using assms
proof (induction k arbitrary: c off out)
  case 0
  then show ?case by simp
next
  case (Suc k)
  show ?case
  proof (cases "off < len")
    case False
    with Suc.prems show ?thesis by simp
  next
    case True
    let ?n = "min (len - off) most"
    have n: "0 < ?n" "?n < 65536" "a + off + ?n \<le> base + length held" "U3V_HEADER_SIZE + ?n \<le> unat (cc_max_ack c)"
      using True Suc.prems by auto
    obtain c' where c': "transact T U3V_READMEM_CMD U3V_READMEM_ACK (readmem_scd (word_of_nat (a + off)) ?n) c =
        (Ok (take ?n (drop (a + off - base) held)), c')" "ready c'" "cc_max_ack c' = cc_max_ack c"
      using readmem [OF Suc.prems(1), of "a + off" ?n] Suc.prems(2) n by auto
    have out: "out @ take ?n (drop (a + off - base) held) = take (off + ?n) (drop (a - base) held)"
      using Suc.prems(2,9) by (simp add: take_add add.commute)
    have len: "length (take ?n (drop (a + off - base) held)) = ?n" using n(3) Suc.prems(2) by simp
    have room: "U3V_HEADER_SIZE + most \<le> unat (cc_max_ack c')" using Suc.prems(6) c'(3) by simp
    have step: "off + ?n \<le> len" "len \<le> off + ?n + k" using True Suc.prems(4,8) by (auto simp: min_def)
    obtain c'' where c'': "read_loop k T most (word_of_nat a) len (off + ?n) (take (off + ?n) (drop (a - base) held)) c' =
        (Ok (take len (drop (a - base) held)), c'')" "ready c''" "cc_max_ack c'' = cc_max_ack c'"
      using Suc.IH [OF c'(2) Suc.prems(2-5) room step refl] by blast
    have at: "word_of_nat a + word_of_nat off = (word_of_nat (a + off) :: u64)" by simp
    show ?thesis
      unfolding read_loop.simps Let_def at c'(1) using True c'' c'(3) by (simp only: if_True bind_simps len out) simp
  qed
qed

lemma read_mem_reads:
  assumes "ready c" "base \<le> a" "a + len \<le> base + length held" "U3V_HEADER_SIZE < unat (cc_max_ack c)"
  shows "\<exists>c'. u3v_read_mem T (word_of_nat a) len c = (Ok (take len (drop (a - base) held)), c') \<and>
    ready c' \<and> cc_max_ack c' = cc_max_ack c"
proof -
  let ?most = "min (unat (cc_max_ack c) - U3V_HEADER_SIZE) 65535"
  have "max_read_chunk (cc_max_ack c) = Ok ?most"
    using assms(4) by (simp add: max_read_chunk_def Let_def)
  moreover have "0 < ?most" "?most < 65536" "U3V_HEADER_SIZE + ?most \<le> unat (cc_max_ack c)"
    using assms(4) by auto
  ultimately show ?thesis
    using read_loop_reads [OF assms(1-3), of ?most 0 len "[]"] by (simp add: u3v_read_mem_def)
qed

end

section \<open>The camera's memory\<close>

text \<open>The camera maps every byte of a region, none of it in a write-only register, and is plugged in.\<close>

definition camera_holds :: "nat \<Rightarrow> bytes \<Rightarrow> fake_u3v \<Rightarrow> bool" where
  "camera_holds base held f \<longleftrightarrow>
     \<not> fv_unplugged f \<and>
     list_all (\<lambda>i. fu_block_of (fv_registers f) (base + i) \<noteq> None \<and> fu_read_byte (fv_registers f) (base + i) = held ! i)
       [0..<length held] \<and>
     \<not> fu_is_write_only base (length held)"

definition control_ready :: "nat \<Rightarrow> bytes \<Rightarrow> fake_u3v control_channel \<Rightarrow> bool" where
  "control_ready base held c \<longleftrightarrow>
     camera_holds base held (cc_usb c) \<and> cc_ep_in c \<noteq> STREAM_EP \<and> cc_ep_in c \<noteq> EVENT_EP"

lemma write_only_part:
  assumes "\<not> fu_is_write_only base m" "base \<le> a" "a + n \<le> base + m"
  shows "\<not> fu_is_write_only a n"
  using assms by (auto simp: fu_is_write_only_def list_ex_iff)

lemma camera_reads:
  assumes "camera_holds base held f" "base \<le> a" "a + n \<le> base + length held"
  shows "fu_is_mapped (fv_registers f) a n" "fu_read (fv_registers f) a n = take n (drop (a - base) held)"
    "\<not> fu_is_write_only a n"
proof -
  have at: "fu_block_of (fv_registers f) (a + i) \<noteq> None \<and> fu_read_byte (fv_registers f) (a + i) = held ! (a - base + i)"
    if "i < n" for i
  proof -
    have "a - base + i < length held" "base + (a - base + i) = a + i" using that assms(2,3) by auto
    then show ?thesis using assms(1) unfolding camera_holds_def list_all_iff by (metis atLeastLessThan_iff le0 set_upt)
  qed
  show "fu_is_mapped (fv_registers f) a n" using at by (simp add: fu_is_mapped_def list_all_iff)
  show "fu_read (fv_registers f) a n = take n (drop (a - base) held)"
    using at assms(2,3) by (intro nth_equalityI) (auto simp: fu_read_def)
  show "\<not> fu_is_write_only a n" using assms write_only_part by (auto simp: camera_holds_def)
qed

lemma success_status: "u3v_from_raw (status_to_raw Success) = Common Success"
  using u3v_from_raw_common [of "status_to_raw Success" Success] by simp

lemma readmem_fields:
  assumes "a < 2 ^ 64" "n < 65536"
  defines "scd \<equiv> readmem_scd (word_of_nat a) n"
  shows "length scd = 12" "unat (le_word (take 8 scd) :: u64) = a" "le_word (take 2 (drop 8 scd)) = (0 :: u16)"
    "unat (le_word (take 2 (drop 10 scd)) :: u16) = n"
  using assms(1,2) le_word_put_le [of 0 2, where ?'a = 16] le_word_put_le [of a 8, where ?'a = 64]
  unfolding scd_def by (simp_all add: readmem_scd_def unat_of_nat_small)

lemma execute_readmem:
  assumes "camera_holds base held f" "base \<le> a" "a + n \<le> base + length held" "base + length held \<le> 2 ^ 64"
    "0 < n" "n < 65536"
  shows "execute (encode_command U3V_READMEM_CMD rid (readmem_scd (word_of_nat a) n)) f =
    (Some (fu_build_ack Success U3V_READMEM_ACK rid (take n (drop (a - base) held))),
     f\<lparr>fv_reads := fv_reads f @ [(a, n)]\<rparr>)"
proof -
  let ?scd = "readmem_scd (word_of_nat a) n" and ?p = "encode_command U3V_READMEM_CMD rid (readmem_scd (word_of_nat a) n)"
  have a: "a < 2 ^ 64" using assms(3-5) by simp
  note scd = readmem_fields [OF a assms(6)]
  have small: "length ?scd < 65536" by (simp add: scd(1))
  note p = command_fields [OF small, of U3V_READMEM_CMD rid]
  have drops: "drop (12 + i) ?p = drop i ?scd" for i
    using p(7) by (metis add.commute drop_drop)
  have tail: "(field_at 8 12 ?p :: u64) = le_word (take 8 ?scd)" "(field_at 2 20 ?p :: u16) = le_word (take 2 (drop 8 ?scd))"
    "(field_at 2 22 ?p :: u16) = le_word (take 2 (drop 10 ?scd))"
    using drops [of 0] drops [of 8] drops [of 10] by (simp_all add: field_at_def)
  have args: "unat (field_at 8 12 ?p :: u64) = a" "(field_at 2 20 ?p :: u16) = 0" "unat (field_at 2 22 ?p :: u16) = n"
    unfolding tail using scd(2-4) by simp_all
  have read: "execute_read a 0 n U3V_READMEM_ACK rid f =
      (fu_build_ack Success U3V_READMEM_ACK rid (take n (drop (a - base) held)), f\<lparr>fv_reads := fv_reads f @ [(a, n)]\<rparr>)"
    using camera_reads [OF assms(1-3)] by (simp add: execute_read_def Let_def)
  have ids: "U3V_READMEM_CMD OR 1 = U3V_READMEM_ACK" "CCD_REQUEST_ACK \<noteq> 0"
    by (simp_all add: U3V_READMEM_CMD_def U3V_READMEM_ACK_def CCD_REQUEST_ACK_def)
  show ?thesis
    unfolding execute_def
    by (simp add: p(1-6) scd(1) args read ids U3V_HEADER_SIZE_def Let_def)
qed

lemma transact_readmem:
  assumes "control_ready base held c" "base \<le> a" "a + n \<le> base + length held" "base + length held \<le> 2 ^ 64"
    "0 < n" "n < 65536" "U3V_HEADER_SIZE + n \<le> unat (cc_max_ack c)"
  shows "\<exists>c'. transact (fake_transfer P) U3V_READMEM_CMD U3V_READMEM_ACK (readmem_scd (word_of_nat a) n) c =
    (Ok (take n (drop (a - base) held)), c') \<and> control_ready base held c' \<and> cc_max_ack c' = cc_max_ack c \<and>
    fv_registers (cc_usb c') = fv_registers (cc_usb c)"
proof -
  define rid where "rid = u3v_next_request_id (cc_request_id c)"
  define data where "data = take n (drop (a - base) held)"
  define f where "f = cc_usb c"
  define f1 where "f1 = f\<lparr>fv_reads := fv_reads f @ [(a, n)]\<rparr>"
  define ack where "ack = fu_build_ack Success U3V_READMEM_ACK rid data"
  have holds: "camera_holds base held f" and eps: "cc_ep_in c \<noteq> STREAM_EP" "cc_ep_in c \<noteq> EVENT_EP"
    using assms(1) by (simp_all add: control_ready_def f_def)
  have plugged: "\<not> fv_unplugged f" using holds by (simp add: camera_holds_def)
  have len: "length data = n" using assms(2,3) by (simp add: data_def)
  have run: "execute (encode_command U3V_READMEM_CMD rid (readmem_scd (word_of_nat a) n)) f = (Some ack, f1)"
    using execute_readmem [OF holds assms(2-6)] by (simp add: ack_def data_def f1_def)
  have ack_len: "length ack = 12 + n" using len by (simp add: ack_def fu_build_ack_def prefix_word)
  have decoded: "u3v_decode_ack ack =
      Ok \<lparr>ap_status = Common Success, ap_command = U3V_READMEM_ACK, ap_request_id = rid, ap_payload = data\<rparr>"
    using decode_built_ack [of data Success U3V_READMEM_ACK rid] len assms(6) unfolding ack_def success_status by simp
  have judged: "judge_acknowledge rid U3V_READMEM_ACK
      \<lparr>ap_status = Common Success, ap_command = U3V_READMEM_ACK, ap_request_id = rid, ap_payload = data\<rparr> = Settled (Ok data)"
    by (simp add: judge_acknowledge_def U3V_READMEM_ACK_def U3V_PENDING_ACK_def)
  define c1 where "c1 = c\<lparr>cc_request_id := rid, cc_usb := f1\<lparr>fv_pending_ack := Some ack\<rparr>\<rparr>"
  define c2 where "c2 = c1\<lparr>cc_usb := f1\<lparr>fv_pending_ack := None\<rparr>\<rparr>"
  have wrote: "usb_checked (fake_transfer P) (ut_bulk_write (fake_transfer P) ep
        (encode_command U3V_READMEM_CMD rid (readmem_scd (word_of_nat a) n)) t f) (c\<lparr>cc_request_id := rid\<rparr>) =
      (Ok (length (encode_command U3V_READMEM_CMD rid (readmem_scd (word_of_nat a) n))), c1)" for ep t
    using plugged by (simp add: usb_checked_def fake_transfer_def fu_bulk_write_def run c1_def)
  have fits: "length ack \<le> max (unat (cc_max_ack c)) U3V_HEADER_SIZE"
    using assms(7) by (simp add: ack_len U3V_HEADER_SIZE_def)
  have got: "usb_checked (fake_transfer P) (ut_bulk_read (fake_transfer P) (cc_ep_in c)
        (max (unat (cc_max_ack c)) U3V_HEADER_SIZE) t (f1\<lparr>fv_pending_ack := Some ack\<rparr>)) c1 = (Ok ack, c2)" for t
    using plugged eps fits unfolding linorder_not_less [symmetric]
    by (simp add: usb_checked_def fake_transfer_def fu_bulk_read_def f1_def c2_def del: max_less_iff_conj)
  have c1: "cc_max_ack c1 = cc_max_ack c" "cc_ep_in c1 = cc_ep_in c" "cc_usb c1 = f1\<lparr>fv_pending_ack := Some ack\<rparr>"
    by (simp_all add: c1_def)
  have answer: "await_ack (Suc k) (fake_transfer P) rid U3V_READMEM_ACK t c1 = (Ok data, c2)" for k t
    unfolding await_ack.simps Let_def c1 got
    using fits by (simp add: decoded judged linorder_not_less [symmetric])
  have "transact (fake_transfer P) U3V_READMEM_CMD U3V_READMEM_ACK (readmem_scd (word_of_nat a) n) c = (Ok data, c2)"
    using wrote [of "cc_ep_out c" "cc_timeout c"] answer [of 99 "cc_timeout c1"]
    by (simp add: transact_def Let_def rid_def [symmetric] f_def [symmetric] MAX_ACKS_PER_COMMAND_def)
  moreover have "control_ready base held c2"
    using holds eps by (simp add: control_ready_def c2_def c1_def f1_def camera_holds_def)
  moreover have "fv_registers (cc_usb c2) = fv_registers (cc_usb c)" by (simp add: c2_def c1_def f1_def f_def)
  ultimately show ?thesis by (auto simp: data_def c2_def c1_def)
qed

text \<open>The camera's registers are not changed by reads.\<close>

interpretation camera_memory: control_memory "fake_transfer P"
    "\<lambda>c. base + length held \<le> 2 ^ 64 \<and> control_ready base held c \<and> fv_registers (cc_usb c) = rm" base held
  for P base held rm
proof
qed (use transact_readmem in fastforce)

end
