(* ===== verification/U3v_Bootstrap.thy ===== *)
theory U3v_Bootstrap
  imports U3v_Control
begin

text \<open>
  The bootstrap registers of a USB3 Vision device (\<^verbatim>\<open>crates/viva-u3v/src/bootstrap.rs\<close>): the register
  maps a host reads when it opens a device, the transfer layout and the switches it writes, and the manifest
  that says where the GenApi document is. All registers are little-endian.

  The conversion of UTF-8 and UTF-16 text is a parameter. Addresses wrap, as they do without overflow
  checks.
\<close>

section \<open>Offsets and bits\<close>

definition ABRM_GENCP_VERSION :: u64 where "ABRM_GENCP_VERSION = 0x0000"
definition ABRM_MANUFACTURER_NAME :: u64 where "ABRM_MANUFACTURER_NAME = 0x0004"
definition ABRM_MODEL_NAME :: u64 where "ABRM_MODEL_NAME = 0x0044"
definition ABRM_FAMILY_NAME :: u64 where "ABRM_FAMILY_NAME = 0x0084"
definition ABRM_DEVICE_VERSION :: u64 where "ABRM_DEVICE_VERSION = 0x00C4"
definition ABRM_MANUFACTURER_INFO :: u64 where "ABRM_MANUFACTURER_INFO = 0x0104"
definition ABRM_SERIAL_NUMBER :: u64 where "ABRM_SERIAL_NUMBER = 0x0144"
definition ABRM_USER_DEFINED_NAME :: u64 where "ABRM_USER_DEFINED_NAME = 0x0184"
definition ABRM_DEVICE_CAPABILITY :: u64 where "ABRM_DEVICE_CAPABILITY = 0x01C4"
definition ABRM_MAX_DEVICE_RESPONSE_TIME :: u64 where "ABRM_MAX_DEVICE_RESPONSE_TIME = 0x01CC"
definition ABRM_MANIFEST_TABLE_ADDRESS :: u64 where "ABRM_MANIFEST_TABLE_ADDRESS = 0x01D0"
definition ABRM_SBRM_ADDRESS :: u64 where "ABRM_SBRM_ADDRESS = 0x01D8"
definition ABRM_DEVICE_CONFIGURATION :: u64 where "ABRM_DEVICE_CONFIGURATION = 0x01E0"
definition ABRM_HEARTBEAT_TIMEOUT :: u64 where "ABRM_HEARTBEAT_TIMEOUT = 0x01E8"
definition ABRM_MESSAGE_CHANNEL_ID :: u64 where "ABRM_MESSAGE_CHANNEL_ID = 0x01EC"
definition ABRM_TIMESTAMP :: u64 where "ABRM_TIMESTAMP = 0x01F0"
definition ABRM_TIMESTAMP_LATCH :: u64 where "ABRM_TIMESTAMP_LATCH = 0x01F8"
definition ABRM_TIMESTAMP_INCREMENT :: u64 where "ABRM_TIMESTAMP_INCREMENT = 0x01FC"
definition ABRM_ACCESS_PRIVILEGE :: u64 where "ABRM_ACCESS_PRIVILEGE = 0x0204"
definition ABRM_IMPLEMENTATION_ENDIANNESS :: u64 where "ABRM_IMPLEMENTATION_ENDIANNESS = 0x020C"
definition ABRM_LEN :: u64 where "ABRM_LEN = 0x0210"
definition ABRM_STRING_LEN :: nat where "ABRM_STRING_LEN = 64"
definition CAP_USER_DEFINED_NAME :: u64 where "CAP_USER_DEFINED_NAME = 1"
definition CAP_ACCESS_PRIVILEGE :: u64 where "CAP_ACCESS_PRIVILEGE = push_bit 1 1"
definition CAP_MESSAGE_CHANNEL :: u64 where "CAP_MESSAGE_CHANNEL = push_bit 2 1"
definition CAP_TIMESTAMP :: u64 where "CAP_TIMESTAMP = push_bit 3 1"
definition CAP_STRING_ENCODING_SHIFT :: nat where "CAP_STRING_ENCODING_SHIFT = 4"
definition CAP_FAMILY_NAME :: u64 where "CAP_FAMILY_NAME = push_bit 8 1"
definition CAP_SBRM :: u64 where "CAP_SBRM = push_bit 9 1"
definition CAP_ENDIANNESS_REGISTER :: u64 where "CAP_ENDIANNESS_REGISTER = push_bit 10 1"
definition CAP_WRITTEN_LENGTH :: u64 where "CAP_WRITTEN_LENGTH = push_bit 11 1"
definition SBRM_U3V_VERSION :: u64 where "SBRM_U3V_VERSION = 0x0000"
definition SBRM_U3VCP_CAPABILITY :: u64 where "SBRM_U3VCP_CAPABILITY = 0x0004"
definition SBRM_U3VCP_CONFIGURATION :: u64 where "SBRM_U3VCP_CONFIGURATION = 0x000C"
definition SBRM_MAX_CMD_TRANSFER :: u64 where "SBRM_MAX_CMD_TRANSFER = 0x0014"
definition SBRM_MAX_ACK_TRANSFER :: u64 where "SBRM_MAX_ACK_TRANSFER = 0x0018"
definition SBRM_NUM_STREAM_CHANNELS :: u64 where "SBRM_NUM_STREAM_CHANNELS = 0x001C"
definition SBRM_SIRM_ADDRESS :: u64 where "SBRM_SIRM_ADDRESS = 0x0020"
definition SBRM_SIRM_LENGTH :: u64 where "SBRM_SIRM_LENGTH = 0x0028"
definition SBRM_EIRM_ADDRESS :: u64 where "SBRM_EIRM_ADDRESS = 0x002C"
definition SBRM_EIRM_LENGTH :: u64 where "SBRM_EIRM_LENGTH = 0x0034"
definition SBRM_IIDC2_ADDRESS :: u64 where "SBRM_IIDC2_ADDRESS = 0x0038"
definition SBRM_CURRENT_SPEED :: u64 where "SBRM_CURRENT_SPEED = 0x0040"
definition SBRM_LEN :: u64 where "SBRM_LEN = 0x0044"
definition U3VCP_SIRM_AVAILABLE :: u64 where "U3VCP_SIRM_AVAILABLE = 1"
definition U3VCP_EIRM_AVAILABLE :: u64 where "U3VCP_EIRM_AVAILABLE = push_bit 1 1"
definition U3VCP_IIDC2_AVAILABLE :: u64 where "U3VCP_IIDC2_AVAILABLE = push_bit 2 1"
definition SIRM_INFO :: u64 where "SIRM_INFO = 0x0000"
definition SIRM_CONTROL :: u64 where "SIRM_CONTROL = 0x0004"
definition SIRM_REQUIRED_PAYLOAD_SIZE :: u64 where "SIRM_REQUIRED_PAYLOAD_SIZE = 0x0008"
definition SIRM_REQUIRED_LEADER_SIZE :: u64 where "SIRM_REQUIRED_LEADER_SIZE = 0x0010"
definition SIRM_REQUIRED_TRAILER_SIZE :: u64 where "SIRM_REQUIRED_TRAILER_SIZE = 0x0014"
definition SIRM_MAX_LEADER_SIZE :: u64 where "SIRM_MAX_LEADER_SIZE = 0x0018"
definition SIRM_PAYLOAD_TRANSFER_SIZE :: u64 where "SIRM_PAYLOAD_TRANSFER_SIZE = 0x001C"
definition SIRM_PAYLOAD_TRANSFER_COUNT :: u64 where "SIRM_PAYLOAD_TRANSFER_COUNT = 0x0020"
definition SIRM_FINAL_TRANSFER1_SIZE :: u64 where "SIRM_FINAL_TRANSFER1_SIZE = 0x0024"
definition SIRM_FINAL_TRANSFER2_SIZE :: u64 where "SIRM_FINAL_TRANSFER2_SIZE = 0x0028"
definition SIRM_MAX_TRAILER_SIZE :: u64 where "SIRM_MAX_TRAILER_SIZE = 0x002C"
definition SIRM_LEN :: u64 where "SIRM_LEN = 0x0030"
definition SIRM_STREAM_ENABLE :: u32 where "SIRM_STREAM_ENABLE = 1"
definition EIRM_CONTROL :: u64 where "EIRM_CONTROL = 0x0000"
definition EIRM_MAXIMUM_EVENT_TRANSFER_LENGTH :: u64 where "EIRM_MAXIMUM_EVENT_TRANSFER_LENGTH = 0x0004"
definition EIRM_EVENT_TEST_CONTROL :: u64 where "EIRM_EVENT_TEST_CONTROL = 0x0008"
definition EIRM_EVENT_ENABLE :: u32 where "EIRM_EVENT_ENABLE = 1"
definition MANIFEST_ENTRIES :: u64 where "MANIFEST_ENTRIES = 8"
definition MANIFEST_ENTRY_LEN :: u64 where "MANIFEST_ENTRY_LEN = 64"
definition MANIFEST_MAX_ENTRIES :: u64 where "MANIFEST_MAX_ENTRIES = 16"

section \<open>Registers\<close>

definition read_reg32 :: "'q usb_transfer \<Rightarrow> u64 \<Rightarrow> (u32, 'q) cc_act" where
  "read_reg32 T addr c = bind (u3v_read_mem T addr 4 c) (\<lambda>b c. (or_panic (le_at 4 0 b) Ok, c))"

definition read_reg64 :: "'q usb_transfer \<Rightarrow> u64 \<Rightarrow> (u64, 'q) cc_act" where
  "read_reg64 T addr c = bind (u3v_read_mem T addr 8 c) (\<lambda>b c. (or_panic (le_at 8 0 b) Ok, c))"

record text_decoders =
  td_utf8 :: "bytes \<Rightarrow> string"
  td_utf16 :: "u16 list \<Rightarrow> string"

definition parse_nul_string :: "text_decoders \<Rightarrow> bytes \<Rightarrow> string" where
  "parse_nul_string D data = td_utf8 D (takeWhile (\<lambda>b. b \<noteq> 0) data)"

datatype string_encoding = Ascii | Utf8 | Utf16

definition from_capability :: "u64 \<Rightarrow> string_encoding" where
  "from_capability capability =
     (let e = drop_bit CAP_STRING_ENCODING_SHIFT capability AND 0xF in
      if e = 1 then Utf8 else if e = 2 then Utf16 else Ascii)"

fun le_pairs :: "bytes \<Rightarrow> u16 list" where
  "le_pairs (a # b # bs) = le_word [a, b] # le_pairs bs"
| "le_pairs _ = []"

definition decode_string :: "text_decoders \<Rightarrow> string_encoding \<Rightarrow> bytes \<Rightarrow> string" where
  "decode_string D e raw =
     (case e of
        Utf16 \<Rightarrow> td_utf16 D (takeWhile (\<lambda>u. u \<noteq> 0) (le_pairs raw))
      | _ \<Rightarrow> parse_nul_string D raw)"

section \<open>The technology-agnostic map\<close>

record u3v_abrm =
  ab_gencp_version :: u32
  ab_manufacturer_name :: string
  ab_model_name :: string
  ab_family_name :: string
  ab_device_version :: string
  ab_manufacturer_info :: string
  ab_serial_number :: string
  ab_user_defined_name :: string
  ab_device_capability :: u64
  ab_max_device_response_time :: u32
  ab_manifest_table_address :: u64
  ab_sbrm_address :: u64

definition read_string :: "text_decoders \<Rightarrow> 'q usb_transfer \<Rightarrow> u64 \<Rightarrow> u64 \<Rightarrow> (string, 'q) cc_act" where
  "read_string D T capability addr c =
     bind (u3v_read_mem T addr ABRM_STRING_LEN c) (\<lambda>raw c. (Ok (decode_string D (from_capability capability) raw), c))"

definition read_optional_string :: "text_decoders \<Rightarrow> 'q usb_transfer \<Rightarrow> u64 \<Rightarrow> u64 \<Rightarrow> u64 \<Rightarrow> (string, 'q) cc_act" where
  "read_optional_string D T capability flag addr c =
     (if capability AND flag = 0 then (Ok [], c) else read_string D T capability addr c)"

definition read_abrm :: "text_decoders \<Rightarrow> 'q usb_transfer \<Rightarrow> (u3v_abrm, 'q) cc_act" where
  "read_abrm D T c =
     bind (read_reg32 T ABRM_GENCP_VERSION c) (\<lambda>version c.
     bind (read_reg64 T ABRM_DEVICE_CAPABILITY c) (\<lambda>capability c.
     bind (read_string D T capability ABRM_MANUFACTURER_NAME c) (\<lambda>manufacturer c.
     bind (read_string D T capability ABRM_MODEL_NAME c) (\<lambda>model c.
     bind (read_optional_string D T capability CAP_FAMILY_NAME ABRM_FAMILY_NAME c) (\<lambda>family c.
     bind (read_string D T capability ABRM_DEVICE_VERSION c) (\<lambda>device c.
     bind (read_string D T capability ABRM_MANUFACTURER_INFO c) (\<lambda>info c.
     bind (read_string D T capability ABRM_SERIAL_NUMBER c) (\<lambda>serial c.
     bind (read_optional_string D T capability CAP_USER_DEFINED_NAME ABRM_USER_DEFINED_NAME c) (\<lambda>user c.
     bind (read_reg32 T ABRM_MAX_DEVICE_RESPONSE_TIME c) (\<lambda>response c.
     bind (read_reg64 T ABRM_MANIFEST_TABLE_ADDRESS c) (\<lambda>manifest c.
     bind (read_reg64 T ABRM_SBRM_ADDRESS c) (\<lambda>sbrm c.
       (Ok \<lparr>ab_gencp_version = version, ab_manufacturer_name = manufacturer, ab_model_name = model,
            ab_family_name = family, ab_device_version = device, ab_manufacturer_info = info,
            ab_serial_number = serial, ab_user_defined_name = user, ab_device_capability = capability,
            ab_max_device_response_time = response, ab_manifest_table_address = manifest,
            ab_sbrm_address = sbrm\<rparr>, c)))))))))))))"

section \<open>The technology-specific map\<close>

datatype usb_speed = SpeedLow | SpeedFull | SpeedHigh | SpeedSuper | SpeedSuperPlus

definition speed_from_register :: "u32 \<Rightarrow> usb_speed option" where
  "speed_from_register bits =
     (if bits = 0 then None
      else if bits AND push_bit 4 1 \<noteq> 0 then Some SpeedSuperPlus
      else if bits AND push_bit 3 1 \<noteq> 0 then Some SpeedSuper
      else if bits AND push_bit 2 1 \<noteq> 0 then Some SpeedHigh
      else if bits AND push_bit 1 1 \<noteq> 0 then Some SpeedFull
      else Some SpeedLow)"

text \<open>The derived order of the speeds.\<close>

definition speed_rank :: "usb_speed \<Rightarrow> nat" where
  "speed_rank s =
     (case s of SpeedLow \<Rightarrow> 0 | SpeedFull \<Rightarrow> 1 | SpeedHigh \<Rightarrow> 2 | SpeedSuper \<Rightarrow> 3 | SpeedSuperPlus \<Rightarrow> 4)"

definition is_below_superspeed :: "usb_speed \<Rightarrow> bool" where
  "is_below_superspeed s \<longleftrightarrow> speed_rank s < speed_rank SpeedSuper"

definition show_speed :: "usb_speed \<Rightarrow> string" where
  "show_speed s =
     (case s of
        SpeedLow \<Rightarrow> ''low speed (1.5 Mbit/s)''
      | SpeedFull \<Rightarrow> ''full speed (12 Mbit/s)''
      | SpeedHigh \<Rightarrow> ''high speed (480 Mbit/s, USB 2)''
      | SpeedSuper \<Rightarrow> ''SuperSpeed (5 Gbit/s)''
      | SpeedSuperPlus \<Rightarrow> ''SuperSpeed+ (10 Gbit/s)'')"

record u3v_sbrm =
  sb_base :: u64
  sb_u3v_version :: u32
  sb_capability :: u64
  sb_max_cmd_transfer :: u32
  sb_max_ack_transfer :: u32
  sb_num_stream_channels :: u32
  sb_sirm_address :: u64
  sb_sirm_length :: u32
  sb_eirm_address :: u64
  sb_eirm_length :: u32
  sb_current_speed :: "usb_speed option"

text \<open>A register the device refuses reads as 0; a failed transfer stays one.\<close>

definition or_absent :: "('w::len word, u3v_error) result \<times> 'c \<Rightarrow> ('w word, u3v_error) result \<times> 'c" where
  "or_absent m = (case m of (Err (DeviceStatus _), c) \<Rightarrow> (Ok 0, c) | _ \<Rightarrow> m)"

definition read_sbrm :: "'q usb_transfer \<Rightarrow> u64 \<Rightarrow> (u3v_sbrm, 'q) cc_act" where
  "read_sbrm T base c =
     bind (read_reg64 T (base + SBRM_U3VCP_CAPABILITY) c) (\<lambda>capability c.
     bind (read_reg32 T (base + SBRM_U3V_VERSION) c) (\<lambda>version c.
     bind (read_reg32 T (base + SBRM_MAX_CMD_TRANSFER) c) (\<lambda>max_cmd c.
     bind (read_reg32 T (base + SBRM_MAX_ACK_TRANSFER) c) (\<lambda>max_ack c.
     bind (read_reg32 T (base + SBRM_NUM_STREAM_CHANNELS) c) (\<lambda>channels c.
     bind (or_absent (read_reg64 T (base + SBRM_SIRM_ADDRESS) c)) (\<lambda>sirm c.
     bind (or_absent (read_reg32 T (base + SBRM_SIRM_LENGTH) c)) (\<lambda>sirm_length c.
     bind (or_absent (read_reg64 T (base + SBRM_EIRM_ADDRESS) c)) (\<lambda>eirm c.
     bind (or_absent (read_reg32 T (base + SBRM_EIRM_LENGTH) c)) (\<lambda>eirm_length c.
     bind (or_absent (read_reg32 T (base + SBRM_CURRENT_SPEED) c)) (\<lambda>speed c.
       (Ok \<lparr>sb_base = base, sb_u3v_version = version, sb_capability = capability, sb_max_cmd_transfer = max_cmd,
            sb_max_ack_transfer = max_ack, sb_num_stream_channels = channels, sb_sirm_address = sirm,
            sb_sirm_length = sirm_length, sb_eirm_address = eirm, sb_eirm_length = eirm_length,
            sb_current_speed = speed_from_register speed\<rparr>, c)))))))))))"

section \<open>The streaming map\<close>

record u3v_sirm =
  si_base :: u64
  si_info :: u32
  si_control :: u32
  si_required_payload_size :: u64
  si_required_leader_size :: u32
  si_required_trailer_size :: u32

definition read_sirm :: "'q usb_transfer \<Rightarrow> u64 \<Rightarrow> (u3v_sirm, 'q) cc_act" where
  "read_sirm T base c =
     bind (read_reg32 T (base + SIRM_INFO) c) (\<lambda>info c.
     bind (read_reg32 T (base + SIRM_CONTROL) c) (\<lambda>control c.
     bind (read_reg64 T (base + SIRM_REQUIRED_PAYLOAD_SIZE) c) (\<lambda>payload c.
     bind (read_reg32 T (base + SIRM_REQUIRED_LEADER_SIZE) c) (\<lambda>leader c.
     bind (read_reg32 T (base + SIRM_REQUIRED_TRAILER_SIZE) c) (\<lambda>trailer c.
       (Ok \<lparr>si_base = base, si_info = info, si_control = control, si_required_payload_size = payload,
            si_required_leader_size = leader, si_required_trailer_size = trailer\<rparr>, c))))))"

definition sirm_alignment :: "u3v_sirm \<Rightarrow> (u32, u3v_error) result" where
  "sirm_alignment s =
     (let exponent = unat (drop_bit 24 (si_info s)) in
      if exponent < 32 then Ok (push_bit exponent 1)
      else Err (Unusable ''asks for a transfer alignment beyond 2^31 bytes''))"

definition layout_registers :: "stream_layout \<Rightarrow> (u64 \<times> u32) list" where
  "layout_registers l =
     [(SIRM_MAX_LEADER_SIZE, sl_leader_size l), (SIRM_MAX_TRAILER_SIZE, sl_trailer_size l),
      (SIRM_PAYLOAD_TRANSFER_SIZE, sl_transfer_size l), (SIRM_PAYLOAD_TRANSFER_COUNT, sl_transfer_count l),
      (SIRM_FINAL_TRANSFER1_SIZE, sl_final1 l), (SIRM_FINAL_TRANSFER2_SIZE, sl_final2 l)]"

definition write_reg32 :: "'q usb_transfer \<Rightarrow> u64 \<Rightarrow> u32 \<Rightarrow> (unit, 'q) cc_act" where
  "write_reg32 T addr v = u3v_write_mem T addr (put_le 4 (unat v))"

primrec write_registers :: "'q usb_transfer \<Rightarrow> u64 \<Rightarrow> (u64 \<times> u32) list \<Rightarrow> (unit, 'q) cc_act" where
  "write_registers T base [] c = (Ok (), c)"
| "write_registers T base (r # rs) c =
     bind (write_reg32 T (base + fst r) (snd r) c) (\<lambda>_ c. write_registers T base rs c)"

definition sirm_configure :: "'q usb_transfer \<Rightarrow> u3v_sirm \<Rightarrow> stream_layout \<Rightarrow> (unit, 'q) cc_act" where
  "sirm_configure T s l = write_registers T (si_base s) (layout_registers l)"

definition sirm_enable :: "'q usb_transfer \<Rightarrow> u3v_sirm \<Rightarrow> (unit, 'q) cc_act" where
  "sirm_enable T s = write_reg32 T (si_base s + SIRM_CONTROL) SIRM_STREAM_ENABLE"

definition sirm_disable :: "'q usb_transfer \<Rightarrow> u3v_sirm \<Rightarrow> (unit, 'q) cc_act" where
  "sirm_disable T s = write_reg32 T (si_base s + SIRM_CONTROL) 0"

section \<open>The event map\<close>

record u3v_eirm =
  ei_base :: u64
  ei_maximum_event_transfer_length :: u32

definition read_eirm :: "'q usb_transfer \<Rightarrow> u64 \<Rightarrow> (u3v_eirm, 'q) cc_act" where
  "read_eirm T base c =
     bind (read_reg32 T (base + EIRM_MAXIMUM_EVENT_TRANSFER_LENGTH) c) (\<lambda>n c.
       (Ok \<lparr>ei_base = base, ei_maximum_event_transfer_length = n\<rparr>, c))"

definition eirm_set_enabled :: "'q usb_transfer \<Rightarrow> u3v_eirm \<Rightarrow> bool \<Rightarrow> (unit, 'q) cc_act" where
  "eirm_set_enabled T e enabled =
     write_reg32 T (ei_base e + EIRM_CONTROL) (if enabled then EIRM_EVENT_ENABLE else 0)"

section \<open>The manifest\<close>

datatype file_format = Uncompressed | Zip | ReservedFormat u8

record manifest_entry =
  me_file_address :: u64
  me_file_size :: u64
  me_format :: file_format

definition file_format_of :: "u32 \<Rightarrow> file_format" where
  "file_format_of schema =
     (let v = ucast (drop_bit 10 schema AND 0x3F) :: u8 in
      if v = 0 then Uncompressed else if v = 1 then Zip else ReservedFormat v)"

text \<open>What is made of one entry: \<open>None\<close> for a file that is not a device's document.\<close>

definition manifest_entry_of :: "bytes \<Rightarrow> (manifest_entry option, u3v_error) result" where
  "manifest_entry_of entry =
     or_panic (le_at 4 4 entry) (\<lambda>schema :: u32.
       if schema AND 0x7 \<noteq> 0 then Ok None
       else
         or_panic (le_at 8 8 entry) (\<lambda>address.
         or_panic (le_at 8 16 entry) (\<lambda>len.
           Ok (Some \<lparr>me_file_address = address, me_file_size = len, me_format = file_format_of schema\<rparr>))))"

primrec manifest_loop :: "'q usb_transfer \<Rightarrow> u64 \<Rightarrow> nat list \<Rightarrow> (manifest_entry, 'q) cc_act" where
  "manifest_loop T table [] c = (Err (Unusable ''lists no device XML in its manifest''), c)"
| "manifest_loop T table (i # is) c =
     bind (u3v_read_mem T (table + MANIFEST_ENTRIES + word_of_nat i * MANIFEST_ENTRY_LEN) 24 c) (\<lambda>entry c.
     bind (manifest_entry_of entry, c) (\<lambda>found c.
       case found of Some e \<Rightarrow> (Ok e, c) | None \<Rightarrow> manifest_loop T table is c))"

definition read_device_xml :: "'q usb_transfer \<Rightarrow> u64 \<Rightarrow> (manifest_entry, 'q) cc_act" where
  "read_device_xml T table c =
     bind (read_reg64 T table c) (\<lambda>count c.
       if count = 0 then (Err (Unusable ''has an empty manifest table''), c)
       else manifest_loop T table [0..<min (unat count) (unat MANIFEST_MAX_ENTRIES)] c)"

end
