(* ===== verification/U3v_Event.thy ===== *)
theory U3v_Event
  imports U3v_Stream
begin

text \<open>
  USB3 Vision events (\<^verbatim>\<open>crates/viva-u3v/src/event.rs\<close>): the events an event command carries, and the
  stream of them read from the event endpoint with a few transfers queued.
\<close>

section \<open>Event commands\<close>

definition EVENT_PREFIX :: u32 where "EVENT_PREFIX = 0x45563355"
definition EVENT_COMMAND_SIZE :: nat where "EVENT_COMMAND_SIZE = 12"
definition EVENT_HEADER_SIZE :: nat where "EVENT_HEADER_SIZE = 12"
definition EVENT_CMD :: u16 where "EVENT_CMD = 0x0C00"
definition EVENTS_IN_FLIGHT :: nat where "EVENTS_IN_FLIGHT = 4"
definition MAX_EVENT_FAILURES :: nat where "MAX_EVENT_FAILURES = 8"
definition EVENT_REQUEST_ACK :: u16 where "EVENT_REQUEST_ACK = 0x4000"

record u3v_event =
  ue_id :: u16
  ue_timestamp :: u64
  ue_data :: bytes
  ue_raw :: bytes

definition event_malformed :: "string \<Rightarrow> ('a, u3v_error) result" where
  "event_malformed problem = Err (Malformed ''event command'' problem)"

text \<open>The size of the first event: a declared 0 is the whole rest.\<close>

definition event_size :: "bytes \<Rightarrow> (nat, u3v_error) result" where
  "event_size rest =
     or_panic (le_at 2 0 rest) (\<lambda>declared :: u16.
       let n = unat declared in
       if n = 0 then Ok (length rest)
       else if n < EVENT_HEADER_SIZE then event_malformed ''declares an event shorter than its header''
       else if n > length rest then event_malformed ''declares an event longer than the command''
       else Ok n)"

definition event_of :: "bytes \<Rightarrow> (u3v_event, u3v_error) result" where
  "event_of raw =
     or_panic (le_at 2 2 raw) (\<lambda>i.
     or_panic (le_at 8 4 raw) (\<lambda>t.
     or_panic (subslice EVENT_HEADER_SIZE (length raw) raw) (\<lambda>d.
       Ok \<lparr>ue_id = i, ue_timestamp = t, ue_data = d, ue_raw = raw\<rparr>)))"

text \<open>Each round takes an event header at least: one round a byte is enough.\<close>

primrec parse_events :: "nat \<Rightarrow> bytes \<Rightarrow> (u3v_event list, u3v_error) result" where
  "parse_events 0 rest = Ok []"
| "parse_events (Suc k) rest =
     (if rest = [] then Ok []
      else if length rest < EVENT_HEADER_SIZE then event_malformed ''ends inside an event header''
      else
        and_then (event_size rest) (\<lambda>n.
        and_then (event_of (take n rest)) (\<lambda>e.
        and_then (parse_events k (drop n rest)) (\<lambda>es. Ok (e # es)))))"

definition parse_event_command :: "bytes \<Rightarrow> (u3v_event list, u3v_error) result" where
  "parse_event_command packet =
     (if length packet < EVENT_COMMAND_SIZE then event_malformed ''is shorter than its header''
      else
        or_panic (le_at 4 0 packet) (\<lambda>prefix.
        if prefix \<noteq> EVENT_PREFIX then event_malformed ''lacks the U3VE prefix''
        else
          or_panic (le_at 2 6 packet) (\<lambda>command.
          if command \<noteq> EVENT_CMD then event_malformed ''is not an EVENT_CMD''
          else
            or_panic (le_at 2 8 packet) (\<lambda>len :: u16.
            case subslice EVENT_COMMAND_SIZE (EVENT_COMMAND_SIZE + unat len) packet of
              None \<Rightarrow> event_malformed ''is shorter than its length field''
            | Some scd \<Rightarrow> parse_events (length scd) scd))))"

section \<open>The stream of events\<close>

record 'q event_stream =
  es_queue :: 'q
  es_transfer :: nat
  es_events :: "u3v_event list"
  es_failures :: nat
  es_skipped :: u64
  es_warned_ack :: bool

definition event_stream_new :: "'q \<Rightarrow> u32 \<Rightarrow> nat option \<Rightarrow> 'q event_stream" where
  "event_stream_new q max_transfer packet =
     (let packet = max (case packet of Some p \<Rightarrow> p | None \<Rightarrow> 1) 1;
          most = (if max_transfer = 0 then 1024 else unat max_transfer) in
      \<lparr>es_queue = q, es_transfer = div_ceil most packet * packet, es_events = [], es_failures = 0, es_skipped = 0,
       es_warned_ack = False\<rparr>)"

definition take_event_packet :: "bytes \<Rightarrow> 'q event_stream \<Rightarrow> 'q event_stream" where
  "take_event_packet packet s =
     (case parse_event_command packet of
        Ok events \<Rightarrow>
          (let flags = (case le_at 2 4 packet of Some w \<Rightarrow> w | None \<Rightarrow> 0) in
           s\<lparr>es_failures := 0, es_warned_ack := es_warned_ack s \<or> flags AND EVENT_REQUEST_ACK \<noteq> 0,
             es_events := es_events s @ events\<rparr>)
      | _ \<Rightarrow> s\<lparr>es_skipped := es_skipped s + 1\<rparr>)"

text \<open>Each submit adds one transfer.\<close>

primrec submit_events :: "nat \<Rightarrow> 'q bulk_in \<Rightarrow> nat \<Rightarrow> 'q \<Rightarrow> 'q" where
  "submit_events 0 B len q = q"
| "submit_events (Suc k) B len q =
     (if bq_pending B q < EVENTS_IN_FLIGHT then submit_events k B len (bq_submit B len q) else q)"

text \<open>Cancelled transfers are taken back until one does not come.\<close>

primrec drain_events :: "nat \<Rightarrow> 'q bulk_in \<Rightarrow> duration \<Rightarrow> 'q \<Rightarrow> 'q" where
  "drain_events 0 B idle q = q"
| "drain_events (Suc k) B idle q =
     (if bq_pending B q > 0 then
        (case bq_wait_next B idle q of (None, q) \<Rightarrow> q | (Some _, q) \<Rightarrow> drain_events k B idle q)
      else q)"

definition event_failure :: "'q bulk_in \<Rightarrow> duration \<Rightarrow> u3v_error \<Rightarrow> 'q event_stream \<Rightarrow>
    (unit, u3v_error) result \<times> 'q event_stream" where
  "event_failure B idle error s =
     (if error = Disconnected then (Err Disconnected, s)
      else
        let (error, q) = unless_gone B error 0 (es_queue s); s = s\<lparr>es_queue := q\<rparr> in
        if error = Disconnected then (Err error, s)
        else
          let s = s\<lparr>es_failures := es_failures s + 1\<rparr> in
          if es_failures s > MAX_EVENT_FAILURES then
            (let (error, q) = unless_gone B error GONE_GRACE (es_queue s) in (Err error, s\<lparr>es_queue := q\<rparr>))
          else
            let q = bq_cancel_all B (es_queue s); q = drain_events (bq_pending B q) B idle q in
            case bq_reset B q of
              (Ok _, q) \<Rightarrow> (Ok (), s\<lparr>es_queue := q\<rparr>)
            | (Err e, q) \<Rightarrow> (let (e, q) = unless_gone B e GONE_GRACE q in (Err e, s\<lparr>es_queue := q\<rparr>))
            | (Panic, q) \<Rightarrow> (Panic, s\<lparr>es_queue := q\<rparr>))"

text \<open>
  The loop of \<open>next_event_within\<close>; it goes on as long as packets without events arrive, so the outer
  option is \<open>None\<close> when the fuel, one unit a round, runs out.
\<close>

primrec next_event_within :: "nat \<Rightarrow> 'q bulk_in \<Rightarrow> duration \<Rightarrow> 'q event_stream \<Rightarrow>
    (u3v_event option option, u3v_error) result \<times> 'q event_stream" where
  "next_event_within 0 B idle s = (Ok None, s)"
| "next_event_within (Suc k) B idle s =
     (case es_events s of
        e # es \<Rightarrow> (Ok (Some (Some e)), s\<lparr>es_events := es\<rparr>)
      | [] \<Rightarrow>
          (case bq_wait_next B idle (submit_events EVENTS_IN_FLIGHT B (es_transfer s) (es_queue s)) of
             (None, q) \<Rightarrow> (Ok (Some None), s\<lparr>es_queue := q\<rparr>)
           | (Some c, q) \<Rightarrow>
               (let s = s\<lparr>es_queue := q\<rparr> in
                case cm_status c of
                  Ok _ \<Rightarrow> next_event_within k B idle (take_event_packet (cm_data c) s)
                | Err e \<Rightarrow> bind (event_failure B idle e s) (\<lambda>_ s. next_event_within k B idle s)
                | Panic \<Rightarrow> (Panic, s))))"

section \<open>What an event command carries\<close>

definition declared_size :: "bytes \<Rightarrow> nat" where
  "declared_size raw = unat (le_word (take 2 raw) :: u16)"

text \<open>
  Events as a command lays them out: each at least a header long and as long as it declares, but for a
  last one that declares 0.
\<close>

fun tiled :: "bytes list \<Rightarrow> bool" where
  "tiled [] = True"
| "tiled (raw # raws) =
     (EVENT_HEADER_SIZE \<le> length raw \<and> (declared_size raw = length raw \<or> declared_size raw = 0 \<and> raws = []) \<and> tiled raws)"

definition event_in :: "bytes \<Rightarrow> u3v_event" where
  "event_in raw =
     \<lparr>ue_id = le_word (take 2 (drop 2 raw)), ue_timestamp = le_word (take 8 (drop 4 raw)), ue_data = drop 12 raw, ue_raw = raw\<rparr>"

lemma event_of_long: "EVENT_HEADER_SIZE \<le> length raw \<Longrightarrow> event_of raw = Ok (event_in raw)"
  by (simp add: event_of_def event_in_def EVENT_HEADER_SIZE_def le_at_inside subslice_def)

lemma event_size_cases:
  assumes "EVENT_HEADER_SIZE \<le> length rest"
  shows "event_size rest =
    (if declared_size rest = 0 then Ok (length rest)
     else if declared_size rest < EVENT_HEADER_SIZE then event_malformed ''declares an event shorter than its header''
     else if declared_size rest > length rest then event_malformed ''declares an event longer than the command''
     else Ok (declared_size rest))"
  using assms by (simp add: event_size_def declared_size_def EVENT_HEADER_SIZE_def le_at_inside Let_def)

lemma parse_events_sound:
  assumes "parse_events k rest = Ok es" "length rest \<le> k"
  shows "\<exists>raws. es = map event_in raws \<and> concat raws = rest \<and> tiled raws"
  using assms
proof (induction k arbitrary: rest es)
  case 0 then show ?case by (intro exI [of _ "[]"]) simp
next
  case (Suc k)
  show ?case
  proof (cases "rest = []")
    case True then show ?thesis using Suc.prems by (intro exI [of _ "[]"]) simp
  next
    case False
    then have long: "EVENT_HEADER_SIZE \<le> length rest"
      using Suc.prems(1) by (auto simp: event_malformed_def not_less split: if_splits)
    then obtain n e es' where n: "event_size rest = Ok n" and e: "event_of (take n rest) = Ok e"
      and es': "parse_events k (drop n rest) = Ok es'" and es: "es = e # es'"
      using Suc.prems(1) False by (auto simp: and_then_eq_Ok)
    have size: "EVENT_HEADER_SIZE \<le> n" "n \<le> length rest" "declared_size rest = n \<or> declared_size rest = 0 \<and> n = length rest"
      using n long unfolding event_size_cases [OF long] by (auto simp: event_malformed_def split: if_splits)
    have "length (drop n rest) \<le> k" using size(1) Suc.prems(2) by (simp add: EVENT_HEADER_SIZE_def)
    from Suc.IH [OF es' this] obtain raws where raws: "es' = map event_in raws" "concat raws = drop n rest" "tiled raws" by blast
    have raw: "e = event_in (take n rest)" using e event_of_long [of "take n rest"] size by simp
    have declared: "declared_size (take n rest) = declared_size rest"
      using size(1) by (simp add: declared_size_def EVENT_HEADER_SIZE_def min_def)
    have "raws = []" if "n = length rest"
    proof -
      have "concat raws = []" using raws(2) that by simp
      then show ?thesis using raws(3) by (cases raws) (auto simp: EVENT_HEADER_SIZE_def)
    qed
    then show ?thesis
      using raws raw es size declared by (intro exI [of _ "take n rest # raws"]) auto
  qed
qed

lemma parse_events_complete:
  assumes "tiled raws" "length (concat raws) \<le> k"
  shows "parse_events k (concat raws) = Ok (map event_in raws)"
  using assms
proof (induction raws arbitrary: k)
  case Nil then show ?case by (cases k) simp_all
next
  case (Cons raw raws)
  have long: "EVENT_HEADER_SIZE \<le> length raw" using Cons.prems(1) by simp
  then obtain j where k: "k = Suc j" using Cons.prems(2) by (cases k) (auto simp: EVENT_HEADER_SIZE_def)
  have declared: "declared_size (raw @ concat raws) = declared_size raw"
    using long by (simp add: declared_size_def EVENT_HEADER_SIZE_def)
  have whole: "EVENT_HEADER_SIZE \<le> length (raw @ concat raws)" using long by simp
  have size: "event_size (raw @ concat raws) = Ok (length raw)"
    using Cons.prems(1) long unfolding event_size_cases [OF whole] declared by (auto simp: EVENT_HEADER_SIZE_def)
  have "parse_events j (concat raws) = Ok (map event_in raws)"
    using Cons.prems k long by (intro Cons.IH) (auto simp: EVENT_HEADER_SIZE_def)
  moreover have "raw \<noteq> []" using long by (auto simp: EVENT_HEADER_SIZE_def)
  ultimately show ?case using k whole size event_of_long [OF long] by simp
qed

lemma parse_events_no_panic: "parse_events k rest \<noteq> Panic"
proof (induction k arbitrary: rest)
  case (Suc k)
  show ?case
  proof (cases "rest = [] \<or> length rest < EVENT_HEADER_SIZE")
    case True then show ?thesis by (auto simp: event_malformed_def)
  next
    case False
    then have long: "EVENT_HEADER_SIZE \<le> length rest" by simp
    have "event_size rest \<noteq> Panic" unfolding event_size_cases [OF long] by (simp add: event_malformed_def)
    moreover have "event_of (take n rest) \<noteq> Panic" if "event_size rest = Ok n" for n
      using that long event_of_long [of "take n rest"] unfolding event_size_cases [OF long]
      by (auto simp: event_malformed_def split: if_splits)
    ultimately show ?thesis using False Suc.IH by (auto simp: and_then_eq_Panic)
  qed
qed simp

text \<open>
  C37. The parser of event commands accepts exactly the packets with the event prefix and command whose
  data, as long as the length field says, is tiled by events, and returns these events in order; no
  packet makes it panic.
\<close>

theorem parse_event_command_iff:
  "parse_event_command packet \<noteq> Panic \<and>
   (parse_event_command packet = Ok es \<longleftrightarrow>
     (\<exists>raws rest. es = map event_in raws \<and> tiled raws \<and> 12 \<le> length packet \<and> drop 12 packet = concat raws @ rest \<and>
        le_word (take 4 packet) = EVENT_PREFIX \<and> le_word (take 2 (drop 6 packet)) = EVENT_CMD \<and>
        unat (le_word (take 2 (drop 8 packet)) :: u16) = length (concat raws)))"
proof -
  let ?len = "unat (le_word (take 2 (drop 8 packet)) :: u16)"
  consider (short) "length packet < 12"
    | (other) "12 \<le> length packet" "le_word (take 4 packet) \<noteq> EVENT_PREFIX \<or> le_word (take 2 (drop 6 packet)) \<noteq> EVENT_CMD"
    | (long) "12 \<le> length packet" "le_word (take 4 packet) = EVENT_PREFIX" "le_word (take 2 (drop 6 packet)) = EVENT_CMD"
    by linarith
  then show ?thesis
  proof cases
    case short
    then show ?thesis by (simp add: parse_event_command_def event_malformed_def EVENT_COMMAND_SIZE_def)
  next
    case other
    then show ?thesis
      by (auto simp: parse_event_command_def event_malformed_def EVENT_COMMAND_SIZE_def le_at_inside subslice_def)
  next
    case long
    have parse: "parse_event_command packet =
        (if 12 + ?len \<le> length packet then parse_events ?len (take ?len (drop 12 packet))
         else event_malformed ''is shorter than its length field'')"
      using long by (simp add: parse_event_command_def EVENT_COMMAND_SIZE_def le_at_inside subslice_def)
    show ?thesis
    proof (cases "12 + ?len \<le> length packet")
      case True
      let ?scd = "take ?len (drop 12 packet)"
      have "length ?scd = ?len" using True by simp
      have "parse_events ?len ?scd = Ok es \<longleftrightarrow> (\<exists>raws. es = map event_in raws \<and> tiled raws \<and> concat raws = ?scd)"
        using parse_events_sound [of ?len ?scd es] parse_events_complete [of _ ?len] True by fastforce
      moreover have "concat raws = ?scd \<longleftrightarrow> (\<exists>rest. drop 12 packet = concat raws @ rest \<and> ?len = length (concat raws))" for raws
        using True by (metis \<open>length ?scd = ?len\<close> append_eq_conv_conj append_take_drop_id)
      ultimately show ?thesis using True long parse parse_events_no_panic by auto
    next
      case False
      then show ?thesis using parse by (auto simp: event_malformed_def dest!: arg_cong [where f = length])
    qed
  qed
qed

end
