(* ===== verification/U3v_Device.thy ===== *)
theory U3v_Device
  imports U3v_Bootstrap U3v_Event
begin

text \<open>
  The handle of a USB3 Vision device (\<^verbatim>\<open>crates/viva-u3v/src/device.rs\<close>): opening it, its document, its
  time, and the streams of frames and events it starts and stops.

  The record \<open>device_usb\<close> is what a device uses of its transport: the transfers of the control channel, the
  speed and packet sizes the host knows, and the queue of a bulk IN endpoint, whose state \<open>'b\<close> is beside the
  transport's \<open>'q\<close>. The ZIP reader is a parameter, and so is the check of UTF-8.
\<close>

record 'q device_state =
  ud_control :: "'q control_channel"
  ud_abrm :: u3v_abrm
  ud_sbrm :: u3v_sbrm
  ud_stream_ep :: "u8 option"
  ud_event_ep :: "u8 option"
  ud_speed :: "usb_speed option"

record ('q, 'b) device_usb =
  du_transfer :: "'q usb_transfer"
  du_link_speed :: "'q \<Rightarrow> usb_speed option"
  du_max_packet_size :: "u8 \<Rightarrow> 'q \<Rightarrow> nat option"
  du_bulk_in :: "u8 \<Rightarrow> 'q \<Rightarrow> ('b, u3v_error) result \<times> 'q"
  du_reset :: "'b \<Rightarrow> 'q \<Rightarrow> (unit, u3v_error) result \<times> 'b \<times> 'q"

record document_reader =
  dr_texts :: text_decoders
  dr_unzip_first :: "bytes \<Rightarrow> (bytes, u3v_error) result"
  dr_from_utf8 :: "bytes \<Rightarrow> string option"

type_synonym ('a, 'q) device_act = "'q device_state \<Rightarrow> ('a, u3v_error) result \<times> 'q device_state"

record stream_options =
  so_payload_size_hint :: u64
  so_max_transfer_size :: u32
  so_transfers_in_flight :: nat

definition default_stream_options :: stream_options where
  "default_stream_options =
     \<lparr>so_payload_size_hint = 0, so_max_transfer_size = DEFAULT_MAX_TRANSFER_SIZE,
      so_transfers_in_flight = DEFAULT_TRANSFERS_IN_FLIGHT\<rparr>"

definition ZIP_MAGIC :: bytes where "ZIP_MAGIC = [0x50, 0x4B, 0x03, 0x04]"
definition INITIAL_MAX_TRANSFER :: u32 where "INITIAL_MAX_TRANSFER = 1024"
definition TRANSFER_MARGIN :: duration where "TRANSFER_MARGIN = 100 * 10 ^ 6"

section \<open>Opening\<close>

definition u3v_open :: "text_decoders \<Rightarrow> ('q, 'b) device_usb \<Rightarrow> 'q \<Rightarrow> u8 \<Rightarrow> u8 \<Rightarrow> u8 option \<Rightarrow> u8 option \<Rightarrow>
    ('q device_state, u3v_error) result \<times> 'q control_channel" where
  "u3v_open D U q ep_in ep_out stream_ep event_ep =
     bind (read_abrm D (du_transfer U) (control_new q ep_in ep_out INITIAL_MAX_TRANSFER INITIAL_MAX_TRANSFER)) (\<lambda>abrm c.
       let response_time = unat (ab_max_device_response_time abrm) * 10 ^ 6 + TRANSFER_MARGIN;
           c = c\<lparr>cc_timeout := max response_time DEFAULT_CONTROL_TIMEOUT\<rparr> in
       bind (read_sbrm (du_transfer U) (ab_sbrm_address abrm) c) (\<lambda>sbrm c.
         let c = set_max_transfer (sb_max_cmd_transfer sbrm) (sb_max_ack_transfer sbrm) c;
             speed = (case du_link_speed U (cc_usb c) of Some s \<Rightarrow> Some s | None \<Rightarrow> sb_current_speed sbrm) in
         (Ok \<lparr>ud_control = c, ud_abrm = abrm, ud_sbrm = sbrm, ud_stream_ep = stream_ep, ud_event_ep = event_ep,
              ud_speed = speed\<rparr>, c)))"

text \<open>A step of the control channel inside the device.\<close>

definition on_control :: "('a, 'q) cc_act \<Rightarrow> ('a, 'q) device_act" where
  "on_control act d = (let (r, c) = act (ud_control d) in (r, d\<lparr>ud_control := c\<rparr>))"

definition device_timestamp :: "('q, 'b) device_usb \<Rightarrow> (u64 option, 'q) device_act" where
  "device_timestamp U d =
     (if ab_device_capability (ud_abrm d) AND CAP_TIMESTAMP = 0 then (Ok None, d)
      else
        bind (on_control (u3v_write_mem (du_transfer U) ABRM_TIMESTAMP_LATCH (put_le 4 1)) d) (\<lambda>_ d.
        bind (on_control (u3v_read_mem (du_transfer U) ABRM_TIMESTAMP 8) d) (\<lambda>bs d.
          (or_panic (le_at 8 0 bs) (\<lambda>t. Ok (Some t)), d))))"

section \<open>The document\<close>

definition document_bytes :: "document_reader \<Rightarrow> file_format \<Rightarrow> bytes \<Rightarrow> (bytes, u3v_error) result" where
  "document_bytes R fmt raw =
     (if fmt = Zip \<or> take (length ZIP_MAGIC) raw = ZIP_MAGIC then dr_unzip_first R raw else Ok raw)"

definition document_text :: "document_reader \<Rightarrow> bytes \<Rightarrow> (string, u3v_error) result" where
  "document_text R bs = (case dr_from_utf8 R bs of Some s \<Rightarrow> Ok s | None \<Rightarrow> Err (BadXml ''invalid utf-8 sequence''))"

definition fetch_xml :: "document_reader \<Rightarrow> ('q, 'b) device_usb \<Rightarrow> (string, 'q) device_act" where
  "fetch_xml R U d =
     bind (on_control (read_device_xml (du_transfer U) (ab_manifest_table_address (ud_abrm d))) d) (\<lambda>entry d.
     bind (on_control (u3v_read_mem (du_transfer U) (me_file_address entry) (unat (me_file_size entry))) d) (\<lambda>raw d.
       (and_then (document_bytes R (me_format entry) raw) (document_text R), d)))"

section \<open>Frames\<close>

definition device_read_sirm :: "('q, 'b) device_usb \<Rightarrow> (u3v_sirm, 'q) device_act" where
  "device_read_sirm U d =
     (if sb_sirm_address (ud_sbrm d) = 0 then (Err (Unusable ''has no streaming interface (SIRM address 0)''), d)
      else on_control (read_sirm (du_transfer U) (sb_sirm_address (ud_sbrm d))) d)"

text \<open>The packet size in 32 bits; 1 where it is unknown or too large.\<close>

definition packet_alignment :: "nat option \<Rightarrow> u32" where
  "packet_alignment packet =
     (case packet of Some n \<Rightarrow> if n < 2 ^ 32 then word_of_nat n else 1 | None \<Rightarrow> 1)"

definition stream_payload_size :: "u3v_sirm \<Rightarrow> stream_options \<Rightarrow> u64" where
  "stream_payload_size s opts =
     (if si_required_payload_size s = 0 then so_payload_size_hint opts else si_required_payload_size s)"

definition stream_layout_of :: "u3v_sirm \<Rightarrow> nat option \<Rightarrow> stream_options \<Rightarrow> (stream_layout, u3v_error) result" where
  "stream_layout_of s packet opts =
     and_then (sirm_alignment s) (\<lambda>alignment.
       layout_new (stream_payload_size s opts) (si_required_leader_size s) (si_required_trailer_size s)
         (max alignment (packet_alignment packet)) (so_max_transfer_size opts))"

definition reset_queue :: "('q, 'b) device_usb \<Rightarrow> 'b \<Rightarrow> 'q device_state \<Rightarrow> ('b, u3v_error) result \<times> 'q device_state" where
  "reset_queue U b d =
     (let (r, b, q) = du_reset U b (cc_usb (ud_control d));
          at = (\<lambda>q. d\<lparr>ud_control := (ud_control d)\<lparr>cc_usb := q\<rparr>\<rparr>) in
      case r of
        Ok _ \<Rightarrow> (Ok b, at q)
      | Err e \<Rightarrow> (let (e, q) = unless_gone (du_transfer U) e GONE_GRACE q in (Err e, at q))
      | Panic \<Rightarrow> (Panic, at q))"

definition open_queue :: "('q, 'b) device_usb \<Rightarrow> u8 \<Rightarrow> 'q device_state \<Rightarrow> ('b, u3v_error) result \<times> 'q device_state" where
  "open_queue U ep d =
     (let (r, q) = du_bulk_in U ep (cc_usb (ud_control d)) in (r, d\<lparr>ud_control := (ud_control d)\<lparr>cc_usb := q\<rparr>\<rparr>))"

text \<open>The layout is written, the endpoint reset, and only then the stream enabled.\<close>

definition open_stream_with :: "('q, 'b) device_usb \<Rightarrow> stream_options \<Rightarrow> ('b u3v_stream, 'q) device_act" where
  "open_stream_with U opts d =
     (case ud_stream_ep d of
        None \<Rightarrow> (Err (Unusable ''has no streaming endpoint''), d)
      | Some ep \<Rightarrow>
          bind (device_read_sirm U d) (\<lambda>s d.
          bind (stream_layout_of s (du_max_packet_size U ep (cc_usb (ud_control d))) opts, d) (\<lambda>l d.
          bind (open_queue U ep d) (\<lambda>b d.
          bind (on_control (sirm_configure (du_transfer U) s l) d) (\<lambda>_ d.
          bind (reset_queue U b d) (\<lambda>b d.
          bind (on_control (sirm_enable (du_transfer U) s) d) (\<lambda>_ d.
            (Ok (set_transfers_in_flight (so_transfers_in_flight opts) (u3v_stream_new b l)), d))))))))"

definition open_stream :: "('q, 'b) device_usb \<Rightarrow> u64 \<Rightarrow> ('b u3v_stream, 'q) device_act" where
  "open_stream U hint = open_stream_with U (default_stream_options\<lparr>so_payload_size_hint := hint\<rparr>)"

definition stop_stream :: "('q, 'b) device_usb \<Rightarrow> (unit, 'q) device_act" where
  "stop_stream U d = bind (device_read_sirm U d) (\<lambda>s d. on_control (sirm_disable (du_transfer U) s) d)"

section \<open>Events\<close>

definition device_read_eirm :: "('q, 'b) device_usb \<Rightarrow> (u3v_eirm, 'q) device_act" where
  "device_read_eirm U d =
     (if sb_eirm_address (ud_sbrm d) = 0 \<or> sb_capability (ud_sbrm d) AND U3VCP_EIRM_AVAILABLE = 0
      then (Err (Unusable ''has no event interface (EIRM)''), d)
      else on_control (read_eirm (du_transfer U) (sb_eirm_address (ud_sbrm d))) d)"

definition open_events :: "('q, 'b) device_usb \<Rightarrow> ('b event_stream, 'q) device_act" where
  "open_events U d =
     (case ud_event_ep d of
        None \<Rightarrow> (Err (Unusable ''has no event endpoint''), d)
      | Some ep \<Rightarrow>
          bind (device_read_eirm U d) (\<lambda>e d.
          bind (open_queue U ep d) (\<lambda>b d.
          bind (reset_queue U b d) (\<lambda>b d.
          bind (on_control (eirm_set_enabled (du_transfer U) e True) d) (\<lambda>_ d.
            (Ok (event_stream_new b (ei_maximum_event_transfer_length e)
               (du_max_packet_size U ep (cc_usb (ud_control d)))), d))))))"

definition stop_events :: "('q, 'b) device_usb \<Rightarrow> (unit, 'q) device_act" where
  "stop_events U d = bind (device_read_eirm U d) (\<lambda>e d. on_control (eirm_set_enabled (du_transfer U) e False) d)"

end
