(* ===== verification/Fake_U3v_Open.thy ===== *)
theory Fake_U3v_Open
  imports Fake_U3v_Link U3v_Device
begin

text \<open>
  Opening the in-process camera. The blocks of its initial memory, which do not overlap; the bootstrap
  registers \<open>U3vDevice::open\<close> (\<^verbatim>\<open>crates/viva-u3v/src/device.rs\<close>) reads from it; and the document it finds
  through the manifest.
\<close>

section \<open>The blocks of a new camera\<close>

abbreviation block32 :: "u32 \<Rightarrow> bytes" where "block32 v \<equiv> put_le 4 (unat v)"
abbreviation block64 :: "u64 \<Rightarrow> bytes" where "block64 v \<equiv> put_le 8 (unat v)"

definition text_block :: "string \<Rightarrow> nat \<Rightarrow> bytes" where
  "text_block text most = resize most 0 (take (most - 1) (map (\<lambda>c. of_char c :: byte) text))"

definition abrm_blocks :: "(nat \<times> bytes) list" where
  "abrm_blocks =
     [(FU_ABRM_GENCP_VERSION, block32 0x00010002), (FU_ABRM_MANUFACTURER_NAME, text_block ''FakeCorp'' 64),
      (FU_ABRM_MODEL_NAME, text_block ''FakeU3V'' 64), (FU_ABRM_FAMILY_NAME, text_block ''Test'' 64),
      (FU_ABRM_DEVICE_VERSION, text_block ''1.0.0'' 64), (FU_ABRM_MANUFACTURER_INFO, text_block ''in-process fake'' 64),
      (FU_ABRM_SERIAL_NUMBER, text_block ''FAKE-001'' 64), (FU_ABRM_USER_DEFINED_NAME, text_block '''' 64),
      (FU_ABRM_DEVICE_CAPABILITY, block64 FU_DEVICE_CAPABILITY), (FU_ABRM_MAX_DEVICE_RESPONSE_TIME, block32 100),
      (FU_ABRM_MANIFEST_TABLE_ADDRESS, block64 (word_of_nat FU_MANIFEST_TABLE)),
      (FU_ABRM_SBRM_ADDRESS, block64 (word_of_nat FU_SBRM_BASE)), (FU_ABRM_DEVICE_CONFIGURATION, block64 0),
      (FU_ABRM_HEARTBEAT_TIMEOUT, block32 3000), (FU_ABRM_MESSAGE_CHANNEL_ID, block32 0),
      (FU_ABRM_ACCESS_PRIVILEGE, block32 0), (FU_ABRM_IMPLEMENTATION_ENDIANNESS, block32 0xFFFFFFFF),
      (FU_ABRM_TIMESTAMP, block64 0), (FU_ABRM_TIMESTAMP_LATCH, block32 0), (FU_ABRM_TIMESTAMP_INCREMENT, block64 1)]"

definition sbrm_blocks :: "(nat \<times> bytes) list" where
  "sbrm_blocks =
     [(FU_SBRM_U3V_VERSION, block32 0x00010000), (FU_SBRM_U3VCP_CAPABILITY, block64 3),
      (FU_SBRM_U3VCP_CONFIGURATION, block64 0), (FU_SBRM_MAX_CMD_TRANSFER, block32 4096),
      (FU_SBRM_MAX_ACK_TRANSFER, block32 4096), (FU_SBRM_NUM_STREAM_CHANNELS, block32 1),
      (FU_SBRM_SIRM_ADDRESS, block64 (word_of_nat FU_SIRM_BASE)), (FU_SBRM_SIRM_LENGTH, block32 0x30),
      (FU_SBRM_EIRM_ADDRESS, block64 (word_of_nat FU_EIRM_BASE)), (FU_SBRM_EIRM_LENGTH, block32 0x0C),
      (FU_SBRM_IIDC2_ADDRESS, block64 0), (FU_SBRM_CURRENT_SPEED, block32 FU_SUPERSPEED)]"

definition sirm_blocks :: "(nat \<times> bytes) list" where
  "sirm_blocks =
     [(FU_SIRM_INFO, block32 (push_bit 24 FU_SIRM_ALIGNMENT_EXPONENT)), (FU_SIRM_CONTROL, block32 0),
      (FU_SIRM_REQUIRED_PAYLOAD_SIZE, block64 0), (FU_SIRM_REQUIRED_LEADER_SIZE, block32 FU_LEADER_SIZE),
      (FU_SIRM_REQUIRED_TRAILER_SIZE, block32 FU_TRAILER_SIZE), (FU_SIRM_MAX_LEADER_SIZE, block32 0),
      (FU_SIRM_PAYLOAD_TRANSFER_SIZE, block32 0), (FU_SIRM_PAYLOAD_TRANSFER_COUNT, block32 0),
      (FU_SIRM_FINAL_TRANSFER1_SIZE, block32 0), (FU_SIRM_FINAL_TRANSFER2_SIZE, block32 0),
      (FU_SIRM_MAX_TRAILER_SIZE, block32 0)]"

definition eirm_blocks :: "(nat \<times> bytes) list" where
  "eirm_blocks =
     [(FU_EIRM_CONTROL, block32 0), (FU_EIRM_MAXIMUM_EVENT_TRANSFER_LENGTH, block32 FU_MAX_EVENT_TRANSFER),
      (FU_EIRM_EVENT_TEST_CONTROL, block32 0)]"

definition manifest_row :: "bytes \<Rightarrow> bytes" where
  "manifest_row xml = put_le 4 0x00010000 @ put_le 4 0 @ put_le 8 FU_XML_BLOB_BASE @ put_le 8 (length xml) @ replicate 40 0"

definition manifest_blocks :: "bytes \<Rightarrow> (nat \<times> bytes) list" where
  "manifest_blocks xml =
     [(FU_MANIFEST_TABLE, block64 1), (FU_MANIFEST_TABLE + 8, manifest_row xml), (FU_XML_BLOB_BASE, xml)]"

definition feature_blocks :: "u32 \<Rightarrow> u32 \<Rightarrow> u32 \<Rightarrow> (nat \<times> bytes) list" where
  "feature_blocks width height pixel_format =
     [(FU_REG_WIDTH, block32 width), (FU_REG_HEIGHT, block32 height), (FU_REG_PIXEL_FORMAT, block32 pixel_format),
      (FU_REG_SENSOR_WIDTH, block32 width), (FU_REG_SENSOR_HEIGHT, block32 height), (FU_REG_ACQ_MODE, block32 0),
      (FU_REG_ACQ_START, block32 0), (FU_REG_ACQ_STOP, block32 0), (FU_REG_ACQ_FRAME_RATE, block32 0x43480000),
      (FU_REG_EXPOSURE_TIME, block64 0x40C3880000000000), (FU_REG_PAYLOAD_SIZE, block32 0),
      (FU_REG_DEVICE_MODEL, text_block ''FakeU3V'' 32), (FU_REG_DEVICE_VENDOR, text_block ''FakeCorp'' 32),
      (FU_REG_ACTION_DEVICE_KEY, block32 0), (FU_REG_TRIGGER_SOFTWARE, block32 0), (FU_REG_CHUNK_MODE_ACTIVE, block32 0),
      (FU_REG_CHUNK_SELECTOR, block32 0), (FU_REG_CHUNK_ENABLE, block32 0), (FU_REG_CHUNK_ENABLE + 4, block32 0),
      (FU_REG_EVENT_SELECTOR, block32 (ucast FU_EVENT_ID_EXPOSURE_END)), (FU_REG_EVENT_NOTIFICATION, block32 0)]"
definition camera_blocks :: "bytes \<Rightarrow> u32 \<Rightarrow> u32 \<Rightarrow> u32 \<Rightarrow> (nat \<times> bytes) list" where
  "camera_blocks xml width height pixel_format =
     abrm_blocks @ sbrm_blocks @ sirm_blocks @ eirm_blocks @ manifest_blocks xml @ feature_blocks width height pixel_format"

abbreviation put_blocks :: "(nat \<times> bytes) list \<Rightarrow> (nat \<times> bytes) list \<Rightarrow> (nat \<times> bytes) list" where
  "put_blocks bs \<equiv> fold (\<lambda>(k, d). AList.update k d) bs"

lemma put_fresh: "distinct (map fst bs) \<Longrightarrow> fst ` set xs \<inter> fst ` set bs = {} \<Longrightarrow> put_blocks bs xs = xs @ bs"
proof (induction bs arbitrary: xs)
  case (Cons b bs)
  obtain k d where b: "b = (k, d)" by fastforce
  have "k \<notin> fst ` set ys \<Longrightarrow> AList.update k d ys = ys @ [(k, d)]" for ys
    by (induction ys) auto
  then have "AList.update k d xs = xs @ [(k, d)]" using Cons.prems b by auto
  then show ?case using Cons.IH [of "xs @ [(k, d)]"] Cons.prems b by auto
qed simp

lemma regs_of_insert: "fu_regs (fu_insert k d rm) = AList.update k d (fu_regs rm)" "fu_regs (fu_protect ranges rm) = fu_regs rm"
  by (simp_all add: fu_insert_def fu_protect_def)

lemmas part_simps = fold_simps id_apply comp_apply prod.case fu_write_u32_def fu_write_u64_def fu_write_string_def
  regs_of_insert text_block_def list.map append.simps

lemma part_regs:
  "fu_regs (fu_abrm rm) = put_blocks abrm_blocks (fu_regs rm)"
  "fu_regs (fu_sbrm rm) = put_blocks sbrm_blocks (fu_regs rm)"
  "fu_regs (fu_sirm rm) = put_blocks sirm_blocks (fu_regs rm)"
  "fu_regs (fu_eirm rm) = put_blocks eirm_blocks (fu_regs rm)"
  "fu_regs (fu_manifest xml rm) = put_blocks (manifest_blocks xml) (fu_regs rm)"
  "fu_regs (fu_features width height pixel_format rm) = put_blocks (feature_blocks width height pixel_format) (fu_regs rm)"
  by (simp_all only: part_simps fu_abrm_def abrm_blocks_def fu_sbrm_def sbrm_blocks_def fu_sirm_def sirm_blocks_def fu_eirm_def
    eirm_blocks_def fu_manifest_def manifest_blocks_def manifest_row_def fu_features_def feature_blocks_def unsigned_1)

text \<open>Blocks that do not overlap: a lookup finds the block an address is in.\<close>

definition apart :: "(nat \<times> bytes) list \<Rightarrow> bool" where
  "apart = sorted_wrt (\<lambda>(k, d) (k', d'). k \<noteq> k' \<and> (k + length d \<le> k' \<or> k' + length d' \<le> k))"

definition within_range :: "nat \<Rightarrow> nat \<Rightarrow> (nat \<times> bytes) list \<Rightarrow> bool" where
  "within_range lo hi = list_all (\<lambda>(k, d). lo \<le> k \<and> k < hi \<and> k + length d \<le> hi)"

lemma apart_append:
  "apart xs \<Longrightarrow> apart ys \<Longrightarrow> within_range lo hi xs \<Longrightarrow> list_all (\<lambda>(k, d). k + length d \<le> lo \<and> k < lo \<or> hi \<le> k) ys \<Longrightarrow> apart (xs @ ys)"
  by (fastforce simp: apart_def within_range_def sorted_wrt_append list_all_iff)

lemma apart_keys: "apart bs \<Longrightarrow> distinct (map fst bs)"
  by (induction bs) (force simp: apart_def)+

lemma find_apart:
  "apart bs \<Longrightarrow> (k, d) \<in> set bs \<Longrightarrow> k \<le> a \<Longrightarrow> a < k + length d \<Longrightarrow>
    find (\<lambda>(base, data). base \<le> a \<and> a < base + length data) bs = Some (k, d)"
  by (induction bs) (fastforce simp: apart_def)+

lemmas abrm_addresses = FU_ABRM_GENCP_VERSION_def FU_ABRM_MANUFACTURER_NAME_def FU_ABRM_MODEL_NAME_def FU_ABRM_FAMILY_NAME_def
  FU_ABRM_DEVICE_VERSION_def FU_ABRM_MANUFACTURER_INFO_def FU_ABRM_SERIAL_NUMBER_def FU_ABRM_USER_DEFINED_NAME_def
  FU_ABRM_DEVICE_CAPABILITY_def FU_ABRM_MAX_DEVICE_RESPONSE_TIME_def FU_ABRM_MANIFEST_TABLE_ADDRESS_def
  FU_ABRM_SBRM_ADDRESS_def FU_ABRM_DEVICE_CONFIGURATION_def FU_ABRM_HEARTBEAT_TIMEOUT_def
  FU_ABRM_MESSAGE_CHANNEL_ID_def FU_ABRM_ACCESS_PRIVILEGE_def FU_ABRM_IMPLEMENTATION_ENDIANNESS_def
  FU_ABRM_TIMESTAMP_def FU_ABRM_TIMESTAMP_LATCH_def FU_ABRM_TIMESTAMP_INCREMENT_def

lemmas sbrm_addresses = FU_SBRM_U3V_VERSION_def FU_SBRM_U3VCP_CAPABILITY_def FU_SBRM_U3VCP_CONFIGURATION_def FU_SBRM_MAX_CMD_TRANSFER_def
  FU_SBRM_MAX_ACK_TRANSFER_def FU_SBRM_NUM_STREAM_CHANNELS_def FU_SBRM_SIRM_ADDRESS_def FU_SBRM_SIRM_LENGTH_def
  FU_SBRM_EIRM_ADDRESS_def FU_SBRM_EIRM_LENGTH_def FU_SBRM_IIDC2_ADDRESS_def FU_SBRM_CURRENT_SPEED_def

lemmas sirm_addresses = FU_SIRM_INFO_def FU_SIRM_CONTROL_def FU_SIRM_REQUIRED_PAYLOAD_SIZE_def FU_SIRM_REQUIRED_LEADER_SIZE_def
  FU_SIRM_REQUIRED_TRAILER_SIZE_def FU_SIRM_MAX_LEADER_SIZE_def FU_SIRM_PAYLOAD_TRANSFER_SIZE_def
  FU_SIRM_PAYLOAD_TRANSFER_COUNT_def FU_SIRM_FINAL_TRANSFER1_SIZE_def FU_SIRM_FINAL_TRANSFER2_SIZE_def
  FU_SIRM_MAX_TRAILER_SIZE_def FU_EIRM_CONTROL_def FU_EIRM_MAXIMUM_EVENT_TRANSFER_LENGTH_def FU_EIRM_EVENT_TEST_CONTROL_def

lemmas feature_addresses = FU_REG_WIDTH_def FU_REG_HEIGHT_def FU_REG_PIXEL_FORMAT_def FU_REG_SENSOR_WIDTH_def FU_REG_SENSOR_HEIGHT_def
  FU_REG_ACQ_MODE_def FU_REG_ACQ_START_def FU_REG_ACQ_STOP_def FU_REG_ACQ_FRAME_RATE_def FU_REG_EXPOSURE_TIME_def FU_REG_PAYLOAD_SIZE_def
  FU_REG_DEVICE_MODEL_def FU_REG_DEVICE_VENDOR_def FU_REG_ACTION_DEVICE_KEY_def FU_REG_TRIGGER_SOFTWARE_def
  FU_REG_CHUNK_MODE_ACTIVE_def FU_REG_CHUNK_SELECTOR_def FU_REG_CHUNK_ENABLE_def FU_REG_EVENT_SELECTOR_def
  FU_REG_EVENT_NOTIFICATION_def

lemma block_lengths: "length (text_block text most) = most" "length (manifest_row xml) = 64"
  by (simp_all add: text_block_def manifest_row_def)

lemma abrm_apart: "apart abrm_blocks" "within_range 0 0x1000 abrm_blocks"
  by (simp_all add: apart_def within_range_def abrm_blocks_def abrm_addresses block_lengths)

lemma sbrm_apart: "apart sbrm_blocks" "within_range 0x100000000 0x100001000 sbrm_blocks"
  by (simp_all add: apart_def within_range_def sbrm_blocks_def sbrm_addresses block_lengths)

lemma sirm_apart: "apart (sirm_blocks @ eirm_blocks)" "within_range 0x200000000 0x200002000 (sirm_blocks @ eirm_blocks)"
  by (simp_all add: apart_def within_range_def sirm_blocks_def eirm_blocks_def sirm_addresses block_lengths)

lemma feature_apart:
  "apart (feature_blocks width height pixel_format)" "within_range 0x20000 0x21000 (feature_blocks width height pixel_format)"
  by (simp_all add: apart_def within_range_def feature_blocks_def feature_addresses block_lengths)

lemma manifest_apart:
  "length xml \<le> 0x10000 \<Longrightarrow> apart (manifest_blocks xml)"
  "length xml \<le> 0x10000 \<Longrightarrow> list_all (\<lambda>(k, d). k + length d \<le> 0x20000 \<and> k < 0x20000 \<or> 0x21000 \<le> k) (manifest_blocks xml)"
  by (simp_all add: apart_def manifest_blocks_def FU_MANIFEST_TABLE_def FU_XML_BLOB_BASE_def block_lengths)

lemma apart_append_right:
  "apart xs \<Longrightarrow> apart ys \<Longrightarrow> within_range lo hi ys \<Longrightarrow> list_all (\<lambda>(k, d). k + length d \<le> lo \<and> k < lo \<or> hi \<le> k) xs \<Longrightarrow> apart (xs @ ys)"
  by (fastforce simp: apart_def within_range_def sorted_wrt_append list_all_iff)

lemma above_range: "within_range lo hi bs \<Longrightarrow> hi' \<le> lo \<Longrightarrow> list_all (\<lambda>(k, d). k + length d \<le> lo' \<and> k < lo' \<or> hi' \<le> k) bs"
  by (fastforce simp: within_range_def list_all_iff)

lemma camera_apart:
  assumes "length xml \<le> 0x10000"
  shows "apart (camera_blocks xml width height pixel_format)"
proof -
  let ?F = "feature_blocks width height pixel_format" and ?M = "manifest_blocks xml" and ?S = "sirm_blocks @ eirm_blocks"
  have range: "list_all (\<lambda>(k, d). k + length d \<le> 0 \<and> k < 0 \<or> 0x1000 \<le> k) ?M"
    "list_all (\<lambda>(k, d). k + length d \<le> 0x100000000 \<and> k < 0x100000000 \<or> 0x100001000 \<le> k) ?M"
    "list_all (\<lambda>(k, d). k + length d \<le> 0x200000000 \<and> k < 0x200000000 \<or> 0x200002000 \<le> k) ?M"
    using assms by (simp_all add: manifest_blocks_def FU_MANIFEST_TABLE_def FU_XML_BLOB_BASE_def block_lengths)
  have below: "within_range lo hi bs \<Longrightarrow> hi \<le> lo' \<Longrightarrow> list_all (\<lambda>(k, d). k + length d \<le> lo' \<and> k < lo' \<or> hi' \<le> k) bs" for lo hi lo' hi' bs
    by (fastforce simp: within_range_def list_all_iff)
  note all = list_all_append [THEN iffD2]
  have 1: "apart (?M @ ?F)"
    by (rule apart_append_right [OF manifest_apart(1) feature_apart manifest_apart(2)]) (use assms in simp_all)
  have 2: "apart (?S @ ?M @ ?F)"
    by (rule apart_append [OF sirm_apart(1) 1 sirm_apart(2)]) (simp add: range below [OF feature_apart(2)])
  have 3: "apart (sbrm_blocks @ ?S @ ?M @ ?F)"
    by (rule apart_append [OF sbrm_apart(1) 2 sbrm_apart(2)])
      (use below [OF feature_apart(2)] above_range [OF sirm_apart(2)] range in simp)
  have "apart (abrm_blocks @ sbrm_blocks @ ?S @ ?M @ ?F)"
    by (rule apart_append [OF abrm_apart(1) 3 abrm_apart(2)])
      (use above_range [OF feature_apart(2), where hi' = "0x1000" and lo' = 0] above_range [OF sirm_apart(2), where hi' = "0x1000" and lo' = 0]
        above_range [OF sbrm_apart(2), where hi' = "0x1000" and lo' = 0] range in simp)
  then show ?thesis by (simp add: camera_blocks_def)
qed

lemma new_camera_regs:
  assumes "length xml \<le> 0x10000"
  shows "fu_regs (fu_features width height pixel_format (fu_manifest xml (fu_eirm (fu_sirm (fu_sbrm
      (fu_abrm \<lparr>fu_regs = [], fu_read_only = []\<rparr>)))))) = camera_blocks xml width height pixel_format"
  using put_fresh [OF apart_keys [OF camera_apart [OF assms, of width height pixel_format]], of "[]"]
  by (simp add: part_regs camera_blocks_def)

section \<open>Reads of whole registers\<close>

text \<open>A block written elsewhere leaves the block an address falls into.\<close>

definition covers :: "nat \<Rightarrow> bytes \<Rightarrow> nat \<Rightarrow> bool" where
  "covers base data a \<longleftrightarrow> base \<le> a \<and> a < base + length data"

lemma find_update:
  assumes "find (\<lambda>(base, data). base \<le> a \<and> a < base + length data) bs = r" "\<forall>b d. r = Some (b, d) \<longrightarrow> b \<noteq> k" "\<not> covers k data a"
  shows "find (\<lambda>(base, data). base \<le> a \<and> a < base + length data) (AList.update k data bs) = r"
  using assms by (induction bs) (auto simp: covers_def split: if_splits)

lemma block_of_insert:
  assumes "fu_block_of rm a = r" "\<forall>b d. r = Some (b, d) \<longrightarrow> b \<noteq> k" "\<not> covers k data a"
  shows "fu_block_of (fu_insert k data rm) a = r"
  using find_update assms by (simp add: fu_block_of_def fu_insert_def)

text \<open>A readable block of the camera's memory.\<close>

definition readable_block :: "u3v_registers \<Rightarrow> nat \<times> bytes \<Rightarrow> bool" where
  "readable_block rm b \<longleftrightarrow>
     list_all (\<lambda>i. fu_block_of rm (fst b + i) = Some b) [0..<length (snd b)] \<and> \<not> fu_is_write_only (fst b) (length (snd b)) \<and>
     fst b + length (snd b) \<le> 2 ^ 64"

text \<open>The size of a payload is the only content that a new camera computes.\<close>

lemma synced_block:
  assumes "fu_block_of rm a = Some (k, d)" "k \<noteq> FU_SIRM_REQUIRED_PAYLOAD_SIZE" "k \<noteq> FU_REG_PAYLOAD_SIZE"
    "\<not> covers FU_SIRM_REQUIRED_PAYLOAD_SIZE (replicate 8 0) a" "\<not> covers FU_REG_PAYLOAD_SIZE (replicate 4 0) a"
  shows "fu_block_of (fu_sync_payload_size rm) a = Some (k, d)"
  unfolding fu_sync_payload_size_def Let_def fu_write_u64_def fu_write_u32_def
  using assms by (intro block_of_insert) (simp_all add: covers_def)

lemma new_camera_readable:
  assumes "length xml \<le> 0x10000" "(k, d) \<in> set (camera_blocks xml width height pixel_format)"
    "k \<noteq> FU_SIRM_REQUIRED_PAYLOAD_SIZE" "k \<noteq> FU_REG_PAYLOAD_SIZE" "\<not> fu_is_write_only k (length d)" "k + length d \<le> 2 ^ 64"
  shows "readable_block (fu_new xml width height pixel_format) (k, d)"
proof -
  let ?bs = "camera_blocks xml width height pixel_format"
  have "fu_block_of (fu_new xml width height pixel_format) (k + i) = Some (k, d)" if "i < length d" for i
  proof -
    have other: "k + i < k' \<or> k' + length d' \<le> k + i" if "(k', d') \<in> set ?bs" "k' \<noteq> k" for k' d'
    proof (rule ccontr)
      assume "\<not> ?thesis"
      then have "Some (k', d') = Some (k, d)"
        using find_apart [OF camera_apart [OF assms(1)] that(1), of "k + i"]
          find_apart [OF camera_apart [OF assms(1)] assms(2), of "k + i"] \<open>i < length d\<close> by simp
      then show False using that(2) by simp
    qed
    have payload: "(FU_SIRM_REQUIRED_PAYLOAD_SIZE, block64 0) \<in> set ?bs" "(FU_REG_PAYLOAD_SIZE, block32 0) \<in> set ?bs"
      by (simp_all add: camera_blocks_def sirm_blocks_def feature_blocks_def)
    have "find (\<lambda>(base, data). base \<le> k + i \<and> k + i < base + length data) ?bs = Some (k, d)"
      using that by (intro find_apart [OF camera_apart [OF assms(1)] assms(2)]) simp_all
    then show ?thesis
      unfolding fu_new_def using assms(3,4) other [OF payload(1)] other [OF payload(2)]
      by (intro synced_block) (auto simp: fu_block_of_def new_camera_regs [OF assms(1)] covers_def)
  qed
  then show ?thesis using assms(5,6) by (simp add: readable_block_def list_all_iff)
qed

text \<open>A channel to the camera with the registers \<open>rm\<close>, and what a sequence of reads returns on it.\<close>

definition camera_at :: "u3v_registers \<Rightarrow> u32 \<Rightarrow> fake_u3v control_channel \<Rightarrow> bool" where
  "camera_at rm m c \<longleftrightarrow> fv_registers (cc_usb c) = rm \<and> \<not> fv_unplugged (cc_usb c) \<and> cc_ep_in c \<noteq> STREAM_EP \<and>
     cc_ep_in c \<noteq> EVENT_EP \<and> cc_max_ack c = m"

definition reads_as :: "u3v_registers \<Rightarrow> u32 \<Rightarrow> ('a, fake_u3v) cc_act \<Rightarrow> 'a \<Rightarrow> bool" where
  "reads_as rm m act v \<longleftrightarrow> (\<forall>c. camera_at rm m c \<longrightarrow> (\<exists>c'. act c = (Ok v, c') \<and> camera_at rm m c'))"

lemma reads_return: "reads_as rm m (\<lambda>c. (Ok v, c)) v"
  by (simp add: reads_as_def)

lemma reads_bind: "reads_as rm m act v \<Longrightarrow> reads_as rm m (k v) w \<Longrightarrow> reads_as rm m (\<lambda>c. bind (act c) k) w"
  by (fastforce simp: reads_as_def)

lemma reads_absent: "reads_as rm m act v \<Longrightarrow> reads_as rm m (\<lambda>c. or_absent (act c)) v"
  by (fastforce simp: reads_as_def or_absent_def)

lemma reads_mem:
  assumes "readable_block rm (k, d)" "n \<le> length d" "U3V_HEADER_SIZE < unat m"
  shows "reads_as rm m (u3v_read_mem (fake_transfer P) (word_of_nat k) n) (take n d)"
  unfolding reads_as_def
proof (intro allI impI)
  fix c assume c: "camera_at rm m c"
  have ready: "k + length d \<le> 2 ^ 64 \<and> control_ready k d c \<and> fv_registers (cc_usb c) = rm"
    using c assms(1)
    by (auto simp: camera_at_def control_ready_def camera_holds_def readable_block_def list_all_iff fu_read_byte_def)
  from camera_memory.read_mem_reads [OF this, of k n P] assms c
  show "\<exists>c'. u3v_read_mem (fake_transfer P) (word_of_nat k) n c = (Ok (take n d), c') \<and> camera_at rm m c'"
    by (auto simp: camera_at_def control_ready_def camera_holds_def)
qed

lemma reads_reg32:
  assumes "readable_block rm (k, block32 w)" "U3V_HEADER_SIZE < unat m" "addr = word_of_nat k"
  shows "reads_as rm m (read_reg32 (fake_transfer P) addr) w"
  unfolding read_reg32_def [abs_def] assms(3)
  by (rule reads_bind [OF reads_mem [OF assms(1) _ assms(2)]]) (simp_all add: reads_return le_at_inside)

lemma reads_reg64:
  assumes "readable_block rm (k, block64 w)" "U3V_HEADER_SIZE < unat m" "addr = word_of_nat k"
  shows "reads_as rm m (read_reg64 (fake_transfer P) addr) w"
  unfolding read_reg64_def [abs_def] assms(3)
  by (rule reads_bind [OF reads_mem [OF assms(1) _ assms(2)]]) (simp_all add: reads_return le_at_inside)

lemma reads_string:
  assumes "readable_block rm (k, text_block t 64)" "U3V_HEADER_SIZE < unat m" "addr = word_of_nat k"
  shows "reads_as rm m (read_string D (fake_transfer P) cap addr) (decode_string D (from_capability cap) (text_block t 64))"
  unfolding read_string_def [abs_def] assms(3) ABRM_STRING_LEN_def
  by (rule reads_bind [OF reads_mem [OF assms(1) _ assms(2)]]) (simp_all add: reads_return block_lengths)

lemma reads_optional:
  assumes "readable_block rm (k, text_block t 64)" "U3V_HEADER_SIZE < unat m" "addr = word_of_nat k" "cap AND flag \<noteq> 0"
  shows "reads_as rm m (read_optional_string D (fake_transfer P) cap flag addr) (decode_string D (from_capability cap) (text_block t 64))"
  using reads_string [OF assms(1-3)] assms(4) by (simp add: read_optional_string_def [abs_def])

section \<open>Opening the camera\<close>

definition bootstrap_blocks :: "(nat \<times> bytes) list" where
  "bootstrap_blocks = filter (\<lambda>(k, d). k \<noteq> FU_ABRM_TIMESTAMP_LATCH) abrm_blocks @ sbrm_blocks"

lemma bootstrap_readable:
  assumes "length xml \<le> 0x10000"
  shows "list_all (readable_block (fu_new xml width height pixel_format)) bootstrap_blocks"
proof -
  have ok: "list_all (\<lambda>(k, d). k \<noteq> FU_SIRM_REQUIRED_PAYLOAD_SIZE \<and> k \<noteq> FU_REG_PAYLOAD_SIZE \<and> \<not> fu_is_write_only k (length d) \<and>
      k + length d \<le> 2 ^ 64) bootstrap_blocks"
    by (simp add: bootstrap_blocks_def abrm_blocks_def sbrm_blocks_def abrm_addresses sbrm_addresses fu_is_write_only_def
        fu_write_only_defs FU_SIRM_REQUIRED_PAYLOAD_SIZE_def FU_REG_PAYLOAD_SIZE_def block_lengths)
  have "set bootstrap_blocks \<subseteq> set (camera_blocks xml width height pixel_format)"
    by (auto simp: bootstrap_blocks_def camera_blocks_def)
  then show ?thesis
    using ok new_camera_readable [OF assms] by (fastforce simp: list_all_iff)
qed

text \<open>What the host learns of the camera; \<open>D\<close> decodes the names.\<close>

definition camera_abrm :: "text_decoders \<Rightarrow> u3v_abrm" where
  "camera_abrm D =
     (let t = (\<lambda>s. decode_string D (from_capability FU_DEVICE_CAPABILITY) (text_block s 64)) in
      \<lparr>ab_gencp_version = 0x00010002, ab_manufacturer_name = t ''FakeCorp'', ab_model_name = t ''FakeU3V'', ab_family_name = t ''Test'',
       ab_device_version = t ''1.0.0'', ab_manufacturer_info = t ''in-process fake'', ab_serial_number = t ''FAKE-001'',
       ab_user_defined_name = t '''', ab_device_capability = FU_DEVICE_CAPABILITY, ab_max_device_response_time = 100,
       ab_manifest_table_address = word_of_nat FU_MANIFEST_TABLE, ab_sbrm_address = word_of_nat FU_SBRM_BASE\<rparr>)"

definition camera_sbrm :: u3v_sbrm where
  "camera_sbrm =
     \<lparr>sb_base = word_of_nat FU_SBRM_BASE, sb_u3v_version = 0x00010000, sb_capability = 3, sb_max_cmd_transfer = 4096,
      sb_max_ack_transfer = 4096, sb_num_stream_channels = 1, sb_sirm_address = word_of_nat FU_SIRM_BASE, sb_sirm_length = 0x30,
      sb_eirm_address = word_of_nat FU_EIRM_BASE, sb_eirm_length = 0x0C, sb_current_speed = Some SpeedSuper\<rparr>"

lemmas host_abrm = ABRM_GENCP_VERSION_def ABRM_MANUFACTURER_NAME_def ABRM_MODEL_NAME_def ABRM_FAMILY_NAME_def ABRM_DEVICE_VERSION_def
  ABRM_MANUFACTURER_INFO_def ABRM_SERIAL_NUMBER_def ABRM_USER_DEFINED_NAME_def ABRM_DEVICE_CAPABILITY_def
  ABRM_MAX_DEVICE_RESPONSE_TIME_def ABRM_MANIFEST_TABLE_ADDRESS_def ABRM_SBRM_ADDRESS_def

lemmas host_sbrm = SBRM_U3V_VERSION_def SBRM_U3VCP_CAPABILITY_def SBRM_MAX_CMD_TRANSFER_def SBRM_MAX_ACK_TRANSFER_def
  SBRM_NUM_STREAM_CHANNELS_def SBRM_SIRM_ADDRESS_def SBRM_SIRM_LENGTH_def SBRM_EIRM_ADDRESS_def SBRM_EIRM_LENGTH_def
  SBRM_CURRENT_SPEED_def FU_SBRM_BASE_def

text \<open>The registers of the two maps at the addresses the host reads them from.\<close>

lemma abrm_readable:
  assumes "list_all (readable_block rm) bootstrap_blocks"
  shows "readable_block rm (0, block32 0x00010002)" "readable_block rm (0x4, text_block ''FakeCorp'' 64)"
    "readable_block rm (0x44, text_block ''FakeU3V'' 64)" "readable_block rm (0x84, text_block ''Test'' 64)"
    "readable_block rm (0xc4, text_block ''1.0.0'' 64)" "readable_block rm (0x104, text_block ''in-process fake'' 64)"
    "readable_block rm (0x144, text_block ''FAKE-001'' 64)" "readable_block rm (0x184, text_block '''' 64)"
    "readable_block rm (0x1c4, block64 FU_DEVICE_CAPABILITY)" "readable_block rm (0x1cc, block32 100)"
    "readable_block rm (0x1d0, block64 (word_of_nat FU_MANIFEST_TABLE))" "readable_block rm (0x1d8, block64 (word_of_nat FU_SBRM_BASE))"
  using assms unfolding bootstrap_blocks_def list_all_append abrm_blocks_def abrm_addresses by simp_all

lemma reads_abrm:
  assumes "list_all (readable_block rm) bootstrap_blocks" "U3V_HEADER_SIZE < unat m"
  shows "reads_as rm m (read_abrm D (fake_transfer P)) (camera_abrm D)"
proof -
  note at = abrm_readable [OF assms(1)]
  have flags: "FU_DEVICE_CAPABILITY AND CAP_FAMILY_NAME \<noteq> 0" "FU_DEVICE_CAPABILITY AND CAP_USER_DEFINED_NAME \<noteq> 0"
    by (simp_all add: FU_DEVICE_CAPABILITY_def CAP_FAMILY_NAME_def CAP_USER_DEFINED_NAME_def)
  note reads = reads_reg32 [OF _ assms(2)] reads_reg64 [OF _ assms(2)] reads_string [OF _ assms(2)] reads_optional [OF _ assms(2)]
  show ?thesis
    unfolding read_abrm_def [abs_def] camera_abrm_def Let_def
    by ((rule reads_bind, rule reads, rule at, (simp add: host_abrm flags; fail)+)+, rule reads_return)
qed

lemma sbrm_readable:
  assumes "list_all (readable_block rm) bootstrap_blocks"
  shows "readable_block rm (0x100000000, block32 0x00010000)" "readable_block rm (0x100000004, block64 3)"
    "readable_block rm (0x100000014, block32 4096)" "readable_block rm (0x100000018, block32 4096)"
    "readable_block rm (0x10000001c, block32 1)" "readable_block rm (0x100000020, block64 (word_of_nat FU_SIRM_BASE))"
    "readable_block rm (0x100000028, block32 0x30)" "readable_block rm (0x10000002c, block64 (word_of_nat FU_EIRM_BASE))"
    "readable_block rm (0x100000034, block32 0x0C)" "readable_block rm (0x100000040, block32 FU_SUPERSPEED)"
  using assms unfolding bootstrap_blocks_def list_all_append sbrm_blocks_def sbrm_addresses by simp_all

lemma reads_sbrm:
  assumes "list_all (readable_block rm) bootstrap_blocks" "U3V_HEADER_SIZE < unat m"
  shows "reads_as rm m (read_sbrm (fake_transfer P) (word_of_nat FU_SBRM_BASE)) camera_sbrm"
proof -
  note at = sbrm_readable [OF assms(1)]
  have speed: "Some SpeedSuper = speed_from_register FU_SUPERSPEED"
    by (simp add: speed_from_register_def FU_SUPERSPEED_def)
  note reads = reads_reg32 [OF _ assms(2)] reads_reg64 [OF _ assms(2)] reads_absent [OF reads_reg32 [OF _ assms(2)]]
    reads_absent [OF reads_reg64 [OF _ assms(2)]]
  show ?thesis
    unfolding read_sbrm_def [abs_def] camera_sbrm_def speed
    by ((rule reads_bind, rule reads, rule at, (simp add: host_sbrm; fail)+)+, rule reads_return)
qed

text \<open>The channel after the maps were read, with the camera's own limits.\<close>

lemma camera_opened:
  assumes "length xml \<le> 0x10000" "du_transfer U = fake_transfer P" "ep_in \<noteq> STREAM_EP" "ep_in \<noteq> EVENT_EP"
  shows "\<exists>c d. u3v_open D U (fake_u3v_new (fu_new xml width height pixel_format) t) ep_in ep_out stream_ep event_ep = (Ok d, c) \<and>
    camera_at (fu_new xml width height pixel_format) 4096 (ud_control d) \<and> ud_abrm d = camera_abrm D \<and> ud_sbrm d = camera_sbrm"
proof -
  let ?rm = "fu_new xml width height pixel_format" and ?c = "control_new (fake_u3v_new (fu_new xml width height pixel_format) t) ep_in ep_out 1024 1024"
  note blocks = bootstrap_readable [OF assms(1), of width height pixel_format]
  have room: "U3V_HEADER_SIZE < unat (1024 :: u32)" by (simp add: U3V_HEADER_SIZE_def)
  have "camera_at ?rm 1024 ?c"
    using assms(3,4) by (simp add: camera_at_def control_new_def fake_u3v_new_def)
  then obtain c1 where c1: "read_abrm D (fake_transfer P) ?c = (Ok (camera_abrm D), c1)" "camera_at ?rm 1024 c1"
    using reads_abrm [OF blocks room, of D P] unfolding reads_as_def by blast
  define c2 where "c2 = c1\<lparr>cc_timeout := max (unat (ab_max_device_response_time (camera_abrm D)) * 10 ^ 6 + TRANSFER_MARGIN) DEFAULT_CONTROL_TIMEOUT\<rparr>"
  have "camera_at ?rm 1024 c2" using c1(2) by (simp add: c2_def camera_at_def)
  then obtain c3 where c3: "read_sbrm (fake_transfer P) (word_of_nat FU_SBRM_BASE) c2 = (Ok camera_sbrm, c3)" "camera_at ?rm 1024 c3"
    using reads_sbrm [OF blocks room, of P] unfolding reads_as_def by blast
  have "ab_sbrm_address (camera_abrm D) = word_of_nat FU_SBRM_BASE" by (simp add: camera_abrm_def)
  moreover have "camera_at ?rm 4096 (set_max_transfer (sb_max_cmd_transfer camera_sbrm) (sb_max_ack_transfer camera_sbrm) c3)"
    using c3(2) by (simp add: camera_at_def set_max_transfer_def camera_sbrm_def)
  ultimately show ?thesis
    using c1(1) c3(1) [unfolded c2_def] by (simp add: u3v_open_def Let_def assms(2) INITIAL_MAX_TRANSFER_def)
qed

section \<open>The document\<close>

lemma manifest_readable:
  assumes "length xml \<le> 0x10000"
  shows "list_all (readable_block (fu_new xml width height pixel_format))
    [(0x300000000, block64 1), (0x300000008, manifest_row xml), (0x10000, xml)]"
proof -
  have "list_all (\<lambda>(k, d). k \<noteq> FU_SIRM_REQUIRED_PAYLOAD_SIZE \<and> k \<noteq> FU_REG_PAYLOAD_SIZE \<and> \<not> fu_is_write_only k (length d) \<and>
      k + length d \<le> 2 ^ 64) (manifest_blocks xml)"
    using assms by (simp add: manifest_blocks_def FU_MANIFEST_TABLE_def FU_XML_BLOB_BASE_def fu_is_write_only_def
        fu_write_only_defs FU_SIRM_REQUIRED_PAYLOAD_SIZE_def FU_REG_PAYLOAD_SIZE_def block_lengths)
  moreover have "set (manifest_blocks xml) \<subseteq> set (camera_blocks xml width height pixel_format)"
    by (auto simp: camera_blocks_def)
  ultimately have "list_all (readable_block (fu_new xml width height pixel_format)) (manifest_blocks xml)"
    using new_camera_readable [OF assms] by (fastforce simp: list_all_iff)
  then show ?thesis by (simp add: manifest_blocks_def FU_MANIFEST_TABLE_def FU_XML_BLOB_BASE_def)
qed

definition camera_entry :: "bytes \<Rightarrow> manifest_entry" where
  "camera_entry xml =
     \<lparr>me_file_address = word_of_nat FU_XML_BLOB_BASE, me_file_size = word_of_nat (length xml), me_format = Uncompressed\<rparr>"

lemma entry_of_row:
  assumes "length xml \<le> 0x10000"
  shows "manifest_entry_of (take 24 (manifest_row xml)) = Ok (Some (camera_entry xml))"
proof -
  have row: "take 24 (manifest_row xml) = put_le 4 0x00010000 @ put_le 4 0 @ put_le 8 FU_XML_BLOB_BASE @ put_le 8 (length xml)"
    by (simp add: manifest_row_def)
  have fields: "le_at 4 4 (put_le 4 0x00010000 @ put_le 4 0 @ put_le 8 FU_XML_BLOB_BASE @ put_le 8 (length xml)) = Some (0 :: u32)"
    "le_at 8 8 (put_le 4 0x00010000 @ put_le 4 0 @ put_le 8 FU_XML_BLOB_BASE @ put_le 8 (length xml)) = Some (word_of_nat FU_XML_BLOB_BASE :: u64)"
    "le_at 8 16 (put_le 4 0x00010000 @ put_le 4 0 @ put_le 8 FU_XML_BLOB_BASE @ put_le 8 (length xml)) = Some (word_of_nat (length xml) :: u64)"
    using assms by (simp_all add: le_at_inside le_word_put_le FU_XML_BLOB_BASE_def)
  show ?thesis
    unfolding row manifest_entry_of_def fields by (simp add: fields camera_entry_def file_format_of_def)
qed

lemma reads_entry:
  assumes "length xml \<le> 0x10000" "U3V_HEADER_SIZE < unat m"
  shows "reads_as (fu_new xml width height pixel_format) m
    (read_device_xml (fake_transfer P) (word_of_nat FU_MANIFEST_TABLE)) (camera_entry xml)"
proof -
  let ?rm = "fu_new xml width height pixel_format"
  note blocks = manifest_readable [OF assms(1), of width height pixel_format, unfolded list.pred_inject]
  have count: "reads_as ?rm m (read_reg64 (fake_transfer P) (word_of_nat FU_MANIFEST_TABLE)) 1"
    by (rule reads_reg64 [OF blocks [THEN conjunct1] assms(2)]) (simp add: FU_MANIFEST_TABLE_def)
  have row: "reads_as ?rm m (u3v_read_mem (fake_transfer P) (word_of_nat 0x300000008) 24) (take 24 (manifest_row xml))"
    by (rule reads_mem [OF blocks [THEN conjunct2, THEN conjunct1] _ assms(2)]) (simp add: block_lengths)
  have entry: "reads_as ?rm m (manifest_loop (fake_transfer P) (word_of_nat FU_MANIFEST_TABLE) [0]) (camera_entry xml)"
  proof -
    have at: "word_of_nat FU_MANIFEST_TABLE + MANIFEST_ENTRIES + word_of_nat 0 * MANIFEST_ENTRY_LEN = (word_of_nat 0x300000008 :: u64)"
      by (simp add: FU_MANIFEST_TABLE_def MANIFEST_ENTRIES_def)
    show ?thesis
      unfolding manifest_loop.simps [abs_def] at
      by (rule reads_bind [OF row]) (simp add: entry_of_row [OF assms(1)] reads_return)
  qed
  have one: "[0..<min (unat (1 :: u64)) (unat MANIFEST_MAX_ENTRIES)] = [0]" by (simp add: MANIFEST_MAX_ENTRIES_def)
  show ?thesis
    unfolding read_device_xml_def [abs_def] by (rule reads_bind [OF count]) (simp only: one one_neq_zero if_False entry)
qed

lemma on_control_reads:
  "reads_as rm m act v \<Longrightarrow> camera_at rm m (ud_control d) \<Longrightarrow>
    \<exists>c. on_control act d = (Ok v, d\<lparr>ud_control := c\<rparr>) \<and> camera_at rm m c"
  by (fastforce simp: reads_as_def on_control_def)

lemma document_readable:
  assumes "length xml \<le> 0x10000"
  shows "readable_block (fu_new xml width height pixel_format) (FU_XML_BLOB_BASE, xml)"
  using manifest_readable [OF assms, of width height pixel_format] by (simp add: FU_XML_BLOB_BASE_def)

text \<open>Its bytes are read exactly however small the acknowledge transfers the host asks for, if they carry any data.\<close>

lemma u3v_document_read:
  assumes "length xml \<le> 0x10000" "cc_usb c = fake_u3v_new (fu_new xml width height pixel_format) t"
    "cc_ep_in c \<noteq> STREAM_EP" "cc_ep_in c \<noteq> EVENT_EP" "U3V_HEADER_SIZE < unat (cc_max_ack c)"
  shows "\<exists>c'. u3v_read_mem (fake_transfer P) (word_of_nat FU_XML_BLOB_BASE) (length xml) c = (Ok xml, c')"
proof -
  have "camera_at (fu_new xml width height pixel_format) (cc_max_ack c) c"
    using assms(2-4) by (simp add: camera_at_def fake_u3v_new_def)
  then show ?thesis
    using reads_mem [OF document_readable [OF assms(1), of width height pixel_format] order_refl assms(5), of P]
    by (auto simp: reads_as_def)
qed

text \<open>
  C32. Opening the in-process camera succeeds, whatever document of up to 64 KiB it embeds and whatever its
  image is: the host reads its bootstrap registers, finds the document through the manifest and gets its
  text exactly, unless the document begins like a ZIP file or is not UTF-8.
\<close>

theorem camera_document_fetched:
  assumes "length xml \<le> 0x10000" "du_transfer U = fake_transfer P" "ep_in \<noteq> STREAM_EP" "ep_in \<noteq> EVENT_EP"
    and "take 4 xml \<noteq> ZIP_MAGIC" "dr_from_utf8 R xml = Some s"
  shows "\<exists>d c d'. u3v_open (dr_texts R) U (fake_u3v_new (fu_new xml width height pixel_format) t) ep_in ep_out stream_ep event_ep =
      (Ok d, c) \<and> ud_sbrm d = camera_sbrm \<and> ud_abrm d = camera_abrm (dr_texts R) \<and> fetch_xml R U d = (Ok s, d')"
proof -
  let ?rm = "fu_new xml width height pixel_format"
  have room: "U3V_HEADER_SIZE < unat (4096 :: u32)" by (simp add: U3V_HEADER_SIZE_def)
  obtain c d where d: "u3v_open (dr_texts R) U (fake_u3v_new ?rm t) ep_in ep_out stream_ep event_ep = (Ok d, c)"
    "camera_at ?rm 4096 (ud_control d)" "ud_abrm d = camera_abrm (dr_texts R)" "ud_sbrm d = camera_sbrm"
    using camera_opened [OF assms(1-4), of "dr_texts R" width height pixel_format t ep_out stream_ep event_ep] by blast
  have table: "ab_manifest_table_address (ud_abrm d) = word_of_nat FU_MANIFEST_TABLE" by (simp add: d(3) camera_abrm_def Let_def)
  obtain c1 where c1: "on_control (read_device_xml (fake_transfer P) (word_of_nat FU_MANIFEST_TABLE)) d =
      (Ok (camera_entry xml), d\<lparr>ud_control := c1\<rparr>)" "camera_at ?rm 4096 c1"
    using on_control_reads [OF reads_entry [OF assms(1) room, of width height pixel_format P] d(2)] by blast
  have size: "unat (word_of_nat (length xml) :: u64) = length xml" using assms(1) by (simp add: unat_of_nat)
  from reads_mem [OF document_readable [OF assms(1), of width height pixel_format] order_refl room, of P]
  have "reads_as ?rm 4096 (u3v_read_mem (fake_transfer P) (word_of_nat FU_XML_BLOB_BASE) (length xml)) xml" by simp
  then obtain c2 where c2: "on_control (u3v_read_mem (fake_transfer P) (word_of_nat FU_XML_BLOB_BASE) (length xml)) (d\<lparr>ud_control := c1\<rparr>) =
      (Ok xml, d\<lparr>ud_control := c2\<rparr>)"
    using on_control_reads [of ?rm 4096 _ xml "d\<lparr>ud_control := c1\<rparr>"] c1(2) by fastforce
  have "length ZIP_MAGIC = 4" by (simp add: ZIP_MAGIC_def)
  then have "document_bytes R Uncompressed xml = Ok xml" using assms(5) by (simp add: document_bytes_def)
  then have "fetch_xml R U d = (Ok s, d\<lparr>ud_control := c2\<rparr>)"
    using assms(6) c1(1) c2 by (simp add: fetch_xml_def assms(2) table camera_entry_def size document_text_def)
  then show ?thesis using d by blast
qed

definition example_params :: fake_params where
  "example_params = \<lparr>fp_pattern = (\<lambda>_ _ _ _. []), fp_period = (\<lambda>_. 0)\<rparr>"

definition example_usb :: "(fake_u3v, unit) device_usb" where
  "example_usb = \<lparr>du_transfer = fake_transfer example_params, du_link_speed = (\<lambda>_. None), du_max_packet_size = (\<lambda>_ _. Some 1024),
     du_bulk_in = (\<lambda>_ q. (Ok (), q)), du_reset = (\<lambda>b q. (Ok (), b, q))\<rparr>"

definition example_reader :: document_reader where
  "example_reader = \<lparr>dr_texts = \<lparr>td_utf8 = map (\<lambda>b. char_of (unat b)), td_utf16 = (\<lambda>_. [])\<rparr>, dr_unzip_first = (\<lambda>_. Err (BadXml [])),
     dr_from_utf8 = (\<lambda>bs. Some (map (\<lambda>b. char_of (unat b)) bs))\<rparr>"

lemma camera_document_fetched_witness:
  "\<exists>d c d'. u3v_open (dr_texts example_reader) example_usb (fake_u3v_new (fu_new [60, 97, 47, 62, 10] 64 48 0x01080001) 0) 0x81 0x01
      (Some STREAM_EP) (Some EVENT_EP) = (Ok d, c) \<and> ud_sbrm d = camera_sbrm \<and> ud_abrm d = camera_abrm (dr_texts example_reader) \<and>
    fetch_xml example_reader example_usb d = (Ok [CHR ''<'', CHR ''a'', CHR ''/'', CHR ''>'', CHR 0x0A], d')"
  by (rule camera_document_fetched [where P = example_params])
    (simp_all add: example_usb_def example_reader_def STREAM_EP_def EVENT_EP_def ZIP_MAGIC_def char_of_eq_iff)

end
