(* ===== verification/Configuration_Text.thy ===== *)
theory Configuration_Text
  imports Prelude
begin

text \<open>
  The file format of a saved camera configuration (\<^verbatim>\<open>crates/viva-genapi/src/persistence.rs\<close>:
  \<open>Configuration\<close>, \<open>to_text\<close>, \<open>parse\<close>, \<open>identity_warnings\<close>): what is written, what is read back, and
  what a reader refuses.

  A text is a list of characters; white space is that of ASCII, where the code trims the white space of
  Unicode. Error messages are those of the code.
\<close>

section \<open>Texts\<close>

definition TAB :: char where "TAB = CHR 0x09"
definition LF :: char where "LF = CHR 0x0A"
definition CR :: char where "CR = CHR 0x0D"

definition is_space :: "char \<Rightarrow> bool" where
  "is_space c \<longleftrightarrow> c \<in> {CHR 0x09, CHR 0x0A, CHR 0x0B, CHR 0x0C, CHR 0x0D, CHR 0x20}"

text \<open>The functions of \<open>str\<close> the reader uses: \<open>trim\<close>, \<open>split_once\<close>, \<open>split\<close>, \<open>strip_prefix\<close>,
  \<open>contains\<close> and \<open>lines\<close>.\<close>

definition trim :: "string \<Rightarrow> string" where
  "trim s = rev (dropWhile is_space (rev (dropWhile is_space s)))"

definition cut_at :: "char \<Rightarrow> string \<Rightarrow> (string \<times> string) option" where
  "cut_at c s =
     (if c \<in> set s then Some (takeWhile (\<lambda>x. x \<noteq> c) s, tl (dropWhile (\<lambda>x. x \<noteq> c) s)) else None)"

fun split_on :: "char \<Rightarrow> string \<Rightarrow> string list" where
  "split_on c [] = [[]]"
| "split_on c (x # xs) = (if x = c then [] # split_on c xs else (x # hd (split_on c xs)) # tl (split_on c xs))"

definition strip_char :: "char \<Rightarrow> string \<Rightarrow> string option" where
  "strip_char c s = (case s of x # xs \<Rightarrow> if x = c then Some xs else None | [] \<Rightarrow> None)"

fun contains_text :: "string \<Rightarrow> string \<Rightarrow> bool" where
  "contains_text p [] = (p = [])"
| "contains_text p (x # xs) = (take (length p) (x # xs) = p \<or> contains_text p xs)"

text \<open>The end of a line is a line feed, or a carriage return and a line feed.\<close>

definition strip_cr :: "string \<Rightarrow> string" where
  "strip_cr l = (if l \<noteq> [] \<and> last l = CR then butlast l else l)"

function text_lines :: "string \<Rightarrow> string list" where
  "text_lines s =
     (if s = [] then []
      else if LF \<in> set s then strip_cr (takeWhile (\<lambda>c. c \<noteq> LF) s) # text_lines (tl (dropWhile (\<lambda>c. c \<noteq> LF) s))
      else [s])"
  by pat_completeness auto
termination
proof (relation "measure length", simp)
  fix s :: string
  assume "s \<noteq> []"
  have "length (tl (dropWhile (\<lambda>c. c \<noteq> LF) s)) \<le> length s - 1"
    using length_dropWhile_le [of "\<lambda>c. c \<noteq> LF" s] by simp
  with \<open>s \<noteq> []\<close> show "(tl (dropWhile (\<lambda>c. c \<noteq> LF) s), s) \<in> measure length"
    by (cases s) auto
qed

declare text_lines.simps [simp del]

section \<open>Configurations\<close>

record document_identity =
  di_vendor :: string
  di_model :: string
  di_version :: string

record saved_value =
  sv_feature :: string
  sv_selectors :: "(string \<times> string) list"
  sv_value :: string

record omission =
  om_feature :: string
  om_selectors :: "(string \<times> string) list"
  om_reason :: string

record configuration =
  cf_identity :: document_identity
  cf_values :: "saved_value list"
  cf_omitted :: "omission list"

definition empty_configuration :: configuration where
  "empty_configuration =
     \<lparr>cf_identity = \<lparr>di_vendor = [], di_model = [], di_version = []\<rparr>, cf_values = [], cf_omitted = []\<rparr>"

definition FILE_MAGIC :: string where "FILE_MAGIC = ''{05D8C294-F295-4dfb-9D01-096BD04049F4}''"
definition BAGGER_MAGIC :: string where "BAGGER_MAGIC = ''{4709CB3C-7322-4460-84C3-DA11DDA09939}''"
definition KEY_VENDOR :: string where "KEY_VENDOR = ''VendorName''"
definition KEY_MODEL :: string where "KEY_MODEL = ''ModelName''"
definition KEY_VERSION :: string where "KEY_VERSION = ''DeviceXmlVersion''"

section \<open>Writing\<close>

fun join :: "string \<Rightarrow> string list \<Rightarrow> string" where
  "join sep [] = []"
| "join sep [x] = x"
| "join sep (x # y # ys) = x @ sep @ join sep (y # ys)"

definition pair_text :: "string \<times> string \<Rightarrow> string" where
  "pair_text p = fst p @ ''='' @ snd p"

definition write_selectors :: "(string \<times> string) list \<Rightarrow> string" where
  "write_selectors selectors =
     (if selectors = [] then [] else ''['' @ join '', '' (map pair_text selectors) @ '']'')"

definition identity_line :: "string \<Rightarrow> string \<Rightarrow> string" where
  "identity_line key v = ''# '' @ key @ '' = '' @ v"

definition omission_line :: "omission \<Rightarrow> string" where
  "omission_line m = ''# not saved: '' @ om_feature m @ write_selectors (om_selectors m) @ '': '' @ om_reason m"

definition value_line :: "saved_value \<Rightarrow> string" where
  "value_line v =
     sv_feature v @ [TAB] @
     (if sv_selectors v = [] then [] else ''{'' @ join [TAB] (map pair_text (sv_selectors v)) @ ''}'' @ [TAB]) @ sv_value v"

definition header_lines :: "document_identity \<Rightarrow> string list" where
  "header_lines i =
     [''# '' @ FILE_MAGIC, ''# viva-genicam configuration'', identity_line KEY_VENDOR (di_vendor i),
      identity_line KEY_MODEL (di_model i), identity_line KEY_VERSION (di_version i)]"

definition configuration_lines :: "configuration \<Rightarrow> string list" where
  "configuration_lines c =
     header_lines (cf_identity c) @ map omission_line (cf_omitted c) @ map value_line (cf_values c)"

definition to_text :: "configuration \<Rightarrow> string" where
  "to_text c = concat (map (\<lambda>l. l @ [LF]) (configuration_lines c))"

text \<open>How a saved value is shown.\<close>

definition show_saved :: "saved_value \<Rightarrow> string" where
  "show_saved v = sv_feature v @ write_selectors (sv_selectors v) @ '' = '' @ sv_value v"

section \<open>Reading\<close>

type_synonym line_problem = string

definition read_comment :: "string \<Rightarrow> document_identity \<Rightarrow> (document_identity, line_problem) result" where
  "read_comment text i =
     (let comment = trim text in
      if contains_text BAGGER_MAGIC comment
      then Err ''written by GenApi's CFeatureBagger, a format this reader does not read''
      else Ok (case cut_at CHR ''='' comment of
          Some (key, v) \<Rightarrow>
            (let key = trim key; v = trim v in
             if key = KEY_VENDOR then i\<lparr>di_vendor := v\<rparr>
             else if key = KEY_MODEL then i\<lparr>di_model := v\<rparr>
             else if key = KEY_VERSION then i\<lparr>di_version := v\<rparr> else i)
        | None \<Rightarrow> i))"

definition read_pair :: "string \<Rightarrow> (string \<times> string, line_problem) result" where
  "read_pair pair =
     (case cut_at CHR ''='' pair of
        Some (s, e) \<Rightarrow>
          if trim s \<noteq> [] \<and> trim e \<noteq> [] then Ok (trim s, trim e) else Err ''expected Selector=Entry in the group''
      | None \<Rightarrow> Err ''expected Selector=Entry in the group'')"

primrec read_pairs :: "string list \<Rightarrow> ((string \<times> string) list, line_problem) result" where
  "read_pairs [] = Ok []"
| "read_pairs (p # ps) = and_then (read_pair p) (\<lambda>x. and_then (read_pairs ps) (\<lambda>xs. Ok (x # xs)))"

definition read_group :: "string \<Rightarrow> ((string \<times> string) list \<times> string, line_problem) result" where
  "read_group rest =
     (case strip_char CHR ''{'' rest of
        None \<Rightarrow> Ok ([], rest)
      | Some grp \<Rightarrow>
          (case cut_at CHR ''}'' grp of
             None \<Rightarrow> Err ''a selector group without its closing brace''
           | Some (inner, after) \<Rightarrow>
               (case strip_char TAB after of
                  None \<Rightarrow> Err ''expected a tab after the selector group''
                | Some v \<Rightarrow> and_then (read_pairs (split_on TAB inner)) (\<lambda>selectors. Ok (selectors, v)))))"

definition read_value :: "string \<Rightarrow> (saved_value, line_problem) result" where
  "read_value line =
     (case cut_at TAB line of
        None \<Rightarrow> Err ''expected a feature name, a tab and a value''
      | Some (name, rest) \<Rightarrow>
          if trim name = [] then Err ''no feature name before the tab''
          else and_then (read_group rest) (\<lambda>(selectors, v).
            if v = [] then Err ''no value after the tab''
            else Ok \<lparr>sv_feature = trim name, sv_selectors = selectors, sv_value = v\<rparr>))"

definition read_line :: "string \<Rightarrow> configuration \<Rightarrow> (configuration, line_problem) result" where
  "read_line line c =
     (if trim line = [] then Ok c
      else case strip_char CHR ''#'' line of
        Some comment \<Rightarrow> and_then (read_comment comment (cf_identity c)) (\<lambda>i. Ok (c\<lparr>cf_identity := i\<rparr>))
      | None \<Rightarrow> and_then (read_value line) (\<lambda>v. Ok (c\<lparr>cf_values := cf_values c @ [v]\<rparr>)))"

text \<open>The number of the line that is refused, counted from 1, goes with the message.\<close>

primrec read_lines :: "nat \<Rightarrow> string list \<Rightarrow> configuration \<Rightarrow> (configuration, nat \<times> line_problem) result" where
  "read_lines k [] c = Ok c"
| "read_lines k (l # ls) c =
     (case read_line l c of Ok c \<Rightarrow> read_lines (k + 1) ls c | Err e \<Rightarrow> Err (k, e) | Panic \<Rightarrow> Panic)"

definition parse_configuration :: "string \<Rightarrow> (configuration, nat \<times> line_problem) result" where
  "parse_configuration text = read_lines 1 (text_lines text) empty_configuration"

section \<open>Doubts about a configuration\<close>

definition differs :: "string \<Rightarrow> string \<Rightarrow> bool" where
  "differs a b \<longleftrightarrow> a \<noteq> [] \<and> a \<noteq> b"

definition major :: "string \<Rightarrow> string" where
  "major version = takeWhile (\<lambda>c. c \<noteq> CHR ''.'') version"

definition identity_warnings :: "document_identity \<Rightarrow> document_identity \<Rightarrow> string list" where
  "identity_warnings saved camera =
     (if differs (di_vendor saved) (di_vendor camera) \<or> differs (di_model saved) (di_model camera)
      then [''saved from a '' @ di_vendor saved @ '' '' @ di_model saved @ '', loaded onto a '' @ di_vendor camera @
            '' '' @ di_model camera]
      else if di_version camera \<noteq> [] \<and> differs (major (di_version saved)) (major (di_version camera))
      then [''saved with version '' @ di_version saved @ '' of the camera's XML, loaded with version '' @
            di_version camera @ '': a different major version is not compatible'']
      else [])"

end
