(* ===== verification/Feature_Text.thy ===== *)
theory Feature_Text
  imports Node_Writes Configuration_Text
begin

text \<open>
  Feature values as text (\<^verbatim>\<open>crates/viva-genapi/src/text.rs\<close>): integers, booleans and the bytes of
  registers, and reading and writing any feature as text by its type.

  How a float is printed and parsed and how an error is worded are parameters (\<open>text_codec\<close>). Negating
  the least integer wraps, as it does without overflow checks.
\<close>

record 'f text_codec =
  tc_show :: "'f \<Rightarrow> string"
  tc_parse :: "string \<Rightarrow> 'f option"
  tc_error :: "'f genapi_error \<Rightarrow> string"

section \<open>Integers\<close>

definition digit_char :: "nat \<Rightarrow> char" where
  "digit_char d = (if d < 10 then char_of (48 + d) else char_of (87 + d))"

definition digit_of :: "char \<Rightarrow> nat option" where
  "digit_of c =
     (let n = of_char c :: nat in
      if 48 \<le> n \<and> n \<le> 57 then Some (n - 48)
      else if 97 \<le> n \<and> n \<le> 102 then Some (n - 87)
      else if 65 \<le> n \<and> n \<le> 70 then Some (n - 55) else None)"

text \<open>Digits of a number below the radix, most significant first, after those read before.\<close>

fun radix_value :: "nat \<Rightarrow> nat \<Rightarrow> string \<Rightarrow> nat option" where
  "radix_value radix acc [] = Some acc"
| "radix_value radix acc (c # cs) =
     (case digit_of c of
        Some d \<Rightarrow> if d < radix then radix_value radix (acc * radix + d) cs else None
      | None \<Rightarrow> None)"

text \<open>\<open>i64::from_str_radix\<close>: one sign, at least one digit, a value that fits.\<close>

definition parse_radix :: "nat \<Rightarrow> string \<Rightarrow> i64 option" where
  "parse_radix radix s =
     (let (negative, ds) = (case s of
            c # cs \<Rightarrow> if c = CHR ''-'' then (True, cs) else if c = CHR ''+'' then (False, cs) else (False, s)
          | [] \<Rightarrow> (False, [])) in
      if ds = [] then None
      else case radix_value radix 0 ds of
        None \<Rightarrow> None
      | Some n \<Rightarrow>
          (let v = (if negative then - int n else int n) in
           if - (2 ^ 63) \<le> v \<and> v < 2 ^ 63 then Some (word_of_int v) else None))"

definition strip_hex :: "string \<Rightarrow> string option" where
  "strip_hex s =
     (case s of a # b # cs \<Rightarrow> if a = CHR ''0'' \<and> (b = CHR ''x'' \<or> b = CHR ''X'') then Some cs else None | _ \<Rightarrow> None)"

definition parse_integer :: "string \<Rightarrow> i64 option" where
  "parse_integer input =
     (let s = trim input;
          (negative, digits) = (case strip_char CHR ''-'' s of Some rest \<Rightarrow> (True, rest) | None \<Rightarrow> (False, s)) in
      case strip_hex digits of
        Some hex \<Rightarrow> map_option (\<lambda>m. if negative then - m else m) (parse_radix 16 hex)
      | None \<Rightarrow> parse_radix 10 s)"

fun show_nat :: "nat \<Rightarrow> string" where
  "show_nat n = (if n < 10 then [digit_char n] else show_nat (n div 10) @ [digit_char (n mod 10)])"

declare show_nat.simps [simp del]

definition show_i64 :: "i64 \<Rightarrow> string" where
  "show_i64 v = (if sint v < 0 then CHR ''-'' # show_nat (nat (- sint v)) else show_nat (nat (sint v)))"

section \<open>Booleans and bytes\<close>

definition lower_text :: "string \<Rightarrow> string" where
  "lower_text s = map (\<lambda>c. let n = of_char c :: nat in if 65 \<le> n \<and> n \<le> 90 then char_of (n + 32) else c) s"

definition parse_bool :: "string \<Rightarrow> bool option" where
  "parse_bool input =
     (let s = lower_text (trim input) in
      if s = ''1'' \<or> s = ''true'' then Some True else if s = ''0'' \<or> s = ''false'' then Some False else None)"

definition show_bool :: "bool \<Rightarrow> string" where
  "show_bool b = (if b then ''true'' else ''false'')"

definition hex_byte :: "byte \<Rightarrow> string" where
  "hex_byte b = [digit_char (unat b div 16), digit_char (unat b mod 16)]"

definition bytes_to_hex :: "bytes \<Rightarrow> string" where
  "bytes_to_hex bs = ''0x'' @ concat (map hex_byte bs)"

text \<open>\<open>u8::from_str_radix\<close> of two characters: the first may be a plus sign.\<close>

definition byte_of_hex :: "char \<Rightarrow> char \<Rightarrow> byte option" where
  "byte_of_hex a b =
     (if a = CHR ''+'' then map_option word_of_nat (radix_value 16 0 [b])
      else map_option word_of_nat (radix_value 16 0 [a, b]))"

fun pairs_to_bytes :: "string \<Rightarrow> bytes option" where
  "pairs_to_bytes [] = Some []"
| "pairs_to_bytes [_] = None"
| "pairs_to_bytes (a # b # cs) =
     (case byte_of_hex a b of None \<Rightarrow> None | Some x \<Rightarrow> map_option ((#) x) (pairs_to_bytes cs))"

definition hex_to_bytes :: "string \<Rightarrow> bytes option" where
  "hex_to_bytes input =
     (let s = trim input; digits = (case strip_hex s of Some ds \<Rightarrow> ds | None \<Rightarrow> s) in
      if odd (length digits) then None else pairs_to_bytes digits)"

section \<open>Features\<close>

definition has_value_expected :: string where
  "has_value_expected = ''a feature with a value''"

definition get_text :: "('f, 'd) nm_env \<Rightarrow> ('f, 'd) reads \<Rightarrow> 'f text_codec \<Rightarrow> string \<Rightarrow> (string, 'f, 'd) act" where
  "get_text E R T name s =
     (let integer = (\<lambda>s. bind (rd_integer R name s) (\<lambda>v s. (Ok (show_i64 v), s)));
          float = (\<lambda>s. bind (rd_float R name s) (\<lambda>v s. (Ok (tc_show T v), s))) in
      case lookup E name of
        Some (NInteger _) \<Rightarrow> integer s
      | Some (NIntConverter _) \<Rightarrow> integer s
      | Some (NFloat _) \<Rightarrow> float s
      | Some (NEnum _) \<Rightarrow> rd_enum R name s
      | Some (NBoolean _) \<Rightarrow> bind (rd_bool R name s) (\<lambda>v s. (Ok (show_bool v), s))
      | Some (NSwissKnife sk) \<Rightarrow> (case s_output sk of SkFloat \<Rightarrow> float s | SkInteger \<Rightarrow> integer s)
      | Some (NConverter conv) \<Rightarrow>
          bind (get_converter E R name s) (\<lambda>v s.
            (Ok (case k_output conv of SkFloat \<Rightarrow> tc_show T v | SkInteger \<Rightarrow> show_i64 (fo_to_i64 (en_ops E) v)), s))
      | Some (NString _) \<Rightarrow> rd_string R name s
      | Some (NCommand _) \<Rightarrow> (Err (WrongKind name ''Command'' ''a feature with a value (a command is executed)''), s)
      | Some (NCategory _) \<Rightarrow> (Err (WrongKind name ''Category'' has_value_expected), s)
      | Some (NRegister _) \<Rightarrow> (Err (WrongKind name ''Register'' ''a feature with a text form (a register is read as bytes)''), s)
      | None \<Rightarrow> (Err (NodeNotFound name), s))"

definition set_text :: "('f, 'd) nm_env \<Rightarrow> ('f, 'd) reads \<Rightarrow> ('f, 'd) writes \<Rightarrow> 'f text_codec \<Rightarrow> string \<Rightarrow> string \<Rightarrow>
    (unit, 'f, 'd) act" where
  "set_text E R W T name input s =
     (let invalid = (\<lambda>expected. (Err (InvalidText name expected input), s));
          integer = (case parse_integer input of Some v \<Rightarrow> wr_integer W name v s | None \<Rightarrow> invalid ''an integer'');
          float = (case tc_parse T (trim input) of Some v \<Rightarrow> wr_float W name v s | None \<Rightarrow> invalid ''a number'') in
      case lookup E name of
        Some (NInteger _) \<Rightarrow> integer
      | Some (NIntConverter _) \<Rightarrow> integer
      | Some (NFloat _) \<Rightarrow> float
      | Some (NConverter _) \<Rightarrow> float
      | Some (NEnum _) \<Rightarrow> set_enum E R W name (trim input) s
      | Some (NBoolean _) \<Rightarrow>
          (case parse_bool input of Some v \<Rightarrow> wr_bool W name v s | None \<Rightarrow> invalid ''a boolean'')
      | Some (NString _) \<Rightarrow> wr_string W name input s
      | Some (NCommand _) \<Rightarrow> (Err (WrongKind name ''Command'' ''a feature that is set (a command is executed)''), s)
      | Some other \<Rightarrow> (Err (WrongKind name (kind_name other) ''a feature set from text''), s)
      | None \<Rightarrow> (Err (NodeNotFound name), s))"

section \<open>Texts read back\<close>

lemma digit_char_back: "d < 16 \<Longrightarrow> digit_of (digit_char d) = Some d"
  by (auto simp: digit_char_def digit_of_def of_char_of)

lemma digits_snoc: "radix_value radix acc (ds @ [c]) =
    (case radix_value radix acc ds of Some n \<Rightarrow> radix_value radix n [c] | None \<Rightarrow> None)"
  by (induction ds arbitrary: acc) (auto split: option.splits)

lemma show_nat_back: "radix_value 10 0 (show_nat n) = Some n"
proof (induction n rule: less_induct)
  case (less n)
  show ?case
  proof (cases "n < 10")
    case True
    then show ?thesis by (simp add: show_nat.simps [of n] digit_char_back)
  next
    case False
    then have "radix_value 10 0 (show_nat (n div 10)) = Some (n div 10)" by (intro less) simp
    with False show ?thesis by (simp add: show_nat.simps [of n] digits_snoc digit_char_back)
  qed
qed

lemma show_nat_chars: "set (show_nat n) \<subseteq> digit_char ` {..<10}" "show_nat n \<noteq> []"
proof (induction n rule: less_induct)
  case (less n)
  { case 1 show ?case
    proof (cases "n < 10")
      case False
      then have "set (show_nat (n div 10)) \<subseteq> digit_char ` {..<10}" by (intro less) simp
      with False show ?thesis by (simp add: show_nat.simps [of n])
    qed (simp add: show_nat.simps [of n]) }
  { case 2 show ?case by (simp add: show_nat.simps [of n]) }
qed

lemma digit_plain: "d < 16 \<Longrightarrow> digit_char d \<noteq> CHR ''-'' \<and> digit_char d \<noteq> CHR ''+'' \<and> \<not> is_space (digit_char d) \<and> digit_char d \<noteq> CHR ''x'' \<and> digit_char d \<noteq> CHR ''X''"
proof -
  assume "d < 16"
  then have "of_char (digit_char d) = (if d < 10 then 48 + d else 87 + d)" by (simp add: digit_char_def of_char_of)
  then show ?thesis
    using \<open>d < 16\<close> by (auto simp: is_space_def dest!: arg_cong [of "digit_char d" _ "of_char :: char \<Rightarrow> nat"] split: if_splits)
qed

lemma trim_plain: "s \<noteq> [] \<Longrightarrow> \<not> is_space (hd s) \<Longrightarrow> \<not> is_space (last s) \<Longrightarrow> trim s = s"
proof -
  assume s: "s \<noteq> []" "\<not> is_space (hd s)" "\<not> is_space (last s)"
  have "dropWhile is_space s = s" using s by (cases s) auto
  moreover have "dropWhile is_space (rev s) = rev s" using s by (cases s rule: rev_cases) auto
  ultimately show ?thesis by (simp add: trim_def)
qed

lemma show_nat_plain: "c \<in> set (show_nat n) \<Longrightarrow> c \<noteq> CHR ''-'' \<and> c \<noteq> CHR ''+'' \<and> \<not> is_space c \<and> c \<noteq> CHR ''x'' \<and> c \<noteq> CHR ''X''"
proof -
  assume "c \<in> set (show_nat n)"
  then obtain d where "c = digit_char d" "d < 10" using show_nat_chars(1) [of n] by blast
  then show ?thesis using digit_plain [of d] by simp
qed

lemma show_nat_unprefixed: "strip_hex (show_nat n) = None" "strip_char CHR ''-'' (show_nat n) = None"
  using show_nat_plain [of _ n] by (auto simp: strip_hex_def strip_char_def split: list.splits)

lemma parse_shown_nat: "n < 2 ^ 63 \<Longrightarrow> parse_radix 10 (show_nat n) = Some (word_of_nat n)"
proof -
  assume n: "n < 2 ^ 63"
  obtain c cs where c: "show_nat n = c # cs" "c \<noteq> CHR ''-''" "c \<noteq> CHR ''+''"
    using show_nat_chars(2) [of n] show_nat_plain [of _ n] by (cases "show_nat n") auto
  have "radix_value 10 0 (c # cs) = Some n" using show_nat_back [of n] c(1) by simp
  then show ?thesis using n c by (simp add: parse_radix_def del: radix_value.simps)
qed

lemma parse_shown_negative: "n \<le> 2 ^ 63 \<Longrightarrow> parse_radix 10 (CHR ''-'' # show_nat n) = Some (- word_of_nat n)"
  using show_nat_back [of n] show_nat_chars(2) [of n] by (simp add: parse_radix_def)

lemma integer_text_back: "parse_integer (show_i64 v) = Some v"
proof (cases "sint v < 0")
  case True
  let ?n = "nat (- sint v)"
  have n: "?n \<le> 2 ^ 63" using sint_greater_eq [of v] by simp
  have "word_of_nat ?n = (word_of_int (- sint v) :: i64)" using True by (metis nat_0_le neg_0_le_iff_le of_int_of_nat_eq order_less_imp_le)
  then have w: "- word_of_nat ?n = v" by simp
  have s: "trim (CHR ''-'' # show_nat ?n) = CHR ''-'' # show_nat ?n"
    using show_nat_chars(2) [of ?n] show_nat_plain [of "last (show_nat ?n)" ?n] by (intro trim_plain) (auto simp: is_space_def)
  show ?thesis
    using True n w by (simp add: parse_integer_def show_i64_def s strip_char_def show_nat_unprefixed(1) parse_shown_negative)
next
  case False
  let ?n = "nat (sint v)"
  have n: "?n < 2 ^ 63" using sint_less [of v] by simp
  have "(word_of_int (int ?n) :: i64) = v" using False by simp
  then have w: "word_of_nat ?n = v" by (simp only: of_int_of_nat_eq)
  have s: "trim (show_nat ?n) = show_nat ?n"
    using show_nat_chars(2) [of ?n] show_nat_plain [of "last (show_nat ?n)" ?n] show_nat_plain [of "hd (show_nat ?n)" ?n]
    by (intro trim_plain) auto
  show ?thesis
    using False n w by (simp add: parse_integer_def show_i64_def s show_nat_unprefixed parse_shown_nat)
qed

lemma half_bytes: "unat (b :: byte) div 16 < 16" "unat (b :: byte) mod 16 < 16"
  using unat_byte_bound [of b] by (simp_all add: less_mult_imp_div_less)

lemma hex_pair_back: "byte_of_hex (digit_char (unat b div 16)) (digit_char (unat b mod 16)) = Some b"
proof -
  show ?thesis
    using digit_plain [OF half_bytes(1), of b] by (simp add: byte_of_hex_def digit_char_back half_bytes)
qed

lemma hex_pairs_back: "pairs_to_bytes (concat (map hex_byte bs)) = Some bs"
  by (induction bs) (simp_all add: hex_byte_def hex_pair_back)

lemma hex_text_back: "hex_to_bytes (bytes_to_hex bs) = Some bs"
proof -
  have "\<not> is_space c" if "c \<in> set (hex_byte b)" for b c
  proof -
    show ?thesis using that digit_plain [OF half_bytes(1)] digit_plain [OF half_bytes(2)] by (auto simp: hex_byte_def)
  qed
  moreover have "\<not> is_space CHR ''0''" "\<not> is_space CHR ''x''" by (simp_all add: is_space_def)
  ultimately have plain: "\<not> is_space c" if "c \<in> set (bytes_to_hex bs)" for c
    using that by (auto simp: bytes_to_hex_def)
  have "bytes_to_hex bs \<noteq> []" by (simp add: bytes_to_hex_def)
  then have s: "trim (bytes_to_hex bs) = bytes_to_hex bs"
    by (intro trim_plain plain) simp_all
  have "even (length (concat (map hex_byte bs)))" by (induction bs) (simp_all add: hex_byte_def)
  then show ?thesis
    unfolding hex_to_bytes_def s by (simp add: bytes_to_hex_def strip_hex_def hex_pairs_back)
qed

text \<open>
  The texts a configuration holds read back as the values they were printed from: every 64-bit
  integer, every boolean, and the bytes of every register.
\<close>

theorem texts_read_back:
  "parse_integer (show_i64 v) = Some v \<and> parse_bool (show_bool b) = Some b \<and> hex_to_bytes (bytes_to_hex bs) = Some bs"
  using integer_text_back hex_text_back
  by (cases b) (simp_all add: parse_bool_def show_bool_def lower_text_def trim_def is_space_def Let_def)

text \<open>The reader takes more than the writer writes: a plus sign in the middle of a register's digits.\<close>

lemma plus_sign_in_hex: "hex_to_bytes ''0x+f'' = Some [15]"
  by code_simp

end
