(* ===== verification/Feature_State.thy ===== *)
theory Feature_State
  imports Node_Writes
begin

text \<open>
  What a feature holds and permits, read at once (\<^verbatim>\<open>crates/viva-genapi/src/state.rs\<close>). Log output is
  left out; the failure of a read the code takes for an answer is that answer here.
\<close>

datatype 'f feature_value =
    NoValue
  | IntegerValue i64
  | FloatValue 'f
  | BooleanValue bool
  | EnumValue string
  | StringValue string
  | RegisterValue u32

record 'f value_range =
  vr_min :: 'f
  vr_max :: 'f
  vr_inc :: "'f option"

record 'f state_of_feature =
  fs_kind :: string
  fs_value :: "'f feature_value"
  fs_access :: "access_mode option"
  fs_is_implemented :: bool
  fs_is_available :: bool
  fs_range :: "'f value_range option"
  fs_enum_entries :: "string list option"
  fs_unit :: "string option"
  fs_polling_time :: "duration option"
  fs_caching :: caching_mode

text \<open>Both ends of a call that may fail.\<close>

definition on_result :: "('a, 'e) result \<times> 's \<Rightarrow> ('a \<Rightarrow> 's \<Rightarrow> ('b, 'e2) result \<times> 's) \<Rightarrow>
    ('e \<Rightarrow> 's \<Rightarrow> ('b, 'e2) result \<times> 's) \<Rightarrow> ('b, 'e2) result \<times> 's" where
  "on_result m ok bad = (case m of (Ok v, s) \<Rightarrow> ok v s | (Err e, s) \<Rightarrow> bad e s | (Panic, s) \<Rightarrow> (Panic, s))"

definition or_else :: "'a \<Rightarrow> ('a, 'e) result \<times> 's \<Rightarrow> ('a, 'e2) result \<times> 's" where
  "or_else d m = on_result m (\<lambda>v s. (Ok v, s)) (\<lambda>_ s. (Ok d, s))"

definition read_feature_value :: "('f, 'd) nm_env \<Rightarrow> ('f, 'd) reads \<Rightarrow> 'f node \<Rightarrow> ('f feature_value, 'f, 'd) act" where
  "read_feature_value E R node s =
     (let name = node_name node;
          integer = bind (rd_integer R name s) (\<lambda>v s. (Ok (IntegerValue v), s));
          float = bind (rd_float R name s) (\<lambda>v s. (Ok (FloatValue v), s)) in
      case node of
        NInteger _ \<Rightarrow> integer
      | NFloat _ \<Rightarrow> float
      | NEnum _ \<Rightarrow> bind (rd_enum R name s) (\<lambda>v s. (Ok (EnumValue v), s))
      | NBoolean _ \<Rightarrow> bind (rd_bool R name s) (\<lambda>v s. (Ok (BooleanValue v), s))
      | NString _ \<Rightarrow> bind (rd_string R name s) (\<lambda>v s. (Ok (StringValue v), s))
      | NRegister n \<Rightarrow> bind (register_length R name (r_addressing n) s) (\<lambda>len s. (Ok (RegisterValue len), s))
      | NSwissKnife sk \<Rightarrow> (case s_output sk of SkFloat \<Rightarrow> float | SkInteger \<Rightarrow> integer)
      | NConverter _ \<Rightarrow> bind (get_converter E R name s) (\<lambda>v s. (Ok (FloatValue v), s))
      | NIntConverter _ \<Rightarrow> bind (get_int_converter E R name s) (\<lambda>v s. (Ok (IntegerValue v), s))
      | NCommand _ \<Rightarrow> (Ok NoValue, s)
      | NCategory _ \<Rightarrow> (Ok NoValue, s))"

text \<open>What the feature permits now, for a feature that is available; a lock that cannot be read locks.\<close>

definition access_for_viewer :: "('f, 'd) nm_env \<Rightarrow> ('f, 'd) reads \<Rightarrow> string \<Rightarrow> bool \<Rightarrow> (access_mode option, 'f, 'd) act" where
  "access_for_viewer E R name available s =
     (case declared_access_mode (en_map E) name of
        None \<Rightarrow> (Ok None, s)
      | Some declared \<Rightarrow>
          if \<not> available then (Ok (Some RO), s)
          else
            bind (on_result (access_now E R name s)
                (\<lambda>mode s. (Ok (case mode of Some m \<Rightarrow> m | None \<Rightarrow> RO), s)) (\<lambda>_ s. (Ok declared, s))) (\<lambda>base s.
            bind (on_result (locked_by E R name s) (\<lambda>lock s. (Ok (lock \<noteq> None), s)) (\<lambda>_ s. (Ok True, s))) (\<lambda>locked s.
              (Ok (Some (if base = RW \<and> locked then RO else base)), s))))"

text \<open>The bound in force, the declared constant where the feature is not usable or the read fails.\<close>

definition viewer_bound :: "('f, 'd) reads \<Rightarrow> string \<Rightarrow> bool \<Rightarrow> ('f fvalue \<Rightarrow> 'a) \<Rightarrow> limit_kind \<Rightarrow> 'a option \<Rightarrow>
    ('a option, 'f, 'd) act" where
  "viewer_bound R name usable conv which declared s =
     (if \<not> usable then (Ok declared, s)
      else on_result (rd_limit R name which {} s) (\<lambda>v s. (Ok (map_option conv v), s)) (\<lambda>_ s. (Ok declared, s)))"

definition integer_range :: "('f, 'd) nm_env \<Rightarrow> ('f, 'd) reads \<Rightarrow> string \<Rightarrow> bool \<Rightarrow> integer_node \<Rightarrow>
    ('f value_range option, 'f, 'd) act" where
  "integer_range E R name usable n s =
     (let bound = viewer_bound R name usable (as_i64 (en_ops E)); real = fo_of_i64 (en_ops E) in
      bind (bound LMin (i_min n) s) (\<lambda>mn s.
      bind (bound LMax (i_max n) s) (\<lambda>mx s.
      bind (bound LInc (i_inc n) s) (\<lambda>inc s.
        (Ok (case (mn, mx) of
            (Some a, Some b) \<Rightarrow> Some \<lparr>vr_min = real a, vr_max = real b, vr_inc = map_option real inc\<rparr>
          | _ \<Rightarrow> None), s)))))"

definition float_range :: "('f, 'd) nm_env \<Rightarrow> ('f, 'd) reads \<Rightarrow> string \<Rightarrow> bool \<Rightarrow> 'f option \<Rightarrow> 'f option \<Rightarrow>
    ('f value_range option, 'f, 'd) act" where
  "float_range E R name usable declared_min declared_max s =
     (let bound = viewer_bound R name usable (as_f64 (en_ops E)) in
      bind (bound LMin declared_min s) (\<lambda>mn s.
      bind (bound LMax declared_max s) (\<lambda>mx s.
        (Ok (case (mn, mx) of
            (Some a, Some b) \<Rightarrow> Some \<lparr>vr_min = a, vr_max = b, vr_inc = None\<rparr>
          | _ \<Rightarrow> None), s))))"

definition range_and_unit :: "('f, 'd) nm_env \<Rightarrow> ('f, 'd) reads \<Rightarrow> string \<Rightarrow> bool \<Rightarrow> 'f node \<Rightarrow>
    ('f value_range option \<times> string option, 'f, 'd) act" where
  "range_and_unit E R name usable node s =
     (let with = (\<lambda>r u. bind r (\<lambda>range s. (Ok (range, u), s))) in
      case node of
        NInteger n \<Rightarrow> with (integer_range E R name usable n s) (i_unit n)
      | NFloat n \<Rightarrow> with (float_range E R name usable (f_min n) (f_max n) s) (f_unit n)
      | NConverter _ \<Rightarrow> with (float_range E R name usable None None s) None
      | NIntConverter _ \<Rightarrow> with (float_range E R name usable None None s) None
      | _ \<Rightarrow> (Ok (None, None), s))"

definition ok_option :: "('a, 'e) result \<times> 's \<Rightarrow> ('a option, 'e2) result \<times> 's" where
  "ok_option m = on_result m (\<lambda>v s. (Ok (Some v), s)) (\<lambda>_ s. (Ok None, s))"

definition viewer_entries :: "('f, 'd) nm_env \<Rightarrow> ('f, 'd) reads \<Rightarrow> string \<Rightarrow> bool \<Rightarrow> 'f node \<Rightarrow>
    (string list option, 'f, 'd) act" where
  "viewer_entries E R name usable node s =
     (case node of
        NEnum _ \<Rightarrow>
          if \<not> usable then ok_option (enum_entries E name s)
          else ok_option (on_result (available_enum_entries E R name s) (\<lambda>v s. (Ok v, s)) (\<lambda>_ s. enum_entries E name s))
      | _ \<Rightarrow> (Ok None, s))"

definition feature_state :: "('f, 'd) nm_env \<Rightarrow> ('f, 'd) reads \<Rightarrow> string \<Rightarrow> ('f state_of_feature, 'f, 'd) act" where
  "feature_state E R name s =
     (case lookup E name of
        None \<Rightarrow> (Err (NodeNotFound name), s)
      | Some node \<Rightarrow>
          bind (or_else False (is_implemented E R name s)) (\<lambda>implemented s.
          bind (if implemented then or_else False (own_availability E R name s) else (Ok False, s)) (\<lambda>available s.
          bind (access_for_viewer E R name available s) (\<lambda>access s.
            let has_value = (implemented \<and> available \<and> access \<noteq> Some WO \<and> \<not> node_is_write_only (en_map E) name \<and>
              name \<notin> nm_command_targets (en_map E)) in
          bind (if has_value
                then on_result (read_feature_value E R node s) (\<lambda>v s. (Ok (v, False), s))
                       (\<lambda>e s. case e of NotAttached _ _ \<Rightarrow> (Ok (NoValue, True), s) | _ \<Rightarrow> (Err e, s))
                else (Ok (NoValue, False), s)) (\<lambda>(v, detached) s.
            let usable = (implemented \<and> available \<and> \<not> detached) in
          bind (range_and_unit E R name usable node s) (\<lambda>(range, u) s.
          bind (viewer_entries E R name usable node s) (\<lambda>entries s.
            (Ok \<lparr>fs_kind = kind_name node, fs_value = v, fs_access = (if detached then None else access),
                 fs_is_implemented = implemented, fs_is_available = (available \<and> \<not> detached), fs_range = range,
                 fs_enum_entries = entries, fs_unit = u, fs_polling_time = polling_time (en_map E) name,
                 fs_caching = (case caching_mode_of (en_map E) name of Some m \<Rightarrow> m | None \<Rightarrow> WriteThrough)\<rparr>, s))))))))"

end
