(* ===== verification/Restore_Order.thy ===== *)
theory Restore_Order
  imports Main "HOL-Library.Product_Lexorder"
begin

text \<open>
  The order in which a saved configuration is restored (\<^verbatim>\<open>crates/viva-genapi/src/persistence.rs\<close>:
  \<open>restore_order\<close>, \<open>strongly_connected\<close>): strongly connected components by Tarjan's algorithm without
  recursion, then a topological order of the components, the earliest in the document first.

  Vertices are the positions \<open>0..<n\<close> of the features; \<open>successors ! p\<close> lists in ascending order (a
  \<open>BTreeSet\<close>) the features a write of \<open>p\<close> can change, all of them positions. \<open>UNSEEN\<close> is \<open>None\<close>. A
  stack (a \<open>Vec\<close> used at its end) is a list with its top first.
\<close>

section \<open>Strongly connected components\<close>

record tarjan =
  tj_index :: "nat option list"
  tj_low :: "nat list"
  tj_on_stack :: "bool list"
  tj_stack :: "nat list"
  tj_next :: nat
  tj_components :: "nat list list"

definition tarjan_new :: "nat \<Rightarrow> tarjan" where
  "tarjan_new n =
     \<lparr>tj_index = replicate n None, tj_low = replicate n 0, tj_on_stack = replicate n False, tj_stack = [],
      tj_next = 0, tj_components = []\<rparr>"

definition open_vertex :: "nat \<Rightarrow> tarjan \<Rightarrow> tarjan" where
  "open_vertex v s =
     s\<lparr>tj_index := (tj_index s)[v := Some (tj_next s)], tj_low := (tj_low s)[v := tj_next s],
       tj_next := tj_next s + 1, tj_stack := v # tj_stack s, tj_on_stack := (tj_on_stack s)[v := True]\<rparr>"

definition lower :: "nat \<Rightarrow> nat \<Rightarrow> tarjan \<Rightarrow> tarjan" where
  "lower v i s = s\<lparr>tj_low := (tj_low s)[v := min (tj_low s ! v) i]\<rparr>"

text \<open>The vertices above \<open>v\<close> on the stack and \<open>v\<close> itself, and what stays.\<close>

fun pop_until :: "nat \<Rightarrow> nat list \<Rightarrow> nat list \<times> nat list" where
  "pop_until v [] = ([], [])"
| "pop_until v (w # ws) = (if w = v then ([w], ws) else (let (members, rest) = pop_until v ws in (w # members, rest)))"

definition close_component :: "nat \<Rightarrow> tarjan \<Rightarrow> tarjan" where
  "close_component v s =
     (let (members, rest) = pop_until v (tj_stack s) in
      s\<lparr>tj_stack := rest, tj_on_stack := fold (\<lambda>w on. on[w := False]) members (tj_on_stack s),
        tj_components := tj_components s @ [sort members]\<rparr>)"

text \<open>One round of the inner loop: the next edge of the vertex on top of the call stack, or its end.\<close>

fun tarjan_step :: "nat list list \<Rightarrow> (nat \<times> nat) list \<times> tarjan \<Rightarrow> (nat \<times> nat) list \<times> tarjan" where
  "tarjan_step successors ([], s) = ([], s)"
| "tarjan_step successors ((v, edge) # call, s) =
     (if edge < length (successors ! v) then
        (let w = successors ! v ! edge in
         case tj_index s ! w of
           None \<Rightarrow> ((w, 0) # (v, edge + 1) # call, open_vertex w s)
         | Some i \<Rightarrow> ((v, edge + 1) # call, if tj_on_stack s ! w then lower v i s else s))
      else
        (let s = (case call of (parent, _) # _ \<Rightarrow> lower parent (tj_low s ! v) s | [] \<Rightarrow> s) in
         (call, if Some (tj_low s ! v) = tj_index s ! v then close_component v s else s)))"

text \<open>
  A round follows an edge or ends a vertex, so there are no more rounds than edges and vertices.
\<close>

primrec tarjan_loop :: "nat \<Rightarrow> nat list list \<Rightarrow> (nat \<times> nat) list \<times> tarjan \<Rightarrow> (nat \<times> nat) list \<times> tarjan" where
  "tarjan_loop 0 successors x = x"
| "tarjan_loop (Suc k) successors x = (if fst x = [] then x else tarjan_loop k successors (tarjan_step successors x))"

definition search_root :: "nat list list \<Rightarrow> nat \<Rightarrow> tarjan \<Rightarrow> tarjan" where
  "search_root successors root s =
     (if tj_index s ! root \<noteq> None then s
      else snd (tarjan_loop (length (concat successors) + length successors) successors
             ([(root, 0)], open_vertex root s)))"

definition strongly_connected :: "nat list list \<Rightarrow> nat list list" where
  "strongly_connected successors =
     tj_components (fold (search_root successors) [0..<length successors] (tarjan_new (length successors)))"

section \<open>The order of the components\<close>

definition component_of :: "nat list list \<Rightarrow> nat \<Rightarrow> nat list" where
  "component_of components n =
     fold (\<lambda>(c, members) out. fold (\<lambda>v out. out[v := c]) members out) (enumerate 0 components) (replicate n 0)"

text \<open>An edge between two components is counted once.\<close>

definition add_edge :: "nat \<Rightarrow> nat \<Rightarrow> nat list \<times> nat list list \<Rightarrow> nat list \<times> nat list list" where
  "add_edge c d acc =
     (let (indegree, succs) = acc in
      if c \<noteq> d \<and> d \<notin> set (succs ! c) then (indegree[d := indegree ! d + 1], succs[c := insort d (succs ! c)]) else acc)"

definition component_graph :: "nat list list \<Rightarrow> nat list \<Rightarrow> nat \<Rightarrow> nat list \<times> nat list list" where
  "component_graph successors component k =
     fold (\<lambda>(p, targets) acc. fold (\<lambda>f acc. add_edge (component ! p) (component ! f) acc) targets acc)
       (enumerate 0 successors) (replicate k 0, replicate k [])"

definition release :: "nat list list \<Rightarrow> nat \<Rightarrow> (nat \<times> nat) list \<times> nat list \<Rightarrow> (nat \<times> nat) list \<times> nat list" where
  "release components d acc =
     (let (ready, indegree) = acc; left = indegree ! d - 1 in
      (if left = 0 then insort (hd (components ! d), d) ready else ready, indegree[d := left]))"

text \<open>The heap of ready components is its sorted list; each component is taken from it at most once.\<close>

primrec order_loop :: "nat \<Rightarrow> nat list list \<Rightarrow> nat list list \<Rightarrow> (nat \<times> nat) list \<Rightarrow> nat list \<Rightarrow> nat list \<Rightarrow> nat list" where
  "order_loop 0 components succs ready indegree order = order"
| "order_loop (Suc k) components succs ready indegree order =
     (case ready of
        [] \<Rightarrow> order
      | (_, c) # ready \<Rightarrow>
          (let (ready, indegree) = fold (release components) (succs ! c) (ready, indegree) in
           order_loop k components succs ready indegree (order @ components ! c)))"

definition restore_order :: "nat list list \<Rightarrow> nat list" where
  "restore_order successors =
     (let components = strongly_connected successors; k = length components;
          (indegree, succs) = component_graph successors (component_of components (length successors)) k;
          ready = sort (map (\<lambda>(c, members). (hd members, c)) (filter (\<lambda>(c, _). indegree ! c = 0) (enumerate 0 components))) in
      order_loop k components succs ready indegree [])"

lemma restore_order_examples:
  "restore_order [[], [], [0]] = [1, 2, 0]"
  "restore_order [[], [2], [1], [1]] = [0, 3, 1, 2]"
  "strongly_connected [[1], [0, 2], [3], [2], []] = [[2, 3], [0, 1], [4]]"
  by code_simp+

end
