(* ===== verification/Persistence.thy ===== *)
theory Persistence
  imports Feature_Text Feature_State Restore_Order
begin

text \<open>
  Saving a camera's configuration and restoring it (\<^verbatim>\<open>crates/viva-genapi/src/persistence.rs\<close>): the plan
  decided from the declarations, the save that walks the selectors, and the load with its second pass.

  The identity of the map's document is an argument (the field \<open>identity\<close> of the map). A heap-allocated
  closure over selectors becomes recursion over the selectors that are left. Log output is left out.
\<close>

section \<open>The plan\<close>

record planned_feature =
  pf_name :: string
  pf_selectors :: "string list"
  pf_after :: "string list"

text \<open>
  The features a write of \<open>name\<close> can change, following dependents that are not in the plan. A name is
  followed once: with one unit of fuel for each pending or dependent name the loop ends.
\<close>

function affected :: "'f nodemap \<Rightarrow> string list \<Rightarrow> string set \<Rightarrow> string list \<Rightarrow> string list \<Rightarrow> string list" where
  "affected nm planned seen [] found = found"
| "affected nm planned seen (current # pending) found =
     (if current \<in> seen then affected nm planned seen pending found
      else
        (let deps = dependents_of nm current in
         affected nm planned (insert current seen) (rev (filter (\<lambda>d. d \<notin> set planned) deps) @ pending)
           (found @ filter (\<lambda>d. d \<in> set planned) deps)))"
  by pat_completeness auto

termination
proof (relation "measures [\<lambda>(nm, planned, seen, pending, found). card (fst ` set (nm_dependents nm) - seen),
    \<lambda>(nm, planned, seen, pending, found). length pending]", simp_all)
  fix nm :: "'f nodemap" and current and planned :: "string list" and seen :: "string set"
  assume new: "current \<notin> seen"
  let ?K = "fst ` set (nm_dependents nm)"
  show "card (?K - insert current seen) < card (?K - seen) \<or>
      card (?K - insert current seen) = card (?K - seen) \<and> filter (\<lambda>d. d \<notin> set planned) (dependents_of nm current) = []"
  proof (cases "current \<in> ?K")
    case True
    then have "?K - insert current seen \<subset> ?K - seen" using new by auto
    then show ?thesis by (simp add: psubset_card_mono)
  next
    case False
    then have "map_of (nm_dependents nm) current = None" by (simp add: map_of_eq_None_iff)
    moreover have "?K - insert current seen = ?K - seen" using False by auto
    ultimately show ?thesis by (simp add: dependents_of_def dep_list_def)
  qed
qed

lemma selectors_declared: "set (selectors_of nm name) \<subseteq> fst ` set (nm_nodes nm)"
  by (auto simp: selectors_of_def node_names_def)

text \<open>The selectors of a feature, and the selectors of those in turn.\<close>

function all_selectors :: "'f nodemap \<Rightarrow> string \<Rightarrow> string list \<Rightarrow> string list \<Rightarrow> string list" where
  "all_selectors nm name [] selectors = selectors"
| "all_selectors nm name (selector # pending) selectors =
     (if selector = name \<or> selector \<in> set selectors then all_selectors nm name pending selectors
      else all_selectors nm name (rev (selectors_of nm selector) @ pending) (selectors @ [selector]))"
  by pat_completeness auto

termination
proof (relation "measures [\<lambda>(nm, name, pending, selectors). card ((fst ` set (nm_nodes nm) \<union> set pending) - set selectors),
    \<lambda>(nm, name, pending, selectors). length pending]", simp)
  fix nm :: "'f nodemap" and name selector and pending selectors :: "string list"
  let ?m = "measures [\<lambda>(nm :: 'f nodemap, name :: string, pending, selectors). card ((fst ` set (nm_nodes nm) \<union> set pending) - set selectors),
    \<lambda>(nm, name, pending, selectors). length pending]"
  have "(fst ` set (nm_nodes nm) \<union> set pending) - set selectors \<subseteq> (fst ` set (nm_nodes nm) \<union> set (selector # pending)) - set selectors"
    by auto
  then have "card ((fst ` set (nm_nodes nm) \<union> set pending) - set selectors) \<le>
      card ((fst ` set (nm_nodes nm) \<union> set (selector # pending)) - set selectors)"
    by (intro card_mono) auto
  then show "((nm, name, pending, selectors), nm, name, selector # pending, selectors) \<in> ?m" by auto
next
  fix nm :: "'f nodemap" and name selector and pending selectors :: "string list"
  assume new: "\<not> (selector = name \<or> selector \<in> set selectors)"
  have "(fst ` set (nm_nodes nm) \<union> set (rev (selectors_of nm selector) @ pending)) - set (selectors @ [selector]) \<subset>
      (fst ` set (nm_nodes nm) \<union> set (selector # pending)) - set selectors"
    using new selectors_declared [of nm selector] by auto
  then have "card ((fst ` set (nm_nodes nm) \<union> set (rev (selectors_of nm selector) @ pending)) - set (selectors @ [selector])) <
      card ((fst ` set (nm_nodes nm) \<union> set (selector # pending)) - set selectors)"
    by (intro psubset_card_mono) auto
  then show "((nm, name, rev (selectors_of nm selector) @ pending, selectors @ [selector]), nm, name, selector # pending, selectors) \<in>
      measures [\<lambda>(nm :: 'f nodemap, name :: string, pending, selectors). card ((fst ` set (nm_nodes nm) \<union> set pending) - set selectors),
        \<lambda>(nm, name, pending, selectors). length pending]"
    by simp
qed

text \<open>Whether a selector selects another feature, directly or through others.\<close>

definition selected_of :: "'f nodemap \<Rightarrow> string \<Rightarrow> string list" where
  "selected_of nm name = (case get_node nm name of Some n \<Rightarrow> node_selected n | None \<Rightarrow> [])"

function selects_from :: "'f nodemap \<Rightarrow> string \<Rightarrow> string set \<Rightarrow> string list \<Rightarrow> bool" where
  "selects_from nm inner seen [] = False"
| "selects_from nm inner seen (current # pending) =
     (if current \<in> seen then selects_from nm inner seen pending
      else inner \<in> set (selected_of nm current) \<or>
        selects_from nm inner (insert current seen) (rev (selected_of nm current) @ pending))"
  by pat_completeness auto
termination
proof (relation "measures [\<lambda>(nm, inner, seen, pending). card (fst ` set (nm_nodes nm) - seen),
    \<lambda>(nm, inner, seen, pending). length pending]", simp_all)
  fix nm :: "'f nodemap" and current and seen :: "string set"
  assume new: "current \<notin> seen"
  let ?K = "fst ` set (nm_nodes nm)"
  show "card (?K - insert current seen) < card (?K - seen) \<or>
      card (?K - insert current seen) = card (?K - seen) \<and> selected_of nm current = []"
  proof (cases "current \<in> ?K")
    case True
    then have "?K - insert current seen \<subset> ?K - seen" using new by auto
    then show ?thesis by (simp add: psubset_card_mono)
  next
    case False
    then have "get_node nm current = None" by (simp add: get_node_def map_of_eq_None_iff)
    moreover have "?K - insert current seen = ?K - seen" using False by auto
    ultimately show ?thesis by (simp add: selected_of_def)
  qed
qed

definition selects :: "'f nodemap \<Rightarrow> string \<Rightarrow> string \<Rightarrow> bool" where
  "selects nm outer inner = selects_from nm inner {} [outer]"

definition document_position :: "'f nodemap \<Rightarrow> string \<Rightarrow> nat" where
  "document_position nm name = length (takeWhile (\<lambda>n. n \<noteq> name) (node_names nm))"

definition selectors_outermost_first :: "'f nodemap \<Rightarrow> string \<Rightarrow> string list" where
  "selectors_outermost_first nm name =
     (let selectors = sort_key (document_position nm) (all_selectors nm name (rev (selectors_of nm name)) []) in
      sort_key (\<lambda>s. length (filter (\<lambda>t. t \<noteq> s \<and> selects nm t s) selectors)) selectors)"

definition has_text_value :: "'f node \<Rightarrow> bool" where
  "has_text_value n = (case n of NCategory _ \<Rightarrow> False | NCommand _ \<Rightarrow> False | _ \<Rightarrow> True)"

definition streamable_names :: "'f nodemap \<Rightarrow> string list" where
  "streamable_names nm =
     filter (\<lambda>name. case get_node nm name of
         Some n \<Rightarrow> m_streamable (node_meta_of n) \<and> has_text_value n
       | None \<Rightarrow> False) (node_names nm)"

definition position_in :: "string list \<Rightarrow> string \<Rightarrow> nat" where
  "position_in names name = length (takeWhile (\<lambda>n. n \<noteq> name) names)"

definition plan_successors :: "'f nodemap \<Rightarrow> string list \<Rightarrow> nat list list" where
  "plan_successors nm names =
     map (\<lambda>name. sort (remdups (map (position_in names)
       (filter (\<lambda>f. f \<noteq> name) (affected nm names {} (rev (value_reach nm name)) []))))) names"

definition persistence_plan :: "'f nodemap \<Rightarrow> planned_feature list" where
  "persistence_plan nm =
     (let names = streamable_names nm; successors = plan_successors nm names in
      map (\<lambda>i. \<lparr>pf_name = names ! i, pf_selectors = selectors_outermost_first nm (names ! i),
           pf_after = map ((!) names) (filter (\<lambda>p. i \<in> set (successors ! p)) [0..<length names])\<rparr>)
        (restore_order successors))"

definition plan_position :: "planned_feature list \<Rightarrow> string \<Rightarrow> nat option" where
  "plan_position plan name = position (\<lambda>f. pf_name f = name) plan"

section \<open>Saving\<close>

definition MAX_SELECTOR_COMBINATIONS :: nat where "MAX_SELECTOR_COMBINATIONS = 65536"

record selector_walk =
  wk_context :: "(string \<times> string) list"
  wk_values :: "saved_value list"
  wk_omitted :: "omission list"
  wk_reads :: nat
  wk_abandoned :: "string option"

definition new_walk :: selector_walk where
  "new_walk = \<lparr>wk_context = [], wk_values = [], wk_omitted = [], wk_reads = 0, wk_abandoned = None\<rparr>"

definition omit :: "string \<Rightarrow> (string \<times> string) list \<Rightarrow> string \<Rightarrow> selector_walk \<Rightarrow> selector_walk" where
  "omit feature selectors reason w =
     w\<lparr>wk_omitted := wk_omitted w @ [\<lparr>om_feature = feature, om_selectors = selectors, om_reason = reason\<rparr>]\<rparr>"

definition not_persistable :: "('f, 'd) nm_env \<Rightarrow> string \<Rightarrow> string option" where
  "not_persistable E name =
     (case declared_access_mode (en_map E) name of
        Some RW \<Rightarrow> None
      | Some RO \<Rightarrow> Some ''read-only''
      | Some WO \<Rightarrow> Some ''write-only''
      | None \<Rightarrow> Some ''neither readable nor writable'')"

definition selects_now :: "('f, 'd) nm_env \<Rightarrow> ('f, 'd) reads \<Rightarrow> string \<Rightarrow> (bool, 'f, 'd) act" where
  "selects_now E R selector s =
     (if declared_access_mode (en_map E) selector \<notin> {Some RW, Some WO} then (Ok False, s)
      else
        bind (is_available E R selector s) (\<lambda>available s.
          if \<not> available then (Ok False, s)
          else bind (locked_by E R selector s) (\<lambda>lock s. (Ok (lock = None), s))))"

text \<open>A reason is an error here: a string instead of an error of the node map.\<close>

type_synonym ('a, 'f, 'd) reasoned = "('f, 'd) nm_state \<Rightarrow> ('a, string) result \<times> ('f, 'd) nm_state"

definition or_reason :: "'f text_codec \<Rightarrow> string \<Rightarrow> ('a, 'f genapi_error) result \<times> 's \<Rightarrow> ('a, string) result \<times> 's" where
  "or_reason T what m = on_result m (\<lambda>v s. (Ok v, s)) (\<lambda>e s. (Err (what @ tc_error T e), s))"

text \<open>
  The values of an integer selector. \<open>min + k * inc\<close> is \<open>i64\<close> arithmetic in the code; it is computed
  here as a release build computes it, wrapping. (The product leaves \<open>i64\<close> only for bounds more than
  \<open>2 ^ 63\<close> apart; the sum then wraps back to a value within them, where a debug build panics.)
\<close>

definition integer_entries :: "string \<Rightarrow> i64 option \<Rightarrow> i64 option \<Rightarrow> i64 option \<Rightarrow> (string list, string) result" where
  "integer_entries selector mn mx inc =
     (case (mn, mx) of
        (Some mn, Some mx) \<Rightarrow>
          (let inc = (case inc of Some i \<Rightarrow> if sint i > 0 then sint i else 1 | None \<Rightarrow> 1);
               count = (if sint mx < sint mn then 0 else nat ((sint mx - sint mn) div inc + 1)) in
           if count > MAX_SELECTOR_COMBINATIONS
           then Err (''its selector '' @ selector @ '' has '' @ show_nat count @ '' values, more than the 65536 a configuration saves'')
           else Ok (map (\<lambda>k. show_i64 (word_of_int (sint mn + int k * inc))) [0..<count]))
      | _ \<Rightarrow> Err (''its selector '' @ selector @ '' declares no bounds''))"

definition selector_entries :: "('f, 'd) nm_env \<Rightarrow> ('f, 'd) reads \<Rightarrow> 'f text_codec \<Rightarrow> string \<Rightarrow>
    (string list, 'f, 'd) reasoned" where
  "selector_entries E R T selector s =
     (case lookup E selector of
        Some (NEnum _) \<Rightarrow>
          or_reason T (''the entries of its selector '' @ selector @ '': '') (available_enum_entries E R selector s)
      | Some (NInteger _) \<Rightarrow>
          (let bound = (\<lambda>which s. or_reason T (''the bounds of its selector '' @ selector @ '': '')
                 (bind (rd_limit R selector which {} s) (\<lambda>v s. (Ok (map_option (as_i64 (en_ops E)) v), s)))) in
           bind (bound LMin s) (\<lambda>mn s.
           bind (bound LMax s) (\<lambda>mx s.
             if mn = None \<or> mx = None then (integer_entries selector mn mx None, s)
             else bind (bound LInc s) (\<lambda>inc s. (integer_entries selector mn mx inc, s)))))
      | _ \<Rightarrow> (Err (''its selector '' @ selector @ '' is neither an enumeration nor an integer''), s))"

definition savable_text :: "string \<Rightarrow> (string, string) result" where
  "savable_text v =
     (if LF \<in> set v \<or> CR \<in> set v then Err ''its value has a line break, which the file cannot hold''
      else if v = [] then Err ''empty, and the file has no way to hold an empty value''
      else Ok v)"

definition read_for_saving :: "('f, 'd) nm_env \<Rightarrow> ('f, 'd) reads \<Rightarrow> 'f text_codec \<Rightarrow> string \<Rightarrow> (string, 'f, 'd) reasoned" where
  "read_for_saving E R T name s =
     bind (or_reason T ''pIsImplemented: '' (is_implemented E R name s)) (\<lambda>implemented s.
     if \<not> implemented then (Err ''not implemented'', s)
     else
     bind (or_reason T ''pIsAvailable: '' (is_available E R name s)) (\<lambda>available s.
     if \<not> available then (Err ''not available'', s)
     else
     bind (or_reason T ''pIsLocked: '' (locked_by E R name s)) (\<lambda>lock s.
     case lock of
       Some provider \<Rightarrow> (Err (''locked by '' @ provider), s)
     | None \<Rightarrow>
         bind (or_reason T ''read failed: ''
             (case lookup E name of
                Some (NRegister _) \<Rightarrow> bind (get_register E R name s) (\<lambda>b s. (Ok (bytes_to_hex b), s))
              | Some (NBoolean _) \<Rightarrow> bind (rd_bool R name s) (\<lambda>on s. (Ok (if on then ''1'' else ''0''), s))
              | _ \<Rightarrow> get_text E R T name s)) (\<lambda>v s.
           (savable_text v, s)))))"

text \<open>What is done with the feature itself, under the entries set so far.\<close>

definition save_here :: "('f, 'd) nm_env \<Rightarrow> ('f, 'd) reads \<Rightarrow> 'f text_codec \<Rightarrow> string \<Rightarrow> selector_walk \<Rightarrow>
    (selector_walk, 'f, 'd) act" where
  "save_here E R T feature w s =
     (let w = w\<lparr>wk_reads := wk_reads w + 1\<rparr> in
      if wk_reads w > MAX_SELECTOR_COMBINATIONS
      then (Ok (w\<lparr>wk_abandoned := Some ''more than 65536 combinations of selector entries''\<rparr>), s)
      else on_result (read_for_saving E R T feature s)
        (\<lambda>v s. (Ok (w\<lparr>wk_values := wk_values w @
            [\<lparr>sv_feature = feature, sv_selectors = wk_context w, sv_value = v\<rparr>]\<rparr>), s))
        (\<lambda>reason s. (Ok (omit feature (wk_context w) reason w), s)))"

text \<open>
  One selector set to each of its entries in turn, the rest of the walk done under each; the entry the
  selector holds after the writes is returned.
\<close>

primrec walk_entries :: "('f, 'd) nm_env \<Rightarrow> ('f, 'd) reads \<Rightarrow> ('f, 'd) writes \<Rightarrow> 'f text_codec \<Rightarrow> string \<Rightarrow> string \<Rightarrow>
    (selector_walk \<Rightarrow> (selector_walk, 'f, 'd) act) \<Rightarrow> string list \<Rightarrow> string option \<Rightarrow> selector_walk \<Rightarrow>
    (selector_walk \<times> string option, 'f, 'd) act" where
  "walk_entries E R W T feature selector inner [] holds w s = (Ok (w, holds), s)"
| "walk_entries E R W T feature selector inner (entry # entries) holds w s =
     (if wk_abandoned w \<noteq> None then (Ok (w, holds), s)
      else
        on_result (set_text E R W T selector entry s)
          (\<lambda>_ s. bind (inner (w\<lparr>wk_context := wk_context w @ [(selector, entry)]\<rparr>) s) (\<lambda>w s.
             walk_entries E R W T feature selector inner entries (Some entry)
               (w\<lparr>wk_context := butlast (wk_context w)\<rparr>) s))
          (\<lambda>e s. walk_entries E R W T feature selector inner entries holds
             (omit feature (wk_context w @ [(selector, entry)])
               (''its selector cannot be set to '' @ entry @ '': '' @ tc_error T e) w) s))"

primrec walk_selectors :: "('f, 'd) nm_env \<Rightarrow> ('f, 'd) reads \<Rightarrow> ('f, 'd) writes \<Rightarrow> 'f text_codec \<Rightarrow> string \<Rightarrow> string list \<Rightarrow>
    selector_walk \<Rightarrow> (selector_walk, 'f, 'd) act" where
  "walk_selectors E R W T feature [] w s = save_here E R T feature w s"
| "walk_selectors E R W T feature (selector # selectors) w s =
     (let inner = walk_selectors E R W T feature selectors;
          skip = (\<lambda>reason s. (Ok (omit feature (wk_context w) reason w), s)) in
      on_result (selects_now E R selector s)
        (\<lambda>can s. if \<not> can then inner w s
          else on_result (get_text E R T selector s)
            (\<lambda>original s. on_result (selector_entries E R T selector s)
               (\<lambda>entries s. bind (walk_entries E R W T feature selector inner entries None w s) (\<lambda>(w, holds) s.
                  if holds \<noteq> None \<and> holds \<noteq> Some original
                  then or_else w (bind (set_text E R W T selector original s) (\<lambda>_ s. (Ok w, s)))
                  else (Ok w, s)))
               (\<lambda>reason s. (Ok (w\<lparr>wk_abandoned := Some reason\<rparr>), s)))
            (\<lambda>e s. skip (''its selector '' @ selector @ '' cannot be read: '' @ tc_error T e) s))
        (\<lambda>e s. skip (''the state of its selector '' @ selector @ '': '' @ tc_error T e) s))"

primrec save_features :: "('f, 'd) nm_env \<Rightarrow> ('f, 'd) reads \<Rightarrow> ('f, 'd) writes \<Rightarrow> 'f text_codec \<Rightarrow> planned_feature list \<Rightarrow>
    configuration \<Rightarrow> (configuration, 'f, 'd) act" where
  "save_features E R W T [] c s = (Ok c, s)"
| "save_features E R W T (f # fs) c s =
     (let leave_out = (\<lambda>reason. c\<lparr>cf_omitted := cf_omitted c @
            [\<lparr>om_feature = pf_name f, om_selectors = [], om_reason = reason\<rparr>]\<rparr>) in
      case not_persistable E (pf_name f) of
        Some reason \<Rightarrow> save_features E R W T fs (leave_out reason) s
      | None \<Rightarrow>
          bind (walk_selectors E R W T (pf_name f) (pf_selectors f) new_walk s) (\<lambda>w s.
            save_features E R W T fs
              (case wk_abandoned w of
                 Some reason \<Rightarrow> leave_out reason
               | None \<Rightarrow> c\<lparr>cf_values := cf_values c @ wk_values w, cf_omitted := cf_omitted c @ wk_omitted w\<rparr>) s))"

definition save_configuration :: "('f, 'd) nm_env \<Rightarrow> ('f, 'd) reads \<Rightarrow> ('f, 'd) writes \<Rightarrow> 'f text_codec \<Rightarrow>
    document_identity \<Rightarrow> (configuration, 'f, 'd) act" where
  "save_configuration E R W T camera s =
     save_features E R W T (persistence_plan (en_map E)) (empty_configuration\<lparr>cf_identity := camera\<rparr>) s"

section \<open>Loading\<close>

record 'f load_failure =
  lf_value :: saved_value
  lf_error :: "'f genapi_error"

record 'f load_report =
  lr_written :: nat
  lr_written_on_retry :: nat
  lr_failures :: "'f load_failure list"
  lr_warnings :: "string list"

definition is_permanent :: "'f genapi_error \<Rightarrow> bool" where
  "is_permanent e =
     (case e of
        NodeNotFound _ \<Rightarrow> True | WrongKind _ _ _ \<Rightarrow> True | AccessRefused _ _ \<Rightarrow> True
      | InvalidText _ _ _ \<Rightarrow> True | Unsupported _ _ \<Rightarrow> True | _ \<Rightarrow> False)"

text \<open>The selector entries the lines before a plain value set, for a file that replays writes.\<close>

definition replayed_selectors :: "'f nodemap \<Rightarrow> planned_feature list \<Rightarrow> (string \<rightharpoonup> string) \<Rightarrow> string \<Rightarrow> (string \<times> string) list" where
  "replayed_selectors nm plan current feature =
     (let selectors = (case plan_position plan feature of
            Some i \<Rightarrow> pf_selectors (plan ! i) | None \<Rightarrow> selectors_outermost_first nm feature) in
      List.map_filter (\<lambda>s. map_option (\<lambda>entry. (s, entry)) (current s)) selectors)"

primrec bind_replayed_selectors :: "'f nodemap \<Rightarrow> planned_feature list \<Rightarrow> (string \<rightharpoonup> string) \<Rightarrow> saved_value list \<Rightarrow>
    saved_value list" where
  "bind_replayed_selectors nm plan current [] = []"
| "bind_replayed_selectors nm plan current (v # vs) =
     (if sv_selectors v \<noteq> [] then v # bind_replayed_selectors nm plan current vs
      else v\<lparr>sv_selectors := replayed_selectors nm plan current (sv_feature v)\<rparr> #
        bind_replayed_selectors nm plan
          (if selected_of nm (sv_feature v) \<noteq> [] then current(sv_feature v \<mapsto> sv_value v) else current) vs)"

text \<open>Set each selector to its entry; what moved is returned with the result, outermost first.\<close>

primrec move_selectors :: "('f, 'd) nm_env \<Rightarrow> ('f, 'd) reads \<Rightarrow> ('f, 'd) writes \<Rightarrow> 'f text_codec \<Rightarrow> (string \<times> string) list \<Rightarrow>
    (string \<times> string) list \<Rightarrow> ('f genapi_error option \<times> (string \<times> string) list, 'f, 'd) act" where
  "move_selectors E R W T [] moved s = (Ok (None, moved), s)"
| "move_selectors E R W T (p # ps) moved s =
     (let (selector, entry) = p in
      on_result (get_text E R T selector s)
        (\<lambda>original s.
           if original = entry then move_selectors E R W T ps moved s
           else on_result (set_text E R W T selector entry s)
             (\<lambda>_ s. move_selectors E R W T ps (moved @ [(selector, original)]) s)
             (\<lambda>e s. (Ok (Some e, moved), s)))
        (\<lambda>e s. (Ok (Some e, moved), s)))"

definition write_value :: "('f, 'd) nm_env \<Rightarrow> ('f, 'd) reads \<Rightarrow> ('f, 'd) writes \<Rightarrow> 'f text_codec \<Rightarrow> saved_value \<Rightarrow>
    (unit, 'f, 'd) act" where
  "write_value E R W T v s =
     (case lookup E (sv_feature v) of
        Some (NRegister _) \<Rightarrow>
          (case hex_to_bytes (sv_value v) of
             None \<Rightarrow> (Err (InvalidText (sv_feature v) ''hexadecimal bytes'' (sv_value v)), s)
           | Some bs \<Rightarrow> set_register E R (sv_feature v) bs s)
      | _ \<Rightarrow> set_text E R W T (sv_feature v) (sv_value v) s)"

definition write_under_selectors :: "('f, 'd) nm_env \<Rightarrow> ('f, 'd) reads \<Rightarrow> ('f, 'd) writes \<Rightarrow> 'f text_codec \<Rightarrow> saved_value \<Rightarrow>
    ('f genapi_error option \<times> (string \<times> string) list, 'f, 'd) act" where
  "write_under_selectors E R W T v s =
     bind (move_selectors E R W T (sv_selectors v) [] s) (\<lambda>(failed, moved) s.
       if failed \<noteq> None then (Ok (failed, moved), s)
       else on_result (write_value E R W T v s) (\<lambda>_ s. (Ok (None, moved), s)) (\<lambda>e s. (Ok (Some e, moved), s)))"

primrec put_back :: "('f, 'd) nm_env \<Rightarrow> ('f, 'd) reads \<Rightarrow> ('f, 'd) writes \<Rightarrow> 'f text_codec \<Rightarrow> (string \<times> string) list \<Rightarrow>
    (unit, 'f, 'd) act" where
  "put_back E R W T [] s = (Ok (), s)"
| "put_back E R W T (p # ps) s =
     bind (or_else () (set_text E R W T (fst p) (snd p) s)) (\<lambda>_ s. put_back E R W T ps s)"

definition write_saved :: "('f, 'd) nm_env \<Rightarrow> ('f, 'd) reads \<Rightarrow> ('f, 'd) writes \<Rightarrow> 'f text_codec \<Rightarrow> saved_value \<Rightarrow>
    ('f genapi_error option, 'f, 'd) act" where
  "write_saved E R W T v s =
     bind (write_under_selectors E R W T v s) (\<lambda>(failed, moved) s.
     bind (put_back E R W T (rev moved) s) (\<lambda>_ s. (Ok failed, s)))"

text \<open>One pass: the values written, and those that failed with their place in the file and the error.\<close>

primrec load_pass :: "('f, 'd) nm_env \<Rightarrow> ('f, 'd) reads \<Rightarrow> ('f, 'd) writes \<Rightarrow> 'f text_codec \<Rightarrow> (nat \<times> saved_value) list \<Rightarrow>
    nat \<Rightarrow> (nat \<times> saved_value \<times> 'f genapi_error) list \<Rightarrow>
    (nat \<times> (nat \<times> saved_value \<times> 'f genapi_error) list, 'f, 'd) act" where
  "load_pass E R W T [] written failed s = (Ok (written, failed), s)"
| "load_pass E R W T (x # xs) written failed s =
     (let (i, v) = x in
      bind (write_saved E R W T v s) (\<lambda>r s.
        case r of
          None \<Rightarrow> load_pass E R W T xs (written + 1) failed s
        | Some e \<Rightarrow> load_pass E R W T xs written (failed @ [(i, v, e)]) s))"

text \<open>
  Values come in the plan's order, in the file's order where the plan does not tell them apart or does
  not hold them (the sort is stable, and such a feature comes last).
\<close>

definition in_plan_order :: "planned_feature list \<Rightarrow> saved_value list \<Rightarrow> (nat \<times> saved_value) list" where
  "in_plan_order plan values =
     sort_key (\<lambda>(_, v). case plan_position plan (sv_feature v) of Some i \<Rightarrow> i | None \<Rightarrow> length plan) (enumerate 0 values)"

definition load_configuration :: "('f, 'd) nm_env \<Rightarrow> ('f, 'd) reads \<Rightarrow> ('f, 'd) writes \<Rightarrow> 'f text_codec \<Rightarrow>
    document_identity \<Rightarrow> configuration \<Rightarrow> ('f load_report, 'f, 'd) act" where
  "load_configuration E R W T camera c s =
     (let plan = persistence_plan (en_map E);
          ordered = in_plan_order plan (bind_replayed_selectors (en_map E) plan Map.empty (cf_values c)) in
      bind (load_pass E R W T ordered 0 [] s) (\<lambda>(written, failed) s.
        let permanent = filter (\<lambda>(_, _, e). is_permanent e) failed;
            retry = map (\<lambda>(i, v, _). (i, v)) (filter (\<lambda>(_, _, e). \<not> is_permanent e) failed) in
        bind (load_pass E R W T retry 0 [] s) (\<lambda>(again, failed) s.
          (Ok \<lparr>lr_written = written + again, lr_written_on_retry = again,
               lr_failures = map (\<lambda>(_, v, e). \<lparr>lf_value = v, lf_error = e\<rparr>) (sort_key fst (permanent @ failed)),
               lr_warnings = identity_warnings (cf_identity c) camera\<rparr>, s))))"

definition load_is_complete :: "'f load_report \<Rightarrow> bool" where
  "load_is_complete r \<longleftrightarrow> lr_failures r = []"

end
