(* ===== verification/Persistence_Props.thy ===== *)
theory Persistence_Props
  imports Persistence Node_Reads_Props "HOL-Library.Multiset"
begin

text \<open>
  What a viewer is told of a feature that cannot be used, and what a load does with the values of a
  file.
\<close>

section \<open>Feature state\<close>

lemma on_result_simps [simp]:
  "on_result (Ok v, s) ok bad = ok v s" "on_result (Err e, s) ok bad = bad e s" "on_result (Panic, s) ok bad = (Panic, s)"
  by (simp_all add: on_result_def)

lemma or_else_simps [simp]:
  "or_else d (Ok v, s) = (Ok v, s)" "or_else d (Err e, s) = (Ok d, s)" "or_else d (Panic, s) = (Panic, s)"
  by (simp_all add: or_else_def)

lemma bound_unusable: "viewer_bound R name False conv which declared s = (Ok declared, s)"
  by (simp add: viewer_bound_def)

lemma range_unusable: "\<exists>p. range_and_unit E R name False node s = (Ok p, s)"
  by (cases node) (simp_all add: range_and_unit_def integer_range_def float_range_def bound_unusable Let_def)

lemma enum_entries_state: "snd (enum_entries E name s) = s"
  by (simp add: enum_entries_def split: option.splits node.splits)

lemma enum_entries_no_panic: "fst (enum_entries E name s) \<noteq> Panic"
  by (simp add: enum_entries_def split: option.splits node.splits)

lemma entries_unusable: "\<exists>p. viewer_entries E R name False node s = (Ok p, s)"
proof -
  obtain r where r: "enum_entries E name s = (r, s)" "r \<noteq> Panic"
    using enum_entries_state [of E name s] enum_entries_no_panic [of E name s] by (cases "enum_entries E name s") auto
  show ?thesis using r by (cases node; cases r) (simp_all add: viewer_entries_def ok_option_def)
qed

text \<open>
  C36. A feature the device does not implement, or whose \<open>pIsImplemented\<close> cannot be read, is reported and
  not read: its state is always an answer, without a value and with nothing writable, and after the
  predicate nothing else is read, neither its value nor its bounds nor the predicates of its entries
  (the state of map and device is the one the predicate left).
\<close>

theorem unimplemented_feature_not_read:
  assumes "lookup E name = Some node" "is_implemented E R name s = (r, s')" "r \<noteq> Panic" "r \<noteq> Ok True"
  shows "\<exists>f. feature_state E R name s = (Ok f, s') \<and> fs_value f = NoValue \<and> \<not> fs_is_implemented f \<and>
    \<not> fs_is_available f \<and> fs_access f \<in> {None, Some RO}"
proof -
  have implemented: "or_else False (is_implemented E R name s) = (Ok False, s')"
    using assms(2-4) by (cases r) auto
  obtain access where access: "access_for_viewer E R name False s' = (Ok access, s')" "access \<in> {None, Some RO}"
    by (cases "declared_access_mode (en_map E) name") (simp_all add: access_for_viewer_def)
  obtain p where p: "range_and_unit E R name False node s' = (Ok p, s')" using range_unusable by blast
  obtain q where q: "viewer_entries E R name False node s' = (Ok q, s')" using entries_unusable by blast
  show ?thesis
    using access(2) by (cases p) (simp add: feature_state_def assms(1) implemented access(1) p q)
qed

section \<open>Loading\<close>

text \<open>
  What one attempt at a value is, from the state before it to the state after: the selectors are moved
  to the value's entries, the value is written, and what moved is put back. It succeeds when every
  selector could be moved and the write returned success; it fails with the error of the selector or
  of the write.
\<close>

definition attempted :: "('f, 'd) nm_env \<Rightarrow> ('f, 'd) reads \<Rightarrow> ('f, 'd) writes \<Rightarrow> 'f text_codec \<Rightarrow> saved_value \<Rightarrow>
    'f genapi_error option \<Rightarrow> ('f, 'd) nm_state \<Rightarrow> ('f, 'd) nm_state \<Rightarrow> bool" where
  "attempted E R W T v outcome s s' \<longleftrightarrow>
     (\<exists>moved t t'. put_back E R W T (rev moved) t' = (Ok (), s') \<and>
        (case outcome of
           None \<Rightarrow> move_selectors E R W T (sv_selectors v) [] s = (Ok (None, moved), t) \<and>
             write_value E R W T v t = (Ok (), t')
         | Some e \<Rightarrow> move_selectors E R W T (sv_selectors v) [] s = (Ok (Some e, moved), t') \<or>
             move_selectors E R W T (sv_selectors v) [] s = (Ok (None, moved), t) \<and>
             write_value E R W T v t = (Err e, t')))"

text \<open>A log of attempts, one after the other.\<close>

fun attempts :: "('f, 'd) nm_env \<Rightarrow> ('f, 'd) reads \<Rightarrow> ('f, 'd) writes \<Rightarrow> 'f text_codec \<Rightarrow>
    (saved_value \<times> 'f genapi_error option) list \<Rightarrow> ('f, 'd) nm_state \<Rightarrow> ('f, 'd) nm_state \<Rightarrow> bool" where
  "attempts E R W T [] s s' \<longleftrightarrow> s' = s"
| "attempts E R W T ((v, outcome) # log) s s' \<longleftrightarrow>
     (\<exists>t. attempted E R W T v outcome s t \<and> attempts E R W T log t s')"

definition succeeded :: "saved_value \<times> 'f genapi_error option \<Rightarrow> bool" where
  "succeeded a \<longleftrightarrow> snd a = None"

definition failed_for_good :: "saved_value \<times> 'f genapi_error option \<Rightarrow> bool" where
  "failed_for_good a \<longleftrightarrow> (case snd a of None \<Rightarrow> False | Some e \<Rightarrow> is_permanent e)"

definition failed_for_now :: "saved_value \<times> 'f genapi_error option \<Rightarrow> bool" where
  "failed_for_now a \<longleftrightarrow> (case snd a of None \<Rightarrow> False | Some e \<Rightarrow> \<not> is_permanent e)"

lemma log_kinds [simp]:
  "succeeded (v, outcome) \<longleftrightarrow> outcome = None"
  "\<not> failed_for_good (v, None)" "failed_for_good (v, Some e) \<longleftrightarrow> is_permanent e"
  "\<not> failed_for_now (v, None)" "failed_for_now (v, Some e) \<longleftrightarrow> \<not> is_permanent e"
  by (simp_all add: succeeded_def failed_for_good_def failed_for_now_def)

lemma put_back_not_Err: "put_back E R W T ps t \<noteq> (Err e, t')"
proof (induction ps arbitrary: t)
  case (Cons p ps)
  obtain r' u where "set_text E R W T (fst p) (snd p) t = (r', u)" by (cases "set_text E R W T (fst p) (snd p) t")
  then show ?case using Cons by (cases r') simp_all
qed simp

lemma move_selectors_not_Err: "move_selectors E R W T ps moved t \<noteq> (Err e, t')"
  by (induction ps arbitrary: moved t) (auto simp: on_result_def split: prod.splits result.splits)

lemma write_saved_attempted:
  assumes "write_saved E R W T v s = (q, s1)" "q \<noteq> Panic"
  shows "\<exists>outcome. q = Ok outcome \<and> attempted E R W T v outcome s s1"
proof (cases "move_selectors E R W T (sv_selectors v) [] s")
  case (Pair m t)
  show ?thesis
  proof (cases m)
    case (Ok fm)
    obtain failed moved where fm: "fm = (failed, moved)" by (cases fm)
    have put: "\<exists>outcome. q = Ok outcome \<and> attempted E R W T v outcome s s1"
      if w: "write_saved E R W T v s = bind (put_back E R W T (rev moved) t') (\<lambda>_ s. (Ok outcome, s))"
        and a: "\<And>s1. put_back E R W T (rev moved) t' = (Ok (), s1) \<Longrightarrow> attempted E R W T v outcome s s1" for outcome t'
    proof (cases "put_back E R W T (rev moved) t'")
      case pb: (Pair b u)
      show ?thesis
      proof (cases b)
        case (Ok unit)
        then show ?thesis using w a [of u] assms by (simp add: pb)
      next
        case (Err e)
        then show ?thesis using put_back_not_Err pb by blast
      next
        case Panic
        then show ?thesis using w assms by (simp add: pb)
      qed
    qed
    show ?thesis
    proof (cases failed)
      case None
      obtain x t' where x: "write_value E R W T v t = (x, t')" by (cases "write_value E R W T v t")
      show ?thesis
      proof (cases x)
        case x_Ok: (Ok unit)
        show ?thesis
          by (rule put [of t' None])
            (use x in \<open>auto simp: write_saved_def write_under_selectors_def Pair Ok fm None x_Ok attempted_def\<close>)
      next
        case x_Err: (Err e)
        show ?thesis
          by (rule put [of t' "Some e"])
            (use x in \<open>auto simp: write_saved_def write_under_selectors_def Pair Ok fm None x_Err attempted_def\<close>)
      next
        case x_Panic: Panic
        show ?thesis using assms x
          by (simp add: write_saved_def write_under_selectors_def Pair Ok fm None x_Panic)
      qed
    next
      case (Some e)
      show ?thesis
        by (rule put [of t "Some e"])
          (auto simp: write_saved_def write_under_selectors_def Pair Ok fm Some attempted_def)
    qed
  next
    case (Err e)
    then show ?thesis using move_selectors_not_Err Pair by blast
  next
    case Panic
    then show ?thesis using assms by (simp add: write_saved_def write_under_selectors_def Pair)
  qed
qed

text \<open>One pass is a log of attempts, one for each of its values; the failures are reported with it.\<close>

definition failures_of :: "(nat \<times> saved_value) list \<Rightarrow> (saved_value \<times> 'f genapi_error option) list \<Rightarrow>
    (nat \<times> saved_value \<times> 'f genapi_error) list" where
  "failures_of xs log =
     List.map_filter (\<lambda>(x, a). map_option (\<lambda>e. (fst x, snd x, e)) (snd a)) (zip xs log)"

lemma failures_of_simps [simp]:
  "failures_of [] log = []"
  "failures_of (x # xs) ((v, None) # log) = failures_of xs log"
  "failures_of (x # xs) ((v, Some e) # log) = (fst x, snd x, e) # failures_of xs log"
  by (simp_all add: failures_of_def)

lemma load_pass_log:
  "load_pass E R W T xs n failed s = (r, s') \<Longrightarrow> r \<noteq> Panic \<Longrightarrow>
    \<exists>log. attempts E R W T log s s' \<and> map fst log = map snd xs \<and>
      r = Ok (n + length (filter succeeded log), failed @ failures_of xs log)"
proof (induction xs arbitrary: n failed s)
  case Nil
  then show ?case by (intro exI [of _ "[]"]) simp
next
  case (Cons x xs)
  obtain i v where x: "x = (i, v)" by (cases x)
  obtain q s1 where q: "write_saved E R W T v s = (q, s1)" by (cases "write_saved E R W T v s")
  have "q \<noteq> Panic" using Cons.prems q by (auto simp: x)
  then obtain outcome where o: "q = Ok outcome" "attempted E R W T v outcome s s1"
    using write_saved_attempted [OF q] by blast
  show ?case
  proof (cases outcome)
    case None
    obtain log where "attempts E R W T log s1 s'" "map fst log = map snd xs"
      "r = Ok (Suc n + length (filter succeeded log), failed @ failures_of xs log)"
      using Cons.IH [of "n + 1" failed s1] Cons.prems q by (auto simp: x o None)
    then show ?thesis using o(2) None by (intro exI [of _ "(v, None) # log"]) (auto simp: x)
  next
    case (Some e)
    obtain log where "attempts E R W T log s1 s'" "map fst log = map snd xs"
      "r = Ok (n + length (filter succeeded log), (failed @ [(i, v, e)]) @ failures_of xs log)"
      using Cons.IH [of n "failed @ [(i, v, e)]" s1] Cons.prems q by (auto simp: x o Some)
    then show ?thesis using o(2) Some by (intro exI [of _ "(v, Some e) # log"]) (auto simp: x)
  qed
qed

lemma failures_of_log:
  "map fst log = map snd xs \<Longrightarrow>
   map (\<lambda>(i, v, e). (v, Some e)) (filter (\<lambda>(_, _, e). P e) (failures_of xs log)) =
   filter (\<lambda>a. case snd a of None \<Rightarrow> False | Some e \<Rightarrow> P e) log"
proof (induction xs arbitrary: log)
  case (Cons x xs)
  then obtain outcome log' where log: "log = (snd x, outcome) # log'" by (cases log) auto
  then have "map fst log' = map snd xs" using Cons.prems by simp
  from Cons.IH [OF this] show ?case by (cases outcome) (simp_all add: log)
qed simp

lemma log_parts:
  "mset (filter succeeded log) + mset (filter failed_for_good log) + mset (filter failed_for_now log) = mset log"
proof (induction log)
  case (Cons a log)
  then show ?case
    by (cases a; cases "snd a") auto
qed simp

lemma bind_replayed_length: "length (bind_replayed_selectors nm plan current vs) = length vs"
  by (induction vs arbitrary: current) auto

lemma bind_replayed_features:
  "map (\<lambda>v. (sv_feature v, sv_value v)) (bind_replayed_selectors nm plan current vs) = map (\<lambda>v. (sv_feature v, sv_value v)) vs"
  by (induction vs arbitrary: current) auto

lemma failures_retried:
  assumes "map fst log = map snd xs"
  shows "map snd (map (\<lambda>(i, v, _). (i, v)) (filter (\<lambda>(_, _, e). \<not> is_permanent e) (failures_of xs log))) =
    map fst (filter failed_for_now log)"
proof -
  have "map snd (map (\<lambda>(i, v, _). (i, v)) (filter (\<lambda>(_, _, e). \<not> is_permanent e) (failures_of xs log))) =
      map fst (map (\<lambda>(i, v, e). (v, Some e)) (filter (\<lambda>(_, _, e). \<not> is_permanent e) (failures_of xs log)))"
    by (simp add: case_prod_unfold)
  then show ?thesis unfolding failures_of_log [OF assms] by (simp add: failed_for_now_def [abs_def])
qed

lemma failures_reported:
  assumes "map fst log1 = map snd xs" "map fst log2 = map snd ys"
  shows "mset (map (\<lambda>f. (lf_value f, Some (lf_error f))) (map (\<lambda>(_, v, e). \<lparr>lf_value = v, lf_error = e\<rparr>)
      (sort_key fst (filter (\<lambda>(_, _, e). is_permanent e) (failures_of xs log1) @ failures_of ys log2)))) =
    mset (filter failed_for_good log1) + mset (filter (\<lambda>a. \<not> succeeded a) log2)"
proof -
  have "map (\<lambda>(i, v, e). (v, Some e)) (failures_of ys log2) = filter (\<lambda>a. \<not> succeeded a) log2"
    using failures_of_log [OF assms(2), of "\<lambda>_. True"]
    by (simp add: case_prod_unfold succeeded_def option.case_eq_if)
  moreover have "map (\<lambda>(i, v, e). (v, Some e)) (filter (\<lambda>(_, _, e). is_permanent e) (failures_of xs log1)) =
      filter failed_for_good log1"
    unfolding failures_of_log [OF assms(1)] by (simp add: failed_for_good_def [abs_def])
  ultimately have lost: "mset (map (\<lambda>(i, v, e). (v, Some e))
        (filter (\<lambda>(_, _, e). is_permanent e) (failures_of xs log1) @ failures_of ys log2)) =
      mset (filter failed_for_good log1) + mset (filter (\<lambda>a. \<not> succeeded a) log2)" by simp
  show ?thesis
    unfolding lost [symmetric] by (simp add: comp_def case_prod_unfold del: mset_map) (simp add: mset_map)
qed

lemma log_accounts:
  assumes again: "map fst log2 = map fst (filter failed_for_now log1)"
    and failures: "mset (map (\<lambda>f. (lf_value f, Some (lf_error f))) fs) =
      mset (filter failed_for_good log1) + mset (filter (\<lambda>a. \<not> succeeded a) log2)"
  shows "mset (map fst (filter succeeded (log1 @ log2))) + mset (map lf_value fs) = mset (map fst log1)"
proof -
  let ?v = "\<lambda>P log. image_mset fst (mset (filter P log)) :: saved_value multiset"
  have wrote: "mset (map fst (filter succeeded (log1 @ log2))) = ?v succeeded log1 + ?v succeeded log2" by simp
  have "mset (map lf_value fs) = image_mset fst (mset (map (\<lambda>f. (lf_value f, Some (lf_error f))) fs))"
    by (simp add: multiset.map_comp comp_def)
  also have "\<dots> = ?v failed_for_good log1 + ?v (\<lambda>a. \<not> succeeded a) log2" unfolding failures by simp
  finally have lost: "mset (map lf_value fs) = \<dots>" .
  have "?v succeeded log2 + ?v (\<lambda>a. \<not> succeeded a) log2 = mset (map fst log2)"
    by (simp del: image_mset_union add: image_mset_union [symmetric])
  then have second: "?v succeeded log2 + ?v (\<lambda>a. \<not> succeeded a) log2 = ?v failed_for_now log1"
    unfolding again by simp
  have "?v succeeded log1 + ?v failed_for_good log1 + ?v failed_for_now log1 = mset (map fst log1)"
    using arg_cong [OF log_parts [of log1], of "image_mset fst"] by simp
  then show ?thesis unfolding wrote lost second [symmetric] by (simp only: ac_simps)
qed

text \<open>
  C35. A load accounts for every value of a file exactly once. It never stops early with an error: the
  first pass attempts every value of the file (with the selectors in force bound to it) and the second
  every one that failed for a reason that may pass. The values whose attempt succeeded, that is whose
  write the feature took, and the values reported as failures are together the values of the file,
  each as often as the file has it; a reported value comes with the error of its last attempt.
\<close>

theorem load_accounts_for_every_value:
  fixes c :: configuration and E :: "('f, 'd) nm_env"
  defines "vals \<equiv> bind_replayed_selectors (en_map E) (persistence_plan (en_map E)) Map.empty (cf_values c)"
  assumes "load_configuration E R W T camera c s = (r, s')" "r \<noteq> Panic"
  shows "\<exists>report log1 log2 s1. r = Ok report \<and>
    attempts E R W T log1 s s1 \<and> attempts E R W T log2 s1 s' \<and>
    mset (map fst log1) = mset vals \<and> map fst log2 = map fst (filter failed_for_now log1) \<and>
    lr_written report = length (filter succeeded (log1 @ log2)) \<and>
    lr_written_on_retry report = length (filter succeeded log2) \<and>
    mset (map (\<lambda>f. (lf_value f, Some (lf_error f))) (lr_failures report)) =
      mset (filter failed_for_good log1) + mset (filter (\<lambda>a. \<not> succeeded a) log2) \<and>
    mset (map fst (filter succeeded (log1 @ log2))) + mset (map lf_value (lr_failures report)) = mset vals \<and>
    map (\<lambda>v. (sv_feature v, sv_value v)) vals = map (\<lambda>v. (sv_feature v, sv_value v)) (cf_values c)"
proof -
  define ordered where "ordered = in_plan_order (persistence_plan (en_map E)) vals"
  have ordered: "mset (map snd ordered) = mset vals"
    unfolding ordered_def in_plan_order_def
    by (metis map_snd_enumerate mset_map mset_sort)
  obtain q s1 where q: "load_pass E R W T ordered 0 [] s = (q, s1)" by (cases "load_pass E R W T ordered 0 [] s")
  have "q \<noteq> Panic" using assms(2,3) q
    by (auto simp: load_configuration_def Let_def vals_def [symmetric] ordered_def [symmetric])
  then obtain log1 where first: "attempts E R W T log1 s s1" "map fst log1 = map snd ordered"
    "q = Ok (length (filter succeeded log1), failures_of ordered log1)"
    using load_pass_log [OF q] by auto
  define retry where "retry = map (\<lambda>(i, v, _). (i, v)) (filter (\<lambda>(_, _, e). \<not> is_permanent e) (failures_of ordered log1))"
  obtain q2 s2 where q2: "load_pass E R W T retry 0 [] s1 = (q2, s2)" by (cases "load_pass E R W T retry 0 [] s1")
  have run: "load_configuration E R W T camera c s =
      bind (q2, s2) (\<lambda>(again, failed) s.
          (Ok \<lparr>lr_written = length (filter succeeded log1) + again, lr_written_on_retry = again,
               lr_failures = map (\<lambda>(_, v, e). \<lparr>lf_value = v, lf_error = e\<rparr>)
                 (sort_key fst (filter (\<lambda>(_, _, e). is_permanent e) (failures_of ordered log1) @ failed)),
               lr_warnings = identity_warnings (cf_identity c) camera\<rparr>, s))"
    unfolding load_configuration_def Let_def vals_def [symmetric] ordered_def [symmetric] q first(3)
    by (simp add: retry_def [symmetric] q2)
  then have "q2 \<noteq> Panic" using assms by auto
  then obtain log2 where second: "attempts E R W T log2 s1 s2" "map fst log2 = map snd retry"
    "q2 = Ok (length (filter succeeded log2), failures_of retry log2)"
    using load_pass_log [OF q2] by auto
  let ?lost = "filter (\<lambda>(_, _, e). is_permanent e) (failures_of ordered log1) @ failures_of retry log2"
  define report where "report = \<lparr>lr_written = length (filter succeeded log1) + length (filter succeeded log2),
      lr_written_on_retry = length (filter succeeded log2),
      lr_failures = map (\<lambda>(_, v, e). \<lparr>lf_value = v, lf_error = e\<rparr>) (sort_key fst ?lost),
      lr_warnings = identity_warnings (cf_identity c) camera\<rparr>"
  have r: "r = Ok report" "s2 = s'" using run assms(2) by (simp_all add: second(3) report_def)
  have again: "map fst log2 = map fst (filter failed_for_now log1)"
    unfolding second(2) retry_def by (rule failures_retried [OF first(2)])
  have failures: "mset (map (\<lambda>f. (lf_value f, Some (lf_error f))) (lr_failures report)) =
      mset (filter failed_for_good log1) + mset (filter (\<lambda>a. \<not> succeeded a) log2)"
    unfolding report_def load_report.simps by (rule failures_reported [OF first(2) second(2)])
  note log_accounts [OF again failures]
  moreover have "mset (map fst log1) = mset vals" unfolding first(2) by (rule ordered)
  moreover have "map (\<lambda>v. (sv_feature v, sv_value v)) vals = map (\<lambda>v. (sv_feature v, sv_value v)) (cf_values c)"
    unfolding vals_def by (rule bind_replayed_features)
  moreover have "lr_written report = length (filter succeeded (log1 @ log2))"
    "lr_written_on_retry report = length (filter succeeded log2)" by (simp_all add: report_def)
  ultimately show ?thesis using r first(1) second(1) again failures
    by (intro exI [of _ report] exI [of _ log1] exI [of _ log2] exI [of _ s1]) (simp only: simp_thms)
qed

text \<open>A map of one integer that holds its own value, and a file that also names a feature it lacks.\<close>

definition two_gains_env :: "(int, bytes) nm_env" where
  "two_gains_env = word_env\<lparr>en_map := empty_map\<lparr>nm_nodes :=
     [(''Gain'', NInteger ((plain_integer ''Gain'' None None)\<lparr>i_value := Some 0\<rparr>))]\<rparr>\<rparr>"

definition plain_codec :: "int text_codec" where
  "plain_codec = \<lparr>tc_show = (\<lambda>_. []), tc_parse = (\<lambda>_. None), tc_error = (\<lambda>_. [])\<rparr>"

definition two_values :: configuration where
  "two_values = empty_configuration\<lparr>cf_values :=
     [\<lparr>sv_feature = ''Gain'', sv_selectors = [], sv_value = ''9''\<rparr>,
      \<lparr>sv_feature = ''Bogus'', sv_selectors = [], sv_value = ''1''\<rparr>]\<rparr>"

lemma load_accounts_for_every_value_witness:
  "\<exists>report wrote. fst (load_configuration two_gains_env (reads_at 2 two_gains_env) (writes_at 1 two_gains_env (reads_at 2 two_gains_env)) plain_codec
      (cf_identity empty_configuration) two_values (initial_state [])) = Ok report \<and>
    lr_written report = length wrote \<and>
    mset (map (\<lambda>v. (sv_feature v, sv_value v)) (wrote @ map lf_value (lr_failures report))) =
      {#(''Gain'', ''9''), (''Bogus'', ''1'')#}"
proof -
  let ?run = "load_configuration two_gains_env (reads_at 2 two_gains_env) (writes_at 1 two_gains_env (reads_at 2 two_gains_env)) plain_codec
      (cf_identity empty_configuration) two_values (initial_state [])"
  let ?f = "\<lambda>v. (sv_feature v, sv_value v)"
  let ?vals = "bind_replayed_selectors (en_map two_gains_env) (persistence_plan (en_map two_gains_env)) Map.empty (cf_values two_values)"
  have "case fst ?run of Panic \<Rightarrow> False | _ \<Rightarrow> True" by code_simp
  then have ran: "fst ?run \<noteq> Panic" by (auto split: result.splits)
  have two: "map ?f (cf_values two_values) = [(''Gain'', ''9''), (''Bogus'', ''1'')]" by (simp add: two_values_def)
  from load_accounts_for_every_value [OF surjective_pairing [of ?run] ran] show ?thesis
  proof (elim exE conjE)
    fix report log1 log2
    let ?wrote = "map fst (filter succeeded (log1 @ log2))"
    assume r: "fst ?run = Ok report" "lr_written report = length (filter succeeded (log1 @ log2))"
      "mset ?wrote + mset (map lf_value (lr_failures report)) = mset ?vals"
      "map ?f ?vals = map ?f (cf_values two_values)"
    have "mset (map ?f (?wrote @ map lf_value (lr_failures report))) = image_mset ?f (mset ?vals)"
      unfolding r(3) [symmetric] by (simp add: multiset.map_comp)
    also have "\<dots> = {#(''Gain'', ''9''), (''Bogus'', ''1'')#}"
      using arg_cong [OF r(4), of mset] unfolding two by simp
    finally have "mset (map ?f (?wrote @ map lf_value (lr_failures report))) = {#(''Gain'', ''9''), (''Bogus'', ''1'')#}" .
    moreover have "lr_written report = length ?wrote" using r(2) by simp
    ultimately show ?thesis using r(1) by blast
  qed
qed

lemma unimplemented_feature_not_read_witness:
  "\<exists>f. fst (feature_state (two_gains_env\<lparr>en_map := (en_map two_gains_env)\<lparr>nm_nodes :=
        [(''Gain'', NInteger ((plain_integer ''Gain'' None None)\<lparr>i_value := Some 0,
            i_predicates := no_predicates\<lparr>p_is_implemented := Some ''Gone''\<rparr>\<rparr>))]\<rparr>\<rparr>)
      ((reads_at 0 two_gains_env)\<lparr>rd_value := (\<lambda>_ _ s. (Err (Unavailable ''Gone''), s))\<rparr>) ''Gain'' (initial_state [])) = Ok f \<and>
    fs_value f = NoValue \<and> \<not> fs_is_implemented f"
proof -
  let ?n = "NInteger ((plain_integer ''Gain'' None None)\<lparr>i_value := Some 0,
      i_predicates := no_predicates\<lparr>p_is_implemented := Some ''Gone''\<rparr>\<rparr>)"
  let ?E = "two_gains_env\<lparr>en_map := (en_map two_gains_env)\<lparr>nm_nodes := [(''Gain'', ?n)]\<rparr>\<rparr>"
  let ?R = "(reads_at 0 two_gains_env)\<lparr>rd_value := (\<lambda>_ _ s. (Err (Unavailable ''Gone''), s))\<rparr>"
  have "lookup ?E ''Gain'' = Some ?n" by (simp add: lookup_def get_node_def two_gains_env_def)
  moreover have "is_implemented ?E ?R ''Gain'' (initial_state []) = (Err (Unavailable ''Gone''), initial_state [])"
    by (simp add: is_implemented_def predicate_refs_of_def lookup_def get_node_def eval_optional_def eval_predicate_ref_def)
  ultimately show ?thesis
    using unimplemented_feature_not_read [of ?E "''Gain''" ?n ?R "initial_state []"] by fastforce
qed

end
