(* ===== verification/Configuration_Roundtrip.thy ===== *)
theory Configuration_Roundtrip
  imports Configuration_Text
begin

text \<open>
  A configuration written to a file reads back as it was, without the comments on what was left out;
  and a value the writer lets through that the reader does not take.
\<close>

section \<open>Pieces of text\<close>

lemma trim_hd: "s \<noteq> [] \<Longrightarrow> \<not> is_space (hd s) \<Longrightarrow> trim s \<noteq> [] \<and> hd (trim s) = hd s"
proof -
  assume s: "s \<noteq> []" "\<not> is_space (hd s)"
  then have d: "dropWhile is_space s = s" by (cases s) auto
  have "dropWhile is_space (rev s) = takeWhile (\<lambda>_. False) [] @ dropWhile is_space (rev s)" by simp
  obtain x xs where x: "s = x # xs" "\<not> is_space x" using s by (cases s) auto
  have "dropWhile is_space (rev xs @ [x]) = dropWhile is_space (rev xs) @ [x]"
    using x(2) by (induction "rev xs" arbitrary: xs) (auto simp: dropWhile_append3 dropWhile_append)
  then show ?thesis by (simp add: trim_def d x)
qed

lemma trim_space: "is_space c \<Longrightarrow> trim (c # s) = trim s"
  by (simp add: trim_def)

lemma trim_snoc: "\<not> is_space (last s) \<Longrightarrow> s \<noteq> [] \<Longrightarrow> \<not> is_space (hd s) \<Longrightarrow> trim s = s"
proof -
  assume s: "\<not> is_space (last s)" "s \<noteq> []" "\<not> is_space (hd s)"
  have "dropWhile is_space s = s" using s by (cases s) auto
  moreover have "dropWhile is_space (rev s) = rev s" using s by (cases s rule: rev_cases) auto
  ultimately show ?thesis by (simp add: trim_def)
qed

lemma trimmed_ends: "trim s = s \<Longrightarrow> s \<noteq> [] \<Longrightarrow> \<not> is_space (hd s) \<and> \<not> is_space (last s)"
proof -
  assume t: "trim s = s" and s: "s \<noteq> []"
  let ?d = "dropWhile is_space s"
  have rs: "rev s = dropWhile is_space (rev ?d)" using t by (metis rev_rev_ident trim_def)
  have "length ?d \<le> length s" "length (dropWhile is_space (rev ?d)) \<le> length (rev ?d)"
    by (rule length_dropWhile_le)+
  then have "length ?d = length s" using arg_cong [OF rs, of length] by simp
  then have d: "?d = s" using takeWhile_dropWhile_id [of is_space s] by (metis add_cancel_left_left length_append length_0_conv self_append_conv2)
  have "\<not> is_space (hd s)" using s d by (metis hd_dropWhile)
  moreover have "\<not> is_space (hd (rev s))" using rs s by (metis d hd_dropWhile rev_is_Nil_conv)
  ultimately show ?thesis by (simp add: hd_rev)
qed

lemma contains_right: "contains_text p b \<Longrightarrow> contains_text p (a @ b)"
proof (induction a)
  case (Cons x a)
  then show ?case by simp
qed simp

lemma contains_left: "contains_text p b \<Longrightarrow> contains_text p (b @ c)"
proof (induction b)
  case Nil
  then show ?case by (cases c) auto
next
  case (Cons x b)
  then show ?case
    by (auto simp: take_append) (metis append_Cons append_eq_conv_conj append_take_drop_id append.assoc take_append)
qed

lemma contains_trim: "contains_text p (trim s) \<Longrightarrow> contains_text p s"
proof -
  assume c: "contains_text p (trim s)"
  let ?d = "dropWhile is_space s"
  have s: "s = takeWhile is_space s @ ?d" by simp
  have "?d = trim s @ rev (takeWhile is_space (rev ?d))"
    unfolding trim_def by (metis rev_append rev_rev_ident takeWhile_dropWhile_id)
  with c have "contains_text p ?d" by (metis contains_left)
  then show ?thesis using s by (metis contains_right)
qed

lemma contains_apart: "x \<notin> set a \<Longrightarrow> contains_text (x # p) (a @ b) \<Longrightarrow> contains_text (x # p) b"
  by (induction a) auto

lemma while_at:
  "c \<notin> set a \<Longrightarrow> takeWhile (\<lambda>x. x \<noteq> c) (a @ c # b) = a"
  "c \<notin> set a \<Longrightarrow> dropWhile (\<lambda>x. x \<noteq> c) (a @ c # b) = c # b"
  by (induction a) auto

lemma cut_at_at: "c \<notin> set a \<Longrightarrow> cut_at c (a @ c # b) = Some (a, b)"
  by (simp add: cut_at_def while_at)

lemma split_on_ne: "split_on c s \<noteq> []"
  by (induction s) auto

lemma split_on_none: "c \<notin> set s \<Longrightarrow> split_on c s = [s]"
  by (induction s) auto

lemma split_on_at: "c \<notin> set a \<Longrightarrow> split_on c (a @ c # b) = a # split_on c b"
  by (induction a) auto

lemma split_on_join: "ps \<noteq> [] \<Longrightarrow> list_all (\<lambda>p. c \<notin> set p) ps \<Longrightarrow> split_on c (join [c] ps) = ps"
  by (induction "[c]" ps rule: join.induct) (simp_all add: split_on_none split_on_at)

lemma set_join: "set (join sep xs) \<subseteq> set sep \<union> (\<Union>x \<in> set xs. set x)"
  by (induction sep xs rule: join.induct) auto

lemma text_lines_step: "LF \<notin> set l \<Longrightarrow> text_lines (l @ LF # rest) = strip_cr l # text_lines rest"
  by (subst text_lines.simps) (simp add: while_at)

lemma text_lines_written:
  "list_all (\<lambda>l. LF \<notin> set l \<and> (l \<noteq> [] \<longrightarrow> last l \<noteq> CR)) ls \<Longrightarrow> text_lines (concat (map (\<lambda>l. l @ [LF]) ls)) = ls"
proof (induction ls)
  case Nil
  then show ?case by (simp add: text_lines.simps)
next
  case (Cons l ls)
  then show ?case by (auto simp: text_lines_step strip_cr_def)
qed

section \<open>Lines of a file\<close>

text \<open>What a file can hold: values and selectors without the characters that separate them.\<close>

definition plain :: "string \<Rightarrow> bool" where
  "plain s \<longleftrightarrow> LF \<notin> set s \<and> (s \<noteq> [] \<longrightarrow> last s \<noteq> CR)"

definition writable_identity :: "string \<Rightarrow> bool" where
  "writable_identity s \<longleftrightarrow> plain s \<and> trim s = s \<and> \<not> contains_text BAGGER_MAGIC s"

definition writable_selector :: "string \<times> string \<Rightarrow> bool" where
  "writable_selector p \<longleftrightarrow>
     fst p \<noteq> [] \<and> snd p \<noteq> [] \<and> trim (fst p) = fst p \<and> trim (snd p) = snd p \<and> CHR ''='' \<notin> set (fst p) \<and>
     set (fst p) \<inter> {TAB, LF, CHR ''}''} = {} \<and> set (snd p) \<inter> {TAB, LF, CHR ''}''} = {}"

definition writable_value :: "saved_value \<Rightarrow> bool" where
  "writable_value v \<longleftrightarrow>
     sv_feature v \<noteq> [] \<and> trim (sv_feature v) = sv_feature v \<and> hd (sv_feature v) \<noteq> CHR ''#'' \<and>
     set (sv_feature v) \<inter> {TAB, LF} = {} \<and> list_all writable_selector (sv_selectors v) \<and>
     sv_value v \<noteq> [] \<and> plain (sv_value v) \<and> (sv_selectors v = [] \<longrightarrow> hd (sv_value v) \<noteq> CHR ''{'')"

definition writable_omission :: "omission \<Rightarrow> bool" where
  "writable_omission m \<longleftrightarrow> plain (omission_line m) \<and> \<not> contains_text BAGGER_MAGIC (omission_line m)"

definition writable :: "configuration \<Rightarrow> bool" where
  "writable c \<longleftrightarrow>
     writable_identity (di_vendor (cf_identity c)) \<and> writable_identity (di_model (cf_identity c)) \<and>
     writable_identity (di_version (cf_identity c)) \<and> list_all writable_value (cf_values c) \<and>
     list_all writable_omission (cf_omitted c)"

lemma space_chars [simp]: "is_space CHR '' ''" "is_space TAB" "\<not> is_space CHR ''#''" "\<not> is_space CHR ''=''"
  "\<not> is_space CHR ''n''" "\<not> is_space CHR ''V''" "\<not> is_space CHR ''M''" "\<not> is_space CHR ''D''"
  by (simp_all add: is_space_def TAB_def)

lemma separators [simp]: "TAB \<noteq> LF" "TAB \<noteq> CR" "LF \<noteq> CR" "CHR ''='' \<noteq> TAB" "CHR ''{'' \<noteq> TAB" "CHR ''}'' \<noteq> TAB" "CHR ''='' \<noteq> LF"
  "CHR ''}'' \<noteq> LF" "CHR ''{'' \<noteq> LF"
  "LF \<noteq> TAB" "CR \<noteq> LF" "TAB \<noteq> CHR ''=''" "TAB \<noteq> CHR ''{''" "TAB \<noteq> CHR ''}''" "LF \<noteq> CHR ''=''" "LF \<noteq> CHR ''}''" "LF \<noteq> CHR ''{''"
  by (simp_all add: TAB_def LF_def CR_def)

lemma read_pairs_texts:
  "list_all writable_selector ps \<Longrightarrow> read_pairs (map pair_text ps) = Ok ps"
  by (induction ps) (auto simp: writable_selector_def read_pair_def pair_text_def cut_at_at)

lemma read_group_text:
  assumes "list_all writable_selector ps" "ps \<noteq> []"
  shows "read_group (''{'' @ join [TAB] (map pair_text ps) @ ''}'' @ [TAB] @ v) = Ok (ps, v)"
proof -
  have sep: "list_all (\<lambda>p. TAB \<notin> set p) (map pair_text ps)"
    using assms(1) by (auto simp: list_all_iff writable_selector_def pair_text_def)
  have "CHR ''}'' \<notin> set (pair_text p)" if "p \<in> set ps" for p
    using assms(1) that by (auto simp: list_all_iff writable_selector_def pair_text_def)
  then have "CHR ''}'' \<notin> set (join [TAB] (map pair_text ps))"
    using set_join [of "[TAB]" "map pair_text ps"] by auto
  then show ?thesis
    using split_on_join [OF _ sep] assms
    by (simp add: read_group_def strip_char_def cut_at_at read_pairs_texts)
qed

lemma read_value_line: "writable_value v \<Longrightarrow> read_line (value_line v) c = Ok (c\<lparr>cf_values := cf_values c @ [v]\<rparr>)"
proof -
  assume v: "writable_value v"
  obtain x xs where f: "sv_feature v = x # xs" using v by (cases "sv_feature v") (auto simp: writable_value_def)
  have x: "\<not> is_space x" "x \<noteq> CHR ''#''"
    using v trimmed_ends [of "sv_feature v"] by (auto simp: writable_value_def f)
  obtain rest where rest: "value_line v = sv_feature v @ TAB # rest"
    "rest = (if sv_selectors v = [] then [] else ''{'' @ join [TAB] (map pair_text (sv_selectors v)) @ ''}'' @ [TAB]) @ sv_value v"
    by (simp add: value_line_def)
  have "trim (value_line v) \<noteq> []" using trim_hd [of "value_line v"] x(1) by (simp add: rest(1) f)
  moreover have "strip_char CHR ''#'' (value_line v) = None" using x(2) by (simp add: rest(1) f strip_char_def)
  moreover have "read_group rest = Ok (sv_selectors v, sv_value v)"
  proof (cases "sv_selectors v = []")
    case True
    then show ?thesis using v by (auto simp: rest(2) writable_value_def read_group_def strip_char_def split: list.split)
  next
    case False
    then show ?thesis using v read_group_text [of "sv_selectors v" "sv_value v"] by (simp add: rest(2) writable_value_def)
  qed
  moreover have "cut_at TAB (value_line v) = Some (sv_feature v, rest)"
    unfolding rest(1) using v by (intro cut_at_at) (auto simp: writable_value_def)
  ultimately show ?thesis
    using v by (simp add: read_line_def read_value_def writable_value_def)
qed

section \<open>Comments\<close>

lemma read_comment_line:
  assumes "\<not> contains_text BAGGER_MAGIC text"
    and "\<And>key v. cut_at CHR ''='' (trim text) = Some (key, v) \<Longrightarrow> trim key \<notin> {KEY_VENDOR, KEY_MODEL, KEY_VERSION}"
  shows "read_line (''#'' @ text) c = Ok c"
proof -
  have "read_comment text (cf_identity c) = Ok (cf_identity c)"
    using assms contains_trim [of BAGGER_MAGIC "text"]
    by (auto simp: read_comment_def Let_def split: option.splits)
  moreover have "trim (''#'' @ text) \<noteq> []" using trim_hd [of "''#'' @ text"] by simp
  ultimately show ?thesis by (simp add: read_line_def strip_char_def)
qed

lemma omission_read: "writable_omission m \<Longrightarrow> read_line (omission_line m) c = Ok c"
proof -
  assume m: "writable_omission m"
  define body where "body = ''not saved: '' @ om_feature m @ write_selectors (om_selectors m) @ '': '' @ om_reason m"
  have line: "omission_line m = ''#'' @ CHR '' '' # body" by (simp add: omission_line_def body_def)
  have t: "trim (CHR '' '' # body) \<noteq> []" "hd (trim (CHR '' '' # body)) = CHR ''n''"
    using trim_hd [of body] by (simp_all add: trim_space body_def)
  have key: "trim key \<notin> {KEY_VENDOR, KEY_MODEL, KEY_VERSION}"
    if "cut_at CHR ''='' (trim (CHR '' '' # body)) = Some (key, v)" for key v
  proof -
    have k: "key = takeWhile (\<lambda>x. x \<noteq> CHR ''='') (trim (CHR '' '' # body))"
      using that by (simp add: cut_at_def split: if_splits)
    then have "key \<noteq> []" "hd key = CHR ''n''" using t by (cases "trim (CHR '' '' # body)"; simp)+
    then have "hd (trim key) = CHR ''n''" using trim_hd [of key] by simp
    then show ?thesis by (auto simp: KEY_VENDOR_def KEY_MODEL_def KEY_VERSION_def)
  qed
  have "\<not> contains_text BAGGER_MAGIC (CHR '' '' # body)"
    using m contains_right [of BAGGER_MAGIC "CHR '' '' # body" "''#''"] by (auto simp: writable_omission_def line)
  then show ?thesis unfolding line using key by (rule read_comment_line)
qed

lemma trim_assignment:
  assumes "key \<noteq> []" "\<not> is_space (hd key)" "trim v = v"
  shows "\<exists>w. trim (CHR '' '' # key @ '' = '' @ v) = key @ '' ='' @ w \<and> trim w = v"
proof (cases "v = []")
  case True
  have "trim (key @ '' ='') = key @ '' =''" using assms by (intro trim_snoc) (auto simp: hd_append)
  moreover have "dropWhile is_space (key @ '' = '') = key @ '' = ''" using assms by (cases key) auto
  then have "trim (key @ '' = '') = key @ '' =''" unfolding trim_def by simp
  ultimately show ?thesis using True by (intro exI [of _ "[]"]) (simp add: trim_space trim_def)
next
  case False
  have "trim (key @ '' = '' @ v) = key @ '' = '' @ v"
    using assms False trimmed_ends [of v] by (intro trim_snoc) (auto simp: hd_append)
  then show ?thesis using assms(3) by (intro exI [of _ "CHR '' '' # v"]) (simp add: trim_space)
qed

lemma identity_read:
  assumes "key \<noteq> []" "\<not> is_space (hd key)" "CHR ''='' \<notin> set key" "CHR ''{'' \<notin> set key" "trim (key @ '' '') = key"
    "writable_identity v"
  shows "read_line (identity_line key v) c =
    Ok (c\<lparr>cf_identity := (if key = KEY_VENDOR then (cf_identity c)\<lparr>di_vendor := v\<rparr>
      else if key = KEY_MODEL then (cf_identity c)\<lparr>di_model := v\<rparr>
      else if key = KEY_VERSION then (cf_identity c)\<lparr>di_version := v\<rparr> else cf_identity c)\<rparr>)"
proof -
  obtain w where w: "trim (CHR '' '' # key @ '' = '' @ v) = key @ '' ='' @ w" "trim w = v"
    using trim_assignment assms by (auto simp: writable_identity_def)
  have once: "cut_at CHR ''='' (key @ '' ='' @ w) = Some (key @ '' '', w)"
    using cut_at_at [of "CHR ''=''" "key @ '' ''" w] assms(3) by simp
  have magic: "\<not> contains_text BAGGER_MAGIC (CHR '' '' # key @ '' = '' @ v)"
    using contains_apart [of "CHR ''{''" "CHR '' '' # key @ '' = ''" "tl BAGGER_MAGIC" v] assms(4,6)
    by (auto simp: BAGGER_MAGIC_def writable_identity_def)
  then have magic: "\<not> contains_text BAGGER_MAGIC (key @ '' ='' @ w)" using contains_trim w(1) by metis
  have "trim (''#'' @ CHR '' '' # key @ '' = '' @ v) \<noteq> []" using trim_hd [of "''#'' @ CHR '' '' # key @ '' = '' @ v"] by simp
  then show ?thesis
    using magic by (simp add: identity_line_def read_line_def strip_char_def read_comment_def w(2) w(1) [simplified] once [simplified] magic [simplified] assms(5) Let_def)
qed

lemma keys_readable:
  "key \<in> {KEY_VENDOR, KEY_MODEL, KEY_VERSION} \<Longrightarrow>
    key \<noteq> [] \<and> \<not> is_space (hd key) \<and> CHR ''='' \<notin> set key \<and> CHR ''{'' \<notin> set key \<and> trim (key @ '' '') = key"
  by (auto simp: KEY_VENDOR_def KEY_MODEL_def KEY_VERSION_def trim_def is_space_def)

lemma fixed_comments:
  "read_line (''# '' @ FILE_MAGIC) c = Ok c"
  "read_line ''# viva-genicam configuration'' c = Ok c"
proof -
  show "read_line (''# '' @ FILE_MAGIC) c = Ok c"
    using read_comment_line [of "CHR '' '' # FILE_MAGIC" c]
    by (simp add: BAGGER_MAGIC_def FILE_MAGIC_def cut_at_def trim_def is_space_def)
  show "read_line ''# viva-genicam configuration'' c = Ok c"
    using read_comment_line [of "'' viva-genicam configuration''" c]
    by (simp add: BAGGER_MAGIC_def cut_at_def trim_def is_space_def)
qed

section \<open>Files\<close>

lemma header_read:
  assumes "writable_identity (di_vendor i)" "writable_identity (di_model i)" "writable_identity (di_version i)"
  shows "read_lines 1 (header_lines i @ ls) empty_configuration = read_lines 6 ls (empty_configuration\<lparr>cf_identity := i\<rparr>)"
proof -
  have keys: "KEY_MODEL \<noteq> KEY_VENDOR" "KEY_VERSION \<noteq> KEY_VENDOR" "KEY_VERSION \<noteq> KEY_MODEL"
    by (simp_all add: KEY_VENDOR_def KEY_MODEL_def KEY_VERSION_def)
  have rows: "read_line (identity_line KEY_VENDOR v) d = Ok (d\<lparr>cf_identity := (cf_identity d)\<lparr>di_vendor := v\<rparr>\<rparr>)"
    "read_line (identity_line KEY_MODEL v) d = Ok (d\<lparr>cf_identity := (cf_identity d)\<lparr>di_model := v\<rparr>\<rparr>)"
    "read_line (identity_line KEY_VERSION v) d = Ok (d\<lparr>cf_identity := (cf_identity d)\<lparr>di_version := v\<rparr>\<rparr>)"
    if "writable_identity v" for v d
    using identity_read [of KEY_VENDOR v] identity_read [of KEY_MODEL v] identity_read [of KEY_VERSION v]
      keys_readable [of KEY_VENDOR] keys_readable [of KEY_MODEL] keys_readable [of KEY_VERSION] that keys by simp_all
  show ?thesis
    by (simp only: header_lines_def append_Cons append_Nil read_lines.simps fixed_comments [simplified append_Cons append_Nil]
        fixed_comments rows assms result.case)
      (cases i, simp add: empty_configuration_def numeral_eq_Suc)
qed

lemma read_lines_omissions: "list_all writable_omission ms \<Longrightarrow> read_lines k (map omission_line ms @ ls) c = read_lines (k + length ms) ls c"
  by (induction ms arbitrary: k) (simp_all add: omission_read)

lemma read_lines_values:
  "list_all writable_value vs \<Longrightarrow> read_lines k (map value_line vs) c = Ok (c\<lparr>cf_values := cf_values c @ vs\<rparr>)"
  by (induction vs arbitrary: k c) (simp_all add: read_value_line)

lemma written_lines:
  assumes "writable c"
  shows "text_lines (to_text c) = configuration_lines c"
proof -
  have p: "plain l" if "l \<in> set (configuration_lines c)" for l
  proof -
    have keys: "plain (identity_line key v)" if "writable_identity v" "key \<in> {KEY_VENDOR, KEY_MODEL, KEY_VERSION}" for key v
      using that by (auto simp: writable_identity_def plain_def identity_line_def KEY_VENDOR_def KEY_MODEL_def KEY_VERSION_def LF_def CR_def)
    have heads: "plain (''# '' @ FILE_MAGIC)" "plain ''# viva-genicam configuration''"
      by (simp_all add: plain_def FILE_MAGIC_def LF_def CR_def)
    have rows: "plain (value_line v)" if v: "writable_value v" for v
    proof -
      have "LF \<notin> set (pair_text p)" if "p \<in> set (sv_selectors v)" for p
        using that v by (auto simp: writable_value_def list_all_iff writable_selector_def pair_text_def)
      then have "LF \<notin> set (join [TAB] (map pair_text (sv_selectors v)))"
        using set_join [of "[TAB]" "map pair_text (sv_selectors v)"] by auto
      then show ?thesis using v by (auto simp: plain_def value_line_def writable_value_def)
    qed
    show ?thesis
      using that assms keys heads rows
      by (auto simp: configuration_lines_def header_lines_def writable_def list_all_iff writable_omission_def)
  qed
  show ?thesis
    unfolding to_text_def by (rule text_lines_written) (use p in \<open>auto simp: list_all_iff plain_def\<close>)
qed

text \<open>
  C34. Saving and loading a configuration file loses nothing: the text written for a configuration
  reads back as the same identity and the same values under the same selectors, in order; what the
  save left out is only a comment. The hypothesis says what the format can hold: names and entries
  without the characters that separate them, values on one line, and no value without selectors that
  starts with a brace.
\<close>

theorem configuration_roundtrip:
  assumes "writable c"
  shows "parse_configuration (to_text c) = Ok (c\<lparr>cf_omitted := []\<rparr>)"
proof -
  note w = assms [unfolded writable_def]
  have "parse_configuration (to_text c) =
      read_lines 6 (map omission_line (cf_omitted c) @ map value_line (cf_values c)) (empty_configuration\<lparr>cf_identity := cf_identity c\<rparr>)"
    unfolding parse_configuration_def written_lines [OF assms] configuration_lines_def using w by (intro header_read) auto
  then show ?thesis using w by (simp add: read_lines_omissions read_lines_values empty_configuration_def)
qed

lemma configuration_roundtrip_witness:
  "parse_configuration (to_text
     \<lparr>cf_identity = \<lparr>di_vendor = ''Basler'', di_model = ''acA1600-20gm'', di_version = ''3.2.1''\<rparr>,
      cf_values = [\<lparr>sv_feature = ''GainSelector'', sv_selectors = [], sv_value = ''AnalogAll''\<rparr>,
        \<lparr>sv_feature = ''Gain'', sv_selectors = [(''GainSelector'', ''DigitalAll'')], sv_value = ''9''\<rparr>],
      cf_omitted = [\<lparr>om_feature = ''ExposureTime'', om_selectors = [], om_reason = ''locked by ExposureAuto''\<rparr>]\<rparr>) =
   Ok \<lparr>cf_identity = \<lparr>di_vendor = ''Basler'', di_model = ''acA1600-20gm'', di_version = ''3.2.1''\<rparr>,
      cf_values = [\<lparr>sv_feature = ''GainSelector'', sv_selectors = [], sv_value = ''AnalogAll''\<rparr>,
        \<lparr>sv_feature = ''Gain'', sv_selectors = [(''GainSelector'', ''DigitalAll'')], sv_value = ''9''\<rparr>],
      cf_omitted = []\<rparr>"
  (is "parse_configuration (to_text ?c) = _")
proof -
  have "writable ?c"
    by (simp add: writable_def writable_identity_def writable_value_def writable_selector_def writable_omission_def
      plain_def trim_def is_space_def BAGGER_MAGIC_def omission_line_def write_selectors_def TAB_def LF_def CR_def)
  then show ?thesis using configuration_roundtrip [of ?c] by simp
qed

text \<open>
  A value saved without selectors that starts with a brace, such as a text register may hold, is
  written but not read: the reader takes it for a selector group and refuses the whole file.
\<close>

lemma braced_value_refused:
  assumes "CHR ''}'' \<notin> set v" "LF \<notin> set v" "v = [] \<or> last v \<noteq> CR"
  shows "parse_configuration (to_text (empty_configuration\<lparr>cf_values :=
      [\<lparr>sv_feature = ''DeviceUserID'', sv_selectors = [], sv_value = CHR ''{'' # v\<rparr>]\<rparr>)) =
    Err (6, ''a selector group without its closing brace'')"
proof -
  let ?v = "\<lparr>sv_feature = ''DeviceUserID'', sv_selectors = [], sv_value = CHR ''{'' # v\<rparr>"
  let ?c = "empty_configuration\<lparr>cf_values := [?v]\<rparr>"
  have "text_lines (to_text ?c) = configuration_lines ?c"
    unfolding to_text_def
    by (rule text_lines_written)
      (use assms in \<open>auto simp: configuration_lines_def header_lines_def identity_line_def value_line_def empty_configuration_def
        FILE_MAGIC_def KEY_VENDOR_def KEY_MODEL_def KEY_VERSION_def TAB_def LF_def CR_def\<close>)
  moreover have "read_line (value_line ?v) d = Err ''a selector group without its closing brace''" for d
    using assms(1) by (simp add: read_line_def value_line_def trim_def is_space_def strip_char_def read_value_def
      cut_at_def TAB_def read_group_def dropWhile_append)
  moreover have "writable_identity []" by (simp add: writable_identity_def plain_def trim_def BAGGER_MAGIC_def)
  then have "read_lines 1 (header_lines (cf_identity empty_configuration) @ ls) empty_configuration = read_lines 6 ls empty_configuration" for ls
    using header_read [of "cf_identity empty_configuration" ls] by (simp add: empty_configuration_def)
  ultimately show ?thesis
    by (simp add: parse_configuration_def configuration_lines_def) (simp add: empty_configuration_def)
qed

end
