(* ===== verification/Pixel_Format.thy ===== *)
theory Pixel_Format
  imports Prelude
begin

text \<open>
  Pixel formats (\<^verbatim>\<open>crates/viva-pfnc/src/lib.rs\<close>): the table of variants, codes and names the macro
  \<open>pixel_formats!\<close> expands, and the sizes read from a code.

  Row by row the table is the one of the source: a variant, its code, its name and the older spellings.
\<close>

datatype pixel_format =
    Mono8 | Mono10 | Mono12 | Mono14 | Mono16 | Mono10p | Mono12p | Mono10Packed | Mono12Packed | Confidence8
  | Coord3DC16 | Coord3DC32f | Coord3DAC16 | Coord3DAC32f | Coord3DABC32f | BayerGR8 | BayerRG8 | BayerGB8
  | BayerBG8 | BayerGR10 | BayerRG10 | BayerGB10 | BayerBG10 | BayerGR12 | BayerRG12 | BayerGB12 | BayerBG12
  | BayerGR16 | BayerRG16 | BayerGB16 | BayerBG16 | BayerGR10p | BayerRG10p | BayerGB10p | BayerBG10p
  | BayerGR12p | BayerRG12p | BayerGB12p | BayerBG12p | BayerGR10Packed | BayerRG10Packed | BayerGB10Packed
  | BayerBG10Packed | BayerGR12Packed | BayerRG12Packed | BayerGB12Packed | BayerBG12Packed | RGB8Packed
  | BGR8Packed | RGBa8 | BGRa8 | YUV411_8_UYYVYY | YUV422_8_UYVY | YUV422_8 | YCbCr422_8 | YCbCr422_8_CbYCrY
  | YUV8_UYV | YCbCr8_CbYCr | YCbCr8 | VendorLucidEvsEvt30 | VendorLucidEvsEvt21 | UnknownFormat u32

type_synonym format_row = "pixel_format \<times> u32 \<times> string list"

definition pixel_table :: "format_row list" where
  "pixel_table =
     [(Mono8, 0x01080001, [''Mono8'']),
      (Mono10, 0x01100003, [''Mono10'']),
      (Mono12, 0x01100005, [''Mono12'']),
      (Mono14, 0x01100025, [''Mono14'']),
      (Mono16, 0x01100007, [''Mono16'']),
      (Mono10p, 0x010A0046, [''Mono10p'']),
      (Mono12p, 0x010C0047, [''Mono12p'']),
      (Mono10Packed, 0x010C0004, [''Mono10Packed'']),
      (Mono12Packed, 0x010C0006, [''Mono12Packed'']),
      (Confidence8, 0x010800C6, [''Confidence8'']),
      (Coord3DC16, 0x011000B8, [''Coord3D_C16'']),
      (Coord3DC32f, 0x012000BF, [''Coord3D_C32f'']),
      (Coord3DAC16, 0x022000BB, [''Coord3D_AC16'']),
      (Coord3DAC32f, 0x024000C2, [''Coord3D_AC32f'']),
      (Coord3DABC32f, 0x026000C0, [''Coord3D_ABC32f'']),
      (BayerGR8, 0x01080008, [''BayerGR8'']),
      (BayerRG8, 0x01080009, [''BayerRG8'']),
      (BayerGB8, 0x0108000A, [''BayerGB8'']),
      (BayerBG8, 0x0108000B, [''BayerBG8'']),
      (BayerGR10, 0x0110000C, [''BayerGR10'']),
      (BayerRG10, 0x0110000D, [''BayerRG10'']),
      (BayerGB10, 0x0110000E, [''BayerGB10'']),
      (BayerBG10, 0x0110000F, [''BayerBG10'']),
      (BayerGR12, 0x01100010, [''BayerGR12'']),
      (BayerRG12, 0x01100011, [''BayerRG12'']),
      (BayerGB12, 0x01100012, [''BayerGB12'']),
      (BayerBG12, 0x01100013, [''BayerBG12'']),
      (BayerGR16, 0x0110002E, [''BayerGR16'']),
      (BayerRG16, 0x0110002F, [''BayerRG16'']),
      (BayerGB16, 0x01100030, [''BayerGB16'']),
      (BayerBG16, 0x01100031, [''BayerBG16'']),
      (BayerGR10p, 0x010A0056, [''BayerGR10p'']),
      (BayerRG10p, 0x010A0058, [''BayerRG10p'']),
      (BayerGB10p, 0x010A0054, [''BayerGB10p'']),
      (BayerBG10p, 0x010A0052, [''BayerBG10p'']),
      (BayerGR12p, 0x010C0057, [''BayerGR12p'']),
      (BayerRG12p, 0x010C0059, [''BayerRG12p'']),
      (BayerGB12p, 0x010C0055, [''BayerGB12p'']),
      (BayerBG12p, 0x010C0053, [''BayerBG12p'']),
      (BayerGR10Packed, 0x010C0026, [''BayerGR10Packed'']),
      (BayerRG10Packed, 0x010C0027, [''BayerRG10Packed'']),
      (BayerGB10Packed, 0x010C0028, [''BayerGB10Packed'']),
      (BayerBG10Packed, 0x010C0029, [''BayerBG10Packed'']),
      (BayerGR12Packed, 0x010C002A, [''BayerGR12Packed'']),
      (BayerRG12Packed, 0x010C002B, [''BayerRG12Packed'']),
      (BayerGB12Packed, 0x010C002C, [''BayerGB12Packed'']),
      (BayerBG12Packed, 0x010C002D, [''BayerBG12Packed'']),
      (RGB8Packed, 0x02180014, [''RGB8Packed'', ''RGB8'']),
      (BGR8Packed, 0x02180015, [''BGR8Packed'', ''BGR8'']),
      (RGBa8, 0x02200016, [''RGBa8'', ''RGBA8Packed'']),
      (BGRa8, 0x02200017, [''BGRa8'', ''BGRA8Packed'']),
      (YUV411_8_UYYVYY, 0x020C001E, [''YUV411_8_UYYVYY'', ''YUV411Packed'']),
      (YUV422_8_UYVY, 0x0210001F, [''YUV422_8_UYVY'', ''YUV422Packed'']),
      (YUV422_8, 0x02100032, [''YUV422_8'', ''YUV422_YUYV_Packed'']),
      (YCbCr422_8, 0x0210003B, [''YCbCr422_8'']),
      (YCbCr422_8_CbYCrY, 0x02100043, [''YCbCr422_8_CbYCrY'']),
      (YUV8_UYV, 0x02180020, [''YUV8_UYV'', ''YUV444Packed'']),
      (YCbCr8_CbYCr, 0x0218003A, [''YCbCr8_CbYCr'']),
      (YCbCr8, 0x0218005B, [''YCbCr8'']),
      (VendorLucidEvsEvt30, 0x81100E30, [''EVT3_0'']),
      (VendorLucidEvsEvt21, 0x81400E21, [''EVT2_1''])]"

definition from_code :: "u32 \<Rightarrow> pixel_format" where
  "from_code code =
     (case find (\<lambda>(_, c, _). c = code) pixel_table of Some (f, _) \<Rightarrow> f | None \<Rightarrow> UnknownFormat code)"

definition variant_row :: "pixel_format \<Rightarrow> format_row option" where
  "variant_row f = find (\<lambda>(g, _). g = f) pixel_table"

definition format_code :: "pixel_format \<Rightarrow> u32" where
  "format_code f =
     (case f of UnknownFormat c \<Rightarrow> c
      | _ \<Rightarrow> (case variant_row f of Some (_, c, _) \<Rightarrow> c | None \<Rightarrow> 0))"

definition from_name :: "string \<Rightarrow> pixel_format" where
  "from_name name =
     (case find (\<lambda>(_, _, names). name \<in> set names) pixel_table of Some (f, _) \<Rightarrow> f | None \<Rightarrow> UnknownFormat 0)"

definition format_name :: "pixel_format \<Rightarrow> string option" where
  "format_name f =
     (case variant_row f of Some (_, _, names) \<Rightarrow> Some (hd names) | None \<Rightarrow> None)"

section \<open>Sizes\<close>

text \<open>\<open>usize::checked_mul\<close> and \<open>checked_add\<close>, of a 64-bit target (on a 32-bit one, \<open>wasm32\<close>, the limit
  is \<open>2 ^ 32\<close> and more images are too large).\<close>

definition checked_mul :: "nat \<Rightarrow> nat \<Rightarrow> nat option" where
  "checked_mul a b = (if a * b < 2 ^ 64 then Some (a * b) else None)"

definition checked_add :: "nat \<Rightarrow> nat \<Rightarrow> nat option" where
  "checked_add a b = (if a + b < 2 ^ 64 then Some (a + b) else None)"

definition depth_bits :: "u32 \<Rightarrow> nat" where
  "depth_bits code = unat (drop_bit 16 code AND 0xFF)"

definition bytes_from_code :: "u32 \<Rightarrow> nat option" where
  "bytes_from_code code =
     (let bits = depth_bits code in if bits = 0 \<or> bits mod 8 \<noteq> 0 then None else Some (bits div 8))"

definition pixel_bytes :: "pixel_format \<Rightarrow> nat option" where
  "pixel_bytes f = bytes_from_code (format_code f)"

definition bits_per_pixel :: "pixel_format \<Rightarrow> nat option" where
  "bits_per_pixel f = (let bits = depth_bits (format_code f) in if bits = 0 then None else Some bits)"

text \<open>\<open>u32::trailing_zeros\<close>.\<close>

fun trailing_zeros :: "nat \<Rightarrow> nat" where
  "trailing_zeros n = (if n = 0 then 32 else if odd n then 0 else Suc (trailing_zeros (n div 2)))"

declare trailing_zeros.simps [simp del]

text \<open>The smallest run of pixels that starts on a byte boundary, and its bytes.\<close>

definition group :: "pixel_format \<Rightarrow> (nat \<times> nat) option" where
  "group f =
     (if f \<in> {YUV422_8, YUV422_8_UYVY, YCbCr422_8, YCbCr422_8_CbYCrY} then Some (2, 4)
      else if f = YUV411_8_UYYVYY then Some (4, 6)
      else if f \<in> {VendorLucidEvsEvt30, VendorLucidEvsEvt21} then None
      else case bits_per_pixel f of
        None \<Rightarrow> None
      | Some bits \<Rightarrow>
          (let common = 2 ^ trailing_zeros bits; common = (if common > 8 then 8 else common) in
           Some (8 div common, bits div common)))"

definition bytes_for :: "pixel_format \<Rightarrow> nat \<Rightarrow> nat option" where
  "bytes_for f pixels =
     (case group f of
        None \<Rightarrow> None
      | Some (group_pixels, group_bytes) \<Rightarrow> checked_mul (div_ceil pixels group_pixels) group_bytes)"

definition line_bytes :: "pixel_format \<Rightarrow> u32 \<Rightarrow> nat option" where
  "line_bytes f width = bytes_for f (unat width)"

definition image_bytes :: "pixel_format \<Rightarrow> u32 \<Rightarrow> u32 \<Rightarrow> nat option" where
  "image_bytes f width height =
     (case checked_mul (unat width) (unat height) of None \<Rightarrow> None | Some pixels \<Rightarrow> bytes_for f pixels)"

section \<open>Kinds\<close>

definition cfa_pattern :: "pixel_format \<Rightarrow> (string \<times> nat \<times> nat) option" where
  "cfa_pattern f =
     (if f \<in> {BayerRG8, BayerRG10, BayerRG12, BayerRG16, BayerRG10p, BayerRG12p, BayerRG10Packed, BayerRG12Packed}
      then Some (''RGGB'', 0, 0)
      else if f \<in> {BayerGR8, BayerGR10, BayerGR12, BayerGR16, BayerGR10p, BayerGR12p, BayerGR10Packed, BayerGR12Packed}
      then Some (''RGGB'', 1, 0)
      else if f \<in> {BayerGB8, BayerGB10, BayerGB12, BayerGB16, BayerGB10p, BayerGB12p, BayerGB10Packed, BayerGB12Packed}
      then Some (''RGGB'', 0, 1)
      else if f \<in> {BayerBG8, BayerBG10, BayerBG12, BayerBG16, BayerBG10p, BayerBG12p, BayerBG10Packed, BayerBG12Packed}
      then Some (''RGGB'', 1, 1)
      else None)"

definition is_bayer :: "pixel_format \<Rightarrow> bool" where
  "is_bayer f \<longleftrightarrow> cfa_pattern f \<noteq> None"

definition is_mono :: "pixel_format \<Rightarrow> bool" where
  "is_mono f \<longleftrightarrow>
     f \<in> {Mono8, Mono10, Mono12, Mono14, Mono16, Mono10p, Mono12p, Mono10Packed, Mono12Packed}"

definition upper_digit :: "nat \<Rightarrow> char" where
  "upper_digit d = (if d < 10 then char_of (48 + d) else char_of (55 + d))"

definition show_format :: "pixel_format \<Rightarrow> string" where
  "show_format f =
     (case format_name f of
        Some name \<Rightarrow> name
      | None \<Rightarrow> ''Unknown(0x'' @ map (\<lambda>i. upper_digit (unat (format_code f) div 16 ^ (7 - i) mod 16)) [0..<8] @ '')'')"

text \<open>The table is one-to-one: a code or a name belongs to one variant, and every named variant has a row.\<close>

lemma find_unique:
  assumes "distinct (map k xs)" "x \<in> set xs"
  shows "find (\<lambda>y. k y = k x) xs = Some x"
  using assms by (induction xs) (auto simp: image_iff)

lemma codes_distinct: "distinct (map (\<lambda>(_, c, _). c) pixel_table)"
  by (simp add: pixel_table_def)

lemma variants_distinct: "distinct (map fst pixel_table)"
  by (simp add: pixel_table_def)

lemma variants_listed: "(\<exists>c. f = UnknownFormat c) \<or> f \<in> set (map fst pixel_table)"
  by (cases f) (simp_all add: pixel_table_def)

lemma named_not_unknown: "UnknownFormat c \<notin> set (map fst pixel_table)"
  by (simp add: pixel_table_def)

text \<open>Codes round trip: every code is kept, and every variant but an unknown one that carries a named code.\<close>

lemma find_member: "find P xs = Some x \<Longrightarrow> x \<in> set xs \<and> P x"
  by (induction xs) (auto split: if_splits)

lemma row_of_code: "(f, c, names) \<in> set pixel_table \<Longrightarrow> from_code c = f"
  using find_unique [OF codes_distinct, of "(f, c, names)"] by (simp add: from_code_def case_prod_unfold)

lemma row_of_variant: "(f, c, names) \<in> set pixel_table \<Longrightarrow> variant_row f = Some (f, c, names)"
  using find_unique [OF variants_distinct, of "(f, c, names)"] by (simp add: variant_row_def case_prod_unfold)

lemma row_code:
  assumes "(f, c, names) \<in> set pixel_table" shows "format_code f = c"
proof -
  have "\<nexists>d. f = UnknownFormat d" using named_not_unknown assms by force
  then show ?thesis using row_of_variant [OF assms] by (cases f) (simp_all add: format_code_def)
qed

lemma code_back: "format_code (from_code code) = code"
proof (cases "find (\<lambda>(_, c, _). c = code) pixel_table")
  case None then show ?thesis by (simp add: from_code_def format_code_def)
next
  case (Some r)
  obtain f c names where r: "r = (f, c, names)" by (cases r)
  have "(f, c, names) \<in> set pixel_table" "c = code" using find_member [OF Some] unfolding r by auto
  then show ?thesis using row_code Some r by (simp add: from_code_def)
qed

lemma named_back:
  assumes "\<nexists>c. f = UnknownFormat c" shows "from_code (format_code f) = f"
proof -
  obtain c names where r: "(f, c, names) \<in> set pixel_table" using variants_listed [of f] assms by fastforce
  show ?thesis using row_code [OF r] row_of_code [OF r] by simp
qed

end
