(* ===== verification/Pixel_Convert.thy ===== *)
theory Pixel_Convert
  imports Pixel_Format
begin

text \<open>
  Turning a frame's bytes into samples, grey or RGB (\<^verbatim>\<open>crates/viva-pfnc/src/convert.rs\<close>).

  A slice out of range is \<open>None\<close>, and \<open>Panic\<close> where it ends a call. The buffers of a \<open>Converter\<close> are
  memory that is reused, never read before it is written, so its methods are functions of their arguments.
  Memory is unbounded: the capacity of the vectors an image is collected in is not modelled.
  The \<open>f32\<close> operations of the colour equations are a parameter, the record \<open>f32_ops\<close>.
\<close>

section \<open>Errors and results\<close>

datatype convert_error =
    UnsupportedFormat pixel_format
  | ShortPayload pixel_format nat nat
  | StrideTooShort nat nat
  | TooLarge u32 u32

datatype pixels =
    Gray8 bytes
  | Gray16 "u16 list" nat
  | Rgb8 bytes
  | Rgb16 "u16 list" nat

definition triple :: "'a list \<Rightarrow> 'a list" where
  "triple gray = concat (map (\<lambda>v. [v, v, v]) gray)"

definition into_rgb :: "pixels \<Rightarrow> pixels" where
  "into_rgb p =
     (case p of Gray8 gray \<Rightarrow> Rgb8 (triple gray) | Gray16 samples bits \<Rightarrow> Rgb16 (triple samples) bits | _ \<Rightarrow> p)"

section \<open>Layouts\<close>

datatype packing = Unpacked | Lsb | Gige

record single =
  sg_bits :: nat
  sg_packing :: packing

datatype rgb_order = OrderRgb | OrderBgr | OrderRgba | OrderBgra

datatype yuv_order = Yuyv | Uyvy | Uyyvyy | Uyv | Yuv

datatype pixel_layout =
    LMono single
  | LBayer single "nat \<times> nat"
  | LRgb rgb_order
  | LYuv yuv_order

definition is_8_bit :: "single \<Rightarrow> bool" where
  "is_8_bit s \<longleftrightarrow> sg_bits s = 8"

definition rgb_stride :: "rgb_order \<Rightarrow> nat" where
  "rgb_stride order = (if order \<in> {OrderRgb, OrderBgr} then 3 else 4)"

definition rgb_indices :: "rgb_order \<Rightarrow> nat \<times> nat \<times> nat" where
  "rgb_indices order = (if order \<in> {OrderRgb, OrderRgba} then (0, 1, 2) else (2, 1, 0))"

definition mono_or_bayer :: "pixel_format \<Rightarrow> nat \<Rightarrow> packing \<Rightarrow> pixel_layout option" where
  "mono_or_bayer f bits packing =
     (let s = \<lparr>sg_bits = bits, sg_packing = packing\<rparr> in
      Some (case cfa_pattern f of Some (_, x, y) \<Rightarrow> LBayer s (x, y) | None \<Rightarrow> LMono s))"

definition layout :: "pixel_format \<Rightarrow> pixel_layout option" where
  "layout f =
     (if f \<in> {Mono8, BayerRG8, BayerGR8, BayerGB8, BayerBG8} then mono_or_bayer f 8 Unpacked
      else if f \<in> {Mono10, BayerRG10, BayerGR10, BayerGB10, BayerBG10} then mono_or_bayer f 10 Unpacked
      else if f \<in> {Mono12, BayerRG12, BayerGR12, BayerGB12, BayerBG12} then mono_or_bayer f 12 Unpacked
      else if f = Mono14 then mono_or_bayer f 14 Unpacked
      else if f \<in> {Mono16, BayerRG16, BayerGR16, BayerGB16, BayerBG16} then mono_or_bayer f 16 Unpacked
      else if f \<in> {Mono10p, BayerRG10p, BayerGR10p, BayerGB10p, BayerBG10p} then mono_or_bayer f 10 Lsb
      else if f \<in> {Mono12p, BayerRG12p, BayerGR12p, BayerGB12p, BayerBG12p} then mono_or_bayer f 12 Lsb
      else if f \<in> {Mono10Packed, BayerRG10Packed, BayerGR10Packed, BayerGB10Packed, BayerBG10Packed}
      then mono_or_bayer f 10 Gige
      else if f \<in> {Mono12Packed, BayerRG12Packed, BayerGR12Packed, BayerGB12Packed, BayerBG12Packed}
      then mono_or_bayer f 12 Gige
      else if f = RGB8Packed then Some (LRgb OrderRgb)
      else if f = BGR8Packed then Some (LRgb OrderBgr)
      else if f = RGBa8 then Some (LRgb OrderRgba)
      else if f = BGRa8 then Some (LRgb OrderBgra)
      else if f \<in> {YUV422_8, YCbCr422_8} then Some (LYuv Yuyv)
      else if f \<in> {YUV422_8_UYVY, YCbCr422_8_CbYCrY} then Some (LYuv Uyvy)
      else if f = YUV411_8_UYYVYY then Some (LYuv Uyyvyy)
      else if f \<in> {YUV8_UYV, YCbCr8_CbYCr} then Some (LYuv Uyv)
      else if f = YCbCr8 then Some (LYuv Yuv)
      else None)"

definition supports :: "pixel_format \<Rightarrow> bool" where
  "supports f \<longleftrightarrow> layout f \<noteq> None"

section \<open>Rows\<close>

record rows =
  rw_src :: bytes
  rw_pixels :: nat
  rw_bytes :: nat
  rw_stride :: nat
  rw_count :: nat

definition row_at :: "rows \<Rightarrow> nat \<Rightarrow> bytes option" where
  "row_at r y = subslice (y * rw_stride r) (y * rw_stride r + rw_bytes r) (rw_src r)"

definition row_list :: "rows \<Rightarrow> bytes list option" where
  "row_list r = those (map (row_at r) [0..<rw_count r])"

definition rows_total :: "rows \<Rightarrow> nat" where
  "rows_total r = rw_pixels r * rw_count r"

definition or_error :: "'e \<Rightarrow> 'a option \<Rightarrow> ('a, 'e) result" where
  "or_error e x = (case x of Some v \<Rightarrow> Ok v | None \<Rightarrow> Err e)"

text \<open>The bytes an image without line padding must have: a bit-packed one may stop inside its last group.\<close>

definition needed_bytes :: "pixel_format \<Rightarrow> nat \<Rightarrow> nat \<Rightarrow> nat option" where
  "needed_bytes f pixels completed =
     (let packed = (\<lambda>s.
        case sg_packing s of
          Lsb \<Rightarrow> map_option (\<lambda>bits. div_ceil bits 8) (checked_mul pixels (sg_bits s))
        | Gige \<Rightarrow> Option.bind (checked_mul (pixels div 2) 3) (\<lambda>whole. checked_add whole (if pixels mod 2 = 1 then 2 else 0))
        | Unpacked \<Rightarrow> Some completed) in
      case layout f of
        Some (LMono s) \<Rightarrow> packed s
      | Some (LBayer s _) \<Rightarrow> packed s
      | _ \<Rightarrow> Some completed)"

definition geometry :: "pixel_format \<Rightarrow> u32 \<Rightarrow> u32 \<Rightarrow> bytes \<Rightarrow> (nat \<times> bytes, convert_error) result" where
  "geometry f width height src =
     and_then (or_error (TooLarge width height) (checked_mul (unat width) (unat height))) (\<lambda>pixels.
     and_then (or_error (TooLarge width height) (image_bytes f width height)) (\<lambda>completed.
     and_then (or_error (TooLarge width height) (needed_bytes f pixels completed)) (\<lambda>expected.
       if length src < expected then Err (ShortPayload f expected (length src))
       else Ok (pixels, take (min completed (length src)) src))))"

definition find_rows :: "pixel_format \<Rightarrow> u32 \<Rightarrow> u32 \<Rightarrow> nat option \<Rightarrow> bytes \<Rightarrow> (rows, convert_error) result" where
  "find_rows f width height row_stride src =
     (case row_stride of
        None \<Rightarrow>
          and_then (geometry f width height src) (\<lambda>(pixels, src).
            Ok \<lparr>rw_src = src, rw_pixels = pixels, rw_bytes = length src, rw_stride = length src, rw_count = 1\<rparr>)
      | Some stride \<Rightarrow>
          and_then (or_error (TooLarge width height) (checked_mul (unat width) (unat height))) (\<lambda>_.
          and_then (or_error (TooLarge width height) (line_bytes f width)) (\<lambda>line.
            if stride < line then Err (StrideTooShort stride line)
            else
              and_then (if height = 0 then Ok 0
                 else or_error (TooLarge width height)
                   (Option.bind (checked_mul stride (unat height - 1)) (\<lambda>start. checked_add start line))) (\<lambda>expected.
                if length src < expected then Err (ShortPayload f expected (length src))
                else Ok \<lparr>rw_src = src, rw_pixels = unat width, rw_bytes = line, rw_stride = stride,
                         rw_count = unat height\<rparr>))))"

section \<open>Unpacking and normalising\<close>

fun byte_pairs :: "bytes \<Rightarrow> u16 list" where
  "byte_pairs (a # b # bs) = (ucast a OR push_bit 8 (ucast b)) # byte_pairs bs"
| "byte_pairs _ = []"

text \<open>The inner loop takes bytes, zeros past the end, until a whole sample is held.\<close>

function fill_bits :: "nat \<Rightarrow> u32 \<Rightarrow> nat \<Rightarrow> bytes \<Rightarrow> u32 \<times> nat \<times> bytes" where
  "fill_bits bits acc held bs =
     (if held < bits
      then fill_bits bits (acc OR push_bit held (ucast (case bs of [] \<Rightarrow> 0 | b # _ \<Rightarrow> b))) (held + 8) (drop 1 bs)
      else (acc, held, bs))"
  by pat_completeness auto
termination by (relation "measure (\<lambda>(bits, acc, held, bs). bits - held)") auto

declare fill_bits.simps [simp del]

primrec unpack_lsb :: "nat \<Rightarrow> nat \<Rightarrow> u32 \<Rightarrow> nat \<Rightarrow> bytes \<Rightarrow> u16 list" where
  "unpack_lsb bits 0 acc held bs = []"
| "unpack_lsb bits (Suc n) acc held bs =
     (let (acc, held, bs) = fill_bits bits acc held bs in
      ucast (acc AND (push_bit bits 1 - 1)) # unpack_lsb bits n (drop_bit bits acc) (held - bits) bs)"

text \<open>Two pixels in three bytes; a last group of two bytes has one pixel.\<close>

fun unpack_gige :: "nat \<Rightarrow> bytes \<Rightarrow> u16 list" where
  "unpack_gige shift (msb0 # lsb # msb1 # bs) =
     (let mask = push_bit shift 1 - 1 in
      (push_bit shift (ucast msb0) OR (ucast lsb AND mask)) #
      (push_bit shift (ucast msb1) OR (drop_bit 4 (ucast lsb) AND mask)) # unpack_gige shift bs)"
| "unpack_gige shift [msb0, lsb] = [push_bit shift (ucast msb0) OR (ucast lsb AND (push_bit shift 1 - 1))]"
| "unpack_gige shift _ = []"

definition unpack_row :: "single \<Rightarrow> nat \<Rightarrow> bytes \<Rightarrow> u16 list option" where
  "unpack_row s pixels src =
     (case sg_packing s of
        Unpacked \<Rightarrow>
          if is_8_bit s then map_option (map ucast) (subslice 0 pixels src) else subslice 0 pixels (byte_pairs src)
      | Lsb \<Rightarrow> Some (unpack_lsb (sg_bits s) pixels 0 0 src)
      | Gige \<Rightarrow> Some (take pixels (unpack_gige (sg_bits s - 8) src)))"

definition unpack_rows :: "single \<Rightarrow> rows \<Rightarrow> u16 list option" where
  "unpack_rows s r =
     map_option concat (Option.bind (row_list r) (\<lambda>rs. those (map (unpack_row s (rw_pixels r)) rs)))"

text \<open>The 8-bit samples of all rows.\<close>

definition gather8 :: "rows \<Rightarrow> bytes option" where
  "gather8 r =
     (if rw_count r \<le> 1 then subslice 0 (rows_total r) (rw_src r)
      else map_option concat (Option.bind (row_list r) (\<lambda>rs. those (map (subslice 0 (rw_pixels r)) rs))))"

definition narrow :: "nat \<Rightarrow> u16 \<Rightarrow> byte" where
  "narrow bits v = ucast (min (drop_bit (bits - 8) v) 0xFF)"

section \<open>Demosaicing\<close>

text \<open>
  One pixel from its lines and its neighbours' columns, all of them inside the image; sums are taken in 32
  bits.
\<close>

definition mosaic_pixel :: "'a::len word list \<Rightarrow> 'a word list \<Rightarrow> 'a word list \<Rightarrow> nat \<Rightarrow> nat \<Rightarrow> nat \<times> nat \<Rightarrow> 'a word list" where
  "mosaic_pixel up mid down width x site =
     (let left = x - 1; right = min (x + 1) (width - 1);
          at = (\<lambda>line i. ucast (line ! i) :: u32);
          centre = at mid x;
          horizontal = (at mid left + at mid right) div 2;
          vertical = (at up x + at down x) div 2;
          cross = (at mid left + at mid right + at up x + at down x) div 4;
          diagonal = (at up left + at up right + at down left + at down right) div 4;
          (r, g, b) =
            (if site = (0, 0) then (centre, cross, diagonal)
             else if site = (1, 0) then (horizontal, centre, vertical)
             else if site = (0, 1) then (vertical, centre, horizontal)
             else (diagonal, cross, centre)) in
      [ucast r, ucast g, ucast b])"

definition demosaic_line :: "'a::len word list \<Rightarrow> nat \<Rightarrow> nat \<Rightarrow> nat \<times> nat \<Rightarrow> nat \<Rightarrow> 'a word list option" where
  "demosaic_line mosaic width height offsets y =
     (let row = (\<lambda>y. subslice (y * width) (y * width + width) mosaic) in
      case (row (y - 1), row y, row (min (y + 1) (height - 1))) of
        (Some up, Some mid, Some down) \<Rightarrow>
          Some (concat (map (\<lambda>x. mosaic_pixel up mid down width x
              ((x + fst offsets) mod 2, (y + snd offsets) mod 2)) [0..<width]))
      | _ \<Rightarrow> None)"

definition demosaic_bilinear :: "'a::len word list \<Rightarrow> nat \<Rightarrow> nat \<Rightarrow> nat \<times> nat \<Rightarrow> 'a word list option" where
  "demosaic_bilinear mosaic width height offsets =
     (if width = 0 \<or> height = 0 then Some (replicate (width * height * 3) 0)
      else map_option concat (those (map (demosaic_line mosaic width height offsets) [0..<height])))"

section \<open>Colour equations\<close>

text \<open>\<open>r_literal m k\<close> is the literal \<open>m / 10 ^ k\<close>.\<close>

record 'r f32_ops =
  r_of_u8 :: "byte \<Rightarrow> 'r"
  r_literal :: "int \<Rightarrow> nat \<Rightarrow> 'r"
  r_add :: "'r \<Rightarrow> 'r \<Rightarrow> 'r"
  r_sub :: "'r \<Rightarrow> 'r \<Rightarrow> 'r"
  r_mul :: "'r \<Rightarrow> 'r \<Rightarrow> 'r"
  r_round :: "'r \<Rightarrow> 'r"
  r_clamp :: "'r \<Rightarrow> 'r \<Rightarrow> 'r \<Rightarrow> 'r"
  r_to_u8 :: "'r \<Rightarrow> byte"

definition ycbcr_to_rgb :: "'r f32_ops \<Rightarrow> byte \<Rightarrow> byte \<Rightarrow> byte \<Rightarrow> bytes" where
  "ycbcr_to_rgb F y cb cr =
     (let y = r_of_u8 F y;
          cb = r_sub F (r_of_u8 F cb) (r_literal F 1280 1);
          cr = r_sub F (r_of_u8 F cr) (r_literal F 1280 1);
          channel = (\<lambda>v. r_to_u8 F (r_clamp F (r_literal F 0 1) (r_literal F 2550 1) (r_round F v))) in
      [channel (r_add F y (r_mul F (r_literal F 1402 3) cr)),
       channel (r_sub F (r_sub F y (r_mul F (r_literal F 34414 5) cb)) (r_mul F (r_literal F 71414 5) cr)),
       channel (r_add F y (r_mul F (r_literal F 1772 3) cb))])"

text \<open>Bytes of a group, where its luma samples are, and its two chroma samples.\<close>

definition yuv_group :: "yuv_order \<Rightarrow> nat \<times> nat list \<times> nat \<times> nat" where
  "yuv_group order =
     (case order of
        Yuyv \<Rightarrow> (4, [0, 2], 1, 3)
      | Uyvy \<Rightarrow> (4, [1, 3], 0, 2)
      | Uyyvyy \<Rightarrow> (6, [1, 2, 4, 5], 0, 3)
      | Uyv \<Rightarrow> (3, [1], 0, 2)
      | Yuv \<Rightarrow> (3, [0], 1, 2))"

text \<open>\<open>slice::chunks_exact\<close>.\<close>

definition chunks_exact :: "nat \<Rightarrow> 'a list \<Rightarrow> 'a list list" where
  "chunks_exact n xs = map (\<lambda>i. take n (drop (i * n) xs)) [0..<length xs div n]"

definition yuv_row :: "'r f32_ops \<Rightarrow> yuv_order \<Rightarrow> nat \<Rightarrow> bytes \<Rightarrow> bytes" where
  "yuv_row F order pixels src =
     (let (size, lumas, cb, cr) = yuv_group order in
      take (pixels * 3) (concat (map (\<lambda>chunk. concat (map (\<lambda>luma. ycbcr_to_rgb F (chunk ! luma) (chunk ! cb) (chunk ! cr)) lumas))
        (chunks_exact size src))))"

definition rgb_row :: "rgb_order \<Rightarrow> nat \<Rightarrow> bytes \<Rightarrow> bytes" where
  "rgb_row order pixels src =
     (let (r, g, b) = rgb_indices order in
      concat (map (\<lambda>px. [px ! r, px ! g, px ! b]) (take pixels (chunks_exact (rgb_stride order) src))))"

section \<open>Conversions\<close>

definition unpack_u16 :: "pixel_format \<Rightarrow> u32 \<Rightarrow> u32 \<Rightarrow> nat option \<Rightarrow> bytes \<Rightarrow> (u16 list, convert_error) result" where
  "unpack_u16 f width height row_stride src =
     and_then (find_rows f width height row_stride src) (\<lambda>rows.
       let unpacked = (\<lambda>s. or_panic (unpack_rows s rows) Ok) in
       case layout f of
         Some (LMono s) \<Rightarrow> unpacked s
       | Some (LBayer s _) \<Rightarrow> unpacked s
       | _ \<Rightarrow> Err (UnsupportedFormat f))"

text \<open>An 8-bit mosaic, and the frame in colour.\<close>

definition mosaic8 :: "single \<Rightarrow> rows \<Rightarrow> bytes option" where
  "mosaic8 s rows =
     (if is_8_bit s then gather8 rows else map_option (map (narrow (sg_bits s))) (unpack_rows s rows))"

definition colour_rows :: "'r f32_ops \<Rightarrow> pixel_layout \<Rightarrow> u32 \<Rightarrow> u32 \<Rightarrow> rows \<Rightarrow> bytes option" where
  "colour_rows F l width height rows =
     (case l of
        LMono s \<Rightarrow>
          if is_8_bit s
          then map_option (\<lambda>grays. concat (map triple grays))
                 (Option.bind (row_list rows) (\<lambda>rs. those (map (subslice 0 (rw_pixels rows)) rs)))
          else map_option (\<lambda>samples. triple (map (narrow (sg_bits s)) samples)) (unpack_rows s rows)
      | LBayer s offsets \<Rightarrow>
          Option.bind (mosaic8 s rows) (\<lambda>mosaic. demosaic_bilinear mosaic (unat width) (unat height) offsets)
      | LRgb order \<Rightarrow> map_option (\<lambda>rs. concat (map (rgb_row order (rw_pixels rows)) rs)) (row_list rows)
      | LYuv order \<Rightarrow> map_option (\<lambda>rs. concat (map (yuv_row F order (rw_pixels rows)) rs)) (row_list rows))"

definition rgb8_into :: "'r f32_ops \<Rightarrow> pixel_format \<Rightarrow> u32 \<Rightarrow> u32 \<Rightarrow> nat option \<Rightarrow> bytes \<Rightarrow> (bytes, convert_error) result" where
  "rgb8_into F f width height row_stride src =
     and_then (or_error (UnsupportedFormat f) (layout f)) (\<lambda>l.
     and_then (find_rows f width height row_stride src) (\<lambda>rows.
       or_panic (colour_rows F l width height rows) Ok))"

definition to_rgb8 :: "'r f32_ops \<Rightarrow> pixel_format \<Rightarrow> u32 \<Rightarrow> u32 \<Rightarrow> nat option \<Rightarrow> bytes \<Rightarrow> (bytes, convert_error) result" where
  "to_rgb8 = rgb8_into"

definition converter_gray8 :: "pixel_format \<Rightarrow> u32 \<Rightarrow> u32 \<Rightarrow> nat option \<Rightarrow> bytes \<Rightarrow> (bytes, convert_error) result" where
  "converter_gray8 f width height row_stride src =
     (case layout f of
        Some (LMono s) \<Rightarrow>
          and_then (find_rows f width height row_stride src) (\<lambda>rows. or_panic (mosaic8 s rows) Ok)
      | _ \<Rightarrow> Err (UnsupportedFormat f))"

definition converter_rgb8 :: "'r f32_ops \<Rightarrow> pixel_format \<Rightarrow> u32 \<Rightarrow> u32 \<Rightarrow> nat option \<Rightarrow> bytes \<Rightarrow> (bytes, convert_error) result" where
  "converter_rgb8 F f width height row_stride src =
     (if f = RGB8Packed
      then and_then (find_rows f width height row_stride src) (\<lambda>rows.
        if rw_count rows \<le> 1 then or_panic (subslice 0 (rw_pixels rows * 3) (rw_src rows)) Ok
        else rgb8_into F f width height row_stride src)
      else rgb8_into F f width height row_stride src)"

definition full_depth :: "'r f32_ops \<Rightarrow> pixel_format \<Rightarrow> u32 \<Rightarrow> u32 \<Rightarrow> nat option \<Rightarrow> bytes \<Rightarrow> (pixels, convert_error) result" where
  "full_depth F f width height row_stride src =
     and_then (or_error (UnsupportedFormat f) (layout f)) (\<lambda>l.
     and_then (find_rows f width height row_stride src) (\<lambda>rows.
       let colour = and_then (rgb8_into F f width height row_stride src) (\<lambda>out. Ok (Rgb8 out)) in
       case l of
         LMono s \<Rightarrow>
           if is_8_bit s then or_panic (gather8 rows) (\<lambda>v. Ok (Gray8 v))
           else or_panic (unpack_rows s rows) (\<lambda>v. Ok (Gray16 v (sg_bits s)))
       | LBayer s offsets \<Rightarrow>
           if is_8_bit s then colour
           else or_panic (Option.bind (unpack_rows s rows)
               (\<lambda>samples. demosaic_bilinear samples (unat width) (unat height) offsets)) (\<lambda>v. Ok (Rgb16 v (sg_bits s)))
       | _ \<Rightarrow> colour))"

end
