(* ===== verification/Pixel_Sizes.thy ===== *)
theory Pixel_Sizes
  imports Pixel_Convert
begin

text \<open>
  The packing groups of the formats that have a conversion, and the bits of their samples: what the
  sizes computed from a code have to do with the layouts the conversions read.
\<close>

section \<open>Sizes of the formats with a conversion\<close>

lemma codes_hold: "list_all (\<lambda>(f, c, _). format_code f = c) pixel_table"
  using row_code by (fastforce simp: list_all_iff)

lemmas format_codes = codes_hold [unfolded pixel_table_def list.pred_inject prod.case]

lemma trailing_zeros_values:
  "trailing_zeros 8 = 3" "trailing_zeros 10 = 1" "trailing_zeros 12 = 2" "trailing_zeros 16 = 4" "trailing_zeros 24 = 3"
  "trailing_zeros 32 = 5"
  by (simp_all add: trailing_zeros.simps)

definition layout_group :: "pixel_layout \<Rightarrow> nat \<times> nat" where
  "layout_group l =
     (let single = (\<lambda>s. case sg_packing s of
          Unpacked \<Rightarrow> (1, if sg_bits s = 8 then 1 else 2)
        | Lsb \<Rightarrow> (if sg_bits s = 10 then (4, 5) else (2, 3))
        | Gige \<Rightarrow> (2, 3)) in
      case l of
        LMono s \<Rightarrow> single s
      | LBayer s _ \<Rightarrow> single s
      | LRgb order \<Rightarrow> (1, rgb_stride order)
      | LYuv order \<Rightarrow> (length (fst (snd (yuv_group order))), fst (yuv_group order)))"

definition known_single :: "single \<Rightarrow> bool" where
  "known_single s \<longleftrightarrow> (sg_packing s, sg_bits s) \<in>
     {(Unpacked, 8), (Unpacked, 10), (Unpacked, 12), (Unpacked, 14), (Unpacked, 16), (Lsb, 10), (Lsb, 12), (Gige, 10), (Gige, 12)}"

lemma layout_known:
  assumes "layout f = Some l"
  shows "group f = Some (layout_group l) \<and>
    (case l of LMono s \<Rightarrow> known_single s | LBayer s _ \<Rightarrow> known_single s | _ \<Rightarrow> True)"
  using assms
  by (cases f) (auto simp: layout_def mono_or_bayer_def cfa_pattern_def layout_group_def known_single_def group_def
    bits_per_pixel_def depth_bits_def format_codes trailing_zeros_values yuv_group_def rgb_stride_def Let_def)

end
