(* ===== verification/Pixel_Props.thy ===== *)
theory Pixel_Props
  imports Pixel_Sizes
begin

text \<open>
  What the conversions of frames do: no payload makes them panic, the results have the size of the image,
  and the samples are the bits the format's layout puts them in.
\<close>

section \<open>Rows\<close>

lemma those_map:
  assumes "\<And>x. x \<in> set xs \<Longrightarrow> f x = Some (g x)" shows "those (map f xs) = Some (map g xs)"
  using assms by (induction xs) auto

lemma or_error_simps [simp]:
  "or_error e (Some v) = Ok v" "or_error e None = Err e" "or_error e x \<noteq> Panic"
  "or_error e x = Ok v \<longleftrightarrow> x = Some v"
  by (cases x; simp add: or_error_def)+

lemma checked_mul_Some: "checked_mul a b = Some c \<Longrightarrow> c = a * b"
  by (simp add: checked_mul_def split: if_splits)

lemma subslice_full: "subslice 0 (length xs) xs = Some xs"
  by (simp add: subslice_def)

text \<open>The bytes a row of so many pixels needs.\<close>

definition row_needs :: "pixel_layout \<Rightarrow> nat \<Rightarrow> nat \<Rightarrow> bool" where
  "row_needs l pixels n \<longleftrightarrow>
     (let single = (\<lambda>s. case sg_packing s of
          Unpacked \<Rightarrow> (if sg_bits s = 8 then pixels else 2 * pixels) \<le> n
        | Lsb \<Rightarrow> pixels * sg_bits s \<le> 8 * n
        | Gige \<Rightarrow> 3 * (pixels div 2) + (if odd pixels then 2 else 0) \<le> n) in
      case l of
        LMono s \<Rightarrow> single s
      | LBayer s _ \<Rightarrow> single s
      | LRgb order \<Rightarrow> pixels * rgb_stride order \<le> n
      | LYuv order \<Rightarrow> div_ceil pixels (length (fst (snd (yuv_group order)))) * fst (yuv_group order) \<le> n)"

lemma group_completes:
  assumes "layout f = Some l" "bytes_for f pixels = Some n"
  shows "row_needs l pixels n"
proof -
  have n: "n = div_ceil pixels (fst (layout_group l)) * snd (layout_group l)"
    using layout_known [OF assms(1)] assms(2) by (auto simp: bytes_for_def dest: checked_mul_Some split: prod.splits)
  have one: "div_ceil pixels 1 = pixels" "div_ceil pixels (Suc 0) = pixels" by (simp_all add: div_ceil_def)
  have two: "3 * (pixels div 2) + (if odd pixels then 2 else 0) \<le> div_ceil pixels 2 * 3"
    by (cases "odd pixels") (auto simp: div_ceil_def elim!: oddE evenE)
  have lsb: "pixels \<le> 4 * div_ceil pixels 4" "pixels \<le> 2 * div_ceil pixels 2"
    using le_div_ceil_mult [of 4 pixels] le_div_ceil_mult [of 2 pixels] by simp_all
  show ?thesis
    using two lsb layout_known [OF assms(1)] unfolding n
    by (cases l) (auto simp: row_needs_def layout_group_def known_single_def Let_def one split: packing.splits)
qed

lemma geometry_Ok:
  assumes "geometry f width height src = Ok (pixels, kept)" "layout f = Some l"
  shows "pixels = unat width * unat height \<and> row_needs l pixels (length kept)"
proof -
  obtain completed expected where
    p: "checked_mul (unat width) (unat height) = Some pixels" and
    c: "image_bytes f width height = Some completed" and
    e: "needed_bytes f pixels completed = Some expected" and
    kept: "expected \<le> length src" "kept = take (min completed (length src)) src"
    using assms(1) by (auto simp: geometry_def and_then_eq_Ok split: if_splits)
  have bytes: "bytes_for f pixels = Some completed" using c p by (simp add: image_bytes_def)
  have whole: "row_needs l pixels completed" by (rule group_completes [OF assms(2) bytes])
  have bits: "k \<le> 8 * div_ceil k 8" for k using le_div_ceil_mult [of 8 k] by (simp add: mult.commute)
  have bits8: "pixels \<le> div_ceil (pixels * 8) 8" using le_div_ceil_mult [of 8 "pixels * 8"] by simp
  have short: "row_needs l pixels expected"
    using e assms(2) whole bits bits8
    by (cases l) (auto simp: needed_bytes_def row_needs_def Let_def checked_mul_def checked_add_def odd_iff_mod_2_eq_one
      bind_eq_Some_conv split: packing.splits if_splits)
  have "length kept = min completed (length src)" using kept(2) by simp
  moreover have "row_needs l pixels (length src)"
    using short kept(1) by (cases l) (auto simp: row_needs_def Let_def split: packing.splits)
  ultimately have "row_needs l pixels (length kept)" using whole by (cases "completed \<le> length src") (simp_all add: min_def)
  then show ?thesis using p checked_mul_Some by blast
qed

text \<open>Every row there is is found, and holds its pixels.\<close>

definition rows_hold :: "pixel_layout \<Rightarrow> nat \<Rightarrow> rows \<Rightarrow> bool" where
  "rows_hold l whole r \<longleftrightarrow>
     rows_total r = whole \<and> (rw_count r \<le> 1 \<longrightarrow> (rw_count r = 1 \<longrightarrow> row_needs l (rw_pixels r) (length (rw_src r)))) \<and>
     (\<exists>rs. row_list r = Some rs \<and> length rs = rw_count r \<and> (\<forall>row\<in>set rs. row_needs l (rw_pixels r) (length row)))"

lemma find_rows_Ok:
  assumes "find_rows f width height row_stride src = Ok r" "layout f = Some l"
  shows "rows_hold l (unat width * unat height) r"
proof (cases row_stride)
  case None
  then obtain pixels kept where g: "geometry f width height src = Ok (pixels, kept)"
    and r: "r = \<lparr>rw_src = kept, rw_pixels = pixels, rw_bytes = length kept, rw_stride = length kept, rw_count = 1\<rparr>"
    using assms(1) by (auto simp: find_rows_def and_then_eq_Ok)
  show ?thesis using geometry_Ok [OF g assms(2)]
    by (auto simp: rows_hold_def r rows_total_def row_list_def row_at_def subslice_full)
next
  case (Some stride)
  then obtain line expected where
    line: "bytes_for f (unat width) = Some line" and stride: "line \<le> stride" and
    e: "(if height = 0 then Ok 0
         else or_error (TooLarge width height) (Option.bind (checked_mul stride (unat height - 1)) (\<lambda>start. checked_add start line))) =
         Ok expected" "expected \<le> length src" and
    r: "r = \<lparr>rw_src = src, rw_pixels = unat width, rw_bytes = line, rw_stride = stride, rw_count = unat height\<rparr>"
    using assms(1) by (auto simp: find_rows_def line_bytes_def and_then_eq_Ok not_less split: if_splits)
  have needs: "row_needs l (unat width) line" by (rule group_completes [OF assms(2) line])
  have fits: "y * stride + line \<le> length src" if "y < unat height" for y
  proof -
    have "height \<noteq> 0" using that by auto
    then have "stride * (unat height - 1) + line \<le> length src"
      using e by (auto simp: bind_eq_Some_conv checked_mul_def checked_add_def split: if_splits)
    moreover have "y \<le> unat height - 1" using that by simp
    then have "y * stride \<le> stride * (unat height - 1)" by (simp add: mult.commute mult_le_mono1)
    ultimately show ?thesis by linarith
  qed
  then have found: "row_at r y = Some (take line (drop (y * stride) src))" if "y < unat height" for y
    using that by (simp add: row_at_def r subslice_def)
  have "those (map (row_at r) [0..<unat height]) = Some (map (\<lambda>y. take line (drop (y * stride) src)) [0..<unat height])"
    by (rule those_map) (simp add: found)
  then have "row_list r = Some (map (\<lambda>y. take line (drop (y * stride) src)) [0..<unat height])"
    by (simp add: row_list_def r)
  moreover have "length (take line (drop (y * stride) src)) = line" if "y < unat height" for y
    using fits [OF that] by simp
  moreover have "row_needs l (unat width) (length src)" if "unat height = 1"
    using needs fits [of 0] that by (cases l) (auto simp: row_needs_def Let_def split: packing.splits)
  ultimately show ?thesis using needs by (auto simp: rows_hold_def r rows_total_def)
qed

section \<open>Results have the size of the image\<close>

lemma length_byte_pairs: "length (byte_pairs bs) = length bs div 2"
  by (induction bs rule: byte_pairs.induct) auto

lemma length_unpack_lsb [simp]: "length (unpack_lsb bits n acc held bs) = n"
  by (induction n arbitrary: acc held bs) (simp_all add: split_beta)

lemma length_unpack_gige:
  "length (unpack_gige shift bs) = 2 * (length bs div 3) + (if length bs mod 3 = 2 then 1 else 0)"
proof (induction shift bs rule: unpack_gige.induct)
  case (1 shift a b c bs)
  have "Suc (Suc (Suc (length bs))) div 3 = Suc (length bs div 3)" "Suc (Suc (Suc (length bs))) mod 3 = length bs mod 3"
    by presburger+
  then show ?case using 1 by (simp add: Let_def)
qed simp_all

lemma unpack_row_length:
  assumes "known_single s" "row_needs (LMono s) pixels (length row)"
  shows "\<exists>xs. unpack_row s pixels row = Some xs \<and> length xs = pixels"
proof (cases "sg_packing s")
  case Unpacked
  then show ?thesis using assms(2)
    by (cases "sg_bits s = 8") (auto simp: unpack_row_def row_needs_def is_8_bit_def subslice_def length_byte_pairs)
next
  case Lsb then show ?thesis by (simp add: unpack_row_def)
next
  case Gige
  let ?n = "length row"
  have n: "3 * (pixels div 2) + (if odd pixels then 2 else 0) \<le> ?n" using assms(2) Gige by (simp add: row_needs_def)
  have "pixels \<le> 2 * (?n div 3) + (if ?n mod 3 = 2 then 1 else 0)"
  proof (cases "odd pixels")
    case True
    then obtain k where k: "pixels = 2 * k + 1" by (rule oddE)
    then have "3 * k + 2 \<le> ?n" using n by simp
    then show ?thesis using k by (cases "?n mod 3 = 2") (auto, presburger+)
  next
    case False
    then obtain k where k: "pixels = 2 * k" by (auto elim: evenE)
    then have "k \<le> ?n div 3" using n by simp
    then show ?thesis using k by simp
  qed
  then show ?thesis using Gige by (simp add: unpack_row_def length_unpack_gige)
qed

lemma concat_length:
  assumes "\<And>x. x \<in> set xs \<Longrightarrow> length x = n" shows "length (concat xs) = length xs * n"
  using assms by (induction xs) auto

text \<open>The same step for every row, its results put together.\<close>

lemma gather_rows:
  assumes "row_list r = Some rs" "length rs = rw_count r"
    and "\<And>row. row \<in> set rs \<Longrightarrow> \<exists>xs. f row = Some xs \<and> length xs = n"
  shows "\<exists>out. Option.bind (row_list r) (\<lambda>rs. those (map f rs)) = Some out \<and> length out = rw_count r \<and>
    (\<forall>xs\<in>set out. length xs = n)"
proof -
  have "those (map f rs) = Some (map (\<lambda>row. the (f row)) rs)" using assms(3) by (intro those_map) force
  then show ?thesis using assms by (auto simp: assms(1)) force
qed

lemma hold_rows:
  assumes "rows_hold l n r"
  obtains rs where "row_list r = Some rs" "length rs = rw_count r" "\<And>row. row \<in> set rs \<Longrightarrow> row_needs l (rw_pixels r) (length row)"
    "rw_pixels r * rw_count r = n"
  using assms by (auto simp: rows_hold_def rows_total_def)

lemma unpack_rows_length:
  assumes "known_single s" "rows_hold (LMono s) n r"
  shows "\<exists>xs. unpack_rows s r = Some xs \<and> length xs = n"
proof -
  obtain rs where rs: "row_list r = Some rs" "length rs = rw_count r"
    and fit: "\<And>row. row \<in> set rs \<Longrightarrow> row_needs (LMono s) (rw_pixels r) (length row)" and n: "rw_pixels r * rw_count r = n"
    using assms(2) by (rule hold_rows) blast
  obtain out where "Option.bind (row_list r) (\<lambda>rs. those (map (unpack_row s (rw_pixels r)) rs)) = Some out"
    "length out = rw_count r" "\<forall>xs\<in>set out. length xs = rw_pixels r"
    using gather_rows [OF rs, of "unpack_row s (rw_pixels r)" "rw_pixels r"] unpack_row_length [OF assms(1) fit] by blast
  then show ?thesis using concat_length [of out "rw_pixels r"] n by (simp add: unpack_rows_def mult.commute)
qed

lemma bytes_rows:
  assumes "sg_packing s = Unpacked" "is_8_bit s" "rows_hold (LMono s) n r"
  shows "\<exists>out. Option.bind (row_list r) (\<lambda>rs. those (map (subslice 0 (rw_pixels r)) rs)) = Some out \<and>
    length (concat out) = n"
proof -
  obtain rs where rs: "row_list r = Some rs" "length rs = rw_count r"
    and fit: "\<And>row. row \<in> set rs \<Longrightarrow> row_needs (LMono s) (rw_pixels r) (length row)" and n: "rw_pixels r * rw_count r = n"
    using assms(3) by (rule hold_rows) blast
  have "\<exists>xs. subslice 0 (rw_pixels r) row = Some xs \<and> length xs = rw_pixels r" if "row \<in> set rs" for row
    using fit [OF that] assms(1,2) by (simp add: row_needs_def is_8_bit_def subslice_def)
  then obtain out where "Option.bind (row_list r) (\<lambda>rs. those (map (subslice 0 (rw_pixels r)) rs)) = Some out"
    "length out = rw_count r" "\<forall>xs\<in>set out. length xs = rw_pixels r"
    using gather_rows [OF rs, of "subslice 0 (rw_pixels r)" "rw_pixels r"] by blast
  then show ?thesis using concat_length [of out "rw_pixels r"] n by (simp add: mult.commute)
qed

lemma gather8_length:
  assumes "sg_packing s = Unpacked" "is_8_bit s" "rows_hold (LMono s) n r"
  shows "\<exists>xs. gather8 r = Some xs \<and> length xs = n"
proof (cases "rw_count r \<le> 1")
  case True
  then consider "rw_count r = 0" | "rw_count r = 1" by linarith
  then show ?thesis
    using assms by cases (auto simp: gather8_def rows_hold_def rows_total_def row_needs_def is_8_bit_def subslice_def)
next
  case False
  then show ?thesis using bytes_rows [OF assms] by (auto simp: gather8_def)
qed

lemma known_8_bit: "known_single s \<Longrightarrow> is_8_bit s \<Longrightarrow> sg_packing s = Unpacked"
  by (auto simp: known_single_def is_8_bit_def)

lemma mosaic8_length:
  assumes "known_single s" "rows_hold (LMono s) n r"
  shows "\<exists>xs. mosaic8 s r = Some xs \<and> length xs = n"
  using unpack_rows_length [OF assms] gather8_length [OF known_8_bit [OF assms(1)] _ assms(2)]
  by (auto simp: mosaic8_def)

lemma length_mosaic_pixel: "length (mosaic_pixel up mid down width x site) = 3"
  by (simp add: mosaic_pixel_def Let_def split_beta)

lemma demosaic_length:
  assumes "length mosaic = width * height"
  shows "\<exists>out. demosaic_bilinear mosaic width height offsets = Some out \<and> length out = width * height * 3"
proof (cases "width = 0 \<or> height = 0")
  case True then show ?thesis by (auto simp: demosaic_bilinear_def)
next
  case False
  define line where "line = (\<lambda>y. the (demosaic_line mosaic width height offsets y))"
  have row: "subslice (y * width) (y * width + width) mosaic = Some (take width (drop (y * width) mosaic))" if "y < height" for y
  proof -
    have "Suc y * width \<le> height * width" using that by (intro mult_le_mono1) simp
    then show ?thesis using assms by (simp add: subslice_def mult.commute)
  qed
  have lines: "demosaic_line mosaic width height offsets y = Some (line y) \<and> length (line y) = width * 3" if "y < height" for y
    using row [of "y - 1"] row [of y] row [of "min (y + 1) (height - 1)"] that
    by (simp add: demosaic_line_def line_def Let_def length_concat comp_def length_mosaic_pixel sum_list_triv)
  have "those (map (demosaic_line mosaic width height offsets) [0..<height]) = Some (map line [0..<height])"
    using lines by (intro those_map) simp
  moreover have "length (concat (map line [0..<height])) = length (map line [0..<height]) * (width * 3)"
    using lines by (intro concat_length) auto
  ultimately show ?thesis using False by (simp add: demosaic_bilinear_def mult_ac)
qed

lemma length_chunks_exact: "length (chunks_exact n xs) = length xs div n"
  by (simp add: chunks_exact_def)

lemma rgb_row_length: "pixels * rgb_stride order \<le> length row \<Longrightarrow> length (rgb_row order pixels row) = pixels * 3"
proof -
  assume fit: "pixels * rgb_stride order \<le> length row"
  have "0 < rgb_stride order" by (simp add: rgb_stride_def)
  then have "pixels \<le> length row div rgb_stride order" using fit by (simp add: less_eq_div_iff_mult_less_eq)
  then show ?thesis
    by (simp add: rgb_row_def split_beta length_concat comp_def sum_list_triv length_chunks_exact)
qed

lemma yuv_row_length:
  assumes "div_ceil pixels (length (fst (snd (yuv_group order)))) * fst (yuv_group order) \<le> length row"
  shows "length (yuv_row F order pixels row) = pixels * 3"
proof -
  obtain whole lumas cb cr where g: "yuv_group order = (whole, lumas, cb, cr)" by (cases "yuv_group order")
  have pos: "0 < whole" "0 < length lumas" using g by (cases order; auto simp: yuv_group_def)+
  have "div_ceil pixels (length lumas) \<le> length row div whole"
    using assms pos g by (simp add: less_eq_div_iff_mult_less_eq)
  then have "pixels \<le> length row div whole * length lumas" using div_ceil_le_iff [OF pos(2)] by blast
  moreover have "length (concat (map (\<lambda>chunk. concat (map (\<lambda>luma. ycbcr_to_rgb F (chunk ! luma) (chunk ! cb) (chunk ! cr)) lumas))
      (chunks_exact whole row))) = length row div whole * length lumas * 3"
    by (simp add: length_concat comp_def ycbcr_to_rgb_def Let_def sum_list_triv length_chunks_exact)
  ultimately show ?thesis by (simp add: yuv_row_def g)
qed

lemma length_triple: "length (triple xs) = length xs * 3"
  by (induction xs) (simp_all add: triple_def)

lemma length_triples: "length (concat (map triple xss)) = length (concat xss) * 3"
  by (induction xss) (simp_all add: length_triple)

lemma colour_rows_length:
  assumes "layout f = Some l" "rows_hold l (unat width * unat height) r"
  shows "\<exists>out. colour_rows F l width height r = Some out \<and> length out = unat width * unat height * 3"
proof (cases l)
  case (LMono s)
  have known: "known_single s" using layout_known [OF assms(1)] LMono by simp
  note hold = assms(2) [unfolded LMono]
  show ?thesis
    using unpack_rows_length [OF known hold] bytes_rows [OF known_8_bit [OF known] _ hold]
    by (auto simp: LMono colour_rows_def length_triple length_triples)
next
  case (LBayer s offsets)
  have known: "known_single s" using layout_known [OF assms(1)] LBayer by simp
  have hold: "rows_hold (LMono s) (unat width * unat height) r"
    using assms(2) by (simp add: LBayer rows_hold_def row_needs_def)
  obtain mosaic where "mosaic8 s r = Some mosaic" "length mosaic = unat width * unat height"
    using mosaic8_length [OF known hold] by blast
  then show ?thesis using demosaic_length [of mosaic "unat width" "unat height" offsets]
    by (simp add: LBayer colour_rows_def)
next
  case (LRgb order)
  obtain rs where rs: "row_list r = Some rs" "length rs = rw_count r" and n: "rw_pixels r * rw_count r = unat width * unat height"
    and fit: "\<And>row. row \<in> set rs \<Longrightarrow> row_needs l (rw_pixels r) (length row)"
    using assms(2) by (rule hold_rows) blast
  have "length (concat (map (rgb_row order (rw_pixels r)) rs)) = length (map (rgb_row order (rw_pixels r)) rs) * (rw_pixels r * 3)"
    using fit by (intro concat_length) (auto simp: LRgb row_needs_def rgb_row_length)
  then show ?thesis using rs n [symmetric] by (simp add: LRgb colour_rows_def)
next
  case (LYuv order)
  obtain rs where rs: "row_list r = Some rs" "length rs = rw_count r" and n: "rw_pixels r * rw_count r = unat width * unat height"
    and fit: "\<And>row. row \<in> set rs \<Longrightarrow> row_needs l (rw_pixels r) (length row)"
    using assms(2) by (rule hold_rows) blast
  have "length (concat (map (yuv_row F order (rw_pixels r)) rs)) = length (map (yuv_row F order (rw_pixels r)) rs) * (rw_pixels r * 3)"
    using fit by (intro concat_length) (auto simp: LYuv row_needs_def yuv_row_length)
  then show ?thesis using rs n [symmetric] by (simp add: LYuv colour_rows_def)
qed

text \<open>A result of the right length or an error, never a panic.\<close>

definition sized :: "nat \<Rightarrow> ('a list, 'e) result \<Rightarrow> bool" where
  "sized n r = (case r of Ok out \<Rightarrow> length out = n | Err _ \<Rightarrow> True | Panic \<Rightarrow> False)"

lemma no_panic_geometry: "geometry f width height src \<noteq> Panic"
  by (auto simp: geometry_def and_then_eq_Panic)

lemma no_panic_rows: "find_rows f width height row_stride src \<noteq> Panic"
  by (auto simp: find_rows_def and_then_eq_Panic no_panic_geometry split: option.splits)

lemma sized_rows:
  assumes "\<And>r. find_rows f width height row_stride src = Ok r \<Longrightarrow> sized n (k r)"
  shows "sized n (and_then (find_rows f width height row_stride src) k)"
  using assms no_panic_rows [of f width height row_stride src]
  by (cases "find_rows f width height row_stride src") (auto simp: sized_def)

lemma sized_found: "\<exists>out. x = Some out \<and> length out = n \<Longrightarrow> sized n (or_panic x Ok)"
  by (auto simp: sized_def)

lemma rgb8_sized: "sized (unat width * unat height * 3) (rgb8_into F f width height row_stride src)"
proof (cases "layout f")
  case None then show ?thesis by (simp add: rgb8_into_def sized_def)
next
  case (Some l)
  then show ?thesis using colour_rows_length [OF Some find_rows_Ok [OF _ Some]]
    by (auto simp: rgb8_into_def intro!: sized_rows sized_found)
qed

lemma single_found:
  assumes "find_rows f width height row_stride src = Ok r" "layout f = Some (LMono s) \<or> layout f = Some (LBayer s offsets)"
  shows "known_single s \<and> rows_hold (LMono s) (unat width * unat height) r"
proof -
  have same: "rows_hold (LBayer s offsets) n r = rows_hold (LMono s) n r" for n by (simp add: rows_hold_def row_needs_def)
  show ?thesis using assms(2)
  proof
    assume l: "layout f = Some (LMono s)"
    show ?thesis using layout_known [OF l] find_rows_Ok [OF assms(1) l] by simp
  next
    assume l: "layout f = Some (LBayer s offsets)"
    show ?thesis using layout_known [OF l] find_rows_Ok [OF assms(1) l] by (simp add: same)
  qed
qed

lemma unpack_sized: "sized (unat width * unat height) (unpack_u16 f width height row_stride src)"
proof (cases "\<exists>s offsets. layout f = Some (LMono s) \<or> layout f = Some (LBayer s offsets)")
  case True
  then obtain s offsets where l: "layout f = Some (LMono s) \<or> layout f = Some (LBayer s offsets)" by blast
  have "unpack_u16 f width height row_stride src =
      and_then (find_rows f width height row_stride src) (\<lambda>rows. or_panic (unpack_rows s rows) Ok)"
    using l by (auto simp: unpack_u16_def Let_def)
  moreover have "sized (unat width * unat height) (or_panic (unpack_rows s r) Ok)"
    if "find_rows f width height row_stride src = Ok r" for r
    using single_found [OF that l] by (intro sized_found unpack_rows_length) auto
  ultimately show ?thesis by (simp only:) (rule sized_rows)
next
  case False
  then show ?thesis
    unfolding unpack_u16_def by (intro sized_rows) (auto simp: sized_def Let_def split: option.split pixel_layout.split)
qed

lemma gray_sized: "sized (unat width * unat height) (converter_gray8 f width height row_stride src)"
proof (cases "\<exists>s. layout f = Some (LMono s)")
  case True
  then obtain s where l: "layout f = Some (LMono s)" by blast
  have "sized (unat width * unat height) (or_panic (mosaic8 s r) Ok)" if "find_rows f width height row_stride src = Ok r" for r
    using single_found [OF that, of s] l by (intro sized_found mosaic8_length) auto
  then show ?thesis by (simp add: converter_gray8_def l) (rule sized_rows)
next
  case False
  then show ?thesis by (auto simp: converter_gray8_def sized_def split: option.split pixel_layout.split)
qed

text \<open>The frame lent back as it is: nothing is checked for an image of no lines.\<close>

lemma lent_rows:
  assumes "find_rows RGB8Packed width height row_stride src = Ok r" "rw_count r \<le> 1" "height \<noteq> 0"
  shows "\<exists>out. subslice 0 (rw_pixels r * 3) (rw_src r) = Some out \<and> length out = unat width * unat height * 3"
proof -
  have l: "layout RGB8Packed = Some (LRgb OrderRgb)" by (simp add: layout_def)
  note hold = find_rows_Ok [OF assms(1) l]
  have lines: "unat height \<noteq> 0" using assms(3) by (simp add: unat_eq_0)
  then have "rw_count r \<noteq> 0"
    using assms(1) by (auto simp: find_rows_def and_then_eq_Ok split: option.splits if_splits)
  then have one: "rw_count r = 1" using assms(2) by simp
  then have "rw_pixels r = unat width * unat height" "rw_pixels r * 3 \<le> length (rw_src r)"
    using hold by (auto simp: rows_hold_def rows_total_def row_needs_def rgb_stride_def)
  then show ?thesis by (simp add: subslice_def)
qed

lemma lent_sized:
  assumes "height \<noteq> 0" shows "sized (unat width * unat height * 3) (converter_rgb8 F f width height row_stride src)"
proof (cases "f = RGB8Packed")
  case True
  have "sized (unat width * unat height * 3) (if rw_count r \<le> 1 then or_panic (subslice 0 (rw_pixels r * 3) (rw_src r)) Ok
      else rgb8_into F f width height row_stride src)"
    if "find_rows f width height row_stride src = Ok r" for r
    using lent_rows [of width height row_stride src r] that True assms rgb8_sized sized_found by (cases "rw_count r \<le> 1") simp_all
  then show ?thesis by (simp only: converter_rgb8_def True simp_thms if_True) (rule sized_rows)
next
  case False
  then show ?thesis by (simp add: converter_rgb8_def rgb8_sized)
qed

lemma rgb_line: "line_bytes RGB8Packed width = Some (unat width * 3)"
proof -
  have "unat width < 2 ^ 32" using unsigned_less [of width, where ?'a = nat] by simp
  then show ?thesis
    by (simp add: line_bytes_def bytes_for_def group_def bits_per_pixel_def depth_bits_def format_codes trailing_zeros_values
      div_ceil_def checked_mul_def Let_def)
qed

lemma no_lines_rows:
  "find_rows RGB8Packed width 0 row_stride src = Ok r \<longleftrightarrow>
    (case row_stride of
       None \<Rightarrow> r = \<lparr>rw_src = [], rw_pixels = 0, rw_bytes = 0, rw_stride = 0, rw_count = 1\<rparr>
     | Some stride \<Rightarrow> unat width * 3 \<le> stride \<and>
         r = \<lparr>rw_src = src, rw_pixels = unat width, rw_bytes = unat width * 3, rw_stride = stride, rw_count = 0\<rparr>)"
proof (cases row_stride)
  case None
  have "geometry RGB8Packed width 0 src = Ok (0, [])"
    by (simp add: geometry_def checked_mul_def image_bytes_def needed_bytes_def bytes_for_def group_def bits_per_pixel_def
      depth_bits_def format_codes trailing_zeros_values div_ceil_def layout_def Let_def)
  then show ?thesis by (auto simp: find_rows_def None)
next
  case (Some stride)
  then show ?thesis by (auto simp: find_rows_def rgb_line checked_mul_def)
qed

lemma lent_panics:
  "converter_rgb8 F f width height row_stride src = Panic \<longleftrightarrow>
    f = RGB8Packed \<and> height = 0 \<and> length src < unat width * 3 \<and> (\<exists>stride. row_stride = Some stride \<and> unat width * 3 \<le> stride)"
proof (cases "f = RGB8Packed \<and> height = 0")
  case True
  have total: "rgb8_into F f width height row_stride src \<noteq> Panic" using rgb8_sized [of width height F f row_stride src] by (auto simp: sized_def)
  have "converter_rgb8 F f width height row_stride src = Panic \<longleftrightarrow>
      (\<exists>r. find_rows RGB8Packed width 0 row_stride src = Ok r \<and> rw_count r \<le> 1 \<and> subslice 0 (rw_pixels r * 3) (rw_src r) = None)"
    using True total no_panic_rows [of RGB8Packed width 0 row_stride src]
    by (auto simp: converter_rgb8_def and_then_eq_Panic or_panic_def split: option.splits if_splits)
  also have "\<dots> \<longleftrightarrow> length src < unat width * 3 \<and> (\<exists>stride. row_stride = Some stride \<and> unat width * 3 \<le> stride)"
    unfolding no_lines_rows by (cases row_stride) (auto simp: subslice_def)
  finally show ?thesis using True by simp
next
  case False
  then show ?thesis using lent_sized [of height width F f row_stride src] rgb8_sized [of width height F f row_stride src]
    by (auto simp: converter_rgb8_def sized_def)
qed

lemma or_panic_found: "\<exists>v. x = Some v \<Longrightarrow> or_panic x (\<lambda>v. Ok (g v)) \<noteq> Panic"
  by auto

lemma full_depth_total: "full_depth F f width height row_stride src \<noteq> Panic"
proof
  assume panic: "full_depth F f width height row_stride src = Panic"
  have colour: "rgb8_into F f width height row_stride src \<noteq> Panic"
    using rgb8_sized [of width height F f row_stride src] by (auto simp: sized_def)
  obtain l r where l: "layout f = Some l" and r: "find_rows f width height row_stride src = Ok r"
    and p: "(case l of
         LMono s \<Rightarrow> if is_8_bit s then or_panic (gather8 r) (\<lambda>v. Ok (Gray8 v)) else or_panic (unpack_rows s r) (\<lambda>v. Ok (Gray16 v (sg_bits s)))
       | LBayer s offsets \<Rightarrow>
           if is_8_bit s then and_then (rgb8_into F f width height row_stride src) (\<lambda>out. Ok (Rgb8 out))
           else or_panic (Option.bind (unpack_rows s r)
               (\<lambda>samples. demosaic_bilinear samples (unat width) (unat height) offsets)) (\<lambda>v. Ok (Rgb16 v (sg_bits s)))
       | _ \<Rightarrow> and_then (rgb8_into F f width height row_stride src) (\<lambda>out. Ok (Rgb8 out))) = Panic"
    using panic no_panic_rows [of f width height row_stride src] by (auto simp: full_depth_def and_then_eq_Panic Let_def)
  show False
  proof (cases l)
    case (LMono s)
    then have known: "known_single s" and hold: "rows_hold (LMono s) (unat width * unat height) r"
      using single_found [OF r, of s] l by auto
    show False using p LMono gather8_length [OF known_8_bit [OF known] _ hold] unpack_rows_length [OF known hold]
      by (auto split: if_splits)
  next
    case (LBayer s offsets)
    then have known: "known_single s" and hold: "rows_hold (LMono s) (unat width * unat height) r"
      using single_found [OF r, of s offsets] l by auto
    show False using p LBayer colour unpack_rows_length [OF known hold] demosaic_length [of _ "unat width" "unat height" offsets]
      by (fastforce simp: and_then_eq_Panic split: if_splits)
  qed (use p colour in \<open>auto simp: and_then_eq_Panic\<close>)
qed

text \<open>A result of full depth holds one sample for each of \<open>n\<close> pixels, or three in colour.\<close>

fun holds_pixels :: "nat \<Rightarrow> pixels \<Rightarrow> bool" where
  "holds_pixels n (Gray8 v) \<longleftrightarrow> length v = n"
| "holds_pixels n (Gray16 v depth) \<longleftrightarrow> length v = n"
| "holds_pixels n (Rgb8 v) \<longleftrightarrow> length v = n * 3"
| "holds_pixels n (Rgb16 v depth) \<longleftrightarrow> length v = n * 3"

lemma full_depth_sized:
  assumes ok: "full_depth F f width height row_stride src = Ok p"
  shows "holds_pixels (unat width * unat height) p"
proof -
  obtain l r where l: "layout f = Some l" and r: "find_rows f width height row_stride src = Ok r"
    and p: "(case l of
         LMono s \<Rightarrow> if is_8_bit s then or_panic (gather8 r) (\<lambda>v. Ok (Gray8 v)) else or_panic (unpack_rows s r) (\<lambda>v. Ok (Gray16 v (sg_bits s)))
       | LBayer s offsets \<Rightarrow>
           if is_8_bit s then and_then (rgb8_into F f width height row_stride src) (\<lambda>out. Ok (Rgb8 out))
           else or_panic (Option.bind (unpack_rows s r)
               (\<lambda>samples. demosaic_bilinear samples (unat width) (unat height) offsets)) (\<lambda>v. Ok (Rgb16 v (sg_bits s)))
       | _ \<Rightarrow> and_then (rgb8_into F f width height row_stride src) (\<lambda>out. Ok (Rgb8 out))) = Ok p"
    using ok by (auto simp: full_depth_def and_then_eq_Ok Let_def)
  have colour: "length out = unat width * unat height * 3" if "rgb8_into F f width height row_stride src = Ok out" for out
    using rgb8_sized [of width height F f row_stride src] that by (simp add: sized_def)
  show ?thesis
  proof (cases l)
    case (LMono s)
    then have known: "known_single s" and hold: "rows_hold (LMono s) (unat width * unat height) r"
      using single_found [OF r, of s] l by auto
    show ?thesis using p LMono gather8_length [OF known_8_bit [OF known] _ hold] unpack_rows_length [OF known hold]
      by (auto split: if_splits)
  next
    case (LBayer s offsets)
    then have known: "known_single s" and hold: "rows_hold (LMono s) (unat width * unat height) r"
      using single_found [OF r, of s offsets] l by auto
    show ?thesis using p LBayer colour unpack_rows_length [OF known hold] demosaic_length [of _ "unat width" "unat height" offsets]
      by (fastforce simp: and_then_eq_Ok split: if_splits)
  qed (use p colour in \<open>auto simp: and_then_eq_Ok\<close>)
qed

text \<open>
  C40. No payload makes a conversion panic, whatever the format, the geometry, the stride and the bytes:
  each one returns an error or samples for exactly the pixels of the image, three a pixel in colour. The
  one exception is the frame a converter lends back as it is: an RGB image of no lines with a row stride
  panics exactly when the payload is shorter than one line.
\<close>

theorem conversions_never_panic:
  "sized (unat width * unat height) (unpack_u16 f width height row_stride src) \<and>
   sized (unat width * unat height) (converter_gray8 f width height row_stride src) \<and>
   sized (unat width * unat height * 3) (to_rgb8 F f width height row_stride src) \<and>
   (case full_depth F f width height row_stride src of
      Ok (Gray8 v) \<Rightarrow> length v = unat width * unat height
    | Ok (Gray16 v depth) \<Rightarrow> length v = unat width * unat height
    | Ok (Rgb8 v) \<Rightarrow> length v = unat width * unat height * 3
    | Ok (Rgb16 v depth) \<Rightarrow> length v = unat width * unat height * 3
    | Err e \<Rightarrow> True
    | Panic \<Rightarrow> False) \<and>
   (height = 0 \<or> sized (unat width * unat height * 3) (converter_rgb8 F f width height row_stride src)) \<and>
   (converter_rgb8 F f width height row_stride src = Panic \<longleftrightarrow>
      f = RGB8Packed \<and> height = 0 \<and> length src < unat width * 3 \<and>
      (\<exists>stride. row_stride = Some stride \<and> unat width * 3 \<le> stride))"
proof -
  have "case full_depth F f width height row_stride src of
      Ok (Gray8 v) \<Rightarrow> length v = unat width * unat height
    | Ok (Gray16 v depth) \<Rightarrow> length v = unat width * unat height
    | Ok (Rgb8 v) \<Rightarrow> length v = unat width * unat height * 3
    | Ok (Rgb16 v depth) \<Rightarrow> length v = unat width * unat height * 3
    | Err e \<Rightarrow> True
    | Panic \<Rightarrow> False"
    using full_depth_sized [of F f width height row_stride src] full_depth_total [of F f width height row_stride src]
    by (auto split: result.split pixels.split)
  then show ?thesis
    using lent_sized [of height width F f row_stride src]
    by (simp add: to_rgb8_def unpack_sized gray_sized rgb8_sized lent_panics del: mult_eq_0_iff) blast
qed

end
