(* ===== verification/Pixel_Samples.thy ===== *)
theory Pixel_Samples
  imports Pixel_Props
begin

text \<open>
  The samples an unpacking returns, against where the formats put them: little-endian bytes, consecutive
  bits of the payload read as one little-endian number, or the GigE Vision layout of two pixels in three
  bytes.
\<close>

section \<open>Where the samples are\<close>

primrec le_value :: "bytes \<Rightarrow> nat" where
  "le_value [] = 0"
| "le_value (b # bs) = unat b + 256 * le_value bs"

definition sample_at :: "single \<Rightarrow> bytes \<Rightarrow> nat \<Rightarrow> nat" where
  "sample_at s src i =
     (case sg_packing s of
        Unpacked \<Rightarrow> if is_8_bit s then unat (src ! i) else unat (src ! (2 * i)) + 256 * unat (src ! (2 * i + 1))
      | Lsb \<Rightarrow> le_value src div 2 ^ (sg_bits s * i) mod 2 ^ sg_bits s
      | Gige \<Rightarrow>
          (let g = 3 * (i div 2); k = sg_bits s - 8 in
           if even i then unat (src ! g) * 2 ^ k + unat (src ! (g + 1)) mod 2 ^ k
           else unat (src ! (g + 2)) * 2 ^ k + unat (src ! (g + 1)) div 16 mod 2 ^ k))"

section \<open>Joining bits\<close>

lemma widened [simp]: "unat (ucast (b :: byte) :: u16) = unat b" "unat (ucast (b :: byte) :: u32) = unat b"
proof -
  have "unat b < 2 ^ 8" using unsigned_less [of b, where ?'a = nat] by simp
  then have "unat b < 2 ^ 16" "unat b < 2 ^ 32" by (rule less_le_trans, simp)+
  then show "unat (ucast b :: u16) = unat b" "unat (ucast b :: u32) = unat b"
    by (simp_all add: unsigned_ucast_eq take_bit_nat_eq_self del: power_numeral)
qed

lemma or_disjoint:
  fixes a b :: "'a::len word"
  assumes "unat a < 2 ^ k" "unat b * 2 ^ k < 2 ^ LENGTH('a)"
  shows "unat (a OR push_bit k b) = unat a + unat b * 2 ^ k"
proof -
  have p: "unat (push_bit k b) = unat b * 2 ^ k"
    using assms(2) by (subst unsigned_push_bit_eq) (simp add: push_bit_eq_mult take_bit_nat_eq_self)
  have high: "\<not> bit (unat a) n" if "k \<le> n" for n
    using assms(1) that by (metis bit_take_bit_iff not_less take_bit_nat_eq_self)
  have "\<not> bit (unat a) n \<or> \<not> bit (push_bit k (unat b)) n" for n
    using high [of n] by (cases "n < k") (auto simp: bit_push_bit_iff)
  then have "unat a OR push_bit k (unat b) = unat a + push_bit k (unat b)" by (rule disjunctive_add [symmetric])
  then show ?thesis using p by (simp add: unsigned_or_eq push_bit_eq_mult)
qed

lemma low_bits_mask:
  fixes w :: "'a::len word" assumes "k < LENGTH('a)"
  shows "unat (w AND (push_bit k 1 - 1)) = unat w mod 2 ^ k"
proof -
  have "push_bit k 1 - 1 = (mask k :: 'a word)" by (simp add: mask_eq_exp_minus_1 push_bit_eq_mult)
  then have "unat (w AND (push_bit k 1 - 1)) = unat (take_bit k w)" by (simp only: take_bit_eq_mask)
  also have "\<dots> = take_bit k (unat w)" by (rule unsigned_take_bit_eq)
  finally show ?thesis by (simp add: take_bit_eq_mod)
qed

section \<open>The bit stream\<close>

lemma fill_bits_spec:
  assumes "fill_bits bits acc held bs = (acc', held', bs')" "unat acc < 2 ^ held" "held \<le> bits + 7" "bits \<le> 16"
  shows "bits \<le> held' \<and> held' \<le> bits + 7 \<and> unat acc' < 2 ^ held' \<and>
    unat acc' + 2 ^ held' * le_value bs' = unat acc + 2 ^ held * le_value bs"
  using assms
proof (induction bits acc held bs rule: fill_bits.induct)
  case (1 bits acc held bs)
  show ?case
  proof (cases "held < bits")
    case False then show ?thesis using "1.prems" by (simp add: fill_bits.simps)
  next
    case True
    define b where "b = (case bs of [] \<Rightarrow> 0 | b # _ \<Rightarrow> b)"
    have val: "le_value bs = unat b + 256 * le_value (drop 1 bs)" by (cases bs) (simp_all add: b_def)
    have small: "unat b < 2 ^ 8" using unsigned_less [of b, where ?'a = nat] by simp
    have "(2 :: nat) ^ (8 + held) \<le> 2 ^ 31" using True "1.prems"(4) by (intro power_increasing) auto
    then have "2 ^ 8 * 2 ^ held \<le> (2 :: nat) ^ 31" by (simp only: power_add)
    then have "unat b * 2 ^ held < 2 ^ 31"
      using small by (intro less_le_trans [of _ "2 ^ 8 * 2 ^ held" "2 ^ 31"]) (simp_all del: power_numeral)
    then have fits: "unat (ucast b :: u32) * 2 ^ held < 2 ^ LENGTH(32)" by simp
    have joined: "unat (acc OR push_bit held (ucast b)) = unat acc + unat b * 2 ^ held"
      using or_disjoint [OF "1.prems"(2) fits] by simp
    have "unat acc + unat b * 2 ^ held < 2 ^ held + 255 * 2 ^ held"
    proof (rule add_less_le_mono [OF "1.prems"(2)])
      have "(2 :: nat) ^ 8 = Suc 255" by simp
      then have "unat b < Suc 255" using small by (simp only:)
      then have "unat b \<le> 255" by (rule less_Suc_eq_le [THEN iffD1])
      then show "unat b * 2 ^ held \<le> 255 * 2 ^ held" by (rule mult_le_mono1)
    qed
    then have bound: "unat (acc OR push_bit held (ucast b)) < 2 ^ (held + 8)" unfolding joined by (simp add: power_add)
    have step: "fill_bits bits (acc OR push_bit held (ucast b)) (held + 8) (drop 1 bs) = (acc', held', bs')"
      using "1.prems"(1) True by (simp add: fill_bits.simps [of bits acc held bs] b_def)
    have "bits \<le> held' \<and> held' \<le> bits + 7 \<and> unat acc' < 2 ^ held' \<and>
        unat acc' + 2 ^ held' * le_value bs' = unat (acc OR push_bit held (ucast b)) + 2 ^ (held + 8) * le_value (drop 1 bs)"
      using "1.IH" [OF True step [unfolded b_def] bound [unfolded b_def]] True "1.prems"(4) by (simp add: b_def)
    then show ?thesis unfolding joined val by (simp add: power_add algebra_simps)
  qed
qed

lemma unpack_lsb_nth:
  assumes "unat acc < 2 ^ held" "held \<le> 7" "bits \<le> 16" "i < n"
  shows "unat (unpack_lsb bits n acc held bs ! i) = (unat acc + 2 ^ held * le_value bs) div 2 ^ (bits * i) mod 2 ^ bits"
  using assms
proof (induction n arbitrary: acc held bs i)
  case (Suc n)
  obtain a h cs where f: "fill_bits bits acc held bs = (a, h, cs)" by (cases "fill_bits bits acc held bs")
  have spec: "bits \<le> h" "h \<le> bits + 7" "unat a < 2 ^ h" and
    val: "unat a + 2 ^ h * le_value cs = unat acc + 2 ^ held * le_value bs"
    using fill_bits_spec [OF f Suc.prems(1)] Suc.prems(2,3) by auto
  have h: "(2 :: nat) ^ h = 2 ^ bits * 2 ^ (h - bits)" using spec(1) by (simp flip: power_add)
  show ?case
  proof (cases i)
    case 0
    have "unat (ucast (a AND (push_bit bits 1 - 1)) :: u16) = unat a mod 2 ^ bits"
    proof -
      have "(2 :: nat) ^ bits \<le> 2 ^ 16" using Suc.prems(3) by (intro power_increasing) auto
      moreover have "unat a mod 2 ^ bits < 2 ^ bits" by simp
      ultimately have "unat a mod 2 ^ bits < 2 ^ 16" by linarith
      then show ?thesis
        using low_bits_mask [of bits a] Suc.prems(3) by (simp add: unsigned_ucast_eq take_bit_nat_eq_self)
    qed
    also have "\<dots> = (unat a + 2 ^ h * le_value cs) mod 2 ^ bits" unfolding h by (simp add: mult.assoc)
    finally show ?thesis using 0 val by (simp add: f Let_def)
  next
    case (Suc j)
    have drop: "unat (drop_bit bits a) = unat a div 2 ^ bits" by (subst unat_drop_bit_eq) (rule drop_bit_eq_div)
    have bound: "unat (drop_bit bits a) < 2 ^ (h - bits)"
      using spec(3) unfolding drop h by (simp add: less_mult_imp_div_less mult.commute)
    have "unat (unpack_lsb bits n (drop_bit bits a) (h - bits) cs ! j) =
        (unat (drop_bit bits a) + 2 ^ (h - bits) * le_value cs) div 2 ^ (bits * j) mod 2 ^ bits"
      using Suc.prems(3,4) Suc spec(2) by (intro Suc.IH bound) auto
    also have "unat (drop_bit bits a) + 2 ^ (h - bits) * le_value cs = (unat a + 2 ^ h * le_value cs) div 2 ^ bits"
      unfolding drop h by (simp add: mult.assoc)
    finally show ?thesis using Suc val by (simp add: f Let_def power_add flip: div_mult2_eq)
  qed
qed simp

section \<open>Bytes and groups\<close>

lemma byte_pairs_nth:
  "2 * i + 1 < length bs \<Longrightarrow> unat (byte_pairs bs ! i) = unat (bs ! (2 * i)) + 256 * unat (bs ! (2 * i + 1))"
proof (induction bs arbitrary: i rule: byte_pairs.induct)
  case (1 a b bs)
  have "unat (ucast a OR push_bit 8 (ucast b :: u16)) = unat (ucast a :: u16) + unat (ucast b :: u16) * 2 ^ 8"
    using unsigned_less [of a, where ?'a = nat] unsigned_less [of b, where ?'a = nat]
    by (intro or_disjoint) simp_all
  then have first: "unat (ucast a OR push_bit 8 (ucast b :: u16)) = unat a + 256 * unat b"
    by simp
  then show ?case using 1 by (cases i) simp_all
qed simp_all

lemma joined_sample:
  assumes "k < 8" shows "unat (push_bit k (ucast (m :: byte)) OR (w AND (push_bit k 1 - 1)) :: u16) = unat m * 2 ^ k + unat w mod 2 ^ k"
proof -
  have "unat m < 2 ^ 8" using unsigned_less [of m, where ?'a = nat] by simp
  moreover have "(2 :: nat) ^ k < 2 ^ 8" using assms by (intro power_strict_increasing) auto
  ultimately have "unat m * 2 ^ k < 2 ^ 8 * 2 ^ 8" by (intro mult_strict_mono) auto
  moreover have low: "unat (w AND (push_bit k 1 - 1)) = unat w mod 2 ^ k" using assms by (intro low_bits_mask) simp
  ultimately have "unat ((w AND (push_bit k 1 - 1)) OR push_bit k (ucast m)) = unat w mod 2 ^ k + unat m * 2 ^ k"
    using or_disjoint [of "w AND (push_bit k 1 - 1)" k "ucast m :: u16"] by simp
  then show ?thesis by (simp add: or.commute)
qed

definition group_sample :: "nat \<Rightarrow> bytes \<Rightarrow> nat \<Rightarrow> nat" where
  "group_sample k src i =
     (let g = 3 * (i div 2) in
      if even i then unat (src ! g) * 2 ^ k + unat (src ! (g + 1)) mod 2 ^ k
      else unat (src ! (g + 2)) * 2 ^ k + unat (src ! (g + 1)) div 16 mod 2 ^ k)"

lemma unpack_gige_nth:
  "k < 8 \<Longrightarrow> i < length (unpack_gige k bs) \<Longrightarrow> unat (unpack_gige k bs ! i) = group_sample k bs i"
proof (induction k bs arbitrary: i rule: unpack_gige.induct)
  case (1 k m0 l m1 bs)
  have high: "unat (drop_bit 4 (ucast l :: u16)) = unat l div 16" by (subst unat_drop_bit_eq) (simp add: drop_bit_eq_div)
  consider "i = 0" | "i = 1" | j where "i = Suc (Suc j)" by (cases i) (auto, metis One_nat_def not0_implies_Suc)
  then show ?case
  proof cases
    case 1 then show ?thesis using joined_sample [OF "1.prems"(1)] by (simp add: Let_def group_sample_def)
  next
    case 2 then show ?thesis using joined_sample [OF "1.prems"(1)] high by (simp add: Let_def group_sample_def)
  next
    case 3
    have "3 * (Suc (Suc j) div 2) = Suc (Suc (Suc (3 * (j div 2))))" by simp
    then show ?thesis using "1.IH" [OF refl "1.prems"(1), of j] "1.prems"(2) 3
      by (simp add: Let_def group_sample_def)
  qed
next
  case (2 k m0 l)
  then show ?case using joined_sample [OF "2.prems"(1)] by (simp add: Let_def group_sample_def)
qed simp_all

section \<open>Samples of a row\<close>

lemma unpack_row_nth:
  assumes "known_single s" "row_needs (LMono s) pixels (length row)" "unpack_row s pixels row = Some xs" "i < pixels"
  shows "unat (xs ! i) = sample_at s row i"
proof (cases "sg_packing s")
  case Unpacked
  show ?thesis
  proof (cases "is_8_bit s")
    case True
    then show ?thesis using assms Unpacked
      by (auto simp: unpack_row_def sample_at_def subslice_def split: if_splits)
  next
    case False
    then have "2 * pixels \<le> length row" using assms(2) Unpacked by (simp add: row_needs_def is_8_bit_def)
    then have "2 * i + 1 < length row" using assms(4) by linarith
    then show ?thesis using assms(3,4) Unpacked False byte_pairs_nth [of i row]
      by (auto simp: unpack_row_def sample_at_def subslice_def split: if_splits)
  qed
next
  case Lsb
  then have "sg_bits s \<le> 16" using assms(1) by (auto simp: known_single_def)
  then show ?thesis using assms(3,4) Lsb unpack_lsb_nth [of 0 0 "sg_bits s" i pixels row]
    by (simp add: unpack_row_def sample_at_def)
next
  case Gige
  then have k: "sg_bits s - 8 < 8" using assms(1) by (auto simp: known_single_def)
  obtain ys where "unpack_row s pixels row = Some ys" "length ys = pixels"
    using unpack_row_length [OF assms(1,2)] by blast
  then have "i < length (unpack_gige (sg_bits s - 8) row)" "xs = take pixels (unpack_gige (sg_bits s - 8) row)"
    using assms(3,4) Gige by (auto simp: unpack_row_def min_def split: if_splits)
  then show ?thesis using unpack_gige_nth [OF k] assms(4) Gige
    by (simp add: sample_at_def group_sample_def Let_def)
qed

text \<open>A sample depends only on the bytes its row needs.\<close>

lemma le_value_take: "le_value src = le_value (take n src) + 2 ^ (8 * n) * le_value (drop n src)"
proof (induction src arbitrary: n)
  case (Cons b src)
  show ?case
  proof (cases n)
    case (Suc m) then show ?thesis using Cons [of m] by (simp add: power_add algebra_simps)
  qed simp
qed simp

lemma sample_take:
  assumes "known_single s" "row_needs (LMono s) pixels n" "i < pixels"
  shows "sample_at s (take n src) i = sample_at s src i"
proof (cases "sg_packing s")
  case Unpacked
  then show ?thesis using assms(2,3) by (auto simp: row_needs_def sample_at_def is_8_bit_def split: if_splits)
next
  case Lsb
  let ?b = "sg_bits s"
  have "(i + 1) * ?b \<le> pixels * ?b" using assms(3) by (intro mult_le_mono1) simp
  then have "?b * i + ?b \<le> 8 * n" using assms(2) Lsb by (simp add: row_needs_def algebra_simps)
  then obtain r where r: "8 * n = ?b * i + (?b + r)" by (metis add.assoc le_Suc_ex)
  have "le_value src div 2 ^ (?b * i) = le_value (take n src) div 2 ^ (?b * i) + 2 ^ (?b + r) * le_value (drop n src)"
    unfolding le_value_take [of src n] r by (simp add: power_add mult.assoc)
  then show ?thesis by (simp add: sample_at_def Lsb power_add mult.assoc)
next
  case Gige
  have need: "3 * (pixels div 2) + (if odd pixels then 2 else 0) \<le> n" using assms(2) Gige by (simp add: row_needs_def)
  have "3 * (i div 2) + (if even i then 1 else 2) < n"
  proof (cases "even i")
    case True
    then obtain j where j: "i = 2 * j" by (auto elim: evenE)
    show ?thesis
    proof (cases "odd pixels")
      case True
      then obtain p where "pixels = 2 * p + 1" by (rule oddE)
      then show ?thesis using need j assms(3) True by simp
    next
      case False
      then obtain p where "pixels = 2 * p" by (auto elim: evenE)
      then show ?thesis using need j assms(3) by simp
    qed
  next
    case False
    then obtain j where j: "i = 2 * j + 1" by (rule oddE)
    then have "j + 1 \<le> pixels div 2" using assms(3) by linarith
    then show ?thesis using need j by (auto split: if_splits)
  qed
  then show ?thesis by (auto simp: sample_at_def Gige Let_def)
qed

section \<open>Samples of an image\<close>

lemma concat_nth:
  assumes "\<And>xs. xs \<in> set xss \<Longrightarrow> length xs = w" "y < length xss" "x < w"
  shows "concat xss ! (y * w + x) = xss ! y ! x"
  using assms
proof (induction xss arbitrary: y)
  case (Cons xs xss)
  then show ?case by (cases y) (simp_all add: nth_append)
qed simp

lemma take_length_take: "take (length (take m xs)) xs = take m xs"
  by (simp add: min_def)

lemma those_nth: "those xs = Some ys \<Longrightarrow> length ys = length xs \<and> (\<forall>i<length xs. xs ! i = Some (ys ! i))"
proof (induction xs arbitrary: ys)
  case (Cons x xs)
  then show ?case by (auto simp: nth_Cons split: option.splits nat.split)
qed simp

lemma found_rows:
  assumes "find_rows f width height row_stride src = Ok r" "row_list r = Some rs" "y < rw_count r"
  shows "\<exists>m. rs ! y = take m (drop (y * (case row_stride of None \<Rightarrow> 0 | Some stride \<Rightarrow> stride)) src)"
proof -
  have "y < length rs \<and> row_at r y = Some (rs ! y)"
    using those_nth [of "map (row_at r) [0..<rw_count r]" rs] assms(2,3) by (simp add: row_list_def)
  then show ?thesis
    using assms(1,3)
    by (cases row_stride) (auto simp: find_rows_def geometry_def and_then_eq_Ok row_at_def subslice_def split: if_splits, metis+)
qed

lemma found_shape:
  assumes "find_rows f width height row_stride src = Ok r"
  shows "case row_stride of None \<Rightarrow> rw_pixels r = unat width * unat height \<and> rw_count r = 1
    | Some _ \<Rightarrow> rw_pixels r = unat width \<and> rw_count r = unat height"
  using assms
  by (cases row_stride) (auto simp: find_rows_def geometry_def and_then_eq_Ok dest: checked_mul_Some split: if_splits)

lemma unpacked_samples:
  assumes "find_rows f width height row_stride src = Ok r" "known_single s" "rows_hold (LMono s) n r"
    and "unpack_rows s r = Some out" "y < rw_count r" "x < rw_pixels r"
  shows "unat (out ! (y * rw_pixels r + x)) =
    sample_at s (drop (y * (case row_stride of None \<Rightarrow> 0 | Some stride \<Rightarrow> stride)) src) x"
proof -
  obtain rs where rs: "row_list r = Some rs" "length rs = rw_count r"
    and fit: "\<And>row. row \<in> set rs \<Longrightarrow> row_needs (LMono s) (rw_pixels r) (length row)"
    using assms(3) by (rule hold_rows) blast
  obtain outs where outs: "those (map (unpack_row s (rw_pixels r)) rs) = Some outs" "out = concat outs"
    using assms(4) rs(1) by (auto simp: unpack_rows_def bind_eq_Some_conv)
  have each: "length outs = length rs" "\<And>i. i < length rs \<Longrightarrow> unpack_row s (rw_pixels r) (rs ! i) = Some (outs ! i)"
    using those_nth [OF outs(1)] by simp_all
  have "length xs = rw_pixels r" if member: "xs \<in> set outs" for xs
  proof -
    obtain i where i: "i < length rs" "outs ! i = xs" using member unfolding in_set_conv_nth each(1) by blast
    obtain ys where "unpack_row s (rw_pixels r) (rs ! i) = Some ys" "length ys = rw_pixels r"
      using unpack_row_length [OF assms(2) fit [OF nth_mem [OF i(1)]]] by blast
    then show ?thesis using each(2) [OF i(1)] i(2) by simp
  qed
  from concat_nth [OF this _ assms(6), where y = y] have "out ! (y * rw_pixels r + x) = outs ! y ! x"
    using outs(2) each(1) rs(2) assms(5) by simp
  moreover have y: "y < length rs" using rs(2) assms(5) by simp
  have "unat (outs ! y ! x) = sample_at s (rs ! y) x"
    by (rule unpack_row_nth [OF assms(2) fit [OF nth_mem [OF y]] each(2) [OF y] assms(6)])
  moreover obtain m where m: "rs ! y = take m (drop (y * (case row_stride of None \<Rightarrow> 0 | Some stride \<Rightarrow> stride)) src)"
    using found_rows [OF assms(1) rs(1) assms(5)] by blast
  moreover have "sample_at s (take (length (rs ! y)) (drop (y * (case row_stride of None \<Rightarrow> 0 | Some stride \<Rightarrow> stride)) src)) x =
      sample_at s (drop (y * (case row_stride of None \<Rightarrow> 0 | Some stride \<Rightarrow> stride)) src) x"
    by (rule sample_take [OF assms(2) fit [OF nth_mem [OF y]] assms(6)])
  moreover have "take (length (rs ! y)) (drop (y * (case row_stride of None \<Rightarrow> 0 | Some stride \<Rightarrow> stride)) src) = rs ! y"
    unfolding m by (rule take_length_take)
  ultimately show ?thesis by (simp only:)
qed

text \<open>
  C39. Unpacking returns, for the pixel in column \<open>x\<close> of line \<open>y\<close>, the sample the format puts there: the bits
  of the payload at the pixel's place in the image, counted from the start of its line when the camera
  pads its lines and in one run otherwise.
\<close>

theorem samples_exact:
  assumes "unpack_u16 f width height row_stride src = Ok out"
    and "layout f = Some (LMono s) \<or> layout f = Some (LBayer s offsets)"
    and "x < unat width" "y < unat height"
  shows "unat (out ! (y * unat width + x)) =
    (case row_stride of None \<Rightarrow> sample_at s src (y * unat width + x) | Some stride \<Rightarrow> sample_at s (drop (y * stride) src) x)"
proof -
  have whole: "unpack_u16 f width height row_stride src =
      and_then (find_rows f width height row_stride src) (\<lambda>rows. or_panic (unpack_rows s rows) Ok)"
    using assms(2) by (auto simp: unpack_u16_def Let_def)
  obtain r where r: "find_rows f width height row_stride src = Ok r" "unpack_rows s r = Some out"
    using assms(1) unfolding whole by (auto simp: and_then_eq_Ok or_panic_def split: option.splits)
  note single = single_found [OF r(1) assms(2)]
  show ?thesis
  proof (cases row_stride)
    case None
    have "Suc y * unat width \<le> unat height * unat width" using assms(4) by (intro mult_le_mono1) simp
    then have "y * unat width + x < unat width * unat height" using assms(3) by (simp add: mult.commute)
    then show ?thesis
      using unpacked_samples [OF r(1) conjunct1 [OF single] conjunct2 [OF single] r(2), of 0 "y * unat width + x"] found_shape [OF r(1)] None
      by simp
  next
    case (Some stride)
    then show ?thesis
      using unpacked_samples [OF r(1) conjunct1 [OF single] conjunct2 [OF single] r(2), of y x] found_shape [OF r(1)] assms(3,4)
      by simp
  qed
qed

lemma samples_exact_witness:
  "unpack_u16 Mono12Packed 2 1 None [0xAB, 0x3C, 0x12] = Ok [0xABC, 0x123] \<and> unat ([0xABC, 0x123 :: u16] ! (0 * unat (2 :: u32) + 1)) = 0x123"
proof
  let ?s = "\<lparr>sg_bits = 12, sg_packing = Gige\<rparr>"
  have l: "layout Mono12Packed = Some (LMono ?s)" by (simp add: layout_def mono_or_bayer_def cfa_pattern_def)
  have g: "geometry Mono12Packed 2 1 [0xAB, 0x3C, 0x12] = Ok (2, [0xAB, 0x3C, 0x12])"
    by (simp add: geometry_def checked_mul_def checked_add_def image_bytes_def bytes_for_def group_def bits_per_pixel_def
      depth_bits_def format_codes trailing_zeros_values div_ceil_def needed_bytes_def l Let_def)
  show u: "unpack_u16 Mono12Packed 2 1 None [0xAB, 0x3C, 0x12] = Ok [0xABC, 0x123]"
    by (simp add: unpack_u16_def find_rows_def g l Let_def unpack_rows_def row_list_def row_at_def subslice_def unpack_row_def)
  show "unat ([0xABC, 0x123 :: u16] ! (0 * unat (2 :: u32) + 1)) = 0x123"
    using samples_exact [OF u, of ?s "(0, 0)" 1 0] l by (simp add: sample_at_def)
qed

end
