(* ===== verification/Zenoh_Frame.thy ===== *)
theory Zenoh_Frame
  imports Pixel_Format U3v_Wire
begin

text \<open>
  The envelopes of images and event-vision blocks on the network (\<^verbatim>\<open>crates/viva-zenoh-api/src\<close>
  \<^verbatim>\<open>frame_header.rs\<close>, \<^verbatim>\<open>frame_metadata.rs\<close>, \<^verbatim>\<open>evs_header.rs\<close>): a fixed little-endian prefix, a
  bounded metadata object for images, then the bytes of the frame.

  The JSON writer and reader are a library's: a parameter, the record \<open>json_codec\<close>. A character of a text
  is one of \<open>char\<close>, which holds the ASCII range.
\<close>

section \<open>Metadata\<close>

definition MAX_FRAME_METADATA_BYTES :: nat where "MAX_FRAME_METADATA_BYTES = 64 * 1024"
definition MAX_FRAME_METADATA_ITEMS :: nat where "MAX_FRAME_METADATA_ITEMS = 128"
definition MAX_FRAME_METADATA_TEXT :: nat where "MAX_FRAME_METADATA_TEXT = 1024"

record frame_chunk =
  fc_id :: string
  fc_bytes :: u64

record frame_feature =
  ff_name :: string
  ff_value :: "string option"
  ff_error :: "string option"

record frame_metadata =
  fm_block_id :: string
  fm_ts_dev :: "string option"
  fm_ts_host_ns :: "string option"
  fm_complete :: bool
  fm_chunks :: "frame_chunk list"
  fm_features :: "frame_feature list"
  fm_chunk_error :: "string option"
  fm_truncated :: bool

record json_codec =
  js_write :: "frame_metadata \<Rightarrow> (bytes, string) result"
  js_read :: "bytes \<Rightarrow> (frame_metadata, string) result"

text \<open>A text cut to the limit, and whether it had to be.\<close>

definition clipped :: "string \<Rightarrow> string" where
  "clipped s = take MAX_FRAME_METADATA_TEXT s"

definition too_long :: "string \<Rightarrow> bool" where
  "too_long s \<longleftrightarrow> MAX_FRAME_METADATA_TEXT < length s"

definition any_long :: "string option \<Rightarrow> bool" where
  "any_long x = (case x of Some s \<Rightarrow> too_long s | None \<Rightarrow> False)"

definition clip_feature :: "frame_feature \<Rightarrow> frame_feature" where
  "clip_feature f =
     \<lparr>ff_name = clipped (ff_name f), ff_value = map_option clipped (ff_value f), ff_error = map_option clipped (ff_error f)\<rparr>"

definition feature_too_long :: "frame_feature \<Rightarrow> bool" where
  "feature_too_long f \<longleftrightarrow> too_long (ff_name f) \<or> any_long (ff_value f) \<or> any_long (ff_error f)"

definition bound_metadata :: "frame_metadata \<Rightarrow> frame_metadata" where
  "bound_metadata m =
     (let features = take MAX_FRAME_METADATA_ITEMS (fm_features m) in
      m\<lparr>fm_chunks := take MAX_FRAME_METADATA_ITEMS (fm_chunks m), fm_features := map clip_feature features,
        fm_chunk_error := map_option clipped (fm_chunk_error m),
        fm_truncated := fm_truncated m \<or> MAX_FRAME_METADATA_ITEMS < length (fm_chunks m) \<or>
          MAX_FRAME_METADATA_ITEMS < length (fm_features m) \<or> (\<exists>f\<in>set features. feature_too_long f) \<or>
          any_long (fm_chunk_error m)\<rparr>)"

text \<open>One evaluated feature; the first one past the limit ends the list.\<close>

definition evaluated :: "string \<times> (string, string) result \<Rightarrow> frame_feature \<times> bool" where
  "evaluated x =
     (let (name, r) = x;
          v = (case r of Ok v \<Rightarrow> Some v | _ \<Rightarrow> None); e = (case r of Err e \<Rightarrow> Some e | _ \<Rightarrow> None) in
      (\<lparr>ff_name = clipped name, ff_value = map_option clipped v, ff_error = map_option clipped e\<rparr>,
       too_long name \<or> any_long v \<or> any_long e))"

definition with_features :: "(string \<times> (string, string) result) list \<Rightarrow> frame_metadata \<Rightarrow> frame_metadata" where
  "with_features features m =
     (let kept = map evaluated (take MAX_FRAME_METADATA_ITEMS features) in
      bound_metadata (m\<lparr>fm_features := fm_features m @ map fst kept,
        fm_truncated := fm_truncated m \<or> MAX_FRAME_METADATA_ITEMS < length features \<or> (\<exists>k\<in>set kept. snd k)\<rparr>))"

definition decimal_digit :: "char \<Rightarrow> bool" where
  "decimal_digit c \<longleftrightarrow> (let n = of_char c :: nat in 48 \<le> n \<and> n \<le> 57)"

definition decimal_value :: "string \<Rightarrow> nat" where
  "decimal_value s = foldl (\<lambda>n c. 10 * n + (of_char c - 48)) 0 s"

definition decimal_u64 :: "string \<Rightarrow> bool" where
  "decimal_u64 s \<longleftrightarrow> s \<noteq> [] \<and> list_all decimal_digit s \<and> decimal_value s < 2 ^ 64"

definition signed_ns :: "string \<Rightarrow> bool" where
  "signed_ns s \<longleftrightarrow>
     (let negative = (s \<noteq> [] \<and> hd s = CHR ''-''); digits = (if negative then tl s else s) in
      digits \<noteq> [] \<and> list_all decimal_digit digits \<and>
      (if negative then decimal_value digits \<le> 2 ^ 127 else decimal_value digits < 2 ^ 127))"

definition every :: "('a \<Rightarrow> bool) \<Rightarrow> 'a option \<Rightarrow> bool" where
  "every P x = (case x of Some v \<Rightarrow> P v | None \<Rightarrow> True)"

definition feature_ok :: "frame_feature \<Rightarrow> bool" where
  "feature_ok f \<longleftrightarrow>
     \<not> too_long (ff_name f) \<and> \<not> any_long (ff_value f) \<and> \<not> any_long (ff_error f) \<and>
     (ff_value f = None) \<noteq> (ff_error f = None)"

definition validate_metadata :: "frame_metadata \<Rightarrow> (unit, string) result" where
  "validate_metadata m =
     (if \<not> decimal_u64 (fm_block_id m) \<or> \<not> every decimal_u64 (fm_ts_dev m) \<or> \<not> every signed_ns (fm_ts_host_ns m)
      then Err ''invalid decimal frame identifier or timestamp''
      else if length (fm_chunks m) > MAX_FRAME_METADATA_ITEMS \<or> length (fm_features m) > MAX_FRAME_METADATA_ITEMS \<or>
        any_long (fm_chunk_error m) \<or>
        \<not> list_all (\<lambda>c. decimal_u64 (fc_id c) \<and> unat (fc_bytes c) \<le> 9007199254740991) (fm_chunks m) \<or>
        \<not> list_all feature_ok (fm_features m)
      then Err ''frame metadata exceeds item/text limits or has an invalid feature''
      else Ok ())"

text \<open>Halves the features, then the chunks, until the object fits.\<close>

function write_bounded :: "json_codec \<Rightarrow> frame_metadata \<Rightarrow> (bytes, string) result" where
  "write_bounded J m =
     and_then (js_write J m) (\<lambda>bs.
       if length bs \<le> MAX_FRAME_METADATA_BYTES then Ok bs
       else if fm_features m \<noteq> []
       then write_bounded J (m\<lparr>fm_truncated := True, fm_features := take (length (fm_features m) div 2) (fm_features m)\<rparr>)
       else if fm_chunks m \<noteq> []
       then write_bounded J (m\<lparr>fm_truncated := True, fm_chunks := take (length (fm_chunks m) div 2) (fm_chunks m)\<rparr>)
       else Err ''fixed frame metadata exceeds the packet limit'')"
  by pat_completeness auto
termination
  by (relation "measure (\<lambda>(J, m). length (fm_features m) + length (fm_chunks m))") (auto simp: neq_Nil_conv)

declare write_bounded.simps [simp del]

definition metadata_encode :: "json_codec \<Rightarrow> frame_metadata \<Rightarrow> (bytes, string) result" where
  "metadata_encode J m =
     (let v = bound_metadata m in and_then (validate_metadata v) (\<lambda>_. write_bounded J v))"

definition metadata_decode :: "json_codec \<Rightarrow> bytes \<Rightarrow> (frame_metadata, string) result" where
  "metadata_decode J bs =
     (if length bs > MAX_FRAME_METADATA_BYTES then Err ''frame metadata exceeds 64 KiB''
      else and_then (js_read J bs) (\<lambda>v. and_then (validate_metadata v) (\<lambda>_. Ok v)))"

section \<open>Images\<close>

definition FRAME_MAGIC :: u16 where "FRAME_MAGIC = 0x4746"
definition FRAME_HEADER_SIZE :: nat where "FRAME_HEADER_SIZE = 24"
definition SUPPORTED_VERSION :: u8 where "SUPPORTED_VERSION = 3"

datatype frame_header_error =
    TooShort nat
  | BadMagic u16
  | UnsupportedVersion u8
  | MetadataTooLarge nat
  | TruncatedMetadata
  | InvalidMetadata string

record frame_header =
  fh_pixel_format :: pixel_format
  fh_width :: u32
  fh_height :: u32
  fh_seq :: u32
  fh_row_stride :: "u32 option"
  fh_metadata :: "frame_metadata option"

definition WIRE_CODES :: "(u8 \<times> pixel_format) list" where
  "WIRE_CODES =
     [(1, Mono8), (2, Mono10), (3, Mono12), (4, Mono16), (5, BayerRG8),
      (6, BayerGR8), (7, BayerBG8), (8, BayerGB8), (9, BayerRG10), (10, BayerGR10),
      (11, BayerBG10), (12, BayerGB10), (13, BayerRG12), (14, BayerGR12), (15, BayerBG12),
      (16, BayerGB12), (17, BayerRG16), (18, BayerGR16), (19, BayerBG16), (20, BayerGB16),
      (21, RGB8Packed), (22, BGR8Packed), (23, RGBa8), (24, YCbCr422_8), (25, YCbCr8),
      (26, Coord3DC16), (27, Mono14), (28, Mono10p), (29, Mono12p), (30, Mono10Packed),
      (31, Mono12Packed), (32, BayerRG10p), (33, BayerGR10p), (34, BayerBG10p), (35, BayerGB10p),
      (36, BayerRG12p), (37, BayerGR12p), (38, BayerBG12p), (39, BayerGB12p), (40, BayerRG10Packed),
      (41, BayerGR10Packed), (42, BayerBG10Packed), (43, BayerGB10Packed), (44, BayerRG12Packed), (45, BayerGR12Packed),
      (46, BayerBG12Packed), (47, BayerGB12Packed), (48, BGRa8), (49, YUV422_8), (50, YUV422_8_UYVY),
      (51, YCbCr422_8_CbYCrY), (52, YUV411_8_UYYVYY), (53, YUV8_UYV), (54, YCbCr8_CbYCr)]"

definition pixel_format_to_u8 :: "pixel_format \<Rightarrow> u8" where
  "pixel_format_to_u8 f = (case find (\<lambda>r. snd r = f) WIRE_CODES of Some r \<Rightarrow> fst r | None \<Rightarrow> 0)"

definition u8_to_pixel_format :: "u8 \<Rightarrow> pixel_format" where
  "u8_to_pixel_format code = (case find (\<lambda>r. fst r = code) WIRE_CODES of Some r \<Rightarrow> snd r | None \<Rightarrow> UnknownFormat 0)"

definition with_frame_error :: "('e \<Rightarrow> 'g) \<Rightarrow> ('a, 'e) result \<Rightarrow> ('a, 'g) result" where
  "with_frame_error g r = (case r of Ok v \<Rightarrow> Ok v | Err e \<Rightarrow> Err (g e) | Panic \<Rightarrow> Panic)"

definition frame_prefix :: "frame_header \<Rightarrow> bytes \<Rightarrow> bytes" where
  "frame_prefix h metadata =
     put_le 2 (unat FRAME_MAGIC) @ [SUPPORTED_VERSION, pixel_format_to_u8 (fh_pixel_format h)] @ put_le 4 (unat (fh_width h)) @
     put_le 4 (unat (fh_height h)) @ put_le 4 (unat (fh_seq h)) @
     put_le 4 (unat (case fh_row_stride h of Some s \<Rightarrow> s | None \<Rightarrow> 0)) @ put_le 4 (length metadata)"

definition frame_encode :: "json_codec \<Rightarrow> frame_header \<Rightarrow> (bytes, frame_header_error) result" where
  "frame_encode J h =
     and_then (case fh_metadata h of None \<Rightarrow> Ok [] | Some m \<Rightarrow> with_frame_error InvalidMetadata (metadata_encode J m)) (\<lambda>metadata.
       Ok (frame_prefix h metadata @ metadata))"

definition frame_decode :: "json_codec \<Rightarrow> bytes \<Rightarrow> (frame_header \<times> bytes, frame_header_error) result" where
  "frame_decode J buf =
     (if length buf < FRAME_HEADER_SIZE then Err (TooShort (length buf))
      else
        or_panic (le_at 2 0 buf) (\<lambda>magic.
        if magic \<noteq> FRAME_MAGIC then Err (BadMagic magic)
        else
          or_panic (index 2 buf) (\<lambda>version.
          if version \<noteq> SUPPORTED_VERSION then Err (UnsupportedVersion version)
          else
            or_panic (le_at 4 20 buf) (\<lambda>declared :: u32.
            let n = unat declared in
            if n > MAX_FRAME_METADATA_BYTES then Err (MetadataTooLarge n)
            else if FRAME_HEADER_SIZE + n > length buf then Err TruncatedMetadata
            else
              and_then (if n = 0 then Ok None
                 else with_frame_error InvalidMetadata (and_then (metadata_decode J (take n (drop FRAME_HEADER_SIZE buf))) (\<lambda>m. Ok (Some m)))) (\<lambda>metadata.
              or_panic (le_at 4 16 buf) (\<lambda>stride.
              or_panic (index 3 buf) (\<lambda>code.
              or_panic (le_at 4 4 buf) (\<lambda>width.
              or_panic (le_at 4 8 buf) (\<lambda>height.
              or_panic (le_at 4 12 buf) (\<lambda>seq.
                Ok (\<lparr>fh_pixel_format = u8_to_pixel_format code, fh_width = width, fh_height = height, fh_seq = seq,
                     fh_row_stride = (if stride \<noteq> 0 then Some stride else None), fh_metadata = metadata\<rparr>,
                    drop (FRAME_HEADER_SIZE + n) buf)))))))))))"

section \<open>Event-vision blocks\<close>

definition EVS_MAGIC :: u16 where "EVS_MAGIC = 0x5645"
definition EVS_HEADER_SIZE :: nat where "EVS_HEADER_SIZE = 24"
definition EVS_SUPPORTED_VERSION :: u8 where "EVS_SUPPORTED_VERSION = 1"
definition FLAG_TIMESTAMP :: u8 where "FLAG_TIMESTAMP = 1"

datatype evs_wire_format = EvsUnknown | Evt30 | Evt21

definition evs_code :: "evs_wire_format \<Rightarrow> u8" where
  "evs_code f = (case f of EvsUnknown \<Rightarrow> 0 | Evt30 \<Rightarrow> 1 | Evt21 \<Rightarrow> 2)"

definition evs_from_code :: "u8 \<Rightarrow> evs_wire_format" where
  "evs_from_code code = (if code = 1 then Evt30 else if code = 2 then Evt21 else EvsUnknown)"

definition evs_name :: "evs_wire_format \<Rightarrow> string" where
  "evs_name f = (case f of EvsUnknown \<Rightarrow> ''Unknown'' | Evt30 \<Rightarrow> ''EVT3.0'' | Evt21 \<Rightarrow> ''EVT2.1'')"

datatype evs_header_error =
    EvsTooShort nat
  | EvsBadMagic u16
  | EvsUnsupportedVersion u8
  | EvsLengthMismatch u32 nat

record evs_header =
  eh_format :: evs_wire_format
  eh_seq :: u32
  eh_timestamp :: "u64 option"
  eh_payload_len :: u32

definition evs_encode :: "evs_header \<Rightarrow> bytes" where
  "evs_encode h =
     put_le 2 (unat EVS_MAGIC) @ [EVS_SUPPORTED_VERSION, evs_code (eh_format h)] @ put_le 4 (unat (eh_seq h)) @
     put_le 8 (unat (case eh_timestamp h of Some t \<Rightarrow> t | None \<Rightarrow> 0)) @ put_le 4 (unat (eh_payload_len h)) @
     [if eh_timestamp h \<noteq> None then FLAG_TIMESTAMP else 0] @ [0, 0, 0]"

definition evs_decode :: "bytes \<Rightarrow> (evs_header \<times> bytes, evs_header_error) result" where
  "evs_decode buf =
     (if length buf < EVS_HEADER_SIZE then Err (EvsTooShort (length buf))
      else
        or_panic (le_at 2 0 buf) (\<lambda>magic.
        if magic \<noteq> EVS_MAGIC then Err (EvsBadMagic magic)
        else
          or_panic (index 2 buf) (\<lambda>version.
          if version \<noteq> EVS_SUPPORTED_VERSION then Err (EvsUnsupportedVersion version)
          else
            or_panic (index 3 buf) (\<lambda>code.
            or_panic (le_at 4 4 buf) (\<lambda>seq.
            or_panic (le_at 8 8 buf) (\<lambda>ts.
            or_panic (le_at 4 16 buf) (\<lambda>len.
            or_panic (index 20 buf) (\<lambda>flags.
              let events = drop EVS_HEADER_SIZE buf in
              if length events \<noteq> unat len then Err (EvsLengthMismatch len (length events))
              else Ok (\<lparr>eh_format = evs_from_code code, eh_seq = seq,
                        eh_timestamp = (if flags AND FLAG_TIMESTAMP \<noteq> 0 then Some ts else None), eh_payload_len = len\<rparr>,
                       events)))))))))"

section \<open>Round trips\<close>

text \<open>The metadata that is sent: the bounded one, or a prefix of its lists marked as truncated.\<close>

definition shortened :: "frame_metadata \<Rightarrow> frame_metadata \<Rightarrow> bool" where
  "shortened v m \<longleftrightarrow> v = m \<or>
     v = m\<lparr>fm_truncated := True, fm_features := take (length (fm_features v)) (fm_features m),
           fm_chunks := take (length (fm_chunks v)) (fm_chunks m)\<rparr>"

lemma shortened_iff:
  "shortened v m \<longleftrightarrow> v = m \<or> (\<exists>i j. v = m\<lparr>fm_truncated := True, fm_features := take i (fm_features m), fm_chunks := take j (fm_chunks m)\<rparr>)"
  by (auto simp: shortened_def min_def)

lemma shortened_refl: "shortened m m"
  by (simp add: shortened_def)

lemma shortened_features: "shortened v (m\<lparr>fm_truncated := True, fm_features := take k (fm_features m)\<rparr>) \<Longrightarrow> shortened v m"
proof -
  assume v: "shortened v (m\<lparr>fm_truncated := True, fm_features := take k (fm_features m)\<rparr>)"
  have all: "take (length (fm_chunks m)) (fm_chunks m) = fm_chunks m" by simp
  show ?thesis using v unfolding shortened_iff
  proof (elim disjE exE)
    assume "v = m\<lparr>fm_truncated := True, fm_features := take k (fm_features m)\<rparr>"
    then show "v = m \<or> (\<exists>i j. v = m\<lparr>fm_truncated := True, fm_features := take i (fm_features m), fm_chunks := take j (fm_chunks m)\<rparr>)"
      by (intro disjI2 exI [of _ k] exI [of _ "length (fm_chunks m)"]) simp
  qed (auto simp: take_take)
qed

lemma shortened_chunks: "shortened v (m\<lparr>fm_truncated := True, fm_chunks := take k (fm_chunks m)\<rparr>) \<Longrightarrow> shortened v m"
proof -
  assume v: "shortened v (m\<lparr>fm_truncated := True, fm_chunks := take k (fm_chunks m)\<rparr>)"
  show ?thesis using v unfolding shortened_iff
  proof (elim disjE exE)
    assume "v = m\<lparr>fm_truncated := True, fm_chunks := take k (fm_chunks m)\<rparr>"
    then show "v = m \<or> (\<exists>i j. v = m\<lparr>fm_truncated := True, fm_features := take i (fm_features m), fm_chunks := take j (fm_chunks m)\<rparr>)"
      by (intro disjI2 exI [of _ "length (fm_features m)"] exI [of _ k]) simp
  qed (auto simp: take_take)
qed

text \<open>
  Why lists were shortened: the object with twice as many features, or once there are none with twice
  as many chunks, is over the limit of the packet.
\<close>

definition half_of :: "frame_metadata \<Rightarrow> frame_metadata \<Rightarrow> bool" where
  "half_of v u \<longleftrightarrow>
     (if fm_features u \<noteq> []
      then v = u\<lparr>fm_truncated := True, fm_features := take (length (fm_features u) div 2) (fm_features u)\<rparr>
      else v = u\<lparr>fm_truncated := True, fm_chunks := take (length (fm_chunks u) div 2) (fm_chunks u)\<rparr>)"

definition too_big :: "json_codec \<Rightarrow> frame_metadata \<Rightarrow> bool" where
  "too_big J u \<longleftrightarrow> (\<exists>out. js_write J u = Ok out \<and> 64 * 1024 < length out)"

definition forced :: "json_codec \<Rightarrow> frame_metadata \<Rightarrow> frame_metadata \<Rightarrow> bool" where
  "forced J v m \<longleftrightarrow> v = m \<or> (\<exists>u. half_of v u \<and> too_big J u \<and> shortened u m)"

lemma write_bounded_sound:
  "write_bounded J m = Ok bs \<Longrightarrow>
   \<exists>v. shortened v m \<and> forced J v m \<and> js_write J v = Ok bs \<and> length bs \<le> MAX_FRAME_METADATA_BYTES"
proof (induction J m rule: write_bounded.induct)
  case (1 J m)
  from "1.prems" obtain out where out: "js_write J m = Ok out"
    by (subst (asm) write_bounded.simps) (auto simp: and_then_eq_Ok)
  note step = "1.prems" [unfolded write_bounded.simps [of J m] out and_then_simps]
  show ?case
  proof (cases "length out \<le> MAX_FRAME_METADATA_BYTES")
    case True then show ?thesis using step out shortened_refl by (auto simp: forced_def)
  next
    case big: False
    then have over: "too_big J m" using out by (simp add: too_big_def MAX_FRAME_METADATA_BYTES_def)
    show ?thesis
    proof (cases "fm_features m = []")
      case False
      let ?h = "m\<lparr>fm_truncated := True, fm_features := take (length (fm_features m) div 2) (fm_features m)\<rparr>"
      have half: "half_of ?h m" using False by (simp add: half_of_def)
      from False have "write_bounded J (m\<lparr>fm_truncated := True, fm_features := take (length (fm_features m) div 2) (fm_features m)\<rparr>) = Ok bs"
        using step big by simp
      from "1.IH"(1) [OF big False this] obtain v where "shortened v ?h" "forced J v ?h" "js_write J v = Ok bs"
        "length bs \<le> MAX_FRAME_METADATA_BYTES" by blast
      moreover from this have "forced J v m"
        using half over shortened_refl [of m] shortened_features unfolding forced_def by blast
      ultimately show ?thesis using shortened_features by blast
    next
      case none: True
      show ?thesis
      proof (cases "fm_chunks m = []")
        case False
        let ?h = "m\<lparr>fm_truncated := True, fm_chunks := take (length (fm_chunks m) div 2) (fm_chunks m)\<rparr>"
        have half: "half_of ?h m" using none by (simp add: half_of_def)
        from False have "write_bounded J (m\<lparr>fm_truncated := True, fm_chunks := take (length (fm_chunks m) div 2) (fm_chunks m)\<rparr>) = Ok bs"
          using step big none by simp
        moreover have "\<not> fm_features m \<noteq> []" using none by simp
        ultimately obtain v where "shortened v ?h" "forced J v ?h" "js_write J v = Ok bs"
          "length bs \<le> MAX_FRAME_METADATA_BYTES" using "1.IH"(2) [OF big _ False] by blast
        moreover from this have "forced J v m"
          using half over shortened_refl [of m] shortened_chunks unfolding forced_def by blast
        ultimately show ?thesis using shortened_chunks by blast
      qed (use step big none in simp)
    qed
  qed
qed

lemma validate_shortened: "validate_metadata m = Ok () \<Longrightarrow> shortened v m \<Longrightarrow> validate_metadata v = Ok ()"
  unfolding shortened_iff by (auto simp: validate_metadata_def list_all_iff dest!: in_set_takeD split: if_splits)

lemma metadata_encode_sound:
  assumes "metadata_encode J m = Ok bs"
  obtains v where "shortened v (bound_metadata m)" "forced J v (bound_metadata m)" "js_write J v = Ok bs" "length bs \<le> MAX_FRAME_METADATA_BYTES" "validate_metadata v = Ok ()"
proof -
  have valid: "validate_metadata (bound_metadata m) = Ok ()" and w: "write_bounded J (bound_metadata m) = Ok bs"
    using assms by (auto simp: metadata_encode_def Let_def and_then_eq_Ok)
  from write_bounded_sound [OF w] obtain v where "shortened v (bound_metadata m)" "forced J v (bound_metadata m)" "js_write J v = Ok bs"
    "length bs \<le> MAX_FRAME_METADATA_BYTES" by blast
  then show thesis using that validate_shortened [OF valid] by blast
qed

lemma wire_codes_back: "list_all (\<lambda>r. u8_to_pixel_format (pixel_format_to_u8 (snd r)) = snd r) WIRE_CODES"
  by (simp add: WIRE_CODES_def u8_to_pixel_format_def pixel_format_to_u8_def)

text \<open>A pixel format without a code, and a row stride of zero, are not read back as they were.\<close>

definition on_the_wire :: "pixel_format \<Rightarrow> pixel_format" where
  "on_the_wire f = (if f \<in> set (map snd WIRE_CODES) then f else UnknownFormat 0)"

lemma wire_code_back: "u8_to_pixel_format (pixel_format_to_u8 f) = on_the_wire f"
proof (cases "f \<in> set (map snd WIRE_CODES)")
  case True
  then show ?thesis using wire_codes_back by (auto simp: list_all_iff on_the_wire_def)
next
  case False
  then have "find (\<lambda>r. snd r = f) WIRE_CODES = None" by (force simp: find_None_iff)
  moreover have "find (\<lambda>r. fst r = (0 :: u8)) WIRE_CODES = None" by (simp add: WIRE_CODES_def)
  ultimately show ?thesis using False by (simp add: pixel_format_to_u8_def u8_to_pixel_format_def on_the_wire_def)
qed

definition stride_on_the_wire :: "u32 option \<Rightarrow> u32 option" where
  "stride_on_the_wire s = (if s = Some 0 then None else s)"

lemma frame_prefix_fields:
  fixes h :: frame_header and rest :: bytes
  assumes "length metadata \<le> MAX_FRAME_METADATA_BYTES"
  defines "buf \<equiv> frame_prefix h metadata @ rest"
  shows "le_at 2 0 buf = Some FRAME_MAGIC" "index 2 buf = Some SUPPORTED_VERSION"
    "index 3 buf = Some (pixel_format_to_u8 (fh_pixel_format h))" "le_at 4 4 buf = Some (fh_width h)"
    "le_at 4 8 buf = Some (fh_height h)" "le_at 4 12 buf = Some (fh_seq h)"
    "le_at 4 16 buf = Some (case fh_row_stride h of Some s \<Rightarrow> s | None \<Rightarrow> 0)"
    "le_at 4 20 buf = Some (word_of_nat (length metadata) :: u32)"
    "drop FRAME_HEADER_SIZE buf = rest" "length buf = 24 + length rest"
proof -
  define a where "a = put_le 2 (unat FRAME_MAGIC)"
  define b where "b = [SUPPORTED_VERSION, pixel_format_to_u8 (fh_pixel_format h)]"
  define c where "c = put_le 4 (unat (fh_width h))"
  define d where "d = put_le 4 (unat (fh_height h))"
  define e where "e = put_le 4 (unat (fh_seq h))"
  define f where "f = put_le 4 (unat (case fh_row_stride h of Some s \<Rightarrow> s | None \<Rightarrow> 0))"
  define g where "g = put_le 4 (length metadata)"
  have buf: "buf = a @ b @ c @ d @ e @ f @ g @ rest"
    by (simp add: buf_def frame_prefix_def a_def b_def c_def d_def e_def f_def g_def)
  have len: "length a = 2" "length b = 2" "length c = 4" "length d = 4" "length e = 4" "length f = 4" "length g = 4"
    by (simp_all add: a_def b_def c_def d_def e_def f_def g_def)
  have words: "le_word a = FRAME_MAGIC" "le_word c = fh_width h" "le_word d = fh_height h" "le_word e = fh_seq h"
      "le_word f = (case fh_row_stride h of Some s \<Rightarrow> s | None \<Rightarrow> 0)" "le_word g = (word_of_nat (length metadata) :: u32)"
    using assms(1) le_word_put_le [of "length metadata" 4, where ?'a = 32]
    by (simp_all add: a_def c_def d_def e_def f_def g_def MAX_FRAME_METADATA_BYTES_def)
  show "le_at 2 0 buf = Some FRAME_MAGIC"
    unfolding buf by (simp only: le_at_start len words)
  show "le_at 4 4 buf = Some (fh_width h)"
    using len words by (simp add: buf le_at_inside)
  show "le_at 4 8 buf = Some (fh_height h)"
    using len words by (simp add: buf le_at_inside)
  show "le_at 4 12 buf = Some (fh_seq h)"
    using len words by (simp add: buf le_at_inside)
  show "le_at 4 16 buf = Some (case fh_row_stride h of Some s \<Rightarrow> s | None \<Rightarrow> 0)"
    using len words by (simp add: buf le_at_inside)
  show "le_at 4 20 buf = Some (word_of_nat (length metadata) :: u32)"
    using len words by (simp add: buf le_at_inside)
  show "index 2 buf = Some SUPPORTED_VERSION" "index 3 buf = Some (pixel_format_to_u8 (fh_pixel_format h))"
    using len by (simp_all add: buf index_def nth_append b_def)
  show "drop FRAME_HEADER_SIZE buf = rest" "length buf = 24 + length rest"
    using len by (simp_all add: buf FRAME_HEADER_SIZE_def)
qed

lemma frame_decode_encoded:
  assumes "length metadata \<le> MAX_FRAME_METADATA_BYTES"
  shows "frame_decode J (frame_prefix h metadata @ metadata @ pixels) =
    and_then (if metadata = [] then Ok None
       else with_frame_error InvalidMetadata (and_then (metadata_decode J metadata) (\<lambda>m. Ok (Some m))))
      (\<lambda>v. Ok (h\<lparr>fh_pixel_format := on_the_wire (fh_pixel_format h),
        fh_row_stride := stride_on_the_wire (fh_row_stride h), fh_metadata := v\<rparr>, pixels))"
proof -
  let ?buf = "frame_prefix h metadata @ metadata @ pixels"
  note at = frame_prefix_fields [OF assms(1), of h "metadata @ pixels"]
  have n: "unat (word_of_nat (length metadata) :: u32) = length metadata"
    using assms(1) by (simp add: MAX_FRAME_METADATA_BYTES_def unat_of_nat)
  have "drop (FRAME_HEADER_SIZE + length metadata) ?buf = drop (length metadata) (drop FRAME_HEADER_SIZE ?buf)"
    by (simp only: drop_drop add.commute)
  then have rest: "drop (FRAME_HEADER_SIZE + length metadata) ?buf = pixels" "take (length metadata) (drop FRAME_HEADER_SIZE ?buf) = metadata"
    unfolding at(9) by simp_all
  have header: "\<lparr>fh_pixel_format = u8_to_pixel_format (pixel_format_to_u8 (fh_pixel_format h)), fh_width = fh_width h,
      fh_height = fh_height h, fh_seq = fh_seq h,
      fh_row_stride = (if (case fh_row_stride h of Some s \<Rightarrow> s | None \<Rightarrow> 0) \<noteq> 0 then Some (case fh_row_stride h of Some s \<Rightarrow> s | None \<Rightarrow> 0) else None),
      fh_metadata = v\<rparr> = h\<lparr>fh_pixel_format := on_the_wire (fh_pixel_format h),
        fh_row_stride := stride_on_the_wire (fh_row_stride h), fh_metadata := v\<rparr>" for v
    by (cases "fh_row_stride h") (auto simp: wire_code_back stride_on_the_wire_def)
  have "length ?buf \<ge> FRAME_HEADER_SIZE + length metadata" using at(10) by (simp add: FRAME_HEADER_SIZE_def)
  then show ?thesis
    unfolding frame_decode_def at(1-8) or_panic_simps Let_def n rest header using assms(1) by simp
qed

text \<open>
  Metadata cut to the limits: the first 128 chunks and the first 128 features, every text of a feature
  and the chunk error cut to 1024 characters, everything else as it was; it is marked as truncated
  exactly when it was so before or something was cut. Metadata within the limits is unchanged.
\<close>

definition cut_to_limits :: "frame_metadata \<Rightarrow> frame_metadata \<Rightarrow> bool" where
  "cut_to_limits b m \<longleftrightarrow>
     fm_block_id b = fm_block_id m \<and> fm_ts_dev b = fm_ts_dev m \<and> fm_ts_host_ns b = fm_ts_host_ns m \<and>
     fm_complete b = fm_complete m \<and> fm_chunks b = take 128 (fm_chunks m) \<and>
     fm_features b =
       map (\<lambda>f. \<lparr>ff_name = take 1024 (ff_name f), ff_value = map_option (take 1024) (ff_value f),
                 ff_error = map_option (take 1024) (ff_error f)\<rparr>) (take 128 (fm_features m)) \<and>
     fm_chunk_error b = map_option (take 1024) (fm_chunk_error m) \<and>
     (fm_truncated b \<longleftrightarrow> fm_truncated m \<or> fm_chunks b \<noteq> fm_chunks m \<or> fm_features b \<noteq> fm_features m \<or>
        fm_chunk_error b \<noteq> fm_chunk_error m)"

lemma take_cuts: "take n xs \<noteq> xs \<longleftrightarrow> n < length xs"
  by (metis length_take min.absorb_iff2 not_le take_all_iff)

lemma clipped_option: "map_option clipped x = x \<longleftrightarrow> \<not> any_long x"
  by (cases x) (use take_cuts [of MAX_FRAME_METADATA_TEXT] in \<open>auto simp: any_long_def too_long_def clipped_def\<close>)

lemma clipped_feature: "clip_feature f = f \<longleftrightarrow> \<not> feature_too_long f"
proof -
  have "clipped s = s \<longleftrightarrow> \<not> too_long s" for s
    using take_cuts [of MAX_FRAME_METADATA_TEXT s] by (auto simp: too_long_def clipped_def)
  then show ?thesis using clipped_option by (cases f) (simp add: clip_feature_def feature_too_long_def)
qed

lemma clipped_features:
  "map clip_feature (take n fs) = fs \<longleftrightarrow> length fs \<le> n \<and> (\<forall>f \<in> set (take n fs). \<not> feature_too_long f)"
proof (cases "length fs \<le> n")
  case True
  have "map clip_feature fs = fs \<longleftrightarrow> (\<forall>f \<in> set fs. clip_feature f = f)"
    by (metis map_idI map_eq_conv map_ident)
  then show ?thesis using True by (simp add: clipped_feature)
next
  case False
  then have "length (map clip_feature (take n fs)) \<noteq> length fs" by simp
  then show ?thesis using False by metis
qed

lemma bound_cuts: "cut_to_limits (bound_metadata m) m"
proof -
  have cut: "clipped = take 1024" by (simp add: fun_eq_iff clipped_def MAX_FRAME_METADATA_TEXT_def)
  have items: "MAX_FRAME_METADATA_ITEMS = 128" by (simp add: MAX_FRAME_METADATA_ITEMS_def)
  have "fm_features (bound_metadata m) = map clip_feature (take 128 (fm_features m))"
    by (simp add: bound_metadata_def Let_def items)
  moreover have "fm_truncated (bound_metadata m) \<longleftrightarrow> fm_truncated m \<or> take 128 (fm_chunks m) \<noteq> fm_chunks m \<or>
      map clip_feature (take 128 (fm_features m)) \<noteq> fm_features m \<or>
      map_option clipped (fm_chunk_error m) \<noteq> fm_chunk_error m"
    unfolding take_cuts clipped_option clipped_features by (auto simp: bound_metadata_def Let_def items not_le)
  ultimately show ?thesis
    unfolding cut_to_limits_def
    by (simp add: bound_metadata_def [of m] Let_def items clip_feature_def [abs_def] cut [symmetric])
qed

text \<open>
  C38. An image in its envelope is read back: the header, the bytes of the image, and the metadata
  that was sent. A pixel format without a code on the wire is read as unknown, and a row stride of
  zero as none; every other field is as it was. The metadata is the one cut to the limits or, where its
  text is over 64 KiB, prefixes of its lists marked as truncated, which are shortened no further than
  needed: with twice as many features (or chunks, once there are no features) it was over 64 KiB.
\<close>

theorem frame_roundtrip:
  assumes "frame_encode J h = Ok bs"
    and codec: "\<And>m out. js_write J m = Ok out \<Longrightarrow> out \<noteq> [] \<and> js_read J out = Ok m"
  shows "\<exists>sent. frame_decode J (bs @ pixels) =
      Ok (h\<lparr>fh_pixel_format := (if fh_pixel_format h \<in> set (map snd WIRE_CODES) then fh_pixel_format h else UnknownFormat 0),
            fh_row_stride := (if fh_row_stride h = Some 0 then None else fh_row_stride h), fh_metadata := sent\<rparr>, pixels) \<and>
    (case fh_metadata h of
       None \<Rightarrow> sent = None
     | Some m \<Rightarrow> \<exists>v b. sent = Some v \<and> cut_to_limits b m \<and> shortened v b \<and>
         (v = b \<or> (\<exists>u. half_of v u \<and> too_big J u \<and> shortened u b)))"
  unfolding on_the_wire_def [symmetric] stride_on_the_wire_def [symmetric]
proof (cases "fh_metadata h")
  case None
  then show "\<exists>sent. frame_decode J (bs @ pixels) = Ok (h\<lparr>fh_pixel_format := on_the_wire (fh_pixel_format h),
        fh_row_stride := stride_on_the_wire (fh_row_stride h), fh_metadata := sent\<rparr>, pixels) \<and>
    (case fh_metadata h of
       None \<Rightarrow> sent = None
     | Some m \<Rightarrow> \<exists>v b. sent = Some v \<and> cut_to_limits b m \<and> shortened v b \<and>
         (v = b \<or> (\<exists>u. half_of v u \<and> too_big J u \<and> shortened u b)))"
    using assms(1) frame_decode_encoded [where metadata = "[]" and h = h and J = J and pixels = pixels] by (simp add: frame_encode_def MAX_FRAME_METADATA_BYTES_def)
next
  case (Some m)
  then obtain out where out: "metadata_encode J m = Ok out" and bs: "bs = frame_prefix h out @ out"
    using assms(1) by (auto simp: frame_encode_def and_then_eq_Ok with_frame_error_def split: result.splits)
  from metadata_encode_sound [OF out] obtain v where v: "shortened v (bound_metadata m)" "forced J v (bound_metadata m)"
    "js_write J v = Ok out" "length out \<le> MAX_FRAME_METADATA_BYTES" "validate_metadata v = Ok ()" .
  have "metadata_decode J out = Ok v" using codec [OF v(3)] v(4,5) by (simp add: metadata_decode_def)
  then have "frame_decode J (bs @ pixels) = Ok (h\<lparr>fh_pixel_format := on_the_wire (fh_pixel_format h),
        fh_row_stride := stride_on_the_wire (fh_row_stride h), fh_metadata := Some v\<rparr>, pixels)"
    using codec [OF v(3)] frame_decode_encoded [OF v(4), where h = h and J = J and pixels = pixels] by (simp add: bs with_frame_error_def)
  moreover have "cut_to_limits (bound_metadata m) m" by (rule bound_cuts)
  ultimately show "\<exists>sent. frame_decode J (bs @ pixels) = Ok (h\<lparr>fh_pixel_format := on_the_wire (fh_pixel_format h),
        fh_row_stride := stride_on_the_wire (fh_row_stride h), fh_metadata := sent\<rparr>, pixels) \<and>
    (case fh_metadata h of
       None \<Rightarrow> sent = None
     | Some m \<Rightarrow> \<exists>v b. sent = Some v \<and> cut_to_limits b m \<and> shortened v b \<and>
         (v = b \<or> (\<exists>u. half_of v u \<and> too_big J u \<and> shortened u b)))"
    using Some v(1,2) unfolding forced_def by (intro exI [of _ "Some v"]) auto
qed

text \<open>Metadata of two features whose text is over the limit until one is dropped.\<close>

definition two_features :: frame_metadata where
  "two_features = \<lparr>fm_block_id = ''7'', fm_ts_dev = None, fm_ts_host_ns = None, fm_complete = True, fm_chunks = [],
     fm_features = [\<lparr>ff_name = ''Gain'', ff_value = Some ''3'', ff_error = None\<rparr>, \<lparr>ff_name = ''Width'', ff_value = Some ''64'', ff_error = None\<rparr>],
     fm_chunk_error = None, fm_truncated = False\<rparr>"

definition one_feature :: frame_metadata where
  "one_feature = two_features\<lparr>fm_truncated := True, fm_features := [\<lparr>ff_name = ''Gain'', ff_value = Some ''3'', ff_error = None\<rparr>]\<rparr>"

definition long_text :: bytes where
  "long_text = replicate 70000 1"

definition two_text_codec :: json_codec where
  "two_text_codec =
     \<lparr>js_write = (\<lambda>m. if m = two_features then Ok long_text else if m = one_feature then Ok [2] else Err ''no text''),
      js_read = (\<lambda>bs. if bs = [2] then Ok one_feature else if bs = long_text then Ok two_features else Err ''no object'')\<rparr>"

definition small_image :: frame_header where
  "small_image = \<lparr>fh_pixel_format = Mono8, fh_width = 2, fh_height = 1, fh_seq = 9, fh_row_stride = None, fh_metadata = Some two_features\<rparr>"

lemma long_text_length: "length long_text = 70000"
  by (simp add: long_text_def)

lemma long_text_other: "long_text \<noteq> [2]" "long_text \<noteq> []"
proof -
  have "length long_text \<noteq> length [2 :: byte]" "length long_text \<noteq> length ([] :: bytes)" using long_text_length by simp_all
  then show "long_text \<noteq> [2]" "long_text \<noteq> []" by metis+
qed

lemma two_texts: "js_write two_text_codec m = Ok out \<Longrightarrow> out \<noteq> [] \<and> js_read two_text_codec out = Ok m"
  using long_text_other by (simp add: two_text_codec_def split: if_splits)

lemma two_features_sent: "frame_encode two_text_codec small_image = Ok (frame_prefix small_image [2] @ [2])"
proof -
  have bound: "bound_metadata two_features = two_features"
    by (simp add: bound_metadata_def two_features_def clip_feature_def clipped_def feature_too_long_def too_long_def any_long_def
        MAX_FRAME_METADATA_TEXT_def MAX_FRAME_METADATA_ITEMS_def)
  have valid: "validate_metadata two_features = Ok ()"
    by (simp add: validate_metadata_def two_features_def feature_ok_def too_long_def any_long_def every_def decimal_u64_def
        decimal_value_def decimal_digit_def MAX_FRAME_METADATA_TEXT_def MAX_FRAME_METADATA_ITEMS_def)
  have half: "two_features\<lparr>fm_truncated := True, fm_features := take (length (fm_features two_features) div 2) (fm_features two_features)\<rparr> = one_feature"
    by (simp add: two_features_def one_feature_def)
  have other: "one_feature \<noteq> two_features" "fm_features two_features \<noteq> []"
    by (simp_all add: two_features_def one_feature_def)
  have "write_bounded two_text_codec one_feature = Ok [2]"
    using other by (subst write_bounded.simps) (simp add: two_text_codec_def MAX_FRAME_METADATA_BYTES_def)
  then have "write_bounded two_text_codec two_features = Ok [2]"
    using other by (subst write_bounded.simps) (simp add: half long_text_length two_text_codec_def MAX_FRAME_METADATA_BYTES_def)
  then show ?thesis
    by (simp add: frame_encode_def small_image_def metadata_encode_def bound valid with_frame_error_def)
qed

lemma frame_roundtrip_witness:
  "\<exists>v. frame_decode two_text_codec ((frame_prefix small_image [2] @ [2]) @ [10, 20]) =
      Ok (small_image\<lparr>fh_metadata := Some v\<rparr>, [10, 20]) \<and> fm_block_id v = ''7'' \<and> fm_chunks v = []"
proof -
  have "fh_pixel_format small_image \<in> set (map snd WIRE_CODES)" "fh_row_stride small_image = None"
    "fh_metadata small_image = Some two_features"
    by (simp_all add: small_image_def WIRE_CODES_def)
  note side = this
  have "small_image\<lparr>fh_pixel_format := fh_pixel_format small_image, fh_row_stride := None, fh_metadata := x\<rparr> =
      small_image\<lparr>fh_metadata := x\<rparr>" for x by (simp add: small_image_def)
  note same = this
  obtain sent where "frame_decode two_text_codec ((frame_prefix small_image [2] @ [2]) @ [10, 20]) =
      Ok (small_image\<lparr>fh_metadata := sent\<rparr>, [10, 20])"
    "\<exists>v b. sent = Some v \<and> cut_to_limits b two_features \<and> shortened v b"
    using frame_roundtrip [OF two_features_sent two_texts, of "[10, 20]"] unfolding side(2,3)
    by (auto simp only: side(1) if_True option.case same option.distinct if_False split: if_splits)
  moreover have "fm_block_id v = ''7'' \<and> fm_chunks v = []" if "cut_to_limits b two_features" "shortened v b" for v b
    using that by (auto simp: cut_to_limits_def shortened_iff two_features_def)
  ultimately show ?thesis by blast
qed

lemma evs_prefix_fields:
  fixes h :: evs_header and rest :: bytes
  defines "buf \<equiv> evs_encode h @ rest"
  shows "le_at 2 0 buf = Some EVS_MAGIC" "index 2 buf = Some EVS_SUPPORTED_VERSION" "index 3 buf = Some (evs_code (eh_format h))"
    "le_at 4 4 buf = Some (eh_seq h)" "le_at 8 8 buf = Some (case eh_timestamp h of Some t \<Rightarrow> t | None \<Rightarrow> 0)"
    "le_at 4 16 buf = Some (eh_payload_len h)" "index 20 buf = Some (if eh_timestamp h \<noteq> None then FLAG_TIMESTAMP else 0)"
    "drop EVS_HEADER_SIZE buf = rest" "length buf = 24 + length rest"
proof -
  define a where "a = put_le 2 (unat EVS_MAGIC)"
  define b where "b = [EVS_SUPPORTED_VERSION, evs_code (eh_format h)]"
  define c where "c = put_le 4 (unat (eh_seq h))"
  define d where "d = put_le 8 (unat (case eh_timestamp h of Some t \<Rightarrow> t | None \<Rightarrow> 0))"
  define e where "e = put_le 4 (unat (eh_payload_len h))"
  define f where "f = [if eh_timestamp h \<noteq> None then FLAG_TIMESTAMP else 0, 0, 0, 0]"
  have buf: "buf = a @ b @ c @ d @ e @ f @ rest"
    by (simp add: buf_def evs_encode_def a_def b_def c_def d_def e_def f_def)
  have len: "length a = 2" "length b = 2" "length c = 4" "length d = 8" "length e = 4" "length f = 4"
    by (simp_all add: a_def b_def c_def d_def e_def f_def)
  have words: "le_word a = EVS_MAGIC" "le_word c = eh_seq h" "le_word d = (case eh_timestamp h of Some t \<Rightarrow> t | None \<Rightarrow> 0)"
      "le_word e = eh_payload_len h"
    by (simp_all add: a_def c_def d_def e_def)
  show "le_at 2 0 buf = Some EVS_MAGIC"
    unfolding buf by (simp only: le_at_start len words)
  show "le_at 4 4 buf = Some (eh_seq h)"
    using len words by (simp add: buf le_at_inside)
  show "le_at 8 8 buf = Some (case eh_timestamp h of Some t \<Rightarrow> t | None \<Rightarrow> 0)"
    using len words by (simp add: buf le_at_inside)
  show "le_at 4 16 buf = Some (eh_payload_len h)"
    using len words by (simp add: buf le_at_inside)
  show "index 2 buf = Some EVS_SUPPORTED_VERSION" "index 3 buf = Some (evs_code (eh_format h))"
      "index 20 buf = Some (if eh_timestamp h \<noteq> None then FLAG_TIMESTAMP else 0)"
    using len by (simp_all add: buf index_def nth_append b_def f_def)
  show "drop EVS_HEADER_SIZE buf = rest" "length buf = 24 + length rest"
    using len by (simp_all add: buf EVS_HEADER_SIZE_def)
qed

lemma evs_format_back: "evs_from_code (evs_code f) = f"
  by (cases f) (simp_all add: evs_from_code_def evs_code_def)

text \<open>A block of events is read back with its header, when the header says its length.\<close>

lemma evs_roundtrip:
  assumes "length events = unat (eh_payload_len h)"
  shows "evs_decode (evs_encode h @ events) = Ok (h, events)"
proof -
  note at = evs_prefix_fields [of h events]
  have flag: "((if eh_timestamp h \<noteq> None then FLAG_TIMESTAMP else 0) AND FLAG_TIMESTAMP \<noteq> 0) \<longleftrightarrow> eh_timestamp h \<noteq> None"
    by (simp add: FLAG_TIMESTAMP_def)
  have header: "\<lparr>eh_format = evs_from_code (evs_code (eh_format h)), eh_seq = eh_seq h,
      eh_timestamp = (if eh_timestamp h \<noteq> None then Some (case eh_timestamp h of Some t \<Rightarrow> t | None \<Rightarrow> 0) else None),
      eh_payload_len = eh_payload_len h\<rparr> = h"
    by (cases h; cases "eh_timestamp h") (simp_all add: evs_format_back)
  show ?thesis
    unfolding evs_decode_def at(1-7) or_panic_simps Let_def at(8) flag header using at(9) assms by (simp add: EVS_HEADER_SIZE_def)
qed

end
