(* ===== verification/Spec2Isabelle.thy ===== *)
theory Spec2Isabelle
  imports Resend_Props Assembly_Props Assembly_Order Receiver_Props Formula_Eval Conversions Resend_Roundtrip Fake_Link Node_Invalidation Node_Reads_Props
    Node_Writes_Props U3v_Stream_Props Fake_U3v_Open Persistence_Props Configuration_Roundtrip
    Pixel_Samples U3v_Device Zenoh_Frame
begin

text \<open>
  A verification library for viva-genicam, a Rust stack for GenICam cameras on GigE Vision and
  USB3 Vision. The program is a pile of crates: wire formats and status codes
  (\<^verbatim>\<open>viva-gencp\<close>, \<^verbatim>\<open>viva-gige\<close>, \<^verbatim>\<open>viva-u3v\<close>), the GenApi feature
  model (\<^verbatim>\<open>viva-genapi-xml\<close>, \<^verbatim>\<open>viva-genapi\<close>), and the stream engine and camera
  facade on top (\<^verbatim>\<open>viva-genicam\<close>), with simulated cameras
  (\<^verbatim>\<open>viva-fake-gige\<close>, \<^verbatim>\<open>viva-fake-u3v\<close>), services, bindings and a studio around them.
  Paths below are relative to \<^verbatim>\<open>src/crates\<close>.

  How an image travels. The camera cuts a block into datagrams: a leader, data packets of a fixed
  stride, a trailer (theory \<open>Gvsp_Encode\<close>). The receive thread parses each datagram
  (\<open>Gvsp_Packet\<close>), and the assembler places the data by packet number, keeps up to three blocks
  open, closes them on completion, timeout or lack of room, and hands them out in order
  (\<open>Assembly\<close>); which packets arrived is a bitmap (\<open>Packet_Bitmap\<close>), which lost ones to ask for
  again is the resend policy (\<open>Resend\<close>). Finished blocks are split into image and chunks and go
  through a bounded queue to the application, each counted once (\<open>Receiver\<close>).

  How a feature travels. The application names a feature; the node map finds the register, bit
  field, enumeration or formula behind it and converts its bytes; the register is read or written
  with GVCP transactions (\<open>Gvcp\<close>, \<open>Gvcp_Device\<close>), which a camera answers (\<open>Fake_Gvcp\<close>,
  \<open>Fake_Registers\<close>).

  Theories and sources.

  \<^item> \<open>Prelude\<close>: bytes and big-endian fields, the outcome \<open>result\<close> of a fallible call (\<open>Panic\<close> is a
  Rust panic), \<open>bind\<close>, list lemmas.
  \<^item> \<open>Gencp\<close>, \<open>Gige_Status\<close>, \<open>U3v_Status\<close>: \<^verbatim>\<open>viva-gencp/src/lib.rs\<close> and the two
  \<^verbatim>\<open>status.rs\<close>; the \<open>transport_status!\<close> macro is the locale \<open>status_table\<close>, interpreted on both
  tables.
  \<^item> \<open>Gvsp_Packet\<close>, \<open>Packet_Bitmap\<close>: \<^verbatim>\<open>viva-gige/src/gvsp.rs\<close>. \<open>Gvsp_Encode\<close>:
  \<^verbatim>\<open>viva-fake-gige/src/gvsp.rs\<close>; parser and encoder are inverse.
  \<^item> \<open>F64\<close>, \<open>Resend\<close>, \<open>Resend_Props\<close>, \<open>Stream_Stats\<close>, \<open>Assembly\<close>, \<open>Assembly_Inv\<close>,
  \<open>Assembly_Props\<close>, \<open>Assembly_Complete\<close>, \<open>Assembly_Order\<close>, \<open>Receiver\<close>, \<open>Accounting\<close>, \<open>Receiver_Props\<close>: the modules of
  \<^verbatim>\<open>viva-genicam/src/stream\<close>. The assembler's state is the record \<open>assembler\<close>; its steps are
  datagrams and ticks, \<open>reachable\<close> the states they lead to; invariants hold in all of them.
  \<open>Assembly_Order\<close>: blocks leave in the order they started and each is accounted for. \<open>F64\<close>
  is as much of IEEE binary64 as the resend budget computes with.
  \<^item> \<open>Gvcp\<close>, \<open>Gvcp_Props\<close>, \<open>Gvcp_Device\<close>, \<open>Gvcp_Memory\<close>: \<^verbatim>\<open>viva-gige/src/gvcp.rs\<close>. The
  socket is a script of events (datagrams, errors, timers) inside the record \<open>control\<close>, the camera a
  function, so a statement for every script and function is one for every network and camera.
  \<open>Gvcp_Memory\<close> states what a camera promises of its memory as the locales \<open>memory_channel\<close> and
  \<open>writable_memory\<close>, under which chunked and unaligned access is exact.
  \<^item> \<open>Fake_Registers\<close>, \<open>Fake_Gvcp\<close>, \<open>Fake_Resend\<close>: the in-process camera,
  \<^verbatim>\<open>viva-fake-gige/src\<close> \<^verbatim>\<open>registers.rs\<close>, \<^verbatim>\<open>gvcp_server.rs\<close>, \<^verbatim>\<open>resend.rs\<close>;
  one datagram is one step \<open>serve_datagram\<close>. \<open>Fake_Access\<close>: exclusive control. \<open>Fake_Camera\<close>
  interprets the two memory locales on this camera; \<open>Fake_Link\<close> and \<open>Resend_Roundtrip\<close> state what
  host and camera do together.
  \<^item> \<open>Bitops\<close>, \<open>Conversions\<close>: \<^verbatim>\<open>viva-genapi/src/bitops.rs\<close> and \<^verbatim>\<open>conversions.rs\<close>.
  \<open>Swissknife\<close>, \<open>Formula_Parser\<close>, \<open>Formula_Total\<close>, \<open>Formula_Grammar\<close>, \<open>Formula_Eval\<close>:
  \<^verbatim>\<open>viva-genapi/src/swissknife.rs\<close>. \<open>Formula_Grammar\<close> states the grammar with operator tables
  of its own, the documented priorities; the arithmetic of \<open>Swissknife\<close> panics where the code's would
  (a zero divisor, an argument that is not there), so that evaluation never panics is a property of its checks.
  \<^item> \<open>Nodes\<close>: the declarations of \<^verbatim>\<open>viva-genapi-xml/src/lib.rs\<close> and the nodes of
  \<^verbatim>\<open>viva-genapi/src/nodes.rs\<close>. \<open>Nodemap\<close>, \<open>Nodemap_Paths\<close>: construction of the node map
  and what follows from the declarations alone (\<^verbatim>\<open>nodemap.rs\<close>, \<^verbatim>\<open>nodemap/ports.rs\<close>,
  \<^verbatim>\<open>nodemap/refresh.rs\<close>); \<open>Nodemap_Build\<close>, \<open>Nodemap_Props\<close>: every document loads with its
  dependencies recorded, paths and closures are the reachable sets of the declared graph. \<open>Node_State\<close>:
  the cells of the nodes and what invalidates them; \<open>Node_Invalidation\<close>: exactly the dependents are
  invalidated, and are left with nothing cached. \<open>Node_Reads\<close>: every read, as bodies over a record of the methods they call, the knot
  tied with fuel that stands for the stack (\<open>Panic\<close> is its overflow); \<open>Node_Reads_Props\<close>: what reads
  return and where they do not. \<open>Node_Writes\<close>: writes, converters in the write direction, commands
  and the access mode in force; \<open>Node_Writes_Props\<close>: what is refused, what is written and what reads back.
  \<^item> \<open>Feature_State\<close>: what a feature shows an application (\<^verbatim>\<open>viva-genapi/src/state.rs\<close>).
  \<open>Feature_Text\<close>: values as text (\<^verbatim>\<open>text.rs\<close>). \<open>Configuration_Text\<close>, \<open>Restore_Order\<close>,
  \<open>Persistence\<close>: the configuration file, the order features are restored in, saving and loading
  (\<^verbatim>\<open>persistence.rs\<close>). \<open>Configuration_Roundtrip\<close>: a written file reads back.
  \<open>Persistence_Props\<close>: what a feature that is not there shows, and that a load accounts for every value: the attempts it
  makes are a log, and what succeeded in it and what is reported are the values of the file.

  \<^item> \<open>U3v_Wire\<close>, \<open>U3v_Stream\<close>, \<open>U3v_Control\<close>, \<open>U3v_Usb\<close>: \<^verbatim>\<open>viva-u3v/src/stream.rs\<close>,
  \<^verbatim>\<open>control.rs\<close> and \<^verbatim>\<open>usb.rs\<close>. The locale \<open>bulk_endpoint\<close> states what a stream relies on of its
  endpoint; it is interpreted on the crate's own queue over its in-memory transport.
  \<open>U3v_Stream_Props\<close>: layouts hold their payloads, blocks are delivered as they were sent, frames are
  consistent whatever the endpoint does.
  \<^item> \<open>U3v_Bootstrap\<close>, \<open>U3v_Event\<close>, \<open>U3v_Device\<close>: \<^verbatim>\<open>bootstrap.rs\<close>, \<^verbatim>\<open>event.rs\<close> and
  \<^verbatim>\<open>device.rs\<close> of \<^verbatim>\<open>viva-u3v/src\<close>: the register maps, the events and what an opened device does
  with both. Event commands are accepted exactly when events tile them.
  \<^item> \<open>Zenoh_Frame\<close>: the envelopes of images and events on the network,
  \<^verbatim>\<open>viva-zenoh-api/src\<close> \<^verbatim>\<open>frame_header.rs\<close>, \<^verbatim>\<open>frame_metadata.rs\<close>, \<^verbatim>\<open>evs_header.rs\<close>; what
  is sent is read back.
  \<^item> \<open>Pixel_Format\<close>, \<open>Pixel_Convert\<close>: pixel formats and the conversion of frames,
  \<^verbatim>\<open>viva-pfnc/src\<close> \<^verbatim>\<open>lib.rs\<close> and \<^verbatim>\<open>convert.rs\<close>. \<open>Pixel_Sizes\<close>: packing groups of the formats;
  \<open>Pixel_Props\<close>: conversions do not panic; \<open>Pixel_Samples\<close>: samples are the bits their format says.
  \<^item> \<open>Fake_U3v_Registers\<close>, \<open>Fake_U3v\<close>: the in-process camera, \<^verbatim>\<open>viva-fake-u3v/src\<close>
  \<^verbatim>\<open>registers.rs\<close> and \<^verbatim>\<open>transport.rs\<close>. \<open>Fake_U3v_Link\<close>: the locale \<open>control_memory\<close> (what a
  chunked read relies on) interpreted on this camera. \<open>Fake_U3v_Open\<close>: its memory block by
  block, and what a host that opens it reads.

  Bounds and fuel. Loops are recursive functions with their termination proved (measures on the
  remaining bytes, packets, attempts or pending acknowledgements), except the recursive-descent
  parser, the resolution of caching modes and the invalidation recursion, which take fuel: fuel linear
  in the formula, the number of nodes or the number of recorded dependencies is proved to suffice. Machine integers are words of their width; \<open>usize\<close> lengths
  are \<open>nat\<close>, with the overflow checks of the code written out.

  What is assumed. Floating-point operations of formulas and registers are a parameter (the precision
  of most is not specified by the language), and so are the \<open>f32\<close> operations of colour conversion, the printing and parsing of
  floating-point numbers, the wording of errors in a configuration file, the register interface of the node map, the JSON and ZIP libraries and
  the standard library's UTF-8 decoding; statements hold for every choice.

  Not modelled. Operating-system calls, timers and log output; what tests use only (counters,
  setters); the host's discovery; the XML parser, which is glue over a third-party reader;
  the USB library behind \<^verbatim>\<open>viva-u3v\<close> and the reports its devices print; the services, bindings, command
  line and studio. They are listed with their reasons in the manifest.
\<close>

section \<open>Delivered blocks\<close>

text \<open>
  C4. Every block handed out is within the buffer limit, and one handed out as complete has its
  leader and its trailer, and its expected size is the size of its payload.
\<close>
theorem delivered_blocks_sound:
  assumes "reachable config a out" and "b \<in> set out"
  shows "length (ab_payload b) \<le> buffer_limit config \<and>
    (ab_status b = Complete \<longrightarrow>
       ab_leader b \<noteq> None \<and> ab_trailer_size_y b \<noteq> None \<and> ab_expected_size b = Some (length (ab_payload b)))"
  using reachable_sound [OF assms(1)] assms(2) by (simp add: block_sound_def)

lemma delivered_blocks_sound_witness:
  "\<exists>b. snd (ingest_all (assembler_new (assembly_config_new 40) stats_new) example_packets) = [b] \<and>
     ab_leader b \<noteq> None \<and> ab_expected_size b = Some 7"
proof -
  obtain a b where r: "ingest_all (assembler_new (assembly_config_new 40) stats_new) example_packets = (a, [b])"
    and c: "ab_status b = Complete" "ab_payload b = [1, 2, 3, 4, 5, 6, 7]"
    using ingest_all_block [OF example_agrees, of example_packets stats_new] example_all
    by (auto simp: sent_block_def)
  have "reachable (assembly_config_new 40) a ([] @ [b])"
    using reachable_ingest_all [OF reachable.start [of "assembly_config_new 40" stats_new], of example_packets]
    by (simp add: r)
  from delivered_blocks_sound [OF this, of b] c show ?thesis by (simp add: r)
qed

end
